(* ===== verification/Prelude.thy ===== *)
theory Prelude
  imports Main
begin

text \<open>
  Shared vocabulary of the development: the errors a request can end with and how they
  propagate, the JavaScript idioms the services use on optional values and arrays
  (truthiness, \<open>??\<close>, \<open>new Set\<close>, \<open>slice\<close>), sums over rows, and amounts of money as a
  whole number of paisa with the text \<open>toFixed(2)\<close> shows.
\<close>

section \<open>Collections of facts\<close>

named_theorems result_simps \<open>how checks and binds succeed\<close>
named_theorems row_simps \<open>what row operations do to a table\<close>
named_theorems keeps \<open>which operation keeps which invariant\<close>

section \<open>Results\<close>

text \<open>
  The NestJS exceptions the services throw, with their message, and the failures the database
  reports (\<open>DbError\<close> with Prisma's code: P2002 a unique constraint, P2003 a missing row a
  foreign key names or a row still named by one, P2020 a number outside its column's range,
  P2025 an update that matched no row). \<open>Locked\<close> is the 423 of a workspace with a PIN, naming it;
  \<open>Unexpected\<close> is any other \<open>Error\<close>, answered with a 500.
\<close>

datatype http_error =
    BadRequest string
  | NotFound string
  | Conflict string
  | Forbidden string
  | Unauthorized string
  | Locked string
  | DbError string
  | Unexpected string

type_synonym 'a result = "http_error + 'a"

definition rbind :: "'a result \<Rightarrow> ('a \<Rightarrow> 'b result) \<Rightarrow> 'b result" where
  "rbind r f = (case r of Inl e \<Rightarrow> Inl e | Inr x \<Rightarrow> f x)"

definition check :: "bool \<Rightarrow> http_error \<Rightarrow> unit result" where
  "check ok e = (if ok then Inr () else Inl e)"

lemma rbind_Inl [simp]: "rbind (Inl e) f = Inl e"
  by (simp add: rbind_def)

lemma rbind_Inr [simp]: "rbind (Inr x) f = f x"
  by (simp add: rbind_def)

lemma rbind_eq_Inr [result_simps]: "rbind r f = Inr y \<longleftrightarrow> (\<exists>x. r = Inr x \<and> f x = Inr y)"
  by (cases r) auto

lemma check_eq_Inr [result_simps]: "check ok e = Inr u \<longleftrightarrow> ok"
  by (simp add: check_def)

lemma check_eq_Inl [result_simps]: "check ok e = Inl e' \<longleftrightarrow> \<not> ok \<and> e' = e"
  by (auto simp: check_def)

lemma check_True [simp]: "check True e = Inr ()" and check_False [simp]: "check False e = Inl e"
  by (simp_all add: check_def)

text \<open>An \<open>for ... of\<close> loop whose body may throw: the first error ends it.\<close>

fun rfold :: "('x \<Rightarrow> 's \<Rightarrow> 's result) \<Rightarrow> 'x list \<Rightarrow> 's \<Rightarrow> 's result" where
  "rfold f [] s = Inr s"
| "rfold f (x # xs) s = rbind (f x s) (rfold f xs)"

lemma rfold_invariant:
  assumes "rfold f xs s = Inr s'" and "I s"
    and "\<And>x s s'. x \<in> set xs \<Longrightarrow> I s \<Longrightarrow> f x s = Inr s' \<Longrightarrow> I s'"
  shows "I s'"
  using assms by (induction xs arbitrary: s) (auto simp: rbind_eq_Inr)

section \<open>Optional values\<close>

text \<open>
  A field that may be \<open>undefined\<close> (or a nullable column) is an \<open>option\<close>; a field that
  may be \<open>undefined\<close>, \<open>null\<close> or a value is an \<open>option option\<close>. A string is
  truthy when it is present and not empty.
\<close>

definition truthy :: "string option \<Rightarrow> bool" where
  "truthy s = (case s of None \<Rightarrow> False | Some t \<Rightarrow> t \<noteq> [])"

definition orelse :: "'a option \<Rightarrow> 'a \<Rightarrow> 'a" where
  "orelse x d = (case x of None \<Rightarrow> d | Some v \<Rightarrow> v)"

lemma truthy_simps [simp]: "\<not> truthy None" "truthy (Some s) \<longleftrightarrow> s \<noteq> []"
  by (simp_all add: truthy_def)

lemma orelse_simps [simp]: "orelse None d = d" "orelse (Some v) d = v"
  by (simp_all add: orelse_def)

lemma truthyE: "truthy s \<Longrightarrow> (\<And>t. s = Some t \<Longrightarrow> t \<noteq> [] \<Longrightarrow> P) \<Longrightarrow> P"
  by (cases s) auto

text \<open>A text in double quotes, as the messages show names.\<close>

definition quoted :: "string \<Rightarrow> string" where
  "quoted s = CHR 0x22 # s @ [CHR 0x22]"

section \<open>Arrays\<close>

text \<open>\<open>[...new Set(xs)]\<close>: the distinct elements in the order of their first occurrence.\<close>

fun js_set_from :: "'a list \<Rightarrow> 'a list \<Rightarrow> 'a list" where
  "js_set_from seen [] = []"
| "js_set_from seen (x # xs) =
     (if x \<in> set seen then js_set_from seen xs else x # js_set_from (x # seen) xs)"

definition js_set :: "'a list \<Rightarrow> 'a list" where
  "js_set xs = js_set_from [] xs"

lemma set_js_set_from: "set (js_set_from seen xs) = set xs - set seen"
  by (induction xs arbitrary: seen) auto

lemma distinct_js_set_from: "distinct (js_set_from seen xs)"
  by (induction xs arbitrary: seen) (auto simp: set_js_set_from)

lemma set_js_set [simp]: "set (js_set xs) = set xs"
  by (simp add: js_set_def set_js_set_from)

lemma distinct_js_set [simp]: "distinct (js_set xs)"
  by (simp add: js_set_def distinct_js_set_from)

text \<open>\<open>xs.slice(from, to)\<close> for bounds that are not negative.\<close>

definition slice :: "nat \<Rightarrow> nat \<Rightarrow> 'a list \<Rightarrow> 'a list" where
  "slice i j xs = drop i (take j xs)"

section \<open>Sums over rows\<close>

definition sum_by :: "('a \<Rightarrow> int) \<Rightarrow> 'a list \<Rightarrow> int" where
  "sum_by f xs = sum_list (map f xs)"

lemma sum_by_simps [simp]:
  "sum_by f [] = 0"
  "sum_by f (x # xs) = f x + sum_by f xs"
  "sum_by f (xs @ ys) = sum_by f xs + sum_by f ys"
  by (simp_all add: sum_by_def)

lemma sum_by_cong: "(\<And>x. x \<in> set xs \<Longrightarrow> f x = g x) \<Longrightarrow> sum_by f xs = sum_by g xs"
  by (induction xs) auto

lemma sum_by_map [simp]: "sum_by f (map g xs) = sum_by (\<lambda>x. f (g x)) xs"
  by (induction xs) auto

lemma sum_by_nonneg: "(\<And>x. x \<in> set xs \<Longrightarrow> 0 \<le> f x) \<Longrightarrow> 0 \<le> sum_by f xs"
  by (induction xs) auto

lemma sum_by_minus: "sum_by (\<lambda>x. - f x) xs = - sum_by f xs"
  by (induction xs) auto

lemma sum_by_plus: "sum_by (\<lambda>x. f x + g x) xs = sum_by f xs + sum_by g xs"
  by (induction xs) auto

lemma sum_by_diff: "sum_by (\<lambda>x. f x - g x) xs = sum_by f xs - sum_by g xs"
  by (induction xs) auto

lemma sum_by_zero [simp]: "sum_by (\<lambda>x. 0) xs = 0"
  by (induction xs) auto

lemma sum_by_filter: "sum_by f (filter P xs) = sum_by (\<lambda>x. if P x then f x else 0) xs"
  by (induction xs) auto

lemma sum_by_split: "sum_by f xs = sum_by f (filter P xs) + sum_by f (filter (\<lambda>x. \<not> P x) xs)"
  by (induction xs) auto

lemma sum_by_swap: "sum_by (\<lambda>x. sum_by (f x) ys) xs = sum_by (\<lambda>y. sum_by (\<lambda>x. f x y) xs) ys"
  by (induction xs) (auto simp: sum_by_plus)

lemma sum_by_delta:
  "distinct (map k xs) \<Longrightarrow> x \<in> set xs \<Longrightarrow> sum_by (\<lambda>y. if k y = k x then v y else 0) xs = v x"
proof (induction xs)
  case (Cons y ys)
  show ?case
  proof (cases "k y = k x")
    case True
    with Cons.prems have "y = x" and "k x \<notin> k ` set ys"
      by (auto simp: image_iff)
    then have "sum_by (\<lambda>z. if k z = k x then v z else 0) ys = sum_by (\<lambda>z. 0) ys"
      by (intro sum_by_cong) (auto simp: image_iff)
    with \<open>y = x\<close> show ?thesis by simp
  next
    case False
    with Cons show ?thesis by auto
  qed
qed simp

text \<open>Rows grouped by the one key each of them names.\<close>

lemma sum_by_member:
  assumes "distinct (map f xs)" and "\<And>c. c \<in> set cs \<Longrightarrow> g c \<in> f ` set xs"
  shows "sum_by (\<lambda>x. sum_by v (filter (\<lambda>c. g c = f x) cs)) xs = sum_by v cs"
proof -
  have "sum_by (\<lambda>x. sum_by (\<lambda>c. if g c = f x then v c else 0) cs) xs = sum_by (\<lambda>c. sum_by (\<lambda>x. if g c = f x then v c else 0) xs) cs"
    by (rule sum_by_swap)
  also have "\<dots> = sum_by v cs"
  proof (rule sum_by_cong)
    fix c assume "c \<in> set cs"
    with assms(2) obtain x where x: "x \<in> set xs" "g c = f x" by auto
    have "sum_by (\<lambda>y. if f x = f y then v c else 0) xs = sum_by (\<lambda>y. if f y = f x then v c else 0) xs"
      by (intro sum_by_cong) auto
    with sum_by_delta [OF assms(1) x(1), of "\<lambda>_. v c"] x(2) show "sum_by (\<lambda>x. if g c = f x then v c else 0) xs = v c" by simp
  qed
  finally show ?thesis by (simp add: sum_by_filter)
qed

lemma sum_by_outside: "k \<notin> f ` set xs \<Longrightarrow> sum_by (\<lambda>y. if f y = k then v y else 0) xs = 0"
  by (induction xs) auto

lemma sum_by_sort_key [simp]: "sum_by f (sort_key g xs) = sum_by f xs"
proof -
  have ins: "sum_by f (insort_key g x xs) = f x + sum_by f xs" for x xs
    by (induction xs) auto
  show ?thesis by (induction xs) (simp_all add: ins)
qed

section \<open>Money\<close>

text \<open>
  Every amount is a whole number of paisa: money columns are \<open>Decimal(14,2)\<close>, amounts in
  requests are checked to at most two decimals (\<open>IsMoney\<close>, \<open>MONEY_STRING_REGEX\<close>), and sums
  and differences of such numbers are exact in the decimal arithmetic the services use. A
  column holds twelve whole digits: \<open>fits_money\<close>.
\<close>

type_synonym money = int

definition fits_money :: "money \<Rightarrow> bool" where
  "fits_money m \<longleftrightarrow> \<bar>m\<bar> < 10 ^ 14"

definition store_money :: "money \<Rightarrow> money result" where
  "store_money m = (if fits_money m then Inr m else Inl (DbError ''P2020''))"

lemma store_money_eq_Inr [result_simps]: "store_money m = Inr m' \<longleftrightarrow> fits_money m \<and> m' = m"
  by (auto simp: store_money_def)

text \<open>The decimal digits of a number, and \<open>toFixed(2)\<close>.\<close>

definition digit_char :: "nat \<Rightarrow> char" where
  "digit_char d = char_of (48 + d)"

fun nat_digits :: "nat \<Rightarrow> string" where
  "nat_digits n = (if n < 10 then [digit_char n] else nat_digits (n div 10) @ [digit_char (n mod 10)])"

declare nat_digits.simps [simp del]

definition int_text :: "int \<Rightarrow> string" where
  "int_text i = (if i < 0 then ''-'' else []) @ nat_digits (nat \<bar>i\<bar>)"

definition to_fixed2 :: "money \<Rightarrow> string" where
  "to_fixed2 m =
     (let a = nat \<bar>m\<bar> in
      (if m < 0 then ''-'' else []) @ nat_digits (a div 100) @ ''.'' @
      [digit_char (a mod 100 div 10), digit_char (a mod 10)])"

text \<open>Reading such a text back, as \<open>new Prisma.Decimal(text)\<close> does on it.\<close>

definition char_digit :: "char \<Rightarrow> nat option" where
  "char_digit c = (let n = of_char c :: nat in if 48 \<le> n \<and> n \<le> 57 then Some (n - 48) else None)"

fun read_nat :: "nat \<Rightarrow> string \<Rightarrow> (nat \<times> string)" where
  "read_nat acc [] = (acc, [])"
| "read_nat acc (c # cs) =
     (case char_digit c of None \<Rightarrow> (acc, c # cs) | Some d \<Rightarrow> read_nat (10 * acc + d) cs)"

definition read_fixed2 :: "string \<Rightarrow> money option" where
  "read_fixed2 s =
     (let (neg, body) = (case s of [] \<Rightarrow> (False, s) | c # cs \<Rightarrow> if c = CHR ''-'' then (True, cs) else (False, s))
      in case read_nat 0 body of
           (w, [p, d1, d2]) \<Rightarrow>
             (case (char_digit d1, char_digit d2) of
                (Some a, Some b) \<Rightarrow>
                  if p = CHR ''.'' then Some ((if neg then - 1 else 1) * int (100 * w + 10 * a + b)) else None
              | _ \<Rightarrow> None)
         | _ \<Rightarrow> None)"

lemma char_digit_digit_char [simp]: "d < 10 \<Longrightarrow> char_digit (digit_char d) = Some d"
  by (simp add: char_digit_def digit_char_def Let_def)

lemma digit_char_not_minus: "d < 10 \<Longrightarrow> digit_char d \<noteq> CHR ''-''"
proof
  assume "d < 10" and "digit_char d = CHR ''-''"
  then have "char_digit (CHR ''-'') = Some d" by (metis char_digit_digit_char)
  then show False by (simp add: char_digit_def)
qed

lemma char_digit_point [simp]: "char_digit (CHR ''.'') = None"
  by (simp add: char_digit_def)

lemma read_nat_digits:
  "read_nat acc (nat_digits n @ rest) = read_nat (acc * 10 ^ length (nat_digits n) + n) rest"
proof (induction n arbitrary: acc rest rule: nat_digits.induct)
  case (1 n)
  show ?case
  proof (cases "n < 10")
    case True
    then show ?thesis by (subst (1 2) nat_digits.simps) (simp add: ac_simps)
  next
    case False
    have "read_nat acc (nat_digits n @ rest)
        = read_nat acc (nat_digits (n div 10) @ (digit_char (n mod 10) # rest))"
      using False by (subst nat_digits.simps) simp
    also have "\<dots> = read_nat (10 * (acc * 10 ^ length (nat_digits (n div 10)) + n div 10) + n mod 10) rest"
      using "1"[OF False] by simp
    also have "10 * (acc * 10 ^ length (nat_digits (n div 10)) + n div 10) + n mod 10
        = acc * 10 ^ length (nat_digits n) + n"
      using False by (subst (2) nat_digits.simps) (simp add: algebra_simps)
    finally show ?thesis .
  qed
qed

lemma nat_digits_Cons: "\<exists>d cs. d < 10 \<and> nat_digits n = digit_char d # cs"
proof (induction n rule: nat_digits.induct)
  case (1 n)
  show ?case
  proof (cases "n < 10")
    case True
    then show ?thesis by (subst nat_digits.simps) auto
  next
    case False
    from "1"[OF this] False show ?thesis by (subst nat_digits.simps) auto
  qed
qed

lemma read_to_fixed2: "read_fixed2 (to_fixed2 m) = Some m"
proof -
  define a where "a = nat \<bar>m\<bar>"
  define body where "body = nat_digits (a div 100) @ [CHR ''.'', digit_char (a mod 100 div 10), digit_char (a mod 10)]"
  obtain d cs where d: "d < 10" "nat_digits (a div 100) = digit_char d # cs"
    using nat_digits_Cons by blast
  have fixed: "to_fixed2 m = (if m < 0 then ''-'' else []) @ body"
    by (simp add: to_fixed2_def a_def body_def Let_def)
  have sign: "(case to_fixed2 m of [] \<Rightarrow> (False, to_fixed2 m)
       | c # cs \<Rightarrow> if c = CHR ''-'' then (True, cs) else (False, to_fixed2 m)) = (m < 0, body)"
    using digit_char_not_minus[OF d(1)] d(2) by (auto simp: fixed body_def)
  have rd: "read_nat 0 body = (a div 100, [CHR ''.'', digit_char (a mod 100 div 10), digit_char (a mod 10)])"
    by (simp add: body_def read_nat_digits)
  have "a mod 100 mod 10 = a mod 10" by (simp add: mod_mod_cancel)
  moreover have "100 * (a div 100) + a mod 100 = a" by (rule mult_div_mod_eq)
  moreover have "10 * (a mod 100 div 10) + a mod 100 mod 10 = a mod 100" by (rule mult_div_mod_eq)
  ultimately have "100 * (a div 100) + 10 * (a mod 100 div 10) + a mod 10 = a"
    by linarith
  moreover have "a mod 100 div 10 < 10" by simp
  ultimately show ?thesis
    unfolding read_fixed2_def sign Let_def
    by (simp add: rd a_def del: of_nat_add of_nat_mult)
qed

section \<open>Invariants of a system of operations\<close>

text \<open>What every component with state promises: its operations keep its invariant.\<close>

locale invariant_system =
  fixes step :: "'s \<Rightarrow> 's \<Rightarrow> bool"
    and inv :: "'s \<Rightarrow> bool"
  assumes step_inv: "step s t \<Longrightarrow> inv s \<Longrightarrow> inv t"
begin

lemma run_inv: "step\<^sup>*\<^sup>* s t \<Longrightarrow> inv s \<Longrightarrow> inv t"
  by (induction rule: rtranclp_induct) (auto intro: step_inv)

lemma no_bad_run: "inv s \<Longrightarrow> (\<And>t. inv t \<Longrightarrow> \<not> bad t) \<Longrightarrow> step\<^sup>*\<^sup>* s t \<Longrightarrow> \<not> bad t"
  using run_inv by blast

end

end
