(* ===== verification/Rows.thy ===== *)
theory Rows
  imports Prelude "HOL-Library.Product_Lexorder"
begin

text \<open>
  What the queries of the services say about a table: a table is the list of its rows in the
  order they were created, \<open>where\<close> is a filter, \<open>orderBy\<close> a stable sort, \<open>_sum\<close> a sum.
  The writes report what a caller can see of them: a second row with the same key is P2002,
  an update or a delete of a row that is not there is P2025. The interface \<open>row_store\<close>
  states what the services rely on, and \<open>workspace_scoped\<close> the contract of every
  \<open>require...\<close> helper: a row is only handed to the workspace that owns it.
\<close>

section \<open>Reads and writes of one table\<close>

definition find_row :: "('r \<Rightarrow> 'k) \<Rightarrow> 'k \<Rightarrow> 'r list \<Rightarrow> 'r option" where
  "find_row key k t = find (\<lambda>r. key r = k) t"

definition insert_row :: "('r \<Rightarrow> 'k) \<Rightarrow> 'r \<Rightarrow> 'r list \<Rightarrow> 'r list result" where
  "insert_row key r t = (if key r \<in> key ` set t then Inl (DbError ''P2002'') else Inr (t @ [r]))"

definition map_row :: "('r \<Rightarrow> 'k) \<Rightarrow> 'k \<Rightarrow> ('r \<Rightarrow> 'r) \<Rightarrow> 'r list \<Rightarrow> 'r list" where
  "map_row key k f t = map (\<lambda>r. if key r = k then f r else r) t"

definition update_row :: "('r \<Rightarrow> 'k) \<Rightarrow> 'k \<Rightarrow> ('r \<Rightarrow> 'r) \<Rightarrow> 'r list \<Rightarrow> 'r list result" where
  "update_row key k f t = (if k \<in> key ` set t then Inr (map_row key k f t) else Inl (DbError ''P2025''))"

definition delete_row :: "('r \<Rightarrow> 'k) \<Rightarrow> 'k \<Rightarrow> 'r list \<Rightarrow> 'r list result" where
  "delete_row key k t =
     (if k \<in> key ` set t then Inr (filter (\<lambda>r. key r \<noteq> k) t) else Inl (DbError ''P2025''))"

definition update_many :: "('r \<Rightarrow> bool) \<Rightarrow> ('r \<Rightarrow> 'r) \<Rightarrow> 'r list \<Rightarrow> 'r list" where
  "update_many P f t = map (\<lambda>r. if P r then f r else r) t"

definition find_many :: "('r \<Rightarrow> bool) \<Rightarrow> ('r \<Rightarrow> 'o::linorder) \<Rightarrow> 'r list \<Rightarrow> 'r list" where
  "find_many P ord t = sort_key ord (filter P t)"

definition find_first :: "('r \<Rightarrow> bool) \<Rightarrow> ('r \<Rightarrow> 'o::linorder) \<Rightarrow> 'r list \<Rightarrow> 'r option" where
  "find_first P ord t = (case find_many P ord t of [] \<Rightarrow> None | r # _ \<Rightarrow> Some r)"

definition keyed :: "('r \<Rightarrow> 'k) \<Rightarrow> 'r list \<Rightarrow> bool" where
  "keyed key t \<longleftrightarrow> distinct (map key t)"

section \<open>Facts about them\<close>

lemma find_row_Some: "find_row key k t = Some r \<Longrightarrow> r \<in> set t \<and> key r = k"
  by (auto simp: find_row_def find_Some_iff)

lemma find_row_None: "find_row key k t = None \<longleftrightarrow> k \<notin> key ` set t"
  by (auto simp: find_row_def find_None_iff image_iff)

lemma find_row_append: "find_row key k (t @ [r]) =
    (case find_row key k t of Some x \<Rightarrow> Some x | None \<Rightarrow> if key r = k then Some r else None)"
  by (induction t) (auto simp: find_row_def)

lemma find_row_simps [simp]:
  "find_row key k [] = None"
  "find_row key k (r # t) = (if key r = k then Some r else find_row key k t)"
  by (simp_all add: find_row_def)

lemma find_row_mem:
  assumes "keyed key t" and "r \<in> set t"
  shows "find_row key (key r) t = Some r"
proof -
  have "find_row key (key r) t \<noteq> None" using assms(2) by (auto simp: find_row_None)
  then obtain s where s: "find_row key (key r) t = Some s" by auto
  then have "s \<in> set t" and "key s = key r" by (auto dest: find_row_Some)
  with assms have "s = r" by (auto simp: keyed_def distinct_map inj_on_def)
  with s show ?thesis by simp
qed

lemma insert_row_eq_Inr [result_simps]:
  "insert_row key r t = Inr t' \<longleftrightarrow> key r \<notin> key ` set t \<and> t' = t @ [r]"
  by (auto simp: insert_row_def)

lemma update_row_eq_Inr [result_simps]:
  "update_row key k f t = Inr t' \<longleftrightarrow> k \<in> key ` set t \<and> t' = map_row key k f t"
  by (auto simp: update_row_def)

lemma delete_row_eq_Inr [result_simps]:
  "delete_row key k t = Inr t' \<longleftrightarrow> k \<in> key ` set t \<and> t' = filter (\<lambda>r. key r \<noteq> k) t"
  by (auto simp: delete_row_def)

lemma map_row_proj:
  "(\<And>r. r \<in> set t \<Longrightarrow> g (f r) = g r) \<Longrightarrow> map g (map_row key k f t) = map g t"
  by (auto simp: map_row_def)

lemma map_row_simps [simp]:
  "map_row key k f [] = []"
  "map_row key k f (r # t) = (if key r = k then f r else r) # map_row key k f t"
  by (simp_all add: map_row_def)

lemma set_map_row: "set (map_row key k f t) = (\<lambda>r. if key r = k then f r else r) ` set t"
  by (simp add: map_row_def)

lemma find_row_map_row:
  assumes "\<And>r. key (f r) = key r"
  shows "find_row key j (map_row key k f t) =
    (if j = k then map_option f (find_row key k t) else find_row key j t)"
  by (induction t) (auto simp: assms)

lemma find_row_update_many:
  assumes "\<And>r. key (f r) = key r"
  shows "find_row key k (update_many P f t) = map_option (\<lambda>r. if P r then f r else r) (find_row key k t)"
  using assms by (induction t) (auto simp: update_many_def)

lemma find_row_filter:
  "find_row key j (filter (\<lambda>r. key r \<noteq> k) t) = (if j = k then None else find_row key j t)"
  by (induction t) auto

lemma keyed_simps [simp]:
  "keyed key []"
  "keyed key (r # t) \<longleftrightarrow> key r \<notin> key ` set t \<and> keyed key t"
  by (auto simp: keyed_def)

lemma keyed_append [simp]:
  "keyed key (s @ t) \<longleftrightarrow> keyed key s \<and> keyed key t \<and> key ` set s \<inter> key ` set t = {}"
  by (simp add: keyed_def)

lemma keyed_map_row: "(\<And>r. key (f r) = key r) \<Longrightarrow> keyed key (map_row key k f t) = keyed key t"
  by (simp add: keyed_def map_row_proj)

lemma keyed_filter: "keyed key t \<Longrightarrow> keyed key (filter P t)"
  by (induction t) auto

lemma set_find_many [simp]: "set (find_many P ord t) = {r \<in> set t. P r}"
  by (auto simp: find_many_def)

lemma sum_by_find_many [simp]: "sum_by f (find_many P ord t) = sum_by f (filter P t)"
  by (simp add: find_many_def)

lemma length_find_many: "length (find_many P ord t) = length (filter P t)"
  by (simp add: find_many_def)

lemma find_first_Some: "find_first P ord t = Some r \<Longrightarrow> r \<in> set t \<and> P r"
proof -
  assume "find_first P ord t = Some r"
  then obtain rs where "find_many P ord t = r # rs"
    by (auto simp: find_first_def split: list.splits)
  then have "r \<in> set (find_many P ord t)" by simp
  then show ?thesis by (simp only: set_find_many) simp
qed

lemma find_first_None: "find_first P ord t = None \<longleftrightarrow> (\<forall>r \<in> set t. \<not> P r)"
proof -
  have "find_first P ord t = None \<longleftrightarrow> set (find_many P ord t) = {}"
    by (cases "find_many P ord t") (simp_all add: find_first_def)
  then show ?thesis by auto
qed

lemma find_first_minimal:
  assumes "find_first P ord t = Some r" and "s \<in> set t" and "P s"
  shows "ord r \<le> ord s"
proof -
  obtain rs where rs: "find_many P ord t = r # rs"
    using assms(1) by (auto simp: find_first_def split: list.splits)
  have "sorted (map ord (find_many P ord t))"
    by (simp add: find_many_def)
  moreover have "s \<in> set (find_many P ord t)" using assms by simp
  ultimately show ?thesis using rs by auto
qed

lemma map_row_absent: "k \<notin> key ` set t \<Longrightarrow> map_row key k f t = t"
  by (induction t) auto

lemma find_row_same_view:
  assumes "map v t' = map v t" and key: "\<And>r s. v r = v s \<Longrightarrow> key r = key s"
  shows "map_option v (find_row key k t') = map_option v (find_row key k t)"
  using assms(1) by (induction t' t rule: list_induct2') (auto dest: key)

lemma sum_by_map_row:
  assumes "keyed key t" and "find_row key k t = Some r"
  shows "sum_by g (map_row key k f t) = sum_by g t - g r + g (f r)"
  using assms
proof (induction t)
  case (Cons a t)
  show ?case
  proof (cases "key a = k")
    case True
    with Cons.prems have "map_row key k f t = t"
      by (intro map_row_absent) auto
    with True Cons.prems show ?thesis by simp
  qed (use Cons in simp)
qed simp

section \<open>Interfaces\<close>

text \<open>What a service relies on when it looks up, creates, updates and deletes rows by key.\<close>

locale row_store =
  fixes key :: "'r \<Rightarrow> 'k"
    and get :: "'k \<Rightarrow> 't \<Rightarrow> 'r option"
    and ins :: "'r \<Rightarrow> 't \<Rightarrow> 't result"
    and upd :: "'k \<Rightarrow> ('r \<Rightarrow> 'r) \<Rightarrow> 't \<Rightarrow> 't result"
    and del :: "'k \<Rightarrow> 't \<Rightarrow> 't result"
    and inv :: "'t \<Rightarrow> bool"
  assumes get_key: "get k t = Some r \<Longrightarrow> key r = k"
    and ins_ok: "(\<exists>t'. ins r t = Inr t') \<longleftrightarrow> get (key r) t = None"
    and ins_get: "ins r t = Inr t' \<Longrightarrow> get k t' = (if k = key r then Some r else get k t)"
    and ins_inv: "inv t \<Longrightarrow> ins r t = Inr t' \<Longrightarrow> inv t'"
    and upd_get: "(\<And>r. key (f r) = key r) \<Longrightarrow> upd j f t = Inr t' \<Longrightarrow>
          get k t' = (if k = j then map_option f (get j t) else get k t)"
    and upd_ok: "(\<exists>t'. upd k f t = Inr t') \<longleftrightarrow> get k t \<noteq> None"
    and upd_inv: "(\<And>r. key (f r) = key r) \<Longrightarrow> inv t \<Longrightarrow> upd k f t = Inr t' \<Longrightarrow> inv t'"
    and del_get: "del j t = Inr t' \<Longrightarrow> get k t' = (if k = j then None else get k t)"
    and del_ok: "(\<exists>t'. del k t = Inr t') \<longleftrightarrow> get k t \<noteq> None"
    and del_inv: "inv t \<Longrightarrow> del k t = Inr t' \<Longrightarrow> inv t'"
begin

lemma ins_twice: "ins r t = Inr t' \<Longrightarrow> \<exists>e. ins r t' = Inl e"
  using ins_ok [of r t'] ins_get [of r t t' "key r"] by (cases "ins r t'") auto

lemma ins_then_del:
  assumes "ins r t = Inr t'" and "del (key r) t' = Inr t''"
  shows "get k t'' = get k t"
proof -
  have "get (key r) t = None" using ins_ok [of r t] assms(1) by auto
  then show ?thesis using ins_get [OF assms(1), of k] del_get [OF assms(2), of k] by auto
qed

lemma upd_keeps_rows:
  assumes "\<And>r. key (f r) = key r" and "upd j f t = Inr t'"
  shows "get k t' = None \<longleftrightarrow> get k t = None"
  using upd_get [OF assms, of k] by auto

lemma get_after_del_ins:
  assumes "del k t = Inr t'"
  shows "\<exists>e. upd k f t' = Inl e"
  using del_get [OF assms, of k] upd_ok [of k f t'] by (cases "upd k f t'") auto

end

interpretation rows: row_store key "find_row key" "insert_row key" "update_row key" "delete_row key" "keyed key"
  for key :: "'r \<Rightarrow> 'k"
proof (unfold_locales, goal_cases)
  case (3 r t t' k)
  then have new: "find_row key (key r) t = None" and t': "t' = t @ [r]"
    by (auto simp: insert_row_eq_Inr find_row_None)
  show ?case using new by (cases "find_row key k t") (auto simp: t' find_row_append)
qed (auto simp: insert_row_def update_row_def delete_row_def find_row_None find_row_append
      find_row_map_row find_row_filter keyed_map_row keyed_filter
      dest: find_row_Some split: if_splits)

text \<open>
  The contract of the services' \<open>require...\<close> helpers: the row is handed out exactly when it
  exists and belongs to the workspace the request is for.
\<close>

locale workspace_scoped =
  fixes require :: "'w \<Rightarrow> 'k \<Rightarrow> 'db \<Rightarrow> 'r result"
    and get :: "'k \<Rightarrow> 'db \<Rightarrow> 'r option"
    and owner :: "'r \<Rightarrow> 'w"
  assumes require_iff: "require w k db = Inr r \<longleftrightarrow> get k db = Some r \<and> owner r = w"
begin

lemma owner_only: "require w k db = Inr r \<Longrightarrow> owner r = w"
  by (simp add: require_iff)

lemma one_workspace: "require w k db = Inr r \<Longrightarrow> require w' k db = Inr r' \<Longrightarrow> w = w'"
  by (auto simp: require_iff)

lemma foreign_refused: "get k db = Some r \<Longrightarrow> owner r \<noteq> w \<Longrightarrow> \<exists>e. require w k db = Inl e"
  by (cases "require w k db") (auto simp: require_iff)

lemma missing_refused: "get k db = None \<Longrightarrow> \<exists>e. require w k db = Inl e"
  by (cases "require w k db") (auto simp: require_iff)

end

text \<open>The form almost all of them have, with the message each one answers.\<close>

definition require_row :: "('r \<Rightarrow> 'k) \<Rightarrow> ('r \<Rightarrow> 'w) \<Rightarrow> http_error \<Rightarrow> 'w \<Rightarrow> 'k \<Rightarrow> 'r list \<Rightarrow> 'r result" where
  "require_row key owner err w k t =
     (case find_row key k t of None \<Rightarrow> Inl err
      | Some r \<Rightarrow> if owner r \<noteq> w then Inl err else Inr r)"

lemma require_row_eq_Inr [result_simps]:
  "require_row key owner err w k t = Inr r \<longleftrightarrow> find_row key k t = Some r \<and> owner r = w"
  by (auto simp: require_row_def split: option.splits)

interpretation scoped_row: workspace_scoped "require_row key owner err" "find_row key" owner
  for key :: "'r \<Rightarrow> 'k" and owner :: "'r \<Rightarrow> 'w" and err
  by unfold_locales (rule require_row_eq_Inr)

end
