(* ===== verification/Schema.thy ===== *)
theory Schema
  imports Rows
begin

text \<open>
  The rows the modelled services read and write (prisma/schema.prisma): one \<open>record\<close> per
  model with the model's columns, one \<open>datatype\<close> per enum with its constructors, and the
  database as the record of the tables. A \<open>DateTime\<close> is an instant in milliseconds since the
  epoch; a \<open>@db.Date\<close> column keeps the UTC calendar day of what is stored in it, as that
  day's midnight. \<open>updatedAt\<close> and other timestamps no modelled operation reads are left out.
\<close>

section \<open>Identifiers and instants\<close>

type_synonym id = string
type_synonym instant = int

text \<open>
  The database draws a UUID for a new row (\<open>@default(uuid())\<close>). A request that creates rows
  gets the ids it will draw as an argument: \<open>gen k\<close> is the k-th. No law is assumed of them:
  where a drawn id is already taken, the insert fails like the primary key makes it fail.
\<close>

type_synonym id_source = "nat \<Rightarrow> id"

definition day_ms :: int where
  "day_ms = 24 * 60 * 60 * 1000"

definition db_date :: "instant \<Rightarrow> instant" where
  "db_date t = t - t mod day_ms"

lemma db_date_idem [simp]: "db_date (db_date t) = db_date t"
  by (simp add: db_date_def day_ms_def minus_mod_eq_div_mult)

section \<open>Enums\<close>

datatype account_type = ASSET | LIABILITY | EQUITY | INCOME | EXPENSE
datatype workspace_type = PERSONAL | BUSINESS | GROUP
datatype record_status = ACTIVE | ARCHIVED
datatype contact_type = CUSTOMER | SUPPLIER | BOTH | RELATIVE | OTHER
datatype contact_category = BUSINESS | LOAN
datatype transaction_type = INCOME | EXPENSE | TRANSFER | JOURNAL | SALE | PURCHASE | PAYMENT
datatype transaction_status = POSTED | VOIDED
datatype entry_type = DEBIT | CREDIT
datatype goal_status = ACTIVE | PAUSED | COMPLETED | WITHDRAWN
datatype reminder_channel = EMAIL | PHONE
datatype goal_entry_type = CONTRIBUTION | TRANSFER_OUT | TRANSFER_IN | WITHDRAWAL
datatype asset_status = ACTIVE | SOLD
datatype budget_type = EXPENSE | INCOME

section \<open>Rows\<close>

record account_template =
  tpl_id :: id
  tpl_name :: string
  tpl_nameBn :: string
  tpl_accountType :: account_type
  tpl_accountSubtype :: "string option"
  tpl_parentId :: "id option"
  tpl_appliesTo :: "workspace_type list"
  tpl_displayOrder :: int
  tpl_isActive :: bool

record account =
  acc_id :: id
  acc_businessId :: id
  acc_parentId :: "id option"
  acc_name :: string
  acc_nameBn :: "string option"
  acc_accountNumber :: "string option"
  acc_accountType :: account_type
  acc_accountSubtype :: "string option"
  acc_openingBalance :: money
  acc_currentBalance :: money
  acc_isSystemAccount :: bool
  acc_status :: record_status
  acc_displayOrder :: int
  acc_createdAt :: instant

record contact =
  ct_id :: id
  ct_businessId :: id
  ct_name :: string
  ct_type :: contact_type
  ct_category :: contact_category
  ct_phone :: "string option"
  ct_email :: "string option"
  ct_address :: "string option"
  ct_photoUrl :: "string option"
  ct_openingBalance :: money
  ct_status :: record_status
  ct_notes :: "string option"

record txn =
  tx_id :: id
  tx_businessId :: id
  tx_type :: transaction_type
  tx_date :: instant
  tx_referenceNo :: "string option"
  tx_description :: "string option"
  tx_contactId :: "id option"
  tx_status :: transaction_status
  tx_idempotencyKey :: "string option"
  tx_createdBy :: id
  tx_createdAt :: instant
  tx_voidedAt :: "instant option"
  tx_voidedReason :: "string option"
  tx_reversalOfId :: "id option"
  tx_dueDate :: "instant option"
  tx_appliedToTransactionId :: "id option"

record entry =
  en_id :: id
  en_transactionId :: id
  en_accountId :: id
  en_type :: entry_type
  en_amount :: money
  en_categoryId :: "string option"
  en_note :: "string option"

record goal =
  g_id :: id
  g_businessId :: id
  g_name :: string
  g_targetAmount :: money
  g_targetDate :: instant
  g_durationMonths :: int
  g_reminderDate :: "instant option"
  g_reminderChannel :: "reminder_channel option"
  g_description :: "string option"
  g_status :: goal_status
  g_createdAt :: instant

record goal_entry =
  ge_id :: id
  ge_savingsGoalId :: id
  ge_businessId :: id
  ge_type :: goal_entry_type
  ge_amount :: money
  ge_date :: instant
  ge_moneyAccountId :: "id option"
  ge_savingsAccountId :: "id option"
  ge_relatedGoalId :: "id option"
  ge_transactionId :: "id option"
  ge_notes :: "string option"

record asset =
  as_id :: id
  as_businessId :: id
  as_name :: string
  as_category :: string
  as_purchaseDate :: instant
  as_purchasePrice :: money
  as_currentValue :: money
  as_purchaseAccountId :: "id option"
  as_purchaseTransactionId :: "id option"
  as_status :: asset_status
  as_soldAt :: "instant option"
  as_soldPrice :: "money option"
  as_soldAccountId :: "id option"
  as_soldTransactionId :: "id option"
  as_notes :: "string option"

record budget_category =
  bc_id :: id
  bc_businessId :: id
  bc_type :: budget_type
  bc_name :: string
  bc_icon :: "string option"
  bc_color :: string
  bc_monthlyLimit :: "money option"
  bc_displayOrder :: int
  bc_createdAt :: instant

record income_goal =
  ig_id :: id
  ig_businessId :: id
  ig_month :: int
  ig_year :: int
  ig_amount :: money
  ig_notes :: "string option"

section \<open>The database\<close>

text \<open>
  The tables of the ledger and of the features that post into it. The Group Expense workspace
  keeps its own tables (theory \<open>Group_Expenses\<close>), which nothing here reads.
\<close>

record db =
  accounts :: "account list"
  contacts :: "contact list"
  txns :: "txn list"
  entries :: "entry list"
  goals :: "goal list"
  goal_entries :: "goal_entry list"
  assets :: "asset list"
  budget_categories :: "budget_category list"
  income_goals :: "income_goal list"

definition empty_db :: db where
  "empty_db = \<lparr>accounts = [], contacts = [], txns = [], entries = [], goals = [], goal_entries = [],
     assets = [], budget_categories = [], income_goals = []\<rparr>"

section \<open>Reading the ledger\<close>

definition entries_of :: "db \<Rightarrow> id \<Rightarrow> entry list" where
  "entries_of db t = filter (\<lambda>e. en_transactionId e = t) (entries db)"

definition side_sum :: "entry_type \<Rightarrow> entry list \<Rightarrow> money" where
  "side_sum s es = sum_by en_amount (filter (\<lambda>e. en_type e = s) es)"

definition account_entries :: "db \<Rightarrow> id \<Rightarrow> entry list" where
  "account_entries db a = filter (\<lambda>e. en_accountId e = a) (entries db)"

text \<open>The transaction an entry belongs to, and a filter over it (\<open>transaction: {...}\<close>).\<close>

definition txn_of :: "db \<Rightarrow> entry \<Rightarrow> txn option" where
  "txn_of db e = find_row tx_id (en_transactionId e) (txns db)"

definition on_txn :: "db \<Rightarrow> (txn \<Rightarrow> bool) \<Rightarrow> entry \<Rightarrow> bool" where
  "on_txn db P e = (case txn_of db e of None \<Rightarrow> False | Some t \<Rightarrow> P t)"

definition live_txn :: "txn \<Rightarrow> bool" where
  "live_txn t \<longleftrightarrow> tx_status t = POSTED \<and> tx_reversalOfId t = None"

lemma side_sum_simps [simp]:
  "side_sum s [] = 0"
  "side_sum s (e # es) = (if en_type e = s then en_amount e else 0) + side_sum s es"
  "side_sum s (es @ fs) = side_sum s es + side_sum s fs"
  by (simp_all add: side_sum_def)

lemma entry_type_other: "s \<noteq> DEBIT \<longleftrightarrow> s = CREDIT"
  by (cases s) auto

end
