(* ===== verification/Accounts.thy ===== *)
theory Accounts
  imports Schema "HOL-Library.Multiset"
begin

text \<open>
  The chart of accounts (src/accounts/accounts.service.ts): creating, editing, archiving,
  unarchiving and removing accounts, the walk that refuses a parent cycle, the pickers and the
  tree listing, and the copy of the default templates into a new workspace. The lemmas show
  that the parent links stay acyclic and inside one workspace and one account type, that the
  accounts the app posts through are never archived or removed, and that an account with
  postings is never deleted.
\<close>

section \<open>Constants\<close>

definition MONEY_ACCOUNT_SUBTYPES :: "string list" where
  "MONEY_ACCOUNT_SUBTYPES = [''cash'', ''bank'', ''mfs'']"

definition FIXED_ASSETS_ACCOUNT_SUBTYPE :: string where
  "FIXED_ASSETS_ACCOUNT_SUBTYPE = ''fixed-assets''"

definition REFERRAL_BONUS_INCOME_SUBTYPE :: string where
  "REFERRAL_BONUS_INCOME_SUBTYPE = ''referral-bonus''"

definition RESERVED_ACCOUNT_SUBTYPES :: "string list" where
  "RESERVED_ACCOUNT_SUBTYPES =
     [''receivable'', ''payable'', FIXED_ASSETS_ACCOUNT_SUBTYPE, REFERRAL_BONUS_INCOME_SUBTYPE]"

definition ACCOUNT_TYPE_ORDER :: "account_type list" where
  "ACCOUNT_TYPE_ORDER = [ASSET, LIABILITY, EQUITY, account_type.INCOME, account_type.EXPENSE]"

fun account_type_text :: "account_type \<Rightarrow> string" where
  "account_type_text ASSET = ''ASSET''"
| "account_type_text LIABILITY = ''LIABILITY''"
| "account_type_text EQUITY = ''EQUITY''"
| "account_type_text account_type.INCOME = ''INCOME''"
| "account_type_text account_type.EXPENSE = ''EXPENSE''"

lemmas account_constants = MONEY_ACCOUNT_SUBTYPES_def FIXED_ASSETS_ACCOUNT_SUBTYPE_def
  REFERRAL_BONUS_INCOME_SUBTYPE_def RESERVED_ACCOUNT_SUBTYPES_def ACCOUNT_TYPE_ORDER_def

definition subtype_in :: "string list \<Rightarrow> string option \<Rightarrow> bool" where
  "subtype_in ss s = (case s of None \<Rightarrow> False | Some t \<Rightarrow> t \<noteq> [] \<and> t \<in> set ss)"

definition isReservedSystemAccount :: "account \<Rightarrow> bool" where
  "isReservedSystemAccount a \<longleftrightarrow>
     acc_isSystemAccount a \<and> subtype_in RESERVED_ACCOUNT_SUBTYPES (acc_accountSubtype a)"

definition is_savings_pool :: "account \<Rightarrow> bool" where
  "is_savings_pool a \<longleftrightarrow>
     acc_isSystemAccount a \<and> acc_accountType a = ASSET \<and> acc_accountSubtype a = Some ''savings''"

section \<open>Requests\<close>

record create_account_dto =
  cad_name :: string
  cad_nameBn :: "string option"
  cad_accountNumber :: "string option"
  cad_accountType :: account_type
  cad_accountSubtype :: "string option"
  cad_parentId :: "id option"
  cad_openingBalance :: "money option"

record update_account_dto =
  uad_name :: "string option"
  uad_nameBn :: "string option option"
  uad_accountNumber :: "string option option"
  uad_accountSubtype :: "string option option"
  uad_parentId :: "id option option"

section \<open>Helpers\<close>

definition requireAccount :: "id \<Rightarrow> id \<Rightarrow> account list \<Rightarrow> account result" where
  "requireAccount = require_row acc_id acc_businessId (NotFound ''Account not found'')"

definition refuseReservedSubtype :: "string option \<Rightarrow> unit result" where
  "refuseReservedSubtype s =
     check (\<not> subtype_in RESERVED_ACCOUNT_SUBTYPES s)
       (BadRequest (quoted (orelse s []) @ '' is reserved for an account the app manages itself.''))"

definition requireCompatibleParent :: "id \<Rightarrow> id \<Rightarrow> account_type \<Rightarrow> account list \<Rightarrow> unit result" where
  "requireCompatibleParent b p ty t =
     (case find_row acc_id p t of
        None \<Rightarrow> Inl (BadRequest ''Parent account not found in this workspace'')
      | Some parent \<Rightarrow>
          if acc_businessId parent \<noteq> b then Inl (BadRequest ''Parent account not found in this workspace'')
          else if acc_accountType parent \<noteq> ty
          then Inl (BadRequest (''Parent account must also be of type '' @ account_type_text ty))
          else Inr ())"

definition parent_of :: "account list \<Rightarrow> id \<Rightarrow> id option" where
  "parent_of t c = (case find_row acc_id c t of None \<Rightarrow> None | Some a \<Rightarrow> acc_parentId a)"

text \<open>The \<open>while (current && !seen.has(current))\<close> loop of \<open>refuseParentCycle\<close>.\<close>

function walk_parents :: "account list \<Rightarrow> id \<Rightarrow> id list \<Rightarrow> id option \<Rightarrow> unit result" where
  "walk_parents t self seen current =
     (case current of
        None \<Rightarrow> Inr ()
      | Some c \<Rightarrow>
          if c = [] \<or> c \<in> set seen then Inr ()
          else if c = self
          then Inl (BadRequest ''An account cannot be moved under one of its own sub-accounts'')
          else walk_parents t self (c # seen) (parent_of t c))"
  by pat_completeness auto

lemma parent_of_absent: "c \<notin> acc_id ` set t \<Longrightarrow> parent_of t c = None"
  by (simp add: parent_of_def flip: find_row_None)

lemma card_unseen:
  "c \<in> acc_id ` set t \<Longrightarrow> c \<notin> set seen \<Longrightarrow>
   card (acc_id ` set t - set (c # seen)) < card (acc_id ` set t - set seen)"
  by (intro psubset_card_mono) auto

termination walk_parents
proof (relation "measure (\<lambda>(t, self, seen, current).
    2 * card (acc_id ` set t - set seen) + (if current = None then 0 else 1))")
  fix t :: "account list" and self c :: id and seen current
  assume cur: "current = Some c" and unseen: "\<not> (c = [] \<or> c \<in> set seen)"
  show "((t, self, c # seen, parent_of t c), (t, self, seen, current))
    \<in> measure (\<lambda>(t, self, seen, current). 2 * card (acc_id ` set t - set seen) + (if current = None then 0 else 1))"
  proof (cases "c \<in> acc_id ` set t")
    case True
    with unseen cur card_unseen [of c t seen] show ?thesis by auto
  next
    case False
    then have "acc_id ` set t - set (c # seen) = acc_id ` set t - set seen" by auto
    with False cur parent_of_absent show ?thesis by auto
  qed
qed simp

declare walk_parents.simps [simp del]

definition refuseParentCycle :: "id \<Rightarrow> id \<Rightarrow> account list \<Rightarrow> unit result" where
  "refuseParentCycle self p t = walk_parents t self [] (Some p)"

section \<open>Operations\<close>

definition fk_parent :: "id option \<Rightarrow> account list \<Rightarrow> unit result" where
  "fk_parent p t = check (case p of None \<Rightarrow> True | Some q \<Rightarrow> q \<in> acc_id ` set t) (DbError ''P2003'')"

definition insert_account :: "account \<Rightarrow> account list \<Rightarrow> account list result" where
  "insert_account a t =
     rbind (fk_parent (acc_parentId a) t) (\<lambda>_.
     rbind (store_money (acc_openingBalance a)) (\<lambda>_.
     rbind (store_money (acc_currentBalance a)) (\<lambda>_.
     insert_row acc_id a t)))"

definition create_account :: "id \<Rightarrow> instant \<Rightarrow> id \<Rightarrow> create_account_dto \<Rightarrow> db \<Rightarrow> (db \<times> account) result" where
  "create_account newId now b dto db =
     rbind (refuseReservedSubtype (cad_accountSubtype dto)) (\<lambda>_.
     rbind (if truthy (cad_parentId dto)
            then requireCompatibleParent b (the (cad_parentId dto)) (cad_accountType dto) (accounts db)
            else Inr ()) (\<lambda>_.
     let openingBalance = orelse (cad_openingBalance dto) 0;
         a = \<lparr>acc_id = newId, acc_businessId = b, acc_parentId = cad_parentId dto,
              acc_name = cad_name dto, acc_nameBn = cad_nameBn dto,
              acc_accountNumber = cad_accountNumber dto, acc_accountType = cad_accountType dto,
              acc_accountSubtype = cad_accountSubtype dto, acc_openingBalance = openingBalance,
              acc_currentBalance = openingBalance, acc_isSystemAccount = False,
              acc_status = record_status.ACTIVE, acc_displayOrder = 0, acc_createdAt = now\<rparr>
     in rbind (insert_account a (accounts db)) (\<lambda>t. Inr (db\<lparr>accounts := t\<rparr>, a))))"

definition apply_account_update :: "update_account_dto \<Rightarrow> account \<Rightarrow> account" where
  "apply_account_update dto a =
     a\<lparr>acc_name := orelse (uad_name dto) (acc_name a),
       acc_nameBn := orelse (uad_nameBn dto) (acc_nameBn a),
       acc_accountNumber := orelse (uad_accountNumber dto) (acc_accountNumber a),
       acc_accountSubtype := orelse (uad_accountSubtype dto) (acc_accountSubtype a),
       acc_parentId := orelse (uad_parentId dto) (acc_parentId a)\<rparr>"

definition update_account :: "id \<Rightarrow> id \<Rightarrow> update_account_dto \<Rightarrow> db \<Rightarrow> db result" where
  "update_account b i dto db =
     rbind (requireAccount b i (accounts db)) (\<lambda>account.
     rbind (case uad_accountSubtype dto of
              None \<Rightarrow> Inr ()
            | Some s \<Rightarrow>
                if s = acc_accountSubtype account then Inr ()
                else if isReservedSystemAccount account
                then Inl (BadRequest ''This account's subtype is used by the app and cannot be changed.'')
                else refuseReservedSubtype s) (\<lambda>_.
     rbind (case uad_parentId dto of
              Some (Some p) \<Rightarrow>
                if p = i then Inl (BadRequest ''An account cannot be its own parent'')
                else rbind (requireCompatibleParent b p (acc_accountType account) (accounts db)) (\<lambda>_.
                     refuseParentCycle i p (accounts db))
            | _ \<Rightarrow> Inr ()) (\<lambda>_.
     rbind (update_row acc_id i (apply_account_update dto) (accounts db)) (\<lambda>t.
     Inr (db\<lparr>accounts := t\<rparr>)))))"

definition archive_account :: "id \<Rightarrow> id \<Rightarrow> db \<Rightarrow> db result" where
  "archive_account b i db =
     rbind (requireAccount b i (accounts db)) (\<lambda>account.
     rbind (check (\<not> is_savings_pool account)
        (BadRequest ''This is an internal system account and cannot be archived.'')) (\<lambda>_.
     rbind (check (\<not> isReservedSystemAccount account)
        (BadRequest ''The app posts through this account, so it cannot be archived.'')) (\<lambda>_.
     rbind (check (\<not> (\<exists>c \<in> set (accounts db). acc_parentId c = Some i \<and> acc_status c = record_status.ACTIVE))
        (BadRequest ''Archive this account's child accounts first.'')) (\<lambda>_.
     if acc_status account = ARCHIVED then Inr db
     else rbind (update_row acc_id i (\<lambda>a. a\<lparr>acc_status := ARCHIVED\<rparr>) (accounts db)) (\<lambda>t.
          Inr (db\<lparr>accounts := t\<rparr>))))))"

definition unarchive_account :: "id \<Rightarrow> id \<Rightarrow> db \<Rightarrow> db result" where
  "unarchive_account b i db =
     rbind (requireAccount b i (accounts db)) (\<lambda>account.
     if acc_status account = record_status.ACTIVE then Inr db
     else rbind (check (\<not> (truthy (acc_parentId account) \<and>
             (case find_row acc_id (the (acc_parentId account)) (accounts db) of
                None \<Rightarrow> False | Some parent \<Rightarrow> acc_status parent = ARCHIVED)))
           (BadRequest ''Unarchive the parent account first.'')) (\<lambda>_.
          rbind (update_row acc_id i (\<lambda>a. a\<lparr>acc_status := record_status.ACTIVE\<rparr>) (accounts db)) (\<lambda>t.
          Inr (db\<lparr>accounts := t\<rparr>))))"

definition removeOrArchive :: "id \<Rightarrow> id \<Rightarrow> db \<Rightarrow> (db \<times> bool) result" where
  "removeOrArchive b i db =
     rbind (requireAccount b i (accounts db)) (\<lambda>account.
     rbind (check (\<not> is_savings_pool account)
        (BadRequest ''This is an internal system account and cannot be removed.'')) (\<lambda>_.
     rbind (check (\<not> isReservedSystemAccount account)
        (BadRequest ''The app posts through this account, so it cannot be removed.'')) (\<lambda>_.
     rbind (check (\<not> (\<exists>c \<in> set (accounts db). acc_parentId c = Some i))
        (BadRequest ''Remove this account's child accounts first.'')) (\<lambda>_.
     if account_entries db i = []
     then rbind (delete_row acc_id i (accounts db)) (\<lambda>t. Inr (db\<lparr>accounts := t\<rparr>, True))
     else if acc_status account \<noteq> ARCHIVED
     then rbind (update_row acc_id i (\<lambda>a. a\<lparr>acc_status := ARCHIVED\<rparr>) (accounts db)) (\<lambda>t.
          Inr (db\<lparr>accounts := t\<rparr>, False))
     else Inr (db, False)))))"

section \<open>Listings\<close>

text \<open>
  The tree of \<open>list\<close>: the nodes are the workspace's accounts in \<open>accountType\<close>,
  \<open>displayOrder\<close> order; an account whose parent is among them hangs below it, the others are
  the roots, grouped by type. The database orders an enum by its declaration, which is
  \<open>ACCOUNT_TYPE_ORDER\<close>.
\<close>

fun account_type_rank :: "account_type \<Rightarrow> int" where
  "account_type_rank ASSET = 0"
| "account_type_rank LIABILITY = 1"
| "account_type_rank EQUITY = 2"
| "account_type_rank account_type.INCOME = 3"
| "account_type_rank account_type.EXPENSE = 4"

definition listed_accounts :: "id \<Rightarrow> db \<Rightarrow> account list" where
  "listed_accounts b db =
     find_many (\<lambda>a. acc_businessId a = b) (\<lambda>a. (account_type_rank (acc_accountType a), acc_displayOrder a)) (accounts db)"

definition hangs_below :: "account list \<Rightarrow> account \<Rightarrow> bool" where
  "hangs_below t a \<longleftrightarrow> truthy (acc_parentId a) \<and> the (acc_parentId a) \<in> acc_id ` set t"

definition children_in :: "account list \<Rightarrow> account \<Rightarrow> account list" where
  "children_in t n = filter (\<lambda>a. hangs_below t a \<and> acc_parentId a = Some (acc_id n)) t"

definition list_accounts :: "id \<Rightarrow> db \<Rightarrow> (account_type \<times> account list) list" where
  "list_accounts b db =
     (let t = listed_accounts b db; roots = filter (\<lambda>a. \<not> hangs_below t a) t
      in map (\<lambda>ty. (ty, filter (\<lambda>a. acc_accountType a = ty) roots)) ACCOUNT_TYPE_ORDER)"

definition getOne_account :: "id \<Rightarrow> id \<Rightarrow> db \<Rightarrow> account result" where
  "getOne_account b i db = requireAccount b i (accounts db)"

definition is_money_account :: "account \<Rightarrow> bool" where
  "is_money_account a \<longleftrightarrow> acc_accountType a = ASSET \<and> subtype_in MONEY_ACCOUNT_SUBTYPES (acc_accountSubtype a)"

definition listMoneyAccounts :: "id \<Rightarrow> db \<Rightarrow> account list" where
  "listMoneyAccounts b db =
     find_many (\<lambda>a. acc_businessId a = b \<and> acc_status a = record_status.ACTIVE \<and> is_money_account a) acc_displayOrder (accounts db)"

definition listWallets :: "id \<Rightarrow> db \<Rightarrow> account list" where
  "listWallets b db = find_many (\<lambda>a. acc_businessId a = b \<and> is_money_account a) acc_displayOrder (accounts db)"

definition listActiveSavingsWallets :: "id \<Rightarrow> db \<Rightarrow> account list" where
  "listActiveSavingsWallets b db =
     find_many (\<lambda>a. acc_businessId a = b \<and> acc_status a = record_status.ACTIVE \<and> acc_accountType a = ASSET \<and>
        acc_accountSubtype a = Some ''savings'' \<and> \<not> acc_isSystemAccount a) acc_displayOrder (accounts db)"

definition listSavingsWallets :: "id \<Rightarrow> db \<Rightarrow> account list" where
  "listSavingsWallets b db =
     find_many (\<lambda>a. acc_businessId a = b \<and> acc_status a = record_status.ACTIVE \<and> acc_accountType a = ASSET \<and>
        acc_accountSubtype a = Some ''savings'' \<and> \<not> acc_isSystemAccount a) acc_displayOrder (accounts db)"

definition listIncomeAccounts :: "id \<Rightarrow> db \<Rightarrow> account list" where
  "listIncomeAccounts b db =
     find_many (\<lambda>a. acc_businessId a = b \<and> acc_status a = record_status.ACTIVE \<and>
        acc_accountType a = account_type.INCOME) acc_displayOrder (accounts db)"

definition listExpenseAccounts :: "id \<Rightarrow> db \<Rightarrow> account list" where
  "listExpenseAccounts b db =
     find_many (\<lambda>a. acc_businessId a = b \<and> acc_status a = record_status.ACTIVE \<and>
        acc_accountType a = account_type.EXPENSE) acc_displayOrder (accounts db)"

section \<open>Seeding a new workspace\<close>

definition seed_templates :: "workspace_type \<Rightarrow> account_template list \<Rightarrow> account_template list" where
  "seed_templates ws tpls =
     find_many (\<lambda>t. ws \<in> set (tpl_appliesTo t) \<and> tpl_isActive t \<and>
         (case tpl_accountSubtype t of None \<Rightarrow> True | Some s \<Rightarrow> s \<notin> set MONEY_ACCOUNT_SUBTYPES))
       tpl_displayOrder tpls"

definition template_account :: "id \<Rightarrow> instant \<Rightarrow> id \<Rightarrow> account_template \<Rightarrow> account" where
  "template_account newId now b t =
     \<lparr>acc_id = newId, acc_businessId = b, acc_parentId = None, acc_name = tpl_name t,
      acc_nameBn = Some (tpl_nameBn t), acc_accountNumber = None,
      acc_accountType = tpl_accountType t, acc_accountSubtype = tpl_accountSubtype t,
      acc_openingBalance = 0, acc_currentBalance = 0, acc_isSystemAccount = True,
      acc_status = record_status.ACTIVE, acc_displayOrder = tpl_displayOrder t, acc_createdAt = now\<rparr>"

definition set_parent :: "id \<Rightarrow> account \<Rightarrow> account" where
  "set_parent p a = a\<lparr>acc_parentId := Some p\<rparr>"

text \<open>
  The first pass creates an account per template and remembers which one came from which
  template (\<open>templateIdToAccountId\<close>); the second sets the parents.
\<close>

definition seed_numbered :: "workspace_type \<Rightarrow> account_template list \<Rightarrow> (nat \<times> account_template) list" where
  "seed_numbered ws tpls = (let ts = seed_templates ws tpls in zip [0..<length ts] ts)"

definition template_account_ids :: "id_source \<Rightarrow> (nat \<times> account_template) list \<Rightarrow> id \<Rightarrow> id option" where
  "template_account_ids gen numbered = map_of (rev (map (\<lambda>x. (tpl_id (snd x), gen (fst x))) numbered))"

definition wire_parent :: "(id \<Rightarrow> id option) \<Rightarrow> account_template \<Rightarrow> account list \<Rightarrow> account list result" where
  "wire_parent ids t rows =
     (if \<not> truthy (tpl_parentId t) then Inr rows
      else (case (ids (the (tpl_parentId t)), ids (tpl_id t)) of
              (Some p, Some own) \<Rightarrow>
                if p \<noteq> [] \<and> own \<noteq> [] then update_row acc_id own (set_parent p) rows else Inr rows
            | _ \<Rightarrow> Inr rows))"

definition seedDefaultAccounts ::
  "id_source \<Rightarrow> instant \<Rightarrow> id \<Rightarrow> workspace_type \<Rightarrow> account_template list \<Rightarrow> db \<Rightarrow> db result" where
  "seedDefaultAccounts gen now b ws tpls db =
     (let numbered = seed_numbered ws tpls in
      rbind (rfold (\<lambda>x. insert_account (template_account (gen (fst x)) now b (snd x))) numbered (accounts db)) (\<lambda>created.
      rbind (rfold (wire_parent (template_account_ids gen numbered)) (map snd numbered) created) (\<lambda>wired.
      Inr (db\<lparr>accounts := wired\<rparr>))))"

lemma insert_account_eq_Inr [result_simps]:
  "insert_account a t = Inr t' \<longleftrightarrow> fk_parent (acc_parentId a) t = Inr () \<and> fits_money (acc_openingBalance a) \<and>
     fits_money (acc_currentBalance a) \<and> acc_id a \<notin> acc_id ` set t \<and> t' = t @ [a]"
  by (auto simp: insert_account_def result_simps)

section \<open>The parent links\<close>

definition parent_rel :: "account list \<Rightarrow> (id \<times> id) set" where
  "parent_rel t = {(c, p). parent_of t c = Some p}"

definition parent_fits :: "account list \<Rightarrow> account \<Rightarrow> bool" where
  "parent_fits t a =
     (case acc_parentId a of None \<Rightarrow> True
      | Some p \<Rightarrow> (case find_row acc_id p t of None \<Rightarrow> False
          | Some q \<Rightarrow> acc_businessId q = acc_businessId a \<and> acc_accountType q = acc_accountType a))"

lemma parent_fits_iff:
  "parent_fits t a \<longleftrightarrow> (\<forall>p. acc_parentId a = Some p \<longrightarrow>
     (\<exists>q. find_row acc_id p t = Some q \<and> acc_businessId q = acc_businessId a \<and> acc_accountType q = acc_accountType a))"
  by (auto simp: parent_fits_def split: option.splits)

definition hierarchy_ok :: "account list \<Rightarrow> bool" where
  "hierarchy_ok t \<longleftrightarrow> keyed acc_id t \<and> [] \<notin> acc_id ` set t \<and> (\<forall>a \<in> set t. parent_fits t a) \<and>
     acyclic (parent_rel t)"

lemma acyclic_by_rank:
  assumes "\<And>c p. parent_of t c = Some p \<Longrightarrow> rank p < (rank c :: nat)"
  shows "acyclic (parent_rel t)"
proof -
  have "parent_rel t \<subseteq> (measure rank)\<inverse>"
    using assms by (auto simp: parent_rel_def)
  moreover have "acyclic ((measure rank)\<inverse>)"
    using wf_measure [of rank] by (simp add: wf_acyclic)
  ultimately show ?thesis using acyclic_subset by blast
qed

lemma closed_rtrancl:
  "(x, y) \<in> r\<^sup>* \<Longrightarrow> x \<in> S \<Longrightarrow> (\<And>a b. a \<in> S \<Longrightarrow> (a, b) \<in> r \<Longrightarrow> b \<in> S) \<Longrightarrow> y \<in> S"
  by (induction rule: rtrancl_induct) auto

lemma walk_parents_Some:
  "walk_parents t self seen (Some c) =
     (if c = [] \<or> c \<in> set seen then Inr ()
      else if c = self
      then Inl (BadRequest ''An account cannot be moved under one of its own sub-accounts'')
      else walk_parents t self (c # seen) (parent_of t c))"
  by (subst walk_parents.simps) simp

lemma walk_parents_avoids:
  assumes "walk_parents t self seen current = Inr ()" and "self \<notin> set seen" and "self \<noteq> []"
    and "[] \<notin> acc_id ` set t"
    and "\<And>s n. s \<in> set seen \<Longrightarrow> parent_of t s = Some n \<Longrightarrow> n \<in> set seen \<or> current = Some n"
    and "current = Some c"
  shows "(c, self) \<notin> (parent_rel t)\<^sup>*"
  using assms
proof (induction t self seen current arbitrary: c rule: walk_parents.induct)
  case (1 t self seen current)
  note unfolded = "1.prems"(1) [unfolded \<open>current = Some c\<close> walk_parents_Some]
  show ?case
  proof (cases "c = [] \<or> c \<in> set seen")
    case True
    then show ?thesis
    proof
      assume "c = []"
      then have "parent_of t c = None" using "1.prems"(4) by (simp add: parent_of_absent)
      then have "(c, self) \<in> (parent_rel t)\<^sup>* \<Longrightarrow> c = self"
        by (auto simp: parent_rel_def elim: converse_rtranclE)
      with \<open>c = []\<close> "1.prems"(3) show ?thesis by auto
    next
      assume "c \<in> set seen"
      then have "(c, self) \<in> (parent_rel t)\<^sup>* \<Longrightarrow> self \<in> set seen"
        using "1.prems"(5,6) by (auto simp: parent_rel_def elim!: closed_rtrancl)
      with "1.prems"(2) show ?thesis by blast
    qed
  next
    case False
    with unfolded have ne: "c \<noteq> self" and rest: "walk_parents t self (c # seen) (parent_of t c) = Inr ()"
      by (auto split: if_splits)
    show ?thesis
    proof
      assume "(c, self) \<in> (parent_rel t)\<^sup>*"
      with ne obtain d where d: "parent_of t c = Some d" "(d, self) \<in> (parent_rel t)\<^sup>*"
        by (auto simp: parent_rel_def elim: converse_rtranclE)
      have "(d, self) \<notin> (parent_rel t)\<^sup>*"
      proof (rule "1.IH" [OF \<open>current = Some c\<close> False ne rest])
        show "self \<notin> set (c # seen)" using ne "1.prems"(2) by simp
        show "n \<in> set (c # seen) \<or> parent_of t c = Some n"
          if "s \<in> set (c # seen)" "parent_of t s = Some n" for s n
          using that "1.prems"(5,6) by auto
      qed (use "1.prems" d in auto)
      with d(2) show False by blast
    qed
  qed
qed

lemma refuseParentCycle_avoids:
  "refuseParentCycle self p t = Inr () \<Longrightarrow> self \<noteq> [] \<Longrightarrow> [] \<notin> acc_id ` set t \<Longrightarrow>
   (p, self) \<notin> (parent_rel t)\<^sup>*"
  unfolding refuseParentCycle_def by (rule walk_parents_avoids [where seen = "[]"]) auto

lemma walk_parents_refuses:
  "walk_parents t self seen (Some c) = Inl e \<Longrightarrow>
   e = BadRequest ''An account cannot be moved under one of its own sub-accounts'' \<and> (c, self) \<in> (parent_rel t)\<^sup>*"
proof (induction t self seen "Some c" arbitrary: c rule: walk_parents.induct)
  case (1 t self seen)
  show ?case
  proof (cases "c = [] \<or> c \<in> set seen \<or> c = self")
    case True
    with "1.prems" show ?thesis by (auto simp: walk_parents_Some split: if_splits)
  next
    case False
    with "1.prems" have rest: "walk_parents t self (c # seen) (parent_of t c) = Inl e" by (simp add: walk_parents_Some)
    then obtain d where d: "parent_of t c = Some d" by (cases "parent_of t c") (auto simp: walk_parents.simps)
    with "1.hyps" [OF refl _ _ d] False rest have "e = BadRequest ''An account cannot be moved under one of its own sub-accounts''"
      "(d, self) \<in> (parent_rel t)\<^sup>*" by auto
    with d show ?thesis by (auto simp: parent_rel_def intro: converse_rtrancl_into_rtrancl)
  qed
qed

text \<open>
  C38: the walk up the parents ends on every table, even one whose parents already run in a circle,
  and decides exactly the question it is asked: it refuses a new parent if and only if the account
  can be reached from it by going up, so that the change would close a cycle.
\<close>

theorem refuseParentCycle_decides:
  assumes "self \<noteq> []" and "[] \<notin> acc_id ` set t"
  shows "refuseParentCycle self p t =
    (if (p, self) \<in> (parent_rel t)\<^sup>* then Inl (BadRequest ''An account cannot be moved under one of its own sub-accounts'') else Inr ())"
proof (cases "refuseParentCycle self p t")
  case (Inl e)
  with walk_parents_refuses [of t self "[]" p e] show ?thesis by (simp add: refuseParentCycle_def)
next
  case (Inr u)
  with refuseParentCycle_avoids [of self p t] assms show ?thesis by simp
qed

section \<open>The operations keep the links in order\<close>

definition link_view :: "account \<Rightarrow> id \<times> id \<times> id option \<times> account_type" where
  "link_view a = (acc_id a, acc_businessId a, acc_parentId a, acc_accountType a)"

lemma find_row_view:
  assumes "map link_view t' = map link_view t"
  shows "map_option link_view (find_row acc_id k t') = map_option link_view (find_row acc_id k t)"
  using assms by (rule find_row_same_view) (simp add: link_view_def)

lemma parent_of_view: "map link_view t' = map link_view t \<Longrightarrow> parent_of t' = parent_of t"
proof (rule ext)
  fix k assume "map link_view t' = map link_view t"
  then have "map_option link_view (find_row acc_id k t') = map_option link_view (find_row acc_id k t)"
    by (rule find_row_view)
  then show "parent_of t' k = parent_of t k"
    by (cases "find_row acc_id k t'"; cases "find_row acc_id k t") (auto simp: parent_of_def link_view_def)
qed

lemma parent_fits_view:
  assumes "map link_view t' = map link_view t" and "link_view a = link_view b" and "parent_fits t b"
  shows "parent_fits t' a"
  unfolding parent_fits_iff
proof (intro allI impI)
  fix p assume p: "acc_parentId a = Some p"
  with assms(2) have "acc_parentId b = Some p" by (simp add: link_view_def)
  with assms(3) obtain q where q: "find_row acc_id p t = Some q"
      "acc_businessId q = acc_businessId b" "acc_accountType q = acc_accountType b"
    by (auto simp: parent_fits_iff link_view_def)
  with find_row_view [OF assms(1), of p] obtain q' where "find_row acc_id p t' = Some q'" "link_view q' = link_view q"
    by auto
  with q assms(2) show "\<exists>q. find_row acc_id p t' = Some q \<and> acc_businessId q = acc_businessId a \<and>
      acc_accountType q = acc_accountType a"
    by (auto simp: link_view_def)
qed

lemma hierarchy_view:
  assumes "map link_view t' = map link_view t"
  shows "hierarchy_ok t' = hierarchy_ok t"
proof -
  have ids: "map acc_id t' = map acc_id t"
    using assms by (induction t' t rule: list_induct2') (auto simp: link_view_def)
  have "list_all2 (\<lambda>a b. link_view a = link_view b) t' t"
    using assms by (simp add: list_all2_conv_all_nth map_equality_iff)
  then have "(\<forall>a \<in> set t'. parent_fits t' a) = (\<forall>a \<in> set t. parent_fits t a)"
    using parent_fits_view [OF assms] parent_fits_view [OF assms [symmetric]]
    unfolding list_all2_conv_all_nth all_set_conv_all_nth by metis
  moreover have "parent_rel t' = parent_rel t"
    using parent_of_view [OF assms] by (simp add: parent_rel_def)
  ultimately show ?thesis
    using ids by (simp add: hierarchy_ok_def keyed_def flip: set_map)
qed

lemma hierarchy_map_row:
  assumes "\<And>a. link_view (f a) = link_view a"
  shows "hierarchy_ok (map_row acc_id k f t) = hierarchy_ok t"
  by (rule hierarchy_view) (simp add: map_row_proj assms)

lemma parent_fits_parent:
  "parent_fits t a \<Longrightarrow> acc_parentId a = Some p \<Longrightarrow> p \<in> acc_id ` set t"
  by (auto simp: parent_fits_def dest: find_row_Some split: option.splits)

lemma parent_of_append:
  assumes "acc_id a \<notin> acc_id ` set t"
  shows "parent_of (t @ [a]) c = (if c = acc_id a then acc_parentId a else parent_of t c)"
proof -
  have "find_row acc_id (acc_id a) t = None" using assms by (simp add: find_row_None)
  then show ?thesis
    by (cases "find_row acc_id c t") (auto simp: parent_of_def find_row_append)
qed

lemma no_edge_into:
  assumes "hierarchy_ok t" and "x \<notin> acc_id ` set t" and "(p, x) \<in> (parent_rel t)\<^sup>*"
  shows "p = x"
  using assms(3)
proof (rule rtranclE)
  fix c assume "(c, x) \<in> parent_rel t"
  then obtain a where "a \<in> set t" "acc_parentId a = Some x"
    by (auto simp: parent_rel_def parent_of_def dest: find_row_Some split: option.splits)
  with assms(1,2) show ?thesis by (auto simp: hierarchy_ok_def dest: parent_fits_parent)
qed

lemma parent_fits_append:
  "parent_fits t a \<Longrightarrow> parent_fits (t @ [b]) a"
  by (auto simp: parent_fits_def find_row_append split: option.splits)

lemma parent_rel_append:
  assumes "acc_id a \<notin> acc_id ` set t"
  shows "parent_rel (t @ [a]) =
    (case acc_parentId a of None \<Rightarrow> parent_rel t | Some p \<Rightarrow> insert (acc_id a, p) (parent_rel t))"
proof -
  have "parent_of t (acc_id a) = None" using assms by (rule parent_of_absent)
  then have "parent_of (t @ [a]) c = Some q \<longleftrightarrow> (c = acc_id a \<and> acc_parentId a = Some q) \<or> parent_of t c = Some q" for c q
    by (simp add: parent_of_append [OF assms])
  then show ?thesis by (cases "acc_parentId a") (auto simp: parent_rel_def)
qed

lemma hierarchy_insert:
  assumes ok: "hierarchy_ok t" and new: "acc_id a \<notin> acc_id ` set t" "acc_id a \<noteq> []"
    and fits: "parent_fits t a"
  shows "hierarchy_ok (t @ [a])"
proof -
  have "acyclic (parent_rel (t @ [a]))"
  proof (cases "acc_parentId a")
    case None
    with ok show ?thesis by (simp add: hierarchy_ok_def parent_rel_append [OF new(1)])
  next
    case (Some p)
    have "(p, acc_id a) \<notin> (parent_rel t)\<^sup>*"
    proof
      assume "(p, acc_id a) \<in> (parent_rel t)\<^sup>*"
      then have "p = acc_id a" by (rule no_edge_into [OF ok new(1)])
      with parent_fits_parent [OF fits Some] new(1) show False by simp
    qed
    with Some ok show ?thesis by (simp add: hierarchy_ok_def parent_rel_append [OF new(1)])
  qed
  moreover have "\<forall>b \<in> set (t @ [a]). parent_fits (t @ [a]) b"
    using ok fits by (simp add: hierarchy_ok_def parent_fits_append)
  moreover have "keyed acc_id (t @ [a])" and "[] \<notin> acc_id ` set (t @ [a])"
    using ok new by (simp_all add: hierarchy_ok_def)
  ultimately show ?thesis by (simp only: hierarchy_ok_def simp_thms)
qed

lemma requireCompatibleParent_ok:
  "requireCompatibleParent b p ty t = Inr () \<longleftrightarrow>
   (\<exists>q. find_row acc_id p t = Some q \<and> acc_businessId q = b \<and> acc_accountType q = ty)"
  by (auto simp: requireCompatibleParent_def split: option.splits)

lemma create_account_hierarchy [keeps]:
  assumes "create_account newId now b dto db = Inr (db', a)" and "newId \<noteq> []"
    and ok: "hierarchy_ok (accounts db)"
  shows "hierarchy_ok (accounts db')"
proof -
  from assms(1) have new: "acc_id a = newId" "newId \<notin> acc_id ` set (accounts db)"
    and fk: "fk_parent (acc_parentId a) (accounts db) = Inr ()"
    and links: "acc_parentId a = cad_parentId dto" "acc_businessId a = b" "acc_accountType a = cad_accountType dto"
    and par: "truthy (cad_parentId dto) \<Longrightarrow>
      requireCompatibleParent b (the (cad_parentId dto)) (cad_accountType dto) (accounts db) = Inr ()"
    and t: "accounts db' = accounts db @ [a]"
    by (auto simp: create_account_def insert_account_def Let_def result_simps split: if_splits)
  have "parent_fits (accounts db) a"
  proof (cases "acc_parentId a")
    case (Some p)
    with fk have "p \<in> acc_id ` set (accounts db)"
      by (simp add: fk_parent_def check_def split: if_splits)
    with ok have "p \<noteq> []" unfolding hierarchy_ok_def by metis
    with Some links par show ?thesis
      by (auto simp: parent_fits_iff requireCompatibleParent_ok)
  qed (simp add: parent_fits_def)
  with ok new assms(2) t show ?thesis by (simp add: hierarchy_insert)
qed

lemma archive_account_hierarchy [keeps]:
  "archive_account b i db = Inr db' \<Longrightarrow> hierarchy_ok (accounts db) \<Longrightarrow> hierarchy_ok (accounts db')"
  by (auto simp: archive_account_def result_simps hierarchy_map_row link_view_def split: if_splits)

lemma unarchive_account_hierarchy [keeps]:
  "unarchive_account b i db = Inr db' \<Longrightarrow> hierarchy_ok (accounts db) \<Longrightarrow> hierarchy_ok (accounts db')"
  by (auto simp: unarchive_account_def result_simps hierarchy_map_row link_view_def split: if_splits)

lemma hierarchy_delete:
  assumes ok: "hierarchy_ok t" and leaf: "\<And>c. c \<in> set t \<Longrightarrow> acc_parentId c \<noteq> Some i"
  shows "hierarchy_ok (filter (\<lambda>a. acc_id a \<noteq> i) t)"
proof -
  have find: "find_row acc_id p (filter (\<lambda>a. acc_id a \<noteq> i) t) = (if p = i then None else find_row acc_id p t)" for p
    by (rule find_row_filter)
  have "parent_rel (filter (\<lambda>a. acc_id a \<noteq> i) t) \<subseteq> parent_rel t"
    by (auto simp: parent_rel_def parent_of_def find split: if_splits)
  with ok have "acyclic (parent_rel (filter (\<lambda>a. acc_id a \<noteq> i) t))"
    by (auto simp: hierarchy_ok_def intro: acyclic_subset)
  moreover have "parent_fits (filter (\<lambda>a. acc_id a \<noteq> i) t) a" if "a \<in> set t" for a
    using ok leaf [OF that] that by (force simp: hierarchy_ok_def parent_fits_iff find)
  ultimately show ?thesis
    using ok by (auto simp: hierarchy_ok_def intro: keyed_filter)
qed

lemma removeOrArchive_hierarchy [keeps]:
  "removeOrArchive b i db = Inr (db', d) \<Longrightarrow> hierarchy_ok (accounts db) \<Longrightarrow> hierarchy_ok (accounts db')"
  by (auto simp: removeOrArchive_def result_simps hierarchy_map_row link_view_def hierarchy_delete split: if_splits)

lemma apply_account_update_simps [simp]:
  "acc_id (apply_account_update dto a) = acc_id a"
  "acc_businessId (apply_account_update dto a) = acc_businessId a"
  "acc_accountType (apply_account_update dto a) = acc_accountType a"
  "acc_parentId (apply_account_update dto a) = orelse (uad_parentId dto) (acc_parentId a)"
  "acc_status (apply_account_update dto a) = acc_status a"
  "acc_isSystemAccount (apply_account_update dto a) = acc_isSystemAccount a"
  "acc_accountSubtype (apply_account_update dto a) = orelse (uad_accountSubtype dto) (acc_accountSubtype a)"
  "acc_openingBalance (apply_account_update dto a) = acc_openingBalance a"
  "acc_currentBalance (apply_account_update dto a) = acc_currentBalance a"
  by (simp_all add: apply_account_update_def)

text \<open>
  Re-parenting one account: sound when the new parent fits and the account is not above it.
\<close>

lemma hierarchy_reparent:
  assumes ok: "hierarchy_ok t" and a: "find_row acc_id i t = Some a"
    and f: "\<And>x. acc_id (f x) = acc_id x" "\<And>x. acc_businessId (f x) = acc_businessId x"
      "\<And>x. acc_accountType (f x) = acc_accountType x"
    and fits: "parent_fits t (f a)"
    and above: "\<And>p. acc_parentId (f a) = Some p \<Longrightarrow> acc_parentId (f a) \<noteq> acc_parentId a \<Longrightarrow> (p, i) \<notin> (parent_rel t)\<^sup>*"
  shows "hierarchy_ok (map_row acc_id i f t)"
proof -
  have find: "find_row acc_id k (map_row acc_id i f t) =
      (if k = i then map_option f (find_row acc_id k t) else find_row acc_id k t)" for k
    by (simp add: find_row_map_row f)
  have par: "parent_of (map_row acc_id i f t) c = (if c = i then acc_parentId (f a) else parent_of t c)" for c
    by (simp add: parent_of_def find a)
  have old: "parent_of t i = acc_parentId a"
    by (simp add: parent_of_def a)
  have "acyclic (parent_rel (map_row acc_id i f t))"
  proof (cases "acc_parentId (f a) = acc_parentId a \<or> acc_parentId (f a) = None")
    case True
    then have "parent_rel (map_row acc_id i f t) \<subseteq> parent_rel t"
      by (auto simp: parent_rel_def par old split: if_splits)
    with ok show ?thesis by (auto simp: hierarchy_ok_def intro: acyclic_subset)
  next
    case False
    then obtain p where p: "acc_parentId (f a) = Some p" by auto
    then have "parent_rel (map_row acc_id i f t) \<subseteq> insert (i, p) (parent_rel t)"
      by (auto simp: parent_rel_def par split: if_splits)
    moreover have "acyclic (insert (i, p) (parent_rel t))"
      using ok above [OF p] False p by (simp add: hierarchy_ok_def)
    ultimately show ?thesis by (rule acyclic_subset [rotated])
  qed
  moreover have "parent_fits (map_row acc_id i f t) b" if "parent_fits t b" for b
    using that by (auto simp: parent_fits_iff find f)
  moreover have "parent_fits t (if acc_id b = i then f b else b)" if "b \<in> set t" for b
    using that ok fits find_row_mem [of acc_id t b] a by (auto simp: hierarchy_ok_def)
  ultimately have "\<forall>b \<in> set (map_row acc_id i f t). parent_fits (map_row acc_id i f t) b"
    unfolding set_map_row by blast
  moreover have "acc_id ` set (map_row acc_id i f t) = acc_id ` set t"
    using map_row_proj [of t acc_id f acc_id i] f by (simp flip: set_map)
  ultimately show ?thesis
    using ok \<open>acyclic (parent_rel (map_row acc_id i f t))\<close> by (simp add: hierarchy_ok_def keyed_map_row f)
qed

section \<open>What an operation may do to one account\<close>

lemma archive_accountE:
  assumes "archive_account b i db = Inr db'"
  obtains (already) account where "find_row acc_id i (accounts db) = Some account" "acc_status account = ARCHIVED" "db' = db"
  | (flipped) account where "find_row acc_id i (accounts db) = Some account" "acc_businessId account = b"
      "\<not> is_savings_pool account" "\<not> isReservedSystemAccount account"
      "\<And>c. c \<in> set (accounts db) \<Longrightarrow> acc_parentId c = Some i \<Longrightarrow> acc_status c = ARCHIVED"
      "db' = db\<lparr>accounts := map_row acc_id i (\<lambda>a. a\<lparr>acc_status := ARCHIVED\<rparr>) (accounts db)\<rparr>"
proof -
  from assms obtain account where account: "find_row acc_id i (accounts db) = Some account" "acc_businessId account = b"
      "\<not> is_savings_pool account" "\<not> isReservedSystemAccount account"
    and kids: "\<not> (\<exists>c \<in> set (accounts db). acc_parentId c = Some i \<and> acc_status c = record_status.ACTIVE)"
    and db': "db' = (if acc_status account = ARCHIVED then db
      else db\<lparr>accounts := map_row acc_id i (\<lambda>a. a\<lparr>acc_status := ARCHIVED\<rparr>) (accounts db)\<rparr>)"
    unfolding archive_account_def requireAccount_def
    by (simp only: result_simps) (auto simp: result_simps split: if_splits)
  have "acc_status c = ARCHIVED" if "c \<in> set (accounts db)" "acc_parentId c = Some i" for c
    using that kids by (cases "acc_status c") auto
  with account db' that show thesis by (cases "acc_status account = ARCHIVED") simp_all
qed

lemma unarchive_accountE:
  assumes "unarchive_account b i db = Inr db'"
  obtains (already) "db' = db"
  | (flipped) account where "find_row acc_id i (accounts db) = Some account" "acc_businessId account = b"
      "\<And>p q. acc_parentId account = Some p \<Longrightarrow> p \<noteq> [] \<Longrightarrow> find_row acc_id p (accounts db) = Some q \<Longrightarrow> acc_status q \<noteq> ARCHIVED"
      "db' = db\<lparr>accounts := map_row acc_id i (\<lambda>a. a\<lparr>acc_status := record_status.ACTIVE\<rparr>) (accounts db)\<rparr>"
proof -
  from assms obtain account where account: "find_row acc_id i (accounts db) = Some account" "acc_businessId account = b"
    and db': "db' = db \<or> (\<not> (truthy (acc_parentId account) \<and>
             (case find_row acc_id (the (acc_parentId account)) (accounts db) of
                None \<Rightarrow> False | Some parent \<Rightarrow> acc_status parent = ARCHIVED)) \<and>
        db' = db\<lparr>accounts := map_row acc_id i (\<lambda>a. a\<lparr>acc_status := record_status.ACTIVE\<rparr>) (accounts db)\<rparr>)"
    unfolding unarchive_account_def requireAccount_def
    by (simp only: result_simps) (auto simp: result_simps split: if_splits)
  then show thesis using that by fastforce
qed

lemma removeOrArchiveE:
  assumes "removeOrArchive b i db = Inr (db', deleted)"
  obtains account where "find_row acc_id i (accounts db) = Some account" "acc_businessId account = b"
    "\<not> is_savings_pool account" "\<not> isReservedSystemAccount account"
    "\<And>c. c \<in> set (accounts db) \<Longrightarrow> acc_parentId c \<noteq> Some i"
    "deleted \<longleftrightarrow> account_entries db i = []"
    "db' = (if deleted then db\<lparr>accounts := filter (\<lambda>a. acc_id a \<noteq> i) (accounts db)\<rparr>
       else if acc_status account = ARCHIVED then db
       else db\<lparr>accounts := map_row acc_id i (\<lambda>a. a\<lparr>acc_status := ARCHIVED\<rparr>) (accounts db)\<rparr>)"
  using assms unfolding removeOrArchive_def requireAccount_def
  by (simp only: result_simps) (auto simp: result_simps split: if_splits)

lemma update_accountE:
  assumes "update_account b i dto db = Inr db'"
  obtains account where "find_row acc_id i (accounts db) = Some account" "acc_businessId account = b"
    "\<And>s. uad_accountSubtype dto = Some s \<Longrightarrow> s \<noteq> acc_accountSubtype account \<Longrightarrow>
       \<not> isReservedSystemAccount account \<and> \<not> subtype_in RESERVED_ACCOUNT_SUBTYPES s"
    "\<And>p. uad_parentId dto = Some (Some p) \<Longrightarrow> p \<noteq> i \<and>
        requireCompatibleParent b p (acc_accountType account) (accounts db) = Inr () \<and>
        refuseParentCycle i p (accounts db) = Inr ()"
    "db' = db\<lparr>accounts := map_row acc_id i (apply_account_update dto) (accounts db)\<rparr>"
proof -
  from assms obtain account where account: "find_row acc_id i (accounts db) = Some account" "acc_businessId account = b"
    and sub: "(case uad_accountSubtype dto of
              None \<Rightarrow> Inr ()
            | Some s \<Rightarrow>
                if s = acc_accountSubtype account then Inr ()
                else if isReservedSystemAccount account
                then Inl (BadRequest ''This account's subtype is used by the app and cannot be changed.'')
                else refuseReservedSubtype s) = Inr ()"
    and par: "(case uad_parentId dto of
              Some (Some p) \<Rightarrow>
                if p = i then Inl (BadRequest ''An account cannot be its own parent'')
                else rbind (requireCompatibleParent b p (acc_accountType account) (accounts db)) (\<lambda>_.
                     refuseParentCycle i p (accounts db))
            | _ \<Rightarrow> Inr ()) = Inr ()"
    and db': "db' = db\<lparr>accounts := map_row acc_id i (apply_account_update dto) (accounts db)\<rparr>"
    unfolding update_account_def requireAccount_def
    by (simp only: result_simps) auto
  show thesis
  proof (rule that [OF account])
    fix s assume "uad_accountSubtype dto = Some s" and "s \<noteq> acc_accountSubtype account"
    with sub show "\<not> isReservedSystemAccount account \<and> \<not> subtype_in RESERVED_ACCOUNT_SUBTYPES s"
      by (simp add: refuseReservedSubtype_def result_simps split: if_splits)
  next
    fix p assume "uad_parentId dto = Some (Some p)"
    with par show "p \<noteq> i \<and> requireCompatibleParent b p (acc_accountType account) (accounts db) = Inr () \<and>
        refuseParentCycle i p (accounts db) = Inr ()"
      by (simp add: result_simps split: if_splits)
  qed (rule db')
qed

lemma create_accountE:
  assumes "create_account newId now b dto db = Inr (db', a)"
  obtains "acc_id a = newId" "newId \<notin> acc_id ` set (accounts db)" "acc_businessId a = b"
    "acc_parentId a = cad_parentId dto" "acc_accountType a = cad_accountType dto"
    "acc_accountSubtype a = cad_accountSubtype dto"
    "acc_status a = record_status.ACTIVE" "\<not> acc_isSystemAccount a"
    "acc_openingBalance a = orelse (cad_openingBalance dto) 0" "acc_currentBalance a = orelse (cad_openingBalance dto) 0"
    "fk_parent (cad_parentId dto) (accounts db) = Inr ()"
    "truthy (cad_parentId dto) \<Longrightarrow>
      requireCompatibleParent b (the (cad_parentId dto)) (cad_accountType dto) (accounts db) = Inr ()"
    "\<not> subtype_in RESERVED_ACCOUNT_SUBTYPES (cad_accountSubtype dto)"
    "db' = db\<lparr>accounts := accounts db @ [a]\<rparr>"
  using assms
  by (auto simp: create_account_def insert_account_def refuseReservedSubtype_def Let_def result_simps split: if_splits)

lemma update_account_hierarchy [keeps]:
  assumes "update_account b i dto db = Inr db'" and ok: "hierarchy_ok (accounts db)"
  shows "hierarchy_ok (accounts db')"
proof -
  from assms(1) obtain a where a: "find_row acc_id i (accounts db) = Some a" "acc_businessId a = b"
    and parent: "\<And>p. uad_parentId dto = Some (Some p) \<Longrightarrow> p \<noteq> i \<and>
        requireCompatibleParent b p (acc_accountType a) (accounts db) = Inr () \<and>
        refuseParentCycle i p (accounts db) = Inr ()"
    and "db' = db\<lparr>accounts := map_row acc_id i (apply_account_update dto) (accounts db)\<rparr>"
    by (rule update_accountE) blast
  then have db': "accounts db' = map_row acc_id i (apply_account_update dto) (accounts db)" by simp
  have mem: "a \<in> set (accounts db)" "acc_id a = i" using a(1) by (auto dest: find_row_Some)
  then have i: "i \<noteq> []" using ok by (force simp: hierarchy_ok_def)
  have fits: "parent_fits (accounts db) (apply_account_update dto a)"
  proof (cases "uad_parentId dto")
    case None
    then have "link_view (apply_account_update dto a) = link_view a" by (simp add: link_view_def)
    with ok mem show ?thesis by (auto simp: hierarchy_ok_def intro: parent_fits_view)
  next
    case (Some q)
    with parent a(2) show ?thesis
      by (auto simp: parent_fits_iff requireCompatibleParent_ok)
  qed
  show ?thesis unfolding db'
  proof (rule hierarchy_reparent [OF ok a(1)])
    fix p assume p: "acc_parentId (apply_account_update dto a) = Some p"
      and new: "acc_parentId (apply_account_update dto a) \<noteq> acc_parentId a"
    then have "uad_parentId dto = Some (Some p)" by (cases "uad_parentId dto") auto
    with parent have "refuseParentCycle i p (accounts db) = Inr ()" by blast
    then show "(p, i) \<notin> (parent_rel (accounts db))\<^sup>*"
      using i ok by (intro refuseParentCycle_avoids) (auto simp: hierarchy_ok_def)
  qed (simp_all add: fits)
qed

section \<open>The component as a system of operations\<close>

text \<open>
  Any of the account routes, for any workspace and request. A created account has the UUID the
  database drew for it, which is not the empty string.
\<close>

inductive accounts_step :: "db \<Rightarrow> db \<Rightarrow> bool" where
  created: "create_account newId now b dto db = Inr (db', a) \<Longrightarrow> newId \<noteq> [] \<Longrightarrow> accounts_step db db'"
| updated: "update_account b i dto db = Inr db' \<Longrightarrow> accounts_step db db'"
| archived: "archive_account b i db = Inr db' \<Longrightarrow> accounts_step db db'"
| unarchived: "unarchive_account b i db = Inr db' \<Longrightarrow> accounts_step db db'"
| removed: "removeOrArchive b i db = Inr (db', deleted) \<Longrightarrow> accounts_step db db'"

inductive_cases accounts_stepE: "accounts_step db db'"

interpretation hierarchy: invariant_system accounts_step "\<lambda>db. hierarchy_ok (accounts db)"
  by unfold_locales (auto elim!: accounts_stepE intro: keeps)

section \<open>Active accounts under archived parents\<close>

definition active_parents :: "account list \<Rightarrow> bool" where
  "active_parents t \<longleftrightarrow> (\<forall>a \<in> set t. acc_status a = record_status.ACTIVE \<longrightarrow>
     (case acc_parentId a of None \<Rightarrow> True
      | Some p \<Rightarrow> (case find_row acc_id p t of None \<Rightarrow> True | Some q \<Rightarrow> acc_status q \<noteq> ARCHIVED)))"

lemma active_parents_iff:
  "active_parents t \<longleftrightarrow> (\<forall>a p q. a \<in> set t \<longrightarrow> acc_status a = record_status.ACTIVE \<longrightarrow> acc_parentId a = Some p \<longrightarrow>
     find_row acc_id p t = Some q \<longrightarrow> acc_status q \<noteq> ARCHIVED)"
  by (auto simp: active_parents_def split: option.splits)

lemma status_map_row:
  "find_row acc_id k (map_row acc_id i (\<lambda>a. a\<lparr>acc_status := st\<rparr>) t) =
   (if k = i then map_option (\<lambda>a. a\<lparr>acc_status := st\<rparr>) (find_row acc_id k t) else find_row acc_id k t)"
  by (simp add: find_row_map_row)

lemma archive_keeps_active_parents:
  assumes "active_parents t" and "\<And>c. c \<in> set t \<Longrightarrow> acc_parentId c = Some i \<Longrightarrow> acc_status c = ARCHIVED"
  shows "active_parents (map_row acc_id i (\<lambda>a. a\<lparr>acc_status := ARCHIVED\<rparr>) t)"
  unfolding active_parents_iff
proof (intro allI impI)
  fix a p q
  assume "a \<in> set (map_row acc_id i (\<lambda>a. a\<lparr>acc_status := ARCHIVED\<rparr>) t)" and act: "acc_status a = record_status.ACTIVE"
    and p: "acc_parentId a = Some p"
    and q: "find_row acc_id p (map_row acc_id i (\<lambda>a. a\<lparr>acc_status := ARCHIVED\<rparr>) t) = Some q"
  then have a: "a \<in> set t" by (auto simp: set_map_row split: if_splits)
  with assms(2) act p have "p \<noteq> i" by auto
  with q have "find_row acc_id p t = Some q" by (simp add: status_map_row)
  with assms(1) a act p show "acc_status q \<noteq> ARCHIVED" by (auto simp: active_parents_iff)
qed

lemma unarchive_keeps_active_parents:
  assumes "active_parents t" and "find_row acc_id i t = Some x" and "keyed acc_id t"
    and "\<And>p q. acc_parentId x = Some p \<Longrightarrow> find_row acc_id p t = Some q \<Longrightarrow> acc_status q \<noteq> ARCHIVED"
  shows "active_parents (map_row acc_id i (\<lambda>a. a\<lparr>acc_status := record_status.ACTIVE\<rparr>) t)"
  unfolding active_parents_iff
proof (intro allI impI)
  fix a p q
  assume mem: "a \<in> set (map_row acc_id i (\<lambda>a. a\<lparr>acc_status := record_status.ACTIVE\<rparr>) t)"
    and act: "acc_status a = record_status.ACTIVE" and p: "acc_parentId a = Some p"
    and q: "find_row acc_id p (map_row acc_id i (\<lambda>a. a\<lparr>acc_status := record_status.ACTIVE\<rparr>) t) = Some q"
  from mem obtain y where y: "y \<in> set t" "acc_parentId y = acc_parentId a" "acc_id y = acc_id a"
      "acc_id y \<noteq> i \<Longrightarrow> a = y"
    by (auto simp: set_map_row split: if_splits)
  show "acc_status q \<noteq> ARCHIVED"
  proof (cases "p = i")
    case True
    with q show ?thesis by (auto simp: status_map_row)
  next
    case False
    with q have q': "find_row acc_id p t = Some q" by (simp add: status_map_row)
    show ?thesis
    proof (cases "acc_id y = i")
      case True
      with find_row_mem [OF assms(3) y(1)] assms(2) have "y = x" by simp
      with assms(4) p q' y(2) show ?thesis by simp
    next
      case False
      with y act p q' assms(1) show ?thesis by (auto simp: active_parents_iff)
    qed
  qed
qed

lemma active_parents_filter:
  assumes "active_parents t"
  shows "active_parents (filter (\<lambda>a. acc_id a \<noteq> i) t)"
  using assms by (auto simp: active_parents_iff find_row_filter split: if_splits)

section \<open>Properties\<close>

definition sample_create :: "id option \<Rightarrow> create_account_dto" where
  "sample_create p = \<lparr>cad_name = ''Cash'', cad_nameBn = None, cad_accountNumber = None,
     cad_accountType = ASSET, cad_accountSubtype = Some ''cash'', cad_parentId = p, cad_openingBalance = Some 5000\<rparr>"

definition sample_db1 :: db where
  "sample_db1 = (case create_account ''a1'' 0 ''w'' (sample_create None) empty_db of Inr (d, _) \<Rightarrow> d | Inl _ \<Rightarrow> empty_db)"

definition sample_db2 :: db where
  "sample_db2 = (case create_account ''a2'' 1 ''w'' (sample_create (Some ''a1'')) sample_db1 of Inr (d, _) \<Rightarrow> d | Inl _ \<Rightarrow> empty_db)"

lemmas sample_accounts = sample_create_def sample_db1_def sample_db2_def create_account_def insert_account_def
  refuseReservedSubtype_def requireCompatibleParent_def subtype_in_def account_constants fk_parent_def
  insert_row_def store_money_def fits_money_def empty_db_def Let_def

lemma empty_hierarchy: "hierarchy_ok (accounts empty_db)"
  by (simp add: hierarchy_ok_def empty_db_def parent_rel_def parent_of_def acyclic_def)

lemma sample_db2_run: "accounts_step\<^sup>*\<^sup>* empty_db sample_db2"
proof -
  have s1: "\<exists>a. create_account ''a1'' 0 ''w'' (sample_create None) empty_db = Inr (sample_db1, a)"
    by (simp add: sample_accounts)
  have s2: "\<exists>a. create_account ''a2'' 1 ''w'' (sample_create (Some ''a1'')) sample_db1 = Inr (sample_db2, a)"
    by (simp add: sample_accounts)
  have "accounts_step empty_db sample_db1" using s1 accounts_step.created by fastforce
  moreover have "accounts_step sample_db1 sample_db2" using s2 accounts_step.created by fastforce
  ultimately show ?thesis by simp
qed

text \<open>
  C40: along any sequence of account operations the parent links stay sound: ids are unique, a
  parent exists, belongs to the same workspace and has the same type, and no account is its own
  ancestor.
\<close>

theorem accounts_run_hierarchy:
  assumes "accounts_step\<^sup>*\<^sup>* db db'" and "hierarchy_ok (accounts db)"
  shows "hierarchy_ok (accounts db')"
  using assms by (rule hierarchy.run_inv)

theorem accounts_run_hierarchy_witness:
  "accounts_step\<^sup>*\<^sup>* empty_db sample_db2 \<and> hierarchy_ok (accounts empty_db) \<and> hierarchy_ok (accounts sample_db2)"
  using accounts_run_hierarchy [OF sample_db2_run empty_hierarchy] sample_db2_run empty_hierarchy by blast

text \<open>
  No account operation deletes an account that has postings or that the app posts through,
  changes a balance, or moves an account to another workspace or type; and it neither archives
  a reserved system account nor changes its subtype.
\<close>

theorem accounts_step_protects:
  assumes "accounts_step db db'" and "find_row acc_id k (accounts db) = Some a"
    and "account_entries db k \<noteq> [] \<or> isReservedSystemAccount a"
  shows "\<exists>a'. find_row acc_id k (accounts db') = Some a' \<and> acc_businessId a' = acc_businessId a \<and>
     acc_accountType a' = acc_accountType a \<and> acc_openingBalance a' = acc_openingBalance a \<and>
     acc_currentBalance a' = acc_currentBalance a \<and>
     (isReservedSystemAccount a \<longrightarrow> acc_accountSubtype a' = acc_accountSubtype a \<and>
        (acc_status a = record_status.ACTIVE \<longrightarrow> acc_status a' = record_status.ACTIVE))"
  using assms(1)
proof (rule accounts_stepE)
  fix newId now b dto x
  assume "create_account newId now b dto db = Inr (db', x)"
  then show ?thesis using assms(2) by (auto elim!: create_accountE simp: find_row_append)
next
  fix b i dto
  assume "update_account b i dto db = Inr db'"
  then show ?thesis
  proof (cases rule: update_accountE)
    case (1 account)
    then show ?thesis using assms(2)
      by (cases "k = i"; cases "uad_accountSubtype dto") (auto simp: find_row_map_row)
  qed
next
  fix b i
  assume "archive_account b i db = Inr db'"
  then show ?thesis
    by (cases rule: archive_accountE) (use assms(2) in \<open>auto simp: status_map_row\<close>)
next
  fix b i
  assume "unarchive_account b i db = Inr db'"
  then show ?thesis
    by (cases rule: unarchive_accountE) (use assms(2) in \<open>auto simp: status_map_row\<close>)
next
  fix b i deleted
  assume "removeOrArchive b i db = Inr (db', deleted)"
  then show ?thesis
  proof (cases rule: removeOrArchiveE)
    case (1 account)
    show ?thesis
    proof (cases "k = i")
      case True
      with 1 assms(2,3) have "\<not> deleted" by auto
      with 1 True assms(2) show ?thesis by (auto simp: status_map_row)
    qed (use 1 assms(2) in \<open>auto simp: status_map_row find_row_filter\<close>)
  qed
qed

definition sample_receivable :: account where
  "sample_receivable = \<lparr>acc_id = ''ar'', acc_businessId = ''w'', acc_parentId = None, acc_name = ''Accounts Receivable'',
     acc_nameBn = None, acc_accountNumber = None, acc_accountType = ASSET, acc_accountSubtype = Some ''receivable'',
     acc_openingBalance = 0, acc_currentBalance = 0, acc_isSystemAccount = True, acc_status = record_status.ACTIVE,
     acc_displayOrder = 0, acc_createdAt = 0\<rparr>"

definition rename_dto :: "string \<Rightarrow> update_account_dto" where
  "rename_dto n = \<lparr>uad_name = Some n, uad_nameBn = None, uad_accountNumber = None, uad_accountSubtype = None, uad_parentId = None\<rparr>"

theorem accounts_step_protects_witness:
  "\<exists>db' a'. update_account ''w'' ''ar'' (rename_dto ''AR'') (empty_db\<lparr>accounts := [sample_receivable]\<rparr>) = Inr db' \<and>
     find_row acc_id ''ar'' (accounts db') = Some a' \<and> acc_name a' = ''AR'' \<and>
     acc_accountSubtype a' = Some ''receivable'' \<and> acc_status a' = record_status.ACTIVE"
proof -
  let ?db = "empty_db\<lparr>accounts := [sample_receivable]\<rparr>"
  let ?db' = "?db\<lparr>accounts := [sample_receivable\<lparr>acc_name := ''AR''\<rparr>]\<rparr>"
  have op: "update_account ''w'' ''ar'' (rename_dto ''AR'') ?db = Inr ?db'"
    by (simp add: update_account_def requireAccount_def require_row_def sample_receivable_def rename_dto_def
        update_row_def apply_account_update_def)
  have found: "find_row acc_id ''ar'' (accounts ?db) = Some sample_receivable"
    by (simp add: sample_receivable_def)
  have reserved: "isReservedSystemAccount sample_receivable"
    by (simp add: isReservedSystemAccount_def sample_receivable_def subtype_in_def account_constants)
  have "\<exists>a'. find_row acc_id ''ar'' (accounts ?db') = Some a' \<and> acc_accountSubtype a' = Some ''receivable'' \<and>
      acc_status a' = record_status.ACTIVE"
    using accounts_step_protects [OF accounts_step.updated [OF op] found disjI2 [OF reserved]] reserved
    by (auto simp: sample_receivable_def)
  then show ?thesis using op by (auto simp: sample_receivable_def)
qed

text \<open>
  Archiving, unarchiving and removing accounts keep every active account out from under an
  archived parent: archiving refuses a parent with active children, unarchiving a child of an
  archived parent.
\<close>

theorem archive_routes_keep_active_parents:
  assumes "active_parents (accounts db)" and "hierarchy_ok (accounts db)"
    and "archive_account b i db = Inr db' \<or> unarchive_account b i db = Inr db' \<or> removeOrArchive b i db = Inr (db', d)"
  shows "active_parents (accounts db')"
proof -
  have arch: "active_parents (accounts db')" if "archive_account b i db = Inr db'"
    using that by (cases rule: archive_accountE) (auto simp: assms(1) intro: archive_keeps_active_parents)
  have unarch: "active_parents (accounts db')" if "unarchive_account b i db = Inr db'"
    using that
  proof (cases rule: unarchive_accountE)
    case (flipped account)
    have "active_parents (map_row acc_id i (\<lambda>a. a\<lparr>acc_status := record_status.ACTIVE\<rparr>) (accounts db))"
    proof (rule unarchive_keeps_active_parents [OF assms(1) flipped(1)])
      show "keyed acc_id (accounts db)" using assms(2) by (simp add: hierarchy_ok_def)
      fix p q assume p: "acc_parentId account = Some p" "find_row acc_id p (accounts db) = Some q"
      then have "p \<noteq> []" using assms(2) unfolding hierarchy_ok_def by (metis find_row_Some imageI)
      with flipped(3) p show "acc_status q \<noteq> ARCHIVED" by blast
    qed
    with flipped(4) show ?thesis by simp
  qed (simp add: assms(1))
  have remove: "active_parents (accounts db')" if "removeOrArchive b i db = Inr (db', d)"
    using that
  proof (cases rule: removeOrArchiveE)
    case (1 account)
    have "active_parents (map_row acc_id i (\<lambda>a. a\<lparr>acc_status := ARCHIVED\<rparr>) (accounts db))"
      using 1(5) by (intro archive_keeps_active_parents [OF assms(1)]) blast
    with 1(7) assms(1) show ?thesis by (simp add: active_parents_filter)
  qed
  from assms(3) arch unarch remove show ?thesis by blast
qed

theorem archive_routes_keep_active_parents_witness:
  "\<exists>db'. archive_account ''w'' ''a2'' sample_db2 = Inr db' \<and> active_parents (accounts db')"
proof -
  have ok: "active_parents (accounts sample_db2)"
    by (simp add: sample_accounts active_parents_def)
  have "hierarchy_ok (accounts sample_db2)"
    using hierarchy.run_inv [OF sample_db2_run empty_hierarchy] .
  moreover obtain db' where db': "archive_account ''w'' ''a2'' sample_db2 = Inr db'"
    by (simp add: sample_accounts archive_account_def requireAccount_def require_row_def is_savings_pool_def
        isReservedSystemAccount_def update_row_def)
  ultimately show ?thesis
    using archive_routes_keep_active_parents [OF ok, of "''w''" "''a2''" db'] by blast
qed

text \<open>
  Creating an account does not check the parent's status, so an active account can be placed
  under an archived parent -- the situation archiving and unarchiving are written to exclude.
\<close>

theorem create_under_archived_parent:
  "\<exists>db a. active_parents (accounts db) \<and> hierarchy_ok (accounts db) \<and>
     (\<exists>db'. create_account ''a3'' 0 ''w'' (sample_create (Some ''a1'')) db = Inr (db', a) \<and>
        \<not> active_parents (accounts db'))"
proof -
  define db where "db = empty_db\<lparr>accounts := [sample_receivable\<lparr>acc_id := ''a1'', acc_status := ARCHIVED\<rparr>]\<rparr>"
  have "acyclic (parent_rel (accounts db))"
    by (rule acyclic_by_rank [where rank = "\<lambda>_. 0"])
      (auto simp: db_def parent_of_def sample_receivable_def split: if_splits)
  then have "hierarchy_ok (accounts db)"
    by (simp add: hierarchy_ok_def db_def sample_receivable_def parent_fits_def)
  moreover have "active_parents (accounts db)"
    by (simp add: active_parents_def db_def sample_receivable_def)
  moreover have "\<exists>db' a. create_account ''a3'' 0 ''w'' (sample_create (Some ''a1'')) db = Inr (db', a) \<and>
      \<not> active_parents (accounts db')"
    by (simp add: db_def sample_accounts sample_receivable_def active_parents_def)
  ultimately show ?thesis by blast
qed

text \<open>
  The hidden pooled savings account, which archiving refuses to touch, loses that protection
  when its subtype is edited: the subtype is not one the app reserves, so the edit is accepted
  and the account can then be archived.
\<close>

theorem savings_pool_archived_after_edit:
  "\<exists>db db1 db2 a. find_row acc_id ''p'' (accounts db) = Some a \<and> is_savings_pool a \<and>
     (\<exists>e. archive_account ''w'' ''p'' db = Inl e) \<and>
     update_account ''w'' ''p'' ((rename_dto ''Pool'')\<lparr>uad_accountSubtype := Some (Some ''cash'')\<rparr>) db = Inr db1 \<and>
     archive_account ''w'' ''p'' db1 = Inr db2 \<and>
     map_option acc_status (find_row acc_id ''p'' (accounts db2)) = Some ARCHIVED"
proof -
  define pool where "pool = sample_receivable\<lparr>acc_id := ''p'', acc_accountSubtype := Some ''savings''\<rparr>"
  show ?thesis
    by (rule exI [of _ "empty_db\<lparr>accounts := [pool]\<rparr>"])
      (simp add: pool_def sample_receivable_def rename_dto_def is_savings_pool_def archive_account_def
        update_account_def requireAccount_def require_row_def isReservedSystemAccount_def subtype_in_def
        account_constants refuseReservedSubtype_def update_row_def apply_account_update_def empty_db_def)
qed

subsection \<open>Seeding\<close>

lemma rfold_insert_accounts:
  assumes "rfold (\<lambda>x. insert_account (f x)) xs t = Inr t'"
  shows "t' = t @ map f xs \<and> acc_id ` f ` set xs \<inter> acc_id ` set t = {}"
  using assms
proof (induction xs arbitrary: t)
  case (Cons x xs)
  then have new: "acc_id (f x) \<notin> acc_id ` set t"
    and rest: "rfold (\<lambda>x. insert_account (f x)) xs (t @ [f x]) = Inr t'"
    by (simp_all add: result_simps)
  from Cons.IH [OF rest] new show ?case by auto
qed simp

definition seeded_account :: "id \<Rightarrow> account \<Rightarrow> bool" where
  "seeded_account b a \<longleftrightarrow> acc_businessId a = b \<and> acc_isSystemAccount a \<and> acc_status a = record_status.ACTIVE \<and>
     acc_openingBalance a = 0 \<and> acc_currentBalance a = 0 \<and> \<not> is_money_account a"

lemma seeded_template:
  "t \<in> set (seed_templates ws tpls) \<Longrightarrow> seeded_account b (template_account newId now b t)"
  by (auto simp: seeded_account_def template_account_def seed_templates_def is_money_account_def
      subtype_in_def split: option.splits)

lemma seeded_set_parent [simp]: "seeded_account b (set_parent p a) = seeded_account b a"
  by (simp add: seeded_account_def set_parent_def is_money_account_def)

definition batch_ok :: "id \<Rightarrow> id set \<Rightarrow> account list \<Rightarrow> bool" where
  "batch_ok b ID new \<longleftrightarrow> (\<forall>a \<in> set new. seeded_account b a \<and>
     (case acc_parentId a of None \<Rightarrow> True | Some p \<Rightarrow> p \<in> ID))"

lemma set_parent_simps [simp]: "acc_parentId (set_parent p a) = Some p" "acc_id (set_parent p a) = acc_id a"
  by (simp_all add: set_parent_def)

lemma batch_set_parent:
  assumes "batch_ok b ID new" and "p \<in> ID"
  shows "batch_ok b ID (map_row acc_id own (set_parent p) new)"
proof -
  have "seeded_account b (if acc_id x = own then set_parent p x else x) \<and>
      (case acc_parentId (if acc_id x = own then set_parent p x else x) of None \<Rightarrow> True | Some p \<Rightarrow> p \<in> ID)"
    if "x \<in> set new" for x
    using assms that by (simp add: batch_ok_def)
  then show ?thesis unfolding batch_ok_def set_map_row by blast
qed

lemma wire_parent_batch:
  assumes "wire_parent ids t rows = Inr rows'" and rows: "rows = old @ new"
    and "ran ids \<subseteq> acc_id ` set new" and "acc_id ` set new \<inter> acc_id ` set old = {}"
    and "batch_ok b (acc_id ` set new) new"
  shows "\<exists>new'. rows' = old @ new' \<and> map acc_id new' = map acc_id new \<and> batch_ok b (acc_id ` set new) new'"
proof (cases "rows' = rows")
  case True
  with rows assms(5) show ?thesis by blast
next
  case False
  with assms(1) obtain p own where ids: "ids (the (tpl_parentId t)) = Some p" "ids (tpl_id t) = Some own"
    and rows': "rows' = map_row acc_id own (set_parent p) rows"
    by (auto simp: wire_parent_def result_simps split: if_splits option.splits)
  then have p: "p \<in> acc_id ` set new" and own: "own \<in> acc_id ` set new" using assms(3) by (auto simp: ran_def)
  have "map_row acc_id own (set_parent p) old = old"
    using assms(4) own by (intro map_row_absent) auto
  then have "rows' = old @ map_row acc_id own (set_parent p) new"
    by (simp add: rows' rows map_row_def)
  moreover have "map acc_id (map_row acc_id own (set_parent p) new) = map acc_id new"
    by (simp add: map_row_proj set_parent_def)
  ultimately show ?thesis using batch_set_parent [OF assms(5) p] by blast
qed

lemma wire_parents_batch:
  assumes "rfold (wire_parent ids) ts (old @ new) = Inr rows'"
    and "ran ids \<subseteq> acc_id ` set new" and "acc_id ` set new \<inter> acc_id ` set old = {}"
    and "batch_ok b (acc_id ` set new) new"
  shows "\<exists>new'. rows' = old @ new' \<and> map acc_id new' = map acc_id new \<and> batch_ok b (acc_id ` set new) new'"
  using assms
proof (induction ts arbitrary: new)
  case (Cons t ts)
  from Cons.prems(1) obtain mid where "wire_parent ids t (old @ new) = Inr mid"
    and rest: "rfold (wire_parent ids) ts mid = Inr rows'"
    by (auto simp: result_simps)
  from wire_parent_batch [OF this(1) refl Cons.prems(2-4)] obtain new1 where
    new1: "mid = old @ new1" "map acc_id new1 = map acc_id new" "batch_ok b (acc_id ` set new) new1" by blast
  from new1(2) have ids: "acc_id ` set new1 = acc_id ` set new" by (metis set_map)
  from Cons.IH [of new1] rest new1 Cons.prems(2,3) ids show ?case by simp
qed auto

text \<open>
  Seeding a workspace appends exactly one active system account per matching template, with
  zero balances and never a cash, bank or mobile-money one; the accounts that were there are
  untouched, and every parent link stays inside the seeded batch.
\<close>

theorem seedDefaultAccounts_shape:
  assumes "seedDefaultAccounts gen now b ws tpls db = Inr db'"
  shows "\<exists>new. accounts db' = accounts db @ new \<and> length new = length (seed_templates ws tpls) \<and>
    acc_id ` set new \<inter> acc_id ` set (accounts db) = {} \<and> batch_ok b (acc_id ` set new) new"
proof -
  define numbered where "numbered = seed_numbered ws tpls"
  define f where "f = (\<lambda>x. template_account (gen (fst x)) now b (snd x))"
  define new where "new = map f numbered"
  from assms obtain created wired where
    c: "rfold (\<lambda>x. insert_account (f x)) numbered (accounts db) = Inr created" and
    w: "rfold (wire_parent (template_account_ids gen numbered)) (map snd numbered) created = Inr wired" and
    db': "db' = db\<lparr>accounts := wired\<rparr>"
    unfolding seedDefaultAccounts_def Let_def numbered_def f_def by (auto simp: result_simps(1))
  from rfold_insert_accounts [OF c] have created: "created = accounts db @ new"
    and disj: "acc_id ` set new \<inter> acc_id ` set (accounts db) = {}"
    by (auto simp: new_def image_image)
  have new_ids: "acc_id ` set new = (\<lambda>x. gen (fst x)) ` set numbered"
    by (simp add: new_def f_def template_account_def image_image)
  have sub: "ran (template_account_ids gen numbered) \<subseteq> acc_id ` set new"
    unfolding new_ids template_account_ids_def by (force simp: ran_def dest!: map_of_SomeD)
  have "batch_ok b (acc_id ` set new) new"
    unfolding batch_ok_def
  proof
    fix a assume "a \<in> set new"
    then obtain x where x: "x \<in> set numbered" "a = f x" by (auto simp: new_def)
    then have "snd x \<in> set (seed_templates ws tpls)"
      using set_zip_rightD [of "fst x" "snd x"] by (simp add: numbered_def seed_numbered_def Let_def)
    then have "seeded_account b a" unfolding x(2) f_def by (rule seeded_template)
    moreover have "acc_parentId a = None" by (simp add: x(2) f_def template_account_def)
    ultimately show "seeded_account b a \<and> (case acc_parentId a of None \<Rightarrow> True | Some p \<Rightarrow> p \<in> acc_id ` set new)"
      by simp
  qed
  from wire_parents_batch [OF w [unfolded created] sub disj this]
  obtain new' where new': "wired = accounts db @ new'" "map acc_id new' = map acc_id new"
    "batch_ok b (acc_id ` set new) new'"
    by blast
  moreover from new'(2) have "acc_id ` set new' = acc_id ` set new" by (metis set_map)
  moreover have "length new' = length (seed_templates ws tpls)"
    using arg_cong [OF new'(2), of length] by (simp add: new_def numbered_def seed_numbered_def Let_def)
  ultimately show ?thesis using disj db' by auto
qed

definition sample_templates :: "account_template list" where
  "sample_templates =
     [\<lparr>tpl_id = ''t1'', tpl_name = ''Cash'', tpl_nameBn = [], tpl_accountType = ASSET, tpl_accountSubtype = Some ''cash'',
       tpl_parentId = None, tpl_appliesTo = [PERSONAL], tpl_displayOrder = 0, tpl_isActive = True\<rparr>,
      \<lparr>tpl_id = ''t2'', tpl_name = ''Rent'', tpl_nameBn = [], tpl_accountType = account_type.EXPENSE, tpl_accountSubtype = None,
       tpl_parentId = Some ''t3'', tpl_appliesTo = [PERSONAL], tpl_displayOrder = 2, tpl_isActive = True\<rparr>,
      \<lparr>tpl_id = ''t3'', tpl_name = ''Housing'', tpl_nameBn = [], tpl_accountType = account_type.EXPENSE, tpl_accountSubtype = None,
       tpl_parentId = None, tpl_appliesTo = [PERSONAL], tpl_displayOrder = 1, tpl_isActive = True\<rparr>]"

definition sample_gen :: id_source where
  "sample_gen k = (if k = 0 then ''n0'' else if k = 1 then ''n1'' else if k = 2 then ''n2'' else ''n3'')"

theorem seedDefaultAccounts_shape_witness:
  "\<exists>db' new. seedDefaultAccounts sample_gen 7 ''w'' PERSONAL sample_templates empty_db = Inr db' \<and>
     accounts db' = new \<and> length new = 2 \<and> map acc_parentId new = [None, Some ''n0''] \<and> batch_ok ''w'' (acc_id ` set new) new"
proof -
  have ts: "seed_templates PERSONAL sample_templates = [sample_templates ! 2, sample_templates ! 1]"
    by (simp add: seed_templates_def find_many_def sample_templates_def account_constants)
  have nb: "seed_numbered PERSONAL sample_templates = [(0, sample_templates ! 2), (1, sample_templates ! 1)]"
    by (simp add: seed_numbered_def ts)
  obtain db' where run: "seedDefaultAccounts sample_gen 7 ''w'' PERSONAL sample_templates empty_db = Inr db'"
      "map acc_parentId (accounts db') = [None, Some ''n0'']"
    unfolding seedDefaultAccounts_def nb Let_def
    by (simp add: sample_templates_def template_account_ids_def
        wire_parent_def insert_account_def fk_parent_def template_account_def store_money_def fits_money_def
        insert_row_def update_row_def sample_gen_def empty_db_def)
  from seedDefaultAccounts_shape [OF run(1)] obtain new where
    "accounts db' = new" "length new = 2" "batch_ok ''w'' (acc_id ` set new) new"
    by (auto simp: empty_db_def ts)
  with run show ?thesis by (intro exI [of _ db'] exI [of _ new]) simp
qed

subsection \<open>The listing\<close>

lemma grouped_by_type:
  "mset (concat (map (\<lambda>ty. filter (\<lambda>a. acc_accountType a = ty) rs) ACCOUNT_TYPE_ORDER)) = mset rs"
proof (induction rs)
  case (Cons a rs)
  then show ?case by (cases "acc_accountType a") (simp_all add: ACCOUNT_TYPE_ORDER_def)
qed (simp add: ACCOUNT_TYPE_ORDER_def)

lemma mset_concat_filter:
  assumes "distinct (map key ps)"
  shows "mset (concat (map (\<lambda>n. filter (\<lambda>a. Q a \<and> ref a = Some (key n)) xs) ps)) =
    mset (filter (\<lambda>a. Q a \<and> ref a \<in> Some ` key ` set ps) xs)"
  using assms
proof (induction ps)
  case (Cons p ps)
  have "mset (filter (\<lambda>a. Q a \<and> ref a \<in> Some ` key ` set (p # ps)) xs) =
      mset (filter (\<lambda>a. Q a \<and> ref a = Some (key p)) xs) +
      mset (filter (\<lambda>a. Q a \<and> ref a \<in> Some ` key ` set ps) xs)"
    using Cons.prems by (induction xs) auto
  with Cons show ?case by simp
qed simp

text \<open>
  The listing loses and repeats nothing: the accounts of the workspace are exactly the roots
  of the five groups together with the children hung below each account.
\<close>

theorem list_accounts_partition:
  assumes "keyed acc_id (accounts db)"
  shows "mset (concat (map snd (list_accounts b db)) @ concat (map (children_in (listed_accounts b db)) (listed_accounts b db)))
    = mset (filter (\<lambda>a. acc_businessId a = b) (accounts db))"
proof -
  define t where "t = listed_accounts b db"
  have t: "mset t = mset (filter (\<lambda>a. acc_businessId a = b) (accounts db))"
    by (simp add: t_def listed_accounts_def find_many_def)
  have "distinct (map acc_id (filter (\<lambda>a. acc_businessId a = b) (accounts db)))"
    using keyed_filter [OF assms] by (simp add: keyed_def)
  then have dist: "distinct (map acc_id t)"
    using t mset_eq_imp_distinct_iff [of "map acc_id t" "map acc_id (filter (\<lambda>a. acc_businessId a = b) (accounts db))"]
    by (simp del: mset_filter)
  have "mset (concat (map snd (list_accounts b db))) = mset (filter (\<lambda>a. \<not> hangs_below t a) t)"
    using grouped_by_type [of "filter (\<lambda>a. \<not> hangs_below t a) t"]
    by (simp add: list_accounts_def Let_def t_def comp_def)
  moreover have "mset (concat (map (children_in t) t)) = mset (filter (hangs_below t) t)"
  proof -
    have hangs: "hangs_below t a \<and> acc_parentId a \<in> Some ` acc_id ` set t \<longleftrightarrow> hangs_below t a" for a
      by (cases "acc_parentId a") (auto simp: hangs_below_def)
    have "children_in t = (\<lambda>n. filter (\<lambda>a. hangs_below t a \<and> acc_parentId a = Some (acc_id n)) t)"
      by (rule ext) (simp add: children_in_def)
    then show ?thesis
      using mset_concat_filter [OF dist, of "hangs_below t" acc_parentId t] by (simp only: hangs)
  qed
  moreover have "mset (filter (\<lambda>a. \<not> hangs_below t a) t) + mset (filter (hangs_below t) t) = mset t"
    by (metis mset_filter multiset_partition union_commute)
  ultimately show ?thesis
    unfolding t_def [symmetric] using t by (metis mset_append)
qed

theorem list_accounts_partition_witness:
  "keyed acc_id (accounts sample_db2) \<and>
   mset (concat (map snd (list_accounts ''w'' sample_db2)) @
     concat (map (children_in (listed_accounts ''w'' sample_db2)) (listed_accounts ''w'' sample_db2))) =
   mset (accounts sample_db2)"
proof -
  have k: "keyed acc_id (accounts sample_db2)" by (simp add: sample_accounts)
  have all: "filter (\<lambda>a. acc_businessId a = ''w'') (accounts sample_db2) = accounts sample_db2"
    by (simp add: sample_accounts)
  show ?thesis using k list_accounts_partition [OF k, of "''w''"] by (simp only: all simp_thms)
qed

text \<open>Two accounts that are each other's parents, and one beside them.\<close>

definition circle :: "account list" where
  "circle = [sample_receivable\<lparr>acc_id := ''x'', acc_parentId := Some ''y''\<rparr>, sample_receivable\<lparr>acc_id := ''y'', acc_parentId := Some ''x''\<rparr>]"

lemma refuseParentCycle_decides_witness:
  "refuseParentCycle ''z'' ''x'' circle = Inr () \<and> (''x'', ''z'') \<notin> (parent_rel circle)\<^sup>* \<and> (''y'', ''x'') \<in> (parent_rel circle)\<^sup>*"
proof -
  have ids: "[] \<notin> acc_id ` set circle" by (simp add: circle_def)
  have "refuseParentCycle ''z'' ''x'' circle = Inr ()" "refuseParentCycle ''x'' ''y'' circle \<noteq> Inr ()"
    by (simp_all add: refuseParentCycle_def walk_parents.simps parent_of_def circle_def sample_receivable_def)
  with refuseParentCycle_decides [OF _ ids, of "''z''" "''x''"] refuseParentCycle_decides [OF _ ids, of "''x''" "''y''"]
  show ?thesis by (auto split: if_splits)
qed

end
