(* ===== verification/Balance.thy ===== *)
theory Balance
  imports Accounts
begin

text \<open>
  Account balances and the reports over them (src/accounts/account-balance.service.ts): the
  recalculation of a cached balance from the postings, the paged ledger with its running
  balance, the account summary, the wallet overview and the reconciliation of a workspace. The
  lemmas relate all of them to one specification, \<open>true_balance\<close>: the opening balance plus the
  signed sum of the account's postings.
\<close>

section \<open>The rule and the specification\<close>

definition isDebitPositive :: "account_type \<Rightarrow> bool" where
  "isDebitPositive ty \<longleftrightarrow> ty = ASSET \<or> ty = account_type.EXPENSE"

definition entry_delta :: "bool \<Rightarrow> entry \<Rightarrow> money" where
  "entry_delta debitPositive e =
     (if en_type e = DEBIT then (if debitPositive then en_amount e else - en_amount e)
      else (if debitPositive then - en_amount e else en_amount e))"

definition true_balance :: "db \<Rightarrow> account \<Rightarrow> money" where
  "true_balance db a =
     acc_openingBalance a + sum_by (entry_delta (isDebitPositive (acc_accountType a))) (account_entries db (acc_id a))"

definition balance_cached :: "db \<Rightarrow> bool" where
  "balance_cached db \<longleftrightarrow> (\<forall>a \<in> set (accounts db). acc_currentBalance a = true_balance db a)"

lemma sum_delta_sides:
  "sum_by (entry_delta dp) es =
     (if dp then side_sum DEBIT es - side_sum CREDIT es else side_sum CREDIT es - side_sum DEBIT es)"
proof (induction es)
  case (Cons e es)
  then show ?case by (cases "en_type e") (auto simp: entry_delta_def)
qed simp

lemma true_balance_accounts [simp]: "true_balance (db\<lparr>accounts := t\<rparr>) a = true_balance db a"
  by (simp add: true_balance_def account_entries_def)

lemma true_balance_current [simp]: "true_balance db (a\<lparr>acc_currentBalance := v\<rparr>) = true_balance db a"
  by (simp add: true_balance_def)

section \<open>Recalculating a balance\<close>

definition set_balance :: "id \<Rightarrow> money \<Rightarrow> db \<Rightarrow> db" where
  "set_balance i v db = db\<lparr>accounts := map_row acc_id i (\<lambda>a. a\<lparr>acc_currentBalance := v\<rparr>) (accounts db)\<rparr>"

definition recalculateBalance :: "id \<Rightarrow> db \<Rightarrow> (db \<times> money) result" where
  "recalculateBalance i db =
     (case find_row acc_id i (accounts db) of
        None \<Rightarrow> Inl (NotFound ''Account not found'')
      | Some account \<Rightarrow>
          let debitTotal = sum_by en_amount (filter (\<lambda>e. en_accountId e = i \<and> en_type e = DEBIT) (entries db));
              creditTotal = sum_by en_amount (filter (\<lambda>e. en_accountId e = i \<and> en_type e = CREDIT) (entries db));
              opening = acc_openingBalance account;
              balance = (if isDebitPositive (acc_accountType account) then opening + debitTotal - creditTotal
                         else opening + creditTotal - debitTotal)
          in rbind (store_money balance) (\<lambda>_.
             rbind (update_row acc_id i (\<lambda>a. a\<lparr>acc_currentBalance := balance\<rparr>) (accounts db)) (\<lambda>t.
             Inr (db\<lparr>accounts := t\<rparr>, balance))))"

lemma recalculateBalance_eq_Inr [result_simps]:
  "recalculateBalance i db = Inr (db', v) \<longleftrightarrow>
   (\<exists>a. find_row acc_id i (accounts db) = Some a \<and> fits_money (true_balance db a) \<and>
      v = true_balance db a \<and> db' = set_balance i v db)"
proof (cases "find_row acc_id i (accounts db)")
  case (Some a)
  then have mem: "i \<in> acc_id ` set (accounts db)" and id: "acc_id a = i" by (auto dest: find_row_Some)
  have side: "sum_by en_amount (filter (\<lambda>e. en_accountId e = i \<and> en_type e = s) (entries db)) =
      side_sum s (account_entries db (acc_id a))" for s
    by (simp add: side_sum_def account_entries_def id conj_commute)
  have bal: "(if isDebitPositive (acc_accountType a)
      then acc_openingBalance a + side_sum DEBIT (account_entries db (acc_id a)) - side_sum CREDIT (account_entries db (acc_id a))
      else acc_openingBalance a + side_sum CREDIT (account_entries db (acc_id a)) - side_sum DEBIT (account_entries db (acc_id a)))
    = true_balance db a"
    by (simp add: true_balance_def sum_delta_sides)
  show ?thesis
    using Some mem unfolding recalculateBalance_def
    by (auto simp: Let_def side bal result_simps set_balance_def)
qed (simp add: recalculateBalance_def)

text \<open>What recalculations leave alone: everything but the cached balances.\<close>

definition without_balance :: "account \<Rightarrow> account" where
  "without_balance a = a\<lparr>acc_currentBalance := 0\<rparr>"

definition only_balances :: "db \<Rightarrow> db \<Rightarrow> bool" where
  "only_balances db db' \<longleftrightarrow> db' = db\<lparr>accounts := accounts db'\<rparr> \<and>
     map without_balance (accounts db') = map without_balance (accounts db)"

lemma only_balances_refl [simp]: "only_balances db db"
  by (simp add: only_balances_def)

lemma only_balances_trans: "only_balances db1 db2 \<Longrightarrow> only_balances db2 db3 \<Longrightarrow> only_balances db1 db3"
  unfolding only_balances_def by (cases db1; cases db2; cases db3) auto

lemma only_balances_set_balance: "only_balances db (set_balance i v db)"
  by (simp add: only_balances_def set_balance_def map_row_proj without_balance_def)

lemma only_balances_tables:
  assumes "only_balances db db'"
  shows "entries db' = entries db" "txns db' = txns db" "contacts db' = contacts db" "goals db' = goals db"
    "goal_entries db' = goal_entries db" "assets db' = assets db"
    "budget_categories db' = budget_categories db" "income_goals db' = income_goals db"
  using assms unfolding only_balances_def by (metis db.select_convs db.surjective db.update_convs(1))+

lemma only_balances_proj:
  assumes "only_balances db db'" and "\<And>a. g (without_balance a) = g a"
  shows "map g (accounts db') = map g (accounts db)"
proof -
  have "map g (map without_balance (accounts db')) = map g (map without_balance (accounts db))"
    using assms(1) by (simp add: only_balances_def)
  then show ?thesis using assms(2) by (simp add: comp_def)
qed

lemma only_balances_find:
  assumes "only_balances db db'"
  shows "map_option without_balance (find_row acc_id k (accounts db')) =
         map_option without_balance (find_row acc_id k (accounts db))"
proof (rule find_row_same_view)
  show "map without_balance (accounts db') = map without_balance (accounts db)"
    using assms by (simp add: only_balances_def)
  fix r s assume "without_balance r = without_balance s"
  then have "acc_id (without_balance r) = acc_id (without_balance s)" by simp
  then show "acc_id r = acc_id s" by (simp add: without_balance_def)
qed

text \<open>Recalculating a list of accounts makes their cached balances true and spoils no other.\<close>

definition cached_except :: "id set \<Rightarrow> db \<Rightarrow> bool" where
  "cached_except S db \<longleftrightarrow> (\<forall>a \<in> set (accounts db). acc_id a \<notin> S \<longrightarrow> acc_currentBalance a = true_balance db a)"

definition recalculate_all :: "id list \<Rightarrow> db \<Rightarrow> db result" where
  "recalculate_all ids = rfold (\<lambda>i db. rbind (recalculateBalance i db) (\<lambda>r. Inr (fst r))) ids"

lemma cached_except_empty [simp]: "cached_except {} db = balance_cached db"
  by (simp add: cached_except_def balance_cached_def)

lemma true_balance_set_balance [simp]: "true_balance (set_balance i v db) a = true_balance db a"
  by (simp add: set_balance_def)

lemma cached_except_recalculate:
  assumes "keyed acc_id (accounts db)" and "cached_except S db" and "recalculateBalance i db = Inr (db', v)"
  shows "cached_except (S - {i}) db'"
proof -
  from assms(3) obtain a where a: "find_row acc_id i (accounts db) = Some a" and v: "v = true_balance db a"
    and db': "db' = set_balance i v db" by (auto simp: result_simps)
  show ?thesis
    unfolding cached_except_def
  proof (intro ballI impI)
    fix y assume "y \<in> set (accounts db')" and y: "acc_id y \<notin> S - {i}"
    then obtain x where x: "x \<in> set (accounts db)" "y = (if acc_id x = i then x\<lparr>acc_currentBalance := v\<rparr> else x)"
      by (auto simp: db' set_balance_def set_map_row)
    have "acc_currentBalance y = true_balance db y"
    proof (cases "acc_id x = i")
      case True
      with x(1) a assms(1) have "x = a" using find_row_mem by fastforce
      with True x(2) v show ?thesis by simp
    next
      case False
      with x y assms(2) show ?thesis by (simp add: cached_except_def)
    qed
    then show "acc_currentBalance y = true_balance db' y" by (simp add: db')
  qed
qed

lemma keyed_only_balances: "only_balances db db' \<Longrightarrow> keyed acc_id (accounts db') = keyed acc_id (accounts db)"
  using only_balances_proj [of db db' acc_id] by (simp add: keyed_def without_balance_def)

lemma recalculate_all_ok:
  assumes "recalculate_all ids db = Inr db'" and "keyed acc_id (accounts db)" and "cached_except S db"
  shows "cached_except (S - set ids) db' \<and> only_balances db db'"
  using assms
proof (induction ids arbitrary: db S)
  case (Cons i ids)
  from Cons.prems(1) obtain mid v where step: "recalculateBalance i db = Inr (mid, v)"
    and rest: "recalculate_all ids mid = Inr db'"
    by (auto simp: recalculate_all_def rbind_eq_Inr)
  from step have frame: "only_balances db mid" by (auto simp: result_simps only_balances_set_balance)
  then have "keyed acc_id (accounts mid)" using Cons.prems(2) by (simp add: keyed_only_balances)
  from Cons.IH [OF rest this cached_except_recalculate [OF Cons.prems(2,3) step]]
  have "cached_except (S - {i} - set ids) db'" and "only_balances mid db'" by simp_all
  moreover have "S - {i} - set ids = S - set (i # ids)" by auto
  ultimately show ?case using only_balances_trans [OF frame] by simp
qed (simp add: recalculate_all_def)

section \<open>The ledger of one account\<close>

record ledger_filters =
  lf_dateFrom :: "instant option"
  lf_dateTo :: "instant option"
  lf_page :: "nat option"
  lf_limit :: "nat option"

record ledger_row =
  lr_entryId :: id
  lr_transactionId :: id
  lr_transactionType :: "transaction_type option"
  lr_date :: "instant option"
  lr_description :: "string option"
  lr_referenceNo :: "string option"
  lr_entryType :: entry_type
  lr_amount :: money
  lr_transactionStatus :: "transaction_status option"
  lr_runningBalance :: money

record ledger_page =
  lp_accountId :: id
  lp_accountName :: string
  lp_openingBalance :: money
  lp_balanceBroughtForward :: money
  lp_entries :: "ledger_row list"
  lp_closingBalance :: money
  lp_page :: nat
  lp_limit :: nat
  lp_total :: nat
  lp_totalPages :: nat

definition in_range :: "instant option \<Rightarrow> instant option \<Rightarrow> instant \<Rightarrow> bool" where
  "in_range from to d \<longleftrightarrow> (case from of None \<Rightarrow> True | Some f \<Rightarrow> f \<le> d) \<and> (case to of None \<Rightarrow> True | Some t \<Rightarrow> d \<le> t)"

definition ledger_where :: "db \<Rightarrow> id \<Rightarrow> ledger_filters \<Rightarrow> entry \<Rightarrow> bool" where
  "ledger_where db i f e \<longleftrightarrow> en_accountId e = i \<and>
     (if lf_dateFrom f \<noteq> None \<or> lf_dateTo f \<noteq> None
      then on_txn db (\<lambda>t. in_range (lf_dateFrom f) (lf_dateTo f) (tx_date t)) e else True)"

definition by_date_created :: "db \<Rightarrow> entry \<Rightarrow> instant \<times> instant" where
  "by_date_created db e = (case txn_of db e of None \<Rightarrow> (0, 0) | Some t \<Rightarrow> (tx_date t, tx_createdAt t))"

definition ledger_row_of :: "db \<Rightarrow> entry \<Rightarrow> money \<Rightarrow> ledger_row" where
  "ledger_row_of db e running =
     (let t = txn_of db e in
      \<lparr>lr_entryId = en_id e, lr_transactionId = en_transactionId e, lr_transactionType = map_option tx_type t,
       lr_date = map_option tx_date t,
       lr_description = (case Option.bind t tx_description of None \<Rightarrow> en_note e | Some d \<Rightarrow> Some d),
       lr_referenceNo = Option.bind t tx_referenceNo, lr_entryType = en_type e, lr_amount = en_amount e,
       lr_transactionStatus = map_option tx_status t, lr_runningBalance = running\<rparr>)"

fun ledger_rows :: "db \<Rightarrow> bool \<Rightarrow> money \<Rightarrow> entry list \<Rightarrow> ledger_row list" where
  "ledger_rows db dp running [] = []"
| "ledger_rows db dp running (e # es) =
     (let running' = running + entry_delta dp e in ledger_row_of db e running' # ledger_rows db dp running' es)"

definition brought_forward :: "db \<Rightarrow> account \<Rightarrow> ledger_filters \<Rightarrow> money" where
  "brought_forward db account f =
     (case lf_dateFrom f of
        None \<Rightarrow> acc_openingBalance account
      | Some from \<Rightarrow>
          foldl (\<lambda>b e. b + entry_delta (isDebitPositive (acc_accountType account)) e) (acc_openingBalance account)
            (filter (\<lambda>e. en_accountId e = acc_id account \<and> on_txn db (\<lambda>t. tx_date t < from) e) (entries db)))"

definition ledger_page_of :: "db \<Rightarrow> account \<Rightarrow> ledger_filters \<Rightarrow> ledger_page" where
  "ledger_page_of db account f =
     (let i = acc_id account;
          debitPositive = isDebitPositive (acc_accountType account);
          page = orelse (lf_page f) 1;
          limit = orelse (lf_limit f) 50;
          balanceBroughtForward = brought_forward db account f;
          total = length (filter (ledger_where db i f) (entries db));
          entriesUpToPageEnd = take (page * limit) (find_many (ledger_where db i f) (by_date_created db) (entries db));
          allRows = ledger_rows db debitPositive balanceBroughtForward entriesUpToPageEnd;
          pageRows = slice ((page - 1) * limit) (page * limit) allRows
      in \<lparr>lp_accountId = i, lp_accountName = acc_name account, lp_openingBalance = acc_openingBalance account,
          lp_balanceBroughtForward = balanceBroughtForward, lp_entries = pageRows,
          lp_closingBalance = (if pageRows \<noteq> [] then lr_runningBalance (last pageRows) else balanceBroughtForward),
          lp_page = page, lp_limit = limit, lp_total = total, lp_totalPages = (total + limit - 1) div limit\<rparr>)"

definition getLedger :: "id \<Rightarrow> id \<Rightarrow> ledger_filters \<Rightarrow> db \<Rightarrow> ledger_page result" where
  "getLedger b i f db =
     rbind (require_row acc_id acc_businessId (NotFound ''Account not found'') b i (accounts db)) (\<lambda>account.
     Inr (ledger_page_of db account f))"

subsection \<open>The running balance\<close>

lemma ledger_rows_length [simp]: "length (ledger_rows db dp r es) = length es"
  by (induction es arbitrary: r) (simp_all add: Let_def)

lemma ledger_rows_nth:
  "k < length es \<Longrightarrow> ledger_rows db dp r es ! k =
     ledger_row_of db (es ! k) (r + sum_by (entry_delta dp) (take (Suc k) es))"
proof (induction es arbitrary: r k)
  case (Cons e es)
  then show ?case by (cases k) (simp_all add: Let_def add.assoc)
qed simp

lemma ledger_row_running [simp]:
  "lr_runningBalance (ledger_row_of db e v) = v" "lr_amount (ledger_row_of db e v) = en_amount e"
  "lr_entryId (ledger_row_of db e v) = en_id e"
  by (simp_all add: ledger_row_of_def Let_def)

lemma foldl_delta: "foldl (\<lambda>b e. b + f e) (b0 :: int) es = b0 + sum_by f es"
  by (induction es arbitrary: b0) (simp_all add: add.assoc)

lemma length_slice: "length (slice i j xs) = min (length xs) j - i"
  by (simp add: slice_def min_def)

lemma slice_nth: "i + k < min (length xs) j \<Longrightarrow> slice i j xs ! k = xs ! (i + k)"
  by (simp add: slice_def)

lemma getLedger_eq_Inr:
  "getLedger b i f db = Inr p \<longleftrightarrow>
   (\<exists>a. find_row acc_id i (accounts db) = Some a \<and> acc_businessId a = b \<and> p = ledger_page_of db a f)"
  by (auto simp: getLedger_def result_simps)

text \<open>
  The matching postings in date order, and the balance they start from. Every posting belongs to
  a transaction (the foreign key), so a posting is either before \<open>dateFrom\<close> or not.
\<close>

definition fk_entries :: "db \<Rightarrow> bool" where
  "fk_entries db \<longleftrightarrow> (\<forall>e \<in> set (entries db). txn_of db e \<noteq> None \<and> en_accountId e \<in> acc_id ` set (accounts db))"

lemma brought_forward_eq:
  "brought_forward db a f = acc_openingBalance a +
     (case lf_dateFrom f of None \<Rightarrow> 0
      | Some d \<Rightarrow> sum_by (entry_delta (isDebitPositive (acc_accountType a)))
          (filter (on_txn db (\<lambda>t. tx_date t < d)) (account_entries db (acc_id a))))"
  by (cases "lf_dateFrom f") (simp_all add: brought_forward_def foldl_delta account_entries_def conj_commute)

lemma on_txn_not:
  assumes "fk_entries db" and "e \<in> set (entries db)"
  shows "on_txn db (\<lambda>t. \<not> P t) e \<longleftrightarrow> \<not> on_txn db P e"
proof -
  from assms obtain t where "txn_of db e = Some t" by (auto simp: fk_entries_def)
  then show ?thesis by (simp add: on_txn_def)
qed

lemma brought_forward_rest:
  assumes "fk_entries db" and "lf_dateTo f = None" and i: "i = acc_id a"
  shows "brought_forward db a f + sum_by (entry_delta (isDebitPositive (acc_accountType a)))
      (filter (ledger_where db i f) (entries db)) = true_balance db a"
proof -
  let ?d = "entry_delta (isDebitPositive (acc_accountType a))"
  have filt: "filter (ledger_where db i f) (entries db) =
      (case lf_dateFrom f of None \<Rightarrow> account_entries db i
       | Some d \<Rightarrow> filter (\<lambda>e. \<not> on_txn db (\<lambda>t. tx_date t < d) e) (account_entries db i))"
  proof (cases "lf_dateFrom f")
    case None
    with assms(2) have "ledger_where db i f = (\<lambda>e. en_accountId e = i)"
      by (intro ext) (simp add: ledger_where_def)
    with None show ?thesis by (simp add: account_entries_def)
  next
    case (Some d)
    have "ledger_where db i f e \<longleftrightarrow> en_accountId e = i \<and> \<not> on_txn db (\<lambda>t. tx_date t < d) e"
      if "e \<in> set (entries db)" for e
      using Some assms(2) on_txn_not [OF assms(1) that, of "\<lambda>t. tx_date t < d"]
      by (simp add: ledger_where_def in_range_def not_less)
    with Some show ?thesis by (auto simp: account_entries_def conj_commute intro!: filter_cong)
  qed
  show ?thesis
  proof (cases "lf_dateFrom f")
    case None
    with filt i show ?thesis by (simp add: brought_forward_eq true_balance_def)
  next
    case (Some d)
    then show ?thesis
      using filt i sum_by_split [of ?d "account_entries db (acc_id a)" "on_txn db (\<lambda>t. tx_date t < d)"]
      by (simp add: brought_forward_eq true_balance_def)
  qed
qed

text \<open>
  Each row of a ledger page shows the true cumulative balance: what was brought forward plus
  every matching posting up to and including that row, whatever the page; and the page holds
  exactly the rows of its range of the date-ordered postings.
\<close>

theorem getLedger_running_balance:
  assumes "getLedger b i f db = Inr p" and "1 \<le> lp_page p"
  shows "\<exists>a. find_row acc_id i (accounts db) = Some a \<and>
    (let es = find_many (ledger_where db i f) (by_date_created db) (entries db); first = (lp_page p - 1) * lp_limit p in
     length (lp_entries p) = min (length es) (first + lp_limit p) - first \<and>
     (\<forall>k < length (lp_entries p).
        lr_entryId (lp_entries p ! k) = en_id (es ! (first + k)) \<and>
        lr_runningBalance (lp_entries p ! k) = lp_balanceBroughtForward p +
          sum_by (entry_delta (isDebitPositive (acc_accountType a))) (take (Suc (first + k)) es)))"
proof -
  from assms(1) obtain a where a: "find_row acc_id i (accounts db) = Some a" and
    p: "p = ledger_page_of db a f"
    unfolding getLedger_eq_Inr by blast
  note p = p [unfolded ledger_page_of_def Let_def]
  have id: "i = acc_id a" using a by (auto dest: find_row_Some)
  define es where "es = find_many (ledger_where db i f) (by_date_created db) (entries db)"
  define dp where "dp = isDebitPositive (acc_accountType a)"
  define first where "first = (lp_page p - 1) * lp_limit p"
  have last: "lp_page p * lp_limit p = first + lp_limit p"
    using assms(2) by (cases "lp_page p") (simp_all add: first_def)
  have rows: "lp_entries p = slice first (first + lp_limit p)
      (ledger_rows db dp (lp_balanceBroughtForward p) (take (first + lp_limit p) es))"
    using p last [symmetric] by (simp add: es_def dp_def first_def id)
  have len: "length (lp_entries p) = min (length es) (first + lp_limit p) - first"
    by (simp add: rows length_slice)
  have "lr_entryId (lp_entries p ! k) = en_id (es ! (first + k)) \<and>
      lr_runningBalance (lp_entries p ! k) = lp_balanceBroughtForward p + sum_by (entry_delta dp) (take (Suc (first + k)) es)"
    if "k < length (lp_entries p)" for k
  proof -
    have lt: "first + k < min (length es) (first + lp_limit p)" using that len by linarith
    then have "min (Suc (first + k)) (first + lp_limit p) = Suc (first + k)" by linarith
    with lt show ?thesis by (simp add: rows slice_nth ledger_rows_nth min.commute)
  qed
  with a len show ?thesis by (auto simp: Let_def es_def dp_def first_def)
qed

text \<open>
  The last page of a ledger with no end date closes on the account's true balance, whatever
  start date it was filtered by -- so on the cached balance, where the cache is sound.
\<close>

theorem getLedger_closes_on_balance:
  assumes "getLedger b i f db = Inr p" and "fk_entries db" and "lf_dateTo f = None" and "1 \<le> lp_page p"
    and "(lp_page p - 1) * lp_limit p < lp_total p" and "lp_total p \<le> lp_page p * lp_limit p"
  shows "\<exists>a. find_row acc_id i (accounts db) = Some a \<and> lp_closingBalance p = true_balance db a"
proof -
  from assms(1) obtain a where a: "find_row acc_id i (accounts db) = Some a" and
    p: "p = ledger_page_of db a f"
    unfolding getLedger_eq_Inr by blast
  note p = p [unfolded ledger_page_of_def Let_def]
  have id: "i = acc_id a" using a by (auto dest: find_row_Some)
  define es where "es = find_many (ledger_where db i f) (by_date_created db) (entries db)"
  define dp where "dp = isDebitPositive (acc_accountType a)"
  define first where "first = (lp_page p - 1) * lp_limit p"
  define rs where "rs = ledger_rows db dp (brought_forward db a f) es"
  have total: "lp_total p = length es" using p by (simp add: es_def length_find_many id)
  have rows: "lp_entries p = drop first rs"
    using p assms(6) total by (simp add: es_def dp_def first_def slice_def rs_def id)
  have ne: "first < length es" using assms(5) total by (simp add: first_def)
  then have "lp_entries p \<noteq> []" by (simp add: rows rs_def)
  then have "lp_closingBalance p = lr_runningBalance (last (lp_entries p))" using p by simp
  also have "last (lp_entries p) = last rs" using ne by (simp add: rows rs_def last_drop)
  also have "last rs = rs ! (length es - 1)"
    using ne by (subst last_conv_nth) (auto simp: rs_def simp flip: length_0_conv)
  also have "lr_runningBalance \<dots> = brought_forward db a f + sum_by (entry_delta dp) es"
    using ne by (simp add: rs_def ledger_rows_nth)
  also have "sum_by (entry_delta dp) es = sum_by (entry_delta dp) (filter (ledger_where db i f) (entries db))"
    by (simp add: es_def)
  also have "brought_forward db a f + \<dots> = true_balance db a"
    unfolding dp_def by (rule brought_forward_rest [OF assms(2,3) id])
  finally show ?thesis using a by blast
qed

section \<open>The account summary\<close>

record account_summary =
  sm_currentBalance :: money
  sm_totalIn :: money
  sm_totalOut :: money
  sm_adjustment :: money
  sm_transactionCount :: nat

definition live_matching :: "db \<Rightarrow> instant option \<Rightarrow> instant option \<Rightarrow> (transaction_type \<Rightarrow> bool) \<Rightarrow> entry \<Rightarrow> bool" where
  "live_matching db from to ty e = on_txn db (\<lambda>t. in_range from to (tx_date t) \<and> live_txn t \<and> ty (tx_type t)) e"

definition getAccountSummary ::
  "id \<Rightarrow> id \<Rightarrow> instant option \<Rightarrow> instant option \<Rightarrow> db \<Rightarrow> account_summary result" where
  "getAccountSummary b i dateFrom dateTo db =
     rbind (require_row acc_id acc_businessId (NotFound ''Account not found'') b i (accounts db)) (\<lambda>account.
     let nonTransfer = live_matching db dateFrom dateTo (\<lambda>ty. ty \<noteq> TRANSFER);
         transfer = live_matching db dateFrom dateTo (\<lambda>ty. ty = TRANSFER);
         mine = account_entries db i;
         debitTotal = side_sum DEBIT (filter nonTransfer mine);
         creditTotal = side_sum CREDIT (filter nonTransfer mine);
         transferDebitTotal = side_sum DEBIT (filter transfer mine);
         transferCreditTotal = side_sum CREDIT (filter transfer mine);
         debitPositive = isDebitPositive (acc_accountType account)
     in Inr \<lparr>sm_currentBalance = acc_currentBalance account,
             sm_totalIn = (if debitPositive then debitTotal else creditTotal),
             sm_totalOut = (if debitPositive then creditTotal else debitTotal),
             sm_adjustment = (if debitPositive then transferDebitTotal - transferCreditTotal
                              else transferCreditTotal - transferDebitTotal),
             sm_transactionCount = length (filter (\<lambda>e.
               if dateFrom \<noteq> None \<or> dateTo \<noteq> None
               then on_txn db (\<lambda>t. in_range dateFrom dateTo (tx_date t)) e else True) mine)\<rparr>)"

text \<open>
  A voided transaction and its reversal drop out of the live figures; together they weigh
  nothing on any account. This is the invariant that makes the breakdowns add up.
\<close>

definition dead_entries :: "db \<Rightarrow> id \<Rightarrow> entry list" where
  "dead_entries db a = filter (\<lambda>e. \<not> on_txn db live_txn e) (account_entries db a)"

definition voids_net :: "db \<Rightarrow> bool" where
  "voids_net db \<longleftrightarrow> (\<forall>a \<in> set (accounts db).
     side_sum DEBIT (dead_entries db (acc_id a)) = side_sum CREDIT (dead_entries db (acc_id a)))"

lemma sum_delta_dead:
  "voids_net db \<Longrightarrow> a \<in> set (accounts db) \<Longrightarrow> sum_by (entry_delta dp) (dead_entries db (acc_id a)) = 0"
  by (simp add: voids_net_def sum_delta_sides)

lemma live_matching_all [simp]: "live_matching db None None ty = on_txn db (\<lambda>t. live_txn t \<and> ty (tx_type t))"
  by (rule ext) (simp add: live_matching_def in_range_def on_txn_def)

lemma sum_live_split:
  "sum_by f (filter (on_txn db live_txn) es) =
   sum_by f (filter (on_txn db (\<lambda>t. live_txn t \<and> tx_type t \<noteq> TRANSFER)) es) +
   sum_by f (filter (on_txn db (\<lambda>t. live_txn t \<and> tx_type t = TRANSFER)) es)"
  by (induction es) (auto simp: on_txn_def split: option.splits)

lemma true_balance_split:
  assumes "voids_net db" and "a \<in> set (accounts db)"
  shows "true_balance db a = acc_openingBalance a +
    sum_by (entry_delta (isDebitPositive (acc_accountType a)))
      (filter (on_txn db (\<lambda>t. live_txn t \<and> tx_type t \<noteq> TRANSFER)) (account_entries db (acc_id a))) +
    sum_by (entry_delta (isDebitPositive (acc_accountType a)))
      (filter (on_txn db (\<lambda>t. live_txn t \<and> tx_type t = TRANSFER)) (account_entries db (acc_id a)))"
  using sum_by_split [of "entry_delta (isDebitPositive (acc_accountType a))" "account_entries db (acc_id a)" "on_txn db live_txn"]
    sum_delta_dead [OF assms, of "isDebitPositive (acc_accountType a)"]
  by (simp add: true_balance_def dead_entries_def sum_live_split)

text \<open>
  The summary of an account over all dates adds up: opening balance plus money in, minus
  money out, plus the transfer adjustment is the current balance, on every kind of account.
\<close>

theorem getAccountSummary_adds_up:
  assumes "getAccountSummary b i None None db = Inr s" and "balance_cached db" and "voids_net db"
  shows "\<exists>a. find_row acc_id i (accounts db) = Some a \<and>
     sm_currentBalance s = acc_openingBalance a + sm_totalIn s - sm_totalOut s + sm_adjustment s"
proof -
  from assms(1) obtain a where a: "find_row acc_id i (accounts db) = Some a"
    and s: "sm_currentBalance s = acc_currentBalance a"
      "sm_totalIn s - sm_totalOut s = sum_by (entry_delta (isDebitPositive (acc_accountType a)))
        (filter (on_txn db (\<lambda>t. live_txn t \<and> tx_type t \<noteq> TRANSFER)) (account_entries db i))"
      "sm_adjustment s = sum_by (entry_delta (isDebitPositive (acc_accountType a)))
        (filter (on_txn db (\<lambda>t. live_txn t \<and> tx_type t = TRANSFER)) (account_entries db i))"
    by (auto simp: getAccountSummary_def Let_def result_simps sum_delta_sides)
  from a have mem: "a \<in> set (accounts db)" "acc_id a = i" by (auto dest: find_row_Some)
  then have "acc_currentBalance a = true_balance db a" using assms(2) by (simp add: balance_cached_def)
  with true_balance_split [OF assms(3) mem(1)] mem s a show ?thesis by auto
qed

section \<open>The wallet overview\<close>

record wallet_row =
  wr_id :: id
  wr_name :: string
  wr_nameBn :: "string option"
  wr_accountNumber :: "string option"
  wr_accountSubtype :: "string option"
  wr_status :: record_status
  wr_openingBalance :: money
  wr_totalIn :: money
  wr_totalOut :: money
  wr_savings :: money
  wr_adjustment :: money
  wr_currentBalance :: money

record wallets_overview =
  wo_totalAccounts :: nat
  wo_totalBalance :: money
  wo_inactiveAmount :: money
  wo_availableBalance :: money
  wo_accounts :: "wallet_row list"

text \<open>The other side of a transfer is a savings wallet.\<close>

definition isSavingsContribution :: "db \<Rightarrow> entry \<Rightarrow> bool" where
  "isSavingsContribution db e \<longleftrightarrow>
     (\<exists>e' \<in> set (entries_of db (en_transactionId e)). en_accountId e' \<noteq> en_accountId e \<and>
        (case find_row acc_id (en_accountId e') (accounts db) of None \<Rightarrow> False
         | Some a \<Rightarrow> acc_accountSubtype a = Some ''savings''))"

definition debit_signed :: "entry \<Rightarrow> money" where
  "debit_signed e = (if en_type e = DEBIT then en_amount e else - en_amount e)"

definition credit_signed :: "entry \<Rightarrow> money" where
  "credit_signed e = (if en_type e = CREDIT then en_amount e else - en_amount e)"

text \<open>
  The sums the code accumulates per account in maps (\<open>inByAccount\<close>, \<open>outByAccount\<close>,
  \<open>savingsByAccount\<close>, \<open>adjustmentByAccount\<close>), 0 for an account with no entry in them.
\<close>

definition wallet_row_of :: "db \<Rightarrow> account \<Rightarrow> wallet_row" where
  "wallet_row_of db a =
     (let mine = account_entries db (acc_id a);
          nonTransfer = filter (on_txn db (\<lambda>t. live_txn t \<and> tx_type t \<noteq> TRANSFER)) mine;
          transfers = filter (on_txn db (\<lambda>t. live_txn t \<and> tx_type t = TRANSFER)) mine
      in \<lparr>wr_id = acc_id a, wr_name = acc_name a, wr_nameBn = acc_nameBn a,
          wr_accountNumber = acc_accountNumber a, wr_accountSubtype = acc_accountSubtype a, wr_status = acc_status a,
          wr_openingBalance = acc_openingBalance a,
          wr_totalIn = side_sum DEBIT nonTransfer, wr_totalOut = side_sum CREDIT nonTransfer,
          wr_savings = sum_by credit_signed (filter (isSavingsContribution db) transfers),
          wr_adjustment = sum_by debit_signed (filter (\<lambda>e. \<not> isSavingsContribution db e) transfers),
          wr_currentBalance = acc_currentBalance a\<rparr>)"

definition getWalletsOverview :: "id \<Rightarrow> db \<Rightarrow> wallets_overview" where
  "getWalletsOverview b db =
     (let ws = find_many (\<lambda>a. acc_businessId a = b \<and> is_money_account a) acc_displayOrder (accounts db);
          totalBalance = sum_by acc_currentBalance ws;
          inactiveAmount = sum_by acc_currentBalance (filter (\<lambda>a. acc_status a = ARCHIVED) ws)
      in \<lparr>wo_totalAccounts = length ws, wo_totalBalance = totalBalance, wo_inactiveAmount = inactiveAmount,
          wo_availableBalance = totalBalance - inactiveAmount, wo_accounts = map (wallet_row_of db) ws\<rparr>)"

lemma delta_debit_signed: "entry_delta True = debit_signed"
  by (rule ext) (simp add: entry_delta_def debit_signed_def)

lemma credit_is_minus_debit: "sum_by credit_signed es = - sum_by debit_signed es"
  by (induction es) (auto simp: credit_signed_def debit_signed_def entry_type_other split: if_splits)

text \<open>
  Every row of the wallet overview adds up to the wallet's balance -- opening, plus in, minus
  out, minus what went to savings, plus the transfer adjustment -- and the available balance is
  the sum of the balances of the wallets that are not archived.
\<close>

theorem getWalletsOverview_adds_up:
  assumes "balance_cached db" and "voids_net db"
  shows "(\<forall>r \<in> set (wo_accounts (getWalletsOverview b db)).
      wr_currentBalance r = wr_openingBalance r + wr_totalIn r - wr_totalOut r - wr_savings r + wr_adjustment r) \<and>
    wo_availableBalance (getWalletsOverview b db) =
      sum_by wr_currentBalance (filter (\<lambda>r. wr_status r \<noteq> ARCHIVED) (wo_accounts (getWalletsOverview b db)))"
proof
  show "\<forall>r \<in> set (wo_accounts (getWalletsOverview b db)).
      wr_currentBalance r = wr_openingBalance r + wr_totalIn r - wr_totalOut r - wr_savings r + wr_adjustment r"
  proof
    fix r assume "r \<in> set (wo_accounts (getWalletsOverview b db))"
    then obtain a where a: "a \<in> set (accounts db)" "is_money_account a" and r: "r = wallet_row_of db a"
      by (auto simp: getWalletsOverview_def Let_def)
    have dp: "isDebitPositive (acc_accountType a)" using a(2) by (simp add: is_money_account_def isDebitPositive_def)
    define ts where "ts = filter (on_txn db (\<lambda>t. live_txn t \<and> tx_type t = TRANSFER)) (account_entries db (acc_id a))"
    define ns where "ns = filter (on_txn db (\<lambda>t. live_txn t \<and> tx_type t \<noteq> TRANSFER)) (account_entries db (acc_id a))"
    from true_balance_split [OF assms(2) a(1)] dp
    have tb: "true_balance db a = acc_openingBalance a + sum_by (entry_delta True) ns + sum_by debit_signed ts"
      by (simp add: ns_def ts_def delta_debit_signed)
    have "sum_by (entry_delta True) ns = side_sum DEBIT ns - side_sum CREDIT ns" by (simp only: sum_delta_sides if_True)
    moreover have "sum_by debit_signed ts = wr_adjustment r - wr_savings r"
      using sum_by_split [of debit_signed ts "isSavingsContribution db"]
      by (simp add: r wallet_row_of_def Let_def credit_is_minus_debit ts_def)
    moreover have "wr_totalIn r = side_sum DEBIT ns" "wr_totalOut r = side_sum CREDIT ns"
      "wr_openingBalance r = acc_openingBalance a" "wr_currentBalance r = acc_currentBalance a"
      by (simp_all add: r wallet_row_of_def Let_def flip: ns_def)
    moreover have "acc_currentBalance a = true_balance db a" using assms(1) a(1) by (simp add: balance_cached_def)
    ultimately show "wr_currentBalance r = wr_openingBalance r + wr_totalIn r - wr_totalOut r - wr_savings r + wr_adjustment r"
      using tb by linarith
  qed
  have "sum_by acc_currentBalance ws - sum_by acc_currentBalance (filter (\<lambda>a. acc_status a = ARCHIVED) ws) =
      sum_by wr_currentBalance (filter (\<lambda>r. wr_status r \<noteq> ARCHIVED) (map (wallet_row_of db) ws))" for ws
    by (induction ws) (auto simp: wallet_row_of_def Let_def)
  then show "wo_availableBalance (getWalletsOverview b db) =
      sum_by wr_currentBalance (filter (\<lambda>r. wr_status r \<noteq> ARCHIVED) (wo_accounts (getWalletsOverview b db)))"
    by (simp add: getWalletsOverview_def Let_def)
qed

section \<open>Reconciling a workspace\<close>

record discrepancy =
  dc_accountId :: id
  dc_name :: string
  dc_cachedBalance :: money
  dc_recalculatedBalance :: money

definition reconcile_account :: "account \<Rightarrow> db \<times> discrepancy list \<Rightarrow> (db \<times> discrepancy list) result" where
  "reconcile_account account s =
     (case find_row acc_id (acc_id account) (accounts (fst s)) of
        None \<Rightarrow> Inl (DbError ''P2025'')
      | Some current \<Rightarrow>
          rbind (recalculateBalance (acc_id account) (fst s)) (\<lambda>r.
          Inr (fst r,
            if acc_currentBalance current \<noteq> snd r
            then snd s @ [\<lparr>dc_accountId = acc_id account, dc_name = acc_name account,
                           dc_cachedBalance = acc_currentBalance current, dc_recalculatedBalance = snd r\<rparr>]
            else snd s)))"

record reconciliation =
  rc_totalAccounts :: nat
  rc_discrepancyCount :: nat
  rc_discrepancies :: "discrepancy list"

definition reconcileWorkspace :: "id \<Rightarrow> db \<Rightarrow> (db \<times> reconciliation) result" where
  "reconcileWorkspace b db =
     (let mine = filter (\<lambda>a. acc_businessId a = b) (accounts db) in
      rbind (rfold reconcile_account mine (db, [])) (\<lambda>s.
      Inr (fst s, \<lparr>rc_totalAccounts = length mine, rc_discrepancyCount = length (snd s), rc_discrepancies = snd s\<rparr>)))"

text \<open>What one pass over accounts that are in the table computes.\<close>

definition rebalanced :: "db \<Rightarrow> (account \<Rightarrow> bool) \<Rightarrow> db" where
  "rebalanced db P = db\<lparr>accounts := map (\<lambda>a. if P a then a\<lparr>acc_currentBalance := true_balance db a\<rparr> else a) (accounts db)\<rparr>"

definition discrepancy_of :: "db \<Rightarrow> account \<Rightarrow> discrepancy" where
  "discrepancy_of db a = \<lparr>dc_accountId = acc_id a, dc_name = acc_name a, dc_cachedBalance = acc_currentBalance a,
     dc_recalculatedBalance = true_balance db a\<rparr>"

lemma recalculateBalance_value:
  assumes "find_row acc_id i (accounts db) = Some a"
  shows "recalculateBalance i db =
    (if fits_money (true_balance db a) then Inr (set_balance i (true_balance db a) db, true_balance db a)
     else Inl (DbError ''P2020''))"
proof (cases "fits_money (true_balance db a)")
  case True
  then have "recalculateBalance i db = Inr (set_balance i (true_balance db a) db, true_balance db a)"
    using assms by (simp add: recalculateBalance_eq_Inr)
  with True show ?thesis by simp
next
  case False
  from assms have mem: "i \<in> acc_id ` set (accounts db)" and id: "acc_id a = i" by (auto dest: find_row_Some)
  have side: "sum_by en_amount (filter (\<lambda>e. en_accountId e = i \<and> en_type e = s) (entries db)) =
      side_sum s (account_entries db (acc_id a))" for s
    by (simp add: side_sum_def account_entries_def id conj_commute)
  show ?thesis
    using assms False unfolding recalculateBalance_def true_balance_def sum_delta_sides
    by (cases "isDebitPositive (acc_accountType a)") (simp_all add: Let_def side store_money_def add_diff_eq)
qed

lemma reconcile_loop:
  assumes "keyed acc_id (accounts d)" and "distinct (map acc_id ms)"
    and "\<And>m. m \<in> set ms \<Longrightarrow> find_row acc_id (acc_id m) (accounts d) = Some m"
  shows "rfold reconcile_account ms (d, out) =
    (if \<forall>m \<in> set ms. fits_money (true_balance d m)
     then Inr (rebalanced d (\<lambda>a. acc_id a \<in> acc_id ` set ms),
               out @ map (discrepancy_of d) (filter (\<lambda>m. acc_currentBalance m \<noteq> true_balance d m) ms))
     else Inl (DbError ''P2020''))"
  using assms
proof (induction ms arbitrary: d out)
  case Nil
  show ?case by (simp add: rebalanced_def)
next
  case (Cons m ms)
  define d1 where "d1 = set_balance (acc_id m) (true_balance d m) d"
  define out1 where "out1 = (if acc_currentBalance m \<noteq> true_balance d m then out @ [discrepancy_of d m] else out)"
  have find: "find_row acc_id (acc_id m) (accounts d) = Some m" by (rule Cons.prems(3)) simp
  have step: "reconcile_account m (d, out) =
      (if fits_money (true_balance d m) then Inr (d1, out1) else Inl (DbError ''P2020''))"
    by (simp add: reconcile_account_def find recalculateBalance_value [OF find] d1_def out1_def discrepancy_of_def)
  have keyed: "keyed acc_id (accounts d1)"
    using Cons.prems(1) by (simp add: d1_def keyed_only_balances [OF only_balances_set_balance])
  have "find_row acc_id (acc_id x) (accounts d1) = Some x" if "x \<in> set ms" for x
  proof -
    have "acc_id x \<noteq> acc_id m" using Cons.prems(2) that by (auto simp: image_iff)
    then show ?thesis using Cons.prems(3) [of x] that
      by (simp add: d1_def set_balance_def find_row_map_row)
  qed
  note IH = Cons.IH [OF keyed _ this, of out1]
  have tb: "true_balance d1 x = true_balance d x" for x by (simp add: d1_def)
  have same: "a = m" if "a \<in> set (accounts d)" "acc_id a = acc_id m" for a
    using find_row_mem [OF Cons.prems(1) that(1)] find that(2) by (metis option.inject)
  have reb: "rebalanced d1 (\<lambda>a. acc_id a \<in> acc_id ` set ms) = rebalanced d (\<lambda>a. acc_id a \<in> acc_id ` set (m # ms))"
  proof -
    define f where "f a = (if acc_id a = acc_id m then a\<lparr>acc_currentBalance := true_balance d m\<rparr> else a)" for a :: account
    define h where "h a = (if acc_id a \<in> acc_id ` set ms then a\<lparr>acc_currentBalance := true_balance d a\<rparr> else a)" for a :: account
    define h' where "h' a = (if acc_id a \<in> acc_id ` set (m # ms) then a\<lparr>acc_currentBalance := true_balance d a\<rparr> else a)" for a :: account
    have "h (f a) = h' a" if "a \<in> set (accounts d)" for a
    proof (cases "acc_id a = acc_id m")
      case True
      then have "a = m" by (rule same [OF that])
      then show ?thesis by (simp add: f_def h_def h'_def)
    qed (simp add: f_def h_def h'_def)
    then have "map h (map f (accounts d)) = map h' (accounts d)" by simp
    moreover have "rebalanced d1 (\<lambda>a. acc_id a \<in> acc_id ` set ms) = d\<lparr>accounts := map h (map f (accounts d))\<rparr>"
      unfolding rebalanced_def tb unfolding d1_def set_balance_def map_row_def f_def [abs_def] h_def [abs_def] by simp
    moreover have "rebalanced d (\<lambda>a. acc_id a \<in> acc_id ` set (m # ms)) = d\<lparr>accounts := map h' (accounts d)\<rparr>"
      unfolding rebalanced_def h'_def [abs_def] by simp
    ultimately show ?thesis by simp
  qed
  have disc: "discrepancy_of d1 = discrepancy_of d" by (rule ext) (simp add: discrepancy_of_def tb)
  have dist: "distinct (map acc_id ms)" using Cons.prems(2) by simp
  show ?case
  proof (cases "fits_money (true_balance d m)")
    case True
    with step have "rfold reconcile_account (m # ms) (d, out) = rfold reconcile_account ms (d1, out1)" by simp
    then show ?thesis using True by (simp only: IH [OF dist] reb disc tb) (simp add: out1_def)
  qed (simp add: step)
qed

text \<open>
  Reconciling a workspace makes the cached balance of each of its accounts true, touches
  nothing else in the database, and reports exactly its accounts whose cache was wrong, with the
  old and the new figure; it fails only where a true balance does not fit the column.
\<close>

theorem reconcileWorkspace_spec:
  assumes "keyed acc_id (accounts db)"
  shows "reconcileWorkspace b db =
    (let mine = filter (\<lambda>a. acc_businessId a = b) (accounts db);
         wrong = filter (\<lambda>a. acc_currentBalance a \<noteq> true_balance db a) mine in
     if \<forall>a \<in> set mine. fits_money (true_balance db a)
     then Inr (rebalanced db (\<lambda>a. acc_businessId a = b),
               \<lparr>rc_totalAccounts = length mine, rc_discrepancyCount = length wrong,
                rc_discrepancies = map (discrepancy_of db) wrong\<rparr>)
     else Inl (DbError ''P2020''))"
proof -
  define mine where "mine = filter (\<lambda>a. acc_businessId a = b) (accounts db)"
  have "distinct (map acc_id mine)" using keyed_filter [OF assms] by (simp add: keyed_def mine_def)
  moreover have "find_row acc_id (acc_id m) (accounts db) = Some m" if "m \<in> set mine" for m
    using assms that by (auto simp: mine_def intro: find_row_mem)
  moreover have "rebalanced db (\<lambda>a. acc_id a \<in> acc_id ` set mine) = rebalanced db (\<lambda>a. acc_businessId a = b)"
  proof -
    have "acc_id a \<in> acc_id ` set mine \<longleftrightarrow> acc_businessId a = b" if "a \<in> set (accounts db)" for a
      using assms that find_row_mem [OF assms] by (auto simp: mine_def) (metis option.inject)
    then show ?thesis by (simp add: rebalanced_def)
  qed
  ultimately show ?thesis
    using reconcile_loop [OF assms, of mine "[]"]
    by (simp add: reconcileWorkspace_def Let_def flip: mine_def)
qed

section \<open>A worked example\<close>

text \<open>
  Two wallets, a savings wallet and an income account: 100 earned in cash, 30 of it moved to the
  bank, 20 saved, and an income of 5 that was voided.
\<close>

definition plain_account :: "id \<Rightarrow> account_type \<Rightarrow> string option \<Rightarrow> money \<Rightarrow> money \<Rightarrow> account" where
  "plain_account i ty subtype opening current =
     \<lparr>acc_id = i, acc_businessId = ''w'', acc_parentId = None, acc_name = i, acc_nameBn = None,
      acc_accountNumber = None, acc_accountType = ty, acc_accountSubtype = subtype, acc_openingBalance = opening,
      acc_currentBalance = current, acc_isSystemAccount = False, acc_status = record_status.ACTIVE,
      acc_displayOrder = 0, acc_createdAt = 0\<rparr>"

definition plain_txn :: "id \<Rightarrow> transaction_type \<Rightarrow> instant \<Rightarrow> txn" where
  "plain_txn i ty d = \<lparr>tx_id = i, tx_businessId = ''w'', tx_type = ty, tx_date = d, tx_referenceNo = None,
     tx_description = None, tx_contactId = None, tx_status = POSTED, tx_idempotencyKey = None,
     tx_createdBy = ''u'', tx_createdAt = d, tx_voidedAt = None, tx_voidedReason = None,
     tx_reversalOfId = None, tx_dueDate = None, tx_appliedToTransactionId = None\<rparr>"

definition plain_entry :: "id \<Rightarrow> id \<Rightarrow> id \<Rightarrow> entry_type \<Rightarrow> money \<Rightarrow> entry" where
  "plain_entry i t a side m = \<lparr>en_id = i, en_transactionId = t, en_accountId = a, en_type = side,
     en_amount = m, en_categoryId = None, en_note = None\<rparr>"

definition sample_books :: db where
  "sample_books = empty_db\<lparr>
     accounts := [plain_account ''cash'' ASSET (Some ''cash'') 1000 6000,
                  plain_account ''bank'' ASSET (Some ''bank'') 0 3000,
                  plain_account ''pool'' ASSET (Some ''savings'') 0 2000,
                  plain_account ''inc'' account_type.INCOME None 0 10000],
     txns := [plain_txn ''t1'' transaction_type.INCOME 0, plain_txn ''t2'' TRANSFER day_ms, plain_txn ''t3'' TRANSFER day_ms,
              (plain_txn ''t4'' transaction_type.INCOME day_ms)\<lparr>tx_status := VOIDED\<rparr>,
              (plain_txn ''t5'' transaction_type.INCOME (2 * day_ms))\<lparr>tx_reversalOfId := Some ''t4''\<rparr>],
     entries := [plain_entry ''e1'' ''t1'' ''cash'' DEBIT 10000, plain_entry ''e2'' ''t1'' ''inc'' CREDIT 10000,
                 plain_entry ''e3'' ''t2'' ''bank'' DEBIT 3000, plain_entry ''e4'' ''t2'' ''cash'' CREDIT 3000,
                 plain_entry ''e5'' ''t3'' ''pool'' DEBIT 2000, plain_entry ''e6'' ''t3'' ''cash'' CREDIT 2000,
                 plain_entry ''e7'' ''t4'' ''cash'' DEBIT 500, plain_entry ''e8'' ''t4'' ''inc'' CREDIT 500,
                 plain_entry ''e9'' ''t5'' ''cash'' CREDIT 500, plain_entry ''e10'' ''t5'' ''inc'' DEBIT 500]\<rparr>"

lemmas plain_rows = plain_account_def plain_txn_def plain_entry_def

lemma sample_books_ok:
  "keyed acc_id (accounts sample_books)" "balance_cached sample_books" "voids_net sample_books" "fk_entries sample_books"
  by (simp_all add: sample_books_def plain_rows balance_cached_def true_balance_def account_entries_def
      entry_delta_def isDebitPositive_def voids_net_def dead_entries_def on_txn_def txn_of_def live_txn_def fk_entries_def)

definition ledger_since :: "instant \<Rightarrow> nat \<Rightarrow> nat \<Rightarrow> ledger_filters" where
  "ledger_since d page limit = \<lparr>lf_dateFrom = Some d, lf_dateTo = None, lf_page = Some page, lf_limit = Some limit\<rparr>"

lemma sample_matching:
  "find_many (ledger_where sample_books ''cash'' (ledger_since day_ms 2 2)) (by_date_created sample_books)
     (entries sample_books) =
   [plain_entry ''e4'' ''t2'' ''cash'' CREDIT 3000, plain_entry ''e6'' ''t3'' ''cash'' CREDIT 2000,
    plain_entry ''e7'' ''t4'' ''cash'' DEBIT 500, plain_entry ''e9'' ''t5'' ''cash'' CREDIT 500]"
  by (simp add: find_many_def sample_books_def ledger_where_def ledger_since_def on_txn_def txn_of_def in_range_def
      by_date_created_def plain_rows day_ms_def)

lemma sample_brought_forward:
  "brought_forward sample_books (plain_account ''cash'' ASSET (Some ''cash'') 1000 6000) (ledger_since day_ms 2 2) = 11000"
  by (simp add: brought_forward_def sample_books_def ledger_since_def on_txn_def txn_of_def plain_rows day_ms_def
      isDebitPositive_def entry_delta_def)

lemma sample_ledger:
  "\<exists>p. getLedger ''w'' ''cash'' (ledger_since day_ms 2 2) sample_books = Inr p \<and> lp_page p = 2 \<and> lp_limit p = 2 \<and>
     lp_total p = 4 \<and> length (lp_entries p) = 2 \<and> lp_balanceBroughtForward p = 11000 \<and> lp_closingBalance p = 6000"
proof -
  have total: "length (filter (ledger_where sample_books ''cash'' (ledger_since day_ms 2 2)) (entries sample_books)) = 4"
    using arg_cong [OF sample_matching, of length] by (simp add: length_find_many)
  have id: "acc_id (plain_account ''cash'' ASSET (Some ''cash'') 1000 6000) = ''cash''" by (simp add: plain_account_def)
  have dp: "isDebitPositive (acc_accountType (plain_account ''cash'' ASSET (Some ''cash'') 1000 6000))"
    by (simp add: plain_account_def isDebitPositive_def)
  have "getLedger ''w'' ''cash'' (ledger_since day_ms 2 2) sample_books =
      Inr (ledger_page_of sample_books (plain_account ''cash'' ASSET (Some ''cash'') 1000 6000) (ledger_since day_ms 2 2))"
    by (simp add: getLedger_def require_row_def sample_books_def plain_account_def)
  then show ?thesis
    unfolding ledger_page_of_def id sample_matching sample_brought_forward Let_def total
    by (simp add: dp ledger_since_def slice_def entry_delta_def plain_entry_def)
qed

lemma getLedger_running_balance_witness:
  "\<exists>p a. getLedger ''w'' ''cash'' (ledger_since day_ms 2 2) sample_books = Inr p \<and> length (lp_entries p) = 2 \<and>
     find_row acc_id ''cash'' (accounts sample_books) = Some a \<and>
     lr_runningBalance (lp_entries p ! 1) = lp_balanceBroughtForward p +
       sum_by (entry_delta (isDebitPositive (acc_accountType a)))
         (take 4 (find_many (ledger_where sample_books ''cash'' (ledger_since day_ms 2 2))
            (by_date_created sample_books) (entries sample_books)))"
proof -
  from sample_ledger obtain p where p: "getLedger ''w'' ''cash'' (ledger_since day_ms 2 2) sample_books = Inr p"
    and v: "lp_page p = 2" "lp_limit p = 2" "length (lp_entries p) = 2" by auto
  from v(1) have "1 \<le> lp_page p" by simp
  from getLedger_running_balance [OF p this] v obtain a where
    a: "find_row acc_id ''cash'' (accounts sample_books) = Some a" and
    "\<forall>k < length (lp_entries p). lr_runningBalance (lp_entries p ! k) = lp_balanceBroughtForward p +
       sum_by (entry_delta (isDebitPositive (acc_accountType a))) (take (Suc (2 + k))
         (find_many (ledger_where sample_books ''cash'' (ledger_since day_ms 2 2))
            (by_date_created sample_books) (entries sample_books)))"
    by (auto simp: Let_def)
  then have "lr_runningBalance (lp_entries p ! 1) = lp_balanceBroughtForward p +
       sum_by (entry_delta (isDebitPositive (acc_accountType a))) (take (Suc (2 + 1))
         (find_many (ledger_where sample_books ''cash'' (ledger_since day_ms 2 2))
            (by_date_created sample_books) (entries sample_books)))"
    using v(3) by (metis one_less_numeral_iff semiring_norm(76))
  with p a v show ?thesis by (intro exI [of _ p] exI [of _ a]) (simp add: numeral_eq_Suc)
qed

lemma getLedger_closes_on_balance_witness:
  "\<exists>p a. getLedger ''w'' ''cash'' (ledger_since day_ms 2 2) sample_books = Inr p \<and>
     find_row acc_id ''cash'' (accounts sample_books) = Some a \<and> lp_closingBalance p = true_balance sample_books a"
proof -
  from sample_ledger obtain p where p: "getLedger ''w'' ''cash'' (ledger_since day_ms 2 2) sample_books = Inr p"
    and v: "lp_page p = 2" "lp_limit p = 2" "lp_total p = 4" by auto
  have "lf_dateTo (ledger_since day_ms 2 2) = None" by (simp add: ledger_since_def)
  from getLedger_closes_on_balance [OF p sample_books_ok(4) this] v p show ?thesis by auto
qed

lemma sample_summary: "\<exists>s. getAccountSummary ''w'' ''cash'' None None sample_books = Inr s"
  by (simp add: getAccountSummary_def require_row_def sample_books_def plain_rows Let_def)

lemma getAccountSummary_adds_up_witness:
  "\<exists>s a. getAccountSummary ''w'' ''cash'' None None sample_books = Inr s \<and>
     find_row acc_id ''cash'' (accounts sample_books) = Some a \<and>
     sm_currentBalance s = acc_openingBalance a + sm_totalIn s - sm_totalOut s + sm_adjustment s"
  using sample_summary getAccountSummary_adds_up [OF _ sample_books_ok(2,3)] by blast

lemma getWalletsOverview_adds_up_witness:
  "wo_availableBalance (getWalletsOverview ''w'' sample_books) = sum_by wr_currentBalance
     (filter (\<lambda>r. wr_status r \<noteq> ARCHIVED) (wo_accounts (getWalletsOverview ''w'' sample_books)))"
  using getWalletsOverview_adds_up [OF sample_books_ok(2,3), of "''w''"] by blast

lemma reconcileWorkspace_spec_witness:
  "keyed acc_id (accounts sample_books) \<and>
   (\<exists>db'. reconcileWorkspace ''w'' (set_balance ''bank'' 7 sample_books) =
     Inr (db', \<lparr>rc_totalAccounts = 4, rc_discrepancyCount = 1, rc_discrepancies =
       [\<lparr>dc_accountId = ''bank'', dc_name = ''bank'', dc_cachedBalance = 7, dc_recalculatedBalance = 3000\<rparr>]\<rparr>))"
proof -
  have "keyed acc_id (accounts (set_balance ''bank'' 7 sample_books))"
    using sample_books_ok(1) by (simp add: keyed_only_balances [OF only_balances_set_balance])
  note spec = reconcileWorkspace_spec [OF this, of "''w''"]
  show ?thesis
    using sample_books_ok(1) unfolding spec
    by (simp add: sample_books_def set_balance_def plain_rows true_balance_def account_entries_def
        entry_delta_def isDebitPositive_def fits_money_def discrepancy_of_def)
qed

end
