(* ===== verification/Dhaka.thy ===== *)
theory Dhaka
  imports Schema
begin

text \<open>
  The Asia/Dhaka calendar helpers the ledger and the statements use (src/common/dhaka.ts): a
  fixed UTC+6. A calendar date is the instant of its UTC midnight. The conversions go through
  the proleptic Gregorian calendar of JavaScript's \<open>Date.UTC\<close> and \<open>getUTC...\<close>.
\<close>

section \<open>JavaScript's calendar\<close>

text \<open>
  Days since 1970-01-01 of a civil date whose month may run past 1-12, as \<open>Date.UTC\<close> reads it:
  the year is counted from March, so the leap day is the last of it.
\<close>

definition days_before_year :: "int \<Rightarrow> int" where
  "days_before_year y = 365 * y + y div 4 - y div 100 + y div 400"

text \<open>Day count of 1 March of year \<open>y\<close> relative to 1970-01-01.\<close>

definition march_first :: "int \<Rightarrow> int" where
  "march_first y = days_before_year y - 719468"

definition month_offset :: "int \<Rightarrow> int" where
  "month_offset mp = (153 * mp + 2) div 5"

definition days_from_civil :: "int \<Rightarrow> int \<Rightarrow> int \<Rightarrow> int" where
  "days_from_civil y m d =
     (let y' = y + (m - 1) div 12; m' = (m - 1) mod 12;
          mp = (m' + 10) mod 12; ym = (if m' < 2 then y' - 1 else y')
      in march_first ym + month_offset mp + d - 1)"

definition date_utc :: "int \<Rightarrow> int \<Rightarrow> int \<Rightarrow> instant" where
  "date_utc y m d = days_from_civil y m d * day_ms"

definition year_guess :: "int \<Rightarrow> int" where
  "year_guess n = (n + 719468) * 400 div 146097"

text \<open>The March-based year a day lies in, its day in that year, and month and day from there.\<close>

definition march_year :: "int \<Rightarrow> int" where
  "march_year n = (if march_first (year_guess n + 1) \<le> n then year_guess n + 1
                   else if n < march_first (year_guess n) then year_guess n - 1 else year_guess n)"

definition civil_from_days :: "int \<Rightarrow> int \<times> int \<times> int" where
  "civil_from_days n =
     (let ym = march_year n; doy = n - march_first ym; mp = (5 * doy + 2) div 153;
          d = doy - month_offset mp + 1; m = (if mp < 10 then mp + 3 else mp - 9)
      in (if m \<le> 2 then ym + 1 else ym, m, d))"

definition utc_day :: "instant \<Rightarrow> int" where
  "utc_day t = t div day_ms"

definition utc_date :: "instant \<Rightarrow> int \<times> int \<times> int" where
  "utc_date t = civil_from_days (utc_day t)"

subsection \<open>Day numbers and dates\<close>

lemma div_bounds:
  assumes "0 < (c :: int)"
  shows "c * (x div c) \<le> x" "x + 1 \<le> c * (x div c) + c"
  using pos_mod_bound [OF assms, of x] pos_mod_sign [OF assms, of x] mult_div_mod_eq [of c x] by linarith+

lemma div_unique: "0 < c \<Longrightarrow> c * q \<le> x \<Longrightarrow> x < c * q + c \<Longrightarrow> x div c = (q :: int)"
  by (rule int_div_pos_eq [of x c q "x - c * q"]) auto

lemmas by_4 = div_bounds [of 4, OF zero_less_numeral]
lemmas by_5 = div_bounds [of 5, OF zero_less_numeral]
lemmas by_100 = div_bounds [of 100, OF zero_less_numeral]
lemmas by_153 = div_bounds [of 153, OF zero_less_numeral]
lemmas by_400 = div_bounds [of 400, OF zero_less_numeral]

lemma days_before_year_bounds:
  "400 * days_before_year y \<le> 146097 * y + 400" "146097 * y - 800 < 400 * days_before_year y"
proof -
  define a where "a = y div 4"
  define b where "b = y div 100"
  define c where "c = y div 400"
  have "4 * a \<le> y" "y + 1 \<le> 4 * a + 4" "100 * b \<le> y" "y + 1 \<le> 100 * b + 100" "400 * c \<le> y" "y + 1 \<le> 400 * c + 400"
    unfolding a_def b_def c_def by (rule by_4 by_100 by_400)+
  then have "400 * (365 * y + a - b + c) \<le> 146097 * y + 400 \<and> 146097 * y - 800 < 400 * (365 * y + a - b + c)"
    by simp
  then show "400 * days_before_year y \<le> 146097 * y + 400" "146097 * y - 800 < 400 * days_before_year y"
    unfolding days_before_year_def a_def b_def c_def by blast+
qed

lemma march_year_bounds:
  "march_first (march_year n) \<le> n" "n < march_first (march_year n + 1)"
proof -
  define q where "q = year_guess n"
  have q: "146097 * q \<le> (n + 719468) * 400" "(n + 719468) * 400 < 146097 * q + 146097"
    using div_bounds [of 146097 "(n + 719468) * 400"] unfolding q_def year_guess_def by linarith+
  have "400 * days_before_year (q - 1) \<le> (n + 719468) * 400"
    using q(1) days_before_year_bounds(1) [of "q - 1"] by (simp add: algebra_simps)
  then have low: "march_first (q - 1) \<le> n" by (simp add: march_first_def)
  have "(n + 719468) * 400 < 400 * days_before_year (q + 2)"
    using q(2) days_before_year_bounds(2) [of "q + 2"] by (simp add: algebra_simps)
  then have "n < march_first (q + 2)" by (simp add: march_first_def)
  with low show "march_first (march_year n) \<le> n" "n < march_first (march_year n + 1)"
    unfolding march_year_def q_def [symmetric] by (auto simp: not_le add.assoc)
qed

lemma div_succ:
  assumes "1 < (c :: int)"
  shows "x div c \<le> (x + 1) div c" "(x + 1) div c \<le> x div c + 1"
proof -
  show "x div c \<le> (x + 1) div c" using assms by (intro zdiv_mono1) auto
  have "(x + 1) div c \<le> (x + c) div c" using assms by (intro zdiv_mono1) auto
  also have "(x + c) div c = x div c + 1" using div_add_self2 [of c x] assms by simp
  finally show "(x + 1) div c \<le> x div c + 1" .
qed

lemma march_year_length: "march_first y + 364 \<le> march_first (y + 1)"
  using div_succ(1) [of 4 y] div_succ(2) [of 100 y] div_succ(1) [of 400 y]
  unfolding march_first_def days_before_year_def by simp

lemma march_year_length_le: "march_first (y + 1) \<le> march_first y + 366"
proof -
  have "(y + 1) div 400 = (y + 1) div 100 div 4" by (simp add: zdiv_zmult2_eq)
  moreover have "y div 400 = y div 100 div 4" by (simp add: zdiv_zmult2_eq)
  moreover have "(y + 1) div 100 = y div 100 \<or> (y + 1) div 100 = y div 100 + 1"
    using div_succ [of 100 y] by auto
  ultimately have "(y + 1) div 400 - y div 400 \<le> (y + 1) div 100 - y div 100"
    using div_succ(2) [of 4 "y div 100"] by auto
  then show ?thesis
    using div_succ(2) [of 4 y] unfolding march_first_def days_before_year_def by simp
qed

text \<open>A day within its March-based year: the month and the day of the month.\<close>

definition march_month :: "int \<Rightarrow> int" where
  "march_month doy = (5 * doy + 2) div 153"

lemma between_153:
  fixes q :: int
  shows "153 * q \<le> 5 * doy + 2 \<Longrightarrow> 5 * r \<le> 153 * q + 2 \<Longrightarrow> r \<le> doy"
    and "5 * doy + 2 < 153 * q + 153 \<Longrightarrow> 153 * (q + 1) + 2 + 1 \<le> 5 * s + 5 \<Longrightarrow> doy < s"
    and "153 * q + 2 + 1 \<le> 5 * r + 5 \<Longrightarrow> r \<le> doy \<Longrightarrow> 153 * q \<le> 5 * doy + 2"
    and "5 * s \<le> 153 * (q + 1) + 2 \<Longrightarrow> doy < s \<Longrightarrow> 5 * doy + 2 < 153 * q + 153"
proof -
  assume "153 * q \<le> 5 * doy + 2" "5 * r \<le> 153 * q + 2"
  then have "5 * r \<le> 5 * doy + 4" by simp
  then show "r \<le> doy" by presburger
next
  assume "5 * doy + 2 < 153 * q + 153" "153 * (q + 1) + 2 + 1 \<le> 5 * s + 5"
  then have "5 * doy + 1 \<le> 5 * s" by simp
  then show "doy < s" by presburger
qed simp_all

lemma march_month_bounds:
  assumes "0 \<le> doy" "doy < 366"
  shows "0 \<le> march_month doy" "march_month doy \<le> 11" "month_offset (march_month doy) \<le> doy"
    "doy < month_offset (march_month doy + 1)"
proof -
  define q where "q = march_month doy"
  have q: "153 * q \<le> 5 * doy + 2" "5 * doy + 2 < 153 * q + 153"
    using by_153 [of "5 * doy + 2"] unfolding q_def march_month_def by linarith+
  show "0 \<le> march_month doy" "march_month doy \<le> 11" using q assms unfolding q_def [symmetric] by linarith+
  show "month_offset (march_month doy) \<le> doy"
    unfolding q_def [symmetric] month_offset_def by (rule between_153(1) [OF q(1) by_5(1)])
  show "doy < month_offset (march_month doy + 1)"
    unfolding q_def [symmetric] month_offset_def by (rule between_153(2) [OF q(2) by_5(2)])
qed

lemma march_month_unique:
  assumes "month_offset mp \<le> doy" "doy < month_offset (mp + 1)"
  shows "march_month doy = mp"
  unfolding march_month_def
proof (rule div_unique)
  show "153 * mp \<le> 5 * doy + 2"
    by (rule between_153(3) [OF by_5(2) assms(1) [unfolded month_offset_def]])
  show "5 * doy + 2 < 153 * mp + 153"
    by (rule between_153(4) [OF by_5(1) assms(2) [unfolded month_offset_def]])
qed simp

text \<open>Months counted from March of year 0, and the day each one starts.\<close>

definition month_start :: "int \<Rightarrow> int" where
  "month_start j = march_first (j div 12) + month_offset (j mod 12)"

lemma split_12:
  fixes j :: int
  obtains a b where "j = 12 * a + b" "0 \<le> b" "b < 12"
proof (rule that [of "j div 12" "j mod 12"])
  show "j = 12 * (j div 12) + j mod 12" by (rule mult_div_mod_eq [symmetric])
qed simp_all

lemma month_start_12: "0 \<le> b \<Longrightarrow> b < 12 \<Longrightarrow> month_start (12 * a + b) = march_first a + month_offset b"
  by (simp add: month_start_def)

lemma month_start_next: "0 \<le> b \<Longrightarrow> b < 12 \<Longrightarrow> month_start (12 * a + b + 1) =
    (if b = 11 then march_first (a + 1) else march_first a + month_offset (b + 1))"
  using month_start_12 [of 0 "a + 1"] month_start_12 [of "b + 1" a] by (simp add: month_offset_def algebra_simps)

definition month_index :: "int \<Rightarrow> int" where
  "month_index n = 12 * march_year n + march_month (n - march_first (march_year n))"

lemma month_index_parts:
  "month_index n div 12 = march_year n"
  "month_index n mod 12 = march_month (n - march_first (march_year n))"
  "0 \<le> n - march_first (march_year n)" "n - march_first (march_year n) < 366"
proof -
  show doy: "0 \<le> n - march_first (march_year n)" "n - march_first (march_year n) < 366"
    using march_year_bounds [of n] march_year_length_le [of "march_year n"] by simp_all
  show "month_index n div 12 = march_year n"
    "month_index n mod 12 = march_month (n - march_first (march_year n))"
    using march_month_bounds(1,2) [OF doy] by (simp_all add: month_index_def)
qed

lemma month_start_step: "month_start j < month_start (j + 1)"
proof -
  obtain a b where j: "j = 12 * a + b" and b: "0 \<le> b" "b < 12" by (rule split_12)
  have "153 * b + 2 + 5 \<le> 153 * (b + 1) + 2" by simp
  then have "(153 * b + 2 + 5) div 5 \<le> (153 * (b + 1) + 2) div 5" by (rule zdiv_mono1) simp
  moreover have "(153 * b + 2 + 5) div 5 = (153 * b + 2) div 5 + 1" by (rule div_add_self2) simp
  ultimately have "month_offset b < month_offset (b + 1)" unfolding month_offset_def by linarith
  moreover have "month_offset 11 = 337" by (simp add: month_offset_def)
  ultimately show ?thesis
    using march_year_length [of a] by (simp add: j month_start_12 [OF b] month_start_next [OF b])
qed

lemma month_start_mono: "i < j \<Longrightarrow> month_start i < month_start j"
proof (induction j rule: int_gr_induct)
  case base
  then show ?case by (rule month_start_step)
next
  case (step j)
  then show ?case using month_start_step [of j] by linarith
qed

lemma month_index_bounds: "month_start (month_index n) \<le> n" "n < month_start (month_index n + 1)"
proof -
  define doy where "doy = n - march_first (march_year n)"
  have doy: "0 \<le> doy" "doy < 366" using month_index_parts(3,4) [of n] by (simp_all add: doy_def)
  note mb = march_month_bounds [OF doy]
  have le: "march_month doy < 12" using mb(2) by simp
  have idx: "month_index n = 12 * march_year n + march_month doy" by (simp add: month_index_def doy_def)
  show "month_start (month_index n) \<le> n"
    using mb(3) unfolding idx month_start_12 [OF mb(1) le] by (simp add: doy_def)
  show "n < month_start (month_index n + 1)"
    using mb(4) march_year_bounds(2) [of n] unfolding idx month_start_next [OF mb(1) le] by (auto simp: doy_def)
qed

lemma month_start_less: "month_start i < month_start j \<longleftrightarrow> i < j"
  using month_start_mono [of i j] month_start_mono [of j i] by (cases i j rule: linorder_cases) auto

lemma month_index_iff: "month_start i \<le> n \<and> n < month_start j \<longleftrightarrow> i \<le> month_index n \<and> month_index n < j"
proof -
  note b = month_index_bounds [of n]
  have up: "n < month_start j \<longleftrightarrow> month_index n < j" for j
  proof
    assume "n < month_start j"
    then have "month_start (month_index n) < month_start j" using b(1) by linarith
    then show "month_index n < j" by (simp only: month_start_less)
  next
    assume "month_index n < j"
    then have "\<not> month_start j < month_start (month_index n + 1)" by (simp only: month_start_less)
    then show "n < month_start j" using b(2) by linarith
  qed
  from up [of i] up [of j] show ?thesis by linarith
qed

lemma days_from_civil_eq: "days_from_civil y m d = month_start (12 * y + m - 3) + d - 1"
proof -
  obtain a b where k: "m - 1 = 12 * a + b" and b: "0 \<le> b" "b < 12" by (rule split_12)
  have parts: "(m - 1) div 12 = a" "(m - 1) mod 12 = b" using b by (simp_all add: k)
  show ?thesis
  proof (cases "b < 2")
    case True
    then have "(b + 10) mod 12 = b + 10" using b by simp
    moreover have "12 * y + m - 3 = 12 * (y + a - 1) + (b + 10)" using k by simp
    moreover have "month_start (12 * (y + a - 1) + (b + 10)) = march_first (y + a - 1) + month_offset (b + 10)"
      using True b by (intro month_start_12) auto
    ultimately show ?thesis
      using True by (simp only: days_from_civil_def Let_def parts if_True)
  next
    case False
    then have "(b + 10) mod 12 = b - 2" using b mod_pos_pos_trivial [of "b - 2" 12] mod_add_self1 [of 12 "b - 2"] by (simp add: add.commute)
    moreover have "12 * y + m - 3 = 12 * (y + a) + (b - 2)" using k by simp
    moreover have "month_start (12 * (y + a) + (b - 2)) = march_first (y + a) + month_offset (b - 2)"
      using False b by (intro month_start_12) auto
    ultimately show ?thesis
      using False by (simp only: days_from_civil_def Let_def parts if_False)
  qed
qed

lemma civil_from_days_spec:
  assumes "civil_from_days n = (y, m, d)"
  shows "12 * y + m - 3 = month_index n" "d = n - month_start (month_index n) + 1" "1 \<le> m" "m \<le> 12" "1 \<le> d"
proof -
  define mp where "mp = march_month (n - march_first (march_year n))"
  note mb = march_month_bounds [OF month_index_parts(3,4) [of n], folded mp_def]
  from assms have m: "m = (if mp < 10 then mp + 3 else mp - 9)" and y: "y = (if m \<le> 2 then march_year n + 1 else march_year n)"
    and d: "d = n - march_first (march_year n) - month_offset mp + 1"
    by (auto simp: civil_from_days_def Let_def mp_def march_month_def)
  show "12 * y + m - 3 = month_index n" using mb(1,2) m y by (auto simp: month_index_def mp_def [symmetric])
  show "1 \<le> m" "m \<le> 12" using mb(1,2) m by auto
  show "d = n - month_start (month_index n) + 1"
    by (simp add: d month_start_def month_index_parts mp_def)
  show "1 \<le> d" using mb(3) d by simp
qed

lemma civil_round_trip: "civil_from_days n = (y, m, d) \<Longrightarrow> days_from_civil y m d = n"
  using civil_from_days_spec(1,2) [of n y m d] by (simp add: days_from_civil_eq)

section \<open>The helpers\<close>

definition DHAKA_OFFSET_MS :: int where
  "DHAKA_OFFSET_MS = 6 * 60 * 60 * 1000"

definition dhakaToday :: "instant \<Rightarrow> int \<times> int \<times> int" where
  "dhakaToday now = utc_date (now + DHAKA_OFFSET_MS)"

definition dhakaYear :: "instant \<Rightarrow> int" where
  "dhakaYear date = fst (utc_date (date + DHAKA_OFFSET_MS))"

text \<open>\<open>'YYYY-MM-DD'\<close> of the Dhaka calendar date, for years 0 to 9999.\<close>

definition pad :: "nat \<Rightarrow> string \<Rightarrow> string" where
  "pad n s = replicate (n - length s) (CHR ''0'') @ s"

definition dhakaDateKey :: "instant \<Rightarrow> string" where
  "dhakaDateKey date = (case utc_date (date + DHAKA_OFFSET_MS) of (y, m, d) \<Rightarrow>
     pad 4 (nat_digits (nat y)) @ ''-'' @ pad 2 (nat_digits (nat m)) @ ''-'' @ pad 2 (nat_digits (nat d)))"

definition dhakaMonthRange :: "instant \<Rightarrow> int \<Rightarrow> instant \<times> instant" where
  "dhakaMonthRange now off = (case dhakaToday now of (year, month, day) \<Rightarrow>
     (date_utc year (month + off) 1, date_utc year (month + off + 1) 1))"

definition dhakaMonthStart :: "int \<Rightarrow> int \<Rightarrow> instant" where
  "dhakaMonthStart year month = date_utc year month 1 - DHAKA_OFFSET_MS"

definition dhakaDayStart :: "instant \<Rightarrow> instant" where
  "dhakaDayStart date = (case utc_date (date + DHAKA_OFFSET_MS) of (y, m, d) \<Rightarrow> date_utc y m d - DHAKA_OFFSET_MS)"

text \<open>The date key read back at UTC midnight.\<close>

definition dhakaDateOnly :: "instant \<Rightarrow> instant" where
  "dhakaDateOnly date = (case utc_date (date + DHAKA_OFFSET_MS) of (y, m, d) \<Rightarrow> date_utc y m d)"

section \<open>What they compute\<close>

lemma date_utc_utc_date: "utc_date t = (y, m, d) \<Longrightarrow> date_utc y m d = db_date t"
  unfolding utc_date_def date_utc_def utc_day_def
  by (simp add: civil_round_trip db_date_def minus_mod_eq_div_mult)

lemma dhakaDateOnly_eq: "dhakaDateOnly t = db_date (t + DHAKA_OFFSET_MS)"
  by (cases "utc_date (t + DHAKA_OFFSET_MS)") (simp add: dhakaDateOnly_def date_utc_utc_date)

lemma dhakaDayStart_eq: "dhakaDayStart t = dhakaDateOnly t - DHAKA_OFFSET_MS"
  by (simp add: dhakaDateOnly_def dhakaDayStart_def split: prod.split)

lemma db_date_bounds: "db_date t \<le> t" "t < db_date t + day_ms"
  by (simp_all add: db_date_def day_ms_def)

lemma db_date_eq_iff: "db_date s = db_date t \<longleftrightarrow> utc_day s = utc_day t"
  by (simp add: db_date_def utc_day_def minus_mod_eq_div_mult day_ms_def)

text \<open>
  An instant lies in the day that starts at its \<open>dhakaDayStart\<close>, and two instants share a
  day start exactly when they share a Dhaka calendar date.
\<close>

theorem dhakaDayStart_is_the_dhaka_day:
  "dhakaDayStart t \<le> t \<and> t < dhakaDayStart t + day_ms \<and>
   (dhakaDayStart s = dhakaDayStart t \<longleftrightarrow> dhakaToday s = dhakaToday t)"
proof -
  have "dhakaToday s = dhakaToday t" if "dhakaDayStart s = dhakaDayStart t"
    using that by (simp add: dhakaDayStart_eq dhakaDateOnly_eq db_date_eq_iff dhakaToday_def utc_date_def)
  moreover have "dhakaDayStart s = dhakaDayStart t" if "dhakaToday s = dhakaToday t"
    using that by (simp add: dhakaToday_def dhakaDayStart_def)
  ultimately show ?thesis
    using db_date_bounds [of "t + DHAKA_OFFSET_MS"] by (auto simp: dhakaDayStart_eq dhakaDateOnly_eq)
qed

lemma date_utc_le: "date_utc y m 1 \<le> t \<longleftrightarrow> month_start (12 * y + m - 3) \<le> utc_day t"
  and date_utc_gt: "t < date_utc y m 1 \<longleftrightarrow> utc_day t < month_start (12 * y + m - 3)"
proof -
  have "c * day_ms \<le> t \<longleftrightarrow> c \<le> t div day_ms" for c
    using zdiv_mono1 [of "c * day_ms" t day_ms] div_bounds(1) [of day_ms t] mult_right_mono [of c "t div day_ms" day_ms]
    by (auto simp: day_ms_def)
  then show "date_utc y m 1 \<le> t \<longleftrightarrow> month_start (12 * y + m - 3) \<le> utc_day t"
    "t < date_utc y m 1 \<longleftrightarrow> utc_day t < month_start (12 * y + m - 3)"
    unfolding date_utc_def days_from_civil_eq utc_day_def not_le [symmetric] by auto
qed

text \<open>
  The bounds \<open>dhakaMonthRange\<close> returns hold exactly the dates of the calendar month
  \<open>offset\<close> months from the current Dhaka month, over year ends too.
\<close>

theorem dhakaMonthRange_is_the_month:
  "fst (dhakaMonthRange now offs) \<le> t \<and> t < snd (dhakaMonthRange now offs) \<longleftrightarrow>
   (case (utc_date t, dhakaToday now) of ((y, m, d), (y', m', d')) \<Rightarrow> 12 * y + m = 12 * y' + m' + offs)"
proof -
  obtain y' m' d' where now: "dhakaToday now = (y', m', d')" by (cases "dhakaToday now")
  obtain y m d where t: "utc_date t = (y, m, d)" by (cases "utc_date t")
  have "month_index (utc_day t) = 12 * y + m - 3"
    using civil_from_days_spec(1) t unfolding utc_date_def by metis
  then show ?thesis
    using month_index_iff [of "12 * y' + (m' + offs) - 3" "utc_day t" "12 * y' + (m' + offs + 1) - 3"]
    by (auto simp: dhakaMonthRange_def now t date_utc_le date_utc_gt)
qed

end
