(* ===== verification/Transactions.thy ===== *)
theory Transactions
  imports Balance Dhaka
begin

text \<open>
  The posting service (src/transactions/transactions.service.ts): every balanced set of entries
  in the ledger is written by \<open>post\<close> or, as the mirror of a posting, by \<open>voidTransaction\<close>. The
  row locks both take first have no effect on what a single request computes. A request that fails leaves the database as
  it was, so a failing operation has no new state.
\<close>

section \<open>Requests\<close>

record entry_dto =
  ed_accountId :: id
  ed_entryType :: entry_type
  ed_amount :: money
  ed_categoryId :: "string option"
  ed_note :: "string option"

record create_txn_dto =
  td_type :: transaction_type
  td_date :: instant
  td_description :: "string option"
  td_referenceNo :: "string option"
  td_contactId :: "id option"
  td_dueDate :: "instant option"
  td_appliedTo :: "id option"
  td_entries :: "entry_dto list"
  td_idempotencyKey :: "string option"

type_synonym posting = "txn \<times> entry list"

section \<open>Checks\<close>

fun refuse_not_positive :: "entry_dto list \<Rightarrow> unit result" where
  "refuse_not_positive [] = Inr ()"
| "refuse_not_positive (e # es) =
     (if \<not> 0 < ed_amount e then Inl (BadRequest ''Every entry amount must be greater than zero'')
      else refuse_not_positive es)"

definition validateEntryShape :: "entry_dto list \<Rightarrow> unit result" where
  "validateEntryShape es =
     (if length es < 2 then Inl (BadRequest ''A transaction needs at least 2 entries'')
      else refuse_not_positive es)"

definition requireAccountsBelongToBusiness :: "account list \<Rightarrow> id list \<Rightarrow> id \<Rightarrow> unit result" where
  "requireAccountsBelongToBusiness found requestedIds b =
     (if length found \<noteq> length requestedIds then Inl (BadRequest ''One or more accounts do not exist'')
      else case find (\<lambda>a. acc_businessId a \<noteq> b) found of
        None \<Rightarrow> Inr ()
      | Some foreign \<Rightarrow>
          Inl (BadRequest (''Account '' @ quoted (acc_name foreign) @ '' does not belong to this workspace'')))"

definition requireContact :: "id \<Rightarrow> id option \<Rightarrow> db \<Rightarrow> unit result" where
  "requireContact b c db =
     (if truthy c \<and> find (\<lambda>x. Some (ct_id x) = c \<and> ct_businessId x = b) (contacts db) = None
      then Inl (BadRequest ''Contact not found in this workspace'') else Inr ())"

definition requireAppliedTo :: "id \<Rightarrow> id option \<Rightarrow> id option \<Rightarrow> db \<Rightarrow> unit result" where
  "requireAppliedTo b c applied db =
     (if truthy applied then
        case find (\<lambda>t. Some (tx_id t) = applied \<and> tx_businessId t = b) (txns db) of
          None \<Rightarrow> Inl (BadRequest ''appliedToTransactionId does not reference a transaction of this contact in this workspace'')
        | Some target \<Rightarrow>
            if truthy c \<and> tx_contactId target \<noteq> c
            then Inl (BadRequest ''appliedToTransactionId does not reference a transaction of this contact in this workspace'')
            else Inr ()
      else Inr ())"

definition requireLinksBelongToBusiness :: "id \<Rightarrow> create_txn_dto \<Rightarrow> db \<Rightarrow> unit result" where
  "requireLinksBelongToBusiness b dto db =
     rbind (requireContact b (td_contactId dto) db) (\<lambda>_.
     requireAppliedTo b (td_contactId dto) (td_appliedTo dto) db)"

fun sumEntries_from :: "money \<times> money \<Rightarrow> entry_dto list \<Rightarrow> money \<times> money" where
  "sumEntries_from acc [] = acc"
| "sumEntries_from (debitTotal, creditTotal) (e # es) =
     sumEntries_from (if ed_entryType e = DEBIT then (debitTotal + ed_amount e, creditTotal)
                      else (debitTotal, creditTotal + ed_amount e)) es"

definition sumEntries :: "entry_dto list \<Rightarrow> money \<times> money" where
  "sumEntries es = sumEntries_from (0, 0) es"

fun flip_side :: "entry_type \<Rightarrow> entry_type" where
  "flip_side DEBIT = CREDIT"
| "flip_side CREDIT = DEBIT"

section \<open>Writing a transaction with its entries\<close>

text \<open>
  \<open>transaction.create\<close> with nested entries: the unique indexes on the ids and the idempotency
  key, the foreign keys on the contact and the accounts, the range of the amount column.
\<close>

definition insert_entry :: "entry \<Rightarrow> db \<Rightarrow> db result" where
  "insert_entry e db =
     rbind (store_money (en_amount e)) (\<lambda>_.
     rbind (check (en_accountId e \<in> acc_id ` set (accounts db)) (DbError ''P2003'')) (\<lambda>_.
     rbind (insert_row en_id e (entries db)) (\<lambda>es. Inr (db\<lparr>entries := es\<rparr>))))"

definition insert_posting :: "txn \<Rightarrow> entry list \<Rightarrow> db \<Rightarrow> db result" where
  "insert_posting t es db =
     rbind (check (case tx_idempotencyKey t of None \<Rightarrow> True
        | Some k \<Rightarrow> Some k \<notin> tx_idempotencyKey ` set (txns db)) (DbError ''P2002'')) (\<lambda>_.
     rbind (insert_row tx_id t (txns db)) (\<lambda>ts.
     rbind (check (case tx_contactId t of None \<Rightarrow> True | Some c \<Rightarrow> c \<in> ct_id ` set (contacts db))
        (DbError ''P2003'')) (\<lambda>_.
     rfold insert_entry es (db\<lparr>txns := ts\<rparr>))))"

text \<open>The rows a request asks for; the ids are drawn in order, the transaction's first.\<close>

definition entry_of_dto :: "id_source \<Rightarrow> nat \<times> entry_dto \<Rightarrow> entry" where
  "entry_of_dto gen = (\<lambda>(k, e).
     \<lparr>en_id = gen (Suc k), en_transactionId = gen 0, en_accountId = ed_accountId e, en_type = ed_entryType e,
      en_amount = ed_amount e, en_categoryId = ed_categoryId e, en_note = ed_note e\<rparr>)"

definition entry_rows :: "id_source \<Rightarrow> entry_dto list \<Rightarrow> entry list" where
  "entry_rows gen es = map (entry_of_dto gen) (enumerate 0 es)"

definition txn_row :: "id_source \<Rightarrow> instant \<Rightarrow> id \<Rightarrow> create_txn_dto \<Rightarrow> id \<Rightarrow> txn" where
  "txn_row gen now b dto user =
     \<lparr>tx_id = gen 0, tx_businessId = b, tx_type = td_type dto, tx_date = db_date (td_date dto),
      tx_referenceNo = td_referenceNo dto, tx_description = td_description dto, tx_contactId = td_contactId dto,
      tx_status = POSTED, tx_idempotencyKey = td_idempotencyKey dto, tx_createdBy = user, tx_createdAt = now,
      tx_voidedAt = None, tx_voidedReason = None, tx_reversalOfId = None,
      tx_dueDate = map_option db_date (td_dueDate dto), tx_appliedToTransactionId = td_appliedTo dto\<rparr>"

section \<open>Posting\<close>

definition existing_by_key :: "string option \<Rightarrow> db \<Rightarrow> txn option" where
  "existing_by_key key db = (if truthy key then find_row tx_idempotencyKey key (txns db) else None)"

definition dto_account_ids :: "create_txn_dto \<Rightarrow> id list" where
  "dto_account_ids dto = js_set (map ed_accountId (td_entries dto))"

text \<open>What \<open>post\<close> does once the key turned out to be new.\<close>

definition post_new :: "id_source \<Rightarrow> instant \<Rightarrow> id \<Rightarrow> create_txn_dto \<Rightarrow> id \<Rightarrow> db \<Rightarrow> (db \<times> posting) result" where
  "post_new gen now b dto user db =
     rbind (validateEntryShape (td_entries dto)) (\<lambda>_.
     rbind (requireAccountsBelongToBusiness
       (filter (\<lambda>a. acc_id a \<in> set (dto_account_ids dto)) (accounts db)) (dto_account_ids dto) b) (\<lambda>_.
     rbind (requireLinksBelongToBusiness b dto db) (\<lambda>_.
     case sumEntries (td_entries dto) of (debitTotal, creditTotal) \<Rightarrow>
     rbind (check (debitTotal = creditTotal)
       (BadRequest (''Debits ('' @ to_fixed2 debitTotal @ '') must equal credits ('' @ to_fixed2 creditTotal @ '')''))) (\<lambda>_.
     rbind (insert_posting (txn_row gen now b dto user) (entry_rows gen (td_entries dto)) db) (\<lambda>db.
     rbind (recalculate_all (dto_account_ids dto) db) (\<lambda>db.
     Inr (db, txn_row gen now b dto user, entry_rows gen (td_entries dto))))))))"

text \<open>
  The lookup reads \<open>seen\<close>, the rest runs on \<open>db\<close>: the same state, unless another request commits
  in between.
\<close>

definition post_after :: "db \<Rightarrow> id_source \<Rightarrow> instant \<Rightarrow> id \<Rightarrow> create_txn_dto \<Rightarrow> id \<Rightarrow> db \<Rightarrow> (db \<times> posting) result" where
  "post_after seen gen now b dto user db =
     (case existing_by_key (td_idempotencyKey dto) seen of
        Some existing \<Rightarrow>
          if tx_businessId existing \<noteq> b
          then Inl (Conflict ''This idempotency key was already used in a different workspace'')
          else Inr (db, existing, entries_of db (tx_id existing))
      | None \<Rightarrow> post_new gen now b dto user db)"

definition post :: "id_source \<Rightarrow> instant \<Rightarrow> id \<Rightarrow> create_txn_dto \<Rightarrow> id \<Rightarrow> db \<Rightarrow> (db \<times> posting) result" where
  "post gen now b dto user db = post_after db gen now b dto user db"

text \<open>
  \<open>createTransaction\<close> without a caller's transaction: where the insert hits a unique index and
  the request carries a key, the loser of the race answers by posting again.
\<close>

definition createTransaction ::
  "db \<Rightarrow> id_source \<Rightarrow> id_source \<Rightarrow> instant \<Rightarrow> id \<Rightarrow> create_txn_dto \<Rightarrow> id \<Rightarrow> db \<Rightarrow> (db \<times> posting) result" where
  "createTransaction seen gen gen' now b dto user db =
     (let attempt = post_after seen gen now b dto user db in
      if truthy (td_idempotencyKey dto) \<and> attempt = Inl (DbError ''P2002'')
      then post gen' now b dto user db else attempt)"

section \<open>Voiding\<close>

definition owned_by_goal :: "db \<Rightarrow> id \<Rightarrow> bool" where
  "owned_by_goal db i \<longleftrightarrow> (\<exists>g \<in> set (goal_entries db). ge_transactionId g = Some i)"

definition owned_by_asset :: "db \<Rightarrow> id \<Rightarrow> bool" where
  "owned_by_asset db i \<longleftrightarrow>
     (\<exists>a \<in> set (assets db). as_purchaseTransactionId a = Some i \<or> as_soldTransactionId a = Some i)"

definition requireNotOwnedByAFeature :: "db \<Rightarrow> id \<Rightarrow> unit result" where
  "requireNotOwnedByAFeature db i =
     (if owned_by_goal db i
      then Inl (BadRequest ''This transaction belongs to a savings goal, so it cannot be voided here.'')
      else if owned_by_asset db i
      then Inl (BadRequest ''This transaction is an asset purchase or sale, so it cannot be voided here.'')
      else if 0 < length (filter (\<lambda>a. acc_id a \<in> en_accountId ` set (entries_of db i) \<and>
                acc_accountSubtype a = Some REFERRAL_BONUS_INCOME_SUBTYPE) (accounts db))
      then Inl (BadRequest ''A referral earnings withdrawal cannot be voided.'')
      else Inr ())"

definition mirror_entry :: "id_source \<Rightarrow> nat \<times> entry \<Rightarrow> entry" where
  "mirror_entry gen = (\<lambda>(k, e). \<lparr>en_id = gen (Suc k), en_transactionId = gen 0, en_accountId = en_accountId e,
      en_type = flip_side (en_type e), en_amount = en_amount e, en_categoryId = en_categoryId e, en_note = en_note e\<rparr>)"

definition mirror_rows :: "id_source \<Rightarrow> entry list \<Rightarrow> entry list" where
  "mirror_rows gen es = map (mirror_entry gen) (enumerate 0 es)"

definition reversal_row :: "id_source \<Rightarrow> instant \<Rightarrow> id \<Rightarrow> id \<Rightarrow> txn \<Rightarrow> txn" where
  "reversal_row gen now b user original =
     \<lparr>tx_id = gen 0, tx_businessId = b, tx_type = tx_type original, tx_date = db_date (dhakaDateOnly now),
      tx_referenceNo = tx_referenceNo original,
      tx_description = Some (''Reversal of: '' @
        orelse (tx_description original) (orelse (tx_referenceNo original) (tx_id original))),
      tx_contactId = tx_contactId original, tx_status = POSTED, tx_idempotencyKey = None, tx_createdBy = user,
      tx_createdAt = now, tx_voidedAt = None, tx_voidedReason = None, tx_reversalOfId = Some (tx_id original),
      tx_dueDate = None, tx_appliedToTransactionId = None\<rparr>"

definition claim_void :: "id \<Rightarrow> instant \<Rightarrow> string \<Rightarrow> db \<Rightarrow> db" where
  "claim_void i now reason db = db\<lparr>txns := update_many (\<lambda>t. tx_id t = i \<and> tx_status t = POSTED)
     (\<lambda>t. t\<lparr>tx_status := VOIDED, tx_voidedAt := Some now, tx_voidedReason := Some reason\<rparr>) (txns db)\<rparr>"

text \<open>The part after the checks, on the state the conditional update finds.\<close>

definition void_claimed ::
  "id_source \<Rightarrow> instant \<Rightarrow> id \<Rightarrow> string \<Rightarrow> id \<Rightarrow> txn \<Rightarrow> entry list \<Rightarrow> db \<Rightarrow> (db \<times> posting) result" where
  "void_claimed gen now b reason user original es db =
     rbind (check (filter (\<lambda>t. tx_id t = tx_id original \<and> tx_status t = POSTED) (txns db) \<noteq> [])
       (BadRequest ''This transaction has already been voided'')) (\<lambda>_.
     rbind (insert_posting (reversal_row gen now b user original) (mirror_rows gen es)
       (claim_void (tx_id original) now reason db)) (\<lambda>db.
     rbind (recalculate_all (js_set (map en_accountId es)) db) (\<lambda>db.
     Inr (db, reversal_row gen now b user original, mirror_rows gen es))))"

definition voidTransaction ::
  "id_source \<Rightarrow> instant \<Rightarrow> id \<Rightarrow> id \<Rightarrow> string \<Rightarrow> id \<Rightarrow> db \<Rightarrow> (db \<times> posting) result" where
  "voidTransaction gen now b i reason user db =
     rbind (require_row tx_id tx_businessId (NotFound ''Transaction not found'') b i (txns db)) (\<lambda>original.
     rbind (check (\<not> truthy (tx_reversalOfId original))
       (BadRequest ''This is the reversal of a voided transaction and cannot be voided itself'')) (\<lambda>_.
     rbind (check (tx_status original \<noteq> VOIDED) (BadRequest ''This transaction has already been voided'')) (\<lambda>_.
     rbind (requireNotOwnedByAFeature db i) (\<lambda>_.
     void_claimed gen now b reason user original (entries_of db i) db))))"

section \<open>Reading transactions\<close>

definition entry_subtype :: "db \<Rightarrow> entry \<Rightarrow> string option" where
  "entry_subtype db e = Option.bind (find_row acc_id (en_accountId e) (accounts db)) acc_accountSubtype"

definition owned_ids :: "db \<Rightarrow> id list \<Rightarrow> id option list" where
  "owned_ids db ids =
     map ge_transactionId (filter (\<lambda>g. ge_transactionId g \<in> Some ` set ids) (goal_entries db)) @
     concat (map (\<lambda>a. [as_purchaseTransactionId a, as_soldTransactionId a])
       (filter (\<lambda>a. as_purchaseTransactionId a \<in> Some ` set ids \<or> as_soldTransactionId a \<in> Some ` set ids) (assets db)))"

definition withVoidable :: "db \<Rightarrow> txn list \<Rightarrow> (txn \<times> bool) list" where
  "withVoidable db ts =
     (let owned = owned_ids db (map tx_id ts) in
      map (\<lambda>t. (t, tx_status t = POSTED \<and> \<not> truthy (tx_reversalOfId t) \<and> Some (tx_id t) \<notin> set owned \<and>
        \<not> (\<exists>e \<in> set (entries_of db (tx_id t)). entry_subtype db e = Some REFERRAL_BONUS_INCOME_SUBTYPE))) ts)"

definition getTransaction :: "id \<Rightarrow> id \<Rightarrow> db \<Rightarrow> (txn \<times> bool) result" where
  "getTransaction b i db =
     rbind (require_row tx_id tx_businessId (NotFound ''Transaction not found'') b i (txns db)) (\<lambda>t.
     Inr (hd (withVoidable db [t])))"

record txn_filters =
  tf_dateFrom :: "instant option"
  tf_dateTo :: "instant option"
  tf_type :: "transaction_type option"
  tf_types :: "transaction_type list"
  tf_accountId :: "id option"
  tf_categoryId :: "string option"
  tf_contactId :: "id option"
  tf_contactCategory :: "contact_category option"
  tf_status :: "transaction_status option"
  tf_search :: "string option"
  tf_page :: "nat option"
  tf_limit :: "nat option"

record txn_page =
  tp_data :: "(txn \<times> bool) list"
  tp_page :: nat
  tp_limit :: nat
  tp_total :: nat
  tp_totalPages :: nat

text \<open>
  The \<open>where\<close> of the list. \<open>contains needle column\<close> is the database's case-insensitive match,
  a parameter.
\<close>

definition list_where :: "(string \<Rightarrow> string \<Rightarrow> bool) \<Rightarrow> db \<Rightarrow> id \<Rightarrow> txn_filters \<Rightarrow> txn \<Rightarrow> bool" where
  "list_where contains db b f t \<longleftrightarrow>
     tx_businessId t = b \<and>
     in_range (tf_dateFrom f) (tf_dateTo f) (tx_date t) \<and>
     (case tf_type f of Some ty \<Rightarrow> tx_type t = ty | None \<Rightarrow> tf_types f \<noteq> [] \<longrightarrow> tx_type t \<in> set (tf_types f)) \<and>
     (case tf_status f of None \<Rightarrow> True | Some s \<Rightarrow> tx_status t = s) \<and>
     (truthy (tf_accountId f) \<or> truthy (tf_categoryId f) \<longrightarrow>
        (\<exists>e \<in> set (entries_of db (tx_id t)).
           (truthy (tf_accountId f) \<longrightarrow> Some (en_accountId e) = tf_accountId f) \<and>
           (truthy (tf_categoryId f) \<longrightarrow> en_categoryId e = tf_categoryId f))) \<and>
     (truthy (tf_contactId f) \<longrightarrow> tx_contactId t = tf_contactId f) \<and>
     (case tf_contactCategory f of None \<Rightarrow> True
      | Some c \<Rightarrow> (case Option.bind (tx_contactId t) (\<lambda>i. find_row ct_id i (contacts db)) of
          None \<Rightarrow> False | Some x \<Rightarrow> ct_category x = c)) \<and>
     (truthy (tf_search f) \<longrightarrow>
        (let has = (\<lambda>column. case column of None \<Rightarrow> False | Some s \<Rightarrow> contains (the (tf_search f)) s) in
         has (tx_description t) \<or> has (tx_referenceNo t) \<or>
         (\<exists>e \<in> set (entries_of db (tx_id t)). has (en_note e)) \<or>
         (\<exists>e \<in> set (entries_of db (tx_id t)). has (en_categoryId e))))"

definition newest_first :: "txn \<Rightarrow> int \<times> int" where
  "newest_first t = (- tx_date t, - tx_createdAt t)"

definition listTransactions :: "(string \<Rightarrow> string \<Rightarrow> bool) \<Rightarrow> id \<Rightarrow> txn_filters \<Rightarrow> db \<Rightarrow> txn_page" where
  "listTransactions contains b f db =
     (let page = orelse (tf_page f) 1;
          limit = orelse (tf_limit f) 20;
          data = take limit (drop ((page - 1) * limit) (find_many (list_where contains db b f) newest_first (txns db)));
          total = length (filter (list_where contains db b f) (txns db))
      in \<lparr>tp_data = withVoidable db data, tp_page = page, tp_limit = limit, tp_total = total,
          tp_totalPages = (total + limit - 1) div limit\<rparr>)"

end
