(* ===== verification/Ledger.thy ===== *)
theory Ledger
  imports Transactions
begin

text \<open>
  What the ledger promises, over \<open>Transactions\<close>, \<open>Balance\<close> and \<open>Accounts\<close>: every posting is
  balanced and stays within one workspace, every cached balance is the true one, a voided
  transaction has exactly one reversal and both together weigh nothing. The interface
  \<open>posting_contract\<close> states what the features that post into the ledger rely on.
\<close>

section \<open>What the checks and inserts establish\<close>

lemma refuse_not_positive_eq_Inr: "refuse_not_positive es = Inr () \<longleftrightarrow> (\<forall>e \<in> set es. 0 < ed_amount e)"
  by (induction es) auto

lemma validateEntryShape_eq_Inr [result_simps]:
  "validateEntryShape es = Inr () \<longleftrightarrow> 2 \<le> length es \<and> (\<forall>e \<in> set es. 0 < ed_amount e)"
  by (auto simp: validateEntryShape_def refuse_not_positive_eq_Inr)

lemma find_None_conv: "find P xs = None \<longleftrightarrow> (\<forall>x \<in> set xs. \<not> P x)"
  by (auto simp: find_None_iff)

lemma requireAccountsBelongToBusiness_eq_Inr [result_simps]:
  "requireAccountsBelongToBusiness found ids b = Inr () \<longleftrightarrow>
     length found = length ids \<and> (\<forall>a \<in> set found. acc_businessId a = b)"
proof (cases "find (\<lambda>a. acc_businessId a \<noteq> b) found")
  case (Some a)
  then have "\<exists>a \<in> set found. acc_businessId a \<noteq> b" by (auto simp: find_Some_iff)
  with Some show ?thesis by (auto simp: requireAccountsBelongToBusiness_def)
next
  case None
  then have "\<forall>a \<in> set found. acc_businessId a = b" by (simp add: find_None_conv)
  with None show ?thesis unfolding requireAccountsBelongToBusiness_def by simp
qed

lemma sumEntries_from_eq:
  "sumEntries_from (d, c) es =
    (d + sum_by ed_amount (filter (\<lambda>e. ed_entryType e = DEBIT) es),
     c + sum_by ed_amount (filter (\<lambda>e. ed_entryType e = CREDIT) es))"
  by (induction es arbitrary: d c) (auto simp: entry_type_other)

lemma sumEntries_eq:
  "sumEntries es = (sum_by ed_amount (filter (\<lambda>e. ed_entryType e = DEBIT) es),
     sum_by ed_amount (filter (\<lambda>e. ed_entryType e = CREDIT) es))"
  by (simp add: sumEntries_def sumEntries_from_eq)

text \<open>Every requested account is there and the workspace's own, when ids are unique.\<close>

lemma accounts_exist:
  assumes "keyed acc_id t" and "distinct ids"
    and "length (filter (\<lambda>a. acc_id a \<in> set ids) t) = length ids"
  shows "set ids \<subseteq> acc_id ` set t"
proof -
  have "distinct (map acc_id (filter (\<lambda>a. acc_id a \<in> set ids) t))"
    using keyed_filter [OF assms(1)] by (simp add: keyed_def)
  then have "card (acc_id ` set (filter (\<lambda>a. acc_id a \<in> set ids) t)) = length ids"
    using assms(3) distinct_card [of "map acc_id (filter (\<lambda>a. acc_id a \<in> set ids) t)"] by simp
  moreover have "card (set ids) = length ids" using assms(2) by (rule distinct_card)
  moreover have "acc_id ` set (filter (\<lambda>a. acc_id a \<in> set ids) t) \<subseteq> set ids" by auto
  ultimately have "acc_id ` set (filter (\<lambda>a. acc_id a \<in> set ids) t) = set ids"
    by (intro card_subset_eq) auto
  then show ?thesis by auto
qed

definition with_posting :: "txn \<Rightarrow> entry list \<Rightarrow> db \<Rightarrow> db" where
  "with_posting t es db = db\<lparr>txns := txns db @ [t], entries := entries db @ es\<rparr>"

lemma with_posting_tables [simp]:
  "accounts (with_posting t es db) = accounts db" "contacts (with_posting t es db) = contacts db"
  "txns (with_posting t es db) = txns db @ [t]" "entries (with_posting t es db) = entries db @ es"
  "goals (with_posting t es db) = goals db" "goal_entries (with_posting t es db) = goal_entries db"
  "assets (with_posting t es db) = assets db" "budget_categories (with_posting t es db) = budget_categories db"
  "income_goals (with_posting t es db) = income_goals db"
  by (simp_all add: with_posting_def)

lemma rfold_insert_entry:
  "rfold insert_entry es db = Inr db' \<longleftrightarrow>
     (\<forall>e \<in> set es. fits_money (en_amount e) \<and> en_accountId e \<in> acc_id ` set (accounts db)) \<and>
     distinct (map en_id es) \<and> en_id ` set es \<inter> en_id ` set (entries db) = {} \<and>
     db' = db\<lparr>entries := entries db @ es\<rparr>"
proof (induction es arbitrary: db)
  case (Cons e es)
  have step: "insert_entry e db = Inr mid \<longleftrightarrow> fits_money (en_amount e) \<and> en_accountId e \<in> acc_id ` set (accounts db) \<and>
      en_id e \<notin> en_id ` set (entries db) \<and> mid = db\<lparr>entries := entries db @ [e]\<rparr>" for mid
    unfolding insert_entry_def by (auto simp only: result_simps)
  show ?case by (simp only: rfold.simps rbind_eq_Inr step Cons.IH) auto
qed auto

lemma insert_posting_eq_Inr:
  "insert_posting t es db = Inr db' \<longleftrightarrow>
     (tx_idempotencyKey t = None \<or> tx_idempotencyKey t \<notin> tx_idempotencyKey ` set (txns db)) \<and>
     tx_id t \<notin> tx_id ` set (txns db) \<and>
     (case tx_contactId t of None \<Rightarrow> True | Some c \<Rightarrow> c \<in> ct_id ` set (contacts db)) \<and>
     (\<forall>e \<in> set es. fits_money (en_amount e) \<and> en_accountId e \<in> acc_id ` set (accounts db)) \<and>
     distinct (map en_id es) \<and> en_id ` set es \<inter> en_id ` set (entries db) = {} \<and>
     db' = with_posting t es db"
  unfolding insert_posting_def rbind_eq_Inr check_eq_Inr insert_row_eq_Inr rfold_insert_entry
  by (cases "tx_idempotencyKey t") (auto simp: with_posting_def)

lemma dto_account_ids_props [simp]:
  "distinct (dto_account_ids dto)" "set (dto_account_ids dto) = ed_accountId ` set (td_entries dto)"
  by (simp_all add: dto_account_ids_def)

lemma entry_rows_Nil [simp]: "entry_rows gen [] = []" and mirror_rows_Nil [simp]: "mirror_rows gen [] = []"
  by (simp_all add: entry_rows_def mirror_rows_def)

lemma entry_rows_all: "e \<in> set (entry_rows gen es) \<Longrightarrow> en_transactionId e = gen 0 \<and>
    (\<exists>d \<in> set es. en_accountId e = ed_accountId d \<and> en_type e = ed_entryType d \<and> en_amount e = ed_amount d)"
  by (auto simp: entry_rows_def entry_of_dto_def in_set_enumerate_eq)

lemma mirror_rows_all: "e \<in> set (mirror_rows gen es) \<Longrightarrow> en_transactionId e = gen 0 \<and>
    (\<exists>d \<in> set es. en_accountId e = en_accountId d \<and> en_type e = flip_side (en_type d) \<and> en_amount e = en_amount d)"
  by (auto simp: mirror_rows_def mirror_entry_def in_set_enumerate_eq)

text \<open>What an entry moves, and where: the part of a row its id has no say in.\<close>

definition moves :: "entry \<Rightarrow> id \<times> entry_type \<times> money" where
  "moves e = (en_accountId e, en_type e, en_amount e)"

lemma moves_entry_rows: "map moves (entry_rows gen es) = map (\<lambda>d. (ed_accountId d, ed_entryType d, ed_amount d)) es"
  by (rule nth_equalityI) (simp_all add: entry_rows_def moves_def entry_of_dto_def nth_enumerate_eq)

lemma moves_mirror_rows:
  "map moves (mirror_rows gen es) = map (\<lambda>e. (en_accountId e, flip_side (en_type e), en_amount e)) es"
  by (rule nth_equalityI) (simp_all add: mirror_rows_def moves_def mirror_entry_def nth_enumerate_eq)

lemma sum_by_moves: "sum_by (\<lambda>e. f (moves e)) es = sum_by f (map moves es)"
  by simp

lemma sum_entry_rows: "sum_by (\<lambda>e. f (moves e)) (entry_rows gen es) =
    sum_by (\<lambda>d. f (ed_accountId d, ed_entryType d, ed_amount d)) es"
  by (simp only: sum_by_moves moves_entry_rows sum_by_map)

lemma sum_mirror_rows: "sum_by (\<lambda>e. f (moves e)) (mirror_rows gen es) =
    sum_by (\<lambda>e. f (en_accountId e, flip_side (en_type e), en_amount e)) es"
  by (simp only: sum_by_moves moves_mirror_rows sum_by_map)

lemma side_sum_moves: "side_sum s es = sum_by (\<lambda>e. (\<lambda>(a, ty, m). if ty = s then m else 0) (moves e)) es"
  by (simp add: side_sum_def sum_by_filter moves_def)

lemma side_sum_account_moves: "side_sum s (filter (\<lambda>e. en_accountId e = i) es) =
    sum_by (\<lambda>e. (\<lambda>(a, ty, m). if a = i \<and> ty = s then m else 0) (moves e)) es"
  by (simp add: side_sum_def sum_by_filter moves_def if_if_eq_conj)

lemma flip_side_eq: "flip_side s = t \<longleftrightarrow> s = flip_side t"
  by (cases s; cases t) auto

lemma side_sum_mirror: "side_sum s (mirror_rows gen es) = side_sum (flip_side s) es"
  by (simp only: side_sum_moves sum_mirror_rows) (simp add: moves_def flip_side_eq)

lemma side_sum_mirror_account: "side_sum s (filter (\<lambda>e. en_accountId e = i) (mirror_rows gen es)) =
    side_sum (flip_side s) (filter (\<lambda>e. en_accountId e = i) es)"
  by (simp only: side_sum_account_moves sum_mirror_rows) (simp add: moves_def flip_side_eq)

lemma side_sum_entry_rows: "side_sum s (entry_rows gen es) = sum_by ed_amount (filter (\<lambda>d. ed_entryType d = s) es)"
  by (simp only: side_sum_moves sum_entry_rows) (simp add: sum_by_filter)

section \<open>The invariant of the ledger\<close>

definition ids_drawn :: "id_source \<Rightarrow> bool" where
  "ids_drawn gen \<longleftrightarrow> (\<forall>k. gen k \<noteq> [])"

definition balanced_txn :: "db \<Rightarrow> txn \<Rightarrow> bool" where
  "balanced_txn db t \<longleftrightarrow> side_sum DEBIT (entries_of db (tx_id t)) = side_sum CREDIT (entries_of db (tx_id t))"

definition same_workspace :: "db \<Rightarrow> bool" where
  "same_workspace db \<longleftrightarrow> (\<forall>e \<in> set (entries db). \<forall>t \<in> set (txns db). \<forall>a \<in> set (accounts db).
     en_transactionId e = tx_id t \<longrightarrow> en_accountId e = acc_id a \<longrightarrow> acc_businessId a = tx_businessId t)"

definition ledger_core :: "db \<Rightarrow> bool" where
  "ledger_core db \<longleftrightarrow> keyed acc_id (accounts db) \<and> keyed tx_id (txns db) \<and> keyed en_id (entries db) \<and>
     [] \<notin> tx_id ` set (txns db) \<and> fk_entries db \<and> (\<forall>t \<in> set (txns db). balanced_txn db t) \<and>
     (\<forall>e \<in> set (entries db). 0 < en_amount e) \<and> same_workspace db"

text \<open>A voided transaction has one reversal, its mirror; a reversal reverses a voided original.\<close>

definition reversals :: "db \<Rightarrow> id \<Rightarrow> txn list" where
  "reversals db i = filter (\<lambda>r. tx_reversalOfId r = Some i) (txns db)"

definition mirrors :: "db \<Rightarrow> id \<Rightarrow> id \<Rightarrow> bool" where
  "mirrors db r i \<longleftrightarrow> map moves (entries_of db r) =
     map (\<lambda>e. (en_accountId e, flip_side (en_type e), en_amount e)) (entries_of db i)"

definition reversals_ok :: "db \<Rightarrow> bool" where
  "reversals_ok db \<longleftrightarrow>
     (\<forall>r \<in> set (txns db). \<forall>i. tx_reversalOfId r = Some i \<longrightarrow> tx_status r = POSTED \<and> mirrors db (tx_id r) i \<and>
        (\<exists>t \<in> set (txns db). tx_id t = i \<and> tx_status t = VOIDED \<and> tx_reversalOfId t = None)) \<and>
     (\<forall>t \<in> set (txns db). tx_status t = VOIDED \<longrightarrow> length (reversals db (tx_id t)) = 1)"

definition books_ok :: "db \<Rightarrow> bool" where
  "books_ok db \<longleftrightarrow> ledger_core db \<and> reversals_ok db \<and> voids_net db \<and> balance_cached db"

lemma ledger_coreD:
  assumes "ledger_core db"
  shows "keyed acc_id (accounts db)" "keyed tx_id (txns db)" "keyed en_id (entries db)"
    "[] \<notin> tx_id ` set (txns db)" "fk_entries db" "t \<in> set (txns db) \<Longrightarrow> balanced_txn db t"
    "e \<in> set (entries db) \<Longrightarrow> 0 < en_amount e" "same_workspace db"
  using assms by (auto simp: ledger_core_def)

lemma books_okD:
  assumes "books_ok db"
  shows "ledger_core db" "reversals_ok db" "voids_net db" "balance_cached db" "keyed acc_id (accounts db)" "fk_entries db"
  using assms by (auto simp: books_ok_def ledger_core_def)

subsection \<open>Recalculated balances do not touch it\<close>

lemma only_balances_set_image:
  assumes "only_balances db db'" and "\<And>a. g (without_balance a) = g a"
  shows "g ` set (accounts db') = g ` set (accounts db)"
proof -
  have "map g (accounts db') = map g (accounts db)" by (rule only_balances_proj [OF assms(1)]) (rule assms(2))
  then show ?thesis by (metis set_map)
qed

lemma only_balances_id_business:
  assumes "only_balances db db'" and "a' \<in> set (accounts db')"
  shows "\<exists>a \<in> set (accounts db). acc_id a = acc_id a' \<and> acc_businessId a = acc_businessId a'"
proof -
  have "(\<lambda>a. (acc_id a, acc_businessId a)) ` set (accounts db') = (\<lambda>a. (acc_id a, acc_businessId a)) ` set (accounts db)"
    by (rule only_balances_set_image [OF assms(1)]) (simp add: without_balance_def)
  moreover have "(acc_id a', acc_businessId a') \<in> (\<lambda>a. (acc_id a, acc_businessId a)) ` set (accounts db')"
    using assms(2) by (rule rev_image_eqI) simp
  ultimately have "(acc_id a', acc_businessId a') \<in> (\<lambda>a. (acc_id a, acc_businessId a)) ` set (accounts db)" by simp
  then show ?thesis by auto
qed

lemma only_balances_ids: "only_balances db db' \<Longrightarrow> acc_id ` set (accounts db') = acc_id ` set (accounts db)"
  by (erule only_balances_set_image) (simp add: without_balance_def)

lemma only_balances_reads:
  assumes "only_balances db db'"
  shows "entries_of db' = entries_of db" "txn_of db' = txn_of db" "on_txn db' = on_txn db"
    "account_entries db' = account_entries db" "dead_entries db' = dead_entries db" "true_balance db' = true_balance db"
    "reversals db' = reversals db" "mirrors db' = mirrors db"
proof -
  note t = only_balances_tables [OF assms]
  show ent: "entries_of db' = entries_of db" by (rule ext) (simp add: entries_of_def t)
  show txn: "txn_of db' = txn_of db" by (rule ext) (simp add: txn_of_def t)
  show acc: "account_entries db' = account_entries db" by (rule ext) (simp add: account_entries_def t)
  show "reversals db' = reversals db" by (rule ext) (simp add: reversals_def t)
  show onn: "on_txn db' = on_txn db" by (intro ext) (simp add: on_txn_def txn)
  show "true_balance db' = true_balance db" by (rule ext) (simp add: true_balance_def acc)
  show "mirrors db' = mirrors db" by (intro ext) (simp add: mirrors_def ent)
  show "dead_entries db' = dead_entries db" by (rule ext) (simp add: dead_entries_def acc onn)
qed

lemma only_balances_keeps:
  assumes "only_balances db db'"
  shows "ledger_core db \<Longrightarrow> ledger_core db'" "reversals_ok db \<Longrightarrow> reversals_ok db'" "voids_net db \<Longrightarrow> voids_net db'"
proof -
  note r = only_balances_reads [OF assms] only_balances_tables [OF assms] only_balances_ids [OF assms]
    keyed_only_balances [OF assms]
  show "reversals_ok db \<Longrightarrow> reversals_ok db'" by (simp add: reversals_ok_def r)
  show "voids_net db'" if "voids_net db"
  proof -
    have "\<forall>i \<in> acc_id ` set (accounts db). side_sum DEBIT (dead_entries db i) = side_sum CREDIT (dead_entries db i)"
      using that by (simp add: voids_net_def)
    then have "\<forall>i \<in> acc_id ` set (accounts db'). side_sum DEBIT (dead_entries db' i) = side_sum CREDIT (dead_entries db' i)"
      by (simp only: r)
    then show ?thesis by (simp add: voids_net_def)
  qed
  show "ledger_core db'" if core: "ledger_core db"
  proof -
    have "same_workspace db'"
      unfolding same_workspace_def
    proof (intro ballI impI)
      fix e t a assume a: "e \<in> set (entries db')" "t \<in> set (txns db')" "a \<in> set (accounts db')"
        "en_transactionId e = tx_id t" "en_accountId e = acc_id a"
      from only_balances_id_business [OF assms a(3)] obtain b where
        "b \<in> set (accounts db)" "acc_id b = acc_id a" "acc_businessId b = acc_businessId a" by blast
      with a ledger_coreD(8) [OF core] show "acc_businessId a = tx_businessId t"
        by (metis r(9,10) same_workspace_def)
    qed
    with core show ?thesis by (simp add: ledger_core_def fk_entries_def balanced_txn_def r)
  qed
qed

subsection \<open>A new transaction\<close>

text \<open>The rows of a new transaction are its own, whatever else is in the tables.\<close>

definition posting_fits :: "db \<Rightarrow> txn \<Rightarrow> entry list \<Rightarrow> bool" where
  "posting_fits db t es \<longleftrightarrow> tx_id t \<notin> tx_id ` set (txns db) \<and> tx_id t \<noteq> [] \<and>
     (\<forall>e \<in> set es. en_transactionId e = tx_id t \<and> 0 < en_amount e \<and>
        (\<exists>a \<in> set (accounts db). acc_id a = en_accountId e \<and> acc_businessId a = tx_businessId t)) \<and>
     distinct (map en_id es) \<and> en_id ` set es \<inter> en_id ` set (entries db) = {} \<and>
     side_sum DEBIT es = side_sum CREDIT es"

lemma old_entry_txn:
  assumes "fk_entries db" and "e \<in> set (entries db)"
  shows "en_transactionId e \<in> tx_id ` set (txns db)"
proof -
  from assms obtain t where "txn_of db e = Some t" by (auto simp: fk_entries_def)
  then have "t \<in> set (txns db) \<and> tx_id t = en_transactionId e"
    unfolding txn_of_def by (rule find_row_Some)
  then show ?thesis by force
qed

lemma entries_of_with_posting:
  assumes "\<And>e. e \<in> set es \<Longrightarrow> en_transactionId e = tx_id t"
  shows "entries_of (with_posting t es db) i = entries_of db i @ (if i = tx_id t then es else [])"
proof -
  have "filter (\<lambda>e. en_transactionId e = i) es = (if i = tx_id t then es else [])"
    using assms by (induction es) auto
  then show ?thesis by (simp add: entries_of_def)
qed

lemma entries_of_fresh:
  assumes "fk_entries db" and "i \<notin> tx_id ` set (txns db)"
  shows "entries_of db i = []"
  using old_entry_txn [OF assms(1)] assms(2) by (auto simp: entries_of_def filter_empty_conv)

lemma txn_of_with_posting:
  assumes "fk_entries db" and "posting_fits db t es"
  shows "e \<in> set (entries db) \<Longrightarrow> txn_of (with_posting t es db) e = txn_of db e"
    "e \<in> set es \<Longrightarrow> txn_of (with_posting t es db) e = Some t"
proof -
  show "txn_of (with_posting t es db) e = txn_of db e" if "e \<in> set (entries db)"
  proof -
    from assms(1) that obtain x where "txn_of db e = Some x" by (auto simp: fk_entries_def)
    then show ?thesis by (simp add: txn_of_def find_row_append)
  qed
  show "txn_of (with_posting t es db) e = Some t" if "e \<in> set es"
  proof -
    have "en_transactionId e = tx_id t" "find_row tx_id (tx_id t) (txns db) = None"
      using assms(2) that by (auto simp: posting_fits_def find_row_None)
    then show ?thesis by (simp add: txn_of_def find_row_append)
  qed
qed

lemma ledger_core_with_posting:
  assumes core: "ledger_core db" and fits: "posting_fits db t es"
  shows "ledger_core (with_posting t es db)"
proof -
  note c = ledger_coreD [OF core]
  have tid: "\<And>e. e \<in> set es \<Longrightarrow> en_transactionId e = tx_id t" using fits by (simp add: posting_fits_def)
  have fk: "fk_entries (with_posting t es db)"
    unfolding fk_entries_def
  proof
    fix e assume e: "e \<in> set (entries (with_posting t es db))"
    show "txn_of (with_posting t es db) e \<noteq> None \<and> en_accountId e \<in> acc_id ` set (accounts (with_posting t es db))"
    proof (cases "e \<in> set (entries db)")
      case True
      then show ?thesis using c(5) txn_of_with_posting(1) [OF c(5) fits True] by (simp add: fk_entries_def)
    next
      case False
      with e have e: "e \<in> set es" by simp
      then have "en_accountId e \<in> acc_id ` set (accounts db)" using fits by (force simp: posting_fits_def)
      then show ?thesis using txn_of_with_posting(2) [OF c(5) fits e] by simp
    qed
  qed
  have bal: "balanced_txn (with_posting t es db) u" if "u \<in> set (txns (with_posting t es db))" for u
  proof (cases "tx_id u = tx_id t")
    case True
    have "entries_of db (tx_id t) = []" using entries_of_fresh [OF c(5)] fits by (simp add: posting_fits_def)
    with True fits show ?thesis by (simp add: balanced_txn_def entries_of_with_posting [OF tid] posting_fits_def)
  next
    case False
    with that have "u \<in> set (txns db)" by auto
    with c(6) False show ?thesis by (simp add: balanced_txn_def entries_of_with_posting [OF tid])
  qed
  have ws: "same_workspace (with_posting t es db)"
    unfolding same_workspace_def with_posting_tables
  proof (intro ballI impI)
    fix e u a assume e: "e \<in> set (entries db @ es)" and u: "u \<in> set (txns db @ [t])" and a: "a \<in> set (accounts db)"
      and eu: "en_transactionId e = tx_id u" and ea: "en_accountId e = acc_id a"
    show "acc_businessId a = tx_businessId u"
    proof (cases "e \<in> set es")
      case True
      then have "tx_id u = tx_id t" using tid eu by simp
      moreover have "tx_id t \<notin> tx_id ` set (txns db)" using fits by (simp add: posting_fits_def)
      ultimately have "u \<notin> set (txns db)" by (metis imageI)
      with u have ut: "u = t" by simp
      from True fits obtain b where "b \<in> set (accounts db)" "acc_id b = acc_id a" "acc_businessId b = tx_businessId t"
        unfolding posting_fits_def ea [symmetric] by blast
      moreover from this have "b = a" using c(1) a find_row_mem by (metis option.inject)
      ultimately show ?thesis using ut by simp
    next
      case False
      with e have e: "e \<in> set (entries db)" by simp
      then have "tx_id u \<in> tx_id ` set (txns db)" using old_entry_txn [OF c(5) e] eu by simp
      moreover have "tx_id t \<notin> tx_id ` set (txns db)" using fits by (simp add: posting_fits_def)
      ultimately have "u \<noteq> t" by metis
      with u have "u \<in> set (txns db)" by simp
      with e a eu ea c(8) show ?thesis unfolding same_workspace_def by blast
    qed
  qed
  show ?thesis
    unfolding ledger_core_def
  proof (intro conjI ballI)
    show "keyed en_id (entries (with_posting t es db))"
      using c(3) fits by (auto simp: posting_fits_def keyed_def)
    show "keyed tx_id (txns (with_posting t es db))" "[] \<notin> tx_id ` set (txns (with_posting t es db))"
      using c(2,4) fits by (auto simp: posting_fits_def)
    show "0 < en_amount e" if "e \<in> set (entries (with_posting t es db))" for e
      using that c(7) fits by (auto simp: posting_fits_def)
  qed (use c(1) fk bal ws in simp_all)
qed

lemma true_balance_with_posting:
  "true_balance (with_posting t es db) a = true_balance db a +
     sum_by (entry_delta (isDebitPositive (acc_accountType a))) (filter (\<lambda>e. en_accountId e = acc_id a) es)"
  by (simp add: true_balance_def account_entries_def)

lemma cached_with_posting:
  assumes "cached_except S db" and "en_accountId ` set es \<subseteq> S"
  shows "cached_except S (with_posting t es db)"
proof -
  have "filter (\<lambda>e. en_accountId e = acc_id a) es = []" if "acc_id a \<notin> S" for a :: account
    using assms(2) that by (auto simp: filter_empty_conv)
  then have "true_balance (with_posting t es db) a = true_balance db a" if "acc_id a \<notin> S" for a
    using that by (simp only: true_balance_with_posting) simp
  with assms(1) show ?thesis by (simp add: cached_except_def)
qed

text \<open>Recalculating the accounts a posting touched makes every cached balance true again.\<close>

lemma recalculate_after_posting:
  assumes "recalculate_all ids (with_posting t es db) = Inr db'" and "keyed acc_id (accounts db)"
    and "balance_cached db" and "en_accountId ` set es \<subseteq> set ids"
  shows "balance_cached db'" "only_balances (with_posting t es db) db'"
proof -
  have "cached_except (set ids) db" using assms(3) by (simp add: cached_except_def balance_cached_def)
  then have "cached_except (set ids) (with_posting t es db)" by (rule cached_with_posting [OF _ assms(4)])
  from recalculate_all_ok [OF assms(1) _ this] assms(2)
  show "balance_cached db'" "only_balances (with_posting t es db) db'" by simp_all
qed

lemma dead_entries_with_live_posting:
  assumes "fk_entries db" and "posting_fits db t es" and "live_txn t"
  shows "dead_entries (with_posting t es db) i = dead_entries db i"
proof -
  note tx = txn_of_with_posting [OF assms(1,2)]
  have "filter (\<lambda>e. \<not> on_txn (with_posting t es db) live_txn e) (filter (\<lambda>e. en_accountId e = i) es) = []"
    using assms(3) by (auto simp: filter_empty_conv on_txn_def tx(2))
  moreover have "filter (\<lambda>e. \<not> on_txn (with_posting t es db) live_txn e) (filter (\<lambda>e. en_accountId e = i) (entries db)) =
      filter (\<lambda>e. \<not> on_txn db live_txn e) (filter (\<lambda>e. en_accountId e = i) (entries db))"
    by (rule filter_cong) (auto simp: on_txn_def tx(1))
  ultimately show ?thesis by (simp add: dead_entries_def account_entries_def del: filter_filter)
qed

lemma reversals_ok_with_live_posting:
  assumes ok: "reversals_ok db" and fk: "fk_entries db" and fits: "posting_fits db t es" and live: "live_txn t"
  shows "reversals_ok (with_posting t es db)"
proof -
  have tid: "\<And>e. e \<in> set es \<Longrightarrow> en_transactionId e = tx_id t" using fits by (simp add: posting_fits_def)
  have old: "entries_of (with_posting t es db) i = entries_of db i" if "i \<in> tx_id ` set (txns db)" for i
  proof -
    have "tx_id t \<notin> tx_id ` set (txns db)" using fits by (simp add: posting_fits_def)
    with that have "i \<noteq> tx_id t" by blast
    then show ?thesis by (simp add: entries_of_with_posting [OF tid])
  qed
  have rev: "reversals (with_posting t es db) i = reversals db i" for i
    using live by (simp add: reversals_def live_txn_def)
  have orig: "\<exists>u \<in> set (txns db). tx_id u = i \<and> tx_status u = VOIDED \<and> tx_reversalOfId u = None"
    "tx_status r = POSTED" "mirrors db (tx_id r) i"
    if "r \<in> set (txns db)" "tx_reversalOfId r = Some i" for r i
    using ok that unfolding reversals_ok_def by blast+
  show ?thesis
    unfolding reversals_ok_def
  proof (intro conjI ballI allI impI)
    fix r i assume "r \<in> set (txns (with_posting t es db))" and r: "tx_reversalOfId r = Some i"
    then have mem: "r \<in> set (txns db)" using live by (auto simp: live_txn_def)
    note o = orig [OF mem r]
    then have "i \<in> tx_id ` set (txns db)" by auto
    with o(3) mem show "mirrors (with_posting t es db) (tx_id r) i" by (simp add: mirrors_def old)
    show "tx_status r = POSTED" by (rule o(2))
    show "\<exists>u \<in> set (txns (with_posting t es db)). tx_id u = i \<and> tx_status u = VOIDED \<and> tx_reversalOfId u = None"
      using o(1) by auto
  next
    fix u assume "u \<in> set (txns (with_posting t es db))" and v: "tx_status u = VOIDED"
    then have "u \<in> set (txns db)" using live by (auto simp: live_txn_def)
    then show "length (reversals (with_posting t es db) (tx_id u)) = 1"
      using ok v by (simp add: rev reversals_ok_def)
  qed
qed

lemma books_ok_posted:
  assumes books: "books_ok db" and fits: "posting_fits db t es" and live: "live_txn t"
    and rec: "recalculate_all ids (with_posting t es db) = Inr db'" and ids: "en_accountId ` set es \<subseteq> set ids"
  shows "books_ok db'" "only_balances (with_posting t es db) db'"
proof -
  note b = books_okD [OF books]
  note r = recalculate_after_posting [OF rec b(5,4) ids]
  note k = only_balances_keeps [OF r(2)]
  show "only_balances (with_posting t es db) db'" by (rule r(2))
  have "voids_net (with_posting t es db)"
    using b(3) by (simp add: voids_net_def dead_entries_with_live_posting [OF b(6) fits live])
  with k ledger_core_with_posting [OF b(1) fits] reversals_ok_with_live_posting [OF b(2,6) fits live] r(1)
  show "books_ok db'" by (simp add: books_ok_def)
qed

subsection \<open>What a successful post did\<close>

lemma txn_row_sel [simp]:
  "tx_id (txn_row gen now b dto user) = gen 0" "tx_businessId (txn_row gen now b dto user) = b"
  "tx_status (txn_row gen now b dto user) = POSTED" "tx_reversalOfId (txn_row gen now b dto user) = None"
  "tx_type (txn_row gen now b dto user) = td_type dto" "tx_idempotencyKey (txn_row gen now b dto user) = td_idempotencyKey dto"
  "tx_contactId (txn_row gen now b dto user) = td_contactId dto" "tx_date (txn_row gen now b dto user) = db_date (td_date dto)"
  "tx_appliedToTransactionId (txn_row gen now b dto user) = td_appliedTo dto"
  "tx_dueDate (txn_row gen now b dto user) = map_option db_date (td_dueDate dto)"
  by (simp_all add: txn_row_def)

lemma live_txn_row [simp]: "live_txn (txn_row gen now b dto user)"
  by (simp add: live_txn_def)

lemma entry_rows_accounts [simp]: "en_accountId ` set (entry_rows gen es) = ed_accountId ` set es"
proof -
  have "map en_accountId (entry_rows gen es) = map ed_accountId es"
    by (rule nth_equalityI) (simp_all add: entry_rows_def entry_of_dto_def nth_enumerate_eq)
  then show ?thesis by (metis set_map)
qed

lemma post_newE:
  assumes "post_new gen now b dto user db = Inr (db', p)" and "keyed acc_id (accounts db)" and "ids_drawn gen"
  obtains "p = (txn_row gen now b dto user, entry_rows gen (td_entries dto))"
    "posting_fits db (txn_row gen now b dto user) (entry_rows gen (td_entries dto))"
    "recalculate_all (dto_account_ids dto) (with_posting (txn_row gen now b dto user) (entry_rows gen (td_entries dto)) db) = Inr db'"
    "requireLinksBelongToBusiness b dto db = Inr ()" "validateEntryShape (td_entries dto) = Inr ()"
    "td_idempotencyKey dto = None \<or> td_idempotencyKey dto \<notin> tx_idempotencyKey ` set (txns db)"
proof -
  let ?t = "txn_row gen now b dto user" and ?es = "entry_rows gen (td_entries dto)"
  from assms(1) have shape: "validateEntryShape (td_entries dto) = Inr ()"
    and accs: "requireAccountsBelongToBusiness
       (filter (\<lambda>a. acc_id a \<in> set (dto_account_ids dto)) (accounts db)) (dto_account_ids dto) b = Inr ()"
    and links: "requireLinksBelongToBusiness b dto db = Inr ()"
    and even: "side_sum DEBIT ?es = side_sum CREDIT ?es"
    and ins: "insert_posting ?t ?es db = Inr (with_posting ?t ?es db)"
    and rec: "recalculate_all (dto_account_ids dto) (with_posting ?t ?es db) = Inr db'" and p: "p = (?t, ?es)"
    unfolding post_new_def sumEntries_eq prod.case rbind_eq_Inr check_eq_Inr
    by (auto simp: side_sum_entry_rows insert_posting_eq_Inr)
  from ins have fresh: "tx_id ?t \<notin> tx_id ` set (txns db)" "distinct (map en_id ?es)" "en_id ` set ?es \<inter> en_id ` set (entries db) = {}"
    and key: "td_idempotencyKey dto = None \<or> td_idempotencyKey dto \<notin> tx_idempotencyKey ` set (txns db)"
    by (auto simp: insert_posting_eq_Inr)
  have "en_transactionId e = gen 0 \<and> 0 < en_amount e \<and> (\<exists>a \<in> set (accounts db). acc_id a = en_accountId e \<and> acc_businessId a = b)"
    if "e \<in> set ?es" for e
  proof -
    from entry_rows_all [OF that] obtain d where d: "d \<in> set (td_entries dto)" "en_accountId e = ed_accountId d"
      "en_amount e = ed_amount d" and tid: "en_transactionId e = gen 0" by blast
    have "set (dto_account_ids dto) \<subseteq> acc_id ` set (accounts db)"
      using accs by (intro accounts_exist [OF assms(2)]) (auto simp: result_simps)
    then obtain a where a: "a \<in> set (accounts db)" "acc_id a = ed_accountId d" using d(1) by force
    then have "acc_businessId a = b" using accs d(1) by (auto simp: requireAccountsBelongToBusiness_eq_Inr)
    with a d tid shape show ?thesis by (auto simp: validateEntryShape_eq_Inr)
  qed
  with fresh even assms(3) have "posting_fits db ?t ?es" by (simp add: posting_fits_def ids_drawn_def)
  from that [OF p this rec links shape key] show thesis .
qed

subsection \<open>What a successful void did\<close>

definition mark_voided :: "instant \<Rightarrow> string \<Rightarrow> txn \<Rightarrow> txn" where
  "mark_voided now reason t = t\<lparr>tx_status := VOIDED, tx_voidedAt := Some now, tx_voidedReason := Some reason\<rparr>"

lemma mark_voided_sel [simp]:
  "tx_id (mark_voided now reason t) = tx_id t" "tx_businessId (mark_voided now reason t) = tx_businessId t"
  "tx_status (mark_voided now reason t) = VOIDED" "tx_reversalOfId (mark_voided now reason t) = tx_reversalOfId t"
  "\<not> live_txn (mark_voided now reason t)" "tx_idempotencyKey (mark_voided now reason t) = tx_idempotencyKey t"
  by (simp_all add: mark_voided_def live_txn_def)

lemma reversal_row_sel [simp]:
  "tx_id (reversal_row gen now b user t) = gen 0" "tx_businessId (reversal_row gen now b user t) = b"
  "tx_status (reversal_row gen now b user t) = POSTED" "tx_reversalOfId (reversal_row gen now b user t) = Some (tx_id t)"
  "\<not> live_txn (reversal_row gen now b user t)"
  by (simp_all add: reversal_row_def live_txn_def)

lemma claim_void_eq:
  assumes "keyed tx_id (txns db)" and "find_row tx_id i (txns db) = Some t" and "tx_status t = POSTED"
  shows "claim_void i now reason db = db\<lparr>txns := map_row tx_id i (mark_voided now reason) (txns db)\<rparr>"
proof -
  have "tx_status u = POSTED" if "u \<in> set (txns db)" "tx_id u = i" for u
    using find_row_mem [OF assms(1) that(1)] that(2) assms(2,3) by (metis option.inject)
  then have "map (\<lambda>u. if tx_id u = i \<and> tx_status u = POSTED then mark_voided now reason u else u) (txns db) =
      map (\<lambda>u. if tx_id u = i then mark_voided now reason u else u) (txns db)" by auto
  then show ?thesis unfolding claim_void_def update_many_def map_row_def mark_voided_def [symmetric] by simp
qed

definition claimed :: "id \<Rightarrow> instant \<Rightarrow> string \<Rightarrow> db \<Rightarrow> db" where
  "claimed i now reason db = db\<lparr>txns := map_row tx_id i (mark_voided now reason) (txns db)\<rparr>"

lemma claimed_tables [simp]:
  "accounts (claimed i now reason db) = accounts db" "entries (claimed i now reason db) = entries db"
  "contacts (claimed i now reason db) = contacts db" "goal_entries (claimed i now reason db) = goal_entries db"
  "assets (claimed i now reason db) = assets db" "entries_of (claimed i now reason db) = entries_of db"
  "true_balance (claimed i now reason db) = true_balance db" "balance_cached (claimed i now reason db) = balance_cached db"
  by (simp_all add: claimed_def entries_of_def true_balance_def account_entries_def balance_cached_def fun_eq_iff)

lemma claimed_ids [simp]: "tx_id ` set (txns (claimed i now reason db)) = tx_id ` set (txns db)"
proof -
  have "map tx_id (txns (claimed i now reason db)) = map tx_id (txns db)" by (simp add: claimed_def map_row_proj)
  then show ?thesis by (metis set_map)
qed

lemma txn_of_claimed:
  "txn_of (claimed i now reason db) e =
     (if en_transactionId e = i then map_option (mark_voided now reason) (txn_of db e) else txn_of db e)"
  by (simp add: txn_of_def claimed_def find_row_map_row)

lemma claimed_mem: "u \<in> set (txns (claimed i now reason db)) \<longleftrightarrow>
    (\<exists>t \<in> set (txns db). u = (if tx_id t = i then mark_voided now reason t else t))"
proof -
  have "set (txns (claimed i now reason db)) = (\<lambda>t. if tx_id t = i then mark_voided now reason t else t) ` set (txns db)"
    by (simp only: set_map_row [symmetric]) (simp add: claimed_def)
  then show ?thesis by (simp only: image_iff)
qed

lemma ledger_core_claimed: "ledger_core db \<Longrightarrow> ledger_core (claimed i now reason db)"
proof -
  assume core: "ledger_core db"
  note c = ledger_coreD [OF core]
  have same: "\<exists>t \<in> set (txns db). tx_id t = tx_id u \<and> tx_businessId t = tx_businessId u"
    if "u \<in> set (txns (claimed i now reason db))" for u
    using that unfolding claimed_mem by (auto split: if_splits)
  have "same_workspace (claimed i now reason db)"
    unfolding same_workspace_def
  proof (intro ballI impI)
    fix e u a assume e: "e \<in> set (entries (claimed i now reason db))" and u: "u \<in> set (txns (claimed i now reason db))"
      and a: "a \<in> set (accounts (claimed i now reason db))" "en_transactionId e = tx_id u" "en_accountId e = acc_id a"
    from same [OF u] obtain t where "t \<in> set (txns db)" "tx_id t = tx_id u" "tx_businessId t = tx_businessId u" by blast
    with e a c(8) show "acc_businessId a = tx_businessId u" unfolding same_workspace_def by (metis claimed_tables(1,2))
  qed
  moreover have "balanced_txn (claimed i now reason db) u" if "u \<in> set (txns (claimed i now reason db))" for u
  proof -
    from same [OF that] obtain t where t: "t \<in> set (txns db)" "tx_id t = tx_id u" by blast
    from c(6) [OF t(1)] show ?thesis by (simp add: balanced_txn_def t(2))
  qed
  moreover have "fk_entries (claimed i now reason db)"
    using c(5) by (auto simp: fk_entries_def txn_of_claimed)
  moreover have "keyed tx_id (txns (claimed i now reason db))"
    using c(2) by (simp add: claimed_def keyed_map_row)
  ultimately show ?thesis using core by (simp add: ledger_core_def)
qed

lemma mirror_rows_accounts [simp]: "en_accountId ` set (mirror_rows gen es) = en_accountId ` set es"
proof -
  have "map en_accountId (mirror_rows gen es) = map en_accountId es"
    by (rule nth_equalityI) (simp_all add: mirror_rows_def mirror_entry_def nth_enumerate_eq)
  then show ?thesis by (metis set_map)
qed

lemma entry_account:
  assumes "ledger_core db" and "t \<in> set (txns db)" and "e \<in> set (entries_of db (tx_id t))"
  shows "\<exists>a \<in> set (accounts db). acc_id a = en_accountId e \<and> acc_businessId a = tx_businessId t"
proof -
  note c = ledger_coreD [OF assms(1)]
  from assms(3) have e: "e \<in> set (entries db)" "en_transactionId e = tx_id t" by (auto simp: entries_of_def)
  then obtain a where a: "a \<in> set (accounts db)" "acc_id a = en_accountId e" using c(5) by (force simp: fk_entries_def)
  moreover have "acc_businessId a = tx_businessId t" using c(8) e a assms(2) unfolding same_workspace_def by metis
  ultimately show ?thesis by blast
qed

lemma voidTransactionE:
  assumes "voidTransaction gen now b i reason user db = Inr (db', p)" and "ledger_core db" and "reversals_ok db" and "ids_drawn gen"
  obtains t where "find_row tx_id i (txns db) = Some t" "tx_businessId t = b" "live_txn t"
    "requireNotOwnedByAFeature db i = Inr ()"
    "p = (reversal_row gen now b user t, mirror_rows gen (entries_of db i))"
    "posting_fits (claimed i now reason db) (reversal_row gen now b user t) (mirror_rows gen (entries_of db i))"
    "recalculate_all (js_set (map en_accountId (entries_of db i)))
      (with_posting (reversal_row gen now b user t) (mirror_rows gen (entries_of db i)) (claimed i now reason db)) = Inr db'"
proof -
  note c = ledger_coreD [OF assms(2)]
  from assms(1) obtain t where t: "find_row tx_id i (txns db) = Some t" "tx_businessId t = b"
    and nr: "\<not> truthy (tx_reversalOfId t)" and st: "tx_status t \<noteq> VOIDED"
    and own: "requireNotOwnedByAFeature db i = Inr ()"
    and cl: "void_claimed gen now b reason user t (entries_of db i) db = Inr (db', p)"
    unfolding voidTransaction_def by (auto simp: result_simps)
  have id: "t \<in> set (txns db)" "tx_id t = i" using t(1) by (auto dest: find_row_Some)
  have posted: "tx_status t = POSTED" using st by (cases "tx_status t") auto
  have live: "live_txn t"
  proof (cases "tx_reversalOfId t")
    case (Some j)
    then have "j \<in> tx_id ` set (txns db)" using assms(3) id(1) unfolding reversals_ok_def by blast
    then have "j \<noteq> []" using c(4) by blast
    with Some nr show ?thesis by simp
  qed (simp add: live_txn_def posted)
  have "claim_void i now reason db = claimed i now reason db"
    using claim_void_eq [OF c(2) t(1) posted] by (simp add: claimed_def)
  with cl id(2) have ins: "insert_posting (reversal_row gen now b user t) (mirror_rows gen (entries_of db i)) (claimed i now reason db) =
        Inr (with_posting (reversal_row gen now b user t) (mirror_rows gen (entries_of db i)) (claimed i now reason db))"
    and rec: "recalculate_all (js_set (map en_accountId (entries_of db i)))
      (with_posting (reversal_row gen now b user t) (mirror_rows gen (entries_of db i)) (claimed i now reason db)) = Inr db'"
    and p: "p = (reversal_row gen now b user t, mirror_rows gen (entries_of db i))"
    unfolding void_claimed_def rbind_eq_Inr check_eq_Inr by (auto simp: insert_posting_eq_Inr)
  have "en_transactionId e = gen 0 \<and> 0 < en_amount e \<and> (\<exists>a \<in> set (accounts db). acc_id a = en_accountId e \<and> acc_businessId a = b)"
    if "e \<in> set (mirror_rows gen (entries_of db i))" for e
  proof -
    from mirror_rows_all [OF that] obtain d where d: "d \<in> set (entries_of db i)" "en_accountId e = en_accountId d"
      "en_amount e = en_amount d" "en_transactionId e = gen 0" by blast
    from entry_account [OF assms(2) id(1), of d] d(1) id(2) t(2) obtain a where
      "a \<in> set (accounts db)" "acc_id a = en_accountId d" "acc_businessId a = b" by auto
    moreover have "0 < en_amount d" using d(1) c(7) by (simp add: entries_of_def)
    ultimately show ?thesis using d by auto
  qed
  moreover have "side_sum DEBIT (entries_of db i) = side_sum CREDIT (entries_of db i)"
    using c(6) [OF id(1)] id(2) by (simp add: balanced_txn_def)
  ultimately have "posting_fits (claimed i now reason db) (reversal_row gen now b user t) (mirror_rows gen (entries_of db i))"
    using ins assms(4) by (simp add: posting_fits_def insert_posting_eq_Inr side_sum_mirror ids_drawn_def)
  from that [OF t live own p this rec] show thesis .
qed

lemma side_sum_filter2: "side_sum s (filter P (filter Q es)) =
    sum_by (\<lambda>e. if P e \<and> Q e \<and> en_type e = s then en_amount e else 0) es"
  by (induction es) auto

lemma dead_after_void:
  assumes core: "ledger_core db" and t: "find_row tx_id i (txns db) = Some t" "live_txn t"
    and fits: "posting_fits (claimed i now reason db) r es" and dead: "\<not> live_txn r"
  shows "side_sum s (dead_entries (with_posting r es (claimed i now reason db)) x) =
    side_sum s (dead_entries db x) + side_sum s (filter (\<lambda>e. en_accountId e = x) (entries_of db i)) +
    side_sum s (filter (\<lambda>e. en_accountId e = x) es)"
proof -
  let ?D = "with_posting r es (claimed i now reason db)"
  have fk: "fk_entries (claimed i now reason db)" by (rule ledger_coreD(5) [OF ledger_core_claimed [OF core]])
  note tx = txn_of_with_posting [OF fk fits]
  have old: "\<not> on_txn ?D live_txn e \<longleftrightarrow> \<not> on_txn db live_txn e \<or> en_transactionId e = i"
    and now_live: "en_transactionId e = i \<Longrightarrow> on_txn db live_txn e" if "e \<in> set (entries db)" for e
    using that t by (auto simp: on_txn_def tx(1) txn_of_claimed) (auto simp: txn_of_def)
  have new: "\<not> on_txn ?D live_txn e" if "e \<in> set es" for e
    using that dead by (simp add: on_txn_def tx(2))
  have "side_sum s (filter (\<lambda>e. \<not> on_txn ?D live_txn e) (filter (\<lambda>e. en_accountId e = x) (entries db))) =
      side_sum s (filter (\<lambda>e. \<not> on_txn db live_txn e) (filter (\<lambda>e. en_accountId e = x) (entries db))) +
      side_sum s (filter (\<lambda>e. en_accountId e = x) (filter (\<lambda>e. en_transactionId e = i) (entries db)))"
    unfolding side_sum_filter2 sum_by_plus [symmetric]
    by (rule sum_by_cong) (use old now_live in auto)
  moreover have "filter (\<lambda>e. \<not> on_txn ?D live_txn e) (filter (\<lambda>e. en_accountId e = x) es) = filter (\<lambda>e. en_accountId e = x) es"
    using new by (intro filter_True) (simp del: filter_filter)
  ultimately show ?thesis
    by (simp add: dead_entries_def account_entries_def entries_of_def del: filter_filter)
qed

lemma voids_net_voided:
  assumes core: "ledger_core db" and net: "voids_net db" and t: "find_row tx_id i (txns db) = Some t" "live_txn t"
    and fits: "posting_fits (claimed i now reason db) r (mirror_rows gen (entries_of db i))" and dead: "\<not> live_txn r"
  shows "voids_net (with_posting r (mirror_rows gen (entries_of db i)) (claimed i now reason db))"
  using net unfolding voids_net_def
  by (simp add: dead_after_void [OF core t fits dead] side_sum_mirror_account)

lemma reversals_ok_voided:
  assumes core: "ledger_core db" and ok: "reversals_ok db" and t: "find_row tx_id i (txns db) = Some t" "live_txn t"
    and fits: "posting_fits (claimed i now reason db) (reversal_row gen now b user t) (mirror_rows gen (entries_of db i))"
  shows "reversals_ok (with_posting (reversal_row gen now b user t) (mirror_rows gen (entries_of db i)) (claimed i now reason db))"
proof -
  let ?r = "reversal_row gen now b user t" and ?es = "mirror_rows gen (entries_of db i)"
  let ?D = "with_posting ?r ?es (claimed i now reason db)"
  note c = ledger_coreD [OF core]
  have id: "t \<in> set (txns db)" "tx_id t = i" using t(1) by (auto dest: find_row_Some)
  have fresh: "gen 0 \<notin> tx_id ` set (txns db)" using fits by (simp add: posting_fits_def)
  have tid: "\<And>e. e \<in> set ?es \<Longrightarrow> en_transactionId e = tx_id ?r" by (auto dest: mirror_rows_all)
  have ent: "entries_of ?D j = entries_of db j" if "j \<in> tx_id ` set (txns db)" for j
  proof -
    from that fresh have "j \<noteq> gen 0" by blast
    then show ?thesis by (simp add: entries_of_with_posting [OF tid])
  qed
  have ent_new: "entries_of ?D (gen 0) = ?es"
    using entries_of_fresh [OF c(5) fresh] by (simp add: entries_of_with_posting [OF tid])
  have orig: "\<exists>u \<in> set (txns db). tx_id u = j \<and> tx_status u = VOIDED \<and> tx_reversalOfId u = None"
    "tx_status q = POSTED" "mirrors db (tx_id q) j"
    if "q \<in> set (txns db)" "tx_reversalOfId q = Some j" for q j
    using ok that unfolding reversals_ok_def by blast+
  have only: "u = t" if "u \<in> set (txns db)" "tx_id u = i" for u
    using find_row_mem [OF c(2) that(1)] that(2) t(1) by (metis option.inject)
  have rev: "length (reversals ?D j) = length (reversals db j) + (if j = i then 1 else 0)" for j
  proof -
    have "length (filter (\<lambda>q. tx_reversalOfId q = Some j) (map_row tx_id i (mark_voided now reason) ts)) =
        length (filter (\<lambda>q. tx_reversalOfId q = Some j) ts)" for ts
      by (induction ts) auto
    then show ?thesis using id(2) by (auto simp: reversals_def claimed_def)
  qed
  have none: "reversals db i = []"
  proof -
    have "tx_reversalOfId q \<noteq> Some i" if "q \<in> set (txns db)" for q
    proof
      assume "tx_reversalOfId q = Some i"
      from orig(1) [OF that this] obtain u where "u \<in> set (txns db)" "tx_id u = i" "tx_status u = VOIDED" by blast
      with only t(2) show False by (auto simp: live_txn_def)
    qed
    then show ?thesis by (auto simp: reversals_def filter_empty_conv)
  qed
  have unchanged: "u \<in> set (txns ?D)" if "u \<in> set (txns db)" "tx_id u \<noteq> i" for u
    using that by (auto simp: claimed_mem)
  have marked: "mark_voided now reason t \<in> set (txns ?D)" using id by (auto simp: claimed_mem)
  show ?thesis
    unfolding reversals_ok_def
  proof (intro conjI ballI allI impI)
    fix q j assume q: "q \<in> set (txns ?D)" and j: "tx_reversalOfId q = Some j"
    have "(q \<in> set (txns db) \<and> tx_id q \<noteq> i) \<or> q = ?r"
    proof -
      from q consider "q \<in> set (txns (claimed i now reason db))" | "q = ?r" by auto
      then show ?thesis
      proof cases
        case 1
        then obtain u where u: "u \<in> set (txns db)" "q = (if tx_id u = i then mark_voided now reason u else u)"
          unfolding claimed_mem by blast
        then have "tx_id u \<noteq> i" using j only t(2) by (auto simp: live_txn_def)
        with u show ?thesis by simp
      qed simp
    qed
    then consider (old) "q \<in> set (txns db)" "tx_id q \<noteq> i" | (new) "q = ?r" by blast
    then have "tx_status q = POSTED \<and> mirrors ?D (tx_id q) j \<and>
      (\<exists>u \<in> set (txns ?D). tx_id u = j \<and> tx_status u = VOIDED \<and> tx_reversalOfId u = None)"
    proof cases
      case old
      note o = orig [OF old(1) j]
      from o(1) obtain u where u: "u \<in> set (txns db)" "tx_id u = j" "tx_status u = VOIDED" "tx_reversalOfId u = None" by blast
      then have "tx_id u \<noteq> i" using only t(2) by (auto simp: live_txn_def)
      then have "u \<in> set (txns ?D)" by (rule unchanged [OF u(1)])
      moreover have "mirrors ?D (tx_id q) j"
      proof -
        have "tx_id q \<in> tx_id ` set (txns db)" "j \<in> tx_id ` set (txns db)" using old(1) u(1,2) by auto
        then show ?thesis using o(3) by (simp only: mirrors_def ent)
      qed
      ultimately show ?thesis using o(2) u by blast
    next
      case new
      then have ji: "j = i" using j id(2) by simp
      have "i \<in> tx_id ` set (txns db)" using id by auto
      then have "mirrors ?D (tx_id q) j" by (simp add: mirrors_def ji ent new ent_new moves_mirror_rows)
      moreover have "tx_id (mark_voided now reason t) = j" "tx_reversalOfId (mark_voided now reason t) = None"
        using ji id(2) t(2) by (simp_all add: live_txn_def)
      ultimately show ?thesis using marked new by (metis mark_voided_sel(3) reversal_row_sel(3))
    qed
    then show "tx_status q = POSTED" "mirrors ?D (tx_id q) j"
      "\<exists>u \<in> set (txns ?D). tx_id u = j \<and> tx_status u = VOIDED \<and> tx_reversalOfId u = None" by blast+
  next
    fix u assume "u \<in> set (txns ?D)" and v: "tx_status u = VOIDED"
    then have "u \<in> set (txns (claimed i now reason db))" by auto
    then obtain w where w: "w \<in> set (txns db)" "u = (if tx_id w = i then mark_voided now reason w else w)"
      unfolding claimed_mem by blast
    show "length (reversals ?D (tx_id u)) = 1"
    proof (cases "tx_id w = i")
      case True
      then show ?thesis using w by (simp add: rev none)
    next
      case False
      with w v ok show ?thesis by (simp add: rev reversals_ok_def)
    qed
  qed
qed

lemma books_ok_voided:
  assumes books: "books_ok db" and void: "voidTransaction gen now b i reason user db = Inr (db', p)" and gen: "ids_drawn gen"
  shows "books_ok db'"
proof -
  note b = books_okD [OF books]
  from void b(1,2) gen obtain t where t: "find_row tx_id i (txns db) = Some t" "live_txn t"
    and fits: "posting_fits (claimed i now reason db) (reversal_row gen now (tx_businessId t) user t) (mirror_rows gen (entries_of db i))"
    and rec: "recalculate_all (js_set (map en_accountId (entries_of db i)))
      (with_posting (reversal_row gen now (tx_businessId t) user t) (mirror_rows gen (entries_of db i)) (claimed i now reason db)) = Inr db'"
    by (rule voidTransactionE) metis
  have r: "balance_cached db'" "only_balances (with_posting (reversal_row gen now (tx_businessId t) user t)
      (mirror_rows gen (entries_of db i)) (claimed i now reason db)) db'"
    using recalculate_after_posting [OF rec] b(4,5) by simp_all
  note k = only_balances_keeps [OF r(2)]
  show ?thesis
    unfolding books_ok_def
    using r(1) k ledger_core_with_posting [OF ledger_core_claimed [OF b(1)] fits]
      reversals_ok_voided [OF b(1,2) t fits] voids_net_voided [OF b(1,3) t fits] by simp
qed

lemma books_ok_post:
  assumes books: "books_ok db" and post: "post gen now b dto user db = Inr (db', p)" and gen: "ids_drawn gen"
  shows "books_ok db'"
proof (cases "existing_by_key (td_idempotencyKey dto) db")
  case None
  then have "post_new gen now b dto user db = Inr (db', p)" using post by (simp add: post_def post_after_def)
  then show ?thesis
    using books_okD(5) [OF books] gen
  proof (rule post_newE)
    assume fits: "posting_fits db (txn_row gen now b dto user) (entry_rows gen (td_entries dto))"
      and rec: "recalculate_all (dto_account_ids dto) (with_posting (txn_row gen now b dto user) (entry_rows gen (td_entries dto)) db) = Inr db'"
    show "books_ok db'" by (rule books_ok_posted(1) [OF books fits _ rec]) simp_all
  qed
next
  case (Some t)
  then show ?thesis using post books by (auto simp: post_def post_after_def split: if_splits)
qed

subsection \<open>Changes to the chart of accounts\<close>

definition book_view :: "account \<Rightarrow> id \<times> id \<times> account_type \<times> money \<times> money" where
  "book_view a = (acc_id a, acc_businessId a, acc_accountType a, acc_openingBalance a, acc_currentBalance a)"

lemma true_balance_entries:
  "true_balance (db\<lparr>accounts := t\<rparr>) = true_balance db" by (rule ext) simp

lemma reads_accounts [simp]:
  "entries_of (db\<lparr>accounts := t\<rparr>) = entries_of db" "txn_of (db\<lparr>accounts := t\<rparr>) = txn_of db"
  "on_txn (db\<lparr>accounts := t\<rparr>) = on_txn db" "dead_entries (db\<lparr>accounts := t\<rparr>) = dead_entries db"
  "reversals_ok (db\<lparr>accounts := t\<rparr>) = reversals_ok db" "account_entries (db\<lparr>accounts := t\<rparr>) = account_entries db"
  by (simp_all add: fun_eq_iff entries_of_def txn_of_def on_txn_def dead_entries_def account_entries_def
      reversals_ok_def reversals_def mirrors_def)

text \<open>
  The books only ask of the accounts that each of them is known under its id, with the opening
  and current balance, and that none with postings goes missing.
\<close>

lemma books_ok_accounts:
  assumes books: "books_ok db" and keyed: "keyed acc_id ts"
    and view: "\<And>a. a \<in> set ts \<Longrightarrow> book_view a \<in> book_view ` set (accounts db) \<or>
       (account_entries db (acc_id a) = [] \<and> acc_currentBalance a = acc_openingBalance a)"
    and kept: "\<And>e. e \<in> set (entries db) \<Longrightarrow> en_accountId e \<in> acc_id ` set ts"
  shows "books_ok (db\<lparr>accounts := ts\<rparr>)"
proof -
  note b = books_okD [OF books]
  note c = ledger_coreD [OF b(1)]
  have old: "\<exists>x \<in> set (accounts db). acc_id x = acc_id a \<and> acc_businessId x = acc_businessId a \<and>
      acc_accountType x = acc_accountType a \<and> acc_openingBalance x = acc_openingBalance a \<and>
      acc_currentBalance x = acc_currentBalance a"
    if "a \<in> set ts" "account_entries db (acc_id a) \<noteq> []" for a
    using view [OF that(1)] that(2) by (auto simp: book_view_def)
  have "same_workspace (db\<lparr>accounts := ts\<rparr>)"
    unfolding same_workspace_def
  proof (intro ballI impI)
    fix e t a assume e: "e \<in> set (entries (db\<lparr>accounts := ts\<rparr>))" "t \<in> set (txns (db\<lparr>accounts := ts\<rparr>))"
      "a \<in> set (accounts (db\<lparr>accounts := ts\<rparr>))" "en_transactionId e = tx_id t" "en_accountId e = acc_id a"
    then have "account_entries db (acc_id a) \<noteq> []" by (auto simp: account_entries_def filter_empty_conv)
    with old [of a] e c(8) show "acc_businessId a = tx_businessId t"
      unfolding same_workspace_def by (metis db.select_convs db.surjective db.update_convs(1))
  qed
  moreover have "fk_entries (db\<lparr>accounts := ts\<rparr>)"
    using c(5) kept by (simp add: fk_entries_def)
  ultimately have core: "ledger_core (db\<lparr>accounts := ts\<rparr>)"
    using b(1) keyed by (simp add: ledger_core_def balanced_txn_def)
  have "side_sum DEBIT (dead_entries db (acc_id a)) = side_sum CREDIT (dead_entries db (acc_id a))" if "a \<in> set ts" for a
  proof (cases "account_entries db (acc_id a) = []")
    case True
    then show ?thesis by (simp add: dead_entries_def)
  next
    case False
    from old [OF that this] b(3) show ?thesis by (auto simp: voids_net_def)
  qed
  moreover have "acc_currentBalance a = true_balance db a" if "a \<in> set ts" for a
  proof (cases "account_entries db (acc_id a) = []")
    case True
    show ?thesis
    proof (cases "book_view a \<in> book_view ` set (accounts db)")
      case True
      then obtain x where "x \<in> set (accounts db)" "book_view a = book_view x" by blast
      with b(4) show ?thesis by (auto simp: balance_cached_def true_balance_def book_view_def)
    next
      case False
      with view [OF that] show ?thesis by (simp add: true_balance_def)
    qed
  next
    case False
    from old [OF that this] obtain x where "x \<in> set (accounts db)" "acc_id x = acc_id a"
      "acc_accountType x = acc_accountType a" "acc_openingBalance x = acc_openingBalance a"
      "acc_currentBalance x = acc_currentBalance a" by blast
    with b(4) show ?thesis by (auto simp: balance_cached_def true_balance_def)
  qed
  ultimately show ?thesis
    using core b(2) by (simp add: books_ok_def voids_net_def balance_cached_def)
qed

lemma books_ok_map_row:
  assumes "books_ok db" and "\<And>a. book_view (f a) = book_view a"
  shows "books_ok (db\<lparr>accounts := map_row acc_id i f (accounts db)\<rparr>)"
proof (rule books_ok_accounts [OF assms(1)])
  have id: "acc_id (f a) = acc_id a" for a using assms(2) [of a] by (simp add: book_view_def)
  show "keyed acc_id (map_row acc_id i f (accounts db))"
    using books_okD(5) [OF assms(1)] by (simp add: keyed_map_row id)
  show "book_view a \<in> book_view ` set (accounts db) \<or> (account_entries db (acc_id a) = [] \<and> acc_currentBalance a = acc_openingBalance a)"
    if "a \<in> set (map_row acc_id i f (accounts db))" for a
    using that by (auto simp: map_row_def assms(2))
  have "map acc_id (map_row acc_id i f (accounts db)) = map acc_id (accounts db)" by (simp add: map_row_proj id)
  then have "acc_id ` set (map_row acc_id i f (accounts db)) = acc_id ` set (accounts db)" by (metis set_map)
  then show "en_accountId e \<in> acc_id ` set (map_row acc_id i f (accounts db))" if "e \<in> set (entries db)" for e
    using that books_okD(6) [OF assms(1)] by (simp add: fk_entries_def)
qed

lemma books_ok_add_account:
  assumes books: "books_ok db" and "acc_id a \<notin> acc_id ` set (accounts db)" and "acc_currentBalance a = acc_openingBalance a"
  shows "books_ok (db\<lparr>accounts := accounts db @ [a]\<rparr>)"
proof (rule books_ok_accounts [OF books])
  have none: "account_entries db (acc_id a) = []"
    unfolding account_entries_def filter_empty_conv using assms(2) books_okD(6) [OF books] by (metis fk_entries_def)
  show "keyed acc_id (accounts db @ [a])" using books_okD(5) [OF books] assms(2) by simp
  show "book_view x \<in> book_view ` set (accounts db) \<or> (account_entries db (acc_id x) = [] \<and> acc_currentBalance x = acc_openingBalance x)"
    if "x \<in> set (accounts db @ [a])" for x
    using that assms(3) none by auto
  show "en_accountId e \<in> acc_id ` set (accounts db @ [a])" if "e \<in> set (entries db)" for e
    using that books_okD(6) [OF books] by (auto simp: fk_entries_def)
qed

lemma books_ok_accounts_step:
  assumes "accounts_step db db'" and books: "books_ok db"
  shows "books_ok db'"
  using assms(1)
proof (cases rule: accounts_step.cases)
  case (created newId now b dto a)
  from created(1) show ?thesis
  proof (rule create_accountE)
    assume a: "acc_id a = newId" "newId \<notin> acc_id ` set (accounts db)"
      "acc_openingBalance a = orelse (cad_openingBalance dto) 0" "acc_currentBalance a = orelse (cad_openingBalance dto) 0"
      and db': "db' = db\<lparr>accounts := accounts db @ [a]\<rparr>"
    show ?thesis unfolding db' by (rule books_ok_add_account [OF books]) (use a in simp_all)
  qed
next
  case (updated b i dto)
  from updated show ?thesis
    by (rule update_accountE) (auto intro!: books_ok_map_row [OF books] simp: book_view_def apply_account_update_def)
next
  case (archived b i)
  from archived show ?thesis
    by (rule archive_accountE) (use books in \<open>auto intro!: books_ok_map_row [OF books] simp: book_view_def\<close>)
next
  case (unarchived b i)
  from unarchived show ?thesis
    by (rule unarchive_accountE) (use books in \<open>auto intro!: books_ok_map_row [OF books] simp: book_view_def\<close>)
next
  case (removed b i deleted)
  from removed show ?thesis
  proof (rule removeOrArchiveE)
    fix account
    assume del: "deleted \<longleftrightarrow> account_entries db i = []"
      and db': "db' = (if deleted then db\<lparr>accounts := filter (\<lambda>a. acc_id a \<noteq> i) (accounts db)\<rparr>
       else if acc_status account = ARCHIVED then db
       else db\<lparr>accounts := map_row acc_id i (\<lambda>a. a\<lparr>acc_status := ARCHIVED\<rparr>) (accounts db)\<rparr>)"
    show ?thesis
    proof (cases deleted)
      case True
      with del have none: "account_entries db i = []" by simp
      show ?thesis
        unfolding db' if_P [OF True]
      proof (rule books_ok_accounts [OF books])
        show "keyed acc_id (filter (\<lambda>a. acc_id a \<noteq> i) (accounts db))"
          by (rule keyed_filter [OF books_okD(5) [OF books]])
        fix e assume e: "e \<in> set (entries db)"
        then have "en_accountId e \<noteq> i" using none by (auto simp: account_entries_def filter_empty_conv)
        then show "en_accountId e \<in> acc_id ` set (filter (\<lambda>a. acc_id a \<noteq> i) (accounts db))"
          using e books_okD(6) [OF books] by (force simp: fk_entries_def)
      qed auto
    next
      case False
      then show ?thesis using books by (auto simp: db' book_view_def intro!: books_ok_map_row [OF books])
    qed
  qed
qed

lemma rebalanced_cached: "balance_cached db \<Longrightarrow> rebalanced db P = db"
proof -
  assume "balance_cached db"
  then have "map (\<lambda>a. if P a then a\<lparr>acc_currentBalance := true_balance db a\<rparr> else a) (accounts db) = accounts db"
    by (intro map_idI) (auto simp: balance_cached_def dest: sym)
  then show ?thesis by (simp add: rebalanced_def)
qed

lemma reconcileWorkspace_no_change:
  assumes "books_ok db" and "reconcileWorkspace b db = Inr (db', r)"
  shows "db' = db"
proof -
  note b = books_okD [OF assms(1)]
  define mine where "mine = filter (\<lambda>a. acc_businessId a = b) (accounts db)"
  have "distinct (map acc_id mine)" using keyed_filter [OF b(5)] by (simp add: keyed_def mine_def)
  moreover have "find_row acc_id (acc_id m) (accounts db) = Some m" if "m \<in> set mine" for m
    using b(5) that by (auto simp: mine_def intro: find_row_mem)
  ultimately show ?thesis
    using assms(2) reconcile_loop [OF b(5), of mine "[]"]
    by (simp add: reconcileWorkspace_def Let_def rebalanced_cached [OF b(4)] flip: mine_def split: if_splits)
qed

section \<open>The ledger as a system of operations\<close>

inductive ledger_step :: "db \<Rightarrow> db \<Rightarrow> bool" where
  posted: "post gen now b dto user db = Inr (db', p) \<Longrightarrow> ids_drawn gen \<Longrightarrow> ledger_step db db'"
| voided: "voidTransaction gen now b i reason user db = Inr (db', p) \<Longrightarrow> ids_drawn gen \<Longrightarrow> ledger_step db db'"
| chart: "accounts_step db db' \<Longrightarrow> ledger_step db db'"
| reconciled: "reconcileWorkspace b db = Inr (db', r) \<Longrightarrow> ledger_step db db'"

inductive_cases ledger_stepE: "ledger_step db db'"

interpretation books: invariant_system ledger_step books_ok
proof
  fix db db' assume step: "ledger_step db db'" and ok: "books_ok db"
  from step show "books_ok db'"
  proof (rule ledger_stepE)
    fix b r assume "reconcileWorkspace b db = Inr (db', r)"
    with ok show ?thesis using reconcileWorkspace_no_change by blast
  qed (use ok in \<open>blast intro: books_ok_post books_ok_voided books_ok_accounts_step\<close>)+
qed

lemma empty_books [simp]: "books_ok empty_db"
  by (simp add: books_ok_def ledger_core_def reversals_ok_def voids_net_def balance_cached_def fk_entries_def
      same_workspace_def empty_db_def)

text \<open>
  C1: whatever postings, voids, changes to the chart of accounts and reconciliations run, the
  books stay sound: every transaction balances, every entry lies in its transaction's workspace,
  every cached balance equals opening balance plus postings, and each voided transaction has
  exactly one reversal, its mirror.
\<close>

theorem ledger_run_books:
  assumes "ledger_step\<^sup>*\<^sup>* db db'" and "books_ok db"
  shows "books_ok db'"
  using assms by (rule books.run_inv)

section \<open>The contract features post under\<close>

text \<open>
  A feature draws ids, posts, and writes its own row in one transaction. It relies on the posting
  keeping the invariant and leaving the feature's own tables alone.
\<close>

locale posting_contract =
  fixes post :: "'g \<Rightarrow> 'd \<Rightarrow> 's \<Rightarrow> ('s \<times> 'p) result"
    and legal :: "'g \<Rightarrow> bool"
    and inv :: "'s \<Rightarrow> bool"
    and own :: "'s \<Rightarrow> 'o"
  assumes post_inv: "legal g \<Longrightarrow> inv s \<Longrightarrow> post g d s = Inr (s', p) \<Longrightarrow> inv s'"
    and post_own: "legal g \<Longrightarrow> inv s \<Longrightarrow> post g d s = Inr (s', p) \<Longrightarrow> own s' = own s"
begin

lemma post_then_record:
  assumes "legal g" and "inv s" and "rbind (post g d s) (\<lambda>(s', p). record s' p) = Inr t"
    and "\<And>s' p. inv s' \<Longrightarrow> own s' = own s \<Longrightarrow> record s' p = Inr t \<Longrightarrow> Q t"
  shows "Q t"
proof -
  from assms(3) obtain s' p where sp: "post g d s = Inr (s', p)" "record s' p = Inr t"
    by (auto simp: result_simps)
  show ?thesis
    using assms(4) [OF post_inv [OF assms(1,2) sp(1)] post_own [OF assms(1,2) sp(1)] sp(2)] .
qed

lemma post_then_record_inv:
  assumes "legal g" and "inv s" and "rbind (post g d s) (\<lambda>(s', p). record s' p) = Inr t"
    and "\<And>s' p. inv s' \<Longrightarrow> record s' p = Inr t \<Longrightarrow> inv t"
  shows "inv t"
  using post_then_record [OF assms(1-3)] assms(4) by blast

end

text \<open>What no posting touches.\<close>

definition own_tables :: "db \<Rightarrow> contact list \<times> goal list \<times> goal_entry list \<times> asset list \<times> budget_category list \<times> income_goal list \<times> account list" where
  "own_tables db = (contacts db, goals db, goal_entries db, assets db, budget_categories db, income_goals db,
     map without_balance (accounts db))"

lemma only_balances_own: "only_balances db db' \<Longrightarrow> own_tables db' = own_tables db"
  by (simp add: own_tables_def only_balances_tables) (simp add: only_balances_def)

lemma own_tables_with_posting [simp]: "own_tables (with_posting t es db) = own_tables db"
  by (simp add: own_tables_def)

lemma own_tables_claimed [simp]: "own_tables (claimed i now reason db) = own_tables db"
  by (simp add: own_tables_def claimed_def)

lemma post_own_tables:
  assumes books: "books_ok db" and post: "post gen now b dto user db = Inr (db', p)" and gen: "ids_drawn gen"
  shows "own_tables db' = own_tables db"
proof (cases "existing_by_key (td_idempotencyKey dto) db")
  case None
  then have "post_new gen now b dto user db = Inr (db', p)" using post by (simp add: post_def post_after_def)
  then show ?thesis
    using books_okD(5) [OF books] gen
  proof (rule post_newE)
    assume fits: "posting_fits db (txn_row gen now b dto user) (entry_rows gen (td_entries dto))"
      and rec: "recalculate_all (dto_account_ids dto) (with_posting (txn_row gen now b dto user) (entry_rows gen (td_entries dto)) db) = Inr db'"
    have "only_balances (with_posting (txn_row gen now b dto user) (entry_rows gen (td_entries dto)) db) db'"
      by (rule books_ok_posted(2) [OF books fits _ rec]) simp_all
    then show ?thesis by (simp add: only_balances_own)
  qed
next
  case (Some t)
  then show ?thesis using post by (auto simp: post_def post_after_def split: if_splits)
qed

interpretation posting: posting_contract "\<lambda>(gen, now, b, user) dto. post gen now b dto user" "\<lambda>(gen, now, b, user). ids_drawn gen"
  books_ok own_tables
  by unfold_locales (auto intro: books_ok_post post_own_tables)

section \<open>Posting and voiding\<close>

lemma post_newD:
  assumes "books_ok db" and "post_new gen now b dto user db = Inr (db', t, es)" and "ids_drawn gen"
  shows "t = txn_row gen now b dto user" "es = entry_rows gen (td_entries dto)" "posting_fits db t es"
    "only_balances (with_posting t es db) db'" "books_ok db'" "entries_of db' (tx_id t) = es" "txns db' = txns db @ [t]"
    "td_idempotencyKey dto = None \<or> td_idempotencyKey dto \<notin> tx_idempotencyKey ` set (txns db)"
    "requireLinksBelongToBusiness b dto db = Inr ()"
proof -
  note b = books_okD [OF assms(1)]
  from assms(2) b(5) assms(3) have te: "t = txn_row gen now b dto user" "es = entry_rows gen (td_entries dto)"
    and fits: "posting_fits db t es" and rec: "recalculate_all (dto_account_ids dto) (with_posting t es db) = Inr db'"
    and links: "requireLinksBelongToBusiness b dto db = Inr ()"
    and key: "td_idempotencyKey dto = None \<or> td_idempotencyKey dto \<notin> tx_idempotencyKey ` set (txns db)"
    by (rule post_newE; simp)+
  have live: "live_txn t" and ids: "en_accountId ` set es \<subseteq> set (dto_account_ids dto)" by (simp_all add: te)
  note p = books_ok_posted [OF assms(1) fits live rec ids]
  show "books_ok db'" "only_balances (with_posting t es db) db'" by (rule p)+
  have "entries_of (with_posting t es db) (tx_id t) = es"
    using fits entries_of_fresh [OF b(6)] by (subst entries_of_with_posting) (auto simp: posting_fits_def)
  then show "entries_of db' (tx_id t) = es" by (simp add: only_balances_reads [OF p(2)])
  show "txns db' = txns db @ [t]" by (simp add: only_balances_tables [OF p(2)])
  show "t = txn_row gen now b dto user" "es = entry_rows gen (td_entries dto)" "posting_fits db t es"
    "td_idempotencyKey dto = None \<or> td_idempotencyKey dto \<notin> tx_idempotencyKey ` set (txns db)"
    "requireLinksBelongToBusiness b dto db = Inr ()" by (fact te fits key links)+
qed

lemma void_effect:
  assumes "books_ok db" and "voidTransaction gen now b i reason user db = Inr (db', p)" and "ids_drawn gen"
  obtains t where "find_row tx_id i (txns db) = Some t" "tx_businessId t = b" "live_txn t"
    "p = (reversal_row gen now b user t, mirror_rows gen (entries_of db i))"
    "posting_fits (claimed i now reason db) (reversal_row gen now b user t) (mirror_rows gen (entries_of db i))"
    "only_balances (with_posting (reversal_row gen now b user t) (mirror_rows gen (entries_of db i)) (claimed i now reason db)) db'"
proof -
  note b = books_okD [OF assms(1)]
  from assms(2) b(1,2) assms(3) show thesis
  proof (rule voidTransactionE)
    fix t assume t: "find_row tx_id i (txns db) = Some t" "tx_businessId t = b" "live_txn t"
      and p: "p = (reversal_row gen now b user t, mirror_rows gen (entries_of db i))"
      and fits: "posting_fits (claimed i now reason db) (reversal_row gen now b user t) (mirror_rows gen (entries_of db i))"
      and rec: "recalculate_all (js_set (map en_accountId (entries_of db i)))
        (with_posting (reversal_row gen now b user t) (mirror_rows gen (entries_of db i)) (claimed i now reason db)) = Inr db'"
    have "only_balances (with_posting (reversal_row gen now b user t) (mirror_rows gen (entries_of db i)) (claimed i now reason db)) db'"
      using recalculate_after_posting [OF rec] b(4,5) by simp
    from that [OF t p fits this] show thesis .
  qed
qed

text \<open>A posting a feature keeps its own record of is never voided, and the ledger writes in no table but its own.\<close>

lemma void_not_owned:
  assumes "books_ok db" and "voidTransaction gen now b i reason user db = Inr (db', p)" and "ids_drawn gen"
  shows "\<not> owned_by_goal db i" "\<not> owned_by_asset db i"
proof -
  from assms(2) books_okD(1,2) [OF assms(1)] assms(3) have "requireNotOwnedByAFeature db i = Inr ()" by (rule voidTransactionE)
  then show "\<not> owned_by_goal db i" "\<not> owned_by_asset db i" by (auto simp: requireNotOwnedByAFeature_def split: if_splits)
qed

definition feature_tables :: "db \<Rightarrow> contact list \<times> goal list \<times> goal_entry list \<times> asset list \<times> budget_category list \<times> income_goal list" where
  "feature_tables db = (contacts db, goals db, goal_entries db, assets db, budget_categories db, income_goals db)"

lemma own_tables_features: "own_tables db' = own_tables db \<Longrightarrow> feature_tables db' = feature_tables db"
  by (simp add: own_tables_def feature_tables_def)

lemma ledger_step_features:
  assumes "ledger_step db db'" and books: "books_ok db"
  shows "feature_tables db' = feature_tables db"
  using assms(1)
proof (rule ledger_stepE)
  fix gen now b dto user p assume "post gen now b dto user db = Inr (db', p)" "ids_drawn gen"
  then show ?thesis by (intro own_tables_features post_own_tables [OF books])
next
  fix gen now b i reason user p assume v: "voidTransaction gen now b i reason user db = Inr (db', p)" "ids_drawn gen"
  from books v show ?thesis
  proof (rule void_effect)
    fix t assume "only_balances (with_posting (reversal_row gen now b user t) (mirror_rows gen (entries_of db i)) (claimed i now reason db)) db'"
    then show ?thesis by (intro own_tables_features) (simp add: only_balances_own)
  qed
next
  assume "accounts_step db db'"
  then show ?thesis
    by (rule accounts_stepE)
      (auto elim!: create_accountE update_accountE archive_accountE unarchive_accountE removeOrArchiveE simp: feature_tables_def split: if_splits)
next
  fix b r assume "reconcileWorkspace b db = Inr (db', r)"
  with reconcileWorkspace_no_change [OF books this] show ?thesis by simp
qed

lemma sum_delta_mirror:
  "sum_by (entry_delta dp) (filter (\<lambda>e. en_accountId e = i) (mirror_rows gen es)) =
   - sum_by (entry_delta dp) (filter (\<lambda>e. en_accountId e = i) es)"
  by (simp add: sum_delta_sides side_sum_mirror_account)

lemma true_balance_without [simp]: "true_balance db (without_balance a) = true_balance db a"
  by (simp add: without_balance_def)

lemma cached_determined:
  assumes "map without_balance xs = map without_balance ys"
    and "\<And>x. x \<in> set xs \<Longrightarrow> acc_currentBalance x = f (without_balance x)"
    and "\<And>y. y \<in> set ys \<Longrightarrow> acc_currentBalance y = f (without_balance y)"
  shows "xs = (ys :: account list)"
  using assms
proof (induction xs ys rule: list_induct2')
  case (4 x xs y ys)
  then have "without_balance x = without_balance y" "acc_currentBalance x = acc_currentBalance y" by simp_all
  then have "x = y" by (cases x; cases y) (simp add: without_balance_def)
  with 4 show ?case by simp
qed simp_all

text \<open>
  C4: posting a transaction and then voiding it leaves every account of the database, cached
  balance included, exactly as it was.
\<close>

theorem post_then_void_restores:
  assumes "books_ok db" and "ids_drawn gen" and "existing_by_key (td_idempotencyKey dto) db = None"
    and post: "post gen now b dto user db = Inr (db1, t, es)"
    and "ids_drawn gen'" and void: "voidTransaction gen' now' b (tx_id t) reason user' db1 = Inr (db2, p)"
  shows "accounts db2 = accounts db"
proof -
  have "post_new gen now b dto user db = Inr (db1, t, es)" using assms(3) post by (simp add: post_def post_after_def)
  note n = post_newD [OF assms(1) this assms(2)]
  have books2: "books_ok db2" by (rule books_ok_voided [OF n(5) void assms(5)])
  from n(5) void assms(5) obtain r where
    ob: "only_balances (with_posting r (mirror_rows gen' es) (claimed (tx_id t) now' reason db1)) db2"
    by (rule void_effect) (use n(6) in metis)
  have own: "own_tables db2 = own_tables db"
    using only_balances_own [OF ob] only_balances_own [OF n(4)] by simp
  have tb: "true_balance db2 a = true_balance db a" for a
    by (simp add: only_balances_reads(6) [OF ob] only_balances_reads(6) [OF n(4)] true_balance_with_posting sum_delta_mirror)
  show ?thesis
  proof (rule cached_determined [where f = "true_balance db"])
    show "map without_balance (accounts db2) = map without_balance (accounts db)" using own by (simp add: own_tables_def)
  qed (use books_okD(4) [OF books2] books_okD(4) [OF assms(1)] in \<open>simp_all add: balance_cached_def tb\<close>)
qed

text \<open>
  C6: a voided transaction cannot be voided again, and neither can its reversal: both answer
  with their own error, whoever asks.
\<close>

theorem void_only_once:
  assumes "books_ok db" and "ids_drawn gen" and "voidTransaction gen now b i reason user db = Inr (db', r, es)"
  shows "voidTransaction gen' now' b i reason' user' db' =
      Inl (BadRequest ''This transaction has already been voided'') \<and>
    voidTransaction gen' now' b (tx_id r) reason' user' db' =
      Inl (BadRequest ''This is the reversal of a voided transaction and cannot be voided itself'')"
  using assms(1,3,2)
proof (rule void_effect)
  fix t assume t: "find_row tx_id i (txns db) = Some t" "tx_businessId t = b" "live_txn t"
    and p: "(r, es) = (reversal_row gen now b user t, mirror_rows gen (entries_of db i))"
    and fits: "posting_fits (claimed i now reason db) (reversal_row gen now b user t) (mirror_rows gen (entries_of db i))"
    and ob: "only_balances (with_posting (reversal_row gen now b user t) (mirror_rows gen (entries_of db i)) (claimed i now reason db)) db'"
  have txns: "txns db' = map_row tx_id i (mark_voided now reason) (txns db) @ [r]"
    using p by (simp add: only_balances_tables [OF ob] claimed_def)
  have "find_row tx_id i (txns db') = Some (mark_voided now reason t)"
    using t(1) by (simp add: txns find_row_append find_row_map_row)
  moreover have "tx_reversalOfId t = None" using t(3) by (simp add: live_txn_def)
  moreover have "find_row tx_id (tx_id r) (txns db') = Some r"
  proof -
    have "gen 0 \<notin> tx_id ` set (txns db)" using fits by (simp add: posting_fits_def)
    then have "find_row tx_id (gen 0) (map_row tx_id i (mark_voided now reason) (txns db)) = None"
      by (auto simp: find_row_map_row find_row_None)
    then show ?thesis using p by (simp add: txns find_row_append)
  qed
  moreover have "truthy (tx_reversalOfId r)" "tx_businessId r = b"
  proof -
    from t(1) have "t \<in> set (txns db)" by (auto dest: find_row_Some)
    then have "tx_id t \<noteq> []" using ledger_coreD(4) [OF books_okD(1) [OF assms(1)]] by (metis imageI)
    then show "truthy (tx_reversalOfId r)" "tx_businessId r = b" using p by simp_all
  qed
  ultimately show ?thesis
    using t(2) by (simp add: voidTransaction_def require_row_def)
qed

section \<open>A worked example\<close>

definition draw :: "char \<Rightarrow> id_source" where
  "draw c k = c # replicate k (CHR ''x'')"

lemma ids_drawn_draw [simp]: "ids_drawn (draw c)"
  by (simp add: ids_drawn_def draw_def)

definition plain_dto :: "string option \<Rightarrow> id \<Rightarrow> id \<Rightarrow> money \<Rightarrow> create_txn_dto" where
  "plain_dto key to from m =
     \<lparr>td_type = transaction_type.INCOME, td_date = 0, td_description = None, td_referenceNo = None, td_contactId = None,
      td_dueDate = None, td_appliedTo = None,
      td_entries = [\<lparr>ed_accountId = to, ed_entryType = DEBIT, ed_amount = m, ed_categoryId = None, ed_note = None\<rparr>,
                    \<lparr>ed_accountId = from, ed_entryType = CREDIT, ed_amount = m, ed_categoryId = None, ed_note = None\<rparr>],
      td_idempotencyKey = key\<rparr>"

lemma sample_books_sound: "books_ok sample_books"
proof -
  have "\<forall>t \<in> set (txns sample_books). balanced_txn sample_books t"
    by (simp add: sample_books_def plain_rows balanced_txn_def entries_of_def)
  moreover have "same_workspace sample_books"
    by (simp add: same_workspace_def sample_books_def plain_rows)
  moreover have "keyed tx_id (txns sample_books)" "keyed en_id (entries sample_books)"
    "[] \<notin> tx_id ` set (txns sample_books)" "\<forall>e \<in> set (entries sample_books). 0 < en_amount e"
    by (simp_all add: sample_books_def plain_rows)
  moreover have "reversals_ok sample_books"
    by (simp add: reversals_ok_def sample_books_def plain_rows reversals_def mirrors_def moves_def entries_of_def)
  ultimately show ?thesis using sample_books_ok by (simp add: books_ok_def ledger_core_def)
qed

definition after_post :: db where
  "after_post = (case post (draw CHR ''p'') 9 ''w'' (plain_dto (Some ''k1'') ''cash'' ''inc'' 500) ''u'' sample_books of
     Inr (d, _) \<Rightarrow> d | Inl _ \<Rightarrow> sample_books)"

lemmas post_defs = post_def post_after_def existing_by_key_def post_new_def validateEntryShape_def
  requireAccountsBelongToBusiness_def requireLinksBelongToBusiness_def requireContact_def requireAppliedTo_def
  sumEntries_def insert_posting_def insert_entry_def insert_row_def update_row_def store_money_def fits_money_def
  entry_rows_def entry_of_dto_def txn_row_def recalculate_all_def recalculateBalance_def dto_account_ids_def js_set_def

lemma sample_post:
  "\<exists>p. post (draw CHR ''p'') 9 ''w'' (plain_dto (Some ''k1'') ''cash'' ''inc'' 500) ''u'' sample_books = Inr (after_post, p)"
  by (simp add: after_post_def post_defs plain_dto_def draw_def sample_books_def plain_rows isDebitPositive_def Let_def)

lemmas void_defs = voidTransaction_def require_row_def requireNotOwnedByAFeature_def owned_by_goal_def owned_by_asset_def
  void_claimed_def claim_void_def update_many_def reversal_row_def mirror_rows_def mirror_entry_def entries_of_def
  insert_posting_def insert_entry_def insert_row_def update_row_def store_money_def fits_money_def
  recalculate_all_def recalculateBalance_def js_set_def empty_db_def account_constants

lemma ledger_run_books_witness:
  "ledger_step\<^sup>*\<^sup>* sample_books after_post \<and> books_ok sample_books \<and> books_ok after_post"
proof -
  from sample_post obtain p where
    "post (draw CHR ''p'') 9 ''w'' (plain_dto (Some ''k1'') ''cash'' ''inc'' 500) ''u'' sample_books = Inr (after_post, p)" by blast
  then have "ledger_step sample_books after_post" by (rule ledger_step.posted) simp
  then have run: "ledger_step\<^sup>*\<^sup>* sample_books after_post" by blast
  show ?thesis using run sample_books_sound ledger_run_books [OF run sample_books_sound] by blast
qed

lemma sample_void:
  "\<exists>d p. voidTransaction (draw CHR ''v'') 9 ''w'' ''t1'' ''typo'' ''u'' sample_books = Inr (d, p)"
  by (simp add: void_defs draw_def sample_books_def plain_rows isDebitPositive_def Let_def)

lemma sample_void_posted:
  "\<exists>d p. voidTransaction (draw CHR ''v'') 9 ''w'' ''p'' ''typo'' ''u'' after_post = Inr (d, p)"
  by (simp add: after_post_def post_defs plain_dto_def draw_def sample_books_def plain_rows isDebitPositive_def Let_def
      void_defs)

lemma post_then_void_restores_witness:
  "\<exists>d p q. post (draw CHR ''p'') 9 ''w'' (plain_dto (Some ''k1'') ''cash'' ''inc'' 500) ''u'' sample_books = Inr (after_post, p) \<and>
     voidTransaction (draw CHR ''v'') 9 ''w'' ''p'' ''typo'' ''u'' after_post = Inr (d, q) \<and> accounts d = accounts sample_books"
proof -
  from sample_post obtain t es where
    p: "post (draw CHR ''p'') 9 ''w'' (plain_dto (Some ''k1'') ''cash'' ''inc'' 500) ''u'' sample_books = Inr (after_post, t, es)" by auto
  from sample_void_posted obtain d q where v: "voidTransaction (draw CHR ''v'') 9 ''w'' ''p'' ''typo'' ''u'' after_post = Inr (d, q)"
    by blast
  have new: "existing_by_key (td_idempotencyKey (plain_dto (Some ''k1'') ''cash'' ''inc'' 500)) sample_books = None"
    by (simp add: existing_by_key_def plain_dto_def sample_books_def plain_rows)
  have "post_new (draw CHR ''p'') 9 ''w'' (plain_dto (Some ''k1'') ''cash'' ''inc'' 500) ''u'' sample_books = Inr (after_post, t, es)"
    using p new by (simp add: post_def post_after_def)
  from post_newD(1) [OF sample_books_sound this] have "tx_id t = ''p''" by (simp add: draw_def)
  with v have "voidTransaction (draw CHR ''v'') 9 ''w'' (tx_id t) ''typo'' ''u'' after_post = Inr (d, q)" by simp
  from post_then_void_restores [OF sample_books_sound _ new p _ this] p v show ?thesis by auto
qed

lemma void_only_once_witness:
  "\<exists>d r es. voidTransaction (draw CHR ''v'') 9 ''w'' ''t1'' ''typo'' ''u'' sample_books = Inr (d, r, es) \<and>
     voidTransaction (draw CHR ''z'') 10 ''w'' ''t1'' ''again'' ''u'' d =
       Inl (BadRequest ''This transaction has already been voided'')"
proof -
  from sample_void obtain d r es where
    v: "voidTransaction (draw CHR ''v'') 9 ''w'' ''t1'' ''typo'' ''u'' sample_books = Inr (d, r, es)" by auto
  from void_only_once [OF sample_books_sound ids_drawn_draw v] v show ?thesis by blast
qed

end
