(* ===== verification/Ledger_Requests.thy ===== *)
theory Ledger_Requests
  imports Ledger
begin

text \<open>
  What the callers of the posting service can rely on: a retried request answers with the same
  transaction, also when two requests race; the \<open>voidable\<close> flag says what \<open>voidTransaction\<close> would
  do; the pages of a list are the list; and the balances of a workspace obey the accounting
  equation.
\<close>

section \<open>What a posting does to the balances\<close>

definition moves_money :: "(account \<Rightarrow> money) \<Rightarrow> db \<Rightarrow> db \<Rightarrow> bool" where
  "moves_money f db db' \<longleftrightarrow>
     accounts db' = map (\<lambda>a. a\<lparr>acc_currentBalance := acc_currentBalance a + f a\<rparr>) (accounts db)"

definition posted_delta :: "entry list \<Rightarrow> account \<Rightarrow> money" where
  "posted_delta es a = sum_by (entry_delta (isDebitPositive (acc_accountType a))) (filter (\<lambda>e. en_accountId e = acc_id a) es)"

lemma posted_delta_current [simp]: "posted_delta es (a\<lparr>acc_currentBalance := v\<rparr>) = posted_delta es a"
  by (simp add: posted_delta_def)

lemma moves_money_cong:
  "moves_money f db db' \<Longrightarrow> (\<And>a. a \<in> set (accounts db) \<Longrightarrow> f a = g a) \<Longrightarrow> moves_money g db db'"
  by (simp add: moves_money_def)

lemma post_new_moves:
  assumes "books_ok db" and "post_new gen now b dto user db = Inr (db', t, es)" and "ids_drawn gen"
  shows "moves_money (posted_delta es) db db'"
  unfolding moves_money_def
proof (rule cached_determined [where f = "true_balance db'"])
  note n = post_newD [OF assms]
  have own: "map without_balance (accounts db') = map without_balance (accounts db)"
    using n(4) by (simp add: only_balances_def)
  show "map without_balance (accounts db') =
      map without_balance (map (\<lambda>a. a\<lparr>acc_currentBalance := acc_currentBalance a + posted_delta es a\<rparr>) (accounts db))"
    by (simp add: own without_balance_def)
  have tb: "true_balance db' a = true_balance db a + posted_delta es a" for a
    by (simp add: only_balances_reads(6) [OF n(4)] true_balance_with_posting posted_delta_def)
  show "acc_currentBalance x = true_balance db' (without_balance x)" if "x \<in> set (accounts db')" for x
    using that books_okD(4) [OF n(5)] by (simp add: balance_cached_def)
  show "acc_currentBalance y = true_balance db' (without_balance y)"
    if "y \<in> set (map (\<lambda>a. a\<lparr>acc_currentBalance := acc_currentBalance a + posted_delta es a\<rparr>) (accounts db))" for y
    using that books_okD(4) [OF assms(1)] by (auto simp: balance_cached_def tb)
qed

section \<open>Retries and races\<close>

lemma post_existing:
  "truthy (td_idempotencyKey dto) \<Longrightarrow> find_row tx_idempotencyKey (td_idempotencyKey dto) (txns db) = Some t \<Longrightarrow>
   tx_businessId t = b \<Longrightarrow> post gen now b dto user db = Inr (db, t, entries_of db (tx_id t))"
  by (simp add: post_def post_after_def existing_by_key_def)

text \<open>The transaction a successful post answers with can be found under its key.\<close>

lemma post_findable:
  assumes "books_ok db" and "ids_drawn gen" and "truthy (td_idempotencyKey dto)"
    and "post gen now b dto user db = Inr (db1, t, es)"
  shows "find_row tx_idempotencyKey (td_idempotencyKey dto) (txns db1) = Some t" "tx_businessId t = b"
    "entries_of db1 (tx_id t) = es"
proof -
  have "find_row tx_idempotencyKey (td_idempotencyKey dto) (txns db1) = Some t \<and> tx_businessId t = b \<and> entries_of db1 (tx_id t) = es"
  proof (cases "existing_by_key (td_idempotencyKey dto) db")
    case None
    then have "post_new gen now b dto user db = Inr (db1, t, es)" using assms(4) by (simp add: post_def post_after_def)
    note n = post_newD [OF assms(1) this assms(2)]
    have "find_row tx_idempotencyKey (td_idempotencyKey dto) (txns db) = None"
      using n(8) assms(3) by (auto simp: find_row_None)
    then show ?thesis using n(6) by (simp add: n(7) find_row_append n(1))
  next
    case (Some u)
    then show ?thesis using assms(3,4) by (auto simp: post_def post_after_def existing_by_key_def split: if_splits)
  qed
  then show "find_row tx_idempotencyKey (td_idempotencyKey dto) (txns db1) = Some t" "tx_businessId t = b"
    "entries_of db1 (tx_id t) = es" by blast+
qed

text \<open>
  C7: a request sent again with the same idempotency key changes nothing and answers with the
  transaction the first one created, whatever else the second request says.
\<close>

theorem retry_answers_with_the_first:
  assumes "books_ok db" and "ids_drawn gen" and "truthy (td_idempotencyKey dto)"
    and "post gen now b dto user db = Inr (db1, t, es)" and "td_idempotencyKey again = td_idempotencyKey dto"
  shows "post gen' now' b again user' db1 = Inr (db1, t, es)"
  using post_existing [of again db1 t b gen' now' user'] post_findable [OF assms(1-4)] assms(3,5) by simp

lemma find_append_some: "find P xs \<noteq> None \<Longrightarrow> find P (xs @ ys) = find P xs"
  by (induction xs) auto

lemma requireLinks_later:
  assumes "requireLinksBelongToBusiness b dto db = Inr ()" and "contacts db' = contacts db" and "txns db' = txns db @ ts"
  shows "requireLinksBelongToBusiness b dto db' = Inr ()"
proof -
  have "requireContact b (td_contactId dto) db' = Inr ()"
    using assms(1,2) by (auto simp: requireLinksBelongToBusiness_def rbind_eq_Inr requireContact_def)
  moreover have "requireAppliedTo b (td_contactId dto) (td_appliedTo dto) db' = Inr ()"
    using assms(1,3) find_append_some [of "\<lambda>t. Some (tx_id t) = td_appliedTo dto \<and> tx_businessId t = b" "txns db" ts]
    by (auto simp: requireLinksBelongToBusiness_def rbind_eq_Inr requireAppliedTo_def split: option.splits if_splits)
  ultimately show ?thesis by (simp add: requireLinksBelongToBusiness_def)
qed

lemma post_new_duplicate_key:
  assumes "validateEntryShape (td_entries dto) = Inr ()"
    and "requireAccountsBelongToBusiness
       (filter (\<lambda>a. acc_id a \<in> set (dto_account_ids dto)) (accounts db)) (dto_account_ids dto) b = Inr ()"
    and "requireLinksBelongToBusiness b dto db = Inr ()"
    and "fst (sumEntries (td_entries dto)) = snd (sumEntries (td_entries dto))"
    and "td_idempotencyKey dto = Some k" and "Some k \<in> tx_idempotencyKey ` set (txns db)"
  shows "post_new gen now b dto user db = Inl (DbError ''P2002'')"
  using assms unfolding post_new_def
  by (cases "sumEntries (td_entries dto)") (simp add: insert_posting_def)

lemma require_accounts_later:
  assumes "map without_balance (accounts db') = map without_balance (accounts db)"
    and "requireAccountsBelongToBusiness (filter (\<lambda>a. acc_id a \<in> S) (accounts db)) ids b = Inr ()"
  shows "requireAccountsBelongToBusiness (filter (\<lambda>a. acc_id a \<in> S) (accounts db')) ids b = Inr ()"
proof -
  have len: "length (filter (\<lambda>a. acc_id a \<in> S) xs) = length (filter (\<lambda>a. acc_id a \<in> S) (map without_balance xs))"
    and all: "(\<forall>a \<in> set (filter (\<lambda>a. acc_id a \<in> S) xs). acc_businessId a = b) \<longleftrightarrow>
      (\<forall>a \<in> set (filter (\<lambda>a. acc_id a \<in> S) (map without_balance xs)). acc_businessId a = b)" for xs
    by (induction xs) (auto simp: without_balance_def)
  have "requireAccountsBelongToBusiness (filter (\<lambda>a. acc_id a \<in> S) xs) ids b = Inr () \<longleftrightarrow>
      length (filter (\<lambda>a. acc_id a \<in> S) (map without_balance xs)) = length ids \<and>
      (\<forall>a \<in> set (filter (\<lambda>a. acc_id a \<in> S) (map without_balance xs)). acc_businessId a = b)" for xs
    unfolding requireAccountsBelongToBusiness_eq_Inr using len all by metis
  with assms show ?thesis by metis
qed

text \<open>
  Of two identical requests racing with one key, the loser -- whose lookup ran before the
  winner committed, and whose insert hits the unique index -- answers with the winner's
  transaction and posts nothing.
\<close>

theorem race_loser_answers_with_the_winner:
  assumes "books_ok db" and "ids_drawn gen" and "truthy (td_idempotencyKey dto)"
    and "existing_by_key (td_idempotencyKey dto) db = None"
    and winner: "post gen now b dto user db = Inr (db1, t, es)"
  shows "createTransaction db gen2 gen3 now2 b dto user2 db1 = Inr (db1, t, es)"
proof -
  from assms(3) obtain k where k: "td_idempotencyKey dto = Some k" by (auto elim: truthyE)
  have new: "post_new gen now b dto user db = Inr (db1, t, es)" using winner assms(4) by (simp add: post_def post_after_def)
  note n = post_newD [OF assms(1) new assms(2)]
  note f = post_findable [OF assms(1,2,3) winner]
  have own: "own_tables db1 = own_tables db" using only_balances_own [OF n(4)] by simp
  have shape: "validateEntryShape (td_entries dto) = Inr ()"
    and accs: "requireAccountsBelongToBusiness
       (filter (\<lambda>a. acc_id a \<in> set (dto_account_ids dto)) (accounts db)) (dto_account_ids dto) b = Inr ()"
    and even: "fst (sumEntries (td_entries dto)) = snd (sumEntries (td_entries dto))"
    using new unfolding post_new_def
    by (auto simp: rbind_eq_Inr check_eq_Inr split: prod.splits)
  have "Some k \<in> tx_idempotencyKey ` set (txns db1)" using f(1) k by (metis find_row_None option.distinct(1))
  then have "post_new gen2 now2 b dto user2 db1 = Inl (DbError ''P2002'')"
    using own require_accounts_later [OF _ accs] requireLinks_later [OF n(9) _ n(7)] shape even k
    by (intro post_new_duplicate_key) (auto simp: own_tables_def)
  then have "post_after db gen2 now2 b dto user2 db1 = Inl (DbError ''P2002'')"
    using assms(4) by (simp add: post_after_def)
  then show ?thesis
    using assms(3) post_existing [OF assms(3) f(1,2)] by (simp add: createTransaction_def f(3))
qed

section \<open>The voidable flag\<close>

lemma owned_ids_one: "Some i \<in> set (owned_ids db [i]) \<longleftrightarrow> owned_by_goal db i \<or> owned_by_asset db i"
  by (auto simp: owned_ids_def owned_by_goal_def owned_by_asset_def image_iff)

lemma referral_entry:
  assumes "keyed acc_id (accounts db)"
  shows "(\<exists>e \<in> set es. entry_subtype db e = Some s) \<longleftrightarrow>
    (\<exists>a \<in> set (accounts db). acc_id a \<in> en_accountId ` set es \<and> acc_accountSubtype a = Some s)"
proof -
  have one: "entry_subtype db e = Some s \<longleftrightarrow>
      (\<exists>a \<in> set (accounts db). acc_id a = en_accountId e \<and> acc_accountSubtype a = Some s)" for e
  proof
    assume "entry_subtype db e = Some s"
    then obtain a where "find_row acc_id (en_accountId e) (accounts db) = Some a" "acc_accountSubtype a = Some s"
      by (auto simp: entry_subtype_def bind_eq_Some_conv)
    then show "\<exists>a \<in> set (accounts db). acc_id a = en_accountId e \<and> acc_accountSubtype a = Some s"
      by (blast dest: find_row_Some)
  next
    assume "\<exists>a \<in> set (accounts db). acc_id a = en_accountId e \<and> acc_accountSubtype a = Some s"
    then obtain a where a: "a \<in> set (accounts db)" "acc_id a = en_accountId e" "acc_accountSubtype a = Some s" by blast
    from find_row_mem [OF assms a(1)] a show "entry_subtype db e = Some s" by (simp add: entry_subtype_def)
  qed
  show ?thesis unfolding one by (auto simp: image_iff)
qed

lemma recalculate_all_not_bad: "recalculate_all ids db \<noteq> Inl (BadRequest m)"
proof (induction ids arbitrary: db)
  case (Cons i ids)
  have one: "recalculateBalance i db \<noteq> Inl (BadRequest m)"
  proof (cases "find_row acc_id i (accounts db)")
    case (Some a)
    then show ?thesis by (simp add: recalculateBalance_value)
  qed (simp add: recalculateBalance_def)
  show ?case
  proof (cases "recalculateBalance i db")
    case (Inr r)
    with Cons.IH show ?thesis by (simp add: recalculate_all_def)
  qed (use one in \<open>simp add: recalculate_all_def\<close>)
qed (simp add: recalculate_all_def)

lemma insert_posting_not_bad: "insert_posting t es db \<noteq> Inl (BadRequest m)"
proof -
  have "rfold insert_entry es d \<noteq> Inl (BadRequest m)" for d
  proof (induction es arbitrary: d)
    case (Cons e es)
    have "insert_entry e d \<noteq> Inl (BadRequest m)"
      by (simp add: insert_entry_def store_money_def check_def insert_row_def)
    with Cons.IH show ?case by (cases "insert_entry e d") simp_all
  qed simp
  then show ?thesis by (simp add: insert_posting_def check_def insert_row_def)
qed

text \<open>
  A transaction is shown as voidable exactly when \<open>voidTransaction\<close> raises no objection of
  its own to it -- still posted, no reversal, not a savings, asset or referral posting.
\<close>

theorem voidable_says_what_void_does:
  assumes "keyed acc_id (accounts db)" and "getTransaction b i db = Inr (t, voidable)"
  shows "voidable \<longleftrightarrow> (\<forall>m. voidTransaction gen now b i reason user db \<noteq> Inl (BadRequest m))"
proof -
  from assms(2) have t: "find_row tx_id i (txns db) = Some t" "tx_businessId t = b"
    and v: "voidable = (tx_status t = POSTED \<and> \<not> truthy (tx_reversalOfId t) \<and> Some i \<notin> set (owned_ids db [i]) \<and>
        \<not> (\<exists>e \<in> set (entries_of db i). entry_subtype db e = Some REFERRAL_BONUS_INCOME_SUBTYPE))"
    unfolding getTransaction_def by (auto simp: result_simps withVoidable_def Let_def dest!: find_row_Some)
  have mem: "t \<in> set (txns db)" "tx_id t = i" using t(1) by (auto dest: find_row_Some)
  have posted: "tx_status t = POSTED \<longleftrightarrow> tx_status t \<noteq> VOIDED" by (cases "tx_status t") auto
  define refs where "refs = filter (\<lambda>a. acc_id a \<in> en_accountId ` set (entries_of db i) \<and>
      acc_accountSubtype a = Some REFERRAL_BONUS_INCOME_SUBTYPE) (accounts db)"
  have v: "voidable \<longleftrightarrow> tx_status t \<noteq> VOIDED \<and> \<not> truthy (tx_reversalOfId t) \<and> \<not> owned_by_goal db i \<and> \<not> owned_by_asset db i \<and> refs = []"
    unfolding v owned_ids_one referral_entry [OF assms(1)] posted by (auto simp: refs_def filter_empty_conv)
  have ok: "void_claimed gen now b reason user t (entries_of db i) db \<noteq> Inl (BadRequest m)" if "tx_status t = POSTED" for m
  proof -
    have "filter (\<lambda>u. tx_id u = tx_id t \<and> tx_status u = POSTED) (txns db) \<noteq> []"
      using mem(1) that by (auto simp: filter_empty_conv)
    then show ?thesis
      using insert_posting_not_bad recalculate_all_not_bad
      unfolding void_claimed_def rbind_def by (auto split: sum.split)
  qed
  have "(\<forall>m. voidTransaction gen now b i reason user db \<noteq> Inl (BadRequest m)) \<longleftrightarrow>
      tx_status t \<noteq> VOIDED \<and> \<not> truthy (tx_reversalOfId t) \<and> \<not> owned_by_goal db i \<and> \<not> owned_by_asset db i \<and> refs = []"
    using t ok posted
    by (cases "truthy (tx_reversalOfId t)"; cases "tx_status t = VOIDED"; cases "owned_by_goal db i";
        cases "owned_by_asset db i"; cases "refs = []")
      (simp_all add: voidTransaction_def require_row_def check_def requireNotOwnedByAFeature_def flip: refs_def)
  with v show ?thesis by simp
qed

section \<open>The pages of a list\<close>

lemma pages_concat: "0 < l \<Longrightarrow> concat (map (\<lambda>p. take l (drop (p * l) xs)) [0..<n]) = take (n * l) xs"
proof (induction n)
  case (Suc n)
  have "take (l + n * l) xs = take (n * l) xs @ take l (drop (n * l) xs)"
    by (metis add.commute take_add)
  with Suc show ?case by simp
qed simp

text \<open>
  The pages of a transaction list, put together, are all the matching transactions of the
  workspace, newest first, each once; the total and the number of pages say how many.
\<close>

theorem list_pages_are_the_list:
  assumes "0 < limit" and "tf_limit f = Some limit"
  shows "let pages = map (\<lambda>p. listTransactions contains b (f\<lparr>tf_page := Some (Suc p)\<rparr>) db)
        [0..<tp_totalPages (listTransactions contains b f db)] in
    map fst (concat (map tp_data pages)) = find_many (list_where contains db b f) newest_first (txns db) \<and>
    (\<forall>p \<in> set pages. tp_total p = length (filter (list_where contains db b f) (txns db)))"
proof -
  define all where "all = find_many (list_where contains db b f) newest_first (txns db)"
  define n where "n = (length all + limit - 1) div limit"
  have total: "tp_totalPages (listTransactions contains b f db) = n"
    by (simp add: listTransactions_def Let_def n_def all_def length_find_many assms(2))
  have wh: "list_where contains db b (f\<lparr>tf_page := q\<rparr>) = list_where contains db b f" for q
    by (simp add: list_where_def fun_eq_iff split: option.split)
  have data: "map fst (tp_data (listTransactions contains b (f\<lparr>tf_page := Some (Suc p)\<rparr>) db)) =
      take limit (drop (p * limit) all)" for p
    by (simp add: listTransactions_def Let_def wh assms(2) withVoidable_def comp_def flip: all_def)
  have "length all \<le> n * limit"
  proof -
    have "length all < n * limit + 1"
      using assms(1) dividend_less_times_div [of limit "length all + limit - 1"] by (simp add: n_def algebra_simps)
    then show ?thesis by simp
  qed
  then have "concat (map (\<lambda>p. take limit (drop (p * limit) all)) [0..<n]) = all"
    using pages_concat [OF assms(1), of all n] by simp
  then have "map fst (concat (map (\<lambda>p. tp_data (listTransactions contains b (f\<lparr>tf_page := Some (Suc p)\<rparr>) db)) [0..<n])) = all"
    by (simp add: map_concat comp_def data)
  then show ?thesis
    unfolding Let_def total by (simp add: comp_def all_def) (simp add: listTransactions_def Let_def wh)
qed

section \<open>The accounting equation\<close>

definition signed :: "account \<Rightarrow> money \<Rightarrow> money" where
  "signed a m = (if isDebitPositive (acc_accountType a) then m else - m)"

lemma signed_movement:
  "signed a (true_balance db a - acc_openingBalance a) =
   sum_by (\<lambda>e. if en_accountId e = acc_id a then debit_signed e else 0) (entries db)"
proof -
  have "entry_delta dp e = (if dp then debit_signed e else - debit_signed e)" for dp e
    by (simp add: entry_delta_def debit_signed_def)
  then have "entry_delta True = debit_signed" "entry_delta False = (\<lambda>e. - debit_signed e)" by (simp_all add: fun_eq_iff)
  then show ?thesis
    by (cases "isDebitPositive (acc_accountType a)")
      (simp_all add: signed_def true_balance_def account_entries_def sum_by_minus sum_by_filter)
qed

lemma debit_signed_txn: "balanced_txn db t \<Longrightarrow>
    sum_by (\<lambda>e. if en_transactionId e = tx_id t then debit_signed e else 0) (entries db) = 0"
proof -
  assume "balanced_txn db t"
  moreover have "sum_by debit_signed es = side_sum DEBIT es - side_sum CREDIT es" for es
    by (induction es) (auto simp: debit_signed_def entry_type_other)
  ultimately show ?thesis by (simp add: balanced_txn_def entries_of_def flip: sum_by_filter)
qed

lemma sum_by_only:
  assumes "distinct (map k xs)" and "x \<in> set xs"
  shows "sum_by (\<lambda>y. if k x = k y then v else 0) xs = v"
  using sum_by_delta [OF assms, of "\<lambda>_. v"] by (simp add: eq_commute)

lemma sum_by_none: "k \<notin> f ` set xs \<Longrightarrow> sum_by (\<lambda>y. if k = f y then v else 0) xs = 0"
  by (induction xs) auto

lemma balances_net:
  assumes "books_ok db"
  shows "sum_by (\<lambda>a. signed a (acc_currentBalance a - acc_openingBalance a))
    (filter (\<lambda>a. acc_businessId a = b) (accounts db)) = 0"
proof -
  note bo = books_okD [OF assms]
  note c = ledger_coreD [OF bo(1)]
  define As where "As = filter (\<lambda>a. acc_businessId a = b) (accounts db)"
  define Ts where "Ts = filter (\<lambda>t. tx_businessId t = b) (txns db)"
  have dist: "distinct (map acc_id As)" "distinct (map tx_id Ts)"
    using keyed_filter [OF c(1)] keyed_filter [OF c(2)] by (simp_all add: keyed_def As_def Ts_def)
  have pick: "sum_by (\<lambda>a. if en_accountId e = acc_id a then debit_signed e else 0) As =
      sum_by (\<lambda>t. if en_transactionId e = tx_id t then debit_signed e else 0) Ts" if e: "e \<in> set (entries db)" for e
  proof -
    from c(5) e obtain t a where t: "t \<in> set (txns db)" "tx_id t = en_transactionId e" and
      a: "a \<in> set (accounts db)" "acc_id a = en_accountId e"
      using old_entry_txn [OF c(5) e] by (force simp: fk_entries_def)
    have same: "acc_businessId a = tx_businessId t" using c(8) e t a unfolding same_workspace_def by metis
    show ?thesis
    proof (cases "tx_businessId t = b")
      case True
      then show ?thesis
        using sum_by_only [OF dist(1), of a "debit_signed e"] sum_by_only [OF dist(2), of t "debit_signed e"] same t a
        by (simp add: As_def Ts_def)
    next
      case False
      have na: "en_accountId e \<notin> acc_id ` set As"
        using find_row_mem [OF c(1)] a False same by (auto simp: As_def) (metis option.inject)
      have nt: "en_transactionId e \<notin> tx_id ` set Ts"
        using find_row_mem [OF c(2)] t False by (auto simp: Ts_def) (metis option.inject)
      show ?thesis unfolding sum_by_none [OF na] sum_by_none [OF nt] ..
    qed
  qed
  have "sum_by (\<lambda>a. signed a (acc_currentBalance a - acc_openingBalance a)) As =
      sum_by (\<lambda>a. sum_by (\<lambda>e. if en_accountId e = acc_id a then debit_signed e else 0) (entries db)) As"
    using bo(4) by (intro sum_by_cong) (simp add: As_def balance_cached_def signed_movement)
  also have "\<dots> = sum_by (\<lambda>e. sum_by (\<lambda>t. if en_transactionId e = tx_id t then debit_signed e else 0) Ts) (entries db)"
    by (subst sum_by_swap) (rule sum_by_cong, rule pick)
  also have "\<dots> = sum_by (\<lambda>t. sum_by (\<lambda>e. if en_transactionId e = tx_id t then debit_signed e else 0) (entries db)) Ts"
    by (rule sum_by_swap)
  also have "\<dots> = sum_by (\<lambda>t. 0) Ts"
    using c(6) by (intro sum_by_cong) (simp add: Ts_def debit_signed_txn)
  finally show ?thesis by (simp add: As_def)
qed

text \<open>What the accounts of some types gained over their opening balances.\<close>

definition gained :: "account_type set \<Rightarrow> id \<Rightarrow> db \<Rightarrow> money" where
  "gained T b db = sum_by (\<lambda>a. acc_currentBalance a - acc_openingBalance a)
     (filter (\<lambda>a. acc_businessId a = b \<and> acc_accountType a \<in> T) (accounts db))"

lemma signed_splits:
  "sum_by (\<lambda>a. signed a (acc_currentBalance a - acc_openingBalance a)) (filter (\<lambda>a. acc_businessId a = b) (accounts db)) =
   gained {ASSET, account_type.EXPENSE} b db - gained {LIABILITY, EQUITY, account_type.INCOME} b db"
proof -
  have "sum_by (\<lambda>a. signed a (g a)) (filter (\<lambda>a. acc_businessId a = b) As) =
      sum_by g (filter (\<lambda>a. acc_businessId a = b \<and> acc_accountType a \<in> {ASSET, account_type.EXPENSE}) As) -
      sum_by g (filter (\<lambda>a. acc_businessId a = b \<and> acc_accountType a \<in> {LIABILITY, EQUITY, account_type.INCOME}) As)" for g As
  proof (induction As)
    case (Cons a As)
    then show ?case by (cases "acc_accountType a") (simp_all add: signed_def isDebitPositive_def)
  qed simp
  then show ?thesis by (simp only: gained_def)
qed

text \<open>
  C2: whatever postings, voids, changes to the chart of accounts and reconciliations run, the accounting
  equation holds of the balances the accounts carry: in every workspace, what the asset and expense
  accounts gained over their opening balances is what the liability, equity and income accounts gained.
\<close>

theorem accounting_equation:
  assumes "ledger_step\<^sup>*\<^sup>* db db'" and "books_ok db"
  shows "gained {ASSET, account_type.EXPENSE} b db' = gained {LIABILITY, EQUITY, account_type.INCOME} b db'"
proof -
  have "books_ok db'" by (rule books.run_inv [OF assms])
  from balances_net [OF this, of b] show ?thesis unfolding signed_splits by simp
qed

section \<open>A worked example\<close>

lemma retry_answers_with_the_first_witness:
  "\<exists>t es. post (draw CHR ''p'') 9 ''w'' (plain_dto (Some ''k1'') ''cash'' ''inc'' 500) ''u'' sample_books = Inr (after_post, t, es) \<and>
     post (draw CHR ''q'') 11 ''w'' (plain_dto (Some ''k1'') ''bank'' ''inc'' 700) ''u2'' after_post = Inr (after_post, t, es)"
proof -
  from sample_post obtain t es where
    p: "post (draw CHR ''p'') 9 ''w'' (plain_dto (Some ''k1'') ''cash'' ''inc'' 500) ''u'' sample_books = Inr (after_post, t, es)" by auto
  have k: "truthy (td_idempotencyKey (plain_dto (Some ''k1'') ''cash'' ''inc'' 500))"
    "td_idempotencyKey (plain_dto (Some ''k1'') ''bank'' ''inc'' 700) = td_idempotencyKey (plain_dto (Some ''k1'') ''cash'' ''inc'' 500)"
    by (simp_all add: plain_dto_def)
  from retry_answers_with_the_first [OF sample_books_sound ids_drawn_draw k(1) p k(2)] p show ?thesis by blast
qed

lemma race_loser_answers_with_the_winner_witness:
  "\<exists>t es. post (draw CHR ''p'') 9 ''w'' (plain_dto (Some ''k1'') ''cash'' ''inc'' 500) ''u'' sample_books = Inr (after_post, t, es) \<and>
     createTransaction sample_books (draw CHR ''q'') (draw CHR ''r'') 10 ''w'' (plain_dto (Some ''k1'') ''cash'' ''inc'' 500) ''u'' after_post
       = Inr (after_post, t, es)"
proof -
  from sample_post obtain t es where
    p: "post (draw CHR ''p'') 9 ''w'' (plain_dto (Some ''k1'') ''cash'' ''inc'' 500) ''u'' sample_books = Inr (after_post, t, es)" by auto
  have k: "truthy (td_idempotencyKey (plain_dto (Some ''k1'') ''cash'' ''inc'' 500))" by (simp add: plain_dto_def)
  have new: "existing_by_key (td_idempotencyKey (plain_dto (Some ''k1'') ''cash'' ''inc'' 500)) sample_books = None"
    by (simp add: existing_by_key_def plain_dto_def sample_books_def plain_rows)
  from race_loser_answers_with_the_winner [OF sample_books_sound ids_drawn_draw k new p] p show ?thesis by blast
qed

lemma voidable_says_what_void_does_witness:
  "\<exists>t. getTransaction ''w'' ''t5'' sample_books = Inr (t, False) \<and>
     \<not> (\<forall>m. voidTransaction (draw CHR ''v'') 9 ''w'' ''t5'' ''typo'' ''u'' sample_books \<noteq> Inl (BadRequest m))"
proof -
  have "\<exists>t. getTransaction ''w'' ''t5'' sample_books = Inr (t, False)"
    by (simp add: getTransaction_def require_row_def sample_books_def plain_rows withVoidable_def)
  then obtain t where g: "getTransaction ''w'' ''t5'' sample_books = Inr (t, False)" by blast
  with voidable_says_what_void_does [OF sample_books_ok(1) g] show ?thesis by blast
qed

definition no_filters :: txn_filters where
  "no_filters = \<lparr>tf_dateFrom = None, tf_dateTo = None, tf_type = None, tf_types = [], tf_accountId = None,
     tf_categoryId = None, tf_contactId = None, tf_contactCategory = None, tf_status = None, tf_search = None,
     tf_page = None, tf_limit = Some 2\<rparr>"

lemma list_pages_are_the_list_witness:
  "map fst (concat (map (\<lambda>p. tp_data (listTransactions (=) ''w'' (no_filters\<lparr>tf_page := Some (Suc p)\<rparr>) sample_books))
      [0..<tp_totalPages (listTransactions (=) ''w'' no_filters sample_books)])) =
   find_many (list_where (=) sample_books ''w'' no_filters) newest_first (txns sample_books)"
proof -
  have "tf_limit no_filters = Some 2" by (simp add: no_filters_def)
  from list_pages_are_the_list [OF _ this, of "(=)" "''w''" sample_books] show ?thesis by (simp add: Let_def comp_def)
qed

lemma accounting_equation_witness:
  "gained {ASSET, account_type.EXPENSE} ''w'' after_post = 500 + gained {ASSET, account_type.EXPENSE} ''w'' sample_books \<and>
   gained {LIABILITY, EQUITY, account_type.INCOME} ''w'' after_post = gained {ASSET, account_type.EXPENSE} ''w'' after_post"
proof -
  from sample_post obtain t es where
    p: "post (draw CHR ''p'') 9 ''w'' (plain_dto (Some ''k1'') ''cash'' ''inc'' 500) ''u'' sample_books = Inr (after_post, t, es)" by auto
  then have "ledger_step sample_books after_post" by (rule ledger_step.posted) simp
  then have run: "ledger_step\<^sup>*\<^sup>* sample_books after_post" by (rule r_into_rtranclp)
  have "gained {ASSET, account_type.EXPENSE} ''w'' after_post = 500 + gained {ASSET, account_type.EXPENSE} ''w'' sample_books"
    by (simp add: gained_def after_post_def post_defs plain_dto_def draw_def sample_books_def plain_rows isDebitPositive_def Let_def)
  with accounting_equation [OF run sample_books_sound, of "''w''"] show ?thesis by simp
qed

end
