(* ===== verification/Ledger_Bounds.thy ===== *)
theory Ledger_Bounds
  imports Ledger
begin

text \<open>
  Every amount the ledger keeps stays within its column: the money columns are DECIMAL(14,2), an
  entry's amount is positive, and nothing the operations compute and cache overflows unnoticed; a
  request that would is refused as a whole.
\<close>

definition entry_typed :: "entry \<Rightarrow> bool" where
  "entry_typed e \<longleftrightarrow> 0 < en_amount e \<and> fits_money (en_amount e)"

definition account_typed :: "account \<Rightarrow> bool" where
  "account_typed a \<longleftrightarrow> fits_money (acc_openingBalance a) \<and> fits_money (acc_currentBalance a)"

definition amounts_typed :: "db \<Rightarrow> bool" where
  "amounts_typed db \<longleftrightarrow> (\<forall>e \<in> set (entries db). entry_typed e) \<and> (\<forall>a \<in> set (accounts db). account_typed a)"

lemma amounts_typed_recalculate: "recalculateBalance i db = Inr (db', v) \<Longrightarrow> amounts_typed db \<Longrightarrow> amounts_typed db'"
  by (auto simp: result_simps set_balance_def amounts_typed_def account_typed_def set_map_row)

lemma amounts_typed_recalculate_all: "recalculate_all ids db = Inr db' \<Longrightarrow> amounts_typed db \<Longrightarrow> amounts_typed db'"
proof (induction ids arbitrary: db)
  case (Cons i ids)
  then obtain mid v where "recalculateBalance i db = Inr (mid, v)" and rest: "recalculate_all ids mid = Inr db'"
    by (auto simp: recalculate_all_def rbind_eq_Inr)
  with amounts_typed_recalculate Cons.prems(2) have "amounts_typed mid" by blast
  with Cons.IH [OF rest] show ?case .
qed (simp add: recalculate_all_def)

lemma amounts_typed_with_posting:
  "amounts_typed db \<Longrightarrow> (\<And>e. e \<in> set es \<Longrightarrow> entry_typed e) \<Longrightarrow> amounts_typed (with_posting t es db)"
  by (auto simp: amounts_typed_def)

lemma amounts_typed_post:
  assumes typed: "amounts_typed db" and books: "books_ok db" and post: "post_new gen now b dto user db = Inr (db', p)" and gen: "ids_drawn gen"
  shows "amounts_typed db'"
proof -
  let ?es = "entry_rows gen (td_entries dto)"
  have fits: "fits_money (en_amount e)" if "e \<in> set ?es" for e
    using post that unfolding post_new_def by (auto simp: rbind_eq_Inr insert_posting_eq_Inr split: prod.splits)
  from post books_okD(5) [OF books] gen show ?thesis
  proof (rule post_newE)
    assume "posting_fits db (txn_row gen now b dto user) ?es"
      and rec: "recalculate_all (dto_account_ids dto) (with_posting (txn_row gen now b dto user) ?es db) = Inr db'"
    then have "entry_typed e" if "e \<in> set ?es" for e using fits that by (simp add: entry_typed_def posting_fits_def)
    then show ?thesis by (intro amounts_typed_recalculate_all [OF rec] amounts_typed_with_posting [OF typed])
  qed
qed

lemma amounts_typed_void:
  assumes typed: "amounts_typed db" and books: "books_ok db" and void: "voidTransaction gen now b i reason user db = Inr (db', p)" and gen: "ids_drawn gen"
  shows "amounts_typed db'"
  using void books_okD(1,2) [OF books] gen
proof (rule voidTransactionE)
  fix t
  assume rec: "recalculate_all (js_set (map en_accountId (entries_of db i)))
      (with_posting (reversal_row gen now b user t) (mirror_rows gen (entries_of db i)) (claimed i now reason db)) = Inr db'"
  have "entry_typed e" if mem: "e \<in> set (mirror_rows gen (entries_of db i))" for e
  proof -
    from mirror_rows_all [OF mem] obtain d where "d \<in> set (entries_of db i)" "en_amount e = en_amount d" by blast
    with typed show ?thesis by (simp add: amounts_typed_def entry_typed_def entries_of_def)
  qed
  moreover have "amounts_typed (claimed i now reason db)" using typed by (simp add: amounts_typed_def)
  ultimately show ?thesis by (intro amounts_typed_recalculate_all [OF rec] amounts_typed_with_posting)
qed

lemma amounts_typed_map_row:
  assumes "amounts_typed db" and "\<And>a. account_typed (f a) = account_typed a"
  shows "amounts_typed (db\<lparr>accounts := map_row acc_id i f (accounts db)\<rparr>)"
  using assms by (auto simp: amounts_typed_def set_map_row)

lemma amounts_typed_accounts:
  assumes "accounts_step db db'" and typed: "amounts_typed db"
  shows "amounts_typed db'"
  using assms(1)
proof (rule accounts_stepE)
  fix newId now b dto a assume run: "create_account newId now b dto db = Inr (db', a)"
  then have "account_typed a" "db' = db\<lparr>accounts := accounts db @ [a]\<rparr>"
    by (auto simp: create_account_def insert_account_def account_typed_def Let_def result_simps split: if_splits)
  with typed show ?thesis by (simp add: amounts_typed_def)
next
  fix b i deleted assume "removeOrArchive b i db = Inr (db', deleted)"
  then show ?thesis
    by (rule removeOrArchiveE)
      (use typed in \<open>auto intro!: amounts_typed_map_row simp: account_typed_def amounts_typed_def set_map_row split: if_splits\<close>)
qed (auto elim!: update_accountE archive_accountE unarchive_accountE intro!: amounts_typed_map_row
  simp: typed account_typed_def apply_account_update_def)

interpretation typed: invariant_system ledger_step "\<lambda>d. books_ok d \<and> amounts_typed d"
proof
  fix db db' assume step: "ledger_step db db'" and inv: "books_ok db \<and> amounts_typed db"
  then have books: "books_ok db" and typed: "amounts_typed db" by auto
  from step have "amounts_typed db'"
  proof (rule ledger_stepE)
    fix gen now b dto user p assume p: "post gen now b dto user db = Inr (db', p)" and gen: "ids_drawn gen"
    show ?thesis
    proof (cases "existing_by_key (td_idempotencyKey dto) db")
      case None
      with p have "post_new gen now b dto user db = Inr (db', p)" by (simp add: post_def post_after_def)
      with typed books gen show ?thesis by (blast intro: amounts_typed_post)
    next
      case (Some x)
      then show ?thesis using p typed by (auto simp: post_def post_after_def split: if_splits)
    qed
  next
    fix b r assume "reconcileWorkspace b db = Inr (db', r)"
    with reconcileWorkspace_no_change [OF books] typed show ?thesis by blast
  qed (use typed books in \<open>blast intro: amounts_typed_void amounts_typed_accounts\<close>)+
  with books.step_inv [OF step books] show "books_ok db' \<and> amounts_typed db'" by blast
qed

text \<open>
  Every row the ledger keeps stays within the types of its columns: along any run of postings,
  voids, changes to the chart of accounts and reconciliations, each entry's amount is positive and
  fits DECIMAL(14,2), and so do the opening and the cached balance of every account, including
  balances that were computed rather than entered.
\<close>

theorem ledger_amounts_typed:
  assumes "ledger_step\<^sup>*\<^sup>* db db'" and "books_ok db" and "amounts_typed db"
  shows "(\<forall>e \<in> set (entries db'). 0 < en_amount e \<and> fits_money (en_amount e)) \<and>
    (\<forall>a \<in> set (accounts db'). fits_money (acc_openingBalance a) \<and> fits_money (acc_currentBalance a) \<and>
      acc_currentBalance a = true_balance db' a)"
proof -
  have "books_ok db' \<and> amounts_typed db'" using typed.run_inv [OF assms(1)] assms(2,3) by blast
  then show ?thesis using books_okD(4) by (auto simp: amounts_typed_def entry_typed_def account_typed_def balance_cached_def)
qed

lemma ledger_amounts_typed_witness:
  "\<exists>e \<in> set (entries after_post). en_amount e = 500 \<and> fits_money (en_amount e)"
proof -
  from sample_post obtain p where
    p: "post (draw CHR ''p'') 9 ''w'' (plain_dto (Some ''k1'') ''cash'' ''inc'' 500) ''u'' sample_books = Inr (after_post, p)" by blast
  then have "ledger_step sample_books after_post" by (rule ledger_step.posted) simp
  then have run: "ledger_step\<^sup>*\<^sup>* sample_books after_post" by (rule r_into_rtranclp)
  have typed: "amounts_typed sample_books"
    by (simp add: amounts_typed_def entry_typed_def account_typed_def fits_money_def sample_books_def plain_rows)
  have "\<exists>e \<in> set (entries after_post). en_amount e = 500"
    by (simp add: after_post_def post_defs plain_dto_def draw_def sample_books_def plain_rows isDebitPositive_def Let_def)
  with ledger_amounts_typed [OF run sample_books_sound typed] show ?thesis by blast
qed

end
