(* ===== verification/Ledger_Abstract.thy ===== *)
theory Ledger_Abstract
  imports Ledger
begin

text \<open>
  The ledger as its users think of it: a book that maps each transaction in force to the amounts it
  moves. Posting writes a line, voiding strikes it out, and the balance of an account is its
  opening balance and the lines of the book. The tables of \<open>Transactions\<close> never delete anything and
  undo a posting by a second one; that they implement the book is the refinement proved here.
\<close>

section \<open>The book\<close>

type_synonym movement = "id \<times> entry_type \<times> money"
type_synonym book = "id \<rightharpoonup> movement list"

fun movement_delta :: "bool \<Rightarrow> movement \<Rightarrow> money" where
  "movement_delta debitPositive (a, ty, m) = (if (ty = DEBIT) = debitPositive then m else - m)"

definition line_delta :: "account \<Rightarrow> movement list \<Rightarrow> money" where
  "line_delta a ms = sum_by (movement_delta (isDebitPositive (acc_accountType a))) (filter (\<lambda>x. fst x = acc_id a) ms)"

definition book_balance :: "account \<Rightarrow> book \<Rightarrow> money" where
  "book_balance a B = acc_openingBalance a + (\<Sum>i \<in> dom B. line_delta a (the (B i)))"

definition balances_out :: "movement list \<Rightarrow> bool" where
  "balances_out ms \<longleftrightarrow> sum_by (movement_delta True) ms = 0"

text \<open>A new line balances; any line may be struck out.\<close>

inductive book_step :: "book \<Rightarrow> book \<Rightarrow> bool" where
  written: "i \<notin> dom B \<Longrightarrow> i \<noteq> [] \<Longrightarrow> balances_out ms \<Longrightarrow> book_step B (B(i \<mapsto> ms))"
| struck: "i \<in> dom B \<Longrightarrow> book_step B (B(i := None))"

definition book_of :: "db \<Rightarrow> book" where
  "book_of db = (\<lambda>i. case find_row tx_id i (txns db) of
     Some t \<Rightarrow> if live_txn t then Some (map moves (entries_of db i)) else None | None \<Rightarrow> None)"

definition dto_moves :: "create_txn_dto \<Rightarrow> movement list" where
  "dto_moves dto = map (\<lambda>d. (ed_accountId d, ed_entryType d, ed_amount d)) (td_entries dto)"

section \<open>Reading balances off the book\<close>

lemma dom_book_of: "keyed tx_id (txns db) \<Longrightarrow> dom (book_of db) = tx_id ` set (filter live_txn (txns db))"
  by (force simp: book_of_def dom_def find_row_mem split: option.splits if_splits dest: find_row_Some)

lemma movement_delta_moves: "movement_delta dp (moves e) = entry_delta dp e"
  by (cases "en_type e") (auto simp: moves_def entry_delta_def)

lemma line_delta_moves: "line_delta a (map moves es) =
    sum_by (entry_delta (isDebitPositive (acc_accountType a))) (filter (\<lambda>e. en_accountId e = acc_id a) es)"
  by (simp add: line_delta_def filter_map comp_def movement_delta_moves) (simp add: moves_def)

lemma book_of_live: "keyed tx_id (txns db) \<Longrightarrow> t \<in> set (txns db) \<Longrightarrow> live_txn t \<Longrightarrow> book_of db (tx_id t) = Some (map moves (entries_of db (tx_id t)))"
  by (simp add: book_of_def find_row_mem)

lemma live_entry:
  assumes "keyed tx_id (txns db)" and "on_txn db live_txn e"
  shows "en_transactionId e \<in> tx_id ` set (filter live_txn (txns db))"
proof -
  obtain t where t: "find_row tx_id (en_transactionId e) (txns db) = Some t" "live_txn t"
    using assms(2) by (auto simp: on_txn_def txn_of_def split: option.splits)
  from find_row_Some [OF t(1)] t(2) show ?thesis by (auto intro: rev_image_eqI)
qed

lemma live_entries_of: "keyed tx_id (txns db) \<Longrightarrow> t \<in> set (txns db) \<Longrightarrow> live_txn t \<Longrightarrow> en_transactionId e = tx_id t \<Longrightarrow> on_txn db live_txn e"
  by (simp add: on_txn_def txn_of_def find_row_mem)

lemma cached_is_book_balance:
  assumes "books_ok db" and "a \<in> set (accounts db)"
  shows "acc_currentBalance a = book_balance a (book_of db)"
proof -
  note b = books_okD [OF assms(1)]
  note k = ledger_coreD(2) [OF b(1)]
  define dp where "dp = isDebitPositive (acc_accountType a)"
  define live where "live = filter live_txn (txns db)"
  define es where "es = filter (on_txn db live_txn) (account_entries db (acc_id a))"
  have dist: "distinct (map tx_id live)" using keyed_filter [OF k] by (simp add: keyed_def live_def)
  have "acc_currentBalance a = acc_openingBalance a + sum_by (entry_delta dp) (account_entries db (acc_id a))"
    using b(4) assms(2) by (simp add: balance_cached_def true_balance_def dp_def)
  also have "sum_by (entry_delta dp) (account_entries db (acc_id a)) = sum_by (entry_delta dp) es"
    using sum_by_split [of "entry_delta dp" "account_entries db (acc_id a)" "on_txn db live_txn"] sum_delta_dead [OF b(3) assms(2), of dp]
    by (simp add: es_def dead_entries_def)
  also have "\<dots> = sum_by (\<lambda>t. sum_by (entry_delta dp) (filter (\<lambda>e. en_transactionId e = tx_id t) es)) live"
    by (rule sum_by_member [OF dist, symmetric]) (use live_entry [OF k] in \<open>simp add: es_def live_def\<close>)
  also have "\<dots> = sum_by (\<lambda>t. line_delta a (the (book_of db (tx_id t)))) live"
  proof (rule sum_by_cong)
    fix t assume t: "t \<in> set live"
    then have "filter (\<lambda>e. en_transactionId e = tx_id t) es = filter (\<lambda>e. en_accountId e = acc_id a) (entries_of db (tx_id t))"
      using live_entries_of [OF k, of t] by (auto simp: es_def live_def account_entries_def entries_of_def intro!: filter_cong)
    with t show "sum_by (entry_delta dp) (filter (\<lambda>e. en_transactionId e = tx_id t) es) = line_delta a (the (book_of db (tx_id t)))"
      by (simp add: live_def book_of_live [OF k] line_delta_moves dp_def)
  qed
  also have "\<dots> = sum_by (\<lambda>i. line_delta a (the (book_of db i))) (map tx_id live)" by simp
  also have "\<dots> = (\<Sum>i \<in> dom (book_of db). line_delta a (the (book_of db i)))"
    by (simp only: dom_book_of [OF k] live_def [symmetric] set_map [symmetric] sum_by_def sum_list_distinct_conv_sum_set [OF dist])
  finally show ?thesis by (simp add: book_balance_def)
qed

section \<open>The tables implement the book\<close>

lemma book_of_only_balances: "only_balances db db' \<Longrightarrow> book_of db' = book_of db"
  unfolding book_of_def by (simp only: only_balances_tables only_balances_reads)

lemma book_of_with_posting:
  assumes "fk_entries db" and "posting_fits db t es"
  shows "book_of (with_posting t es db) = (if live_txn t then (book_of db)(tx_id t \<mapsto> map moves es) else book_of db)"
proof (rule ext)
  fix i
  have new: "tx_id t \<notin> tx_id ` set (txns db)" and tid: "\<And>e. e \<in> set es \<Longrightarrow> en_transactionId e = tx_id t"
    using assms(2) by (simp_all add: posting_fits_def)
  have none: "find_row tx_id (tx_id t) (txns db) = None" using new by (simp add: find_row_None)
  have "entries_of (with_posting t es db) i = entries_of db i @ (if i = tx_id t then es else [])"
    by (rule entries_of_with_posting [OF tid])
  moreover have "entries_of db (tx_id t) = []" by (rule entries_of_fresh [OF assms(1) new])
  ultimately show "book_of (with_posting t es db) i = (if live_txn t then (book_of db)(tx_id t \<mapsto> map moves es) else book_of db) i"
    using none by (cases "i = tx_id t") (auto simp: book_of_def find_row_append split: option.splits)
qed

lemma book_of_claimed: "keyed tx_id (txns db) \<Longrightarrow> i \<in> tx_id ` set (txns db) \<Longrightarrow> book_of (claimed i now reason db) = (book_of db)(i := None)"
  by (rule ext) (auto simp: book_of_def claimed_def find_row_map_row entries_of_def split: option.splits)

lemma fk_entries_claimed: "fk_entries db \<Longrightarrow> fk_entries (claimed i now reason db)"
  by (auto simp: fk_entries_def txn_of_def claimed_def find_row_map_row split: option.splits)

lemma post_writes:
  assumes "books_ok db" and "post_new gen now b dto user db = Inr (db', t, es)" and "ids_drawn gen"
  shows "book_of db' = (book_of db)(tx_id t \<mapsto> dto_moves dto)" "tx_id t \<notin> dom (book_of db)" "tx_id t \<noteq> []" "balances_out (dto_moves dto)"
proof -
  note n = post_newD [OF assms] and b = books_okD [OF assms(1)]
  have mv: "map moves es = dto_moves dto" by (simp add: n(2) moves_entry_rows dto_moves_def)
  have live: "live_txn t" by (simp add: n(1))
  show "book_of db' = (book_of db)(tx_id t \<mapsto> dto_moves dto)"
    using live by (simp add: book_of_only_balances [OF n(4)] book_of_with_posting [OF b(6) n(3)] mv)
  have fresh: "tx_id t \<notin> tx_id ` set (txns db)" and "tx_id t \<noteq> []" and sides: "side_sum DEBIT es = side_sum CREDIT es"
    using n(3) by (simp_all add: posting_fits_def)
  then show "tx_id t \<notin> dom (book_of db)" by (auto simp: dom_book_of [OF ledger_coreD(2) [OF b(1)]])
  show "tx_id t \<noteq> []" by fact
  have "sum_by (movement_delta True) (map moves es) = sum_by (entry_delta True) es" by (simp add: movement_delta_moves)
  also have "\<dots> = 0" using sides by (simp add: sum_delta_sides)
  finally show "balances_out (dto_moves dto)" by (simp add: balances_out_def mv)
qed

text \<open>A posting without an idempotency key always writes its line.\<close>

lemma keyless_posting:
  assumes ok: "books_ok db" and gen: "ids_drawn gen" and post: "post gen now b dto user db = Inr (db', t, es)" and key: "td_idempotencyKey dto = None"
  shows "books_ok db'" "feature_tables db' = feature_tables db" "book_of db' = (book_of db)(tx_id t \<mapsto> dto_moves dto)" "tx_id t \<notin> dom (book_of db)"
proof -
  have "existing_by_key (td_idempotencyKey dto) db = None" by (simp add: key existing_by_key_def)
  then have "post_new gen now b dto user db = Inr (db', t, es)" using post by (simp add: post_def post_after_def)
  from post_writes(1,2) [OF ok this gen] show "book_of db' = (book_of db)(tx_id t \<mapsto> dto_moves dto)" "tx_id t \<notin> dom (book_of db)" .
  show "books_ok db'" by (rule books_ok_post [OF ok post gen])
  show "feature_tables db' = feature_tables db" by (rule own_tables_features [OF post_own_tables [OF ok post gen]])
qed

lemma book_of_cong: "txns db' = txns db \<Longrightarrow> entries db' = entries db \<Longrightarrow> book_of db' = book_of db"
  unfolding book_of_def entries_of_def by (simp only:)

lemma void_strikes:
  assumes "books_ok db" and "voidTransaction gen now b i reason user db = Inr (db', p)" and "ids_drawn gen"
  shows "book_of db' = (book_of db)(i := None)" "i \<in> dom (book_of db)"
proof -
  note b = books_okD [OF assms(1)]
  note k = ledger_coreD(2) [OF b(1)]
  from assms have "book_of db' = (book_of db)(i := None) \<and> i \<in> dom (book_of db)"
  proof (rule void_effect)
    fix t assume t: "find_row tx_id i (txns db) = Some t" "live_txn t"
      and fits: "posting_fits (claimed i now reason db) (reversal_row gen now b user t) (mirror_rows gen (entries_of db i))"
      and ob: "only_balances (with_posting (reversal_row gen now b user t) (mirror_rows gen (entries_of db i)) (claimed i now reason db)) db'"
    have i: "i \<in> tx_id ` set (txns db)" using find_row_Some [OF t(1)] by auto
    have "\<not> live_txn (reversal_row gen now b user t)" by (simp add: live_txn_def)
    then have "book_of db' = (book_of db)(i := None)"
      by (simp add: book_of_only_balances [OF ob] book_of_with_posting [OF fk_entries_claimed [OF b(6)] fits] book_of_claimed [OF k i])
    moreover have "i \<in> dom (book_of db)" using t by (simp add: book_of_def dom_def)
    ultimately show ?thesis by blast
  qed
  then show "book_of db' = (book_of db)(i := None)" "i \<in> dom (book_of db)" by blast+
qed

lemma accounts_step_book: "accounts_step db db' \<Longrightarrow> book_of db' = book_of db"
proof -
  assume "accounts_step db db'"
  then have "txns db' = txns db \<and> entries db' = entries db"
    by (rule accounts_stepE)
      (auto elim!: create_accountE update_accountE archive_accountE unarchive_accountE removeOrArchiveE split: if_splits)
  then show ?thesis unfolding book_of_def entries_of_def by (simp only:)
qed

text \<open>
  C5: the tables implement the book. Posting under a new key writes exactly one line with the
  movements asked for, under an id no line has; a retried key writes nothing; voiding strikes out
  the line of the transaction, although the tables only ever gain rows.
\<close>

theorem ledger_implements_book:
  assumes "books_ok db" and "ids_drawn gen"
  shows "(post gen now b dto user db = Inr (db', t, es) \<longrightarrow> existing_by_key (td_idempotencyKey dto) db = None \<longrightarrow>
       tx_id t \<notin> dom (book_of db) \<and> book_of db' = (book_of db)(tx_id t \<mapsto> dto_moves dto)) \<and>
    (post gen now b dto user db = Inr (db', t, es) \<longrightarrow> existing_by_key (td_idempotencyKey dto) db \<noteq> None \<longrightarrow>
       book_of db' = book_of db) \<and>
    (voidTransaction gen now b i reason user db = Inr (db', t, es) \<longrightarrow>
       i \<in> dom (book_of db) \<and> book_of db' = (book_of db)(i := None))"
proof -
  have "db' = db" if "post gen now b dto user db = Inr (db', t, es)" "existing_by_key (td_idempotencyKey dto) db \<noteq> None"
    using that by (auto simp: post_def post_after_def split: if_splits)
  moreover have "tx_id t \<notin> dom (book_of db) \<and> book_of db' = (book_of db)(tx_id t \<mapsto> dto_moves dto)"
    if "post gen now b dto user db = Inr (db', t, es)" "existing_by_key (td_idempotencyKey dto) db = None"
  proof -
    from that have "post_new gen now b dto user db = Inr (db', t, es)" by (simp add: post_def post_after_def)
    from post_writes [OF assms(1) this assms(2)] show ?thesis by blast
  qed
  ultimately show ?thesis using void_strikes [OF assms(1) _ assms(2)] by blast
qed

interpretation book: invariant_system ledger_step "\<lambda>d. books_ok d \<and> book_step\<^sup>*\<^sup>* B (book_of d)" for B
proof
  fix db db' assume step: "ledger_step db db'" and inv: "books_ok db \<and> book_step\<^sup>*\<^sup>* B (book_of db)"
  then have ok: "books_ok db" and run: "book_step\<^sup>*\<^sup>* B (book_of db)" by auto
  from step have "book_of db' = book_of db \<or> book_step (book_of db) (book_of db')"
  proof (rule ledger_stepE)
    fix gen now b dto user p assume p: "post gen now b dto user db = Inr (db', p)" and gen: "ids_drawn gen"
    obtain t es where pe: "p = (t, es)" by (cases p)
    show ?thesis
    proof (cases "existing_by_key (td_idempotencyKey dto) db")
      case None
      then have "post_new gen now b dto user db = Inr (db', t, es)" using p pe by (simp add: post_def post_after_def)
      from post_writes [OF ok this gen] show ?thesis by (simp add: book_step.written)
    next
      case (Some x)
      then show ?thesis using p by (auto simp: post_def post_after_def split: if_splits)
    qed
  next
    fix gen now b i reason user p assume "voidTransaction gen now b i reason user db = Inr (db', p)" "ids_drawn gen"
    from void_strikes [OF ok this] show ?thesis by (simp add: book_step.struck)
  next
    assume "accounts_step db db'"
    then show ?thesis by (simp add: accounts_step_book)
  next
    fix b r assume "reconcileWorkspace b db = Inr (db', r)"
    with reconcileWorkspace_no_change [OF ok this] show ?thesis by simp
  qed
  with run have "book_step\<^sup>*\<^sup>* B (book_of db')" by (metis rtranclp.rtrancl_into_rtrancl)
  with books.step_inv [OF step ok] show "books_ok db' \<and> book_step\<^sup>*\<^sup>* B (book_of db')" by blast
qed

text \<open>
  Every run of the ledger is a run of the book (lines written in balance and struck out, nothing
  else), and at its end the cached balance of every account is what the book says: its opening
  balance and the movements of the transactions in force.
\<close>

theorem ledger_runs_are_book_runs:
  assumes "ledger_step\<^sup>*\<^sup>* db db'" and "books_ok db"
  shows "book_step\<^sup>*\<^sup>* (book_of db) (book_of db') \<and> (\<forall>a \<in> set (accounts db'). acc_currentBalance a = book_balance a (book_of db'))"
  using book.run_inv [OF assms(1), of "book_of db"] assms(2) cached_is_book_balance by blast

lemma ledger_implements_book_witness:
  "\<exists>t es. post (draw CHR ''p'') 9 ''w'' (plain_dto (Some ''k1'') ''cash'' ''inc'' 500) ''u'' sample_books = Inr (after_post, t, es) \<and>
     book_of after_post = (book_of sample_books)(tx_id t \<mapsto> [(''cash'', DEBIT, 500), (''inc'', CREDIT, 500)])"
proof -
  from sample_post obtain t es where
    p: "post (draw CHR ''p'') 9 ''w'' (plain_dto (Some ''k1'') ''cash'' ''inc'' 500) ''u'' sample_books = Inr (after_post, t, es)" by auto
  have new: "existing_by_key (td_idempotencyKey (plain_dto (Some ''k1'') ''cash'' ''inc'' 500)) sample_books = None"
    by (simp add: existing_by_key_def plain_dto_def sample_books_def plain_rows)
  from ledger_implements_book [OF sample_books_sound ids_drawn_draw] p new show ?thesis
    by (auto simp: dto_moves_def plain_dto_def)
qed

lemma ledger_runs_are_book_runs_witness:
  "book_step\<^sup>*\<^sup>* (book_of sample_books) (book_of after_post) \<and>
     (\<exists>a. a \<in> set (accounts after_post) \<and> acc_id a = ''cash'' \<and> acc_currentBalance a = book_balance a (book_of after_post))"
proof -
  from sample_post obtain p where
    "post (draw CHR ''p'') 9 ''w'' (plain_dto (Some ''k1'') ''cash'' ''inc'' 500) ''u'' sample_books = Inr (after_post, p)" by blast
  then have "ledger_step sample_books after_post" by (rule ledger_step.posted) simp
  then have run: "ledger_step\<^sup>*\<^sup>* sample_books after_post" by (rule r_into_rtranclp)
  have "\<exists>a \<in> set (accounts after_post). acc_id a = ''cash''"
    by (simp add: after_post_def post_defs plain_dto_def draw_def sample_books_def plain_rows isDebitPositive_def Let_def)
  with ledger_runs_are_book_runs [OF run sample_books_sound] show ?thesis by blast
qed

end
