(* ===== verification/Locks.thy ===== *)
theory Locks
  imports Schema "HOL-Library.List_Lexorder" "HOL-Library.Char_ord"
begin

text \<open>
  The locks requests take, and the order they take them in: the advisory locks of
  \<open>withLocks\<close> (src/transactions/transactions.service.ts), one per key and held until the
  database transaction ends, and the row locks of \<open>lockAccounts\<close> that every posting takes after
  them. Requests run side by side as a step relation: a request takes its next lock when nobody
  else holds it, ends once it has them all, or fails at any time; either way it gives up what it
  holds. The locale \<open>ordered_locks\<close> is the contract: locks are taken in ascending order.
\<close>

section \<open>What a request locks\<close>

datatype 'h lock = Advisory 'h | AccountRow id

text \<open>\<open>hash\<close> stands for the database's \<open>hashtext\<close>: the lock of a key is the lock of its hash.\<close>

definition withLocks :: "(string \<Rightarrow> 'h) \<Rightarrow> string list \<Rightarrow> 'h lock list" where
  "withLocks hash keys = map (\<lambda>k. Advisory (hash k)) (sort (js_set keys))"

text \<open>
  The rows are locked in the order of the query, by id; \<open>collate\<close> is the place of an id in the
  database's order of texts, ids in one place are in the order of their characters.
\<close>

definition lockAccounts :: "(id \<Rightarrow> int) \<Rightarrow> id list \<Rightarrow> 'h lock list" where
  "lockAccounts collate ids = map AccountRow (sort_key (\<lambda>i. (collate i, i)) (js_set ids))"

definition lock_plan :: "(string \<Rightarrow> 'h) \<Rightarrow> (id \<Rightarrow> int) \<Rightarrow> string list \<times> id list \<Rightarrow> 'h lock list" where
  "lock_plan hash collate = (\<lambda>(keys, ids). withLocks hash keys @ lockAccounts collate ids)"

section \<open>Requests side by side\<close>

record 'l request =
  rq_todo :: "'l list"
  rq_held :: "'l list"
  rq_open :: bool

definition arriving :: "'l list \<Rightarrow> 'l request" where
  "arriving plan = \<lparr>rq_todo = plan, rq_held = [], rq_open = True\<rparr>"

definition ended :: "'l request" where
  "ended = \<lparr>rq_todo = [], rq_held = [], rq_open = False\<rparr>"

definition takes_lock :: "'l request \<Rightarrow> 'l request" where
  "takes_lock q = q\<lparr>rq_todo := tl (rq_todo q), rq_held := hd (rq_todo q) # rq_held q\<rparr>"

definition unclaimed :: "'l \<Rightarrow> nat \<Rightarrow> 'l request list \<Rightarrow> bool" where
  "unclaimed l i rs \<longleftrightarrow> (\<forall>j < length rs. j \<noteq> i \<longrightarrow> l \<notin> set (rq_held (rs ! j)))"

inductive progress :: "'l request list \<Rightarrow> 'l request list \<Rightarrow> bool" where
  acquires: "i < length rs \<Longrightarrow> rq_open (rs ! i) \<Longrightarrow> rq_todo (rs ! i) \<noteq> [] \<Longrightarrow> unclaimed (hd (rq_todo (rs ! i))) i rs \<Longrightarrow>
    progress rs (rs[i := takes_lock (rs ! i)])"
| finishes: "i < length rs \<Longrightarrow> rq_open (rs ! i) \<Longrightarrow> rq_todo (rs ! i) = [] \<Longrightarrow> progress rs (rs[i := ended])"

inductive request_step :: "'l request list \<Rightarrow> 'l request list \<Rightarrow> bool" where
  goes_on: "progress rs rs' \<Longrightarrow> request_step rs rs'"
| fails: "i < length rs \<Longrightarrow> rq_open (rs ! i) \<Longrightarrow> request_step rs (rs[i := ended])"

inductive_cases progressE: "progress rs rs'"
inductive_cases request_stepE: "request_step rs rs'"

section \<open>Nobody shares a lock\<close>

definition exclusive :: "'l request list \<Rightarrow> bool" where
  "exclusive rs \<longleftrightarrow> (\<forall>i < length rs. \<forall>j < length rs. i \<noteq> j \<longrightarrow> set (rq_held (rs ! i)) \<inter> set (rq_held (rs ! j)) = {}) \<and>
     (\<forall>q \<in> set rs. \<not> rq_open q \<longrightarrow> rq_held q = [])"

lemma all_set_update: "(\<forall>q \<in> set rs. P q) \<Longrightarrow> P q' \<Longrightarrow> \<forall>q \<in> set (rs[i := q']). P q"
  using set_update_subset_insert [of rs i q'] by blast

lemma exclusive_ended: "exclusive rs \<Longrightarrow> i < length rs \<Longrightarrow> exclusive (rs[i := ended])"
  unfolding exclusive_def by (intro conjI all_set_update) (auto simp: nth_list_update ended_def)

lemma exclusive_takes:
  assumes "exclusive rs" and "i < length rs" and "rq_open (rs ! i)" and "unclaimed (hd (rq_todo (rs ! i))) i rs"
  shows "exclusive (rs[i := takes_lock (rs ! i)])"
  using assms unfolding exclusive_def unclaimed_def
  by (intro conjI all_set_update) (auto simp: nth_list_update takes_lock_def)

interpretation one_holder: invariant_system request_step exclusive
  by unfold_locales (auto elim!: request_stepE progressE intro: exclusive_ended exclusive_takes)

section \<open>Steps run out\<close>

definition cost :: "'l request \<Rightarrow> nat" where
  "cost q = (if rq_open q then Suc (length (rq_todo q)) else 0)"

definition steps_left :: "'l request list \<Rightarrow> nat" where
  "steps_left rs = sum_list (map cost rs)"

lemma steps_left_update: "i < length rs \<Longrightarrow> cost q < cost (rs ! i) \<Longrightarrow> steps_left (rs[i := q]) < steps_left rs"
proof (induction rs arbitrary: i)
  case (Cons r rs)
  then show ?case by (cases i) (simp_all add: steps_left_def)
qed simp

lemma cost_falls:
  "rq_open q \<Longrightarrow> rq_todo q \<noteq> [] \<Longrightarrow> cost (takes_lock q) < cost q"
  "rq_open q \<Longrightarrow> cost ended < cost q"
  by (simp_all add: cost_def takes_lock_def ended_def)

lemma request_step_counts: "request_step rs rs' \<Longrightarrow> steps_left rs' < steps_left rs"
  by (auto elim!: request_stepE progressE intro!: steps_left_update cost_falls)

lemma request_steps_bounded: "(request_step ^^ n) rs rs' \<Longrightarrow> n + steps_left rs' \<le> steps_left rs"
proof (induction n arbitrary: rs')
  case (Suc n)
  then obtain r where "(request_step ^^ n) rs r" "request_step r rs'" by auto
  with Suc.IH [OF this(1)] request_step_counts [OF this(2)] show ?case by simp
qed simp

section \<open>Locks taken in ascending order\<close>

definition in_order :: "('l \<Rightarrow> 'r::linorder) \<Rightarrow> 'l request \<Rightarrow> bool" where
  "in_order rank q \<longleftrightarrow> sorted_wrt (\<lambda>x y. rank x < rank y) (rev (rq_held q) @ rq_todo q)"

lemma in_order_ended [simp]: "in_order rank ended"
  by (simp add: in_order_def ended_def)

lemma in_order_takes: "in_order rank q \<Longrightarrow> rq_todo q \<noteq> [] \<Longrightarrow> in_order rank (takes_lock q)"
  by (cases "rq_todo q") (simp_all add: in_order_def takes_lock_def)

definition disciplined :: "('l \<Rightarrow> 'r::linorder) \<Rightarrow> 'l request list \<Rightarrow> bool" where
  "disciplined rank rs \<longleftrightarrow> exclusive rs \<and> (\<forall>q \<in> set rs. in_order rank q)"

lemma disciplined_step: "request_step rs rs' \<Longrightarrow> disciplined rank rs \<Longrightarrow> disciplined rank rs'"
proof -
  assume step: "request_step rs rs'" and ok: "disciplined rank rs"
  have upd: "\<forall>q \<in> set (rs[i := q']). in_order rank q" if "in_order rank q'" for i q'
    using ok that unfolding disciplined_def by (intro all_set_update) simp_all
  have "in_order rank (rs ! i)" if "i < length rs" for i using ok that by (simp add: disciplined_def)
  then have "\<forall>q \<in> set rs'. in_order rank q"
    using step by (elim request_stepE progressE; simp only:; intro upd; simp add: in_order_takes)
  with one_holder.step_inv [OF step] ok show ?thesis by (simp add: disciplined_def)
qed

interpretation discipline: invariant_system request_step "disciplined rank" for rank
  by unfold_locales (rule disciplined_step)

lemma exclusive_arriving: "exclusive (map arriving ps)"
  by (auto simp: exclusive_def arriving_def)

lemma disciplined_progress:
  assumes "disciplined rank rs" and "q \<in> set rs" and "rq_open q"
  shows "\<exists>rs'. progress rs rs'"
proof (cases "\<exists>i < length rs. rq_open (rs ! i) \<and> rq_todo (rs ! i) = []")
  case True
  then show ?thesis by (blast intro: progress.finishes)
next
  case False
  define I where "I = {i. i < length rs \<and> rq_open (rs ! i)}"
  define f where "f i = rank (hd (rq_todo (rs ! i)))" for i
  have "finite I" "I \<noteq> {}" using assms(2,3) by (auto simp: I_def in_set_conv_nth)
  then obtain i where i: "i \<in> I" "\<forall>j \<in> I. f j \<le> f i"
    using Max_in [of "f ` I"] Max_ge [of "f ` I"] by (metis (no_types) finite_imageI image_iff image_is_empty)
  have "unclaimed (hd (rq_todo (rs ! i))) i rs"
    unfolding unclaimed_def
  proof (intro allI impI notI)
    fix j assume j: "j < length rs" "hd (rq_todo (rs ! i)) \<in> set (rq_held (rs ! j))"
    then have "rs ! j \<in> set rs" by simp
    with j assms(1) have "rq_open (rs ! j)" "in_order rank (rs ! j)" by (auto simp: disciplined_def exclusive_def)
    then have "j \<in> I" "rq_todo (rs ! j) \<noteq> []" using False j(1) by (auto simp: I_def)
    with \<open>in_order rank (rs ! j)\<close> j(2) have "f i < f j" by (auto simp: f_def in_order_def sorted_wrt_append)
    with i(2) \<open>j \<in> I\<close> show False by fastforce
  qed
  then show ?thesis using i(1) False by (auto simp: I_def intro!: exI progress.acquires)
qed

locale ordered_locks =
  fixes rank :: "'l \<Rightarrow> 'r::linorder" and plans :: "'l list set"
  assumes ascending: "p \<in> plans \<Longrightarrow> sorted_wrt (\<lambda>x y. rank x < rank y) p"
begin

lemma run_disciplined: "request_step\<^sup>*\<^sup>* (map arriving ps) rs \<Longrightarrow> set ps \<subseteq> plans \<Longrightarrow> disciplined rank rs"
  by (erule discipline.run_inv) (auto simp: disciplined_def exclusive_arriving in_order_def arriving_def intro: ascending)

lemma never_stuck: "request_step\<^sup>*\<^sup>* (map arriving ps) rs \<Longrightarrow> set ps \<subseteq> plans \<Longrightarrow> q \<in> set rs \<Longrightarrow> rq_open q \<Longrightarrow> \<exists>rs'. progress rs rs'"
  by (blast intro: disciplined_progress run_disciplined)

end

section \<open>The order of the code\<close>

text \<open>Advisory locks by key, then rows by id.\<close>

fun lock_rank :: "(string \<Rightarrow> 'h) \<Rightarrow> (id \<Rightarrow> int) \<Rightarrow> string set \<Rightarrow> 'h lock \<Rightarrow> nat \<times> string \<times> int \<times> id" where
  "lock_rank hash collate K (Advisory h) = (0, the_inv_into K hash h, 0, [])"
| "lock_rank hash collate K (AccountRow i) = (1, [], collate i, i)"

lemma strict_sorted_sort_key: "distinct (map f xs) \<Longrightarrow> sorted_wrt (\<lambda>x y. f x < f y) (sort_key f xs)"
proof -
  assume "distinct (map f xs)"
  then have "distinct (map f (sort_key f xs))" by (simp add: distinct_map)
  moreover have "sorted (map f (sort_key f xs))" by simp
  ultimately have "sorted_wrt (<) (map f (sort_key f xs))" using strict_sorted_iff by blast
  then show ?thesis by (simp add: sorted_wrt_map)
qed

lemma lock_plan_ascending:
  assumes "inj_on hash K" and "set keys \<subseteq> K"
  shows "sorted_wrt (\<lambda>x y. lock_rank hash collate K x < lock_rank hash collate K y) (lock_plan hash collate (keys, ids))"
proof -
  have "sorted_wrt (<) (sort (js_set keys))" using strict_sorted_sort_key [of "\<lambda>k. k" "js_set keys"] by simp
  then have "sorted_wrt (\<lambda>x y. lock_rank hash collate K x < lock_rank hash collate K y) (withLocks hash keys)"
    unfolding withLocks_def sorted_wrt_map
    by (rule sorted_wrt_mono_rel [rotated]) (use assms in \<open>auto simp: the_inv_into_f_f subset_iff less_prod_def\<close>)
  moreover have "sorted_wrt (\<lambda>x y. lock_rank hash collate K x < lock_rank hash collate K y) (lockAccounts collate ids)"
    unfolding lockAccounts_def sorted_wrt_map
    by (rule sorted_wrt_mono_rel [OF _ strict_sorted_sort_key]) (auto simp: distinct_map inj_on_def less_prod_def)
  ultimately show ?thesis by (auto simp: lock_plan_def sorted_wrt_append withLocks_def lockAccounts_def less_prod_def)
qed

interpretation code_locks: ordered_locks "lock_rank hash collate K" "{lock_plan hash collate (keys, ids) |keys ids. set keys \<subseteq> K \<and> inj_on hash K}"
  for hash collate K
  by unfold_locales (auto intro: lock_plan_ascending)

section \<open>What the locks promise\<close>

definition arrivals :: "(string \<Rightarrow> 'h) \<Rightarrow> (id \<Rightarrow> int) \<Rightarrow> (string list \<times> id list) list \<Rightarrow> 'h lock request list" where
  "arrivals hash collate qs = map (\<lambda>q. arriving (lock_plan hash collate q)) qs"

lemma arrivals_alt: "arrivals hash collate qs = map arriving (map (lock_plan hash collate) qs)"
  by (simp add: arrivals_def)

text \<open>
  C11: as long as the keys in use hash to different locks, requests never wait on each other in a
  cycle: however they interleave and whichever of them fail, while a request has not ended some
  request can take its next lock or finish, and the whole run is over after at most one step per
  lock and request. Keys come sorted, and the rows of a posting after all advisory locks.
\<close>

theorem every_request_ends:
  assumes "inj_on hash K" and "\<forall>q \<in> set qs. set (fst q) \<subseteq> K" and "(request_step ^^ n) (arrivals hash collate qs) rs"
  shows "n \<le> sum_list (map (\<lambda>q. Suc (length (lock_plan hash collate q))) qs) \<and>
    ((\<exists>q \<in> set rs. rq_open q) \<longrightarrow> (\<exists>rs'. progress rs rs'))"
proof -
  have "steps_left (arrivals hash collate qs) = sum_list (map (\<lambda>q. Suc (length (lock_plan hash collate q))) qs)"
    by (simp add: steps_left_def arrivals_def cost_def arriving_def comp_def)
  moreover have sub: "set (map (lock_plan hash collate) qs) \<subseteq> {lock_plan hash collate (keys, ids) |keys ids. set keys \<subseteq> K \<and> inj_on hash K}"
    using assms(1,2) by fastforce
  moreover have run: "request_step\<^sup>*\<^sup>* (map arriving (map (lock_plan hash collate) qs)) rs"
    using relpowp_imp_rtranclp [OF assms(3)] by (simp add: arrivals_alt)
  ultimately show ?thesis
    using request_steps_bounded [OF assms(3)] code_locks.never_stuck [OF run sub] by force
qed

text \<open>Past the advisory locks of \<open>withLocks\<close>, where the checks are made; and past the row locks as well.\<close>

definition past_keys :: "(string \<Rightarrow> 'h) \<Rightarrow> string list \<times> id list \<Rightarrow> 'h lock request \<Rightarrow> bool" where
  "past_keys hash q r \<longleftrightarrow> rq_open r \<and> length (withLocks hash (fst q)) \<le> length (rq_held r)"

definition past_rows :: "'l request \<Rightarrow> bool" where
  "past_rows r \<longleftrightarrow> rq_open r \<and> rq_todo r = []"

definition on_plan :: "'l list list \<Rightarrow> 'l request list \<Rightarrow> bool" where
  "on_plan ps rs \<longleftrightarrow> length rs = length ps \<and> (\<forall>i < length ps. rq_open (rs ! i) \<longrightarrow> rev (rq_held (rs ! i)) @ rq_todo (rs ! i) = ps ! i)"

interpretation planned: invariant_system request_step "on_plan ps" for ps
  by unfold_locales (auto elim!: request_stepE progressE simp: on_plan_def nth_list_update takes_lock_def ended_def)

lemma held_past_keys:
  assumes "rev (rq_held r) @ rq_todo r = lock_plan hash collate q" and "past_keys hash q r"
  shows "set (withLocks hash (fst q)) \<subseteq> set (rq_held r)"
proof -
  have plan: "lock_plan hash collate q = withLocks hash (fst q) @ lockAccounts collate (snd q)" by (cases q) (simp add: lock_plan_def)
  have "withLocks hash (fst q) = take (length (withLocks hash (fst q))) (lock_plan hash collate q)" by (simp add: plan)
  also have "\<dots> = take (length (withLocks hash (fst q))) (rev (rq_held r))"
    using assms by (simp add: past_keys_def flip: assms(1))
  finally show ?thesis by (metis set_rev set_take_subset)
qed

lemma held_past_rows: "rev (rq_held r) @ rq_todo r = lock_plan hash collate q \<Longrightarrow> past_rows r \<Longrightarrow> set (rq_held r) = set (lock_plan hash collate q)"
  by (metis append_Nil2 past_rows_def set_rev)

text \<open>
  C12: from the moment a request has its advisory locks until it ends nobody else gets that far with
  one of the same keys, and once it has its row locks nobody else gets that far with one of the
  same accounts, whatever the hash. What a request checks under its locks therefore still holds
  when it writes, as far as those rows go.
\<close>

theorem work_under_locks_is_alone:
  assumes "request_step\<^sup>*\<^sup>* (arrivals hash collate qs) rs" and "i < length qs" and "j < length qs" and "i \<noteq> j"
  shows "(past_keys hash (qs ! i) (rs ! i) \<longrightarrow> past_keys hash (qs ! j) (rs ! j) \<longrightarrow> set (fst (qs ! i)) \<inter> set (fst (qs ! j)) = {}) \<and>
    (past_rows (rs ! i) \<longrightarrow> past_rows (rs ! j) \<longrightarrow> set (snd (qs ! i)) \<inter> set (snd (qs ! j)) = {})"
proof -
  let ?ps = "map (lock_plan hash collate) qs"
  have run: "request_step\<^sup>*\<^sup>* (map arriving ?ps) rs" using assms(1) by (simp add: arrivals_alt)
  have "on_plan ?ps (map arriving ?ps)" by (simp add: on_plan_def arriving_def)
  then have on: "on_plan ?ps rs" by (rule planned.run_inv [OF run])
  have ex: "exclusive rs" by (rule one_holder.run_inv [OF run exclusive_arriving])
  have plan: "rev (rq_held (rs ! k)) @ rq_todo (rs ! k) = lock_plan hash collate (qs ! k)" if "k < length qs" "rq_open (rs ! k)" for k
    using on that by (simp add: on_plan_def)
  have "length rs = length qs" using on by (simp add: on_plan_def)
  then have apart: "set (rq_held (rs ! i)) \<inter> set (rq_held (rs ! j)) = {}" using ex assms(2-4) by (simp add: exclusive_def)
  have keys: "Advisory (hash k) \<in> set (rq_held (rs ! m))" if "m < length qs" "past_keys hash (qs ! m) (rs ! m)" "k \<in> set (fst (qs ! m))" for k m
    using held_past_keys [OF plan that(2)] that by (auto simp: past_keys_def withLocks_def)
  have rows: "AccountRow a \<in> set (rq_held (rs ! m))" if "m < length qs" "past_rows (rs ! m)" "a \<in> set (snd (qs ! m))" for a m
    using held_past_rows [OF plan that(2)] that by (cases "qs ! m") (auto simp: past_rows_def lock_plan_def lockAccounts_def)
  show ?thesis using apart keys rows assms(2,3) by blast
qed

text \<open>
  The sorting is by key and the lock is on the hash of the key, so two pairs of keys that
  collide crosswise undo the order: two savings transfers over four different goals each hold the
  lock the other asks for, and neither can go on until the database aborts one.
\<close>

theorem colliding_keys_can_deadlock:
  "\<exists>rs. request_step\<^sup>*\<^sup>* (arrivals (\<lambda>k. if k \<in> {''savings-goal:a'', ''savings-goal:d''} then 1 else (2::int)) (\<lambda>_. 0)
      [([''savings-goal:a'', ''savings-goal:b''], []), ([''savings-goal:c'', ''savings-goal:d''], [])]) rs \<and>
    (\<forall>q \<in> set rs. rq_open q) \<and> \<not> (\<exists>rs'. progress rs rs')"
proof -
  let ?A = "Advisory (1::int)" and ?B = "Advisory (2::int)"
  let ?r0 = "[\<lparr>rq_todo = [?A, ?B], rq_held = [], rq_open = True\<rparr>, \<lparr>rq_todo = [?B, ?A], rq_held = [], rq_open = True\<rparr>]"
  let ?r1 = "[\<lparr>rq_todo = [?B], rq_held = [?A], rq_open = True\<rparr>, \<lparr>rq_todo = [?B, ?A], rq_held = [], rq_open = True\<rparr>]"
  let ?r2 = "[\<lparr>rq_todo = [?B], rq_held = [?A], rq_open = True\<rparr>, \<lparr>rq_todo = [?A], rq_held = [?B], rq_open = True\<rparr>]"
  have start: "arrivals (\<lambda>k. if k \<in> {''savings-goal:a'', ''savings-goal:d''} then 1 else (2::int)) (\<lambda>_. 0)
      [([''savings-goal:a'', ''savings-goal:b''], []), ([''savings-goal:c'', ''savings-goal:d''], [])] = ?r0"
    by (simp add: arrivals_def arriving_def lock_plan_def withLocks_def lockAccounts_def js_set_def less_char_def less_eq_char_def)
  have "request_step ?r0 ?r1"
    using progress.acquires [of 0 ?r0] by (intro request_step.goes_on) (simp add: unclaimed_def takes_lock_def less_Suc_eq)
  moreover have "request_step ?r1 ?r2"
    using progress.acquires [of 1 ?r1] by (intro request_step.goes_on) (simp add: unclaimed_def takes_lock_def less_Suc_eq)
  ultimately have "request_step\<^sup>*\<^sup>* ?r0 ?r2" by simp
  moreover have "\<not> progress ?r2 rs'" for rs'
    by (auto elim!: progressE simp: unclaimed_def less_Suc_eq nth_Cons' split: if_splits)
  ultimately show ?thesis unfolding start by (intro exI [of _ ?r2]) simp
qed

section \<open>A double click\<close>

text \<open>Two withdrawals of one goal, the second held up by the first.\<close>

definition double_click :: "(string list \<times> id list) list" where
  "double_click = replicate 2 ([''savings-goal:g''], [''wallet''])"

definition first_waits :: "string lock request list" where
  "first_waits = [\<lparr>rq_todo = [AccountRow ''wallet''], rq_held = [Advisory ''savings-goal:g''], rq_open = True\<rparr>,
     \<lparr>rq_todo = [Advisory ''savings-goal:g'', AccountRow ''wallet''], rq_held = [], rq_open = True\<rparr>]"

lemma double_click_arrives: "arrivals (\<lambda>k. k) (\<lambda>_. 0) double_click =
    replicate 2 (arriving [Advisory ''savings-goal:g'', AccountRow ''wallet''])"
  by (simp add: arrivals_def double_click_def lock_plan_def withLocks_def lockAccounts_def js_set_def numeral_2_eq_2)

lemma double_click_step: "request_step (arrivals (\<lambda>k. k) (\<lambda>_. 0) double_click) first_waits"
  using progress.acquires [of 0 "arrivals (\<lambda>k. k) (\<lambda>_. 0) double_click"] unfolding double_click_arrives
  by (intro request_step.goes_on)
    (simp add: numeral_2_eq_2 arriving_def first_waits_def unclaimed_def takes_lock_def less_Suc_eq)

lemma every_request_ends_witness:
  "(request_step ^^ 1) (arrivals (\<lambda>k. k) (\<lambda>_. 0) double_click) first_waits \<and> (\<exists>rs'. progress first_waits rs')"
proof -
  have one: "(request_step ^^ 1) (arrivals (\<lambda>k. k) (\<lambda>_. 0) double_click) first_waits" using double_click_step by auto
  have "\<forall>q \<in> set double_click. set (fst q) \<subseteq> {''savings-goal:g''}" by (simp add: double_click_def)
  from every_request_ends [OF _ this one] have "(\<exists>q \<in> set first_waits. rq_open q) \<longrightarrow> (\<exists>rs'. progress first_waits rs')" by simp
  with one show ?thesis by (simp add: first_waits_def)
qed

lemma work_under_locks_is_alone_witness:
  "past_keys (\<lambda>k. k) (double_click ! 0) (first_waits ! 0) \<and> \<not> past_keys (\<lambda>k. k) (double_click ! 1) (first_waits ! 1)"
proof -
  have "past_keys (\<lambda>k. k) (double_click ! 0) (first_waits ! 0)"
    by (simp add: past_keys_def first_waits_def double_click_def withLocks_def js_set_def numeral_2_eq_2)
  then show ?thesis
    using work_under_locks_is_alone [OF r_into_rtranclp [of request_step, OF double_click_step], of 0 1] by (auto simp: double_click_def)
qed

end
