(* ===== verification/Quick_Entries.thy ===== *)
theory Quick_Entries
  imports Ledger_Requests
begin

text \<open>
  The friendly wrappers over the posting service for income, expense and transfer
  (src/quick-entries/quick-entries.service.ts). Their requests carry no idempotency key.
\<close>

section \<open>Requests\<close>

record create_income_dto =
  ci_toAccountId :: id
  ci_incomeAccountId :: "id option"
  ci_amount :: money
  ci_date :: instant
  ci_description :: "string option"
  ci_categoryId :: "string option"
  ci_note :: "string option"

record create_expense_dto =
  ce_fromAccountId :: id
  ce_expenseAccountId :: id
  ce_amount :: money
  ce_date :: instant
  ce_description :: "string option"
  ce_categoryId :: "string option"
  ce_note :: "string option"

record create_transfer_dto =
  cx_fromAccountId :: id
  cx_toAccountId :: id
  cx_amount :: money
  cx_date :: instant
  cx_description :: "string option"

section \<open>Helpers\<close>

text \<open>An entry, and a request with nothing but a type, a date, a description and entries.\<close>

definition entry_for :: "id \<Rightarrow> entry_type \<Rightarrow> money \<Rightarrow> entry_dto" where
  "entry_for a side m = \<lparr>ed_accountId = a, ed_entryType = side, ed_amount = m, ed_categoryId = None, ed_note = None\<rparr>"

definition simple_request :: "transaction_type \<Rightarrow> instant \<Rightarrow> string option \<Rightarrow> entry_dto list \<Rightarrow> create_txn_dto" where
  "simple_request ty date description es =
     \<lparr>td_type = ty, td_date = date, td_description = description, td_referenceNo = None, td_contactId = None,
      td_dueDate = None, td_appliedTo = None, td_entries = es, td_idempotencyKey = None\<rparr>"

definition requireMoneyAccount :: "id \<Rightarrow> id \<Rightarrow> string \<Rightarrow> db \<Rightarrow> account result" where
  "requireMoneyAccount b i field db =
     rbind (require_row acc_id acc_businessId (BadRequest (field @ '': account not found in this workspace'')) b i (accounts db)) (\<lambda>account.
     rbind (check (acc_accountType account = ASSET \<and> subtype_in MONEY_ACCOUNT_SUBTYPES (acc_accountSubtype account))
       (BadRequest (field @ '' must be a cash/bank/mobile-money account''))) (\<lambda>_.
     Inr account))"

definition requireAccountOfType :: "id \<Rightarrow> id \<Rightarrow> account_type \<Rightarrow> string \<Rightarrow> db \<Rightarrow> account result" where
  "requireAccountOfType b i ty field db =
     rbind (require_row acc_id acc_businessId (BadRequest (field @ '': account not found in this workspace'')) b i (accounts db)) (\<lambda>account.
     rbind (check (acc_accountType account = ty)
       (BadRequest (field @ '' must be a '' @ account_type_text ty @ '' account''))) (\<lambda>_.
     Inr account))"

definition getDefaultIncomeAccountId :: "id \<Rightarrow> db \<Rightarrow> id result" where
  "getDefaultIncomeAccountId b db =
     (case find_first (\<lambda>a. acc_businessId a = b \<and> acc_accountType a = account_type.INCOME \<and> acc_status a = record_status.ACTIVE)
             (\<lambda>a. (acc_displayOrder a, acc_createdAt a)) (accounts db) of
        None \<Rightarrow> Inl (BadRequest ''No income account exists in this workspace -- specify incomeAccountId or create one first'')
      | Some account \<Rightarrow> Inr (acc_id account))"

section \<open>Operations\<close>

definition createIncome :: "id_source \<Rightarrow> instant \<Rightarrow> id \<Rightarrow> create_income_dto \<Rightarrow> id \<Rightarrow> db \<Rightarrow> (db \<times> posting) result" where
  "createIncome gen now b dto user db =
     rbind (requireMoneyAccount b (ci_toAccountId dto) ''toAccountId'' db) (\<lambda>toAccount.
     rbind (case ci_incomeAccountId dto of Some i \<Rightarrow> Inr i | None \<Rightarrow> getDefaultIncomeAccountId b db) (\<lambda>incomeAccountId.
     rbind (requireAccountOfType b incomeAccountId account_type.INCOME ''incomeAccountId'' db) (\<lambda>incomeAccount.
     createTransaction db gen gen now b (simple_request transaction_type.INCOME (ci_date dto) (ci_description dto)
       [entry_for (acc_id toAccount) DEBIT (ci_amount dto),
        (entry_for (acc_id incomeAccount) CREDIT (ci_amount dto))\<lparr>ed_categoryId := ci_categoryId dto, ed_note := ci_note dto\<rparr>])
       user db)))"

definition createExpense :: "id_source \<Rightarrow> instant \<Rightarrow> id \<Rightarrow> create_expense_dto \<Rightarrow> id \<Rightarrow> db \<Rightarrow> (db \<times> posting) result" where
  "createExpense gen now b dto user db =
     rbind (requireMoneyAccount b (ce_fromAccountId dto) ''fromAccountId'' db) (\<lambda>fromAccount.
     rbind (requireAccountOfType b (ce_expenseAccountId dto) account_type.EXPENSE ''expenseAccountId'' db) (\<lambda>expenseAccount.
     createTransaction db gen gen now b (simple_request transaction_type.EXPENSE (ce_date dto) (ce_description dto)
       [(entry_for (acc_id expenseAccount) DEBIT (ce_amount dto))\<lparr>ed_categoryId := ce_categoryId dto, ed_note := ce_note dto\<rparr>,
        entry_for (acc_id fromAccount) CREDIT (ce_amount dto)])
       user db))"

definition createTransfer :: "id_source \<Rightarrow> instant \<Rightarrow> id \<Rightarrow> create_transfer_dto \<Rightarrow> id \<Rightarrow> db \<Rightarrow> (db \<times> posting) result" where
  "createTransfer gen now b dto user db =
     (if cx_fromAccountId dto = cx_toAccountId dto then Inl (BadRequest ''Cannot transfer to the same account'')
      else
        rbind (requireMoneyAccount b (cx_fromAccountId dto) ''fromAccountId'' db) (\<lambda>fromAccount.
        rbind (requireMoneyAccount b (cx_toAccountId dto) ''toAccountId'' db) (\<lambda>toAccount.
        createTransaction db gen gen now b (simple_request TRANSFER (cx_date dto) (cx_description dto)
          [entry_for (acc_id toAccount) DEBIT (cx_amount dto), entry_for (acc_id fromAccount) CREDIT (cx_amount dto)])
          user db)))"

section \<open>Facts\<close>

lemma require_account_eq_Inr [result_simps]:
  "requireMoneyAccount b i field db = Inr a \<longleftrightarrow>
     find_row acc_id i (accounts db) = Some a \<and> acc_businessId a = b \<and> acc_accountType a = ASSET \<and>
     subtype_in MONEY_ACCOUNT_SUBTYPES (acc_accountSubtype a)"
  "requireAccountOfType b i ty field db = Inr a \<longleftrightarrow>
     find_row acc_id i (accounts db) = Some a \<and> acc_businessId a = b \<and> acc_accountType a = ty"
  by (auto simp: requireMoneyAccount_def requireAccountOfType_def result_simps)

lemma simple_request_sel [simp]:
  "td_idempotencyKey (simple_request ty d s es) = None" "td_entries (simple_request ty d s es) = es"
  "td_type (simple_request ty d s es) = ty"
  by (simp_all add: simple_request_def)

lemma createTransaction_no_key:
  "td_idempotencyKey dto = None \<Longrightarrow> createTransaction db gen gen' now b dto user db = post_new gen now b dto user db"
  by (simp add: createTransaction_def post_after_def existing_by_key_def)

lemma posted_delta_entry_rows:
  "posted_delta (entry_rows gen es) a = sum_by (\<lambda>d. if ed_accountId d = acc_id a
      then (if (ed_entryType d = DEBIT) = isDebitPositive (acc_accountType a) then ed_amount d else - ed_amount d) else 0) es"
proof -
  define f where "f = (\<lambda>(i :: id, s, m). if i = acc_id a
    then (if (s = DEBIT) = isDebitPositive (acc_accountType a) then m else - (m :: money)) else 0)"
  have "posted_delta xs a = sum_by (\<lambda>e. f (moves e)) xs" for xs
    by (induction xs) (auto simp: posted_delta_def moves_def f_def entry_delta_def)
  then have "posted_delta (entry_rows gen es) a = sum_by (\<lambda>d. f (ed_accountId d, ed_entryType d, ed_amount d)) es"
    by (simp only: sum_entry_rows)
  then show ?thesis by (simp add: f_def)
qed

lemma same_account:
  assumes "books_ok db" and "find_row acc_id i (accounts db) = Some x" and "a \<in> set (accounts db)" and "acc_id a = i"
  shows "a = x"
  using find_row_mem [OF books_okD(5) [OF assms(1)] assms(3)] assms(2,4) by simp

text \<open>
  What a request of two entries on different accounts does: the facts every wrapper inherits. The
  sides are given by the accounts \<open>x\<close> (debited) and \<open>y\<close> (credited).
\<close>

lemma two_entries:
  assumes "books_ok db" and "ids_drawn gen" and "post_new gen now b dto user db = Inr (db', t, es)"
    and "find_row acc_id (ed_accountId d) (accounts db) = Some x" and "find_row acc_id (ed_accountId c) (accounts db) = Some y"
    and "td_entries dto = [d, c]" and "ed_accountId d \<noteq> ed_accountId c"
    and "ed_entryType d = DEBIT" and "ed_entryType c = CREDIT" and "ed_amount d = m" and "ed_amount c = m"
  shows "books_ok db'"
    and "moves_money (\<lambda>a. if acc_id a = acc_id x then signed x m else if acc_id a = acc_id y then - signed y m else 0) db db'"
    and "own_tables db' = own_tables db" and "tx_type t = td_type dto" and "0 < m"
proof -
  note n = post_newD [OF assms(1,3,2)]
  show "books_ok db'" by (rule n(5))
  show "own_tables db' = own_tables db" using only_balances_own [OF n(4)] by simp
  show "tx_type t = td_type dto" by (simp add: n(1))
  show "0 < m"
    using assms(3,6,10) by (auto simp: post_new_def rbind_eq_Inr validateEntryShape_eq_Inr)
  have id: "acc_id x = ed_accountId d" "acc_id y = ed_accountId c"
    using find_row_Some [OF assms(4)] find_row_Some [OF assms(5)] by simp_all
  have "moves_money (posted_delta es) db db'" by (rule post_new_moves [OF assms(1,3,2)])
  then show "moves_money (\<lambda>a. if acc_id a = acc_id x then signed x m else if acc_id a = acc_id y then - signed y m else 0) db db'"
  proof (rule moves_money_cong)
    fix a assume a: "a \<in> set (accounts db)"
    have "a = x" if "acc_id a = ed_accountId d" by (rule same_account [OF assms(1,4) a that])
    moreover have "a = y" if "acc_id a = ed_accountId c" by (rule same_account [OF assms(1,5) a that])
    ultimately show "posted_delta es a = (if acc_id a = acc_id x then signed x m else if acc_id a = acc_id y then - signed y m else 0)"
      unfolding n(2) posted_delta_entry_rows id using assms(6-11)
      by (cases "acc_id a = ed_accountId d"; cases "acc_id a = ed_accountId c") (auto simp: signed_def)
  qed
qed

lemma signed_types [simp]:
  "acc_accountType a = ASSET \<Longrightarrow> signed a m = m" "acc_accountType a = account_type.EXPENSE \<Longrightarrow> signed a m = m"
  "acc_accountType a = account_type.INCOME \<Longrightarrow> signed a m = - m" "acc_accountType a = LIABILITY \<Longrightarrow> signed a m = - m"
  by (simp_all add: signed_def isDebitPositive_def)

lemma entry_for_sel [simp]:
  "ed_accountId (entry_for a s m) = a" "ed_entryType (entry_for a s m) = s" "ed_amount (entry_for a s m) = m"
  by (simp_all add: entry_for_def)

text \<open>
  An income raises the money account it lands in and the income account by the amount, and
  changes no other balance; the books stay sound.
\<close>

theorem createIncome_moves_money:
  assumes "books_ok db" and "ids_drawn gen" and "createIncome gen now b dto user db = Inr (db', t, es)"
  shows "books_ok db' \<and> (\<exists>inc \<in> set (accounts db). acc_accountType inc = account_type.INCOME \<and> acc_businessId inc = b \<and>
    moves_money (\<lambda>a. if acc_id a = ci_toAccountId dto then ci_amount dto else if acc_id a = acc_id inc then ci_amount dto else 0) db db')"
proof -
  from assms(3) obtain to inc i where to: "find_row acc_id (ci_toAccountId dto) (accounts db) = Some to" "acc_accountType to = ASSET"
    and inc: "find_row acc_id i (accounts db) = Some inc" "acc_businessId inc = b" "acc_accountType inc = account_type.INCOME"
    and new: "post_new gen now b (simple_request transaction_type.INCOME (ci_date dto) (ci_description dto)
       [entry_for (acc_id to) DEBIT (ci_amount dto),
        (entry_for (acc_id inc) CREDIT (ci_amount dto))\<lparr>ed_categoryId := ci_categoryId dto, ed_note := ci_note dto\<rparr>])
       user db = Inr (db', t, es)"
    unfolding createIncome_def by (auto simp: rbind_eq_Inr require_account_eq_Inr createTransaction_no_key)
  have mem: "acc_id to = ci_toAccountId dto" "inc \<in> set (accounts db)" "acc_id inc = i"
    using to(1) inc(1) by (auto dest: find_row_Some)
  have ne: "acc_id to \<noteq> acc_id inc" using same_account [OF assms(1) to(1) mem(2)] to(2) inc(3) mem(1) by auto
  note te = two_entries [OF assms(1,2) new, of "entry_for (acc_id to) DEBIT (ci_amount dto)" to
      "(entry_for (acc_id inc) CREDIT (ci_amount dto))\<lparr>ed_categoryId := ci_categoryId dto, ed_note := ci_note dto\<rparr>" inc]
  have v: "signed to (ci_amount dto) = ci_amount dto" "- signed inc (ci_amount dto) = ci_amount dto" using to inc by simp_all
  have "moves_money (\<lambda>a. if acc_id a = acc_id to then signed to (ci_amount dto)
      else if acc_id a = acc_id inc then - signed inc (ci_amount dto) else 0) db db'"
    by (rule te(2)) (use to inc mem ne in simp_all)
  then have "moves_money (\<lambda>a. if acc_id a = ci_toAccountId dto then ci_amount dto
      else if acc_id a = acc_id inc then ci_amount dto else 0) db db'"
    unfolding v mem(1) .
  moreover have "books_ok db'" by (rule te(1)) (use to inc mem ne in simp_all)
  ultimately show ?thesis using inc mem by blast
qed

text \<open>
  An expense takes the amount from the money account it was paid from and adds it to the
  expense account, and changes no other balance; the books stay sound.
\<close>

theorem createExpense_moves_money:
  assumes "books_ok db" and "ids_drawn gen" and "createExpense gen now b dto user db = Inr (db', t, es)"
  shows "books_ok db' \<and> moves_money (\<lambda>a. if acc_id a = ce_expenseAccountId dto then ce_amount dto
    else if acc_id a = ce_fromAccountId dto then - ce_amount dto else 0) db db'"
proof -
  from assms(3) obtain src cat where fr: "find_row acc_id (ce_fromAccountId dto) (accounts db) = Some src" "acc_accountType src = ASSET"
    and cat: "find_row acc_id (ce_expenseAccountId dto) (accounts db) = Some cat" "acc_accountType cat = account_type.EXPENSE"
    and new: "post_new gen now b (simple_request transaction_type.EXPENSE (ce_date dto) (ce_description dto)
       [(entry_for (acc_id cat) DEBIT (ce_amount dto))\<lparr>ed_categoryId := ce_categoryId dto, ed_note := ce_note dto\<rparr>,
        entry_for (acc_id src) CREDIT (ce_amount dto)])
       user db = Inr (db', t, es)"
    unfolding createExpense_def by (auto simp: rbind_eq_Inr require_account_eq_Inr createTransaction_no_key)
  have mem: "acc_id src = ce_fromAccountId dto" "cat \<in> set (accounts db)" "acc_id cat = ce_expenseAccountId dto"
    using fr(1) cat(1) by (auto dest: find_row_Some)
  have ne: "acc_id src \<noteq> acc_id cat" using same_account [OF assms(1) fr(1) mem(2)] fr(2) cat(2) mem(1) by auto
  note te = two_entries [OF assms(1,2) new, of
      "(entry_for (acc_id cat) DEBIT (ce_amount dto))\<lparr>ed_categoryId := ce_categoryId dto, ed_note := ce_note dto\<rparr>" cat
      "entry_for (acc_id src) CREDIT (ce_amount dto)" src]
  have v: "signed cat (ce_amount dto) = ce_amount dto" "signed src (ce_amount dto) = ce_amount dto" using fr cat by simp_all
  have "moves_money (\<lambda>a. if acc_id a = acc_id cat then signed cat (ce_amount dto)
      else if acc_id a = acc_id src then - signed src (ce_amount dto) else 0) db db'"
    by (rule te(2)) (use fr cat mem ne in simp_all)
  moreover have "books_ok db'" by (rule te(1)) (use fr cat mem ne in simp_all)
  ultimately show ?thesis unfolding v mem(1,3) by blast
qed

text \<open>
  A transfer moves the amount from one money account to another and changes no other
  balance; the books stay sound.
\<close>

theorem createTransfer_moves_money:
  assumes "books_ok db" and "ids_drawn gen" and "createTransfer gen now b dto user db = Inr (db', t, es)"
  shows "books_ok db' \<and> cx_fromAccountId dto \<noteq> cx_toAccountId dto \<and> 0 < cx_amount dto \<and>
    moves_money (\<lambda>a. if acc_id a = cx_toAccountId dto then cx_amount dto
      else if acc_id a = cx_fromAccountId dto then - cx_amount dto else 0) db db'"
proof -
  from assms(3) obtain src to where fr: "find_row acc_id (cx_fromAccountId dto) (accounts db) = Some src" "acc_accountType src = ASSET"
    and to: "find_row acc_id (cx_toAccountId dto) (accounts db) = Some to" "acc_accountType to = ASSET"
    and ne: "cx_fromAccountId dto \<noteq> cx_toAccountId dto"
    and new: "post_new gen now b (simple_request TRANSFER (cx_date dto) (cx_description dto)
       [entry_for (acc_id to) DEBIT (cx_amount dto), entry_for (acc_id src) CREDIT (cx_amount dto)])
       user db = Inr (db', t, es)"
    unfolding createTransfer_def by (auto simp: rbind_eq_Inr require_account_eq_Inr createTransaction_no_key split: if_splits)
  have mem: "acc_id src = cx_fromAccountId dto" "acc_id to = cx_toAccountId dto"
    using fr(1) to(1) by (auto dest: find_row_Some)
  note te = two_entries [OF assms(1,2) new, of "entry_for (acc_id to) DEBIT (cx_amount dto)" to
      "entry_for (acc_id src) CREDIT (cx_amount dto)" src]
  have v: "signed to (cx_amount dto) = cx_amount dto" "signed src (cx_amount dto) = cx_amount dto" using fr to by simp_all
  have "moves_money (\<lambda>a. if acc_id a = acc_id to then signed to (cx_amount dto)
      else if acc_id a = acc_id src then - signed src (cx_amount dto) else 0) db db'"
    by (rule te(2)) (use fr to mem ne in simp_all)
  moreover have "books_ok db'" by (rule te(1)) (use fr to mem ne in simp_all)
  moreover have "0 < cx_amount dto" by (rule te(5)) (use fr to mem ne in simp_all)
  ultimately show ?thesis using ne unfolding v mem by blast
qed

section \<open>A worked example\<close>

definition sample_transfer :: create_transfer_dto where
  "sample_transfer = \<lparr>cx_fromAccountId = ''cash'', cx_toAccountId = ''bank'', cx_amount = 250, cx_date = 0, cx_description = None\<rparr>"

definition sample_income :: create_income_dto where
  "sample_income = \<lparr>ci_toAccountId = ''cash'', ci_incomeAccountId = None, ci_amount = 300, ci_date = 0, ci_description = None,
     ci_categoryId = Some ''tips'', ci_note = None\<rparr>"

definition expense_books :: db where
  "expense_books = empty_db\<lparr>accounts := [plain_account ''cash'' ASSET (Some ''cash'') 1000 1000,
     plain_account ''exp'' account_type.EXPENSE None 0 0]\<rparr>"

definition sample_expense :: create_expense_dto where
  "sample_expense = \<lparr>ce_fromAccountId = ''cash'', ce_expenseAccountId = ''exp'', ce_amount = 300, ce_date = 0, ce_description = None,
     ce_categoryId = Some ''food'', ce_note = None\<rparr>"

lemmas quick_defs = createTransaction_def post_defs requireMoneyAccount_def requireAccountOfType_def require_row_def
  simple_request_def entry_for_def draw_def plain_rows isDebitPositive_def account_constants subtype_in_def

lemma createIncome_moves_money_witness:
  "\<exists>d t es. createIncome (draw CHR ''p'') 9 ''w'' sample_income ''u'' sample_books = Inr (d, t, es) \<and> books_ok d"
proof -
  have "\<exists>d t es. createIncome (draw CHR ''p'') 9 ''w'' sample_income ''u'' sample_books = Inr (d, t, es)"
    by (simp add: createIncome_def sample_income_def quick_defs getDefaultIncomeAccountId_def find_first_def find_many_def
        sample_books_def Let_def)
  then obtain d t es where op: "createIncome (draw CHR ''p'') 9 ''w'' sample_income ''u'' sample_books = Inr (d, t, es)" by blast
  from createIncome_moves_money [OF sample_books_sound ids_drawn_draw op] op show ?thesis by blast
qed

lemma createTransfer_moves_money_witness:
  "\<exists>d t es. createTransfer (draw CHR ''p'') 9 ''w'' sample_transfer ''u'' sample_books = Inr (d, t, es) \<and> books_ok d"
proof -
  have "\<exists>d t es. createTransfer (draw CHR ''p'') 9 ''w'' sample_transfer ''u'' sample_books = Inr (d, t, es)"
    by (simp add: createTransfer_def sample_transfer_def quick_defs sample_books_def Let_def)
  then obtain d t es where op: "createTransfer (draw CHR ''p'') 9 ''w'' sample_transfer ''u'' sample_books = Inr (d, t, es)" by blast
  from createTransfer_moves_money [OF sample_books_sound ids_drawn_draw op] op show ?thesis by blast
qed

lemma expense_books_sound: "books_ok expense_books"
  by (simp add: books_ok_def ledger_core_def reversals_ok_def voids_net_def balance_cached_def fk_entries_def
      same_workspace_def empty_db_def expense_books_def plain_rows true_balance_def account_entries_def dead_entries_def)

lemma createExpense_moves_money_witness:
  "\<exists>d t es. createExpense (draw CHR ''p'') 9 ''w'' sample_expense ''u'' expense_books = Inr (d, t, es) \<and> books_ok d"
proof -
  have "\<exists>d t es. createExpense (draw CHR ''p'') 9 ''w'' sample_expense ''u'' expense_books = Inr (d, t, es)"
    by (simp add: createExpense_def sample_expense_def quick_defs expense_books_def Let_def empty_db_def)
  then obtain d t es where op: "createExpense (draw CHR ''p'') 9 ''w'' sample_expense ''u'' expense_books = Inr (d, t, es)" by blast
  from createExpense_moves_money [OF expense_books_sound ids_drawn_draw op] op show ?thesis by blast
qed

end
