(* ===== verification/Assets.thy ===== *)
theory Assets
  imports Quick_Entries
begin

text \<open>
  Assets (src/assets/assets.service.ts): what a workspace owns, bought from and sold into its
  accounts through the posting service, with a log of values beside the ledger. The tables only this
  service reads, the value history and the categories, stand next to the ledger's. Each purchase and
  sale runs under its advisory locks in one database transaction, one step here.
\<close>

section \<open>Rows and requests\<close>

record asset_value =
  av_id :: id
  av_assetId :: id
  av_value :: money
  av_recordedAt :: instant
  av_note :: "string option"

record asset_category =
  ak_id :: id
  ak_businessId :: id
  ak_name :: string
  ak_icon :: "string option"
  ak_color :: string
  ak_displayOrder :: int

record adb =
  ad_books :: db
  ad_history :: "asset_value list"
  ad_categories :: "asset_category list"

record purchase_dto =
  pd_name :: string
  pd_category :: string
  pd_purchaseDate :: instant
  pd_purchasePrice :: money
  pd_purchaseAccountId :: "id option"
  pd_notes :: "string option"

record sell_dto =
  sd_soldPrice :: money
  sd_soldAccountId :: id
  sd_date :: instant
  sd_notes :: "string option"

record asset_value_dto =
  vd_value :: money
  vd_date :: instant
  vd_note :: "string option"

record create_asset_category_dto =
  kc_name :: string
  kc_icon :: "string option"
  kc_color :: string

record update_asset_category_dto =
  kp_name :: "string option"
  kp_icon :: "string option option"
  kp_color :: "string option"

section \<open>Categories\<close>

definition DEFAULT_ASSET_CATEGORIES :: "(string \<times> string \<times> string) list" where
  "DEFAULT_ASSET_CATEGORIES =
     [(''Vehicle'', ''car'', ''blue''), (''Land'', ''mountain'', ''green''), (''Property'', ''building-2'', ''orange''),
      (''Jewellery'', ''gem'', ''pink''), (''Electronics'', ''laptop'', ''purple''), (''Investment'', ''trending-up'', ''teal''),
      (''Other'', ''package'', ''indigo'')]"

definition asset_categories_of :: "id \<Rightarrow> adb \<Rightarrow> asset_category list" where
  "asset_categories_of b ad = find_many (\<lambda>k. ak_businessId k = b) ak_displayOrder (ad_categories ad)"

definition insert_asset_category :: "asset_category \<Rightarrow> adb \<Rightarrow> adb result" where
  "insert_asset_category k ad =
     rbind (check (\<forall>x \<in> set (ad_categories ad). \<not> (ak_businessId x = ak_businessId k \<and> ak_name x = ak_name k)) (DbError ''P2002'')) (\<lambda>_.
     rbind (insert_row ak_id k (ad_categories ad)) (\<lambda>ks. Inr (ad\<lparr>ad_categories := ks\<rparr>)))"

definition default_asset_category :: "id_source \<Rightarrow> id \<Rightarrow> nat \<times> string \<times> string \<times> string \<Rightarrow> asset_category" where
  "default_asset_category gen b = (\<lambda>(i, name, icon, color). \<lparr>ak_id = gen i, ak_businessId = b, ak_name = name, ak_icon = Some icon,
     ak_color = color, ak_displayOrder = int i\<rparr>)"

definition listCategories :: "id_source \<Rightarrow> id \<Rightarrow> adb \<Rightarrow> (adb \<times> asset_category list) result" where
  "listCategories gen b ad =
     (if asset_categories_of b ad \<noteq> [] then Inr (ad, asset_categories_of b ad)
      else
        rbind (rfold insert_asset_category (map (default_asset_category gen b) (enumerate 0 DEFAULT_ASSET_CATEGORIES)) ad) (\<lambda>ad.
        Inr (ad, asset_categories_of b ad)))"

definition asset_category_named :: "id \<Rightarrow> string \<Rightarrow> adb \<Rightarrow> asset_category option" where
  "asset_category_named b name ad = find (\<lambda>k. ak_businessId k = b \<and> ak_name k = name) (ad_categories ad)"

definition asset_name_taken :: "string \<Rightarrow> http_error" where
  "asset_name_taken name = Conflict (''An asset category named '' @ quoted name @ '' already exists'')"

definition createCategory :: "id \<Rightarrow> id \<Rightarrow> create_asset_category_dto \<Rightarrow> adb \<Rightarrow> adb result" where
  "createCategory newId b dto ad =
     rbind (check (asset_category_named b (kc_name dto) ad = None) (asset_name_taken (kc_name dto))) (\<lambda>_.
     insert_asset_category \<lparr>ak_id = newId, ak_businessId = b, ak_name = kc_name dto, ak_icon = kc_icon dto, ak_color = kc_color dto,
       ak_displayOrder = int (length (filter (\<lambda>k. ak_businessId k = b) (ad_categories ad)))\<rparr> ad)"

definition requireCategory :: "id \<Rightarrow> id \<Rightarrow> adb \<Rightarrow> asset_category result" where
  "requireCategory b i ad = require_row ak_id ak_businessId (NotFound ''Asset category not found'') b i (ad_categories ad)"

definition apply_asset_category_update :: "update_asset_category_dto \<Rightarrow> asset_category \<Rightarrow> asset_category" where
  "apply_asset_category_update dto k =
     k\<lparr>ak_name := orelse (kp_name dto) (ak_name k), ak_icon := orelse (kp_icon dto) (ak_icon k), ak_color := orelse (kp_color dto) (ak_color k)\<rparr>"

definition updateCategory :: "id \<Rightarrow> id \<Rightarrow> update_asset_category_dto \<Rightarrow> adb \<Rightarrow> adb result" where
  "updateCategory b i dto ad =
     rbind (requireCategory b i ad) (\<lambda>_.
     rbind (case kp_name dto of None \<Rightarrow> Inr ()
            | Some name \<Rightarrow> (case asset_category_named b name ad of None \<Rightarrow> Inr ()
                | Some clash \<Rightarrow> check (ak_id clash = i) (asset_name_taken name))) (\<lambda>_.
     rbind (update_row ak_id i (apply_asset_category_update dto) (ad_categories ad)) (\<lambda>ks. Inr (ad\<lparr>ad_categories := ks\<rparr>))))"

definition deleteCategory :: "id \<Rightarrow> id \<Rightarrow> adb \<Rightarrow> adb result" where
  "deleteCategory b i ad =
     rbind (requireCategory b i ad) (\<lambda>_.
     rbind (delete_row ak_id i (ad_categories ad)) (\<lambda>ks. Inr (ad\<lparr>ad_categories := ks\<rparr>)))"

section \<open>Checks\<close>

definition requireAsset :: "id \<Rightarrow> id \<Rightarrow> db \<Rightarrow> asset result" where
  "requireAsset b i db = require_row as_id as_businessId (NotFound ''Asset not found'') b i (assets db)"

definition asset_requirePaymentAccount :: "id \<Rightarrow> id \<Rightarrow> db \<Rightarrow> account result" where
  "asset_requirePaymentAccount b i db =
     rbind (require_row acc_id acc_businessId (BadRequest ''Account not found in this workspace'') b i (accounts db)) (\<lambda>account.
     let isMoneyAccount = (acc_accountType account = ASSET \<and> subtype_in MONEY_ACCOUNT_SUBTYPES (acc_accountSubtype account));
         isSavingsWallet = (acc_accountType account = ASSET \<and> acc_accountSubtype account = Some ''savings'' \<and> \<not> acc_isSystemAccount account) in
     if \<not> isMoneyAccount \<and> \<not> isSavingsWallet
     then Inl (BadRequest ''Must be a General (cash/bank/mobile money) or Savings account'')
     else Inr account)"

definition fixed_assets_account :: "id \<Rightarrow> instant \<Rightarrow> id \<Rightarrow> account" where
  "fixed_assets_account newId now b =
     \<lparr>acc_id = newId, acc_businessId = b, acc_parentId = None, acc_name = ''Fixed Assets (Internal)'', acc_nameBn = None,
      acc_accountNumber = None, acc_accountType = ASSET, acc_accountSubtype = Some FIXED_ASSETS_ACCOUNT_SUBTYPE,
      acc_openingBalance = 0, acc_currentBalance = 0, acc_isSystemAccount = True, acc_status = record_status.ACTIVE,
      acc_displayOrder = 0, acc_createdAt = now\<rparr>"

definition requireOrCreateFixedAssetsAccount :: "id \<Rightarrow> instant \<Rightarrow> id \<Rightarrow> db \<Rightarrow> (db \<times> account) result" where
  "requireOrCreateFixedAssetsAccount newId now b db =
     (case find (\<lambda>a. acc_businessId a = b \<and> acc_accountSubtype a = Some FIXED_ASSETS_ACCOUNT_SUBTYPE \<and> acc_isSystemAccount a) (accounts db) of
        Some existing \<Rightarrow> Inr (db, existing)
      | None \<Rightarrow> rbind (insert_account (fixed_assets_account newId now b) (accounts db)) (\<lambda>t.
          Inr (db\<lparr>accounts := t\<rparr>, fixed_assets_account newId now b)))"

section \<open>Buying, selling, revaluing\<close>

definition list_assets :: "id \<Rightarrow> adb \<Rightarrow> (asset \<times> asset_value list) list" where
  "list_assets b ad =
     map (\<lambda>a. (a, find_many (\<lambda>v. av_assetId v = as_id a) (\<lambda>v. - av_recordedAt v) (ad_history ad)))
       (find_many (\<lambda>a. as_businessId a = b) (\<lambda>a. - as_purchaseDate a) (assets (ad_books ad)))"

text \<open>The posting of a purchase or a sale may be recorded on one asset only (\<open>@unique\<close>).\<close>

definition insert_asset :: "asset \<Rightarrow> asset_value \<Rightarrow> adb \<Rightarrow> adb result" where
  "insert_asset a v ad =
     rbind (store_money (as_purchasePrice a)) (\<lambda>_.
     rbind (check (as_purchaseTransactionId a = None \<or>
         as_purchaseTransactionId a \<notin> as_purchaseTransactionId ` set (assets (ad_books ad))) (DbError ''P2002'')) (\<lambda>_.
     rbind (insert_row as_id a (assets (ad_books ad))) (\<lambda>as.
     rbind (insert_row av_id v (ad_history ad)) (\<lambda>vs.
     Inr (ad\<lparr>ad_books := (ad_books ad)\<lparr>assets := as\<rparr>, ad_history := vs\<rparr>)))))"

definition new_asset :: "id \<Rightarrow> id \<Rightarrow> purchase_dto \<Rightarrow> id option \<Rightarrow> id option \<Rightarrow> asset" where
  "new_asset newId b dto account transaction =
     \<lparr>as_id = newId, as_businessId = b, as_name = pd_name dto, as_category = pd_category dto, as_purchaseDate = pd_purchaseDate dto,
      as_purchasePrice = pd_purchasePrice dto, as_currentValue = pd_purchasePrice dto, as_purchaseAccountId = account,
      as_purchaseTransactionId = transaction, as_status = asset_status.ACTIVE, as_soldAt = None, as_soldPrice = None,
      as_soldAccountId = None, as_soldTransactionId = None, as_notes = pd_notes dto\<rparr>"

definition first_value :: "id \<Rightarrow> id \<Rightarrow> purchase_dto \<Rightarrow> string \<Rightarrow> asset_value" where
  "first_value newId assetId dto note =
     \<lparr>av_id = newId, av_assetId = assetId, av_value = pd_purchasePrice dto, av_recordedAt = pd_purchaseDate dto, av_note = Some note\<rparr>"

definition with_notes :: "string \<Rightarrow> string option \<Rightarrow> string" where
  "with_notes what notes = (if truthy notes then what @ '' -- '' @ the notes else what)"

definition purchase_request :: "account \<Rightarrow> account \<Rightarrow> purchase_dto \<Rightarrow> create_txn_dto" where
  "purchase_request fixedAssetsAccount paymentAccount dto =
     simple_request PURCHASE (pd_purchaseDate dto) (Some (with_notes (''Asset purchase: '' @ pd_name dto) (pd_notes dto)))
       [entry_for (acc_id fixedAssetsAccount) DEBIT (pd_purchasePrice dto),
        (entry_for (acc_id paymentAccount) CREDIT (pd_purchasePrice dto))\<lparr>ed_note := pd_notes dto\<rparr>]"

text \<open>The posting draws the ids 0 to 2, a first account for fixed assets 3, the asset 4, its first value 5.\<close>

definition purchase :: "id_source \<Rightarrow> instant \<Rightarrow> id \<Rightarrow> purchase_dto \<Rightarrow> id \<Rightarrow> adb \<Rightarrow> (adb \<times> asset) result" where
  "purchase gen now b dto user ad =
     (if \<not> truthy (pd_purchaseAccountId dto) then
        let a = new_asset (gen 4) b dto None None in
        rbind (insert_asset a (first_value (gen 5) (gen 4) dto ''Initial value'') ad) (\<lambda>ad. Inr (ad, a))
      else
        rbind (asset_requirePaymentAccount b (the (pd_purchaseAccountId dto)) (ad_books ad)) (\<lambda>paymentAccount.
        rbind (check (pd_purchasePrice dto \<le> acc_currentBalance paymentAccount)
          (BadRequest (quoted (acc_name paymentAccount) @ '' only has '' @ to_fixed2 (acc_currentBalance paymentAccount) @
             '' -- cannot spend '' @ to_fixed2 (pd_purchasePrice dto) @ '' from it.''))) (\<lambda>_.
        rbind (requireOrCreateFixedAssetsAccount (gen 3) now b (ad_books ad)) (\<lambda>(db, fixedAssetsAccount).
        rbind (post gen now b (purchase_request fixedAssetsAccount paymentAccount dto) user db) (\<lambda>(db, t, _).
        let a = new_asset (gen 4) b dto (Some (acc_id paymentAccount)) (Some (tx_id t)) in
        rbind (insert_asset a (first_value (gen 5) (gen 4) dto ''Initial purchase value'') (ad\<lparr>ad_books := db\<rparr>)) (\<lambda>ad.
        Inr (ad, a)))))))"

definition sale_request :: "asset \<Rightarrow> account \<Rightarrow> account \<Rightarrow> sell_dto \<Rightarrow> create_txn_dto" where
  "sale_request asset depositAccount fixedAssetsAccount dto =
     simple_request transaction_type.INCOME (sd_date dto) (Some (with_notes (''Asset sale: '' @ as_name asset) (sd_notes dto)))
       [(entry_for (acc_id depositAccount) DEBIT (sd_soldPrice dto))\<lparr>ed_categoryId := Some ''Asset Sale'', ed_note := sd_notes dto\<rparr>,
        entry_for (acc_id fixedAssetsAccount) CREDIT (sd_soldPrice dto)]"

definition mark_sold :: "sell_dto \<Rightarrow> id \<Rightarrow> id \<Rightarrow> asset \<Rightarrow> asset" where
  "mark_sold dto account transaction a =
     a\<lparr>as_status := SOLD, as_soldAt := Some (sd_date dto), as_soldPrice := Some (sd_soldPrice dto), as_soldAccountId := Some account,
       as_soldTransactionId := Some transaction\<rparr>"

definition sell :: "id_source \<Rightarrow> instant \<Rightarrow> id \<Rightarrow> id \<Rightarrow> sell_dto \<Rightarrow> id \<Rightarrow> adb \<Rightarrow> adb result" where
  "sell gen now b i dto user ad =
     rbind (requireAsset b i (ad_books ad)) (\<lambda>asset.
     rbind (check (as_status asset \<noteq> SOLD) (BadRequest ''This asset has already been sold.'')) (\<lambda>_.
     rbind (asset_requirePaymentAccount b (sd_soldAccountId dto) (ad_books ad)) (\<lambda>depositAccount.
     rbind (requireOrCreateFixedAssetsAccount (gen 3) now b (ad_books ad)) (\<lambda>(db, fixedAssetsAccount).
     rbind (post gen now b (sale_request asset depositAccount fixedAssetsAccount dto) user db) (\<lambda>(db, t, _).
     rbind (store_money (sd_soldPrice dto)) (\<lambda>_.
     rbind (check (Some (tx_id t) \<notin> as_soldTransactionId ` set (assets db)) (DbError ''P2002'')) (\<lambda>_.
     rbind (update_row as_id i (mark_sold dto (acc_id depositAccount) (tx_id t)) (assets db)) (\<lambda>as.
     Inr (ad\<lparr>ad_books := db\<lparr>assets := as\<rparr>\<rparr>)))))))))"

definition updateValue :: "id \<Rightarrow> id \<Rightarrow> id \<Rightarrow> asset_value_dto \<Rightarrow> adb \<Rightarrow> adb result" where
  "updateValue newId b i dto ad =
     rbind (requireAsset b i (ad_books ad)) (\<lambda>asset.
     rbind (check (as_status asset \<noteq> SOLD) (BadRequest ''Cannot update the value of a sold asset.'')) (\<lambda>_.
     rbind (store_money (vd_value dto)) (\<lambda>_.
     rbind (insert_row av_id \<lparr>av_id = newId, av_assetId = i, av_value = vd_value dto, av_recordedAt = vd_date dto, av_note = vd_note dto\<rparr>
       (ad_history ad)) (\<lambda>vs.
     rbind (update_row as_id i (\<lambda>a. a\<lparr>as_currentValue := vd_value dto\<rparr>) (assets (ad_books ad))) (\<lambda>as.
     Inr (ad\<lparr>ad_books := (ad_books ad)\<lparr>assets := as\<rparr>, ad_history := vs\<rparr>))))))"

end
