(* ===== verification/Asset_Facts.thy ===== *)
theory Asset_Facts
  imports Assets Ledger_Abstract
begin

text \<open>
  What assets promise: an asset and the ledger always tell the same story, through purchases,
  sales, revaluations and whatever else runs in the ledger meanwhile; an asset is sold once.
\<close>

section \<open>Assets backed by the book\<close>

definition bought_on_book :: "book \<Rightarrow> asset \<Rightarrow> bool" where
  "bought_on_book B a \<longleftrightarrow> (case as_purchaseAccountId a of
       None \<Rightarrow> as_purchaseTransactionId a = None
     | Some p \<Rightarrow> \<exists>i f. as_purchaseTransactionId a = Some i \<and> B i = Some [(f, DEBIT, as_purchasePrice a), (p, CREDIT, as_purchasePrice a)])"

definition sold_on_book :: "book \<Rightarrow> asset \<Rightarrow> bool" where
  "sold_on_book B a \<longleftrightarrow> (as_status a = SOLD \<longleftrightarrow> as_soldTransactionId a \<noteq> None) \<and>
     (\<forall>i. as_soldTransactionId a = Some i \<longrightarrow>
       (\<exists>f. B i = Some [(the (as_soldAccountId a), DEBIT, the (as_soldPrice a)), (f, CREDIT, the (as_soldPrice a))]))"

definition assets_ok :: "db \<Rightarrow> bool" where
  "assets_ok db \<longleftrightarrow> keyed as_id (assets db) \<and> (\<forall>a \<in> set (assets db). bought_on_book (book_of db) a \<and> sold_on_book (book_of db) a)"

text \<open>The lines of assets stay when the book grows or other lines are struck out.\<close>

definition keeps_lines :: "id set \<Rightarrow> book \<Rightarrow> book \<Rightarrow> bool" where
  "keeps_lines I B B' \<longleftrightarrow> (\<forall>i \<in> I. i \<in> dom B \<longrightarrow> B' i = B i)"

definition asset_lines :: "asset list \<Rightarrow> id set" where
  "asset_lines as = {i. \<exists>a \<in> set as. as_purchaseTransactionId a = Some i \<or> as_soldTransactionId a = Some i}"

lemma on_book_kept:
  assumes "keeps_lines (asset_lines as) B B'" and "a \<in> set as"
  shows "bought_on_book B a \<Longrightarrow> bought_on_book B' a" "sold_on_book B a \<Longrightarrow> sold_on_book B' a"
proof -
  have keep: "B' i = B i" if "i \<in> dom B" "as_purchaseTransactionId a = Some i \<or> as_soldTransactionId a = Some i" for i
    using assms that unfolding keeps_lines_def asset_lines_def by blast
  show "bought_on_book B' a" if old: "bought_on_book B a"
  proof (cases "as_purchaseAccountId a")
    case None
    with old show ?thesis by (simp add: bought_on_book_def)
  next
    case (Some p)
    with old obtain i f where i: "as_purchaseTransactionId a = Some i" and B: "B i = Some [(f, DEBIT, as_purchasePrice a), (p, CREDIT, as_purchasePrice a)]"
      by (auto simp: bought_on_book_def)
    with keep [of i] have "B' i = B i" by auto
    with Some i B show ?thesis by (simp add: bought_on_book_def)
  qed
  show "sold_on_book B' a" if old: "sold_on_book B a"
    unfolding sold_on_book_def
  proof (intro conjI allI impI)
    show "as_status a = SOLD \<longleftrightarrow> as_soldTransactionId a \<noteq> None" using old by (simp add: sold_on_book_def)
    fix i assume i: "as_soldTransactionId a = Some i"
    with old obtain f where "B i = Some [(the (as_soldAccountId a), DEBIT, the (as_soldPrice a)), (f, CREDIT, the (as_soldPrice a))]"
      by (auto simp: sold_on_book_def)
    with keep [of i] i show "\<exists>f. B' i = Some [(the (as_soldAccountId a), DEBIT, the (as_soldPrice a)), (f, CREDIT, the (as_soldPrice a))]" by auto
  qed
qed

lemma assets_ok_kept:
  "assets_ok db \<Longrightarrow> assets db' = assets db \<Longrightarrow> keeps_lines (asset_lines (assets db)) (book_of db) (book_of db') \<Longrightarrow> assets_ok db'"
  by (auto simp: assets_ok_def intro: on_book_kept)

section \<open>What the operations do\<close>

lemma keeps_lines_written: "i \<notin> dom B \<Longrightarrow> keeps_lines I B (B(i \<mapsto> ms))"
  by (auto simp: keeps_lines_def)

lemma ledger_keeps_asset_lines:
  assumes step: "ledger_step db db'" and ok: "books_ok db"
  shows "keeps_lines (asset_lines (assets db)) (book_of db) (book_of db')"
  using step
proof (rule ledger_stepE)
  fix gen now b dto user p assume p: "post gen now b dto user db = Inr (db', p)" and gen: "ids_drawn gen"
  obtain t es where pe: "p = (t, es)" by (cases p)
  show ?thesis
  proof (cases "existing_by_key (td_idempotencyKey dto) db")
    case None
    then have "post_new gen now b dto user db = Inr (db', t, es)" using p pe by (simp add: post_def post_after_def)
    from post_writes [OF ok this gen] show ?thesis by (simp add: keeps_lines_written)
  next
    case (Some x)
    then show ?thesis using p by (auto simp: post_def post_after_def keeps_lines_def split: if_splits)
  qed
next
  fix gen now b i reason user p assume v: "voidTransaction gen now b i reason user db = Inr (db', p)" "ids_drawn gen"
  from void_not_owned(2) [OF ok v] have "i \<notin> asset_lines (assets db)" by (auto simp: owned_by_asset_def asset_lines_def)
  with void_strikes(1) [OF ok v] show ?thesis by (auto simp: keeps_lines_def)
next
  assume "accounts_step db db'"
  then show ?thesis by (simp add: accounts_step_book keeps_lines_def)
next
  fix b r assume "reconcileWorkspace b db = Inr (db', r)"
  with reconcileWorkspace_no_change [OF ok this] show ?thesis by (simp add: keeps_lines_def)
qed

lemma requireOrCreate_result:
  assumes "requireOrCreateFixedAssetsAccount newId now b db = Inr (db', f)" and ok: "books_ok db"
  shows "books_ok db'" "txns db' = txns db" "entries db' = entries db" "assets db' = assets db"
proof -
  consider "db' = db" | "acc_id f \<notin> acc_id ` set (accounts db)" "acc_currentBalance f = acc_openingBalance f" "db' = db\<lparr>accounts := accounts db @ [f]\<rparr>"
  proof (cases "find (\<lambda>a. acc_businessId a = b \<and> acc_accountSubtype a = Some FIXED_ASSETS_ACCOUNT_SUBTYPE \<and> acc_isSystemAccount a) (accounts db)")
    case None
    with assms(1) have "f = fixed_assets_account newId now b" "insert_account f (accounts db) = Inr (accounts db @ [f])"
      "db' = db\<lparr>accounts := accounts db @ [f]\<rparr>" "acc_id f \<notin> acc_id ` set (accounts db)"
      unfolding requireOrCreateFixedAssetsAccount_def insert_account_def by (auto simp only: option.case rbind_eq_Inr result_simps prod.inject sum.inject)
    then show thesis using that(2) by (simp add: fixed_assets_account_def)
  next
    case (Some a)
    with assms(1) show thesis using that(1) by (simp add: requireOrCreateFixedAssetsAccount_def)
  qed
  then have "books_ok db' \<and> txns db' = txns db \<and> entries db' = entries db \<and> assets db' = assets db"
    by cases (use ok in \<open>auto intro: books_ok_add_account\<close>)
  then show "books_ok db'" "txns db' = txns db" "entries db' = entries db" "assets db' = assets db" by blast+
qed

lemma books_ok_assets [simp]: "books_ok (db\<lparr>assets := as\<rparr>) = books_ok db"
  by (simp add: books_ok_def ledger_core_def reversals_ok_def voids_net_def balance_cached_def fk_entries_def same_workspace_def
      balanced_txn_def entries_of_def txn_of_def on_txn_def dead_entries_def account_entries_def true_balance_def reversals_def mirrors_def)

lemma book_of_assets [simp]: "book_of (db\<lparr>assets := as\<rparr>) = book_of db"
  by (rule book_of_cong) simp_all

lemma requireAsset_eq_Inr [result_simps]:
  "requireAsset b i db = Inr a \<longleftrightarrow> find_row as_id i (assets db) = Some a \<and> as_businessId a = b"
  by (simp add: requireAsset_def result_simps)

lemma insert_asset_eq_Inr:
  "insert_asset a v ad = Inr ad' \<Longrightarrow> as_id a \<notin> as_id ` set (assets (ad_books ad)) \<and>
     ad_books ad' = (ad_books ad)\<lparr>assets := assets (ad_books ad) @ [a]\<rparr>"
  unfolding insert_asset_def by (auto simp: rbind_eq_Inr result_simps)

text \<open>A posting of one of the two requests: one new line, the tables of assets untouched.\<close>

lemma asset_posting:
  assumes "books_ok db" and "ids_drawn gen" and "post gen now b dto user db = Inr (db', t, es)" and "td_idempotencyKey dto = None"
  shows "books_ok db'" "assets db' = assets db" "book_of db' = (book_of db)(tx_id t \<mapsto> dto_moves dto)" "tx_id t \<notin> dom (book_of db)"
  using keyless_posting [OF assms] by (simp_all add: feature_tables_def)

lemma dto_moves_requests:
  "td_idempotencyKey (purchase_request f p pd) = None" "td_idempotencyKey (sale_request a p f sd) = None"
  "dto_moves (purchase_request f p pd) = [(acc_id f, DEBIT, pd_purchasePrice pd), (acc_id p, CREDIT, pd_purchasePrice pd)]"
  "dto_moves (sale_request a p f sd) = [(acc_id p, DEBIT, sd_soldPrice sd), (acc_id f, CREDIT, sd_soldPrice sd)]"
  by (simp_all add: purchase_request_def sale_request_def simple_request_def entry_for_def dto_moves_def)

lemma assets_ok_add:
  assumes "assets_ok db" and "as_id a \<notin> as_id ` set (assets db)" and "bought_on_book (book_of db) a" and "sold_on_book (book_of db) a"
  shows "assets_ok (db\<lparr>assets := assets db @ [a]\<rparr>)"
  using assms by (auto simp: assets_ok_def)

lemma purchase_keeps:
  assumes run: "purchase gen now b dto user ad = Inr (ad', a)" and gen: "ids_drawn gen" and ok: "books_ok (ad_books ad)" and as: "assets_ok (ad_books ad)"
  shows "books_ok (ad_books ad') \<and> assets_ok (ad_books ad')"
proof (cases "truthy (pd_purchaseAccountId dto)")
  case False
  with run have a: "a = new_asset (gen 4) b dto None None"
    and ins: "insert_asset a (first_value (gen 5) (gen 4) dto ''Initial value'') ad = Inr ad'"
    unfolding purchase_def Let_def by (auto simp: rbind_eq_Inr)
  have "bought_on_book B a" "sold_on_book B a" for B by (simp_all add: a new_asset_def bought_on_book_def sold_on_book_def)
  with insert_asset_eq_Inr [OF ins] assets_ok_add [OF as] ok show ?thesis by simp
next
  case True
  with run obtain p db1 f db2 t es where
    f: "requireOrCreateFixedAssetsAccount (gen 3) now b (ad_books ad) = Inr (db1, f)"
    and post: "post gen now b (purchase_request f p dto) user db1 = Inr (db2, t, es)"
    and a: "a = new_asset (gen 4) b dto (Some (acc_id p)) (Some (tx_id t))"
    and ins: "insert_asset a (first_value (gen 5) (gen 4) dto ''Initial purchase value'') (ad\<lparr>ad_books := db2\<rparr>) = Inr ad'"
    unfolding purchase_def Let_def by (auto simp: rbind_eq_Inr split: if_splits)
  note c = requireOrCreate_result [OF f ok]
  note q = asset_posting [OF c(1) gen post dto_moves_requests(1)]
  have "assets_ok db1" using as by (rule assets_ok_kept) (simp_all add: c(4) book_of_cong [OF c(2,3)] keeps_lines_def)
  then have "assets_ok db2" by (rule assets_ok_kept) (simp_all add: q(2,3) keeps_lines_written [OF q(4)])
  moreover have "bought_on_book (book_of db2) a" "sold_on_book (book_of db2) a"
    by (simp_all add: a new_asset_def bought_on_book_def sold_on_book_def q(3) dto_moves_requests)
  ultimately show ?thesis using insert_asset_eq_Inr [OF ins] q(1) by (simp add: assets_ok_add)
qed

lemma purchase_appends:
  assumes run: "purchase gen now b dto user ad = Inr (ad', a)" and gen: "ids_drawn gen" and ok: "books_ok (ad_books ad)"
  shows "set (assets (ad_books ad)) \<subseteq> set (assets (ad_books ad'))"
proof (cases "truthy (pd_purchaseAccountId dto)")
  case False
  with run have "insert_asset a (first_value (gen 5) (gen 4) dto ''Initial value'') ad = Inr ad'"
    unfolding purchase_def Let_def by (auto simp: rbind_eq_Inr)
  from insert_asset_eq_Inr [OF this] show ?thesis by auto
next
  case True
  with run obtain p db1 f db2 t es where
    f: "requireOrCreateFixedAssetsAccount (gen 3) now b (ad_books ad) = Inr (db1, f)"
    and post: "post gen now b (purchase_request f p dto) user db1 = Inr (db2, t, es)"
    and ins: "insert_asset a (first_value (gen 5) (gen 4) dto ''Initial purchase value'') (ad\<lparr>ad_books := db2\<rparr>) = Inr ad'"
    unfolding purchase_def Let_def by (auto simp: rbind_eq_Inr split: if_splits)
  note c = requireOrCreate_result [OF f ok]
  from insert_asset_eq_Inr [OF ins] asset_posting(2) [OF c(1) gen post dto_moves_requests(1)] c(4) show ?thesis by auto
qed

lemma sellE:
  assumes run: "sell gen now b i dto user ad = Inr ad'" and gen: "ids_drawn gen" and ok: "books_ok (ad_books ad)" and as: "assets_ok (ad_books ad)"
  obtains a and p :: account and f :: account and db2 and t :: txn where "find_row as_id i (assets (ad_books ad)) = Some a" "as_businessId a = b" "as_status a \<noteq> SOLD"
    "books_ok db2" "assets db2 = assets (ad_books ad)" "assets_ok db2" "tx_id t \<notin> dom (book_of (ad_books ad))"
    "book_of db2 = (book_of (ad_books ad))(tx_id t \<mapsto> [(acc_id p, DEBIT, sd_soldPrice dto), (acc_id f, CREDIT, sd_soldPrice dto)])"
    "ad_books ad' = db2\<lparr>assets := map_row as_id i (mark_sold dto (acc_id p) (tx_id t)) (assets db2)\<rparr>"
    "acc_id p = sd_soldAccountId dto" "ad_history ad' = ad_history ad" "ad_categories ad' = ad_categories ad"
proof -
  from run obtain a p db1 f db2 t es where
    a: "find_row as_id i (assets (ad_books ad)) = Some a" "as_businessId a = b" "as_status a \<noteq> SOLD"
    and p: "asset_requirePaymentAccount b (sd_soldAccountId dto) (ad_books ad) = Inr p"
    and f: "requireOrCreateFixedAssetsAccount (gen 3) now b (ad_books ad) = Inr (db1, f)"
    and post: "post gen now b (sale_request a p f dto) user db1 = Inr (db2, t, es)"
    and ad': "ad' = ad\<lparr>ad_books := db2\<lparr>assets := map_row as_id i (mark_sold dto (acc_id p) (tx_id t)) (assets db2)\<rparr>\<rparr>"
    unfolding sell_def by (auto simp: rbind_eq_Inr result_simps)
  note c = requireOrCreate_result [OF f ok]
  note q = asset_posting [OF c(1) gen post dto_moves_requests(2)]
  have book: "book_of db1 = book_of (ad_books ad)" by (rule book_of_cong [OF c(2,3)])
  have "assets_ok db1" using as by (rule assets_ok_kept) (simp_all add: c(4) book keeps_lines_def)
  then have ok2: "assets_ok db2" by (rule assets_ok_kept) (simp_all add: q(2,3) keeps_lines_written [OF q(4)])
  have pid: "acc_id p = sd_soldAccountId dto"
    using p unfolding asset_requirePaymentAccount_def Let_def
    by (auto simp: rbind_eq_Inr result_simps dest: find_row_Some split: if_splits)
  show thesis
    by (rule that [OF a q(1) _ ok2 _ _ _ pid, of t f]) (use q(2-4) c(4) in \<open>simp_all add: ad' book dto_moves_requests\<close>)
qed

lemma sell_keeps:
  assumes run: "sell gen now b i dto user ad = Inr ad'" and gen: "ids_drawn gen" and ok: "books_ok (ad_books ad)" and as: "assets_ok (ad_books ad)"
  shows "books_ok (ad_books ad') \<and> assets_ok (ad_books ad')"
  using run gen ok as
proof (rule sellE)
  fix a db2 and p f :: account and t :: txn
  assume a: "find_row as_id i (assets (ad_books ad)) = Some a" and ok2: "books_ok db2" and same: "assets db2 = assets (ad_books ad)" and as2: "assets_ok db2"
    and book: "book_of db2 = (book_of (ad_books ad))(tx_id t \<mapsto> [(acc_id p, DEBIT, sd_soldPrice dto), (acc_id f, CREDIT, sd_soldPrice dto)])"
    and ad': "ad_books ad' = db2\<lparr>assets := map_row as_id i (mark_sold dto (acc_id p) (tx_id t)) (assets db2)\<rparr>"
  let ?m = "mark_sold dto (acc_id p) (tx_id t)"
  have "bought_on_book B (?m x) = bought_on_book B x" for B x
    by (simp add: bought_on_book_def mark_sold_def split: option.splits)
  moreover have "sold_on_book (book_of db2) (?m x)" for x by (simp add: sold_on_book_def mark_sold_def book)
  moreover have "as_id (?m x) = as_id x" for x by (simp add: mark_sold_def)
  ultimately have "assets_ok (ad_books ad')" using as2 unfolding assets_ok_def ad' by (auto simp: keyed_map_row set_map_row)
  with ok2 show ?thesis by (simp add: ad')
qed

lemma updateValue_keeps:
  assumes run: "updateValue newId b i dto ad = Inr ad'" and ok: "books_ok (ad_books ad)" and as: "assets_ok (ad_books ad)"
  shows "books_ok (ad_books ad') \<and> assets_ok (ad_books ad')"
proof -
  let ?f = "\<lambda>a. a\<lparr>as_currentValue := vd_value dto\<rparr>"
  from run have ad': "ad_books ad' = (ad_books ad)\<lparr>assets := map_row as_id i ?f (assets (ad_books ad))\<rparr>"
    unfolding updateValue_def by (auto simp: rbind_eq_Inr result_simps)
  have "bought_on_book B (?f x) = bought_on_book B x" "sold_on_book B (?f x) = sold_on_book B x" for B x
    by (simp_all add: bought_on_book_def sold_on_book_def split: option.splits)
  then have "assets_ok (ad_books ad')" using as unfolding assets_ok_def ad' by (auto simp: keyed_map_row set_map_row)
  with ok show ?thesis by (simp add: ad')
qed

section \<open>Assets and the ledger together\<close>

lemma categories_same_books:
  "insert_asset_category k ad = Inr ad' \<Longrightarrow> ad_books ad' = ad_books ad"
  "listCategories gen b ad = Inr (ad', ks) \<Longrightarrow> ad_books ad' = ad_books ad"
  "createCategory i b kc ad = Inr ad' \<Longrightarrow> ad_books ad' = ad_books ad"
  "updateCategory b i kp ad = Inr ad' \<Longrightarrow> ad_books ad' = ad_books ad"
  "deleteCategory b i ad = Inr ad' \<Longrightarrow> ad_books ad' = ad_books ad"
proof -
  have ins: "ad_books ad' = ad_books ad" if "insert_asset_category k ad = Inr ad'" for k ad ad'
    using that by (auto simp: insert_asset_category_def rbind_eq_Inr result_simps)
  have all: "ad_books ad' = ad_books ad" if "rfold insert_asset_category ks ad = Inr ad'" for ks ad ad'
    using that
  proof (induction ks arbitrary: ad)
    case (Cons k ks)
    then obtain d where "insert_asset_category k ad = Inr d" "rfold insert_asset_category ks d = Inr ad'" by (auto simp: rbind_eq_Inr)
    with ins [of k ad d] Cons.IH show ?case by simp
  qed simp
  show "insert_asset_category k ad = Inr ad' \<Longrightarrow> ad_books ad' = ad_books ad" by (rule ins)
  show "listCategories gen b ad = Inr (ad', ks) \<Longrightarrow> ad_books ad' = ad_books ad"
    unfolding listCategories_def by (auto simp: rbind_eq_Inr dest: all split: if_splits)
  show "createCategory i b kc ad = Inr ad' \<Longrightarrow> ad_books ad' = ad_books ad"
    unfolding createCategory_def by (auto simp: rbind_eq_Inr dest: ins)
qed (auto simp: updateCategory_def deleteCategory_def rbind_eq_Inr result_simps)

inductive assets_step :: "adb \<Rightarrow> adb \<Rightarrow> bool" where
  purchased: "purchase gen now b pd user ad = Inr (ad', a) \<Longrightarrow> ids_drawn gen \<Longrightarrow> assets_step ad ad'"
| sold: "sell gen now b i sd user ad = Inr ad' \<Longrightarrow> ids_drawn gen \<Longrightarrow> assets_step ad ad'"
| revalued: "updateValue j b i vd ad = Inr ad' \<Longrightarrow> assets_step ad ad'"
| categories_listed: "listCategories gen b ad = Inr (ad', ks) \<Longrightarrow> assets_step ad ad'"
| category_created: "createCategory i b kc ad = Inr ad' \<Longrightarrow> assets_step ad ad'"
| category_updated: "updateCategory b i kp ad = Inr ad' \<Longrightarrow> assets_step ad ad'"
| category_deleted: "deleteCategory b i ad = Inr ad' \<Longrightarrow> assets_step ad ad'"
| ledger_moved: "ledger_step (ad_books ad) db' \<Longrightarrow> assets_step ad (ad\<lparr>ad_books := db'\<rparr>)"

inductive_cases assets_stepE: "assets_step ad ad'"

definition assets_sound :: "adb \<Rightarrow> bool" where
  "assets_sound ad \<longleftrightarrow> books_ok (ad_books ad) \<and> assets_ok (ad_books ad)"

interpretation assets: invariant_system assets_step assets_sound
proof
  fix ad ad' assume step: "assets_step ad ad'" and sound: "assets_sound ad"
  then have ok: "books_ok (ad_books ad)" and as: "assets_ok (ad_books ad)" by (simp_all add: assets_sound_def)
  have same: "assets_sound ad'" if "ad_books ad' = ad_books ad" using sound that by (simp add: assets_sound_def)
  from step show "assets_sound ad'"
  proof (rule assets_stepE)
    fix db' assume l: "ledger_step (ad_books ad) db'" and ad': "ad' = ad\<lparr>ad_books := db'\<rparr>"
    have "assets db' = assets (ad_books ad)" using ledger_step_features [OF l ok] by (simp add: feature_tables_def)
    from assets_ok_kept [OF as this ledger_keeps_asset_lines [OF l ok]] books.step_inv [OF l ok]
    show ?thesis by (simp add: assets_sound_def ad')
  qed (use ok as purchase_keeps sell_keeps updateValue_keeps in \<open>auto simp: assets_sound_def dest: categories_same_books(2-) [THEN same, unfolded assets_sound_def]\<close>)
qed

text \<open>A purchase from an account is recorded as one.\<close>

lemma purchase_recorded:
  assumes "purchase gen now b dto user ad = Inr (ad', a)" and "truthy (pd_purchaseAccountId dto)"
  shows "a \<in> set (assets (ad_books ad'))" and "as_purchaseAccountId a = pd_purchaseAccountId dto"
    and "as_purchasePrice a = pd_purchasePrice dto"
proof -
  from assms obtain p db t and ad1 :: adb and v where p: "asset_requirePaymentAccount b (the (pd_purchaseAccountId dto)) (ad_books ad) = Inr p"
    and a: "a = new_asset (gen 4) b dto (Some (acc_id p)) (Some t)"
    and ins: "insert_asset a v (ad\<lparr>ad_books := db\<rparr>) = Inr ad'"
    unfolding purchase_def Let_def by (auto simp: rbind_eq_Inr split: if_splits)
  have "acc_id p = the (pd_purchaseAccountId dto)"
    using p unfolding asset_requirePaymentAccount_def Let_def
    by (auto simp: rbind_eq_Inr result_simps dest: find_row_Some split: if_splits)
  then show "as_purchaseAccountId a = pd_purchaseAccountId dto" using assms(2)
    by (cases "pd_purchaseAccountId dto") (simp_all add: a new_asset_def truthy_def)
  show "as_purchasePrice a = pd_purchasePrice dto" by (simp add: a new_asset_def)
  show "a \<in> set (assets (ad_books ad'))" using insert_asset_eq_Inr [OF ins] by simp
qed

text \<open>
  C10: whatever purchases, sales, revaluations and changes of categories run, mixed with postings,
  voids, changes to the chart of accounts and reconciliations in any order, the ledger stays sound
  and tells the same story as the assets: an asset bought from an account has a posting in force
  that moves exactly its purchase price out of that account, and the others have none; an asset is
  marked sold exactly when it has a sale recorded, and that sale is a posting in force that moves
  its price into the account it was sold to. The asset of a purchase that named an account is
  there afterwards, bought from that account at that price, so the posting is the request's.
\<close>

theorem assets_match_the_ledger:
  assumes "assets_step\<^sup>*\<^sup>* ad ad'" and "assets_sound ad"
  shows "books_ok (ad_books ad') \<and>
    (\<forall>a \<in> set (assets (ad_books ad')). bought_on_book (book_of (ad_books ad')) a \<and> sold_on_book (book_of (ad_books ad')) a) \<and>
    (purchase gen now b dto user ad' = Inr (ad'', a) \<and> ids_drawn gen \<and> truthy (pd_purchaseAccountId dto) \<longrightarrow>
      a \<in> set (assets (ad_books ad'')) \<and> as_purchaseAccountId a = pd_purchaseAccountId dto \<and>
      as_purchasePrice a = pd_purchasePrice dto \<and> bought_on_book (book_of (ad_books ad'')) a)"
proof -
  have sound: "assets_sound ad'" by (rule assets.run_inv [OF assms])
  have "a \<in> set (assets (ad_books ad'')) \<and> as_purchaseAccountId a = pd_purchaseAccountId dto \<and>
      as_purchasePrice a = pd_purchasePrice dto \<and> bought_on_book (book_of (ad_books ad'')) a"
    if "purchase gen now b dto user ad' = Inr (ad'', a)" "ids_drawn gen" "truthy (pd_purchaseAccountId dto)"
    using purchase_recorded [OF that(1,3)] purchase_keeps [OF that(1,2)] sound by (auto simp: assets_sound_def assets_ok_def)
  with sound show ?thesis by (simp add: assets_sound_def assets_ok_def)
qed

lemma owned_not_voided:
  assumes "books_ok db" and "ids_drawn gen" and "owned_by_asset db i"
  shows "\<exists>e. voidTransaction gen now b i reason user db = Inl e"
  using void_not_owned(2) [OF assms(1) _ assms(2)] assms(3) by (cases "voidTransaction gen now b i reason user db") auto

text \<open>No step takes an asset away, and none brings a sold one back.\<close>

definition sold_row :: "id \<Rightarrow> id \<Rightarrow> id \<Rightarrow> adb \<Rightarrow> bool" where
  "sold_row b i t ad \<longleftrightarrow> (\<exists>a \<in> set (assets (ad_books ad)). as_id a = i \<and> as_businessId a = b \<and> as_status a = SOLD \<and> as_soldTransactionId a = Some t)"

lemma sold_row_map:
  assumes "sold_row b i t ad" and "assets (ad_books ad') = map_row as_id k f (assets (ad_books ad))"
    and "\<And>a. k = i \<Longrightarrow> as_id a = k \<Longrightarrow> f a = a\<lparr>as_currentValue := v\<rparr>"
  shows "sold_row b i t ad'"
proof -
  from assms(1) obtain a where a: "a \<in> set (assets (ad_books ad))" "as_id a = i" "as_businessId a = b" "as_status a = SOLD" "as_soldTransactionId a = Some t"
    by (auto simp: sold_row_def)
  let ?a = "if as_id a = k then f a else a"
  have "?a \<in> set (assets (ad_books ad'))" unfolding assms(2) set_map_row using a(1) by (rule imageI)
  moreover have "as_id ?a = i \<and> as_businessId ?a = b \<and> as_status ?a = SOLD \<and> as_soldTransactionId ?a = Some t"
    using a assms(3) [of a] by auto
  ultimately show ?thesis unfolding sold_row_def by blast
qed

lemma sold_row_refuses:
  assumes "sold_row b i t ad" and "assets_sound ad"
  shows "sell gen now b i dto user ad = Inl (BadRequest ''This asset has already been sold.'')"
    and "updateValue j b i vd ad = Inl (BadRequest ''Cannot update the value of a sold asset.'')"
    and "ids_drawn gen \<Longrightarrow> \<exists>e. voidTransaction gen now b t reason user (ad_books ad) = Inl e"
proof -
  from assms(1) obtain a where a: "a \<in> set (assets (ad_books ad))" "as_id a = i" "as_businessId a = b" "as_status a = SOLD" "as_soldTransactionId a = Some t"
    by (auto simp: sold_row_def)
  have "keyed as_id (assets (ad_books ad))" using assms(2) by (simp add: assets_sound_def assets_ok_def)
  from find_row_mem [OF this a(1)] a(2,3) have "requireAsset b i (ad_books ad) = Inr a" by (simp add: requireAsset_eq_Inr)
  with a(4) show "sell gen now b i dto user ad = Inl (BadRequest ''This asset has already been sold.'')"
    and "updateValue j b i vd ad = Inl (BadRequest ''Cannot update the value of a sold asset.'')"
    by (simp_all add: sell_def updateValue_def)
  have "owned_by_asset (ad_books ad) t" using a(1,5) unfolding owned_by_asset_def by blast
  with assms(2) show "\<exists>e. voidTransaction gen now b t reason user (ad_books ad) = Inl e" if "ids_drawn gen"
    using owned_not_voided [OF _ that] by (simp add: assets_sound_def)
qed

lemma sold_row_stays:
  assumes step: "assets_step ad ad'" and sound: "assets_sound ad" and sold: "sold_row b i t ad"
  shows "sold_row b i t ad'"
proof -
  have same: "sold_row b i t ad'" if "assets (ad_books ad') = assets (ad_books ad)" using sold that by (simp add: sold_row_def)
  from step show ?thesis
  proof (rule assets_stepE)
    fix gen now w pd user a assume "purchase gen now w pd user ad = Inr (ad', a)" "ids_drawn gen"
    from purchase_appends [OF this] sound have "set (assets (ad_books ad)) \<subseteq> set (assets (ad_books ad'))" by (simp add: assets_sound_def)
    with sold show ?thesis unfolding sold_row_def by blast
  next
    fix gen now w k sd user assume run: "sell gen now w k sd user ad = Inr ad'" and gen: "ids_drawn gen"
    from run gen sound [unfolded assets_sound_def, THEN conjunct1] sound [unfolded assets_sound_def, THEN conjunct2] show ?thesis
    proof (rule sellE)
      fix a db2 and p f :: account and u :: txn
      assume a: "find_row as_id k (assets (ad_books ad)) = Some a" "as_businessId a = w" "as_status a \<noteq> SOLD" and "assets db2 = assets (ad_books ad)"
        and "ad_books ad' = db2\<lparr>assets := map_row as_id k (mark_sold sd (acc_id p) (tx_id u)) (assets db2)\<rparr>"
      then have map: "assets (ad_books ad') = map_row as_id k (mark_sold sd (acc_id p) (tx_id u)) (assets (ad_books ad))" by simp
      have "k \<noteq> i"
      proof
        assume "k = i"
        from sold obtain x where x: "x \<in> set (assets (ad_books ad))" "as_id x = i" "as_status x = SOLD" by (auto simp: sold_row_def)
        have "keyed as_id (assets (ad_books ad))" using sound by (simp add: assets_sound_def assets_ok_def)
        from find_row_mem [OF this x(1)] x(2,3) a(1,3) \<open>k = i\<close> show False by simp
      qed
      then show ?thesis by (intro sold_row_map [OF sold map]) simp
    qed
  next
    fix j w k vd assume "updateValue j w k vd ad = Inr ad'"
    then have "assets (ad_books ad') = map_row as_id k (\<lambda>a. a\<lparr>as_currentValue := vd_value vd\<rparr>) (assets (ad_books ad))"
      unfolding updateValue_def by (auto simp: rbind_eq_Inr result_simps)
    from sold_row_map [OF sold this] show ?thesis by blast
  next
    fix db' assume l: "ledger_step (ad_books ad) db'" and ad': "ad' = ad\<lparr>ad_books := db'\<rparr>"
    have "assets db' = assets (ad_books ad)" using ledger_step_features [OF l] sound by (simp add: feature_tables_def assets_sound_def)
    then show ?thesis by (intro same) (simp add: ad')
  qed (use same categories_same_books(2-) in auto)
qed

interpretation sold: invariant_system assets_step "\<lambda>ad. assets_sound ad \<and> sold_row b i t ad" for b i t
  by unfold_locales (use assets.step_inv sold_row_stays in blast)

text \<open>
  C39: an asset is sold once. A sale writes one new line in the book, its price into the account the request names and out
  of one other, and marks this asset and no other as sold by that posting. From then on, whatever purchases, sales,
  revaluations, postings and voids follow, it can be neither sold again nor revalued, and the posting of the sale cannot
  be voided.
\<close>

theorem asset_is_sold_once:
  assumes "assets_sound ad" and "ids_drawn gen" and "sell gen now b i dto user ad = Inr ad'"
  shows "\<exists>t f. t \<notin> dom (book_of (ad_books ad)) \<and>
      book_of (ad_books ad') = (book_of (ad_books ad))(t \<mapsto> [(sd_soldAccountId dto, DEBIT, sd_soldPrice dto), (f, CREDIT, sd_soldPrice dto)]) \<and>
      assets (ad_books ad') = map_row as_id i (mark_sold dto (sd_soldAccountId dto) t) (assets (ad_books ad)) \<and>
      (assets_step\<^sup>*\<^sup>* ad' later \<longrightarrow>
        sell gen' now' b i dto' user' later = Inl (BadRequest ''This asset has already been sold.'') \<and>
        updateValue j b i vd later = Inl (BadRequest ''Cannot update the value of a sold asset.'') \<and>
        (ids_drawn gen' \<longrightarrow> (\<exists>e. voidTransaction gen' now' b t reason user' (ad_books later) = Inl e)))"
proof -
  from assms(1) have ok: "books_ok (ad_books ad)" and as: "assets_ok (ad_books ad)" by (simp_all add: assets_sound_def)
  have sound': "assets_sound ad'" using sell_keeps [OF assms(3,2) ok as] by (simp add: assets_sound_def)
  from assms(3,2) ok as show ?thesis
  proof (rule sellE)
    fix a db2 and p f :: account and t :: txn
    assume a: "find_row as_id i (assets (ad_books ad)) = Some a" "as_businessId a = b" and same: "assets db2 = assets (ad_books ad)"
      and new: "tx_id t \<notin> dom (book_of (ad_books ad))"
      and book: "book_of db2 = (book_of (ad_books ad))(tx_id t \<mapsto> [(acc_id p, DEBIT, sd_soldPrice dto), (acc_id f, CREDIT, sd_soldPrice dto)])"
      and ad': "ad_books ad' = db2\<lparr>assets := map_row as_id i (mark_sold dto (acc_id p) (tx_id t)) (assets db2)\<rparr>"
      and p: "acc_id p = sd_soldAccountId dto"
    let ?a = "mark_sold dto (acc_id p) (tx_id t) a"
    have "find_row as_id i (assets (ad_books ad')) = Some ?a" using a(1) by (simp add: ad' same find_row_map_row mark_sold_def)
    from find_row_Some [OF this] a(2) have "sold_row b i (tx_id t) ad'"
      unfolding sold_row_def by (intro bexI [of _ ?a]) (simp_all add: mark_sold_def)
    with sound' have sold: "assets_sound later \<and> sold_row b i (tx_id t) later" if "assets_step\<^sup>*\<^sup>* ad' later"
      using sold.run_inv [OF that] by blast
    show ?thesis
      using new sold_row_refuses [OF sold [THEN conjunct2] sold [THEN conjunct1]]
      by (intro exI [of _ "tx_id t"] exI [of _ "acc_id f"] conjI impI) (simp_all add: ad' book p same)
  qed
qed

section \<open>A car, bought and sold\<close>

definition no_assets :: adb where
  "no_assets = \<lparr>ad_books = sample_books, ad_history = [], ad_categories = []\<rparr>"

definition sample_purchase :: purchase_dto where
  "sample_purchase = \<lparr>pd_name = ''Car'', pd_category = ''Vehicle'', pd_purchaseDate = 0, pd_purchasePrice = 500,
     pd_purchaseAccountId = Some ''cash'', pd_notes = None\<rparr>"

definition sample_sale :: sell_dto where
  "sample_sale = \<lparr>sd_soldPrice = 700, sd_soldAccountId = ''bank'', sd_date = 0, sd_notes = None\<rparr>"

definition one_car :: adb where
  "one_car = (case purchase (draw CHR ''p'') 9 ''w'' sample_purchase ''u'' no_assets of Inr (d, _) \<Rightarrow> d | Inl _ \<Rightarrow> no_assets)"

lemmas asset_defs = asset_requirePaymentAccount_def requireOrCreateFixedAssetsAccount_def fixed_assets_account_def insert_account_def fk_parent_def
  insert_asset_def new_asset_def first_value_def with_notes_def quick_defs Let_def numeral_3_eq_3 eval_nat_numeral

lemma sample_purchase_run: "\<exists>a. purchase (draw CHR ''p'') 9 ''w'' sample_purchase ''u'' no_assets = Inr (one_car, a)"
  by (simp add: one_car_def purchase_def purchase_request_def sample_purchase_def no_assets_def sample_books_def empty_db_def asset_defs)

lemma no_assets_sound: "assets_sound no_assets"
  using sample_books_sound by (simp add: assets_sound_def assets_ok_def no_assets_def sample_books_def empty_db_def)

lemma one_car_step: "assets_step\<^sup>*\<^sup>* no_assets one_car"
proof -
  obtain a where "purchase (draw CHR ''p'') 9 ''w'' sample_purchase ''u'' no_assets = Inr (one_car, a)" using sample_purchase_run by blast
  then have "assets_step no_assets one_car" by (rule assets_step.purchased) simp
  then show ?thesis by (rule r_into_rtranclp)
qed

lemma one_car_there: "\<exists>a. assets (ad_books one_car) = [a] \<and> as_id a = ''pxxxx'' \<and> as_purchaseTransactionId a = Some ''p''"
  by (simp add: one_car_def purchase_def purchase_request_def sample_purchase_def no_assets_def sample_books_def empty_db_def asset_defs)

lemma assets_match_the_ledger_witness:
  "\<exists>a f. assets (ad_books one_car) = [a] \<and> as_purchaseAccountId a = Some ''cash'' \<and> book_of (ad_books one_car) ''p'' =
     Some [(f, DEBIT, as_purchasePrice a), (''cash'', CREDIT, as_purchasePrice a)]"
proof -
  obtain a where a: "assets (ad_books one_car) = [a]" "as_purchaseTransactionId a = Some ''p''" using one_car_there by blast
  from sample_purchase_run obtain x where x: "purchase (draw CHR ''p'') 9 ''w'' sample_purchase ''u'' no_assets = Inr (one_car, x)" by blast
  from assets_match_the_ledger [OF rtranclp.rtrancl_refl no_assets_sound, of "draw CHR ''p''" 9 "''w''" sample_purchase "''u''"] x
  have "x \<in> set (assets (ad_books one_car))" "as_purchaseAccountId x = Some ''cash''"
    by (simp_all add: sample_purchase_def truthy_def)
  moreover from assets_match_the_ledger [OF one_car_step no_assets_sound] a have "bought_on_book (book_of (ad_books one_car)) a" by simp
  ultimately show ?thesis using a by (auto simp: bought_on_book_def)
qed

lemma sample_sale_run: "\<exists>d. sell (draw CHR ''s'') 10 ''w'' ''pxxxx'' sample_sale ''u'' one_car = Inr d"
  by (simp add: one_car_def sell_def sale_request_def sample_sale_def requireAsset_def mark_sold_def
      purchase_def purchase_request_def sample_purchase_def no_assets_def sample_books_def empty_db_def asset_defs)

lemma asset_is_sold_once_witness:
  "\<exists>d. sell (draw CHR ''s'') 10 ''w'' ''pxxxx'' sample_sale ''u'' one_car = Inr d \<and>
     sell (draw CHR ''t'') 11 ''w'' ''pxxxx'' sample_sale ''u'' d = Inl (BadRequest ''This asset has already been sold.'')"
proof -
  obtain d where d: "sell (draw CHR ''s'') 10 ''w'' ''pxxxx'' sample_sale ''u'' one_car = Inr d" using sample_sale_run by blast
  have "assets_sound one_car" by (rule assets.run_inv [OF one_car_step no_assets_sound])
  from asset_is_sold_once [OF this ids_drawn_draw d, of d "draw CHR ''t''" 11 sample_sale "''u''"] d show ?thesis by auto
qed

end
