(* ===== verification/Decimals.thy ===== *)
theory Decimals
  imports Prelude Complex_Main
begin

text \<open>
  Numbers that are no amounts of money: quotients, percentages and amounts a client may send with
  any number of decimals are rationals, and money is read as one by \<open>dec\<close>. Rounding is JavaScript's
  \<open>Math.round\<close> and the half-up rounding to two decimals of a decimal column and of \<open>toFixed(2)\<close>.
\<close>

definition dec :: "money \<Rightarrow> rat" where
  "dec m = of_int m / 100"

definition math_round :: "rat \<Rightarrow> int" where
  "math_round r = \<lfloor>r + 1 / 2\<rfloor>"

definition fixed2 :: "rat \<Rightarrow> money" where
  "fixed2 r = (if r < 0 then - \<lfloor>- r * 100 + 1 / 2\<rfloor> else \<lfloor>r * 100 + 1 / 2\<rfloor>)"

lemma dec_le_iff: "dec a \<le> dec b \<longleftrightarrow> a \<le> b" and dec_less_iff: "dec a < dec b \<longleftrightarrow> a < b"
  by (simp_all add: dec_def divide_le_cancel divide_less_cancel)

lemma dec_0: "dec 0 = 0"
  by (simp add: dec_def)

lemma fixed2_dec: "fixed2 (dec m) = m"
proof -
  have half: "\<lfloor>rat_of_int k + 1 / 2\<rfloor> = k" for k by linarith
  have neg: "- (rat_of_int m / 100) * 100 = rat_of_int (- m)" by simp
  show ?thesis unfolding fixed2_def dec_def neg using half [of m] half [of "- m"] by simp
qed

lemma math_round_of_int: "math_round (of_int k) = k"
  unfolding math_round_def by linarith

text \<open>Rounding keeps the order, so what does not exceed an amount does not after rounding either.\<close>

lemma fixed2_mono: "r \<le> s \<Longrightarrow> 0 \<le> r \<Longrightarrow> fixed2 r \<le> fixed2 s"
  by (auto simp: fixed2_def intro!: floor_mono)

lemma fixed2_nonneg: "0 \<le> r \<Longrightarrow> 0 \<le> fixed2 r"
  by (simp add: fixed2_def)

end
