(* ===== verification/Savings.thy ===== *)
theory Savings
  imports Quick_Entries Decimals
begin

text \<open>
  Savings goals (src/savings-goals/savings-goals.service.ts): goals, the entries that fund them,
  transfers between goals, withdrawals, and the summaries over them. A goal's saved amount is
  never stored; it is the signed sum of its entries. The service runs the operations that check
  a goal and then move money under the goal's lock, so each of them is one step here.
\<close>

section \<open>Arithmetic with quotients\<close>

text \<open>
  Percentages and monthly targets divide: the decimal library's division and the number
  arithmetic around it are parameters, as rationals.
\<close>

record arith =
  quotient :: "rat \<Rightarrow> rat \<Rightarrow> rat"
  percent_number :: "rat \<Rightarrow> rat \<Rightarrow> rat"
  months_elapsed :: "int \<Rightarrow> rat"
  pace_percent :: "rat \<Rightarrow> int \<Rightarrow> rat"

section \<open>Requests and answers\<close>

record create_goal_dto =
  cg_name :: string
  cg_targetAmount :: money
  cg_targetDate :: instant
  cg_durationMonths :: int
  cg_reminderDate :: "instant option"
  cg_reminderChannel :: "reminder_channel option"
  cg_description :: "string option"

record update_goal_dto =
  ug_name :: "string option"
  ug_targetAmount :: "money option"
  ug_targetDate :: "instant option"
  ug_durationMonths :: "int option"
  ug_reminderDate :: "instant option option"
  ug_reminderChannel :: "reminder_channel option option"
  ug_description :: "string option option"

record contribution_dto =
  ac_moneyAccountId :: id
  ac_toAccountId :: id
  ac_amount :: money
  ac_date :: instant
  ac_notes :: "string option"

record savings_transfer_dto =
  st_fromGoalId :: id
  st_toGoalId :: id
  st_amount :: money
  st_date :: instant
  st_notes :: "string option"

record withdraw_dto =
  wd_savingsAccountId :: id
  wd_expenseAccountId :: id
  wd_categoryId :: "string option"
  wd_date :: instant
  wd_notes :: "string option"

datatype pace_status = ON_TRACK | BEHIND | WARNING
datatype trend = INCREASING | DECREASING | STABLE

record goal_summary =
  gs_goal :: goal
  gs_targetAmount :: money
  gs_currentAmount :: money
  gs_withdrawnAmount :: money
  gs_progressPercent :: int
  gs_monthlyTarget :: money
  gs_paceStatus :: "pace_status option"
  gs_trend :: "trend option"

section \<open>Reading goals\<close>

definition requireGoal :: "id \<Rightarrow> id \<Rightarrow> db \<Rightarrow> goal result" where
  "requireGoal b i db = require_row g_id g_businessId (NotFound ''Savings goal not found'') b i (goals db)"

definition goal_delta :: "goal_entry \<Rightarrow> money" where
  "goal_delta e = (if ge_type e = TRANSFER_OUT \<or> ge_type e = WITHDRAWAL then - ge_amount e else ge_amount e)"

definition computeCurrentAmount :: "id \<Rightarrow> db \<Rightarrow> money" where
  "computeCurrentAmount i db = sum_by goal_delta (filter (\<lambda>e. ge_savingsGoalId e = i) (goal_entries db))"

definition requireSavingsAccount :: "id \<Rightarrow> id \<Rightarrow> db \<Rightarrow> account result" where
  "requireSavingsAccount b i db =
     rbind (require_row acc_id acc_businessId (BadRequest ''Savings Wallet not found in this workspace'') b i (accounts db)) (\<lambda>account.
     rbind (check (acc_accountType account = ASSET \<and> acc_accountSubtype account = Some ''savings'')
       (BadRequest ''Must be a Savings Wallet -- add one first under Savings Goals > Wallet'')) (\<lambda>_.
     Inr account))"

definition requireExpenseAccount :: "id \<Rightarrow> id \<Rightarrow> db \<Rightarrow> account result" where
  "requireExpenseAccount b i db =
     rbind (require_row acc_id acc_businessId (BadRequest ''expenseAccountId: account not found in this workspace'') b i (accounts db)) (\<lambda>account.
     rbind (check (acc_accountType account = account_type.EXPENSE)
       (BadRequest ''expenseAccountId must be an Expense account'')) (\<lambda>_.
     Inr account))"

definition goal_requireMoneyAccount :: "id \<Rightarrow> id \<Rightarrow> db \<Rightarrow> account result" where
  "goal_requireMoneyAccount b i db =
     rbind (require_row acc_id acc_businessId (BadRequest ''moneyAccountId: account not found in this workspace'') b i (accounts db)) (\<lambda>account.
     rbind (check (acc_accountType account = ASSET \<and> subtype_in MONEY_ACCOUNT_SUBTYPES (acc_accountSubtype account))
       (BadRequest ''moneyAccountId must be a cash/bank/mobile-money account'')) (\<lambda>_.
     Inr account))"

section \<open>Writing goals\<close>

definition create_goal :: "id \<Rightarrow> instant \<Rightarrow> id \<Rightarrow> create_goal_dto \<Rightarrow> db \<Rightarrow> (db \<times> goal) result" where
  "create_goal newId now b dto db =
     (let g = \<lparr>g_id = newId, g_businessId = b, g_name = cg_name dto, g_targetAmount = cg_targetAmount dto,
               g_targetDate = cg_targetDate dto, g_durationMonths = cg_durationMonths dto,
               g_reminderDate = cg_reminderDate dto, g_reminderChannel = cg_reminderChannel dto,
               g_description = cg_description dto, g_status = goal_status.ACTIVE, g_createdAt = now\<rparr> in
      rbind (store_money (cg_targetAmount dto)) (\<lambda>_.
      rbind (insert_row g_id g (goals db)) (\<lambda>gs. Inr (db\<lparr>goals := gs\<rparr>, g))))"

definition apply_goal_update :: "update_goal_dto \<Rightarrow> goal \<Rightarrow> goal" where
  "apply_goal_update dto g =
     g\<lparr>g_name := orelse (ug_name dto) (g_name g),
       g_targetAmount := orelse (ug_targetAmount dto) (g_targetAmount g),
       g_targetDate := orelse (ug_targetDate dto) (g_targetDate g),
       g_durationMonths := orelse (ug_durationMonths dto) (g_durationMonths g),
       g_reminderDate := orelse (ug_reminderDate dto) (g_reminderDate g),
       g_reminderChannel := orelse (ug_reminderChannel dto) (g_reminderChannel g),
       g_description := orelse (ug_description dto) (g_description g)\<rparr>"

definition update_goal :: "id \<Rightarrow> id \<Rightarrow> update_goal_dto \<Rightarrow> db \<Rightarrow> db result" where
  "update_goal b i dto db =
     rbind (requireGoal b i db) (\<lambda>_.
     rbind (case ug_targetAmount dto of None \<Rightarrow> Inr 0 | Some m \<Rightarrow> store_money m) (\<lambda>_.
     rbind (update_row g_id i (apply_goal_update dto) (goals db)) (\<lambda>gs. Inr (db\<lparr>goals := gs\<rparr>))))"

definition updateStatus :: "id \<Rightarrow> id \<Rightarrow> goal_status \<Rightarrow> db \<Rightarrow> db result" where
  "updateStatus b i status db =
     rbind (requireGoal b i db) (\<lambda>_.
     rbind (update_row g_id i (\<lambda>g. g\<lparr>g_status := status\<rparr>) (goals db)) (\<lambda>gs. Inr (db\<lparr>goals := gs\<rparr>)))"

text \<open>What the status endpoint lets through (\<open>UpdateSavingsGoalStatusDto\<close>).\<close>

definition status_accepted :: "goal_status \<Rightarrow> bool" where
  "status_accepted s \<longleftrightarrow> s \<in> {goal_status.ACTIVE, PAUSED, COMPLETED}"

definition delete_goal :: "id \<Rightarrow> id \<Rightarrow> db \<Rightarrow> db result" where
  "delete_goal b i db =
     rbind (requireGoal b i db) (\<lambda>_.
     rbind (check (filter (\<lambda>e. ge_savingsGoalId e = i) (goal_entries db) = [])
       (BadRequest ''This goal has contributions or transfers recorded against it. Pause it instead of deleting.'')) (\<lambda>_.
     rbind (delete_row g_id i (goals db)) (\<lambda>gs. Inr (db\<lparr>goals := gs\<rparr>))))"

text \<open>
  \<open>maybeMarkCompleted\<close>: \<open>goal\<close> is the row the caller read, the update is conditional on the row
  that is there now.
\<close>

definition maybeMarkCompleted :: "goal \<Rightarrow> money option \<Rightarrow> db \<Rightarrow> (db \<times> goal) result" where
  "maybeMarkCompleted goal currentAmount db =
     (if g_status goal = COMPLETED \<or> g_status goal = WITHDRAWN then Inr (db, goal)
      else
        let amount = orelse currentAmount (computeCurrentAmount (g_id goal) db) in
        if g_targetAmount goal \<le> amount then
          let gs = update_many (\<lambda>g. g_id g = g_id goal \<and> (g_status g = goal_status.ACTIVE \<or> g_status g = PAUSED))
                (\<lambda>g. g\<lparr>g_status := COMPLETED\<rparr>) (goals db) in
          (case find_row g_id (g_id goal) gs of
             None \<Rightarrow> Inl (DbError ''P2025'')
           | Some g \<Rightarrow> Inr (db\<lparr>goals := gs\<rparr>, g))
        else Inr (db, goal))"

definition insert_goal_entry :: "goal_entry \<Rightarrow> db \<Rightarrow> db result" where
  "insert_goal_entry e db =
     rbind (store_money (ge_amount e)) (\<lambda>_.
     rbind (check (ge_savingsGoalId e \<in> g_id ` set (goals db)) (DbError ''P2003'')) (\<lambda>_.
     rbind (insert_row ge_id e (goal_entries db)) (\<lambda>es. Inr (db\<lparr>goal_entries := es\<rparr>))))"

definition noted :: "string \<Rightarrow> goal \<Rightarrow> string option \<Rightarrow> string" where
  "noted what goal notes = what @ g_name goal @ (if truthy notes then '' -- '' @ the notes else [])"

definition contribution_request :: "goal \<Rightarrow> account \<Rightarrow> account \<Rightarrow> contribution_dto \<Rightarrow> create_txn_dto" where
  "contribution_request goal savingsAccount fromAccount dto =
     simple_request TRANSFER (ac_date dto) (Some (noted ''Savings contribution: '' goal (ac_notes dto)))
       [entry_for (acc_id savingsAccount) DEBIT (ac_amount dto), entry_for (acc_id fromAccount) CREDIT (ac_amount dto)]"

definition contribution_entry :: "id \<Rightarrow> id \<Rightarrow> id \<Rightarrow> account \<Rightarrow> account \<Rightarrow> contribution_dto \<Rightarrow> txn \<Rightarrow> goal_entry" where
  "contribution_entry newId goalId b savingsAccount fromAccount dto t =
     \<lparr>ge_id = newId, ge_savingsGoalId = goalId, ge_businessId = b, ge_type = CONTRIBUTION, ge_amount = ac_amount dto,
      ge_date = ac_date dto, ge_moneyAccountId = Some (acc_id fromAccount), ge_savingsAccountId = Some (acc_id savingsAccount),
      ge_relatedGoalId = None, ge_transactionId = Some (tx_id t), ge_notes = ac_notes dto\<rparr>"

text \<open>The posting draws the ids 0 to 2, the goal's entry the next one.\<close>

definition addContribution ::
  "id_source \<Rightarrow> instant \<Rightarrow> id \<Rightarrow> id \<Rightarrow> contribution_dto \<Rightarrow> id \<Rightarrow> db \<Rightarrow> (db \<times> goal_entry) result" where
  "addContribution gen now b goalId dto user db =
     rbind (requireGoal b goalId db) (\<lambda>_.
     rbind (goal_requireMoneyAccount b (ac_moneyAccountId dto) db) (\<lambda>fromAccount.
     rbind (requireSavingsAccount b (ac_toAccountId dto) db) (\<lambda>savingsAccount.
     rbind (requireGoal b goalId db) (\<lambda>goal.
     rbind (check (g_status goal \<noteq> WITHDRAWN)
       (BadRequest ''This goal has been withdrawn -- add funds to another goal.'')) (\<lambda>_.
     rbind (post gen now b (contribution_request goal savingsAccount fromAccount dto) user db) (\<lambda>(db, t, _).
     rbind (insert_goal_entry (contribution_entry (gen 3) goalId b savingsAccount fromAccount dto t) db) (\<lambda>db.
     rbind (requireGoal b goalId db) (\<lambda>goal.
     rbind (maybeMarkCompleted goal None db) (\<lambda>(db, _).
     Inr (db, contribution_entry (gen 3) goalId b savingsAccount fromAccount dto t))))))))))"

definition transfer_entry :: "id \<Rightarrow> id \<Rightarrow> id \<Rightarrow> goal_entry_type \<Rightarrow> id \<Rightarrow> savings_transfer_dto \<Rightarrow> goal_entry" where
  "transfer_entry newId b goalId ty related dto =
     \<lparr>ge_id = newId, ge_savingsGoalId = goalId, ge_businessId = b, ge_type = ty, ge_amount = st_amount dto,
      ge_date = st_date dto, ge_moneyAccountId = None, ge_savingsAccountId = None, ge_relatedGoalId = Some related,
      ge_transactionId = None, ge_notes = st_notes dto\<rparr>"

definition transfer_savings :: "id_source \<Rightarrow> id \<Rightarrow> savings_transfer_dto \<Rightarrow> db \<Rightarrow> db result" where
  "transfer_savings gen b dto db =
     (if st_fromGoalId dto = st_toGoalId dto then Inl (BadRequest ''Cannot transfer a goal to itself'')
      else
        rbind (requireGoal b (st_fromGoalId dto) db) (\<lambda>fromGoal.
        rbind (requireGoal b (st_toGoalId dto) db) (\<lambda>toGoal.
        rbind (check (g_status toGoal \<noteq> WITHDRAWN)
          (BadRequest (quoted (g_name toGoal) @ '' has been withdrawn -- pick another goal to move the money to.''))) (\<lambda>_.
        rbind (check (st_amount dto \<le> computeCurrentAmount (g_id fromGoal) db)
          (BadRequest (quoted (g_name fromGoal) @ '' only has '' @ to_fixed2 (computeCurrentAmount (g_id fromGoal) db) @
             '' saved -- cannot transfer '' @ to_fixed2 (st_amount dto)))) (\<lambda>_.
        rbind (insert_goal_entry (transfer_entry (gen 0) b (g_id fromGoal) TRANSFER_OUT (g_id toGoal) dto) db) (\<lambda>db.
        rbind (insert_goal_entry (transfer_entry (gen 1) b (g_id toGoal) TRANSFER_IN (g_id fromGoal) dto) db) (\<lambda>db.
        rbind (maybeMarkCompleted toGoal None db) (\<lambda>(db, _).
        Inr db))))))))"

definition withdraw_request :: "goal \<Rightarrow> account \<Rightarrow> account \<Rightarrow> money \<Rightarrow> withdraw_dto \<Rightarrow> create_txn_dto" where
  "withdraw_request goal expenseAccount savingsAccount currentAmount dto =
     simple_request transaction_type.EXPENSE (wd_date dto) (Some (noted ''Savings withdrawal: '' goal (wd_notes dto)))
       [(entry_for (acc_id expenseAccount) DEBIT currentAmount)\<lparr>ed_categoryId := wd_categoryId dto, ed_note := wd_notes dto\<rparr>,
        entry_for (acc_id savingsAccount) CREDIT currentAmount]"

definition withdrawal_entry :: "id \<Rightarrow> id \<Rightarrow> id \<Rightarrow> account \<Rightarrow> money \<Rightarrow> withdraw_dto \<Rightarrow> txn \<Rightarrow> goal_entry" where
  "withdrawal_entry newId goalId b savingsAccount currentAmount dto t =
     \<lparr>ge_id = newId, ge_savingsGoalId = goalId, ge_businessId = b, ge_type = WITHDRAWAL, ge_amount = currentAmount,
      ge_date = wd_date dto, ge_moneyAccountId = None, ge_savingsAccountId = Some (acc_id savingsAccount),
      ge_relatedGoalId = None, ge_transactionId = Some (tx_id t), ge_notes = wd_notes dto\<rparr>"

definition withdraw ::
  "id_source \<Rightarrow> instant \<Rightarrow> id \<Rightarrow> id \<Rightarrow> withdraw_dto \<Rightarrow> id \<Rightarrow> db \<Rightarrow> (db \<times> goal_entry) result" where
  "withdraw gen now b goalId dto user db =
     rbind (requireGoal b goalId db) (\<lambda>goal.
     rbind (check (g_status goal \<noteq> WITHDRAWN) (BadRequest ''This goal has already been withdrawn.'')) (\<lambda>_.
     let currentAmount = computeCurrentAmount (g_id goal) db in
     rbind (check (0 < currentAmount) (BadRequest ''This goal has no saved balance to withdraw.'')) (\<lambda>_.
     rbind (requireSavingsAccount b (wd_savingsAccountId dto) db) (\<lambda>savingsAccount.
     rbind (check (currentAmount \<le> acc_currentBalance savingsAccount)
       (BadRequest (quoted (acc_name savingsAccount) @ '' only has '' @ to_fixed2 (acc_currentBalance savingsAccount) @
          '' -- cannot withdraw '' @ to_fixed2 currentAmount @ '' from it. Pick a different Savings Wallet.''))) (\<lambda>_.
     rbind (requireExpenseAccount b (wd_expenseAccountId dto) db) (\<lambda>expenseAccount.
     rbind (post gen now b (withdraw_request goal expenseAccount savingsAccount currentAmount dto) user db) (\<lambda>(db, t, _).
     rbind (insert_goal_entry (withdrawal_entry (gen 3) goalId b savingsAccount currentAmount dto t) db) (\<lambda>db.
     rbind (update_row g_id goalId (\<lambda>g. g\<lparr>g_status := WITHDRAWN\<rparr>) (goals db)) (\<lambda>gs.
     Inr (db\<lparr>goals := gs\<rparr>, withdrawal_entry (gen 3) goalId b savingsAccount currentAmount dto t))))))))))"

section \<open>Summaries\<close>

definition percent_of :: "arith \<Rightarrow> rat \<Rightarrow> rat \<Rightarrow> int" where
  "percent_of ar part whole = (if whole = 0 then 0 else min 999 (math_round (percent_number ar part whole)))"

definition goal_sum :: "db \<Rightarrow> id \<Rightarrow> goal_entry_type \<Rightarrow> (instant \<Rightarrow> bool) \<Rightarrow> money" where
  "goal_sum db i ty P = sum_by ge_amount (filter (\<lambda>e. ge_savingsGoalId e = i \<and> ge_type e = ty \<and> P (ge_date e)) (goal_entries db))"

definition computePaceStatus :: "arith \<Rightarrow> instant \<Rightarrow> goal \<Rightarrow> int \<Rightarrow> pace_status option" where
  "computePaceStatus ar now goal progressPercent =
     (if g_status goal \<noteq> goal_status.ACTIVE then None
      else if 100 \<le> progressPercent then Some ON_TRACK
      else
        let elapsedMonths = months_elapsed ar (now - g_createdAt goal) in
        if elapsedMonths \<le> 0 \<or> g_durationMonths goal \<le> 0 then Some ON_TRACK
        else
          let expectedPercent = min 100 (pace_percent ar elapsedMonths (g_durationMonths goal));
              gap = of_int progressPercent - expectedPercent in
          if - 5 \<le> gap then Some ON_TRACK else if - 25 \<le> gap then Some BEHIND else Some WARNING)"

definition computeTrend :: "arith \<Rightarrow> instant \<Rightarrow> goal \<Rightarrow> db \<Rightarrow> trend option" where
  "computeTrend ar now goal db =
     (if g_status goal \<noteq> goal_status.ACTIVE then None
      else
        let thisMonthStart = fst (dhakaMonthRange now 0);
            lastMonthStart = fst (dhakaMonthRange now (- 1));
            thisMonth = goal_sum db (g_id goal) CONTRIBUTION (\<lambda>d. thisMonthStart \<le> d);
            lastMonth = goal_sum db (g_id goal) CONTRIBUTION (\<lambda>d. lastMonthStart \<le> d \<and> d < thisMonthStart) in
        if lastMonth = 0 then Some (if thisMonth = 0 then STABLE else INCREASING)
        else
          let change = quotient ar (dec thisMonth - dec lastMonth) (dec lastMonth) in
          if 1 / 10 < change then Some INCREASING else if change < - 1 / 10 then Some DECREASING else Some STABLE)"

definition toSummary :: "arith \<Rightarrow> instant \<Rightarrow> goal \<Rightarrow> db \<Rightarrow> (db \<times> goal_summary) result" where
  "toSummary ar now goal db =
     (let currentAmount = computeCurrentAmount (g_id goal) db;
          target = g_targetAmount goal in
      rbind (maybeMarkCompleted goal (Some currentAmount) db) (\<lambda>(db, goal).
      let progressPercent = (if target = 0 then 0
            else min 100 (math_round (percent_number ar (dec currentAmount) (dec target)))) in
      Inr (db, \<lparr>gs_goal = goal, gs_targetAmount = target, gs_currentAmount = currentAmount,
        gs_withdrawnAmount = goal_sum db (g_id goal) WITHDRAWAL (\<lambda>_. True),
        gs_progressPercent = progressPercent,
        gs_monthlyTarget = fixed2 (quotient ar (dec target) (of_int (g_durationMonths goal))),
        gs_paceStatus = computePaceStatus ar now goal progressPercent, gs_trend = computeTrend ar now goal db\<rparr>)))"

fun summaries :: "arith \<Rightarrow> instant \<Rightarrow> goal list \<Rightarrow> db \<Rightarrow> (db \<times> goal_summary list) result" where
  "summaries ar now [] db = Inr (db, [])"
| "summaries ar now (g # gs) db =
     rbind (toSummary ar now g db) (\<lambda>(db, x).
     rbind (summaries ar now gs db) (\<lambda>(db, xs). Inr (db, x # xs)))"

definition list_goals :: "arith \<Rightarrow> instant \<Rightarrow> id \<Rightarrow> goal_status option \<Rightarrow> db \<Rightarrow> (db \<times> goal_summary list) result" where
  "list_goals ar now b status db =
     summaries ar now (find_many (\<lambda>g. g_businessId g = b \<and> (case status of None \<Rightarrow> True | Some s \<Rightarrow> g_status g = s))
       g_createdAt (goals db)) db"

record savings_overview =
  so_totalSaved :: money
  so_totalGoals :: money
  so_remaining :: money
  so_progressPercent :: int
  so_monthlyTarget :: money
  so_savedThisMonth :: money
  so_monthlyProgressPercent :: int
  so_savingsRatePercent :: int

definition monthly_target :: "arith \<Rightarrow> goal list \<Rightarrow> rat" where
  "monthly_target ar gs =
     sum_list (map (\<lambda>g. quotient ar (dec (g_targetAmount g)) (of_int (g_durationMonths g)))
       (filter (\<lambda>g. g_status g = goal_status.ACTIVE) gs))"

definition month_income :: "id \<Rightarrow> instant \<Rightarrow> instant \<Rightarrow> db \<Rightarrow> money" where
  "month_income b monthStart monthEnd db =
     sum_by en_amount (filter (\<lambda>e. en_categoryId e \<noteq> None \<and>
       on_txn db (\<lambda>t. tx_businessId t = b \<and> live_txn t \<and> tx_type t = transaction_type.INCOME \<and>
         monthStart \<le> tx_date t \<and> tx_date t < monthEnd) e) (entries db))"

definition getOverview :: "arith \<Rightarrow> instant \<Rightarrow> id \<Rightarrow> db \<Rightarrow> savings_overview" where
  "getOverview ar now b db =
     (let gs = filter (\<lambda>g. g_businessId g = b) (goals db);
          totalSaved = sum_by (\<lambda>g. computeCurrentAmount (g_id g) db) gs;
          totalGoals = sum_by g_targetAmount gs;
          monthlyTarget = monthly_target ar gs;
          (monthStart, monthEnd) = dhakaMonthRange now 0;
          savedThisMonth = sum_by ge_amount (filter (\<lambda>e. ge_businessId e = b \<and> ge_type e = CONTRIBUTION \<and>
            monthStart \<le> ge_date e \<and> ge_date e < monthEnd) (goal_entries db));
          incomeThisMonth = month_income b monthStart monthEnd db
      in \<lparr>so_totalSaved = totalSaved, so_totalGoals = totalGoals, so_remaining = max 0 (totalGoals - totalSaved),
          so_progressPercent = (if totalGoals = 0 then 0
            else min 100 (math_round (percent_number ar (dec totalSaved) (dec totalGoals)))),
          so_monthlyTarget = fixed2 monthlyTarget, so_savedThisMonth = savedThisMonth,
          so_monthlyProgressPercent = (if monthlyTarget = 0 then 0
            else min 999 (math_round (percent_number ar (dec savedThisMonth) monthlyTarget))),
          so_savingsRatePercent = percent_of ar (dec savedThisMonth) (dec incomeThisMonth)\<rparr>)"

record savings_wallet_row =
  sw_id :: id
  sw_name :: string
  sw_status :: record_status
  sw_openingBalance :: money
  sw_totalIn :: money
  sw_totalOut :: money
  sw_currentBalance :: money

record savings_accounts =
  sa_totalAccounts :: nat
  sa_totalBalance :: money
  sa_inactiveAmount :: money
  sa_availableBalance :: money
  sa_accounts :: "savings_wallet_row list"

definition savings_wallet :: "id \<Rightarrow> account \<Rightarrow> bool" where
  "savings_wallet b a \<longleftrightarrow> acc_businessId a = b \<and> acc_accountType a = ASSET \<and> acc_accountSubtype a = Some ''savings''"

definition savings_row_of :: "db \<Rightarrow> account \<Rightarrow> savings_wallet_row" where
  "savings_row_of db w =
     (let live = filter (on_txn db live_txn) (account_entries db (acc_id w)) in
      \<lparr>sw_id = acc_id w, sw_name = (if acc_isSystemAccount w then acc_name w @ '' (Legacy Pool)'' else acc_name w),
       sw_status = acc_status w, sw_openingBalance = acc_openingBalance w,
       sw_totalIn = side_sum DEBIT live, sw_totalOut = side_sum CREDIT live, sw_currentBalance = acc_currentBalance w\<rparr>)"

definition getAccountOverview :: "id \<Rightarrow> db \<Rightarrow> savings_accounts" where
  "getAccountOverview b db =
     (let allWallets = find_many (savings_wallet b) acc_displayOrder (accounts db);
          wallets = filter (\<lambda>w. \<not> acc_isSystemAccount w \<or> acc_currentBalance w \<noteq> 0) allWallets;
          totalBalance = sum_by acc_currentBalance wallets;
          inactiveAmount = sum_by acc_currentBalance (filter (\<lambda>w. acc_status w = ARCHIVED) wallets)
      in \<lparr>sa_totalAccounts = length wallets, sa_totalBalance = totalBalance, sa_inactiveAmount = inactiveAmount,
          sa_availableBalance = totalBalance - inactiveAmount, sa_accounts = map (savings_row_of db) wallets\<rparr>)"

record transfer_row =
  tr_id :: id
  tr_date :: instant
  tr_amount :: money
  tr_fromGoalId :: id
  tr_fromGoalName :: string
  tr_toGoalId :: "id option"
  tr_toGoalName :: string
  tr_notes :: "string option"

definition goal_name :: "db \<Rightarrow> id \<Rightarrow> string option" where
  "goal_name db i = map_option g_name (find_row g_id i (goals db))"

definition listTransfers :: "id \<Rightarrow> db \<Rightarrow> transfer_row list" where
  "listTransfers b db =
     map (\<lambda>e. \<lparr>tr_id = ge_id e, tr_date = ge_date e, tr_amount = ge_amount e, tr_fromGoalId = ge_savingsGoalId e,
            tr_fromGoalName = orelse (goal_name db (ge_savingsGoalId e)) ''(deleted goal)'',
            tr_toGoalId = ge_relatedGoalId e,
            tr_toGoalName = (if truthy (ge_relatedGoalId e)
              then orelse (goal_name db (the (ge_relatedGoalId e))) ''(deleted goal)'' else ''(deleted goal)''),
            tr_notes = ge_notes e\<rparr>)
       (find_many (\<lambda>e. ge_businessId e = b \<and> ge_type e = TRANSFER_OUT) (\<lambda>e. - ge_date e) (goal_entries db))"

record goal_entry_row =
  gr_id :: id
  gr_type :: goal_entry_type
  gr_amount :: money
  gr_date :: instant
  gr_moneyAccountName :: "string option"
  gr_savingsAccountName :: "string option"
  gr_relatedGoalName :: "string option"
  gr_notes :: "string option"

definition account_name :: "db \<Rightarrow> id option \<Rightarrow> string option" where
  "account_name db i = (if truthy i then map_option acc_name (find_row acc_id (the i) (accounts db)) else None)"

definition getOne_goal :: "arith \<Rightarrow> instant \<Rightarrow> id \<Rightarrow> id \<Rightarrow> db \<Rightarrow> (db \<times> goal_summary \<times> goal_entry_row list) result" where
  "getOne_goal ar now b i db =
     rbind (requireGoal b i db) (\<lambda>goal.
     rbind (toSummary ar now goal db) (\<lambda>(db', summary).
     Inr (db', summary,
       map (\<lambda>e. \<lparr>gr_id = ge_id e, gr_type = ge_type e, gr_amount = ge_amount e, gr_date = ge_date e,
              gr_moneyAccountName = account_name db (ge_moneyAccountId e),
              gr_savingsAccountName = account_name db (ge_savingsAccountId e),
              gr_relatedGoalName = (if truthy (ge_relatedGoalId e) then goal_name db (the (ge_relatedGoalId e)) else None),
              gr_notes = ge_notes e\<rparr>)
         (find_many (\<lambda>e. ge_savingsGoalId e = i) (\<lambda>e. - ge_date e) (goal_entries db)))))"

end
