(* ===== verification/Savings_Facts.thy ===== *)
theory Savings_Facts
  imports Savings
begin

text \<open>
  What savings goals promise: no goal is ever overdrawn, savings wallets and goals move together,
  a transfer touches no account, and a withdrawal pays out once.
\<close>

section \<open>The invariant of the goals\<close>

definition goals_ok :: "db \<Rightarrow> bool" where
  "goals_ok db \<longleftrightarrow> keyed g_id (goals db) \<and> keyed ge_id (goal_entries db) \<and>
     (\<forall>e \<in> set (goal_entries db). \<exists>g \<in> set (goals db). g_id g = ge_savingsGoalId e \<and> g_businessId g = ge_businessId e) \<and>
     (\<forall>i. 0 \<le> computeCurrentAmount i db)"

definition savings_ok :: "db \<Rightarrow> bool" where
  "savings_ok db \<longleftrightarrow> books_ok db \<and> goals_ok db"

lemma books_ok_cong:
  assumes "accounts d = accounts db" "txns d = txns db" "entries d = entries db"
  shows "books_ok d = books_ok db"
proof -
  have r: "entries_of d = entries_of db" "txn_of d = txn_of db" "account_entries d = account_entries db"
    "reversals d = reversals db"
    by (simp_all add: fun_eq_iff entries_of_def txn_of_def account_entries_def reversals_def assms)
  then have r2: "on_txn d = on_txn db" "true_balance d = true_balance db" "mirrors d = mirrors db"
    by (simp_all add: fun_eq_iff on_txn_def true_balance_def mirrors_def)
  then have r3: "dead_entries d = dead_entries db" using r by (simp add: fun_eq_iff dead_entries_def)
  show ?thesis
    by (simp add: books_ok_def ledger_core_def reversals_ok_def voids_net_def balance_cached_def fk_entries_def
        same_workspace_def balanced_txn_def assms r r2 r3)
qed

lemma books_ok_goals [simp]: "books_ok (db\<lparr>goals := gs\<rparr>) = books_ok db"
  "books_ok (db\<lparr>goal_entries := es\<rparr>) = books_ok db"
  by (rule books_ok_cong; simp)+

lemma current_amount_goals [simp]: "computeCurrentAmount i (db\<lparr>goals := gs\<rparr>) = computeCurrentAmount i db"
  by (simp add: computeCurrentAmount_def)

lemma current_amount_append [simp]:
  "computeCurrentAmount i (db\<lparr>goal_entries := goal_entries db @ [e]\<rparr>) =
   computeCurrentAmount i db + (if ge_savingsGoalId e = i then goal_delta e else 0)"
  by (simp add: computeCurrentAmount_def)

definition goal_key :: "goal \<Rightarrow> id \<times> id" where
  "goal_key g = (g_id g, g_businessId g)"

lemma goals_same_keys:
  assumes "map goal_key gs = map goal_key (goals db)"
  shows "goals_ok (db\<lparr>goals := gs\<rparr>) = goals_ok db" "g_id ` set gs = g_id ` set (goals db)"
    "sum_by (\<lambda>g. f (g_id g)) (filter (\<lambda>g. g_businessId g = b) gs) = sum_by (\<lambda>g. f (g_id g)) (filter (\<lambda>g. g_businessId g = b) (goals db))"
proof -
  have ids: "map g_id xs = map fst (map goal_key xs)" for xs by (simp add: goal_key_def)
  have ex: "(\<exists>g \<in> set xs. g_id g = i \<and> g_businessId g = w) \<longleftrightarrow> (i, w) \<in> set (map goal_key xs)" for xs i w
    by (auto simp: goal_key_def)
  have sum: "sum_by (\<lambda>g. f (g_id g)) (filter (\<lambda>g. g_businessId g = b) xs) =
      sum_by (\<lambda>k. f (fst k)) (filter (\<lambda>k. snd k = b) (map goal_key xs))" for xs
    by (induction xs) (auto simp: goal_key_def)
  show "g_id ` set gs = g_id ` set (goals db)" using arg_cong [OF assms, of "\<lambda>xs. fst ` set xs"] by (simp add: image_image goal_key_def)
  show "sum_by (\<lambda>g. f (g_id g)) (filter (\<lambda>g. g_businessId g = b) gs) = sum_by (\<lambda>g. f (g_id g)) (filter (\<lambda>g. g_businessId g = b) (goals db))"
    unfolding sum assms ..
  have "keyed g_id gs = keyed g_id (goals db)" unfolding keyed_def ids assms ..
  then show "goals_ok (db\<lparr>goals := gs\<rparr>) = goals_ok db"
    unfolding goals_ok_def ex by (simp add: assms)
qed

lemma insert_goal_entry_eq_Inr [result_simps]:
  "insert_goal_entry e db = Inr db' \<longleftrightarrow> fits_money (ge_amount e) \<and> ge_savingsGoalId e \<in> g_id ` set (goals db) \<and>
     ge_id e \<notin> ge_id ` set (goal_entries db) \<and> db' = db\<lparr>goal_entries := goal_entries db @ [e]\<rparr>"
  unfolding insert_goal_entry_def by (auto simp only: result_simps)

lemma requireGoal_eq_Inr [result_simps]:
  "requireGoal b i db = Inr g \<longleftrightarrow> find_row g_id i (goals db) = Some g \<and> g_businessId g = b"
  by (auto simp: requireGoal_def result_simps)

lemma goal_account_eq_Inr [result_simps]:
  "requireSavingsAccount b i db = Inr a \<longleftrightarrow> find_row acc_id i (accounts db) = Some a \<and> savings_wallet b a"
  "requireExpenseAccount b i db = Inr a \<longleftrightarrow> find_row acc_id i (accounts db) = Some a \<and> acc_businessId a = b \<and>
     acc_accountType a = account_type.EXPENSE"
  "goal_requireMoneyAccount b i db = Inr a \<longleftrightarrow> find_row acc_id i (accounts db) = Some a \<and> acc_businessId a = b \<and>
     acc_accountType a = ASSET \<and> subtype_in MONEY_ACCOUNT_SUBTYPES (acc_accountSubtype a)"
  by (auto simp: requireSavingsAccount_def requireExpenseAccount_def goal_requireMoneyAccount_def savings_wallet_def result_simps)

text \<open>Marking a goal completed changes a status, never that of a withdrawn goal.\<close>

definition completed_only :: "db \<Rightarrow> db \<Rightarrow> bool" where
  "completed_only db db' \<longleftrightarrow> db' = db\<lparr>goals := goals db'\<rparr> \<and> map goal_key (goals db') = map goal_key (goals db) \<and>
     (\<forall>i g. find_row g_id i (goals db) = Some g \<longrightarrow> g_status g = WITHDRAWN \<longrightarrow> find_row g_id i (goals db') = Some g)"

lemma completed_only_refl [simp]: "completed_only db db"
  by (simp add: completed_only_def)

lemma completed_only_trans: "completed_only a b \<Longrightarrow> completed_only b c \<Longrightarrow> completed_only a c"
  unfolding completed_only_def by (metis db.surjective db.update_convs(5))

lemma maybeMarkCompleted_only: "maybeMarkCompleted g amount db = Inr (db', g') \<Longrightarrow> completed_only db db'"
proof -
  assume run: "maybeMarkCompleted g amount db = Inr (db', g')"
  let ?gs = "update_many (\<lambda>x. g_id x = g_id g \<and> (g_status x = goal_status.ACTIVE \<or> g_status x = PAUSED))
      (\<lambda>x. x\<lparr>g_status := COMPLETED\<rparr>) (goals db)"
  from run have "db' = db \<or> db' = db\<lparr>goals := ?gs\<rparr>"
    by (auto simp: maybeMarkCompleted_def Let_def split: if_splits option.splits)
  moreover have "map goal_key ?gs = map goal_key (goals db)" by (simp add: update_many_def goal_key_def)
  moreover have "find_row g_id i ?gs = Some x" if "find_row g_id i (goals db) = Some x" "g_status x = WITHDRAWN" for i x
    using that by (simp add: find_row_update_many)
  ultimately show ?thesis unfolding completed_only_def by auto
qed

lemma completed_only_facts:
  assumes "completed_only db db'"
  shows "books_ok db' = books_ok db" "goals_ok db' = goals_ok db" "computeCurrentAmount i db' = computeCurrentAmount i db"
    "accounts db' = accounts db" "goal_entries db' = goal_entries db" "g_id ` set (goals db') = g_id ` set (goals db)"
    "sum_by (\<lambda>g. f (g_id g)) (filter (\<lambda>g. g_businessId g = b) (goals db')) =
     sum_by (\<lambda>g. f (g_id g)) (filter (\<lambda>g. g_businessId g = b) (goals db))"
proof -
  from assms have db': "db' = db\<lparr>goals := goals db'\<rparr>" and keys: "map goal_key (goals db') = map goal_key (goals db)"
    by (simp_all add: completed_only_def)
  note k = goals_same_keys [OF keys]
  show "books_ok db' = books_ok db" by (subst db') simp
  show "goals_ok db' = goals_ok db" using k(1) db' by simp
  show "computeCurrentAmount i db' = computeCurrentAmount i db" by (subst db') simp
  show "accounts db' = accounts db" "goal_entries db' = goal_entries db" by (subst db'; simp)+
  show "g_id ` set (goals db') = g_id ` set (goals db)" by (rule k(2))
  show "sum_by (\<lambda>g. f (g_id g)) (filter (\<lambda>g. g_businessId g = b) (goals db')) =
     sum_by (\<lambda>g. f (g_id g)) (filter (\<lambda>g. g_businessId g = b) (goals db))" by (rule k(3))
qed

lemma own_tables_goals:
  assumes "own_tables db' = own_tables db"
  shows "goals db' = goals db" "goal_entries db' = goal_entries db" "computeCurrentAmount i db' = computeCurrentAmount i db"
    "goals_ok db' = goals_ok db"
  using assms by (simp_all add: own_tables_def computeCurrentAmount_def goals_ok_def)

section \<open>What the operations do\<close>

lemma wallet_not_money: "savings_wallet b a \<Longrightarrow> \<not> subtype_in MONEY_ACCOUNT_SUBTYPES (acc_accountSubtype a)"
  by (auto simp: savings_wallet_def subtype_in_def account_constants)

lemma post_simple: "post gen now b (simple_request ty d s es) user db = post_new gen now b (simple_request ty d s es) user db"
  by (simp add: post_def post_after_def existing_by_key_def)

lemma addContributionE:
  assumes run: "addContribution gen now b goalId dto user db = Inr (db', e)" and books: "books_ok db" and gen: "ids_drawn gen"
  obtains goal wallet src db1 where "find_row g_id goalId (goals db) = Some goal" "g_businessId goal = b" "g_status goal \<noteq> WITHDRAWN"
    "wallet \<in> set (accounts db)" "savings_wallet b wallet" "\<And>w. \<not> savings_wallet w src" "acc_id src \<noteq> acc_id wallet"
    "find_row acc_id (acc_id src) (accounts db) = Some src"
    "books_ok db1" "own_tables db1 = own_tables db" "0 < ac_amount dto"
    "moves_money (\<lambda>a. if acc_id a = acc_id wallet then ac_amount dto else if acc_id a = acc_id src then - ac_amount dto else 0) db db1"
    "ge_savingsGoalId e = goalId" "ge_businessId e = b" "goal_delta e = ac_amount dto" "ge_id e \<notin> ge_id ` set (goal_entries db1)"
    "completed_only (db1\<lparr>goal_entries := goal_entries db1 @ [e]\<rparr>) db'"
proof -
  from run obtain goal src wallet db1 t es goal' g2 where
    goal: "find_row g_id goalId (goals db) = Some goal" "g_businessId goal = b" "g_status goal \<noteq> WITHDRAWN"
    and src: "find_row acc_id (ac_moneyAccountId dto) (accounts db) = Some src" "acc_accountType src = ASSET"
      "subtype_in MONEY_ACCOUNT_SUBTYPES (acc_accountSubtype src)"
    and wallet: "find_row acc_id (ac_toAccountId dto) (accounts db) = Some wallet" "savings_wallet b wallet"
    and post: "post gen now b (contribution_request goal wallet src dto) user db = Inr (db1, t, es)"
    and e: "e = contribution_entry (gen 3) goalId b wallet src dto t" and fresh: "ge_id e \<notin> ge_id ` set (goal_entries db1)"
    and mark: "maybeMarkCompleted goal' None (db1\<lparr>goal_entries := goal_entries db1 @ [e]\<rparr>) = Inr (db', g2)"
    unfolding addContribution_def by (auto simp: rbind_eq_Inr result_simps)
  have new: "post_new gen now b (simple_request TRANSFER (ac_date dto) (Some (noted ''Savings contribution: '' goal (ac_notes dto)))
       [entry_for (acc_id wallet) DEBIT (ac_amount dto), entry_for (acc_id src) CREDIT (ac_amount dto)]) user db = Inr (db1, t, es)"
    using post by (simp add: contribution_request_def post_simple)
  have nw: "\<not> savings_wallet w src" for w using src(3) wallet_not_money by blast
  have ids: "acc_id wallet = ac_toAccountId dto" "acc_id src = ac_moneyAccountId dto" "wallet \<in> set (accounts db)"
    using wallet(1) src(1) by (auto dest: find_row_Some)
  have ne: "acc_id src \<noteq> acc_id wallet"
    using same_account [OF books src(1) ids(3)] nw wallet(2) ids(2) by metis
  have asset: "acc_accountType wallet = ASSET" using wallet(2) by (simp add: savings_wallet_def)
  note te = two_entries [OF books gen new, of "entry_for (acc_id wallet) DEBIT (ac_amount dto)" wallet
      "entry_for (acc_id src) CREDIT (ac_amount dto)" src "ac_amount dto"]
  have v: "signed wallet (ac_amount dto) = ac_amount dto" "signed src (ac_amount dto) = ac_amount dto" using asset src(2) by simp_all
  have mv: "moves_money (\<lambda>a. if acc_id a = acc_id wallet then signed wallet (ac_amount dto)
      else if acc_id a = acc_id src then - signed src (ac_amount dto) else 0) db db1"
    and oks: "books_ok db1" "own_tables db1 = own_tables db" "0 < ac_amount dto"
    using te wallet(1) src(1) ids ne by simp_all
  show thesis
    by (rule that [OF goal ids(3) wallet(2) nw ne _ oks mv [unfolded v] _ _ _ fresh maybeMarkCompleted_only [OF mark]])
      (simp_all add: e contribution_entry_def goal_delta_def ids(2) src(1))
qed

lemma withdrawE:
  assumes run: "withdraw gen now b goalId dto user db = Inr (db', e)" and books: "books_ok db" and gen: "ids_drawn gen"
  obtains goal wallet ex db1 where "find_row g_id goalId (goals db) = Some goal" "g_businessId goal = b" "g_status goal \<noteq> WITHDRAWN"
    "0 < computeCurrentAmount goalId db" "computeCurrentAmount goalId db \<le> acc_currentBalance wallet"
    "wallet \<in> set (accounts db)" "acc_id wallet = wd_savingsAccountId dto" "savings_wallet b wallet"
    "acc_id ex \<noteq> acc_id wallet" "acc_id ex = wd_expenseAccountId dto"
    "find_row acc_id (acc_id ex) (accounts db) = Some ex" "\<And>w. \<not> savings_wallet w ex"
    "books_ok db1" "own_tables db1 = own_tables db"
    "moves_money (\<lambda>a. if acc_id a = acc_id ex then computeCurrentAmount goalId db
       else if acc_id a = acc_id wallet then - computeCurrentAmount goalId db else 0) db db1"
    "ge_savingsGoalId e = goalId" "ge_businessId e = b" "goal_delta e = - computeCurrentAmount goalId db"
    "ge_id e \<notin> ge_id ` set (goal_entries db1)"
    "db' = db1\<lparr>goal_entries := goal_entries db1 @ [e], goals := map_row g_id goalId (\<lambda>g. g\<lparr>g_status := WITHDRAWN\<rparr>) (goals db1)\<rparr>"
proof -
  define m where "m = computeCurrentAmount goalId db"
  from run obtain goal wallet ex db1 t es where
    goal: "find_row g_id goalId (goals db) = Some goal" "g_businessId goal = b" "g_status goal \<noteq> WITHDRAWN"
    and pos: "0 < computeCurrentAmount (g_id goal) db" "computeCurrentAmount (g_id goal) db \<le> acc_currentBalance wallet"
    and wallet: "find_row acc_id (wd_savingsAccountId dto) (accounts db) = Some wallet" "savings_wallet b wallet"
    and ex: "find_row acc_id (wd_expenseAccountId dto) (accounts db) = Some ex" "acc_accountType ex = account_type.EXPENSE"
    and post: "post gen now b (withdraw_request goal ex wallet (computeCurrentAmount (g_id goal) db) dto) user db = Inr (db1, t, es)"
    and e: "e = withdrawal_entry (gen 3) goalId b wallet (computeCurrentAmount (g_id goal) db) dto t"
    and fresh: "ge_id e \<notin> ge_id ` set (goal_entries db1)"
    and db': "db' = db1\<lparr>goal_entries := goal_entries db1 @ [e], goals := map_row g_id goalId (\<lambda>g. g\<lparr>g_status := WITHDRAWN\<rparr>) (goals db1)\<rparr>"
    unfolding withdraw_def Let_def by (auto simp: rbind_eq_Inr result_simps)
  have gid: "g_id goal = goalId" using goal(1) by (auto dest: find_row_Some)
  note pos = pos [unfolded gid, folded m_def] and e = e [unfolded gid, folded m_def]
  have new: "post_new gen now b (simple_request transaction_type.EXPENSE (wd_date dto) (Some (noted ''Savings withdrawal: '' goal (wd_notes dto)))
       [(entry_for (acc_id ex) DEBIT m)\<lparr>ed_categoryId := wd_categoryId dto, ed_note := wd_notes dto\<rparr>,
        entry_for (acc_id wallet) CREDIT m]) user db = Inr (db1, t, es)"
    using post [unfolded gid, folded m_def] by (simp add: withdraw_request_def post_simple)
  have nw: "\<not> savings_wallet w ex" for w using ex(2) by (simp add: savings_wallet_def)
  have ids: "acc_id wallet = wd_savingsAccountId dto" "acc_id ex = wd_expenseAccountId dto" "wallet \<in> set (accounts db)"
    using wallet(1) ex(1) by (auto dest: find_row_Some)
  have ne: "acc_id ex \<noteq> acc_id wallet"
    using same_account [OF books ex(1) ids(3)] nw wallet(2) ids(2) by metis
  have asset: "acc_accountType wallet = ASSET" using wallet(2) by (simp add: savings_wallet_def)
  note te = two_entries [OF books gen new, of "(entry_for (acc_id ex) DEBIT m)\<lparr>ed_categoryId := wd_categoryId dto, ed_note := wd_notes dto\<rparr>" ex
      "entry_for (acc_id wallet) CREDIT m" wallet m]
  have v: "signed ex m = m" "signed wallet m = m" using asset ex(2) by simp_all
  have mv: "moves_money (\<lambda>a. if acc_id a = acc_id ex then signed ex m else if acc_id a = acc_id wallet then - signed wallet m else 0) db db1"
    and oks: "books_ok db1" "own_tables db1 = own_tables db"
    using te wallet(1) ex(1) ids ne by simp_all
  show thesis
    by (rule that [OF goal pos [unfolded m_def] ids(3,1) wallet(2) ne ids(2) _ nw oks mv [unfolded v, unfolded m_def] _ _ _ fresh db'])
      (simp_all add: e withdrawal_entry_def goal_delta_def ids(2) ex(1) m_def)
qed

lemma transfer_savingsE:
  assumes run: "transfer_savings gen b dto db = Inr db'"
  obtains fromGoal toGoal o_e i_e mid where "st_fromGoalId dto \<noteq> st_toGoalId dto"
    "find_row g_id (st_fromGoalId dto) (goals db) = Some fromGoal" "find_row g_id (st_toGoalId dto) (goals db) = Some toGoal"
    "g_businessId fromGoal = b" "g_businessId toGoal = b" "g_status toGoal \<noteq> WITHDRAWN"
    "st_amount dto \<le> computeCurrentAmount (st_fromGoalId dto) db"
    "ge_savingsGoalId o_e = st_fromGoalId dto" "ge_savingsGoalId i_e = st_toGoalId dto" "ge_businessId o_e = b" "ge_businessId i_e = b"
    "goal_delta o_e = - st_amount dto" "goal_delta i_e = st_amount dto"
    "keyed ge_id (goal_entries db) \<Longrightarrow> keyed ge_id (goal_entries db @ [o_e, i_e])"
    "mid = db\<lparr>goal_entries := goal_entries db @ [o_e, i_e]\<rparr>" "completed_only mid db'"
proof -
  from run obtain fromGoal toGoal g2 where
    ne: "st_fromGoalId dto \<noteq> st_toGoalId dto"
    and goals: "find_row g_id (st_fromGoalId dto) (goals db) = Some fromGoal" "find_row g_id (st_toGoalId dto) (goals db) = Some toGoal"
      "g_businessId fromGoal = b" "g_businessId toGoal = b" "g_status toGoal \<noteq> WITHDRAWN"
    and amount: "st_amount dto \<le> computeCurrentAmount (g_id fromGoal) db"
    and fresh: "gen 0 \<notin> ge_id ` set (goal_entries db)" "gen 1 \<notin> ge_id ` set (goal_entries db)" "gen 1 \<noteq> gen 0"
    and mark: "maybeMarkCompleted toGoal None (db\<lparr>goal_entries := goal_entries db @
        [transfer_entry (gen 0) b (g_id fromGoal) TRANSFER_OUT (g_id toGoal) dto,
         transfer_entry (gen 1) b (g_id toGoal) TRANSFER_IN (g_id fromGoal) dto]\<rparr>) = Inr (db', g2)"
    unfolding transfer_savings_def by (auto simp: rbind_eq_Inr result_simps transfer_entry_def split: if_splits)
  have ids: "g_id fromGoal = st_fromGoalId dto" "g_id toGoal = st_toGoalId dto" using goals(1,2) by (auto dest: find_row_Some)
  show thesis
    by (rule that [OF ne goals amount [unfolded ids] _ _ _ _ _ _ _ refl maybeMarkCompleted_only [OF mark]])
      (use fresh in \<open>auto simp: transfer_entry_def goal_delta_def ids\<close>)
qed

section \<open>Goals are never overdrawn\<close>

lemma goals_ok_append:
  assumes "goals_ok db" and "ge_id e \<notin> ge_id ` set (goal_entries db)"
    and "\<exists>g \<in> set (goals db). g_id g = ge_savingsGoalId e \<and> g_businessId g = ge_businessId e"
    and "0 \<le> computeCurrentAmount (ge_savingsGoalId e) db + goal_delta e"
  shows "goals_ok (db\<lparr>goal_entries := goal_entries db @ [e]\<rparr>)"
proof -
  have g: "keyed g_id (goals db)" "keyed ge_id (goal_entries db)" "\<And>i. 0 \<le> computeCurrentAmount i db"
    "\<And>x. x \<in> set (goal_entries db) \<Longrightarrow> \<exists>g \<in> set (goals db). g_id g = ge_savingsGoalId x \<and> g_businessId g = ge_businessId x"
    using assms(1) unfolding goals_ok_def by blast+
  show ?thesis
    unfolding goals_ok_def
  proof (intro conjI allI ballI)
    show "0 \<le> computeCurrentAmount i (db\<lparr>goal_entries := goal_entries db @ [e]\<rparr>)" for i
      using assms(4) g(3) [of i] by (cases "ge_savingsGoalId e = i") simp_all
    show "\<exists>g \<in> set (goals (db\<lparr>goal_entries := goal_entries db @ [e]\<rparr>)). g_id g = ge_savingsGoalId x \<and> g_businessId g = ge_businessId x"
      if "x \<in> set (goal_entries (db\<lparr>goal_entries := goal_entries db @ [e]\<rparr>))" for x
      using that g(4) [of x] assms(3) by (cases "x = e") simp_all
  qed (use g(1,2) assms(2) in simp_all)
qed

lemma ledger_step_goals:
  assumes "ledger_step db db'" and "books_ok db"
  shows "goals db' = goals db" "goal_entries db' = goal_entries db"
  using ledger_step_features [OF assms] by (simp_all add: feature_tables_def)

lemma summaries_only: "summaries ar now gs db = Inr (db', xs) \<Longrightarrow> completed_only db db'"
proof (induction gs arbitrary: db xs)
  case (Cons g gs)
  from Cons.prems obtain mid x xs' where x: "toSummary ar now g db = Inr (mid, x)" and rest: "summaries ar now gs mid = Inr (db', xs')"
    by (auto simp: rbind_eq_Inr)
  from x have "completed_only db mid"
    by (auto simp: toSummary_def Let_def rbind_eq_Inr intro: maybeMarkCompleted_only)
  with Cons.IH [OF rest] show ?case by (blast intro: completed_only_trans)
qed simp

inductive savings_step :: "db \<Rightarrow> db \<Rightarrow> bool" where
  contributed: "addContribution gen now b i c_dto user db = Inr (db', e) \<Longrightarrow> ids_drawn gen \<Longrightarrow> savings_step db db'"
| transferred: "transfer_savings gen b t_dto db = Inr db' \<Longrightarrow> 0 < st_amount t_dto \<Longrightarrow> savings_step db db'"
| withdrawn: "withdraw gen now b i w_dto user db = Inr (db', e) \<Longrightarrow> ids_drawn gen \<Longrightarrow> savings_step db db'"
| goal_created: "create_goal i now b g_dto db = Inr (db', g) \<Longrightarrow> savings_step db db'"
| goal_updated: "update_goal b i u_dto db = Inr db' \<Longrightarrow> savings_step db db'"
| status_set: "updateStatus b i s db = Inr db' \<Longrightarrow> status_accepted s \<Longrightarrow> savings_step db db'"
| goal_deleted: "delete_goal b i db = Inr db' \<Longrightarrow> savings_step db db'"
| listed: "list_goals ar now b st db = Inr (db', xs) \<Longrightarrow> savings_step db db'"
| ledger: "ledger_step db db' \<Longrightarrow> savings_step db db'"

inductive_cases savings_stepE: "savings_step db db'"

lemma savings_ok_contribution:
  assumes "addContribution gen now b i dto user db = Inr (db', e)" and ok: "savings_ok db" and "ids_drawn gen"
  shows "savings_ok db'"
proof -
  have books: "books_ok db" and goals: "goals_ok db" using ok by (simp_all add: savings_ok_def)
  from assms(1) books assms(3) show ?thesis
  proof (rule addContributionE)
    fix goal wallet src db1
    assume g: "find_row g_id i (goals db) = Some goal" "g_businessId goal = b"
      and d1: "books_ok db1" "own_tables db1 = own_tables db" "0 < ac_amount dto"
      and e: "ge_savingsGoalId e = i" "ge_businessId e = b" "goal_delta e = ac_amount dto" "ge_id e \<notin> ge_id ` set (goal_entries db1)"
      and co: "completed_only (db1\<lparr>goal_entries := goal_entries db1 @ [e]\<rparr>) db'"
    note o = own_tables_goals [OF d1(2)]
    have "goals_ok (db1\<lparr>goal_entries := goal_entries db1 @ [e]\<rparr>)"
    proof (rule goals_ok_append [OF _ e(4)])
      show "goals_ok db1" using goals by (simp add: o)
      show "\<exists>g \<in> set (goals db1). g_id g = ge_savingsGoalId e \<and> g_businessId g = ge_businessId e"
        using find_row_Some [OF g(1)] g(2) e o by auto
      show "0 \<le> computeCurrentAmount (ge_savingsGoalId e) db1 + goal_delta e"
        using goals d1(3) e(3) by (simp add: o goals_ok_def)
    qed
    then show ?thesis using d1(1) by (simp add: savings_ok_def completed_only_facts [OF co])
  qed
qed

lemma savings_ok_withdraw:
  assumes "withdraw gen now b i dto user db = Inr (db', e)" and ok: "savings_ok db" and "ids_drawn gen"
  shows "savings_ok db'"
proof -
  have books: "books_ok db" and goals: "goals_ok db" using ok by (simp_all add: savings_ok_def)
  from assms(1) books assms(3) show ?thesis
  proof (rule withdrawE)
    fix goal wallet ex db1
    assume g: "find_row g_id i (goals db) = Some goal" "g_businessId goal = b"
      and d1: "books_ok db1" "own_tables db1 = own_tables db"
      and e: "ge_savingsGoalId e = i" "ge_businessId e = b" "goal_delta e = - computeCurrentAmount i db" "ge_id e \<notin> ge_id ` set (goal_entries db1)"
      and db': "db' = db1\<lparr>goal_entries := goal_entries db1 @ [e], goals := map_row g_id i (\<lambda>g. g\<lparr>g_status := WITHDRAWN\<rparr>) (goals db1)\<rparr>"
    note o = own_tables_goals [OF d1(2)]
    have m: "goals_ok (db1\<lparr>goal_entries := goal_entries db1 @ [e]\<rparr>)"
    proof (rule goals_ok_append [OF _ e(4)])
      show "goals_ok db1" using goals by (simp add: o)
      show "\<exists>g \<in> set (goals db1). g_id g = ge_savingsGoalId e \<and> g_businessId g = ge_businessId e"
        using find_row_Some [OF g(1)] g(2) e o by auto
      show "0 \<le> computeCurrentAmount (ge_savingsGoalId e) db1 + goal_delta e" using e by (simp add: o)
    qed
    have "map goal_key (map_row g_id i (\<lambda>g. g\<lparr>g_status := WITHDRAWN\<rparr>) (goals db1)) = map goal_key (goals db1)"
      by (rule map_row_proj) (simp add: goal_key_def)
    with goals_same_keys(1) [of _ "db1\<lparr>goal_entries := goal_entries db1 @ [e]\<rparr>"] m
    have "goals_ok db'" unfolding db' by simp
    then show ?thesis using d1(1) by (simp add: savings_ok_def db')
  qed
qed

lemma savings_ok_transfer:
  assumes "transfer_savings gen b dto db = Inr db'" and ok: "savings_ok db" and "0 < st_amount dto"
  shows "savings_ok db'"
  using assms(1)
proof (rule transfer_savingsE)
  fix fg tg o_e i_e mid
  assume ne: "st_fromGoalId dto \<noteq> st_toGoalId dto"
    and g: "find_row g_id (st_fromGoalId dto) (goals db) = Some fg" "find_row g_id (st_toGoalId dto) (goals db) = Some tg"
      "g_businessId fg = b" "g_businessId tg = b"
    and amount: "st_amount dto \<le> computeCurrentAmount (st_fromGoalId dto) db"
    and e: "ge_savingsGoalId o_e = st_fromGoalId dto" "ge_savingsGoalId i_e = st_toGoalId dto" "ge_businessId o_e = b" "ge_businessId i_e = b"
      "goal_delta o_e = - st_amount dto" "goal_delta i_e = st_amount dto"
    and keyed: "keyed ge_id (goal_entries db) \<Longrightarrow> keyed ge_id (goal_entries db @ [o_e, i_e])"
    and mid: "mid = db\<lparr>goal_entries := goal_entries db @ [o_e, i_e]\<rparr>" and co: "completed_only mid db'"
  have books: "books_ok db" and goals: "goals_ok db" using ok by (simp_all add: savings_ok_def)
  have cur: "computeCurrentAmount i mid = computeCurrentAmount i db +
      (if i = st_fromGoalId dto then - st_amount dto else if i = st_toGoalId dto then st_amount dto else 0)" for i
    using ne e by (auto simp: mid computeCurrentAmount_def)
  have "goals_ok mid"
    unfolding goals_ok_def
  proof (intro conjI allI)
    show "keyed g_id (goals mid)" "keyed ge_id (goal_entries mid)" using goals keyed by (simp_all add: mid goals_ok_def)
    show "\<forall>x \<in> set (goal_entries mid). \<exists>g \<in> set (goals mid). g_id g = ge_savingsGoalId x \<and> g_businessId g = ge_businessId x"
      using goals find_row_Some [OF g(1)] find_row_Some [OF g(2)] g(3,4) e by (auto simp: mid goals_ok_def)
    show "0 \<le> computeCurrentAmount i mid" for i
      using goals amount assms(3) by (auto simp: cur goals_ok_def)
  qed
  then show ?thesis using books by (simp add: savings_ok_def completed_only_facts [OF co]) (simp add: mid)
qed

lemma goals_ok_map_row:
  assumes "goals_ok db" and "\<And>g. goal_key (f g) = goal_key g"
  shows "goals_ok (db\<lparr>goals := map_row g_id i f (goals db)\<rparr>)"
  using goals_same_keys(1) [of "map_row g_id i f (goals db)" db] assms by (simp add: map_row_proj)

lemma savings_ok_goal_writes:
  assumes ok: "savings_ok db"
  shows "create_goal i now b g_dto db = Inr (db', g) \<Longrightarrow> savings_ok db'"
    "update_goal b i u_dto db = Inr db' \<Longrightarrow> savings_ok db'"
    "updateStatus b i s db = Inr db' \<Longrightarrow> savings_ok db'"
    "delete_goal b i db = Inr db' \<Longrightarrow> savings_ok db'"
proof -
  have books: "books_ok db" and goals: "goals_ok db" using ok by (simp_all add: savings_ok_def)
  show "savings_ok db'" if "create_goal i now b g_dto db = Inr (db', g)"
  proof -
    from that have new: "g_id g \<notin> g_id ` set (goals db)" and db': "db' = db\<lparr>goals := goals db @ [g]\<rparr>"
      unfolding create_goal_def Let_def by (auto simp: rbind_eq_Inr result_simps)
    have "goals_ok (db\<lparr>goals := goals db @ [g]\<rparr>)" using goals new by (auto simp: goals_ok_def)
    then show ?thesis using books by (simp add: savings_ok_def db')
  qed
  show "savings_ok db'" if "update_goal b i u_dto db = Inr db'"
    using that books goals
    by (auto simp: update_goal_def rbind_eq_Inr result_simps savings_ok_def apply_goal_update_def goal_key_def intro!: goals_ok_map_row)
  show "savings_ok db'" if "updateStatus b i s db = Inr db'"
    using that books goals
    by (auto simp: updateStatus_def rbind_eq_Inr result_simps savings_ok_def goal_key_def intro!: goals_ok_map_row)
  show "savings_ok db'" if "delete_goal b i db = Inr db'"
  proof -
    from that have none: "\<And>e. e \<in> set (goal_entries db) \<Longrightarrow> ge_savingsGoalId e \<noteq> i"
      and db': "db' = db\<lparr>goals := filter (\<lambda>g. g_id g \<noteq> i) (goals db)\<rparr>"
      unfolding delete_goal_def by (auto simp: rbind_eq_Inr result_simps filter_empty_conv)
    have "goals_ok db'"
      unfolding goals_ok_def
    proof (intro conjI allI ballI)
      show "keyed g_id (goals db')" "keyed ge_id (goal_entries db')" "0 \<le> computeCurrentAmount j db'" for j
        using goals by (simp_all add: db' goals_ok_def keyed_filter)
      fix e assume "e \<in> set (goal_entries db')"
      then have e: "e \<in> set (goal_entries db)" by (simp add: db')
      then obtain g where "g \<in> set (goals db)" "g_id g = ge_savingsGoalId e" "g_businessId g = ge_businessId e"
        using goals unfolding goals_ok_def by blast
      with none [OF e] show "\<exists>g \<in> set (goals db'). g_id g = ge_savingsGoalId e \<and> g_businessId g = ge_businessId e"
        by (intro bexI [of _ g]) (simp_all add: db')
    qed
    then show ?thesis using books by (simp add: savings_ok_def db')
  qed
qed

interpretation savings: invariant_system savings_step savings_ok
proof
  fix db db' assume step: "savings_step db db'" and ok: "savings_ok db"
  have books: "books_ok db" and goals: "goals_ok db" using ok by (simp_all add: savings_ok_def)
  from step show "savings_ok db'"
  proof (rule savings_stepE)
    fix ar now b st xs assume "list_goals ar now b st db = Inr (db', xs)"
    then have "completed_only db db'" unfolding list_goals_def by (rule summaries_only)
    with ok show ?thesis by (simp add: savings_ok_def completed_only_facts)
  next
    assume l: "ledger_step db db'"
    have "computeCurrentAmount i db' = computeCurrentAmount i db" for i
      by (simp add: computeCurrentAmount_def ledger_step_goals(2) [OF l books])
    then have "goals_ok db'" using goals by (simp add: goals_ok_def ledger_step_goals [OF l books])
    with books.step_inv [OF l books] show ?thesis by (simp add: savings_ok_def)
  qed (use ok in \<open>blast intro: savings_ok_contribution savings_ok_transfer savings_ok_withdraw savings_ok_goal_writes\<close>)+
qed

text \<open>
  C8: whatever contributions, transfers, withdrawals, edits, listings and ledger operations run,
  no savings goal is ever overdrawn, every goal entry belongs to a goal of its workspace, and the
  books stay sound.
\<close>

theorem savings_never_overdrawn:
  assumes "savings_step\<^sup>*\<^sup>* db db'" and "savings_ok db"
  shows "savings_ok db' \<and> 0 \<le> computeCurrentAmount goalId db'"
  using savings.run_inv [OF assms] by (simp add: savings_ok_def goals_ok_def)

section \<open>Goals and wallets move together\<close>

text \<open>What the wallets of a workspace hold beyond what its goals have saved.\<close>

definition savings_gap :: "id \<Rightarrow> db \<Rightarrow> money" where
  "savings_gap b db = sum_by acc_currentBalance (filter (savings_wallet b) (accounts db)) -
     sum_by (\<lambda>g. computeCurrentAmount (g_id g) db) (filter (\<lambda>g. g_businessId g = b) (goals db))"

lemma sum_wallets_move:
  assumes "moves_money f db db'"
  shows "sum_by acc_currentBalance (filter (savings_wallet b) (accounts db')) =
    sum_by acc_currentBalance (filter (savings_wallet b) (accounts db)) + sum_by f (filter (savings_wallet b) (accounts db))"
proof -
  have "sum_by acc_currentBalance (filter (savings_wallet b) (map (\<lambda>a. a\<lparr>acc_currentBalance := acc_currentBalance a + f a\<rparr>) xs)) =
      sum_by acc_currentBalance (filter (savings_wallet b) xs) + sum_by f (filter (savings_wallet b) xs)" for xs
    by (induction xs) (auto simp: savings_wallet_def)
  with assms show ?thesis by (simp add: moves_money_def)
qed

lemma sum_one_wallet:
  assumes "keyed acc_id (accounts db)" and "wallet \<in> set (accounts db)" and "savings_wallet b wallet"
    and "\<And>a. a \<in> set (accounts db) \<Longrightarrow> savings_wallet w a \<Longrightarrow> f a = (if acc_id a = acc_id wallet then m else 0)"
  shows "sum_by f (filter (savings_wallet w) (accounts db)) = (if w = b then m else 0)"
proof -
  have f: "sum_by f (filter (savings_wallet w) (accounts db)) =
      sum_by (\<lambda>a. if acc_id a = acc_id wallet then m else 0) (filter (savings_wallet w) (accounts db))"
    using assms(4) by (intro sum_by_cong) simp
  show ?thesis
  proof (cases "w = b")
    case True
    have "distinct (map acc_id (filter (savings_wallet w) (accounts db)))"
      using keyed_filter [OF assms(1)] by (simp add: keyed_def)
    then show ?thesis
      unfolding f using True assms(2,3) sum_by_delta [of acc_id _ wallet "\<lambda>_. m"] by simp
  next
    case False
    have "acc_id wallet \<notin> acc_id ` set (filter (savings_wallet w) (accounts db))"
      using find_row_mem [OF assms(1)] assms(2,3) False by (auto simp: savings_wallet_def) (metis option.inject)
    from sum_by_outside [OF this, of "\<lambda>_. m"] False show ?thesis unfolding f by simp
  qed
qed

lemma sum_goals_append:
  assumes "keyed g_id (goals db)" and "g \<in> set (goals db)" and "g_id g = ge_savingsGoalId e"
  shows "sum_by (\<lambda>x. computeCurrentAmount (g_id x) (db\<lparr>goal_entries := goal_entries db @ [e]\<rparr>)) (filter (\<lambda>x. g_businessId x = w) (goals db)) =
    sum_by (\<lambda>x. computeCurrentAmount (g_id x) db) (filter (\<lambda>x. g_businessId x = w) (goals db)) +
    (if w = g_businessId g then goal_delta e else 0)"
proof -
  define gs where "gs = filter (\<lambda>x. g_businessId x = w) (goals db)"
  have "sum_by (\<lambda>x. if ge_savingsGoalId e = g_id x then goal_delta e else 0) gs = (if w = g_businessId g then goal_delta e else 0)"
  proof (cases "w = g_businessId g")
    case True
    have "distinct (map g_id gs)" using keyed_filter [OF assms(1)] by (simp add: keyed_def gs_def)
    then show ?thesis
      using True sum_by_only [of g_id gs g "goal_delta e"] assms(2,3) by (simp add: gs_def)
  next
    case False
    have "ge_savingsGoalId e \<notin> g_id ` set gs"
      using find_row_mem [OF assms(1)] assms(2,3) False by (auto simp: gs_def) (metis option.inject)
    from sum_by_none [OF this] False show ?thesis by simp
  qed
  then show ?thesis by (simp add: sum_by_plus flip: gs_def)
qed

lemma savings_gap_contribution:
  assumes ok: "savings_ok db" and gen: "ids_drawn gen" and run: "addContribution gen now b goalId dto user db = Inr (db', e)"
  shows "savings_gap w db' = savings_gap w db"
proof -
  have books: "books_ok db" and kg: "keyed g_id (goals db)"
    using ok by (simp_all add: savings_ok_def goals_ok_def)
  note ka = books_okD(5) [OF books]
  from run books gen show ?thesis
  proof (rule addContributionE)
    fix goal wallet src db1
    assume g: "find_row g_id goalId (goals db) = Some goal" "g_businessId goal = b"
      and wal: "wallet \<in> set (accounts db)" "savings_wallet b wallet"
      and src: "\<And>w. \<not> savings_wallet w src" "acc_id src \<noteq> acc_id wallet" "find_row acc_id (acc_id src) (accounts db) = Some src"
      and own: "own_tables db1 = own_tables db"
      and mv: "moves_money (\<lambda>a. if acc_id a = acc_id wallet then ac_amount dto else if acc_id a = acc_id src then - ac_amount dto else 0) db db1"
      and e: "ge_savingsGoalId e = goalId" "goal_delta e = ac_amount dto"
      and co: "completed_only (db1\<lparr>goal_entries := goal_entries db1 @ [e]\<rparr>) db'"
    note o = own_tables_goals [OF own]
    have gm: "goal \<in> set (goals db1)" "g_id goal = ge_savingsGoalId e" using g e o by (auto dest: find_row_Some)
    have "sum_by (\<lambda>a. if acc_id a = acc_id wallet then ac_amount dto else if acc_id a = acc_id src then - ac_amount dto else 0)
        (filter (savings_wallet w) (accounts db)) = (if w = b then ac_amount dto else 0)"
      by (rule sum_one_wallet [OF ka wal]) (use same_account [OF books src(3)] src(1) in auto)
    moreover have "keyed g_id (goals db1)" using kg o by simp
    note sum_goals_append [OF this gm, of w]
    ultimately show ?thesis
      unfolding savings_gap_def completed_only_facts(3,4) [OF co]
        completed_only_facts(7) [OF co, where f = "\<lambda>i. computeCurrentAmount i (db1\<lparr>goal_entries := goal_entries db1 @ [e]\<rparr>)"]
      using sum_wallets_move [OF mv, of w] g(2) e(2) by (simp add: o)
  qed
qed

lemma savings_gap_withdraw:
  assumes ok: "savings_ok db" and gen: "ids_drawn gen" and run: "withdraw gen now b goalId dto user db = Inr (db', e)"
  shows "savings_gap w db' = savings_gap w db"
proof -
  have books: "books_ok db" and kg: "keyed g_id (goals db)"
    using ok by (simp_all add: savings_ok_def goals_ok_def)
  note ka = books_okD(5) [OF books]
  from run books gen show ?thesis
  proof (rule withdrawE)
    fix goal wallet ex db1
    assume g: "find_row g_id goalId (goals db) = Some goal" "g_businessId goal = b"
      and wal: "wallet \<in> set (accounts db)" "savings_wallet b wallet"
      and ex: "\<And>w. \<not> savings_wallet w ex" "acc_id ex \<noteq> acc_id wallet" "find_row acc_id (acc_id ex) (accounts db) = Some ex"
      and own: "own_tables db1 = own_tables db"
      and mv: "moves_money (\<lambda>a. if acc_id a = acc_id ex then computeCurrentAmount goalId db
         else if acc_id a = acc_id wallet then - computeCurrentAmount goalId db else 0) db db1"
      and e: "ge_savingsGoalId e = goalId" "goal_delta e = - computeCurrentAmount goalId db"
      and db': "db' = db1\<lparr>goal_entries := goal_entries db1 @ [e], goals := map_row g_id goalId (\<lambda>g. g\<lparr>g_status := WITHDRAWN\<rparr>) (goals db1)\<rparr>"
    note o = own_tables_goals [OF own]
    have gm: "goal \<in> set (goals db1)" "g_id goal = ge_savingsGoalId e" using g e o by (auto dest: find_row_Some)
    have keys: "map goal_key (goals db') = map goal_key (goals (db1\<lparr>goal_entries := goal_entries db1 @ [e]\<rparr>))"
      by (simp add: db' map_row_proj goal_key_def)
    have cur: "computeCurrentAmount i db' = computeCurrentAmount i (db1\<lparr>goal_entries := goal_entries db1 @ [e]\<rparr>)" for i
      by (simp add: db' computeCurrentAmount_def)
    have "sum_by (\<lambda>a. if acc_id a = acc_id ex then computeCurrentAmount goalId db
        else if acc_id a = acc_id wallet then - computeCurrentAmount goalId db else 0)
        (filter (savings_wallet w) (accounts db)) = (if w = b then - computeCurrentAmount goalId db else 0)"
      by (rule sum_one_wallet [OF ka wal]) (use same_account [OF books ex(3)] ex(1) in auto)
    moreover have "keyed g_id (goals db1)" using kg o by simp
    note sum_goals_append [OF this gm, of w]
    ultimately show ?thesis
      unfolding savings_gap_def cur
        goals_same_keys(3) [OF keys, where f = "\<lambda>i. computeCurrentAmount i (db1\<lparr>goal_entries := goal_entries db1 @ [e]\<rparr>)"]
      using sum_wallets_move [OF mv, of w] g(2) e(2) by (simp add: o db')
  qed
qed

lemma savings_gap_transfer:
  assumes ok: "savings_ok db" and run: "transfer_savings gen b dto db = Inr db'"
  shows "savings_gap w db' = savings_gap w db"
proof -
  have books: "books_ok db" and kg: "keyed g_id (goals db)"
    using ok by (simp_all add: savings_ok_def goals_ok_def)
  note ka = books_okD(5) [OF books]
  from run show ?thesis
  proof (rule transfer_savingsE)
    fix fg tg o_e i_e mid
    assume g: "find_row g_id (st_fromGoalId dto) (goals db) = Some fg" "find_row g_id (st_toGoalId dto) (goals db) = Some tg"
        "g_businessId fg = b" "g_businessId tg = b"
      and e: "ge_savingsGoalId o_e = st_fromGoalId dto" "ge_savingsGoalId i_e = st_toGoalId dto"
        "goal_delta o_e = - st_amount dto" "goal_delta i_e = st_amount dto"
      and mid: "mid = db\<lparr>goal_entries := goal_entries db @ [o_e, i_e]\<rparr>" and co: "completed_only mid db'"
    define d1 where "d1 = db\<lparr>goal_entries := goal_entries db @ [o_e]\<rparr>"
    have mid: "mid = d1\<lparr>goal_entries := goal_entries d1 @ [i_e]\<rparr>" by (simp add: mid d1_def)
    have f: "fg \<in> set (goals db)" "g_id fg = ge_savingsGoalId o_e" and t: "tg \<in> set (goals d1)" "g_id tg = ge_savingsGoalId i_e"
      using g e by (auto dest: find_row_Some simp: d1_def)
    have kd: "keyed g_id (goals d1)" using kg by (simp add: d1_def)
    have tab: "goals d1 = goals db" "accounts d1 = accounts db" "goals mid = goals db" "accounts mid = accounts db" by (simp_all add: mid d1_def)
    show ?thesis
      using sum_goals_append [OF kg f, of w, folded d1_def] sum_goals_append [OF kd t, of w, folded mid] g(3,4) e(3,4)
      unfolding savings_gap_def completed_only_facts(3,4) [OF co]
        completed_only_facts(7) [OF co, where f = "\<lambda>i. computeCurrentAmount i mid"] tab by simp
  qed
qed

text \<open>
  C9: money enters and leaves goals only with the wallets: a contribution, a withdrawal and a
  transfer between goals each leave the difference between what a workspace's savings wallets
  hold and what its goals have saved exactly as it was, in every workspace.
\<close>

theorem savings_move_with_the_wallets:
  assumes "savings_ok db" and "ids_drawn gen"
    and "(\<exists>dto e. addContribution gen now b goalId dto user db = Inr (db', e)) \<or>
         (\<exists>dto e. withdraw gen now b goalId dto user db = Inr (db', e)) \<or>
         (\<exists>dto. transfer_savings gen b dto db = Inr db')"
  shows "savings_gap w db' = savings_gap w db"
  using assms(3)
  by (elim disjE exE) (erule savings_gap_contribution [OF assms(1,2)] savings_gap_withdraw [OF assms(1,2)] savings_gap_transfer [OF assms(1)])+

section \<open>Withdrawals and transfers\<close>

text \<open>
  A withdrawal pays out once. It empties the goal, moves exactly what was saved from the
  chosen wallet to the expense account, and from then on the goal refuses a second withdrawal
  and every contribution.
\<close>

theorem withdraw_pays_out_once:
  assumes "savings_ok db" and "ids_drawn gen" and "withdraw gen now b goalId dto user db = Inr (db', e)"
  shows "computeCurrentAmount goalId db' = 0 \<and>
     moves_money (\<lambda>a. if acc_id a = wd_expenseAccountId dto then computeCurrentAmount goalId db
       else if acc_id a = wd_savingsAccountId dto then - computeCurrentAmount goalId db else 0) db db' \<and>
     withdraw gen2 now2 b goalId dto2 user2 db' = Inl (BadRequest ''This goal has already been withdrawn.'') \<and>
     (\<exists>err. addContribution gen2 now2 b goalId c_dto user2 db' = Inl err)"
proof -
  have books: "books_ok db" using assms(1) by (simp add: savings_ok_def)
  from assms(3) books assms(2) show ?thesis
  proof (rule withdrawE)
    fix goal wallet ex db1
    assume g: "find_row g_id goalId (goals db) = Some goal" "g_businessId goal = b"
      and ids: "acc_id wallet = wd_savingsAccountId dto" "acc_id ex = wd_expenseAccountId dto"
      and own: "own_tables db1 = own_tables db"
      and mv: "moves_money (\<lambda>a. if acc_id a = acc_id ex then computeCurrentAmount goalId db
         else if acc_id a = acc_id wallet then - computeCurrentAmount goalId db else 0) db db1"
      and e: "ge_savingsGoalId e = goalId" "goal_delta e = - computeCurrentAmount goalId db"
      and db': "db' = db1\<lparr>goal_entries := goal_entries db1 @ [e], goals := map_row g_id goalId (\<lambda>g. g\<lparr>g_status := WITHDRAWN\<rparr>) (goals db1)\<rparr>"
    note o = own_tables_goals [OF own]
    have cur: "computeCurrentAmount goalId db' = computeCurrentAmount goalId (db1\<lparr>goal_entries := goal_entries db1 @ [e]\<rparr>)"
      by (simp add: db' computeCurrentAmount_def)
    have row: "requireGoal b goalId db' = Inr (goal\<lparr>g_status := WITHDRAWN\<rparr>)"
      using g by (simp add: result_simps db' o find_row_map_row)
    have "addContribution gen2 now2 b goalId c_dto user2 db' \<noteq> Inr x" for x
      by (auto simp: addContribution_def rbind_eq_Inr row check_eq_Inr)
    then have "\<exists>err. addContribution gen2 now2 b goalId c_dto user2 db' = Inl err" by (cases "addContribution gen2 now2 b goalId c_dto user2 db'") auto
    moreover have "withdraw gen2 now2 b goalId dto2 user2 db' = Inl (BadRequest ''This goal has already been withdrawn.'')"
      by (simp add: withdraw_def row)
    moreover have "computeCurrentAmount goalId db' = 0" unfolding cur current_amount_append using e by (simp add: o)
    moreover have "moves_money (\<lambda>a. if acc_id a = wd_expenseAccountId dto then computeCurrentAmount goalId db
        else if acc_id a = wd_savingsAccountId dto then - computeCurrentAmount goalId db else 0) db db'"
      using mv unfolding ids moves_money_def by (simp add: db')
    ultimately show ?thesis by blast
  qed
qed

text \<open>
  A transfer between goals moves exactly its amount from the one to the other, leaves every
  other goal as it was, and touches no account, transaction or ledger entry.
\<close>

theorem transfer_savings_moves_between_goals:
  assumes "transfer_savings gen b dto db = Inr db'"
  shows "computeCurrentAmount i db' = computeCurrentAmount i db +
       (if i = st_fromGoalId dto then - st_amount dto else if i = st_toGoalId dto then st_amount dto else 0) \<and>
     accounts db' = accounts db \<and> txns db' = txns db \<and> entries db' = entries db"
  using assms
proof (rule transfer_savingsE)
  fix fg tg o_e i_e mid
  assume ne: "st_fromGoalId dto \<noteq> st_toGoalId dto"
    and e: "ge_savingsGoalId o_e = st_fromGoalId dto" "ge_savingsGoalId i_e = st_toGoalId dto"
      "goal_delta o_e = - st_amount dto" "goal_delta i_e = st_amount dto"
    and mid: "mid = db\<lparr>goal_entries := goal_entries db @ [o_e, i_e]\<rparr>" and co: "completed_only mid db'"
  have "computeCurrentAmount i db' = computeCurrentAmount i db +
      (if i = st_fromGoalId dto then - st_amount dto else if i = st_toGoalId dto then st_amount dto else 0)"
    unfolding completed_only_facts(3) [OF co] using ne e by (auto simp: mid computeCurrentAmount_def)
  moreover have "db' = mid\<lparr>goals := goals db'\<rparr>" using co by (simp add: completed_only_def)
  then have "accounts db' = accounts mid" "txns db' = txns mid" "entries db' = entries mid" by (metis db.select_convs db.update_convs(5) db.surjective)+
  ultimately show ?thesis by (simp add: mid)
qed

text \<open>
  Setting a status never looks at the one the goal has: a goal that was withdrawn can be set
  active, paused or completed again.
\<close>

theorem updateStatus_reopens_withdrawn_goal:
  assumes "find_row g_id goalId (goals db) = Some g" and "g_businessId g = b" and "g_status g = WITHDRAWN" and "status_accepted s"
  shows "\<exists>db'. updateStatus b goalId s db = Inr db' \<and> find_row g_id goalId (goals db') = Some (g\<lparr>g_status := s\<rparr>)"
proof -
  have "g_id g = goalId" "goalId \<in> g_id ` set (goals db)" using assms(1) by (auto dest: find_row_Some)
  then show ?thesis
    using assms(1,2) by (auto simp: updateStatus_def requireGoal_def require_row_def update_row_def find_row_map_row)
qed

section \<open>Sample books with two goals\<close>

definition plain_goal :: "id \<Rightarrow> money \<Rightarrow> goal_status \<Rightarrow> goal" where
  "plain_goal i target st = \<lparr>g_id = i, g_businessId = ''w'', g_name = i, g_targetAmount = target, g_targetDate = 0,
     g_durationMonths = 12, g_reminderDate = None, g_reminderChannel = None, g_description = None, g_status = st, g_createdAt = 0\<rparr>"

definition savings_books :: db where
  "savings_books = empty_db\<lparr>accounts := [plain_account ''cash'' ASSET (Some ''cash'') 1000 1000,
       plain_account ''exp'' account_type.EXPENSE None 0 0, plain_account ''pool'' ASSET (Some ''savings'') 800 800],
     goals := [plain_goal ''trip'' 5000 goal_status.ACTIVE, plain_goal ''bike'' 900 goal_status.ACTIVE],
     goal_entries := [\<lparr>ge_id = ''s1'', ge_savingsGoalId = ''trip'', ge_businessId = ''w'', ge_type = CONTRIBUTION, ge_amount = 800,
       ge_date = 0, ge_moneyAccountId = None, ge_savingsAccountId = None, ge_relatedGoalId = None, ge_transactionId = None,
       ge_notes = None\<rparr>]\<rparr>"

definition sample_contribution :: contribution_dto where
  "sample_contribution = \<lparr>ac_moneyAccountId = ''cash'', ac_toAccountId = ''pool'', ac_amount = 300, ac_date = 0, ac_notes = None\<rparr>"

definition sample_withdrawal :: withdraw_dto where
  "sample_withdrawal = \<lparr>wd_savingsAccountId = ''pool'', wd_expenseAccountId = ''exp'', wd_categoryId = None, wd_date = 0, wd_notes = None\<rparr>"

definition sample_goal_transfer :: savings_transfer_dto where
  "sample_goal_transfer = \<lparr>st_fromGoalId = ''trip'', st_toGoalId = ''bike'', st_amount = 500, st_date = 0, st_notes = None\<rparr>"

lemma savings_books_sound: "savings_ok savings_books"
proof -
  have "books_ok savings_books"
    by (simp add: books_ok_def ledger_core_def reversals_ok_def voids_net_def balance_cached_def fk_entries_def
      same_workspace_def empty_db_def savings_books_def plain_rows true_balance_def account_entries_def dead_entries_def)
  moreover have "goals_ok savings_books"
    by (simp add: goals_ok_def savings_books_def plain_goal_def computeCurrentAmount_def goal_delta_def)
  ultimately show ?thesis by (simp add: savings_ok_def)
qed

lemmas savings_defs = requireGoal_def goal_requireMoneyAccount_def requireSavingsAccount_def requireExpenseAccount_def
  insert_goal_entry_def maybeMarkCompleted_def computeCurrentAmount_def goal_delta_def savings_books_def plain_goal_def
  contribution_request_def contribution_entry_def withdraw_request_def withdrawal_entry_def transfer_entry_def empty_db_def

lemma sample_contribution_ok:
  "\<exists>d e. addContribution (draw CHR ''p'') 9 ''w'' ''trip'' sample_contribution ''u'' savings_books = Inr (d, e)"
  by (simp add: addContribution_def sample_contribution_def savings_defs quick_defs Let_def)

lemma sample_withdrawal_ok:
  "\<exists>d e. withdraw (draw CHR ''p'') 9 ''w'' ''trip'' sample_withdrawal ''u'' savings_books = Inr (d, e)"
  by (simp add: withdraw_def sample_withdrawal_def savings_defs quick_defs Let_def)

lemma sample_goal_transfer_ok:
  "\<exists>d. transfer_savings (draw CHR ''p'') ''w'' sample_goal_transfer savings_books = Inr d"
  by (simp add: transfer_savings_def sample_goal_transfer_def savings_defs quick_defs Let_def)

lemma savings_never_overdrawn_witness:
  "\<exists>d. savings_step\<^sup>*\<^sup>* savings_books d \<and> 0 \<le> computeCurrentAmount ''trip'' d"
proof -
  obtain d e where "addContribution (draw CHR ''p'') 9 ''w'' ''trip'' sample_contribution ''u'' savings_books = Inr (d, e)"
    using sample_contribution_ok by blast
  then have "savings_step savings_books d" by (rule savings_step.contributed) simp
  then have "savings_step\<^sup>*\<^sup>* savings_books d" by (rule r_into_rtranclp)
  with savings_never_overdrawn [OF this savings_books_sound] show ?thesis by blast
qed

lemma savings_move_with_the_wallets_witness:
  "\<exists>d. transfer_savings (draw CHR ''p'') ''w'' sample_goal_transfer savings_books = Inr d \<and> savings_gap ''w'' d = savings_gap ''w'' savings_books"
proof -
  obtain d where d: "transfer_savings (draw CHR ''p'') ''w'' sample_goal_transfer savings_books = Inr d"
    using sample_goal_transfer_ok by blast
  with savings_move_with_the_wallets [OF savings_books_sound ids_drawn_draw, where w = "''w''" and b = "''w''" and db' = d] show ?thesis by blast
qed

lemma withdraw_pays_out_once_witness:
  "\<exists>d e. withdraw (draw CHR ''p'') 9 ''w'' ''trip'' sample_withdrawal ''u'' savings_books = Inr (d, e) \<and> computeCurrentAmount ''trip'' d = 0"
proof -
  obtain d e where d: "withdraw (draw CHR ''p'') 9 ''w'' ''trip'' sample_withdrawal ''u'' savings_books = Inr (d, e)"
    using sample_withdrawal_ok by blast
  with withdraw_pays_out_once [OF savings_books_sound ids_drawn_draw d] show ?thesis by blast
qed

lemma transfer_savings_moves_between_goals_witness:
  "\<exists>d. transfer_savings (draw CHR ''p'') ''w'' sample_goal_transfer savings_books = Inr d \<and> computeCurrentAmount ''bike'' d = 500"
proof -
  obtain d where d: "transfer_savings (draw CHR ''p'') ''w'' sample_goal_transfer savings_books = Inr d"
    using sample_goal_transfer_ok by blast
  have "computeCurrentAmount ''bike'' savings_books = 0" by (simp add: savings_defs)
  with transfer_savings_moves_between_goals [OF d, of "''bike''"] d show ?thesis by (simp add: sample_goal_transfer_def)
qed

lemma updateStatus_reopens_withdrawn_goal_witness:
  "\<exists>d g. updateStatus ''w'' ''trip'' goal_status.ACTIVE (savings_books\<lparr>goals := [plain_goal ''trip'' 5000 WITHDRAWN]\<rparr>) = Inr d \<and>
     find_row g_id ''trip'' (goals d) = Some g \<and> g_status g = goal_status.ACTIVE"
  using updateStatus_reopens_withdrawn_goal [of "''trip''" "savings_books\<lparr>goals := [plain_goal ''trip'' 5000 WITHDRAWN]\<rparr>"
      "plain_goal ''trip'' 5000 WITHDRAWN" "''w''" goal_status.ACTIVE]
  by (auto simp: plain_goal_def status_accepted_def)

end
