(* ===== verification/Receivables.thy ===== *)
theory Receivables
  imports Quick_Entries
begin

text \<open>
  Receivables and payables (src/receivables-payables/receivables-payables.service.ts): credit
  sales and purchases, loans given and taken, the payments that settle them, and the views over
  what is still owed. Nothing of it is stored beyond the transactions: what a contact owes is
  computed from them on every read, payments without a target settling the oldest debt first.
  A payment is checked and posted under the contact's lock, one step here.
\<close>

section \<open>Requests and answers\<close>

datatype direction = RECEIVABLE | PAYABLE

record create_receivable_dto =
  rd_contactId :: id
  rd_amount :: money
  rd_date :: instant
  rd_dueDate :: "instant option"
  rd_description :: "string option"
  rd_referenceNo :: "string option"
  rd_incomeAccountId :: "id option"
  rd_moneyAccountId :: "id option"

record create_payable_dto =
  pd_contactId :: id
  pd_amount :: money
  pd_date :: instant
  pd_dueDate :: "instant option"
  pd_description :: "string option"
  pd_referenceNo :: "string option"
  pd_expenseAccountId :: "id option"
  pd_moneyAccountId :: "id option"

record receive_payment_dto =
  rp_contactId :: id
  rp_amount :: money
  rp_date :: instant
  rp_moneyAccountId :: id
  rp_description :: "string option"
  rp_appliedTo :: "id option"

record pay_payment_dto =
  pp_contactId :: id
  pp_amount :: money
  pp_date :: instant
  pp_moneyAccountId :: id
  pp_description :: "string option"
  pp_appliedTo :: "id option"

record invoice_breakdown =
  ib_transactionId :: id
  ib_date :: instant
  ib_description :: "string option"
  ib_originalAmount :: money
  ib_amountPaid :: money
  ib_remainingAmount :: money
  ib_dueDate :: "instant option"
  ib_isOverdue :: bool

record direction_breakdown =
  bd_totalInvoiced :: money
  bd_totalPaid :: money
  bd_remaining :: money
  bd_openingOwed :: money
  bd_openingRemaining :: money
  bd_balance :: money
  bd_transactions :: "invoice_breakdown list"

section \<open>Looking things up\<close>

definition rp_requireContact :: "id \<Rightarrow> id \<Rightarrow> db \<Rightarrow> contact result" where
  "rp_requireContact b c db = require_row ct_id ct_businessId (NotFound ''Contact not found'') b c (contacts db)"

definition findSystemAccount :: "id \<Rightarrow> string \<Rightarrow> account_type \<Rightarrow> db \<Rightarrow> account option" where
  "findSystemAccount b subtype ty db =
     find_first (\<lambda>a. acc_businessId a = b \<and> acc_accountSubtype a = Some subtype \<and> acc_accountType a = ty \<and> acc_isSystemAccount a)
       acc_createdAt (accounts db)"

definition requireSystemAccount :: "id \<Rightarrow> string \<Rightarrow> account_type \<Rightarrow> string \<Rightarrow> db \<Rightarrow> account result" where
  "requireSystemAccount b subtype ty label db =
     (case findSystemAccount b subtype ty db of
        None \<Rightarrow> Inl (BadRequest (''No '' @ label @ '' account exists in this workspace -- it should have been auto-created; contact support''))
      | Some account \<Rightarrow> Inr account)"

definition rp_requireMoneyAccount :: "id \<Rightarrow> id \<Rightarrow> db \<Rightarrow> account result" where
  "rp_requireMoneyAccount b i db =
     rbind (require_row acc_id acc_businessId (BadRequest ''moneyAccountId: account not found in this workspace'') b i (accounts db)) (\<lambda>account.
     rbind (check (acc_accountType account = ASSET \<and> subtype_in MONEY_ACCOUNT_SUBTYPES (acc_accountSubtype account))
       (BadRequest ''moneyAccountId must be a cash/bank/mobile-money account'')) (\<lambda>_.
     Inr account))"

definition requireMoneyAccountForLoan :: "id \<Rightarrow> id option \<Rightarrow> db \<Rightarrow> account result" where
  "requireMoneyAccountForLoan b i db =
     rbind (check (truthy i) (BadRequest
       ''moneyAccountId is required for a loan (real cash moves through an account, unlike a business credit sale/purchase)'')) (\<lambda>_.
     rp_requireMoneyAccount b (the i) db)"

definition rp_requireAccountOfType :: "id \<Rightarrow> id \<Rightarrow> account_type \<Rightarrow> string \<Rightarrow> db \<Rightarrow> account result" where
  "rp_requireAccountOfType b i ty field db =
     rbind (require_row acc_id acc_businessId (BadRequest (field @ '': account not found in this workspace'')) b i (accounts db)) (\<lambda>account.
     rbind (check (acc_accountType account = ty)
       (BadRequest (field @ '' must be a '' @ account_type_text ty @ '' account''))) (\<lambda>_.
     Inr account))"

definition rp_default_account :: "account_type \<Rightarrow> string \<Rightarrow> id \<Rightarrow> db \<Rightarrow> id result" where
  "rp_default_account ty message b db =
     (case find_first (\<lambda>a. acc_businessId a = b \<and> acc_accountType a = ty \<and> acc_status a = record_status.ACTIVE)
             (\<lambda>a. (acc_displayOrder a, acc_createdAt a)) (accounts db) of
        None \<Rightarrow> Inl (BadRequest message)
      | Some account \<Rightarrow> Inr (acc_id account))"

definition rp_getDefaultIncomeAccountId :: "id \<Rightarrow> db \<Rightarrow> id result" where
  "rp_getDefaultIncomeAccountId = rp_default_account account_type.INCOME
     ''No income account exists in this workspace -- specify incomeAccountId or create one first''"

definition rp_getDefaultExpenseAccountId :: "id \<Rightarrow> db \<Rightarrow> id result" where
  "rp_getDefaultExpenseAccountId = rp_default_account account_type.EXPENSE
     ''No expense account exists in this workspace -- specify expenseAccountId or create one first''"

section \<open>What a contact owes\<close>

definition invoice_type :: "direction \<Rightarrow> transaction_type" where
  "invoice_type d = (if d = RECEIVABLE then SALE else PURCHASE)"

definition side_account :: "id \<Rightarrow> direction \<Rightarrow> db \<Rightarrow> account option" where
  "side_account b d db =
     findSystemAccount b (if d = RECEIVABLE then ''receivable'' else ''payable'') (if d = RECEIVABLE then ASSET else LIABILITY) db"

definition opening_owed :: "direction \<Rightarrow> money \<Rightarrow> money" where
  "opening_owed d opening = max 0 (if d = RECEIVABLE then opening else - opening)"

definition contact_txns :: "id \<Rightarrow> id \<Rightarrow> transaction_type \<Rightarrow> db \<Rightarrow> txn list" where
  "contact_txns b c ty db =
     filter (\<lambda>t. tx_businessId t = b \<and> tx_contactId t = Some c \<and> tx_type t = ty \<and> live_txn t) (txns db)"

definition invoices_of :: "id \<Rightarrow> id \<Rightarrow> direction \<Rightarrow> db \<Rightarrow> txn list" where
  "invoices_of b c d db = sort_key (\<lambda>t. (tx_date t, tx_createdAt t)) (contact_txns b c (invoice_type d) db)"

text \<open>The amount of the first entry a transaction has on the account, 0 where it has none.\<close>

definition entry_amount :: "db \<Rightarrow> id \<Rightarrow> txn \<Rightarrow> money" where
  "entry_amount db a t = (case find (\<lambda>e. en_accountId e = a) (entries_of db (tx_id t)) of None \<Rightarrow> 0 | Some e \<Rightarrow> en_amount e)"

definition relevant_payments :: "id \<Rightarrow> id \<Rightarrow> id \<Rightarrow> db \<Rightarrow> txn list" where
  "relevant_payments b c a db =
     filter (\<lambda>p. \<exists>e \<in> set (entries_of db (tx_id p)). en_accountId e = a) (contact_txns b c PAYMENT db)"

text \<open>
  One payment: to the invoice it names, if that is one of the contact's, otherwise to the pool.
  \<open>paid\<close> is the map of amounts by invoice id.
\<close>

definition apply_payment :: "db \<Rightarrow> id \<Rightarrow> (id \<rightharpoonup> money) \<times> money \<Rightarrow> txn \<Rightarrow> (id \<rightharpoonup> money) \<times> money" where
  "apply_payment db a = (\<lambda>(paid, pool) p.
     case (if truthy (tx_appliedToTransactionId p) then paid (the (tx_appliedToTransactionId p)) else None) of
       Some m \<Rightarrow> (paid(the (tx_appliedToTransactionId p) \<mapsto> m + entry_amount db a p), pool)
     | None \<Rightarrow> (paid, pool + entry_amount db a p))"

text \<open>The pool settles the invoices in their order, each up to what is left of it.\<close>

fun allocate :: "(txn \<Rightarrow> money) \<Rightarrow> txn list \<Rightarrow> (id \<rightharpoonup> money) \<Rightarrow> money \<Rightarrow> (id \<rightharpoonup> money) \<times> money" where
  "allocate original [] paid pool = (paid, pool)"
| "allocate original (t # ts) paid pool =
     (if pool \<le> 0 then (paid, pool)
      else
        let remaining = original t - the (paid (tx_id t)) in
        if remaining \<le> 0 then allocate original ts paid pool
        else
          let taken = min remaining pool in
          allocate original ts (paid(tx_id t \<mapsto> the (paid (tx_id t)) + taken)) (pool - taken))"

definition invoice_row :: "instant \<Rightarrow> (txn \<Rightarrow> money) \<Rightarrow> (id \<rightharpoonup> money) \<Rightarrow> txn \<Rightarrow> invoice_breakdown" where
  "invoice_row today original paid t =
     (let amountPaid = the (paid (tx_id t));
          remaining = max 0 (original t - amountPaid) in
      \<lparr>ib_transactionId = tx_id t, ib_date = tx_date t, ib_description = tx_description t,
       ib_originalAmount = original t, ib_amountPaid = amountPaid, ib_remainingAmount = remaining,
       ib_dueDate = tx_dueDate t,
       ib_isOverdue = (case tx_dueDate t of None \<Rightarrow> False | Some due \<Rightarrow> due < today \<and> 0 < remaining)\<rparr>)"

definition no_invoices_paid :: "txn list \<Rightarrow> id \<rightharpoonup> money" where
  "no_invoices_paid invs = map_of (map (\<lambda>t. (tx_id t, 0)) invs)"

definition computeDirection :: "instant \<Rightarrow> id \<Rightarrow> contact \<Rightarrow> direction \<Rightarrow> db \<Rightarrow> direction_breakdown" where
  "computeDirection now b c d db =
     (let openingOwed = opening_owed d (ct_openingBalance c) in
      case side_account b d db of
        None \<Rightarrow> \<lparr>bd_totalInvoiced = 0, bd_totalPaid = 0, bd_remaining = 0, bd_openingOwed = openingOwed,
                 bd_openingRemaining = openingOwed, bd_balance = 0, bd_transactions = []\<rparr>
      | Some account \<Rightarrow>
          let invoices = invoices_of b (ct_id c) d db;
              relevantPayments = relevant_payments b (ct_id c) (acc_id account) db;
              original = entry_amount db (acc_id account);
              (amountPaid, generalPool) = foldl (apply_payment db (acc_id account)) (no_invoices_paid invoices, 0) relevantPayments;
              openingPaid = min generalPool openingOwed;
              (amountPaid, _) = allocate original invoices amountPaid (generalPool - openingPaid);
              transactions = map (invoice_row (dhakaDateOnly now) original amountPaid) invoices;
              totalInvoiced = sum_by ib_originalAmount transactions;
              totalPaid = sum_by original relevantPayments
          in \<lparr>bd_totalInvoiced = totalInvoiced, bd_totalPaid = totalPaid,
              bd_remaining = totalInvoiced - (totalPaid - openingPaid), bd_openingOwed = openingOwed,
              bd_openingRemaining = openingOwed - openingPaid, bd_balance = totalInvoiced - totalPaid,
              bd_transactions = transactions\<rparr>)"

definition getContactCurrentBalance :: "instant \<Rightarrow> id \<Rightarrow> contact \<Rightarrow> db \<Rightarrow> money" where
  "getContactCurrentBalance now b c db =
     ct_openingBalance c + bd_balance (computeDirection now b c RECEIVABLE db) - bd_balance (computeDirection now b c PAYABLE db)"

record contact_balance =
  cb_contactId :: id
  cb_openingBalance :: money
  cb_currentBalance :: money
  cb_receivable :: direction_breakdown
  cb_payable :: direction_breakdown

definition getContactBalanceDetail :: "instant \<Rightarrow> id \<Rightarrow> id \<Rightarrow> db \<Rightarrow> contact_balance result" where
  "getContactBalanceDetail now b i db =
     rbind (rp_requireContact b i db) (\<lambda>c.
     let receivable = computeDirection now b c RECEIVABLE db;
         payable = computeDirection now b c PAYABLE db in
     Inr \<lparr>cb_contactId = i, cb_openingBalance = ct_openingBalance c,
       cb_currentBalance = ct_openingBalance c + bd_balance receivable - bd_balance payable,
       cb_receivable = receivable, cb_payable = payable\<rparr>)"

section \<open>Sales, purchases and payments\<close>

definition contact_request ::
  "transaction_type \<Rightarrow> instant \<Rightarrow> instant option \<Rightarrow> string option \<Rightarrow> string option \<Rightarrow> id \<Rightarrow> id option \<Rightarrow> entry_dto list \<Rightarrow> create_txn_dto" where
  "contact_request ty date due description reference c applied es =
     \<lparr>td_type = ty, td_date = date, td_description = description, td_referenceNo = reference, td_contactId = Some c,
      td_dueDate = due, td_appliedTo = applied, td_entries = es, td_idempotencyKey = None\<rparr>"

definition recordSale :: "id_source \<Rightarrow> instant \<Rightarrow> id \<Rightarrow> create_receivable_dto \<Rightarrow> id \<Rightarrow> db \<Rightarrow> (db \<times> posting) result" where
  "recordSale gen now b dto user db =
     rbind (rp_requireContact b (rd_contactId dto) db) (\<lambda>contact.
     rbind (check (ct_type contact = CUSTOMER \<or> ct_type contact = BOTH)
       (BadRequest ''This contact must be a Customer (or Customer & Supplier) to record a credit sale'')) (\<lambda>_.
     rbind (requireSystemAccount b ''receivable'' ASSET ''Accounts Receivable'' db) (\<lambda>arAccount.
     rbind (if ct_category contact = LOAN then requireMoneyAccountForLoan b (rd_moneyAccountId dto) db
            else rbind (case rd_incomeAccountId dto of Some i \<Rightarrow> Inr i | None \<Rightarrow> rp_getDefaultIncomeAccountId b db) (\<lambda>i.
              rp_requireAccountOfType b i account_type.INCOME ''incomeAccountId'' db)) (\<lambda>other.
     createTransaction db gen gen now b
       (contact_request SALE (rd_date dto) (rd_dueDate dto) (rd_description dto) (rd_referenceNo dto) (ct_id contact) None
         [entry_for (acc_id arAccount) DEBIT (rd_amount dto), entry_for (acc_id other) CREDIT (rd_amount dto)])
       user db))))"

definition recordPurchase :: "id_source \<Rightarrow> instant \<Rightarrow> id \<Rightarrow> create_payable_dto \<Rightarrow> id \<Rightarrow> db \<Rightarrow> (db \<times> posting) result" where
  "recordPurchase gen now b dto user db =
     rbind (rp_requireContact b (pd_contactId dto) db) (\<lambda>contact.
     rbind (check (ct_type contact = SUPPLIER \<or> ct_type contact = BOTH)
       (BadRequest ''This contact must be a Supplier (or Customer & Supplier) to record a credit purchase'')) (\<lambda>_.
     rbind (requireSystemAccount b ''payable'' LIABILITY ''Accounts Payable'' db) (\<lambda>apAccount.
     rbind (if ct_category contact = LOAN then requireMoneyAccountForLoan b (pd_moneyAccountId dto) db
            else rbind (case pd_expenseAccountId dto of Some i \<Rightarrow> Inr i | None \<Rightarrow> rp_getDefaultExpenseAccountId b db) (\<lambda>i.
              rp_requireAccountOfType b i account_type.EXPENSE ''expenseAccountId'' db)) (\<lambda>debited.
     createTransaction db gen gen now b
       (contact_request PURCHASE (pd_date dto) (pd_dueDate dto) (pd_description dto) (pd_referenceNo dto) (ct_id contact) None
         [entry_for (acc_id debited) DEBIT (pd_amount dto), entry_for (acc_id apAccount) CREDIT (pd_amount dto)])
       user db))))"

definition validatePaymentAmount :: "instant \<Rightarrow> id \<Rightarrow> contact \<Rightarrow> direction \<Rightarrow> money \<Rightarrow> id option \<Rightarrow> db \<Rightarrow> unit result" where
  "validatePaymentAmount now b contact d amt applied db =
     (let breakdown = computeDirection now b contact d db;
          outstanding = bd_remaining breakdown + bd_openingRemaining breakdown in
      if truthy applied then
        (case find (\<lambda>t. ib_transactionId t = the applied) (bd_transactions breakdown) of
           None \<Rightarrow> Inl (BadRequest ''appliedToTransactionId does not reference an outstanding transaction for this contact'')
         | Some target \<Rightarrow>
             check (amt \<le> ib_remainingAmount target)
               (BadRequest (''Payment amount ('' @ to_fixed2 amt @ '') exceeds the remaining balance ('' @
                 to_fixed2 (ib_remainingAmount target) @ '') of this transaction'')))
      else check (amt \<le> outstanding)
        (BadRequest (''Payment amount ('' @ to_fixed2 amt @ '') exceeds the total outstanding balance ('' @
          to_fixed2 outstanding @ '')'')))"

definition receivePayment :: "id_source \<Rightarrow> instant \<Rightarrow> id \<Rightarrow> receive_payment_dto \<Rightarrow> id \<Rightarrow> db \<Rightarrow> (db \<times> posting) result" where
  "receivePayment gen now b dto user db =
     rbind (rp_requireContact b (rp_contactId dto) db) (\<lambda>contact.
     rbind (requireSystemAccount b ''receivable'' ASSET ''Accounts Receivable'' db) (\<lambda>arAccount.
     rbind (rp_requireMoneyAccount b (rp_moneyAccountId dto) db) (\<lambda>moneyAccount.
     rbind (validatePaymentAmount now b contact RECEIVABLE (rp_amount dto) (rp_appliedTo dto) db) (\<lambda>_.
     post gen now b
       (contact_request PAYMENT (rp_date dto) None (rp_description dto) None (ct_id contact) (rp_appliedTo dto)
         [entry_for (acc_id moneyAccount) DEBIT (rp_amount dto), entry_for (acc_id arAccount) CREDIT (rp_amount dto)])
       user db))))"

definition payPayment :: "id_source \<Rightarrow> instant \<Rightarrow> id \<Rightarrow> pay_payment_dto \<Rightarrow> id \<Rightarrow> db \<Rightarrow> (db \<times> posting) result" where
  "payPayment gen now b dto user db =
     rbind (rp_requireContact b (pp_contactId dto) db) (\<lambda>contact.
     rbind (requireSystemAccount b ''payable'' LIABILITY ''Accounts Payable'' db) (\<lambda>apAccount.
     rbind (rp_requireMoneyAccount b (pp_moneyAccountId dto) db) (\<lambda>moneyAccount.
     rbind (validatePaymentAmount now b contact PAYABLE (pp_amount dto) (pp_appliedTo dto) db) (\<lambda>_.
     post gen now b
       (contact_request PAYMENT (pp_date dto) None (pp_description dto) None (ct_id contact) (pp_appliedTo dto)
         [entry_for (acc_id apAccount) DEBIT (pp_amount dto), entry_for (acc_id moneyAccount) CREDIT (pp_amount dto)])
       user db))))"

section \<open>The views over all contacts\<close>

text \<open>\<open>collate\<close> is the place of a name in the database's order of names.\<close>

definition contact_type_of :: "direction \<Rightarrow> contact_type" where
  "contact_type_of d = (if d = RECEIVABLE then CUSTOMER else SUPPLIER)"

definition direction_contacts :: "id \<Rightarrow> direction \<Rightarrow> db \<Rightarrow> contact list" where
  "direction_contacts b d db = filter (\<lambda>c. ct_businessId c = b \<and> (ct_type c = contact_type_of d \<or> ct_type c = BOTH)) (contacts db)"

datatype aging_bucket = Current | Days1to30 | Days31to60 | Over60

definition days_between :: "instant \<Rightarrow> instant \<Rightarrow> int" where
  "days_between earlier later = (later - earlier) div day_ms"

definition bucketFor :: "instant option \<Rightarrow> instant \<Rightarrow> aging_bucket" where
  "bucketFor dueDate today =
     (case dueDate of None \<Rightarrow> Current
      | Some due \<Rightarrow>
          if today \<le> due then Current
          else
            let daysOverdue = days_between due today in
            if daysOverdue \<le> 30 then Days1to30 else if daysOverdue \<le> 60 then Days31to60 else Over60)"

record aging_row =
  ar_contactId :: id
  ar_contactName :: string
  ar_bucket :: "aging_bucket \<Rightarrow> money"
  ar_total :: money
  ar_totalInvoiced :: money
  ar_totalPaid :: money

record aging_report =
  ag_buckets :: "aging_bucket \<Rightarrow> money"
  ag_contacts :: "aging_row list"

text \<open>The inner loop of \<open>getAging\<close>, over the invoices of one contact.\<close>

definition add_to_bucket :: "instant \<Rightarrow> invoice_breakdown \<Rightarrow> (aging_bucket \<Rightarrow> money) \<Rightarrow> aging_bucket \<Rightarrow> money" where
  "add_to_bucket today t buckets =
     (if ib_remainingAmount t \<le> 0 then buckets
      else buckets(bucketFor (ib_dueDate t) today := buckets (bucketFor (ib_dueDate t) today) + ib_remainingAmount t))"

definition age_contact :: "instant \<Rightarrow> id \<Rightarrow> direction \<Rightarrow> db \<Rightarrow> contact \<Rightarrow> aging_report \<Rightarrow> aging_report" where
  "age_contact now b d db c report =
     (let today = dhakaDateOnly now;
          breakdown = computeDirection now b c d db in
      if bd_remaining breakdown \<le> 0 then report
      else report\<lparr>
        ag_buckets := fold (add_to_bucket today) (bd_transactions breakdown) (ag_buckets report),
        ag_contacts := ag_contacts report @
          [\<lparr>ar_contactId = ct_id c, ar_contactName = ct_name c,
            ar_bucket = fold (add_to_bucket today) (bd_transactions breakdown) (\<lambda>_. 0),
            ar_total = bd_remaining breakdown, ar_totalInvoiced = bd_totalInvoiced breakdown,
            ar_totalPaid = bd_totalPaid breakdown\<rparr>]\<rparr>)"

definition getAging :: "(string \<Rightarrow> int) \<Rightarrow> instant \<Rightarrow> id \<Rightarrow> direction \<Rightarrow> db \<Rightarrow> aging_report" where
  "getAging collate now b d db =
     fold (age_contact now b d db) (sort_key (\<lambda>c. collate (ct_name c)) (direction_contacts b d db))
       \<lparr>ag_buckets = \<lambda>_. 0, ag_contacts = []\<rparr>"

record overdue_row =
  ov_contactId :: id
  ov_contactName :: string
  ov_transactionId :: id
  ov_description :: "string option"
  ov_originalAmount :: money
  ov_remainingAmount :: money
  ov_dueDate :: instant
  ov_daysOverdue :: int

definition overdue_rows :: "instant \<Rightarrow> contact \<Rightarrow> invoice_breakdown list \<Rightarrow> overdue_row list" where
  "overdue_rows today c ts =
     concat (map (\<lambda>t. case ib_dueDate t of None \<Rightarrow> []
        | Some due \<Rightarrow> if \<not> ib_isOverdue t then []
            else [\<lparr>ov_contactId = ct_id c, ov_contactName = ct_name c, ov_transactionId = ib_transactionId t,
              ov_description = ib_description t, ov_originalAmount = ib_originalAmount t,
              ov_remainingAmount = ib_remainingAmount t, ov_dueDate = due, ov_daysOverdue = days_between due today\<rparr>]) ts)"

definition getOverdue :: "instant \<Rightarrow> id \<Rightarrow> direction \<Rightarrow> db \<Rightarrow> overdue_row list" where
  "getOverdue now b d db =
     sort_key (\<lambda>r. - ov_daysOverdue r)
       (concat (map (\<lambda>c. overdue_rows (dhakaDateOnly now) c (bd_transactions (computeDirection now b c d db)))
         (direction_contacts b d db)))"

record due_soon_row =
  du_contactId :: id
  du_contactName :: string
  du_transactionId :: id
  du_description :: "string option"
  du_remainingAmount :: money
  du_dueDate :: instant
  du_daysUntilDue :: int

text \<open>\<open>Math.round\<close> of a difference in days: halves up.\<close>

definition round_days :: "int \<Rightarrow> int" where
  "round_days ms = (2 * ms + day_ms) div (2 * day_ms)"

definition due_soon_rows :: "instant \<Rightarrow> int \<Rightarrow> contact \<Rightarrow> invoice_breakdown list \<Rightarrow> due_soon_row list" where
  "due_soon_rows today days c ts =
     concat (map (\<lambda>t. case ib_dueDate t of None \<Rightarrow> []
        | Some due \<Rightarrow> if ib_isOverdue t \<or> today + days * day_ms < due then []
            else if ib_remainingAmount t \<le> 0 then []
            else [\<lparr>du_contactId = ct_id c, du_contactName = ct_name c, du_transactionId = ib_transactionId t,
              du_description = ib_description t, du_remainingAmount = ib_remainingAmount t, du_dueDate = due,
              du_daysUntilDue = round_days (due - today)\<rparr>]) ts)"

definition getDueSoon :: "instant \<Rightarrow> id \<Rightarrow> direction \<Rightarrow> int option \<Rightarrow> db \<Rightarrow> due_soon_row list" where
  "getDueSoon now b d days db =
     sort_key (\<lambda>r. (du_daysUntilDue r, du_dueDate r))
       (concat (map (\<lambda>c. due_soon_rows (dhakaDateOnly now) (orelse days 7) c (bd_transactions (computeDirection now b c d db)))
         (direction_contacts b d db)))"

section \<open>Loans\<close>

datatype loan_direction = DENA | PAWNA | SETTLED

record loan_row =
  lr_contactId :: id
  lr_contactName :: string
  lr_contactPhone :: "string option"
  lr_openingBalance :: money
  lr_totalReceive :: money
  lr_totalPayment :: money
  lr_currentBalance :: money
  lr_direction :: loan_direction

record loan_dashboard =
  ld_totalDena :: money
  ld_totalPawna :: money
  ld_totalPaid :: money
  ld_totalReceived :: money
  ld_netBalance :: money
  ld_activeAccounts :: nat
  ld_rows :: "loan_row list"

definition loan_row_of :: "instant \<Rightarrow> id \<Rightarrow> db \<Rightarrow> contact \<Rightarrow> loan_row option" where
  "loan_row_of now b db c =
     (let receivable = computeDirection now b c RECEIVABLE db;
          payable = computeDirection now b c PAYABLE db;
          opening = ct_openingBalance c;
          currentBalance = opening + bd_balance receivable - bd_balance payable;
          totalPayment = bd_totalInvoiced receivable + bd_totalPaid payable;
          totalReceive = bd_totalInvoiced payable + bd_totalPaid receivable
      in if opening = 0 \<and> totalPayment = 0 \<and> totalReceive = 0 then None
         else Some \<lparr>lr_contactId = ct_id c, lr_contactName = ct_name c, lr_contactPhone = ct_phone c,
           lr_openingBalance = opening, lr_totalReceive = totalReceive, lr_totalPayment = totalPayment,
           lr_currentBalance = currentBalance,
           lr_direction = (if 0 < currentBalance then PAWNA else if currentBalance < 0 then DENA else SETTLED)\<rparr>)"

definition getLoanDashboard :: "(string \<Rightarrow> int) \<Rightarrow> instant \<Rightarrow> id \<Rightarrow> db \<Rightarrow> loan_dashboard" where
  "getLoanDashboard collate now b db =
     (let rows = List.map_filter (loan_row_of now b db)
            (find_many (\<lambda>c. ct_businessId c = b) (\<lambda>c. collate (ct_name c)) (contacts db));
          totalPawna = sum_by lr_currentBalance (filter (\<lambda>r. 0 < lr_currentBalance r) rows);
          totalDena = sum_by (\<lambda>r. \<bar>lr_currentBalance r\<bar>) (filter (\<lambda>r. lr_currentBalance r < 0) rows)
      in \<lparr>ld_totalDena = totalDena, ld_totalPawna = totalPawna, ld_totalPaid = sum_by lr_totalPayment rows,
          ld_totalReceived = sum_by lr_totalReceive rows, ld_netBalance = totalPawna - totalDena,
          ld_activeAccounts = length rows, ld_rows = rows\<rparr>)"

record statement_row =
  sr_transactionId :: id
  sr_date :: instant
  sr_referenceNo :: "string option"
  sr_description :: "string option"
  sr_category :: string
  sr_debit :: "money option"
  sr_credit :: "money option"
  sr_runningPrincipal :: money
  sr_status :: transaction_status

record loan_statement =
  ls_contactId :: id
  ls_contactName :: string
  ls_openingBalance :: money
  ls_balanceBroughtForward :: money
  ls_rows :: "statement_row list"
  ls_closingBalance :: money

definition principal_delta :: "entry \<Rightarrow> money" where
  "principal_delta e = (if en_type e = DEBIT then en_amount e else - en_amount e)"

definition statement_row_of :: "db \<Rightarrow> money \<Rightarrow> entry \<Rightarrow> statement_row" where
  "statement_row_of db running e =
     (let t = the (txn_of db e) in
      \<lparr>sr_transactionId = en_transactionId e, sr_date = tx_date t, sr_referenceNo = tx_referenceNo t,
       sr_description = tx_description t, sr_category = ''Principal'',
       sr_debit = (if en_type e = DEBIT then Some (en_amount e) else None),
       sr_credit = (if en_type e = CREDIT then Some (en_amount e) else None),
       sr_runningPrincipal = running, sr_status = tx_status t\<rparr>)"

fun statement_rows :: "db \<Rightarrow> money \<Rightarrow> entry list \<Rightarrow> statement_row list" where
  "statement_rows db running [] = []"
| "statement_rows db running (e # es) =
     statement_row_of db (running + principal_delta e) e # statement_rows db (running + principal_delta e) es"

definition getLoanStatement :: "id \<Rightarrow> id \<Rightarrow> instant option \<Rightarrow> instant option \<Rightarrow> db \<Rightarrow> loan_statement result" where
  "getLoanStatement b c dateFrom dateTo db =
     rbind (rp_requireContact b c db) (\<lambda>contact.
     let accountIds = map acc_id (List.map_filter (\<lambda>a. a) [findSystemAccount b ''receivable'' ASSET db, findSystemAccount b ''payable'' LIABILITY db]);
         mine = (\<lambda>P e. en_accountId e \<in> set accountIds \<and> on_txn db (\<lambda>t. tx_contactId t = Some c \<and> P (tx_date t)) e);
         broughtForward = (case dateFrom of None \<Rightarrow> ct_openingBalance contact
           | Some d \<Rightarrow> foldl (\<lambda>m e. m + principal_delta e) (ct_openingBalance contact) (filter (mine (\<lambda>x. x < d)) (entries db)));
         found = find_many (mine (\<lambda>x. (case dateFrom of None \<Rightarrow> True | Some d \<Rightarrow> d \<le> x) \<and> (case dateTo of None \<Rightarrow> True | Some d \<Rightarrow> x \<le> d)))
           (\<lambda>e. (tx_date (the (txn_of db e)), tx_createdAt (the (txn_of db e)))) (entries db);
         rows = statement_rows db broughtForward found in
     Inr \<lparr>ls_contactId = c, ls_contactName = ct_name contact, ls_openingBalance = ct_openingBalance contact,
       ls_balanceBroughtForward = broughtForward, ls_rows = rows,
       ls_closingBalance = (if rows \<noteq> [] then sr_runningPrincipal (last rows) else broughtForward)\<rparr>)"

end
