(* ===== verification/Receivables_Facts.thy ===== *)
theory Receivables_Facts
  imports Receivables "HOL-Library.Multiset"
begin

text \<open>
  What the receivables promise: every payment is counted once, general payments settle the
  opening balance and then the oldest invoices, a payment lowers what is owed by its amount and
  never below zero, and the reports add up.
\<close>

section \<open>Applying payments\<close>

definition paid_sum :: "txn list \<Rightarrow> (id \<rightharpoonup> money) \<Rightarrow> money" where
  "paid_sum invs paid = sum_by (\<lambda>t. the (paid (tx_id t))) invs"

lemma paid_sum_upd:
  assumes "distinct (map tx_id invs)" and "i \<in> tx_id ` set invs"
  shows "paid_sum invs (paid(i \<mapsto> the (paid i) + m)) = paid_sum invs paid + m"
proof -
  from assms(2) obtain t where t: "t \<in> set invs" "tx_id t = i" by auto
  have "paid_sum invs (paid(i \<mapsto> the (paid i) + m)) = sum_by (\<lambda>x. the (paid (tx_id x)) + (if tx_id x = tx_id t then m else 0)) invs"
    unfolding paid_sum_def using t(2) by (intro sum_by_cong) auto
  also have "\<dots> = paid_sum invs paid + m"
    using sum_by_delta [OF assms(1) t(1), of "\<lambda>_. m"] by (simp add: sum_by_plus paid_sum_def)
  finally show ?thesis .
qed

definition applied_sum :: "db \<Rightarrow> id \<Rightarrow> txn list \<Rightarrow> id \<Rightarrow> money" where
  "applied_sum db a ps i = sum_by (entry_amount db a) (filter (\<lambda>p. tx_appliedToTransactionId p = Some i) ps)"

lemma apply_payment_cases:
  assumes "[] \<notin> dom paid"
  obtains (direct) i where "tx_appliedToTransactionId p = Some i" "i \<in> dom paid"
      "apply_payment db a (paid, pool) p = (paid(i \<mapsto> the (paid i) + entry_amount db a p), pool)"
    | (general) "\<And>i. i \<in> dom paid \<Longrightarrow> tx_appliedToTransactionId p \<noteq> Some i"
      "apply_payment db a (paid, pool) p = (paid, pool + entry_amount db a p)"
proof (cases "\<exists>i \<in> dom paid. tx_appliedToTransactionId p = Some i")
  case True
  then obtain i m where "tx_appliedToTransactionId p = Some i" "paid i = Some m" by auto
  with assms show ?thesis by (intro direct [of i]) (auto simp: apply_payment_def)
next
  case False
  then show ?thesis by (intro general) (auto simp: apply_payment_def truthy_def split: option.splits)
qed

lemma apply_payments:
  assumes "foldl (apply_payment db a) (paid, pool) ps = (paid', pool')"
    and "distinct (map tx_id invs)" and "dom paid = tx_id ` set invs" and "[] \<notin> dom paid" and "\<And>p. 0 \<le> entry_amount db a p"
  shows "dom paid' = dom paid \<and> paid_sum invs paid' + pool' = paid_sum invs paid + pool + sum_by (entry_amount db a) ps \<and>
    pool \<le> pool' \<and> (\<forall>i \<in> dom paid. the (paid' i) = the (paid i) + applied_sum db a ps i)"
  using assms(1,3,4)
proof (induction ps arbitrary: paid pool)
  case Nil
  then show ?case by (auto simp: applied_sum_def)
next
  case (Cons p ps)
  from Cons.prems(3) show ?case
  proof (rule apply_payment_cases [where p = p and db = db and a = a and pool = pool])
    fix i assume direct: "tx_appliedToTransactionId p = Some i" "i \<in> dom paid"
      "apply_payment db a (paid, pool) p = (paid(i \<mapsto> the (paid i) + entry_amount db a p), pool)"
    define q where "q = paid(i \<mapsto> the (paid i) + entry_amount db a p)"
    have d: "dom q = dom paid" using direct(2) by (auto simp: q_def)
    have "i \<in> tx_id ` set invs" using direct(2) Cons.prems(2) by simp
    then have u: "paid_sum invs q = paid_sum invs paid + entry_amount db a p" unfolding q_def by (rule paid_sum_upd [OF assms(2)])
    have v: "the (q j) = the (paid j) + (if j = i then entry_amount db a p else 0)" for j by (simp add: q_def)
    have f: "foldl (apply_payment db a) (q, pool) ps = (paid', pool')" using Cons.prems(1) direct(3) by (simp add: q_def)
    have "applied_sum db a (p # ps) j = (if j = i then entry_amount db a p else 0) + applied_sum db a ps j" for j
      using direct(1) by (simp add: applied_sum_def)
    with Cons.IH [OF f, unfolded d] Cons.prems(2,3) u v show ?thesis by simp
  next
    assume general: "\<And>i. i \<in> dom paid \<Longrightarrow> tx_appliedToTransactionId p \<noteq> Some i"
      "apply_payment db a (paid, pool) p = (paid, pool + entry_amount db a p)"
    have f: "foldl (apply_payment db a) (paid, pool + entry_amount db a p) ps = (paid', pool')"
      using Cons.prems(1) general(2) by simp
    have "applied_sum db a (p # ps) j = applied_sum db a ps j" if "j \<in> dom paid" for j
      using general(1) [OF that] by (simp add: applied_sum_def)
    with Cons.IH [OF f] Cons.prems(2,3) assms(5) [of p] show ?thesis by simp
  qed
qed

section \<open>Allocating the pool\<close>

lemma allocate_other: "i \<notin> tx_id ` set invs \<Longrightarrow> fst (allocate original invs paid pool) i = paid i"
  by (induction original invs paid pool rule: allocate.induct) (auto simp: Let_def)

lemma allocate_conserves:
  assumes "distinct (map tx_id invs)"
  shows "paid_sum invs (fst (allocate original invs paid pool)) + snd (allocate original invs paid pool) = paid_sum invs paid + pool"
  using assms
proof (induction original invs paid pool rule: allocate.induct)
  case (2 original t ts paid pool)
  let ?rem = "original t - the (paid (tx_id t))"
  have notin: "tx_id t \<notin> tx_id ` set ts" using 2(3) by auto
  then have ne: "tx_id x \<noteq> tx_id t" if "x \<in> set ts" for x using that by (metis imageI)
  have head: "fst (allocate original ts p m) (tx_id t) = p (tx_id t)" for p m using allocate_other [OF notin] .
  have same: "paid_sum ts (paid(tx_id t \<mapsto> m)) = paid_sum ts paid" for m
    unfolding paid_sum_def by (intro sum_by_cong) (simp add: ne)
  consider "pool \<le> 0" | "0 < pool" "?rem \<le> 0" | "0 < pool" "0 < ?rem" by linarith
  then show ?case
  proof cases
    case 2
    with "2.IH"(1) [OF _ refl] "2.prems" show ?thesis using head [of paid pool] by (simp add: paid_sum_def)
  next
    case 3
    define taken where "taken = min ?rem pool"
    define q where "q = paid(tx_id t \<mapsto> the (paid (tx_id t)) + taken)"
    have all: "allocate original (t # ts) paid pool = allocate original ts q (pool - taken)" using 3 by (simp add: Let_def taken_def q_def)
    have "\<not> pool \<le> 0" "\<not> ?rem \<le> 0" "distinct (map tx_id ts)" using 3 "2.prems" by simp_all
    from "2.IH"(2) [OF this(1) refl this(2) refl this(3), folded taken_def, folded q_def] same [of "the (paid (tx_id t)) + taken", folded q_def]
    have IH: "paid_sum ts (fst (allocate original ts q (pool - taken))) + snd (allocate original ts q (pool - taken)) =
        paid_sum ts paid + (pool - taken)" by simp
    have "q (tx_id t) = Some (the (paid (tx_id t)) + taken)" by (simp add: q_def)
    then show ?thesis
      using IH head [of q "pool - taken"] unfolding all by (simp add: paid_sum_def)
  qed (simp add: paid_sum_def)
qed (simp add: paid_sum_def)

lemma allocate_rest: "0 \<le> pool \<Longrightarrow> 0 \<le> snd (allocate original invs paid pool)"
  by (induction original invs paid pool rule: allocate.induct) (auto simp: Let_def)

lemma allocate_nothing: "pool \<le> 0 \<Longrightarrow> allocate original invs paid pool = (paid, pool)"
  by (cases invs) simp_all

text \<open>
  What the pool does to each invoice: nothing is taken back, no invoice gets more than it lacks,
  an invoice gets something only when every older one is settled, and a pool that is not used up
  has settled them all.
\<close>

definition oldest_first :: "(txn \<Rightarrow> money) \<Rightarrow> txn list \<Rightarrow> (id \<rightharpoonup> money) \<Rightarrow> (id \<rightharpoonup> money) \<Rightarrow> bool" where
  "oldest_first original invs paid paid' \<longleftrightarrow>
     (\<forall>t \<in> set invs. the (paid (tx_id t)) \<le> the (paid' (tx_id t)) \<and>
        the (paid' (tx_id t)) \<le> max (the (paid (tx_id t))) (original t)) \<and>
     (\<forall>j < length invs. the (paid' (tx_id (invs ! j))) \<noteq> the (paid (tx_id (invs ! j))) \<longrightarrow>
        (\<forall>i < j. original (invs ! i) \<le> the (paid' (tx_id (invs ! i)))))"

lemma oldest_first_Cons:
  assumes "oldest_first original ts paid paid'" and "the (paid (tx_id t)) \<le> m'" and "m' \<le> max (the (paid (tx_id t))) (original t)"
    and "paid' (tx_id t) = Some m'" and "original t \<le> m' \<or> (\<forall>x \<in> set ts. the (paid' (tx_id x)) = the (paid (tx_id x)))"
  shows "oldest_first original (t # ts) paid paid'"
proof -
  have "original ((t # ts) ! i) \<le> the (paid' (tx_id ((t # ts) ! i)))"
    if "j < length (t # ts)" "the (paid' (tx_id ((t # ts) ! j))) \<noteq> the (paid (tx_id ((t # ts) ! j)))" "i < j" for i j
  proof -
    from that(3) obtain j' where j: "j = Suc j'" by (cases j) auto
    with that have "ts ! j' \<in> set ts" and ch: "the (paid' (tx_id (ts ! j'))) \<noteq> the (paid (tx_id (ts ! j')))" by auto
    then have t: "original t \<le> m'" using assms(5) by auto
    show ?thesis
    proof (cases i)
      case 0
      then show ?thesis using t assms(4) by simp
    next
      case (Suc i')
      with j that ch assms(1) show ?thesis unfolding oldest_first_def by auto
    qed
  qed
  then show ?thesis using assms(1-4) by (auto simp: oldest_first_def)
qed

lemma oldest_first_refl: "oldest_first original invs paid paid"
  by (simp add: oldest_first_def)

lemma oldest_first_cong:
  assumes "\<And>t. t \<in> set ts \<Longrightarrow> paid (tx_id t) = q (tx_id t)"
  shows "oldest_first original ts paid paid' = oldest_first original ts q paid'"
  using assms by (auto simp: oldest_first_def)

lemma allocate_oldest_first:
  assumes "distinct (map tx_id invs)" and "tx_id ` set invs \<subseteq> dom paid"
  shows "oldest_first original invs paid (fst (allocate original invs paid pool))"
  using assms
proof (induction original invs paid pool rule: allocate.induct)
  case (2 original t ts paid pool)
  let ?rem = "original t - the (paid (tx_id t))" and ?m = "the (paid (tx_id t))"
  have notin: "tx_id t \<notin> tx_id ` set ts" using 2(3) by auto
  then have ne: "tx_id x \<noteq> tx_id t" if "x \<in> set ts" for x using that by (metis imageI)
  have some: "paid (tx_id t) = Some ?m" using 2(4) by auto
  have head: "fst (allocate original ts p m) (tx_id t) = p (tx_id t)" for p m using allocate_other [OF notin] .
  consider "pool \<le> 0" | "0 < pool" "?rem \<le> 0" | "0 < pool" "0 < ?rem" by linarith
  then show ?case
  proof cases
    case 1
    then show ?thesis by (simp add: oldest_first_refl)
  next
    case 2
    then have IH: "oldest_first original ts paid (fst (allocate original ts paid pool))"
      using "2.IH"(1) "2.prems" by simp
    show ?thesis
      using oldest_first_Cons [OF IH, of t ?m] 2 head [of paid pool] some by simp
  next
    case 3
    define taken where "taken = min ?rem pool"
    define q where "q = paid(tx_id t \<mapsto> ?m + taken)"
    define fin where "fin = fst (allocate original ts q (pool - taken))"
    have all: "fst (allocate original (t # ts) paid pool) = fin" using 3 by (simp add: Let_def taken_def q_def fin_def)
    have q: "q (tx_id x) = paid (tx_id x)" if "x \<in> set ts" for x using ne [OF that] by (simp add: q_def)
    have "\<not> pool \<le> 0" "\<not> ?rem \<le> 0" "distinct (map tx_id ts)" "tx_id ` set ts \<subseteq> dom q" using 3 "2.prems" by (auto simp: q_def)
    from "2.IH"(2) [OF this(1) refl this(2) refl this(3), folded taken_def, folded q_def, OF this(4)]
    have "oldest_first original ts q fin" by (simp add: fin_def)
    then have IH: "oldest_first original ts paid fin"
      using oldest_first_cong [of ts paid q] q by simp
    have h: "fin (tx_id t) = Some (?m + taken)" using head [of q "pool - taken"] by (simp add: fin_def q_def)
    have "original t \<le> ?m + taken \<or> (\<forall>x \<in> set ts. the (fin (tx_id x)) = the (paid (tx_id x)))"
    proof (cases "?rem \<le> pool")
      case True
      then show ?thesis by (simp add: taken_def)
    next
      case False
      then have "fin = q" by (simp add: taken_def fin_def allocate_nothing)
      then show ?thesis using q by simp
    qed
    from oldest_first_Cons [OF IH _ _ h this] 3 show ?thesis unfolding all by (auto simp: taken_def)
  qed
qed (simp add: oldest_first_refl)

lemma allocate_settles_all:
  assumes "distinct (map tx_id invs)" and "0 < snd (allocate original invs paid pool)" and "t \<in> set invs"
  shows "original t \<le> the (fst (allocate original invs paid pool) (tx_id t))"
  using assms
proof (induction original invs paid pool rule: allocate.induct)
  case (2 original x ts paid pool)
  have notin: "tx_id x \<notin> tx_id ` set ts" using 2(3) by auto
  have head: "fst (allocate original ts p m) (tx_id x) = p (tx_id x)" for p m using allocate_other [OF notin] .
  let ?rem = "original x - the (paid (tx_id x))"
  consider "pool \<le> 0" | "0 < pool" "?rem \<le> 0" | "0 < pool" "0 < ?rem" by linarith
  then show ?case
  proof cases
    case 1
    with 2(4) show ?thesis by simp
  next
    case 2
    with "2.IH"(1) "2.prems" head [of paid pool] show ?thesis by auto
  next
    case 3
    define taken where "taken = min ?rem pool"
    define q where "q = paid(tx_id x \<mapsto> the (paid (tx_id x)) + taken)"
    have all: "allocate original (x # ts) paid pool = allocate original ts q (pool - taken)" using 3 by (simp add: Let_def taken_def q_def)
    have rest: "0 < snd (allocate original ts q (pool - taken))" using "2.prems"(2) all by simp
    then have "0 < pool - taken" using allocate_nothing [of "pool - taken" original ts q] by (cases "pool - taken \<le> 0") auto
    then have "taken = ?rem" by (auto simp: taken_def min_def split: if_splits)
    then have "original x \<le> the (fst (allocate original ts q (pool - taken)) (tx_id x))" using head [of q "pool - taken"] by (simp add: q_def)
    moreover have "original t \<le> the (fst (allocate original ts q (pool - taken)) (tx_id t))" if t: "t \<in> set ts"
    proof -
      have "\<not> pool \<le> 0" "\<not> ?rem \<le> 0" "distinct (map tx_id ts)" using 3 "2.prems" by simp_all
      from "2.IH"(2) [OF this(1) refl this(2) refl this(3), folded taken_def, folded q_def, OF rest t] show ?thesis .
    qed
    ultimately show ?thesis using "2.prems"(3) unfolding all by auto
  qed
qed simp

section \<open>The breakdown of what is owed\<close>

lemma entry_amount_nonneg: "books_ok db \<Longrightarrow> 0 \<le> entry_amount db a t"
proof -
  assume "books_ok db"
  then have pos: "e \<in> set (entries db) \<Longrightarrow> 0 < en_amount e" for e using ledger_coreD(7) [OF books_okD(1)] by blast
  show ?thesis
  proof (cases "find (\<lambda>e. en_accountId e = a) (entries_of db (tx_id t))")
    case (Some e)
    then have "e \<in> set (entries db)" by (auto simp: find_Some_iff entries_of_def dest: nth_mem)
    with pos show ?thesis using Some by (simp add: entry_amount_def less_imp_le)
  qed (simp add: entry_amount_def)
qed

lemma invoices_of_facts:
  assumes "books_ok db"
  shows "distinct (map tx_id (invoices_of b c d db))" "set (invoices_of b c d db) = set (contact_txns b c (invoice_type d) db)"
    "dom (no_invoices_paid (invoices_of b c d db)) = tx_id ` set (invoices_of b c d db)"
    "[] \<notin> tx_id ` set (invoices_of b c d db)" "i \<in> tx_id ` set (invoices_of b c d db) \<Longrightarrow> no_invoices_paid (invoices_of b c d db) i = Some 0"
proof -
  note core = ledger_coreD [OF books_okD(1) [OF assms]]
  have "distinct (map tx_id (contact_txns b c (invoice_type d) db))"
    using keyed_filter [OF core(2)] by (simp add: keyed_def contact_txns_def)
  moreover have "mset (invoices_of b c d db) = mset (contact_txns b c (invoice_type d) db)" by (simp add: invoices_of_def)
  ultimately show "distinct (map tx_id (invoices_of b c d db))"
    by (metis mset_map mset_eq_imp_distinct_iff)
  show m: "set (invoices_of b c d db) = set (contact_txns b c (invoice_type d) db)" by (simp add: invoices_of_def)
  show "dom (no_invoices_paid (invoices_of b c d db)) = tx_id ` set (invoices_of b c d db)"
    by (simp add: no_invoices_paid_def dom_map_of_conv_image_fst image_image)
  show "[] \<notin> tx_id ` set (invoices_of b c d db)" using core(4) by (auto simp: m contact_txns_def)
  have "map_of (map (\<lambda>t. (tx_id t, 0 :: money)) xs) i = Some 0" if "i \<in> tx_id ` set xs" for xs :: "txn list" and i
    using that by (induction xs) auto
  then show "i \<in> tx_id ` set (invoices_of b c d db) \<Longrightarrow> no_invoices_paid (invoices_of b c d db) i = Some 0"
    by (simp add: no_invoices_paid_def)
qed

lemma computeDirectionE:
  assumes books: "books_ok db" and side: "side_account b d db = Some a" and bd: "bd = computeDirection now b c d db"
  obtains pool openingPaid paid0 paid rest invs ps orig where
    "invs = invoices_of b (ct_id c) d db" "ps = relevant_payments b (ct_id c) (acc_id a) db" "orig = entry_amount db (acc_id a)"
    "bd_transactions bd = map (invoice_row (dhakaDateOnly now) orig paid) invs"
    "bd_totalInvoiced bd = sum_by orig invs" "bd_totalPaid bd = sum_by orig ps" "bd_balance bd = sum_by orig invs - sum_by orig ps"
    "openingPaid = min pool (bd_openingOwed bd)" "bd_openingRemaining bd = bd_openingOwed bd - openingPaid"
    "bd_remaining bd = sum_by orig invs - (sum_by orig ps - openingPaid)" "bd_openingOwed bd = opening_owed d (ct_openingBalance c)"
    "distinct (map tx_id invs)" "dom paid0 = tx_id ` set invs" "paid_sum invs paid0 + pool = sum_by orig ps" "0 \<le> pool"
    "\<And>t. t \<in> set invs \<Longrightarrow> the (paid0 (tx_id t)) = applied_sum db (acc_id a) ps (tx_id t)"
    "allocate orig invs paid0 (pool - openingPaid) = (paid, rest)"
proof -
  define invs where "invs = invoices_of b (ct_id c) d db"
  define ps where "ps = relevant_payments b (ct_id c) (acc_id a) db"
  define orig where "orig = entry_amount db (acc_id a)"
  note f = invoices_of_facts [OF books, where b = b and c = "ct_id c" and d = d, folded invs_def]
  obtain paid0 pool where fold: "foldl (apply_payment db (acc_id a)) (no_invoices_paid invs, 0) ps = (paid0, pool)" by fastforce
  define openingPaid where "openingPaid = min pool (opening_owed d (ct_openingBalance c))"
  obtain paid rest where alloc: "allocate orig invs paid0 (pool - openingPaid) = (paid, rest)" by fastforce
  have orig_id: "ib_originalAmount (invoice_row today orig paid t) = orig t" for today t
    by (simp add: invoice_row_def Let_def)
  note ap = apply_payments [OF fold f(1,3) _ entry_amount_nonneg [OF books]]
  have zero: "paid_sum invs (no_invoices_paid invs) = 0"
    unfolding paid_sum_def by (rule trans [OF sum_by_cong [of _ _ "\<lambda>_. 0"]]) (simp_all add: f(5))
  have bdr: "bd = \<lparr>bd_totalInvoiced = sum_by orig invs, bd_totalPaid = sum_by orig ps,
      bd_remaining = sum_by orig invs - (sum_by orig ps - openingPaid), bd_openingOwed = opening_owed d (ct_openingBalance c),
      bd_openingRemaining = opening_owed d (ct_openingBalance c) - openingPaid, bd_balance = sum_by orig invs - sum_by orig ps,
      bd_transactions = map (invoice_row (dhakaDateOnly now) orig paid) invs\<rparr>"
    using alloc orig_id by (simp add: bd computeDirection_def side Let_def openingPaid_def fold flip: invs_def ps_def orig_def)
  show thesis
  proof (rule that [of invs ps orig paid openingPaid pool paid0 rest])
    show "dom paid0 = tx_id ` set invs" using ap f(3,4) by simp
    show "paid_sum invs paid0 + pool = sum_by orig ps" "0 \<le> pool" using ap f(3,4) zero by (simp_all add: orig_def)
    show "the (paid0 (tx_id t)) = applied_sum db (acc_id a) ps (tx_id t)" if "t \<in> set invs" for t
      using ap f(3,4) that f(5) by simp
  qed (simp_all add: invs_def ps_def orig_def bdr openingPaid_def alloc f(1) [unfolded invs_def] alloc [unfolded openingPaid_def orig_def invs_def])
qed

text \<open>
  C28: payments settle the oldest debt first. The invoices of a breakdown stand in the order of
  their dates, and an invoice has been paid anything beyond the payments made out to it only when
  the opening balance is settled and nothing is left of any older invoice.
\<close>

theorem payments_settle_oldest_first:
  assumes "books_ok db" and "side_account b d db = Some a" and "bd = computeDirection now b c d db"
    and "i < j" and "j < length (bd_transactions bd)"
  shows "ib_date (bd_transactions bd ! i) \<le> ib_date (bd_transactions bd ! j) \<and>
    (ib_amountPaid (bd_transactions bd ! j) \<noteq>
       applied_sum db (acc_id a) (relevant_payments b (ct_id c) (acc_id a) db) (ib_transactionId (bd_transactions bd ! j)) \<longrightarrow>
     bd_openingRemaining bd = 0 \<and> ib_remainingAmount (bd_transactions bd ! i) = 0)"
  using assms(1-3)
proof (rule computeDirectionE)
  fix pool openingPaid paid0 paid rest invs ps orig
  assume invs: "invs = invoices_of b (ct_id c) d db" and ps: "ps = relevant_payments b (ct_id c) (acc_id a) db"
    and ts: "bd_transactions bd = map (invoice_row (dhakaDateOnly now) orig paid) invs"
    and op: "openingPaid = min pool (bd_openingOwed bd)" "bd_openingRemaining bd = bd_openingOwed bd - openingPaid"
    and dist: "distinct (map tx_id invs)" "dom paid0 = tx_id ` set invs"
    and applied: "\<And>t. t \<in> set invs \<Longrightarrow> the (paid0 (tx_id t)) = applied_sum db (acc_id a) ps (tx_id t)"
    and alloc: "allocate orig invs paid0 (pool - openingPaid) = (paid, rest)"
  have len: "i < length invs" "j < length invs" using assms(4,5) ts by simp_all
  have row: "ib_date (bd_transactions bd ! k) = tx_date (invs ! k)" "ib_transactionId (bd_transactions bd ! k) = tx_id (invs ! k)"
    "ib_amountPaid (bd_transactions bd ! k) = the (paid (tx_id (invs ! k)))"
    "ib_remainingAmount (bd_transactions bd ! k) = max 0 (orig (invs ! k) - the (paid (tx_id (invs ! k))))" if "k < length invs" for k
    using that by (simp_all add: ts invoice_row_def Let_def)
  have "sorted (map (\<lambda>t. (tx_date t, tx_createdAt t)) invs)" by (simp add: invs invoices_of_def)
  then have "(tx_date (invs ! i), tx_createdAt (invs ! i)) \<le> (tx_date (invs ! j), tx_createdAt (invs ! j))"
    using sorted_nth_mono [of "map (\<lambda>t. (tx_date t, tx_createdAt t)) invs" i j] assms(4) len by simp
  then have dates: "tx_date (invs ! i) \<le> tx_date (invs ! j)" by auto
  have old: "oldest_first orig invs paid0 paid"
    using allocate_oldest_first [OF dist(1), of paid0 orig "pool - openingPaid"] dist(2) alloc by simp
  have "bd_openingRemaining bd = 0 \<and> ib_remainingAmount (bd_transactions bd ! i) = 0"
    if ne: "the (paid (tx_id (invs ! j))) \<noteq> the (paid0 (tx_id (invs ! j)))"
  proof
    have "orig (invs ! i) \<le> the (paid (tx_id (invs ! i)))" using old ne assms(4) len unfolding oldest_first_def by auto
    then show "ib_remainingAmount (bd_transactions bd ! i) = 0" using row(4) [OF len(1)] by simp
    have "\<not> pool - openingPaid \<le> 0" using ne alloc allocate_nothing by (metis prod.inject)
    then show "bd_openingRemaining bd = 0" using op by (simp add: min_def split: if_splits)
  qed
  then show ?thesis using dates row [OF len(1)] row [OF len(2)] applied [of "invs ! j"] len by (simp add: ps)
qed

lemma payments_accounted:
  assumes "books_ok db" and "side_account b d db = Some a" and "bd = computeDirection now b c d db"
  shows "\<exists>surplus \<ge> 0. bd_totalPaid bd = sum_by ib_amountPaid (bd_transactions bd) + (bd_openingOwed bd - bd_openingRemaining bd) + surplus \<and>
     (0 < surplus \<longrightarrow> bd_openingRemaining bd = 0 \<and> (\<forall>t \<in> set (bd_transactions bd). ib_remainingAmount t = 0)) \<and>
     (\<forall>t \<in> set (bd_transactions bd). ib_amountPaid t \<le>
        max (ib_originalAmount t) (applied_sum db (acc_id a) (relevant_payments b (ct_id c) (acc_id a) db) (ib_transactionId t)))"
  using assms
proof (rule computeDirectionE)
  fix pool openingPaid paid0 paid rest invs ps orig
  assume ps: "ps = relevant_payments b (ct_id c) (acc_id a) db"
    and ts: "bd_transactions bd = map (invoice_row (dhakaDateOnly now) orig paid) invs" and total: "bd_totalPaid bd = sum_by orig ps"
    and op: "openingPaid = min pool (bd_openingOwed bd)" "bd_openingRemaining bd = bd_openingOwed bd - openingPaid"
    and dist: "distinct (map tx_id invs)" "dom paid0 = tx_id ` set invs"
    and sum: "paid_sum invs paid0 + pool = sum_by orig ps"
    and applied: "\<And>t. t \<in> set invs \<Longrightarrow> the (paid0 (tx_id t)) = applied_sum db (acc_id a) ps (tx_id t)"
    and alloc: "allocate orig invs paid0 (pool - openingPaid) = (paid, rest)"
  have sums: "sum_by ib_amountPaid (bd_transactions bd) = paid_sum invs paid"
    unfolding ts paid_sum_def by (simp add: invoice_row_def Let_def)
  have cons: "paid_sum invs paid + rest = paid_sum invs paid0 + (pool - openingPaid)"
    using allocate_conserves [OF dist(1), of orig paid0 "pool - openingPaid"] alloc by simp
  have nn: "0 \<le> rest" using allocate_rest [of "pool - openingPaid" orig invs paid0] alloc op(1) by simp
  have settled: "orig t \<le> the (paid (tx_id t))" if "0 < rest" "t \<in> set invs" for t
    using allocate_settles_all [OF dist(1), of orig paid0 "pool - openingPaid" t] alloc that by simp
  have opz: "bd_openingRemaining bd = 0" if "0 < rest"
  proof -
    have "\<not> pool - openingPaid \<le> 0" using that alloc allocate_nothing [of "pool - openingPaid" orig invs paid0] by auto
    then show ?thesis using op by (simp add: min_def split: if_splits)
  qed
  have old: "oldest_first orig invs paid0 paid"
    using allocate_oldest_first [OF dist(1), of paid0 orig "pool - openingPaid"] dist(2) alloc by simp
  have cap: "the (paid (tx_id t)) \<le> max (orig t) (applied_sum db (acc_id a) ps (tx_id t))" if "t \<in> set invs" for t
  proof -
    have "the (paid (tx_id t)) \<le> max (the (paid0 (tx_id t))) (orig t)" using old that unfolding oldest_first_def by blast
    then show ?thesis by (simp add: applied [OF that] max.commute)
  qed
  show ?thesis
    using nn sums cons sum total op(2) opz settled cap
    by (intro exI [of _ rest]) (auto simp: ts ps invoice_row_def Let_def)
qed

text \<open>
  Every payment is counted exactly once: what was paid is what the invoices got, what the
  opening balance got, and a surplus that exists only when nothing is owed any more. No invoice
  is paid beyond its amount by anything but payments made out to it.
\<close>

theorem every_payment_counted_once:
  assumes "books_ok db" and "side_account b d db = Some a" and "bd = computeDirection now b c d db"
  shows "\<exists>surplus \<ge> 0. bd_totalPaid bd = sum_by ib_amountPaid (bd_transactions bd) + (bd_openingOwed bd - bd_openingRemaining bd) + surplus \<and>
     (0 < surplus \<longrightarrow> bd_openingRemaining bd = 0 \<and> (\<forall>t \<in> set (bd_transactions bd). ib_remainingAmount t = 0)) \<and>
     (\<forall>t \<in> set (bd_transactions bd). ib_amountPaid t \<le>
        max (ib_originalAmount t) (applied_sum db (acc_id a) (relevant_payments b (ct_id c) (acc_id a) db) (ib_transactionId t)))"
  by (rule payments_accounted [OF assms])

section \<open>Posting and what is owed\<close>

definition outstanding :: "direction_breakdown \<Rightarrow> money" where
  "outstanding bd = bd_remaining bd + bd_openingRemaining bd"

lemma outstanding_eq:
  assumes "side_account b d db = Some a"
  shows "outstanding (computeDirection now b c d db) = opening_owed d (ct_openingBalance c) +
     sum_by (entry_amount db (acc_id a)) (contact_txns b (ct_id c) (invoice_type d) db) -
     sum_by (entry_amount db (acc_id a)) (relevant_payments b (ct_id c) (acc_id a) db)"
  using assms
  by (simp add: outstanding_def computeDirection_def Let_def invoice_row_def invoices_of_def sum_by_sort_key split: prod.splits)

lemma outstanding_none:
  "side_account b d db = None \<Longrightarrow> outstanding (computeDirection now b c d db) = opening_owed d (ct_openingBalance c)"
  by (simp add: outstanding_def computeDirection_def Let_def)

lemma map_insort_view:
  assumes "map v xs = map v ys" and "v x = v y" and "\<And>r s. v r = v s \<Longrightarrow> ord r = ord s"
  shows "map v (insort_key ord x xs) = map v (insort_key ord y ys)"
  using assms(1)
proof (induction xs ys rule: list_induct2')
  case (4 p xs q ys)
  then have "ord p = ord q" "ord x = ord y" using assms(2,3) by (metis list.inject list.simps(9))+
  with 4 assms(2) show ?case by auto
qed (use assms(2) in auto)

lemma map_sort_view:
  assumes "map v xs = map v ys" and "\<And>r s. v r = v s \<Longrightarrow> ord r = ord s"
  shows "map v (sort_key ord xs) = map v (sort_key ord ys)"
  using assms(1) by (induction xs ys rule: list_induct2') (auto intro: map_insort_view [OF _ _ assms(2)])

lemma map_filter_view:
  assumes "map v xs = map v ys" and "\<And>r s. v r = v s \<Longrightarrow> P r = P s"
  shows "map v (filter P xs) = map v (filter P ys)"
  using assms(1)
proof (induction xs ys rule: list_induct2')
  case (4 p xs q ys)
  then have "P p = P q" using assms(2) [of p q] by simp
  with 4 show ?case by simp
qed auto

lemma find_first_view:
  assumes "map v xs = map v ys" and "\<And>r s. v r = v s \<Longrightarrow> P r = P s" and "\<And>r s. v r = v s \<Longrightarrow> ord r = ord s"
  shows "map_option v (find_first P ord xs) = map_option v (find_first P ord ys)"
proof -
  have "map v (find_many P ord xs) = map v (find_many P ord ys)"
    unfolding find_many_def by (intro map_sort_view map_filter_view assms) (use assms in auto)
  then show ?thesis by (cases "find_many P ord xs"; cases "find_many P ord ys") (auto simp: find_first_def)
qed

lemma side_account_own:
  assumes "map without_balance (accounts db') = map without_balance (accounts db)"
  shows "map_option acc_id (side_account b d db') = map_option acc_id (side_account b d db)"
proof -
  have w: "acc_id r = acc_id s" "acc_businessId r = acc_businessId s" "acc_accountSubtype r = acc_accountSubtype s"
      "acc_accountType r = acc_accountType s" "acc_isSystemAccount r = acc_isSystemAccount s" "acc_createdAt r = acc_createdAt s"
    if "without_balance r = without_balance s" for r s :: account
    using arg_cong [OF that, of acc_id] arg_cong [OF that, of acc_businessId] arg_cong [OF that, of acc_accountSubtype]
      arg_cong [OF that, of acc_accountType] arg_cong [OF that, of acc_isSystemAccount] arg_cong [OF that, of acc_createdAt]
    by (simp_all add: without_balance_def)
  have "map_option without_balance (side_account b d db') = map_option without_balance (side_account b d db)"
    unfolding side_account_def findSystemAccount_def
  proof (rule find_first_view [OF assms])
    fix r s :: account assume "without_balance r = without_balance s"
    note w = w [OF this]
    show "acc_createdAt r = acc_createdAt s" by (rule w(6))
    show "(acc_businessId r = b \<and> acc_accountSubtype r = Some (if d = RECEIVABLE then ''receivable'' else ''payable'') \<and>
         acc_accountType r = (if d = RECEIVABLE then ASSET else LIABILITY) \<and> acc_isSystemAccount r) =
      (acc_businessId s = b \<and> acc_accountSubtype s = Some (if d = RECEIVABLE then ''receivable'' else ''payable'') \<and>
         acc_accountType s = (if d = RECEIVABLE then ASSET else LIABILITY) \<and> acc_isSystemAccount s)" by (simp add: w)
  qed
  then show ?thesis
    by (cases "side_account b d db'"; cases "side_account b d db") (auto dest: w(1))
qed

lemma posted_contact_facts:
  assumes books: "books_ok db" and new: "post_new gen now b dto user db = Inr (db', t, es)" and gen: "ids_drawn gen"
  shows "x \<in> set (txns db) \<Longrightarrow> entries_of db' (tx_id x) = entries_of db (tx_id x)"
    "contact_txns w c ty db' = contact_txns w c ty db @
       (if b = w \<and> td_contactId dto = Some c \<and> td_type dto = ty then [t] else [])"
    "entries_of db' (tx_id t) = es" "map_option acc_id (side_account w d db') = map_option acc_id (side_account w d db)"
    "contacts db' = contacts db"
proof -
  note n = post_newD [OF books new gen]
  have fresh: "tx_id t \<notin> tx_id ` set (txns db)" using n(3) by (simp add: posting_fits_def)
  have ne: "tx_id x \<noteq> tx_id t" if "x \<in> set (txns db)" for x using that fresh by (metis imageI)
  have es: "en_transactionId e = tx_id t" if "e \<in> set es" for e
    using that n(1,2) by (auto simp: entry_rows_def entry_of_dto_def txn_row_def)
  have tab: "entries db' = entries db @ es" by (simp add: only_balances_tables [OF n(4)])
  show "entries_of db' (tx_id x) = entries_of db (tx_id x)" if "x \<in> set (txns db)"
    using ne [OF that] es by (auto simp: entries_of_def tab filter_empty_conv)
  have "live_txn t" by (simp add: n(1))
  then show "contact_txns w c ty db' = contact_txns w c ty db @
       (if b = w \<and> td_contactId dto = Some c \<and> td_type dto = ty then [t] else [])"
    by (simp add: contact_txns_def n(7)) (simp add: n(1) txn_row_def)
  show "entries_of db' (tx_id t) = es" by (rule n(6))
  have own: "own_tables db' = own_tables db" using only_balances_own [OF n(4)] by simp
  then show "map_option acc_id (side_account w d db') = map_option acc_id (side_account w d db)"
    by (intro side_account_own) (simp add: own_tables_def)
  show "contacts db' = contacts db" using own by (simp add: own_tables_def)
qed

text \<open>The change a posting with two entries makes to what a contact owes.\<close>

definition first_amount :: "id \<Rightarrow> entry list \<Rightarrow> money" where
  "first_amount a es = (case find (\<lambda>e. en_accountId e = a) es of None \<Rightarrow> 0 | Some e \<Rightarrow> en_amount e)"

lemma entry_amount_first: "entry_amount db a t = first_amount a (entries_of db (tx_id t))"
  by (simp add: entry_amount_def first_amount_def)

lemma first_amount_none: "(\<And>e. e \<in> set es \<Longrightarrow> en_accountId e \<noteq> a) \<Longrightarrow> first_amount a es = 0"
  by (induction es) (auto simp: first_amount_def)

lemma outstanding_after_post:
  assumes books: "books_ok db" and new: "post_new gen now b dto user db = Inr (db', t, es)" and gen: "ids_drawn gen"
    and side: "side_account w d db = Some a"
  shows "outstanding (computeDirection now' w c d db') = outstanding (computeDirection now'' w c d db) +
    (if b = w \<and> td_contactId dto = Some (ct_id c)
     then (if td_type dto = invoice_type d then first_amount (acc_id a) es else if td_type dto = PAYMENT then - first_amount (acc_id a) es else 0)
     else 0)"
proof -
  note p = posted_contact_facts [OF books new gen]
  from p(4) [of w d] side obtain a' where a': "side_account w d db' = Some a'" "acc_id a' = acc_id a" by auto
  let ?i = "acc_id a"
  have old: "entry_amount db' ?i x = entry_amount db ?i x" if "x \<in> set (txns db)" for x
    using that by (simp add: entry_amount_first p(1))
  have t: "entry_amount db' ?i t = first_amount ?i es" by (simp add: entry_amount_first p(3))
  have mem: "q \<in> set (txns db)" if "q \<in> set (contact_txns w k ty db)" for q k ty using that by (simp add: contact_txns_def)
  have inv: "sum_by (entry_amount db' ?i) (contact_txns w (ct_id c) (invoice_type d) db) = sum_by (entry_amount db ?i) (contact_txns w (ct_id c) (invoice_type d) db)"
    by (intro sum_by_cong old mem)
  have rel: "filter (\<lambda>q. \<exists>e \<in> set (entries_of db' (tx_id q)). en_accountId e = ?i) (contact_txns w (ct_id c) PAYMENT db) =
      relevant_payments w (ct_id c) ?i db"
    unfolding relevant_payments_def by (intro filter_cong refl) (simp add: p(1) [OF mem])
  have pays: "sum_by (entry_amount db' ?i) (relevant_payments w (ct_id c) ?i db') = sum_by (entry_amount db ?i) (relevant_payments w (ct_id c) ?i db) +
      (if b = w \<and> td_contactId dto = Some (ct_id c) \<and> td_type dto = PAYMENT then first_amount ?i es else 0)"
  proof -
    have "sum_by (entry_amount db' ?i) (relevant_payments w (ct_id c) ?i db) = sum_by (entry_amount db ?i) (relevant_payments w (ct_id c) ?i db)"
      by (intro sum_by_cong old) (auto simp: relevant_payments_def dest: mem)
    moreover have "first_amount ?i es = 0" if "\<not> (\<exists>e \<in> set es. en_accountId e = ?i)" using that by (intro first_amount_none) auto
    ultimately show ?thesis
      unfolding relevant_payments_def [of w "ct_id c" ?i db'] p(2) filter_append rel by (auto simp: p(3) t)
  qed
  have it: "invoice_type d \<noteq> PAYMENT" by (cases d) (simp_all add: invoice_type_def)
  show ?thesis
    unfolding outstanding_eq [OF a'(1)] outstanding_eq [OF side] a'(2) pays p(2) using it inv t by auto
qed

section \<open>Payments, sales and purchases\<close>

lemma contact_request_sel [simp]:
  "td_type (contact_request ty date due desc ref c applied es) = ty"
  "td_contactId (contact_request ty date due desc ref c applied es) = Some c"
  "td_entries (contact_request ty date due desc ref c applied es) = es"
  "td_idempotencyKey (contact_request ty date due desc ref c applied es) = None"
  by (simp_all add: contact_request_def)

lemma contact_request_posts:
  "post gen now b (contact_request ty date due desc ref c applied es) user db =
     post_new gen now b (contact_request ty date due desc ref c applied es) user db"
  "createTransaction db gen gen now b (contact_request ty date due desc ref c applied es) user db =
     post_new gen now b (contact_request ty date due desc ref c applied es) user db"
  by (simp_all add: createTransaction_def post_def post_after_def existing_by_key_def Let_def)

lemma rp_require_eq_Inr [result_simps]:
  "rp_requireContact b i db = Inr c \<longleftrightarrow> find_row ct_id i (contacts db) = Some c \<and> ct_businessId c = b"
  "rp_requireMoneyAccount b i db = Inr a \<longleftrightarrow> find_row acc_id i (accounts db) = Some a \<and> acc_businessId a = b \<and>
     acc_accountType a = ASSET \<and> subtype_in MONEY_ACCOUNT_SUBTYPES (acc_accountSubtype a)"
  "rp_requireAccountOfType b i ty field db = Inr a \<longleftrightarrow> find_row acc_id i (accounts db) = Some a \<and> acc_businessId a = b \<and>
     acc_accountType a = ty"
  "requireSystemAccount b s ty label db = Inr a \<longleftrightarrow> findSystemAccount b s ty db = Some a"
  by (auto simp: rp_requireContact_def rp_requireMoneyAccount_def rp_requireAccountOfType_def requireSystemAccount_def result_simps
      split: option.splits)

lemma requireMoneyAccountForLoan_eq_Inr [result_simps]:
  "requireMoneyAccountForLoan b i db = Inr a \<longleftrightarrow> (\<exists>j. i = Some j \<and> j \<noteq> [] \<and> rp_requireMoneyAccount b j db = Inr a)"
  unfolding requireMoneyAccountForLoan_def by (cases i) (auto simp: rbind_eq_Inr check_eq_Inr)

lemma side_account_Some:
  assumes "side_account b d db = Some a"
  shows "a \<in> set (accounts db)" "acc_accountType a = (if d = RECEIVABLE then ASSET else LIABILITY)"
    "acc_accountSubtype a = Some (if d = RECEIVABLE then ''receivable'' else ''payable'')"
  using find_first_Some [OF assms [unfolded side_account_def findSystemAccount_def]] by auto

lemma side_not_money: "side_account b d db = Some a \<Longrightarrow> \<not> subtype_in MONEY_ACCOUNT_SUBTYPES (acc_accountSubtype a)"
  using side_account_Some(3) by (auto simp: subtype_in_def account_constants)

lemma first_amount_two:
  "x \<noteq> y \<Longrightarrow> first_amount i (entry_rows gen [entry_for x s m, entry_for y s' m]) = (if i = x \<or> i = y then m else 0)"
  by (auto simp: first_amount_def entry_rows_def entry_of_dto_def entry_for_def)

lemma contact_posting_effect:
  assumes books: "books_ok db" and gen: "ids_drawn gen" and side: "side_account b d db = Some a" and xy: "x \<noteq> y"
    and new: "post_new gen now b (contact_request ty date due desc ref (ct_id c) applied [entry_for x DEBIT m, entry_for y CREDIT m]) user db =
      Inr (db', t, es)"
  shows "outstanding (computeDirection now' b c d db') = outstanding (computeDirection now'' b c d db) +
    (if acc_id a \<noteq> x \<and> acc_id a \<noteq> y then 0 else if ty = invoice_type d then m else if ty = PAYMENT then - m else 0)"
    "books_ok db'"
proof -
  have "es = entry_rows gen [entry_for x DEBIT m, entry_for y CREDIT m]" using post_newD(2) [OF books new gen] by simp
  then show "outstanding (computeDirection now' b c d db') = outstanding (computeDirection now'' b c d db) +
      (if acc_id a \<noteq> x \<and> acc_id a \<noteq> y then 0 else if ty = invoice_type d then m else if ty = PAYMENT then - m else 0)"
    using outstanding_after_post [OF books new gen side, of now' c now''] first_amount_two [OF xy] by auto
  show "books_ok db'" by (rule post_newD(5) [OF books new gen])
qed

definition other_side :: "direction \<Rightarrow> direction" where
  "other_side d = (if d = RECEIVABLE then PAYABLE else RECEIVABLE)"

text \<open>What accepting a payment means, for both directions.\<close>

definition payment_made ::
  "id_source \<Rightarrow> instant \<Rightarrow> id \<Rightarrow> id \<Rightarrow> direction \<Rightarrow> money \<Rightarrow> id option \<Rightarrow> id \<Rightarrow> db \<Rightarrow> db \<Rightarrow> bool" where
  "payment_made gen now b cid d m applied user db db' \<longleftrightarrow>
     (d = RECEIVABLE \<and> (\<exists>dto p. receivePayment gen now b dto user db = Inr (db', p) \<and>
        rp_contactId dto = cid \<and> rp_amount dto = m \<and> rp_appliedTo dto = applied)) \<or>
     (d = PAYABLE \<and> (\<exists>dto p. payPayment gen now b dto user db = Inr (db', p) \<and>
        pp_contactId dto = cid \<and> pp_amount dto = m \<and> pp_appliedTo dto = applied))"

lemma payment_madeE:
  assumes "payment_made gen now b cid d m applied user db db'"
  obtains c a y t es date desc where "find_row ct_id cid (contacts db) = Some c" "side_account b d db = Some a"
    "find_row acc_id (acc_id y) (accounts db) = Some y" "subtype_in MONEY_ACCOUNT_SUBTYPES (acc_accountSubtype y)"
    "validatePaymentAmount now b c d m applied db = Inr ()"
    "post_new gen now b (contact_request PAYMENT date None desc None (ct_id c) applied
       (if d = RECEIVABLE then [entry_for (acc_id y) DEBIT m, entry_for (acc_id a) CREDIT m]
        else [entry_for (acc_id a) DEBIT m, entry_for (acc_id y) CREDIT m])) user db = Inr (db', t, es)"
proof (cases "d = RECEIVABLE")
  case True
  with assms obtain dto t es where run: "receivePayment gen now b dto user db = Inr (db', t, es)" "rp_contactId dto = cid"
      "rp_amount dto = m" "rp_appliedTo dto = applied" by (auto simp: payment_made_def)
  from run(1) obtain c a y where "find_row ct_id (rp_contactId dto) (contacts db) = Some c"
      "findSystemAccount b ''receivable'' ASSET db = Some a" and y: "find_row acc_id (rp_moneyAccountId dto) (accounts db) = Some y"
      and "subtype_in MONEY_ACCOUNT_SUBTYPES (acc_accountSubtype y)"
      "validatePaymentAmount now b c RECEIVABLE (rp_amount dto) (rp_appliedTo dto) db = Inr ()"
      "post_new gen now b (contact_request PAYMENT (rp_date dto) None (rp_description dto) None (ct_id c) (rp_appliedTo dto)
        [entry_for (acc_id y) DEBIT (rp_amount dto), entry_for (acc_id a) CREDIT (rp_amount dto)]) user db = Inr (db', t, es)"
    unfolding receivePayment_def contact_request_posts by (auto simp: rbind_eq_Inr result_simps)
  moreover have "acc_id y = rp_moneyAccountId dto" using find_row_Some [OF y] by simp
  ultimately show thesis using run(2-4) True by (intro that [of c a y]) (auto simp: side_account_def)
next
  case False
  then have d: "d = PAYABLE" by (cases d) auto
  with assms obtain dto t es where run: "payPayment gen now b dto user db = Inr (db', t, es)" "pp_contactId dto = cid"
      "pp_amount dto = m" "pp_appliedTo dto = applied" by (auto simp: payment_made_def)
  from run(1) obtain c a y where "find_row ct_id (pp_contactId dto) (contacts db) = Some c"
      "findSystemAccount b ''payable'' LIABILITY db = Some a" and y: "find_row acc_id (pp_moneyAccountId dto) (accounts db) = Some y"
      and "subtype_in MONEY_ACCOUNT_SUBTYPES (acc_accountSubtype y)"
      "validatePaymentAmount now b c PAYABLE (pp_amount dto) (pp_appliedTo dto) db = Inr ()"
      "post_new gen now b (contact_request PAYMENT (pp_date dto) None (pp_description dto) None (ct_id c) (pp_appliedTo dto)
        [entry_for (acc_id a) DEBIT (pp_amount dto), entry_for (acc_id y) CREDIT (pp_amount dto)]) user db = Inr (db', t, es)"
    unfolding payPayment_def contact_request_posts by (auto simp: rbind_eq_Inr result_simps)
  moreover have "acc_id y = pp_moneyAccountId dto" using find_row_Some [OF y] by simp
  ultimately show thesis using run(2-4) d by (intro that [of c a y]) (auto simp: side_account_def)
qed

text \<open>
  A payment that is accepted lowers what the contact owes (or is owed) by exactly its amount
  and leaves the other direction alone; a general payment never takes it below zero, and one made
  out to an invoice never exceeds what is left of that invoice.
\<close>

theorem payment_reduces_what_is_owed:
  assumes "books_ok db" and "ids_drawn gen" and "payment_made gen now b cid d m applied user db db'"
    and "find_row ct_id cid (contacts db) = Some c"
  shows "books_ok db' \<and>
    outstanding (computeDirection now' b c d db') = outstanding (computeDirection now b c d db) - m \<and>
    (\<not> truthy applied \<longrightarrow> 0 \<le> outstanding (computeDirection now' b c d db')) \<and>
    (truthy applied \<longrightarrow> (\<exists>t \<in> set (bd_transactions (computeDirection now b c d db)).
       Some (ib_transactionId t) = applied \<and> m \<le> ib_remainingAmount t)) \<and>
    (side_account b (other_side d) db \<noteq> None \<longrightarrow>
      outstanding (computeDirection now' b c (other_side d) db') = outstanding (computeDirection now b c (other_side d) db))"
  using assms(3)
proof (rule payment_madeE)
  fix c2 a y t es date desc
  assume "find_row ct_id cid (contacts db) = Some c2" and a: "side_account b d db = Some a"
    and y: "find_row acc_id (acc_id y) (accounts db) = Some y" "subtype_in MONEY_ACCOUNT_SUBTYPES (acc_accountSubtype y)"
    and valid: "validatePaymentAmount now b c2 d m applied db = Inr ()"
    and post: "post_new gen now b (contact_request PAYMENT date None desc None (ct_id c2) applied
       (if d = RECEIVABLE then [entry_for (acc_id y) DEBIT m, entry_for (acc_id a) CREDIT m]
        else [entry_for (acc_id a) DEBIT m, entry_for (acc_id y) CREDIT m])) user db = Inr (db', t, es)"
  then have c2: "c2 = c" using assms(4) by simp
  have ne: "acc_id z \<noteq> acc_id y" if "side_account b e db = Some z" for z e
    using same_account [OF assms(1) y(1) side_account_Some(1) [OF that]] side_not_money [OF that] y(2) by metis
  have x: "acc_id z \<noteq> acc_id a" if "side_account b (other_side d) db = Some z" for z
    using find_row_mem [OF books_okD(5) [OF assms(1)]] side_account_Some [OF that] side_account_Some [OF a]
    by (cases d) (auto simp: other_side_def, (metis option.inject account_type.distinct(1))+)
  have eff: "outstanding (computeDirection now' b c e db') = outstanding (computeDirection now b c e db) + (if acc_id z = acc_id a then - m else 0)"
    "books_ok db'" if z: "side_account b e db = Some z" for e z
  proof -
    have it: "PAYMENT \<noteq> invoice_type e" by (simp add: invoice_type_def)
    have "outstanding (computeDirection now' b c e db') = outstanding (computeDirection now b c e db) + (if acc_id z = acc_id a then - m else 0) \<and> books_ok db'"
    proof (cases "d = RECEIVABLE")
      case True
      have p: "post_new gen now b (contact_request PAYMENT date None desc None (ct_id c) applied
          [entry_for (acc_id y) DEBIT m, entry_for (acc_id a) CREDIT m]) user db = Inr (db', t, es)" using post True c2 by simp
      from contact_posting_effect(1) [OF assms(1,2) z _ p, of now' now] contact_posting_effect(2) [OF assms(1,2) z _ p]
        ne [OF a] ne [OF z] it show ?thesis by auto
    next
      case False
      have p: "post_new gen now b (contact_request PAYMENT date None desc None (ct_id c) applied
          [entry_for (acc_id a) DEBIT m, entry_for (acc_id y) CREDIT m]) user db = Inr (db', t, es)" using post False c2 by simp
      from contact_posting_effect(1) [OF assms(1,2) z _ p, of now' now] contact_posting_effect(2) [OF assms(1,2) z _ p]
        ne [OF a] ne [OF z] it show ?thesis by auto
    qed
    then show "outstanding (computeDirection now' b c e db') = outstanding (computeDirection now b c e db) + (if acc_id z = acc_id a then - m else 0)"
      "books_ok db'" by blast+
  qed
  have d1: "outstanding (computeDirection now' b c d db') = outstanding (computeDirection now b c d db) - m" using eff(1) [OF a] by simp
  moreover have "m \<le> outstanding (computeDirection now b c d db)" if "\<not> truthy applied"
    using valid that c2 by (simp add: validatePaymentAmount_def Let_def outstanding_def result_simps)
  moreover have "\<exists>t \<in> set (bd_transactions (computeDirection now b c d db)). Some (ib_transactionId t) = applied \<and> m \<le> ib_remainingAmount t"
    if "truthy applied"
    using valid that c2
    by (auto simp: validatePaymentAmount_def Let_def result_simps find_Some_iff elim!: truthyE split: option.splits)
  moreover have "outstanding (computeDirection now' b c (other_side d) db') = outstanding (computeDirection now b c (other_side d) db)"
    if "side_account b (other_side d) db \<noteq> None"
    using that eff(1) x by (cases "side_account b (other_side d) db") auto
  ultimately show ?thesis using eff(2) [OF a] by simp
qed

text \<open>What recording a credit sale or purchase means, for both directions.\<close>

definition credit_recorded :: "id_source \<Rightarrow> instant \<Rightarrow> id \<Rightarrow> id \<Rightarrow> direction \<Rightarrow> money \<Rightarrow> id \<Rightarrow> db \<Rightarrow> db \<Rightarrow> bool" where
  "credit_recorded gen now b cid d m user db db' \<longleftrightarrow>
     (d = RECEIVABLE \<and> (\<exists>dto p. recordSale gen now b dto user db = Inr (db', p) \<and> rd_contactId dto = cid \<and> rd_amount dto = m)) \<or>
     (d = PAYABLE \<and> (\<exists>dto p. recordPurchase gen now b dto user db = Inr (db', p) \<and> pd_contactId dto = cid \<and> pd_amount dto = m))"

text \<open>The account on the other side of a credit posting: cash for a loan, income or expense otherwise.\<close>

definition credit_counterpart :: "direction \<Rightarrow> contact \<Rightarrow> account \<Rightarrow> bool" where
  "credit_counterpart d c x \<longleftrightarrow>
     (if ct_category c = LOAN then acc_accountType x = ASSET \<and> subtype_in MONEY_ACCOUNT_SUBTYPES (acc_accountSubtype x)
      else acc_accountType x = (if d = RECEIVABLE then account_type.INCOME else account_type.EXPENSE))"

lemma credit_recordedE:
  assumes "credit_recorded gen now b cid d m user db db'"
  obtains c a x t es date due desc ref where "find_row ct_id cid (contacts db) = Some c" "side_account b d db = Some a"
    "ct_type c = contact_type_of d \<or> ct_type c = BOTH"
    "find_row acc_id (acc_id x) (accounts db) = Some x" "credit_counterpart d c x"
    "post_new gen now b (contact_request (invoice_type d) date due desc ref (ct_id c) None
       (if d = RECEIVABLE then [entry_for (acc_id a) DEBIT m, entry_for (acc_id x) CREDIT m]
        else [entry_for (acc_id x) DEBIT m, entry_for (acc_id a) CREDIT m])) user db = Inr (db', t, es)"
proof (cases "d = RECEIVABLE")
  case True
  with assms obtain dto t es where run: "recordSale gen now b dto user db = Inr (db', t, es)" "rd_contactId dto = cid"
      "rd_amount dto = m" by (auto simp: credit_recorded_def)
  from run(1) obtain c a x where "find_row ct_id (rd_contactId dto) (contacts db) = Some c"
      "ct_type c = CUSTOMER \<or> ct_type c = BOTH" "findSystemAccount b ''receivable'' ASSET db = Some a"
    and other: "(if ct_category c = LOAN then requireMoneyAccountForLoan b (rd_moneyAccountId dto) db
        else rbind (case rd_incomeAccountId dto of Some i \<Rightarrow> Inr i | None \<Rightarrow> rp_getDefaultIncomeAccountId b db) (\<lambda>i.
          rp_requireAccountOfType b i account_type.INCOME ''incomeAccountId'' db)) = Inr x"
    and p: "post_new gen now b (contact_request SALE (rd_date dto) (rd_dueDate dto) (rd_description dto) (rd_referenceNo dto) (ct_id c) None
        [entry_for (acc_id a) DEBIT (rd_amount dto), entry_for (acc_id x) CREDIT (rd_amount dto)]) user db = Inr (db', t, es)"
    unfolding recordSale_def contact_request_posts rbind_eq_Inr check_eq_Inr rp_require_eq_Inr by blast
  moreover have x: "(\<exists>i. find_row acc_id i (accounts db) = Some x) \<and> credit_counterpart RECEIVABLE c x"
    using other by (cases "ct_category c = LOAN") (auto simp: rbind_eq_Inr result_simps credit_counterpart_def)
  moreover have "find_row acc_id (acc_id x) (accounts db) = Some x" using x by (auto dest: find_row_Some)
  ultimately show thesis using run(2,3) True
    by (intro that [of c a x]) (auto simp: side_account_def contact_type_of_def invoice_type_def)
next
  case False
  then have d: "d = PAYABLE" by (cases d) auto
  with assms obtain dto t es where run: "recordPurchase gen now b dto user db = Inr (db', t, es)" "pd_contactId dto = cid"
      "pd_amount dto = m" by (auto simp: credit_recorded_def)
  from run(1) obtain c a x where "find_row ct_id (pd_contactId dto) (contacts db) = Some c"
      "ct_type c = SUPPLIER \<or> ct_type c = BOTH" "findSystemAccount b ''payable'' LIABILITY db = Some a"
    and other: "(if ct_category c = LOAN then requireMoneyAccountForLoan b (pd_moneyAccountId dto) db
        else rbind (case pd_expenseAccountId dto of Some i \<Rightarrow> Inr i | None \<Rightarrow> rp_getDefaultExpenseAccountId b db) (\<lambda>i.
          rp_requireAccountOfType b i account_type.EXPENSE ''expenseAccountId'' db)) = Inr x"
    and p: "post_new gen now b (contact_request PURCHASE (pd_date dto) (pd_dueDate dto) (pd_description dto) (pd_referenceNo dto) (ct_id c) None
        [entry_for (acc_id x) DEBIT (pd_amount dto), entry_for (acc_id a) CREDIT (pd_amount dto)]) user db = Inr (db', t, es)"
    unfolding recordPurchase_def contact_request_posts rbind_eq_Inr check_eq_Inr rp_require_eq_Inr by blast
  moreover have x: "(\<exists>i. find_row acc_id i (accounts db) = Some x) \<and> credit_counterpart PAYABLE c x"
    using other by (cases "ct_category c = LOAN") (auto simp: rbind_eq_Inr result_simps credit_counterpart_def)
  moreover have "find_row acc_id (acc_id x) (accounts db) = Some x" using x by (auto dest: find_row_Some)
  ultimately show thesis using run(2,3) d
    by (intro that [of c a x]) (auto simp: side_account_def contact_type_of_def invoice_type_def)
qed

text \<open>
  A credit sale or purchase raises what is owed in its direction by exactly its amount. Money
  moves only where the contact is one of loans: giving a loan takes the amount from a cash, bank or
  mobile-money account, taking one adds it to such an account; a business sale or purchase books
  income or expense instead and moves no cash.
\<close>

theorem credit_raises_what_is_owed:
  assumes "books_ok db" and "ids_drawn gen" and "credit_recorded gen now b cid d m user db db'"
    and "find_row ct_id cid (contacts db) = Some c"
  shows "books_ok db' \<and> (ct_type c = contact_type_of d \<or> ct_type c = BOTH) \<and>
    outstanding (computeDirection now' b c d db') = outstanding (computeDirection now b c d db) + m \<and>
    (\<exists>a x. side_account b d db = Some a \<and> credit_counterpart d c x \<and>
      moves_money (\<lambda>z. if acc_id z = acc_id a then m else if acc_id z = acc_id x
        then (if ct_category c = LOAN \<and> d = RECEIVABLE then - m else m) else 0) db db')"
  using assms(3)
proof (rule credit_recordedE)
  fix c2 a x t es date due desc ref
  assume "find_row ct_id cid (contacts db) = Some c2" and a: "side_account b d db = Some a"
    and ty: "ct_type c2 = contact_type_of d \<or> ct_type c2 = BOTH"
    and x: "find_row acc_id (acc_id x) (accounts db) = Some x" "credit_counterpart d c2 x"
    and post: "post_new gen now b (contact_request (invoice_type d) date due desc ref (ct_id c2) None
       (if d = RECEIVABLE then [entry_for (acc_id a) DEBIT m, entry_for (acc_id x) CREDIT m]
        else [entry_for (acc_id x) DEBIT m, entry_for (acc_id a) CREDIT m])) user db = Inr (db', t, es)"
  then have c2: "c2 = c" using assms(4) by simp
  note sa = side_account_Some [OF a] side_not_money [OF a]
  have ne: "acc_id a \<noteq> acc_id x"
    using same_account [OF assms(1) x(1) sa(1)] sa(2,4) x(2) by (auto simp: credit_counterpart_def split: if_splits)
  have fa: "find_row acc_id (acc_id a) (accounts db) = Some a" using find_row_mem [OF books_okD(5) [OF assms(1)] sa(1)] .
  have "outstanding (computeDirection now' b c d db') = outstanding (computeDirection now b c d db) + m \<and> books_ok db' \<and>
      moves_money (\<lambda>z. if acc_id z = acc_id a then m else if acc_id z = acc_id x
        then (if ct_category c = LOAN \<and> d = RECEIVABLE then - m else m) else 0) db db'"
  proof (cases "d = RECEIVABLE")
    case True
    have p: "post_new gen now b (contact_request (invoice_type d) date due desc ref (ct_id c) None
        [entry_for (acc_id a) DEBIT m, entry_for (acc_id x) CREDIT m]) user db = Inr (db', t, es)" using post True c2 by simp
    note te = two_entries(2) [OF assms(1,2) p, of "entry_for (acc_id a) DEBIT m" a "entry_for (acc_id x) CREDIT m" x m]
    have mv: "moves_money (\<lambda>z. if acc_id z = acc_id a then signed a m else if acc_id z = acc_id x then - signed x m else 0) db db'"
      using te fa x(1) ne by simp
    have v: "signed a m = m" "- signed x m = (if ct_category c = LOAN \<and> d = RECEIVABLE then - m else m)"
      using sa(2) x(2) True c2 by (auto simp: credit_counterpart_def split: if_splits)
    show ?thesis
      using mv [unfolded v] contact_posting_effect(1) [OF assms(1,2) a ne p, of now' now] contact_posting_effect(2) [OF assms(1,2) a ne p] by simp
  next
    case False
    have p: "post_new gen now b (contact_request (invoice_type d) date due desc ref (ct_id c) None
        [entry_for (acc_id x) DEBIT m, entry_for (acc_id a) CREDIT m]) user db = Inr (db', t, es)" using post False c2 by simp
    note te = two_entries(2) [OF assms(1,2) p, of "entry_for (acc_id x) DEBIT m" x "entry_for (acc_id a) CREDIT m" a m]
    have mv: "moves_money (\<lambda>z. if acc_id z = acc_id x then signed x m else if acc_id z = acc_id a then - signed a m else 0) db db'"
      using te fa x(1) ne by simp
    have v: "- signed a m = m" "signed x m = m"
      using sa(2) x(2) False c2 by (auto simp: credit_counterpart_def split: if_splits)
    have sw: "(\<lambda>z. if acc_id z = acc_id x then m else if acc_id z = acc_id a then m else 0) =
        (\<lambda>z. if acc_id z = acc_id a then m else if acc_id z = acc_id x then (if ct_category c = LOAN \<and> d = RECEIVABLE then - m else m) else 0)"
      using False by (auto simp: fun_eq_iff)
    show ?thesis
      using mv [unfolded v sw] contact_posting_effect(1) [OF assms(1,2) a ne [symmetric] p, of now' now]
        contact_posting_effect(2) [OF assms(1,2) a ne [symmetric] p] by simp
  qed
  then show ?thesis using a x(2) [unfolded c2] ty [unfolded c2] by blast
qed

section \<open>The reports\<close>

definition all_buckets :: "(aging_bucket \<Rightarrow> money) \<Rightarrow> money" where
  "all_buckets f = f Current + f Days1to30 + f Days31to60 + f Over60"

lemma all_buckets_add: "all_buckets (add_to_bucket today t f) = all_buckets f + max 0 (ib_remainingAmount t)"
  by (cases "bucketFor (ib_dueDate t) today") (simp_all add: all_buckets_def add_to_bucket_def)

lemma all_buckets_fold: "all_buckets (fold (add_to_bucket today) ts f) = all_buckets f + sum_by (\<lambda>t. max 0 (ib_remainingAmount t)) ts"
  by (induction ts arbitrary: f) (simp_all add: all_buckets_add)

lemma fold_add_to_bucket: "fold (add_to_bucket today) ts f k = f k + fold (add_to_bucket today) ts (\<lambda>_. 0) k"
proof (induction ts arbitrary: f)
  case (Cons t ts)
  have "fold (add_to_bucket today) (t # ts) f k = add_to_bucket today t f k + fold (add_to_bucket today) ts (\<lambda>_. 0) k"
    using Cons.IH [of "add_to_bucket today t f"] by simp
  moreover have "add_to_bucket today t f k = f k + add_to_bucket today t (\<lambda>_. 0) k" by (simp add: add_to_bucket_def)
  ultimately show ?case using Cons.IH [of "add_to_bucket today t (\<lambda>_. 0)"] by simp
qed simp

lemma sum_by_le: "(\<And>x. x \<in> set xs \<Longrightarrow> f x \<le> g x) \<Longrightarrow> sum_by f xs \<le> sum_by g xs"
  by (induction xs) (auto intro: add_mono)

lemma remaining_is_the_rest:
  assumes "books_ok db" and "side_account b d db = Some a" and bd: "bd = computeDirection now b c d db" and pos: "0 < bd_remaining bd"
    and paid: "\<And>t. t \<in> set (bd_transactions bd) \<Longrightarrow> ib_amountPaid t \<le> ib_originalAmount t"
  shows "bd_remaining bd = sum_by ib_remainingAmount (bd_transactions bd)"
proof -
  from payments_accounted [OF assms(1-3)] obtain surplus where s: "0 \<le> surplus"
      "bd_totalPaid bd = sum_by ib_amountPaid (bd_transactions bd) + (bd_openingOwed bd - bd_openingRemaining bd) + surplus"
      "0 < surplus \<longrightarrow> (\<forall>t \<in> set (bd_transactions bd). ib_remainingAmount t = 0)" by blast
  from assms(1-3) have r: "bd_remaining bd = bd_totalInvoiced bd - (bd_totalPaid bd - (bd_openingOwed bd - bd_openingRemaining bd))"
    by (rule computeDirectionE) simp
  have inv: "bd_totalInvoiced bd = sum_by ib_originalAmount (bd_transactions bd)"
    by (simp add: bd computeDirection_def Let_def split: option.splits prod.splits)
  have row: "ib_remainingAmount t = max 0 (ib_originalAmount t - ib_amountPaid t)" if "t \<in> set (bd_transactions bd)" for t
    using that by (auto simp: bd computeDirection_def Let_def invoice_row_def split: option.splits prod.splits)
  then have rem: "sum_by ib_remainingAmount (bd_transactions bd) = sum_by ib_originalAmount (bd_transactions bd) - sum_by ib_amountPaid (bd_transactions bd)"
    unfolding sum_by_diff [symmetric] using paid by (intro sum_by_cong) simp
  have "surplus = 0"
  proof (rule ccontr)
    assume "surplus \<noteq> 0"
    with s have "sum_by ib_remainingAmount (bd_transactions bd) = sum_by (\<lambda>_. 0) (bd_transactions bd)" by (intro sum_by_cong) simp
    with rem r inv s pos show False by simp
  qed
  with rem r inv s(2) show ?thesis by simp
qed

definition aging_ok :: "instant \<Rightarrow> id \<Rightarrow> direction \<Rightarrow> db \<Rightarrow> aging_row \<Rightarrow> bool" where
  "aging_ok now b d db r \<longleftrightarrow> (\<exists>c \<in> set (contacts db). ct_id c = ar_contactId r \<and> ct_businessId c = b \<and>
     (let bd = computeDirection now b c d db in
      ar_total r = bd_remaining bd \<and> 0 < ar_total r \<and>
      all_buckets (ar_bucket r) = sum_by ib_remainingAmount (bd_transactions bd) \<and>
      ((\<forall>t \<in> set (bd_transactions bd). ib_amountPaid t \<le> ib_originalAmount t) \<longrightarrow> all_buckets (ar_bucket r) = ar_total r)))"

lemma age_contact_ok:
  assumes books: "books_ok db" and c: "c \<in> set (contacts db)" "ct_businessId c = b"
    and inv: "(\<forall>k. ag_buckets report k = sum_by (\<lambda>r. ar_bucket r k) (ag_contacts report)) \<and> (\<forall>r \<in> set (ag_contacts report). aging_ok now b d db r)"
  shows "(\<forall>k. ag_buckets (age_contact now b d db c report) k = sum_by (\<lambda>r. ar_bucket r k) (ag_contacts (age_contact now b d db c report))) \<and>
    (\<forall>r \<in> set (ag_contacts (age_contact now b d db c report)). aging_ok now b d db r)"
proof (cases "bd_remaining (computeDirection now b c d db) \<le> 0")
  case True
  with inv show ?thesis by (simp add: age_contact_def Let_def)
next
  case False
  define bd where "bd = computeDirection now b c d db"
  have pos: "0 < bd_remaining bd" using False by (simp add: bd_def)
  obtain a where side: "side_account b d db = Some a"
    using False by (cases "side_account b d db") (auto simp: computeDirection_def Let_def)
  define row where "row = \<lparr>ar_contactId = ct_id c, ar_contactName = ct_name c,
    ar_bucket = fold (add_to_bucket (dhakaDateOnly now)) (bd_transactions bd) (\<lambda>_. 0),
    ar_total = bd_remaining bd, ar_totalInvoiced = bd_totalInvoiced bd, ar_totalPaid = bd_totalPaid bd\<rparr>"
  have nn: "0 \<le> ib_remainingAmount t" if "t \<in> set (bd_transactions bd)" for t
    using that by (auto simp: bd_def computeDirection_def Let_def invoice_row_def split: option.splits prod.splits)
  have "sum_by (\<lambda>t. max 0 (ib_remainingAmount t)) (bd_transactions bd) = sum_by ib_remainingAmount (bd_transactions bd)"
    using nn by (intro sum_by_cong) simp
  then have buckets: "all_buckets (ar_bucket row) = sum_by ib_remainingAmount (bd_transactions bd)"
    by (simp add: row_def all_buckets_fold) (simp add: all_buckets_def)
  have "aging_ok now b d db row"
    unfolding aging_ok_def Let_def
    using c pos buckets remaining_is_the_rest [OF books side refl, of now c] by (intro bexI [of _ c]) (auto simp: row_def bd_def)
  moreover have "age_contact now b d db c report = report\<lparr>
      ag_buckets := fold (add_to_bucket (dhakaDateOnly now)) (bd_transactions bd) (ag_buckets report), ag_contacts := ag_contacts report @ [row]\<rparr>"
    using False by (simp add: age_contact_def Let_def row_def bd_def)
  ultimately show ?thesis
    using inv fold_add_to_bucket [of "dhakaDateOnly now" "bd_transactions bd" "ag_buckets report"] by (auto simp: row_def)
qed

text \<open>
  The aging report adds up. Each bucket of the report is the sum of that bucket over the
  contacts it lists; each contact listed still owes something, its four buckets together are what
  is left of its invoices, and that is the total shown for it as long as no invoice was paid
  beyond its amount.
\<close>

theorem getAging_adds_up:
  assumes "books_ok db" and "report = getAging collate now b d db"
  shows "(\<forall>k. ag_buckets report k = sum_by (\<lambda>r. ar_bucket r k) (ag_contacts report)) \<and>
    (\<forall>r \<in> set (ag_contacts report). aging_ok now b d db r)"
proof -
  have all: "(\<forall>k. ag_buckets (fold (age_contact now b d db) cs rep) k = sum_by (\<lambda>r. ar_bucket r k) (ag_contacts (fold (age_contact now b d db) cs rep))) \<and>
      (\<forall>r \<in> set (ag_contacts (fold (age_contact now b d db) cs rep)). aging_ok now b d db r)"
    if "set cs \<subseteq> set (direction_contacts b d db)"
      "(\<forall>k. ag_buckets rep k = sum_by (\<lambda>r. ar_bucket r k) (ag_contacts rep)) \<and> (\<forall>r \<in> set (ag_contacts rep). aging_ok now b d db r)" for cs rep
    using that
  proof (induction cs arbitrary: rep)
    case (Cons c cs)
    have "c \<in> set (contacts db)" "ct_businessId c = b" using Cons.prems(1) by (auto simp: direction_contacts_def)
    from age_contact_ok [OF assms(1) this Cons.prems(2)] Cons.IH Cons.prems(1) show ?case by simp
  qed simp
  show ?thesis unfolding assms(2) getAging_def by (rule all) simp_all
qed

section \<open>Sample books with two open invoices\<close>

definition plain_contact :: "id \<Rightarrow> contact_type \<Rightarrow> contact_category \<Rightarrow> money \<Rightarrow> contact" where
  "plain_contact i ty cat opening = \<lparr>ct_id = i, ct_businessId = ''w'', ct_name = i, ct_type = ty, ct_category = cat, ct_phone = Some ''1'',
     ct_email = None, ct_address = None, ct_photoUrl = None, ct_openingBalance = opening, ct_status = record_status.ACTIVE, ct_notes = None\<rparr>"

definition owed_books :: db where
  "owed_books = empty_db\<lparr>
     accounts := [plain_account ''cash'' ASSET (Some ''cash'') 1000 1000,
       (plain_account ''ar'' ASSET (Some ''receivable'') 0 800)\<lparr>acc_isSystemAccount := True\<rparr>,
       (plain_account ''ap'' LIABILITY (Some ''payable'') 0 0)\<lparr>acc_isSystemAccount := True\<rparr>,
       plain_account ''inc'' account_type.INCOME None 0 800],
     contacts := [plain_contact ''c'' BOTH contact_category.BUSINESS 200],
     txns := [(plain_txn ''s1'' SALE 0)\<lparr>tx_contactId := Some ''c''\<rparr>, (plain_txn ''s2'' SALE day_ms)\<lparr>tx_contactId := Some ''c''\<rparr>],
     entries := [plain_entry ''e1'' ''s1'' ''ar'' DEBIT 500, plain_entry ''e2'' ''s1'' ''inc'' CREDIT 500,
       plain_entry ''e3'' ''s2'' ''ar'' DEBIT 300, plain_entry ''e4'' ''s2'' ''inc'' CREDIT 300]\<rparr>"

lemma owed_books_sound: "books_ok owed_books"
proof -
  have "\<forall>t \<in> set (txns owed_books). balanced_txn owed_books t"
    by (simp add: owed_books_def plain_rows balanced_txn_def entries_of_def)
  moreover have "same_workspace owed_books" by (simp add: same_workspace_def owed_books_def plain_rows)
  moreover have "keyed tx_id (txns owed_books)" "keyed en_id (entries owed_books)" "keyed acc_id (accounts owed_books)"
    "[] \<notin> tx_id ` set (txns owed_books)" "\<forall>e \<in> set (entries owed_books). 0 < en_amount e"
    by (simp_all add: owed_books_def plain_rows)
  moreover have "reversals_ok owed_books" by (simp add: reversals_ok_def owed_books_def plain_rows reversals_def)
  moreover have "balance_cached owed_books" "voids_net owed_books" "fk_entries owed_books"
    by (simp_all add: owed_books_def plain_rows balance_cached_def true_balance_def account_entries_def
      entry_delta_def isDebitPositive_def voids_net_def dead_entries_def on_txn_def txn_of_def live_txn_def fk_entries_def)
  ultimately show ?thesis by (simp add: books_ok_def ledger_core_def)
qed

lemma owed_books_side: "\<exists>a. side_account ''w'' RECEIVABLE owed_books = Some a"
  by (simp add: side_account_def findSystemAccount_def find_first_def find_many_def owed_books_def plain_rows)

lemmas direction_defs = computeDirection_def side_account_def findSystemAccount_def find_first_def find_many_def invoices_of_def
  contact_txns_def invoice_type_def live_txn_def relevant_payments_def entry_amount_def entries_of_def opening_owed_def
  no_invoices_paid_def invoice_row_def apply_payment_def plain_contact_def empty_db_def

lemma owed_books_two: "length (bd_transactions (computeDirection 9 ''w'' (plain_contact ''c'' BOTH contact_category.BUSINESS 200) RECEIVABLE owed_books)) = 2"
  by (simp add: direction_defs owed_books_def plain_rows Let_def split: prod.splits)

lemma payments_settle_oldest_first_witness:
  "ib_date (bd_transactions (computeDirection 9 ''w'' (plain_contact ''c'' BOTH contact_category.BUSINESS 200) RECEIVABLE owed_books) ! 0) \<le>
   ib_date (bd_transactions (computeDirection 9 ''w'' (plain_contact ''c'' BOTH contact_category.BUSINESS 200) RECEIVABLE owed_books) ! 1)"
  using owed_books_side payments_settle_oldest_first [OF owed_books_sound _ refl, of "''w''" RECEIVABLE _ 0 1 9
      "plain_contact ''c'' BOTH contact_category.BUSINESS 200"] owed_books_two by auto

lemma every_payment_counted_once_witness:
  "\<exists>surplus \<ge> 0. bd_totalPaid (computeDirection 9 ''w'' (plain_contact ''c'' BOTH contact_category.BUSINESS 200) RECEIVABLE owed_books) =
     sum_by ib_amountPaid (bd_transactions (computeDirection 9 ''w'' (plain_contact ''c'' BOTH contact_category.BUSINESS 200) RECEIVABLE owed_books)) +
     (bd_openingOwed (computeDirection 9 ''w'' (plain_contact ''c'' BOTH contact_category.BUSINESS 200) RECEIVABLE owed_books) -
      bd_openingRemaining (computeDirection 9 ''w'' (plain_contact ''c'' BOTH contact_category.BUSINESS 200) RECEIVABLE owed_books)) + surplus"
  using owed_books_side every_payment_counted_once [OF owed_books_sound _ refl] by blast

definition sample_payment :: receive_payment_dto where
  "sample_payment = \<lparr>rp_contactId = ''c'', rp_amount = 600, rp_date = 0, rp_moneyAccountId = ''cash'', rp_description = None, rp_appliedTo = None\<rparr>"

definition sample_sale :: create_receivable_dto where
  "sample_sale = \<lparr>rd_contactId = ''c'', rd_amount = 50, rd_date = 0, rd_dueDate = None, rd_description = None, rd_referenceNo = None,
     rd_incomeAccountId = None, rd_moneyAccountId = None\<rparr>"

lemma sample_payment_valid:
  "validatePaymentAmount 9 ''w'' (plain_contact ''c'' BOTH contact_category.BUSINESS 200) RECEIVABLE 600 None owed_books = Inr ()"
  by (simp add: validatePaymentAmount_def direction_defs owed_books_def plain_rows Let_def split: prod.splits)

lemma sample_payment_ok: "\<exists>d p. receivePayment (draw CHR ''p'') 9 ''w'' sample_payment ''u'' owed_books = Inr (d, p)"
proof -
  have c: "rp_requireContact ''w'' ''c'' owed_books = Inr (plain_contact ''c'' BOTH contact_category.BUSINESS 200)"
    by (simp add: rp_requireContact_def require_row_def owed_books_def plain_contact_def)
  show ?thesis
    unfolding receivePayment_def sample_payment_def receive_payment_dto.select_convs c rbind_Inr sample_payment_valid
    by (simp add: requireSystemAccount_def findSystemAccount_def find_first_def find_many_def rp_requireMoneyAccount_def contact_request_def
        quick_defs owed_books_def plain_contact_def empty_db_def Let_def)
qed

lemma payment_reduces_what_is_owed_witness:
  "\<exists>d. payment_made (draw CHR ''p'') 9 ''w'' ''c'' RECEIVABLE 600 None ''u'' owed_books d \<and> books_ok d"
proof -
  obtain d p where "receivePayment (draw CHR ''p'') 9 ''w'' sample_payment ''u'' owed_books = Inr (d, p)" using sample_payment_ok by blast
  then have m: "payment_made (draw CHR ''p'') 9 ''w'' ''c'' RECEIVABLE 600 None ''u'' owed_books d"
    unfolding payment_made_def by (intro disjI1 conjI exI [of _ sample_payment] exI [of _ p] refl) (simp_all add: sample_payment_def)
  have "find_row ct_id ''c'' (contacts owed_books) = Some (plain_contact ''c'' BOTH contact_category.BUSINESS 200)"
    by (simp add: owed_books_def plain_contact_def)
  from payment_reduces_what_is_owed [OF owed_books_sound ids_drawn_draw m this] m show ?thesis by blast
qed

lemma credit_raises_what_is_owed_witness:
  "\<exists>d. credit_recorded (draw CHR ''p'') 9 ''w'' ''c'' RECEIVABLE 50 ''u'' owed_books d \<and> books_ok d"
proof -
  have "\<exists>d p. recordSale (draw CHR ''p'') 9 ''w'' sample_sale ''u'' owed_books = Inr (d, p)"
    by (simp add: recordSale_def sample_sale_def rp_requireContact_def requireSystemAccount_def findSystemAccount_def find_first_def find_many_def
        rp_getDefaultIncomeAccountId_def rp_default_account_def rp_requireAccountOfType_def contact_request_def
        quick_defs owed_books_def plain_contact_def empty_db_def Let_def)
  then obtain d p where "recordSale (draw CHR ''p'') 9 ''w'' sample_sale ''u'' owed_books = Inr (d, p)" by blast
  then have m: "credit_recorded (draw CHR ''p'') 9 ''w'' ''c'' RECEIVABLE 50 ''u'' owed_books d"
    unfolding credit_recorded_def by (intro disjI1 conjI exI [of _ sample_sale] exI [of _ p] refl) (simp_all add: sample_sale_def)
  have "find_row ct_id ''c'' (contacts owed_books) = Some (plain_contact ''c'' BOTH contact_category.BUSINESS 200)"
    by (simp add: owed_books_def plain_contact_def)
  from credit_raises_what_is_owed [OF owed_books_sound ids_drawn_draw m this] m show ?thesis by blast
qed

lemma owed_books_owed: "0 < bd_remaining (computeDirection 9 ''w'' (plain_contact ''c'' BOTH contact_category.BUSINESS 200) RECEIVABLE owed_books)"
  by (simp add: direction_defs owed_books_def plain_rows Let_def split: prod.splits)

lemma owed_books_aging: "length (ag_contacts (getAging (\<lambda>_. 0) 9 ''w'' RECEIVABLE owed_books)) = 1"
proof -
  have "direction_contacts ''w'' RECEIVABLE owed_books = [plain_contact ''c'' BOTH contact_category.BUSINESS 200]"
    by (simp add: direction_contacts_def contact_type_of_def find_many_def owed_books_def plain_contact_def)
  with owed_books_owed show ?thesis by (simp add: getAging_def age_contact_def Let_def)
qed

lemma getAging_adds_up_witness:
  "\<exists>r. ag_contacts (getAging (\<lambda>_. 0) 9 ''w'' RECEIVABLE owed_books) = [r] \<and> aging_ok 9 ''w'' RECEIVABLE owed_books r"
proof -
  obtain r where r: "ag_contacts (getAging (\<lambda>_. 0) 9 ''w'' RECEIVABLE owed_books) = [r]"
    using owed_books_aging by (auto simp: length_Suc_conv)
  then show ?thesis using getAging_adds_up [OF owed_books_sound refl, of "\<lambda>_. 0" 9 "''w''" RECEIVABLE] by simp
qed

section \<open>Two balances of one contact\<close>

definition journal_dto :: create_txn_dto where
  "journal_dto = contact_request JOURNAL 0 None None None ''c'' None [entry_for ''ar'' DEBIT 400, entry_for ''inc'' CREDIT 400]"

text \<open>
  The loan statement counts every entry of a contact on the receivable and payable accounts,
  the current balance only its sales, purchases and payments: after a journal posting that names
  the contact, the statement closes on another amount than the contact's current balance.
\<close>

theorem loan_statement_and_balance_part:
  "\<exists>d p st. createTransaction owed_books (draw CHR ''j'') (draw CHR ''k'') 9 ''w'' journal_dto ''u'' owed_books = Inr (d, p) \<and>
     getLoanStatement ''w'' ''c'' None None d = Inr st \<and> ls_closingBalance st = 1400 \<and>
     getContactCurrentBalance 9 ''w'' (plain_contact ''c'' BOTH contact_category.BUSINESS 200) d = 1000"
proof -
  obtain d p where d: "createTransaction owed_books (draw CHR ''j'') (draw CHR ''k'') 9 ''w'' journal_dto ''u'' owed_books = Inr (d, p)"
    and a: "accounts d = [plain_account ''cash'' ASSET (Some ''cash'') 1000 1000,
       (plain_account ''ar'' ASSET (Some ''receivable'') 0 1200)\<lparr>acc_isSystemAccount := True\<rparr>,
       (plain_account ''ap'' LIABILITY (Some ''payable'') 0 0)\<lparr>acc_isSystemAccount := True\<rparr>,
       plain_account ''inc'' account_type.INCOME None 0 1200]"
    and t: "txns d = txns owed_books @ [txn_row (draw CHR ''j'') 9 ''w'' journal_dto ''u'']"
    and e: "entries d = entries owed_books @ entry_rows (draw CHR ''j'') (td_entries journal_dto)"
    and c: "contacts d = contacts owed_books"
    by (simp add: journal_dto_def contact_request_def quick_defs owed_books_def plain_contact_def empty_db_def Let_def)
  let ?c = "plain_contact ''c'' BOTH contact_category.BUSINESS 200"
  have "\<exists>st. getLoanStatement ''w'' ''c'' None None d = Inr st \<and> ls_closingBalance st = 1400"
    by (simp add: getLoanStatement_def rp_requireContact_def require_row_def a t e c findSystemAccount_def find_first_def find_many_def
        on_txn_def txn_of_def principal_delta_def statement_row_of_def
        journal_dto_def contact_request_def quick_defs owed_books_def plain_contact_def empty_db_def Let_def List.map_filter_def day_ms_def)
  moreover have "getContactCurrentBalance 9 ''w'' ?c d = 1000"
    by (simp add: getContactCurrentBalance_def direction_defs a t e c journal_dto_def contact_request_def quick_defs owed_books_def
        Let_def day_ms_def split: prod.splits)
  ultimately show ?thesis using d by blast
qed

end
