(* ===== verification/Contacts.thy ===== *)
theory Contacts
  imports Receivables_Facts
begin

text \<open>
  Contacts (src/contacts/contacts.service.ts): the people and firms a workspace trades with. The
  balance shown with one is computed from its transactions (theory \<open>Receivables\<close>).
\<close>

section \<open>Requests and answers\<close>

record create_contact_dto =
  cc_name :: string
  cc_type :: contact_type
  cc_category :: "contact_category option"
  cc_phone :: "string option"
  cc_email :: "string option"
  cc_address :: "string option"
  cc_photoUrl :: "string option"
  cc_openingBalance :: "money option"
  cc_notes :: "string option"

record update_contact_dto =
  uc_name :: "string option"
  uc_type :: "contact_type option"
  uc_category :: "contact_category option"
  uc_phone :: "string option option"
  uc_email :: "string option option"
  uc_address :: "string option option"
  uc_photoUrl :: "string option option"
  uc_notes :: "string option option"

record contact_filters =
  cf_type :: "contact_type option"
  cf_category :: "contact_category option"
  cf_status :: "record_status option"
  cf_search :: "string option"
  cf_page :: "nat option"
  cf_limit :: "nat option"

record contact_row =
  cr_contact :: contact
  cr_currentBalance :: money
  cr_lastActivityAt :: "instant option"

record contact_page =
  cp_data :: "contact_row list"
  cp_page :: nat
  cp_limit :: nat
  cp_total :: nat
  cp_totalPages :: nat

datatype removal = Deleted | Archived

section \<open>Operations\<close>

definition contact_require :: "id \<Rightarrow> id \<Rightarrow> db \<Rightarrow> contact result" where
  "contact_require b i db = require_row ct_id ct_businessId (NotFound ''Contact not found'') b i (contacts db)"

definition contact_where :: "(string \<Rightarrow> string \<Rightarrow> bool) \<Rightarrow> id \<Rightarrow> contact_filters \<Rightarrow> contact \<Rightarrow> bool" where
  "contact_where contains b f c \<longleftrightarrow>
     ct_businessId c = b \<and>
     (case cf_type f of None \<Rightarrow> True | Some ty \<Rightarrow> ct_type c = ty) \<and>
     (case cf_category f of None \<Rightarrow> True | Some k \<Rightarrow> ct_category c = k) \<and>
     (case cf_status f of None \<Rightarrow> True | Some s \<Rightarrow> ct_status c = s) \<and>
     (truthy (cf_search f) \<longrightarrow>
        (let has = (\<lambda>column. case column of None \<Rightarrow> False | Some s \<Rightarrow> contains (the (cf_search f)) s) in
         has (Some (ct_name c)) \<or> has (ct_phone c) \<or> has (ct_email c)))"

text \<open>\<open>_max\<close> of the dates of the contact's posted transactions.\<close>

definition last_activity :: "id \<Rightarrow> id \<Rightarrow> db \<Rightarrow> instant option" where
  "last_activity b c db =
     (let dates = map tx_date (filter (\<lambda>t. tx_businessId t = b \<and> tx_contactId t = Some c \<and> tx_status t = POSTED) (txns db)) in
      if dates = [] then None else Some (fold max (tl dates) (hd dates)))"

definition list_contacts ::
  "(string \<Rightarrow> string \<Rightarrow> bool) \<Rightarrow> (string \<Rightarrow> int) \<Rightarrow> instant \<Rightarrow> id \<Rightarrow> contact_filters \<Rightarrow> db \<Rightarrow> contact_page" where
  "list_contacts contains collate now b f db =
     (let page = orelse (cf_page f) 1;
          limit = orelse (cf_limit f) 20;
          data = take limit (drop ((page - 1) * limit)
            (find_many (contact_where contains b f) (\<lambda>c. collate (ct_name c)) (contacts db)));
          total = length (filter (contact_where contains b f) (contacts db))
      in \<lparr>cp_data = map (\<lambda>c. \<lparr>cr_contact = c, cr_currentBalance = getContactCurrentBalance now b c db,
              cr_lastActivityAt = last_activity b (ct_id c) db\<rparr>) data,
          cp_page = page, cp_limit = limit, cp_total = total, cp_totalPages = (total + limit - 1) div limit\<rparr>)"

definition getOne_contact :: "instant \<Rightarrow> id \<Rightarrow> id \<Rightarrow> db \<Rightarrow> (contact \<times> money) result" where
  "getOne_contact now b i db =
     rbind (contact_require b i db) (\<lambda>c. Inr (c, getContactCurrentBalance now b c db))"

definition unreachable_message :: string where
  "unreachable_message = ''Provide at least a phone number or an email so this contact can be reached''"

definition create_contact :: "id \<Rightarrow> id \<Rightarrow> create_contact_dto \<Rightarrow> db \<Rightarrow> (db \<times> contact) result" where
  "create_contact newId b dto db =
     (if \<not> truthy (cc_phone dto) \<and> \<not> truthy (cc_email dto) then Inl (BadRequest unreachable_message)
      else
        let c = \<lparr>ct_id = newId, ct_businessId = b, ct_name = cc_name dto, ct_type = cc_type dto,
              ct_category = orelse (cc_category dto) contact_category.BUSINESS, ct_phone = cc_phone dto, ct_email = cc_email dto,
              ct_address = cc_address dto, ct_photoUrl = cc_photoUrl dto, ct_openingBalance = orelse (cc_openingBalance dto) 0,
              ct_status = record_status.ACTIVE, ct_notes = cc_notes dto\<rparr> in
        rbind (store_money (ct_openingBalance c)) (\<lambda>_.
        rbind (insert_row ct_id c (contacts db)) (\<lambda>cs. Inr (db\<lparr>contacts := cs\<rparr>, c))))"

definition apply_contact_update :: "update_contact_dto \<Rightarrow> contact \<Rightarrow> contact" where
  "apply_contact_update dto c =
     c\<lparr>ct_name := orelse (uc_name dto) (ct_name c), ct_type := orelse (uc_type dto) (ct_type c),
       ct_category := orelse (uc_category dto) (ct_category c), ct_phone := orelse (uc_phone dto) (ct_phone c),
       ct_email := orelse (uc_email dto) (ct_email c), ct_address := orelse (uc_address dto) (ct_address c),
       ct_photoUrl := orelse (uc_photoUrl dto) (ct_photoUrl c), ct_notes := orelse (uc_notes dto) (ct_notes c)\<rparr>"

definition update_contact :: "id \<Rightarrow> id \<Rightarrow> update_contact_dto \<Rightarrow> db \<Rightarrow> db result" where
  "update_contact b i dto db =
     rbind (contact_require b i db) (\<lambda>c.
     let nextPhone = orelse (uc_phone dto) (ct_phone c); nextEmail = orelse (uc_email dto) (ct_email c) in
     rbind (check (truthy nextPhone \<or> truthy nextEmail) (BadRequest unreachable_message)) (\<lambda>_.
     rbind (update_row ct_id i (apply_contact_update dto) (contacts db)) (\<lambda>cs. Inr (db\<lparr>contacts := cs\<rparr>))))"

definition archive_contact :: "instant \<Rightarrow> id \<Rightarrow> id \<Rightarrow> db \<Rightarrow> db result" where
  "archive_contact now b i db =
     rbind (contact_require b i db) (\<lambda>c.
     if ct_status c = ARCHIVED then Inr db
     else
       let currentBalance = getContactCurrentBalance now b c db in
       rbind (check (currentBalance = 0) (BadRequest (''This contact still has an outstanding balance of '' @
         to_fixed2 \<bar>currentBalance\<bar> @ ''. Settle it before archiving.''))) (\<lambda>_.
       rbind (update_row ct_id i (\<lambda>c. c\<lparr>ct_status := ARCHIVED\<rparr>) (contacts db)) (\<lambda>cs. Inr (db\<lparr>contacts := cs\<rparr>))))"

text \<open>
  Deleting a contact clears the link of the transactions that name it (\<open>ON DELETE SET NULL\<close>).
\<close>

definition delete_contact_row :: "id \<Rightarrow> db \<Rightarrow> db result" where
  "delete_contact_row i db =
     rbind (delete_row ct_id i (contacts db)) (\<lambda>cs.
     Inr (db\<lparr>contacts := cs, txns := map (\<lambda>t. if tx_contactId t = Some i then t\<lparr>tx_contactId := None\<rparr> else t) (txns db)\<rparr>))"

definition delete_contact :: "instant \<Rightarrow> id \<Rightarrow> id \<Rightarrow> db \<Rightarrow> (db \<times> removal) result" where
  "delete_contact now b i db =
     rbind (contact_require b i db) (\<lambda>_.
     if length (filter (\<lambda>t. tx_businessId t = b \<and> tx_contactId t = Some i) (txns db)) = 0
     then rbind (delete_contact_row i db) (\<lambda>db. Inr (db, Deleted))
     else rbind (archive_contact now b i db) (\<lambda>db. Inr (db, Archived)))"

section \<open>What keeps contacts sound\<close>

definition contact_reachable :: "contact \<Rightarrow> bool" where
  "contact_reachable c \<longleftrightarrow> truthy (ct_phone c) \<or> truthy (ct_email c)"

definition links_ok :: "db \<Rightarrow> bool" where
  "links_ok db \<longleftrightarrow> (\<forall>t \<in> set (txns db). \<forall>i. tx_contactId t = Some i \<longrightarrow>
     (\<exists>c \<in> set (contacts db). ct_id c = i \<and> ct_businessId c = tx_businessId t))"

definition contacts_ok :: "db \<Rightarrow> bool" where
  "contacts_ok db \<longleftrightarrow> keyed ct_id (contacts db) \<and> (\<forall>c \<in> set (contacts db). contact_reachable c) \<and> links_ok db"

lemma linked_contactE:
  assumes "contacts_ok db" and "t \<in> set (txns db)" and "tx_contactId t = Some j"
  obtains c where "c \<in> set (contacts db)" "ct_id c = j" "ct_businessId c = tx_businessId t"
  using assms unfolding contacts_ok_def links_ok_def by blast

inductive contacts_step :: "db \<Rightarrow> db \<Rightarrow> bool" where
  contact_created: "create_contact i b c_dto db = Inr (db', c) \<Longrightarrow> contacts_step db db'"
| contact_updated: "update_contact b i u_dto db = Inr db' \<Longrightarrow> contacts_step db db'"
| contact_archived: "archive_contact now b i db = Inr db' \<Longrightarrow> contacts_step db db'"
| contact_deleted: "delete_contact now b i db = Inr (db', r) \<Longrightarrow> contacts_step db db'"

inductive_cases contacts_stepE: "contacts_step db db'"

interpretation contact_scope: workspace_scoped contact_require "\<lambda>i db. find_row ct_id i (contacts db)" ct_businessId
  by unfold_locales (auto simp: contact_require_def result_simps)

lemmas contact_require_eq_Inr [result_simps] = contact_scope.require_iff

text \<open>Only the contacts a step may touch change, and they keep their id and workspace.\<close>

lemma contacts_ok_map_row:
  assumes ok: "contacts_ok db" and key: "\<And>c. ct_id (f c) = ct_id c" "\<And>c. ct_businessId (f c) = ct_businessId c"
    and reach: "\<And>c. find_row ct_id i (contacts db) = Some c \<Longrightarrow> contact_reachable (f c)"
  shows "contacts_ok (db\<lparr>contacts := map_row ct_id i f (contacts db)\<rparr>)"
proof -
  have keyed: "keyed ct_id (contacts db)" using ok by (simp add: contacts_ok_def)
  have "contact_reachable c" if "c \<in> set (map_row ct_id i f (contacts db))" for c
  proof -
    from that obtain d where d: "d \<in> set (contacts db)" "c = (if ct_id d = i then f d else d)"
      by (auto simp: map_row_def split: if_splits)
    with find_row_mem [OF keyed d(1)] reach [of d] ok show ?thesis by (auto simp: contacts_ok_def)
  qed
  moreover have "links_ok (db\<lparr>contacts := map_row ct_id i f (contacts db)\<rparr>)"
    unfolding links_ok_def
  proof (intro ballI allI impI)
    fix t j assume "t \<in> set (txns (db\<lparr>contacts := map_row ct_id i f (contacts db)\<rparr>))" "tx_contactId t = Some j"
    then obtain c where c: "c \<in> set (contacts db)" "ct_id c = j" "ct_businessId c = tx_businessId t"
      using linked_contactE [OF ok, of t j] by auto
    then show "\<exists>c \<in> set (contacts (db\<lparr>contacts := map_row ct_id i f (contacts db)\<rparr>)). ct_id c = j \<and> ct_businessId c = tx_businessId t"
      using key by (intro bexI [of _ "if ct_id c = i then f c else c"]) (auto simp: map_row_def)
  qed
  ultimately show ?thesis using keyed key by (simp add: contacts_ok_def keyed_map_row)
qed

lemma contacts_ok_archive:
  assumes "archive_contact now b i db = Inr db'" and ok: "contacts_ok db"
  shows "contacts_ok db'"
proof -
  from assms(1) consider "db' = db" | "db' = db\<lparr>contacts := map_row ct_id i (\<lambda>c. c\<lparr>ct_status := ARCHIVED\<rparr>) (contacts db)\<rparr>"
    unfolding archive_contact_def Let_def by (auto simp: rbind_eq_Inr result_simps split: if_splits)
  then show ?thesis
  proof cases
    case 2
    have "contact_reachable (c\<lparr>ct_status := ARCHIVED\<rparr>)" if "find_row ct_id i (contacts db) = Some c" for c
      using find_row_Some [OF that] ok by (simp add: contacts_ok_def contact_reachable_def)
    then show ?thesis unfolding 2 by (intro contacts_ok_map_row [OF ok]) simp_all
  qed (use ok in simp)
qed

interpretation contacts: invariant_system contacts_step contacts_ok
proof
  fix db db' assume step: "contacts_step db db'" and ok: "contacts_ok db"
  from step show "contacts_ok db'"
  proof (rule contacts_stepE)
    fix i b c_dto c assume "create_contact i b c_dto db = Inr (db', c)"
    then have "ct_id c \<notin> ct_id ` set (contacts db)" "db' = db\<lparr>contacts := contacts db @ [c]\<rparr>" "contact_reachable c"
      unfolding create_contact_def Let_def by (auto simp: rbind_eq_Inr result_simps contact_reachable_def split: if_splits)
    then show ?thesis using ok by (auto simp: contacts_ok_def links_ok_def)
  next
    fix b i u_dto assume "update_contact b i u_dto db = Inr db'"
    then obtain c where c: "find_row ct_id i (contacts db) = Some c" "truthy (orelse (uc_phone u_dto) (ct_phone c)) \<or> truthy (orelse (uc_email u_dto) (ct_email c))"
      and db': "db' = db\<lparr>contacts := map_row ct_id i (apply_contact_update u_dto) (contacts db)\<rparr>"
      unfolding update_contact_def Let_def by (auto simp: rbind_eq_Inr result_simps)
    show ?thesis
      unfolding db' by (rule contacts_ok_map_row [OF ok]) (use c in \<open>auto simp: apply_contact_update_def contact_reachable_def\<close>)
  next
    fix now b i assume "archive_contact now b i db = Inr db'"
    then show ?thesis using ok by (rule contacts_ok_archive)
  next
    fix now b i r assume "delete_contact now b i db = Inr (db', r)"
    then consider "archive_contact now b i db = Inr db'" | "i \<in> ct_id ` set (contacts db)"
        "db' = db\<lparr>contacts := filter (\<lambda>c. ct_id c \<noteq> i) (contacts db), txns := map (\<lambda>t. if tx_contactId t = Some i then t\<lparr>tx_contactId := None\<rparr> else t) (txns db)\<rparr>"
      unfolding delete_contact_def delete_contact_row_def by (auto simp: rbind_eq_Inr result_simps split: if_splits)
    then show ?thesis
    proof cases
      case 2
      have "links_ok db'"
        unfolding links_ok_def
      proof (intro ballI allI impI)
        fix t j assume t: "t \<in> set (txns db')" "tx_contactId t = Some j"
        then obtain t0 where t0: "t0 \<in> set (txns db)" "tx_contactId t0 = Some j" "tx_businessId t0 = tx_businessId t" "j \<noteq> i"
          by (auto simp: 2(2) split: if_splits)
        obtain c where "c \<in> set (contacts db)" "ct_id c = j" "ct_businessId c = tx_businessId t"
          using linked_contactE [OF ok t0(1,2)] t0(3) by auto
        with t0(4) show "\<exists>c \<in> set (contacts db'). ct_id c = j \<and> ct_businessId c = tx_businessId t" by (auto simp: 2(2))
      qed
      then show ?thesis using ok by (simp add: contacts_ok_def 2(2) keyed_filter)
    qed (use ok in \<open>blast intro: contacts_ok_archive\<close>)
  qed
qed

text \<open>
  Along any sequence of contact operations every contact keeps a phone number or an email,
  ids stay unique, and every transaction that names a contact names one of its own workspace.
\<close>

theorem contacts_run_sound:
  assumes "contacts_step\<^sup>*\<^sup>* db db'" and "contacts_ok db"
  shows "contacts_ok db'"
  by (rule contacts.run_inv [OF assms])

text \<open>
  Removing a contact never loses history or money owed. It is deleted only when no transaction
  names it, and then no transaction changes; otherwise it is archived, which succeeds only on a
  contact that was archived before or whose balance is zero, and leaves every transaction and
  every other contact as it was.
\<close>

theorem delete_contact_keeps_history:
  assumes "contacts_ok db" and "delete_contact now b i db = Inr (db', r)" and "find_row ct_id i (contacts db) = Some c"
  shows "txns db' = txns db \<and> entries db' = entries db \<and> accounts db' = accounts db \<and>
    (\<forall>j. j \<noteq> i \<longrightarrow> find_row ct_id j (contacts db') = find_row ct_id j (contacts db)) \<and>
    (r = Deleted \<longrightarrow> (\<forall>t \<in> set (txns db). tx_contactId t \<noteq> Some i) \<and> find_row ct_id i (contacts db') = None) \<and>
    (r = Archived \<longrightarrow> find_row ct_id i (contacts db') = Some (c\<lparr>ct_status := ARCHIVED\<rparr>) \<and>
       (ct_status c = ARCHIVED \<or> getContactCurrentBalance now b c db = 0))"
proof (cases "r = Deleted")
  case True
  have b: "ct_businessId c = b" using assms(2,3) unfolding delete_contact_def by (auto simp: rbind_eq_Inr result_simps)
  from assms(2) True have none: "\<forall>t \<in> set (txns db). \<not> (tx_businessId t = b \<and> tx_contactId t = Some i)"
    and db': "db' = db\<lparr>contacts := filter (\<lambda>c. ct_id c \<noteq> i) (contacts db), txns := map (\<lambda>t. if tx_contactId t = Some i then t\<lparr>tx_contactId := None\<rparr> else t) (txns db)\<rparr>"
    unfolding delete_contact_def delete_contact_row_def by (auto simp: rbind_eq_Inr result_simps filter_empty_conv split: if_splits)
  have free: "tx_contactId t \<noteq> Some i" if t: "t \<in> set (txns db)" for t
  proof
    assume l: "tx_contactId t = Some i"
    obtain d where d: "d \<in> set (contacts db)" "ct_id d = i" "ct_businessId d = tx_businessId t"
      by (rule linked_contactE [OF assms(1) t l])
    have "d = c" using find_row_mem [of ct_id "contacts db" d] d assms(1,3) by (simp add: contacts_ok_def)
    with none t l b d show False by auto
  qed
  have "map (\<lambda>t. if tx_contactId t = Some i then t\<lparr>tx_contactId := None\<rparr> else t) (txns db) = txns db"
    using free by (intro map_idI) simp
  then show ?thesis using True free by (simp add: db' find_row_filter)
next
  case False
  then have r: "r = Archived" by (cases r) auto
  from assms(2) r have a: "archive_contact now b i db = Inr db'"
    unfolding delete_contact_def delete_contact_row_def by (auto simp: rbind_eq_Inr result_simps split: if_splits)
  have id: "ct_id c = i" using find_row_Some [OF assms(3)] by simp
  show ?thesis
  proof (cases "ct_status c = ARCHIVED")
    case True
    then have "db' = db" using a assms(3) unfolding archive_contact_def by (auto simp: rbind_eq_Inr result_simps)
    then show ?thesis using r True assms(3) by simp
  next
    case False
    then have "getContactCurrentBalance now b c db = 0" "db' = db\<lparr>contacts := map_row ct_id i (\<lambda>c. c\<lparr>ct_status := ARCHIVED\<rparr>) (contacts db)\<rparr>"
      using a assms(3) unfolding archive_contact_def Let_def by (auto simp: rbind_eq_Inr result_simps split: if_splits)
    then show ?thesis using r assms(3) by (simp add: find_row_map_row)
  qed
qed

section \<open>Sample contacts\<close>

definition sample_contact :: create_contact_dto where
  "sample_contact = \<lparr>cc_name = ''Karim'', cc_type = CUSTOMER, cc_category = None, cc_phone = Some ''017'', cc_email = None, cc_address = None,
     cc_photoUrl = None, cc_openingBalance = None, cc_notes = None\<rparr>"

lemma owed_contacts_ok: "contacts_ok owed_books"
  by (simp add: contacts_ok_def links_ok_def contact_reachable_def owed_books_def plain_contact_def plain_rows)

lemma contacts_run_sound_witness:
  "\<exists>d. contacts_step\<^sup>*\<^sup>* owed_books d \<and> contacts_ok d \<and> length (contacts d) = 2"
proof -
  obtain d c where op: "create_contact ''k'' ''w'' sample_contact owed_books = Inr (d, c)" "length (contacts d) = 2"
    by (simp add: create_contact_def sample_contact_def insert_row_def store_money_def fits_money_def owed_books_def plain_contact_def Let_def)
  then have "contacts_step owed_books d" by (blast intro: contacts_step.contact_created)
  then have run: "contacts_step\<^sup>*\<^sup>* owed_books d" by (rule r_into_rtranclp)
  from contacts_run_sound [OF run owed_contacts_ok] run op(2) show ?thesis by blast
qed

lemma delete_contact_keeps_history_witness:
  "\<exists>d. delete_contact 9 ''w'' ''c'' (owed_books\<lparr>txns := [], entries := []\<rparr>) = Inr (d, Deleted) \<and> find_row ct_id ''c'' (contacts d) = None"
proof -
  let ?db = "owed_books\<lparr>txns := [], entries := []\<rparr>" and ?c = "plain_contact ''c'' BOTH contact_category.BUSINESS 200"
  have ok: "contacts_ok ?db" using owed_contacts_ok by (simp add: contacts_ok_def links_ok_def)
  obtain d where d: "delete_contact 9 ''w'' ''c'' ?db = Inr (d, Deleted)"
    by (simp add: delete_contact_def contact_require_def require_row_def delete_contact_row_def delete_row_def owed_books_def plain_contact_def)
  have "find_row ct_id ''c'' (contacts ?db) = Some ?c" by (simp add: owed_books_def plain_contact_def)
  from delete_contact_keeps_history [OF ok d this] d show ?thesis by blast
qed

end
