(* ===== verification/Group_Expenses.thy ===== *)
theory Group_Expenses
  imports Dhaka "HOL-Library.Product_Lexorder"
begin

text \<open>
  The Group Expense workspace (src/group-expenses/group-expenses.service.ts): members who put
  money into a pool, the expenses paid from it, month budgets, and the settlement that splits the
  expenses of a period. It keeps its own tables and touches none of the ledger's. Amounts are whole
  paisa, what the money columns keep of the number strings the requests carry.
\<close>

section \<open>Rows\<close>

record group_member =
  gm_id :: id
  gm_businessId :: id
  gm_name :: string
  gm_phone :: "string option"
  gm_photoUrl :: "string option"
  gm_status :: record_status
  gm_createdAt :: instant

record group_contribution =
  gc_id :: id
  gc_businessId :: id
  gc_groupMemberId :: id
  gc_amount :: money
  gc_date :: instant
  gc_note :: "string option"
  gc_createdAt :: instant

record group_expense =
  gx_id :: id
  gx_businessId :: id
  gx_amount :: money
  gx_date :: instant
  gx_category :: string
  gx_description :: "string option"
  gx_paidByMemberId :: "id option"
  gx_createdAt :: instant

record group_category =
  gk_id :: id
  gk_businessId :: id
  gk_name :: string
  gk_icon :: "string option"
  gk_color :: string
  gk_displayOrder :: int

record group_month_budget =
  gb_id :: id
  gb_businessId :: id
  gb_month :: int
  gb_year :: int
  gb_budgetAmount :: money

record settlement_member =
  sm_groupMemberId :: id
  sm_contributed :: money
  sm_share :: money
  sm_balance :: money

record settlement =
  se_id :: id
  se_businessId :: id
  se_periodStart :: instant
  se_periodEnd :: instant
  se_totalExpense :: money
  se_memberCount :: nat
  se_perMemberShare :: money
  se_closedBy :: id
  se_members :: "settlement_member list"

record gdb =
  g_members :: "group_member list"
  g_contributions :: "group_contribution list"
  g_expenses :: "group_expense list"
  g_categories :: "group_category list"
  g_budgets :: "group_month_budget list"
  g_settlements :: "settlement list"

section \<open>Requests and answers\<close>

record create_member_dto =
  md_name :: string
  md_phone :: "string option"
  md_photoUrl :: "string option"

record update_member_dto =
  mu_name :: "string option"
  mu_phone :: "string option option"
  mu_photoUrl :: "string option option"
  mu_status :: "record_status option"

record create_contribution_dto =
  kd_groupMemberId :: id
  kd_amount :: money
  kd_date :: instant
  kd_note :: "string option"

record update_contribution_dto =
  ku_groupMemberId :: "id option"
  ku_amount :: "money option"
  ku_date :: "instant option"
  ku_note :: "string option option"

record create_category_dto =
  yd_name :: string
  yd_icon :: "string option"
  yd_color :: string

record update_category_dto =
  yu_name :: "string option"
  yu_icon :: "string option option"
  yu_color :: "string option"

record create_group_expense_dto =
  xd_amount :: money
  xd_date :: instant
  xd_category :: "string option"
  xd_description :: "string option"
  xd_paidByMemberId :: "id option"

record update_group_expense_dto =
  xu_amount :: "money option"
  xu_date :: "instant option"
  xu_category :: "string option"
  xu_description :: "string option option"
  xu_paidByMemberId :: "id option"

record create_month_budget_dto =
  bd_month :: int
  bd_year :: int
  bd_budgetAmount :: money

record update_month_budget_dto =
  bu_month :: "int option"
  bu_year :: "int option"
  bu_budgetAmount :: "money option"

record settlement_row =
  sl_groupMemberId :: id
  sl_name :: string
  sl_grossDeposited :: money
  sl_returned :: money
  sl_contributed :: money
  sl_share :: money
  sl_balance :: money

record settlement_result =
  sx_periodStart :: instant
  sx_periodEnd :: instant
  sx_totalExpense :: money
  sx_memberCount :: nat
  sx_perMemberShare :: money
  sx_members :: "settlement_row list"

datatype member_removal = MemberDeleted | MemberArchived

section \<open>Members\<close>

definition requireMember :: "id \<Rightarrow> id \<Rightarrow> gdb \<Rightarrow> group_member result" where
  "requireMember b i db = require_row gm_id gm_businessId (NotFound ''Group member not found'') b i (g_members db)"

definition listMembers :: "id \<Rightarrow> record_status option \<Rightarrow> gdb \<Rightarrow> group_member list" where
  "listMembers b status db =
     find_many (\<lambda>m. gm_businessId m = b \<and> (case status of None \<Rightarrow> True | Some s \<Rightarrow> gm_status m = s)) gm_createdAt (g_members db)"

definition createMember :: "id \<Rightarrow> instant \<Rightarrow> id \<Rightarrow> create_member_dto \<Rightarrow> gdb \<Rightarrow> gdb result" where
  "createMember newId now b dto db =
     rbind (insert_row gm_id \<lparr>gm_id = newId, gm_businessId = b, gm_name = md_name dto, gm_phone = md_phone dto,
       gm_photoUrl = md_photoUrl dto, gm_status = record_status.ACTIVE, gm_createdAt = now\<rparr> (g_members db)) (\<lambda>ms.
     Inr (db\<lparr>g_members := ms\<rparr>))"

definition apply_member_update :: "update_member_dto \<Rightarrow> group_member \<Rightarrow> group_member" where
  "apply_member_update dto m =
     m\<lparr>gm_name := orelse (mu_name dto) (gm_name m), gm_phone := orelse (mu_phone dto) (gm_phone m),
       gm_photoUrl := orelse (mu_photoUrl dto) (gm_photoUrl m), gm_status := orelse (mu_status dto) (gm_status m)\<rparr>"

definition updateMember :: "id \<Rightarrow> id \<Rightarrow> update_member_dto \<Rightarrow> gdb \<Rightarrow> gdb result" where
  "updateMember b i dto db =
     rbind (requireMember b i db) (\<lambda>_.
     rbind (update_row gm_id i (apply_member_update dto) (g_members db)) (\<lambda>ms. Inr (db\<lparr>g_members := ms\<rparr>)))"

definition deleteMember :: "id \<Rightarrow> id \<Rightarrow> gdb \<Rightarrow> (gdb \<times> member_removal) result" where
  "deleteMember b i db =
     rbind (requireMember b i db) (\<lambda>_.
     let contributionCount = length (filter (\<lambda>c. gc_groupMemberId c = i) (g_contributions db));
         expenseCount = length (filter (\<lambda>x. gx_paidByMemberId x = Some i) (g_expenses db));
         settlementCount = length (filter (\<lambda>m. sm_groupMemberId m = i) (concat (map se_members (g_settlements db)))) in
     if contributionCount = 0 \<and> expenseCount = 0 \<and> settlementCount = 0
     then rbind (delete_row gm_id i (g_members db)) (\<lambda>ms. Inr (db\<lparr>g_members := ms\<rparr>, MemberDeleted))
     else rbind (update_row gm_id i (\<lambda>m. m\<lparr>gm_status := ARCHIVED\<rparr>) (g_members db)) (\<lambda>ms.
       Inr (db\<lparr>g_members := ms\<rparr>, MemberArchived)))"

section \<open>Contributions\<close>

definition requireContribution :: "id \<Rightarrow> id \<Rightarrow> gdb \<Rightarrow> group_contribution result" where
  "requireContribution b i db = require_row gc_id gc_businessId (NotFound ''Contribution not found'') b i (g_contributions db)"

definition within :: "instant option \<Rightarrow> instant option \<Rightarrow> instant \<Rightarrow> bool" where
  "within lo hi t \<longleftrightarrow> (case lo of None \<Rightarrow> True | Some l \<Rightarrow> l \<le> t) \<and> (case hi of None \<Rightarrow> True | Some h \<Rightarrow> t \<le> h)"

definition listContributions :: "id \<Rightarrow> id option \<Rightarrow> instant option \<Rightarrow> instant option \<Rightarrow> gdb \<Rightarrow> group_contribution list" where
  "listContributions b member lo hi db =
     find_many (\<lambda>c. gc_businessId c = b \<and> (truthy member \<longrightarrow> Some (gc_groupMemberId c) = member) \<and> within lo hi (gc_date c))
       (\<lambda>c. (- gc_date c, - gc_createdAt c)) (g_contributions db)"

definition createContribution :: "id \<Rightarrow> instant \<Rightarrow> id \<Rightarrow> create_contribution_dto \<Rightarrow> gdb \<Rightarrow> gdb result" where
  "createContribution newId now b dto db =
     rbind (requireMember b (kd_groupMemberId dto) db) (\<lambda>_.
     rbind (store_money (kd_amount dto)) (\<lambda>_.
     rbind (insert_row gc_id \<lparr>gc_id = newId, gc_businessId = b, gc_groupMemberId = kd_groupMemberId dto, gc_amount = kd_amount dto,
       gc_date = db_date (kd_date dto), gc_note = kd_note dto, gc_createdAt = now\<rparr> (g_contributions db)) (\<lambda>cs.
     Inr (db\<lparr>g_contributions := cs\<rparr>))))"

definition apply_contribution_update :: "update_contribution_dto \<Rightarrow> group_contribution \<Rightarrow> group_contribution" where
  "apply_contribution_update dto c =
     c\<lparr>gc_groupMemberId := orelse (ku_groupMemberId dto) (gc_groupMemberId c), gc_amount := orelse (ku_amount dto) (gc_amount c),
       gc_date := orelse (map_option db_date (ku_date dto)) (gc_date c), gc_note := orelse (ku_note dto) (gc_note c)\<rparr>"

text \<open>A member id of \<open>''\<close> passes the service's check but names no member.\<close>

definition updateContribution :: "id \<Rightarrow> id \<Rightarrow> update_contribution_dto \<Rightarrow> gdb \<Rightarrow> gdb result" where
  "updateContribution b i dto db =
     rbind (requireContribution b i db) (\<lambda>_.
     rbind (if truthy (ku_groupMemberId dto) then rbind (requireMember b (the (ku_groupMemberId dto)) db) (\<lambda>_. Inr ()) else Inr ()) (\<lambda>_.
     rbind (case ku_amount dto of None \<Rightarrow> Inr 0 | Some m \<Rightarrow> store_money m) (\<lambda>_.
     rbind (check (case ku_groupMemberId dto of None \<Rightarrow> True | Some m \<Rightarrow> m \<in> gm_id ` set (g_members db)) (DbError ''P2003'')) (\<lambda>_.
     rbind (update_row gc_id i (apply_contribution_update dto) (g_contributions db)) (\<lambda>cs. Inr (db\<lparr>g_contributions := cs\<rparr>))))))"

definition deleteContribution :: "id \<Rightarrow> id \<Rightarrow> gdb \<Rightarrow> gdb result" where
  "deleteContribution b i db =
     rbind (requireContribution b i db) (\<lambda>_.
     rbind (delete_row gc_id i (g_contributions db)) (\<lambda>cs. Inr (db\<lparr>g_contributions := cs\<rparr>)))"

section \<open>Expense categories\<close>

definition DEFAULT_EXPENSE_CATEGORIES :: "(string \<times> string \<times> string) list" where
  "DEFAULT_EXPENSE_CATEGORIES =
     [(''Grocery / Bazar'', ''shopping-cart'', ''green''), (''Rent'', ''house'', ''blue''),
      (''Utility'', ''plug'', ''orange''), (''Other'', ''package'', ''indigo'')]"

definition categories_of :: "id \<Rightarrow> gdb \<Rightarrow> group_category list" where
  "categories_of b db = find_many (\<lambda>k. gk_businessId k = b) gk_displayOrder (g_categories db)"

definition insert_category :: "group_category \<Rightarrow> gdb \<Rightarrow> gdb result" where
  "insert_category k db =
     rbind (check (\<forall>x \<in> set (g_categories db). \<not> (gk_businessId x = gk_businessId k \<and> gk_name x = gk_name k)) (DbError ''P2002'')) (\<lambda>_.
     rbind (insert_row gk_id k (g_categories db)) (\<lambda>ks. Inr (db\<lparr>g_categories := ks\<rparr>)))"

definition default_category :: "id_source \<Rightarrow> id \<Rightarrow> nat \<times> string \<times> string \<times> string \<Rightarrow> group_category" where
  "default_category gen b = (\<lambda>(i, name, icon, color). \<lparr>gk_id = gen i, gk_businessId = b, gk_name = name, gk_icon = Some icon,
     gk_color = color, gk_displayOrder = int i\<rparr>)"

definition listExpenseCategories :: "id_source \<Rightarrow> id \<Rightarrow> gdb \<Rightarrow> (gdb \<times> group_category list) result" where
  "listExpenseCategories gen b db =
     (if categories_of b db \<noteq> [] then Inr (db, categories_of b db)
      else
        rbind (rfold insert_category (map (default_category gen b) (enumerate 0 DEFAULT_EXPENSE_CATEGORIES)) db) (\<lambda>db.
        Inr (db, categories_of b db)))"

definition category_named :: "id \<Rightarrow> string \<Rightarrow> gdb \<Rightarrow> group_category option" where
  "category_named b name db = find (\<lambda>k. gk_businessId k = b \<and> gk_name k = name) (g_categories db)"

definition name_taken :: "string \<Rightarrow> http_error" where
  "name_taken name = Conflict (''An expense category named '' @ quoted name @ '' already exists'')"

definition createExpenseCategory :: "id \<Rightarrow> id \<Rightarrow> create_category_dto \<Rightarrow> gdb \<Rightarrow> gdb result" where
  "createExpenseCategory newId b dto db =
     rbind (check (category_named b (yd_name dto) db = None) (name_taken (yd_name dto))) (\<lambda>_.
     insert_category \<lparr>gk_id = newId, gk_businessId = b, gk_name = yd_name dto, gk_icon = yd_icon dto, gk_color = yd_color dto,
       gk_displayOrder = int (length (filter (\<lambda>k. gk_businessId k = b) (g_categories db)))\<rparr> db)"

definition requireExpenseCategory :: "id \<Rightarrow> id \<Rightarrow> gdb \<Rightarrow> group_category result" where
  "requireExpenseCategory b i db = require_row gk_id gk_businessId (NotFound ''Expense category not found'') b i (g_categories db)"

definition apply_category_update :: "update_category_dto \<Rightarrow> group_category \<Rightarrow> group_category" where
  "apply_category_update dto k =
     k\<lparr>gk_name := orelse (yu_name dto) (gk_name k), gk_icon := orelse (yu_icon dto) (gk_icon k), gk_color := orelse (yu_color dto) (gk_color k)\<rparr>"

definition updateExpenseCategory :: "id \<Rightarrow> id \<Rightarrow> update_category_dto \<Rightarrow> gdb \<Rightarrow> gdb result" where
  "updateExpenseCategory b i dto db =
     rbind (requireExpenseCategory b i db) (\<lambda>_.
     rbind (case yu_name dto of None \<Rightarrow> Inr ()
            | Some name \<Rightarrow> (case category_named b name db of None \<Rightarrow> Inr ()
                | Some clash \<Rightarrow> check (gk_id clash = i) (name_taken name))) (\<lambda>_.
     rbind (update_row gk_id i (apply_category_update dto) (g_categories db)) (\<lambda>ks. Inr (db\<lparr>g_categories := ks\<rparr>))))"

definition deleteExpenseCategory :: "id \<Rightarrow> id \<Rightarrow> gdb \<Rightarrow> gdb result" where
  "deleteExpenseCategory b i db =
     rbind (requireExpenseCategory b i db) (\<lambda>_.
     rbind (delete_row gk_id i (g_categories db)) (\<lambda>ks. Inr (db\<lparr>g_categories := ks\<rparr>)))"

section \<open>Expenses\<close>

definition requireExpense :: "id \<Rightarrow> id \<Rightarrow> gdb \<Rightarrow> group_expense result" where
  "requireExpense b i db = require_row gx_id gx_businessId (NotFound ''Expense not found'') b i (g_expenses db)"

definition listExpenses :: "id \<Rightarrow> string option \<Rightarrow> instant option \<Rightarrow> instant option \<Rightarrow> gdb \<Rightarrow> group_expense list" where
  "listExpenses b category lo hi db =
     find_many (\<lambda>x. gx_businessId x = b \<and> (truthy category \<longrightarrow> Some (gx_category x) = category) \<and> within lo hi (gx_date x))
       (\<lambda>x. (- gx_date x, - gx_createdAt x)) (g_expenses db)"

definition fk_payer :: "id option \<Rightarrow> gdb \<Rightarrow> unit result" where
  "fk_payer p db = check (case p of None \<Rightarrow> True | Some m \<Rightarrow> m \<in> gm_id ` set (g_members db)) (DbError ''P2003'')"

definition group_createExpense :: "id \<Rightarrow> instant \<Rightarrow> id \<Rightarrow> create_group_expense_dto \<Rightarrow> gdb \<Rightarrow> gdb result" where
  "group_createExpense newId now b dto db =
     rbind (if truthy (xd_paidByMemberId dto) then rbind (requireMember b (the (xd_paidByMemberId dto)) db) (\<lambda>_. Inr ()) else Inr ()) (\<lambda>_.
     rbind (store_money (xd_amount dto)) (\<lambda>_.
     rbind (fk_payer (xd_paidByMemberId dto) db) (\<lambda>_.
     rbind (insert_row gx_id \<lparr>gx_id = newId, gx_businessId = b, gx_amount = xd_amount dto, gx_date = db_date (xd_date dto),
       gx_category = orelse (xd_category dto) ''Other'', gx_description = xd_description dto,
       gx_paidByMemberId = xd_paidByMemberId dto, gx_createdAt = now\<rparr> (g_expenses db)) (\<lambda>xs.
     Inr (db\<lparr>g_expenses := xs\<rparr>)))))"

definition cleared :: "id option \<Rightarrow> id option option" where
  "cleared p = (case p of None \<Rightarrow> None | Some m \<Rightarrow> Some (if m = [] then None else Some m))"

definition apply_expense_update :: "update_group_expense_dto \<Rightarrow> group_expense \<Rightarrow> group_expense" where
  "apply_expense_update dto x =
     x\<lparr>gx_amount := orelse (xu_amount dto) (gx_amount x), gx_date := orelse (map_option db_date (xu_date dto)) (gx_date x),
       gx_category := orelse (xu_category dto) (gx_category x), gx_description := orelse (xu_description dto) (gx_description x),
       gx_paidByMemberId := orelse (cleared (xu_paidByMemberId dto)) (gx_paidByMemberId x)\<rparr>"

definition updateExpense :: "id \<Rightarrow> id \<Rightarrow> update_group_expense_dto \<Rightarrow> gdb \<Rightarrow> gdb result" where
  "updateExpense b i dto db =
     rbind (requireExpense b i db) (\<lambda>_.
     rbind (if truthy (xu_paidByMemberId dto) then rbind (requireMember b (the (xu_paidByMemberId dto)) db) (\<lambda>_. Inr ()) else Inr ()) (\<lambda>_.
     rbind (case xu_amount dto of None \<Rightarrow> Inr 0 | Some m \<Rightarrow> store_money m) (\<lambda>_.
     rbind (update_row gx_id i (apply_expense_update dto) (g_expenses db)) (\<lambda>xs. Inr (db\<lparr>g_expenses := xs\<rparr>)))))"

definition deleteExpense :: "id \<Rightarrow> id \<Rightarrow> gdb \<Rightarrow> gdb result" where
  "deleteExpense b i db =
     rbind (requireExpense b i db) (\<lambda>_.
     rbind (delete_row gx_id i (g_expenses db)) (\<lambda>xs. Inr (db\<lparr>g_expenses := xs\<rparr>)))"

section \<open>Month budgets\<close>

definition listMonthBudgets :: "id \<Rightarrow> gdb \<Rightarrow> group_month_budget list" where
  "listMonthBudgets b db = find_many (\<lambda>x. gb_businessId x = b) (\<lambda>x. (- gb_year x, - gb_month x)) (g_budgets db)"

definition budget_for :: "id \<Rightarrow> int \<Rightarrow> int \<Rightarrow> gdb \<Rightarrow> group_month_budget option" where
  "budget_for b month year db = find (\<lambda>x. gb_businessId x = b \<and> gb_month x = month \<and> gb_year x = year) (g_budgets db)"

definition budget_taken :: "int \<Rightarrow> int \<Rightarrow> http_error" where
  "budget_taken month year = Conflict (''A budget for '' @ nat_digits (nat month) @ ''/'' @ nat_digits (nat year) @ '' already exists'')"

definition createMonthBudget :: "id \<Rightarrow> id \<Rightarrow> create_month_budget_dto \<Rightarrow> gdb \<Rightarrow> gdb result" where
  "createMonthBudget newId b dto db =
     rbind (check (budget_for b (bd_month dto) (bd_year dto) db = None) (budget_taken (bd_month dto) (bd_year dto))) (\<lambda>_.
     rbind (store_money (bd_budgetAmount dto)) (\<lambda>_.
     rbind (insert_row gb_id \<lparr>gb_id = newId, gb_businessId = b, gb_month = bd_month dto, gb_year = bd_year dto,
       gb_budgetAmount = bd_budgetAmount dto\<rparr> (g_budgets db)) (\<lambda>xs.
     Inr (db\<lparr>g_budgets := xs\<rparr>))))"

definition requireMonthBudget :: "id \<Rightarrow> id \<Rightarrow> gdb \<Rightarrow> group_month_budget result" where
  "requireMonthBudget b i db = require_row gb_id gb_businessId (NotFound ''Month budget not found'') b i (g_budgets db)"

definition apply_budget_update :: "update_month_budget_dto \<Rightarrow> group_month_budget \<Rightarrow> group_month_budget" where
  "apply_budget_update dto x =
     x\<lparr>gb_month := orelse (bu_month dto) (gb_month x), gb_year := orelse (bu_year dto) (gb_year x),
       gb_budgetAmount := orelse (bu_budgetAmount dto) (gb_budgetAmount x)\<rparr>"

definition updateMonthBudget :: "id \<Rightarrow> id \<Rightarrow> update_month_budget_dto \<Rightarrow> gdb \<Rightarrow> gdb result" where
  "updateMonthBudget b i dto db =
     rbind (requireMonthBudget b i db) (\<lambda>budget.
     let month = orelse (bu_month dto) (gb_month budget); year = orelse (bu_year dto) (gb_year budget) in
     rbind (if bu_month dto \<noteq> None \<or> bu_year dto \<noteq> None
            then (case budget_for b month year db of None \<Rightarrow> Inr () | Some clash \<Rightarrow> check (gb_id clash = i) (budget_taken month year))
            else Inr ()) (\<lambda>_.
     rbind (case bu_budgetAmount dto of None \<Rightarrow> Inr 0 | Some m \<Rightarrow> store_money m) (\<lambda>_.
     rbind (update_row gb_id i (apply_budget_update dto) (g_budgets db)) (\<lambda>xs. Inr (db\<lparr>g_budgets := xs\<rparr>)))))"

definition deleteMonthBudget :: "id \<Rightarrow> id \<Rightarrow> gdb \<Rightarrow> gdb result" where
  "deleteMonthBudget b i db =
     rbind (requireMonthBudget b i db) (\<lambda>_.
     rbind (delete_row gb_id i (g_budgets db)) (\<lambda>xs. Inr (db\<lparr>g_budgets := xs\<rparr>)))"

section \<open>Settlements\<close>

text \<open>What each member handed over and got back, by member id.\<close>

definition add_total :: "group_contribution \<Rightarrow> (id \<rightharpoonup> money \<times> money) \<Rightarrow> id \<rightharpoonup> money \<times> money" where
  "add_total c totals =
     (case orelse (totals (gc_groupMemberId c)) (0, 0) of (deposited, returned) \<Rightarrow>
        totals(gc_groupMemberId c \<mapsto> (if gc_amount c < 0 then (deposited, returned + \<bar>gc_amount c\<bar>)
          else (deposited + gc_amount c, returned))))"

definition settlement_row_of :: "(id \<rightharpoonup> money \<times> money) \<Rightarrow> nat \<Rightarrow> money \<Rightarrow> money \<Rightarrow> nat \<times> group_member \<Rightarrow> settlement_row" where
  "settlement_row_of totals memberCount baseShare lastShare = (\<lambda>(index, m).
     let (deposited, returned) = orelse (totals (gm_id m)) (0, 0);
         contributed = deposited - returned;
         share = (if memberCount \<le> index then 0 else if index = memberCount - 1 then lastShare else baseShare) in
     \<lparr>sl_groupMemberId = gm_id m, sl_name = gm_name m, sl_grossDeposited = deposited, sl_returned = returned,
      sl_contributed = contributed, sl_share = share, sl_balance = contributed - share\<rparr>)"

text \<open>
  \<open>floor_div total n\<close> is the decimal library's quotient in paisa, rounded down: a parameter.
\<close>

definition computeSettlement :: "(money \<Rightarrow> nat \<Rightarrow> money) \<Rightarrow> id \<Rightarrow> instant \<Rightarrow> instant \<Rightarrow> gdb \<Rightarrow> settlement_result" where
  "computeSettlement floor_div b periodStart periodEnd db =
     (let allMembers = find_many (\<lambda>m. gm_businessId m = b) gm_createdAt (g_members db);
          totalExpense = sum_by gx_amount (filter (\<lambda>x. gx_businessId x = b \<and> periodStart \<le> gx_date x \<and> gx_date x \<le> periodEnd) (g_expenses db));
          contributions = filter (\<lambda>c. gc_businessId c = b \<and> periodStart \<le> gc_date c \<and> gc_date c \<le> periodEnd) (g_contributions db);
          contributorIds = set (map gc_groupMemberId contributions);
          members = filter (\<lambda>m. gm_status m = record_status.ACTIVE) allMembers;
          formerMembers = filter (\<lambda>m. gm_status m \<noteq> record_status.ACTIVE \<and> gm_id m \<in> contributorIds) allMembers;
          totals = fold add_total contributions (\<lambda>_. None);
          memberCount = length members
      in if memberCount = 0
         then \<lparr>sx_periodStart = periodStart, sx_periodEnd = periodEnd, sx_totalExpense = totalExpense, sx_memberCount = 0,
               sx_perMemberShare = 0, sx_members = []\<rparr>
         else
           let base = floor_div totalExpense memberCount;
               remainder = totalExpense - base * int memberCount in
           \<lparr>sx_periodStart = periodStart, sx_periodEnd = periodEnd, sx_totalExpense = totalExpense, sx_memberCount = memberCount,
            sx_perMemberShare = base,
            sx_members = map (settlement_row_of totals memberCount base (base + remainder)) (enumerate 0 (members @ formerMembers))\<rparr>)"

definition resolvePeriod :: "instant \<Rightarrow> instant option \<Rightarrow> instant option \<Rightarrow> instant \<times> instant" where
  "resolvePeriod now lo hi =
     (case (lo, hi) of (Some l, Some h) \<Rightarrow> (l, h)
      | _ \<Rightarrow> (case dhakaMonthRange now 0 of (start, stop) \<Rightarrow> (start, stop - day_ms)))"

definition getSettlement :: "(money \<Rightarrow> nat \<Rightarrow> money) \<Rightarrow> instant \<Rightarrow> id \<Rightarrow> instant option \<Rightarrow> instant option \<Rightarrow> gdb \<Rightarrow> settlement_result" where
  "getSettlement floor_div now b lo hi db =
     (case resolvePeriod now lo hi of (periodStart, periodEnd) \<Rightarrow> computeSettlement floor_div b periodStart periodEnd db)"

definition listSettlementHistory :: "id \<Rightarrow> gdb \<Rightarrow> settlement list" where
  "listSettlementHistory b db = find_many (\<lambda>s. se_businessId s = b) (\<lambda>s. - se_periodStart s) (g_settlements db)"

definition snapshot :: "settlement_row \<Rightarrow> settlement_member" where
  "snapshot r = \<lparr>sm_groupMemberId = sl_groupMemberId r, sm_contributed = sl_contributed r, sm_share = sl_share r, sm_balance = sl_balance r\<rparr>"

text \<open>\<open>toISOString().slice(0, 10)\<close>.\<close>

definition iso_day :: "instant \<Rightarrow> string" where
  "iso_day t = (case utc_date t of (y, m, d) \<Rightarrow>
     take 10 ((if 0 \<le> y \<and> y \<le> 9999 then pad 4 (nat_digits (nat y))
               else (if y < 0 then ''-'' else ''+'') @ pad 6 (nat_digits (nat \<bar>y\<bar>))) @ ''-'' @
       pad 2 (nat_digits (nat m)) @ ''-'' @ pad 2 (nat_digits (nat d))))"

text \<open>
  The error names the earliest overlapping settlement by its days. Runs under the
  group's lock, so the check and the insert are one step.
\<close>

definition closeSettlement ::
  "(money \<Rightarrow> nat \<Rightarrow> money) \<Rightarrow> id \<Rightarrow> id \<Rightarrow> instant \<Rightarrow> instant \<Rightarrow> id \<Rightarrow> gdb \<Rightarrow> (gdb \<times> settlement) result" where
  "closeSettlement floor_div newId b periodStart periodEnd user db =
     (if periodEnd < periodStart then Inl (BadRequest ''The period ends before it starts'')
      else case find_first (\<lambda>s. se_businessId s = b \<and> se_periodStart s \<le> periodEnd \<and> periodStart \<le> se_periodEnd s)
                  se_periodStart (g_settlements db) of
        Some overlapping \<Rightarrow> Inl (Conflict (''A settlement for '' @ iso_day (se_periodStart overlapping) @ '' to '' @
          iso_day (se_periodEnd overlapping) @ '' is already closed and overlaps this period''))
      | None \<Rightarrow>
          let result = computeSettlement floor_div b periodStart periodEnd db;
              s = \<lparr>se_id = newId, se_businessId = b, se_periodStart = db_date periodStart, se_periodEnd = db_date periodEnd,
                   se_totalExpense = sx_totalExpense result, se_memberCount = sx_memberCount result,
                   se_perMemberShare = sx_perMemberShare result, se_closedBy = user,
                   se_members = map snapshot (sx_members result)\<rparr> in
          rbind (check (sx_memberCount result \<noteq> 0) (BadRequest ''Add at least one active member before closing a settlement'')) (\<lambda>_.
          rbind (rfold (\<lambda>m _. rbind (store_money m) (\<lambda>_. Inr ()))
            (se_totalExpense s # se_perMemberShare s #
             concat (map (\<lambda>m. [sm_contributed m, sm_share m, sm_balance m]) (se_members s))) ()) (\<lambda>_.
          rbind (insert_row se_id s (g_settlements db)) (\<lambda>ss. Inr (db\<lparr>g_settlements := ss\<rparr>, s)))))"

end
