(* ===== verification/Group_Facts.thy ===== *)
theory Group_Facts
  imports Group_Expenses "HOL-Library.Multiset"
begin

text \<open>
  What a group's settlements promise: the shares of a period add up to its expenses to the paisa,
  every contribution counts once, and closed periods never overlap and never change.
\<close>

section \<open>The invariant of a group\<close>

definition apart :: "settlement \<Rightarrow> settlement \<Rightarrow> bool" where
  "apart s t \<longleftrightarrow> se_businessId s \<noteq> se_businessId t \<or> se_periodEnd s < se_periodStart t \<or> se_periodEnd t < se_periodStart s"

definition group_ok :: "gdb \<Rightarrow> bool" where
  "group_ok db \<longleftrightarrow> keyed gm_id (g_members db) \<and> keyed gc_id (g_contributions db) \<and> [] \<notin> gm_id ` set (g_members db) \<and>
     (\<forall>c \<in> set (g_contributions db). \<exists>m \<in> set (g_members db). gm_id m = gc_groupMemberId c \<and> gm_businessId m = gc_businessId c) \<and>
     (\<forall>s \<in> set (g_settlements db). se_periodStart s \<le> se_periodEnd s) \<and> sorted_wrt apart (g_settlements db)"

lemma apart_sym: "apart s t \<Longrightarrow> apart t s"
  by (auto simp: apart_def)

section \<open>The split of a period\<close>

definition contributed_by :: "group_contribution list \<Rightarrow> id \<Rightarrow> money" where
  "contributed_by cs i = sum_by gc_amount (filter (\<lambda>c. gc_groupMemberId c = i) cs)"

definition totals_net :: "(money \<times> money) option \<Rightarrow> money" where
  "totals_net x = fst (orelse x (0, 0)) - snd (orelse x (0, 0))"

lemma add_total_net: "totals_net (add_total c T i) = totals_net (T i) + (if gc_groupMemberId c = i then gc_amount c else 0)"
  by (cases "orelse (T (gc_groupMemberId c)) (0, 0)") (auto simp: add_total_def totals_net_def)

lemma fold_totals_net: "totals_net (fold add_total cs T i) = totals_net (T i) + contributed_by cs i"
  by (induction cs arbitrary: T) (auto simp: contributed_by_def add_total_net)

lemma fold_totals_nonneg:
  assumes "\<And>i d r. T i = Some (d, r) \<Longrightarrow> 0 \<le> d \<and> 0 \<le> r"
  shows "fold add_total cs T i = Some (d, r) \<Longrightarrow> 0 \<le> d \<and> 0 \<le> r"
  using assms
proof (induction cs arbitrary: T)
  case (Cons c cs)
  have "0 \<le> d \<and> 0 \<le> r" if "add_total c T i = Some (d, r)" for i d r
    using that Cons.prems(2) [of i] Cons.prems(2) [of "gc_groupMemberId c"]
    by (cases "T (gc_groupMemberId c)") (auto simp: add_total_def split: if_splits prod.splits)
  with Cons.IH [of "add_total c T"] Cons.prems(1) show ?case by simp
next
  case Nil
  then show ?case using Nil(2) [of i d r] by simp
qed

lemma sum_enumerate: "sum_by (\<lambda>(i, x). f i) (enumerate k xs) = sum_by f [k..<k + length xs]"
proof (induction xs arbitrary: k)
  case (Cons x xs)
  have "[k..<k + length (x # xs)] = k # [Suc k..<Suc k + length xs]"
    by (simp del: upt_Suc add: upt_conv_Cons)
  then show ?case by (simp only: enumerate_simps sum_by_simps Cons.IH) simp
qed simp

lemma sum_const: "sum_by (\<lambda>i. c) xs = c * int (length xs)"
  by (induction xs) (simp_all add: algebra_simps)

lemma sum_shares:
  assumes "0 < n" and "n \<le> length xs"
  shows "sum_by (\<lambda>(i, x). if n \<le> i then 0 else if i = n - 1 then last_share else base) (enumerate 0 xs) = base * int (n - 1) + last_share"
proof -
  obtain k where n: "n = Suc k" using assms(1) by (cases n) auto
  let ?f = "\<lambda>i. if n \<le> i then 0 else if i = n - 1 then last_share else base"
  have "[0..<length xs] = [0..<k] @ [k] @ [n..<length xs]"
    using assms(2) n by (metis append_Cons append_Nil le0 le_add_diff_inverse upt_add_eq_append upt_conv_Cons Suc_le_lessD Suc_leD)
  moreover have "sum_by ?f [0..<k] = sum_by (\<lambda>i. base) [0..<k]" by (intro sum_by_cong) (auto simp: n)
  moreover have "sum_by ?f [n..<length xs] = sum_by (\<lambda>i. 0) [n..<length xs]" by (intro sum_by_cong) auto
  ultimately have "sum_by ?f [0..<length xs] = base * int k + last_share" by (simp add: sum_const n)
  then show ?thesis by (simp add: sum_enumerate n)
qed

lemma distinct_two_filters:
  assumes "distinct (map f xs)" and "\<And>x. P x \<Longrightarrow> \<not> Q x"
  shows "distinct (map f (filter P xs @ filter Q xs))"
proof -
  have "f ` set (filter P xs) \<inter> f ` set (filter Q xs) = {}"
    using assms inj_onD [of f "set xs"] by (auto simp: distinct_map)
  then show ?thesis using assms(1) by (simp add: distinct_map inj_on_def)
qed

definition period_contributions :: "id \<Rightarrow> instant \<Rightarrow> instant \<Rightarrow> gdb \<Rightarrow> group_contribution list" where
  "period_contributions b s e db = filter (\<lambda>c. gc_businessId c = b \<and> s \<le> gc_date c \<and> gc_date c \<le> e) (g_contributions db)"

lemma settlement_row_net:
  "sl_contributed (settlement_row_of T n base last_share (k, m)) = totals_net (T (gm_id m))"
  "sl_share (settlement_row_of T n base last_share (k, m)) = (if n \<le> k then 0 else if k = n - 1 then last_share else base)"
  "sl_balance (settlement_row_of T n base last_share (k, m)) =
     sl_contributed (settlement_row_of T n base last_share (k, m)) - sl_share (settlement_row_of T n base last_share (k, m))"
  "sl_contributed (settlement_row_of T n base last_share (k, m)) =
     sl_grossDeposited (settlement_row_of T n base last_share (k, m)) - sl_returned (settlement_row_of T n base last_share (k, m))"
  by (auto simp: settlement_row_of_def Let_def totals_net_def split: prod.splits)

text \<open>
  C29: a settlement splits the expenses of its period to the paisa: whatever the division rounds
  to, the shares add up to the total exactly, every contribution of the period counts for exactly
  one member, and the balances add up to what was put in less what was spent. With an exact
  quotient the last member carries at most one paisa per member more than the others.
\<close>

theorem settlement_splits_exactly:
  assumes "group_ok db" and "r = computeSettlement floor_div b s e db" and "sx_memberCount r \<noteq> 0"
  shows "sum_by sl_share (sx_members r) = sx_totalExpense r \<and>
    sum_by sl_contributed (sx_members r) = sum_by gc_amount (period_contributions b s e db) \<and>
    sum_by sl_balance (sx_members r) = sum_by gc_amount (period_contributions b s e db) - sx_totalExpense r \<and>
    (\<forall>x \<in> set (sx_members r). sl_balance x = sl_contributed x - sl_share x \<and> sl_contributed x = sl_grossDeposited x - sl_returned x) \<and>
    (floor_div = (\<lambda>t n. t div int n) \<longrightarrow> (\<forall>x \<in> set (take (sx_memberCount r) (sx_members r)).
       sx_perMemberShare r \<le> sl_share x \<and> sl_share x < sx_perMemberShare r + int (sx_memberCount r)))"
proof -
  define allm where "allm = find_many (\<lambda>m. gm_businessId m = b) gm_createdAt (g_members db)"
  define cs where "cs = period_contributions b s e db"
  define ms where "ms = filter (\<lambda>m. gm_status m = record_status.ACTIVE) allm"
  define fs where "fs = filter (\<lambda>m. gm_status m \<noteq> record_status.ACTIVE \<and> gm_id m \<in> set (map gc_groupMemberId cs)) allm"
  define T where "T = fold add_total cs (\<lambda>_. None)"
  define total where "total = sum_by gx_amount (filter (\<lambda>x. gx_businessId x = b \<and> s \<le> gx_date x \<and> gx_date x \<le> e) (g_expenses db))"
  define n where "n = length ms"
  define base where "base = floor_div total n"
  define rem where "rem = total - base * int n"
  have r: "sx_totalExpense r = total" "sx_memberCount r = n"
    using assms(2) by (auto simp: computeSettlement_def Let_def total_def n_def ms_def allm_def)
  have pos: "0 < n" using assms(3) r by simp
  have rows: "sx_members r = map (settlement_row_of T n base (base + rem)) (enumerate 0 (ms @ fs))" "sx_perMemberShare r = base"
    using assms(2) pos
    by (simp_all add: computeSettlement_def Let_def total_def n_def ms_def allm_def base_def rem_def T_def cs_def fs_def period_contributions_def)
  have "distinct (map gm_id allm)"
  proof -
    have "mset (map gm_id allm) = mset (map gm_id (filter (\<lambda>m. gm_businessId m = b) (g_members db)))"
      by (simp only: allm_def find_many_def mset_map mset_sort)
    then show ?thesis
      using keyed_filter [of gm_id "g_members db"] assms(1) mset_eq_imp_distinct_iff by (metis group_ok_def keyed_def)
  qed
  then have dist: "distinct (map gm_id (ms @ fs))" unfolding ms_def fs_def by (rule distinct_two_filters) simp
  have mem: "gc_groupMemberId c \<in> gm_id ` set (ms @ fs)" if "c \<in> set cs" for c
  proof -
    from that have "c \<in> set (g_contributions db)" "gc_businessId c = b" by (simp_all add: cs_def period_contributions_def)
    then obtain m where m: "m \<in> set (g_members db)" "gm_id m = gc_groupMemberId c" "gm_businessId m = b"
      using assms(1) unfolding group_ok_def by blast
    then have "m \<in> set allm" by (simp add: allm_def)
    then have "m \<in> set (ms @ fs)" using that m(2) by (auto simp: ms_def fs_def)
    then show ?thesis using m(2) by (metis imageI)
  qed
  have net: "totals_net (T i) = contributed_by cs i" for i by (simp add: T_def fold_totals_net) (simp add: totals_net_def)
  have c: "sum_by sl_contributed (sx_members r) = sum_by gc_amount cs"
  proof -
    have "sum_by sl_contributed (sx_members r) = sum_by (\<lambda>m. contributed_by cs (gm_id m)) (map snd (enumerate 0 (ms @ fs)))"
      unfolding rows sum_by_map by (intro sum_by_cong) (auto simp: settlement_row_net net)
    also have "\<dots> = sum_by gc_amount cs" unfolding contributed_by_def map_snd_enumerate by (rule sum_by_member [OF dist mem])
    finally show ?thesis .
  qed
  have sh: "sum_by sl_share (sx_members r) = total"
  proof -
    have "sum_by sl_share (sx_members r) = sum_by (\<lambda>(i, x). if n \<le> i then 0 else if i = n - 1 then base + rem else base) (enumerate 0 (ms @ fs))"
      unfolding rows sum_by_map by (intro sum_by_cong) (auto simp: settlement_row_net)
    also have "\<dots> = base * int (n - 1) + (base + rem)" by (rule sum_shares [OF pos]) (simp add: n_def)
    also have "\<dots> = total" using pos by (simp add: rem_def of_nat_diff algebra_simps)
    finally show ?thesis .
  qed
  have each: "sl_balance x = sl_contributed x - sl_share x \<and> sl_contributed x = sl_grossDeposited x - sl_returned x" if "x \<in> set (sx_members r)" for x
    using that unfolding rows by (auto simp: settlement_row_net(3,4))
  have bal: "sum_by sl_balance (sx_members r) = sum_by gc_amount cs - total"
  proof -
    have "sum_by sl_balance (sx_members r) = sum_by (\<lambda>x. sl_contributed x - sl_share x) (sx_members r)"
      by (intro sum_by_cong) (simp add: each)
    then show ?thesis by (simp add: sum_by_diff c sh)
  qed
  have "base \<le> sl_share x \<and> sl_share x < base + int n" if "floor_div = (\<lambda>t n. t div int n)" "x \<in> set (take n (sx_members r))" for x
  proof -
    have "0 \<le> rem" "rem < int n"
      using that(1) pos by (simp_all add: rem_def base_def minus_div_mult_eq_mod)
    moreover from that(2) obtain k where k: "k < n" "x = sx_members r ! k" by (auto simp: in_set_conv_nth rows n_def)
    then have "x = settlement_row_of T n base (base + rem) (k, (ms @ fs) ! k)"
      by (simp add: rows n_def nth_enumerate_eq)
    ultimately show ?thesis using k(1) pos by (auto simp: settlement_row_net)
  qed
  with c sh bal each show ?thesis by (simp add: r rows(2) cs_def)
qed

section \<open>Every operation keeps the invariant\<close>

inductive group_step :: "gdb \<Rightarrow> gdb \<Rightarrow> bool" where
  member_created: "createMember i now b md db = Inr db' \<Longrightarrow> i \<noteq> [] \<Longrightarrow> group_step db db'"
| member_updated: "updateMember b i mu db = Inr db' \<Longrightarrow> group_step db db'"
| member_removed: "deleteMember b i db = Inr (db', r) \<Longrightarrow> group_step db db'"
| contribution_created: "createContribution i now b kd db = Inr db' \<Longrightarrow> group_step db db'"
| contribution_updated: "updateContribution b i ku db = Inr db' \<Longrightarrow> group_step db db'"
| contribution_deleted: "deleteContribution b i db = Inr db' \<Longrightarrow> group_step db db'"
| categories_listed: "listExpenseCategories gen b db = Inr (db', ks) \<Longrightarrow> group_step db db'"
| category_created: "createExpenseCategory i b yd db = Inr db' \<Longrightarrow> group_step db db'"
| category_updated: "updateExpenseCategory b i yu db = Inr db' \<Longrightarrow> group_step db db'"
| category_deleted: "deleteExpenseCategory b i db = Inr db' \<Longrightarrow> group_step db db'"
| expense_created: "group_createExpense i now b xd db = Inr db' \<Longrightarrow> group_step db db'"
| expense_updated: "updateExpense b i xu db = Inr db' \<Longrightarrow> group_step db db'"
| expense_deleted: "deleteExpense b i db = Inr db' \<Longrightarrow> group_step db db'"
| budget_created: "createMonthBudget i b bd db = Inr db' \<Longrightarrow> group_step db db'"
| budget_updated: "updateMonthBudget b i bu db = Inr db' \<Longrightarrow> group_step db db'"
| budget_deleted: "deleteMonthBudget b i db = Inr db' \<Longrightarrow> group_step db db'"
| period_closed: "closeSettlement floor_div i b p q user db = Inr (db', s) \<Longrightarrow> db_date p = p \<Longrightarrow> db_date q = q \<Longrightarrow> group_step db db'"

inductive_cases group_stepE: "group_step db db'"

definition same_settled :: "gdb \<Rightarrow> gdb \<Rightarrow> bool" where
  "same_settled db db' \<longleftrightarrow> g_members db' = g_members db \<and> g_contributions db' = g_contributions db \<and> g_settlements db' = g_settlements db"

lemma same_settled_ok: "same_settled db db' \<Longrightarrow> group_ok db \<Longrightarrow> group_ok db'"
  by (simp add: same_settled_def group_ok_def)

lemma same_settled_refl [simp]: "same_settled db db"
  by (simp add: same_settled_def)

lemma insert_category_same: "insert_category k db = Inr db' \<Longrightarrow> same_settled db db'"
  by (auto simp: insert_category_def same_settled_def rbind_eq_Inr result_simps)

lemma same_settled_trans: "same_settled db d \<Longrightarrow> same_settled d e \<Longrightarrow> same_settled db e"
  by (simp add: same_settled_def)

lemma insert_categories_same: "rfold insert_category ks db = Inr db' \<Longrightarrow> same_settled db db'"
proof (induction ks arbitrary: db)
  case (Cons k ks)
  then obtain d where "insert_category k db = Inr d" "rfold insert_category ks d = Inr db'" by (auto simp: rbind_eq_Inr)
  with insert_category_same Cons.IH show ?case by (blast intro: same_settled_trans)
qed (simp add: same_settled_def)

text \<open>Categories, expenses and budgets leave members, contributions and settlements alone.\<close>

lemma unrelated_same:
  "listExpenseCategories gen b db = Inr (db', ks) \<Longrightarrow> same_settled db db'"
  "createExpenseCategory i b yd db = Inr db' \<Longrightarrow> same_settled db db'"
  "updateExpenseCategory b i yu db = Inr db' \<Longrightarrow> same_settled db db'"
  "deleteExpenseCategory b i db = Inr db' \<Longrightarrow> same_settled db db'"
  "group_createExpense i now b xd db = Inr db' \<Longrightarrow> same_settled db db'"
  "updateExpense b i xu db = Inr db' \<Longrightarrow> same_settled db db'"
  "deleteExpense b i db = Inr db' \<Longrightarrow> same_settled db db'"
  "createMonthBudget i b bd db = Inr db' \<Longrightarrow> same_settled db db'"
  "updateMonthBudget b i bu db = Inr db' \<Longrightarrow> same_settled db db'"
  "deleteMonthBudget b i db = Inr db' \<Longrightarrow> same_settled db db'"
proof -
  show "listExpenseCategories gen b db = Inr (db', ks) \<Longrightarrow> same_settled db db'"
    unfolding listExpenseCategories_def
    by (auto simp: rbind_eq_Inr intro: insert_categories_same split: if_splits)
  show "createExpenseCategory i b yd db = Inr db' \<Longrightarrow> same_settled db db'"
    unfolding createExpenseCategory_def by (auto simp: rbind_eq_Inr intro: insert_category_same)
qed (auto simp: updateExpenseCategory_def deleteExpenseCategory_def group_createExpense_def updateExpense_def deleteExpense_def
       createMonthBudget_def updateMonthBudget_def deleteMonthBudget_def Let_def same_settled_def rbind_eq_Inr)

definition linked :: "group_contribution \<Rightarrow> group_member list \<Rightarrow> bool" where
  "linked c ms \<longleftrightarrow> (\<exists>m \<in> set ms. gm_id m = gc_groupMemberId c \<and> gm_businessId m = gc_businessId c)"

lemma group_ok_alt: "group_ok db \<longleftrightarrow> keyed gm_id (g_members db) \<and> keyed gc_id (g_contributions db) \<and> [] \<notin> gm_id ` set (g_members db) \<and>
     (\<forall>c \<in> set (g_contributions db). linked c (g_members db)) \<and>
     (\<forall>s \<in> set (g_settlements db). se_periodStart s \<le> se_periodEnd s) \<and> sorted_wrt apart (g_settlements db)"
  by (simp add: group_ok_def linked_def)

lemma linked_map_row:
  assumes "linked c ms" and "\<And>m. gm_id (f m) = gm_id m" and "\<And>m. gm_businessId (f m) = gm_businessId m"
  shows "linked c (map_row gm_id i f ms)"
proof -
  obtain m where m: "m \<in> set ms" "gm_id m = gc_groupMemberId c" "gm_businessId m = gc_businessId c"
    using assms(1) by (auto simp: linked_def)
  then show ?thesis
    unfolding linked_def by (intro bexI [of _ "if gm_id m = i then f m else m"]) (auto simp: assms(2,3) set_map_row)
qed

lemma requireMember_eq_Inr [result_simps]:
  "requireMember b i db = Inr m \<longleftrightarrow> find_row gm_id i (g_members db) = Some m \<and> gm_businessId m = b"
  by (simp add: requireMember_def result_simps)

lemma requireContribution_eq_Inr [result_simps]:
  "requireContribution b i db = Inr c \<longleftrightarrow> find_row gc_id i (g_contributions db) = Some c \<and> gc_businessId c = b"
  by (simp add: requireContribution_def result_simps)

lemma group_ok_members:
  assumes "group_ok db" and "\<And>m. gm_id (f m) = gm_id m" and "\<And>m. gm_businessId (f m) = gm_businessId m"
  shows "group_ok (db\<lparr>g_members := map_row gm_id i f (g_members db)\<rparr>)"
  using assms by (auto simp: group_ok_alt keyed_map_row linked_map_row map_row_proj set_map_row)

lemma member_update_keeps: "updateMember b i mu db = Inr db' \<Longrightarrow> group_ok db \<Longrightarrow> group_ok db' \<and> g_settlements db' = g_settlements db"
  unfolding updateMember_def by (auto simp: rbind_eq_Inr result_simps apply_member_update_def intro!: group_ok_members)

lemma member_create_keeps:
  assumes "createMember i now b md db = Inr db'" and "i \<noteq> []" and "group_ok db"
  shows "group_ok db' \<and> g_settlements db' = g_settlements db"
  using assms unfolding createMember_def by (auto simp: rbind_eq_Inr result_simps group_ok_alt linked_def)

lemma member_delete_keeps:
  assumes "deleteMember b i db = Inr (db', r)" and ok: "group_ok db"
  shows "group_ok db' \<and> g_settlements db' = g_settlements db"
proof -
  from assms(1) consider
      "db' = db\<lparr>g_members := filter (\<lambda>m. gm_id m \<noteq> i) (g_members db)\<rparr>" "\<forall>c \<in> set (g_contributions db). gc_groupMemberId c \<noteq> i"
    | "db' = db\<lparr>g_members := map_row gm_id i (\<lambda>m. m\<lparr>gm_status := ARCHIVED\<rparr>) (g_members db)\<rparr>"
    unfolding deleteMember_def Let_def by (auto simp: rbind_eq_Inr result_simps filter_empty_conv split: if_splits)
  then show ?thesis
  proof cases
    case 1
    then have "linked c (g_members db')" if "c \<in> set (g_contributions db)" for c
      using that ok unfolding group_ok_alt linked_def by (simp add: 1(1)) metis
    then show ?thesis using ok by (auto simp: 1(1) group_ok_alt keyed_filter)
  qed (use group_ok_members [OF ok] in simp)
qed

lemma contribution_create_keeps:
  assumes "createContribution i now b kd db = Inr db'" and "group_ok db"
  shows "group_ok db' \<and> g_settlements db' = g_settlements db"
  using assms find_row_Some unfolding createContribution_def
  by (fastforce simp: rbind_eq_Inr result_simps group_ok_alt linked_def)

lemma contribution_delete_keeps:
  assumes "deleteContribution b i db = Inr db'" and "group_ok db"
  shows "group_ok db' \<and> g_settlements db' = g_settlements db"
  using assms unfolding deleteContribution_def by (auto simp: rbind_eq_Inr result_simps group_ok_alt keyed_filter)

lemma contribution_update_keeps:
  assumes "updateContribution b i ku db = Inr db'" and ok: "group_ok db"
  shows "group_ok db' \<and> g_settlements db' = g_settlements db"
proof -
  from assms(1) obtain c where c: "find_row gc_id i (g_contributions db) = Some c" "gc_businessId c = b"
    and db': "db' = db\<lparr>g_contributions := map_row gc_id i (apply_contribution_update ku) (g_contributions db)\<rparr>"
    and to: "truthy (ku_groupMemberId ku) \<longrightarrow> (\<exists>m. find_row gm_id (the (ku_groupMemberId ku)) (g_members db) = Some m \<and> gm_businessId m = b)"
    and fk: "case ku_groupMemberId ku of None \<Rightarrow> True | Some m \<Rightarrow> m \<in> gm_id ` set (g_members db)"
    unfolding updateContribution_def by (auto simp: rbind_eq_Inr result_simps split: if_splits)
  have "linked (apply_contribution_update ku c) (g_members db)"
  proof (cases "ku_groupMemberId ku")
    case None
    then show ?thesis using ok find_row_Some [OF c(1)] by (simp add: group_ok_alt linked_def apply_contribution_update_def)
  next
    case (Some m)
    with fk ok have "m \<noteq> []" by (auto simp: group_ok_alt simp del: in_set_conv_decomp intro: rev_image_eqI)
    with to Some c(2) find_row_Some [of gm_id m "g_members db"] show ?thesis
      by (auto simp: truthy_def linked_def apply_contribution_update_def)
  qed
  moreover have "d = c" if "d \<in> set (g_contributions db)" "gc_id d = i" for d
    using find_row_mem [of gc_id "g_contributions db" d] that ok c(1) by (simp add: group_ok_alt)
  ultimately have "\<forall>d \<in> set (g_contributions db'). linked d (g_members db)"
    using ok by (auto simp: db' set_map_row group_ok_alt)
  moreover have "gc_id (apply_contribution_update ku d) = gc_id d" for d by (simp add: apply_contribution_update_def)
  ultimately show ?thesis using ok by (simp add: db' group_ok_alt keyed_map_row)
qed

lemma closing_keeps:
  assumes "closeSettlement floor_div i b p q user db = Inr (db', s)" and "db_date p = p" "db_date q = q" and "group_ok db"
  shows "group_ok db' \<and> g_settlements db' = g_settlements db @ [s]"
proof -
  from assms(1) have "p \<le> q" and free: "\<forall>t \<in> set (g_settlements db). \<not> (se_businessId t = b \<and> se_periodStart t \<le> q \<and> p \<le> se_periodEnd t)"
    and s: "se_businessId s = b" "se_periodStart s = db_date p" "se_periodEnd s = db_date q"
    and db': "db' = db\<lparr>g_settlements := g_settlements db @ [s]\<rparr>"
    unfolding closeSettlement_def Let_def
    by (auto simp: rbind_eq_Inr result_simps find_first_None split: if_splits option.splits)
  from free have "\<forall>t \<in> set (g_settlements db). apart t s" by (auto simp: apart_def s assms(2,3))
  then show ?thesis using assms(4) \<open>p \<le> q\<close> by (auto simp: db' group_ok_alt sorted_wrt_append s assms(2,3))
qed

lemma group_step_keeps:
  assumes "group_step db db'" and "group_ok db"
  shows "group_ok db' \<and> (\<exists>new. g_settlements db' = g_settlements db @ new)"
proof -
  have unrelated: "g_settlements db' = g_settlements db \<and> group_ok db'" if "same_settled db db'"
    using that same_settled_ok [OF that assms(2)] by (simp add: same_settled_def)
  from assms(1) show ?thesis
    by (rule group_stepE)
      (use assms(2) in \<open>auto dest: unrelated_same [THEN unrelated] member_create_keeps member_update_keeps member_delete_keeps
        contribution_create_keeps contribution_update_keeps contribution_delete_keeps closing_keeps\<close>)
qed

interpretation group: invariant_system group_step group_ok
  by unfold_locales (use group_step_keeps in blast)

interpretation settled: invariant_system group_step "\<lambda>d. group_ok d \<and> (\<exists>new. g_settlements d = old @ new)" for old
  by unfold_locales (use group_step_keeps in fastforce)

text \<open>
  C30: along any sequence of operations of a group, closing periods given as calendar days, the
  closed settlements of a workspace never overlap and none ends before it starts; what was closed
  stays as it was, in order, and later settlements are only added after it; and every contribution
  keeps naming a member of its own workspace, so no member with money in the pool disappears.
\<close>

theorem closed_periods_never_overlap:
  assumes "group_step\<^sup>*\<^sup>* db db'" and "group_ok db"
  shows "sorted_wrt apart (g_settlements db') \<and> (\<forall>s \<in> set (g_settlements db'). se_periodStart s \<le> se_periodEnd s) \<and>
    (\<exists>new. g_settlements db' = g_settlements db @ new) \<and>
    (\<forall>c \<in> set (g_contributions db'). linked c (g_members db'))"
  using settled.run_inv [OF assms(1), of "g_settlements db"] assms(2) by (simp add: group_ok_alt)

section \<open>A sample group\<close>

definition sample_member :: "id \<Rightarrow> instant \<Rightarrow> group_member" where
  "sample_member i now = \<lparr>gm_id = i, gm_businessId = ''w'', gm_name = i, gm_phone = None, gm_photoUrl = None,
     gm_status = record_status.ACTIVE, gm_createdAt = now\<rparr>"

definition sample_contribution :: "id \<Rightarrow> id \<Rightarrow> money \<Rightarrow> group_contribution" where
  "sample_contribution i m a = \<lparr>gc_id = i, gc_businessId = ''w'', gc_groupMemberId = m, gc_amount = a, gc_date = 0, gc_note = None, gc_createdAt = 0\<rparr>"

definition sample_expense :: group_expense where
  "sample_expense = \<lparr>gx_id = ''x'', gx_businessId = ''w'', gx_amount = 100, gx_date = 0, gx_category = ''Rent'', gx_description = None,
     gx_paidByMemberId = None, gx_createdAt = 0\<rparr>"

text \<open>Three members, one taka to share: 33, 33 and 34 paisa.\<close>

definition sample_group :: gdb where
  "sample_group = \<lparr>g_members = [sample_member ''a'' 1, sample_member ''b'' 2, sample_member ''c'' 3],
     g_contributions = [sample_contribution ''k'' ''a'' 500, sample_contribution ''l'' ''a'' (- 50), sample_contribution ''m'' ''b'' 7],
     g_expenses = [sample_expense], g_categories = [], g_budgets = [], g_settlements = []\<rparr>"

lemmas sample_group_rows = sample_group_def sample_member_def sample_contribution_def sample_expense_def

lemma sample_group_ok: "group_ok sample_group"
  by (simp add: group_ok_def sample_group_rows)

definition sample_settlement :: settlement_result where
  "sample_settlement = computeSettlement (\<lambda>t n. t div int n) ''w'' 0 0 sample_group"

lemma sample_settlement_rows: "sx_memberCount sample_settlement = 3" "sx_totalExpense sample_settlement = 100"
  "map sl_share (sx_members sample_settlement) = [33, 33, 34]" "map sl_balance (sx_members sample_settlement) = [417, - 26, - 34]"
  by (simp_all add: sample_settlement_def computeSettlement_def sample_group_rows find_many_def settlement_row_of_def add_total_def Let_def
      enumerate_eq_zip upt_rec)

lemma settlement_splits_exactly_witness:
  "sx_memberCount sample_settlement = 3 \<and> sum_by sl_share (sx_members sample_settlement) = 100 \<and>
    map sl_share (sx_members sample_settlement) = [33, 33, 34]"
  using settlement_splits_exactly [OF sample_group_ok sample_settlement_def] sample_settlement_rows by simp

lemma closed_periods_never_overlap_witness:
  "\<exists>d. group_step\<^sup>*\<^sup>* sample_group d \<and> length (g_settlements d) = 1 \<and> sorted_wrt apart (g_settlements d)"
proof -
  obtain d s where op: "closeSettlement (\<lambda>t n. t div int n) ''s'' ''w'' 0 0 ''u'' sample_group = Inr (d, s)" "length (g_settlements d) = 1"
    by (simp add: closeSettlement_def computeSettlement_def sample_group_rows find_many_def find_first_def settlement_row_of_def
        snapshot_def add_total_def insert_row_def store_money_def fits_money_def Let_def enumerate_eq_zip upt_rec)
  have "group_step sample_group d" by (rule group_step.period_closed [OF op(1)]) (simp_all add: db_date_def)
  then have run: "group_step\<^sup>*\<^sup>* sample_group d" by (rule r_into_rtranclp)
  from closed_periods_never_overlap [OF run sample_group_ok] run op(2) show ?thesis by blast
qed

end
