(* ===== verification/Budgets.thy ===== *)
theory Budgets
  imports Ledger_Requests Savings
begin

text \<open>
  Budget and income planning (src/budgets/budgets.service.ts): categories with their monthly
  limit, the standing budget target of a workspace, and income goals per month. What was spent
  or earned is never stored: it is summed from the live postings whose entry carries the
  category's name, so a rename carries the entries along.
\<close>

section \<open>State\<close>

record budget_business =
  bb_id :: id
  bb_monthlyBudgetTarget :: "money option"

text \<open>The books hold the tables of categories and income goals; the workspaces' own rows stand beside them.\<close>

record bdb =
  bd_books :: db
  bd_businesses :: "budget_business list"

section \<open>Requests and answers\<close>

record budget_query =
  bq_month :: "int option"
  bq_year :: "int option"
  bq_type :: "budget_type option"

record create_budget_category_dto =
  cb_type :: "budget_type option"
  cb_name :: string
  cb_icon :: "string option"
  cb_color :: string
  cb_monthlyLimit :: "money option"

record update_budget_category_dto =
  ub_name :: "string option"
  ub_icon :: "string option option"
  ub_color :: "string option"
  ub_monthlyLimit :: "money option option"

record create_income_goal_dto =
  ci_month :: int
  ci_year :: int
  ci_amount :: money
  ci_notes :: "string option"

record update_income_goal_dto =
  ui_month :: "int option"
  ui_year :: "int option"
  ui_amount :: "money option"
  ui_notes :: "string option option"

record budget_row =
  br_category :: budget_category
  br_monthlyLimit :: "money option"
  br_spent :: money
  br_percent :: int

record budget_overview =
  bo_month :: int
  bo_year :: int
  bo_type :: budget_type
  bo_totalBudget :: "money option"
  bo_allocated :: money
  bo_categories :: "budget_row list"

record income_goal_row =
  ir_goal :: income_goal
  ir_earned :: money
  ir_percent :: int

section \<open>What was spent\<close>

fun TRANSACTION_TYPE_FOR :: "budget_type \<Rightarrow> transaction_type" where
  "TRANSACTION_TYPE_FOR budget_type.EXPENSE = transaction_type.EXPENSE"
| "TRANSACTION_TYPE_FOR budget_type.INCOME = transaction_type.INCOME"

definition category_spent :: "id \<Rightarrow> budget_type \<Rightarrow> string \<Rightarrow> instant \<Rightarrow> instant \<Rightarrow> db \<Rightarrow> money" where
  "category_spent b ty name monthStart monthEnd db =
     sum_by en_amount (filter (\<lambda>e. en_categoryId e = Some name \<and>
       on_txn db (\<lambda>t. tx_businessId t = b \<and> live_txn t \<and> tx_type t = TRANSACTION_TYPE_FOR ty \<and>
         monthStart \<le> tx_date t \<and> tx_date t < monthEnd) e) (entries db))"

definition budget_row_of :: "arith \<Rightarrow> id \<Rightarrow> budget_type \<Rightarrow> instant \<Rightarrow> instant \<Rightarrow> db \<Rightarrow> budget_category \<Rightarrow> budget_row" where
  "budget_row_of ar b ty monthStart monthEnd db c =
     (let amount = category_spent b ty (bc_name c) monthStart monthEnd db in
      \<lparr>br_category = c, br_monthlyLimit = bc_monthlyLimit c, br_spent = amount,
       br_percent = (case bc_monthlyLimit c of None \<Rightarrow> 0 | Some limit \<Rightarrow> percent_of ar (dec amount) (dec limit))\<rparr>)"

definition categories_of_type :: "id \<Rightarrow> budget_type \<Rightarrow> db \<Rightarrow> budget_category list" where
  "categories_of_type b ty db =
     find_many (\<lambda>c. bc_businessId c = b \<and> bc_type c = ty) (\<lambda>c. (bc_displayOrder c, bc_createdAt c)) (budget_categories db)"

definition getBudgetOverview :: "arith \<Rightarrow> instant \<Rightarrow> id \<Rightarrow> budget_query \<Rightarrow> bdb \<Rightarrow> budget_overview result" where
  "getBudgetOverview ar now b query bd =
     (let db = bd_books bd;
          ty = orelse (bq_type query) budget_type.EXPENSE;
          (thisYear, thisMonth, _) = dhakaToday now;
          year = orelse (bq_year query) thisYear;
          month = orelse (bq_month query) thisMonth;
          monthStart = date_utc year month 1;
          monthEnd = date_utc year (month + 1) 1
      in case find_row bb_id b (bd_businesses bd) of
           None \<Rightarrow> Inl (DbError ''P2025'')
         | Some business \<Rightarrow>
             let categories = categories_of_type b ty db in
             Inr \<lparr>bo_month = month, bo_year = year, bo_type = ty,
               bo_totalBudget = (if ty = budget_type.EXPENSE then bb_monthlyBudgetTarget business else None),
               bo_allocated = sum_by (\<lambda>c. orelse (bc_monthlyLimit c) 0) categories,
               bo_categories = map (budget_row_of ar b ty monthStart monthEnd db) categories\<rparr>)"

definition listCategoryNames :: "id \<Rightarrow> budget_type option \<Rightarrow> db \<Rightarrow> (id \<times> string \<times> string option \<times> string) list" where
  "listCategoryNames b ty db =
     map (\<lambda>c. (bc_id c, bc_name c, bc_icon c, bc_color c)) (categories_of_type b (orelse ty budget_type.EXPENSE) db)"

definition updateTarget :: "id \<Rightarrow> money \<Rightarrow> bdb \<Rightarrow> bdb result" where
  "updateTarget b target bd =
     rbind (store_money target) (\<lambda>_.
     rbind (update_row bb_id b (\<lambda>r. r\<lparr>bb_monthlyBudgetTarget := Some target\<rparr>) (bd_businesses bd)) (\<lambda>t.
     Inr (bd\<lparr>bd_businesses := t\<rparr>)))"

section \<open>Income goals\<close>

definition income_goal_row_of :: "arith \<Rightarrow> id \<Rightarrow> db \<Rightarrow> income_goal \<Rightarrow> income_goal_row" where
  "income_goal_row_of ar b db goal =
     (let monthStart = date_utc (ig_year goal) (ig_month goal) 1;
          monthEnd = date_utc (ig_year goal) (ig_month goal + 1) 1;
          earned = month_income b monthStart monthEnd db
      in \<lparr>ir_goal = goal, ir_earned = earned, ir_percent = percent_of ar (dec earned) (dec (ig_amount goal))\<rparr>)"

definition listIncomeGoals :: "arith \<Rightarrow> id \<Rightarrow> db \<Rightarrow> income_goal_row list" where
  "listIncomeGoals ar b db =
     map (income_goal_row_of ar b db)
       (find_many (\<lambda>g. ig_businessId g = b) (\<lambda>g. (- ig_year g, - ig_month g)) (income_goals db))"

definition goal_month :: "income_goal \<Rightarrow> id \<times> int \<times> int" where
  "goal_month g = (ig_businessId g, ig_year g, ig_month g)"

definition month_taken :: "int \<Rightarrow> int \<Rightarrow> http_error" where
  "month_taken month year = Conflict (''A goal for '' @ int_text month @ ''/'' @ int_text year @ '' already exists'')"

definition requireIncomeGoal :: "id \<Rightarrow> id \<Rightarrow> db \<Rightarrow> income_goal result" where
  "requireIncomeGoal b i db = require_row ig_id ig_businessId (NotFound ''Income goal not found'') b i (income_goals db)"

definition createIncomeGoal :: "id \<Rightarrow> id \<Rightarrow> create_income_goal_dto \<Rightarrow> db \<Rightarrow> (db \<times> income_goal) result" where
  "createIncomeGoal newId b dto db =
     rbind (check (find_row goal_month (b, ci_year dto, ci_month dto) (income_goals db) = None)
       (month_taken (ci_month dto) (ci_year dto))) (\<lambda>_.
     rbind (store_money (ci_amount dto)) (\<lambda>_.
     let g = \<lparr>ig_id = newId, ig_businessId = b, ig_month = ci_month dto, ig_year = ci_year dto, ig_amount = ci_amount dto,
       ig_notes = ci_notes dto\<rparr> in
     rbind (insert_row ig_id g (income_goals db)) (\<lambda>t. Inr (db\<lparr>income_goals := t\<rparr>, g))))"

definition edited_income_goal :: "update_income_goal_dto \<Rightarrow> income_goal \<Rightarrow> income_goal" where
  "edited_income_goal dto g =
     g\<lparr>ig_month := orelse (ui_month dto) (ig_month g), ig_year := orelse (ui_year dto) (ig_year g),
       ig_amount := orelse (ui_amount dto) (ig_amount g), ig_notes := orelse (ui_notes dto) (ig_notes g)\<rparr>"

definition updateIncomeGoal :: "id \<Rightarrow> id \<Rightarrow> update_income_goal_dto \<Rightarrow> db \<Rightarrow> db result" where
  "updateIncomeGoal b i dto db =
     rbind (requireIncomeGoal b i db) (\<lambda>goal.
     let nextMonth = orelse (ui_month dto) (ig_month goal); nextYear = orelse (ui_year dto) (ig_year goal) in
     rbind (if ui_month dto \<noteq> None \<or> ui_year dto \<noteq> None
       then check (case find_row goal_month (b, nextYear, nextMonth) (income_goals db) of None \<Rightarrow> True | Some clash \<Rightarrow> ig_id clash = i)
         (month_taken nextMonth nextYear)
       else Inr ()) (\<lambda>_.
     rbind (store_money (orelse (ui_amount dto) (ig_amount goal))) (\<lambda>_.
     rbind (update_row ig_id i (edited_income_goal dto) (income_goals db)) (\<lambda>t. Inr (db\<lparr>income_goals := t\<rparr>)))))"

definition deleteIncomeGoal :: "id \<Rightarrow> id \<Rightarrow> db \<Rightarrow> db result" where
  "deleteIncomeGoal b i db =
     rbind (requireIncomeGoal b i db) (\<lambda>_.
     rbind (delete_row ig_id i (income_goals db)) (\<lambda>t. Inr (db\<lparr>income_goals := t\<rparr>)))"

section \<open>Categories\<close>

definition category_key :: "budget_category \<Rightarrow> id \<times> budget_type \<times> string" where
  "category_key c = (bc_businessId c, bc_type c, bc_name c)"

definition category_taken :: "budget_type \<Rightarrow> string \<Rightarrow> http_error" where
  "category_taken ty name =
     Conflict (''A '' @ (if ty = budget_type.INCOME then ''income'' else ''budget'') @ '' category named '' @ quoted name @ '' already exists'')"

definition requireBudgetCategory :: "id \<Rightarrow> id \<Rightarrow> db \<Rightarrow> budget_category result" where
  "requireBudgetCategory b i db =
     require_row bc_id bc_businessId (NotFound ''Budget category not found'') b i (budget_categories db)"

definition store_limit :: "money option \<Rightarrow> unit result" where
  "store_limit limit = (case limit of None \<Rightarrow> Inr () | Some m \<Rightarrow> rbind (store_money m) (\<lambda>_. Inr ()))"

definition createBudgetCategory :: "id \<Rightarrow> instant \<Rightarrow> id \<Rightarrow> create_budget_category_dto \<Rightarrow> db \<Rightarrow> (db \<times> budget_category) result" where
  "createBudgetCategory newId now b dto db =
     (let ty = orelse (cb_type dto) budget_type.EXPENSE in
      rbind (check (\<not> (ty = budget_type.EXPENSE \<and> cb_monthlyLimit dto = None))
        (BadRequest ''A monthly limit is required for expense categories'')) (\<lambda>_.
      rbind (check (find_row category_key (b, ty, cb_name dto) (budget_categories db) = None) (category_taken ty (cb_name dto))) (\<lambda>_.
      let count = length (filter (\<lambda>c. bc_businessId c = b \<and> bc_type c = ty) (budget_categories db));
          c = \<lparr>bc_id = newId, bc_businessId = b, bc_type = ty, bc_name = cb_name dto, bc_icon = cb_icon dto, bc_color = cb_color dto,
            bc_monthlyLimit = (if ty = budget_type.INCOME then None else cb_monthlyLimit dto), bc_displayOrder = int count,
            bc_createdAt = now\<rparr> in
      rbind (store_limit (bc_monthlyLimit c)) (\<lambda>_.
      rbind (insert_row bc_id c (budget_categories db)) (\<lambda>t. Inr (db\<lparr>budget_categories := t\<rparr>, c))))))"

definition edited_budget_category :: "update_budget_category_dto \<Rightarrow> budget_category \<Rightarrow> budget_category" where
  "edited_budget_category dto c =
     c\<lparr>bc_name := orelse (ub_name dto) (bc_name c), bc_icon := orelse (ub_icon dto) (bc_icon c),
       bc_color := orelse (ub_color dto) (bc_color c),
       bc_monthlyLimit := (if bc_type c = budget_type.EXPENSE then orelse (ub_monthlyLimit dto) (bc_monthlyLimit c) else bc_monthlyLimit c)\<rparr>"

text \<open>The entries that carry the name, in this workspace's transactions of the category's type.\<close>

definition rename_entries :: "id \<Rightarrow> budget_type \<Rightarrow> string \<Rightarrow> string \<Rightarrow> db \<Rightarrow> db" where
  "rename_entries b ty old new db =
     db\<lparr>entries := update_many (\<lambda>e. en_categoryId e = Some old \<and>
         on_txn db (\<lambda>t. tx_businessId t = b \<and> tx_type t = TRANSACTION_TYPE_FOR ty) e)
       (\<lambda>e. e\<lparr>en_categoryId := Some new\<rparr>) (entries db)\<rparr>"

definition updateBudgetCategory :: "id \<Rightarrow> id \<Rightarrow> update_budget_category_dto \<Rightarrow> db \<Rightarrow> db result" where
  "updateBudgetCategory b i dto db =
     rbind (requireBudgetCategory b i db) (\<lambda>category.
     rbind (case ub_name dto of
         None \<Rightarrow> Inr ()
       | Some name \<Rightarrow> check (case find_row category_key (b, bc_type category, name) (budget_categories db) of
             None \<Rightarrow> True | Some clash \<Rightarrow> bc_id clash = i) (category_taken (bc_type category) name)) (\<lambda>_.
     let db = (case ub_name dto of
         None \<Rightarrow> db
       | Some name \<Rightarrow> if name \<noteq> bc_name category then rename_entries b (bc_type category) (bc_name category) name db else db) in
     rbind (store_limit (bc_monthlyLimit (edited_budget_category dto category))) (\<lambda>_.
     rbind (update_row bc_id i (edited_budget_category dto) (budget_categories db)) (\<lambda>t. Inr (db\<lparr>budget_categories := t\<rparr>)))))"

definition deleteBudgetCategory :: "id \<Rightarrow> id \<Rightarrow> db \<Rightarrow> db result" where
  "deleteBudgetCategory b i db =
     rbind (requireBudgetCategory b i db) (\<lambda>_.
     rbind (delete_row bc_id i (budget_categories db)) (\<lambda>t. Inr (db\<lparr>budget_categories := t\<rparr>)))"

end
