(* ===== verification/Budget_Facts.thy ===== *)
theory Budget_Facts
  imports Budgets
begin

text \<open>
  What budgets promise: the keys of categories and goals stay unique and an income category
  never gets a limit, whatever else runs in the ledger; renaming a category carries what was
  spent under its name along and leaves every balance alone.
\<close>

section \<open>Relabelled entries\<close>

text \<open>Changing the category of entries is invisible to the books.\<close>

definition relabels :: "(entry \<Rightarrow> entry) \<Rightarrow> bool" where
  "relabels f \<longleftrightarrow> (\<forall>e. (f e)\<lparr>en_categoryId := None\<rparr> = e\<lparr>en_categoryId := None\<rparr>)"

lemma relabelsD:
  assumes "relabels f"
  shows "en_id (f e) = en_id e" "en_transactionId (f e) = en_transactionId e" "en_accountId (f e) = en_accountId e"
    "en_type (f e) = en_type e" "en_amount (f e) = en_amount e"
proof -
  have "(f e)\<lparr>en_categoryId := None\<rparr> = e\<lparr>en_categoryId := None\<rparr>" using assms by (simp add: relabels_def)
  then show "en_id (f e) = en_id e" "en_transactionId (f e) = en_transactionId e" "en_accountId (f e) = en_accountId e"
    "en_type (f e) = en_type e" "en_amount (f e) = en_amount e"
    by (metis entry.select_convs entry.surjective entry.update_convs(6))+
qed

lemma sum_by_relabelled:
  assumes "\<And>e. P (f e) = P e" and "\<And>e. g (f e) = g e"
  shows "sum_by g (filter P (map f es)) = sum_by g (filter P es)"
  by (induction es) (simp_all add: assms)

lemma books_ok_relabelled:
  assumes "relabels f"
  shows "books_ok (db\<lparr>entries := map f (entries db)\<rparr>) = books_ok db"
proof -
  define db' where "db' = db\<lparr>entries := map f (entries db)\<rparr>"
  note f [simp] = relabelsD [OF assms]
  have tabs [simp]: "accounts db' = accounts db" "txns db' = txns db" "entries db' = map f (entries db)" by (simp_all add: db'_def)
  have on [simp]: "on_txn db' P (f e) = on_txn db P e" for P e by (simp add: on_txn_def txn_of_def)
  have of [simp]: "txn_of db' (f e) = txn_of db e" for e by (simp add: txn_of_def)
  have ents [simp]: "entries_of db' i = map f (entries_of db i)" for i by (simp add: entries_of_def filter_map comp_def)
  have acc [simp]: "account_entries db' i = map f (account_entries db i)" for i by (simp add: account_entries_def filter_map comp_def)
  have dead [simp]: "dead_entries db' i = map f (dead_entries db i)" for i by (simp add: dead_entries_def filter_map comp_def)
  have side [simp]: "side_sum s (map f es) = side_sum s es" for s es by (induction es) simp_all
  have mv [simp]: "moves (f e) = moves e" for e by (simp add: moves_def)
  have mv' [simp]: "map moves (map f es) = map moves es" for es by simp
  have keyed [simp]: "keyed en_id (map f (entries db)) = keyed en_id (entries db)" by (simp add: keyed_def comp_def)
  have core: "ledger_core db' = ledger_core db"
    by (simp add: ledger_core_def balanced_txn_def same_workspace_def fk_entries_def)
  have mir: "mirrors db' r i = mirrors db r i" for r i by (simp add: mirrors_def comp_def)
  have rev: "reversals_ok db' = reversals_ok db" by (simp add: reversals_ok_def mir reversals_def)
  have vn: "voids_net db' = voids_net db" by (simp add: voids_net_def)
  have ed: "entry_delta dp (f e) = entry_delta dp e" for dp e by (simp add: entry_delta_def)
  have bc: "balance_cached db' = balance_cached db" by (simp add: balance_cached_def true_balance_def ed)
  show ?thesis using core rev vn bc unfolding books_ok_def db'_def by blast
qed

lemma rename_entries_eq:
  "rename_entries b ty old new db = db\<lparr>entries := map (\<lambda>e. if en_categoryId e = Some old \<and>
     on_txn db (\<lambda>t. tx_businessId t = b \<and> tx_type t = TRANSACTION_TYPE_FOR ty) e then e\<lparr>en_categoryId := Some new\<rparr> else e) (entries db)\<rparr>"
  by (simp add: rename_entries_def update_many_def)

lemma books_ok_rename [simp]: "books_ok (rename_entries b ty old new db) = books_ok db"
  unfolding rename_entries_eq by (rule books_ok_relabelled) (simp add: relabels_def)

lemma books_ok_budget_tables [simp]:
  "books_ok (db\<lparr>budget_categories := cs\<rparr>) = books_ok db" "books_ok (db\<lparr>income_goals := gs\<rparr>) = books_ok db"
  by (simp_all add: books_ok_def ledger_core_def reversals_ok_def voids_net_def balance_cached_def fk_entries_def same_workspace_def
      balanced_txn_def entries_of_def txn_of_def on_txn_def dead_entries_def account_entries_def true_balance_def reversals_def mirrors_def)

lemma rename_tables [simp]:
  "budget_categories (rename_entries b ty old new db) = budget_categories db"
  "income_goals (rename_entries b ty old new db) = income_goals db"
  "accounts (rename_entries b ty old new db) = accounts db"
  "txns (rename_entries b ty old new db) = txns db"
  by (simp_all add: rename_entries_def)

section \<open>What the operations do\<close>

lemma require_budget_eq_Inr [result_simps]:
  "requireBudgetCategory b i db = Inr c \<longleftrightarrow> find_row bc_id i (budget_categories db) = Some c \<and> bc_businessId c = b"
  "requireIncomeGoal b i db = Inr g \<longleftrightarrow> find_row ig_id i (income_goals db) = Some g \<and> ig_businessId g = b"
  by (simp_all add: requireBudgetCategory_def requireIncomeGoal_def result_simps)

lemma store_limit_eq_Inr [result_simps]: "store_limit l = Inr u \<longleftrightarrow> (\<forall>m. l = Some m \<longrightarrow> fits_money m)"
  by (cases l) (auto simp: store_limit_def result_simps)

lemma createBudgetCategory_result:
  assumes "createBudgetCategory newId now b dto db = Inr (db', c)"
  shows "db' = db\<lparr>budget_categories := budget_categories db @ [c]\<rparr>" "bc_id c \<notin> bc_id ` set (budget_categories db)"
    "category_key c \<notin> category_key ` set (budget_categories db)" "bc_type c = budget_type.INCOME \<Longrightarrow> bc_monthlyLimit c = None"
    "bc_type c = budget_type.EXPENSE \<Longrightarrow> bc_monthlyLimit c \<noteq> None"
  using assms unfolding createBudgetCategory_def Let_def
  by (auto simp: result_simps find_row_None category_key_def split: if_splits)

lemma updateBudgetCategory_result:
  assumes "updateBudgetCategory b i dto db = Inr db'"
  obtains c where "find_row bc_id i (budget_categories db) = Some c" "bc_businessId c = b"
    "db' = (if orelse (ub_name dto) (bc_name c) \<noteq> bc_name c then rename_entries b (bc_type c) (bc_name c) (orelse (ub_name dto) (bc_name c)) db else db)
       \<lparr>budget_categories := map_row bc_id i (edited_budget_category dto) (budget_categories db)\<rparr>"
    "\<forall>n x. ub_name dto = Some n \<longrightarrow> find_row category_key (b, bc_type c, n) (budget_categories db) = Some x \<longrightarrow> bc_id x = i"
proof -
  from assms obtain c where c: "find_row bc_id i (budget_categories db) = Some c" "bc_businessId c = b"
    unfolding updateBudgetCategory_def by (auto simp: rbind_eq_Inr require_budget_eq_Inr)
  then have req: "requireBudgetCategory b i db = Inr c" by (simp add: require_budget_eq_Inr)
  from assms show thesis
    unfolding updateBudgetCategory_def req
    by (intro that [OF c]) (auto simp: Let_def result_simps split: option.splits if_splits)
qed

lemma createIncomeGoal_result:
  assumes "createIncomeGoal newId b dto db = Inr (db', g)"
  shows "db' = db\<lparr>income_goals := income_goals db @ [g]\<rparr>" "ig_id g \<notin> ig_id ` set (income_goals db)"
    "goal_month g \<notin> goal_month ` set (income_goals db)"
  using assms unfolding createIncomeGoal_def Let_def
  by (auto simp: result_simps find_row_None goal_month_def split: if_splits)

lemma updateIncomeGoal_result:
  assumes "updateIncomeGoal b i dto db = Inr db'"
  obtains g where "find_row ig_id i (income_goals db) = Some g" "ig_businessId g = b"
    "db' = db\<lparr>income_goals := map_row ig_id i (edited_income_goal dto) (income_goals db)\<rparr>"
    "goal_month (edited_income_goal dto g) = goal_month g \<or>
     (\<forall>x. find_row goal_month (goal_month (edited_income_goal dto g)) (income_goals db) = Some x \<longrightarrow> ig_id x = i)"
proof -
  from assms obtain g where g: "find_row ig_id i (income_goals db) = Some g" "ig_businessId g = b"
    unfolding updateIncomeGoal_def by (auto simp: rbind_eq_Inr require_budget_eq_Inr)
  then have req: "requireIncomeGoal b i db = Inr g" by (simp add: require_budget_eq_Inr)
  from assms g show thesis
    unfolding updateIncomeGoal_def req
    by (intro that [OF g]) (auto simp: Let_def result_simps goal_month_def edited_income_goal_def split: option.splits if_splits)
qed

section \<open>The invariant\<close>

definition budgets_ok :: "db \<Rightarrow> bool" where
  "budgets_ok db \<longleftrightarrow> keyed bc_id (budget_categories db) \<and> keyed category_key (budget_categories db) \<and>
     (\<forall>c \<in> set (budget_categories db). bc_type c = budget_type.INCOME \<longrightarrow> bc_monthlyLimit c = None) \<and>
     keyed ig_id (income_goals db) \<and> keyed goal_month (income_goals db)"

text \<open>A key stays unique when one row takes a key no other row has.\<close>

lemma keyed_map_row_fresh:
  assumes "keyed key t" and "keyed sub t" and "find_row key k t = Some r"
    and "sub (f r) = sub r \<or> (\<forall>x. find_row sub (sub (f r)) t = Some x \<longrightarrow> key x = k)"
  shows "keyed sub (map_row key k f t)"
  unfolding keyed_def map_row_def map_map distinct_map
proof
  show "distinct t" using assms(1) by (simp add: keyed_def distinct_map)
  have r: "r \<in> set t" "key r = k" using find_row_Some [OF assms(3)] by simp_all
  have only: "x = r" if "x \<in> set t" "key x = k" for x
    using find_row_mem [OF assms(1) that(1)] assms(3) that(2) by simp
  have fresh: "sub x \<noteq> sub (f r)" if "x \<in> set t" "key x \<noteq> k" for x
  proof
    assume eq: "sub x = sub (f r)"
    have "find_row sub (sub (f r)) t = Some x" using find_row_mem [OF assms(2) that(1)] by (simp add: eq)
    with assms(4) that(2) have "sub x = sub r" by (auto simp: eq)
    with assms(2) that(1) r have "x = r" by (auto simp: keyed_def distinct_map inj_on_def)
    with that(2) r(2) show False by simp
  qed
  have inj: "x = y" if "x \<in> set t" "y \<in> set t" "sub x = sub y" for x y
    using assms(2) that by (auto simp: keyed_def distinct_map inj_on_def)
  show "inj_on (sub \<circ> (\<lambda>r. if key r = k then f r else r)) (set t)"
    by (rule inj_onI) (auto dest: only fresh inj fresh [OF _ _, symmetric] split: if_splits)
qed

lemma deleteBudget_result:
  "deleteBudgetCategory b i db = Inr db' \<Longrightarrow> db' = db\<lparr>budget_categories := filter (\<lambda>c. bc_id c \<noteq> i) (budget_categories db)\<rparr>"
  "deleteIncomeGoal b i db = Inr db' \<Longrightarrow> db' = db\<lparr>income_goals := filter (\<lambda>g. ig_id g \<noteq> i) (income_goals db)\<rparr>"
  unfolding deleteBudgetCategory_def deleteIncomeGoal_def by (auto simp: result_simps)

lemma updateBudgetCategory_keeps:
  assumes "updateBudgetCategory b i dto db = Inr db'" and ok: "budgets_ok db"
  shows "budgets_ok db'" "books_ok db' = books_ok db"
proof -
  from assms(1) obtain c where c: "find_row bc_id i (budget_categories db) = Some c" "bc_businessId c = b"
    and db': "db' = (if orelse (ub_name dto) (bc_name c) \<noteq> bc_name c then rename_entries b (bc_type c) (bc_name c) (orelse (ub_name dto) (bc_name c)) db else db)
       \<lparr>budget_categories := map_row bc_id i (edited_budget_category dto) (budget_categories db)\<rparr>"
    and clash: "\<forall>n x. ub_name dto = Some n \<longrightarrow> find_row category_key (b, bc_type c, n) (budget_categories db) = Some x \<longrightarrow> bc_id x = i"
    by (rule updateBudgetCategory_result)
  show "books_ok db' = books_ok db" by (simp add: db')
  have key: "category_key (edited_budget_category dto c) = category_key c \<or>
      (\<forall>x. find_row category_key (category_key (edited_budget_category dto c)) (budget_categories db) = Some x \<longrightarrow> bc_id x = i)"
    using clash c(2) by (cases "ub_name dto") (auto simp: category_key_def edited_budget_category_def)
  have "keyed category_key (map_row bc_id i (edited_budget_category dto) (budget_categories db))"
    using ok keyed_map_row_fresh [where sub = category_key and f = "edited_budget_category dto", OF _ _ c(1) key] by (simp add: budgets_ok_def)
  moreover have "keyed bc_id (map_row bc_id i (edited_budget_category dto) (budget_categories db))"
    using ok by (simp add: budgets_ok_def keyed_map_row edited_budget_category_def)
  moreover have "\<forall>x \<in> set (map_row bc_id i (edited_budget_category dto) (budget_categories db)).
      bc_type x = budget_type.INCOME \<longrightarrow> bc_monthlyLimit x = None"
    using ok by (auto simp: budgets_ok_def set_map_row edited_budget_category_def)
  ultimately show "budgets_ok db'" using ok by (simp add: budgets_ok_def db')
qed

lemma updateIncomeGoal_keeps:
  assumes "updateIncomeGoal b i dto db = Inr db'" and ok: "budgets_ok db"
  shows "budgets_ok db'" "books_ok db' = books_ok db"
proof -
  from assms(1) obtain g where g: "find_row ig_id i (income_goals db) = Some g"
    and db': "db' = db\<lparr>income_goals := map_row ig_id i (edited_income_goal dto) (income_goals db)\<rparr>"
    and key: "goal_month (edited_income_goal dto g) = goal_month g \<or>
     (\<forall>x. find_row goal_month (goal_month (edited_income_goal dto g)) (income_goals db) = Some x \<longrightarrow> ig_id x = i)"
    by (rule updateIncomeGoal_result)
  show "books_ok db' = books_ok db" by (simp add: db')
  show "budgets_ok db'"
    using ok keyed_map_row_fresh [where sub = goal_month and f = "edited_income_goal dto", OF _ _ g key] by (simp add: budgets_ok_def db' keyed_map_row edited_income_goal_def)
qed

inductive budgets_step :: "db \<Rightarrow> db \<Rightarrow> bool" where
  category_created: "createBudgetCategory newId now b cb db = Inr (db', c) \<Longrightarrow> budgets_step db db'"
| category_updated: "updateBudgetCategory b i ub db = Inr db' \<Longrightarrow> budgets_step db db'"
| category_deleted: "deleteBudgetCategory b i db = Inr db' \<Longrightarrow> budgets_step db db'"
| goal_created: "createIncomeGoal newId b ci db = Inr (db', g) \<Longrightarrow> budgets_step db db'"
| goal_updated: "updateIncomeGoal b i ui db = Inr db' \<Longrightarrow> budgets_step db db'"
| goal_deleted: "deleteIncomeGoal b i db = Inr db' \<Longrightarrow> budgets_step db db'"
| ledger_moved: "ledger_step db db' \<Longrightarrow> budgets_step db db'"

inductive_cases budgets_stepE: "budgets_step db db'"

interpretation budgets: invariant_system budgets_step "\<lambda>db. books_ok db \<and> budgets_ok db"
proof
  fix db db' assume step: "budgets_step db db'" and ok: "books_ok db \<and> budgets_ok db"
  then have books: "books_ok db" and bud: "budgets_ok db" by simp_all
  from step show "books_ok db' \<and> budgets_ok db'"
  proof (rule budgets_stepE)
    fix newId now b dto c assume "createBudgetCategory newId now b dto db = Inr (db', c)"
    from createBudgetCategory_result [OF this] books bud show ?thesis by (auto simp: budgets_ok_def)
  next
    fix newId b dto g assume "createIncomeGoal newId b dto db = Inr (db', g)"
    from createIncomeGoal_result [OF this] books bud show ?thesis by (auto simp: budgets_ok_def)
  next
    fix b i assume "deleteBudgetCategory b i db = Inr db'"
    from deleteBudget_result(1) [OF this] books bud show ?thesis by (simp add: budgets_ok_def keyed_filter)
  next
    fix b i assume "deleteIncomeGoal b i db = Inr db'"
    from deleteBudget_result(2) [OF this] books bud show ?thesis by (simp add: budgets_ok_def keyed_filter)
  next
    assume l: "ledger_step db db'"
    have "budget_categories db' = budget_categories db" "income_goals db' = income_goals db"
      using ledger_step_features [OF l books] by (simp_all add: feature_tables_def)
    with books.step_inv [OF l books] bud show ?thesis by (simp add: budgets_ok_def)
  qed (use books bud updateBudgetCategory_keeps updateIncomeGoal_keeps in blast)+
qed

text \<open>
  C31: whatever categories and income goals are created, edited, renamed and deleted, mixed with
  postings, voids, changes to the chart of accounts and reconciliations in any order, the ledger
  stays sound, no two categories of a workspace and type share a name, no two goals share a month,
  and no income category has a limit.
\<close>

theorem budgets_run_ok:
  assumes "budgets_step\<^sup>*\<^sup>* db db'" and "books_ok db" and "budgets_ok db"
  shows "books_ok db' \<and> distinct (map category_key (budget_categories db')) \<and> distinct (map goal_month (income_goals db')) \<and>
    \<not> (\<exists>c \<in> set (budget_categories db'). bc_type c = budget_type.INCOME \<and> bc_monthlyLimit c \<noteq> None)"
  using budgets.run_inv [OF assms(1)] assms(2,3) by (simp add: budgets_ok_def keyed_def)

section \<open>Renaming a category\<close>

lemma transaction_type_for_inj [simp]: "TRANSACTION_TYPE_FOR ty = TRANSACTION_TYPE_FOR ty' \<longleftrightarrow> ty = ty'"
  by (cases ty; cases ty') simp_all

lemma category_spent_rename:
  assumes "old \<noteq> new"
  shows "category_spent b' ty' n s t (rename_entries b ty old new db) =
    (if b' = b \<and> ty' = ty
     then (if n = old then 0 else if n = new then category_spent b ty old s t db + category_spent b ty new s t db
           else category_spent b ty n s t db)
     else category_spent b' ty' n s t db)"
proof -
  define T where "T = on_txn db (\<lambda>x. tx_businessId x = b \<and> tx_type x = TRANSACTION_TYPE_FOR ty)"
  define Q where "Q b ty = on_txn db (\<lambda>x. tx_businessId x = b \<and> live_txn x \<and> tx_type x = TRANSACTION_TYPE_FOR ty \<and> s \<le> tx_date x \<and> tx_date x < t)" for b ty
  define f where "f e = (if en_categoryId e = Some old \<and> T e then e\<lparr>en_categoryId := Some new\<rparr> else e)" for e
  have on: "on_txn (db\<lparr>entries := es\<rparr>) P (f e) = on_txn db P e" for es P e by (simp add: on_txn_def txn_of_def f_def)
  have amt: "en_amount (f e) = en_amount e" for e by (simp add: f_def)
  have spent: "category_spent b ty n s t db = sum_by (\<lambda>e. if en_categoryId e = Some n \<and> Q b ty e then en_amount e else 0) (entries db)" for b ty n
    by (simp add: category_spent_def Q_def sum_by_filter)
  have spent': "category_spent b' ty' n s t (rename_entries b ty old new db) =
      sum_by (\<lambda>e. if en_categoryId (f e) = Some n \<and> Q b' ty' e then en_amount e else 0) (entries db)"
    unfolding rename_entries_eq category_spent_def Q_def
    by (simp add: sum_by_filter on amt cong: if_cong flip: f_def T_def)
  have QT: "Q b ty e \<Longrightarrow> T e" for e by (auto simp: Q_def T_def on_txn_def split: option.splits)
  have other: "Q b' ty' e \<Longrightarrow> \<not> (b' = b \<and> ty' = ty) \<Longrightarrow> \<not> T e" for e by (auto simp: Q_def T_def on_txn_def split: option.splits)
  show ?thesis
  proof (cases "b' = b \<and> ty' = ty")
    case True
    have cat: "en_categoryId (f e) = (if en_categoryId e = Some old then Some new else en_categoryId e)" if "Q b ty e" for e
      using QT [OF that] by (simp add: f_def)
    consider "n = old" | "n = new" | "n \<noteq> old" "n \<noteq> new" by blast
    then show ?thesis
    proof cases
      case 1
      have "category_spent b' ty' n s t (rename_entries b ty old new db) = sum_by (\<lambda>e. 0) (entries db)"
        unfolding spent' using True assms 1 by (intro sum_by_cong) (auto simp: cat split: if_splits)
      then show ?thesis using True 1 by simp
    next
      case 2
      have "category_spent b' ty' n s t (rename_entries b ty old new db) =
          sum_by (\<lambda>e. (if en_categoryId e = Some old \<and> Q b ty e then en_amount e else 0) +
            (if en_categoryId e = Some new \<and> Q b ty e then en_amount e else 0)) (entries db)"
        unfolding spent' using True assms 2 by (intro sum_by_cong) (auto simp: cat)
      then show ?thesis unfolding sum_by_plus using True 2 assms by (simp add: spent)
    next
      case 3
      then have "category_spent b' ty' n s t (rename_entries b ty old new db) = category_spent b ty n s t db"
        unfolding spent' spent using True by (intro sum_by_cong) (auto simp: cat split: if_splits)
      then show ?thesis using True 3 by simp
    qed
  next
    case False
    have same: "f e = e" if "Q b' ty' e" for e using other [OF that False] by (simp add: f_def)
    have "category_spent b' ty' n s t (rename_entries b ty old new db) = category_spent b' ty' n s t db"
      unfolding spent' spent by (intro sum_by_cong) (auto simp: same)
    then show ?thesis unfolding if_not_P [OF False] .
  qed
qed

lemma month_income_rename: "month_income b' s t (rename_entries b ty old new db) = month_income b' s t db"
proof -
  have "month_income b' s t (db\<lparr>entries := map f (entries db)\<rparr>) = month_income b' s t db"
    if "\<And>e. en_categoryId (f e) = None \<longleftrightarrow> en_categoryId e = None" and "relabels f" for f
    unfolding month_income_def
    by (simp add: relabelsD [OF that(2)] that(1) on_txn_def txn_of_def sum_by_filter del: not_None_eq cong: if_cong)
  then show ?thesis unfolding rename_entries_eq by (simp add: relabels_def)
qed

lemma category_spent_tables [simp]: "category_spent b ty n s t (db\<lparr>budget_categories := cs\<rparr>) = category_spent b ty n s t db"
  by (simp add: category_spent_def on_txn_def txn_of_def)

lemma month_income_tables [simp]: "month_income b s t (db\<lparr>budget_categories := cs\<rparr>) = month_income b s t db"
  by (simp add: month_income_def on_txn_def txn_of_def)

text \<open>
  Renaming a category carries its history along: over any range of dates the new name has been
  spent (or earned) what the old name was, on top of what entries entered by hand already carried
  the new name, and nothing is left under the old one; the figures of every other name, type and
  workspace, the income of every workspace, and what every entry moves stay as they were.
\<close>

theorem rename_carries_history:
  assumes "updateBudgetCategory b i dto db = Inr db'" and "find_row bc_id i (budget_categories db) = Some c"
    and "ub_name dto = Some new" and "new \<noteq> bc_name c"
  shows "category_spent b (bc_type c) new s t db' =
      category_spent b (bc_type c) (bc_name c) s t db + category_spent b (bc_type c) new s t db \<and>
    category_spent b (bc_type c) (bc_name c) s t db' = 0 \<and>
    (b' \<noteq> b \<or> ty \<noteq> bc_type c \<or> n \<notin> {new, bc_name c} \<longrightarrow> category_spent b' ty n s t db' = category_spent b' ty n s t db) \<and>
    month_income b' s t db' = month_income b' s t db \<and> map moves (entries db') = map moves (entries db)"
proof -
  from assms obtain cs where db': "db' = (rename_entries b (bc_type c) (bc_name c) new db)\<lparr>budget_categories := cs\<rparr>"
    by (elim updateBudgetCategory_result) auto
  have "map moves (entries db') = map moves (entries db)"
    by (simp add: db' rename_entries_eq moves_def)
  then show ?thesis using assms(4) by (auto simp: db' category_spent_rename month_income_rename)
qed

section \<open>A worked example\<close>

definition sample_category :: "string \<Rightarrow> budget_type \<Rightarrow> money option \<Rightarrow> budget_category" where
  "sample_category name ty limit = \<lparr>bc_id = name, bc_businessId = ''w'', bc_type = ty, bc_name = name, bc_icon = None,
     bc_color = ''blue'', bc_monthlyLimit = limit, bc_displayOrder = 0, bc_createdAt = 0\<rparr>"

definition budget_books :: db where
  "budget_books = sample_books\<lparr>
     entries := map (\<lambda>e. if en_id e \<in> {''e2'', ''e8'', ''e10''} then e\<lparr>en_categoryId := Some ''Salary''\<rparr> else e) (entries sample_books),
     budget_categories := [sample_category ''Salary'' budget_type.INCOME None, sample_category ''Food'' budget_type.EXPENSE (Some 5000)]\<rparr>"

lemma budget_books_ok: "books_ok budget_books" "budgets_ok budget_books"
proof -
  have "relabels (\<lambda>e. if en_id e \<in> {''e2'', ''e8'', ''e10''} then e\<lparr>en_categoryId := Some ''Salary''\<rparr> else e)"
    by (simp add: relabels_def)
  from books_ok_relabelled [OF this, of sample_books] sample_books_sound
  show "books_ok budget_books" by (simp add: budget_books_def)
  show "budgets_ok budget_books"
    by (simp add: budgets_ok_def budget_books_def sample_category_def category_key_def sample_books_def empty_db_def)
qed

definition rename_to :: "string \<Rightarrow> update_budget_category_dto" where
  "rename_to n = \<lparr>ub_name = Some n, ub_icon = None, ub_color = None, ub_monthlyLimit = None\<rparr>"

definition renamed_books :: db where
  "renamed_books = (rename_entries ''w'' budget_type.INCOME ''Salary'' ''Wages'' budget_books)\<lparr>
     budget_categories := map_row bc_id ''Salary'' (edited_budget_category (rename_to ''Wages'')) (budget_categories budget_books)\<rparr>"

lemma sample_rename: "updateBudgetCategory ''w'' ''Salary'' (rename_to ''Wages'') budget_books = Inr renamed_books"
  by (simp add: updateBudgetCategory_def requireBudgetCategory_def require_row_def renamed_books_def budget_books_def sample_category_def
      rename_to_def edited_budget_category_def store_limit_def update_row_def category_key_def rename_entries_def)

lemma budgets_run_ok_witness:
  "books_ok renamed_books \<and> distinct (map category_key (budget_categories renamed_books)) \<and>
    distinct (map goal_month (income_goals renamed_books)) \<and>
    \<not> (\<exists>c \<in> set (budget_categories renamed_books). bc_type c = budget_type.INCOME \<and> bc_monthlyLimit c \<noteq> None)"
  by (rule budgets_run_ok [OF r_into_rtranclp [of budgets_step, OF budgets_step.category_updated [OF sample_rename]] budget_books_ok])

lemma rename_carries_history_witness:
  "category_spent ''w'' budget_type.INCOME ''Wages'' 0 (5 * day_ms) renamed_books = 10000 \<and>
   category_spent ''w'' budget_type.INCOME ''Salary'' 0 (5 * day_ms) renamed_books = 0"
proof -
  have find: "find_row bc_id ''Salary'' (budget_categories budget_books) = Some (sample_category ''Salary'' budget_type.INCOME None)"
    by (simp add: budget_books_def sample_category_def)
  have names: "ub_name (rename_to ''Wages'') = Some ''Wages''" "''Wages'' \<noteq> bc_name (sample_category ''Salary'' budget_type.INCOME None)"
    by (simp_all add: rename_to_def sample_category_def)
  have spent: "category_spent ''w'' budget_type.INCOME ''Salary'' 0 (5 * day_ms) budget_books = 10000"
    "category_spent ''w'' budget_type.INCOME ''Wages'' 0 (5 * day_ms) budget_books = 0"
    by (simp_all add: category_spent_def budget_books_def sample_books_def plain_rows on_txn_def txn_of_def live_txn_def day_ms_def)
  from rename_carries_history [OF sample_rename find names, of 0 "5 * day_ms"] spent
  show ?thesis by (simp add: sample_category_def)
qed

text \<open>
  The limit creation insists on for an expense category can be cleared by an update: an explicit
  \<open>null\<close> passes the request's optional field and is written.
\<close>

lemma expense_limit_can_be_cleared:
  "\<exists>db' c. updateBudgetCategory ''w'' ''Food'' \<lparr>ub_name = None, ub_icon = None, ub_color = None, ub_monthlyLimit = Some None\<rparr> budget_books = Inr db' \<and>
     find_row bc_id ''Food'' (budget_categories db') = Some c \<and> bc_type c = budget_type.EXPENSE \<and> bc_monthlyLimit c = None"
  by (simp add: updateBudgetCategory_def requireBudgetCategory_def require_row_def budget_books_def sample_category_def
      edited_budget_category_def store_limit_def update_row_def)

end
