(* ===== verification/Reports.thy ===== *)
theory Reports
  imports Budgets
begin

text \<open>
  The reports of a workspace (src/reports/reports.service.ts, src/reports/month-buckets.ts): the
  general ledger, the trial balance, income or expense by category and by month, and income
  against savings. The order in which the database lists the groups of a \<open>groupBy\<close> is a parameter
  of the two that use one.
\<close>

section \<open>The general ledger\<close>

record general_query =
  gq_page :: "nat option"
  gq_limit :: "nat option"

record general_row =
  gn_id :: id
  gn_name :: string
  gn_nameBn :: "string option"
  gn_accountSubtype :: "string option"
  gn_currentBalance :: money
  gn_isSystemAccount :: bool
  gn_status :: record_status

record general_ledger =
  gl_groups :: "(account_type \<times> general_row list) list"
  gl_page :: nat
  gl_limit :: nat
  gl_total :: nat
  gl_totalPages :: nat

definition general_row_of :: "account \<Rightarrow> general_row" where
  "general_row_of a = \<lparr>gn_id = acc_id a, gn_name = acc_name a, gn_nameBn = acc_nameBn a,
     gn_accountSubtype = acc_accountSubtype a, gn_currentBalance = acc_currentBalance a,
     gn_isSystemAccount = acc_isSystemAccount a, gn_status = acc_status a\<rparr>"

definition getGeneralLedger :: "id \<Rightarrow> general_query \<Rightarrow> db \<Rightarrow> general_ledger" where
  "getGeneralLedger b filters db =
     (let page = orelse (gq_page filters) 1;
          limit = orelse (gq_limit filters) 100;
          total = length (filter (\<lambda>a. acc_businessId a = b) (accounts db));
          accs = take limit (drop ((page - 1) * limit) (listed_accounts b db))
      in \<lparr>gl_groups = map (\<lambda>ty. (ty, map general_row_of (filter (\<lambda>a. acc_accountType a = ty) accs))) ACCOUNT_TYPE_ORDER,
          gl_page = page, gl_limit = limit, gl_total = total, gl_totalPages = (total + limit - 1) div limit\<rparr>)"

section \<open>The trial balance\<close>

record trial_row =
  tb_accountId :: id
  tb_name :: string
  tb_nameBn :: "string option"
  tb_accountType :: account_type
  tb_status :: record_status
  tb_debit :: money
  tb_credit :: money

record trial_balance =
  tb_rows :: "trial_row list"
  tb_totalDebit :: money
  tb_totalCredit :: money
  tb_isBalanced :: bool

text \<open>The debit and the credit column of a balance; a negative one shows in the other column.\<close>

definition trial_columns :: "account \<Rightarrow> money \<times> money" where
  "trial_columns a =
     (let balance = acc_currentBalance a in
      if isDebitPositive (acc_accountType a) then (if 0 \<le> balance then (balance, 0) else (0, \<bar>balance\<bar>))
      else (if 0 \<le> balance then (0, balance) else (\<bar>balance\<bar>, 0)))"

definition trial_row_of :: "account \<Rightarrow> trial_row" where
  "trial_row_of a = \<lparr>tb_accountId = acc_id a, tb_name = acc_name a, tb_nameBn = acc_nameBn a,
     tb_accountType = acc_accountType a, tb_status = acc_status a,
     tb_debit = fst (trial_columns a), tb_credit = snd (trial_columns a)\<rparr>"

definition getTrialBalance :: "id \<Rightarrow> db \<Rightarrow> trial_balance" where
  "getTrialBalance b db =
     (let rows = map trial_row_of (listed_accounts b db);
          totalDebit = sum_by tb_debit rows;
          totalCredit = sum_by tb_credit rows
      in \<lparr>tb_rows = rows, tb_totalDebit = totalDebit, tb_totalCredit = totalCredit, tb_isBalanced = (totalDebit = totalCredit)\<rparr>)"

section \<open>Income and expense by category\<close>

definition FALLBACK_COLORS :: "string list" where
  "FALLBACK_COLORS = [''blue'', ''green'', ''purple'', ''orange'', ''pink'', ''yellow'', ''red'', ''indigo'']"

text \<open>
  \<open>groupBy\<close> on the category of the entries the filter keeps, with the sum of each group; \<open>order\<close>
  is the order the database returns the groups in.
\<close>

definition group_by_category :: "(string list \<Rightarrow> string list) \<Rightarrow> (entry \<Rightarrow> bool) \<Rightarrow> db \<Rightarrow> (string \<times> money) list" where
  "group_by_category order P db =
     (let es = filter (\<lambda>e. en_categoryId e \<noteq> None \<and> P e) (entries db) in
      map (\<lambda>name. (name, sum_by en_amount (filter (\<lambda>e. en_categoryId e = Some name) es)))
        (order (js_set (map (\<lambda>e. the (en_categoryId e)) es))))"

text \<open>The colour of the i-th category: that of the budget category of its name, or one by rank.\<close>

definition category_color :: "id \<Rightarrow> budget_type \<Rightarrow> string list \<Rightarrow> db \<Rightarrow> nat \<Rightarrow> string \<Rightarrow> string" where
  "category_color b ty names db i name =
     (let budgetCategories = filter (\<lambda>c. bc_businessId c = b \<and> bc_type c = ty \<and> bc_name c \<in> set names) (budget_categories db) in
      case find_row bc_name name (rev budgetCategories) of
        Some c \<Rightarrow> bc_color c
      | None \<Rightarrow> FALLBACK_COLORS ! (i mod length FALLBACK_COLORS))"

record breakdown_query =
  bk_type :: budget_type
  bk_dateFrom :: "instant option"
  bk_dateTo :: "instant option"

record breakdown_row =
  bk_name :: string
  bk_amount :: money
  bk_percent :: int
  bk_color :: string

record breakdown =
  bk_ofType :: budget_type
  bk_total :: money
  bk_categories :: "breakdown_row list"

text \<open>The live transactions of one type of a workspace whose date the filter keeps.\<close>

definition report_where :: "id \<Rightarrow> budget_type \<Rightarrow> (instant \<Rightarrow> bool) \<Rightarrow> db \<Rightarrow> entry \<Rightarrow> bool" where
  "report_where b ty P db =
     on_txn db (\<lambda>t. tx_businessId t = b \<and> live_txn t \<and> tx_type t = TRANSACTION_TYPE_FOR ty \<and> P (tx_date t))"

definition getCategoryBreakdown ::
  "arith \<Rightarrow> (string list \<Rightarrow> string list) \<Rightarrow> id \<Rightarrow> breakdown_query \<Rightarrow> db \<Rightarrow> breakdown" where
  "getCategoryBreakdown ar order b query db =
     (let grouped = group_by_category order (report_where b (bk_type query) (in_range (bk_dateFrom query) (bk_dateTo query)) db) db;
          categoryNames = filter (\<lambda>name. name \<noteq> []) (map fst grouped);
          withAmounts = sort_key (\<lambda>(name, amount, color). - amount)
            (map (\<lambda>(i, name, amount). (name, amount, category_color b (bk_type query) categoryNames db i name)) (enumerate 0 grouped));
          total = sum_by (\<lambda>(name, amount, color). amount) withAmounts
      in \<lparr>bk_ofType = bk_type query, bk_total = total,
          bk_categories = map (\<lambda>(name, amount, color).
              \<lparr>bk_name = name, bk_amount = amount,
               bk_percent = (if total = 0 then 0 else math_round (percent_number ar (dec amount) (dec total))),
               bk_color = color\<rparr>) (take 10 withAmounts)\<rparr>)"

section \<open>The calendar months of a range\<close>

text \<open>
  A day as a request sends it. \<open>new Date(text)\<close> of \<open>YYYY-MM-DD\<close>, \<open>YYYY-MM\<close> or \<open>YYYY\<close>, at UTC
  midnight (a day past the end of its month runs into the next one); any other text is an
  invalid date, which compares false with everything.
\<close>

definition number_text :: "string \<Rightarrow> int option" where
  "number_text s = (if s \<noteq> [] \<and> list_all (\<lambda>c. char_digit c \<noteq> None) s then Some (int (fst (read_nat 0 s))) else None)"

definition read_day :: "string \<Rightarrow> instant option" where
  "read_day s =
     (let month = (if length s = 4 then Some 1 else number_text (take 2 (drop 5 s)));
          day = (if length s < 8 then Some 1 else number_text (drop 8 s)) in
      if (length s = 4 \<or> length s = 7 \<and> s ! 4 = CHR ''-'' \<or> length s = 10 \<and> s ! 4 = CHR ''-'' \<and> s ! 7 = CHR ''-'')
      then (case (number_text (take 4 s), month, day) of
              (Some y, Some m, Some d) \<Rightarrow> if 1 \<le> m \<and> m \<le> 12 \<and> 1 \<le> d \<and> d \<le> 31 then Some (date_utc y m d) else None
            | _ \<Rightarrow> None)
      else None)"

definition dayStart :: "string \<Rightarrow> instant option" where
  "dayStart day = read_day (take 10 day)"

definition nextDay :: "instant \<Rightarrow> instant" where
  "nextDay date = date + 24 * 60 * 60 * 1000"

text \<open>\<open>Date.UTC\<close>, which reads the years 0 to 99 as 1900 to 1999.\<close>

definition Date_UTC :: "int \<Rightarrow> int \<Rightarrow> int \<Rightarrow> instant" where
  "Date_UTC y m d = date_utc (if 0 \<le> y \<and> y \<le> 99 then 1900 + y else y) m d"

text \<open>\<open>toISOString().slice(0, 7)\<close>, for the years 0 to 9999.\<close>

definition month_key :: "instant \<Rightarrow> string" where
  "month_key t = (case utc_date t of (y, m, d) \<Rightarrow> pad 4 (nat_digits (nat y)) @ ''-'' @ pad 2 (nat_digits (nat m)))"

record month_bucket =
  mb_key :: string
  mb_start :: instant
  mb_end :: instant

definition MAX_REPORT_MONTHS :: nat where
  "MAX_REPORT_MONTHS = 24"

definition month_first :: "int \<Rightarrow> instant \<Rightarrow> instant" where
  "month_first offs t = (case utc_date t of (y, m, d) \<Rightarrow> Date_UTC y (m + offs) 1)"

definition bucket_at :: "instant \<Rightarrow> instant \<Rightarrow> instant \<Rightarrow> month_bucket" where
  "bucket_at from to cursor =
     \<lparr>mb_key = month_key cursor, mb_start = (if from < cursor then cursor else from),
      mb_end = (if month_first 1 cursor < to then month_first 1 cursor else to)\<rparr>"

function bucket_loop :: "instant \<Rightarrow> instant \<Rightarrow> instant \<Rightarrow> month_bucket list \<Rightarrow> month_bucket list" where
  "bucket_loop from to cursor buckets =
     (if cursor < to then
        if MAX_REPORT_MONTHS < length (buckets @ [bucket_at from to cursor]) then []
        else bucket_loop from to (month_first 1 cursor) (buckets @ [bucket_at from to cursor])
      else buckets)"
  by auto
termination by (relation "measure (\<lambda>(_, _, _, bs). Suc MAX_REPORT_MONTHS - length bs)") auto

declare bucket_loop.simps [simp del]

definition monthBucketsBetween :: "string \<Rightarrow> string \<Rightarrow> month_bucket list" where
  "monthBucketsBetween dateFrom dateTo =
     (case (dayStart dateFrom, map_option nextDay (dayStart dateTo)) of
        (Some from, Some to) \<Rightarrow> if \<not> from < to then [] else bucket_loop from to (month_first 0 from) []
      | _ \<Rightarrow> [])"

section \<open>Every category by month\<close>

record monthly_query =
  mq_type :: budget_type
  mq_dateFrom :: string
  mq_dateTo :: string
  mq_accountId :: "id option"

record monthly_row =
  mr_name :: string
  mr_color :: string
  mr_amounts :: "money list"
  mr_total :: money

record monthly_table =
  mt_type :: budget_type
  mt_months :: "string list"
  mt_rows :: "monthly_row list"
  mt_totals :: "money list"
  mt_total :: money

text \<open>\<open>entries: { some: { accountId } }\<close>: a transaction with an entry on the account.\<close>

definition touches :: "db \<Rightarrow> id option \<Rightarrow> txn \<Rightarrow> bool" where
  "touches db accountId t \<longleftrightarrow>
     (truthy accountId \<longrightarrow> (\<exists>e \<in> set (entries db). en_transactionId e = tx_id t \<and> en_accountId e = the accountId))"

definition month_where :: "id \<Rightarrow> monthly_query \<Rightarrow> month_bucket \<Rightarrow> db \<Rightarrow> entry \<Rightarrow> bool" where
  "month_where b query bucket db e \<longleftrightarrow>
     report_where b (mq_type query) (\<lambda>d. mb_start bucket \<le> d \<and> d < mb_end bucket) db e \<and> on_txn db (touches db (mq_accountId query)) e"

text \<open>The map from a name to its amounts per month, filled group by group in insertion order.\<close>

definition put_amount :: "nat \<Rightarrow> nat \<Rightarrow> string \<times> money \<Rightarrow> (string \<times> money list) list \<Rightarrow> (string \<times> money list) list" where
  "put_amount n monthIndex row byName =
     (case row of (name, amount) \<Rightarrow>
        if name = [] then byName
        else case map_of byName name of
               None \<Rightarrow> byName @ [(name, (replicate n 0)[monthIndex := amount])]
             | Some _ \<Rightarrow> map (\<lambda>(k, v). (k, if k = name then v[monthIndex := amount] else v)) byName)"

definition amounts_by_name :: "nat \<Rightarrow> (string \<times> money) list list \<Rightarrow> (string \<times> money list) list" where
  "amounts_by_name n grouped =
     foldl (\<lambda>byName (monthIndex, rows). foldl (\<lambda>byName row. put_amount n monthIndex row byName) byName rows) [] (enumerate 0 grouped)"

definition monthly_row_of :: "id \<Rightarrow> budget_type \<Rightarrow> string list \<Rightarrow> db \<Rightarrow> nat \<times> string \<times> money list \<Rightarrow> monthly_row" where
  "monthly_row_of b ty names db = (\<lambda>(i, name, amounts).
     \<lparr>mr_name = name, mr_color = category_color b ty names db i name, mr_amounts = amounts, mr_total = sum_list amounts\<rparr>)"

definition monthly_table_of ::
  "(nat \<Rightarrow> string list \<Rightarrow> string list) \<Rightarrow> id \<Rightarrow> monthly_query \<Rightarrow> month_bucket list \<Rightarrow> db \<Rightarrow> monthly_table" where
  "monthly_table_of order b query buckets db =
     (let grouped = map (\<lambda>(i, bucket). group_by_category (order i) (month_where b query bucket db) db) (enumerate 0 buckets);
          byName = amounts_by_name (length buckets) grouped;
          rows = sort_key (\<lambda>r. - mr_total r) (map (monthly_row_of b (mq_type query) (map fst byName) db) (enumerate 0 byName));
          totals = map (\<lambda>i. sum_by (\<lambda>r. mr_amounts r ! i) rows) [0..<length buckets]
      in \<lparr>mt_type = mq_type query, mt_months = map mb_key buckets, mt_rows = rows, mt_totals = totals, mt_total = sum_list totals\<rparr>)"

definition getMonthlyBreakdown ::
  "(nat \<Rightarrow> string list \<Rightarrow> string list) \<Rightarrow> id \<Rightarrow> monthly_query \<Rightarrow> db \<Rightarrow> monthly_table result" where
  "getMonthlyBreakdown order b query db =
     (let buckets = monthBucketsBetween (mq_dateFrom query) (mq_dateTo query) in
      rbind (check (buckets \<noteq> []) (BadRequest ''Pick a range of 1 to 24 months, oldest day first'')) (\<lambda>_.
      Inr (monthly_table_of order b query buckets db)))"

section \<open>Income against savings\<close>

record trend_point =
  tp_month :: string
  tp_monthKey :: string
  tp_income :: money
  tp_savings :: money

definition MONTH_NAMES :: "string list" where
  "MONTH_NAMES = [''Jan'', ''Feb'', ''Mar'', ''Apr'', ''May'', ''Jun'', ''Jul'', ''Aug'', ''Sep'', ''Oct'', ''Nov'', ''Dec'']"

text \<open>\<open>toLocaleDateString('en-US', { month: 'short', year: 'numeric', timeZone: 'UTC' })\<close>, as \<open>Jul 2026\<close>.\<close>

definition month_label :: "instant \<Rightarrow> string" where
  "month_label t = (case utc_date t of (y, m, d) \<Rightarrow> MONTH_NAMES ! nat (m - 1) @ '' '' @ int_text y)"

definition month_savings :: "id \<Rightarrow> instant \<Rightarrow> instant \<Rightarrow> db \<Rightarrow> money" where
  "month_savings b monthStart monthEnd db =
     sum_by ge_amount (filter (\<lambda>e. ge_businessId e = b \<and> ge_type e = CONTRIBUTION \<and>
       monthStart \<le> ge_date e \<and> ge_date e < monthEnd) (goal_entries db))"

definition trend_point_of :: "instant \<Rightarrow> id \<Rightarrow> db \<Rightarrow> int \<Rightarrow> trend_point" where
  "trend_point_of now b db i =
     (let (monthStart, monthEnd) = dhakaMonthRange now (- i) in
      \<lparr>tp_month = month_label monthStart, tp_monthKey = month_key monthStart,
       tp_income = month_income b monthStart monthEnd db, tp_savings = month_savings b monthStart monthEnd db\<rparr>)"

definition getIncomeVsSavingsTrend :: "instant \<Rightarrow> id \<Rightarrow> nat \<Rightarrow> db \<Rightarrow> trend_point list" where
  "getIncomeVsSavingsTrend now b months db = map (\<lambda>i. trend_point_of now b db (int i)) (rev [0..<months])"

end
