(* ===== verification/Report_Facts.thy ===== *)
theory Report_Facts
  imports Reports Budget_Facts "HOL-Library.Multiset"
begin

text \<open>
  What the reports promise: the trial balance nets to the opening balances; the months of a range
  partition it; the table by month holds the figure of every category and month and adds up to the
  breakdown by category; the trend's points cover its months without gap or overlap.
\<close>

section \<open>The trial balance\<close>

lemma trial_columns_net: "fst (trial_columns a) - snd (trial_columns a) = signed a (acc_currentBalance a)"
  by (simp add: trial_columns_def signed_def Let_def)

lemma signed_diff: "signed a (x - y) = signed a x - signed a y"
  by (simp add: signed_def)

text \<open>
  C3: the trial balance of sound books is off by the opening balances and nothing else: its debit
  column exceeds its credit column by the signed sum of the workspace's opening balances, so it
  shows as balanced exactly when those net to zero. No column shows a negative amount and no row
  has an amount on both sides.
\<close>

theorem trial_balance_nets:
  assumes "books_ok db"
  shows "tb_totalDebit (getTrialBalance b db) - tb_totalCredit (getTrialBalance b db) =
      sum_by (\<lambda>a. signed a (acc_openingBalance a)) (filter (\<lambda>a. acc_businessId a = b) (accounts db)) \<and>
    (tb_isBalanced (getTrialBalance b db) \<longleftrightarrow>
      sum_by (\<lambda>a. signed a (acc_openingBalance a)) (filter (\<lambda>a. acc_businessId a = b) (accounts db)) = 0) \<and>
    \<not> (\<exists>r \<in> set (tb_rows (getTrialBalance b db)). tb_debit r < 0 \<or> tb_credit r < 0 \<or> tb_debit r \<noteq> 0 \<and> tb_credit r \<noteq> 0)"
proof -
  have net: "tb_totalDebit (getTrialBalance b db) - tb_totalCredit (getTrialBalance b db) =
      sum_by (\<lambda>a. signed a (acc_openingBalance a)) (filter (\<lambda>a. acc_businessId a = b) (accounts db))"
    using balances_net [OF assms, of b]
    by (simp add: getTrialBalance_def Let_def listed_accounts_def trial_row_of_def trial_columns_net signed_diff sum_by_diff
        flip: sum_by_diff [of "\<lambda>a. fst (trial_columns a)" "\<lambda>a. snd (trial_columns a)"])
  moreover have "tb_isBalanced (getTrialBalance b db) \<longleftrightarrow> tb_totalDebit (getTrialBalance b db) - tb_totalCredit (getTrialBalance b db) = 0"
    by (simp add: getTrialBalance_def Let_def)
  moreover have "\<not> (\<exists>r \<in> set (tb_rows (getTrialBalance b db)). tb_debit r < 0 \<or> tb_credit r < 0 \<or> tb_debit r \<noteq> 0 \<and> tb_credit r \<noteq> 0)"
    by (auto simp: getTrialBalance_def Let_def trial_row_of_def trial_columns_def)
  ultimately show ?thesis by presburger
qed

section \<open>The months of a range\<close>

definition month_of :: "instant \<Rightarrow> int" where
  "month_of t = month_index (utc_day t)"

definition month_at :: "int \<Rightarrow> instant" where
  "month_at k = month_start k * day_ms"

lemma date_utc_month_at: "date_utc y m 1 = month_at (12 * y + m - 3)"
  by (simp add: date_utc_def days_from_civil_eq month_at_def)

lemma month_at_le: "month_at k \<le> t \<longleftrightarrow> k \<le> month_of t"
proof -
  have "month_at k \<le> t \<longleftrightarrow> month_start k \<le> utc_day t"
    using date_utc_le [of 0 "k + 3" t] by (simp add: date_utc_month_at)
  moreover have "utc_day t < month_start (month_index (utc_day t) + 1)" by (rule month_index_bounds)
  moreover have "month_start (month_index (utc_day t)) \<le> utc_day t" by (rule month_index_bounds)
  ultimately show ?thesis
    using month_start_less [of "month_index (utc_day t)" k] month_start_less [of k "month_index (utc_day t) + 1"]
    unfolding month_of_def by linarith
qed

lemma month_at_gt: "t < month_at k \<longleftrightarrow> month_of t < k"
  using month_at_le [of k t] by linarith

lemma month_of_month_at [simp]: "month_of (month_at k) = k"
  using month_at_le [of k "month_at k"] month_at_gt [of "month_at k" "k + 1"] month_start_step [of k]
  by (simp add: month_at_def day_ms_def)

lemma month_of_mono: "s \<le> t \<Longrightarrow> month_of s \<le> month_of t"
  using month_at_le [of "month_of s" s] month_at_le [of "month_of s" t] by simp

lemma utc_date_month:
  assumes "utc_date t = (y, m, d)"
  shows "12 * y + m - 3 = month_of t" "1 \<le> m" "m \<le> 12"
  using civil_from_days_spec [of "utc_day t" y m d] assms by (simp_all add: utc_date_def month_of_def)

lemma month_key_cong: "month_of s = month_of t \<Longrightarrow> month_key s = month_key t"
proof -
  assume eq: "month_of s = month_of t"
  obtain y m d where s: "utc_date s = (y, m, d)" by (cases "utc_date s")
  obtain y' m' d' where t: "utc_date t = (y', m', d')" by (cases "utc_date t")
  have "12 * y + m = 12 * y' + m'" using utc_date_month(1) [OF s] utc_date_month(1) [OF t] eq by simp
  then have "y = y'" "m = m'" using utc_date_month(2,3) [OF s] utc_date_month(2,3) [OF t] by presburger+
  then show ?thesis by (simp add: month_key_def s t)
qed

text \<open>From the year 100 on \<open>Date.UTC\<close> reads the year it is given.\<close>

lemma month_first_eq:
  assumes "1198 \<le> month_of t"
  shows "month_first offs t = month_at (month_of t + offs)"
proof -
  obtain y m d where t: "utc_date t = (y, m, d)" by (cases "utc_date t")
  have "99 < y" using utc_date_month [OF t] assms by linarith
  then have "month_first offs t = date_utc y (m + offs) 1" by (simp add: month_first_def t Date_UTC_def)
  also have "\<dots> = month_at (12 * y + (m + offs) - 3)" by (rule date_utc_month_at)
  also have "12 * y + (m + offs) - 3 = month_of t + offs" using utc_date_month(1) [OF t] by linarith
  finally show ?thesis .
qed

lemma bucket_loop_months:
  assumes "1198 \<le> k" and "k \<le> month_of (to - 1) + 1" and "length bs \<le> MAX_REPORT_MONTHS"
  shows "bucket_loop since to (month_at k) bs =
    (if length bs + nat (month_of (to - 1) + 1 - k) \<le> MAX_REPORT_MONTHS
     then bs @ map (\<lambda>j. bucket_at since to (month_at j)) [k..month_of (to - 1)] else [])"
  using assms
proof (induction "nat (month_of (to - 1) + 1 - k)" arbitrary: k bs)
  case 0
  then have "\<not> month_at k < to" using month_at_le [of k "to - 1"] by linarith
  with 0 show ?case by (subst bucket_loop.simps) simp
next
  case (Suc n)
  then have le: "k \<le> month_of (to - 1)" by linarith
  then have lt: "month_at k < to" using month_at_le [of k "to - 1"] by linarith
  have nxt: "month_first 1 (month_at k) = month_at (k + 1)" using Suc.prems(1) by (simp add: month_first_eq)
  have n: "n = nat (month_of (to - 1) + 1 - (k + 1))" using Suc.hyps(2) by linarith
  have up: "[k..month_of (to - 1)] = k # [k + 1..month_of (to - 1)]" using le by (rule upto_rec1)
  show ?case
  proof (cases "length bs = MAX_REPORT_MONTHS")
    case True
    then show ?thesis using lt le by (subst bucket_loop.simps) simp
  next
    case False
    with Suc.prems(3) have len: "length (bs @ [bucket_at since to (month_at k)]) \<le> MAX_REPORT_MONTHS" by simp
    have "bucket_loop since to (month_at k) bs = bucket_loop since to (month_at (k + 1)) (bs @ [bucket_at since to (month_at k)])"
      using lt len nxt by (subst bucket_loop.simps) simp
    also have "\<dots> = (if length (bs @ [bucket_at since to (month_at k)]) + nat (month_of (to - 1) + 1 - (k + 1)) \<le> MAX_REPORT_MONTHS
       then (bs @ [bucket_at since to (month_at k)]) @ map (\<lambda>j. bucket_at since to (month_at j)) [k + 1..month_of (to - 1)] else [])"
      using Suc.prems(1) le len by (intro Suc.hyps(1) n) simp_all
    also have "length (bs @ [bucket_at since to (month_at k)]) + nat (month_of (to - 1) + 1 - (k + 1)) =
        length bs + nat (month_of (to - 1) + 1 - k)" using le by simp
    finally show ?thesis by (simp add: up)
  qed
qed

lemma dayStart_midnight: "dayStart s = Some t \<Longrightarrow> t mod day_ms = 0"
  by (auto simp: dayStart_def read_day_def date_utc_def Let_def split: if_splits option.splits)

lemma midnight_less:
  assumes "s mod day_ms = 0" and "t mod day_ms = 0"
  shows "s < t + day_ms \<longleftrightarrow> s \<le> t"
proof -
  obtain a b where ab: "s = day_ms * a" "t = day_ms * b" using assms by (metis mult_div_mod_eq add.right_neutral)
  have pos: "0 < day_ms" by (simp add: day_ms_def)
  have "s < t + day_ms \<longleftrightarrow> day_ms * a < day_ms * (b + 1)" by (simp add: ab distrib_left)
  also have "\<dots> \<longleftrightarrow> a \<le> b" using pos by (simp add: mult_less_cancel_left_pos)
  also have "\<dots> \<longleftrightarrow> s \<le> t" using pos by (simp add: ab)
  finally show ?thesis .
qed

text \<open>An instant of the range lies in the bucket of its month and in no other.\<close>

lemma in_bucket:
  assumes "1198 \<le> j"
  shows "mb_start (bucket_at since to (month_at j)) \<le> t \<and> t < mb_end (bucket_at since to (month_at j)) \<longleftrightarrow>
    since \<le> t \<and> t < to \<and> month_of t = j"
proof -
  have nxt: "month_first 1 (month_at j) = month_at (j + 1)" using assms by (simp add: month_first_eq)
  show ?thesis
    using month_at_le [of j t] month_at_gt [of t "j + 1"] by (auto simp: bucket_at_def nxt)
qed

lemma month_buckets:
  assumes "dayStart dateFrom = Some since" and "dayStart dateTo = Some upto_day" and "100 \<le> fst (utc_date since)"
  shows "monthBucketsBetween dateFrom dateTo =
    (if upto_day < since \<or> int MAX_REPORT_MONTHS \<le> month_of upto_day - month_of since then []
     else map (\<lambda>j. bucket_at since (nextDay upto_day) (month_at j)) [month_of since..month_of upto_day])"
    and "1198 \<le> month_of since" and "month_of (nextDay upto_day - 1) = month_of upto_day"
    and "since < nextDay upto_day \<longleftrightarrow> since \<le> upto_day"
proof -
  note mid = dayStart_midnight [OF assms(1)] dayStart_midnight [OF assms(2)]
  obtain y m d where ymd: "utc_date since = (y, m, d)" by (cases "utc_date since")
  show idx: "1198 \<le> month_of since" using utc_date_month [OF ymd] assms(3) ymd by simp
  have next_day: "nextDay upto_day = upto_day + day_ms" by (simp add: nextDay_def day_ms_def)
  have "utc_day (nextDay upto_day - 1) = utc_day upto_day"
    unfolding next_day utc_day_def using mid(2) by (intro div_unique) (auto simp: day_ms_def minus_mod_eq_mult_div [symmetric])
  then show upto_day: "month_of (nextDay upto_day - 1) = month_of upto_day" by (simp add: month_of_def)
  show lt: "since < nextDay upto_day \<longleftrightarrow> since \<le> upto_day" unfolding next_day by (rule midnight_less [OF mid])
  show "monthBucketsBetween dateFrom dateTo =
    (if upto_day < since \<or> int MAX_REPORT_MONTHS \<le> month_of upto_day - month_of since then []
     else map (\<lambda>j. bucket_at since (nextDay upto_day) (month_at j)) [month_of since..month_of upto_day])"
  proof (cases "since \<le> upto_day")
    case True
    then have le: "month_of since \<le> month_of upto_day" by (rule month_of_mono)
    have "monthBucketsBetween dateFrom dateTo = bucket_loop since (nextDay upto_day) (month_at (month_of since)) []"
      using True lt by (simp add: monthBucketsBetween_def assms(1,2) month_first_eq [OF idx])
    also have "\<dots> = (if length ([] :: month_bucket list) + nat (month_of upto_day + 1 - month_of since) \<le> MAX_REPORT_MONTHS
        then [] @ map (\<lambda>j. bucket_at since (nextDay upto_day) (month_at j)) [month_of since..month_of upto_day] else [])"
      using bucket_loop_months [of "month_of since" "nextDay upto_day" "[]" since] idx le by (simp add: upto_day)
    finally show ?thesis using True le by (auto simp: MAX_REPORT_MONTHS_def)
  next
    case False
    then show ?thesis using lt by (simp add: monthBucketsBetween_def assms(1,2))
  qed
qed

definition in_month :: "month_bucket \<Rightarrow> instant \<Rightarrow> bool" where
  "in_month u t \<longleftrightarrow> mb_start u \<le> t \<and> t < mb_end u"

lemma count_upto: "length (filter (\<lambda>j. j = k) [a..b]) = (if a \<le> k \<and> k \<le> b then 1 else 0)"
proof -
  have "length (filter (\<lambda>j. j = k) xs) = (if k \<in> set xs then 1 else 0)" if "distinct xs" for xs
    using that by (induction xs) auto
  from this [of "[a..b]"] show ?thesis by simp
qed

lemma buckets_partition:
  assumes "dayStart dateFrom = Some since" and "dayStart dateTo = Some upto_day" and "100 \<le> fst (utc_date since)"
    and "monthBucketsBetween dateFrom dateTo \<noteq> []"
  shows "length (filter (\<lambda>u. in_month u t) (monthBucketsBetween dateFrom dateTo)) = (if since \<le> t \<and> t < nextDay upto_day then 1 else 0)"
    and "u \<in> set (monthBucketsBetween dateFrom dateTo) \<Longrightarrow> in_month u t \<Longrightarrow> mb_key u = month_key t"
proof -
  note m = month_buckets [OF assms(1-3)]
  have some: "\<not> (upto_day < since \<or> int MAX_REPORT_MONTHS \<le> month_of upto_day - month_of since)"
    using assms(4) unfolding m(1) by (rule contrapos_nn) simp
  have bs: "monthBucketsBetween dateFrom dateTo =
      map (\<lambda>j. bucket_at since (nextDay upto_day) (month_at j)) [month_of since..month_of upto_day]"
    unfolding m(1) by (rule if_not_P [OF some])
  have hit: "in_month (bucket_at since (nextDay upto_day) (month_at j)) t \<longleftrightarrow> since \<le> t \<and> t < nextDay upto_day \<and> month_of t = j"
    if "j \<in> set [month_of since..month_of upto_day]" for j t
    unfolding in_month_def by (rule in_bucket) (use that m(2) in simp)
  have "filter (\<lambda>j. in_month (bucket_at since (nextDay upto_day) (month_at j)) t) [month_of since..month_of upto_day] =
      filter (\<lambda>j. since \<le> t \<and> t < nextDay upto_day \<and> j = month_of t) [month_of since..month_of upto_day]"
    using hit by (intro filter_cong) auto
  then have len: "length (filter (\<lambda>u. in_month u t) (monthBucketsBetween dateFrom dateTo)) =
      length (filter (\<lambda>j. since \<le> t \<and> t < nextDay upto_day \<and> j = month_of t) [month_of since..month_of upto_day])"
    by (simp add: bs filter_map comp_def)
  show "length (filter (\<lambda>u. in_month u t) (monthBucketsBetween dateFrom dateTo)) = (if since \<le> t \<and> t < nextDay upto_day then 1 else 0)"
  proof (cases "since \<le> t \<and> t < nextDay upto_day")
    case True
    then have "month_of since \<le> month_of t" "month_of t \<le> month_of upto_day"
      using month_of_mono [of since t] month_of_mono [of t "nextDay upto_day - 1"] m(3) by simp_all
    with True show ?thesis unfolding len by (simp add: count_upto)
  next
    case False
    then have "(\<lambda>j. since \<le> t \<and> t < nextDay upto_day \<and> j = month_of t) = (\<lambda>_. False)" by auto
    then show ?thesis unfolding len using False by simp
  qed
  assume "u \<in> set (monthBucketsBetween dateFrom dateTo)" and t: "in_month u t"
  then obtain j where j: "j \<in> set [month_of since..month_of upto_day]" "u = bucket_at since (nextDay upto_day) (month_at j)" by (auto simp: bs)
  then have "month_of (month_at j) = month_of t" using hit [OF j(1), of t] t by simp
  then have "month_key (month_at j) = month_key t" by (rule month_key_cong)
  then show "mb_key u = month_key t" by (simp add: j(2) bucket_at_def)
qed


section \<open>Groups of a query\<close>

text \<open>The database may list the groups in any order.\<close>

definition any_order :: "(string list \<Rightarrow> string list) \<Rightarrow> bool" where
  "any_order order \<longleftrightarrow> (\<forall>names. mset (order names) = mset names)"

lemma any_orderD:
  assumes "any_order order"
  shows "set (order names) = set names" "distinct (order names) = distinct names" "sum_by f (order names) = sum_by f names"
proof -
  have m: "mset (order names) = mset names" using assms by (simp add: any_order_def)
  show "set (order names) = set names" using mset_eq_setD [OF m] .
  show "distinct (order names) = distinct names" using mset_eq_imp_distinct_iff [OF m] .
  have "sum_mset (image_mset f (mset (order names))) = sum_mset (image_mset f (mset names))" by (simp only: m)
  then show "sum_by f (order names) = sum_by f names"
    by (simp only: sum_by_def sum_mset_sum_list mset_map [symmetric])
qed

definition named_sum :: "(entry \<Rightarrow> bool) \<Rightarrow> db \<Rightarrow> string \<Rightarrow> money" where
  "named_sum P db name = sum_by en_amount (filter (\<lambda>e. en_categoryId e = Some name \<and> P e) (entries db))"

definition names_of :: "(entry \<Rightarrow> bool) \<Rightarrow> db \<Rightarrow> string list" where
  "names_of P db = js_set (map (\<lambda>e. the (en_categoryId e)) (filter (\<lambda>e. en_categoryId e \<noteq> None \<and> P e) (entries db)))"

lemma in_names_of: "name \<in> set (names_of P db) \<longleftrightarrow> (\<exists>e \<in> set (entries db). en_categoryId e = Some name \<and> P e)"
  unfolding names_of_def by (force simp: image_iff)

lemma group_eq: "group_by_category order P db = map (\<lambda>name. (name, named_sum P db name)) (order (names_of P db))"
proof -
  have "filter (\<lambda>e. en_categoryId e = Some name) (filter (\<lambda>e. en_categoryId e \<noteq> None \<and> P e) (entries db)) =
      filter (\<lambda>e. en_categoryId e = Some name \<and> P e) (entries db)" for name
    unfolding filter_filter by (rule filter_cong) auto
  then show ?thesis by (simp add: group_by_category_def names_of_def named_sum_def Let_def)
qed

lemma named_sum_absent: "name \<notin> set (names_of P db) \<Longrightarrow> named_sum P db name = 0"
  unfolding in_names_of named_sum_def by (simp add: filter_empty_conv)

lemma map_of_map_fun: "map_of (map (\<lambda>x. (x, f x)) xs) k = (if k \<in> set xs then Some (f k) else None)"
  by (induction xs) auto

lemma group_lookup:
  assumes "any_order order"
  shows "orelse (map_of (group_by_category order P db) name) 0 = named_sum P db name"
  using any_orderD(1) [OF assms, of "names_of P db"] named_sum_absent [of name P db]
  by (simp add: group_eq map_of_map_fun)

lemma distinct_group: "any_order order \<Longrightarrow> distinct (map fst (group_by_category order P db))"
  using any_orderD(2) [of order] by (simp add: group_eq comp_def names_of_def)

lemma sum_of_names:
  "sum_by (named_sum P db) (names_of P db) = sum_by en_amount (filter (\<lambda>e. en_categoryId e \<noteq> None \<and> P e) (entries db))"
proof -
  define es where "es = filter (\<lambda>e. en_categoryId e \<noteq> None \<and> P e) (entries db)"
  have sel: "named_sum P db name = sum_by en_amount (filter (\<lambda>e. the (en_categoryId e) = id name) es)" for name
  proof -
    have "filter (\<lambda>e. the (en_categoryId e) = id name) es = filter (\<lambda>e. en_categoryId e = Some name \<and> P e) (entries db)"
      unfolding es_def filter_filter by (rule filter_cong) auto
    then show ?thesis by (simp add: named_sum_def)
  qed
  have "sum_by (\<lambda>name. sum_by en_amount (filter (\<lambda>e. the (en_categoryId e) = id name) es)) (names_of P db) = sum_by en_amount es"
    by (rule sum_by_member) (auto simp: names_of_def es_def comp_def)
  then show ?thesis unfolding sel es_def .
qed

lemma group_total:
  assumes "any_order order"
  shows "sum_by snd (group_by_category order P db) = sum_by en_amount (filter (\<lambda>e. en_categoryId e \<noteq> None \<and> P e) (entries db))"
  unfolding group_eq sum_by_map using any_orderD(3) [OF assms] sum_of_names [of P db] by (simp add: case_prod_beta)

lemma sum_by_enumerate [simp]: "sum_by (\<lambda>p. f (snd p)) (enumerate n xs) = sum_by f xs"
  by (induction xs arbitrary: n) simp_all

section \<open>The breakdown by category\<close>

lemma breakdown_total:
  assumes "any_order order"
  shows "bk_total (getCategoryBreakdown ar order b query db) =
    sum_by en_amount (filter (\<lambda>e. en_categoryId e \<noteq> None \<and>
      report_where b (bk_type query) (in_range (bk_dateFrom query) (bk_dateTo query)) db e) (entries db))"
  unfolding group_total [OF assms, symmetric] getCategoryBreakdown_def Let_def
  by (simp add: case_prod_beta sum_by_enumerate [of snd])

section \<open>The table by month\<close>

text \<open>What the map of amounts holds once every group of every month has been put into it.\<close>

definition cell :: "(string \<times> money) list list \<Rightarrow> string \<Rightarrow> nat \<Rightarrow> money" where
  "cell G name j = (if j < length G then orelse (map_of (G ! j) name) 0 else 0)"

definition shown_names :: "(string \<times> money) list list \<Rightarrow> string list" where
  "shown_names G = js_set (filter (\<lambda>name. name \<noteq> []) (map fst (concat G)))"

definition table_of :: "nat \<Rightarrow> (string \<times> money) list list \<Rightarrow> (string \<times> money list) list" where
  "table_of n G = map (\<lambda>name. (name, map (cell G name) [0..<n])) (shown_names G)"

lemma js_set_snoc: "js_set (xs @ [x]) = (if x \<in> set xs then js_set xs else js_set xs @ [x])"
proof -
  have "js_set_from seen (xs @ [x]) = (if x \<in> set seen \<union> set xs then js_set_from seen xs else js_set_from seen xs @ [x])" for seen
    by (induction xs arbitrary: seen) auto
  then show ?thesis by (simp add: js_set_def)
qed

lemma cell_snoc:
  assumes "fst r \<notin> fst ` set rows"
  shows "cell (G @ [rows @ [r]]) name j = (if j = length G \<and> name = fst r then snd r else cell (G @ [rows]) name j)"
proof -
  have none: "map_of rows (fst r) = None" using assms by (simp add: map_of_eq_None_iff)
  have "map_of (rows @ [r]) name = (if name = fst r then Some (snd r) else map_of rows name)"
    using none by (cases r) (auto simp: map_add_def split: option.splits)
  then show ?thesis by (auto simp: cell_def nth_append)
qed

lemma map_upt_update: "l < n \<Longrightarrow> map (\<lambda>j. if j = l then a else f j) [0..<n] = (map f [0..<n])[l := a]"
  by (rule nth_equalityI) (auto simp: nth_list_update)

lemma cell_fresh:
  assumes "name \<notin> set (map fst (concat G))"
  shows "cell G name j = 0"
proof (cases "j < length G")
  case True
  then have "G ! j \<in> set G" by simp
  with assms have "map_of (G ! j) name = None" by (auto simp: map_of_eq_None_iff)
  with True show ?thesis by (simp add: cell_def)
qed (simp add: cell_def)

lemma put_amount_table:
  assumes "fst r \<notin> fst ` set rows" and "length G < n"
  shows "put_amount n (length G) r (table_of n (G @ [rows])) = table_of n (G @ [rows @ [r]])"
proof (cases "fst r = []")
  case True
  then have names: "shown_names (G @ [rows @ [r]]) = shown_names (G @ [rows])" by (simp add: shown_names_def)
  have "cell (G @ [rows @ [r]]) name = cell (G @ [rows]) name" if "name \<in> set (shown_names (G @ [rows]))" for name
  proof (rule ext)
    fix j have "name \<noteq> fst r" using that True by (auto simp: shown_names_def)
    then show "cell (G @ [rows @ [r]]) name j = cell (G @ [rows]) name j" by (simp add: cell_snoc [OF assms(1)])
  qed
  then have "table_of n (G @ [rows @ [r]]) = table_of n (G @ [rows])" by (simp add: table_of_def names)
  moreover have "put_amount n (length G) r m = m" for m using True by (cases r) (simp add: put_amount_def)
  ultimately show ?thesis by simp
next
  case False
  obtain name a where r: "r = (name, a)" by (cases r)
  have lookup: "map_of (table_of n (G @ [rows])) name =
      (if name \<in> set (shown_names (G @ [rows])) then Some (map (cell (G @ [rows]) name) [0..<n]) else None)"
    by (simp add: table_of_def map_of_map_fun)
  have row: "map (cell (G @ [rows @ [r]]) k) [0..<n] =
      (if k = name then (map (cell (G @ [rows]) k) [0..<n])[length G := a] else map (cell (G @ [rows]) k) [0..<n])" for k
  proof (cases "k = name")
    case True
    have "map (cell (G @ [rows @ [r]]) k) [0..<n] = map (\<lambda>j. if j = length G then a else cell (G @ [rows]) k j) [0..<n]"
      using True by (simp add: cell_snoc [OF assms(1), unfolded r] r)
    also note map_upt_update [OF assms(2)]
    finally show ?thesis using True by simp
  next
    case False
    then show ?thesis by (simp add: cell_snoc [OF assms(1), unfolded r] r)
  qed
  show ?thesis
  proof (cases "name \<in> set (shown_names (G @ [rows]))")
    case True
    then have "shown_names (G @ [rows @ [r]]) = shown_names (G @ [rows])"
      using False by (simp add: shown_names_def r js_set_snoc flip: append_assoc)
    then show ?thesis using True False
      by (simp add: put_amount_def r lookup) (simp add: table_of_def row [unfolded r])
  next
    case absent: False
    have names: "shown_names (G @ [rows @ [r]]) = shown_names (G @ [rows]) @ [name]"
      using False absent by (simp add: shown_names_def r js_set_snoc flip: append_assoc)
    have "name \<notin> set (map fst (concat (G @ [rows])))" using absent False by (simp add: shown_names_def r)
    from cell_fresh [OF this] have "cell (G @ [rows]) name = (\<lambda>_. 0)" by (rule ext)
    then have zero: "map (cell (G @ [rows]) name) [0..<n] = replicate n 0" by (simp add: map_replicate_const)
    have "map (cell (G @ [rows @ [r]]) k) [0..<n] = map (cell (G @ [rows]) k) [0..<n]" if "k \<in> set (shown_names (G @ [rows]))" for k
      using row [of k] that absent by auto
    then show ?thesis using absent False
      by (simp add: put_amount_def r lookup) (simp add: table_of_def names [unfolded r] row [unfolded r] zero)
  qed
qed

lemma amounts_by_name_eq:
  assumes "length G \<le> n" and "\<And>rows. rows \<in> set G \<Longrightarrow> distinct (map fst rows)"
  shows "amounts_by_name n G = table_of n G"
  using assms
proof (induction G rule: rev_induct)
  case Nil
  show ?case by (simp add: amounts_by_name_def table_of_def shown_names_def js_set_def)
next
  case (snoc rows G)
  then have IH: "amounts_by_name n G = table_of n G" and n: "length G < n" by simp_all
  have "foldl (\<lambda>byName row. put_amount n (length G) row byName) (table_of n G) rs = table_of n (G @ [rs])"
    if "distinct (map fst rs)" for rs
    using that
  proof (induction rs rule: rev_induct)
    case Nil
    have "cell (G @ [[]]) = cell G" by (auto simp: cell_def fun_eq_iff nth_append)
    then show ?case by (simp add: table_of_def shown_names_def)
  next
    case (snoc r rs)
    then show ?case using put_amount_table [of r rs G n, OF _ n] by (simp add: image_iff)
  qed
  then show ?case using IH snoc.prems(2) [of rows]
    by (simp add: amounts_by_name_def enumerate_append_eq)
qed

definition month_groups :: "(nat \<Rightarrow> string list \<Rightarrow> string list) \<Rightarrow> id \<Rightarrow> monthly_query \<Rightarrow> month_bucket list \<Rightarrow> db \<Rightarrow> (string \<times> money) list list" where
  "month_groups order b query buckets db =
     map (\<lambda>(i, u). group_by_category (order i) (month_where b query u db) db) (enumerate 0 buckets)"

lemma month_groups_nth:
  "j < length buckets \<Longrightarrow> month_groups order b query buckets db ! j = group_by_category (order j) (month_where b query (buckets ! j) db) db"
  by (simp add: month_groups_def nth_enumerate_eq)

lemma length_month_groups [simp]: "length (month_groups order b query buckets db) = length buckets"
  by (simp add: month_groups_def)

lemma month_cell:
  assumes "\<And>i. any_order (order i)" and "j < length buckets"
  shows "cell (month_groups order b query buckets db) name j = named_sum (month_where b query (buckets ! j) db) db name"
  using assms(2) by (simp add: cell_def month_groups_nth group_lookup [OF assms(1)])

lemma shown_month_names:
  assumes "\<And>i. any_order (order i)"
  shows "set (shown_names (month_groups order b query buckets db)) =
    {name. name \<noteq> [] \<and> (\<exists>u \<in> set buckets. \<exists>e \<in> set (entries db). en_categoryId e = Some name \<and> month_where b query u db e)}"
proof -
  have "fst ` set (group_by_category (order i) P db) = set (names_of P db)" for i P
    using any_orderD(1) [OF assms] by (simp add: group_eq image_image)
  moreover have "month_groups order b query buckets db =
      map (\<lambda>i. group_by_category (order i) (month_where b query (buckets ! i) db) db) [0..<length buckets]"
    by (rule nth_equalityI) (simp_all add: month_groups_nth)
  moreover have "(\<Union>i \<in> {0..<length buckets}. f (buckets ! i)) = (\<Union>u \<in> set buckets. f u)" for f :: "month_bucket \<Rightarrow> string set"
    unfolding set_conv_nth by force
  ultimately have "set (map fst (concat (month_groups order b query buckets db))) = (\<Union>u \<in> set buckets. set (names_of (month_where b query u db) db))"
    by (simp add: image_UN)
  then show ?thesis by (auto simp: shown_names_def in_names_of)
qed

lemma monthly_table:
  assumes "\<And>i. any_order (order i)"
  shows "mset (map (\<lambda>r. (mr_name r, mr_amounts r, mr_total r)) (mt_rows (monthly_table_of order b query buckets db))) =
      mset (map (\<lambda>name. (name, map (\<lambda>u. named_sum (month_where b query u db) db name) buckets,
          sum_by (\<lambda>u. named_sum (month_where b query u db) db name) buckets))
        (shown_names (month_groups order b query buckets db)))"
proof -
  define G where "G = month_groups order b query buckets db"
  have "distinct (map fst rows)" if "rows \<in> set G" for rows
    using that distinct_group [OF assms] by (auto simp: G_def month_groups_def)
  then have by_name: "amounts_by_name (length buckets) G = table_of (length buckets) G"
    by (intro amounts_by_name_eq) (simp_all add: G_def)
  have amounts: "map (cell G name) [0..<length buckets] = map (\<lambda>u. named_sum (month_where b query u db) db name) buckets" for name
    by (rule nth_equalityI) (simp_all add: G_def month_cell [OF assms])
  have proj: "map (\<lambda>x. g (snd x)) (enumerate n xs) = map g xs" for g :: "string \<times> money list \<Rightarrow> string \<times> money list \<times> money" and n xs
    by (induction xs arbitrary: n) simp_all
  have tab: "map (\<lambda>p. (fst p, snd p, sum_list (snd p))) (table_of (length buckets) G) =
      map (\<lambda>name. (name, map (\<lambda>u. named_sum (month_where b query u db) db name) buckets,
          sum_by (\<lambda>u. named_sum (month_where b query u db) db name) buckets)) (shown_names G)"
    by (simp add: table_of_def amounts sum_by_def)
  have "mset (map (\<lambda>r. (mr_name r, mr_amounts r, mr_total r)) (mt_rows (monthly_table_of order b query buckets db))) =
      mset (map (\<lambda>p. (fst (snd p), snd (snd p), sum_list (snd (snd p)))) (enumerate 0 (table_of (length buckets) G)))"
    unfolding monthly_table_of_def Let_def month_groups_def [symmetric] G_def [symmetric] by_name
    by (simp add: monthly_row_of_def case_prod_beta multiset.map_comp comp_def)
  also have "\<dots> = mset (map (\<lambda>p. (fst p, snd p, sum_list (snd p))) (table_of (length buckets) G))"
    using proj [of "\<lambda>p. (fst p, snd p, sum_list (snd p))"] by simp
  also have "\<dots> = mset (map (\<lambda>name. (name, map (\<lambda>u. named_sum (month_where b query u db) db name) buckets,
          sum_by (\<lambda>u. named_sum (month_where b query u db) db name) buckets)) (shown_names G))"
    by (simp only: tab)
  finally show ?thesis unfolding G_def .
qed

text \<open>One month's column, and the grand total.\<close>

definition categorized :: "entry \<Rightarrow> bool" where
  "categorized e \<longleftrightarrow> truthy (en_categoryId e)"

lemma month_column:
  assumes "\<And>i. any_order (order i)" and "u \<in> set buckets"
  shows "sum_by (named_sum (month_where b query u db) db) (shown_names (month_groups order b query buckets db)) =
    sum_by en_amount (filter (\<lambda>e. categorized e \<and> month_where b query u db e) (entries db))"
proof -
  define P where "P = month_where b query u db"
  define es where "es = filter (\<lambda>e. categorized e \<and> P e) (entries db)"
  define names where "names = shown_names (month_groups order b query buckets db)"
  have names: "set names = {name. name \<noteq> [] \<and> (\<exists>u \<in> set buckets. \<exists>e \<in> set (entries db). en_categoryId e = Some name \<and> month_where b query u db e)}"
    unfolding names_def by (rule shown_month_names [OF assms(1)])
  have "named_sum P db name = sum_by en_amount (filter (\<lambda>e. the (en_categoryId e) = id name) es)" if "name \<in> set names" for name
  proof -
    have "name \<noteq> []" using that by (simp add: names)
    then have "filter (\<lambda>e. the (en_categoryId e) = id name) es = filter (\<lambda>e. en_categoryId e = Some name \<and> P e) (entries db)"
      unfolding es_def filter_filter by (intro filter_cong) (auto simp: categorized_def truthy_def split: option.splits)
    then show ?thesis by (simp add: named_sum_def)
  qed
  then have "sum_by (named_sum P db) names = sum_by (\<lambda>name. sum_by en_amount (filter (\<lambda>e. the (en_categoryId e) = id name) es)) names"
    by (rule sum_by_cong)
  also have "\<dots> = sum_by en_amount es"
  proof (rule sum_by_member)
    show "distinct (map id names)" by (simp add: names_def shown_names_def)
    fix e assume "e \<in> set es"
    then show "the (en_categoryId e) \<in> id ` set names"
      using assms(2) unfolding image_id names by (auto simp: es_def P_def categorized_def truthy_def split: option.splits)
  qed
  finally show ?thesis unfolding P_def es_def names_def .
qed

lemma sum_by_mset: "mset (map g xs) = mset (map h ys) \<Longrightarrow> sum_by (\<lambda>x. f (g x)) xs = sum_by (\<lambda>y. f (h y)) ys"
proof -
  assume m: "mset (map g xs) = mset (map h ys)"
  have sum: "sum_by f zs = sum_mset (image_mset f (mset zs))" for zs
    by (simp only: sum_by_def sum_mset_sum_list mset_map [symmetric])
  have "sum_by f (map g xs) = sum_by f (map h ys)" by (simp only: sum m)
  then show ?thesis by simp
qed

lemma monthly_totals:
  assumes "\<And>i. any_order (order i)"
  shows "mt_totals (monthly_table_of order b query buckets db) =
      map (\<lambda>u. sum_by en_amount (filter (\<lambda>e. categorized e \<and> month_where b query u db e) (entries db))) buckets"
    and "mt_total (monthly_table_of order b query buckets db) =
      sum_by (\<lambda>u. sum_by en_amount (filter (\<lambda>e. categorized e \<and> month_where b query u db e) (entries db))) buckets"
proof -
  define names where "names = shown_names (month_groups order b query buckets db)"
  define rows where "rows = mt_rows (monthly_table_of order b query buckets db)"
  have col: "sum_by (\<lambda>r. mr_amounts r ! i) rows =
      sum_by en_amount (filter (\<lambda>e. categorized e \<and> month_where b query (buckets ! i) db e) (entries db))" if i: "i < length buckets" for i
  proof -
    have "sum_by (\<lambda>r. fst (snd (mr_name r, mr_amounts r, mr_total r)) ! i) rows =
        sum_by (\<lambda>name. fst (snd (name, map (\<lambda>u. named_sum (month_where b query u db) db name) buckets,
          sum_by (\<lambda>u. named_sum (month_where b query u db) db name) buckets)) ! i) names"
      unfolding rows_def names_def by (rule sum_by_mset [OF monthly_table [OF assms]])
    then have "sum_by (\<lambda>r. mr_amounts r ! i) rows = sum_by (named_sum (month_where b query (buckets ! i) db) db) names"
      using i by simp
    also have "\<dots> = sum_by en_amount (filter (\<lambda>e. categorized e \<and> month_where b query (buckets ! i) db e) (entries db))"
      unfolding names_def using i by (intro month_column assms) simp
    finally show ?thesis .
  qed
  have "mt_totals (monthly_table_of order b query buckets db) = map (\<lambda>i. sum_by (\<lambda>r. mr_amounts r ! i) rows) [0..<length buckets]"
    by (simp add: rows_def monthly_table_of_def Let_def)
  also have "\<dots> = map (\<lambda>u. sum_by en_amount (filter (\<lambda>e. categorized e \<and> month_where b query u db e) (entries db))) buckets"
    by (rule nth_equalityI) (simp_all add: col)
  finally show totals: "mt_totals (monthly_table_of order b query buckets db) =
      map (\<lambda>u. sum_by en_amount (filter (\<lambda>e. categorized e \<and> month_where b query u db e) (entries db))) buckets" .
  have "mt_total (monthly_table_of order b query buckets db) = sum_list (mt_totals (monthly_table_of order b query buckets db))"
    by (simp add: monthly_table_of_def Let_def)
  then show "mt_total (monthly_table_of order b query buckets db) =
      sum_by (\<lambda>u. sum_by en_amount (filter (\<lambda>e. categorized e \<and> month_where b query u db e) (entries db))) buckets"
    by (simp add: totals sum_by_def)
qed

lemma sum_by_count: "sum_by (\<lambda>u. if Q u then a else 0) xs = a * int (length (filter Q xs))"
  by (induction xs) (auto simp: algebra_simps)

text \<open>Summed over the months of a range, every entry dated in the range counts once.\<close>

lemma months_add_up:
  assumes "dayStart (mq_dateFrom query) = Some since" and "dayStart (mq_dateTo query) = Some upto_day" and "100 \<le> fst (utc_date since)"
    and "monthBucketsBetween (mq_dateFrom query) (mq_dateTo query) \<noteq> []"
  shows "sum_by (\<lambda>u. sum_by en_amount (filter (\<lambda>e. categorized e \<and> month_where b query u db e) (entries db)))
      (monthBucketsBetween (mq_dateFrom query) (mq_dateTo query)) =
    sum_by en_amount (filter (\<lambda>e. categorized e \<and> on_txn db (touches db (mq_accountId query)) e \<and>
      report_where b (mq_type query) (\<lambda>d. since \<le> d \<and> d < nextDay upto_day) db e) (entries db))"
proof -
  define bs where "bs = monthBucketsBetween (mq_dateFrom query) (mq_dateTo query)"
  have count: "length (filter (\<lambda>u. in_month u t) bs) = (if since \<le> t \<and> t < nextDay upto_day then 1 else 0)" for t
    unfolding bs_def by (rule buckets_partition(1) [OF assms])
  have one: "sum_by (\<lambda>u. if categorized e \<and> month_where b query u db e then en_amount e else 0) bs =
      (if categorized e \<and> on_txn db (touches db (mq_accountId query)) e \<and>
        report_where b (mq_type query) (\<lambda>d. since \<le> d \<and> d < nextDay upto_day) db e then en_amount e else 0)" for e
  proof (cases "txn_of db e")
    case None
    then show ?thesis by (simp add: month_where_def report_where_def on_txn_def)
  next
    case (Some t)
    define B where "B \<longleftrightarrow> categorized e \<and> touches db (mq_accountId query) t \<and> tx_businessId t = b \<and> live_txn t \<and>
      tx_type t = TRANSACTION_TYPE_FOR (mq_type query)"
    have each: "categorized e \<and> month_where b query u db e \<longleftrightarrow> B \<and> in_month u (tx_date t)" for u
      by (auto simp: month_where_def report_where_def on_txn_def Some B_def in_month_def)
    have "sum_by (\<lambda>u. if B \<and> in_month u (tx_date t) then en_amount e else 0) bs =
        (if B \<and> since \<le> tx_date t \<and> tx_date t < nextDay upto_day then en_amount e else 0)"
      unfolding sum_by_count using count [of "tx_date t"] by (cases B) simp_all
    then show ?thesis unfolding each by (simp add: report_where_def on_txn_def Some B_def conj_ac)
  qed
  show ?thesis
    unfolding bs_def [symmetric] sum_by_filter by (subst sum_by_swap) (simp only: one)
qed

lemma month_rows:
  assumes "\<And>i. any_order (order i)"
  shows "distinct (map mr_name (mt_rows (monthly_table_of order b query buckets db)))"
    and "set (map mr_name (mt_rows (monthly_table_of order b query buckets db))) = set (shown_names (month_groups order b query buckets db))"
    and "r \<in> set (mt_rows (monthly_table_of order b query buckets db)) \<Longrightarrow>
      mr_amounts r = map (\<lambda>u. named_sum (month_where b query u db) db (mr_name r)) buckets \<and> mr_total r = sum_list (mr_amounts r)"
proof -
  define rows where "rows = mt_rows (monthly_table_of order b query buckets db)"
  define names where "names = shown_names (month_groups order b query buckets db)"
  define row where "row name = (name, map (\<lambda>u. named_sum (month_where b query u db) db name) buckets,
          sum_by (\<lambda>u. named_sum (month_where b query u db) db name) buckets)" for name
  have m: "mset (map (\<lambda>r. (mr_name r, mr_amounts r, mr_total r)) rows) = mset (map row names)"
    unfolding rows_def names_def row_def by (rule monthly_table [OF assms])
  then have "mset (map fst (map (\<lambda>r. (mr_name r, mr_amounts r, mr_total r)) rows)) = mset (map fst (map row names))"
    by (simp only: mset_map)
  then have n: "mset (map mr_name rows) = mset names" by (simp add: comp_def row_def)
  have "distinct names" by (simp add: names_def shown_names_def)
  then show "distinct (map mr_name rows)" using mset_eq_imp_distinct_iff [OF n] by simp
  show "set (map mr_name rows) = set names" by (rule mset_eq_setD [OF n])
  assume "r \<in> set rows"
  then have "(mr_name r, mr_amounts r, mr_total r) \<in> set (map (\<lambda>r. (mr_name r, mr_amounts r, mr_total r)) rows)" by simp
  then have "(mr_name r, mr_amounts r, mr_total r) \<in> set (map row names)" by (simp only: mset_eq_setD [OF m])
  then show "mr_amounts r = map (\<lambda>u. named_sum (month_where b query u db) db (mr_name r)) buckets \<and> mr_total r = sum_list (mr_amounts r)"
    by (auto simp: row_def sum_by_def)
qed

lemma midnight_range:
  assumes "db_date d = d" and "u mod day_ms = 0"
  shows "d < nextDay u \<longleftrightarrow> d \<le> u"
proof -
  have "d mod day_ms = 0" using assms(1) by (simp add: db_date_def)
  moreover have "nextDay u = u + day_ms" by (simp add: nextDay_def day_ms_def)
  ultimately show ?thesis using midnight_less assms(2) by simp
qed

text \<open>
  The table by month is right in every cell and agrees with the breakdown by category. Whatever
  order the database lists its groups in, there is one row for each category name that occurs in
  the range, its amount in a month is the sum of the live entries with that name dated in the month,
  its total the sum of its amounts. Over all wallets, where dates are days and no entry carries an
  empty name, the table's grand total is the total the breakdown shows for the same range.
\<close>

theorem monthly_table_agrees_with_breakdown:
  assumes orders: "\<And>i. any_order (order i)" "any_order order'"
    and tbl: "getMonthlyBreakdown order b query db = Inr tbl"
    and days: "dayStart (mq_dateFrom query) = Some since" "dayStart (mq_dateTo query) = Some upto_day" "100 \<le> fst (utc_date since)"
  shows "(distinct (map mr_name (mt_rows tbl)) \<and>
    (\<forall>r \<in> set (mt_rows tbl). mr_amounts r =
      map (\<lambda>u. sum_by en_amount (filter (\<lambda>e. en_categoryId e = Some (mr_name r) \<and> month_where b query u db e) (entries db)))
        (monthBucketsBetween (mq_dateFrom query) (mq_dateTo query)) \<and> mr_total r = sum_list (mr_amounts r))) \<and>
    (\<not> truthy (mq_accountId query) \<and> (\<forall>t \<in> set (txns db). db_date (tx_date t) = tx_date t) \<and>
      (\<forall>e \<in> set (entries db). en_categoryId e \<noteq> Some []) \<longrightarrow>
     mt_total tbl = bk_total (getCategoryBreakdown ar order' b
       \<lparr>bk_type = mq_type query, bk_dateFrom = Some since, bk_dateTo = Some upto_day\<rparr> db))"
proof
  define bs where "bs = monthBucketsBetween (mq_dateFrom query) (mq_dateTo query)"
  from tbl have some: "bs \<noteq> []" and tbl: "tbl = monthly_table_of order b query bs db"
    by (simp_all add: getMonthlyBreakdown_def Let_def result_simps bs_def)
  show "distinct (map mr_name (mt_rows tbl)) \<and>
    (\<forall>r \<in> set (mt_rows tbl). mr_amounts r =
      map (\<lambda>u. sum_by en_amount (filter (\<lambda>e. en_categoryId e = Some (mr_name r) \<and> month_where b query u db e) (entries db)))
        (monthBucketsBetween (mq_dateFrom query) (mq_dateTo query)) \<and> mr_total r = sum_list (mr_amounts r))"
    using month_rows(1,3) [where order = order, OF orders(1)] unfolding tbl named_sum_def bs_def by blast
  show "\<not> truthy (mq_accountId query) \<and> (\<forall>t \<in> set (txns db). db_date (tx_date t) = tx_date t) \<and>
      (\<forall>e \<in> set (entries db). en_categoryId e \<noteq> Some []) \<longrightarrow>
     mt_total tbl = bk_total (getCategoryBreakdown ar order' b
       \<lparr>bk_type = mq_type query, bk_dateFrom = Some since, bk_dateTo = Some upto_day\<rparr> db)"
  proof (intro impI, elim conjE)
    assume all: "\<not> truthy (mq_accountId query)" and dates: "\<forall>t \<in> set (txns db). db_date (tx_date t) = tx_date t"
      and names: "\<forall>e \<in> set (entries db). en_categoryId e \<noteq> Some []"
    have "mt_total tbl = sum_by en_amount (filter (\<lambda>e. categorized e \<and> on_txn db (touches db (mq_accountId query)) e \<and>
      report_where b (mq_type query) (\<lambda>d. since \<le> d \<and> d < nextDay upto_day) db e) (entries db))"
      unfolding tbl monthly_totals(2) [OF orders(1)] bs_def by (rule months_add_up [OF days some [unfolded bs_def]])
    also have "\<dots> = sum_by en_amount (filter (\<lambda>e. en_categoryId e \<noteq> None \<and>
        report_where b (mq_type query) (in_range (Some since) (Some upto_day)) db e) (entries db))"
    proof (rule arg_cong [of _ _ "sum_by en_amount"], rule filter_cong [OF refl])
      fix e assume e: "e \<in> set (entries db)"
      have cat: "categorized e \<longleftrightarrow> en_categoryId e \<noteq> None"
        using names e by (cases "en_categoryId e") (auto simp: categorized_def)
      show "(categorized e \<and> on_txn db (touches db (mq_accountId query)) e \<and>
          report_where b (mq_type query) (\<lambda>d. since \<le> d \<and> d < nextDay upto_day) db e) =
        (en_categoryId e \<noteq> None \<and> report_where b (mq_type query) (in_range (Some since) (Some upto_day)) db e)"
      proof (cases "txn_of db e")
        case None
        then show ?thesis by (simp add: on_txn_def report_where_def)
      next
        case (Some t)
        then have "t \<in> set (txns db)" by (auto simp: txn_of_def dest: find_row_Some)
        with dates have "db_date (tx_date t) = tx_date t" by blast
        then have "tx_date t < nextDay upto_day \<longleftrightarrow> tx_date t \<le> upto_day"
          by (rule midnight_range [OF _ dayStart_midnight [OF days(2)]])
        then show ?thesis using all unfolding cat by (auto simp: on_txn_def report_where_def Some touches_def in_range_def)
      qed
    qed
    finally show "mt_total tbl = bk_total (getCategoryBreakdown ar order' b
       \<lparr>bk_type = mq_type query, bk_dateFrom = Some since, bk_dateTo = Some upto_day\<rparr> db)"
      unfolding breakdown_total [OF orders(2)] breakdown_query.select_convs .
  qed
qed

section \<open>Income against savings\<close>

lemma dhaka_month_range: "\<exists>K. \<forall>i. dhakaMonthRange now i = (month_at (K + i), month_at (K + i + 1))"
proof -
  obtain y m d where today: "dhakaToday now = (y, m, d)" by (cases "dhakaToday now")
  have "dhakaMonthRange now i = (month_at (12 * y + m - 3 + i), month_at (12 * y + m - 3 + i + 1))" for i
    by (simp add: dhakaMonthRange_def today date_utc_month_at algebra_simps)
  then show ?thesis by blast
qed

lemma month_at_mono: "i \<le> j \<Longrightarrow> month_at i \<le> month_at j"
  by (simp add: month_at_le)

lemma month_income_split:
  assumes "s \<le> m" and "m \<le> t"
  shows "month_income b s t db = month_income b s m db + month_income b m t db"
proof -
  have "month_income b s t db = sum_by (\<lambda>e. if en_categoryId e \<noteq> None \<and>
       on_txn db (\<lambda>x. tx_businessId x = b \<and> live_txn x \<and> tx_type x = transaction_type.INCOME \<and> s \<le> tx_date x \<and> tx_date x < t) e then en_amount e else 0) (entries db)" for s t
    by (simp add: month_income_def sum_by_filter)
  then show ?thesis
    using assms by (auto simp: on_txn_def simp flip: sum_by_plus intro!: sum_by_cong split: option.splits)
qed

lemma month_savings_split:
  assumes "s \<le> m" and "m \<le> t"
  shows "month_savings b s t db = month_savings b s m db + month_savings b m t db"
  using assms by (auto simp: month_savings_def sum_by_filter simp flip: sum_by_plus intro!: sum_by_cong)

lemma month_nothing [simp]: "month_income b t t db = 0" "month_savings b t t db = 0"
  by (auto simp: month_income_def month_savings_def on_txn_def sum_by_filter intro!: trans [OF sum_by_cong sum_by_zero] split: option.splits)

lemma trend_sums:
  assumes "\<And>i. dhakaMonthRange now i = (month_at (K + i), month_at (K + i + 1))"
  shows "sum_by tp_income (getIncomeVsSavingsTrend now b n db) = month_income b (month_at (K - int n + 1)) (month_at (K + 1)) db"
    and "sum_by tp_savings (getIncomeVsSavingsTrend now b n db) = month_savings b (month_at (K - int n + 1)) (month_at (K + 1)) db"
proof (induction n)
  case (Suc n)
  have rec: "getIncomeVsSavingsTrend now b (Suc n) db = trend_point_of now b db (int n) # getIncomeVsSavingsTrend now b n db"
    by (simp add: getIncomeVsSavingsTrend_def)
  have le: "month_at (K - int n) \<le> month_at (K - int n + 1)" "month_at (K - int n + 1) \<le> month_at (K + 1)"
    by (simp_all add: month_at_mono)
  {
    case 1
    show ?case using Suc.IH(1) month_income_split [OF le, of b db] by (simp add: rec trend_point_of_def assms)
  next
    case 2
    show ?case using Suc.IH(2) month_savings_split [OF le, of b db] by (simp add: rec trend_point_of_def assms)
  }
qed (simp_all add: getIncomeVsSavingsTrend_def)

text \<open>
  The trend's points cover its months without gap or overlap: their incomes add up to the income
  from the start of the earliest month to the end of the current one, their savings likewise, and
  the last point's savings is the figure the savings overview shows for this month.
\<close>

theorem trend_covers_its_months:
  assumes "0 < months"
  shows "length (getIncomeVsSavingsTrend now b months db) = months \<and>
    sum_by tp_income (getIncomeVsSavingsTrend now b months db) =
      month_income b (fst (dhakaMonthRange now (1 - int months))) (snd (dhakaMonthRange now 0)) db \<and>
    sum_by tp_savings (getIncomeVsSavingsTrend now b months db) =
      month_savings b (fst (dhakaMonthRange now (1 - int months))) (snd (dhakaMonthRange now 0)) db \<and>
    tp_savings (last (getIncomeVsSavingsTrend now b months db)) = so_savedThisMonth (getOverview ar now b db)"
proof -
  obtain K where K: "dhakaMonthRange now i = (month_at (K + i), month_at (K + i + 1))" for i
    using dhaka_month_range by blast
  obtain n where n: "months = Suc n" using assms by (cases months) auto
  have "last (getIncomeVsSavingsTrend now b months db) = trend_point_of now b db 0"
    unfolding getIncomeVsSavingsTrend_def n upt_conv_Cons [OF zero_less_Suc] by simp
  then have "tp_savings (last (getIncomeVsSavingsTrend now b months db)) = so_savedThisMonth (getOverview ar now b db)"
    by (simp add: trend_point_of_def K getOverview_def month_savings_def Let_def)
  then show ?thesis
    using trend_sums [OF K, of b months db] by (simp add: K getIncomeVsSavingsTrend_def algebra_simps)
qed

section \<open>A worked example\<close>

lemma trial_balance_nets_witness:
  "tb_totalDebit (getTrialBalance ''w'' sample_books) - tb_totalCredit (getTrialBalance ''w'' sample_books) = 1000 \<and>
   \<not> tb_isBalanced (getTrialBalance ''w'' sample_books)"
proof -
  have "sum_by (\<lambda>a. signed a (acc_openingBalance a)) (filter (\<lambda>a. acc_businessId a = ''w'') (accounts sample_books)) = 1000"
    by (simp add: sample_books_def plain_rows signed_def isDebitPositive_def)
  with trial_balance_nets [OF sample_books_sound, of "''w''"] show ?thesis by simp
qed

lemmas day_numbers = dayStart_def read_day_def number_text_def char_digit_def Let_def date_utc_def days_from_civil_def
  march_first_def days_before_year_def month_offset_def

lemma sample_days: "dayStart ''1970-01-01'' = Some 0" "dayStart ''1970-02-15'' = Some (45 * day_ms)"
  by (simp_all add: day_numbers)

lemma sample_dates: "utc_date 0 = (1970, 1, 1)" "utc_date (45 * day_ms) = (1970, 2, 15)"
  by (simp_all add: utc_date_def utc_day_def civil_from_days_def march_year_def year_guess_def march_first_def days_before_year_def
      month_offset_def Let_def day_ms_def)

lemma sample_year: "100 \<le> fst (utc_date 0)"
  by (simp add: sample_dates)

lemma sample_buckets: "monthBucketsBetween ''1970-01-01'' ''1970-02-15'' \<noteq> []"
proof -
  have m: "month_of 0 = 23638" "month_of (45 * day_ms) = 23639"
    using utc_date_month(1) [OF sample_dates(1)] utc_date_month(1) [OF sample_dates(2)] by simp_all
  show ?thesis unfolding month_buckets(1) [OF sample_days sample_year] unfolding m by (simp add: day_ms_def MAX_REPORT_MONTHS_def upto_rec1)
qed


definition sample_query :: monthly_query where
  "sample_query = \<lparr>mq_type = budget_type.INCOME, mq_dateFrom = ''1970-01-01'', mq_dateTo = ''1970-02-15'', mq_accountId = None\<rparr>"

definition exact_arith :: arith where
  "exact_arith = \<lparr>quotient = (\<lambda>a b. a / b), percent_number = (\<lambda>a b. a / b * 100),
     months_elapsed = (\<lambda>ms. of_int ms / of_int (30 * day_ms)), pace_percent = (\<lambda>e d. e / of_int d * 100)\<rparr>"

lemma monthly_table_agrees_with_breakdown_witness:
  "\<exists>tbl. getMonthlyBreakdown (\<lambda>_ names. names) ''w'' sample_query budget_books = Inr tbl \<and>
    mt_total tbl = bk_total (getCategoryBreakdown exact_arith rev ''w''
      \<lparr>bk_type = budget_type.INCOME, bk_dateFrom = Some 0, bk_dateTo = Some (45 * day_ms)\<rparr> budget_books)"
proof -
  have q: "mq_dateFrom sample_query = ''1970-01-01''" "mq_dateTo sample_query = ''1970-02-15''" "\<not> truthy (mq_accountId sample_query)"
    "mq_type sample_query = budget_type.INCOME" by (simp_all add: sample_query_def)
  then obtain tbl where tbl: "getMonthlyBreakdown (\<lambda>_ names. names) ''w'' sample_query budget_books = Inr tbl"
    using sample_buckets by (simp add: getMonthlyBreakdown_def Let_def)
  have orders: "any_order (\<lambda>names. names)" "any_order rev" by (simp_all add: any_order_def)
  have dates: "\<forall>t \<in> set (txns budget_books). db_date (tx_date t) = tx_date t"
    by (simp add: budget_books_def sample_books_def plain_rows db_date_def day_ms_def)
  have names: "\<forall>e \<in> set (entries budget_books). en_categoryId e \<noteq> Some []"
    by (simp add: budget_books_def sample_books_def plain_rows)
  from monthly_table_agrees_with_breakdown [OF orders tbl, unfolded q(1,2), OF sample_days sample_year] q dates names tbl
  show ?thesis by auto
qed

lemma trend_covers_its_months_witness:
  "length (getIncomeVsSavingsTrend 0 ''w'' 3 sample_books) = 3 \<and>
   sum_by tp_income (getIncomeVsSavingsTrend 0 ''w'' 3 sample_books) =
     month_income ''w'' (fst (dhakaMonthRange 0 (- 2))) (snd (dhakaMonthRange 0 0)) sample_books"
  using trend_covers_its_months [of 3 0 "''w''" sample_books] by simp

end
