(* ===== verification/Referrals.thy ===== *)
theory Referrals
  imports Assets Ledger_Abstract
begin

text \<open>
  The referral program (src/referrals/referrals.service.ts): a user's own code, the rewards of the
  people they brought in, which a read of the page confirms after thirty days, and the payout of
  the confirmed ones as an income posting of a workspace. The payout runs under the referrer's lock
  and is one step; the confirmation on a read is not, so its two halves, the rows it finds and the
  rows it then marks, are definitions of their own.
\<close>

section \<open>State\<close>

datatype referral_status = PENDING | CONFIRMED | WITHDRAWN

record referral =
  rf_id :: id
  rf_referrerId :: id
  rf_referredUserId :: id
  rf_rewardAmount :: money
  rf_status :: referral_status
  rf_confirmedAt :: "instant option"
  rf_withdrawnAt :: "instant option"
  rf_createdAt :: instant

record app_user =
  us_id :: id
  us_name :: string
  us_referralCode :: "string option"
  us_createdAt :: instant

text \<open>The books, the users, their referrals, and the reward the platform's settings name.\<close>

record rdb =
  rd_books :: db
  rd_users :: "app_user list"
  rd_referrals :: "referral list"
  rd_reward :: money

section \<open>Codes and signups\<close>

text \<open>The codes drawn at random are an argument: five attempts, the first that is not taken.\<close>

fun first_free_code :: "(string \<Rightarrow> bool) \<Rightarrow> string list \<Rightarrow> string option" where
  "first_free_code taken [] = None"
| "first_free_code taken (c # cs) = (if taken c then first_free_code taken cs else Some c)"

definition code_taken :: "rdb \<Rightarrow> string \<Rightarrow> bool" where
  "code_taken rd code \<longleftrightarrow> Some code \<in> us_referralCode ` set (rd_users rd)"

definition generateUniqueReferralCode :: "(nat \<Rightarrow> string) \<Rightarrow> rdb \<Rightarrow> string result" where
  "generateUniqueReferralCode drawn rd =
     (case first_free_code (code_taken rd) (map drawn [0..<5]) of
        Some code \<Rightarrow> Inr code
      | None \<Rightarrow> Inl (Unexpected ''Could not generate a unique referral code''))"

definition set_code :: "id \<Rightarrow> string \<Rightarrow> rdb \<Rightarrow> rdb result" where
  "set_code userId code rd =
     rbind (check (\<not> code_taken rd code) (DbError ''P2002'')) (\<lambda>_.
     rbind (update_row us_id userId (\<lambda>u. u\<lparr>us_referralCode := Some code\<rparr>) (rd_users rd)) (\<lambda>us. Inr (rd\<lparr>rd_users := us\<rparr>)))"

text \<open>At signup: someone else's code makes a pending referral, an unknown one is ignored.\<close>

definition recordReferral :: "id \<Rightarrow> instant \<Rightarrow> id \<Rightarrow> string \<Rightarrow> money \<Rightarrow> rdb \<Rightarrow> rdb result" where
  "recordReferral newId now userId referralCode rewardAmount rd =
     (case find_row us_referralCode (Some referralCode) (rd_users rd) of
        None \<Rightarrow> Inr rd
      | Some referrer \<Rightarrow>
          if us_id referrer = userId then Inr rd
          else
            rbind (store_money rewardAmount) (\<lambda>_.
            rbind (check (userId \<notin> rf_referredUserId ` set (rd_referrals rd)) (DbError ''P2002'')) (\<lambda>_.
            rbind (insert_row rf_id \<lparr>rf_id = newId, rf_referrerId = us_id referrer, rf_referredUserId = userId,
                rf_rewardAmount = rewardAmount, rf_status = PENDING, rf_confirmedAt = None, rf_withdrawnAt = None,
                rf_createdAt = now\<rparr> (rd_referrals rd)) (\<lambda>rs.
            Inr (rd\<lparr>rd_referrals := rs\<rparr>)))))"

section \<open>The referral page\<close>

definition THIRTY_DAYS_MS :: int where
  "THIRTY_DAYS_MS = 30 * 24 * 60 * 60 * 1000"

definition user_of :: "rdb \<Rightarrow> id \<Rightarrow> app_user option" where
  "user_of rd i = find_row us_id i (rd_users rd)"

text \<open>The pending referrals whose person signed up thirty days ago or more.\<close>

definition pending_due :: "instant \<Rightarrow> id \<Rightarrow> rdb \<Rightarrow> id list" where
  "pending_due now userId rd =
     map rf_id (filter (\<lambda>r. rf_referrerId r = userId \<and> rf_status r = PENDING \<and>
       (case user_of rd (rf_referredUserId r) of None \<Rightarrow> False | Some u \<Rightarrow> us_createdAt u \<le> now - THIRTY_DAYS_MS))
       (rd_referrals rd))"

definition confirmed_at :: "instant \<Rightarrow> referral \<Rightarrow> referral" where
  "confirmed_at now r = r\<lparr>rf_status := CONFIRMED, rf_confirmedAt := Some now\<rparr>"

definition confirm_due :: "instant \<Rightarrow> id list \<Rightarrow> rdb \<Rightarrow> rdb result" where
  "confirm_due now =
     rfold (\<lambda>i rd. rbind (update_row rf_id i (confirmed_at now) (rd_referrals rd)) (\<lambda>rs. Inr (rd\<lparr>rd_referrals := rs\<rparr>)))"

record referral_row =
  rr_id :: id
  rr_name :: string
  rr_status :: referral_status
  rr_rewardAmount :: money
  rr_createdAt :: instant

record referral_info =
  ri_referralCode :: "string option"
  ri_totalEarned :: money
  ri_pendingEarnings :: money
  ri_availableBalance :: money
  ri_referralCount :: nat
  ri_rewardAmountPerReferral :: money
  ri_recentReferrals :: "referral_row list"

text \<open>The three sums of the loop: paid or payable, pending, payable.\<close>

fun add_reward :: "referral \<Rightarrow> money \<times> money \<times> money \<Rightarrow> money \<times> money \<times> money" where
  "add_reward r (totalEarned, pendingEarnings, availableBalance) =
     (if rf_status r = PENDING then (totalEarned, pendingEarnings + rf_rewardAmount r, availableBalance)
      else (totalEarned + rf_rewardAmount r, pendingEarnings,
        if rf_status r = CONFIRMED then availableBalance + rf_rewardAmount r else availableBalance))"

definition referrals_of :: "id \<Rightarrow> rdb \<Rightarrow> referral list" where
  "referrals_of userId rd = find_many (\<lambda>r. rf_referrerId r = userId) (\<lambda>r. - rf_createdAt r) (rd_referrals rd)"

definition referral_info_of :: "app_user \<Rightarrow> rdb \<Rightarrow> referral_info" where
  "referral_info_of user rd =
     (let referrals = referrals_of (us_id user) rd;
          (totalEarned, pendingEarnings, availableBalance) = fold add_reward referrals (0, 0, 0)
      in \<lparr>ri_referralCode = us_referralCode user, ri_totalEarned = totalEarned, ri_pendingEarnings = pendingEarnings,
          ri_availableBalance = availableBalance, ri_referralCount = length referrals,
          ri_rewardAmountPerReferral = rd_reward rd,
          ri_recentReferrals = map (\<lambda>r. \<lparr>rr_id = rf_id r,
              rr_name = (case user_of rd (rf_referredUserId r) of None \<Rightarrow> [] | Some u \<Rightarrow> us_name u),
              rr_status = rf_status r, rr_rewardAmount = rf_rewardAmount r, rr_createdAt = rf_createdAt r\<rparr>) (take 10 referrals)\<rparr>)"

definition ensure_code :: "(nat \<Rightarrow> string) \<Rightarrow> id \<Rightarrow> rdb \<Rightarrow> rdb result" where
  "ensure_code drawn userId rd =
     (case user_of rd userId of
        None \<Rightarrow> Inl (DbError ''P2025'')
      | Some user \<Rightarrow>
          if truthy (us_referralCode user) then Inr rd
          else rbind (generateUniqueReferralCode drawn rd) (\<lambda>code. set_code userId code rd))"

definition getReferralInfo :: "(nat \<Rightarrow> string) \<Rightarrow> instant \<Rightarrow> id \<Rightarrow> rdb \<Rightarrow> (rdb \<times> referral_info) result" where
  "getReferralInfo drawn now userId rd =
     rbind (ensure_code drawn userId rd) (\<lambda>rd.
     rbind (confirm_due now (pending_due now userId rd) rd) (\<lambda>rd.
     case user_of rd userId of
       None \<Rightarrow> Inl (DbError ''P2025'')
     | Some user \<Rightarrow> Inr (rd, referral_info_of user rd)))"

section \<open>The payout\<close>

definition referral_requirePaymentAccount :: "id \<Rightarrow> id \<Rightarrow> db \<Rightarrow> account result" where
  "referral_requirePaymentAccount b i db =
     rbind (require_row acc_id acc_businessId (BadRequest ''Account not found in this workspace'') b i (accounts db)) (\<lambda>account.
     let isMoneyAccount = (acc_accountType account = ASSET \<and> subtype_in MONEY_ACCOUNT_SUBTYPES (acc_accountSubtype account));
         isSavingsWallet = (acc_accountType account = ASSET \<and> acc_accountSubtype account = Some ''savings'' \<and> \<not> acc_isSystemAccount account) in
     if \<not> isMoneyAccount \<and> \<not> isSavingsWallet
     then Inl (BadRequest ''Must be a General (cash/bank/mobile money) or Savings account'')
     else Inr account)"

definition referral_bonus_account :: "id \<Rightarrow> instant \<Rightarrow> id \<Rightarrow> account" where
  "referral_bonus_account newId now b =
     \<lparr>acc_id = newId, acc_businessId = b, acc_parentId = None, acc_name = ''Referral Bonus'', acc_nameBn = None,
      acc_accountNumber = None, acc_accountType = account_type.INCOME, acc_accountSubtype = Some REFERRAL_BONUS_INCOME_SUBTYPE,
      acc_openingBalance = 0, acc_currentBalance = 0, acc_isSystemAccount = True, acc_status = record_status.ACTIVE,
      acc_displayOrder = 0, acc_createdAt = now\<rparr>"

definition requireOrCreateReferralBonusAccount :: "id \<Rightarrow> instant \<Rightarrow> id \<Rightarrow> db \<Rightarrow> (db \<times> account) result" where
  "requireOrCreateReferralBonusAccount newId now b db =
     (case find_first (\<lambda>a. acc_businessId a = b \<and> acc_accountType a = account_type.INCOME \<and>
          acc_accountSubtype a = Some REFERRAL_BONUS_INCOME_SUBTYPE \<and> acc_isSystemAccount a) acc_createdAt (accounts db) of
        Some existing \<Rightarrow> Inr (db, existing)
      | None \<Rightarrow> rbind (insert_account (referral_bonus_account newId now b) (accounts db)) (\<lambda>t.
          Inr (db\<lparr>accounts := t\<rparr>, referral_bonus_account newId now b)))"

definition payout_request :: "instant \<Rightarrow> account \<Rightarrow> account \<Rightarrow> money \<Rightarrow> create_txn_dto" where
  "payout_request now depositAccount incomeAccount amt =
     simple_request transaction_type.INCOME (dhakaDateOnly now) (Some ''Referral Program withdrawal'')
       [(entry_for (acc_id depositAccount) DEBIT amt)\<lparr>ed_categoryId := Some ''Referral Bonus''\<rparr>,
        entry_for (acc_id incomeAccount) CREDIT amt]"

definition confirmed_of :: "id \<Rightarrow> rdb \<Rightarrow> referral list" where
  "confirmed_of userId rd = filter (\<lambda>r. rf_referrerId r = userId \<and> rf_status r = CONFIRMED) (rd_referrals rd)"

definition mark_withdrawn :: "instant \<Rightarrow> id list \<Rightarrow> referral list \<Rightarrow> referral list" where
  "mark_withdrawn now ids = update_many (\<lambda>r. rf_id r \<in> set ids) (\<lambda>r. r\<lparr>rf_status := WITHDRAWN, rf_withdrawnAt := Some now\<rparr>)"

text \<open>The posting draws the ids 0 to 2, a first account for the bonus the id 3.\<close>

definition withdraw_referrals :: "id_source \<Rightarrow> instant \<Rightarrow> id \<Rightarrow> id \<Rightarrow> id \<Rightarrow> id \<Rightarrow> rdb \<Rightarrow> (rdb \<times> money) result" where
  "withdraw_referrals gen now userId b accountId actor rd =
     (let confirmed = confirmed_of userId rd; total = sum_by rf_rewardAmount confirmed in
      rbind (check (\<not> total \<le> 0) (BadRequest ''No available balance to withdraw.'')) (\<lambda>_.
      rbind (referral_requirePaymentAccount b accountId (rd_books rd)) (\<lambda>depositAccount.
      rbind (requireOrCreateReferralBonusAccount (gen 3) now b (rd_books rd)) (\<lambda>(db, incomeAccount).
      rbind (post gen now b (payout_request now depositAccount incomeAccount total) actor db) (\<lambda>(db, _, _).
      Inr (rd\<lparr>rd_books := db, rd_referrals := mark_withdrawn now (map rf_id confirmed) (rd_referrals rd)\<rparr>, total))))))"

section \<open>What the operations do\<close>

lemma add_reward_sums:
  "fold add_reward rs (x, y, z) =
    (x + sum_by rf_rewardAmount (filter (\<lambda>r. rf_status r \<noteq> PENDING) rs), y + sum_by rf_rewardAmount (filter (\<lambda>r. rf_status r = PENDING) rs),
     z + sum_by rf_rewardAmount (filter (\<lambda>r. rf_status r = CONFIRMED) rs))"
  by (induction rs arbitrary: x y z) auto

lemma referral_payment_account_eq_Inr [result_simps]:
  "referral_requirePaymentAccount b i db = Inr a \<longleftrightarrow> find_row acc_id i (accounts db) = Some a \<and> acc_businessId a = b \<and>
     acc_accountType a = ASSET \<and> (subtype_in MONEY_ACCOUNT_SUBTYPES (acc_accountSubtype a) \<or>
       acc_accountSubtype a = Some ''savings'' \<and> \<not> acc_isSystemAccount a)"
  unfolding referral_requirePaymentAccount_def Let_def by (auto simp: rbind_eq_Inr result_simps split: if_splits)

lemma bonus_account_result:
  assumes "requireOrCreateReferralBonusAccount newId now b db = Inr (db', f)" and ok: "books_ok db"
  shows "books_ok db'" "book_of db' = book_of db" "feature_tables db' = feature_tables db" "acc_accountSubtype f = Some REFERRAL_BONUS_INCOME_SUBTYPE"
    "f \<in> set (accounts db')"
proof -
  have "books_ok db' \<and> txns db' = txns db \<and> entries db' = entries db \<and> feature_tables db' = feature_tables db \<and>
      acc_accountSubtype f = Some REFERRAL_BONUS_INCOME_SUBTYPE \<and> f \<in> set (accounts db')"
  proof (cases "find_first (\<lambda>a. acc_businessId a = b \<and> acc_accountType a = account_type.INCOME \<and>
          acc_accountSubtype a = Some REFERRAL_BONUS_INCOME_SUBTYPE \<and> acc_isSystemAccount a) acc_createdAt (accounts db)")
    case None
    with assms(1) have f: "f = referral_bonus_account newId now b" and fresh: "acc_id f \<notin> acc_id ` set (accounts db)"
      and db': "db' = db\<lparr>accounts := accounts db @ [f]\<rparr>"
      unfolding requireOrCreateReferralBonusAccount_def insert_account_def
      by (auto simp only: option.case rbind_eq_Inr result_simps prod.inject sum.inject)
    have "acc_currentBalance f = acc_openingBalance f" by (simp add: f referral_bonus_account_def)
    from books_ok_add_account [OF ok fresh this] show ?thesis
      by (simp add: db') (simp add: f referral_bonus_account_def feature_tables_def)
  next
    case (Some a)
    with assms(1) have "db' = db" "f = a" by (simp_all add: requireOrCreateReferralBonusAccount_def)
    with find_first_Some [OF Some] ok show ?thesis by simp
  qed
  then show "books_ok db'" "book_of db' = book_of db" "feature_tables db' = feature_tables db" "acc_accountSubtype f = Some REFERRAL_BONUS_INCOME_SUBTYPE"
    "f \<in> set (accounts db')"
    using book_of_cong [of db' db] by blast+
qed

section \<open>Paid once\<close>

lemma withdraw_referralsE:
  assumes run: "withdraw_referrals gen now userId b accountId actor rd = Inr (rd', v)" and gen: "ids_drawn gen" and ok: "books_ok (rd_books rd)"
  obtains t f where "0 < v" "v = sum_by rf_rewardAmount (confirmed_of userId rd)" "books_ok (rd_books rd')"
    "feature_tables (rd_books rd') = feature_tables (rd_books rd)" "t \<notin> dom (book_of (rd_books rd))"
    "book_of (rd_books rd') = (book_of (rd_books rd))(t \<mapsto> [(accountId, DEBIT, v), (f, CREDIT, v)])"
    "rd_referrals rd' = mark_withdrawn now (map rf_id (confirmed_of userId rd)) (rd_referrals rd)"
    "rd_users rd' = rd_users rd"
proof -
  define v' where "v' = sum_by rf_rewardAmount (confirmed_of userId rd)"
  from run obtain d :: account and db1 f db2 t es where pos: "0 < v'"
    and d: "referral_requirePaymentAccount b accountId (rd_books rd) = Inr d"
    and f: "requireOrCreateReferralBonusAccount (gen 3) now b (rd_books rd) = Inr (db1, f)"
    and p: "post gen now b (payout_request now d f v') actor db1 = Inr (db2, t, es)"
    and rd': "rd' = rd\<lparr>rd_books := db2, rd_referrals := mark_withdrawn now (map rf_id (confirmed_of userId rd)) (rd_referrals rd)\<rparr>" "v = v'"
    unfolding withdraw_referrals_def Let_def v'_def [symmetric] by (auto simp: rbind_eq_Inr check_eq_Inr not_le)
  note c = bonus_account_result [OF f ok]
  have req: "td_idempotencyKey (payout_request now d f v') = None"
    "dto_moves (payout_request now d f v') = [(acc_id d, DEBIT, v'), (acc_id f, CREDIT, v')]"
    by (simp_all add: payout_request_def simple_request_def entry_for_def dto_moves_def)
  note q = keyless_posting [OF c(1) gen p req(1)]
  have "acc_id d = accountId" using d by (auto simp: result_simps dest: find_row_Some)
  then show thesis
    using pos c(2,3) q req(2) by (intro that [of "tx_id t" "acc_id f"]) (simp_all add: rd' v'_def)
qed

lemma confirmed_after_mark:
  assumes "confirmed_of userId rd = rs" and "rd_referrals rd' = mark_withdrawn now (map rf_id rs) (rd_referrals rd)"
  shows "confirmed_of userId rd' = []"
  using assms unfolding confirmed_of_def mark_withdrawn_def update_many_def filter_empty_conv by (auto simp: image_iff split: if_splits)

text \<open>A referral that has been paid out stays so through every step of the program.\<close>

definition paid_referrals :: "rdb \<Rightarrow> (id \<times> money) set" where
  "paid_referrals rd = {(rf_id r, rf_rewardAmount r) |r. r \<in> set (rd_referrals rd) \<and> rf_status r = WITHDRAWN}"

lemma confirm_one:
  assumes "r \<in> set (rd_referrals rd)"
  shows "update_row rf_id (rf_id r) f (rd_referrals rd) = Inr (map_row rf_id (rf_id r) f (rd_referrals rd))"
  using assms by (auto simp: update_row_def)

lemma confirm_due_result:
  assumes "confirm_due now ids rd = Inr rd'"
  shows "rd_books rd' = rd_books rd" "rd_users rd' = rd_users rd" "rd_reward rd' = rd_reward rd"
    "rd_referrals rd' = map (\<lambda>r. if rf_id r \<in> set ids then confirmed_at now r else r) (rd_referrals rd)"
proof -
  have "rd_books rd' = rd_books rd \<and> rd_users rd' = rd_users rd \<and> rd_reward rd' = rd_reward rd \<and>
      rd_referrals rd' = map (\<lambda>r. if rf_id r \<in> set ids then confirmed_at now r else r) (rd_referrals rd)"
    using assms
  proof (induction ids arbitrary: rd)
    case Nil
    then show ?case by (simp add: confirm_due_def)
  next
    case (Cons i ids)
    define rd1 where "rd1 = rd\<lparr>rd_referrals := map_row rf_id i (confirmed_at now) (rd_referrals rd)\<rparr>"
    from Cons.prems have "confirm_due now ids rd1 = Inr rd'" by (auto simp: confirm_due_def rd1_def rbind_eq_Inr result_simps)
    note IH = Cons.IH [OF this]
    have id: "rf_id (confirmed_at now r) = rf_id r" "confirmed_at now (confirmed_at now r) = confirmed_at now r" for r
      by (simp_all add: confirmed_at_def)
    have "map (\<lambda>r. if rf_id r \<in> set ids then confirmed_at now r else r) (map_row rf_id i (confirmed_at now) (rd_referrals rd)) =
        map (\<lambda>r. if rf_id r \<in> set (i # ids) then confirmed_at now r else r) (rd_referrals rd)"
      by (simp add: map_row_def id)
    with IH show ?case by (simp add: rd1_def)
  qed
  then show "rd_books rd' = rd_books rd" "rd_users rd' = rd_users rd" "rd_reward rd' = rd_reward rd"
    "rd_referrals rd' = map (\<lambda>r. if rf_id r \<in> set ids then confirmed_at now r else r) (rd_referrals rd)"
    by blast+
qed

text \<open>
  C13: A payout pays exactly the confirmed rewards of the user, once. It is one new line in the book,
  the sum moved into the account asked for; the referrals it paid are marked withdrawn and no other
  changes; a second payout right after it is refused, whatever workspace and account it names.
\<close>

theorem referral_payout_pays_once:
  assumes "books_ok (rd_books rd)" and "ids_drawn gen" and "withdraw_referrals gen now userId b accountId actor rd = Inr (rd', v)"
  shows "v = sum_by rf_rewardAmount (confirmed_of userId rd) \<and> 0 < v \<and> books_ok (rd_books rd') \<and>
    (\<exists>t f. t \<notin> dom (book_of (rd_books rd)) \<and>
      book_of (rd_books rd') = (book_of (rd_books rd))(t \<mapsto> [(accountId, DEBIT, v), (f, CREDIT, v)])) \<and>
    rd_referrals rd' = map (\<lambda>r. if rf_id r \<in> rf_id ` set (confirmed_of userId rd)
      then r\<lparr>rf_status := WITHDRAWN, rf_withdrawnAt := Some now\<rparr> else r) (rd_referrals rd) \<and>
    withdraw_referrals gen' now' userId b' accountId' actor' rd' = Inl (BadRequest ''No available balance to withdraw.'')"
  using assms(3,2,1)
proof (rule withdraw_referralsE)
  fix t f
  assume a: "0 < v" "v = sum_by rf_rewardAmount (confirmed_of userId rd)" "books_ok (rd_books rd')" "t \<notin> dom (book_of (rd_books rd))"
    "book_of (rd_books rd') = (book_of (rd_books rd))(t \<mapsto> [(accountId, DEBIT, v), (f, CREDIT, v)])"
    and refs: "rd_referrals rd' = mark_withdrawn now (map rf_id (confirmed_of userId rd)) (rd_referrals rd)"
  have none: "confirmed_of userId rd' = []" using confirmed_after_mark [OF refl refs] .
  have "withdraw_referrals gen' now' userId b' accountId' actor' rd' = Inl (BadRequest ''No available balance to withdraw.'')"
    by (simp add: withdraw_referrals_def none)
  then show ?thesis using a by (auto simp: refs mark_withdrawn_def update_many_def)
qed

inductive referrals_step :: "rdb \<Rightarrow> rdb \<Rightarrow> bool" where
  page_read: "getReferralInfo drawn now userId rd = Inr (rd', info) \<Longrightarrow> referrals_step rd rd'"
| paid_out: "withdraw_referrals gen now userId b accountId actor rd = Inr (rd', v) \<Longrightarrow> ids_drawn gen \<Longrightarrow> referrals_step rd rd'"
| signed_up: "recordReferral newId now userId code reward rd = Inr rd' \<Longrightarrow> referrals_step rd rd'"
| ledger_moved: "ledger_step (rd_books rd) db' \<Longrightarrow> referrals_step rd (rd\<lparr>rd_books := db'\<rparr>)"

inductive_cases referrals_stepE: "referrals_step rd rd'"

definition referrals_ok :: "rdb \<Rightarrow> bool" where
  "referrals_ok rd \<longleftrightarrow> books_ok (rd_books rd) \<and> keyed rf_id (rd_referrals rd) \<and> keyed rf_referredUserId (rd_referrals rd)"

lemma paid_referrals_map:
  assumes "rd_referrals rd' = map f (rd_referrals rd)"
    and "\<And>r. r \<in> set (rd_referrals rd) \<Longrightarrow> rf_id (f r) = rf_id r \<and> rf_rewardAmount (f r) = rf_rewardAmount r \<and>
      (rf_status r = WITHDRAWN \<longrightarrow> rf_status (f r) = WITHDRAWN)"
  shows "paid_referrals rd \<subseteq> paid_referrals rd'"
proof
  fix x assume "x \<in> paid_referrals rd"
  then obtain r where r: "r \<in> set (rd_referrals rd)" "x = (rf_id r, rf_rewardAmount r)" "rf_status r = WITHDRAWN"
    by (auto simp: paid_referrals_def)
  then have "f r \<in> set (rd_referrals rd')" "x = (rf_id (f r), rf_rewardAmount (f r))" "rf_status (f r) = WITHDRAWN"
    using assms(2) [OF r(1)] by (simp_all add: assms(1))
  then show "x \<in> paid_referrals rd'" unfolding paid_referrals_def by blast
qed

lemma keyed_map_same: "(\<And>r. key (f r) = key r) \<Longrightarrow> keyed key (map f t) = keyed key t"
  by (simp add: keyed_def comp_def)

lemma ensure_code_same: "ensure_code drawn userId rd = Inr rd' \<Longrightarrow> rd_books rd' = rd_books rd \<and> rd_referrals rd' = rd_referrals rd"
  unfolding ensure_code_def set_code_def by (auto simp: rbind_eq_Inr split: option.splits if_splits)

lemma page_read_keeps:
  assumes run: "getReferralInfo drawn now userId rd = Inr (rd', info)" and ok: "referrals_ok rd"
  shows "referrals_ok rd' \<and> paid_referrals rd \<subseteq> paid_referrals rd'"
proof -
  from run obtain rd1 where code: "ensure_code drawn userId rd = Inr rd1" and due: "confirm_due now (pending_due now userId rd1) rd1 = Inr rd'"
    unfolding getReferralInfo_def by (auto simp: rbind_eq_Inr split: option.splits)
  note same = ensure_code_same [OF code] and c = confirm_due_result [OF due]
  have keyed: "keyed rf_id (rd_referrals rd1)" using ok same by (simp add: referrals_ok_def)
  define f where "f r = (if rf_id r \<in> set (pending_due now userId rd1) then confirmed_at now r else r)" for r
  have refs: "rd_referrals rd' = map f (rd_referrals rd1)" by (simp add: c(4) f_def)
  have f: "rf_id (f r) = rf_id r" "rf_referredUserId (f r) = rf_referredUserId r" "rf_rewardAmount (f r) = rf_rewardAmount r" for r
    by (simp_all add: f_def confirmed_at_def)
  have "f r = r" if r: "r \<in> set (rd_referrals rd1)" "rf_status r = WITHDRAWN" for r
  proof -
    have "rf_id r \<notin> set (pending_due now userId rd1)"
    proof
      assume "rf_id r \<in> set (pending_due now userId rd1)"
      then obtain x where x: "x \<in> set (rd_referrals rd1)" "rf_id x = rf_id r" "rf_status x = PENDING" by (auto simp: pending_due_def)
      have "inj_on rf_id (set (rd_referrals rd1))" using keyed unfolding keyed_def distinct_map by blast
      then have "x = r" using x(2,1) r(1) by (rule inj_onD)
      with x(3) r(2) show False by simp
    qed
    then show ?thesis by (simp add: f_def)
  qed
  then have "rf_id (f r) = rf_id r \<and> rf_rewardAmount (f r) = rf_rewardAmount r \<and> (rf_status r = WITHDRAWN \<longrightarrow> rf_status (f r) = WITHDRAWN)"
    if "r \<in> set (rd_referrals rd1)" for r using that by (simp add: f)
  then have "paid_referrals rd1 \<subseteq> paid_referrals rd'" by (rule paid_referrals_map [OF refs])
  moreover have "paid_referrals rd1 = paid_referrals rd" using same by (simp add: paid_referrals_def)
  moreover have "referrals_ok rd'" using ok same c(1) by (simp add: referrals_ok_def refs keyed_map_same f)
  ultimately show ?thesis by simp
qed

lemma payout_keeps:
  assumes run: "withdraw_referrals gen now userId b accountId actor rd = Inr (rd', v)" "ids_drawn gen" and ok: "referrals_ok rd"
  shows "referrals_ok rd' \<and> paid_referrals rd \<subseteq> paid_referrals rd'"
proof -
  from ok have "books_ok (rd_books rd)" by (simp add: referrals_ok_def)
  with run show ?thesis
  proof (rule withdraw_referralsE)
    assume books: "books_ok (rd_books rd')" and refs: "rd_referrals rd' = mark_withdrawn now (map rf_id (confirmed_of userId rd)) (rd_referrals rd)"
    have m: "rd_referrals rd' = map (\<lambda>r. if rf_id r \<in> set (map rf_id (confirmed_of userId rd)) then r\<lparr>rf_status := WITHDRAWN, rf_withdrawnAt := Some now\<rparr> else r) (rd_referrals rd)"
      unfolding refs mark_withdrawn_def update_many_def ..
    have "paid_referrals rd \<subseteq> paid_referrals rd'" by (rule paid_referrals_map [OF m]) simp
    moreover have "keyed rf_id (rd_referrals rd') = keyed rf_id (rd_referrals rd)" unfolding m by (rule keyed_map_same) simp
    moreover have "keyed rf_referredUserId (rd_referrals rd') = keyed rf_referredUserId (rd_referrals rd)" unfolding m by (rule keyed_map_same) simp
    ultimately show ?thesis using ok books unfolding referrals_ok_def by blast
  qed
qed

lemma signup_keeps:
  assumes "recordReferral newId now userId code reward rd = Inr rd'" and "referrals_ok rd"
  shows "referrals_ok rd' \<and> paid_referrals rd \<subseteq> paid_referrals rd'"
  using assms unfolding recordReferral_def
  by (auto simp: rbind_eq_Inr result_simps referrals_ok_def paid_referrals_def split: option.splits if_splits)

interpretation referrals: invariant_system referrals_step "\<lambda>rd. referrals_ok rd \<and> P \<subseteq> paid_referrals rd" for P
proof
  fix rd rd' assume step: "referrals_step rd rd'" and inv: "referrals_ok rd \<and> P \<subseteq> paid_referrals rd"
  then have ok: "referrals_ok rd" and P: "P \<subseteq> paid_referrals rd" by simp_all
  from step have "referrals_ok rd' \<and> paid_referrals rd \<subseteq> paid_referrals rd'"
  proof (rule referrals_stepE)
    fix db' assume l: "ledger_step (rd_books rd) db'" and rd': "rd' = rd\<lparr>rd_books := db'\<rparr>"
    then show ?thesis using books.step_inv [OF l] ok by (simp add: referrals_ok_def paid_referrals_def)
  next
    fix drawn now userId info assume "getReferralInfo drawn now userId rd = Inr (rd', info)"
    from page_read_keeps [OF this ok] show ?thesis .
  next
    fix gen now userId b accountId actor v
    assume "withdraw_referrals gen now userId b accountId actor rd = Inr (rd', v)" "ids_drawn gen"
    from payout_keeps [OF this ok] show ?thesis .
  next
    fix newId now userId code reward assume "recordReferral newId now userId code reward rd = Inr rd'"
    from signup_keeps [OF this ok] show ?thesis .
  qed
  with P show "referrals_ok rd' \<and> P \<subseteq> paid_referrals rd'" by blast
qed

text \<open>
  C14: Whatever pages are read, people sign up, rewards are paid out and the ledger does meanwhile,
  each taken as one step, a reward that was paid stays marked as paid: nobody's referral is payable
  twice, and no person is referred twice.
\<close>

theorem paid_referrals_stay_paid:
  assumes "referrals_step\<^sup>*\<^sup>* rd rd'" and "referrals_ok rd"
  shows "paid_referrals rd \<subseteq> paid_referrals rd' \<and> books_ok (rd_books rd') \<and>
    distinct (map rf_id (rd_referrals rd')) \<and> distinct (map rf_referredUserId (rd_referrals rd'))"
  using referrals.run_inv [OF assms(1), of "paid_referrals rd"] assms(2) by (simp add: referrals_ok_def keyed_def)

section \<open>A worked example, and two page reads that cross\<close>

definition one_referral :: rdb where
  "one_referral = \<lparr>rd_books = sample_books,
     rd_users = [\<lparr>us_id = ''u'', us_name = ''Ana'', us_referralCode = Some ''ABC'', us_createdAt = 0\<rparr>,
       \<lparr>us_id = ''v'', us_name = ''Bo'', us_referralCode = None, us_createdAt = 0\<rparr>],
     rd_referrals = [\<lparr>rf_id = ''r'', rf_referrerId = ''u'', rf_referredUserId = ''v'', rf_rewardAmount = 10000, rf_status = PENDING,
       rf_confirmedAt = None, rf_withdrawnAt = None, rf_createdAt = 0\<rparr>], rd_reward = 10000\<rparr>"

definition confirmed_referral :: rdb where
  "confirmed_referral = one_referral\<lparr>rd_referrals := map (confirmed_at THIRTY_DAYS_MS) (rd_referrals one_referral)\<rparr>"

definition paid_out :: rdb where
  "paid_out = (case withdraw_referrals (draw CHR ''p'') THIRTY_DAYS_MS ''u'' ''w'' ''cash'' ''u'' confirmed_referral of
     Inr (rd, _) \<Rightarrow> rd | Inl _ \<Rightarrow> confirmed_referral)"

lemmas referral_defs = withdraw_referrals_def confirmed_of_def referral_requirePaymentAccount_def requireOrCreateReferralBonusAccount_def
  referral_bonus_account_def payout_request_def mark_withdrawn_def insert_account_def fk_parent_def find_first_def find_many_def update_many_def
  confirmed_at_def quick_defs Let_def numeral_3_eq_3 eval_nat_numeral

lemma page_read_run:
  "\<exists>info. getReferralInfo (\<lambda>_. []) THIRTY_DAYS_MS ''u'' one_referral = Inr (confirmed_referral, info)"
  by (simp add: getReferralInfo_def ensure_code_def user_of_def pending_due_def confirm_due_def confirmed_referral_def one_referral_def
      confirmed_at_def update_row_def)

lemma payout_run: "withdraw_referrals (draw CHR ''p'') THIRTY_DAYS_MS ''u'' ''w'' ''cash'' ''u'' confirmed_referral = Inr (paid_out, 10000)"
  by (simp add: paid_out_def confirmed_referral_def one_referral_def sample_books_def empty_db_def referral_defs)

definition marked_again :: rdb where
  "marked_again = paid_out\<lparr>rd_referrals := map (confirmed_at THIRTY_DAYS_MS) (rd_referrals paid_out)\<rparr>"

lemma late_confirmation_run: "confirm_due THIRTY_DAYS_MS (pending_due THIRTY_DAYS_MS ''u'' one_referral) paid_out = Inr marked_again"
proof -
  have due: "pending_due THIRTY_DAYS_MS ''u'' one_referral = [''r'']"
    by (simp add: pending_due_def one_referral_def user_of_def)
  have "map rf_id (rd_referrals paid_out) = [''r'']"
    by (simp add: paid_out_def confirmed_referral_def one_referral_def sample_books_def empty_db_def referral_defs)
  then obtain r where r: "rd_referrals paid_out = [r]" "rf_id r = ''r''" by auto
  show ?thesis unfolding due by (simp add: confirm_due_def update_row_def map_row_def r marked_again_def)
qed

lemma second_payout_run: "\<exists>rd. withdraw_referrals (draw CHR ''q'') THIRTY_DAYS_MS ''u'' ''w'' ''cash'' ''u'' marked_again = Inr (rd, 10000)"
  by (simp add: marked_again_def paid_out_def confirmed_referral_def one_referral_def sample_books_def empty_db_def referral_defs)

lemma one_referral_ok: "referrals_ok one_referral" "referrals_ok confirmed_referral"
  using sample_books_sound by (simp_all add: referrals_ok_def one_referral_def confirmed_referral_def confirmed_at_def)

theorem referral_payout_pays_once_witness:
  "paid_referrals paid_out = {(''r'', 10000)} \<and> books_ok (rd_books paid_out)"
proof -
  have "10000 = sum_by rf_rewardAmount (confirmed_of ''u'' confirmed_referral) \<and> (0::money) < 10000 \<and> books_ok (rd_books paid_out) \<and>
      rd_referrals paid_out = map (\<lambda>r. if rf_id r \<in> rf_id ` set (confirmed_of ''u'' confirmed_referral)
        then r\<lparr>rf_status := WITHDRAWN, rf_withdrawnAt := Some THIRTY_DAYS_MS\<rparr> else r) (rd_referrals confirmed_referral)"
    using referral_payout_pays_once [OF _ ids_drawn_draw payout_run, of "draw CHR ''q''" 0 "''w''" "''cash''" "''u''"] one_referral_ok(2)
    by (simp add: referrals_ok_def)
  then show ?thesis by (simp add: paid_referrals_def confirmed_of_def confirmed_referral_def one_referral_def confirmed_at_def)
qed

theorem paid_referrals_stay_paid_witness: "books_ok (rd_books paid_out) \<and> distinct (map rf_id (rd_referrals paid_out))"
proof -
  obtain info where "getReferralInfo (\<lambda>_. []) THIRTY_DAYS_MS ''u'' one_referral = Inr (confirmed_referral, info)" using page_read_run by blast
  then have "referrals_step one_referral confirmed_referral" by (rule page_read)
  moreover have "referrals_step confirmed_referral paid_out" using payout_run ids_drawn_draw by (rule paid_out)
  ultimately have "referrals_step\<^sup>*\<^sup>* one_referral paid_out" by (meson converse_rtranclp_into_rtranclp r_into_rtranclp)
  from paid_referrals_stay_paid [OF this one_referral_ok(1)] show ?thesis by blast
qed

text \<open>
  C15: the confirmation a page read makes does not look at the row again. Whenever a read found a referral
  pending and due, and marks it only after a payout has paid it (another read having confirmed it before), the
  referral is payable again at the same reward, and the next payout pays it a second time: the book has two
  lines, each of the sum of the referrals confirmed then, and this one is in both sums.
\<close>

theorem stale_confirmation_pays_again:
  assumes "books_ok (rd_books before)" and "ids_drawn gen"
    and "withdraw_referrals gen now u b accountId actor before = Inr (paid, v)"
    and "r \<in> set (confirmed_of u before)" and "rf_id r \<in> set (pending_due late u seen)"
    and "confirm_due late (pending_due late u seen) paid = Inr rd" and "ids_drawn gen'"
    and "withdraw_referrals gen' now' u b' accountId' actor' rd = Inr (rd', v')"
  shows "v = sum_by rf_rewardAmount (confirmed_of u before) \<and> v' = sum_by rf_rewardAmount (confirmed_of u rd) \<and>
    (\<exists>r' \<in> set (confirmed_of u rd). rf_id r' = rf_id r \<and> rf_rewardAmount r' = rf_rewardAmount r) \<and>
    (\<exists>t f t' f'. t \<noteq> t' \<and> t \<notin> dom (book_of (rd_books before)) \<and> t' \<notin> dom (book_of (rd_books before)) \<and>
      book_of (rd_books rd') = (book_of (rd_books before))
        (t \<mapsto> [(accountId, DEBIT, v), (f, CREDIT, v)], t' \<mapsto> [(accountId', DEBIT, v'), (f', CREDIT, v')]))"
  using assms(3,2,1)
proof (rule withdraw_referralsE)
  fix t f
  assume v: "v = sum_by rf_rewardAmount (confirmed_of u before)" and ok: "books_ok (rd_books paid)" and t: "t \<notin> dom (book_of (rd_books before))"
    and book: "book_of (rd_books paid) = (book_of (rd_books before))(t \<mapsto> [(accountId, DEBIT, v), (f, CREDIT, v)])"
    and refs: "rd_referrals paid = mark_withdrawn now (map rf_id (confirmed_of u before)) (rd_referrals before)"
  note c = confirm_due_result [OF assms(6)]
  let ?x = "r\<lparr>rf_status := WITHDRAWN, rf_withdrawnAt := Some now\<rparr>"
  have "r \<in> set (rd_referrals before)" "rf_referrerId r = u" using assms(4) by (simp_all add: confirmed_of_def)
  with assms(4) have "?x \<in> set (rd_referrals paid)"
    unfolding refs mark_withdrawn_def update_many_def set_map by (intro image_eqI [of _ _ r]) simp_all
  with assms(5) have "confirmed_at late ?x \<in> set (rd_referrals rd)"
    unfolding c(4) set_map by (intro image_eqI [of _ _ ?x]) simp_all
  with \<open>rf_referrerId r = u\<close> have again: "\<exists>r' \<in> set (confirmed_of u rd). rf_id r' = rf_id r \<and> rf_rewardAmount r' = rf_rewardAmount r"
    by (intro bexI [of _ "confirmed_at late ?x"]) (simp_all add: confirmed_of_def confirmed_at_def)
  from assms(8,7) show ?thesis
  proof (rule withdraw_referralsE)
    show "books_ok (rd_books rd)" using ok by (simp add: c(1))
    fix t' f'
    assume v': "v' = sum_by rf_rewardAmount (confirmed_of u rd)" and t': "t' \<notin> dom (book_of (rd_books rd))"
      and book': "book_of (rd_books rd') = (book_of (rd_books rd))(t' \<mapsto> [(accountId', DEBIT, v'), (f', CREDIT, v')])"
    have "t \<noteq> t'" "t' \<notin> dom (book_of (rd_books before))" using t' by (auto simp: c(1) book)
    moreover have "book_of (rd_books rd') = (book_of (rd_books before))
        (t \<mapsto> [(accountId, DEBIT, v), (f, CREDIT, v)], t' \<mapsto> [(accountId', DEBIT, v'), (f', CREDIT, v')])"
      by (simp only: book' c(1) book)
    ultimately have "\<exists>t f t' f'. t \<noteq> t' \<and> t \<notin> dom (book_of (rd_books before)) \<and> t' \<notin> dom (book_of (rd_books before)) \<and>
      book_of (rd_books rd') = (book_of (rd_books before))
        (t \<mapsto> [(accountId, DEBIT, v), (f, CREDIT, v)], t' \<mapsto> [(accountId', DEBIT, v'), (f', CREDIT, v')])"
      using t by (intro exI conjI)
    then show ?thesis using v v' again by (intro conjI)
  qed
qed

theorem stale_confirmation_pays_again_witness:
  "\<exists>info rd rd'. getReferralInfo (\<lambda>_. []) THIRTY_DAYS_MS ''u'' one_referral = Inr (confirmed_referral, info) \<and>
     withdraw_referrals (draw CHR ''p'') THIRTY_DAYS_MS ''u'' ''w'' ''cash'' ''u'' confirmed_referral = Inr (paid_out, 10000) \<and>
     confirm_due THIRTY_DAYS_MS (pending_due THIRTY_DAYS_MS ''u'' one_referral) paid_out = Inr rd \<and>
     withdraw_referrals (draw CHR ''q'') THIRTY_DAYS_MS ''u'' ''w'' ''cash'' ''u'' rd = Inr (rd', 10000) \<and>
     map rf_id (confirmed_of ''u'' rd) = [''r'']"
proof -
  obtain rd' where second: "withdraw_referrals (draw CHR ''q'') THIRTY_DAYS_MS ''u'' ''w'' ''cash'' ''u'' marked_again = Inr (rd', 10000)"
    using second_payout_run by blast
  obtain r where r: "r \<in> set (confirmed_of ''u'' confirmed_referral)" "rf_id r = ''r''"
    by (auto simp: confirmed_of_def confirmed_referral_def one_referral_def confirmed_at_def)
  have due: "rf_id r \<in> set (pending_due THIRTY_DAYS_MS ''u'' one_referral)"
    by (simp add: r pending_due_def one_referral_def user_of_def)
  have "books_ok (rd_books confirmed_referral)" using one_referral_ok(2) by (simp add: referrals_ok_def)
  from stale_confirmation_pays_again [OF this ids_drawn_draw payout_run r(1) due late_confirmation_run ids_drawn_draw second]
  obtain r' where "r' \<in> set (confirmed_of ''u'' marked_again)" "rf_id r' = ''r''" using r(2) by auto
  moreover have "length (rd_referrals marked_again) = 1"
    by (simp add: marked_again_def paid_out_def confirmed_referral_def one_referral_def sample_books_def empty_db_def referral_defs)
  then have "length (confirmed_of ''u'' marked_again) \<le> 1" using length_filter_le unfolding confirmed_of_def by metis
  ultimately have "map rf_id (confirmed_of ''u'' marked_again) = [''r'']" by (cases "confirmed_of ''u'' marked_again") auto
  with page_read_run payout_run late_confirmation_run second show ?thesis by (elim exE) (intro exI conjI)
qed

end
