(* ===== verification/Shelf.thy ===== *)
theory Shelf
  imports Dhaka Rows
begin

text \<open>
  What the reading list and the skills share: where an item ends up after a change
  (src/common/shelf.ts \<open>settleShelf\<close>), the guarded write that runs again when it loses a race
  (\<open>compareAndSwap\<close>), the cap on a user's rows (user-cap.ts), the goal of a year (yearly-goal.ts)
  and the cleaning of a text a user typed (text.ts). The shelves are a parameter of
  \<open>settleShelf\<close> in the code and here.
\<close>

section \<open>Shelves\<close>

record 's shelves =
  sh_todo :: 's
  sh_doing :: 's
  sh_done :: 's

record shelf_messages =
  sm_overTotal :: string
  sm_notStarted :: string

record 's shelf_item =
  si_status :: 's
  si_progress :: int
  si_startedAt :: "instant option"
  si_doneAt :: "instant option"

record 's shelf_change =
  sc_status :: "'s option"
  sc_progress :: "int option"
  sc_total :: int

record 's settled_shelf = "'s shelf_item" +
  ss_progressReported :: bool

definition new_item :: "'s shelves \<Rightarrow> 's shelf_item" where
  "new_item S = \<lparr>si_status = sh_todo S, si_progress = 0, si_startedAt = None, si_doneAt = None\<rparr>"

text \<open>The four branches: the shelf asked for, or none, decide the shelf, the progress and whether it was reported.\<close>

definition settled_progress :: "'s shelves \<Rightarrow> 's shelf_item \<Rightarrow> 's shelf_change \<Rightarrow> shelf_messages \<Rightarrow> ('s \<times> int \<times> bool) result" where
  "settled_progress S from change messages =
     (let total = sc_total change; sent = sc_progress change in
      if sc_status change = Some (sh_done S) then Inr (sh_done S, total, False)
      else if sc_status change = Some (sh_todo S) then
        rbind (check (\<not> (case sent of None \<Rightarrow> False | Some p \<Rightarrow> 0 < p)) (BadRequest (sm_notStarted messages))) (\<lambda>_.
        Inr (sh_todo S, 0, False))
      else if sc_status change \<noteq> None then
        (let progress = (case sent of Some p \<Rightarrow> p | None \<Rightarrow> if si_status from = sh_done S then 0 else si_progress from) in
         rbind (check (\<not> total < progress) (BadRequest (sm_overTotal messages))) (\<lambda>_.
         Inr (if total \<le> progress then sh_done S else sh_doing S, progress, sent \<noteq> None)))
      else
        (let progress = (case sent of Some p \<Rightarrow> p | None \<Rightarrow> if si_status from = sh_done S then total else si_progress from) in
         rbind (check (\<not> total < progress) (BadRequest (sm_overTotal messages))) (\<lambda>_.
         Inr (if total \<le> progress then sh_done S
              else if 0 < progress then sh_doing S
              else if si_status from = sh_done S then sh_doing S else si_status from, progress, sent \<noteq> None))))"

definition settleShelf ::
    "'s shelves \<Rightarrow> 's shelf_item option \<Rightarrow> 's shelf_change \<Rightarrow> instant \<Rightarrow> shelf_messages \<Rightarrow> 's settled_shelf result" where
  "settleShelf S current change now messages =
     (let total = sc_total change; from = (case current of Some item \<Rightarrow> item | None \<Rightarrow> new_item S) in
      rbind (check (\<not> (case sc_progress change of None \<Rightarrow> False | Some p \<Rightarrow> total < p)) (BadRequest (sm_overTotal messages))) (\<lambda>_.
      rbind (settled_progress S from change messages) (\<lambda>(status, progress, progressReported).
      let restarted = (sc_status change = Some (sh_doing S) \<and> si_status from = sh_done S \<and> progress = 0);
          startedAt = (if status = sh_todo S then None
                       else if si_startedAt from = None \<or> restarted then Some now else si_startedAt from);
          doneAt = (if status = sh_done S then Some (case si_doneAt from of Some d \<Rightarrow> d | None \<Rightarrow> now) else None)
      in Inr \<lparr>si_status = status, si_progress = progress, si_startedAt = startedAt, si_doneAt = doneAt,
           ss_progressReported = progressReported\<rparr>)))"

section \<open>Writes that run again\<close>

text \<open>
  Attempt number i reads, computes and writes; each is a result, and P2025 -- the guarded write
  matched no row -- starts the next one, three at most.
\<close>

fun attempts_from :: "nat \<Rightarrow> nat \<Rightarrow> (nat \<Rightarrow> 'a result) \<Rightarrow> string \<Rightarrow> 'a result" where
  "attempts_from 0 i attempt conflictMessage = Inl (Conflict conflictMessage)"
| "attempts_from (Suc n) i attempt conflictMessage =
     (if attempt i = Inl (DbError ''P2025'') then attempts_from n (Suc i) attempt conflictMessage else attempt i)"

definition compareAndSwap :: "(nat \<Rightarrow> 'a result) \<Rightarrow> string \<Rightarrow> 'a result" where
  "compareAndSwap attempt conflictMessage = attempts_from 3 0 attempt conflictMessage"

text \<open>An update whose \<open>where\<close> names more than the key: it writes the rows that still match, P2025 when none does.\<close>

definition guarded_update :: "('r \<Rightarrow> bool) \<Rightarrow> ('r \<Rightarrow> 'r) \<Rightarrow> 'r list \<Rightarrow> 'r list result" where
  "guarded_update P f t = (if \<exists>r\<in>set t. P r then Inr (update_many P f t) else Inl (DbError ''P2025''))"

section \<open>Caps and yearly goals\<close>

text \<open>The count and the insert run under the user's lock: one step.\<close>

definition createWithinCap :: "nat \<Rightarrow> string \<Rightarrow> ('d \<Rightarrow> nat) \<Rightarrow> ('d \<Rightarrow> 'a result) \<Rightarrow> 'd \<Rightarrow> 'a result" where
  "createWithinCap cap message count create db =
     rbind (check (\<not> cap \<le> count db) (BadRequest message)) (\<lambda>_. create db)"

record yearly_goal_row =
  yg_id :: id
  yg_userId :: id
  yg_year :: int
  yg_target :: int

record yearly_goal =
  yg_of_year :: int
  yg_goalTarget :: "int option"

definition yearly_key :: "yearly_goal_row \<Rightarrow> id \<times> int" where
  "yearly_key g = (yg_userId g, yg_year g)"

definition setYearlyGoal :: "id \<Rightarrow> instant \<Rightarrow> id \<Rightarrow> int \<Rightarrow> yearly_goal_row list \<Rightarrow> yearly_goal_row list \<times> yearly_goal" where
  "setYearlyGoal newId now userId target gs =
     (let year = dhakaYear now in
      (if (userId, year) \<in> yearly_key ` set gs
       then map_row yearly_key (userId, year) (\<lambda>g. g\<lparr>yg_target := target\<rparr>) gs
       else gs @ [\<lparr>yg_id = newId, yg_userId = userId, yg_year = year, yg_target = target\<rparr>],
       \<lparr>yg_of_year = year, yg_goalTarget = Some target\<rparr>))"

definition clearYearlyGoal :: "instant \<Rightarrow> id \<Rightarrow> yearly_goal_row list \<Rightarrow> yearly_goal_row list \<times> yearly_goal" where
  "clearYearlyGoal now userId gs =
     (let year = dhakaYear now in
      (filter (\<lambda>g. yearly_key g \<noteq> (userId, year)) gs, \<lparr>yg_of_year = year, yg_goalTarget = None\<rparr>))"

definition goal_target :: "instant \<Rightarrow> id \<Rightarrow> yearly_goal_row list \<Rightarrow> int option" where
  "goal_target now userId gs = map_option yg_target (find_row yearly_key (userId, dhakaYear now) gs)"

section \<open>Text a user typed\<close>

text \<open>
  The tables of Unicode are an argument: the NFC form, which characters are white space, which
  texts hold a control character or half a surrogate pair, and which show nothing.
\<close>

record unicode =
  un_nfc :: "string \<Rightarrow> string"
  un_space :: "char \<Rightarrow> bool"
  un_unsafe :: "string \<Rightarrow> bool"
  un_invisible :: "string \<Rightarrow> bool"

function collapse_spaces :: "(char \<Rightarrow> bool) \<Rightarrow> string \<Rightarrow> string" where
  "collapse_spaces space [] = []"
| "collapse_spaces space (c # cs) =
     (if space c then CHR '' '' # collapse_spaces space (dropWhile space cs) else c # collapse_spaces space cs)"
  by pat_completeness auto

termination
  by (relation "measure (\<lambda>(_, s). length s)") (auto simp: le_imp_less_Suc length_dropWhile_le)

definition trim_text :: "(char \<Rightarrow> bool) \<Rightarrow> string \<Rightarrow> string" where
  "trim_text space s = rev (dropWhile space (rev (dropWhile space s)))"

definition cleanText :: "unicode \<Rightarrow> string \<Rightarrow> string \<Rightarrow> nat \<Rightarrow> string result" where
  "cleanText U txt field maxLength =
     (let t = collapse_spaces (un_space U) (trim_text (un_space U) (un_nfc U txt)) in
      rbind (check (\<not> un_unsafe U t) (BadRequest (''The '' @ field @ '' can't contain control or invalid characters''))) (\<lambda>_.
      rbind (check (\<not> maxLength < length t)
        (BadRequest (''The '' @ field @ '' can't be longer than '' @ int_text (int maxLength) @ '' characters''))) (\<lambda>_.
      Inr t)))"

definition cleanRequiredText :: "unicode \<Rightarrow> string \<Rightarrow> string \<Rightarrow> nat \<Rightarrow> string result" where
  "cleanRequiredText U txt field maxLength =
     rbind (cleanText U txt field maxLength) (\<lambda>t.
     rbind (check (\<not> un_invisible U t) (BadRequest (''A '' @ field @ '' is required''))) (\<lambda>_. Inr t))"

definition cleanOptionalText :: "unicode \<Rightarrow> string \<Rightarrow> string \<Rightarrow> nat \<Rightarrow> string result" where
  "cleanOptionalText U txt field maxLength =
     rbind (cleanText U txt field maxLength) (\<lambda>t. Inr (if un_invisible U t then [] else t))"

text \<open>An instance the examples use: plain texts.\<close>

definition plain_unicode :: unicode where
  "plain_unicode = \<lparr>un_nfc = \<lambda>s. s, un_space = \<lambda>c. c = CHR '' '', un_unsafe = \<lambda>s. False, un_invisible = \<lambda>s. s = []\<rparr>"

section \<open>An item is always on the shelf its progress says\<close>

definition shelves_apart :: "'s shelves \<Rightarrow> bool" where
  "shelves_apart S \<longleftrightarrow> sh_todo S \<noteq> sh_doing S \<and> sh_doing S \<noteq> sh_done S \<and> sh_todo S \<noteq> sh_done S"

definition on_shelf :: "'s shelves \<Rightarrow> int \<Rightarrow> ('s, 'z) shelf_item_scheme \<Rightarrow> bool" where
  "on_shelf S whole item \<longleftrightarrow>
     si_status item \<in> {sh_todo S, sh_doing S, sh_done S} \<and> 0 \<le> si_progress item \<and> si_progress item \<le> whole \<and>
     (si_status item = sh_done S \<longleftrightarrow> si_progress item = whole) \<and> (si_status item = sh_todo S \<longrightarrow> si_progress item = 0) \<and>
     (si_startedAt item = None \<longleftrightarrow> si_status item = sh_todo S) \<and> (si_doneAt item \<noteq> None \<longleftrightarrow> si_status item = sh_done S)"

text \<open>What a change may hold: the DTOs refuse a total below one and a progress below zero.\<close>

definition change_ok :: "'s shelves \<Rightarrow> 's shelf_change \<Rightarrow> bool" where
  "change_ok S c \<longleftrightarrow> 1 \<le> sc_total c \<and> (case sc_progress c of None \<Rightarrow> True | Some p \<Rightarrow> 0 \<le> p) \<and>
     (case sc_status c of None \<Rightarrow> True | Some s \<Rightarrow> s \<in> {sh_todo S, sh_doing S, sh_done S})"

definition item_ok :: "'s shelves \<Rightarrow> ('s, 'z) shelf_item_scheme \<Rightarrow> bool" where
  "item_ok S item \<longleftrightarrow> si_status item \<in> {sh_todo S, sh_doing S, sh_done S} \<and> 0 \<le> si_progress item \<and>
     (si_status item = sh_todo S \<longrightarrow> si_progress item = 0)"

lemma on_shelf_item_ok: "on_shelf S whole item \<Longrightarrow> item_ok S item"
  by (auto simp: on_shelf_def item_ok_def)

lemma on_shelf_truncate [simp]: "on_shelf S n (shelf_item.truncate s) = on_shelf S n s"
  by (simp add: on_shelf_def shelf_item.defs)

lemma settled_progress_on_shelf:
  assumes "settled_progress S old c m = Inr (status, progress, r)" and "shelves_apart S" "change_ok S c" "item_ok S old"
  shows "status \<in> {sh_todo S, sh_doing S, sh_done S} \<and> 0 \<le> progress \<and> progress \<le> sc_total c \<and>
    (status = sh_done S \<longleftrightarrow> progress = sc_total c) \<and> (status = sh_todo S \<longrightarrow> progress = 0)"
  using assms unfolding settled_progress_def Let_def change_ok_def item_ok_def shelves_apart_def
  by (auto simp: rbind_eq_Inr check_eq_Inr split: option.splits if_splits)

lemma settleShelfE:
  assumes "settleShelf S current c now m = Inr s"
  obtains old where "old = (case current of Some item \<Rightarrow> item | None \<Rightarrow> new_item S)"
    "settled_progress S old c m = Inr (si_status s, si_progress s, ss_progressReported s)"
    "\<And>p. sc_progress c = Some p \<Longrightarrow> p \<le> sc_total c"
    "si_startedAt s = (if si_status s = sh_todo S then None
       else if si_startedAt old = None \<or> sc_status c = Some (sh_doing S) \<and> si_status old = sh_done S \<and> si_progress s = 0 then Some now
       else si_startedAt old)"
    "si_doneAt s = (if si_status s = sh_done S then Some (case si_doneAt old of Some d \<Rightarrow> d | None \<Rightarrow> now) else None)"
  using assms unfolding settleShelf_def Let_def
  by (auto simp: rbind_eq_Inr check_eq_Inr split: option.splits)

lemma settleShelf_on_shelf:
  assumes "settleShelf S current c now m = Inr s" and "shelves_apart S" "change_ok S c"
    and "\<And>item. current = Some item \<Longrightarrow> item_ok S item"
  shows "on_shelf S (sc_total c) s"
  using assms(1)
proof (rule settleShelfE)
  fix old
  assume f: "old = (case current of Some item \<Rightarrow> item | None \<Rightarrow> new_item S)"
    and p: "settled_progress S old c m = Inr (si_status s, si_progress s, ss_progressReported s)"
    and d: "si_startedAt s = (if si_status s = sh_todo S then None
       else if si_startedAt old = None \<or> sc_status c = Some (sh_doing S) \<and> si_status old = sh_done S \<and> si_progress s = 0 then Some now
       else si_startedAt old)"
    "si_doneAt s = (if si_status s = sh_done S then Some (case si_doneAt old of Some d \<Rightarrow> d | None \<Rightarrow> now) else None)"
  have "item_ok S old" using assms(4) by (cases current) (simp_all add: f item_ok_def new_item_def)
  from settled_progress_on_shelf [OF p assms(2,3) this] show ?thesis by (auto simp: on_shelf_def d)
qed

text \<open>
  The same change sent twice changes nothing the second time: whatever shelf the item was on, the
  second run of \<open>settleShelf\<close> returns the item the first one returned, its dates included -- unless a
  move to the shelf in progress, sent without a progress, completed the item because its total was
  lowered to the progress it had.
\<close>

theorem settleShelf_again:
  assumes "settleShelf S current c now m = Inr s" and "shelves_apart S" and "change_ok S c"
    and "\<And>item. current = Some item \<Longrightarrow> item_ok S item"
    and "\<not> (sc_status c = Some (sh_doing S) \<and> sc_progress c = None \<and> si_progress s = sc_total c)"
  shows "settleShelf S (Some (shelf_item.truncate s)) c now' m = Inr s"
  using assms(1)
proof (rule settleShelfE)
  fix old
  assume f: "old = (case current of Some item \<Rightarrow> item | None \<Rightarrow> new_item S)"
    and p: "settled_progress S old c m = Inr (si_status s, si_progress s, ss_progressReported s)"
    and le: "\<And>p. sc_progress c = Some p \<Longrightarrow> p \<le> sc_total c"
  note on = settleShelf_on_shelf [OF assms(1-4)]
  have t: "si_status (shelf_item.truncate s) = si_status s" "si_progress (shelf_item.truncate s) = si_progress s"
    "si_startedAt (shelf_item.truncate s) = si_startedAt s" "si_doneAt (shelf_item.truncate s) = si_doneAt s"
    by (simp_all add: shelf_item.defs)
  have again: "settled_progress S (shelf_item.truncate s) c m = Inr (si_status s, si_progress s, ss_progressReported s)"
    using p on assms(2,3,5) unfolding settled_progress_def Let_def t
    by (auto simp: rbind_eq_Inr check_eq_Inr on_shelf_def change_ok_def shelves_apart_def split: option.splits if_splits)
  have dates: "\<not> (sc_status c = Some (sh_doing S) \<and> si_status s = sh_done S \<and> si_progress s = 0)"
    using on assms(3) by (auto simp: on_shelf_def change_ok_def)
  show ?thesis
    using le on dates unfolding settleShelf_def Let_def option.case again rbind_Inr prod.case t
    by (auto simp: on_shelf_def split: option.splits)
qed

theorem settleShelf_again_witness:
  "\<exists>s m. settleShelf \<lparr>sh_todo = (0::nat), sh_doing = 1, sh_done = 2\<rparr> (Some \<lparr>si_status = 0, si_progress = 0, si_startedAt = None, si_doneAt = None\<rparr>)
      \<lparr>sc_status = None, sc_progress = Some 30, sc_total = 100\<rparr> 7 m = Inr s \<and>
    settleShelf \<lparr>sh_todo = (0::nat), sh_doing = 1, sh_done = 2\<rparr> (Some (shelf_item.truncate s))
      \<lparr>sc_status = None, sc_progress = Some 30, sc_total = 100\<rparr> 9 m = Inr s"
proof -
  let ?S = "\<lparr>sh_todo = (0::nat), sh_doing = 1, sh_done = 2\<rparr>"
  let ?i = "\<lparr>si_status = 0::nat, si_progress = 0, si_startedAt = None, si_doneAt = None\<rparr>"
  let ?c = "\<lparr>sc_status = None, sc_progress = Some 30, sc_total = 100\<rparr> :: nat shelf_change"
  obtain s where s: "settleShelf ?S (Some ?i) ?c 7 \<lparr>sm_overTotal = [], sm_notStarted = []\<rparr> = Inr s" and "si_progress s = 30"
    by (simp add: settleShelf_def settled_progress_def Let_def)
  then have "settleShelf ?S (Some (shelf_item.truncate s)) ?c 9 \<lparr>sm_overTotal = [], sm_notStarted = []\<rparr> = Inr s"
    by (intro settleShelf_again [OF s]) (auto simp: shelves_apart_def change_ok_def item_ok_def)
  with s show ?thesis by blast
qed

section \<open>Rows of a user that are written under a guard\<close>

definition kept_by :: "('r \<Rightarrow> id) \<Rightarrow> id \<Rightarrow> 'r list \<Rightarrow> nat" where
  "kept_by owner u t = length (filter (\<lambda>r. owner r = u) t)"

lemma kept_by_filter: "kept_by owner u (filter P t) \<le> kept_by owner u t"
  unfolding kept_by_def by (induction t) auto

lemma kept_by_append: "kept_by owner u (t @ [r]) = (if owner r = u then Suc (kept_by owner u t) else kept_by owner u t)"
  by (simp add: kept_by_def)

text \<open>A guarded write puts a row with the same key and owner in the place of another; the rest of the table stands.\<close>

lemma guarded_write:
  assumes "\<And>r. r \<in> set t \<Longrightarrow> P r \<Longrightarrow> key r = key data \<and> owner r = owner data"
  shows "keyed key (update_many P (\<lambda>_. data) t) = keyed key t" "kept_by owner u (update_many P (\<lambda>_. data) t) = kept_by owner u t"
    "set (update_many P (\<lambda>_. data) t) \<subseteq> insert data (set t)" "key ` set (update_many P (\<lambda>_. data) t) = key ` set t"
proof -
  have m: "map key (update_many P (\<lambda>_. data) t) = map key t \<and> map owner (update_many P (\<lambda>_. data) t) = map owner t"
    using assms by (simp add: update_many_def)
  moreover have "kept_by owner u t = count_list (map owner t) u" for t by (induction t) (auto simp: kept_by_def)
  ultimately show "keyed key (update_many P (\<lambda>_. data) t) = keyed key t" "kept_by owner u (update_many P (\<lambda>_. data) t) = kept_by owner u t"
    by (simp_all add: keyed_def)
  show "set (update_many P (\<lambda>_. data) t) \<subseteq> insert data (set t)" by (auto simp: update_many_def)
  show "key ` set (update_many P (\<lambda>_. data) t) = key ` set t" using m by (metis set_map)
qed

lemma guarded_updateE:
  assumes "guarded_update P f t = Inr t'"
  obtains r where "r \<in> set t" "P r" "t' = update_many P f t"
  using assms by (auto simp: guarded_update_def split: if_splits)

text \<open>A row of the list as it was read that is there again is the one its key finds.\<close>

lemma row_still_there:
  assumes "keyed key seen" "keyed key there" and "current \<in> set seen" "key current = k" "owner current = u"
    and "r \<in> set seen" "r \<in> set there" "key r = k"
  shows "find (\<lambda>x. key x = k \<and> owner x = u) there = Some current"
proof -
  have uniq: "x = y" if "x \<in> set t" "y \<in> set t" "key x = key y" "keyed key t" for t x y
    using that by (auto simp: keyed_def distinct_map dest: inj_onD)
  from uniq [OF assms(6,3)] assms(1,4,8) have r: "r = current" by simp
  show ?thesis
  proof (cases "find (\<lambda>x. key x = k \<and> owner x = u) there")
    case None
    then show ?thesis using assms(5,7,8) r by (auto simp: find_None_iff)
  next
    case (Some x)
    then have "x \<in> set there" "key x = k" by (auto simp: find_Some_iff)
    with uniq [OF _ assms(7) _ assms(2)] assms(8) have "x = r" by simp
    with Some r show ?thesis by simp
  qed
qed

text \<open>
  The row a request read is the row the guard finds, as long as everything written since carries a
  later time than everything that was read.
\<close>

lemma row_found_again:
  fixes stamp :: "'r \<Rightarrow> instant"
  assumes "keyed key seen" "keyed key there" and "\<forall>r\<in>set seen. stamp r \<le> \<tau>" and "\<forall>r\<in>set there. r \<in> set seen \<or> \<tau> < stamp r"
    and "current \<in> set seen" "key current = k" "owner current = u" and "r \<in> set there" "key r = k" "stamp r = stamp current"
  shows "find (\<lambda>x. key x = k \<and> owner x = u) there = Some current"
proof -
  from assms(3,5,10) have "stamp r \<le> \<tau>" by simp
  with assms(4,8) have "r \<in> set seen" by fastforce
  show ?thesis by (rule row_still_there [where key = key and owner = owner, OF assms(1,2) assms(5-7) \<open>r \<in> set seen\<close> assms(8,9)])
qed

end
