(* ===== verification/Reading_List.thy ===== *)
theory Reading_List
  imports Shelf
begin

text \<open>
  The reading list (src/books/books.service.ts): books on three shelves by the pages read, and the
  goal of a year. Every edit is derived from the row as it was read and written only if the row
  still has the \<open>updatedAt\<close> it was read with; \<open>book_attempt\<close> takes both tables, so other requests may write between
  the read and the write of each attempt.
\<close>

section \<open>State and requests\<close>

datatype book_status = WANT_TO_READ | READING | FINISHED

record book_row =
  bk_id :: id
  bk_userId :: id
  bk_title :: string
  bk_author :: string
  bk_totalPages :: int
  bk_pagesRead :: int
  bk_status :: book_status
  bk_color :: string
  bk_startedAt :: "instant option"
  bk_finishedAt :: "instant option"
  bk_createdAt :: instant
  bk_updatedAt :: instant

record create_book_dto =
  cb_title :: string
  cb_author :: "string option"
  cb_totalPages :: int
  cb_pagesRead :: "int option"
  cb_status :: "book_status option"
  cb_color :: "string option"

record update_book_dto =
  ub_title :: "string option"
  ub_author :: "string option"
  ub_totalPages :: "int option"
  ub_pagesRead :: "int option"
  ub_status :: "book_status option"
  ub_color :: "string option"

record reading_view =
  bv_book :: book_row
  bv_finishedYear :: "int option"

record books_overview =
  bo_year :: int
  bo_goalTarget :: "int option"
  bo_books :: "reading_view list"

text \<open>What the validators of the DTOs let through.\<close>

definition create_book_dto_ok :: "create_book_dto \<Rightarrow> bool" where
  "create_book_dto_ok dto \<longleftrightarrow> 1 \<le> cb_totalPages dto \<and> cb_totalPages dto \<le> 20000 \<and>
     (case cb_pagesRead dto of None \<Rightarrow> True | Some p \<Rightarrow> 0 \<le> p \<and> p \<le> 20000)"

definition update_book_dto_ok :: "update_book_dto \<Rightarrow> bool" where
  "update_book_dto_ok dto \<longleftrightarrow> (case ub_totalPages dto of None \<Rightarrow> True | Some t \<Rightarrow> 1 \<le> t \<and> t \<le> 20000) \<and>
     (case ub_pagesRead dto of None \<Rightarrow> True | Some p \<Rightarrow> 0 \<le> p \<and> p \<le> 20000)"

section \<open>Operations\<close>

definition MAX_BOOKS :: nat where
  "MAX_BOOKS = 500"

definition BOOK_SHELVES :: "book_status shelves" where
  "BOOK_SHELVES = \<lparr>sh_todo = WANT_TO_READ, sh_doing = READING, sh_done = FINISHED\<rparr>"

definition BOOK_MESSAGES :: shelf_messages where
  "BOOK_MESSAGES = \<lparr>sm_overTotal = ''Pages read can't be more than the total pages'',
     sm_notStarted = ''A book you haven't started can't have pages read''\<rparr>"

definition reading_view_of :: "book_row \<Rightarrow> reading_view" where
  "reading_view_of b = \<lparr>bv_book = b, bv_finishedYear = map_option dhakaYear (bk_finishedAt b)\<rparr>"

definition book_item :: "book_row \<Rightarrow> book_status shelf_item" where
  "book_item b = \<lparr>si_status = bk_status b, si_progress = bk_pagesRead b, si_startedAt = bk_startedAt b, si_doneAt = bk_finishedAt b\<rparr>"

definition book_change :: "book_row \<Rightarrow> update_book_dto \<Rightarrow> book_status shelf_change" where
  "book_change current dto =
     \<lparr>sc_status = ub_status dto, sc_progress = ub_pagesRead dto, sc_total = orelse (ub_totalPages dto) (bk_totalPages current)\<rparr>"

text \<open>The row an edit writes, \<open>updatedAt\<close> included.\<close>

definition book_update :: "unicode \<Rightarrow> book_row \<Rightarrow> update_book_dto \<Rightarrow> instant \<Rightarrow> book_row result" where
  "book_update U current dto now =
     rbind (case ub_title dto of Some t \<Rightarrow> cleanRequiredText U t ''title'' 120 | None \<Rightarrow> Inr (bk_title current)) (\<lambda>title.
     rbind (case ub_author dto of Some a \<Rightarrow> cleanOptionalText U a ''author'' 80 | None \<Rightarrow> Inr (bk_author current)) (\<lambda>author.
     rbind (settleShelf BOOK_SHELVES (Some (book_item current)) (book_change current dto) now BOOK_MESSAGES) (\<lambda>shelf.
     Inr (current\<lparr>bk_title := title, bk_author := author, bk_totalPages := orelse (ub_totalPages dto) (bk_totalPages current),
       bk_pagesRead := si_progress shelf, bk_status := si_status shelf, bk_color := orelse (ub_color dto) (bk_color current),
       bk_startedAt := si_startedAt shelf, bk_finishedAt := si_doneAt shelf, bk_updatedAt := now\<rparr>))))"

definition requireBook :: "id \<Rightarrow> id \<Rightarrow> book_row list \<Rightarrow> book_row result" where
  "requireBook userId i books =
     (case find (\<lambda>b. bk_id b = i \<and> bk_userId b = userId) books of
        None \<Rightarrow> Inl (NotFound ''Book not found'') | Some b \<Rightarrow> Inr b)"

definition books_overview_of :: "instant \<Rightarrow> id \<Rightarrow> book_row list \<Rightarrow> yearly_goal_row list \<Rightarrow> books_overview" where
  "books_overview_of now userId books gs =
     \<lparr>bo_year = dhakaYear now, bo_goalTarget = goal_target now userId gs,
      bo_books = map reading_view_of (find_many (\<lambda>b. bk_userId b = userId) (\<lambda>b. - bk_updatedAt b) books)\<rparr>"

definition create_book :: "unicode \<Rightarrow> id \<Rightarrow> instant \<Rightarrow> id \<Rightarrow> create_book_dto \<Rightarrow> book_row list \<Rightarrow> (book_row list \<times> reading_view) result" where
  "create_book U newId now userId dto books =
     rbind (cleanRequiredText U (cb_title dto) ''title'' 120) (\<lambda>title.
     rbind (cleanOptionalText U (orelse (cb_author dto) []) ''author'' 80) (\<lambda>author.
     rbind (settleShelf BOOK_SHELVES None \<lparr>sc_status = cb_status dto, sc_progress = cb_pagesRead dto, sc_total = cb_totalPages dto\<rparr>
       now BOOK_MESSAGES) (\<lambda>shelf.
     createWithinCap MAX_BOOKS ''You can keep up to 500 books'' (\<lambda>t. length (filter (\<lambda>b. bk_userId b = userId) t))
       (\<lambda>t. let book = \<lparr>bk_id = newId, bk_userId = userId, bk_title = title, bk_author = author, bk_totalPages = cb_totalPages dto,
              bk_pagesRead = si_progress shelf, bk_status = si_status shelf, bk_color = orelse (cb_color dto) ''walnut'',
              bk_startedAt = si_startedAt shelf, bk_finishedAt = si_doneAt shelf, bk_createdAt = now, bk_updatedAt = now\<rparr> in
          rbind (insert_row bk_id book t) (\<lambda>t'. Inr (t', reading_view_of book))) books)))"

text \<open>
  One attempt of an edit: the table it reads, the table it writes to (other requests may have
  written in between), the time of its clock.
\<close>

definition book_attempt ::
    "unicode \<Rightarrow> id \<Rightarrow> id \<Rightarrow> update_book_dto \<Rightarrow> book_row list \<Rightarrow> book_row list \<Rightarrow> instant \<Rightarrow> (book_row list \<times> reading_view) result" where
  "book_attempt U userId i dto seen there now =
     rbind (requireBook userId i seen) (\<lambda>current.
     rbind (book_update U current dto now) (\<lambda>data.
     rbind (guarded_update (\<lambda>b. bk_id b = i \<and> bk_userId b = userId \<and> bk_updatedAt b = bk_updatedAt current) (\<lambda>_. data) there) (\<lambda>t.
     Inr (t, reading_view_of data))))"

definition update_book ::
    "unicode \<Rightarrow> id \<Rightarrow> id \<Rightarrow> update_book_dto \<Rightarrow> (nat \<Rightarrow> book_row list \<times> book_row list \<times> instant) \<Rightarrow> (book_row list \<times> reading_view) result" where
  "update_book U userId i dto world =
     compareAndSwap (\<lambda>n. case world n of (seen, there, now) \<Rightarrow> book_attempt U userId i dto seen there now)
       ''This book was changed elsewhere -- please try again''"

definition remove_book :: "id \<Rightarrow> id \<Rightarrow> book_row list \<Rightarrow> book_row list result" where
  "remove_book userId i books =
     (let kept = filter (\<lambda>b. \<not> (bk_id b = i \<and> bk_userId b = userId)) books in
      rbind (check (length kept \<noteq> length books) (NotFound ''Book not found'')) (\<lambda>_. Inr kept))"

definition setGoal_books :: "id \<Rightarrow> instant \<Rightarrow> id \<Rightarrow> int \<Rightarrow> yearly_goal_row list \<Rightarrow> yearly_goal_row list \<times> yearly_goal" where
  "setGoal_books newId now userId target gs = setYearlyGoal newId now userId target gs"

definition clearGoal_books :: "instant \<Rightarrow> id \<Rightarrow> yearly_goal_row list \<Rightarrow> yearly_goal_row list \<times> yearly_goal" where
  "clearGoal_books now userId gs = clearYearlyGoal now userId gs"

section \<open>Every book is on the shelf its pages say\<close>

abbreviation books_kept :: "id \<Rightarrow> book_row list \<Rightarrow> nat" where
  "books_kept \<equiv> kept_by bk_userId"

definition book_ok :: "book_row \<Rightarrow> bool" where
  "book_ok b \<longleftrightarrow> 1 \<le> bk_totalPages b \<and> on_shelf BOOK_SHELVES (bk_totalPages b) (book_item b)"

definition reading_ok :: "book_row list \<Rightarrow> bool" where
  "reading_ok t \<longleftrightarrow> keyed bk_id t \<and> (\<forall>b\<in>set t. book_ok b) \<and> (\<forall>u. books_kept u t \<le> MAX_BOOKS)"

lemma book_shelves_apart [simp]: "shelves_apart BOOK_SHELVES"
  by (simp add: shelves_apart_def BOOK_SHELVES_def)

lemma any_book_status: "s \<in> {sh_todo BOOK_SHELVES, sh_doing BOOK_SHELVES, sh_done BOOK_SHELVES}"
  by (cases s) (simp_all add: BOOK_SHELVES_def)

lemma book_updateE:
  assumes "book_update U current dto now = Inr r"
  obtains shelf where "settleShelf BOOK_SHELVES (Some (book_item current)) (book_change current dto) now BOOK_MESSAGES = Inr shelf"
    "bk_id r = bk_id current" "bk_userId r = bk_userId current" "bk_updatedAt r = now"
    "bk_totalPages r = orelse (ub_totalPages dto) (bk_totalPages current)" "book_item r = shelf_item.truncate shelf"
  using assms unfolding book_update_def
  by (auto simp: rbind_eq_Inr book_item_def shelf_item.defs)

lemma book_update_ok:
  assumes "book_update U current dto now = Inr r" and "book_ok current" and "update_book_dto_ok dto"
  shows "book_ok r"
  using assms(1)
proof (rule book_updateE)
  fix shelf
  assume s: "settleShelf BOOK_SHELVES (Some (book_item current)) (book_change current dto) now BOOK_MESSAGES = Inr shelf"
    and r: "bk_totalPages r = orelse (ub_totalPages dto) (bk_totalPages current)" "book_item r = shelf_item.truncate shelf"
  have c: "change_ok BOOK_SHELVES (book_change current dto)"
    using assms(2,3) any_book_status
    by (auto simp: change_ok_def book_change_def update_book_dto_ok_def book_ok_def split: option.splits)
  have "item_ok BOOK_SHELVES (book_item current)" using assms(2) on_shelf_item_ok by (auto simp: book_ok_def)
  then have "on_shelf BOOK_SHELVES (sc_total (book_change current dto)) shelf"
    using settleShelf_on_shelf [OF s _ c] by simp
  with c show ?thesis by (simp add: book_ok_def r book_change_def change_ok_def)
qed

lemma requireBook_eq_Inr:
  assumes "requireBook userId i t = Inr b"
  shows "b \<in> set t \<and> bk_id b = i \<and> bk_userId b = userId"
  using assms by (auto simp: requireBook_def find_Some_iff split: option.splits)

lemma book_attemptE:
  assumes "book_attempt U userId i dto seen there now = Inr (t, v)"
  obtains current data where "requireBook userId i seen = Inr current" "book_update U current dto now = Inr data"
    "current \<in> set seen" "bk_id current = i" "bk_userId current = userId"
    "\<exists>b\<in>set there. bk_id b = i \<and> bk_userId b = userId \<and> bk_updatedAt b = bk_updatedAt current"
    "t = update_many (\<lambda>b. bk_id b = i \<and> bk_userId b = userId \<and> bk_updatedAt b = bk_updatedAt current) (\<lambda>_. data) there"
    "v = reading_view_of data"
proof -
  from assms obtain current data t' where c: "requireBook userId i seen = Inr current" and d: "book_update U current dto now = Inr data"
    and g: "guarded_update (\<lambda>b. bk_id b = i \<and> bk_userId b = userId \<and> bk_updatedAt b = bk_updatedAt current) (\<lambda>_. data) there = Inr t'"
    and r: "t = t'" "v = reading_view_of data"
    unfolding book_attempt_def rbind_eq_Inr by blast
  from g have "\<exists>b\<in>set there. bk_id b = i \<and> bk_userId b = userId \<and> bk_updatedAt b = bk_updatedAt current"
    "t' = update_many (\<lambda>b. bk_id b = i \<and> bk_userId b = userId \<and> bk_updatedAt b = bk_updatedAt current) (\<lambda>_. data) there"
    unfolding guarded_update_def by (simp_all split: if_splits)
  with c d r requireBook_eq_Inr [OF c] that show thesis by blast
qed

lemma book_attempt_ok:
  assumes "book_attempt U userId i dto seen there now = Inr (t, v)" and "reading_ok there" and "update_book_dto_ok dto"
    and "\<And>b. b \<in> set seen \<Longrightarrow> book_ok b"
  shows "reading_ok t"
  using assms(1)
proof (rule book_attemptE)
  fix current data
  assume d: "book_update U current dto now = Inr data" and c: "current \<in> set seen" "bk_id current = i" "bk_userId current = userId"
    and t: "t = update_many (\<lambda>b. bk_id b = i \<and> bk_userId b = userId \<and> bk_updatedAt b = bk_updatedAt current) (\<lambda>_. data) there"
  from d have "bk_id data = i" "bk_userId data = userId" using c by (auto elim: book_updateE)
  then have g: "keyed bk_id t = keyed bk_id there" "books_kept u t = books_kept u there" "set t \<subseteq> insert data (set there)" for u
    unfolding t by (intro guarded_write; simp)+
  from book_update_ok [OF d assms(4) [OF c(1)] assms(3)] have "book_ok data" .
  with g(1,3) assms(2) show ?thesis unfolding reading_ok_def g(2) by auto
qed

section \<open>Requests over time\<close>

text \<open>
  The list and the time of its last write. Requests write one after the other, no later one at an earlier time; several may
  write in the same millisecond. An edit derives its row from a list read before, in whatever state that was.
\<close>

inductive reading_step :: "instant \<times> book_row list \<Rightarrow> instant \<times> book_row list \<Rightarrow> bool" where
  book_created: "create_book U newId now userId dto t = Inr (t', v) \<Longrightarrow> create_book_dto_ok dto \<Longrightarrow> before \<le> now \<Longrightarrow>
    reading_step (before, t) (now, t')"
| book_edited: "book_attempt U userId i dto seen t now = Inr (t', v) \<Longrightarrow> reading_ok seen \<Longrightarrow> update_book_dto_ok dto \<Longrightarrow> before \<le> now \<Longrightarrow>
    reading_step (before, t) (now, t')"
| book_removed: "remove_book userId i t = Inr t' \<Longrightarrow> before \<le> now \<Longrightarrow> reading_step (before, t) (now, t')"

inductive_cases reading_stepE: "reading_step (before, t) (now, t')"

lemma create_bookE:
  assumes "create_book U newId now userId dto t = Inr (t', v)"
  obtains shelf b where "settleShelf BOOK_SHELVES None \<lparr>sc_status = cb_status dto, sc_progress = cb_pagesRead dto, sc_total = cb_totalPages dto\<rparr>
      now BOOK_MESSAGES = Inr shelf" "books_kept userId t < MAX_BOOKS" "t' = t @ [b]" "bk_id b \<notin> bk_id ` set t"
    "bk_userId b = userId" "bk_totalPages b = cb_totalPages dto" "book_item b = shelf_item.truncate shelf" "bk_updatedAt b = now"
  using assms unfolding create_book_def createWithinCap_def insert_row_def Let_def
  by (auto simp: rbind_eq_Inr check_eq_Inr kept_by_def book_item_def shelf_item.defs split: if_splits)

lemma create_book_ok:
  assumes "create_book U newId now userId dto t = Inr (t', v)" and "reading_ok t" and "create_book_dto_ok dto"
  shows "reading_ok t'"
  using assms(1)
proof (rule create_bookE)
  fix shelf b
  assume s: "settleShelf BOOK_SHELVES None \<lparr>sc_status = cb_status dto, sc_progress = cb_pagesRead dto, sc_total = cb_totalPages dto\<rparr>
      now BOOK_MESSAGES = Inr shelf" and r: "books_kept userId t < MAX_BOOKS" "t' = t @ [b]" "bk_id b \<notin> bk_id ` set t"
    "bk_userId b = userId" "bk_totalPages b = cb_totalPages dto" "book_item b = shelf_item.truncate shelf"
  have c: "change_ok BOOK_SHELVES \<lparr>sc_status = cb_status dto, sc_progress = cb_pagesRead dto, sc_total = cb_totalPages dto\<rparr>"
    using assms(3) any_book_status by (auto simp: change_ok_def create_book_dto_ok_def split: option.splits)
  have "book_ok b"
    using settleShelf_on_shelf [OF s book_shelves_apart c] c by (simp add: book_ok_def r change_ok_def)
  moreover have "books_kept u t' \<le> MAX_BOOKS" for u
    using assms(2) r(1) by (auto simp: reading_ok_def kept_by_def r(2,4))
  ultimately show ?thesis using assms(2) r(3) by (auto simp: reading_ok_def r(2))
qed

lemma remove_book_ok:
  assumes "remove_book userId i t = Inr t'" and "reading_ok t"
  shows "reading_ok t'"
proof -
  from assms(1) have t': "t' = filter (\<lambda>b. \<not> (bk_id b = i \<and> bk_userId b = userId)) t"
    by (auto simp: remove_book_def Let_def rbind_eq_Inr)
  from assms(2) have "books_kept u t' \<le> MAX_BOOKS" for u
    unfolding t' reading_ok_def by (meson kept_by_filter order_trans)
  with assms(2) show ?thesis by (simp add: reading_ok_def t' keyed_filter)
qed

interpretation reading: invariant_system reading_step "\<lambda>s. reading_ok (snd s)"
proof
  fix s s' assume "reading_step s s'" and "reading_ok (snd s)"
  then show "reading_ok (snd s')"
  proof (induction rule: reading_step.induct)
    case (book_edited U userId i dto seen t now t' v before)
    then show ?case using book_attempt_ok [OF book_edited(1)] by (simp add: reading_ok_def)
  qed (simp_all add: create_book_ok remove_book_ok)
qed

text \<open>
  C36: however books are created, edited and removed, every book stays on the shelf its pages say --
  finished exactly when all its pages are read, unread on the first shelf, its dates kept to match --
  and no user ever has more than 500.
\<close>

theorem reading_list_sound:
  assumes "reading_step\<^sup>*\<^sup>* (\<tau>, t) (\<tau>', t')" and "reading_ok t" and "b \<in> set t'"
  shows "(bk_status b = FINISHED \<longleftrightarrow> bk_pagesRead b = bk_totalPages b) \<and> 0 \<le> bk_pagesRead b \<and> bk_pagesRead b \<le> bk_totalPages b \<and>
    (bk_status b = WANT_TO_READ \<longrightarrow> bk_pagesRead b = 0) \<and> (bk_startedAt b = None \<longleftrightarrow> bk_status b = WANT_TO_READ) \<and>
    (bk_finishedAt b \<noteq> None \<longleftrightarrow> bk_status b = FINISHED) \<and> length (filter (\<lambda>x. bk_userId x = bk_userId b) t') \<le> 500"
proof -
  from reading.run_inv [OF assms(1)] assms(2) have "reading_ok t'" by simp
  then have "book_ok b" and "books_kept (bk_userId b) t' \<le> MAX_BOOKS" using assms(3) by (auto simp: reading_ok_def)
  then show ?thesis by (auto simp: book_ok_def on_shelf_def book_item_def BOOK_SHELVES_def kept_by_def MAX_BOOKS_def)
qed

text \<open>Whatever was written since a read carries no earlier time than the read.\<close>

lemma written_since:
  assumes "reading_step\<^sup>*\<^sup>* (\<tau>, t) s"
  shows "\<tau> \<le> fst s \<and> (\<forall>b\<in>set (snd s). b \<in> set t \<or> \<tau> \<le> bk_updatedAt b)"
  using assms
proof (induction rule: rtranclp_induct)
  case (step s s')
  from step(2,3) show ?case
  proof (induction rule: reading_step.induct)
    case (book_created U newId now userId dto t1 t' v before)
    then show ?case by (auto elim!: create_bookE)
  next
    case (book_edited U userId i dto seen t1 now t' v before)
    from book_edited(1) obtain data where "bk_updatedAt data = now" "set t' \<subseteq> insert data (set t1)"
      by (rule book_attemptE) (auto elim!: book_updateE simp: update_many_def)
    with book_edited(4,5) show ?case by auto
  next
    case (book_removed userId i t1 t' before now)
    then show ?case by (auto simp: remove_book_def Let_def rbind_eq_Inr)
  qed
qed simp

text \<open>
  C35: an edit that read the list, let other requests write, and then wrote. The guard compares times in milliseconds, so
  it is assumed that the book was last written in an earlier millisecond than the one in which the edit read it. Then,
  whatever requests came in between, edits that crossed others included and several in one millisecond too, the edit is
  either refused (P2025, and run again) or returns exactly what an edit of the list as it stands would: it overwrites
  no change it did not see.
\<close>

theorem crossing_edit_is_atomic:
  assumes "reading_step\<^sup>*\<^sup>* (\<tau>, seen) (\<tau>', there)" and "reading_ok seen"
    and "\<forall>b\<in>set seen. bk_id b = i \<longrightarrow> bk_updatedAt b < \<tau>"
    and "book_attempt U userId i dto seen there now = Inr r"
  shows "book_attempt U userId i dto there there now = Inr r"
proof -
  obtain t v where r: "r = (t, v)" by fastforce
  from reading.run_inv [OF assms(1)] assms(2) have there: "reading_ok there" by simp
  from assms(4) [unfolded r] show ?thesis
  proof (rule book_attemptE)
    fix current data
    assume c: "requireBook userId i seen = Inr current" "current \<in> set seen" "bk_id current = i" "bk_userId current = userId"
      and d: "book_update U current dto now = Inr data"
      and "\<exists>b\<in>set there. bk_id b = i \<and> bk_userId b = userId \<and> bk_updatedAt b = bk_updatedAt current"
    then obtain b where b: "b \<in> set there" "bk_id b = i" "bk_updatedAt b = bk_updatedAt current" by blast
    from assms(3) c(2,3) b(3) have "bk_updatedAt b < \<tau>" by simp
    with written_since [OF assms(1)] b(1) have "b \<in> set seen" by fastforce
    from row_still_there [where key = bk_id and owner = bk_userId, OF _ _ c(2-4) this b(1,2)] assms(2) there
    have "requireBook userId i there = Inr current" by (simp add: requireBook_def reading_ok_def)
    with assms(4) c(1) show ?thesis by (simp add: book_attempt_def r)
  qed
qed

section \<open>Worked examples\<close>

definition sample_book :: book_row where
  "sample_book = \<lparr>bk_id = ''b'', bk_userId = ''u'', bk_title = ''Pather Panchali'', bk_author = [], bk_totalPages = 300, bk_pagesRead = 120,
     bk_status = READING, bk_color = ''walnut'', bk_startedAt = Some 1, bk_finishedAt = None, bk_createdAt = 1, bk_updatedAt = 5\<rparr>"

definition no_edit :: update_book_dto where
  "no_edit = \<lparr>ub_title = None, ub_author = None, ub_totalPages = None, ub_pagesRead = None, ub_status = None, ub_color = None\<rparr>"

definition sample_new_book :: create_book_dto where
  "sample_new_book = \<lparr>cb_title = ''Aranyak'', cb_author = None, cb_totalPages = 200, cb_pagesRead = None, cb_status = None, cb_color = None\<rparr>"

lemmas edit_defs = book_attempt_def requireBook_def book_update_def book_change_def book_item_def settleShelf_def settled_progress_def
  guarded_update_def update_many_def BOOK_SHELVES_def BOOK_MESSAGES_def no_edit_def sample_book_def Let_def

lemma sample_book_ok: "reading_ok [sample_book]"
  by (simp add: reading_ok_def kept_by_def MAX_BOOKS_def book_ok_def on_shelf_def book_item_def BOOK_SHELVES_def sample_book_def)

lemma sample_create:
  "\<exists>b v. create_book plain_unicode ''c'' 6 ''v'' sample_new_book [sample_book] = Inr ([sample_book, b], v) \<and> bk_id b = ''c'' \<and> bk_userId b = ''v''"
  by (simp add: create_book_def createWithinCap_def insert_row_def sample_new_book_def MAX_BOOKS_def cleanRequiredText_def cleanOptionalText_def
      cleanText_def trim_text_def plain_unicode_def settleShelf_def settled_progress_def new_item_def BOOK_SHELVES_def sample_book_def Let_def)

lemma sample_create_step:
  fixes before :: instant
  assumes "before \<le> 6"
  shows "\<exists>b. reading_step (before, [sample_book]) (6, [sample_book, b]) \<and> bk_id b = ''c'' \<and> bk_userId b = ''v''"
proof -
  from sample_create obtain b v where c: "create_book plain_unicode ''c'' 6 ''v'' sample_new_book [sample_book] = Inr ([sample_book, b], v)"
    and b: "bk_id b = ''c''" "bk_userId b = ''v''" by blast
  have "reading_step (before, [sample_book]) (6, [sample_book, b])"
    by (rule book_created [OF c _ assms]) (simp add: create_book_dto_ok_def sample_new_book_def)
  with b show ?thesis by blast
qed

theorem reading_list_sound_witness:
  "\<exists>b. reading_step\<^sup>*\<^sup>* (5, [sample_book]) (6, [sample_book, b]) \<and> bk_pagesRead b \<le> bk_totalPages b"
proof -
  have "(5 :: instant) \<le> 6" by simp
  from sample_create_step [OF this] obtain b where st: "reading_step (5, [sample_book]) (6, [sample_book, b])" by blast
  from reading_list_sound [OF r_into_rtranclp [of reading_step, OF st] sample_book_ok, of b] st show ?thesis by auto
qed

theorem crossing_edit_is_atomic_witness:
  "\<exists>b r. reading_step (6, [sample_book]) (6, [sample_book, b]) \<and>
    book_attempt plain_unicode ''u'' ''b'' (no_edit\<lparr>ub_pagesRead := Some 130\<rparr>) [sample_book] [sample_book, b] 7 = Inr r \<and>
    book_attempt plain_unicode ''u'' ''b'' (no_edit\<lparr>ub_pagesRead := Some 130\<rparr>) [sample_book, b] [sample_book, b] 7 = Inr r"
proof -
  have "(6 :: instant) \<le> 6" by simp
  from sample_create_step [OF this] obtain b where st: "reading_step (6, [sample_book]) (6, [sample_book, b])" by blast
  obtain r where r: "book_attempt plain_unicode ''u'' ''b'' (no_edit\<lparr>ub_pagesRead := Some 130\<rparr>) [sample_book] [sample_book, b] 7 = Inr r"
    by (simp add: edit_defs)
  from crossing_edit_is_atomic [OF r_into_rtranclp [of reading_step, OF st] sample_book_ok _ r] st r show ?thesis
    by (auto simp: sample_book_def)
qed

text \<open>
  The guard is a time in milliseconds: when the read, another edit and the edit before it all fall
  in one millisecond, the guard matches a row that has changed, and the pages the other edit recorded
  are gone.
\<close>

theorem same_millisecond_edit_is_lost:
  "\<exists>there t v v'. book_attempt plain_unicode ''u'' ''b'' (no_edit\<lparr>ub_pagesRead := Some 150\<rparr>) [sample_book] [sample_book] (bk_updatedAt sample_book) = Inr (there, v) \<and>
    map bk_pagesRead there = [150] \<and>
    book_attempt plain_unicode ''u'' ''b'' (no_edit\<lparr>ub_color := Some ''navy''\<rparr>) [sample_book] there 6 = Inr (t, v') \<and>
    map bk_pagesRead t = [120]"
  by (simp add: edit_defs)

text \<open>
  The same request is not always the same result. A book being read, at 120 of 300 pages, whose
  form is saved with the total corrected to 120 and the shelf it is on, is finished; the same
  request once more puts it back at page 0.
\<close>

theorem saving_the_form_again_wipes_the_pages:
  "\<exists>t t' v v'. book_attempt plain_unicode ''u'' ''b'' (no_edit\<lparr>ub_status := Some READING, ub_totalPages := Some 120\<rparr>) [sample_book] [sample_book] 6 = Inr (t, v) \<and>
    map bk_status t = [FINISHED] \<and> map bk_pagesRead t = [120] \<and>
    book_attempt plain_unicode ''u'' ''b'' (no_edit\<lparr>ub_status := Some READING, ub_totalPages := Some 120\<rparr>) t t 7 = Inr (t', v') \<and>
    map bk_status t' = [READING] \<and> map bk_pagesRead t' = [0]"
  by (simp add: edit_defs)

end
