(* ===== verification/Skills.thy ===== *)
theory Skills
  imports Shelf
begin

text \<open>
  The skills a user learns (src/skills/skills.service.ts): like the reading list they sit on three
  shelves by their progress, and every progress the user reports is written to the activity log of
  the day, from which the overview draws the week and the streak.
\<close>

section \<open>State and requests\<close>

datatype skill_unit = LESSONS | HOURS

datatype skill_status = WANT_TO_LEARN | LEARNING | COMPLETED

record skill_row =
  sk_id :: id
  sk_userId :: id
  sk_name :: string
  sk_source :: string
  sk_unit :: skill_unit
  sk_target :: int
  sk_progress :: int
  sk_loggedProgress :: int
  sk_status :: skill_status
  sk_color :: string
  sk_icon :: string
  sk_startedAt :: "instant option"
  sk_completedAt :: "instant option"
  sk_createdAt :: instant
  sk_updatedAt :: instant

record skill_log =
  sl_id :: id
  sl_skillId :: id
  sl_userId :: id
  sl_date :: instant
  sl_amount :: int

record skills_db =
  sd_skills :: "skill_row list"
  sd_logs :: "skill_log list"

record create_skill_dto =
  ck_name :: string
  ck_source :: "string option"
  ck_unit :: skill_unit
  ck_target :: int
  ck_progress :: "int option"
  ck_status :: "skill_status option"
  ck_color :: "string option"
  ck_icon :: "string option"

record update_skill_dto =
  uk_name :: "string option"
  uk_source :: "string option"
  uk_target :: "int option"
  uk_progress :: "int option"
  uk_status :: "skill_status option"
  uk_color :: "string option"
  uk_icon :: "string option"

definition create_skill_dto_ok :: "create_skill_dto \<Rightarrow> bool" where
  "create_skill_dto_ok dto \<longleftrightarrow> 1 \<le> ck_target dto \<and> ck_target dto \<le> 60000 \<and>
     (case ck_progress dto of None \<Rightarrow> True | Some p \<Rightarrow> 0 \<le> p \<and> p \<le> 60000)"

definition update_skill_dto_ok :: "update_skill_dto \<Rightarrow> bool" where
  "update_skill_dto_ok dto \<longleftrightarrow> (case uk_target dto of None \<Rightarrow> True | Some t \<Rightarrow> 1 \<le> t \<and> t \<le> 60000) \<and>
     (case uk_progress dto of None \<Rightarrow> True | Some p \<Rightarrow> 0 \<le> p \<and> p \<le> 60000)"

section \<open>Operations\<close>

definition MAX_SKILLS :: nat where
  "MAX_SKILLS = 200"

definition MAX_LESSONS :: int where
  "MAX_LESSONS = 2000"

definition MAX_MINUTES :: int where
  "MAX_MINUTES = 60000"

definition checkTarget :: "skill_unit \<Rightarrow> int \<Rightarrow> unit result" where
  "checkTarget unit target =
     rbind (check (\<not> (unit = LESSONS \<and> MAX_LESSONS < target)) (BadRequest ''A course can have up to 2000 lessons'')) (\<lambda>_.
     check (\<not> (unit = HOURS \<and> MAX_MINUTES < target)) (BadRequest ''A goal can be up to 1000 hours''))"

definition SKILL_SHELVES :: "skill_status shelves" where
  "SKILL_SHELVES = \<lparr>sh_todo = WANT_TO_LEARN, sh_doing = LEARNING, sh_done = COMPLETED\<rparr>"

definition SKILL_MESSAGES :: shelf_messages where
  "SKILL_MESSAGES = \<lparr>sm_overTotal = ''Progress can't be more than the target'',
     sm_notStarted = ''A skill you haven't started can't have progress''\<rparr>"

definition skill_item :: "skill_row \<Rightarrow> skill_status shelf_item" where
  "skill_item s = \<lparr>si_status = sk_status s, si_progress = sk_progress s, si_startedAt = sk_startedAt s, si_doneAt = sk_completedAt s\<rparr>"

definition skill_change :: "skill_row \<Rightarrow> update_skill_dto \<Rightarrow> skill_status shelf_change" where
  "skill_change current dto =
     \<lparr>sc_status = uk_status dto, sc_progress = uk_progress dto, sc_total = orelse (uk_target dto) (sk_target current)\<rparr>"

text \<open>The row an edit writes, and how much activity it records.\<close>

definition skill_update :: "unicode \<Rightarrow> skill_row \<Rightarrow> update_skill_dto \<Rightarrow> instant \<Rightarrow> (skill_row \<times> int) result" where
  "skill_update U current dto now =
     rbind (case uk_name dto of Some t \<Rightarrow> cleanRequiredText U t ''name'' 120 | None \<Rightarrow> Inr (sk_name current)) (\<lambda>name.
     rbind (case uk_source dto of Some a \<Rightarrow> cleanOptionalText U a ''source'' 80 | None \<Rightarrow> Inr (sk_source current)) (\<lambda>source.
     rbind (checkTarget (sk_unit current) (orelse (uk_target dto) (sk_target current))) (\<lambda>_.
     rbind (settleShelf SKILL_SHELVES (Some (skill_item current)) (skill_change current dto) now SKILL_MESSAGES) (\<lambda>shelf.
     let reported = ss_progressReported shelf;
         logDelta = (if reported then si_progress shelf - sk_loggedProgress current else 0);
         loggedProgress = (if reported then si_progress shelf else min (sk_loggedProgress current) (si_progress shelf)) in
     Inr (current\<lparr>sk_name := name, sk_source := source, sk_target := orelse (uk_target dto) (sk_target current),
       sk_progress := si_progress shelf, sk_loggedProgress := loggedProgress, sk_status := si_status shelf,
       sk_color := orelse (uk_color dto) (sk_color current), sk_icon := orelse (uk_icon dto) (sk_icon current),
       sk_startedAt := si_startedAt shelf, sk_completedAt := si_doneAt shelf, sk_updatedAt := now\<rparr>, logDelta)))))"

definition log_key :: "skill_log \<Rightarrow> id \<times> instant" where
  "log_key l = (sl_skillId l, sl_date l)"

definition adjustLog :: "id \<Rightarrow> id \<Rightarrow> id \<Rightarrow> int \<Rightarrow> instant \<Rightarrow> skill_log list \<Rightarrow> skill_log list" where
  "adjustLog newId userId skillId delta date logs =
     (if 0 < delta then
        (if (skillId, date) \<in> log_key ` set logs
         then map_row log_key (skillId, date) (\<lambda>l. l\<lparr>sl_amount := sl_amount l + delta\<rparr>) logs
         else logs @ [\<lparr>sl_id = newId, sl_skillId = skillId, sl_userId = userId, sl_date = date, sl_amount = delta\<rparr>])
      else
        (case find_row log_key (skillId, date) logs of
           None \<Rightarrow> logs
         | Some row \<Rightarrow>
             let next = sl_amount row + delta in
             if next \<le> 0 then filter (\<lambda>l. log_key l \<noteq> (skillId, date)) logs
             else map_row log_key (skillId, date) (\<lambda>l. l\<lparr>sl_amount := next\<rparr>) logs))"

definition requireSkill :: "id \<Rightarrow> id \<Rightarrow> skill_row list \<Rightarrow> skill_row result" where
  "requireSkill userId i skills =
     (case find (\<lambda>s. sk_id s = i \<and> sk_userId s = userId) skills of
        None \<Rightarrow> Inl (NotFound ''Skill not found'') | Some s \<Rightarrow> Inr s)"

definition create_skill :: "unicode \<Rightarrow> id \<Rightarrow> instant \<Rightarrow> id \<Rightarrow> create_skill_dto \<Rightarrow> skills_db \<Rightarrow> (skills_db \<times> skill_row) result" where
  "create_skill U newId now userId dto db =
     rbind (cleanRequiredText U (ck_name dto) ''name'' 120) (\<lambda>name.
     rbind (cleanOptionalText U (orelse (ck_source dto) []) ''source'' 80) (\<lambda>source.
     rbind (checkTarget (ck_unit dto) (ck_target dto)) (\<lambda>_.
     rbind (settleShelf SKILL_SHELVES None \<lparr>sc_status = ck_status dto, sc_progress = ck_progress dto, sc_total = ck_target dto\<rparr>
       now SKILL_MESSAGES) (\<lambda>shelf.
     createWithinCap MAX_SKILLS ''You can keep up to 200 skills'' (\<lambda>d. length (filter (\<lambda>s. sk_userId s = userId) (sd_skills d)))
       (\<lambda>d. let skill = \<lparr>sk_id = newId, sk_userId = userId, sk_name = name, sk_source = source, sk_unit = ck_unit dto,
              sk_target = ck_target dto, sk_progress = si_progress shelf, sk_loggedProgress = si_progress shelf, sk_status = si_status shelf,
              sk_color = orelse (ck_color dto) ''violet'', sk_icon = orelse (ck_icon dto) ''sparkles'',
              sk_startedAt = si_startedAt shelf, sk_completedAt = si_doneAt shelf, sk_createdAt = now, sk_updatedAt = now\<rparr> in
          rbind (insert_row sk_id skill (sd_skills d)) (\<lambda>t. Inr (d\<lparr>sd_skills := t\<rparr>, skill))) db))))"

text \<open>One attempt of an edit, and the edit: the write of the row and of the log are one transaction.\<close>

definition skill_attempt ::
    "unicode \<Rightarrow> id \<Rightarrow> id \<Rightarrow> id \<Rightarrow> update_skill_dto \<Rightarrow> skills_db \<Rightarrow> skills_db \<Rightarrow> instant \<Rightarrow> (skills_db \<times> skill_row) result" where
  "skill_attempt U newId userId i dto seen there now =
     rbind (requireSkill userId i (sd_skills seen)) (\<lambda>current.
     rbind (skill_update U current dto now) (\<lambda>(data, logDelta).
     rbind (guarded_update (\<lambda>s. sk_id s = i \<and> sk_userId s = userId \<and> sk_updatedAt s = sk_updatedAt current) (\<lambda>_. data) (sd_skills there)) (\<lambda>t.
     Inr (there\<lparr>sd_skills := t,
       sd_logs := if logDelta \<noteq> 0 then adjustLog newId userId i logDelta (dhakaDateOnly now) (sd_logs there) else sd_logs there\<rparr>, data))))"

definition update_skill ::
    "unicode \<Rightarrow> id \<Rightarrow> id \<Rightarrow> id \<Rightarrow> update_skill_dto \<Rightarrow> (nat \<Rightarrow> skills_db \<times> skills_db \<times> instant) \<Rightarrow> (skills_db \<times> skill_row) result" where
  "update_skill U newId userId i dto world =
     compareAndSwap (\<lambda>n. case world n of (seen, there, now) \<Rightarrow> skill_attempt U newId userId i dto seen there now)
       ''This skill was changed elsewhere -- please try again''"

text \<open>The logs of a skill go with it.\<close>

definition remove_skill :: "id \<Rightarrow> id \<Rightarrow> skills_db \<Rightarrow> skills_db result" where
  "remove_skill userId i db =
     (let gone = (\<lambda>s. sk_id s = i \<and> sk_userId s = userId); kept = filter (\<lambda>s. \<not> gone s) (sd_skills db) in
      rbind (check (length kept \<noteq> length (sd_skills db)) (NotFound ''Skill not found'')) (\<lambda>_.
      Inr (db\<lparr>sd_skills := kept, sd_logs := filter (\<lambda>l. sl_skillId l \<notin> sk_id ` set (filter gone (sd_skills db))) (sd_logs db)\<rparr>)))"

definition setGoal_skills :: "id \<Rightarrow> instant \<Rightarrow> id \<Rightarrow> int \<Rightarrow> yearly_goal_row list \<Rightarrow> yearly_goal_row list \<times> yearly_goal" where
  "setGoal_skills newId now userId target gs = setYearlyGoal newId now userId target gs"

definition clearGoal_skills :: "instant \<Rightarrow> id \<Rightarrow> yearly_goal_row list \<Rightarrow> yearly_goal_row list \<times> yearly_goal" where
  "clearGoal_skills now userId gs = clearYearlyGoal now userId gs"

section \<open>The overview\<close>

definition STREAK_LOOKBACK_DAYS :: nat where
  "STREAK_LOOKBACK_DAYS = 400"

record skill_view =
  sv_skill :: skill_row
  sv_completedYear :: "int option"

record day_total =
  dt_minutes :: int
  dt_lessons :: int
  dt_bySkill :: "id \<rightharpoonup> int"

record week_day =
  wd_date :: instant
  wd_total :: day_total

record skills_overview =
  so_year :: int
  so_goalTarget :: "int option"
  so_streak :: nat
  so_week :: "week_day list"
  so_skills :: "skill_view list"

definition no_activity :: day_total where
  "no_activity = \<lparr>dt_minutes = 0, dt_lessons = 0, dt_bySkill = Map.empty\<rparr>"

text \<open>The groups of the log by day and skill, with their sums.\<close>

definition log_groups :: "id \<Rightarrow> instant \<Rightarrow> skill_log list \<Rightarrow> ((id \<times> instant) \<times> int) list" where
  "log_groups userId today logs =
     (let rows = filter (\<lambda>l. sl_userId l = userId \<and> today - int STREAK_LOOKBACK_DAYS * day_ms \<le> sl_date l) logs in
      map (\<lambda>k. (k, sum_by sl_amount (filter (\<lambda>l. log_key l = k) rows))) (js_set (map log_key rows)))"

definition add_group :: "(id \<rightharpoonup> skill_unit) \<Rightarrow> (id \<times> instant) \<times> int \<Rightarrow> (instant \<rightharpoonup> day_total) \<Rightarrow> instant \<rightharpoonup> day_total" where
  "add_group unitOf g perDay =
     (let skillId = fst (fst g); key = snd (fst g); amt = snd g; day = orelse (perDay key) no_activity;
          day = (if unitOf skillId = Some HOURS then day\<lparr>dt_minutes := dt_minutes day + amt\<rparr>
                 else day\<lparr>dt_lessons := dt_lessons day + amt\<rparr>)
      in perDay(key \<mapsto> day\<lparr>dt_bySkill := (dt_bySkill day)(skillId \<mapsto> orelse (dt_bySkill day skillId) 0 + amt)\<rparr>))"

definition unit_of :: "skill_row list \<Rightarrow> id \<rightharpoonup> skill_unit" where
  "unit_of skills = (\<lambda>i. map_option sk_unit (find_row sk_id i skills))"

definition per_day :: "id \<Rightarrow> instant \<Rightarrow> skills_db \<Rightarrow> instant \<rightharpoonup> day_total" where
  "per_day userId today db =
     fold (add_group (unit_of (filter (\<lambda>s. sk_userId s = userId) (sd_skills db)))) (log_groups userId today (sd_logs db)) Map.empty"

function streak_from :: "(nat \<Rightarrow> bool) \<Rightarrow> nat \<Rightarrow> nat" where
  "streak_from active n = (if n \<le> STREAK_LOOKBACK_DAYS \<and> active n then Suc (streak_from active (Suc n)) else 0)"
  by pat_completeness auto

termination
  by (relation "measure (\<lambda>(_, n). Suc STREAK_LOOKBACK_DAYS - n)") auto

declare streak_from.simps [simp del]

definition days_ago :: "instant \<Rightarrow> nat \<Rightarrow> instant" where
  "days_ago today n = today - int n * day_ms"

definition skills_overview_of :: "instant \<Rightarrow> id \<Rightarrow> skills_db \<Rightarrow> yearly_goal_row list \<Rightarrow> skills_overview" where
  "skills_overview_of now userId db gs =
     (let today = dhakaDateOnly now; perDay = per_day userId today db; active = (\<lambda>n. perDay (days_ago today n) \<noteq> None) in
      \<lparr>so_year = dhakaYear now, so_goalTarget = goal_target now userId gs,
       so_streak = streak_from active (if active 0 then 0 else 1),
       so_week = map (\<lambda>n. \<lparr>wd_date = days_ago today n, wd_total = orelse (perDay (days_ago today n)) no_activity\<rparr>) (rev [0..<7]),
       so_skills = map (\<lambda>s. \<lparr>sv_skill = s, sv_completedYear = map_option dhakaYear (sk_completedAt s)\<rparr>)
         (find_many (\<lambda>s. sk_userId s = userId) (\<lambda>s. - sk_updatedAt s) (sd_skills db))\<rparr>)"

end
