(* ===== verification/Skill_Facts.thy ===== *)
theory Skill_Facts
  imports Skills
begin

text \<open>
  What the skills keep: every skill on the shelf of its progress, an activity log with one positive
  row per skill and day; what an edit writes to the log; and what the streak counts.
\<close>

section \<open>The invariant\<close>

definition skill_ok :: "skill_row \<Rightarrow> bool" where
  "skill_ok s \<longleftrightarrow> 1 \<le> sk_target s \<and> on_shelf SKILL_SHELVES (sk_target s) (skill_item s) \<and>
     0 \<le> sk_loggedProgress s \<and> sk_loggedProgress s \<le> sk_progress s"

abbreviation skills_kept :: "id \<Rightarrow> skill_row list \<Rightarrow> nat" where
  "skills_kept \<equiv> kept_by sk_userId"

definition logs_ok :: "id set \<Rightarrow> skill_log list \<Rightarrow> bool" where
  "logs_ok ids logs \<longleftrightarrow> keyed log_key logs \<and> (\<forall>l\<in>set logs. 0 < sl_amount l \<and> sl_skillId l \<in> ids)"

definition skills_ok :: "skills_db \<Rightarrow> bool" where
  "skills_ok d \<longleftrightarrow> keyed sk_id (sd_skills d) \<and> (\<forall>s\<in>set (sd_skills d). skill_ok s) \<and>
     (\<forall>u. skills_kept u (sd_skills d) \<le> MAX_SKILLS) \<and> logs_ok (sk_id ` set (sd_skills d)) (sd_logs d)"

lemma skill_shelves_apart [simp]: "shelves_apart SKILL_SHELVES"
  by (simp add: shelves_apart_def SKILL_SHELVES_def)

lemma any_skill_status: "s \<in> {sh_todo SKILL_SHELVES, sh_doing SKILL_SHELVES, sh_done SKILL_SHELVES}"
  by (cases s) (simp_all add: SKILL_SHELVES_def)

lemma skill_updateE:
  assumes "skill_update U current dto now = Inr (r, delta)"
  obtains shelf where "settleShelf SKILL_SHELVES (Some (skill_item current)) (skill_change current dto) now SKILL_MESSAGES = Inr shelf"
    "sk_id r = sk_id current" "sk_userId r = sk_userId current" "sk_updatedAt r = now"
    "sk_target r = orelse (uk_target dto) (sk_target current)" "skill_item r = shelf_item.truncate shelf"
    "delta = (if ss_progressReported shelf then si_progress shelf - sk_loggedProgress current else 0)"
    "sk_loggedProgress r = (if ss_progressReported shelf then si_progress shelf else min (sk_loggedProgress current) (si_progress shelf))"
  using assms unfolding skill_update_def Let_def
  by (auto simp: rbind_eq_Inr skill_item_def shelf_item.defs)

lemma skill_update_ok:
  assumes "skill_update U current dto now = Inr (r, delta)" and "skill_ok current" and "update_skill_dto_ok dto"
  shows "skill_ok r"
  using assms(1)
proof (rule skill_updateE)
  fix shelf
  assume s: "settleShelf SKILL_SHELVES (Some (skill_item current)) (skill_change current dto) now SKILL_MESSAGES = Inr shelf"
    and r: "sk_target r = orelse (uk_target dto) (sk_target current)" "skill_item r = shelf_item.truncate shelf"
    and l: "sk_loggedProgress r = (if ss_progressReported shelf then si_progress shelf else min (sk_loggedProgress current) (si_progress shelf))"
  have c: "change_ok SKILL_SHELVES (skill_change current dto)"
    using assms(2,3) any_skill_status
    by (auto simp: change_ok_def skill_change_def update_skill_dto_ok_def skill_ok_def split: option.splits)
  have "item_ok SKILL_SHELVES (skill_item current)" using assms(2) on_shelf_item_ok by (auto simp: skill_ok_def)
  then have on: "on_shelf SKILL_SHELVES (sc_total (skill_change current dto)) shelf"
    using settleShelf_on_shelf [OF s _ c] by simp
  have "sk_progress r = si_progress shelf" using arg_cong [OF r(2), of si_progress] by (simp add: skill_item_def shelf_item.defs)
  with on c assms(2) show ?thesis
    by (auto simp: skill_ok_def r l skill_change_def change_ok_def on_shelf_def shelf_item.defs)
qed

lemma adjustLog_ok:
  assumes "logs_ok ids logs" and "i \<in> ids" and "delta \<noteq> 0"
  shows "logs_ok ids (adjustLog newId userId i delta date logs)"
proof -
  have keys: "keyed log_key (map_row log_key k (\<lambda>l. l\<lparr>sl_amount := f l\<rparr>) logs)" for k and f :: "skill_log \<Rightarrow> int"
    using assms(1) by (subst keyed_map_row) (auto simp: logs_ok_def log_key_def)
  have "\<forall>l\<in>set (adjustLog newId userId i delta date logs). 0 < sl_amount l \<and> sl_skillId l \<in> ids"
    using assms unfolding adjustLog_def logs_ok_def map_row_def Let_def by (auto split: option.splits)
  moreover have "keyed log_key (adjustLog newId userId i delta date logs)"
    using assms(1) keys unfolding adjustLog_def Let_def
    by (auto simp: logs_ok_def keyed_filter log_key_def split: option.splits)
  ultimately show ?thesis by (simp add: logs_ok_def)
qed

lemma requireSkill_eq_Inr: "requireSkill userId i t = Inr s \<Longrightarrow> s \<in> set t \<and> sk_id s = i \<and> sk_userId s = userId"
  by (auto simp: requireSkill_def find_Some_iff split: option.splits)

lemma skill_attemptE:
  assumes "skill_attempt U newId userId i dto seen there now = Inr (d, v)"
  obtains current data delta r where "requireSkill userId i (sd_skills seen) = Inr current" "skill_update U current dto now = Inr (data, delta)"
    "current \<in> set (sd_skills seen)" "sk_id current = i" "sk_userId current = userId"
    "r \<in> set (sd_skills there)" "sk_id r = i" "sk_updatedAt r = sk_updatedAt current"
    "sd_skills d = update_many (\<lambda>s. sk_id s = i \<and> sk_userId s = userId \<and> sk_updatedAt s = sk_updatedAt current) (\<lambda>_. data) (sd_skills there)"
    "sd_logs d = (if delta \<noteq> 0 then adjustLog newId userId i delta (dhakaDateOnly now) (sd_logs there) else sd_logs there)" "v = data"
proof -
  from assms obtain current data delta t where c: "requireSkill userId i (sd_skills seen) = Inr current"
    and u: "skill_update U current dto now = Inr (data, delta)"
    and g: "guarded_update (\<lambda>s. sk_id s = i \<and> sk_userId s = userId \<and> sk_updatedAt s = sk_updatedAt current) (\<lambda>_. data) (sd_skills there) = Inr t"
    and d: "d = there\<lparr>sd_skills := t, sd_logs := if delta \<noteq> 0 then adjustLog newId userId i delta (dhakaDateOnly now) (sd_logs there) else sd_logs there\<rparr>"
      "v = data"
    unfolding skill_attempt_def by (auto simp: rbind_eq_Inr split: prod.splits)
  from g show thesis
  proof (rule guarded_updateE)
    fix r
    assume "r \<in> set (sd_skills there)" "sk_id r = i \<and> sk_userId r = userId \<and> sk_updatedAt r = sk_updatedAt current"
      "t = update_many (\<lambda>s. sk_id s = i \<and> sk_userId s = userId \<and> sk_updatedAt s = sk_updatedAt current) (\<lambda>_. data) (sd_skills there)"
    then show thesis by (intro that [OF c u, of r]) (use requireSkill_eq_Inr [OF c] d in simp_all)
  qed
qed

lemma skill_attempt_ok:
  assumes "skill_attempt U newId userId i dto seen there now = Inr (d, v)" and "skills_ok there" and "update_skill_dto_ok dto"
    and "\<forall>s\<in>set (sd_skills seen). skill_ok s"
  shows "skills_ok d"
  using assms(1)
proof (rule skill_attemptE)
  fix current data delta r
  assume u: "skill_update U current dto now = Inr (data, delta)" and c: "current \<in> set (sd_skills seen)" "sk_id current = i" "sk_userId current = userId"
    and r: "r \<in> set (sd_skills there)" "sk_id r = i"
    and d: "sd_skills d = update_many (\<lambda>s. sk_id s = i \<and> sk_userId s = userId \<and> sk_updatedAt s = sk_updatedAt current) (\<lambda>_. data) (sd_skills there)"
      "sd_logs d = (if delta \<noteq> 0 then adjustLog newId userId i delta (dhakaDateOnly now) (sd_logs there) else sd_logs there)"
  from u have "sk_id data = i" "sk_userId data = userId" using c by (auto elim: skill_updateE)
  then have g: "keyed sk_id (sd_skills d) = keyed sk_id (sd_skills there)" "skills_kept x (sd_skills d) = skills_kept x (sd_skills there)"
    "set (sd_skills d) \<subseteq> insert data (set (sd_skills there))" "sk_id ` set (sd_skills d) = sk_id ` set (sd_skills there)" for x
    unfolding d(1) by (intro guarded_write; simp)+
  have "skill_ok data" using skill_update_ok [OF u _ assms(3)] assms(4) c(1) by blast
  moreover have "logs_ok (sk_id ` set (sd_skills there)) (sd_logs d)"
    using adjustLog_ok [of "sk_id ` set (sd_skills there)" "sd_logs there" i delta] assms(2) r unfolding d(2) by (auto simp: skills_ok_def)
  ultimately show ?thesis using g(1,3,4) assms(2) unfolding skills_ok_def g(2) by auto
qed

lemma create_skillE:
  assumes "create_skill U newId now userId dto d = Inr (d', s)"
  obtains shelf where "settleShelf SKILL_SHELVES None \<lparr>sc_status = ck_status dto, sc_progress = ck_progress dto, sc_total = ck_target dto\<rparr>
      now SKILL_MESSAGES = Inr shelf" "skills_kept userId (sd_skills d) < MAX_SKILLS" "d' = d\<lparr>sd_skills := sd_skills d @ [s]\<rparr>"
    "sk_id s \<notin> sk_id ` set (sd_skills d)" "sk_userId s = userId" "sk_target s = ck_target dto" "skill_item s = shelf_item.truncate shelf"
    "sk_loggedProgress s = si_progress shelf" "sk_progress s = si_progress shelf" "sk_updatedAt s = now"
  using assms unfolding create_skill_def createWithinCap_def insert_row_def Let_def
  by (auto simp: rbind_eq_Inr check_eq_Inr kept_by_def skill_item_def shelf_item.defs split: if_splits)

lemma create_skill_ok:
  assumes "create_skill U newId now userId dto d = Inr (d', s)" and "skills_ok d" and "create_skill_dto_ok dto"
  shows "skills_ok d'"
  using assms(1)
proof (rule create_skillE)
  fix shelf
  assume st: "settleShelf SKILL_SHELVES None \<lparr>sc_status = ck_status dto, sc_progress = ck_progress dto, sc_total = ck_target dto\<rparr>
      now SKILL_MESSAGES = Inr shelf" and r: "skills_kept userId (sd_skills d) < MAX_SKILLS" "d' = d\<lparr>sd_skills := sd_skills d @ [s]\<rparr>"
    "sk_id s \<notin> sk_id ` set (sd_skills d)" "sk_userId s = userId" "sk_target s = ck_target dto" "skill_item s = shelf_item.truncate shelf"
    "sk_loggedProgress s = si_progress shelf" "sk_progress s = si_progress shelf"
  have c: "change_ok SKILL_SHELVES \<lparr>sc_status = ck_status dto, sc_progress = ck_progress dto, sc_total = ck_target dto\<rparr>"
    using assms(3) any_skill_status by (auto simp: change_ok_def create_skill_dto_ok_def split: option.splits)
  have "on_shelf SKILL_SHELVES (ck_target dto) shelf" using settleShelf_on_shelf [OF st skill_shelves_apart c] by simp
  moreover from this have "0 \<le> si_progress shelf" by (simp add: on_shelf_def)
  ultimately have "skill_ok s" using c by (simp add: skill_ok_def r change_ok_def)
  moreover have "skills_kept u (sd_skills d') \<le> MAX_SKILLS" for u
    using assms(2) r(1) by (auto simp: skills_ok_def kept_by_append r(2,4))
  ultimately show ?thesis using assms(2) r(3) by (auto simp: skills_ok_def logs_ok_def r(2))
qed

lemma remove_skill_ok:
  assumes "remove_skill userId i d = Inr d'" and "skills_ok d"
  shows "skills_ok d'"
proof -
  let ?gone = "\<lambda>s. sk_id s = i \<and> sk_userId s = userId"
  from assms(1) have d': "sd_skills d' = filter (\<lambda>s. \<not> ?gone s) (sd_skills d)"
    "sd_logs d' = filter (\<lambda>l. sl_skillId l \<notin> sk_id ` set (filter ?gone (sd_skills d))) (sd_logs d)"
    by (auto simp: remove_skill_def Let_def rbind_eq_Inr)
  from assms(2) have "skills_kept u (sd_skills d') \<le> MAX_SKILLS" for u
    unfolding d' skills_ok_def by (meson kept_by_filter order_trans)
  moreover have "sl_skillId l \<in> sk_id ` set (sd_skills d')" if "l \<in> set (sd_logs d')" for l
  proof -
    from that have "sl_skillId l \<notin> sk_id ` set (filter ?gone (sd_skills d))" "l \<in> set (sd_logs d)" by (simp_all add: d')
    moreover from this assms(2) obtain s where s: "s \<in> set (sd_skills d)" "sk_id s = sl_skillId l" by (auto simp: skills_ok_def logs_ok_def)
    ultimately have "\<not> ?gone s" by (force simp: image_iff)
    with s(1) have "s \<in> set (sd_skills d')" by (simp add: d')
    with s(2) show ?thesis by force
  qed
  ultimately show ?thesis using assms(2) by (auto simp: skills_ok_def logs_ok_def d' keyed_filter)
qed

inductive skills_step :: "instant \<times> skills_db \<Rightarrow> instant \<times> skills_db \<Rightarrow> bool" where
  skill_created: "create_skill U newId now userId dto d = Inr (d', s) \<Longrightarrow> create_skill_dto_ok dto \<Longrightarrow> before < now \<Longrightarrow>
    skills_step (before, d) (now, d')"
| skill_edited: "skill_attempt U newId userId i dto d d now = Inr (d', s) \<Longrightarrow> update_skill_dto_ok dto \<Longrightarrow> before < now \<Longrightarrow>
    skills_step (before, d) (now, d')"
| skill_removed: "remove_skill userId i d = Inr d' \<Longrightarrow> before < now \<Longrightarrow> skills_step (before, d) (now, d')"

interpretation skills: invariant_system skills_step "\<lambda>s. skills_ok (snd s)"
proof
  fix s s' assume "skills_step s s'" and "skills_ok (snd s)"
  then show "skills_ok (snd s')"
  proof (induction rule: skills_step.induct)
    case (skill_edited U newId userId i dto d now d' s before)
    then show ?case using skill_attempt_ok [OF skill_edited(1)] by (simp add: skills_ok_def)
  qed (simp_all add: create_skill_ok remove_skill_ok)
qed

text \<open>
  However skills are created, edited and removed, every skill is on the shelf its progress says,
  the log never accounts for more than the progress it has, a user has at most 200 skills, and the
  log holds one row per skill and day, with a positive amount, of a skill that exists.
\<close>

theorem skills_run_sound:
  assumes "skills_step\<^sup>*\<^sup>* (\<tau>, d) (\<tau>', d')" and "skills_ok d"
  shows "(\<forall>s\<in>set (sd_skills d'). (sk_status s = COMPLETED \<longleftrightarrow> sk_progress s = sk_target s) \<and> sk_progress s \<le> sk_target s \<and>
      (sk_completedAt s \<noteq> None \<longleftrightarrow> sk_status s = COMPLETED) \<and> 0 \<le> sk_loggedProgress s \<and> sk_loggedProgress s \<le> sk_progress s \<and>
      length (filter (\<lambda>x. sk_userId x = sk_userId s) (sd_skills d')) \<le> 200) \<and>
    distinct (map (\<lambda>l. (sl_skillId l, sl_date l)) (sd_logs d')) \<and>
    (\<forall>l\<in>set (sd_logs d'). 0 < sl_amount l \<and> sl_skillId l \<in> sk_id ` set (sd_skills d'))"
proof -
  from skills.run_inv [OF assms(1)] assms(2) have ok: "skills_ok d'" by simp
  have "(sk_status s = COMPLETED \<longleftrightarrow> sk_progress s = sk_target s) \<and> sk_progress s \<le> sk_target s \<and>
      (sk_completedAt s \<noteq> None \<longleftrightarrow> sk_status s = COMPLETED) \<and> 0 \<le> sk_loggedProgress s \<and> sk_loggedProgress s \<le> sk_progress s"
    if "s \<in> set (sd_skills d')" for s
  proof -
    from that ok have "skill_ok s" by (simp add: skills_ok_def)
    then show ?thesis by (auto simp: skill_ok_def on_shelf_def skill_item_def SKILL_SHELVES_def)
  qed
  moreover have "length (filter (\<lambda>x. sk_userId x = u) (sd_skills d')) \<le> 200" for u
    using ok by (simp add: skills_ok_def kept_by_def MAX_SKILLS_def)
  moreover have "log_key = (\<lambda>l. (sl_skillId l, sl_date l))" by (rule ext) (simp add: log_key_def)
  ultimately show ?thesis using ok by (simp add: skills_ok_def logs_ok_def keyed_def)
qed

section \<open>What an edit logs\<close>

lemma requireSkill_mem:
  assumes "keyed sk_id t" and "s \<in> set t" and "sk_id s = i" and "sk_userId s = u"
  shows "requireSkill u i t = Inr s"
proof (cases "find (\<lambda>s. sk_id s = i \<and> sk_userId s = u) t")
  case None
  with assms show ?thesis by (auto simp: find_None_iff)
next
  case (Some x)
  then have "x \<in> set t" "sk_id x = i" by (auto simp: find_Some_iff)
  with assms have "x = s" by (auto simp: keyed_def distinct_map dest: inj_onD)
  with Some show ?thesis by (simp add: requireSkill_def)
qed

definition skill_unedited :: update_skill_dto where
  "skill_unedited = \<lparr>uk_name = None, uk_source = None, uk_target = None, uk_progress = None, uk_status = None, uk_color = None, uk_icon = None\<rparr>"

text \<open>An edit of a skill of the list, on the list as it stands.\<close>

lemma skill_attempt_here:
  assumes "skill_attempt U newId u i dto d d now = Inr (d', v)" and "skills_ok d"
    and "s \<in> set (sd_skills d)" "sk_id s = i" "sk_userId s = u"
  obtains delta where "skill_update U s dto now = Inr (v, delta)" "v \<in> set (sd_skills d')" "sk_id v = i" "sk_userId v = u"
    "sd_logs d' = (if delta \<noteq> 0 then adjustLog newId u i delta (dhakaDateOnly now) (sd_logs d) else sd_logs d)"
  using assms(1)
proof (rule skill_attemptE)
  fix current data delta r
  assume "requireSkill u i (sd_skills d) = Inr current" and up: "skill_update U current dto now = Inr (data, delta)"
    and l: "sd_logs d' = (if delta \<noteq> 0 then adjustLog newId u i delta (dhakaDateOnly now) (sd_logs d) else sd_logs d)" and v: "v = data"
    and t: "sd_skills d' = update_many (\<lambda>x. sk_id x = i \<and> sk_userId x = u \<and> sk_updatedAt x = sk_updatedAt current) (\<lambda>_. data) (sd_skills d)"
  have c: "current = s" using requireSkill_mem [OF _ assms(3-5)] assms(2) \<open>requireSkill u i _ = _\<close> by (simp add: skills_ok_def)
  have "sk_id v = i" "sk_userId v = u" using up assms(4,5) by (auto simp: c v elim: skill_updateE)
  moreover have "v \<in> set (sd_skills d')" using assms(3-5) by (force simp: t v c update_many_def image_iff)
  ultimately show thesis using that up l by (simp add: c v)
qed

text \<open>
  Completing a skill and taking it back by reporting the old progress again leaves the activity
  log as it was, and the skill where it was: the jump to complete is no activity, and undoing it
  erases none.
\<close>

theorem undone_complete_logs_nothing:
  assumes "skills_ok d" and "s \<in> set (sd_skills d)" and "sk_id s = i" and "sk_userId s = u" and "sk_loggedProgress s = sk_progress s"
    and "skill_attempt U n u i (skill_unedited\<lparr>uk_status := Some COMPLETED\<rparr>) d d now = Inr (d1, v)"
    and "skill_attempt U n' u i (skill_unedited\<lparr>uk_progress := Some (sk_progress s)\<rparr>) d1 d1 now' = Inr (d2, w)"
  shows "sd_logs d2 = sd_logs d \<and> sk_progress w = sk_progress s \<and> sk_loggedProgress w = sk_loggedProgress s \<and>
    (sk_startedAt s \<noteq> None \<longrightarrow> sk_startedAt w = sk_startedAt s)"
proof -
  have ok: "skill_ok s" using assms(1,2) by (simp add: skills_ok_def)
  obtain delta where v: "skill_update U s (skill_unedited\<lparr>uk_status := Some COMPLETED\<rparr>) now = Inr (v, delta)" "v \<in> set (sd_skills d1)"
    "sk_id v = i" "sk_userId v = u" and l: "sd_logs d1 = (if delta \<noteq> 0 then adjustLog n u i delta (dhakaDateOnly now) (sd_logs d) else sd_logs d)"
    using skill_attempt_here [OF assms(6,1-4)] by blast
  have "skills_ok d1"
    by (rule skill_attempt_ok [OF assms(6,1)]) (use assms(1) in \<open>simp_all add: skills_ok_def update_skill_dto_ok_def skill_unedited_def\<close>)
  from skill_attempt_here [OF assms(7) this v(2-4)] obtain delta' where
    w: "skill_update U v (skill_unedited\<lparr>uk_progress := Some (sk_progress s)\<rparr>) now' = Inr (w, delta')"
    and l': "sd_logs d2 = (if delta' \<noteq> 0 then adjustLog n' u i delta' (dhakaDateOnly now') (sd_logs d1) else sd_logs d1)" by blast
  note defs = skill_update_def skill_unedited_def settleShelf_def settled_progress_def skill_change_def skill_item_def SKILL_SHELVES_def Let_def
  have m: "min (sk_progress s) (sk_target s) = sk_progress s" using ok by (simp add: skill_ok_def on_shelf_def skill_item_def)
  from v(1) assms(5) have 1: "delta = 0 \<and> sk_loggedProgress v = sk_progress s \<and> sk_progress v = sk_target s \<and> sk_target v = sk_target s \<and>
      sk_status v = COMPLETED \<and> (sk_startedAt s \<noteq> None \<longrightarrow> sk_startedAt v = sk_startedAt s)"
    unfolding defs by (auto simp: rbind_eq_Inr check_eq_Inr m)
  have 2: "delta' = 0 \<and> sk_loggedProgress w = sk_progress s \<and> sk_progress w = sk_progress s \<and>
      (sk_startedAt v \<noteq> None \<longrightarrow> sk_startedAt w = sk_startedAt v)"
    using w 1 unfolding defs by (auto simp: rbind_eq_Inr check_eq_Inr split: if_splits)
  from 1 2 l l' assms(5) show ?thesis by simp
qed

section \<open>The week and the streak\<close>

lemma streak_from_spec:
  "(\<forall>n<k. active (m + n)) \<and> (k \<noteq> 0 \<longrightarrow> m + k \<le> Suc STREAK_LOOKBACK_DAYS) \<and> (m + k \<le> STREAK_LOOKBACK_DAYS \<longrightarrow> \<not> active (m + k))"
  if "streak_from active m = k"
  using that
proof (induction active m arbitrary: k rule: streak_from.induct)
  case (1 active m)
  show ?case
  proof (cases "m \<le> STREAK_LOOKBACK_DAYS \<and> active m")
    case True
    then obtain j where j: "k = Suc j" "streak_from active (Suc m) = j" using "1.prems" by (simp add: streak_from.simps [of active m])
    from "1.IH" [OF True j(2)] have IH: "\<forall>n<j. active (Suc m + n)" "j \<noteq> 0 \<longrightarrow> Suc m + j \<le> Suc STREAK_LOOKBACK_DAYS"
      "Suc m + j \<le> STREAK_LOOKBACK_DAYS \<longrightarrow> \<not> active (Suc m + j)" by blast+
    have "active (m + n)" if "n < k" for n using that True IH(1) by (cases n) (auto simp: j(1))
    with IH True show ?thesis by (auto simp: j(1))
  next
    case False
    then show ?thesis using "1.prems" by (auto simp: streak_from.simps [of active m])
  qed
qed

text \<open>What the map of days holds after the groups were added: on each day, the sums of its groups.\<close>

definition minutes_on :: "(instant \<rightharpoonup> day_total) \<Rightarrow> instant \<Rightarrow> int" where
  "minutes_on m d = dt_minutes (orelse (m d) no_activity)"

definition lessons_on :: "(instant \<rightharpoonup> day_total) \<Rightarrow> instant \<Rightarrow> int" where
  "lessons_on m d = dt_lessons (orelse (m d) no_activity)"

lemma add_group_dom: "add_group unitOf g m d \<noteq> None \<longleftrightarrow> d = snd (fst g) \<or> m d \<noteq> None"
  by (auto simp: add_group_def Let_def)

lemma add_group_sums:
  "minutes_on (add_group unitOf g m) d = minutes_on m d + (if snd (fst g) = d \<and> unitOf (fst (fst g)) = Some HOURS then snd g else 0)"
  "lessons_on (add_group unitOf g m) d = lessons_on m d + (if snd (fst g) = d \<and> unitOf (fst (fst g)) \<noteq> Some HOURS then snd g else 0)"
  by (auto simp: add_group_def Let_def minutes_on_def lessons_on_def)

lemma add_groups:
  "fold (add_group unitOf) gs m d \<noteq> None \<longleftrightarrow> d \<in> (\<lambda>g. snd (fst g)) ` set gs \<or> m d \<noteq> None"
  "minutes_on (fold (add_group unitOf) gs m) d = minutes_on m d + sum_by snd (filter (\<lambda>g. snd (fst g) = d \<and> unitOf (fst (fst g)) = Some HOURS) gs)"
  "lessons_on (fold (add_group unitOf) gs m) d = lessons_on m d + sum_by snd (filter (\<lambda>g. snd (fst g) = d \<and> unitOf (fst (fst g)) \<noteq> Some HOURS) gs)"
proof -
  show "fold (add_group unitOf) gs m d \<noteq> None \<longleftrightarrow> d \<in> (\<lambda>g. snd (fst g)) ` set gs \<or> m d \<noteq> None"
  proof (induction gs arbitrary: m)
    case (Cons g gs)
    then show ?case using add_group_dom [of unitOf g m d] by auto
  qed simp
  show "minutes_on (fold (add_group unitOf) gs m) d = minutes_on m d + sum_by snd (filter (\<lambda>g. snd (fst g) = d \<and> unitOf (fst (fst g)) = Some HOURS) gs)"
    by (induction gs arbitrary: m) (simp_all add: add_group_sums)
  show "lessons_on (fold (add_group unitOf) gs m) d = lessons_on m d + sum_by snd (filter (\<lambda>g. snd (fst g) = d \<and> unitOf (fst (fst g)) \<noteq> Some HOURS) gs)"
    by (induction gs arbitrary: m) (simp_all add: add_group_sums)
qed

lemma sum_of_log_groups:
  assumes "gs = map (\<lambda>k. (k, sum_by sl_amount (filter (\<lambda>l. log_key l = k) rows))) (js_set (map log_key rows))"
  shows "sum_by snd (filter (\<lambda>g. P (fst g)) gs) = sum_by sl_amount (filter (\<lambda>l. P (log_key l)) rows)"
proof -
  have "sum_by snd (filter (\<lambda>g. P (fst g)) gs) =
      sum_by (\<lambda>k. sum_by sl_amount (filter (\<lambda>l. log_key l = k) (filter (\<lambda>l. P (log_key l)) rows))) (filter P (js_set (map log_key rows)))"
    unfolding assms filter_map comp_def sum_by_map fst_conv snd_conv by (rule sum_by_cong) (auto intro!: arg_cong [of _ _ "sum_by sl_amount"] filter_cong)
  also have "\<dots> = sum_by sl_amount (filter (\<lambda>l. P (log_key l)) rows)"
    by (rule sum_by_member [where f = "\<lambda>k. k"]) auto
  finally show ?thesis .
qed

definition logged_on :: "id \<Rightarrow> instant \<Rightarrow> skills_db \<Rightarrow> bool" where
  "logged_on userId day db \<longleftrightarrow> (\<exists>l\<in>set (sd_logs db). sl_userId l = userId \<and> sl_date l = day)"

definition amounts_on :: "(skill_unit option \<Rightarrow> bool) \<Rightarrow> id \<Rightarrow> instant \<Rightarrow> skills_db \<Rightarrow> int" where
  "amounts_on P userId day db = sum_by sl_amount (filter (\<lambda>l. sl_userId l = userId \<and> sl_date l = day \<and>
     P (unit_of (filter (\<lambda>s. sk_userId s = userId) (sd_skills db)) (sl_skillId l))) (sd_logs db))"

lemma per_day_holds:
  assumes "n \<le> STREAK_LOOKBACK_DAYS"
  shows "per_day userId today db (days_ago today n) \<noteq> None \<longleftrightarrow> logged_on userId (days_ago today n) db"
    "minutes_on (per_day userId today db) (days_ago today n) = amounts_on (\<lambda>unit. unit = Some HOURS) userId (days_ago today n) db"
    "lessons_on (per_day userId today db) (days_ago today n) = amounts_on (\<lambda>unit. unit \<noteq> Some HOURS) userId (days_ago today n) db"
proof -
  define rows where "rows = filter (\<lambda>l. sl_userId l = userId \<and> today - int STREAK_LOOKBACK_DAYS * day_ms \<le> sl_date l) (sd_logs db)"
  define gs where "gs = map (\<lambda>k. (k, sum_by sl_amount (filter (\<lambda>l. log_key l = k) rows))) (js_set (map log_key rows))"
  define units where "units = unit_of (filter (\<lambda>s. sk_userId s = userId) (sd_skills db))"
  have g: "per_day userId today db = fold (add_group units) gs Map.empty"
    by (simp add: per_day_def log_groups_def rows_def gs_def units_def Let_def)
  have day: "days_ago today n \<ge> today - int STREAK_LOOKBACK_DAYS * day_ms"
    using assms by (auto simp: days_ago_def day_ms_def)
  have "(\<lambda>g. snd (fst g)) ` set gs = sl_date ` set rows" by (auto simp: gs_def image_image log_key_def image_iff)
  moreover have "days_ago today n \<in> sl_date ` set rows \<longleftrightarrow> logged_on userId (days_ago today n) db"
    using day unfolding rows_def logged_on_def by force
  ultimately show "per_day userId today db (days_ago today n) \<noteq> None \<longleftrightarrow> logged_on userId (days_ago today n) db"
    unfolding g add_groups(1) by simp
  have s: "sum_by snd (filter (\<lambda>g. snd (fst g) = days_ago today n \<and> P (units (fst (fst g)))) gs) = amounts_on P userId (days_ago today n) db" for P
  proof -
    have "sum_by snd (filter (\<lambda>g. snd (fst g) = days_ago today n \<and> P (units (fst (fst g)))) gs) =
        sum_by sl_amount (filter (\<lambda>l. snd (log_key l) = days_ago today n \<and> P (units (fst (log_key l)))) rows)"
      by (rule sum_of_log_groups [where P = "\<lambda>k. snd k = days_ago today n \<and> P (units (fst k))", OF gs_def])
    also have "filter (\<lambda>l. snd (log_key l) = days_ago today n \<and> P (units (fst (log_key l)))) rows =
        filter (\<lambda>l. sl_userId l = userId \<and> sl_date l = days_ago today n \<and> P (units (sl_skillId l))) (sd_logs db)"
      unfolding rows_def filter_filter using day by (intro filter_cong) (auto simp: log_key_def)
    finally show ?thesis by (simp add: amounts_on_def units_def)
  qed
  show "minutes_on (per_day userId today db) (days_ago today n) = amounts_on (\<lambda>unit. unit = Some HOURS) userId (days_ago today n) db"
    unfolding g add_groups(2) using s [of "\<lambda>unit. unit = Some HOURS"] by (simp add: minutes_on_def no_activity_def)
  show "lessons_on (per_day userId today db) (days_ago today n) = amounts_on (\<lambda>unit. unit \<noteq> Some HOURS) userId (days_ago today n) db"
    unfolding g add_groups(3) using s [of "\<lambda>unit. unit \<noteq> Some HOURS"] by (simp add: lessons_on_def no_activity_def)
qed

definition active_days :: "id \<Rightarrow> instant \<Rightarrow> skills_db \<Rightarrow> nat \<Rightarrow> bool" where
  "active_days userId now db n \<longleftrightarrow> n \<le> 400 \<and> logged_on userId (days_ago (dhakaDateOnly now) n) db"

text \<open>
  The streak is the longest run of days with activity that ends today, or yesterday when today
  has none yet, looked for 400 days back; the week lists the last seven days, each with the minutes
  and lessons logged on it.
\<close>

theorem streak_and_week_count_the_log:
  "let ov = skills_overview_of now userId db gs; active = active_days userId now db; first = (if active 0 then 0 else 1) in
    (\<forall>n < so_streak ov. active (first + n)) \<and> \<not> active (first + so_streak ov) \<and>
    map wd_date (so_week ov) = map (days_ago (dhakaDateOnly now)) [6, 5, 4, 3, 2, 1, 0] \<and>
    (\<forall>w\<in>set (so_week ov). dt_minutes (wd_total w) = amounts_on (\<lambda>unit. unit = Some HOURS) userId (wd_date w) db \<and>
      dt_lessons (wd_total w) = amounts_on (\<lambda>unit. unit \<noteq> Some HOURS) userId (wd_date w) db)"
proof -
  define active where "active = active_days userId now db"
  define today where "today = dhakaDateOnly now"
  define found where "found n = (per_day userId today db (days_ago today n) \<noteq> None)" for n
  define ov where "ov = skills_overview_of now userId db gs"
  define first :: nat where "first = (if active 0 then 0 else 1)"
  have f: "n \<le> 400 \<Longrightarrow> found n = active n" for n
    using per_day_holds(1) [of n userId today db] by (simp add: found_def active_def active_days_def today_def STREAK_LOOKBACK_DAYS_def)
  have week: "so_week ov = map (\<lambda>n. \<lparr>wd_date = days_ago today n, wd_total = orelse (per_day userId today db (days_ago today n)) no_activity\<rparr>) (rev [0..<7])"
    by (simp add: ov_def skills_overview_of_def Let_def today_def)
  have streak: "streak_from found first = so_streak ov"
    using f [of 0] by (simp add: ov_def skills_overview_of_def Let_def today_def found_def [abs_def] first_def)
  have le: "active n \<Longrightarrow> n \<le> 400" for n by (simp add: active_def active_days_def)
  have run: "active (first + n)" if "n < so_streak ov" for n
    using streak_from_spec [OF streak] that f [of "first + n"] by (force simp: STREAK_LOOKBACK_DAYS_def)
  have stop: "\<not> active (first + so_streak ov)"
    using streak_from_spec [OF streak] le [of "first + so_streak ov"] f [of "first + so_streak ov"] by (auto simp: STREAK_LOOKBACK_DAYS_def)
  have dates: "map wd_date (so_week ov) = map (days_ago today) [6, 5, 4, 3, 2, 1, 0]"
    by (simp add: week upt_rec eval_nat_numeral)
  have "dt_minutes (wd_total w) = amounts_on (\<lambda>unit. unit = Some HOURS) userId (wd_date w) db \<and>
      dt_lessons (wd_total w) = amounts_on (\<lambda>unit. unit \<noteq> Some HOURS) userId (wd_date w) db" if "w \<in> set (so_week ov)" for w
  proof -
    from that obtain n where n: "n < 7" "w = \<lparr>wd_date = days_ago today n, wd_total = orelse (per_day userId today db (days_ago today n)) no_activity\<rparr>"
      unfolding week by auto
    then show ?thesis using per_day_holds(2,3) [of n userId today db] by (simp add: minutes_on_def lessons_on_def STREAK_LOOKBACK_DAYS_def)
  qed
  with run stop dates show ?thesis unfolding Let_def ov_def [symmetric] active_def [symmetric] first_def [symmetric] today_def by simp
qed

section \<open>A worked example\<close>

definition sample_skill :: skill_row where
  "sample_skill = \<lparr>sk_id = ''s'', sk_userId = ''u'', sk_name = ''Esraj'', sk_source = [], sk_unit = HOURS, sk_target = 600, sk_progress = 90,
     sk_loggedProgress = 90, sk_status = LEARNING, sk_color = ''violet'', sk_icon = ''music'', sk_startedAt = Some 1, sk_completedAt = None,
     sk_createdAt = 1, sk_updatedAt = 1\<rparr>"

definition sample_skills :: skills_db where
  "sample_skills = \<lparr>sd_skills = [sample_skill],
     sd_logs = [\<lparr>sl_id = ''l'', sl_skillId = ''s'', sl_userId = ''u'', sl_date = dhakaDateOnly 2, sl_amount = 30\<rparr>]\<rparr>"

lemma sample_skills_ok: "skills_ok sample_skills"
  by (simp add: skills_ok_def sample_skills_def sample_skill_def skill_ok_def on_shelf_def skill_item_def SKILL_SHELVES_def kept_by_def
      MAX_SKILLS_def logs_ok_def)

lemmas skill_edit_defs = skill_attempt_def requireSkill_def skill_update_def skill_unedited_def skill_change_def skill_item_def checkTarget_def
  MAX_LESSONS_def MAX_MINUTES_def settleShelf_def settled_progress_def guarded_update_def update_many_def SKILL_SHELVES_def SKILL_MESSAGES_def
  sample_skill_def sample_skills_def Let_def

definition completed_skills :: skills_db where
  "completed_skills = (case skill_attempt plain_unicode ''m'' ''u'' ''s'' (skill_unedited\<lparr>uk_status := Some COMPLETED\<rparr>) sample_skills sample_skills 2 of
     Inr (d, _) \<Rightarrow> d | Inl _ \<Rightarrow> sample_skills)"

lemma complete_run:
  "\<exists>v. skill_attempt plain_unicode ''m'' ''u'' ''s'' (skill_unedited\<lparr>uk_status := Some COMPLETED\<rparr>) sample_skills sample_skills 2 = Inr (completed_skills, v)"
  by (simp add: completed_skills_def skill_edit_defs)

lemma undo_run:
  "\<exists>d w. skill_attempt plain_unicode ''n'' ''u'' ''s'' (skill_unedited\<lparr>uk_progress := Some (sk_progress sample_skill)\<rparr>) completed_skills completed_skills 3
     = Inr (d, w)"
  by (simp add: completed_skills_def skill_edit_defs)

theorem undone_complete_logs_nothing_witness:
  "\<exists>d w. skill_attempt plain_unicode ''n'' ''u'' ''s'' (skill_unedited\<lparr>uk_progress := Some 90\<rparr>) completed_skills completed_skills 3 = Inr (d, w) \<and>
    sd_logs d = sd_logs sample_skills \<and> sk_progress w = 90"
proof -
  obtain v where v: "skill_attempt plain_unicode ''m'' ''u'' ''s'' (skill_unedited\<lparr>uk_status := Some COMPLETED\<rparr>) sample_skills sample_skills 2 =
      Inr (completed_skills, v)" using complete_run by blast
  obtain d w where w: "skill_attempt plain_unicode ''n'' ''u'' ''s'' (skill_unedited\<lparr>uk_progress := Some (sk_progress sample_skill)\<rparr>)
      completed_skills completed_skills 3 = Inr (d, w)" using undo_run by blast
  have "sd_logs d = sd_logs sample_skills \<and> sk_progress w = sk_progress sample_skill"
    using undone_complete_logs_nothing [OF sample_skills_ok _ _ _ _ v w] by (simp add: sample_skills_def sample_skill_def)
  moreover have "sk_progress sample_skill = 90" by (simp add: sample_skill_def)
  ultimately show ?thesis using w by auto
qed

theorem skills_run_sound_witness: "distinct (map (\<lambda>l. (sl_skillId l, sl_date l)) (sd_logs completed_skills))"
proof -
  obtain v where v: "skill_attempt plain_unicode ''m'' ''u'' ''s'' (skill_unedited\<lparr>uk_status := Some COMPLETED\<rparr>) sample_skills sample_skills 2 =
      Inr (completed_skills, v)" using complete_run by blast
  have "skills_step (1, sample_skills) (2, completed_skills)"
    by (rule skill_edited [OF v]) (simp_all add: update_skill_dto_ok_def skill_unedited_def)
  from skills_run_sound [OF r_into_rtranclp [of skills_step, OF this] sample_skills_ok] show ?thesis by blast
qed

theorem streak_and_week_count_the_log_witness:
  "length (so_week (skills_overview_of 2 ''u'' sample_skills [])) = 7 \<and> so_streak (skills_overview_of 2 ''u'' sample_skills []) \<noteq> 0"
proof -
  let ?ov = "skills_overview_of 2 ''u'' sample_skills []"
  have "active_days ''u'' 2 sample_skills 0"
    by (simp add: active_days_def logged_on_def sample_skills_def days_ago_def)
  with streak_and_week_count_the_log [of 2 "''u''" sample_skills "[]"]
  have stop: "\<not> active_days ''u'' 2 sample_skills (so_streak ?ov)" and dates: "map wd_date (so_week ?ov) = map (days_ago (dhakaDateOnly 2)) [6, 5, 4, 3, 2, 1, 0]"
    by (simp_all add: Let_def)
  have "so_streak ?ov \<noteq> 0" using stop \<open>active_days ''u'' 2 sample_skills 0\<close> by (intro notI) simp
  moreover have "length (so_week ?ov) = 7" using arg_cong [OF dates, of length] by simp
  ultimately show ?thesis by blast
qed

end
