(* ===== verification/Billing.thy ===== *)
theory Billing
  imports Shelf Decimals
begin

text \<open>
  The platform's billing (src/payments, src/invoices): the payments of subscribers, their invoices
  and refunds, as the administrators see and change them. The tables of the subscription plans and
  coupons, whose services are modelled in Plans and Coupons, stand here with the audit log every
  change writes to. A request reads first and writes in a transaction of its own; where the code
  guards the write, the two states are separate arguments.
\<close>

section \<open>Rows\<close>

datatype billing_cycle = FREE | MONTHLY | YEARLY
datatype discount_type = PERCENTAGE | FIXED_AMOUNT
datatype payment_gateway = BKASH | NAGAD | SSLCOMMERZ | CARD | MANUAL
datatype refund_status = PENDING | COMPLETED | REJECTED
datatype payment_status = PENDING | SUCCESS | FAILED | REFUNDED
datatype user_status = ACTIVE | SUSPENDED | DELETED

record feature_limits =
  fl_maxWorkspaces :: int
  fl_maxBusinessWorkspaces :: int
  fl_maxTransactionsPerMonth :: int
  fl_advancedReports :: bool
  fl_pdfExport :: bool
  fl_multiUser :: bool
  fl_incomeGoalTracking :: bool

record plan_row =
  pl_id :: id
  pl_name :: string
  pl_slug :: string
  pl_billingCycle :: billing_cycle
  pl_price :: money
  pl_currency :: string
  pl_trialDays :: int
  pl_isActive :: bool
  pl_featureLimits :: feature_limits
  pl_displayOrder :: int

record platform_user =
  pu_id :: id
  pu_name :: string
  pu_email :: string

record coupon_row =
  co_id :: id
  co_code :: string
  co_discountType :: discount_type
  co_discountValue :: money
  co_maxRedemptions :: "int option"
  co_timesRedeemed :: int
  co_validFrom :: instant
  co_validUntil :: instant
  co_applicablePlans :: "id list"
  co_isActive :: bool
  co_createdAt :: instant

record redemption_row =
  cr_id :: id
  cr_couponId :: id
  cr_platformUserId :: id
  cr_planId :: id
  cr_redeemedAt :: instant

record payment_row =
  pa_id :: id
  pa_platformUserId :: id
  pa_planId :: id
  pa_amount :: money
  pa_currency :: string
  pa_discountApplied :: "money option"
  pa_couponId :: "id option"
  pa_gateway :: payment_gateway
  pa_gatewayReferenceId :: "string option"
  pa_status :: payment_status
  pa_failureReason :: "string option"
  pa_paidAt :: "instant option"
  pa_createdAt :: instant

record billing_invoice =
  iv_id :: id
  iv_paymentId :: id
  iv_invoiceNumber :: string
  iv_issuedTo :: string
  iv_lineItems :: "(string \<times> money) list"
  iv_totalAmount :: money
  iv_createdAt :: instant

record refund_row =
  rn_id :: id
  rn_paymentId :: id
  rn_amount :: money
  rn_reason :: string
  rn_processedBy :: id
  rn_status :: refund_status
  rn_createdAt :: instant

text \<open>A workspace, as far as its plan goes: \<open>wp_ownerStatus\<close> is the status of the user who owns it.\<close>

record plan_workspace =
  wp_id :: id
  wp_planId :: "id option"
  wp_isDefault :: bool
  wp_deletedAt :: "instant option"
  wp_ownerStatus :: user_status
  wp_trialEndsAt :: "instant option"

datatype audit_value =
    StatusValue payment_status
  | RefundValue payment_status rat string
  | NewCouponValue string discount_type money
  | CouponValue string bool
  | CodeValue string
  | PlanValue plan_row
  | ActiveValue bool
  | PlanIdValue "id option"

record audit_row =
  au_adminUserId :: id
  au_action :: string
  au_entityType :: string
  au_entityId :: id
  au_oldValue :: "audit_value option"
  au_newValue :: "audit_value option"
  au_ipAddress :: "string option"
  au_createdAt :: instant

record billing_db =
  bl_plans :: "plan_row list"
  bl_workspaces :: "plan_workspace list"
  bl_users :: "platform_user list"
  bl_coupons :: "coupon_row list"
  bl_redemptions :: "redemption_row list"
  bl_payments :: "payment_row list"
  bl_invoices :: "billing_invoice list"
  bl_refunds :: "refund_row list"
  bl_audit :: "audit_row list"

text \<open>Who asks, from where and when: the last arguments of every change an administrator makes.\<close>

record admin_request =
  ad_adminId :: id
  ad_ipAddress :: "string option"
  ad_now :: instant

definition audit ::
    "admin_request \<Rightarrow> string \<Rightarrow> string \<Rightarrow> id \<Rightarrow> audit_value option \<Rightarrow> audit_value option \<Rightarrow> billing_db \<Rightarrow> billing_db" where
  "audit rq action entityType entityId oldValue newValue d =
     d\<lparr>bl_audit := bl_audit d @ [\<lparr>au_adminUserId = ad_adminId rq, au_action = action, au_entityType = entityType, au_entityId = entityId,
       au_oldValue = oldValue, au_newValue = newValue, au_ipAddress = ad_ipAddress rq, au_createdAt = ad_now rq\<rparr>]\<rparr>"

definition fits_price :: "money \<Rightarrow> bool" where
  "fits_price m \<longleftrightarrow> \<bar>m\<bar> < 10 ^ 10"

definition store_price :: "rat \<Rightarrow> money result" where
  "store_price r = (if fits_price (fixed2 r) then Inr (fixed2 r) else Inl (DbError ''P2020''))"

section \<open>Payments an administrator acts on\<close>

record refund_dto =
  fd_amount :: rat
  fd_reason :: string

record simulate_dto =
  sp_platformUserId :: id
  sp_planId :: id

definition requirePayment :: "id \<Rightarrow> billing_db \<Rightarrow> payment_row result" where
  "requirePayment i d = (case find_row pa_id i (bl_payments d) of None \<Rightarrow> Inl (NotFound ''Payment not found'') | Some p \<Rightarrow> Inr p)"

definition retry :: "id \<Rightarrow> admin_request \<Rightarrow> billing_db \<Rightarrow> billing_db \<Rightarrow> (billing_db \<times> payment_row) result" where
  "retry i rq seen there =
     rbind (requirePayment i seen) (\<lambda>payment.
     rbind (check (pa_status payment = FAILED) (BadRequest ''Only failed payments can be retried'')) (\<lambda>_.
     rbind (update_row pa_id i (\<lambda>p. p\<lparr>pa_status := payment_status.PENDING\<rparr>) (bl_payments there)) (\<lambda>t.
     rbind (requirePayment i (there\<lparr>bl_payments := t\<rparr>)) (\<lambda>result.
     Inr (audit rq ''PAYMENT_RETRY_TRIGGERED'' ''Payment'' i (Some (StatusValue (pa_status payment)))
       (Some (StatusValue payment_status.PENDING)) (there\<lparr>bl_payments := t\<rparr>), result)))))"

definition claimable :: "id \<Rightarrow> payment_row \<Rightarrow> bool" where
  "claimable i p \<longleftrightarrow> pa_id p = i \<and> pa_status p = SUCCESS"

definition refund ::
    "id \<Rightarrow> id \<Rightarrow> refund_dto \<Rightarrow> admin_request \<Rightarrow> billing_db \<Rightarrow> billing_db \<Rightarrow> (billing_db \<times> payment_row \<times> refund_row) result" where
  "refund newId i dto rq seen there =
     rbind (requirePayment i seen) (\<lambda>payment.
     rbind (check (pa_status payment = SUCCESS) (BadRequest ''Only successful payments can be refunded'')) (\<lambda>_.
     rbind (check (\<not> dec (pa_amount payment) < fd_amount dto) (BadRequest ''Refund amount cannot exceed the original payment amount'')) (\<lambda>_.
     rbind (check (\<exists>p\<in>set (bl_payments there). claimable i p) (Conflict ''This payment has already been refunded'')) (\<lambda>_.
     let t = update_many (claimable i) (\<lambda>p. p\<lparr>pa_status := REFUNDED\<rparr>) (bl_payments there) in
     rbind (store_price (fd_amount dto)) (\<lambda>amt.
     rbind (check (i \<notin> rn_paymentId ` set (bl_refunds there)) (DbError ''P2002'')) (\<lambda>_.
     let row = \<lparr>rn_id = newId, rn_paymentId = i, rn_amount = amt, rn_reason = fd_reason dto, rn_processedBy = ad_adminId rq,
                rn_status = refund_status.COMPLETED, rn_createdAt = ad_now rq\<rparr> in
     rbind (insert_row rn_id row (bl_refunds there)) (\<lambda>rs.
     rbind (requirePayment i (there\<lparr>bl_payments := t\<rparr>)) (\<lambda>updatedPayment.
     Inr (audit rq ''PAYMENT_REFUNDED'' ''Payment'' i (Some (StatusValue (pa_status payment)))
       (Some (RefundValue REFUNDED (fd_amount dto) (fd_reason dto))) (there\<lparr>bl_payments := t, bl_refunds := rs\<rparr>), updatedPayment, row)))))))))"

text \<open>The number of the next invoice of a year: one more than the invoices that carry its prefix.\<close>

definition starts_with :: "string \<Rightarrow> string \<Rightarrow> bool" where
  "starts_with p s \<longleftrightarrow> take (length p) s = p"

definition invoice_prefix :: "int \<Rightarrow> string" where
  "invoice_prefix year = ''INV-'' @ int_text year @ ''-''"

definition invoice_number :: "int \<Rightarrow> nat \<Rightarrow> string" where
  "invoice_number year k = invoice_prefix year @ pad 6 (nat_digits k)"

definition generateInvoiceNumber :: "int \<Rightarrow> billing_invoice list \<Rightarrow> string" where
  "generateInvoiceNumber year invoices =
     invoice_number year (length (filter (\<lambda>v. starts_with (invoice_prefix year) (iv_invoiceNumber v)) invoices) + 1)"

text \<open>The development route: \<open>year\<close> is the year on the server's clock.\<close>

definition simulatePayment ::
    "bool \<Rightarrow> id_source \<Rightarrow> instant \<Rightarrow> int \<Rightarrow> simulate_dto \<Rightarrow> billing_db \<Rightarrow> (billing_db \<times> payment_row \<times> billing_invoice) result" where
  "simulatePayment production gen now year dto d =
     rbind (check (\<not> production) (Forbidden ''Not available in production'')) (\<lambda>_.
     case find_row pu_id (sp_platformUserId dto) (bl_users d) of
       None \<Rightarrow> Inl (NotFound ''Platform user not found'')
     | Some user \<Rightarrow>
         (case find_row pl_id (sp_planId dto) (bl_plans d) of
            None \<Rightarrow> Inl (NotFound ''Plan not found'')
          | Some plan \<Rightarrow>
              let payment = \<lparr>pa_id = gen 0, pa_platformUserId = pu_id user, pa_planId = pl_id plan, pa_amount = pl_price plan,
                    pa_currency = pl_currency plan, pa_discountApplied = None, pa_couponId = None, pa_gateway = MANUAL,
                    pa_gatewayReferenceId = Some (''SIM-'' @ int_text now), pa_status = SUCCESS, pa_failureReason = None,
                    pa_paidAt = Some now, pa_createdAt = now\<rparr>;
                  invoice = \<lparr>iv_id = gen 1, iv_paymentId = gen 0, iv_invoiceNumber = generateInvoiceNumber year (bl_invoices d),
                    iv_issuedTo = pu_name user @ '' <'' @ pu_email user @ ''>'',
                    iv_lineItems = [(pl_name plan @ '' subscription'', pl_price plan)], iv_totalAmount = pl_price plan, iv_createdAt = now\<rparr> in
              rbind (insert_row pa_id payment (bl_payments d)) (\<lambda>ps.
              rbind (check (iv_paymentId invoice \<notin> iv_paymentId ` set (bl_invoices d)) (DbError ''P2002'')) (\<lambda>_.
              rbind (check (iv_invoiceNumber invoice \<notin> iv_invoiceNumber ` set (bl_invoices d)) (DbError ''P2002'')) (\<lambda>_.
              rbind (insert_row iv_id invoice (bl_invoices d)) (\<lambda>is.
              Inr (d\<lparr>bl_payments := ps, bl_invoices := is\<rparr>, payment, invoice)))))))"

section \<open>Double charges\<close>

definition DUPLICATE_WINDOW_MS :: int where
  "DUPLICATE_WINDOW_MS = 10 * 60 * 1000"

definition took_money :: "payment_row \<Rightarrow> bool" where
  "took_money p \<longleftrightarrow> pa_status p = SUCCESS \<or> pa_status p = REFUNDED"

text \<open>The loop body over the candidates: skipped by a \<open>continue\<close>, or the earliest so far.\<close>

definition pick_earlier :: "payment_row \<Rightarrow> payment_row \<Rightarrow> payment_row option \<Rightarrow> payment_row option" where
  "pick_earlier payment other earlier =
     (if pa_id other = pa_id payment \<or> pa_platformUserId other \<noteq> pa_platformUserId payment \<or> pa_planId other \<noteq> pa_planId payment then earlier
      else if \<not> took_money other then earlier
      else (let gap = pa_createdAt payment - pa_createdAt other in
        if gap \<le> 0 \<or> DUPLICATE_WINDOW_MS < gap then earlier
        else (case earlier of None \<Rightarrow> Some other
              | Some e \<Rightarrow> if pa_createdAt other < pa_createdAt e then Some other else earlier)))"

definition duplicateOf :: "payment_row \<Rightarrow> payment_row list \<Rightarrow> id option" where
  "duplicateOf payment candidates =
     (if \<not> took_money payment then None
      else map_option pa_id (fold (pick_earlier payment) candidates None))"

record payment_view =
  pv_payment :: payment_row
  pv_platformUser :: "platform_user option"
  pv_couponCode :: "string option"
  pv_duplicateOfId :: "id option"

definition attachExtras :: "billing_db \<Rightarrow> payment_row list \<Rightarrow> payment_view list" where
  "attachExtras d payments =
     (if payments = [] then []
      else
        (let userIds = js_set (map pa_platformUserId payments);
             couponIds = js_set (concat (map (\<lambda>p. case pa_couponId p of None \<Rightarrow> [] | Some c \<Rightarrow> if c = [] then [] else [c]) payments));
             earliest = Min (pa_createdAt ` set payments) - DUPLICATE_WINDOW_MS;
             latest = Max (pa_createdAt ` set payments);
             users = filter (\<lambda>u. pu_id u \<in> set userIds) (bl_users d);
             coupons = filter (\<lambda>c. co_id c \<in> set couponIds) (bl_coupons d);
             neighbours = filter (\<lambda>p. pa_platformUserId p \<in> set userIds \<and> earliest \<le> pa_createdAt p \<and> pa_createdAt p \<le> latest) (bl_payments d)
         in map (\<lambda>p. \<lparr>pv_payment = p, pv_platformUser = find_row pu_id (pa_platformUserId p) users,
              pv_couponCode = (if truthy (pa_couponId p) then map_option co_code (find_row co_id (the (pa_couponId p)) coupons) else None),
              pv_duplicateOfId = duplicateOf p neighbours\<rparr>) payments))"

section \<open>The lists\<close>

text \<open>
  The case-insensitive match of the database, the white space \<open>trim\<close> takes off and
  \<open>toLowerCase\<close> are arguments.
\<close>

record matching =
  ma_contains :: "string \<Rightarrow> string \<Rightarrow> bool"
  ma_space :: "char \<Rightarrow> bool"
  ma_lower :: "string \<Rightarrow> string"

record payments_query =
  pq_status :: "payment_status option"
  pq_gateway :: "payment_gateway option"
  pq_planId :: "id option"
  pq_dateFrom :: "instant option"
  pq_dateTo :: "instant option"
  pq_search :: "string option"
  pq_page :: "nat option"
  pq_limit :: "nat option"

definition payment_matches :: "matching \<Rightarrow> billing_db \<Rightarrow> string \<Rightarrow> payment_row \<Rightarrow> bool" where
  "payment_matches ma d txt p \<longleftrightarrow>
     (let search = trim_text (ma_space ma) txt in
      (\<exists>u\<in>set (bl_users d). (ma_contains ma search (pu_name u) \<or> ma_contains ma search (pu_email u)) \<and> pu_id u = pa_platformUserId p) \<or>
      (\<exists>v\<in>set (bl_invoices d). iv_paymentId v = pa_id p \<and> ma_contains ma search (iv_invoiceNumber v)) \<or>
      (case pa_gatewayReferenceId p of None \<Rightarrow> False | Some r \<Rightarrow> ma_contains ma search r) \<or>
      starts_with (ma_lower ma search) (pa_id p))"

definition payment_where :: "matching \<Rightarrow> billing_db \<Rightarrow> payments_query \<Rightarrow> payment_status option \<Rightarrow> payment_row \<Rightarrow> bool" where
  "payment_where ma d q forcedStatus p \<longleftrightarrow>
     (case forcedStatus of Some s \<Rightarrow> pa_status p = s | None \<Rightarrow> (case pq_status q of Some s \<Rightarrow> pa_status p = s | None \<Rightarrow> True)) \<and>
     (case pq_gateway q of Some g \<Rightarrow> pa_gateway p = g | None \<Rightarrow> True) \<and>
     (truthy (pq_planId q) \<longrightarrow> Some (pa_planId p) = pq_planId q) \<and>
     (case pq_dateFrom q of Some t \<Rightarrow> t \<le> pa_createdAt p | None \<Rightarrow> True) \<and>
     (case pq_dateTo q of Some t \<Rightarrow> pa_createdAt p \<le> t | None \<Rightarrow> True) \<and>
     (truthy (pq_search q) \<longrightarrow> payment_matches ma d (the (pq_search q)) p)"

record 'a page_of =
  pg_data :: "'a list"
  pg_page :: nat
  pg_limit :: nat
  pg_total :: nat
  pg_totalPage :: nat

definition list_payments :: "matching \<Rightarrow> payments_query \<Rightarrow> payment_status option \<Rightarrow> billing_db \<Rightarrow> payment_view page_of" where
  "list_payments ma q forcedStatus d =
     (let page = orelse (pq_page q) 1; limit = orelse (pq_limit q) 10;
          payments = take limit (drop ((page - 1) * limit) (find_many (payment_where ma d q forcedStatus) (\<lambda>p. - pa_createdAt p) (bl_payments d)));
          total = length (filter (payment_where ma d q forcedStatus) (bl_payments d))
      in \<lparr>pg_data = attachExtras d payments, pg_page = page, pg_limit = limit, pg_total = total,
          pg_totalPage = (total + limit - 1) div limit\<rparr>)"

definition failed_payments :: "matching \<Rightarrow> payments_query \<Rightarrow> billing_db \<Rightarrow> payment_view page_of" where
  "failed_payments ma q d = list_payments ma q (Some FAILED) d"

record payment_detail =
  pd_view :: payment_view
  pd_plan :: "plan_row option"
  pd_invoice :: "billing_invoice option"
  pd_refund :: "refund_row option"
  pd_otherPayments :: "payment_row list"

definition refund_of :: "billing_db \<Rightarrow> payment_row \<Rightarrow> refund_row option" where
  "refund_of d p = find_row rn_paymentId (pa_id p) (bl_refunds d)"

definition getPaymentById :: "id \<Rightarrow> billing_db \<Rightarrow> payment_detail result" where
  "getPaymentById i d =
     (case find_row pa_id i (bl_payments d) of
        None \<Rightarrow> Inl (NotFound ''Payment not found'')
      | Some payment \<Rightarrow>
          Inr \<lparr>pd_view = hd (attachExtras d [payment]), pd_plan = find_row pl_id (pa_planId payment) (bl_plans d),
            pd_invoice = find_row iv_paymentId i (bl_invoices d), pd_refund = refund_of d payment,
            pd_otherPayments = take 5 (find_many (\<lambda>p. pa_platformUserId p = pa_platformUserId payment \<and> pa_id p \<noteq> i)
              (\<lambda>p. - pa_createdAt p) (bl_payments d))\<rparr>)"

record invoices_query =
  iq_dateFrom :: "instant option"
  iq_dateTo :: "instant option"
  iq_platformUserId :: "id option"
  iq_page :: "nat option"
  iq_limit :: "nat option"

definition invoice_where :: "billing_db \<Rightarrow> invoices_query \<Rightarrow> billing_invoice \<Rightarrow> bool" where
  "invoice_where d q v \<longleftrightarrow>
     (case iq_dateFrom q of Some t \<Rightarrow> t \<le> iv_createdAt v | None \<Rightarrow> True) \<and>
     (case iq_dateTo q of Some t \<Rightarrow> iv_createdAt v \<le> t | None \<Rightarrow> True) \<and>
     (truthy (iq_platformUserId q) \<longrightarrow>
       (case find_row pa_id (iv_paymentId v) (bl_payments d) of None \<Rightarrow> False | Some p \<Rightarrow> Some (pa_platformUserId p) = iq_platformUserId q))"

definition list_invoices :: "invoices_query \<Rightarrow> billing_db \<Rightarrow> (billing_invoice \<times> payment_row option) page_of" where
  "list_invoices q d =
     (let page = orelse (iq_page q) 1; limit = orelse (iq_limit q) 10;
          data = take limit (drop ((page - 1) * limit) (find_many (invoice_where d q) (\<lambda>v. - iv_createdAt v) (bl_invoices d)));
          total = length (filter (invoice_where d q) (bl_invoices d))
      in \<lparr>pg_data = map (\<lambda>v. (v, find_row pa_id (iv_paymentId v) (bl_payments d))) data, pg_page = page, pg_limit = limit, pg_total = total,
          pg_totalPage = (total + limit - 1) div limit\<rparr>)"

definition getInvoiceById :: "id \<Rightarrow> billing_db \<Rightarrow> (billing_invoice \<times> payment_row option) result" where
  "getInvoiceById i d =
     (case find_row iv_id i (bl_invoices d) of
        None \<Rightarrow> Inl (NotFound ''Invoice not found'')
      | Some v \<Rightarrow> Inr (v, find_row pa_id (iv_paymentId v) (bl_payments d)))"

section \<open>The figures over the list\<close>

text \<open>What a payment brought in, net of what was given back.\<close>

definition net_of :: "billing_db \<Rightarrow> payment_row \<Rightarrow> money" where
  "net_of d p = pa_amount p - (case refund_of d p of None \<Rightarrow> 0 | Some r \<Rightarrow> if rn_status r = refund_status.COMPLETED then rn_amount r else 0)"

definition all_payment_statuses :: "payment_status list" where
  "all_payment_statuses = [payment_status.PENDING, SUCCESS, FAILED, REFUNDED]"

definition month_text :: "instant \<Rightarrow> string" where
  "month_text date = take 7 (dhakaDateKey date)"

record month_revenue =
  mn_month :: string
  mn_collected :: money
  mn_payments :: nat

record payment_stats =
  ps_lastMonth :: month_revenue
  ps_changePct :: "rat option"
  ps_thisMonth :: month_revenue
  ps_days :: int
  ps_failedLast7Days :: "nat \<times> money"
  ps_refundsLastMonth :: "nat \<times> money"
  ps_gatewaysLastMonth :: "(payment_gateway \<times> nat) list"
  ps_statusCounts :: "(payment_status \<times> nat) list"

text \<open>A tally in the order the values are met, as a \<open>Map\<close> keeps it.\<close>

fun tally_one :: "'k \<Rightarrow> ('k \<times> nat) list \<Rightarrow> ('k \<times> nat) list" where
  "tally_one k [] = [(k, 1)]"
| "tally_one k ((j, n) # ks) = (if j = k then (j, Suc n) # ks else (j, n) # tally_one k ks)"

definition percent_change :: "money \<Rightarrow> money \<Rightarrow> rat option" where
  "percent_change latest before =
     (if 0 < before then Some (of_int (math_round (dec (latest - before) / dec before * 1000)) / 10) else None)"

definition payments_stats :: "instant \<Rightarrow> billing_db \<Rightarrow> payment_stats" where
  "payments_stats now d =
     (case dhakaToday now of (year, month, day) \<Rightarrow>
      let thisMonthStart = dhakaMonthStart year month;
          lastMonthStart = dhakaMonthStart year (month - 1);
          monthBeforeStart = dhakaMonthStart year (month - 2);
          weekAgo = now - 7 * day_ms;
          kept = filter (\<lambda>p. took_money p \<and> monthBeforeStart \<le> pa_createdAt p) (bl_payments d);
          failed = filter (\<lambda>p. pa_status p = FAILED \<and> weekAgo \<le> pa_createdAt p) (bl_payments d);
          refunds = filter (\<lambda>r. rn_status r = refund_status.COMPLETED \<and> lastMonthStart \<le> rn_createdAt r \<and> rn_createdAt r < thisMonthStart) (bl_refunds d);
          lastMonth = filter (\<lambda>p. lastMonthStart \<le> pa_createdAt p \<and> pa_createdAt p < thisMonthStart) kept;
          monthBefore = filter (\<lambda>p. monthBeforeStart \<le> pa_createdAt p \<and> pa_createdAt p < lastMonthStart) kept;
          thisMonth = filter (\<lambda>p. thisMonthStart \<le> pa_createdAt p) kept
      in \<lparr>ps_lastMonth = \<lparr>mn_month = month_text lastMonthStart, mn_collected = sum_by (net_of d) lastMonth, mn_payments = length lastMonth\<rparr>,
          ps_changePct = percent_change (sum_by (net_of d) lastMonth) (sum_by (net_of d) monthBefore),
          ps_thisMonth = \<lparr>mn_month = month_text thisMonthStart, mn_collected = sum_by (net_of d) thisMonth, mn_payments = length thisMonth\<rparr>,
          ps_days = day,
          ps_failedLast7Days = (length failed, sum_by pa_amount failed),
          ps_refundsLastMonth = (length refunds, sum_by rn_amount refunds),
          ps_gatewaysLastMonth = sort_key (\<lambda>g. - int (snd g)) (fold (\<lambda>p. tally_one (pa_gateway p)) lastMonth []),
          ps_statusCounts = map (\<lambda>s. (s, length (filter (\<lambda>p. pa_status p = s) (bl_payments d)))) all_payment_statuses\<rparr>)"

end
