(* ===== verification/Coupons.thy ===== *)
theory Coupons
  imports Billing
begin

text \<open>
  Coupons (src/coupons/coupons.service.ts, coupon-status.ts): what a coupon is doing now, the figures
  over the list, and its life: created, edited, deleted while nobody has used it.
\<close>

section \<open>What a coupon is doing\<close>

datatype coupon_status = ACTIVE | SCHEDULED | EXPIRED | USED_UP | DISABLED

definition computeCouponStatus :: "coupon_row \<Rightarrow> instant \<Rightarrow> coupon_status" where
  "computeCouponStatus coupon now =
     (if \<not> co_isActive coupon then DISABLED
      else if now < co_validFrom coupon then SCHEDULED
      else if co_validUntil coupon < now then EXPIRED
      else if (case co_maxRedemptions coupon of None \<Rightarrow> False | Some n \<Rightarrow> n \<le> co_timesRedeemed coupon) then USED_UP
      else coupon_status.ACTIVE)"

definition list_coupons :: "instant \<Rightarrow> billing_db \<Rightarrow> (coupon_row \<times> coupon_status) list" where
  "list_coupons now d = map (\<lambda>c. (c, computeCouponStatus c now)) (find_many (\<lambda>c. True) (\<lambda>c. - co_createdAt c) (bl_coupons d))"

record coupon_stats =
  cs_activeCount :: nat
  cs_activeCodes :: "string list"
  cs_usedThisMonth :: nat
  cs_paymentsThisMonth :: nat
  cs_moneyOffThisMonth :: money
  cs_mostUsed :: "(string \<times> int) option"

definition most_used :: "coupon_row list \<Rightarrow> coupon_row option" where
  "most_used coupons =
     fold (\<lambda>coupon best. if (case best of None \<Rightarrow> 0 | Some b \<Rightarrow> co_timesRedeemed b) < co_timesRedeemed coupon then Some coupon else best) coupons None"

definition coupons_stats :: "instant \<Rightarrow> billing_db \<Rightarrow> coupon_stats" where
  "coupons_stats now d =
     (case dhakaToday now of (year, month, _) \<Rightarrow>
      let coupons = find_many (\<lambda>c. True) (\<lambda>c. - co_createdAt c) (bl_coupons d);
          payments = filter (\<lambda>p. pa_status p = SUCCESS \<and> dhakaMonthStart year month \<le> pa_createdAt p) (bl_payments d);
          active = filter (\<lambda>c. computeCouponStatus c now = coupon_status.ACTIVE) coupons;
          withCoupon = filter (\<lambda>p. pa_couponId p \<noteq> None) payments
      in \<lparr>cs_activeCount = length active, cs_activeCodes = map co_code active, cs_usedThisMonth = length withCoupon,
          cs_paymentsThisMonth = length payments, cs_moneyOffThisMonth = sum_by (\<lambda>p. orelse (pa_discountApplied p) 0) withCoupon,
          cs_mostUsed = map_option (\<lambda>c. (co_code c, co_timesRedeemed c)) (most_used coupons)\<rparr>)"

section \<open>The life of a coupon\<close>

record create_coupon_dto =
  cc_code :: string
  cc_discountType :: discount_type
  cc_discountValue :: rat
  cc_maxRedemptions :: "int option"
  cc_validFrom :: instant
  cc_validUntil :: instant
  cc_applicablePlans :: "id list option"

text \<open>\<open>maxRedemptions\<close> may be sent as \<open>null\<close>: it takes the limit off.\<close>

record update_coupon_dto =
  uc_code :: "string option"
  uc_discountType :: "discount_type option"
  uc_discountValue :: "rat option"
  uc_maxRedemptions :: "int option option"
  uc_validFrom :: "instant option"
  uc_validUntil :: "instant option"
  uc_applicablePlans :: "id list option"
  uc_isActive :: "bool option"

definition requireCoupon :: "id \<Rightarrow> billing_db \<Rightarrow> coupon_row result" where
  "requireCoupon i d = (case find_row co_id i (bl_coupons d) of None \<Rightarrow> Inl (NotFound ''Coupon not found'') | Some c \<Rightarrow> Inr c)"

definition create_coupon :: "id \<Rightarrow> create_coupon_dto \<Rightarrow> admin_request \<Rightarrow> billing_db \<Rightarrow> (billing_db \<times> coupon_row) result" where
  "create_coupon newId dto rq d =
     rbind (check (\<not> cc_validUntil dto \<le> cc_validFrom dto) (BadRequest ''validUntil must be after validFrom'')) (\<lambda>_.
     rbind (check (cc_code dto \<notin> co_code ` set (bl_coupons d)) (Conflict ''A coupon with this code already exists'')) (\<lambda>_.
     rbind (store_price (cc_discountValue dto)) (\<lambda>discountValue.
     let row = \<lparr>co_id = newId, co_code = cc_code dto, co_discountType = cc_discountType dto, co_discountValue = discountValue,
           co_maxRedemptions = cc_maxRedemptions dto, co_timesRedeemed = 0, co_validFrom = cc_validFrom dto, co_validUntil = cc_validUntil dto,
           co_applicablePlans = orelse (cc_applicablePlans dto) [], co_isActive = True, co_createdAt = ad_now rq\<rparr> in
     rbind (insert_row co_id row (bl_coupons d)) (\<lambda>t.
     Inr (audit rq ''COUPON_CREATED'' ''Coupon'' newId None (Some (NewCouponValue (co_code row) (co_discountType row) (co_discountValue row)))
       (d\<lparr>bl_coupons := t\<rparr>), row)))))"

definition edited_coupon :: "update_coupon_dto \<Rightarrow> money option \<Rightarrow> coupon_row \<Rightarrow> coupon_row" where
  "edited_coupon dto discountValue c =
     c\<lparr>co_code := orelse (uc_code dto) (co_code c), co_discountType := orelse (uc_discountType dto) (co_discountType c),
       co_discountValue := orelse discountValue (co_discountValue c), co_maxRedemptions := orelse (uc_maxRedemptions dto) (co_maxRedemptions c),
       co_validFrom := orelse (uc_validFrom dto) (co_validFrom c), co_validUntil := orelse (uc_validUntil dto) (co_validUntil c),
       co_applicablePlans := orelse (uc_applicablePlans dto) (co_applicablePlans c), co_isActive := orelse (uc_isActive dto) (co_isActive c)\<rparr>"

definition update_coupon :: "id \<Rightarrow> update_coupon_dto \<Rightarrow> admin_request \<Rightarrow> billing_db \<Rightarrow> (billing_db \<times> coupon_row) result" where
  "update_coupon i dto rq d =
     rbind (requireCoupon i d) (\<lambda>coupon.
     let validFrom = orelse (uc_validFrom dto) (co_validFrom coupon); validUntil = orelse (uc_validUntil dto) (co_validUntil coupon) in
     rbind (check (\<not> validUntil \<le> validFrom) (BadRequest ''validUntil must be after validFrom'')) (\<lambda>_.
     rbind (case uc_discountValue dto of None \<Rightarrow> Inr None | Some r \<Rightarrow> rbind (store_price r) (\<lambda>m. Inr (Some m))) (\<lambda>discountValue.
     rbind (check (case uc_code dto of None \<Rightarrow> True | Some code \<Rightarrow> \<forall>c\<in>set (bl_coupons d). co_code c = code \<longrightarrow> co_id c = i) (DbError ''P2002'')) (\<lambda>_.
     rbind (update_row co_id i (edited_coupon dto discountValue) (bl_coupons d)) (\<lambda>t.
     let result = edited_coupon dto discountValue coupon in
     Inr (audit rq ''COUPON_UPDATED'' ''Coupon'' i (Some (CouponValue (co_code coupon) (co_isActive coupon)))
       (Some (CouponValue (co_code result) (co_isActive result))) (d\<lparr>bl_coupons := t\<rparr>), result))))))"

text \<open>A coupon somebody used stays: the redemptions' foreign key would keep it as well.\<close>

definition remove_coupon :: "id \<Rightarrow> admin_request \<Rightarrow> billing_db \<Rightarrow> billing_db result" where
  "remove_coupon i rq d =
     rbind (requireCoupon i d) (\<lambda>coupon.
     rbind (check (\<not> 0 < co_timesRedeemed coupon)
       (BadRequest (''Cannot delete this coupon -- it has been redeemed '' @ int_text (co_timesRedeemed coupon) @ '' time(s). Disable it instead.''))) (\<lambda>_.
     rbind (check (i \<notin> cr_couponId ` set (bl_redemptions d)) (DbError ''P2003'')) (\<lambda>_.
     rbind (delete_row co_id i (bl_coupons d)) (\<lambda>t.
     Inr (audit rq ''COUPON_DELETED'' ''Coupon'' i (Some (CodeValue (co_code coupon))) None (d\<lparr>bl_coupons := t\<rparr>))))))"

record redemption_view =
  rw_redemption :: redemption_row
  rw_plan :: "plan_row option"
  rw_platformUser :: "platform_user option"

definition getRedemptions :: "id \<Rightarrow> billing_db \<Rightarrow> redemption_view list result" where
  "getRedemptions i d =
     rbind (requireCoupon i d) (\<lambda>_.
     let redemptions = find_many (\<lambda>r. cr_couponId r = i) (\<lambda>r. - cr_redeemedAt r) (bl_redemptions d);
         userIds = js_set (map cr_platformUserId redemptions);
         users = filter (\<lambda>u. pu_id u \<in> set userIds) (bl_users d)
     in Inr (map (\<lambda>r. \<lparr>rw_redemption = r, rw_plan = find_row pl_id (cr_planId r) (bl_plans d),
          rw_platformUser = find_row pu_id (cr_platformUserId r) users\<rparr>) redemptions))"

section \<open>Coupons stay usable and apart\<close>

definition coupons_ok :: "billing_db \<Rightarrow> bool" where
  "coupons_ok d \<longleftrightarrow> keyed co_id (bl_coupons d) \<and> keyed co_code (bl_coupons d) \<and> (\<forall>c\<in>set (bl_coupons d). co_validFrom c < co_validUntil c) \<and>
     (\<forall>r\<in>set (bl_redemptions d). cr_couponId r \<in> co_id ` set (bl_coupons d))"

inductive coupons_step :: "billing_db \<Rightarrow> billing_db \<Rightarrow> bool" where
  coupon_created: "create_coupon newId dto rq d = Inr (d', c) \<Longrightarrow> coupons_step d d'"
| coupon_updated: "update_coupon i udto rq d = Inr (d', c) \<Longrightarrow> coupons_step d d'"
| coupon_removed: "remove_coupon i rq d = Inr d' \<Longrightarrow> coupons_step d d'"

lemma audit_coupons: "bl_coupons (audit rq a t i ov nv d) = bl_coupons d" "bl_redemptions (audit rq a t i ov nv d) = bl_redemptions d"
  by (simp_all add: audit_def)

lemma create_coupon_ok:
  assumes "create_coupon newId dto rq d = Inr (d', c)" and "coupons_ok d"
  shows "coupons_ok d'"
  using assms unfolding create_coupon_def Let_def insert_row_def coupons_ok_def
  by (auto simp: rbind_eq_Inr check_eq_Inr audit_coupons split: if_splits)

lemma update_coupon_ok:
  assumes run: "update_coupon i dto rq d = Inr (d', c)" and ok: "coupons_ok d"
  shows "coupons_ok d'"
proof -
  from run obtain old dv where old: "find_row co_id i (bl_coupons d) = Some old"
    and dates: "orelse (uc_validFrom dto) (co_validFrom old) < orelse (uc_validUntil dto) (co_validUntil old)"
    and code: "case uc_code dto of None \<Rightarrow> True | Some code \<Rightarrow> \<forall>c\<in>set (bl_coupons d). co_code c = code \<longrightarrow> co_id c = i"
    and d': "bl_coupons d' = map_row co_id i (edited_coupon dto dv) (bl_coupons d)" "bl_redemptions d' = bl_redemptions d"
    unfolding update_coupon_def Let_def requireCoupon_def
    by (auto simp: rbind_eq_Inr check_eq_Inr audit_coupons update_row_def not_le split: option.splits if_splits)
  from find_row_Some [OF old] have mem: "old \<in> set (bl_coupons d)" "co_id old = i" by simp_all
  have same: "co_id (edited_coupon dto dv x) = co_id x" for x by (simp add: edited_coupon_def)
  have inj: "inj_on co_id (set (bl_coupons d))" using ok by (simp add: coupons_ok_def keyed_def distinct_map)
  have ids: "map co_id (bl_coupons d') = map co_id (bl_coupons d)" by (simp add: d' map_row_def same)
  have "co_validFrom x < co_validUntil x" if "x \<in> set (bl_coupons d')" for x
  proof -
    from that obtain y where y: "y \<in> set (bl_coupons d)" "x = (if co_id y = i then edited_coupon dto dv y else y)" by (auto simp: d' map_row_def)
    show ?thesis
    proof (cases "co_id y = i")
      case True
      with inj mem y(1) have "y = old" by (auto dest: inj_onD)
      with dates True y(2) show ?thesis by (simp add: edited_coupon_def)
    qed (use ok y in \<open>simp add: coupons_ok_def\<close>)
  qed
  moreover have "keyed co_code (bl_coupons d')"
  proof -
    have "distinct (map co_code (map (\<lambda>y. if co_id y = i then edited_coupon dto dv y else y) cs))"
      if "distinct (map co_code cs)" "set cs \<subseteq> set (bl_coupons d)" "distinct (map co_id cs)" for cs
      using that code by (induction cs) (auto simp: edited_coupon_def image_iff split: option.splits if_splits)
    then show ?thesis using ok by (auto simp: keyed_def d' map_row_def coupons_ok_def)
  qed
  moreover have "keyed co_id (bl_coupons d')" "co_id ` set (bl_coupons d') = co_id ` set (bl_coupons d)"
    using ids ok by (simp_all add: keyed_def coupons_ok_def flip: set_map)
  ultimately show ?thesis using ok by (simp add: coupons_ok_def d'(2))
qed

lemma remove_coupon_ok:
  assumes "remove_coupon i rq d = Inr d'" and "coupons_ok d"
  shows "coupons_ok d'"
proof -
  from assms(1) have d': "bl_coupons d' = filter (\<lambda>c. co_id c \<noteq> i) (bl_coupons d)" "bl_redemptions d' = bl_redemptions d"
    and free: "i \<notin> cr_couponId ` set (bl_redemptions d)"
    unfolding remove_coupon_def by (auto simp: rbind_eq_Inr check_eq_Inr audit_coupons delete_row_def split: if_splits)
  have "cr_couponId r \<in> co_id ` set (bl_coupons d')" if "r \<in> set (bl_redemptions d)" for r
  proof -
    from that assms(2) obtain c where "c \<in> set (bl_coupons d)" "co_id c = cr_couponId r" by (auto simp: coupons_ok_def)
    moreover have "cr_couponId r \<noteq> i" using that free by blast
    ultimately have "c \<in> set (bl_coupons d')" by (simp add: d')
    with \<open>co_id c = cr_couponId r\<close> show ?thesis by force
  qed
  with assms(2) show ?thesis by (simp add: coupons_ok_def d' keyed_filter)
qed

interpretation coupons: invariant_system coupons_step coupons_ok
proof
  fix d d' assume "coupons_step d d'" and "coupons_ok d"
  then show "coupons_ok d'"
    by (induction rule: coupons_step.induct) (simp_all add: create_coupon_ok update_coupon_ok remove_coupon_ok)
qed

text \<open>How far along a coupon is: not begun, in its time, over.\<close>

definition stage :: "coupon_status \<Rightarrow> nat" where
  "stage s = (case s of SCHEDULED \<Rightarrow> 0 | EXPIRED \<Rightarrow> 2 | _ \<Rightarrow> 1)"

text \<open>
  However coupons are created, edited and deleted, no two share a code, a coupon somebody used is
  still there, and every one has a time to be used in: it is scheduled before it, over after it, and
  as time passes it only moves forward.
\<close>

theorem coupons_run_sound:
  assumes "coupons_step\<^sup>*\<^sup>* d d'" and "coupons_ok d" and "c \<in> set (bl_coupons d')" and "co_isActive c"
  shows "(\<forall>x\<in>set (bl_coupons d'). co_code x = co_code c \<longrightarrow> x = c) \<and>
    (\<forall>r\<in>set (bl_redemptions d'). cr_couponId r \<in> co_id ` set (bl_coupons d')) \<and>
    (computeCouponStatus c t = SCHEDULED \<longleftrightarrow> t < co_validFrom c) \<and> (computeCouponStatus c t = EXPIRED \<longleftrightarrow> co_validUntil c < t) \<and>
    (t \<le> t' \<longrightarrow> stage (computeCouponStatus c t) \<le> stage (computeCouponStatus c t'))"
proof -
  from coupons.run_inv [OF assms(1,2)] have ok: "coupons_ok d'" .
  have window: "co_validFrom c < co_validUntil c" using ok assms(3) by (simp add: coupons_ok_def)
  have "x = c" if "x \<in> set (bl_coupons d')" "co_code x = co_code c" for x
    using ok that assms(3) by (auto simp: coupons_ok_def keyed_def distinct_map dest: inj_onD)
  moreover have "computeCouponStatus c t = SCHEDULED \<longleftrightarrow> t < co_validFrom c" "computeCouponStatus c t = EXPIRED \<longleftrightarrow> co_validUntil c < t" for t
    using assms(4) window by (auto simp: computeCouponStatus_def)
  moreover have "stage (computeCouponStatus c t) = (if t < co_validFrom c then 0 else if co_validUntil c < t then 2 else 1)" for t
    using assms(4) by (simp add: computeCouponStatus_def stage_def)
  ultimately show ?thesis using ok window by (auto simp: coupons_ok_def)
qed

text \<open>The coupon used most: none was used more, and it was used at all.\<close>

lemma most_used_spec:
  "case most_used cs of None \<Rightarrow> \<forall>c\<in>set cs. co_timesRedeemed c \<le> 0
   | Some b \<Rightarrow> b \<in> set cs \<and> 0 < co_timesRedeemed b \<and> (\<forall>c\<in>set cs. co_timesRedeemed c \<le> co_timesRedeemed b)"
proof (induction cs rule: rev_induct)
  case (snoc c cs)
  then show ?case by (cases "most_used cs") (auto simp: most_used_def)
qed (simp add: most_used_def)

section \<open>A worked example\<close>

definition sample_coupon :: coupon_row where
  "sample_coupon = \<lparr>co_id = ''c'', co_code = ''EID'', co_discountType = PERCENTAGE, co_discountValue = 1000, co_maxRedemptions = None,
     co_timesRedeemed = 0, co_validFrom = 10, co_validUntil = 20, co_applicablePlans = [], co_isActive = True, co_createdAt = 1\<rparr>"

definition sample_coupons :: billing_db where
  "sample_coupons = \<lparr>bl_plans = [], bl_workspaces = [], bl_users = [], bl_coupons = [sample_coupon], bl_redemptions = [], bl_payments = [],
     bl_invoices = [], bl_refunds = [], bl_audit = []\<rparr>"

definition no_coupon_edit :: update_coupon_dto where
  "no_coupon_edit = \<lparr>uc_code = None, uc_discountType = None, uc_discountValue = None, uc_maxRedemptions = None, uc_validFrom = None,
     uc_validUntil = None, uc_applicablePlans = None, uc_isActive = None\<rparr>"

lemma sample_coupon_edit:
  "\<exists>d c. update_coupon ''c'' (no_coupon_edit\<lparr>uc_validUntil := Some 30\<rparr>) \<lparr>ad_adminId = ''a'', ad_ipAddress = None, ad_now = 5\<rparr> sample_coupons = Inr (d, c) \<and>
    bl_coupons d = [sample_coupon\<lparr>co_validUntil := 30\<rparr>]"
  by (simp add: update_coupon_def requireCoupon_def update_row_def map_row_def edited_coupon_def audit_def no_coupon_edit_def sample_coupons_def
      sample_coupon_def Let_def)

theorem coupons_run_sound_witness:
  "\<exists>d. coupons_step\<^sup>*\<^sup>* sample_coupons d \<and> bl_coupons d = [sample_coupon\<lparr>co_validUntil := 30\<rparr>] \<and>
    computeCouponStatus (sample_coupon\<lparr>co_validUntil := 30\<rparr>) 31 = EXPIRED"
proof -
  from sample_coupon_edit obtain d c where
    u: "update_coupon ''c'' (no_coupon_edit\<lparr>uc_validUntil := Some 30\<rparr>) \<lparr>ad_adminId = ''a'', ad_ipAddress = None, ad_now = 5\<rparr> sample_coupons = Inr (d, c)"
    and cs: "bl_coupons d = [sample_coupon\<lparr>co_validUntil := 30\<rparr>]" by blast
  have steps: "coupons_step\<^sup>*\<^sup>* sample_coupons d" using coupon_updated [OF u] by (rule r_into_rtranclp)
  have ok: "coupons_ok sample_coupons" by (simp add: coupons_ok_def sample_coupons_def sample_coupon_def)
  have c: "sample_coupon\<lparr>co_validUntil := 30\<rparr> \<in> set (bl_coupons d)" "co_isActive (sample_coupon\<lparr>co_validUntil := 30\<rparr>)"
    by (simp_all add: cs sample_coupon_def)
  from coupons_run_sound [OF steps ok c, of 31 31] have "computeCouponStatus (sample_coupon\<lparr>co_validUntil := 30\<rparr>) 31 = EXPIRED" by simp
  with steps cs show ?thesis by blast
qed

end
