(* ===== verification/Plans.thy ===== *)
theory Plans
  imports Billing
begin

text \<open>
  Subscription plans (src/subscription-plans): the plans an administrator keeps, the figures over
  them, and who was inside a paid period of which plan at the end of each month (plan-history.ts).
  Counts of workspaces are whole numbers; percentages and averages are rationals where the code
  computes in doubles.
\<close>

section \<open>The plans\<close>

definition FREE_PLAN_SLUG :: string where
  "FREE_PLAN_SLUG = ''free''"

definition PLAN_HISTORY_MONTHS :: nat where
  "PLAN_HISTORY_MONTHS = 6"

text \<open>Prices are sent in whole units of the currency.\<close>

record create_plan_dto =
  cp_name :: string
  cp_slug :: string
  cp_billingCycle :: billing_cycle
  cp_price :: int
  cp_currency :: "string option"
  cp_trialDays :: "int option"
  cp_displayOrder :: "int option"
  cp_isActive :: "bool option"
  cp_featureLimits :: feature_limits

record update_plan_dto =
  up_name :: "string option"
  up_slug :: "string option"
  up_billingCycle :: "billing_cycle option"
  up_price :: "int option"
  up_currency :: "string option"
  up_trialDays :: "int option"
  up_displayOrder :: "int option"
  up_isActive :: "bool option"
  up_featureLimits :: "feature_limits option"

definition list_plans :: "billing_db \<Rightarrow> plan_row list" where
  "list_plans d = find_many (\<lambda>p. True) pl_displayOrder (bl_plans d)"

definition requirePlan :: "id \<Rightarrow> billing_db \<Rightarrow> plan_row result" where
  "requirePlan i d = (case find_row pl_id i (bl_plans d) of None \<Rightarrow> Inl (NotFound ''Plan not found'') | Some p \<Rightarrow> Inr p)"

definition workspaces_on :: "(plan_workspace \<Rightarrow> bool) \<Rightarrow> id option \<Rightarrow> billing_db \<Rightarrow> nat" where
  "workspaces_on P i d = length (filter (\<lambda>w. wp_planId w = i \<and> P w) (bl_workspaces d))"

definition getPlanById :: "id \<Rightarrow> billing_db \<Rightarrow> (plan_row \<times> nat) result" where
  "getPlanById i d =
     rbind (requirePlan i d) (\<lambda>plan.
     Inr (plan, workspaces_on (\<lambda>w. wp_isDefault w \<and> wp_deletedAt w = None) (Some i) d))"

definition create_plan :: "id \<Rightarrow> create_plan_dto \<Rightarrow> billing_db \<Rightarrow> (billing_db \<times> plan_row) result" where
  "create_plan newId dto d =
     rbind (check (cp_slug dto \<notin> pl_slug ` set (bl_plans d)) (Conflict ''A plan with this slug already exists'')) (\<lambda>_.
     rbind (store_price (of_int (cp_price dto))) (\<lambda>price.
     let row = \<lparr>pl_id = newId, pl_name = cp_name dto, pl_slug = cp_slug dto, pl_billingCycle = cp_billingCycle dto, pl_price = price,
           pl_currency = orelse (cp_currency dto) ''BDT'', pl_trialDays = orelse (cp_trialDays dto) 0, pl_isActive = orelse (cp_isActive dto) True,
           pl_featureLimits = cp_featureLimits dto, pl_displayOrder = orelse (cp_displayOrder dto) 0\<rparr> in
     rbind (insert_row pl_id row (bl_plans d)) (\<lambda>t. Inr (d\<lparr>bl_plans := t\<rparr>, row))))"

definition edited_plan :: "update_plan_dto \<Rightarrow> money option \<Rightarrow> plan_row \<Rightarrow> plan_row" where
  "edited_plan dto price p =
     p\<lparr>pl_name := orelse (up_name dto) (pl_name p), pl_slug := orelse (up_slug dto) (pl_slug p),
       pl_billingCycle := orelse (up_billingCycle dto) (pl_billingCycle p), pl_price := orelse price (pl_price p),
       pl_currency := orelse (up_currency dto) (pl_currency p), pl_trialDays := orelse (up_trialDays dto) (pl_trialDays p),
       pl_isActive := orelse (up_isActive dto) (pl_isActive p), pl_displayOrder := orelse (up_displayOrder dto) (pl_displayOrder p),
       pl_featureLimits := orelse (up_featureLimits dto) (pl_featureLimits p)\<rparr>"

definition update_plan :: "id \<Rightarrow> update_plan_dto \<Rightarrow> admin_request \<Rightarrow> billing_db \<Rightarrow> (billing_db \<times> plan_row) result" where
  "update_plan i dto rq d =
     rbind (requirePlan i d) (\<lambda>plan.
     rbind (check (\<not> (pl_slug plan = FREE_PLAN_SLUG \<and> up_slug dto \<noteq> None \<and> up_slug dto \<noteq> Some FREE_PLAN_SLUG))
       (BadRequest (''The free plan keeps the slug '' @ quoted ''free'' @ '' -- new accounts are put on it by that name.''))) (\<lambda>_.
     rbind (check (\<not> (up_slug dto \<noteq> None \<and> up_slug dto \<noteq> Some (pl_slug plan) \<and> the (up_slug dto) \<in> pl_slug ` set (bl_plans d)))
       (Conflict ''Another plan already uses this slug'')) (\<lambda>_.
     rbind (case up_price dto of None \<Rightarrow> Inr None | Some n \<Rightarrow> rbind (store_price (of_int n)) (\<lambda>m. Inr (Some m))) (\<lambda>price.
     rbind (update_row pl_id i (edited_plan dto price) (bl_plans d)) (\<lambda>t.
     let result = edited_plan dto price plan in
     Inr (audit rq ''PLAN_UPDATED'' ''SubscriptionPlan'' i (Some (PlanValue plan)) (Some (PlanValue result)) (d\<lparr>bl_plans := t\<rparr>), result))))))"

definition archive_plan :: "id \<Rightarrow> admin_request \<Rightarrow> billing_db \<Rightarrow> billing_db result" where
  "archive_plan i rq d =
     rbind (requirePlan i d) (\<lambda>_.
     rbind (update_row pl_id i (\<lambda>p. p\<lparr>pl_isActive := False\<rparr>) (bl_plans d)) (\<lambda>t.
     Inr (audit rq ''PLAN_ARCHIVED'' ''SubscriptionPlan'' i None (Some (ActiveValue False)) (d\<lparr>bl_plans := t\<rparr>))))"

text \<open>
  The three counts are read before the transaction that deletes: \<open>seen\<close> and \<open>there\<close>. Payments and
  redemptions hold the plan by a foreign key; a workspace that still names it loses its plan.
\<close>

definition remove_plan :: "id \<Rightarrow> admin_request \<Rightarrow> billing_db \<Rightarrow> billing_db \<Rightarrow> billing_db result" where
  "remove_plan i rq seen there =
     rbind (requirePlan i seen) (\<lambda>plan.
     rbind (check (pl_slug plan \<noteq> FREE_PLAN_SLUG)
       (BadRequest ''The free plan cannot be deleted -- new accounts are put on it. Archive other plans instead.'')) (\<lambda>_.
     let workspaces = workspaces_on (\<lambda>_. True) (Some i) seen; payments = length (filter (\<lambda>p. pa_planId p = i) (bl_payments seen));
         redemptions = length (filter (\<lambda>r. cr_planId r = i) (bl_redemptions seen)) in
     rbind (check (\<not> 0 < workspaces + payments + redemptions)
       (BadRequest (''Cannot delete this plan -- '' @ int_text (int workspaces) @ '' workspace(s), '' @ int_text (int payments) @ '' payment(s) and '' @
          int_text (int redemptions) @ '' coupon redemption(s) refer to it. Archive it instead.''))) (\<lambda>_.
     rbind (check (i \<notin> pa_planId ` set (bl_payments there) \<and> i \<notin> cr_planId ` set (bl_redemptions there)) (DbError ''P2003'')) (\<lambda>_.
     rbind (delete_row pl_id i (bl_plans there)) (\<lambda>t.
     Inr (audit rq ''PLAN_DELETED'' ''SubscriptionPlan'' i None None
       (there\<lparr>bl_plans := t, bl_workspaces := map (\<lambda>w. if wp_planId w = Some i then w\<lparr>wp_planId := None\<rparr> else w) (bl_workspaces there)\<rparr>)))))))"

section \<open>Who was paid for, when\<close>

record paid_payment =
  pp_platformUserId :: id
  pp_planId :: id
  pp_paidAt :: instant

record month_end =
  me_month :: string
  me_at :: instant

definition monthsCovered :: "billing_cycle \<Rightarrow> int" where
  "monthsCovered cycle = (if cycle = YEARLY then 12 else 1)"

text \<open>The same day and time, to the second, \<open>months\<close> later; a day the month does not have runs into the next.\<close>

definition addMonths :: "instant \<Rightarrow> int \<Rightarrow> instant" where
  "addMonths date months = (case utc_date date of (y, m, d) \<Rightarrow> date_utc y (m + months) d + date mod day_ms div 1000 * 1000)"

definition iso_month :: "instant \<Rightarrow> string" where
  "iso_month t = (case utc_date t of (y, m, _) \<Rightarrow> pad 4 (nat_digits (nat y)) @ ''-'' @ pad 2 (nat_digits (nat m)))"

definition month_end_at :: "instant \<Rightarrow> nat \<Rightarrow> month_end" where
  "month_end_at now i =
     (case utc_date (now + DHAKA_OFFSET_MS) of (year, month, _) \<Rightarrow>
      let first = date_utc year (month - int i) 1; over = date_utc year (month - int i + 1) 1 - DHAKA_OFFSET_MS
      in \<lparr>me_month = iso_month first, me_at = (if now < over then now else over)\<rparr>)"

definition monthEnds :: "instant \<Rightarrow> nat \<Rightarrow> month_end list" where
  "monthEnds now count = map (month_end_at now) (rev [0..<count])"

text \<open>A set of people as \<open>new Set\<close> keeps it, and the map from each plan to its people.\<close>

definition js_add :: "'a \<Rightarrow> 'a list \<Rightarrow> 'a list" where
  "js_add x xs = (if x \<in> set xs then xs else xs @ [x])"

definition add_paid :: "plan_row list \<Rightarrow> instant \<Rightarrow> paid_payment \<Rightarrow> (id \<times> id list) list \<Rightarrow> (id \<times> id list) list" where
  "add_paid plans t p people =
     (case map_option pl_billingCycle (find_row pl_id (pp_planId p) plans) of
        None \<Rightarrow> people
      | Some cycle \<Rightarrow>
          if t < pp_paidAt p \<or> addMonths (pp_paidAt p) (monthsCovered cycle) \<le> t then people
          else map (\<lambda>(k, s). if k = pp_planId p then (k, js_add (pp_platformUserId p) s) else (k, s)) people)"

definition paidPeopleAt :: "paid_payment list \<Rightarrow> plan_row list \<Rightarrow> instant \<Rightarrow> (id \<times> id list) list" where
  "paidPeopleAt payments plans t = fold (add_paid plans t) payments (map (\<lambda>plan. (pl_id plan, [])) plans)"

definition paidPeopleAtMonthEnds :: "paid_payment list \<Rightarrow> plan_row list \<Rightarrow> month_end list \<Rightarrow> (string \<times> (id \<times> nat) list) list" where
  "paidPeopleAtMonthEnds payments plans ends =
     map (\<lambda>e. (me_month e, map (\<lambda>(k, s). (k, length s)) (paidPeopleAt payments plans (me_at e)))) ends"

definition paid_of :: "payment_row \<Rightarrow> paid_payment" where
  "paid_of p = \<lparr>pp_platformUserId = pa_platformUserId p, pp_planId = pa_planId p, pp_paidAt = orelse (pa_paidAt p) (pa_createdAt p)\<rparr>"

text \<open>The first day of the month a year before the first month end.\<close>

definition look_back :: "month_end list \<Rightarrow> instant" where
  "look_back ends = (case utc_date (me_at (hd ends)) of (y, m, _) \<Rightarrow> date_utc (y - 1) m 1)"

section \<open>The figures over the plans\<close>

record plan_figures =
  pf_planId :: id
  pf_planName :: string
  pf_billingCycle :: billing_cycle
  pf_totalUsers :: nat
  pf_activeUsers :: nat
  pf_trialing :: nat
  pf_revenueEstimate :: money

record plans_summary =
  sm_totalUsers :: nat
  sm_freeUsers :: nat
  sm_paidUsers :: nat
  sm_freePercentage :: int
  sm_paidPercentage :: int
  sm_totalRevenueEstimate :: money

record plans_analytics =
  an_perPlan :: "plan_figures list"
  an_history :: "(string \<times> (id \<times> nat) list) list"
  an_summary :: plans_summary

definition plan_figures_of :: "instant \<Rightarrow> billing_db \<Rightarrow> plan_row \<Rightarrow> plan_figures" where
  "plan_figures_of now d plan =
     (let totalUsers = workspaces_on (\<lambda>w. wp_isDefault w \<and> wp_deletedAt w = None) (Some (pl_id plan)) d;
          activeUsers = workspaces_on (\<lambda>w. wp_isDefault w \<and> wp_deletedAt w = None \<and> wp_ownerStatus w = ACTIVE) (Some (pl_id plan)) d;
          trialing = workspaces_on (\<lambda>w. wp_deletedAt w = None \<and> (case wp_trialEndsAt w of None \<Rightarrow> False | Some t \<Rightarrow> now < t)) (Some (pl_id plan)) d
      in \<lparr>pf_planId = pl_id plan, pf_planName = pl_name plan, pf_billingCycle = pl_billingCycle plan, pf_totalUsers = totalUsers,
          pf_activeUsers = activeUsers, pf_trialing = trialing, pf_revenueEstimate = pl_price plan * int activeUsers\<rparr>)"

definition percentage :: "nat \<Rightarrow> nat \<Rightarrow> int" where
  "percentage part whole = (if 0 < whole then math_round (of_nat part / of_nat whole * 100) else 0)"

definition plans_analytics_of :: "instant \<Rightarrow> billing_db \<Rightarrow> plans_analytics" where
  "plans_analytics_of now d =
     (let plans = list_plans d; perPlan = map (plan_figures_of now d) plans; ends = monthEnds now PLAN_HISTORY_MONTHS;
          payments = filter (\<lambda>p. pa_status p = SUCCESS \<and> look_back ends \<le> pa_createdAt p) (bl_payments d);
          history = paidPeopleAtMonthEnds (map paid_of payments) plans ends;
          usersWithNoPlan = workspaces_on (\<lambda>w. wp_isDefault w \<and> wp_deletedAt w = None) None d;
          freePlanIds = map pl_id (filter (\<lambda>p. pl_billingCycle p = FREE) plans);
          freeUsers = sum_list (map pf_totalUsers (filter (\<lambda>p. pf_planId p \<in> set freePlanIds) perPlan)) + usersWithNoPlan;
          paidUsers = sum_list (map pf_totalUsers (filter (\<lambda>p. pf_planId p \<notin> set freePlanIds) perPlan));
          totalUsers = freeUsers + paidUsers
      in \<lparr>an_perPlan = perPlan, an_history = history,
          an_summary = \<lparr>sm_totalUsers = totalUsers, sm_freeUsers = freeUsers, sm_paidUsers = paidUsers,
            sm_freePercentage = percentage freeUsers totalUsers, sm_paidPercentage = percentage paidUsers totalUsers,
            sm_totalRevenueEstimate = sum_by pf_revenueEstimate perPlan\<rparr>\<rparr>)"

end
