(* ===== verification/Billing_Facts.thy ===== *)
theory Billing_Facts
  imports Billing
begin

text \<open>
  What billing keeps: a payment is refunded exactly when it has a refund, one, for no more than was
  paid, also when two refunds cross; every invoice gets a number of its own; a payment is the double
  of an earlier one or of none.
\<close>

section \<open>One refund per payment\<close>

definition refunds_ok :: "billing_db \<Rightarrow> bool" where
  "refunds_ok d \<longleftrightarrow> keyed pa_id (bl_payments d) \<and> keyed rn_paymentId (bl_refunds d) \<and>
     (\<forall>p\<in>set (bl_payments d). pa_status p = REFUNDED \<longleftrightarrow> pa_id p \<in> rn_paymentId ` set (bl_refunds d)) \<and>
     (\<forall>r\<in>set (bl_refunds d). \<exists>p\<in>set (bl_payments d). pa_id p = rn_paymentId r \<and> 0 \<le> rn_amount r \<and> rn_amount r \<le> pa_amount p)"

lemma keyed_inj: "keyed key t \<Longrightarrow> x \<in> set t \<Longrightarrow> y \<in> set t \<Longrightarrow> key x = key y \<Longrightarrow> x = y"
  by (auto simp: keyed_def distinct_map dest: inj_onD)

lemma requirePayment_eq_Inr: "requirePayment i d = Inr p \<longleftrightarrow> find_row pa_id i (bl_payments d) = Some p"
  by (auto simp: requirePayment_def split: option.splits)

lemma audit_tables [simp]:
  "bl_payments (audit rq a t i ov nv d) = bl_payments d" "bl_refunds (audit rq a t i ov nv d) = bl_refunds d"
  "bl_invoices (audit rq a t i ov nv d) = bl_invoices d" "bl_plans (audit rq a t i ov nv d) = bl_plans d"
  "bl_coupons (audit rq a t i ov nv d) = bl_coupons d" "bl_users (audit rq a t i ov nv d) = bl_users d"
  "bl_workspaces (audit rq a t i ov nv d) = bl_workspaces d" "bl_redemptions (audit rq a t i ov nv d) = bl_redemptions d"
  by (simp_all add: audit_def)

lemma refundE:
  assumes "refund newId i dto rq seen there = Inr (d, p, r)"
  obtains payment q where "find_row pa_id i (bl_payments seen) = Some payment" "pa_status payment = SUCCESS"
    "fd_amount dto \<le> dec (pa_amount payment)" "q \<in> set (bl_payments there)" "claimable i q"
    "bl_payments d = update_many (claimable i) (\<lambda>p. p\<lparr>pa_status := REFUNDED\<rparr>) (bl_payments there)"
    "i \<notin> rn_paymentId ` set (bl_refunds there)" "bl_refunds d = bl_refunds there @ [r]"
    "rn_paymentId r = i" "rn_amount r = fixed2 (fd_amount dto)" "rn_status r = refund_status.COMPLETED"
    "bl_invoices d = bl_invoices there" "bl_plans d = bl_plans there" "bl_users d = bl_users there"
    "bl_redemptions d = bl_redemptions there" "bl_workspaces d = bl_workspaces there"
  using assms unfolding refund_def Let_def store_price_def insert_row_def
  by (auto simp: rbind_eq_Inr check_eq_Inr requirePayment_eq_Inr split: if_splits)

lemma refund_keeps:
  assumes run: "refund newId i dto rq seen there = Inr (d, p, r)" and ok: "refunds_ok there" and pos: "0 \<le> fd_amount dto"
    and amounts: "\<forall>p\<in>set (bl_payments seen). \<forall>q\<in>set (bl_payments there). pa_id p = pa_id q \<longrightarrow> pa_amount p = pa_amount q"
  shows "refunds_ok d"
  using run
proof (rule refundE)
  fix payment q
  assume s: "find_row pa_id i (bl_payments seen) = Some payment" "fd_amount dto \<le> dec (pa_amount payment)"
    and q: "q \<in> set (bl_payments there)" "claimable i q" and t: "bl_payments d = update_many (claimable i) (\<lambda>p. p\<lparr>pa_status := REFUNDED\<rparr>) (bl_payments there)"
    and new: "i \<notin> rn_paymentId ` set (bl_refunds there)" and rs: "bl_refunds d = bl_refunds there @ [r]" "rn_paymentId r = i" "rn_amount r = fixed2 (fd_amount dto)"
  have uniq: "x = q" if "x \<in> set (bl_payments there)" "pa_id x = i" for x
  proof -
    have "inj_on pa_id (set (bl_payments there))" using ok by (simp add: refunds_ok_def keyed_def distinct_map)
    moreover have "pa_id x = pa_id q" using q(2) that(2) by (simp add: claimable_def)
    ultimately show ?thesis using that(1) q(1) by (rule inj_onD)
  qed
  have "map pa_id (bl_payments d) = map pa_id (bl_payments there)" by (simp add: t update_many_def)
  then have keyed: "keyed pa_id (bl_payments d)" using ok by (simp add: refunds_ok_def keyed_def)
  have status: "pa_status x = REFUNDED \<longleftrightarrow> pa_id x \<in> rn_paymentId ` set (bl_refunds d)" if x: "x \<in> set (bl_payments d)" for x
  proof -
    from x obtain y where y: "y \<in> set (bl_payments there)" "x = (if claimable i y then y\<lparr>pa_status := REFUNDED\<rparr> else y)"
      by (auto simp: t update_many_def)
    show ?thesis
    proof (cases "pa_id y = i")
      case True
      with uniq [OF y(1)] q(2) y(2) show ?thesis by (simp add: claimable_def rs)
    next
      case False
      with y have "x = y" by (simp add: claimable_def)
      with y(1) ok False show ?thesis by (simp add: refunds_ok_def rs)
    qed
  qed
  have le: "rn_amount r \<le> pa_amount q"
  proof -
    from find_row_Some [OF s(1)] q amounts have "pa_amount payment = pa_amount q" by (auto simp: claimable_def)
    with fixed2_mono [OF s(2) pos] show ?thesis by (simp add: rs(3) fixed2_dec)
  qed
  have held: "\<exists>p\<in>set (bl_payments d). pa_id p = pa_id y \<and> pa_amount p = pa_amount y" if "y \<in> set (bl_payments there)" for y
  proof (rule bexI)
    show "(if claimable i y then y\<lparr>pa_status := REFUNDED\<rparr> else y) \<in> set (bl_payments d)"
      unfolding t update_many_def set_map using that by (rule imageI)
  qed simp
  have "\<exists>p\<in>set (bl_payments d). pa_id p = rn_paymentId x \<and> 0 \<le> rn_amount x \<and> rn_amount x \<le> pa_amount p" if "x \<in> set (bl_refunds d)" for x
  proof (cases "x = r")
    case True
    with held [OF q(1)] q(2) le fixed2_nonneg [OF pos] show ?thesis by (auto simp: claimable_def rs)
  next
    case False
    with that ok obtain y where "y \<in> set (bl_payments there)" "pa_id y = rn_paymentId x" "0 \<le> rn_amount x" "rn_amount x \<le> pa_amount y"
      by (auto simp: rs refunds_ok_def)
    with held [of y] show ?thesis by auto
  qed
  with keyed status new ok show ?thesis by (simp add: refunds_ok_def rs)
qed

lemma retryE:
  assumes "retry i rq seen there = Inr (d, p)"
  obtains payment where "find_row pa_id i (bl_payments seen) = Some payment" "pa_status payment = FAILED"
    "bl_payments d = map_row pa_id i (\<lambda>p. p\<lparr>pa_status := payment_status.PENDING\<rparr>) (bl_payments there)" "bl_refunds d = bl_refunds there"
    "bl_invoices d = bl_invoices there" "bl_plans d = bl_plans there" "bl_redemptions d = bl_redemptions there"
    "bl_workspaces d = bl_workspaces there"
  using assms unfolding retry_def
  by (auto simp: rbind_eq_Inr check_eq_Inr requirePayment_eq_Inr update_row_def split: if_splits)

lemma simulateE:
  assumes "simulatePayment production gen now year dto d = Inr (d', p, v)"
  obtains plan where "bl_payments d' = bl_payments d @ [p]" "pa_id p \<notin> pa_id ` set (bl_payments d)" "pa_status p = SUCCESS" "pa_amount p = pl_price plan"
    "bl_invoices d' = bl_invoices d @ [v]" "iv_paymentId v = pa_id p" "iv_invoiceNumber v = generateInvoiceNumber year (bl_invoices d)"
    "iv_totalAmount v = pl_price plan" "bl_refunds d' = bl_refunds d" "plan \<in> set (bl_plans d)" "pa_planId p = pl_id plan"
    "bl_plans d' = bl_plans d" "bl_redemptions d' = bl_redemptions d" "bl_workspaces d' = bl_workspaces d"
  using assms unfolding simulatePayment_def Let_def insert_row_def
  by (auto simp: rbind_eq_Inr check_eq_Inr dest: find_row_Some split: option.splits if_splits)

text \<open>What the platform's requests do, each read and written in one go; a refund asks for a positive amount.\<close>

inductive billing_step :: "billing_db \<Rightarrow> billing_db \<Rightarrow> bool" where
  payment_retried: "retry i rq d d = Inr (d', p) \<Longrightarrow> billing_step d d'"
| payment_refunded: "refund newId i dto rq d d = Inr (d', p, r) \<Longrightarrow> 0 < fd_amount dto \<Longrightarrow> billing_step d d'"
| payment_simulated: "simulatePayment production gen now year dto d = Inr (d', p, v) \<Longrightarrow> billing_step d d'"

lemma retry_keeps:
  assumes "retry i rq d d = Inr (d', p)" and "refunds_ok d"
  shows "refunds_ok d'"
  using assms(1)
proof (rule retryE)
  fix payment
  assume f: "find_row pa_id i (bl_payments d) = Some payment" "pa_status payment = FAILED"
    and t: "bl_payments d' = map_row pa_id i (\<lambda>p. p\<lparr>pa_status := payment_status.PENDING\<rparr>) (bl_payments d)" "bl_refunds d' = bl_refunds d"
  have keyed: "keyed pa_id (bl_payments d')" using assms(2) by (simp add: t keyed_map_row refunds_ok_def)
  from find_row_Some [OF f(1)] f(2) assms(2) have no: "i \<notin> rn_paymentId ` set (bl_refunds d)" by (auto simp: refunds_ok_def)
  have "pa_status x = REFUNDED \<longleftrightarrow> pa_id x \<in> rn_paymentId ` set (bl_refunds d')" if x: "x \<in> set (bl_payments d')" for x
    using x no assms(2) by (auto simp: t map_row_def refunds_ok_def split: if_splits)
  moreover have "\<exists>p\<in>set (bl_payments d'). pa_id p = pa_id y \<and> pa_amount p = pa_amount y" if "y \<in> set (bl_payments d)" for y
  proof (rule bexI)
    show "(if pa_id y = i then y\<lparr>pa_status := payment_status.PENDING\<rparr> else y) \<in> set (bl_payments d')"
      unfolding t map_row_def set_map using that by (rule imageI)
  qed simp
  ultimately show ?thesis using keyed assms(2) unfolding refunds_ok_def t(2) by metis
qed

lemma simulate_keeps:
  assumes "simulatePayment production gen now year dto d = Inr (d', p, v)" and ok: "refunds_ok d"
  shows "refunds_ok d'"
  using assms(1)
proof (rule simulateE)
  fix plan
  assume t: "bl_payments d' = bl_payments d @ [p]" "pa_id p \<notin> pa_id ` set (bl_payments d)" "pa_status p = SUCCESS" "bl_refunds d' = bl_refunds d"
  have "rn_paymentId r \<in> pa_id ` set (bl_payments d)" if "r \<in> set (bl_refunds d)" for r
    using ok that by (auto simp: refunds_ok_def image_iff) (metis)
  with t(2) have "pa_id p \<notin> rn_paymentId ` set (bl_refunds d)" by auto
  with ok t(2,3) show ?thesis unfolding refunds_ok_def t(1,4) by (auto simp: image_iff)
qed

text \<open>The invariant, with the refunds given so far: they stay in the table.\<close>

interpretation billing: invariant_system billing_step "\<lambda>d. refunds_ok d \<and> R \<subseteq> set (bl_refunds d)" for R
proof
  fix d d' assume "billing_step d d'" and "refunds_ok d \<and> R \<subseteq> set (bl_refunds d)"
  then show "refunds_ok d' \<and> R \<subseteq> set (bl_refunds d')"
  proof (induction rule: billing_step.induct)
    case (payment_retried i rq d d' p)
    then show ?case using retry_keeps by (auto elim!: retryE)
  next
    case (payment_refunded newId i dto rq d d' p r)
    have "\<forall>p\<in>set (bl_payments d). \<forall>q\<in>set (bl_payments d). pa_id p = pa_id q \<longrightarrow> pa_amount p = pa_amount q"
      using payment_refunded(3) by (auto simp: refunds_ok_def keyed_def distinct_map dest: inj_onD)
    from refund_keeps [OF payment_refunded(1) _ _ this] payment_refunded show ?case by (auto elim!: refundE)
  next
    case (payment_simulated production gen now year dto d d' p v)
    then show ?case using simulate_keeps by (auto elim!: simulateE)
  qed
qed

lemma one_per_key: "keyed key rs \<Longrightarrow> length (filter (\<lambda>r. key r = k) rs) = (if k \<in> key ` set rs then 1 else 0)"
  by (induction rs) (auto simp: filter_empty_conv image_iff)

lemma the_one_of_key:
  assumes "keyed key rs" and "r \<in> set rs"
  shows "filter (\<lambda>x. key x = key r) rs = [r]"
proof -
  have "length (filter (\<lambda>x. key x = key r) rs) = 1" using one_per_key [OF assms(1)] assms(2) by simp
  moreover have "r \<in> set (filter (\<lambda>x. key x = key r) rs)" using assms(2) by simp
  ultimately show ?thesis by (metis One_nat_def in_set_conv_decomp length_0_conv length_Suc_conv list.distinct(1) list.set_cases set_ConsD)
qed

text \<open>
  C33: whatever payments are made, retried and refunded, a payment is marked refunded exactly when it
  has a refund, it has at most one, and no refund gives back more than was paid.
\<close>

theorem payments_refunded_once:
  assumes "billing_step\<^sup>*\<^sup>* d d'" and "refunds_ok d" and "p \<in> set (bl_payments d')"
  shows "length (filter (\<lambda>r. rn_paymentId r = pa_id p) (bl_refunds d')) = (if pa_status p = REFUNDED then 1 else 0) \<and>
    (\<forall>r\<in>set (bl_refunds d'). rn_paymentId r = pa_id p \<longrightarrow> 0 \<le> rn_amount r \<and> rn_amount r \<le> pa_amount p)"
proof -
  from billing.run_inv [OF assms(1), of "{}"] assms(2) have ok: "refunds_ok d'" by simp
  have "length (filter (\<lambda>r. rn_paymentId r = pa_id p) (bl_refunds d')) = (if pa_status p = REFUNDED then 1 else 0)"
    using ok assms(3) one_per_key [of rn_paymentId "bl_refunds d'" "pa_id p"] by (simp add: refunds_ok_def)
  moreover have "0 \<le> rn_amount r \<and> rn_amount r \<le> pa_amount p" if "r \<in> set (bl_refunds d')" "rn_paymentId r = pa_id p" for r
  proof -
    from ok that(1) obtain q where q: "q \<in> set (bl_payments d')" "pa_id q = rn_paymentId r" "0 \<le> rn_amount r" "rn_amount r \<le> pa_amount q"
      by (auto simp: refunds_ok_def)
    have "inj_on pa_id (set (bl_payments d'))" using ok by (simp add: refunds_ok_def keyed_def distinct_map)
    moreover have "pa_id q = pa_id p" using q(2) that(2) by simp
    ultimately have "q = p" using q(1) assms(3) by (rule inj_onD)
    with q show ?thesis by simp
  qed
  ultimately show ?thesis by blast
qed

text \<open>
  Of two refunds of one payment sent at once -- the second read it before the first was written --
  the first is given and the second refused with a conflict, whatever else was written in between;
  the payment keeps the one refund.
\<close>

theorem two_refunds_at_once:
  assumes "refunds_ok d" and "refund n i dto rq d d = Inr (d1, p, r)" and "0 < fd_amount dto" and "billing_step\<^sup>*\<^sup>* d1 d2"
    and "fd_amount dto' \<le> dec (pa_amount p)"
  shows "refund n' i dto' rq' d d2 = Inl (Conflict ''This payment has already been refunded'') \<and>
    filter (\<lambda>x. rn_paymentId x = i) (bl_refunds d2) = [r]"
  using assms(2)
proof (rule refundE)
  fix payment q
  assume f: "find_row pa_id i (bl_payments d) = Some payment" "pa_status payment = SUCCESS" and r: "rn_paymentId r = i" "bl_refunds d1 = bl_refunds d @ [r]"
    and t: "bl_payments d1 = update_many (claimable i) (\<lambda>p. p\<lparr>pa_status := REFUNDED\<rparr>) (bl_payments d)"
  have "billing_step d d1" using assms(2,3) by (rule payment_refunded)
  then have "refunds_ok d1" using billing.step_inv [of d d1 "{}"] assms(1) by simp
  with billing.run_inv [OF assms(4), of "{r}"] r(2) have ok: "refunds_ok d2" and rd2: "r \<in> set (bl_refunds d2)" by simp_all
  have none: "\<not> claimable i x" if "x \<in> set (bl_payments d2)" for x
  proof
    assume c: "claimable i x"
    then have "pa_id x \<in> rn_paymentId ` set (bl_refunds d2)" using rd2 r(1) by (force simp: claimable_def)
    with ok that have "pa_status x = REFUNDED" by (simp add: refunds_ok_def)
    with c show False by (simp add: claimable_def)
  qed
  have "pa_amount p = pa_amount payment"
  proof -
    from assms(2) have "find_row pa_id i (bl_payments d1) = Some p"
      unfolding refund_def Let_def by (auto simp: rbind_eq_Inr requirePayment_eq_Inr)
    from find_row_Some [OF this] have "p \<in> set (bl_payments d1)" "pa_id p = i" by simp_all
    then obtain y where y: "y \<in> set (bl_payments d)" "pa_id y = i" "pa_amount p = pa_amount y"
      by (auto simp: t update_many_def split: if_splits)
    have "inj_on pa_id (set (bl_payments d))" using assms(1) by (simp add: refunds_ok_def keyed_def distinct_map)
    moreover have "pa_id y = pa_id payment" "payment \<in> set (bl_payments d)" using y(2) find_row_Some [OF f(1)] by simp_all
    ultimately have "y = payment" using y(1) by (blast dest: inj_onD)
    with y(3) show ?thesis by simp
  qed
  then have conflict: "refund n' i dto' rq' d d2 = Inl (Conflict ''This payment has already been refunded'')"
    using none f assms(5) by (simp add: refund_def requirePayment_def not_less)
  have "filter (\<lambda>x. rn_paymentId x = rn_paymentId r) (bl_refunds d2) = [r]"
    using ok rd2 by (intro the_one_of_key) (simp_all add: refunds_ok_def)
  with conflict r(1) show ?thesis by simp
qed

section \<open>Double charges\<close>

definition repeats :: "payment_row \<Rightarrow> payment_row \<Rightarrow> bool" where
  "repeats p q \<longleftrightarrow> pa_id q \<noteq> pa_id p \<and> pa_platformUserId q = pa_platformUserId p \<and> pa_planId q = pa_planId p \<and> took_money p \<and> took_money q \<and>
     pa_createdAt q < pa_createdAt p \<and> pa_createdAt p \<le> pa_createdAt q + DUPLICATE_WINDOW_MS"

definition earliest_of :: "(payment_row \<Rightarrow> bool) \<Rightarrow> payment_row list \<Rightarrow> payment_row option \<Rightarrow> bool" where
  "earliest_of P qs e \<longleftrightarrow> (case e of None \<Rightarrow> \<forall>q\<in>set qs. \<not> P q
     | Some x \<Rightarrow> x \<in> set qs \<and> P x \<and> (\<forall>q\<in>set qs. P q \<longrightarrow> pa_createdAt x \<le> pa_createdAt q))"

lemma pick_earlier_spec:
  assumes "took_money p"
  shows "earliest_of (repeats p) qs (fold (pick_earlier p) qs None)"
proof (induction qs rule: rev_induct)
  case Nil
  show ?case by (simp add: earliest_of_def)
next
  case (snoc q qs)
  define e where "e = fold (pick_earlier p) qs None"
  have step: "pick_earlier p q e = (if repeats p q then (case e of None \<Rightarrow> Some q | Some x \<Rightarrow> if pa_createdAt q < pa_createdAt x then Some q else e) else e)"
    using assms by (auto simp: pick_earlier_def repeats_def Let_def split: option.splits)
  show ?case using snoc.IH unfolding fold_append comp_def e_def [symmetric] fold_simps step
    by (cases e) (auto simp: earliest_of_def)
qed

text \<open>
  A payment is shown as the double of the earliest payment that took money from the same person
  for the same plan in the ten minutes before it, and of none when there is no such payment; so of
  two payments only the later one is ever shown as the double of the other.
\<close>

theorem duplicateOf_earliest:
  "(case duplicateOf p qs of
      None \<Rightarrow> \<forall>q\<in>set qs. \<not> repeats p q
    | Some i \<Rightarrow> \<exists>q\<in>set qs. pa_id q = i \<and> repeats p q \<and> (\<forall>x\<in>set qs. repeats p x \<longrightarrow> pa_createdAt q \<le> pa_createdAt x)) \<and>
   (duplicateOf p qs = Some (pa_id q) \<longrightarrow> q \<in> set qs \<longrightarrow> keyed pa_id qs \<longrightarrow> duplicateOf q ps = Some (pa_id p) \<longrightarrow> p \<in> set ps \<longrightarrow>
     keyed pa_id ps \<longrightarrow> False)"
proof -
  have spec: "case duplicateOf p qs of None \<Rightarrow> \<forall>q\<in>set qs. \<not> repeats p q
    | Some i \<Rightarrow> \<exists>q\<in>set qs. pa_id q = i \<and> repeats p q \<and> (\<forall>x\<in>set qs. repeats p x \<longrightarrow> pa_createdAt q \<le> pa_createdAt x)" for p qs
  proof (cases "took_money p")
    case False
    then show ?thesis by (simp add: duplicateOf_def repeats_def)
  next
    case True
    show ?thesis using pick_earlier_spec [OF True, of qs]
      by (cases "fold (pick_earlier p) qs None") (auto simp: duplicateOf_def True earliest_of_def)
  qed
  have later: "repeats p q" if "duplicateOf p qs = Some (pa_id q)" "q \<in> set qs" "keyed pa_id qs" for p q qs
  proof -
    from spec [where p = p and qs = qs] that(1) obtain x where "x \<in> set qs" "pa_id x = pa_id q" "repeats p x" by auto
    with that(2,3) show ?thesis by (auto simp: keyed_def distinct_map dest: inj_onD)
  qed
  have "\<not> (repeats p q \<and> repeats q p)" by (simp add: repeats_def)
  with spec [where p = p and qs = qs] later show ?thesis by blast
qed

section \<open>Invoice numbers\<close>

text \<open>
  The invoices numbered so far: each carries the prefix of its year, and those of a year are numbered
  1, 2, 3, ... in the order they were made.
\<close>

definition of_year :: "int \<Rightarrow> billing_invoice list \<Rightarrow> string list" where
  "of_year year vs = filter (starts_with (invoice_prefix year)) (map iv_invoiceNumber vs)"

definition numbered :: "billing_invoice list \<Rightarrow> bool" where
  "numbered vs \<longleftrightarrow> (\<forall>year\<ge>0. of_year year vs = map (\<lambda>k. invoice_number year (Suc k)) [0..<length (of_year year vs)])"

lemma nat_digits_char: "c \<in> set (nat_digits n) \<Longrightarrow> c \<noteq> CHR ''-''"
proof (induction n rule: nat_digits.induct)
  case (1 n)
  show ?case
  proof (cases "n < 10")
    case True
    with "1.prems" show ?thesis using digit_char_not_minus [of n] by (simp add: nat_digits.simps [of n])
  next
    case False
    then have "nat_digits n = nat_digits (n div 10) @ [digit_char (n mod 10)]" by (subst nat_digits.simps) simp
    with "1.prems" "1.IH" [OF False] show ?thesis using digit_char_not_minus [of "n mod 10"] by auto
  qed
qed

lemma read_padded: "read_nat 0 (pad k (nat_digits n)) = (n, [])"
proof -
  have zero: "char_digit (CHR ''0'') = Some 0" by (simp add: char_digit_def)
  have "read_nat 0 (replicate j (CHR ''0'') @ s) = read_nat 0 s" for j s
    by (induction j) (simp_all add: zero)
  moreover have "read_nat 0 (nat_digits n) = (n, [])" using read_nat_digits [of 0 n "[]"] by simp
  ultimately show ?thesis by (simp add: pad_def)
qed

lemma invoice_number_inj: "invoice_number y j = invoice_number y k \<longleftrightarrow> j = k"
proof
  assume "invoice_number y j = invoice_number y k"
  then have "pad 6 (nat_digits j) = pad 6 (nat_digits k)" by (simp add: invoice_number_def)
  from arg_cong [OF this, of "read_nat 0"] show "j = k" unfolding read_padded by simp
qed simp

lemma int_text_inj: "0 \<le> i \<Longrightarrow> 0 \<le> j \<Longrightarrow> int_text i = int_text j \<Longrightarrow> i = j"
  using read_nat_digits [of 0 "nat i" "[]"] read_nat_digits [of 0 "nat j" "[]"] by (simp add: int_text_def)

lemma prefix_of_other_year:
  assumes "0 \<le> y" and "0 \<le> y'"
  shows "starts_with (invoice_prefix y) (invoice_number y' k) \<longleftrightarrow> y = y'"
proof
  have no: "takeWhile (\<lambda>c. c \<noteq> CHR ''-'') (int_text y @ CHR ''-'' # r) = int_text y" if "0 \<le> y" for y r
    using that nat_digits_char by (auto simp: int_text_def takeWhile_append)
  assume "starts_with (invoice_prefix y) (invoice_number y' k)"
  then have "take (length (invoice_prefix y)) (invoice_number y' k) = invoice_prefix y" by (simp add: starts_with_def)
  then have "\<exists>r. invoice_number y' k = invoice_prefix y @ r" by (metis append_take_drop_id)
  then obtain r where "int_text y' @ ''-'' @ pad 6 (nat_digits k) = int_text y @ ''-'' @ r"
    by (auto simp: invoice_number_def invoice_prefix_def)
  from arg_cong [OF this, of "takeWhile (\<lambda>c. c \<noteq> CHR ''-'')"] assms have "int_text y' = int_text y" by (simp add: no)
  then show "y = y'" using int_text_inj assms by metis
next
  assume "y = y'"
  then show "starts_with (invoice_prefix y) (invoice_number y' k)" by (simp add: starts_with_def invoice_number_def)
qed

lemma of_year_append: "of_year y (vs @ [v]) = of_year y vs @ (if starts_with (invoice_prefix y) (iv_invoiceNumber v) then [iv_invoiceNumber v] else [])"
  by (simp add: of_year_def)

lemma next_number: "generateInvoiceNumber year vs = invoice_number year (Suc (length (of_year year vs)))"
  by (simp add: generateInvoiceNumber_def of_year_def filter_map comp_def)

lemma numbered_append:
  assumes "numbered vs" and "0 \<le> year" and "iv_invoiceNumber v = generateInvoiceNumber year vs"
  shows "numbered (vs @ [v])"
  unfolding numbered_def
proof (intro allI impI)
  fix y :: int
  assume y: "0 \<le> y"
  then have old: "of_year y vs = map (\<lambda>k. invoice_number y (Suc k)) [0..<length (of_year y vs)]" using assms(1) by (simp add: numbered_def)
  have "starts_with (invoice_prefix y) (iv_invoiceNumber v) \<longleftrightarrow> y = year"
    unfolding assms(3) next_number by (rule prefix_of_other_year [OF y assms(2)])
  then show "of_year y (vs @ [v]) = map (\<lambda>k. invoice_number y (Suc k)) [0..<length (of_year y (vs @ [v]))]"
    using old by (auto simp: of_year_append assms(3) next_number)
qed

lemma number_is_fresh:
  assumes "numbered vs" and "0 \<le> year"
  shows "generateInvoiceNumber year vs \<notin> iv_invoiceNumber ` set vs"
proof
  assume "generateInvoiceNumber year vs \<in> iv_invoiceNumber ` set vs"
  then have "generateInvoiceNumber year vs \<in> set (of_year year vs)"
    using prefix_of_other_year [OF assms(2,2)] by (auto simp: of_year_def next_number)
  moreover obtain n where n: "n = length (of_year year vs)" "of_year year vs = map (\<lambda>k. invoice_number year (Suc k)) [0..<n]"
    using assms by (auto simp: numbered_def)
  ultimately show False unfolding next_number n(1) [symmetric] by (simp add: n(2) image_iff invoice_number_inj)
qed

text \<open>
  C34: as long as invoices are made one after the other, the payment the development route simulates
  always gets its invoice: the number drawn is the next of the year and taken by no other, and the
  invoices stay numbered 1, 2, 3, ... in every year.
\<close>

theorem every_payment_gets_its_invoice:
  assumes "numbered (bl_invoices d)" and "0 \<le> year" and "find_row pu_id (sp_platformUserId dto) (bl_users d) = Some user"
    and "find_row pl_id (sp_planId dto) (bl_plans d) = Some plan" and "gen 0 \<notin> pa_id ` set (bl_payments d)"
    and "gen 0 \<notin> iv_paymentId ` set (bl_invoices d)" and "gen 1 \<notin> iv_id ` set (bl_invoices d)"
  shows "\<exists>d' p v. simulatePayment False gen now year dto d = Inr (d', p, v) \<and> bl_invoices d' = bl_invoices d @ [v] \<and>
    iv_paymentId v = pa_id p \<and> iv_totalAmount v = pa_amount p \<and> iv_invoiceNumber v \<notin> iv_invoiceNumber ` set (bl_invoices d) \<and>
    numbered (bl_invoices d')"
proof -
  obtain d' p v where run: "simulatePayment False gen now year dto d = Inr (d', p, v)"
    using assms(3-7) number_is_fresh [OF assms(1,2)] by (auto simp: simulatePayment_def insert_row_def Let_def)
  then show ?thesis
  proof (rule simulateE)
    fix pl
    assume "bl_invoices d' = bl_invoices d @ [v]" "iv_paymentId v = pa_id p" "iv_invoiceNumber v = generateInvoiceNumber year (bl_invoices d)"
      "iv_totalAmount v = pl_price pl" "pa_amount p = pl_price pl"
    then show ?thesis using run number_is_fresh [OF assms(1,2)] numbered_append [OF assms(1,2)] by auto
  qed
qed

section \<open>What payments brought in\<close>

text \<open>No payment brings in less than nothing, or more than was paid.\<close>

lemma net_of_bounds:
  assumes "refunds_ok d" and "p \<in> set (bl_payments d)" and "0 \<le> pa_amount p"
  shows "0 \<le> net_of d p \<and> net_of d p \<le> pa_amount p"
proof (cases "refund_of d p")
  case None
  then show ?thesis using assms(3) by (simp add: net_of_def)
next
  case (Some r)
  then have r: "r \<in> set (bl_refunds d)" "rn_paymentId r = pa_id p" unfolding refund_of_def using find_row_Some by fastforce+
  with assms(1) obtain q where q: "q \<in> set (bl_payments d)" "pa_id q = pa_id p" "0 \<le> rn_amount r" "rn_amount r \<le> pa_amount q"
    by (auto simp: refunds_ok_def)
  have "inj_on pa_id (set (bl_payments d))" using assms(1) by (simp add: refunds_ok_def keyed_def distinct_map)
  then have "q = p" using q(2,1) assms(2) by (rule inj_onD)
  with q Some show ?thesis using assms(3) by (simp add: net_of_def)
qed

section \<open>Worked examples\<close>

definition no_limits :: feature_limits where
  "no_limits = \<lparr>fl_maxWorkspaces = -1, fl_maxBusinessWorkspaces = -1, fl_maxTransactionsPerMonth = -1, fl_advancedReports = True,
     fl_pdfExport = True, fl_multiUser = True, fl_incomeGoalTracking = True\<rparr>"

definition pro_plan :: plan_row where
  "pro_plan = \<lparr>pl_id = ''pro'', pl_name = ''Pro'', pl_slug = ''pro'', pl_billingCycle = MONTHLY, pl_price = 79900, pl_currency = ''BDT'',
     pl_trialDays = 0, pl_isActive = True, pl_featureLimits = no_limits, pl_displayOrder = 1\<rparr>"

definition sample_billing :: billing_db where
  "sample_billing = \<lparr>bl_plans = [pro_plan], bl_workspaces = [], bl_users = [\<lparr>pu_id = ''u'', pu_name = ''Ana'', pu_email = ''ana@x''\<rparr>],
     bl_coupons = [], bl_redemptions = [],
     bl_payments = [\<lparr>pa_id = ''p'', pa_platformUserId = ''u'', pa_planId = ''pro'', pa_amount = 79900, pa_currency = ''BDT'', pa_discountApplied = None,
       pa_couponId = None, pa_gateway = BKASH, pa_gatewayReferenceId = None, pa_status = SUCCESS, pa_failureReason = None, pa_paidAt = Some 1,
       pa_createdAt = 1\<rparr>],
     bl_invoices = [], bl_refunds = [], bl_audit = []\<rparr>"

definition sample_request :: admin_request where
  "sample_request = \<lparr>ad_adminId = ''admin'', ad_ipAddress = None, ad_now = 5\<rparr>"

definition refund_request :: "rat \<Rightarrow> refund_dto" where
  "refund_request a = \<lparr>fd_amount = a, fd_reason = ''asked for''\<rparr>"

definition refunded_billing :: billing_db where
  "refunded_billing = (case refund ''n'' ''p'' (refund_request 300) sample_request sample_billing sample_billing of
     Inr (d, _, _) \<Rightarrow> d | Inl _ \<Rightarrow> sample_billing)"

lemma sample_amounts: "fixed2 300 = 30000" "fixed2 (1 / 1000) = 0"
  by (simp_all add: fixed2_def floor_eq_iff)

lemmas refund_run_defs = sample_amounts refund_def requirePayment_def claimable_def update_many_def store_price_def fits_price_def insert_row_def audit_def
  dec_def refund_request_def sample_request_def sample_billing_def Let_def

lemma sample_billing_ok: "refunds_ok sample_billing"
  by (simp add: refunds_ok_def sample_billing_def)

lemma sample_refund_run:
  "\<exists>p r. refund ''n'' ''p'' (refund_request 300) sample_request sample_billing sample_billing = Inr (refunded_billing, p, r) \<and> pa_amount p = 79900 \<and>
    rn_amount r = 30000"
  by (simp add: refunded_billing_def refund_run_defs)

theorem payments_refunded_once_witness:
  "\<exists>p\<in>set (bl_payments refunded_billing). pa_status p = REFUNDED \<and> length (filter (\<lambda>r. rn_paymentId r = pa_id p) (bl_refunds refunded_billing)) = 1"
proof -
  obtain p r where run: "refund ''n'' ''p'' (refund_request 300) sample_request sample_billing sample_billing = Inr (refunded_billing, p, r)"
    using sample_refund_run by blast
  have "billing_step sample_billing refunded_billing" using run by (rule payment_refunded) (simp add: refund_request_def)
  then have steps: "billing_step\<^sup>*\<^sup>* sample_billing refunded_billing" by (rule r_into_rtranclp)
  have "\<exists>q\<in>set (bl_payments refunded_billing). pa_status q = REFUNDED" by (simp add: refunded_billing_def refund_run_defs)
  with payments_refunded_once [OF steps sample_billing_ok] show ?thesis by fastforce
qed

theorem two_refunds_at_once_witness:
  "refund ''m'' ''p'' (refund_request 100) sample_request sample_billing refunded_billing = Inl (Conflict ''This payment has already been refunded'')"
proof -
  obtain p r where run: "refund ''n'' ''p'' (refund_request 300) sample_request sample_billing sample_billing = Inr (refunded_billing, p, r)"
    and p: "pa_amount p = 79900" using sample_refund_run by blast
  show ?thesis
    using two_refunds_at_once [OF sample_billing_ok run _ rtranclp.rtrancl_refl, of "refund_request 100" "''m''" sample_request] p
    by (simp add: refund_request_def dec_def)
qed

theorem duplicateOf_earliest_witness:
  "filter (repeats (hd (bl_payments sample_billing))) (bl_payments sample_billing) = []"
proof -
  have "duplicateOf (hd (bl_payments sample_billing)) (bl_payments sample_billing) = None"
    by (simp add: duplicateOf_def took_money_def sample_billing_def pick_earlier_def)
  with duplicateOf_earliest [where p = "hd (bl_payments sample_billing)" and qs = "bl_payments sample_billing"] show ?thesis
    by (simp add: filter_empty_conv)
qed

theorem every_payment_gets_its_invoice_witness:
  "\<exists>d' p v. simulatePayment False (\<lambda>n. replicate (Suc n) CHR ''n'') 5 2026 \<lparr>sp_platformUserId = ''u'', sp_planId = ''pro''\<rparr> sample_billing = Inr (d', p, v) \<and>
    iv_totalAmount v = pa_amount p \<and> bl_invoices d' = [v]"
proof -
  have "numbered (bl_invoices sample_billing)" by (simp add: numbered_def of_year_def sample_billing_def)
  then have "\<exists>d' p v. simulatePayment False (\<lambda>n. replicate (Suc n) CHR ''n'') 5 2026 \<lparr>sp_platformUserId = ''u'', sp_planId = ''pro''\<rparr> sample_billing =
      Inr (d', p, v) \<and> bl_invoices d' = bl_invoices sample_billing @ [v] \<and> iv_paymentId v = pa_id p \<and> iv_totalAmount v = pa_amount p \<and>
      iv_invoiceNumber v \<notin> iv_invoiceNumber ` set (bl_invoices sample_billing) \<and> numbered (bl_invoices d')"
    by (rule every_payment_gets_its_invoice) (simp_all add: sample_billing_def pro_plan_def)
  then show ?thesis by (auto simp: sample_billing_def)
qed

text \<open>
  A refund of a tenth of a paisa passes every check and is stored as nothing: the payment is
  marked refunded with a refund of 0.00, and no other refund of it is possible.
\<close>

theorem refund_of_nothing_is_taken:
  "\<exists>d p r. refund ''n'' ''p'' (refund_request (1 / 1000)) sample_request sample_billing sample_billing = Inr (d, p, r) \<and>
    pa_status p = REFUNDED \<and> rn_amount r = 0 \<and>
    refund ''m'' ''p'' (refund_request 100) sample_request d d = Inl (BadRequest ''Only successful payments can be refunded'')"
  by (simp add: refund_run_defs)

end
