(* ===== verification/Plan_Facts.thy ===== *)
theory Plan_Facts
  imports Plans Billing_Facts
begin

text \<open>
  What the plans keep: the free plan stays and keeps its name, slugs stay apart, no payment loses its
  plan; the people paid for are counted once per plan, and the month ends they are counted at follow
  each other up to now.
\<close>

section \<open>The free plan and the plans in use\<close>

definition plans_ok :: "billing_db \<Rightarrow> bool" where
  "plans_ok d \<longleftrightarrow> keyed pl_id (bl_plans d) \<and> keyed pl_slug (bl_plans d) \<and>
     (\<forall>p\<in>set (bl_payments d). pa_planId p \<in> pl_id ` set (bl_plans d)) \<and> (\<forall>r\<in>set (bl_redemptions d). cr_planId r \<in> pl_id ` set (bl_plans d)) \<and>
     (\<forall>w\<in>set (bl_workspaces d). wp_planId w \<noteq> None \<longrightarrow> the (wp_planId w) \<in> pl_id ` set (bl_plans d))"

definition free_plan :: "id \<Rightarrow> billing_db \<Rightarrow> bool" where
  "free_plan i d \<longleftrightarrow> (\<exists>p\<in>set (bl_plans d). pl_id p = i \<and> pl_slug p = ''free'')"

inductive plans_step :: "billing_db \<Rightarrow> billing_db \<Rightarrow> bool" where
  plan_created: "create_plan newId dto d = Inr (d', p) \<Longrightarrow> plans_step d d'"
| plan_updated: "update_plan i udto rq d = Inr (d', p) \<Longrightarrow> plans_step d d'"
| plan_archived: "archive_plan i rq d = Inr d' \<Longrightarrow> plans_step d d'"
| plan_removed: "remove_plan i rq d d = Inr d' \<Longrightarrow> plans_step d d'"
| billed: "billing_step d d' \<Longrightarrow> plans_step d d'"

lemma requirePlan_eq_Inr: "requirePlan i d = Inr p \<longleftrightarrow> find_row pl_id i (bl_plans d) = Some p"
  by (auto simp: requirePlan_def split: option.splits)

lemma create_plan_keeps:
  assumes "create_plan newId dto d = Inr (d', p)" and "plans_ok d"
  shows "plans_ok d' \<and> (free_plan i d \<longrightarrow> free_plan i d')"
proof -
  from assms(1) obtain row where d': "d' = d\<lparr>bl_plans := bl_plans d @ [row]\<rparr>" "pl_id row \<notin> pl_id ` set (bl_plans d)" "pl_slug row \<notin> pl_slug ` set (bl_plans d)"
    unfolding create_plan_def Let_def insert_row_def by (auto simp: rbind_eq_Inr check_eq_Inr split: if_splits)
  with assms(2) show ?thesis by (auto simp: plans_ok_def free_plan_def)
qed

text \<open>An edit of one plan that keeps the slugs apart, and the slug of the free plan.\<close>

lemma edit_keeps:
  assumes ok: "plans_ok d" and f: "\<And>p. pl_id (f p) = pl_id p" and old: "find_row pl_id k (bl_plans d) = Some old"
    and slug: "pl_slug (f old) = pl_slug old \<or> pl_slug (f old) \<notin> pl_slug ` set (bl_plans d)"
    and free: "pl_slug old = ''free'' \<longrightarrow> pl_slug (f old) = ''free''"
    and d': "bl_plans d' = map_row pl_id k f (bl_plans d)" "bl_payments d' = bl_payments d" "bl_redemptions d' = bl_redemptions d" "bl_workspaces d' = bl_workspaces d"
  shows "plans_ok d' \<and> (free_plan i d \<longrightarrow> free_plan i d')"
proof -
  from find_row_Some [OF old] have mem: "old \<in> set (bl_plans d)" "pl_id old = k" by simp_all
  have inj: "inj_on pl_id (set (bl_plans d))" using ok by (simp add: plans_ok_def keyed_def distinct_map)
  have only: "p = old" if "p \<in> set (bl_plans d)" "pl_id p = k" for p using inj that mem by (auto dest: inj_onD)
  have ids: "map pl_id (bl_plans d') = map pl_id (bl_plans d)" by (simp add: d' map_row_def f)
  define g where "g p = (if pl_id p = k then f p else p)" for p
  have "distinct (map pl_slug (map g ps))"
    if "distinct (map pl_slug ps)" "set ps \<subseteq> set (bl_plans d)" "distinct (map pl_id ps)" for ps
    using that
  proof (induction ps)
    case (Cons p ps)
    have slugs: "pl_slug (g q) = pl_slug q \<or> q = old \<and> pl_slug (g q) \<notin> pl_slug ` set (bl_plans d)"
      if "q \<in> set (p # ps)" for q using only [of q] that Cons.prems(2) slug by (auto simp: g_def)
    have "pl_slug (g p) \<noteq> pl_slug (g q)" if q: "q \<in> set ps" for q
    proof -
      have ne: "pl_slug p \<noteq> pl_slug q" "p \<noteq> q" using Cons.prems(1,3) q by auto
      have mem: "pl_slug p \<in> pl_slug ` set (bl_plans d)" "pl_slug q \<in> pl_slug ` set (bl_plans d)" using Cons.prems(2) q by auto
      from slugs [of p] slugs [of q] q show ?thesis using ne mem by (metis list.set_intros(1) list.set_intros(2))
    qed
    then have "pl_slug (g p) \<notin> set (map pl_slug (map g ps))" by fastforce
    with Cons show ?case by simp
  qed simp
  from this [of "bl_plans d"] have "keyed pl_slug (bl_plans d')"
    using ok by (simp add: keyed_def d'(1) map_row_def plans_ok_def g_def [abs_def])
  moreover have "keyed pl_id (bl_plans d')" "pl_id ` set (bl_plans d') = pl_id ` set (bl_plans d)"
    using ids ok by (simp_all add: keyed_def plans_ok_def flip: set_map)
  moreover have "free_plan i d'" if fr: "free_plan i d"
  proof -
    from fr obtain p where p: "p \<in> set (bl_plans d)" "pl_id p = i" "pl_slug p = ''free''" by (auto simp: free_plan_def)
    have "(if pl_id p = k then f p else p) \<in> set (bl_plans d')" unfolding d'(1) map_row_def set_map using p(1) by (rule imageI)
    moreover have "pl_slug (if pl_id p = k then f p else p) = ''free''" using p(1,3) only [of p] free by auto
    ultimately show ?thesis using p(2) f unfolding free_plan_def by (metis (full_types))
  qed
  ultimately show ?thesis using ok by (simp add: plans_ok_def d'(2-4))
qed

lemma update_plan_keeps:
  assumes "update_plan k dto rq d = Inr (d', p)" and "plans_ok d"
  shows "plans_ok d' \<and> (free_plan i d \<longrightarrow> free_plan i d')"
proof -
  from assms(1) obtain old price where old: "find_row pl_id k (bl_plans d) = Some old"
    and free: "\<not> (pl_slug old = FREE_PLAN_SLUG \<and> up_slug dto \<noteq> None \<and> up_slug dto \<noteq> Some FREE_PLAN_SLUG)"
    and slug: "\<not> (up_slug dto \<noteq> None \<and> up_slug dto \<noteq> Some (pl_slug old) \<and> the (up_slug dto) \<in> pl_slug ` set (bl_plans d))"
    and d': "d' = audit rq ''PLAN_UPDATED'' ''SubscriptionPlan'' k (Some (PlanValue old)) (Some (PlanValue (edited_plan dto price old)))
      (d\<lparr>bl_plans := map_row pl_id k (edited_plan dto price) (bl_plans d)\<rparr>)"
    unfolding update_plan_def Let_def rbind_eq_Inr check_eq_Inr requirePlan_eq_Inr update_row_def by (auto split: if_splits)
  show ?thesis
    using assms(2) _ old
  proof (rule edit_keeps)
    show "pl_id (edited_plan dto price x) = pl_id x" for x by (simp add: edited_plan_def)
    show "pl_slug (edited_plan dto price old) = pl_slug old \<or> pl_slug (edited_plan dto price old) \<notin> pl_slug ` set (bl_plans d)"
      using slug by (cases "up_slug dto") (auto simp: edited_plan_def)
    show "pl_slug old = ''free'' \<longrightarrow> pl_slug (edited_plan dto price old) = ''free''"
      using free by (cases "up_slug dto") (auto simp: edited_plan_def FREE_PLAN_SLUG_def)
  qed (simp_all add: d')
qed

lemma archive_plan_keeps:
  assumes "archive_plan k rq d = Inr d'" and "plans_ok d"
  shows "plans_ok d' \<and> (free_plan i d \<longrightarrow> free_plan i d')"
proof -
  from assms(1) obtain old where old: "find_row pl_id k (bl_plans d) = Some old"
    and d': "d' = audit rq ''PLAN_ARCHIVED'' ''SubscriptionPlan'' k None (Some (ActiveValue False))
      (d\<lparr>bl_plans := map_row pl_id k (\<lambda>p. p\<lparr>pl_isActive := False\<rparr>) (bl_plans d)\<rparr>)"
    unfolding archive_plan_def rbind_eq_Inr requirePlan_eq_Inr update_row_def by (auto split: if_splits)
  show ?thesis by (rule edit_keeps [OF assms(2) _ old, where f = "\<lambda>p. p\<lparr>pl_isActive := False\<rparr>"]) (simp_all add: d')
qed

lemma remove_plan_keeps:
  assumes "remove_plan k rq d d = Inr d'" and "plans_ok d"
  shows "plans_ok d' \<and> (free_plan i d \<longrightarrow> free_plan i d')"
proof -
  from assms(1) obtain old where old: "find_row pl_id k (bl_plans d) = Some old" "pl_slug old \<noteq> ''free''"
    and free: "k \<notin> pa_planId ` set (bl_payments d)" "k \<notin> cr_planId ` set (bl_redemptions d)"
    and d': "bl_plans d' = filter (\<lambda>p. pl_id p \<noteq> k) (bl_plans d)" "bl_payments d' = bl_payments d" "bl_redemptions d' = bl_redemptions d"
      "bl_workspaces d' = map (\<lambda>w. if wp_planId w = Some k then w\<lparr>wp_planId := None\<rparr> else w) (bl_workspaces d)"
    unfolding remove_plan_def Let_def rbind_eq_Inr check_eq_Inr requirePlan_eq_Inr delete_row_def
    by (auto simp: FREE_PLAN_SLUG_def split: if_splits)
  have held: "x \<in> pl_id ` set (bl_plans d')" if "x \<in> pl_id ` set (bl_plans d)" "x \<noteq> k" for x
    using that by (auto simp: d')
  have "pa_planId p \<in> pl_id ` set (bl_plans d')" if "p \<in> set (bl_payments d)" for p
    using held [of "pa_planId p"] free(1) assms(2) that by (fastforce simp: plans_ok_def)
  moreover have "cr_planId r \<in> pl_id ` set (bl_plans d')" if "r \<in> set (bl_redemptions d)" for r
    using held [of "cr_planId r"] free(2) assms(2) that by (fastforce simp: plans_ok_def)
  moreover have "the (wp_planId w) \<in> pl_id ` set (bl_plans d')" if "w \<in> set (bl_workspaces d)" "wp_planId w \<noteq> None" "wp_planId w \<noteq> Some k" for w
    using held [of "the (wp_planId w)"] assms(2) that by (fastforce simp: plans_ok_def)
  ultimately have "plans_ok d'"
    using assms(2) unfolding plans_ok_def d'(2-4) by (auto simp: d'(1) keyed_filter split: if_splits)
  moreover have "free_plan i d'" if "free_plan i d"
  proof -
    from that obtain p where p: "p \<in> set (bl_plans d)" "pl_id p = i" "pl_slug p = ''free''" by (auto simp: free_plan_def)
    from find_row_Some [OF old(1)] have o: "old \<in> set (bl_plans d)" "pl_id old = k" by simp_all
    have "inj_on pl_id (set (bl_plans d))" using assms(2) by (simp add: plans_ok_def keyed_def distinct_map)
    then have "pl_id p \<noteq> k" using o p(1,3) old(2) by (auto dest: inj_onD)
    with p show ?thesis by (auto simp: free_plan_def d')
  qed
  ultimately show ?thesis by blast
qed

lemma billing_keeps_plans:
  assumes "billing_step d d'" and "plans_ok d"
  shows "plans_ok d' \<and> (free_plan i d \<longrightarrow> free_plan i d')"
proof -
  have "bl_plans d' = bl_plans d \<and> bl_redemptions d' = bl_redemptions d \<and> bl_workspaces d' = bl_workspaces d \<and>
      pa_planId ` set (bl_payments d') \<subseteq> pl_id ` set (bl_plans d)"
    using assms
  proof (induction rule: billing_step.induct)
    case (payment_retried i rq d d' p)
    from payment_retried(1) show ?case
      by (rule retryE) (use payment_retried(2) in \<open>auto simp: map_row_def plans_ok_def\<close>)
  next
    case (payment_refunded newId i dto rq d d' p r)
    from payment_refunded(1) show ?case
      by (rule refundE) (use payment_refunded(3) in \<open>auto simp: update_many_def plans_ok_def\<close>)
  next
    case (payment_simulated production gen now year dto d d' p v)
    from payment_simulated(1) show ?case
      by (rule simulateE) (use payment_simulated(2) in \<open>auto simp: plans_ok_def\<close>)
  qed
  with assms(2) show ?thesis unfolding plans_ok_def free_plan_def by (simp add: image_subset_iff)
qed

interpretation plans: invariant_system plans_step "\<lambda>d. plans_ok d \<and> (\<forall>i\<in>I. free_plan i d)" for I
proof
  fix d d' assume step: "plans_step d d'" and inv: "plans_ok d \<and> (\<forall>i\<in>I. free_plan i d)"
  from step have "plans_ok d' \<and> (free_plan i d \<longrightarrow> free_plan i d')" for i
    using inv by (induction rule: plans_step.induct)
      (simp_all add: create_plan_keeps update_plan_keeps archive_plan_keeps remove_plan_keeps billing_keeps_plans)
  with inv show "plans_ok d' \<and> (\<forall>i\<in>I. free_plan i d')" by blast
qed

text \<open>
  Whatever is done to the plans and to the payments, the plan new accounts are put on stays, under
  its slug; slugs stay apart; and every payment and every workspace on a plan has its plan.
\<close>

theorem free_plan_stays:
  assumes "plans_step\<^sup>*\<^sup>* d d'" and "plans_ok d" and "p \<in> set (bl_plans d)" and "pl_slug p = ''free''"
  shows "(\<exists>q\<in>set (bl_plans d'). pl_id q = pl_id p \<and> pl_slug q = ''free'') \<and> distinct (map pl_slug (bl_plans d')) \<and>
    (\<forall>x\<in>set (bl_payments d'). pa_planId x \<in> pl_id ` set (bl_plans d')) \<and>
    (\<forall>w\<in>set (bl_workspaces d'). wp_planId w \<noteq> None \<longrightarrow> the (wp_planId w) \<in> pl_id ` set (bl_plans d'))"
proof -
  have "free_plan (pl_id p) d" using assms(3,4) by (auto simp: free_plan_def)
  with plans.run_inv [OF assms(1), of "{pl_id p}"] assms(2) have "plans_ok d'" "free_plan (pl_id p) d'" by simp_all
  then show ?thesis by (auto simp: plans_ok_def free_plan_def keyed_def)
qed

section \<open>The people paid for\<close>

definition covers :: "plan_row \<Rightarrow> instant \<Rightarrow> paid_payment \<Rightarrow> bool" where
  "covers plan t p \<longleftrightarrow> pp_planId p = pl_id plan \<and> pp_paidAt p \<le> t \<and> t < addMonths (pp_paidAt p) (monthsCovered (pl_billingCycle plan))"

lemma js_add_set [simp]: "set (js_add x xs) = insert x (set xs)" "distinct (js_add x xs) = distinct xs"
  by (auto simp: js_add_def)

lemma add_paid_map:
  assumes "keyed pl_id plans"
  shows "add_paid plans t p (map (\<lambda>plan. (pl_id plan, s plan)) plans) =
    map (\<lambda>plan. (pl_id plan, if covers plan t p then js_add (pp_platformUserId p) (s plan) else s plan)) plans"
proof (cases "find_row pl_id (pp_planId p) plans")
  case None
  then have "pp_planId p \<notin> pl_id ` set plans" by (simp add: find_row_None)
  then show ?thesis using None by (auto simp: add_paid_def covers_def)
next
  case (Some pl)
  have only: "plan = pl" if "plan \<in> set plans" "pl_id plan = pp_planId p" for plan
    using keyed_inj [OF assms that(1), of pl] find_row_Some [OF Some] that(2) by simp
  from find_row_Some [OF Some] have "pl_id pl = pp_planId p" by simp
  with only show ?thesis by (auto simp: add_paid_def Some covers_def)
qed

text \<open>
  The people of a plan at an instant are those with a payment for it whose period has begun and is
  not over, each counted once, whatever the order of the payments.
\<close>

theorem paid_people_are_those_covered:
  assumes "keyed pl_id plans"
  shows "map fst (paidPeopleAt ps plans t) = map pl_id plans \<and>
    (\<forall>(k, people) \<in> set (paidPeopleAt ps plans t). distinct people \<and>
      set people = {pp_platformUserId p |p. p \<in> set ps \<and> (\<exists>plan\<in>set plans. pl_id plan = k \<and> covers plan t p)})"
proof -
  have shape: "\<exists>s. paidPeopleAt ps plans t = map (\<lambda>plan. (pl_id plan, s plan)) plans \<and>
      (\<forall>plan. distinct (s plan) \<and> set (s plan) = {pp_platformUserId p |p. p \<in> set ps \<and> covers plan t p})"
  proof (induction ps rule: rev_induct)
    case Nil
    show ?case by (intro exI [of _ "\<lambda>_. []"]) (simp add: paidPeopleAt_def)
  next
    case (snoc p ps)
    then obtain s where s: "paidPeopleAt ps plans t = map (\<lambda>plan. (pl_id plan, s plan)) plans"
      "\<And>plan. distinct (s plan) \<and> set (s plan) = {pp_platformUserId p |p. p \<in> set ps \<and> covers plan t p}" by blast
    have "paidPeopleAt (ps @ [p]) plans t = add_paid plans t p (paidPeopleAt ps plans t)" by (simp add: paidPeopleAt_def)
    then show ?case unfolding s(1) add_paid_map [OF assms] using s(2)
      by (intro exI [of _ "\<lambda>plan. if covers plan t p then js_add (pp_platformUserId p) (s plan) else s plan"]) auto
  qed
  then obtain s where s: "paidPeopleAt ps plans t = map (\<lambda>plan. (pl_id plan, s plan)) plans"
    "\<And>plan. distinct (s plan) \<and> set (s plan) = {pp_platformUserId p |p. p \<in> set ps \<and> covers plan t p}" by blast
  have "{pp_platformUserId p |p. p \<in> set ps \<and> covers plan t p} =
      {pp_platformUserId p |p. p \<in> set ps \<and> (\<exists>q\<in>set plans. pl_id q = pl_id plan \<and> covers q t p)}" if "plan \<in> set plans" for plan
    using keyed_inj [OF assms] that by blast
  with s show ?thesis by (auto simp: comp_def)
qed

section \<open>The month ends\<close>

lemma month_end_at_now:
  "me_at (month_end_at now 0) = now"
  "0 < i \<Longrightarrow> utc_date (now + DHAKA_OFFSET_MS) = (y, m, d) \<Longrightarrow> me_at (month_end_at now i) = dhakaMonthStart y (m - int i + 1)"
proof -
  obtain y m d where u: "utc_date (now + DHAKA_OFFSET_MS) = (y, m, d)" by (cases "utc_date (now + DHAKA_OFFSET_MS)")
  have j: "12 * y + m - 3 = month_index (utc_day (now + DHAKA_OFFSET_MS))"
    using civil_from_days_spec(1) [of "utc_day (now + DHAKA_OFFSET_MS)" y m d] u by (simp add: utc_date_def)
  note b = month_index_bounds [of "utc_day (now + DHAKA_OFFSET_MS)", folded j]
  have "now + DHAKA_OFFSET_MS < date_utc y (m + 1) 1" using b(2) by (simp add: date_utc_gt algebra_simps)
  then show "me_at (month_end_at now 0) = now" by (simp add: month_end_at_def u Let_def)
  show "me_at (month_end_at now i) = dhakaMonthStart y' (m' - int i + 1)"
    if "0 < i" "utc_date (now + DHAKA_OFFSET_MS) = (y', m', d')" for i y' m' d'
  proof -
    from that(2) u have eq: "y' = y" "m' = m" by simp_all
    have "month_start (12 * y + (m - int i + 1) - 3) \<le> month_start (12 * y + m - 3)"
      using month_start_less [of "12 * y + m - 3" "12 * y + (m - int i + 1) - 3"] that(1) by (simp add: not_less [symmetric])
    with b(1) have "date_utc y (m - int i + 1) 1 \<le> now + DHAKA_OFFSET_MS" by (simp add: date_utc_le)
    then show ?thesis by (simp add: month_end_at_def u Let_def eq dhakaMonthStart_def)
  qed
qed

text \<open>
  The month ends of the history are the starts of the Dhaka months up to the current one, in their
  order, and now: the last is the moment itself, none lies after it, and they never run backwards.
\<close>

theorem month_ends_run_up_to_now:
  assumes "utc_date (now + DHAKA_OFFSET_MS) = (y, m, d)"
  shows "map me_at (monthEnds now (Suc n)) = map (\<lambda>i. dhakaMonthStart y (m - int i + 1)) (rev [1..<Suc n]) @ [now] \<and>
    sorted (map me_at (monthEnds now (Suc n)))"
proof -
  have "rev [0..<Suc n] = rev [1..<Suc n] @ [0]" by (simp add: upt_conv_Cons)
  then have ends: "map me_at (monthEnds now (Suc n)) = map (\<lambda>i. dhakaMonthStart y (m - int i + 1)) (rev [1..<Suc n]) @ [now]"
    using month_end_at_now(1) [of now] month_end_at_now(2) [OF _ assms] by (auto simp: monthEnds_def simp del: upt_Suc)
  have le: "dhakaMonthStart y (m - int i + 1) \<le> dhakaMonthStart y (m - int j + 1)" if "j \<le> i" for i j
  proof (cases "j = i")
    case False
    with that have "month_start (12 * y + (m - int i + 1) - 3) < month_start (12 * y + (m - int j + 1) - 3)" by (intro month_start_mono) simp
    then show ?thesis using date_utc_le [of y "m - int i + 1" "date_utc y (m - int j + 1) 1"] date_utc_le [of y "m - int j + 1" "date_utc y (m - int j + 1) 1"]
      by (simp add: dhakaMonthStart_def)
  qed simp
  have now: "dhakaMonthStart y (m - int i + 1) \<le> now" if "0 < i" for i
  proof -
    have "me_at (month_end_at now i) \<le> now" by (simp add: month_end_at_def Let_def split: prod.split)
    with month_end_at_now(2) [OF that assms] show ?thesis by simp
  qed
  have "sorted (map (\<lambda>i. dhakaMonthStart y (m - int i + 1)) (rev ks))" if "sorted ks" for ks :: "nat list"
    using that le by (induction ks) (auto simp: sorted_append)
  from this [of "[1..<Suc n]"] now show ?thesis unfolding ends by (auto simp: sorted_append simp del: upt_Suc)
qed

section \<open>Worked examples\<close>

definition the_free_plan :: plan_row where
  "the_free_plan = pro_plan\<lparr>pl_id := ''free'', pl_slug := ''free'', pl_billingCycle := FREE, pl_price := 0\<rparr>"

definition sample_plans :: billing_db where
  "sample_plans = sample_billing\<lparr>bl_plans := [pro_plan, the_free_plan]\<rparr>"

lemma sample_archive:
  "\<exists>d. archive_plan ''pro'' sample_request sample_plans = Inr d"
  by (simp add: archive_plan_def requirePlan_def update_row_def sample_plans_def sample_billing_def pro_plan_def the_free_plan_def)

theorem free_plan_stays_witness:
  "\<exists>d. plans_step\<^sup>*\<^sup>* sample_plans d \<and> (\<exists>q\<in>set (bl_plans d). pl_slug q = ''free'')"
proof -
  from sample_archive obtain d where "archive_plan ''pro'' sample_request sample_plans = Inr d" by blast
  then have steps: "plans_step\<^sup>*\<^sup>* sample_plans d" by (intro r_into_rtranclp plan_archived)
  have ok: "plans_ok sample_plans" by (simp add: plans_ok_def sample_plans_def sample_billing_def pro_plan_def the_free_plan_def)
  have "the_free_plan \<in> set (bl_plans sample_plans)" "pl_slug the_free_plan = ''free''" by (simp_all add: sample_plans_def the_free_plan_def)
  from free_plan_stays [OF steps ok this] steps show ?thesis by blast
qed

theorem paid_people_are_those_covered_witness:
  "map fst (paidPeopleAt (map paid_of (bl_payments sample_plans)) (bl_plans sample_plans) 5) = [''pro'', ''free'']"
proof -
  have "keyed pl_id (bl_plans sample_plans)" by (simp add: sample_plans_def pro_plan_def the_free_plan_def)
  from paid_people_are_those_covered [OF this, of "map paid_of (bl_payments sample_plans)" 5] show ?thesis
    by (simp add: sample_plans_def pro_plan_def the_free_plan_def)
qed

theorem month_ends_run_up_to_now_witness: "sorted (map me_at (monthEnds 0 6)) \<and> length (monthEnds 0 6) = 6"
proof -
  obtain y m d where u: "utc_date (0 + DHAKA_OFFSET_MS) = (y, m, d)" by (cases "utc_date (0 + DHAKA_OFFSET_MS)") simp
  have "sorted (map me_at (monthEnds 0 (Suc 5)))" using month_ends_run_up_to_now [OF u, of 5] by blast
  then show ?thesis by (simp add: monthEnds_def)
qed

text \<open>
  The counts a removal rests on are read before it: a workspace put on the plan in between loses it.
\<close>

theorem removal_clears_a_plan_just_given:
  "\<exists>d. remove_plan ''free2'' sample_request (sample_plans\<lparr>bl_plans := [pro_plan, the_free_plan\<lparr>pl_id := ''free2'', pl_slug := ''basic''\<rparr>]\<rparr>)
      (sample_plans\<lparr>bl_plans := [pro_plan, the_free_plan\<lparr>pl_id := ''free2'', pl_slug := ''basic''\<rparr>], bl_workspaces :=
        [\<lparr>wp_id = ''w'', wp_planId = Some ''free2'', wp_isDefault = True, wp_deletedAt = None, wp_ownerStatus = ACTIVE, wp_trialEndsAt = None\<rparr>]\<rparr>) = Inr d \<and>
    map wp_planId (bl_workspaces d) = [None]"
  by (simp add: remove_plan_def requirePlan_def delete_row_def workspaces_on_def FREE_PLAN_SLUG_def sample_plans_def sample_billing_def
      pro_plan_def the_free_plan_def Let_def)

end
