(* ===== verification/Revenue.thy ===== *)
theory Revenue
  imports Plans
begin

text \<open>
  The revenue pages (src/revenue): what payments brought in net of refunds, by month and by plan, the
  recurring revenue the workspaces' plans carry, and who joined and left. Amounts are whole paisa; the
  twelfth of a yearly price and the percentages are rationals where the code computes in doubles.
\<close>

section \<open>Recurring revenue\<close>

definition plan_of_workspace :: "billing_db \<Rightarrow> plan_workspace \<Rightarrow> plan_row option" where
  "plan_of_workspace d w = (case wp_planId w of None \<Rightarrow> None | Some i \<Rightarrow> find_row pl_id i (bl_plans d))"

definition paying :: "billing_db \<Rightarrow> plan_workspace \<Rightarrow> bool" where
  "paying d w \<longleftrightarrow> wp_deletedAt w = None \<and> wp_ownerStatus w = ACTIVE \<and>
     (case plan_of_workspace d w of None \<Rightarrow> False | Some p \<Rightarrow> pl_billingCycle p \<noteq> FREE)"

definition monthly_price :: "plan_row \<Rightarrow> rat" where
  "monthly_price p = (if pl_billingCycle p = YEARLY then dec (pl_price p) / 12 else dec (pl_price p))"

definition round_money :: "rat \<Rightarrow> money" where
  "round_money r = math_round (r * 100)"

definition computeMrr :: "billing_db \<Rightarrow> money" where
  "computeMrr d =
     round_money (sum_list (map (\<lambda>w. case plan_of_workspace d w of None \<Rightarrow> 0 | Some p \<Rightarrow> monthly_price p)
       (filter (paying d) (bl_workspaces d))))"

section \<open>The summary\<close>

record revenue_sums =
  rs_thisMonth :: money
  rs_lastMonth :: money
  rs_byPlan :: "(id \<times> string \<times> money) list"
  rs_trend :: "string \<rightharpoonup> money"

text \<open>\<open>Map.set\<close> of the entry of a plan: a new key goes to the end.\<close>

fun add_to_plan :: "id \<Rightarrow> string \<Rightarrow> money \<Rightarrow> (id \<times> string \<times> money) list \<Rightarrow> (id \<times> string \<times> money) list" where
  "add_to_plan i name amt [] = [(i, name, amt)]"
| "add_to_plan i name amt ((j, n, a) # rest) = (if j = i then (j, n, a + amt) # rest else (j, n, a) # add_to_plan i name amt rest)"

definition plan_name :: "billing_db \<Rightarrow> id \<Rightarrow> string" where
  "plan_name d i = (case find_row pl_id i (bl_plans d) of None \<Rightarrow> [] | Some p \<Rightarrow> pl_name p)"

definition add_revenue :: "billing_db \<Rightarrow> instant \<Rightarrow> instant \<Rightarrow> payment_row \<Rightarrow> revenue_sums \<Rightarrow> revenue_sums" where
  "add_revenue d thisMonthStart lastMonthStart payment s =
     (let amt = net_of d payment; key = month_text (pa_createdAt payment) in
      \<lparr>rs_thisMonth = (if thisMonthStart \<le> pa_createdAt payment then rs_thisMonth s + amt else rs_thisMonth s),
       rs_lastMonth = (if thisMonthStart \<le> pa_createdAt payment then rs_lastMonth s
          else if lastMonthStart \<le> pa_createdAt payment \<and> pa_createdAt payment < thisMonthStart then rs_lastMonth s + amt else rs_lastMonth s),
       rs_byPlan = add_to_plan (pa_planId payment) (plan_name d (pa_planId payment)) amt (rs_byPlan s),
       rs_trend = (rs_trend s)(key \<mapsto> orelse (rs_trend s key) 0 + amt)\<rparr>)"

definition revenue_sums_of :: "billing_db \<Rightarrow> instant \<Rightarrow> instant \<Rightarrow> payment_row list \<Rightarrow> revenue_sums" where
  "revenue_sums_of d thisMonthStart lastMonthStart payments =
     fold (add_revenue d thisMonthStart lastMonthStart) payments \<lparr>rs_thisMonth = 0, rs_lastMonth = 0, rs_byPlan = [], rs_trend = Map.empty\<rparr>"

record revenue_summary =
  rv_totalRevenue :: money
  rv_thisMonthRevenue :: money
  rv_lastMonthRevenue :: money
  rv_mrr :: money
  rv_revenueByPlan :: "(id \<times> string \<times> money) list"
  rv_revenueTrend :: "(string \<times> money) list"

definition completed_refunds :: "billing_db \<Rightarrow> refund_row list" where
  "completed_refunds d = filter (\<lambda>r. rn_status r = refund_status.COMPLETED \<and>
     (case find_row pa_id (rn_paymentId r) (bl_payments d) of None \<Rightarrow> False | Some p \<Rightarrow> took_money p)) (bl_refunds d)"

definition kept_payments :: "instant \<Rightarrow> billing_db \<Rightarrow> payment_row list" where
  "kept_payments since d = filter (\<lambda>p. took_money p \<and> since \<le> pa_createdAt p) (bl_payments d)"

definition revenue_summary_of :: "instant \<Rightarrow> billing_db \<Rightarrow> revenue_summary" where
  "revenue_summary_of now d =
     (case dhakaToday now of (year, month, _) \<Rightarrow>
      let thisMonthStart = dhakaMonthStart year month; lastMonthStart = dhakaMonthStart year (month - 1);
          acc = revenue_sums_of d thisMonthStart lastMonthStart (kept_payments (dhakaMonthStart year (month - 11)) d)
      in \<lparr>rv_totalRevenue = sum_by pa_amount (filter took_money (bl_payments d)) - sum_by rn_amount (completed_refunds d),
          rv_thisMonthRevenue = rs_thisMonth acc, rv_lastMonthRevenue = rs_lastMonth acc, rv_mrr = computeMrr d,
          rv_revenueByPlan = rs_byPlan acc,
          rv_revenueTrend = map (\<lambda>i. (iso_month (date_utc year (month - int i) 1), orelse (rs_trend acc (iso_month (date_utc year (month - int i) 1))) 0)) (rev [0..<12])\<rparr>)"

section \<open>Churn\<close>

record churn_figures =
  ch_churnedThisMonth :: nat
  ch_startOfMonthPaidCount :: nat
  ch_currentPaidCount :: nat
  ch_churnRatePercent :: rat

definition plan_id_of :: "audit_value option \<Rightarrow> id option" where
  "plan_id_of v = (case v of Some (PlanIdValue i) \<Rightarrow> i | _ \<Rightarrow> None)"

definition churn :: "instant \<Rightarrow> billing_db \<Rightarrow> churn_figures" where
  "churn now d =
     (case dhakaToday now of (year, month, _) \<Rightarrow>
      let thisMonthStart = dhakaMonthStart year month;
          currentPaidCount = length (filter (paying d) (bl_workspaces d));
          churnedThisMonth = (case find (\<lambda>p. pl_billingCycle p = FREE) (bl_plans d) of
             None \<Rightarrow> 0
           | Some freePlan \<Rightarrow>
               let downgrades = filter (\<lambda>l. au_action l = ''BUSINESS_PLAN_CHANGED'' \<and> thisMonthStart \<le> au_createdAt l \<and>
                     plan_id_of (au_newValue l) = Some (pl_id freePlan)) (bl_audit d)
               in length (js_set (map au_entityId (filter (\<lambda>l. plan_id_of (au_oldValue l) \<noteq> Some (pl_id freePlan)) downgrades))));
          startOfMonthPaidCount = currentPaidCount + churnedThisMonth;
          churnRate = (if 0 < startOfMonthPaidCount then of_nat churnedThisMonth / of_nat startOfMonthPaidCount else 0)
      in \<lparr>ch_churnedThisMonth = churnedThisMonth, ch_startOfMonthPaidCount = startOfMonthPaidCount,
          ch_currentPaidCount = currentPaidCount, ch_churnRatePercent = of_int (math_round (churnRate * 10000)) / 100\<rparr>)"

section \<open>The overview\<close>

definition everyone :: "(id \<times> id list) list \<Rightarrow> id list" where
  "everyone sets = js_set (concat (map snd sets))"

record revenue_overview =
  ro_month :: string
  ro_mrr :: money
  ro_arr :: money
  ro_mrrChangePct :: "rat option"
  ro_paidNow :: nat
  ro_joinedThisMonth :: nat
  ro_leftThisMonth :: nat
  ro_churn :: churn_figures
  ro_mrrHistory :: "(string \<times> money) list"
  ro_byPlan :: "(id \<times> string \<times> nat \<times> money) list"
  ro_thisMonthTotal :: money
  ro_refundsThisMonth :: "nat \<times> money"
  ro_couponsCostThisMonth :: money

definition monthly_price_of :: "plan_row list \<Rightarrow> id \<Rightarrow> rat" where
  "monthly_price_of plans i = (case find_row pl_id i plans of None \<Rightarrow> 0 | Some p \<Rightarrow> monthly_price p)"

definition mrr_at :: "plan_row list \<Rightarrow> (id \<times> id list) list \<Rightarrow> money" where
  "mrr_at plans people = round_money (sum_list (map (\<lambda>(i, s). of_nat (length s) * monthly_price_of plans i) people))"

fun add_plan_payment :: "id \<Rightarrow> money \<Rightarrow> (id \<times> nat \<times> money) list \<Rightarrow> (id \<times> nat \<times> money) list" where
  "add_plan_payment i amt [] = [(i, 1, amt)]"
| "add_plan_payment i amt ((j, n, a) # rest) = (if j = i then (j, Suc n, a + amt) # rest else (j, n, a) # add_plan_payment i amt rest)"

definition taken_by_plan :: "billing_db \<Rightarrow> payment_row list \<Rightarrow> (id \<times> string \<times> nat \<times> money) list" where
  "taken_by_plan d payments =
     (let byPlan = fold (\<lambda>p. add_plan_payment (pa_planId p) (net_of d p)) payments [];
          rows = concat (map (\<lambda>plan. case map_of byPlan (pl_id plan) of None \<Rightarrow> [] | Some (n, a) \<Rightarrow> [(pl_id plan, pl_name plan, n, a)]) (bl_plans d))
      in sort_key (\<lambda>r. - snd (snd (snd r))) rows)"

definition revenue_overview_of :: "instant \<Rightarrow> billing_db \<Rightarrow> revenue_overview" where
  "revenue_overview_of now d =
     (case dhakaToday now of (year, month, _) \<Rightarrow>
      let thisMonthStart = dhakaMonthStart year month; ends = monthEnds now 6; plans = bl_plans d;
          payments = kept_payments (look_back ends) d; mrr = computeMrr d; paid = map paid_of payments;
          peopleAt = paidPeopleAt paid plans;
          mrrHistory = map (\<lambda>e. (me_month e, mrr_at plans (peopleAt (me_at e)))) ends;
          paidNow = everyone (peopleAt now); paidAtLastMonthEnd = everyone (peopleAt (me_at (ends ! 4)));
          leftThisMonth = length (filter (\<lambda>person. person \<notin> set paidNow) paidAtLastMonthEnd);
          paidBefore = everyone (peopleAt (thisMonthStart - 1));
          joinedThisMonth = length (filter (\<lambda>person. person \<notin> set paidBefore) paidNow);
          thisMonth = filter (\<lambda>p. thisMonthStart \<le> pa_createdAt p) payments;
          refundsThisMonth = concat (map (\<lambda>p. case refund_of d p of None \<Rightarrow> []
            | Some r \<Rightarrow> if rn_status r = refund_status.COMPLETED \<and> thisMonthStart \<le> rn_createdAt r then [r] else []) payments)
      in \<lparr>ro_month = month_text thisMonthStart, ro_mrr = mrr, ro_arr = mrr * 12,
          ro_mrrChangePct = percent_change (snd (mrrHistory ! 5)) (snd (mrrHistory ! 4)),
          ro_paidNow = length paidNow, ro_joinedThisMonth = joinedThisMonth, ro_leftThisMonth = leftThisMonth,
          ro_churn = churn now d, ro_mrrHistory = mrrHistory, ro_byPlan = taken_by_plan d thisMonth,
          ro_thisMonthTotal = sum_by (net_of d) thisMonth,
          ro_refundsThisMonth = (length refundsThisMonth, sum_by rn_amount refundsThisMonth),
          ro_couponsCostThisMonth = sum_by (\<lambda>p. orelse (pa_discountApplied p) 0) (filter (\<lambda>p. truthy (pa_couponId p)) thisMonth)\<rparr>)"

section \<open>The figures agree\<close>

lemma add_to_plan_sum: "sum_by (\<lambda>(i, n, a). a) (add_to_plan i name amt rows) = sum_by (\<lambda>(i, n, a). a) rows + amt"
  by (induction i name amt rows rule: add_to_plan.induct) auto

lemma revenue_sums_fold:
  "rs_thisMonth (fold (add_revenue d a b) ps s) = rs_thisMonth s + sum_by (net_of d) (filter (\<lambda>p. a \<le> pa_createdAt p) ps)"
  "rs_lastMonth (fold (add_revenue d a b) ps s) = rs_lastMonth s + sum_by (net_of d) (filter (\<lambda>p. b \<le> pa_createdAt p \<and> pa_createdAt p < a) ps)"
  "sum_by (\<lambda>(i, n, m). m) (rs_byPlan (fold (add_revenue d a b) ps s)) = sum_by (\<lambda>(i, n, m). m) (rs_byPlan s) + sum_by (net_of d) ps"
  "orelse (rs_trend (fold (add_revenue d a b) ps s) key) 0 =
     orelse (rs_trend s key) 0 + sum_by (net_of d) (filter (\<lambda>p. month_text (pa_createdAt p) = key) ps)"
  by (induction ps arbitrary: s) (auto simp: add_revenue_def Let_def add_to_plan_sum)

end
