(* ===== verification/Revenue_Facts.thy ===== *)
theory Revenue_Facts
  imports Revenue Billing_Facts
begin

text \<open>
  How the figures of the revenue pages agree: the two totals with the payments one by one, the
  splits by plan and by month with the whole, and a churn rate that is a percentage.
\<close>

section \<open>Net of refunds\<close>

definition given_back :: "billing_db \<Rightarrow> payment_row \<Rightarrow> money" where
  "given_back d p = (case refund_of d p of None \<Rightarrow> 0 | Some r \<Rightarrow> if rn_status r = refund_status.COMPLETED then rn_amount r else 0)"

lemma net_of_given_back: "net_of d p = pa_amount p - given_back d p"
  by (simp add: net_of_def given_back_def)

lemma refunds_of_payment:
  assumes "refunds_ok d" and "p \<in> set (bl_payments d)" and "took_money p"
  shows "sum_by rn_amount (filter (\<lambda>r. rn_paymentId r = pa_id p) (completed_refunds d)) = given_back d p"
proof -
  have found: "find_row pa_id (pa_id p) (bl_payments d) = Some p"
    using find_row_mem assms(1,2) by (auto simp: refunds_ok_def)
  have f: "filter (\<lambda>r. rn_paymentId r = pa_id p) (completed_refunds d) =
      filter (\<lambda>r. rn_status r = refund_status.COMPLETED) (filter (\<lambda>r. rn_paymentId r = pa_id p) (bl_refunds d))"
    unfolding completed_refunds_def filter_filter using found assms(3) by (intro filter_cong) auto
  show ?thesis
  proof (cases "refund_of d p")
    case None
    then have "filter (\<lambda>r. rn_paymentId r = pa_id p) (bl_refunds d) = []"
      by (auto simp: refund_of_def find_row_None filter_empty_conv image_iff)
    then show ?thesis unfolding f by (simp add: given_back_def None)
  next
    case (Some r)
    then have r: "r \<in> set (bl_refunds d)" "rn_paymentId r = pa_id p" unfolding refund_of_def using find_row_Some by fastforce+
    have "filter (\<lambda>x. rn_paymentId x = rn_paymentId r) (bl_refunds d) = [r]"
      using assms(1) r(1) by (intro the_one_of_key) (simp_all add: refunds_ok_def)
    then show ?thesis unfolding f by (simp add: given_back_def Some r(2))
  qed
qed

lemma completed_refunds_total:
  assumes "refunds_ok d"
  shows "sum_by rn_amount (completed_refunds d) = sum_by (given_back d) (filter took_money (bl_payments d))"
proof -
  have "sum_by (\<lambda>p. sum_by rn_amount (filter (\<lambda>r. rn_paymentId r = pa_id p) (completed_refunds d))) (filter took_money (bl_payments d)) =
      sum_by rn_amount (completed_refunds d)"
  proof (rule sum_by_member)
    show "distinct (map pa_id (filter took_money (bl_payments d)))"
      using assms by (simp add: refunds_ok_def keyed_def distinct_map_filter)
    fix r assume "r \<in> set (completed_refunds d)"
    then obtain p where "find_row pa_id (rn_paymentId r) (bl_payments d) = Some p" "took_money p"
      by (auto simp: completed_refunds_def split: option.splits)
    with find_row_Some [OF this(1)] show "rn_paymentId r \<in> pa_id ` set (filter took_money (bl_payments d))" by force
  qed
  moreover have "sum_by (\<lambda>p. sum_by rn_amount (filter (\<lambda>r. rn_paymentId r = pa_id p) (completed_refunds d))) (filter took_money (bl_payments d)) =
      sum_by (given_back d) (filter took_money (bl_payments d))"
    by (rule sum_by_cong) (use refunds_of_payment [OF assms] in simp)
  ultimately show ?thesis by simp
qed

text \<open>
  The revenue summary adds up. The all-time total is what the payments brought in one by one, each
  net of its own refund; the amounts by plan add up to the payments of the last twelve months; and
  each month of the trend shows the payments made in it.
\<close>

theorem revenue_summary_adds_up:
  assumes "refunds_ok d" and "dhakaToday now = (year, month, day)"
  shows "let s = revenue_summary_of now d; kept = kept_payments (dhakaMonthStart year (month - 11)) d in
    rv_totalRevenue s = sum_by (net_of d) (filter took_money (bl_payments d)) \<and>
    sum_by (\<lambda>(i, name, a). a) (rv_revenueByPlan s) = sum_by (net_of d) kept \<and>
    rv_thisMonthRevenue s = sum_by (net_of d) (filter (\<lambda>p. dhakaMonthStart year month \<le> pa_createdAt p) kept) \<and>
    map snd (rv_revenueTrend s) =
      map (\<lambda>key. sum_by (net_of d) (filter (\<lambda>p. month_text (pa_createdAt p) = key) kept)) (map fst (rv_revenueTrend s))"
proof -
  define s where "s = revenue_summary_of now d"
  define kept where "kept = kept_payments (dhakaMonthStart year (month - 11)) d"
  note s' = s_def revenue_summary_of_def assms(2) revenue_sums_of_def kept_def [symmetric] Let_def
  have "net_of d = (\<lambda>p. pa_amount p - given_back d p)" by (rule ext) (rule net_of_given_back)
  then have "rv_totalRevenue s = sum_by (net_of d) (filter took_money (bl_payments d))"
    using completed_refunds_total [OF assms(1)] by (simp add: s' sum_by_diff)
  moreover have "sum_by (\<lambda>(i, name, a). a) (rv_revenueByPlan s) = sum_by (net_of d) kept"
    "rv_thisMonthRevenue s = sum_by (net_of d) (filter (\<lambda>p. dhakaMonthStart year month \<le> pa_createdAt p) kept)"
    by (simp_all add: s' revenue_sums_fold)
  moreover have "map snd (rv_revenueTrend s) =
      map (\<lambda>key. sum_by (net_of d) (filter (\<lambda>p. month_text (pa_createdAt p) = key) kept)) (map fst (rv_revenueTrend s))"
    by (simp add: s' revenue_sums_fold del: upt_rec_numeral)
  ultimately show ?thesis unfolding Let_def s_def kept_def by blast
qed

section \<open>Churn\<close>

text \<open>
  The churn rate is a percentage between 0 and 100, and 100 exactly when nobody pays any more and
  somebody left.
\<close>

theorem churn_rate_is_a_percentage:
  "let c = churn now d in 0 \<le> ch_churnRatePercent c \<and> ch_churnRatePercent c \<le> 100 \<and>
    ch_startOfMonthPaidCount c = ch_currentPaidCount c + ch_churnedThisMonth c \<and>
    (ch_currentPaidCount c = 0 \<and> 0 < ch_churnedThisMonth c \<longrightarrow> ch_churnRatePercent c = 100)"
proof -
  obtain year month day where t: "dhakaToday now = (year, month, day)" by (cases "dhakaToday now")
  define c where "c = churn now d"
  define n where "n = ch_churnedThisMonth c"
  define paid where "paid = ch_currentPaidCount c"
  have start: "ch_startOfMonthPaidCount c = paid + n" by (simp add: c_def n_def paid_def churn_def t Let_def)
  have rate: "ch_churnRatePercent c = of_int (math_round ((if 0 < paid + n then of_nat n / of_nat (paid + n) else 0) * 10000)) / 100"
    by (simp add: c_def n_def paid_def churn_def t Let_def)
  define r :: rat where "r = (if 0 < paid + n then of_nat n / of_nat (paid + n) else 0)"
  have r: "0 \<le> r" "r \<le> 1" by (auto simp: r_def divide_le_eq_1)
  then have "0 \<le> math_round (r * 10000)" "math_round (r * 10000) \<le> 10000"
    unfolding math_round_def by linarith+
  moreover have "math_round (r * 10000) = 10000" if "paid = 0" "0 < n"
    using that math_round_of_int [of 10000] by (simp add: r_def)
  ultimately show ?thesis
    unfolding Let_def c_def [symmetric] start rate r_def [symmetric] n_def [symmetric] paid_def [symmetric] by auto
qed

section \<open>Worked examples\<close>

theorem revenue_summary_adds_up_witness: "rv_totalRevenue (revenue_summary_of 5 sample_billing) = 79900"
proof -
  obtain y m dd where t: "dhakaToday 5 = (y, m, dd)" by (cases "dhakaToday 5") simp
  have "rv_totalRevenue (revenue_summary_of 5 sample_billing) = sum_by (net_of sample_billing) (filter took_money (bl_payments sample_billing))"
    using revenue_summary_adds_up [OF sample_billing_ok t] unfolding Let_def by blast
  also have "\<dots> = 79900" by (simp add: sample_billing_def took_money_def net_of_def refund_of_def)
  finally show ?thesis .
qed

theorem churn_rate_is_a_percentage_witness:
  "ch_currentPaidCount (churn 5 sample_billing) = 0 \<and> 0 \<le> ch_churnRatePercent (churn 5 sample_billing)"
proof -
  have "ch_currentPaidCount (churn 5 sample_billing) = 0"
    by (simp add: churn_def Let_def sample_billing_def split: prod.split)
  then show ?thesis using churn_rate_is_a_percentage [of 5 sample_billing] by (simp add: Let_def)
qed

end
