(* ===== verification/Habits.thy ===== *)
theory Habits
  imports Shelf Decimals
begin

text \<open>
  The habits a user checks off (src/habits/habits.service.ts): one log row per habit and day, the list
  of today with its streaks, the month view and the statistics. A day is the UTC day here, kept as
  its midnight where the code keeps the text of its date.
\<close>

section \<open>State and requests\<close>

datatype habit_frequency = DAILY | WEEKLY_DAYS | WEEKLY_COUNT

record habit_row =
  hb_id :: id
  hb_userId :: id
  hb_name :: string
  hb_category :: string
  hb_icon :: string
  hb_color :: string
  hb_frequencyType :: habit_frequency
  hb_weeklyDays :: "int list"
  hb_weeklyCount :: "int option"
  hb_targetValue :: "int option"
  hb_unit :: "string option"
  hb_isArchived :: bool
  hb_createdAt :: instant

record habit_log =
  hl_id :: id
  hl_habitId :: id
  hl_date :: instant
  hl_completed :: bool
  hl_value :: "int option"
  hl_note :: "string option"

record habits_db =
  hd_habits :: "habit_row list"
  hd_logs :: "habit_log list"

record create_habit_dto =
  ch_name :: string
  ch_category :: "string option"
  ch_icon :: "string option"
  ch_color :: "string option"
  ch_frequencyType :: "habit_frequency option"
  ch_weeklyDays :: "int list option"
  ch_weeklyCount :: "int option"
  ch_targetValue :: "int option"
  ch_unit :: "string option"

text \<open>A nullable column may be set to null; for the others a null is not modelled.\<close>

record update_habit_dto =
  uh_name :: "string option"
  uh_category :: "string option"
  uh_icon :: "string option"
  uh_color :: "string option"
  uh_frequencyType :: "habit_frequency option"
  uh_weeklyDays :: "int list option"
  uh_weeklyCount :: "int option option"
  uh_targetValue :: "int option option"
  uh_unit :: "string option option"
  uh_isArchived :: "bool option"

record check_in_dto =
  cn_date :: instant
  cn_completed :: "bool option"
  cn_value :: "int option option"
  cn_note :: "string option option"

definition week_ok :: "int list option \<Rightarrow> int option \<Rightarrow> bool" where
  "week_ok days count \<longleftrightarrow> (\<forall>d\<in>set (orelse days []). 0 \<le> d \<and> d \<le> 6) \<and> (case count of None \<Rightarrow> True | Some n \<Rightarrow> 1 \<le> n \<and> n \<le> 7)"

definition create_habit_dto_ok :: "create_habit_dto \<Rightarrow> bool" where
  "create_habit_dto_ok dto \<longleftrightarrow> ch_name dto \<noteq> [] \<and> week_ok (ch_weeklyDays dto) (ch_weeklyCount dto) \<and>
     (case ch_targetValue dto of None \<Rightarrow> True | Some n \<Rightarrow> 1 \<le> n)"

definition update_habit_dto_ok :: "update_habit_dto \<Rightarrow> bool" where
  "update_habit_dto_ok dto \<longleftrightarrow> uh_name dto \<noteq> Some [] \<and> week_ok (uh_weeklyDays dto) (orelse (uh_weeklyCount dto) None) \<and>
     (case orelse (uh_targetValue dto) None of None \<Rightarrow> True | Some n \<Rightarrow> 1 \<le> n)"

section \<open>Habits\<close>

definition listHabits :: "id \<Rightarrow> bool \<Rightarrow> string option \<Rightarrow> habit_row list \<Rightarrow> habit_row list" where
  "listHabits userId includeArchived category habits =
     find_many (\<lambda>h. hb_userId h = userId \<and> (includeArchived \<or> \<not> hb_isArchived h) \<and> (truthy category \<longrightarrow> category = Some (hb_category h)))
       hb_createdAt habits"

definition requireHabit :: "id \<Rightarrow> id \<Rightarrow> habit_row list \<Rightarrow> habit_row result" where
  "requireHabit userId i habits = require_row hb_id hb_userId (NotFound ''Habit not found'') userId i habits"

definition createHabit :: "id \<Rightarrow> instant \<Rightarrow> id \<Rightarrow> create_habit_dto \<Rightarrow> habits_db \<Rightarrow> (habits_db \<times> habit_row) result" where
  "createHabit newId now userId dto db =
     (let h = \<lparr>hb_id = newId, hb_userId = userId, hb_name = ch_name dto, hb_category = orelse (ch_category dto) ''Others'',
        hb_icon = orelse (ch_icon dto) ''target'', hb_color = orelse (ch_color dto) ''blue'',
        hb_frequencyType = orelse (ch_frequencyType dto) DAILY, hb_weeklyDays = orelse (ch_weeklyDays dto) [],
        hb_weeklyCount = ch_weeklyCount dto, hb_targetValue = ch_targetValue dto, hb_unit = ch_unit dto,
        hb_isArchived = False, hb_createdAt = now\<rparr> in
      rbind (insert_row hb_id h (hd_habits db)) (\<lambda>t. Inr (db\<lparr>hd_habits := t\<rparr>, h)))"

definition edited_habit :: "update_habit_dto \<Rightarrow> habit_row \<Rightarrow> habit_row" where
  "edited_habit dto h =
     h\<lparr>hb_name := orelse (uh_name dto) (hb_name h), hb_category := orelse (uh_category dto) (hb_category h),
       hb_icon := orelse (uh_icon dto) (hb_icon h), hb_color := orelse (uh_color dto) (hb_color h),
       hb_frequencyType := orelse (uh_frequencyType dto) (hb_frequencyType h),
       hb_weeklyDays := orelse (uh_weeklyDays dto) (hb_weeklyDays h), hb_weeklyCount := orelse (uh_weeklyCount dto) (hb_weeklyCount h),
       hb_targetValue := orelse (uh_targetValue dto) (hb_targetValue h), hb_unit := orelse (uh_unit dto) (hb_unit h),
       hb_isArchived := orelse (uh_isArchived dto) (hb_isArchived h)\<rparr>"

definition updateHabit :: "id \<Rightarrow> id \<Rightarrow> update_habit_dto \<Rightarrow> habits_db \<Rightarrow> habits_db result" where
  "updateHabit userId i dto db =
     rbind (requireHabit userId i (hd_habits db)) (\<lambda>_.
     rbind (update_row hb_id i (edited_habit dto) (hd_habits db)) (\<lambda>t. Inr (db\<lparr>hd_habits := t\<rparr>)))"

datatype habit_removal = Deleted | Archived

text \<open>
  The logs are counted in the state the request read, \<open>seen\<close>; the delete, which takes the logs of
  the habit with it, or the archiving is applied to the state it finds.
\<close>

definition deleteHabit :: "id \<Rightarrow> id \<Rightarrow> habits_db \<Rightarrow> habits_db \<Rightarrow> (habits_db \<times> id \<times> habit_removal) result" where
  "deleteHabit userId i seen there =
     rbind (requireHabit userId i (hd_habits seen)) (\<lambda>_.
     if filter (\<lambda>l. hl_habitId l = i) (hd_logs seen) = [] then
       rbind (delete_row hb_id i (hd_habits there)) (\<lambda>t.
       Inr (there\<lparr>hd_habits := t, hd_logs := filter (\<lambda>l. hl_habitId l \<noteq> i) (hd_logs there)\<rparr>, i, Deleted))
     else
       rbind (update_row hb_id i (\<lambda>h. h\<lparr>hb_isArchived := True\<rparr>) (hd_habits there)) (\<lambda>t.
       Inr (there\<lparr>hd_habits := t\<rparr>, i, Archived)))"

section \<open>Check-ins\<close>

definition habit_log_key :: "habit_log \<Rightarrow> id \<times> instant" where
  "habit_log_key l = (hl_habitId l, hl_date l)"

definition checkIn :: "id \<Rightarrow> id \<Rightarrow> id \<Rightarrow> check_in_dto \<Rightarrow> habits_db \<Rightarrow> habits_db result" where
  "checkIn newId userId habitId dto db =
     rbind (requireHabit userId habitId (hd_habits db)) (\<lambda>_.
     let date = db_date (cn_date dto); completed = orelse (cn_completed dto) True in
     if (habitId, date) \<in> habit_log_key ` set (hd_logs db)
     then Inr (db\<lparr>hd_logs := map_row habit_log_key (habitId, date)
            (\<lambda>l. l\<lparr>hl_completed := completed, hl_value := orelse (cn_value dto) (hl_value l), hl_note := orelse (cn_note dto) (hl_note l)\<rparr>) (hd_logs db)\<rparr>)
     else rbind (insert_row hl_id \<lparr>hl_id = newId, hl_habitId = habitId, hl_date = date, hl_completed = completed,
            hl_value = orelse (cn_value dto) None, hl_note = orelse (cn_note dto) None\<rparr> (hd_logs db)) (\<lambda>t. Inr (db\<lparr>hd_logs := t\<rparr>)))"

definition removeCheckIn :: "id \<Rightarrow> id \<Rightarrow> instant \<Rightarrow> habits_db \<Rightarrow> habits_db result" where
  "removeCheckIn userId habitId date db =
     rbind (requireHabit userId habitId (hd_habits db)) (\<lambda>_.
     Inr (db\<lparr>hd_logs := filter (\<lambda>l. habit_log_key l \<noteq> (habitId, db_date date)) (hd_logs db)\<rparr>))"

section \<open>Streaks\<close>

text \<open>The completed days of each habit, as the set the loop over the logs gathers.\<close>

definition add_date_key :: "habit_log \<Rightarrow> (id \<rightharpoonup> instant list) \<Rightarrow> id \<rightharpoonup> instant list" where
  "add_date_key l m = m(hl_habitId l \<mapsto> List.insert (db_date (hl_date l)) (orelse (m (hl_habitId l)) []))"

definition date_keys_by_habit :: "id list \<Rightarrow> habit_log list \<Rightarrow> id \<rightharpoonup> instant list" where
  "date_keys_by_habit ids logs = fold add_date_key (filter (\<lambda>l. hl_habitId l \<in> set ids \<and> hl_completed l) logs) Map.empty"

text \<open>The loop back from the cursor ends since each round leaves one day fewer before the cursor.\<close>

function streak_back :: "instant list \<Rightarrow> instant \<Rightarrow> nat" where
  "streak_back keys cursor = (if cursor \<in> set keys then Suc (streak_back keys (cursor - day_ms)) else 0)"
  by pat_completeness auto

termination
proof (relation "measure (\<lambda>(keys, cursor). card {k \<in> set keys. k \<le> cursor})", goal_cases)
  case (2 keys cursor)
  have "{k \<in> set keys. k \<le> cursor - day_ms} \<subset> {k \<in> set keys. k \<le> cursor}"
  proof (rule psubsetI)
    have "cursor \<in> {k \<in> set keys. k \<le> cursor}" "cursor \<notin> {k \<in> set keys. k \<le> cursor - day_ms}"
      using 2 by (simp_all add: day_ms_def)
    then show "{k \<in> set keys. k \<le> cursor - day_ms} \<noteq> {k \<in> set keys. k \<le> cursor}" by blast
  qed (auto simp: day_ms_def)
  then show ?case by (simp add: psubset_card_mono)
qed simp

declare streak_back.simps [simp del]

definition streak_of :: "instant \<Rightarrow> instant list \<Rightarrow> nat" where
  "streak_of now keys = (let cursor = db_date now in streak_back keys (if cursor \<in> set keys then cursor else cursor - day_ms))"

definition computeStreaks :: "instant \<Rightarrow> id list \<Rightarrow> habit_log list \<Rightarrow> id \<rightharpoonup> nat" where
  "computeStreaks now ids logs =
     fold (\<lambda>i m. m(i \<mapsto> (case date_keys_by_habit ids logs i of None \<Rightarrow> 0 | Some keys \<Rightarrow> streak_of now keys))) ids Map.empty"

section \<open>Today, the month and the statistics\<close>

record habit_today =
  ht_habit :: habit_row
  ht_todayLog :: "habit_log option"
  ht_streak :: nat

record habit_stats =
  hs_habitId :: id
  hs_name :: string
  hs_icon :: string
  hs_color :: string
  hs_currentStreak :: nat
  hs_last30DaysCompleted :: nat
  hs_completionRate :: int

text \<open>\<open>getUTCDay\<close>: 0 is Sunday; 1 January 1970 was a Thursday.\<close>

definition utc_weekday :: "instant \<Rightarrow> int" where
  "utc_weekday t = (utc_day t + 4) mod 7"

definition scheduled_on :: "int \<Rightarrow> habit_row \<Rightarrow> bool" where
  "scheduled_on dow h \<longleftrightarrow> hb_frequencyType h \<noteq> WEEKLY_DAYS \<or> dow \<in> set (hb_weeklyDays h)"

definition getToday :: "instant \<Rightarrow> id \<Rightarrow> habits_db \<Rightarrow> habit_today list" where
  "getToday now userId db =
     (let habits = listHabits userId False None (hd_habits db); today = db_date now; ids = map hb_id habits;
          logs = filter (\<lambda>l. hl_habitId l \<in> set ids \<and> hl_date l = today) (hd_logs db);
          logByHabit = map_of (rev (map (\<lambda>l. (hl_habitId l, l)) logs)); streaks = computeStreaks now ids (hd_logs db)
      in map (\<lambda>h. \<lparr>ht_habit = h, ht_todayLog = logByHabit (hb_id h), ht_streak = orelse (streaks (hb_id h)) 0\<rparr>)
           (filter (scheduled_on (utc_weekday today)) habits))"

text \<open>The month is asked for as \<open>YYYY-MM\<close>: a year and a month.\<close>

definition getMonthLogs :: "id \<Rightarrow> int \<Rightarrow> int \<Rightarrow> habits_db \<Rightarrow> habit_row list \<times> habit_log list" where
  "getMonthLogs userId year month db =
     (let habits = listHabits userId True None (hd_habits db); since = date_utc year month 1; upto = date_utc year (month + 1) 1 in
      (habits, filter (\<lambda>l. hl_habitId l \<in> hb_id ` set habits \<and> since \<le> hl_date l \<and> hl_date l < upto) (hd_logs db)))"

definition add_count :: "habit_log \<Rightarrow> (id \<rightharpoonup> nat) \<Rightarrow> id \<rightharpoonup> nat" where
  "add_count l m = m(hl_habitId l \<mapsto> Suc (orelse (m (hl_habitId l)) 0))"

definition getStats :: "instant \<Rightarrow> id \<Rightarrow> habits_db \<Rightarrow> habit_stats list" where
  "getStats now userId db =
     (let habits = listHabits userId False None (hd_habits db); ids = map hb_id habits; streaks = computeStreaks now ids (hd_logs db);
          last30From = db_date now - 29 * day_ms;
          logs = filter (\<lambda>l. hl_habitId l \<in> set ids \<and> last30From \<le> hl_date l \<and> hl_completed l) (hd_logs db);
          counts = fold add_count logs Map.empty
      in map (\<lambda>h. \<lparr>hs_habitId = hb_id h, hs_name = hb_name h, hs_icon = hb_icon h, hs_color = hb_color h,
                  hs_currentStreak = orelse (streaks (hb_id h)) 0, hs_last30DaysCompleted = orelse (counts (hb_id h)) 0,
                  hs_completionRate = math_round (of_nat (orelse (counts (hb_id h)) 0) / 30 * 100)\<rparr>) habits)"

end
