(* ===== verification/Habit_Facts.thy ===== *)
theory Habit_Facts
  imports Habits
begin

text \<open>
  What the habits promise: one log per habit and day over whatever is done, history that outlives a
  deletion, check-ins that can be repeated and taken back, streaks that are the unbroken run of
  completed days -- and where the statistics and a crossing deletion fall short.
\<close>

section \<open>What every operation keeps\<close>

definition week_row_ok :: "habit_row \<Rightarrow> bool" where
  "week_row_ok h \<longleftrightarrow> hb_name h \<noteq> [] \<and> (\<forall>d\<in>set (hb_weeklyDays h). 0 \<le> d \<and> d \<le> 6) \<and>
     (case hb_weeklyCount h of None \<Rightarrow> True | Some n \<Rightarrow> 1 \<le> n \<and> n \<le> 7) \<and> (case hb_targetValue h of None \<Rightarrow> True | Some n \<Rightarrow> 1 \<le> n)"

definition habits_ok :: "habits_db \<Rightarrow> bool" where
  "habits_ok db \<longleftrightarrow> keyed hb_id (hd_habits db) \<and> keyed hl_id (hd_logs db) \<and> keyed habit_log_key (hd_logs db) \<and>
     (\<forall>l\<in>set (hd_logs db). hl_habitId l \<in> hb_id ` set (hd_habits db)) \<and> (\<forall>l\<in>set (hd_logs db). db_date (hl_date l) = hl_date l) \<and>
     (\<forall>h\<in>set (hd_habits db). week_row_ok h)"

lemma requireHabit_eq_Inr: "requireHabit u i t = Inr h \<longleftrightarrow> find_row hb_id i t = Some h \<and> hb_userId h = u"
  by (simp add: requireHabit_def require_row_eq_Inr)

lemma createHabit_ok:
  assumes "createHabit n now u dto db = Inr (db', h)" and "habits_ok db" and "create_habit_dto_ok dto"
  shows "habits_ok db'"
proof -
  have "week_row_ok h"
    using assms(1,3) by (auto simp: createHabit_def Let_def rbind_eq_Inr week_row_ok_def create_habit_dto_ok_def week_ok_def)
  moreover from assms(1) have "hb_id h \<notin> hb_id ` set (hd_habits db)" "db' = db\<lparr>hd_habits := hd_habits db @ [h]\<rparr>"
    by (auto simp: createHabit_def Let_def rbind_eq_Inr insert_row_eq_Inr)
  ultimately show ?thesis using assms(2) by (auto simp: habits_ok_def)
qed

lemma edited_habit_ok: "week_row_ok h \<Longrightarrow> update_habit_dto_ok dto \<Longrightarrow> week_row_ok (edited_habit dto h) \<and> hb_id (edited_habit dto h) = hb_id h"
  by (auto simp: week_row_ok_def update_habit_dto_ok_def edited_habit_def week_ok_def orelse_def split: option.splits)

lemma edited_habit_id [simp]: "hb_id (edited_habit dto h) = hb_id h"
  by (simp add: edited_habit_def)

lemma same_keys_image:
  assumes "\<And>r. key (f r) = key r"
  shows "key ` set (map_row key k f t) = key ` set t"
  using assms by (simp add: map_row_proj flip: set_map)

text \<open>Habits edited in place: same ids, each row still well formed.\<close>

lemma habits_ok_edited:
  assumes "habits_ok db" and "\<And>h. hb_id (f h) = hb_id h" and "\<And>h. week_row_ok h \<Longrightarrow> week_row_ok (f h)"
  shows "habits_ok (db\<lparr>hd_habits := map_row hb_id i f (hd_habits db)\<rparr>)"
proof -
  have "\<forall>h\<in>set (map_row hb_id i f (hd_habits db)). week_row_ok h"
    using assms(1,3) by (auto simp: set_map_row habits_ok_def)
  with assms(1) show ?thesis by (simp add: habits_ok_def keyed_map_row same_keys_image assms(2))
qed

lemma updateHabit_ok:
  assumes "updateHabit u i dto db = Inr db'" and "habits_ok db" and "update_habit_dto_ok dto"
  shows "habits_ok db'"
proof -
  from assms(1) have db': "db' = db\<lparr>hd_habits := map_row hb_id i (edited_habit dto) (hd_habits db)\<rparr>"
    by (auto simp: updateHabit_def rbind_eq_Inr update_row_eq_Inr)
  show ?thesis unfolding db' by (rule habits_ok_edited [OF assms(2)]) (use assms(3) in \<open>simp_all add: edited_habit_ok\<close>)
qed

lemma deleteHabitE:
  assumes "deleteHabit u i seen there = Inr (db', j, act)"
  obtains "act = Deleted" "\<forall>l\<in>set (hd_logs seen). hl_habitId l \<noteq> i"
      "db' = there\<lparr>hd_habits := filter (\<lambda>h. hb_id h \<noteq> i) (hd_habits there), hd_logs := filter (\<lambda>l. hl_habitId l \<noteq> i) (hd_logs there)\<rparr>"
    | "act = Archived" "\<exists>l\<in>set (hd_logs seen). hl_habitId l = i"
      "db' = there\<lparr>hd_habits := map_row hb_id i (\<lambda>h. h\<lparr>hb_isArchived := True\<rparr>) (hd_habits there)\<rparr>"
  using assms unfolding deleteHabit_def
  by (auto simp: rbind_eq_Inr delete_row_eq_Inr update_row_eq_Inr filter_empty_conv split: if_splits)

lemma deleteHabit_ok:
  assumes "deleteHabit u i seen db = Inr (db', j, act)" and "habits_ok db"
  shows "habits_ok db'"
  using assms(1)
proof (rule deleteHabitE)
  assume "db' = db\<lparr>hd_habits := filter (\<lambda>h. hb_id h \<noteq> i) (hd_habits db), hd_logs := filter (\<lambda>l. hl_habitId l \<noteq> i) (hd_logs db)\<rparr>"
  with assms(2) show ?thesis by (auto simp: habits_ok_def keyed_filter)
next
  assume db': "db' = db\<lparr>hd_habits := map_row hb_id i (\<lambda>h. h\<lparr>hb_isArchived := True\<rparr>) (hd_habits db)\<rparr>"
  show ?thesis unfolding db' by (rule habits_ok_edited [OF assms(2)]) (simp_all add: week_row_ok_def)
qed

lemma checkInE:
  assumes "checkIn n u i dto db = Inr db'"
  obtains h f where "find_row hb_id i (hd_habits db) = Some h" "hb_userId h = u" "(i, db_date (cn_date dto)) \<in> habit_log_key ` set (hd_logs db)"
      "f = (\<lambda>l. l\<lparr>hl_completed := orelse (cn_completed dto) True, hl_value := orelse (cn_value dto) (hl_value l), hl_note := orelse (cn_note dto) (hl_note l)\<rparr>)"
      "db' = db\<lparr>hd_logs := map_row habit_log_key (i, db_date (cn_date dto)) f (hd_logs db)\<rparr>"
    | h l where "find_row hb_id i (hd_habits db) = Some h" "hb_userId h = u" "(i, db_date (cn_date dto)) \<notin> habit_log_key ` set (hd_logs db)"
      "l = \<lparr>hl_id = n, hl_habitId = i, hl_date = db_date (cn_date dto), hl_completed = orelse (cn_completed dto) True,
        hl_value = orelse (cn_value dto) None, hl_note = orelse (cn_note dto) None\<rparr>" "n \<notin> hl_id ` set (hd_logs db)"
      "db' = db\<lparr>hd_logs := hd_logs db @ [l]\<rparr>"
  using assms unfolding checkIn_def Let_def
  by (auto simp: rbind_eq_Inr requireHabit_eq_Inr insert_row_eq_Inr split: if_splits)

lemma checkIn_ok:
  assumes "checkIn n u i dto db = Inr db'" and "habits_ok db"
  shows "habits_ok db'"
  using assms(1)
proof (rule checkInE)
  fix h and f :: "habit_log \<Rightarrow> habit_log"
  assume f: "f = (\<lambda>l. l\<lparr>hl_completed := orelse (cn_completed dto) True, hl_value := orelse (cn_value dto) (hl_value l), hl_note := orelse (cn_note dto) (hl_note l)\<rparr>)"
    and db': "db' = db\<lparr>hd_logs := map_row habit_log_key (i, db_date (cn_date dto)) f (hd_logs db)\<rparr>"
  have same: "hl_id (f l) = hl_id l" "hl_habitId (f l) = hl_habitId l" "hl_date (f l) = hl_date l" "habit_log_key (f l) = habit_log_key l" for l
    by (simp_all add: f habit_log_key_def)
  then have "map hl_id (hd_logs db') = map hl_id (hd_logs db)" "map hl_habitId (hd_logs db') = map hl_habitId (hd_logs db)"
    "map hl_date (hd_logs db') = map hl_date (hd_logs db)" "map habit_log_key (hd_logs db') = map habit_log_key (hd_logs db)"
    by (simp_all add: db' map_row_proj)
  then have k: "hl_habitId ` set (hd_logs db') = hl_habitId ` set (hd_logs db)" "keyed hl_id (hd_logs db') = keyed hl_id (hd_logs db)"
    "keyed habit_log_key (hd_logs db') = keyed habit_log_key (hd_logs db)" "hl_date ` set (hd_logs db') = hl_date ` set (hd_logs db)"
    by (simp_all add: keyed_def flip: set_map)
  have whole: "(\<forall>l\<in>set ls. db_date (hl_date l) = hl_date l) = (\<forall>d\<in>hl_date ` set ls. db_date d = d)"
    and named: "(\<forall>l\<in>set ls. hl_habitId l \<in> J) = (hl_habitId ` set ls \<subseteq> J)" for J and ls :: "habit_log list" by auto
  have "hd_habits db' = hd_habits db" by (simp add: db')
  with assms(2) show ?thesis unfolding habits_ok_def whole named k by simp
next
  fix h l
  assume "find_row hb_id i (hd_habits db) = Some h" "(i, db_date (cn_date dto)) \<notin> habit_log_key ` set (hd_logs db)"
    "l = \<lparr>hl_id = n, hl_habitId = i, hl_date = db_date (cn_date dto), hl_completed = orelse (cn_completed dto) True,
        hl_value = orelse (cn_value dto) None, hl_note = orelse (cn_note dto) None\<rparr>" "n \<notin> hl_id ` set (hd_logs db)"
    "db' = db\<lparr>hd_logs := hd_logs db @ [l]\<rparr>"
  with assms(2) find_row_Some [of hb_id i "hd_habits db" h] show ?thesis
    by (auto simp: habits_ok_def habit_log_key_def)
qed

lemma removeCheckIn_ok:
  assumes "removeCheckIn u i d db = Inr db'" and "habits_ok db"
  shows "habits_ok db'"
  using assms by (auto simp: removeCheckIn_def rbind_eq_Inr habits_ok_def keyed_filter)

inductive habits_step :: "habits_db \<Rightarrow> habits_db \<Rightarrow> bool" where
  habit_created: "createHabit n now u dto db = Inr (db', h) \<Longrightarrow> create_habit_dto_ok dto \<Longrightarrow> habits_step db db'"
| habit_edited: "updateHabit u i dto db = Inr db' \<Longrightarrow> update_habit_dto_ok dto \<Longrightarrow> habits_step db db'"
| habit_deleted: "deleteHabit u i seen db = Inr (db', j, act) \<Longrightarrow> habits_step db db'"
| checked_in: "checkIn n u i cdto db = Inr db' \<Longrightarrow> habits_step db db'"
| check_in_removed: "removeCheckIn u i d db = Inr db' \<Longrightarrow> habits_step db db'"

interpretation habits: invariant_system habits_step habits_ok
proof
  fix s t assume "habits_step s t" and "habits_ok s"
  then show "habits_ok t"
    by (induction rule: habits_step.induct) (auto intro: createHabit_ok updateHabit_ok deleteHabit_ok checkIn_ok removeCheckIn_ok)
qed

text \<open>
  Whatever is done to habits and check-ins, a deletion that counted the logs of an older state
  included, no habit ever has two logs for one day, every log belongs to a habit that exists, and a
  habit with a weekly plan names only days of the week.
\<close>

theorem habits_run_sound:
  assumes "habits_step\<^sup>*\<^sup>* db db'" and "habits_ok db"
  shows "(\<forall>l\<in>set (hd_logs db'). \<forall>l'\<in>set (hd_logs db'). hl_habitId l = hl_habitId l' \<and> hl_date l = hl_date l' \<longrightarrow> l = l') \<and>
    (\<forall>l\<in>set (hd_logs db'). \<exists>h\<in>set (hd_habits db'). hb_id h = hl_habitId l) \<and>
    (\<forall>h\<in>set (hd_habits db'). set (hb_weeklyDays h) \<subseteq> {0..6})"
proof -
  from habits.run_inv [OF assms] have ok: "habits_ok db'" .
  have inj: "inj_on habit_log_key (set (hd_logs db'))"
    using ok by (simp add: habits_ok_def keyed_def distinct_map)
  show ?thesis using ok inj_onD [OF inj] by (fastforce simp: habits_ok_def week_row_ok_def habit_log_key_def)
qed

section \<open>Deletion and history\<close>

text \<open>
  Deleting a habit never removes a check-in: one that was ever checked in is archived, and only
  one without a log goes away.
\<close>

theorem delete_habit_keeps_history:
  assumes "deleteHabit u i db db = Inr (db', j, act)" and "habits_ok db"
  shows "hd_logs db' = hd_logs db \<and> (act = Deleted \<longleftrightarrow> (\<forall>l\<in>set (hd_logs db). hl_habitId l \<noteq> i)) \<and>
    (\<forall>l\<in>set (hd_logs db). hl_habitId l \<in> hb_id ` set (hd_habits db'))"
proof -
  from deleteHabit_ok [OF assms] have "habits_ok db'" .
  with assms(1) show ?thesis by (elim deleteHabitE) (auto simp: habits_ok_def)
qed

section \<open>Check-ins\<close>

text \<open>
  A check-in sent twice is a check-in sent once, and taking back the first check-in of a day
  leaves the logs as they were.
\<close>

theorem check_in_repeats_and_undoes:
  assumes "checkIn n u i dto db = Inr db'" and "habits_ok db"
  shows "checkIn n' u i dto db' = Inr db' \<and>
    ((\<forall>l\<in>set (hd_logs db). \<not> (hl_habitId l = i \<and> hl_date l = db_date (cn_date dto))) \<longrightarrow> removeCheckIn u i (cn_date dto) db' = Inr db)"
  using assms(1)
proof (rule checkInE)
  fix h and f :: "habit_log \<Rightarrow> habit_log"
  let ?k = "(i, db_date (cn_date dto))"
  assume h: "find_row hb_id i (hd_habits db) = Some h" "hb_userId h = u" and k: "?k \<in> habit_log_key ` set (hd_logs db)"
    and f: "f = (\<lambda>l. l\<lparr>hl_completed := orelse (cn_completed dto) True, hl_value := orelse (cn_value dto) (hl_value l), hl_note := orelse (cn_note dto) (hl_note l)\<rparr>)"
    and db': "db' = db\<lparr>hd_logs := map_row habit_log_key ?k f (hd_logs db)\<rparr>"
  have "f (f l) = f l" for l by (auto simp: f orelse_def split: option.splits)
  then have "map_row habit_log_key ?k f (map_row habit_log_key ?k f t) = map_row habit_log_key ?k f t" for t
    by (auto simp: map_row_def)
  moreover have "?k \<in> habit_log_key ` set (map_row habit_log_key ?k f (hd_logs db))"
    using k by (subst same_keys_image) (simp_all add: f habit_log_key_def)
  ultimately have "checkIn n' u i dto db' = Inr db'"
    using h by (simp add: checkIn_def db' requireHabit_def require_row_def Let_def f)
  with k show ?thesis by (auto simp: habit_log_key_def)
next
  fix h l
  assume h: "find_row hb_id i (hd_habits db) = Some h" "hb_userId h = u" and k: "(i, db_date (cn_date dto)) \<notin> habit_log_key ` set (hd_logs db)"
    and l: "l = \<lparr>hl_id = n, hl_habitId = i, hl_date = db_date (cn_date dto), hl_completed = orelse (cn_completed dto) True,
        hl_value = orelse (cn_value dto) None, hl_note = orelse (cn_note dto) None\<rparr>"
    and db': "db' = db\<lparr>hd_logs := hd_logs db @ [l]\<rparr>"
  have "map_row habit_log_key (i, db_date (cn_date dto)) f (hd_logs db @ [l]) = hd_logs db @ [f l]" for f
    using map_row_absent [OF k, of f] by (simp add: map_row_def l habit_log_key_def)
  moreover have "l\<lparr>hl_completed := orelse (cn_completed dto) True, hl_value := orelse (cn_value dto) (hl_value l),
      hl_note := orelse (cn_note dto) (hl_note l)\<rparr> = l"
    by (simp add: l orelse_def split: option.splits)
  moreover have "(i, db_date (cn_date dto)) \<in> habit_log_key ` set (hd_logs db @ [l])" by (simp add: l habit_log_key_def)
  ultimately have "checkIn n' u i dto db' = Inr db'"
    using h by (simp add: checkIn_def db' requireHabit_def require_row_def Let_def)
  moreover have "filter (\<lambda>l. habit_log_key l \<noteq> (i, db_date (cn_date dto))) (hd_logs db) = hd_logs db"
    using k by (intro filter_True ballI notI) (metis imageI)
  then have "removeCheckIn u i (cn_date dto) db' = Inr db"
    using h by (simp add: removeCheckIn_def requireHabit_def require_row_def db' l habit_log_key_def)
  ultimately show ?thesis by simp
qed

section \<open>Streaks\<close>

lemma streak_back_spec:
  "(\<forall>k < streak_back keys c. c - int k * day_ms \<in> set keys) \<and> c - int (streak_back keys c) * day_ms \<notin> set keys"
proof (induction keys c rule: streak_back.induct)
  case (1 keys c)
  show ?case
  proof (cases "c \<in> set keys")
    case True
    then have n: "streak_back keys c = Suc (streak_back keys (c - day_ms))" by (subst streak_back.simps) simp
    have shift: "c - int (Suc k) * day_ms = c - day_ms - int k * day_ms" for k by (simp add: algebra_simps)
    have "c - int k * day_ms \<in> set keys" if k: "k < streak_back keys c" for k
    proof (cases k)
      case (Suc j)
      then show ?thesis using "1.IH" [OF True] k unfolding Suc shift by (simp add: n)
    qed (use True in simp)
    moreover have "c - int (streak_back keys c) * day_ms \<notin> set keys" using "1.IH" [OF True] unfolding n shift by simp
    ultimately show ?thesis by blast
  next
    case False
    then have "streak_back keys c = 0" by (subst streak_back.simps) simp
    with False show ?thesis by simp
  qed
qed

lemma date_keys_fold: "d \<in> set (orelse (fold add_date_key ls m i) []) \<longleftrightarrow>
    d \<in> set (orelse (m i) []) \<or> (\<exists>l\<in>set ls. hl_habitId l = i \<and> db_date (hl_date l) = d)"
proof (induction ls arbitrary: m)
  case (Cons l ls)
  show ?case unfolding fold_Cons comp_def Cons.IH by (auto simp: add_date_key_def)
qed simp

lemma date_keys: "d \<in> set (orelse (date_keys_by_habit ids logs i) []) \<longleftrightarrow>
    i \<in> set ids \<and> (\<exists>l\<in>set logs. hl_habitId l = i \<and> hl_completed l \<and> db_date (hl_date l) = d)"
  unfolding date_keys_by_habit_def date_keys_fold by auto

lemma fold_put: "fold (\<lambda>i m. m(i \<mapsto> f i)) ids m j = (if j \<in> set ids then Some (f j) else m j)"
  by (induction ids arbitrary: m) auto

lemma streak_of_nothing [simp]: "streak_of now [] = 0"
  by (simp add: streak_of_def Let_def streak_back.simps)

lemma computeStreaks_at: "computeStreaks now ids logs i =
    (if i \<in> set ids then Some (streak_of now (orelse (date_keys_by_habit ids logs i) [])) else None)"
  unfolding computeStreaks_def fold_put by (simp split: option.split)

definition completed_on :: "habits_db \<Rightarrow> id \<Rightarrow> instant \<Rightarrow> bool" where
  "completed_on db i d \<longleftrightarrow> (\<exists>l\<in>set (hd_logs db). hl_habitId l = i \<and> hl_completed l \<and> db_date (hl_date l) = d)"

definition unbroken_run :: "(instant \<Rightarrow> bool) \<Rightarrow> instant \<Rightarrow> nat \<Rightarrow> bool" where
  "unbroken_run hit d n \<longleftrightarrow> (\<forall>k<n. hit (d - int k * day_ms)) \<and> \<not> hit (d - int n * day_ms)"

lemma streak_is_the_run:
  assumes "i \<in> set ids"
  shows "unbroken_run (completed_on db i) (if completed_on db i (db_date now) then db_date now else db_date now - day_ms)
    (orelse (computeStreaks now ids (hd_logs db) i) 0)"
  using assms streak_back_spec [of "orelse (date_keys_by_habit ids (hd_logs db) i) []"] date_keys [of _ ids "hd_logs db" i]
  unfolding computeStreaks_at streak_of_def Let_def unbroken_run_def completed_on_def by simp

text \<open>
  The page of today lists the habits that are due today, each with the log of today if it has
  one, and with the number of days, back from today or (while today is not done) from yesterday,
  that are all completed, the day before them not.
\<close>

theorem today_shows_the_unbroken_run:
  assumes "x \<in> set (getToday now u db)"
  shows "ht_habit x \<in> set (hd_habits db) \<and> hb_userId (ht_habit x) = u \<and> \<not> hb_isArchived (ht_habit x) \<and>
    (hb_frequencyType (ht_habit x) = WEEKLY_DAYS \<longrightarrow> utc_weekday (db_date now) \<in> set (hb_weeklyDays (ht_habit x))) \<and>
    (case ht_todayLog x of None \<Rightarrow> \<forall>l\<in>set (hd_logs db). \<not> (hl_habitId l = hb_id (ht_habit x) \<and> hl_date l = db_date now)
     | Some l \<Rightarrow> l \<in> set (hd_logs db) \<and> hl_habitId l = hb_id (ht_habit x) \<and> hl_date l = db_date now) \<and>
    unbroken_run (completed_on db (hb_id (ht_habit x)))
      (if completed_on db (hb_id (ht_habit x)) (db_date now) then db_date now else db_date now - day_ms) (ht_streak x)"
proof -
  let ?hs = "listHabits u False None (hd_habits db)"
  let ?ls = "filter (\<lambda>l. hl_habitId l \<in> set (map hb_id ?hs) \<and> hl_date l = db_date now) (hd_logs db)"
  from assms obtain h where h: "h \<in> set ?hs" "scheduled_on (utc_weekday (db_date now)) h" and x: "ht_habit x = h"
    "ht_todayLog x = map_of (rev (map (\<lambda>l. (hl_habitId l, l)) ?ls)) (hb_id h)"
    "ht_streak x = orelse (computeStreaks now (map hb_id ?hs) (hd_logs db) (hb_id h)) 0"
    by (auto simp: getToday_def Let_def)
  have i: "hb_id h \<in> set (map hb_id ?hs)" using h(1) by simp
  have tl: "case ht_todayLog x of None \<Rightarrow> \<forall>l\<in>set (hd_logs db). \<not> (hl_habitId l = hb_id h \<and> hl_date l = db_date now)
     | Some l \<Rightarrow> l \<in> set (hd_logs db) \<and> hl_habitId l = hb_id h \<and> hl_date l = db_date now"
  proof (cases "ht_todayLog x")
    case None
    then have "hb_id h \<notin> fst ` set (rev (map (\<lambda>l. (hl_habitId l, l)) ?ls))" by (simp add: x(2) map_of_eq_None_iff)
    with i have "\<forall>l\<in>set (hd_logs db). \<not> (hl_habitId l = hb_id h \<and> hl_date l = db_date now)" by force
    with None show ?thesis by simp
  next
    case (Some l)
    then have "(hb_id h, l) \<in> set (rev (map (\<lambda>l. (hl_habitId l, l)) ?ls))" unfolding x(2) by (rule map_of_SomeD)
    with Some show ?thesis by auto
  qed
  have hb: "h \<in> set (hd_habits db)" "hb_userId h = u" "\<not> hb_isArchived h" using h(1) by (simp_all add: listHabits_def)
  have "hb_frequencyType h = WEEKLY_DAYS \<longrightarrow> utc_weekday (db_date now) \<in> set (hb_weeklyDays h)" using h(2) by (simp add: scheduled_on_def)
  with hb tl streak_is_the_run [OF i, of db now] show ?thesis unfolding x(1,3) by blast
qed

section \<open>Statistics\<close>

lemma fold_add_count: "orelse (fold add_count ls m i) 0 = orelse (m i) 0 + length (filter (\<lambda>l. hl_habitId l = i) ls)"
proof (induction ls arbitrary: m)
  case (Cons l ls)
  show ?case unfolding fold_Cons comp_def Cons.IH by (simp add: add_count_def)
qed simp

lemma whole_days: "db_date d = d \<Longrightarrow> db_date e = e \<Longrightarrow> e - 29 * day_ms \<le> d \<Longrightarrow> d \<le> e \<Longrightarrow> d \<in> (\<lambda>k. e - int k * day_ms) ` {0..<30}"
proof -
  assume d: "db_date d = d" "db_date e = e" and r: "e - 29 * day_ms \<le> d" "d \<le> e"
  from d have "d = utc_day d * day_ms" "e = utc_day e * day_ms"
    by (simp_all add: db_date_def utc_day_def minus_mod_eq_div_mult)
  then have gap: "d = e - (utc_day e - utc_day d) * day_ms" by (simp add: algebra_simps)
  with r have "0 \<le> (utc_day e - utc_day d) * day_ms" "(utc_day e - utc_day d) * day_ms \<le> 29 * day_ms" by linarith+
  then have "0 \<le> utc_day e - utc_day d" "utc_day e - utc_day d \<le> 29" by (simp_all add: day_ms_def)
  then have "nat (utc_day e - utc_day d) \<in> {0..<30}" by auto
  moreover from gap \<open>0 \<le> utc_day e - utc_day d\<close> have "d = e - int (nat (utc_day e - utc_day d)) * day_ms" by simp
  ultimately show ?thesis by (rule rev_image_eqI)
qed

lemma at_most_30:
  assumes "habits_ok db" and "\<forall>l\<in>set (hd_logs db). hl_date l \<le> db_date now"
  shows "length (filter (\<lambda>l. hl_habitId l = i \<and> db_date now - 29 * day_ms \<le> hl_date l \<and> hl_completed l) (hd_logs db)) \<le> 30"
proof -
  define ls where "ls = filter (\<lambda>l. hl_habitId l = i \<and> db_date now - 29 * day_ms \<le> hl_date l \<and> hl_completed l) (hd_logs db)"
  have "keyed habit_log_key (hd_logs db)" using assms(1) by (simp add: habits_ok_def)
  then have "keyed habit_log_key ls" unfolding ls_def by (rule keyed_filter)
  moreover have "map habit_log_key ls = map (Pair i) (map hl_date ls)" by (simp add: ls_def habit_log_key_def)
  ultimately have "distinct (map (Pair i) (map hl_date ls))" by (simp only: keyed_def)
  then have "distinct (map hl_date ls)" by (simp only: distinct_map)
  from distinct_card [OF this] have "length ls = card (hl_date ` set ls)" by simp
  also have "\<dots> \<le> card ((\<lambda>k. db_date now - int k * day_ms) ` {0..<30})"
  proof (rule card_mono)
    show "hl_date ` set ls \<subseteq> (\<lambda>k. db_date now - int k * day_ms) ` {0..<30}"
    proof
      fix d assume "d \<in> hl_date ` set ls"
      with assms show "d \<in> (\<lambda>k. db_date now - int k * day_ms) ` {0..<30}"
        by (intro whole_days) (auto simp: habits_ok_def ls_def)
    qed
  qed simp
  also have "\<dots> \<le> card {0..<(30::nat)}" by (rule card_image_le) simp
  finally show ?thesis by (simp add: ls_def)
qed

lemma stats_entry:
  assumes "s \<in> set (getStats now u db)"
  shows "hs_last30DaysCompleted s = length (filter (\<lambda>l. hl_habitId l = hs_habitId s \<and> db_date now - 29 * day_ms \<le> hl_date l \<and> hl_completed l) (hd_logs db))
    \<and> hs_completionRate s = math_round (of_nat (hs_last30DaysCompleted s) / 30 * 100) \<and> hs_habitId s \<in> hb_id ` set (listHabits u False None (hd_habits db))"
proof -
  let ?ids = "map hb_id (listHabits u False None (hd_habits db))"
  from assms obtain h where "h \<in> set (listHabits u False None (hd_habits db))" "hs_habitId s = hb_id h"
    "hs_last30DaysCompleted s = orelse (fold add_count (filter (\<lambda>l. hl_habitId l \<in> set ?ids \<and> db_date now - 29 * day_ms \<le> hl_date l \<and> hl_completed l) (hd_logs db)) Map.empty (hb_id h)) 0"
    "hs_completionRate s = math_round (of_nat (hs_last30DaysCompleted s) / 30 * 100)"
    by (auto simp: getStats_def Let_def)
  then show ?thesis by (auto simp: fold_add_count intro!: arg_cong [where f = length] filter_cong)
qed

text \<open>
  While no check-in is dated after today, the completion rate of the last thirty days is a
  percentage of the days that were completed.
\<close>

theorem completion_rate_is_a_percentage:
  assumes "s \<in> set (getStats now u db)" and "habits_ok db" and "\<forall>l\<in>set (hd_logs db). hl_date l \<le> db_date now"
  shows "hs_last30DaysCompleted s \<le> 30 \<and> 0 \<le> hs_completionRate s \<and> hs_completionRate s \<le> 100"
proof -
  note e = stats_entry [OF assms(1)]
  have n: "hs_last30DaysCompleted s \<le> 30" using e at_most_30 [OF assms(2,3)] by simp
  then have "rat_of_nat (hs_last30DaysCompleted s) / 30 * 100 \<le> 100" by simp
  with e n show ?thesis unfolding math_round_def by (auto simp: floor_le_iff zero_le_floor)
qed

section \<open>Worked examples\<close>

definition sample_habit :: habit_row where
  "sample_habit = \<lparr>hb_id = ''h'', hb_userId = ''u'', hb_name = ''Run'', hb_category = ''Others'', hb_icon = ''target'', hb_color = ''blue'',
     hb_frequencyType = DAILY, hb_weeklyDays = [], hb_weeklyCount = None, hb_targetValue = None, hb_unit = None, hb_isArchived = False, hb_createdAt = 0\<rparr>"

definition done_on :: "nat \<Rightarrow> habit_log" where
  "done_on k = \<lparr>hl_id = replicate k (CHR ''l''), hl_habitId = ''h'', hl_date = int k * day_ms, hl_completed = True, hl_value = None, hl_note = None\<rparr>"

definition sample_habits :: "nat list \<Rightarrow> habits_db" where
  "sample_habits ks = \<lparr>hd_habits = [sample_habit], hd_logs = map done_on ks\<rparr>"

definition plain_check_in :: "nat \<Rightarrow> check_in_dto" where
  "plain_check_in k = \<lparr>cn_date = int k * day_ms, cn_completed = None, cn_value = None, cn_note = None\<rparr>"

lemma db_date_day [simp]: "db_date (int k * day_ms) = int k * day_ms"
  by (simp add: db_date_def)

lemma day_inj: "int k * day_ms = int j * day_ms \<longleftrightarrow> k = j" and day_long: "day_ms \<noteq> 0"
  by (simp_all add: day_ms_def)

lemma sample_habits_ok: "distinct ks \<Longrightarrow> habits_ok (sample_habits ks)"
  by (auto simp: habits_ok_def sample_habits_def sample_habit_def week_row_ok_def done_on_def keyed_def distinct_map inj_on_def
      habit_log_key_def day_inj day_long)

lemma sample_check_in:
  assumes "k \<notin> set ks"
  shows "checkIn (replicate k (CHR ''l'')) ''u'' ''h'' (plain_check_in k) (sample_habits ks) = Inr (sample_habits (ks @ [k]))"
proof -
  have same: "int k * day_ms = int j * day_ms \<longleftrightarrow> k = j" "replicate k c = replicate j c \<longleftrightarrow> k = j" for j and c :: char
    by (auto simp: day_ms_def dest: arg_cong [where f = length])
  have "(''h'', int k * day_ms) \<notin> habit_log_key ` set (map done_on ks)" "replicate k (CHR ''l'') \<notin> hl_id ` set (map done_on ks)"
    using assms same by (auto simp: habit_log_key_def done_on_def)
  moreover have "find_row hb_id ''h'' (hd_habits (sample_habits ks)) = Some sample_habit" "hb_userId sample_habit = ''u''"
    "hd_logs (sample_habits ks) = map done_on ks"
    by (simp_all add: sample_habits_def sample_habit_def)
  ultimately show ?thesis
    by (simp add: checkIn_def requireHabit_def require_row_def plain_check_in_def Let_def insert_row_def sample_habits_def done_on_def)
qed

theorem habits_run_sound_witness:
  "habits_step\<^sup>*\<^sup>* (sample_habits [1]) (sample_habits [1, 2]) \<and>
    (\<forall>l\<in>set (hd_logs (sample_habits [1, 2])). \<exists>h\<in>set (hd_habits (sample_habits [1, 2])). hb_id h = hl_habitId l)"
proof -
  have st: "habits_step (sample_habits [1]) (sample_habits [1, 2])"
    using sample_check_in [of 2 "[1]"] by (intro checked_in) simp
  from habits_run_sound [OF r_into_rtranclp [of habits_step, OF st] sample_habits_ok] st show ?thesis by auto
qed

theorem delete_habit_keeps_history_witness:
  "\<exists>db'. deleteHabit ''u'' ''h'' (sample_habits [1]) (sample_habits [1]) = Inr (db', ''h'', Archived) \<and> hd_logs db' = hd_logs (sample_habits [1])"
proof -
  obtain db' where d: "deleteHabit ''u'' ''h'' (sample_habits [1]) (sample_habits [1]) = Inr (db', ''h'', Archived)"
    by (simp add: deleteHabit_def requireHabit_def require_row_def sample_habits_def sample_habit_def done_on_def update_row_def)
  from delete_habit_keeps_history [OF d sample_habits_ok] d show ?thesis by auto
qed

theorem check_in_repeats_and_undoes_witness:
  "checkIn (replicate 2 (CHR ''l'')) ''u'' ''h'' (plain_check_in 2) (sample_habits [1]) = Inr (sample_habits [1, 2]) \<and>
    checkIn ''x'' ''u'' ''h'' (plain_check_in 2) (sample_habits [1, 2]) = Inr (sample_habits [1, 2])"
proof -
  have c: "checkIn (replicate 2 (CHR ''l'')) ''u'' ''h'' (plain_check_in 2) (sample_habits [1]) = Inr (sample_habits [1, 2])"
    using sample_check_in [of 2 "[1]"] by simp
  from check_in_repeats_and_undoes [OF c sample_habits_ok] c show ?thesis by simp
qed

theorem today_shows_the_unbroken_run_witness:
  "\<exists>x\<in>set (getToday (3 * day_ms) ''u'' (sample_habits [1, 2])). ht_todayLog x = None \<and> ht_streak x = 2"
proof -
  let ?db = "sample_habits [1, 2]"
  obtain x where x: "x \<in> set (getToday (3 * day_ms) ''u'' ?db)" and h: "ht_habit x = sample_habit"
    by (auto simp: getToday_def Let_def listHabits_def find_many_def sample_habits_def sample_habit_def scheduled_on_def)
  have d: "db_date (3 * day_ms) = 3 * day_ms" using db_date_day [of 3] by simp
  have i: "hb_id sample_habit = ''h''" by (simp add: sample_habit_def)
  note t = today_shows_the_unbroken_run [OF x, unfolded h d i]
  have c: "completed_on ?db ''h'' e \<longleftrightarrow> e = day_ms \<or> e = 2 * day_ms" for e
    using db_date_day [of 1] db_date_day [of 2] by (auto simp: completed_on_def sample_habits_def done_on_def)
  have "\<not> completed_on ?db ''h'' (3 * day_ms)" "3 * day_ms - day_ms = 2 * day_ms" unfolding c by (simp_all add: day_ms_def)
  with t have "unbroken_run (completed_on ?db ''h'') (2 * day_ms) (ht_streak x)" by simp
  then have r: "\<forall>k<ht_streak x. 2 * day_ms - int k * day_ms \<in> {day_ms, 2 * day_ms}"
    "2 * day_ms - int (ht_streak x) * day_ms \<notin> {day_ms, 2 * day_ms}"
    unfolding unbroken_run_def c by blast+
  have "\<not> 2 < ht_streak x" using r(1) by (auto simp: day_ms_def dest: spec [of _ 2])
  moreover have "ht_streak x \<noteq> 0" "ht_streak x \<noteq> 1" using r(2) by (auto simp: day_ms_def)
  ultimately have "ht_streak x = 2" by linarith
  moreover have "ht_todayLog x = None"
  proof (cases "ht_todayLog x")
    case (Some l)
    with t have "l \<in> set (hd_logs ?db)" "hl_date l = 3 * day_ms" by simp_all
    then show ?thesis by (auto simp: sample_habits_def done_on_def day_ms_def)
  qed
  ultimately show ?thesis using x by blast
qed

theorem completion_rate_is_a_percentage_witness:
  "\<exists>s\<in>set (getStats (3 * day_ms) ''u'' (sample_habits [1, 2])). hs_completionRate s \<le> 100"
proof -
  obtain s where s: "s \<in> set (getStats (3 * day_ms) ''u'' (sample_habits [1, 2]))"
    by (auto simp: getStats_def Let_def listHabits_def find_many_def sample_habits_def sample_habit_def)
  have "\<forall>l\<in>set (hd_logs (sample_habits [1, 2])). hl_date l \<le> db_date (3 * day_ms)"
    using db_date_day [of 3] by (simp add: sample_habits_def done_on_def day_ms_def)
  from completion_rate_is_a_percentage [OF s sample_habits_ok this] s show ?thesis by auto
qed

text \<open>
  Nothing keeps a check-in from being dated in the future, and the statistics count every day
  from thirty days ago on, without an end: after forty check-ins of the days to come the completion
  rate reads 133 percent.
\<close>

theorem completion_rate_past_hundred:
  "habits_step\<^sup>*\<^sup>* (sample_habits []) (sample_habits [0..<40]) \<and>
    map hs_completionRate (getStats 0 ''u'' (sample_habits [0..<40])) = [133]"
proof
  have "habits_step\<^sup>*\<^sup>* (sample_habits []) (sample_habits [0..<n])" for n
  proof (induction n)
    case (Suc n)
    have "habits_step (sample_habits [0..<n]) (sample_habits [0..<Suc n])"
      using sample_check_in [of n "[0..<n]"] by (intro checked_in) simp
    with Suc show ?case by (rule rtranclp.rtrancl_into_rtrancl)
  qed simp
  then show "habits_step\<^sup>*\<^sup>* (sample_habits []) (sample_habits [0..<40])" .
  let ?db = "sample_habits [0..<40]"
  have "length (getStats 0 ''u'' ?db) = 1"
    by (simp add: getStats_def Let_def listHabits_def length_find_many sample_habits_def sample_habit_def)
  then obtain s where s: "getStats 0 ''u'' ?db = [s]" by (auto simp: length_Suc_conv)
  have "s \<in> set (getStats 0 ''u'' ?db)" by (simp add: s)
  note e = conjunct1 [OF stats_entry [OF this]] stats_entry [OF this, THEN conjunct2, THEN conjunct1]
    stats_entry [OF this, THEN conjunct2, THEN conjunct2]
  have i: "hs_habitId s = ''h''" using e(3) by (auto simp: listHabits_def sample_habits_def sample_habit_def)
  have "filter (\<lambda>l. hl_habitId l = hs_habitId s \<and> db_date 0 - 29 * day_ms \<le> hl_date l \<and> hl_completed l) (hd_logs ?db) = hd_logs ?db"
    by (intro filter_True) (auto simp: sample_habits_def done_on_def i db_date_def day_ms_def)
  then have "hs_last30DaysCompleted s = 40" unfolding e(1) by (simp add: sample_habits_def)
  then have "hs_completionRate s = 133" unfolding e(2) math_round_def by (simp add: floor_eq_iff)
  then show "map hs_completionRate (getStats 0 ''u'' ?db) = [133]" by (simp add: s)
qed

text \<open>
  The logs are counted before the delete and outside any transaction: a check-in made in between
  goes with the habit.
\<close>

theorem crossing_check_in_is_lost:
  "\<exists>db' act. checkIn (replicate 1 (CHR ''l'')) ''u'' ''h'' (plain_check_in 1) (sample_habits []) = Inr (sample_habits [1]) \<and>
    deleteHabit ''u'' ''h'' (sample_habits []) (sample_habits [1]) = Inr (db', ''h'', act) \<and> hd_logs db' = [] \<and> hd_habits db' = []"
  using sample_check_in [of 1 "[]"]
  by (simp add: deleteHabit_def requireHabit_def require_row_def sample_habits_def sample_habit_def done_on_def delete_row_def)

end
