(* ===== verification/Trackers.thy ===== *)
theory Trackers
  imports Shelf
begin

text \<open>
  The month sheets (src/habits/habit-trackers.service.ts): a prayer sheet of a calendar month, a
  Ramadan sheet of a year, and free challenges, each a grid of days and columns that is ticked. A
  request reads in one state, \<open>seen\<close>, and writes in the one it finds then, \<open>there\<close>; where the code
  loops over an edit until nothing came in between, the model does.
\<close>

section \<open>State and requests\<close>

text \<open>A tick has an id of its own as well, which nothing reads.\<close>

record tracker_row =
  tr_id :: id
  tr_userId :: id
  tr_category :: string
  tr_month :: "int option"
  tr_year :: "int option"
  tr_name :: "string option"
  tr_totalDays :: "int option"
  tr_items :: "string list"
  tr_createdAt :: instant

record tick =
  tk_trackerId :: id
  tk_day :: int
  tk_item :: string

record trackers_db =
  td_trackers :: "tracker_row list"
  td_ticks :: "tick list"

record create_tracker_dto =
  ctd_category :: string
  ctd_month :: int
  ctd_year :: int

record ramadan_dto =
  rmd_year :: int
  rmd_days :: int

record custom_dto =
  cud_name :: string
  cud_totalDays :: int

record set_check_dto =
  scd_day :: int
  scd_item :: string
  scd_checked :: bool

definition create_tracker_dto_ok :: "create_tracker_dto \<Rightarrow> bool" where
  "create_tracker_dto_ok dto \<longleftrightarrow> ctd_category dto \<noteq> [] \<and> 1 \<le> ctd_month dto \<and> ctd_month dto \<le> 12 \<and> 2000 \<le> ctd_year dto \<and> ctd_year dto \<le> 2100"

definition ramadan_dto_ok :: "ramadan_dto \<Rightarrow> bool" where
  "ramadan_dto_ok dto \<longleftrightarrow> 2000 \<le> rmd_year dto \<and> rmd_year dto \<le> 2100 \<and> rmd_days dto \<in> {29, 30}"

definition custom_dto_ok :: "custom_dto \<Rightarrow> bool" where
  "custom_dto_ok dto \<longleftrightarrow> cud_name dto \<noteq> [] \<and> length (cud_name dto) \<le> 60 \<and> 1 \<le> cud_totalDays dto \<and> cud_totalDays dto \<le> 365"

definition set_check_dto_ok :: "set_check_dto \<Rightarrow> bool" where
  "set_check_dto_ok dto \<longleftrightarrow> 1 \<le> scd_day dto \<and> scd_day dto \<le> 365 \<and> scd_item dto \<noteq> []"

section \<open>The kinds of sheet\<close>

definition RAMADAN_MONTH :: int where
  "RAMADAN_MONTH = 9"

definition MAX_ITEMS :: nat where
  "MAX_ITEMS = 20"

definition MAX_ITEM_NAME_LENGTH :: nat where
  "MAX_ITEM_NAME_LENGTH = 40"

definition MAX_TRACKER_NAME_LENGTH :: nat where
  "MAX_TRACKER_NAME_LENGTH = 60"

definition MAX_CHALLENGES :: nat where
  "MAX_CHALLENGES = 100"

datatype tracker_kind = Gregorian | Ramadan_Sheet | Custom

record tracker_config =
  tc_kind :: tracker_kind
  tc_items :: "string list"
  tc_editableItems :: bool

definition TRACKER_CONFIG :: "(string \<times> tracker_config) list" where
  "TRACKER_CONFIG =
     [(''Namaz'', \<lparr>tc_kind = Gregorian, tc_items = [''Fajr'', ''Dhuhr'', ''Asr'', ''Maghrib'', ''Isha''], tc_editableItems = False\<rparr>),
      (''Ramadan'', \<lparr>tc_kind = Ramadan_Sheet, tc_items = [''Roza''], tc_editableItems = True\<rparr>),
      (''Others'', \<lparr>tc_kind = Custom, tc_items = [], tc_editableItems = True\<rparr>)]"

definition configFor :: "string \<Rightarrow> tracker_config option" where
  "configFor category = map_of TRACKER_CONFIG category"

definition of_kind :: "tracker_kind \<Rightarrow> string \<Rightarrow> bool" where
  "of_kind k category \<longleftrightarrow> map_option tc_kind (configFor category) = Some k"

definition daysInMonth :: "int \<Rightarrow> int \<Rightarrow> int" where
  "daysInMonth month year = (case utc_date (date_utc year (month + 1) 0) of (y, m, d) \<Rightarrow> d)"

definition calendarMonth :: "tracker_row \<Rightarrow> (int \<times> int) result" where
  "calendarMonth t = (case (tr_month t, tr_year t) of (Some month, Some year) \<Rightarrow> Inr (month, year)
     | _ \<Rightarrow> Inl (Unexpected (''Tracker '' @ tr_id t @ '' has no calendar month'')))"

definition sheetDays :: "tracker_row \<Rightarrow> int result" where
  "sheetDays t = (case tr_totalDays t of Some n \<Rightarrow> Inr n
     | None \<Rightarrow> rbind (calendarMonth t) (\<lambda>(month, year). Inr (daysInMonth month year)))"

definition elapsedDays :: "instant \<Rightarrow> int \<Rightarrow> int \<Rightarrow> int" where
  "elapsedDays now month year =
     (case dhakaToday now of (ty, tm, td) \<Rightarrow>
        let currentKey = ty * 12 + (tm - 1); sheetKey = year * 12 + (month - 1) in
        if sheetKey < currentKey then daysInMonth month year else if sheetKey = currentKey then td - 1 else 0)"

definition todayDayFor :: "instant \<Rightarrow> int \<Rightarrow> int \<Rightarrow> int option" where
  "todayDayFor now month year = (case dhakaToday now of (ty, tm, td) \<Rightarrow> if ty = year \<and> tm = month then Some td else None)"

definition lastTickableDay :: "instant \<Rightarrow> int \<Rightarrow> int \<Rightarrow> int" where
  "lastTickableDay now month year = orelse (todayDayFor now month year) (elapsedDays now month year)"

definition alreadyExistsMessage :: "string \<Rightarrow> int \<Rightarrow> int \<Rightarrow> string" where
  "alreadyExistsMessage category month year =
     (if of_kind Ramadan_Sheet category then ''Ramadan '' @ int_text year @ '' already exists''
      else ''A '' @ category @ '' tracker for '' @ int_text month @ ''/'' @ int_text year @ '' already exists'')"

section \<open>What a client sees of a sheet\<close>

record tracker_view =
  tv_id :: id
  tv_category :: string
  tv_month :: "int option"
  tv_year :: "int option"
  tv_name :: "string option"
  tv_items :: "string list"
  tv_totalDays :: int
  tv_elapsedDays :: int
  tv_todayDay :: "int option"
  tv_checks :: "(int \<times> string) list"
  tv_createdAt :: instant

definition toView :: "instant \<Rightarrow> trackers_db \<Rightarrow> tracker_row \<Rightarrow> tracker_view result" where
  "toView now db t =
     rbind (if of_kind Gregorian (tr_category t) then rbind (calendarMonth t) (\<lambda>c. Inr (Some c)) else Inr None) (\<lambda>calendar.
     rbind (sheetDays t) (\<lambda>days.
     Inr \<lparr>tv_id = tr_id t, tv_category = tr_category t, tv_month = tr_month t, tv_year = tr_year t, tv_name = tr_name t,
       tv_items = tr_items t, tv_totalDays = days,
       tv_elapsedDays = (case calendar of Some (month, year) \<Rightarrow> elapsedDays now month year | None \<Rightarrow> 0),
       tv_todayDay = (case calendar of Some (month, year) \<Rightarrow> todayDayFor now month year | None \<Rightarrow> None),
       tv_checks = map (\<lambda>k. (tk_day k, tk_item k))
         (filter (\<lambda>k. tk_trackerId k = tr_id t \<and> tk_item k \<in> set (tr_items t)) (td_ticks db)),
       tv_createdAt = tr_createdAt t\<rparr>))"

fun rmap :: "('a \<Rightarrow> 'b result) \<Rightarrow> 'a list \<Rightarrow> 'b list result" where
  "rmap f [] = Inr []"
| "rmap f (x # xs) = rbind (f x) (\<lambda>y. rbind (rmap f xs) (\<lambda>ys. Inr (y # ys)))"

text \<open>\<open>sort: 'desc', nulls: 'last'\<close>; several keys are stable sorts, the last key first.\<close>

definition desc_nulls_last :: "('r \<Rightarrow> int option) \<Rightarrow> 'r list \<Rightarrow> 'r list" where
  "desc_nulls_last f rows = sort_key (\<lambda>r. - orelse (f r) 0) (filter (\<lambda>r. f r \<noteq> None) rows) @ filter (\<lambda>r. f r = None) rows"

definition list_trackers :: "unicode \<Rightarrow> instant \<Rightarrow> id \<Rightarrow> string option \<Rightarrow> trackers_db \<Rightarrow> tracker_view list result" where
  "list_trackers U now userId category db =
     rbind (check (\<not> (truthy category \<and> un_unsafe U (orelse category []))) (BadRequest ''Invalid category'')) (\<lambda>_.
     rmap (toView now db) (desc_nulls_last tr_year (desc_nulls_last tr_month
       (find_many (\<lambda>t. tr_userId t = userId \<and> (truthy category \<longrightarrow> category = Some (tr_category t))) (\<lambda>t. - tr_createdAt t) (td_trackers db)))))"

definition requireTracker :: "id \<Rightarrow> id \<Rightarrow> trackers_db \<Rightarrow> tracker_row result" where
  "requireTracker userId i db = require_row tr_id tr_userId (NotFound ''Tracker not found'') userId i (td_trackers db)"

definition get_tracker :: "instant \<Rightarrow> id \<Rightarrow> id \<Rightarrow> trackers_db \<Rightarrow> tracker_view result" where
  "get_tracker now userId i db = rbind (requireTracker userId i db) (toView now db)"

section \<open>Creating a sheet\<close>

text \<open>The unique index of user, category, month and year; a null in it is equal to nothing.\<close>

definition sheet_key :: "tracker_row \<Rightarrow> (id \<times> string \<times> int \<times> int) option" where
  "sheet_key t = (case (tr_month t, tr_year t) of (Some m, Some y) \<Rightarrow> Some (tr_userId t, tr_category t, m, y) | _ \<Rightarrow> None)"

definition sheet_taken :: "tracker_row \<Rightarrow> tracker_row list \<Rightarrow> bool" where
  "sheet_taken t ts \<longleftrightarrow> sheet_key t \<noteq> None \<and> sheet_key t \<in> sheet_key ` set ts"

definition insert_sheet :: "tracker_row \<Rightarrow> trackers_db \<Rightarrow> trackers_db result" where
  "insert_sheet t db =
     (if sheet_taken t (td_trackers db) then Inl (DbError ''P2002'')
      else rbind (insert_row tr_id t (td_trackers db)) (\<lambda>ts. Inr (db\<lparr>td_trackers := ts\<rparr>)))"

definition insertTracker :: "instant \<Rightarrow> tracker_row \<Rightarrow> int \<Rightarrow> int \<Rightarrow> trackers_db \<Rightarrow> trackers_db \<Rightarrow> (trackers_db \<times> tracker_view result) result" where
  "insertTracker now t month year seen there =
     rbind (check (\<not> sheet_taken t (td_trackers seen)) (Conflict (alreadyExistsMessage (tr_category t) month year))) (\<lambda>_.
     case insert_sheet t there of
       Inl e \<Rightarrow> Inl (if e = DbError ''P2002'' then Conflict (alreadyExistsMessage (tr_category t) month year) else e)
     | Inr db \<Rightarrow> Inr (db, toView now db t))"

definition create_tracker ::
    "id \<Rightarrow> instant \<Rightarrow> id \<Rightarrow> create_tracker_dto \<Rightarrow> trackers_db \<Rightarrow> trackers_db \<Rightarrow> (trackers_db \<times> tracker_view result) result" where
  "create_tracker newId now userId dto seen there =
     (case configFor (ctd_category dto) of
        Some config \<Rightarrow>
          rbind (check (tc_kind config = Gregorian) (BadRequest ''Month trackers are only available for: Namaz'')) (\<lambda>_.
          insertTracker now \<lparr>tr_id = newId, tr_userId = userId, tr_category = ctd_category dto, tr_month = Some (ctd_month dto),
            tr_year = Some (ctd_year dto), tr_name = None, tr_totalDays = None, tr_items = tc_items config, tr_createdAt = now\<rparr>
            (ctd_month dto) (ctd_year dto) seen there)
      | None \<Rightarrow> Inl (BadRequest ''Month trackers are only available for: Namaz''))"

definition createRamadan ::
    "id \<Rightarrow> instant \<Rightarrow> id \<Rightarrow> ramadan_dto \<Rightarrow> trackers_db \<Rightarrow> trackers_db \<Rightarrow> (trackers_db \<times> tracker_view result) result" where
  "createRamadan newId now userId dto seen there =
     insertTracker now \<lparr>tr_id = newId, tr_userId = userId, tr_category = ''Ramadan'', tr_month = Some RAMADAN_MONTH,
       tr_year = Some (rmd_year dto), tr_name = None, tr_totalDays = Some (rmd_days dto), tr_items = [''Roza''], tr_createdAt = now\<rparr>
       RAMADAN_MONTH (rmd_year dto) seen there"

definition createCustom :: "unicode \<Rightarrow> id \<Rightarrow> instant \<Rightarrow> id \<Rightarrow> custom_dto \<Rightarrow> trackers_db \<Rightarrow> (trackers_db \<times> tracker_view result) result" where
  "createCustom U newId now userId dto db =
     rbind (cleanRequiredText U (cud_name dto) ''challenge name'' MAX_TRACKER_NAME_LENGTH) (\<lambda>name.
     createWithinCap MAX_CHALLENGES ''You can keep up to 100 challenges''
       (\<lambda>d. length (filter (\<lambda>t. tr_userId t = userId \<and> tr_category t = ''Others'') (td_trackers d)))
       (\<lambda>d. let t = \<lparr>tr_id = newId, tr_userId = userId, tr_category = ''Others'', tr_month = None, tr_year = None, tr_name = Some name,
              tr_totalDays = Some (cud_totalDays dto), tr_items = [], tr_createdAt = now\<rparr> in
          rbind (insert_sheet t d) (\<lambda>d'. Inr (d', toView now d' t))) db)"

section \<open>Ticks\<close>

definition cell_tick :: "id \<Rightarrow> set_check_dto \<Rightarrow> tick" where
  "cell_tick i dto = \<lparr>tk_trackerId = i, tk_day = scd_day dto, tk_item = scd_item dto\<rparr>"

definition tickable :: "instant \<Rightarrow> tracker_row \<Rightarrow> int \<Rightarrow> unit result" where
  "tickable now t day =
     (if of_kind Gregorian (tr_category t) then
        rbind (calendarMonth t) (\<lambda>(month, year).
        check (\<not> lastTickableDay now month year < day) (BadRequest ''You can't tick a day that hasn't come yet''))
      else Inr ())"

definition setCheck :: "instant \<Rightarrow> id \<Rightarrow> id \<Rightarrow> set_check_dto \<Rightarrow> trackers_db \<Rightarrow> trackers_db \<Rightarrow> trackers_db result" where
  "setCheck now userId i dto seen there =
     rbind (requireTracker userId i seen) (\<lambda>tracker.
     rbind (check (scd_item dto \<in> set (tr_items tracker)) (BadRequest (''Unknown item '' @ quoted (scd_item dto) @ '' for this tracker''))) (\<lambda>_.
     rbind (sheetDays tracker) (\<lambda>days.
     rbind (check (\<not> days < scd_day dto) (BadRequest (''Day '' @ int_text (scd_day dto) @ '' is outside this sheet''))) (\<lambda>_.
     if scd_checked dto then
       rbind (tickable now tracker (scd_day dto)) (\<lambda>_.
       if i \<notin> tr_id ` set (td_trackers there) then Inl (DbError ''P2003'')
       else Inr (if cell_tick i dto \<in> set (td_ticks there) then there else there\<lparr>td_ticks := td_ticks there @ [cell_tick i dto]\<rparr>))
     else Inr (there\<lparr>td_ticks := filter (\<lambda>k. k \<noteq> cell_tick i dto) (td_ticks there)\<rparr>)))))"

section \<open>Columns\<close>

definition requireEditableTracker :: "id \<Rightarrow> id \<Rightarrow> trackers_db \<Rightarrow> tracker_row result" where
  "requireEditableTracker userId i db =
     rbind (requireTracker userId i db) (\<lambda>t.
     rbind (check (case configFor (tr_category t) of Some c \<Rightarrow> tc_editableItems c | None \<Rightarrow> False)
       (BadRequest ''This tracker's habits are fixed'')) (\<lambda>_. Inr t))"

text \<open>
  One round of an edit of the columns: None when the list of columns was changed in between. The
  swap and the removal of the ticks are one transaction.
\<close>

definition edit_attempt ::
    "id \<Rightarrow> id \<Rightarrow> (string list \<Rightarrow> (string list \<times> string) result) \<Rightarrow> trackers_db \<Rightarrow> trackers_db \<Rightarrow> trackers_db option result" where
  "edit_attempt userId i plan seen there =
     rbind (requireEditableTracker userId i seen) (\<lambda>tracker.
     rbind (plan (tr_items tracker)) (\<lambda>(next, clear).
     let hit = (\<lambda>t. tr_id t = i \<and> tr_userId t = userId \<and> tr_items t = tr_items tracker) in
     Inr (if \<exists>t\<in>set (td_trackers there). hit t
       then Some (there\<lparr>td_trackers := update_many hit (\<lambda>t. t\<lparr>tr_items := next\<rparr>) (td_trackers there),
         td_ticks := filter (\<lambda>k. \<not> (tk_trackerId k = i \<and> tk_item k = clear)) (td_ticks there)\<rparr>)
       else None)))"

fun edit_rounds :: "nat \<Rightarrow> nat \<Rightarrow> (nat \<Rightarrow> trackers_db option result) \<Rightarrow> trackers_db result" where
  "edit_rounds 0 k attempt = Inl (Conflict ''This sheet was changed at the same time -- please try again'')"
| "edit_rounds (Suc n) k attempt =
     rbind (attempt k) (\<lambda>r. case r of Some db \<Rightarrow> Inr db | None \<Rightarrow> edit_rounds n (Suc k) attempt)"

definition editItems ::
    "instant \<Rightarrow> id \<Rightarrow> id \<Rightarrow> (string list \<Rightarrow> (string list \<times> string) result) \<Rightarrow> (nat \<Rightarrow> trackers_db \<times> trackers_db) \<Rightarrow>
     (trackers_db \<times> tracker_view result) result" where
  "editItems now userId i plan world =
     rbind (edit_rounds 3 0 (\<lambda>k. case world k of (seen, there) \<Rightarrow> edit_attempt userId i plan seen there)) (\<lambda>db.
     Inr (db, get_tracker now userId i db))"

definition add_plan :: "(string \<Rightarrow> string) \<Rightarrow> string \<Rightarrow> string list \<Rightarrow> (string list \<times> string) result" where
  "add_plan lower name current =
     rbind (check (\<not> (\<exists>item\<in>set current. lower item = lower name)) (Conflict (quoted name @ '' is already on this sheet''))) (\<lambda>_.
     rbind (check (\<not> MAX_ITEMS \<le> length current) (BadRequest ''A sheet can have at most 20 habits'')) (\<lambda>_.
     Inr (current @ [name], name)))"

definition remove_plan_item :: "string \<Rightarrow> string list \<Rightarrow> (string list \<times> string) result" where
  "remove_plan_item name current =
     rbind (check (name \<in> set current) (NotFound ''Habit not found on this sheet'')) (\<lambda>_.
     Inr (filter (\<lambda>item. item \<noteq> name) current, name))"

definition addItem ::
    "unicode \<Rightarrow> (string \<Rightarrow> string) \<Rightarrow> instant \<Rightarrow> id \<Rightarrow> id \<Rightarrow> string \<Rightarrow> (nat \<Rightarrow> trackers_db \<times> trackers_db) \<Rightarrow>
     (trackers_db \<times> tracker_view result) result" where
  "addItem U lower now userId i rawName world =
     rbind (cleanRequiredText U rawName ''habit name'' MAX_ITEM_NAME_LENGTH) (\<lambda>name.
     editItems now userId i (add_plan lower name) world)"

definition removeItem ::
    "unicode \<Rightarrow> instant \<Rightarrow> id \<Rightarrow> id \<Rightarrow> string option \<Rightarrow> (nat \<Rightarrow> trackers_db \<times> trackers_db) \<Rightarrow>
     (trackers_db \<times> tracker_view result) result" where
  "removeItem U now userId i rawName world =
     editItems now userId i (remove_plan_item (un_nfc U (orelse rawName []))) world"

section \<open>Deleting a sheet\<close>

text \<open>
  Ticks under columns the sheet did not have when it was read are cleared first, then the sheet is
  deleted if no tick is left; the first write stands when the second finds ticks. What other
  requests write between the two is \<open>meanwhile\<close>.
\<close>

definition clear_orphans :: "id \<Rightarrow> string list \<Rightarrow> trackers_db \<Rightarrow> trackers_db" where
  "clear_orphans i items db = db\<lparr>td_ticks := filter (\<lambda>k. \<not> (tk_trackerId k = i \<and> tk_item k \<notin> set items)) (td_ticks db)\<rparr>"

definition delete_unticked :: "id \<Rightarrow> id \<Rightarrow> trackers_db \<Rightarrow> trackers_db \<times> nat" where
  "delete_unticked userId i db =
     (let gone = (\<lambda>t. tr_id t = i \<and> tr_userId t = userId \<and> \<not> (\<exists>k\<in>set (td_ticks db). tk_trackerId k = tr_id t)) in
      (db\<lparr>td_trackers := filter (\<lambda>t. \<not> gone t) (td_trackers db)\<rparr>, length (filter gone (td_trackers db))))"

definition remove_tracker :: "id \<Rightarrow> id \<Rightarrow> trackers_db \<Rightarrow> trackers_db \<Rightarrow> (trackers_db \<Rightarrow> trackers_db) \<Rightarrow> trackers_db \<times> id result" where
  "remove_tracker userId i seen there meanwhile =
     (case requireTracker userId i seen of
        Inl e \<Rightarrow> (there, Inl e)
      | Inr tracker \<Rightarrow>
          (case delete_unticked userId i (meanwhile (clear_orphans i (tr_items tracker) there)) of
             (db, count) \<Rightarrow> (db, if count = 0 then Inl (BadRequest ''This tracker has ticks -- untick them all before deleting it'') else Inr i)))"

end
