(* ===== verification/Tracker_Facts.thy ===== *)
theory Tracker_Facts
  imports Trackers
begin

text \<open>
  What the month sheets promise while requests cross: every request reads some earlier state and
  writes the present one, and still a month has one sheet, a sheet its columns, and a tick its day.
\<close>

section \<open>Well-formed sheets\<close>

definition columns_ok :: "(string \<Rightarrow> string) \<Rightarrow> string list \<Rightarrow> bool" where
  "columns_ok lower items \<longleftrightarrow> distinct (map lower items) \<and> length items \<le> MAX_ITEMS"

definition row_ok :: "(string \<Rightarrow> string) \<Rightarrow> tracker_row \<Rightarrow> bool" where
  "row_ok lower t \<longleftrightarrow>
     (if tr_category t = ''Namaz'' then
        (\<exists>m y. tr_month t = Some m \<and> tr_year t = Some y \<and> 1 \<le> m \<and> m \<le> 12 \<and> 2000 \<le> y \<and> y \<le> 2100) \<and> tr_totalDays t = None \<and>
        tr_items t = [''Fajr'', ''Dhuhr'', ''Asr'', ''Maghrib'', ''Isha'']
      else if tr_category t = ''Ramadan'' then
        tr_month t = Some RAMADAN_MONTH \<and> tr_year t \<noteq> None \<and> tr_totalDays t \<in> {Some 29, Some 30} \<and> columns_ok lower (tr_items t)
      else tr_category t = ''Others'' \<and> tr_month t = None \<and> tr_year t = None \<and>
        (\<exists>n. tr_totalDays t = Some n \<and> 1 \<le> n \<and> n \<le> 365) \<and> columns_ok lower (tr_items t))"

definition tick_ok :: "tracker_row list \<Rightarrow> tick \<Rightarrow> bool" where
  "tick_ok ts k \<longleftrightarrow> (\<exists>t\<in>set ts. tr_id t = tk_trackerId k \<and> (\<exists>n. sheetDays t = Inr n \<and> 1 \<le> tk_day k \<and> tk_day k \<le> n))"

definition challenges :: "id \<Rightarrow> tracker_row list \<Rightarrow> nat" where
  "challenges u ts = length (filter (\<lambda>t. tr_userId t = u \<and> tr_category t = ''Others'') ts)"

text \<open>No two sheets with the same place in the unique index.\<close>

definition one_sheet_each :: "tracker_row list \<Rightarrow> bool" where
  "one_sheet_each ts \<longleftrightarrow> distinct (List.map_filter sheet_key ts)"

definition trackers_ok :: "(string \<Rightarrow> string) \<Rightarrow> trackers_db \<Rightarrow> bool" where
  "trackers_ok lower db \<longleftrightarrow> keyed tr_id (td_trackers db) \<and> one_sheet_each (td_trackers db) \<and>
     (\<forall>t\<in>set (td_trackers db). row_ok lower t) \<and> distinct (td_ticks db) \<and> (\<forall>k\<in>set (td_ticks db). tick_ok (td_trackers db) k) \<and>
     (\<forall>u. challenges u (td_trackers db) \<le> MAX_CHALLENGES)"

text \<open>All of a row but its columns never changes.\<close>

definition sheet_of :: "tracker_row \<Rightarrow> tracker_row" where
  "sheet_of t = t\<lparr>tr_items := []\<rparr>"

lemma sheet_ofD:
  assumes "sheet_of t = sheet_of t'"
  shows "tr_id t = tr_id t'" "tr_userId t = tr_userId t'" "tr_category t = tr_category t'" "tr_month t = tr_month t'"
    "tr_year t = tr_year t'" "tr_totalDays t = tr_totalDays t'" "sheet_key t = sheet_key t'" "sheetDays t = sheetDays t'"
proof -
  show p: "tr_id t = tr_id t'" "tr_userId t = tr_userId t'" "tr_category t = tr_category t'" "tr_month t = tr_month t'"
    "tr_year t = tr_year t'" "tr_totalDays t = tr_totalDays t'"
    using arg_cong [OF assms, of tr_id] arg_cong [OF assms, of tr_userId] arg_cong [OF assms, of tr_category]
      arg_cong [OF assms, of tr_month] arg_cong [OF assms, of tr_year] arg_cong [OF assms, of tr_totalDays]
    by (simp_all add: sheet_of_def)
  show "sheet_key t = sheet_key t'" "sheetDays t = sheetDays t'"
    unfolding sheet_key_def sheetDays_def calendarMonth_def p by (rule refl)+
qed

definition agree :: "trackers_db \<Rightarrow> trackers_db \<Rightarrow> bool" where
  "agree seen there \<longleftrightarrow> (\<forall>t\<in>set (td_trackers seen). \<forall>t'\<in>set (td_trackers there). tr_id t = tr_id t' \<longrightarrow> sheet_of t = sheet_of t')"

lemma agreeD: "agree seen there \<Longrightarrow> t \<in> set (td_trackers seen) \<Longrightarrow> t' \<in> set (td_trackers there) \<Longrightarrow> tr_id t = tr_id t' \<Longrightarrow> sheet_of t = sheet_of t'"
  unfolding agree_def by blast

lemma agree_self: "keyed tr_id (td_trackers db) \<Longrightarrow> agree db db"
  by (auto simp: agree_def keyed_def distinct_map dest: inj_onD)

lemma same_sheet: "sheet_of ` set ts \<subseteq> sheet_of ` set ts' \<Longrightarrow> t \<in> set ts \<Longrightarrow> (\<And>t'. t' \<in> set ts' \<Longrightarrow> sheet_of t = sheet_of t' \<Longrightarrow> P) \<Longrightarrow> P"
  by blast

lemma agree_same_sheets:
  assumes "agree seen there" and "sheet_of ` set (td_trackers there') \<subseteq> sheet_of ` set (td_trackers there)"
  shows "agree seen there'"
  unfolding agree_def
proof (intro ballI impI)
  fix t t' assume t: "t \<in> set (td_trackers seen)" and t': "t' \<in> set (td_trackers there')" and i: "tr_id t = tr_id t'"
  from same_sheet [OF assms(2) t'] obtain r where r: "r \<in> set (td_trackers there)" "sheet_of t' = sheet_of r" by blast
  from agreeD [OF assms(1) t r(1)] i sheet_ofD(1) [OF r(2)] r(2) show "sheet_of t = sheet_of t'" by simp
qed

lemma keys_append: "List.map_filter sheet_key (ts @ [t]) = List.map_filter sheet_key ts @ (case sheet_key t of None \<Rightarrow> [] | Some k \<Rightarrow> [k])"
  by (induction ts) (auto simp: List.map_filter_def split: option.splits)

lemma keys_have: "k \<in> set (List.map_filter sheet_key ts) \<longleftrightarrow> Some k \<in> sheet_key ` set ts"
  by (induction ts) (auto simp: List.map_filter_simps split: option.splits)

lemma keys_filter: "distinct (List.map_filter sheet_key ts) \<Longrightarrow> distinct (List.map_filter sheet_key (filter P ts))"
  by (induction ts) (auto simp: keys_have List.map_filter_simps split: option.splits)

lemma keys_map:
  assumes "map sheet_key ts = map sheet_key ts'"
  shows "List.map_filter sheet_key ts = List.map_filter sheet_key ts'"
  using assms by (induction ts ts' rule: list_induct2') (auto simp: List.map_filter_simps split: option.split)

lemma one_sheet:
  assumes "one_sheet_each ts" and "t \<in> set ts" "t' \<in> set ts" and "sheet_key t = Some k" "sheet_key t' = Some k"
  shows "t = t'"
  using assms unfolding one_sheet_each_def
  by (induction ts) (auto simp: keys_have List.map_filter_simps image_iff split: option.splits if_splits)

section \<open>What each write keeps\<close>

lemma ticks_thinned:
  assumes "trackers_ok lower db"
  shows "trackers_ok lower (db\<lparr>td_ticks := filter P (td_ticks db)\<rparr>)"
  using assms by (auto simp: trackers_ok_def)

lemma tick_ok_sheets:
  assumes "sheet_of ` set ts \<subseteq> sheet_of ` set ts'" and "tick_ok ts k"
  shows "tick_ok ts' k"
proof -
  from assms(2) obtain t n where t: "t \<in> set ts" "tr_id t = tk_trackerId k" "sheetDays t = Inr n" "1 \<le> tk_day k" "tk_day k \<le> n"
    by (auto simp: tick_ok_def)
  from same_sheet [OF assms(1) t(1)] obtain r where r: "r \<in> set ts'" "sheet_of t = sheet_of r" by blast
  from t(2-) have "tr_id r = tk_trackerId k" "sheetDays r = Inr n" by (simp_all add: sheet_ofD(1,8) [OF r(2)])
  with r(1) t(4,5) show ?thesis by (auto simp: tick_ok_def)
qed

lemma columns_edited:
  assumes "trackers_ok lower db" and "\<And>t. t \<in> set (td_trackers db) \<Longrightarrow> P t \<Longrightarrow> row_ok lower (t\<lparr>tr_items := items\<rparr>)"
  shows "trackers_ok lower (db\<lparr>td_trackers := update_many P (\<lambda>t. t\<lparr>tr_items := items\<rparr>) (td_trackers db)\<rparr>)"
proof -
  define f where "f = (\<lambda>t. if P t then t\<lparr>tr_items := items\<rparr> else t)"
  define ts where "ts = td_trackers db"
  have same: "sheet_of (f t) = sheet_of t" for t by (simp add: sheet_of_def f_def)
  note f = sheet_ofD [OF same]
  have ids: "map tr_id (map f ts) = map tr_id ts" and keyss: "map sheet_key (map f ts) = map sheet_key ts"
    and owners: "map (\<lambda>t. (tr_userId t, tr_category t)) (map f ts) = map (\<lambda>t. (tr_userId t, tr_category t)) ts"
    by (simp_all add: f)
  have "challenges u l = length (filter (\<lambda>(v, c). v = u \<and> c = ''Others'') (map (\<lambda>t. (tr_userId t, tr_category t)) l))" for u l
    by (induction l) (auto simp: challenges_def)
  then have 5: "challenges u (map f ts) = challenges u ts" for u by (simp only: owners)
  have "sheet_of ` set ts \<subseteq> sheet_of ` set (map f ts)" by (simp add: image_image same)
  then have 4: "tick_ok ts k \<Longrightarrow> tick_ok (map f ts) k" for k by (rule tick_ok_sheets)
  have 3: "\<forall>t\<in>set (map f ts). row_ok lower t" using assms by (auto simp: trackers_ok_def ts_def f_def)
  have "trackers_ok lower (db\<lparr>td_trackers := map f ts\<rparr>)"
    using assms(1) 3 4 5 ids keys_map [OF keyss] by (simp add: trackers_ok_def keyed_def one_sheet_each_def ts_def del: map_map)
  then show ?thesis by (simp add: update_many_def f_def ts_def)
qed

lemma sheet_inserted:
  assumes "insert_sheet t db = Inr db'" and "trackers_ok lower db" and "row_ok lower t"
    and "tr_category t = ''Others'' \<Longrightarrow> challenges (tr_userId t) (td_trackers db) < MAX_CHALLENGES"
  shows "trackers_ok lower db' \<and> db' = db\<lparr>td_trackers := td_trackers db @ [t]\<rparr>"
proof -
  from assms(1) have new: "\<not> sheet_taken t (td_trackers db)" "tr_id t \<notin> tr_id ` set (td_trackers db)"
    and db': "db' = db\<lparr>td_trackers := td_trackers db @ [t]\<rparr>"
    by (auto simp: insert_sheet_def rbind_eq_Inr insert_row_eq_Inr split: if_splits)
  have "tick_ok (td_trackers db @ [t]) k" if "tick_ok (td_trackers db) k" for k using that by (auto simp: tick_ok_def)
  moreover have "challenges u (td_trackers db @ [t]) \<le> MAX_CHALLENGES" for u
    using assms(2,4) by (auto simp: trackers_ok_def challenges_def)
  moreover have "one_sheet_each (td_trackers db @ [t])"
    using assms(2) new(1) by (cases "sheet_key t") (simp_all add: trackers_ok_def one_sheet_each_def sheet_taken_def keys_append keys_have)
  ultimately show ?thesis using assms(2,3) new(2) by (auto simp: trackers_ok_def db')
qed

lemma insertTrackerE:
  assumes "insertTracker now t month year seen there = Inr (db', v)"
  obtains "\<not> sheet_taken t (td_trackers seen)" "insert_sheet t there = Inr db'" "v = toView now db' t"
  using assms unfolding insertTracker_def by (auto simp: rbind_eq_Inr check_eq_Inr split: sum.splits)

lemma createCustomE:
  assumes "createCustom U n now u dto db = Inr (db', v)"
  obtains t where "insert_sheet t db = Inr db'" "tr_id t = n" "tr_userId t = u" "tr_category t = ''Others''" "tr_month t = None" "tr_year t = None"
    "tr_totalDays t = Some (cud_totalDays dto)" "tr_items t = []" "challenges u (td_trackers db) < MAX_CHALLENGES"
  using assms unfolding createCustom_def createWithinCap_def Let_def
  by (auto simp: rbind_eq_Inr check_eq_Inr challenges_def)

lemma create_trackerE:
  assumes "create_tracker n now u dto seen there = Inr (db', v)"
  obtains t where "insertTracker now t (ctd_month dto) (ctd_year dto) seen there = Inr (db', v)" "tr_id t = n" "tr_category t = ''Namaz''"
    "tr_month t = Some (ctd_month dto)" "tr_year t = Some (ctd_year dto)" "tr_totalDays t = None"
    "tr_items t = [''Fajr'', ''Dhuhr'', ''Asr'', ''Maghrib'', ''Isha'']"
  using assms unfolding create_tracker_def configFor_def TRACKER_CONFIG_def
  by (auto simp: rbind_eq_Inr check_eq_Inr split: if_splits)

lemma setCheckE:
  assumes "setCheck now u i dto seen there = Inr db'"
  obtains t n where "t \<in> set (td_trackers seen)" "tr_id t = i" "tr_userId t = u" "scd_item dto \<in> set (tr_items t)"
      "sheetDays t = Inr n" "scd_day dto \<le> n" "scd_checked dto" "tickable now t (scd_day dto) = Inr ()" "i \<in> tr_id ` set (td_trackers there)"
      "db' = (if cell_tick i dto \<in> set (td_ticks there) then there else there\<lparr>td_ticks := td_ticks there @ [cell_tick i dto]\<rparr>)"
    | t n where "t \<in> set (td_trackers seen)" "tr_id t = i" "tr_userId t = u" "scd_item dto \<in> set (tr_items t)"
      "sheetDays t = Inr n" "scd_day dto \<le> n" "\<not> scd_checked dto" "db' = there\<lparr>td_ticks := filter (\<lambda>k. k \<noteq> cell_tick i dto) (td_ticks there)\<rparr>"
proof -
  from assms obtain t n where t: "find_row tr_id i (td_trackers seen) = Some t" "tr_userId t = u" and c: "scd_item dto \<in> set (tr_items t)"
    "sheetDays t = Inr n" "scd_day dto \<le> n"
    and rest: "(if scd_checked dto then
       rbind (tickable now t (scd_day dto)) (\<lambda>_.
       if i \<notin> tr_id ` set (td_trackers there) then Inl (DbError ''P2003'')
       else Inr (if cell_tick i dto \<in> set (td_ticks there) then there else there\<lparr>td_ticks := td_ticks there @ [cell_tick i dto]\<rparr>))
     else Inr (there\<lparr>td_ticks := filter (\<lambda>k. k \<noteq> cell_tick i dto) (td_ticks there)\<rparr>)) = Inr db'"
    unfolding setCheck_def requireTracker_def rbind_eq_Inr check_eq_Inr require_row_eq_Inr by (auto simp: not_less)
  from find_row_Some [OF t(1)] have m: "t \<in> set (td_trackers seen)" "tr_id t = i" by auto
  show thesis
  proof (cases "scd_checked dto")
    case True
    with rest have "tickable now t (scd_day dto) = Inr ()" "i \<in> tr_id ` set (td_trackers there)"
      "db' = (if cell_tick i dto \<in> set (td_ticks there) then there else there\<lparr>td_ticks := td_ticks there @ [cell_tick i dto]\<rparr>)"
      by (auto simp: rbind_eq_Inr split: if_splits)
    from that(1) [OF m t(2) c True this] show thesis .
  next
    case False
    with rest have "db' = there\<lparr>td_ticks := filter (\<lambda>k. k \<noteq> cell_tick i dto) (td_ticks there)\<rparr>" by simp
    from that(2) [OF m t(2) c False this] show thesis .
  qed
qed

lemma tick_added:
  assumes "trackers_ok lower db" and "tick_ok (td_trackers db) k"
  shows "trackers_ok lower (if k \<in> set (td_ticks db) then db else db\<lparr>td_ticks := td_ticks db @ [k]\<rparr>)"
  using assms by (simp add: trackers_ok_def)

lemma setCheck_ok:
  assumes "setCheck now u i dto seen there = Inr db'" and "trackers_ok lower there" and "agree seen there" and "set_check_dto_ok dto"
  shows "trackers_ok lower db' \<and> td_trackers db' = td_trackers there"
  using assms(1)
proof (rule setCheckE)
  fix t n
  assume t: "t \<in> set (td_trackers seen)" "tr_id t = i" "sheetDays t = Inr n" "scd_day dto \<le> n" and "i \<in> tr_id ` set (td_trackers there)"
    and db': "db' = (if cell_tick i dto \<in> set (td_ticks there) then there else there\<lparr>td_ticks := td_ticks there @ [cell_tick i dto]\<rparr>)"
  from \<open>i \<in> tr_id ` set (td_trackers there)\<close> obtain t' where t': "t' \<in> set (td_trackers there)" "tr_id t' = i" by auto
  from t(2) t'(2) have same: "sheet_of t = sheet_of t'" by (intro agreeD [OF assms(3) t(1) t'(1)]) simp
  from t(3) have "sheetDays t' = Inr n" by (simp add: sheet_ofD(8) [OF same])
  with t' t(4) assms(4) have "tick_ok (td_trackers there) (cell_tick i dto)"
    by (auto simp: tick_ok_def cell_tick_def set_check_dto_ok_def)
  from tick_added [OF assms(2) this] show ?thesis by (simp add: db')
qed (use ticks_thinned [OF assms(2)] in simp)

lemma requireEditableTrackerE:
  assumes "requireEditableTracker u i db = Inr t"
  shows "t \<in> set (td_trackers db)" "tr_id t = i" "tr_userId t = u" "\<exists>c. configFor (tr_category t) = Some c \<and> tc_editableItems c"
proof -
  from assms have t: "find_row tr_id i (td_trackers db) = Some t" "tr_userId t = u"
    and c: "case configFor (tr_category t) of Some c \<Rightarrow> tc_editableItems c | None \<Rightarrow> False"
    unfolding requireEditableTracker_def requireTracker_def by (auto simp: rbind_eq_Inr check_eq_Inr require_row_eq_Inr)
  from find_row_Some [OF t(1)] t(2) show "t \<in> set (td_trackers db)" "tr_id t = i" "tr_userId t = u" by simp_all
  from c show "\<exists>c. configFor (tr_category t) = Some c \<and> tc_editableItems c" by (cases "configFor (tr_category t)") simp_all
qed

definition swaps :: "id \<Rightarrow> id \<Rightarrow> string list \<Rightarrow> tracker_row \<Rightarrow> bool" where
  "swaps u i items t \<longleftrightarrow> tr_id t = i \<and> tr_userId t = u \<and> tr_items t = items"

definition swapped :: "id \<Rightarrow> id \<Rightarrow> string list \<Rightarrow> string list \<times> string \<Rightarrow> trackers_db \<Rightarrow> trackers_db" where
  "swapped u i items p db =
     db\<lparr>td_trackers := update_many (swaps u i items) (\<lambda>t. t\<lparr>tr_items := fst p\<rparr>) (td_trackers db),
       td_ticks := filter (\<lambda>k. \<not> (tk_trackerId k = i \<and> tk_item k = snd p)) (td_ticks db)\<rparr>"

lemma edit_attempt_alt: "edit_attempt u i plan seen there =
    rbind (requireEditableTracker u i seen) (\<lambda>t. rbind (plan (tr_items t)) (\<lambda>p.
      Inr (if \<exists>t'\<in>set (td_trackers there). swaps u i (tr_items t) t' then Some (swapped u i (tr_items t) p there) else None)))"
  unfolding edit_attempt_def swapped_def swaps_def [abs_def] Let_def case_prod_unfold by (rule refl)

lemma edit_attemptE:
  assumes "edit_attempt u i plan seen there = Inr (Some db')"
  obtains t p where "requireEditableTracker u i seen = Inr t" "plan (tr_items t) = Inr p"
    "\<exists>t'\<in>set (td_trackers there). swaps u i (tr_items t) t'" "db' = swapped u i (tr_items t) p there"
  using assms unfolding edit_attempt_alt rbind_eq_Inr by (auto split: if_splits)

definition column_plan :: "(string \<Rightarrow> string) \<Rightarrow> (string list \<Rightarrow> (string list \<times> string) result) \<Rightarrow> bool" where
  "column_plan lower plan \<longleftrightarrow> (\<exists>name. plan = add_plan lower name \<or> plan = remove_plan_item name)"

lemma distinct_map_filtered: "distinct (map f xs) \<Longrightarrow> distinct (map f (filter P xs))"
  by (induction xs) auto

lemma plan_keeps_columns:
  assumes "column_plan lower plan" and "plan items = Inr (nexts, clear)" and "columns_ok lower items"
  shows "columns_ok lower nexts"
proof -
  from assms(1) obtain name where "plan = add_plan lower name \<or> plan = remove_plan_item name" by (auto simp: column_plan_def)
  then show ?thesis
  proof
    assume "plan = add_plan lower name"
    with assms(2) have "nexts = items @ [name]" "lower name \<notin> lower ` set items" "length items < MAX_ITEMS"
      by (auto simp: add_plan_def rbind_eq_Inr check_eq_Inr not_le image_iff)
    with assms(3) show ?thesis by (simp add: columns_ok_def)
  next
    assume "plan = remove_plan_item name"
    with assms(2) have "nexts = filter (\<lambda>item. item \<noteq> name) items" by (auto simp: remove_plan_item_def rbind_eq_Inr check_eq_Inr)
    with assms(3) show ?thesis by (auto simp: columns_ok_def distinct_map_filtered intro: order_trans [OF length_filter_le])
  qed
qed

lemma recolumned:
  assumes "tr_category t' = c" and "row_ok lower t'" and "c \<noteq> ''Namaz''" and "columns_ok lower items"
  shows "row_ok lower (t'\<lparr>tr_items := items\<rparr>)"
  using assms unfolding row_ok_def by (cases "c = ''Ramadan''") simp_all

lemma edit_attempt_ok:
  assumes "edit_attempt u i plan seen there = Inr (Some db')" and "trackers_ok lower seen" "trackers_ok lower there" and "agree seen there"
    and "column_plan lower plan"
  shows "trackers_ok lower db' \<and> sheet_of ` set (td_trackers db') \<subseteq> sheet_of ` set (td_trackers there)"
  using assms(1)
proof (rule edit_attemptE)
  fix t p
  assume e: "requireEditableTracker u i seen = Inr t" and p: "plan (tr_items t) = Inr p" and db': "db' = swapped u i (tr_items t) p there"
  note t = requireEditableTrackerE [OF e]
  from t(4) have cat: "tr_category t \<noteq> ''Namaz''" by (auto simp: configFor_def TRACKER_CONFIG_def)
  from assms(2) t(1) have "row_ok lower t" by (simp add: trackers_ok_def)
  with cat have "columns_ok lower (tr_items t)" by (auto simp: row_ok_def split: if_splits)
  with plan_keeps_columns [OF assms(5), of "tr_items t" "fst p" "snd p"] p have cols: "columns_ok lower (fst p)" by simp
  have "row_ok lower (t'\<lparr>tr_items := fst p\<rparr>)" if t': "t' \<in> set (td_trackers there)" "swaps u i (tr_items t) t'" for t'
  proof -
    have "sheet_of t = sheet_of t'" using t(2) t'(2) by (intro agreeD [OF assms(4) t(1) t'(1)]) (simp add: swaps_def)
    from sheet_ofD(3) [OF this] have "tr_category t' = tr_category t" by simp
    moreover have "row_ok lower t'" using assms(3) t'(1) by (simp add: trackers_ok_def)
    ultimately show ?thesis using cat cols by (rule recolumned)
  qed
  from ticks_thinned [OF columns_edited [OF assms(3) this], where P = "\<lambda>k. \<not> (tk_trackerId k = i \<and> tk_item k = snd p)"]
  have "trackers_ok lower db'" by (simp add: db' swapped_def)
  moreover have "sheet_of ` set (update_many P (\<lambda>t. t\<lparr>tr_items := x\<rparr>) ts) = sheet_of ` set ts" for P x ts
  proof -
    have "sheet_of (if P t then t\<lparr>tr_items := x\<rparr> else t) = sheet_of t" for t by (simp add: sheet_of_def)
    then show ?thesis unfolding update_many_def by (simp only: set_map image_comp comp_def)
  qed
  then have "sheet_of ` set (td_trackers db') = sheet_of ` set (td_trackers there)" by (simp add: db' swapped_def)
  ultimately show ?thesis by simp
qed

lemma delete_unticked_ok:
  assumes "trackers_ok lower db"
  shows "trackers_ok lower (fst (delete_unticked u i db)) \<and> set (td_trackers (fst (delete_unticked u i db))) \<subseteq> set (td_trackers db)"
proof -
  define gone :: "tracker_row \<Rightarrow> bool" where "gone = (\<lambda>t. tr_id t = i \<and> tr_userId t = u \<and> \<not> (\<exists>k\<in>set (td_ticks db). tk_trackerId k = tr_id t))"
  have db': "fst (delete_unticked u i db) = db\<lparr>td_trackers := filter (\<lambda>t. \<not> gone t) (td_trackers db)\<rparr>"
    by (simp add: delete_unticked_def gone_def)
  have "tick_ok (filter (\<lambda>t. \<not> gone t) (td_trackers db)) k" if "k \<in> set (td_ticks db)" for k
    using assms that by (fastforce simp: trackers_ok_def tick_ok_def gone_def)
  moreover have "challenges v (filter P ts) \<le> challenges v ts" for v and P :: "tracker_row \<Rightarrow> bool" and ts by (induction ts) (auto simp: challenges_def)
  then have "challenges v (filter (\<lambda>t. \<not> gone t) (td_trackers db)) \<le> MAX_CHALLENGES" for v
    using assms order_trans unfolding trackers_ok_def by blast
  moreover have "one_sheet_each (filter (\<lambda>t. \<not> gone t) (td_trackers db))"
    using assms by (simp add: trackers_ok_def one_sheet_each_def keys_filter)
  ultimately show ?thesis using assms unfolding db' by (simp add: trackers_ok_def keyed_filter)
qed

section \<open>Requests that cross\<close>

text \<open>
  A run keeps every state the database was in. A request reads any of them -- it may have read long
  ago -- and writes the present one; ids drawn for a new sheet were never drawn before. The two
  writes of a deletion are two steps.
\<close>

definition drawn :: "id \<Rightarrow> trackers_db list \<Rightarrow> bool" where
  "drawn i H \<longleftrightarrow> (\<exists>s\<in>set H. i \<in> tr_id ` set (td_trackers s))"

inductive sheet_write :: "(string \<Rightarrow> string) \<Rightarrow> trackers_db list \<Rightarrow> trackers_db \<Rightarrow> trackers_db \<Rightarrow> bool" for lower H where
  month_created: "create_tracker n now u dto seen db = Inr (db', v) \<Longrightarrow> seen \<in> set H \<Longrightarrow> create_tracker_dto_ok dto \<Longrightarrow>
    \<not> drawn n H \<Longrightarrow> sheet_write lower H db db'"
| ramadan_created: "createRamadan n now u rdto seen db = Inr (db', v) \<Longrightarrow> seen \<in> set H \<Longrightarrow> ramadan_dto_ok rdto \<Longrightarrow>
    \<not> drawn n H \<Longrightarrow> sheet_write lower H db db'"
| challenge_created: "createCustom U n now u cdto db = Inr (db', v) \<Longrightarrow> custom_dto_ok cdto \<Longrightarrow> \<not> drawn n H \<Longrightarrow> sheet_write lower H db db'"
| cell_set: "setCheck now u i sdto seen db = Inr db' \<Longrightarrow> seen \<in> set H \<Longrightarrow> set_check_dto_ok sdto \<Longrightarrow> sheet_write lower H db db'"
| columns_changed: "edit_attempt u i plan seen db = Inr (Some db') \<Longrightarrow> seen \<in> set H \<Longrightarrow> column_plan lower plan \<Longrightarrow> sheet_write lower H db db'"
| orphans_cleared: "requireTracker u i seen = Inr t \<Longrightarrow> seen \<in> set H \<Longrightarrow> sheet_write lower H db (clear_orphans i (tr_items t) db)"
| sheet_deleted: "sheet_write lower H db (fst (delete_unticked u i db))"

inductive sheets_step :: "(string \<Rightarrow> string) \<Rightarrow> trackers_db list \<times> trackers_db \<Rightarrow> trackers_db list \<times> trackers_db \<Rightarrow> bool" for lower where
  written: "sheet_write lower H db db' \<Longrightarrow> sheets_step lower (H, db) (db' # H, db')"

definition run_ok :: "(string \<Rightarrow> string) \<Rightarrow> trackers_db list \<times> trackers_db \<Rightarrow> bool" where
  "run_ok lower s \<longleftrightarrow> snd s \<in> set (fst s) \<and> (\<forall>seen\<in>set (fst s). trackers_ok lower seen \<and> agree seen (snd s))"

lemma run_okD: "run_ok lower (H, db) \<Longrightarrow> db \<in> set H \<and> trackers_ok lower db"
  by (auto simp: run_ok_def)

lemma run_ok_next:
  assumes "run_ok lower (H, db)" and "trackers_ok lower db'" and "\<And>seen. seen \<in> set H \<Longrightarrow> agree seen db'"
  shows "run_ok lower (db' # H, db')"
  using assms by (auto simp: run_ok_def trackers_ok_def intro: agree_self)

lemma run_ok_shrunk:
  assumes "run_ok lower (H, db)" and "trackers_ok lower db'" and "sheet_of ` set (td_trackers db') \<subseteq> sheet_of ` set (td_trackers db)"
  shows "run_ok lower (db' # H, db')"
proof (rule run_ok_next [OF assms(1,2)])
  fix seen assume "seen \<in> set H"
  with assms(1) have "agree seen db" by (simp add: run_ok_def)
  from agree_same_sheets [OF this assms(3)] show "agree seen db'" .
qed

lemma run_ok_inserted:
  assumes "run_ok lower (H, db)" and "insert_sheet t db = Inr db'" and "row_ok lower t" and "\<not> drawn (tr_id t) H"
    and "tr_category t = ''Others'' \<Longrightarrow> challenges (tr_userId t) (td_trackers db) < MAX_CHALLENGES"
  shows "run_ok lower (db' # H, db')"
proof (rule run_ok_next [OF assms(1)])
  from assms(1) have ok: "trackers_ok lower db" by (auto simp: run_ok_def)
  note ins = sheet_inserted [OF assms(2) ok assms(3,5)]
  from ins show "trackers_ok lower db'" by (rule conjunct1)
  fix seen assume seen: "seen \<in> set H"
  show "agree seen db'" unfolding agree_def
  proof (intro ballI impI)
    fix r r' assume r: "r \<in> set (td_trackers seen)" "r' \<in> set (td_trackers db')" "tr_id r = tr_id r'"
    have "tr_id r \<noteq> tr_id t" using assms(4) seen r(1) unfolding drawn_def by (metis imageI)
    with r(3) have "r' \<noteq> t" by auto
    with ins r(2) have "r' \<in> set (td_trackers db)" by simp
    moreover have "agree seen db" using assms(1) seen by (simp add: run_ok_def)
    ultimately show "sheet_of r = sheet_of r'" using agreeD r(1,3) by blast
  qed
qed

lemma sheet_write_keeps:
  assumes "sheet_write lower H db db'" and "run_ok lower (H, db)"
  shows "run_ok lower (db' # H, db')"
  using assms
proof (induction rule: sheet_write.induct)
  case (month_created n now u dto seen db db' v)
  from month_created(1) obtain t where t: "insertTracker now t (ctd_month dto) (ctd_year dto) seen db = Inr (db', v)" "tr_id t = n" "tr_category t = ''Namaz''"
    "tr_month t = Some (ctd_month dto)" "tr_year t = Some (ctd_year dto)" "tr_totalDays t = None"
    "tr_items t = [''Fajr'', ''Dhuhr'', ''Asr'', ''Maghrib'', ''Isha'']" by (rule create_trackerE)
  from t(1) have ins: "insert_sheet t db = Inr db'" by (rule insertTrackerE)
  have row: "row_ok lower t" using month_created(3) t(3-7) by (simp add: row_ok_def create_tracker_dto_ok_def)
  show ?case by (rule run_ok_inserted [OF month_created(5) ins row]) (use month_created(4) t(2,3) in simp_all)
next
  case (ramadan_created n now u rdto seen db db' v)
  let ?t = "\<lparr>tr_id = n, tr_userId = u, tr_category = ''Ramadan'', tr_month = Some RAMADAN_MONTH,
       tr_year = Some (rmd_year rdto), tr_name = None, tr_totalDays = Some (rmd_days rdto), tr_items = [''Roza''], tr_createdAt = now\<rparr>"
  from ramadan_created(1) have ins: "insert_sheet ?t db = Inr db'" unfolding createRamadan_def by (rule insertTrackerE)
  have row: "row_ok lower ?t" using ramadan_created(3) by (auto simp: row_ok_def ramadan_dto_ok_def columns_ok_def MAX_ITEMS_def)
  show ?case by (rule run_ok_inserted [OF ramadan_created(5) ins row]) (use ramadan_created(4) in simp_all)
next
  case (challenge_created U n now u cdto db db' v)
  from challenge_created(1) obtain t where t: "insert_sheet t db = Inr db'" "tr_id t = n" "tr_userId t = u" "tr_category t = ''Others''"
    "tr_month t = None" "tr_year t = None" "tr_totalDays t = Some (cud_totalDays cdto)" "tr_items t = []" "challenges u (td_trackers db) < MAX_CHALLENGES"
    by (rule createCustomE)
  have row: "row_ok lower t" using challenge_created(2) t(4-8) by (simp add: row_ok_def custom_dto_ok_def columns_ok_def)
  show ?case by (rule run_ok_inserted [OF challenge_created(4) t(1) row]) (use challenge_created(3) t(2,3,9) in simp_all)
next
  case (cell_set now u i sdto seen db db')
  from cell_set(2,4) have "trackers_ok lower db" "agree seen db" by (auto simp: run_ok_def)
  note ok = setCheck_ok [OF cell_set(1) this cell_set(3)]
  show ?case by (rule run_ok_shrunk [OF cell_set(4) conjunct1 [OF ok]]) (simp only: conjunct2 [OF ok] order_refl)
next
  case (columns_changed u i plan seen db db')
  from columns_changed(2,4) have "trackers_ok lower seen" "trackers_ok lower db" "agree seen db" by (auto simp: run_ok_def)
  note ok = edit_attempt_ok [OF columns_changed(1) this columns_changed(3)]
  show ?case by (rule run_ok_shrunk [OF columns_changed(4) conjunct1 [OF ok] conjunct2 [OF ok]])
next
  case (orphans_cleared u i seen t db)
  from run_okD [OF orphans_cleared(3)] have ok: "trackers_ok lower (clear_orphans i (tr_items t) db)"
    unfolding clear_orphans_def by (intro ticks_thinned) simp
  have rows: "td_trackers (clear_orphans i (tr_items t) db) = td_trackers db" by (simp add: clear_orphans_def)
  show ?case by (rule run_ok_shrunk [OF orphans_cleared(3) ok]) (simp only: rows order_refl)
next
  case (sheet_deleted db u i)
  from run_okD [OF sheet_deleted] have "trackers_ok lower db" by simp
  note ok = delete_unticked_ok [OF this]
  show ?case by (rule run_ok_shrunk [OF sheet_deleted conjunct1 [OF ok] image_mono [OF conjunct2 [OF ok]]])
qed

interpretation sheets: invariant_system "sheets_step lower" "run_ok lower" for lower
proof
  fix s t assume "sheets_step lower s t" and "run_ok lower s"
  then show "run_ok lower t" by (induction rule: sheets_step.induct) (rule sheet_write_keeps)
qed

text \<open>
  C37: however requests cross, each reading an older state than the one it writes, a user has one sheet
  for a month or a Ramadan and at most 100 challenges, a prayer sheet has its five columns, the
  columns of every other sheet differ when case is ignored and are at most 20, and every tick belongs
  to a sheet and lies within its days.
\<close>

theorem sheets_run_sound:
  assumes "(sheets_step lower)\<^sup>*\<^sup>* ([db0], db0) (H, db)" and "trackers_ok lower db0"
  shows "(\<forall>t\<in>set (td_trackers db). \<forall>t'\<in>set (td_trackers db). sheet_key t \<noteq> None \<and> sheet_key t = sheet_key t' \<longrightarrow> t = t') \<and>
    (\<forall>t\<in>set (td_trackers db). if tr_category t = ''Namaz'' then tr_items t = [''Fajr'', ''Dhuhr'', ''Asr'', ''Maghrib'', ''Isha'']
       else distinct (map lower (tr_items t)) \<and> length (tr_items t) \<le> 20) \<and>
    (\<forall>k\<in>set (td_ticks db). \<exists>t\<in>set (td_trackers db). tr_id t = tk_trackerId k \<and> (\<exists>n. sheetDays t = Inr n \<and> 1 \<le> tk_day k \<and> tk_day k \<le> n)) \<and>
    length (filter (\<lambda>t. tr_userId t = u \<and> tr_category t = ''Others'') (td_trackers db)) \<le> 100"
proof -
  have "run_ok lower ([db0], db0)" using assms(2) by (simp add: run_ok_def agree_self trackers_ok_def)
  from run_okD [OF sheets.run_inv [OF assms(1) this]] have ok: "trackers_ok lower db" by simp
  then have one: "one_sheet_each (td_trackers db)" and rows: "\<forall>t\<in>set (td_trackers db). row_ok lower t" by (simp_all add: trackers_ok_def)
  have "t = t'" if "t \<in> set (td_trackers db)" "t' \<in> set (td_trackers db)" "sheet_key t \<noteq> None" "sheet_key t = sheet_key t'" for t t'
    using one_sheet [OF one that(1,2)] that(3,4) by (cases "sheet_key t") auto
  moreover have "if tr_category t = ''Namaz'' then tr_items t = [''Fajr'', ''Dhuhr'', ''Asr'', ''Maghrib'', ''Isha'']
       else distinct (map lower (tr_items t)) \<and> length (tr_items t) \<le> 20" if "t \<in> set (td_trackers db)" for t
    using rows that by (auto simp: row_ok_def columns_ok_def MAX_ITEMS_def split: if_splits)
  moreover have "challenges u (td_trackers db) \<le> 100" using ok by (simp add: trackers_ok_def MAX_CHALLENGES_def)
  ultimately show ?thesis using ok unfolding trackers_ok_def tick_ok_def challenges_def by blast
qed

section \<open>Single requests\<close>

text \<open>
  Two creations of the same sheet that cross: the second to write is answered with the conflict
  the user would get a moment later, never with the failure of the index, and changes nothing.
\<close>

theorem crossing_creation_conflicts:
  assumes "sheet_taken t (td_trackers seen) \<or> sheet_taken t (td_trackers there)"
  shows "insertTracker now t month year seen there = Inl (Conflict (alreadyExistsMessage (tr_category t) month year))"
  using assms by (auto simp: insertTracker_def insert_sheet_def check_def rbind_def)

text \<open>A request to set a cell is a check against what was read and a write that needs nothing of it.\<close>

definition cell_allowed :: "instant \<Rightarrow> id \<Rightarrow> id \<Rightarrow> set_check_dto \<Rightarrow> trackers_db \<Rightarrow> unit result" where
  "cell_allowed now u i dto seen =
     rbind (requireTracker u i seen) (\<lambda>tracker.
     rbind (check (scd_item dto \<in> set (tr_items tracker)) (BadRequest (''Unknown item '' @ quoted (scd_item dto) @ '' for this tracker''))) (\<lambda>_.
     rbind (sheetDays tracker) (\<lambda>days.
     rbind (check (\<not> days < scd_day dto) (BadRequest (''Day '' @ int_text (scd_day dto) @ '' is outside this sheet''))) (\<lambda>_.
     if scd_checked dto then tickable now tracker (scd_day dto) else Inr ()))))"

definition write_cell :: "id \<Rightarrow> set_check_dto \<Rightarrow> trackers_db \<Rightarrow> trackers_db result" where
  "write_cell i dto there =
     (if \<not> scd_checked dto then Inr (there\<lparr>td_ticks := filter (\<lambda>k. k \<noteq> cell_tick i dto) (td_ticks there)\<rparr>)
      else if i \<notin> tr_id ` set (td_trackers there) then Inl (DbError ''P2003'')
      else Inr (if cell_tick i dto \<in> set (td_ticks there) then there else there\<lparr>td_ticks := td_ticks there @ [cell_tick i dto]\<rparr>))"

lemma rbind_assoc: "rbind (rbind r f) g = rbind r (\<lambda>x. rbind (f x) g)"
  by (cases r) simp_all

lemma setCheck_alt: "setCheck now u i dto seen there = rbind (cell_allowed now u i dto seen) (\<lambda>_. write_cell i dto there)"
  unfolding setCheck_def cell_allowed_def write_cell_def rbind_assoc
  by (cases "scd_checked dto") simp_all

lemma write_cell_again: "write_cell i dto there = Inr db \<Longrightarrow> write_cell i dto db = Inr db"
  unfolding write_cell_def by (auto split: if_splits)

text \<open>
  A tick that was set again, or taken away again, changes nothing; and on a prayer sheet only a
  day that has begun in Dhaka can be ticked.
\<close>

theorem tick_is_settled:
  assumes "setCheck now u i dto seen there = Inr db" and "set_check_dto_ok dto" and "distinct (td_ticks there)"
  shows "setCheck now u i dto seen db = Inr db \<and>
    (cell_tick i dto \<in> set (td_ticks db) \<longleftrightarrow> scd_checked dto) \<and> set (td_ticks db) - {cell_tick i dto} = set (td_ticks there) - {cell_tick i dto} \<and>
    (scd_checked dto \<longrightarrow> (\<exists>t\<in>set (td_trackers seen). tr_id t = i \<and>
      (of_kind Gregorian (tr_category t) \<longrightarrow> (\<exists>m y. tr_month t = Some m \<and> tr_year t = Some y \<and>
        (case dhakaToday now of (ty, tm, td) \<Rightarrow> y * 12 + m < ty * 12 + tm \<or> y * 12 + m = ty * 12 + tm \<and> scd_day dto \<le> td)))))"
proof -
  have again: "setCheck now u i dto seen db = Inr db"
    using assms(1) write_cell_again unfolding setCheck_alt rbind_eq_Inr by blast
  show ?thesis using assms(1)
  proof (rule setCheckE)
    fix t n
    assume t: "t \<in> set (td_trackers seen)" "tr_id t = i" and c: "scd_checked dto" "tickable now t (scd_day dto) = Inr ()"
      and db: "db = (if cell_tick i dto \<in> set (td_ticks there) then there else there\<lparr>td_ticks := td_ticks there @ [cell_tick i dto]\<rparr>)"
    have "\<exists>m y. tr_month t = Some m \<and> tr_year t = Some y \<and>
        (case dhakaToday now of (ty, tm, td) \<Rightarrow> y * 12 + m < ty * 12 + tm \<or> y * 12 + m = ty * 12 + tm \<and> scd_day dto \<le> td)"
      if "of_kind Gregorian (tr_category t)"
    proof -
      from c(2) that obtain m y where my: "calendarMonth t = Inr (m, y)" "scd_day dto \<le> lastTickableDay now m y"
        by (auto simp: tickable_def rbind_eq_Inr check_eq_Inr not_less)
      obtain ty tm td where today: "dhakaToday now = (ty, tm, td)" by (cases "dhakaToday now")
      from my(1) have "tr_month t = Some m" "tr_year t = Some y" by (auto simp: calendarMonth_def split: option.splits)
      moreover have "y * 12 + m < ty * 12 + tm \<or> y * 12 + m = ty * 12 + tm \<and> scd_day dto \<le> td"
        using my(2) assms(2) unfolding lastTickableDay_def todayDayFor_def elapsedDays_def today
        by (auto simp: set_check_dto_ok_def Let_def split: if_splits)
      ultimately show ?thesis by (simp add: today)
    qed
    with t c(1) again show ?thesis by (auto simp: db)
  next
    assume "\<not> scd_checked dto" "db = there\<lparr>td_ticks := filter (\<lambda>k. k \<noteq> cell_tick i dto) (td_ticks there)\<rparr>"
    with again show ?thesis by auto
  qed
qed

lemma edit_rounds_one:
  "edit_rounds n k attempt = Inr db \<Longrightarrow> \<exists>j. k \<le> j \<and> j < k + n \<and> attempt j = Inr (Some db)"
proof (induction n arbitrary: k)
  case (Suc n)
  from Suc.prems obtain r where r: "attempt k = Inr r" "(case r of Some db \<Rightarrow> Inr db | None \<Rightarrow> edit_rounds n (Suc k) attempt) = Inr db"
    by (auto simp: rbind_eq_Inr)
  show ?case
  proof (cases r)
    case None
    with r Suc.IH [of "Suc k"] obtain j where "Suc k \<le> j" "j < Suc k + n" "attempt j = Inr (Some db)" by auto
    then show ?thesis by (intro exI [of _ j]) simp
  qed (use r in \<open>auto intro!: exI [of _ k]\<close>)
qed simp

text \<open>
  An edit of the columns that read, let other requests write, and then wrote is one that read
  and wrote at once: among its three rounds there is one whose result is exactly that of the edit on
  the columns as they stand there, with the ticks of the affected column gone and all else kept.
\<close>

theorem column_edit_is_atomic:
  assumes "editItems now u i plan world = Inr (db, v)"
    and "\<forall>k<3. case world k of (seen, there) \<Rightarrow> keyed tr_id (td_trackers there) \<and> agree seen there"
  shows "\<exists>k<3. case world k of (seen, there) \<Rightarrow>
    \<exists>t\<in>set (td_trackers there). \<exists>nexts clear. tr_id t = i \<and> tr_userId t = u \<and> plan (tr_items t) = Inr (nexts, clear) \<and>
      td_trackers db = map_row tr_id i (\<lambda>t. t\<lparr>tr_items := nexts\<rparr>) (td_trackers there) \<and>
      td_ticks db = filter (\<lambda>k. \<not> (tk_trackerId k = i \<and> tk_item k = clear)) (td_ticks there) \<and>
      edit_attempt u i plan there there = Inr (Some db)"
proof -
  from assms(1) have "edit_rounds 3 0 (\<lambda>k. case world k of (seen, there) \<Rightarrow> edit_attempt u i plan seen there) = Inr db"
    by (auto simp: editItems_def rbind_eq_Inr)
  from edit_rounds_one [OF this] obtain k where k: "k < 3" "(case world k of (seen, there) \<Rightarrow> edit_attempt u i plan seen there) = Inr (Some db)" by auto
  obtain seen there where w: "world k = (seen, there)" by fastforce
  from assms(2) k(1) w have ok: "keyed tr_id (td_trackers there)" "agree seen there" by auto
  from k(2) w have "edit_attempt u i plan seen there = Inr (Some db)" by simp
  then obtain s p where e: "requireEditableTracker u i seen = Inr s" and p: "plan (tr_items s) = Inr p"
    and ex: "\<exists>t\<in>set (td_trackers there). swaps u i (tr_items s) t" and db: "db = swapped u i (tr_items s) p there"
    by (rule edit_attemptE)
  from ex obtain t where t: "t \<in> set (td_trackers there)" "tr_id t = i" "tr_userId t = u" "tr_items t = tr_items s" by (auto simp: swaps_def)
  note req = requireEditableTrackerE [OF e]
  from req(2) t(2) have "sheet_of s = sheet_of t" by (intro agreeD [OF ok(2) req(1) t(1)]) simp
  from sheet_ofD(3) [OF this] have cat: "tr_category t = tr_category s" by simp
  have only: "swaps u i (tr_items s) r \<longleftrightarrow> tr_id r = i" if "r \<in> set (td_trackers there)" for r
  proof
    assume "tr_id r = i"
    with t(2) find_row_mem [OF ok(1) that] find_row_mem [OF ok(1) t(1)] have "r = t" by simp
    with t(2-4) show "swaps u i (tr_items s) r" by (simp add: swaps_def)
  qed (simp add: swaps_def)
  have rows: "td_trackers db = map_row tr_id i (\<lambda>t. t\<lparr>tr_items := fst p\<rparr>) (td_trackers there)"
    unfolding db swapped_def map_row_def update_many_def by (simp add: only)
  have "find_row tr_id i (td_trackers there) = Some t" using find_row_mem [OF ok(1) t(1)] t(2) by simp
  with t(3) req(4) cat have "requireEditableTracker u i there = Inr t"
    by (auto simp: requireEditableTracker_def requireTracker_def require_row_def)
  with p t ex have "edit_attempt u i plan there there = Inr (Some db)" by (simp add: edit_attempt_alt db)
  moreover have "td_ticks db = filter (\<lambda>k. \<not> (tk_trackerId k = i \<and> tk_item k = snd p)) (td_ticks there)" by (simp add: db swapped_def)
  moreover have "plan (tr_items t) = Inr (fst p, snd p)" using p t(4) by simp
  ultimately have "\<exists>nexts clear. tr_id t = i \<and> tr_userId t = u \<and> plan (tr_items t) = Inr (nexts, clear) \<and>
      td_trackers db = map_row tr_id i (\<lambda>t. t\<lparr>tr_items := nexts\<rparr>) (td_trackers there) \<and>
      td_ticks db = filter (\<lambda>k. \<not> (tk_trackerId k = i \<and> tk_item k = clear)) (td_ticks there) \<and>
      edit_attempt u i plan there there = Inr (Some db)"
    using t(2,3) rows by blast
  with t(1) show ?thesis unfolding Bex_def by (intro exI [of _ k] conjI k(1)) (simp only: w prod.case, blast)
qed

section \<open>Worked examples\<close>

definition sample_sheet :: "string list \<Rightarrow> tracker_row" where
  "sample_sheet items = \<lparr>tr_id = ''r'', tr_userId = ''u'', tr_category = ''Ramadan'', tr_month = Some 9, tr_year = Some 2026, tr_name = None,
     tr_totalDays = Some 30, tr_items = items, tr_createdAt = 0\<rparr>"

definition sample_sheets :: "string list \<Rightarrow> tick list \<Rightarrow> trackers_db" where
  "sample_sheets items ticks = \<lparr>td_trackers = [sample_sheet items], td_ticks = ticks\<rparr>"

definition sample_cell :: "string \<Rightarrow> set_check_dto" where
  "sample_cell item = \<lparr>scd_day = 3, scd_item = item, scd_checked = True\<rparr>"

abbreviation one_fast :: trackers_db where
  "one_fast \<equiv> sample_sheets [''Roza''] [cell_tick ''r'' (sample_cell ''Roza'')]"

lemmas sample_sheet_simps = sample_sheets_def sample_sheet_def sample_cell_def cell_tick_def requireTracker_def require_row_def sheetDays_def
  tickable_def of_kind_def configFor_def TRACKER_CONFIG_def

lemma sample_sheets_ok: "trackers_ok (\<lambda>s. s) (sample_sheets [''Roza''] [])"
  by (simp add: trackers_ok_def one_sheet_each_def List.map_filter_simps sample_sheet_simps row_ok_def RAMADAN_MONTH_def columns_ok_def MAX_ITEMS_def
      challenges_def split: option.split)

lemma sample_tick: "setCheck 0 ''u'' ''r'' (sample_cell ''Roza'') (sample_sheets [''Roza''] []) (sample_sheets [''Roza''] []) = Inr one_fast"
  by (simp add: setCheck_def sample_sheet_simps)

lemma sample_cell_ok: "item \<noteq> [] \<Longrightarrow> set_check_dto_ok (sample_cell item)"
  by (simp add: set_check_dto_ok_def sample_cell_def)

theorem sheets_run_sound_witness:
  "\<exists>H. (sheets_step (\<lambda>s. s))\<^sup>*\<^sup>* ([sample_sheets [''Roza''] []], sample_sheets [''Roza''] []) (H, one_fast) \<and>
    length (filter (\<lambda>t. tr_userId t = ''u'' \<and> tr_category t = ''Others'') (td_trackers one_fast)) \<le> 100"
proof -
  let ?s = "sample_sheets [''Roza''] []"
  have "sheet_write (\<lambda>s. s) [?s] ?s one_fast"
    by (rule cell_set [OF sample_tick]) (simp_all add: sample_cell_ok)
  then have st: "sheets_step (\<lambda>s. s) ([?s], ?s) ([one_fast, ?s], one_fast)" by (rule written)
  from sheets_run_sound [OF r_into_rtranclp [of "sheets_step (\<lambda>s. s)", OF st] sample_sheets_ok, where u = "''u''"] st show ?thesis by blast
qed

theorem crossing_creation_conflicts_witness:
  "insertTracker 0 (sample_sheet [''Roza'']\<lparr>tr_id := ''x''\<rparr>) 9 2026 \<lparr>td_trackers = [], td_ticks = []\<rparr> (sample_sheets [''Roza''] []) =
    Inl (Conflict (alreadyExistsMessage ''Ramadan'' 9 2026))"
proof -
  let ?t = "sample_sheet [''Roza'']\<lparr>tr_id := ''x''\<rparr>"
  have "sheet_taken ?t (td_trackers (sample_sheets [''Roza''] []))"
    by (simp add: sheet_taken_def sheet_key_def sample_sheets_def sample_sheet_def)
  from crossing_creation_conflicts [OF disjI2 [OF this], of 0 9 2026 "\<lparr>td_trackers = [], td_ticks = []\<rparr>"] show ?thesis
    by (simp add: sample_sheet_def)
qed

theorem tick_is_settled_witness:
  "setCheck 0 ''u'' ''r'' (sample_cell ''Roza'') (sample_sheets [''Roza''] []) one_fast = Inr one_fast"
  using tick_is_settled [OF sample_tick sample_cell_ok] by (simp add: sample_sheets_def)

lemma sample_add:
  "\<exists>v. addItem plain_unicode (\<lambda>s. s) 0 ''u'' ''r'' ''Quran'' (\<lambda>k. (sample_sheets [''Roza''] [], one_fast)) =
     Inr (sample_sheets [''Roza'', ''Quran''] [cell_tick ''r'' (sample_cell ''Roza'')], v)"
  by (simp add: addItem_def editItems_def eval_nat_numeral edit_attempt_def requireEditableTracker_def add_plan_def MAX_ITEMS_def update_many_def
      cleanRequiredText_def cleanText_def trim_text_def plain_unicode_def MAX_ITEM_NAME_LENGTH_def sample_sheet_simps)

theorem column_edit_is_atomic_witness:
  "\<exists>v. editItems 0 ''u'' ''r'' (add_plan (\<lambda>s. s) ''Quran'') (\<lambda>k. (sample_sheets [''Roza''] [], one_fast)) =
      Inr (sample_sheets [''Roza'', ''Quran''] [cell_tick ''r'' (sample_cell ''Roza'')], v) \<and>
    edit_attempt ''u'' ''r'' (add_plan (\<lambda>s. s) ''Quran'') one_fast one_fast =
      Inr (Some (sample_sheets [''Roza'', ''Quran''] [cell_tick ''r'' (sample_cell ''Roza'')]))"
proof -
  obtain v where e: "editItems 0 ''u'' ''r'' (add_plan (\<lambda>s. s) ''Quran'') (\<lambda>k. (sample_sheets [''Roza''] [], one_fast)) =
      Inr (sample_sheets [''Roza'', ''Quran''] [cell_tick ''r'' (sample_cell ''Roza'')], v)"
    using sample_add by (auto simp: addItem_def cleanRequiredText_def cleanText_def trim_text_def plain_unicode_def MAX_ITEM_NAME_LENGTH_def)
  have "keyed tr_id (td_trackers one_fast)" "agree (sample_sheets [''Roza''] []) one_fast"
    by (simp_all add: sample_sheets_def agree_def)
  with column_edit_is_atomic [OF e] e show ?thesis by auto
qed

text \<open>
  The ticks under columns the sheet did not have when it was read are cleared before a sheet is
  deleted, so that a tick under a column just removed does not block it; but a column that was added,
  and ticked, since the read is not among them either. The sheet goes with its tick, though the same
  request would be refused had it read a moment later.
\<close>

theorem stale_removal_loses_ticks:
  "\<exists>db v. addItem plain_unicode (\<lambda>s. s) 0 ''u'' ''r'' ''Quran'' (\<lambda>k. (sample_sheets [''Roza''] [], sample_sheets [''Roza''] [])) = Inr (db, v) \<and>
    (\<exists>db'. setCheck 0 ''u'' ''r'' (sample_cell ''Quran'') db db = Inr db' \<and> length (td_ticks db') = 1 \<and>
      remove_tracker ''u'' ''r'' (sample_sheets [''Roza''] []) db' (\<lambda>d. d) = (\<lparr>td_trackers = [], td_ticks = []\<rparr>, Inr ''r'') \<and>
      remove_tracker ''u'' ''r'' db' db' (\<lambda>d. d) =
        (db', Inl (BadRequest ''This tracker has ticks -- untick them all before deleting it'')))"
  by (simp add: addItem_def editItems_def eval_nat_numeral edit_attempt_def requireEditableTracker_def add_plan_def MAX_ITEMS_def update_many_def
      cleanRequiredText_def cleanText_def trim_text_def plain_unicode_def MAX_ITEM_NAME_LENGTH_def sample_sheet_simps setCheck_def
      remove_tracker_def clear_orphans_def delete_unticked_def Let_def)

end
