(* ===== verification/Tokens.thy ===== *)
theory Tokens
  imports Schema
begin

text \<open>
  Tokens and passwords: the access and refresh tokens of a session
  (src/auth/session-tokens.service.ts), the unlock of a workspace with a PIN
  (src/business-access/workspace-unlock.service.ts) and the hash of a password (src/auth/password.ts).
  Signing, hashing and digests are third-party code: the record \<open>crypto\<close> holds them, and the
  theorems that need one of their documented laws name it (\<open>jwt_sound\<close>, \<open>bcrypt_sound\<close>).
\<close>

section \<open>The cryptography in use\<close>

datatype user_role = SUPER_ADMIN | SUPPORT_ADMIN | FINANCE_ADMIN | CONTENT_ADMIN | USER

datatype token_audience = Admin_Side | User_Side

datatype token_kind = Access_Token | Refresh_Token

text \<open>A secret is named by the side and kind whose environment variable holds it; lifetimes are in seconds.
  The audience is the claim \<open>aud\<close>.\<close>

datatype jwt_secret = Secret token_audience token_kind

datatype jwt_audience = For_Side token_audience | For_Unlock

text \<open>The claims of a payload; what is missing, or not a string, is None.\<close>

record payload =
  py_sub :: "string option"
  py_sid :: "string option"
  py_role :: "user_role option"
  py_bid :: "string option"
  py_pv :: "string option"

record 'tok crypto =
  cy_sign :: "jwt_secret \<Rightarrow> jwt_audience \<Rightarrow> int \<Rightarrow> instant \<Rightarrow> payload \<Rightarrow> 'tok"
  cy_verify :: "jwt_secret \<Rightarrow> jwt_audience \<Rightarrow> instant \<Rightarrow> 'tok \<Rightarrow> payload option"
  cy_ttl :: "token_audience \<Rightarrow> token_kind \<Rightarrow> int"
  cy_hash :: "string \<Rightarrow> string \<Rightarrow> string"
  cy_compare :: "string \<Rightarrow> string \<Rightarrow> bool"
  cy_digest :: "string \<Rightarrow> string"

text \<open>
  A token carries whole seconds. It verifies, with the secret and audience it was signed with, until
  its lifetime is over; with another audience, or later, it does not. A password compares equal to its own hash, whatever the salt.
\<close>

definition jwt_sound :: "'tok crypto \<Rightarrow> bool" where
  "jwt_sound C \<longleftrightarrow> (\<forall>s a ttl t p t'. t' div 1000 < t div 1000 + ttl \<longrightarrow> cy_verify C s a t' (cy_sign C s a ttl t p) = Some p) \<and>
     (\<forall>s a ttl t p s' a' t'. a' \<noteq> a \<or> t div 1000 + ttl \<le> t' div 1000 \<longrightarrow> cy_verify C s' a' t' (cy_sign C s a ttl t p) = None)"

definition bcrypt_sound :: "'tok crypto \<Rightarrow> bool" where
  "bcrypt_sound C \<longleftrightarrow> (\<forall>salt txt. cy_compare C txt (cy_hash C salt txt))"

section \<open>Session tokens\<close>

record session_claims =
  sc_sub :: id
  sc_sid :: id

record 'tok issued_tokens =
  it_accessToken :: 'tok
  it_refreshToken :: 'tok

definition sign_token :: "'tok crypto \<Rightarrow> instant \<Rightarrow> payload \<Rightarrow> token_audience \<Rightarrow> token_kind \<Rightarrow> 'tok" where
  "sign_token C now p audience kind = cy_sign C (Secret audience kind) (For_Side audience) (cy_ttl C audience kind) now p"

definition signAccess :: "'tok crypto \<Rightarrow> instant \<Rightarrow> token_audience \<Rightarrow> id \<Rightarrow> id \<Rightarrow> user_role \<Rightarrow> 'tok" where
  "signAccess C now audience sub sid r =
     sign_token C now \<lparr>py_sub = Some sub, py_sid = Some sid, py_role = Some r, py_bid = None, py_pv = None\<rparr> audience Access_Token"

definition issue_tokens :: "'tok crypto \<Rightarrow> instant \<Rightarrow> token_audience \<Rightarrow> id \<Rightarrow> id \<Rightarrow> user_role \<Rightarrow> 'tok issued_tokens" where
  "issue_tokens C now audience sub sid r =
     \<lparr>it_accessToken = signAccess C now audience sub sid r,
      it_refreshToken = sign_token C now \<lparr>py_sub = Some sub, py_sid = Some sid, py_role = None, py_bid = None, py_pv = None\<rparr> audience Refresh_Token\<rparr>"

definition verify_token :: "'tok crypto \<Rightarrow> instant \<Rightarrow> 'tok \<Rightarrow> token_audience \<Rightarrow> token_kind \<Rightarrow> string \<Rightarrow> session_claims result" where
  "verify_token C now token audience kind message =
     (case cy_verify C (Secret audience kind) (For_Side audience) now token of
        None \<Rightarrow> Inl (Unauthorized message)
      | Some p \<Rightarrow> (case (py_sub p, py_sid p) of
            (Some sub, Some sid) \<Rightarrow> Inr \<lparr>sc_sub = sub, sc_sid = sid\<rparr>
          | _ \<Rightarrow> Inl (Unauthorized message)))"

definition verifyAccess :: "'tok crypto \<Rightarrow> instant \<Rightarrow> token_audience \<Rightarrow> 'tok \<Rightarrow> session_claims result" where
  "verifyAccess C now audience token = verify_token C now token audience Access_Token ''Invalid or expired access token''"

definition verifyRefresh :: "'tok crypto \<Rightarrow> instant \<Rightarrow> token_audience \<Rightarrow> 'tok \<Rightarrow> session_claims result" where
  "verifyRefresh C now audience token = verify_token C now token audience Refresh_Token ''Invalid or expired refresh token''"

section \<open>Workspace unlocks\<close>

definition WORKSPACE_UNLOCK_TTL_SECONDS :: int where
  "WORKSPACE_UNLOCK_TTL_SECONDS = 12 * 60 * 60"

record 'tok workspace_unlock =
  wu_unlockToken :: 'tok
  wu_expiresIn :: int

definition pinVersion :: "'tok crypto \<Rightarrow> string \<Rightarrow> string" where
  "pinVersion C pinHash = take 16 (cy_digest C pinHash)"

definition unlock_claims :: "'tok crypto \<Rightarrow> id \<Rightarrow> id \<Rightarrow> id \<Rightarrow> string \<Rightarrow> payload" where
  "unlock_claims C userId sessionId businessId pinHash =
     \<lparr>py_sub = Some userId, py_sid = Some sessionId, py_role = None, py_bid = Some businessId, py_pv = Some (pinVersion C pinHash)\<rparr>"

definition issue_unlock :: "'tok crypto \<Rightarrow> instant \<Rightarrow> id \<Rightarrow> id \<Rightarrow> id \<Rightarrow> string \<Rightarrow> 'tok workspace_unlock" where
  "issue_unlock C now userId sessionId businessId pinHash =
     \<lparr>wu_unlockToken = cy_sign C (Secret User_Side Access_Token) For_Unlock WORKSPACE_UNLOCK_TTL_SECONDS now
        (unlock_claims C userId sessionId businessId pinHash),
      wu_expiresIn = WORKSPACE_UNLOCK_TTL_SECONDS\<rparr>"

definition unlock_opens :: "'tok crypto \<Rightarrow> instant \<Rightarrow> 'tok option \<Rightarrow> id \<Rightarrow> id \<Rightarrow> id \<Rightarrow> string \<Rightarrow> bool" where
  "unlock_opens C now token userId sessionId businessId pinHash =
     (case token of None \<Rightarrow> False
      | Some t \<Rightarrow> (case cy_verify C (Secret User_Side Access_Token) For_Unlock now t of None \<Rightarrow> False
          | Some p \<Rightarrow> py_sub p = Some userId \<and> py_sid p = Some sessionId \<and> py_bid p = Some businessId \<and>
              py_pv p = Some (pinVersion C pinHash)))"

section \<open>What the tokens promise\<close>

lemma issued_unlock_opens:
  assumes "jwt_sound C"
  shows "unlock_opens C later (Some (wu_unlockToken (issue_unlock C now u s b h))) u' s' b' h' \<longleftrightarrow>
    later div 1000 < now div 1000 + WORKSPACE_UNLOCK_TTL_SECONDS \<and> u' = u \<and> s' = s \<and> b' = b \<and> pinVersion C h' = pinVersion C h"
proof (cases "later div 1000 < now div 1000 + WORKSPACE_UNLOCK_TTL_SECONDS")
  case True
  with assms show ?thesis by (auto simp: jwt_sound_def unlock_opens_def issue_unlock_def unlock_claims_def)
next
  case False
  with assms show ?thesis by (simp add: jwt_sound_def unlock_opens_def issue_unlock_def)
qed

lemma issued_access_verifies:
  assumes "jwt_sound C"
  shows "verifyAccess C later aud (it_accessToken (issue_tokens C now aud' u s r)) = Inr c \<longleftrightarrow>
    aud = aud' \<and> later div 1000 < now div 1000 + cy_ttl C aud' Access_Token \<and> c = \<lparr>sc_sub = u, sc_sid = s\<rparr>"
proof (cases "aud = aud' \<and> later div 1000 < now div 1000 + cy_ttl C aud' Access_Token")
  case True
  with assms show ?thesis by (auto simp: jwt_sound_def verifyAccess_def verify_token_def issue_tokens_def signAccess_def sign_token_def)
next
  case False
  then have "For_Side aud \<noteq> For_Side aud' \<or> now div 1000 + cy_ttl C aud' Access_Token \<le> later div 1000" by auto
  with assms have "cy_verify C (Secret aud Access_Token) (For_Side aud) later (it_accessToken (issue_tokens C now aud' u s r)) = None"
    unfolding jwt_sound_def issue_tokens_def signAccess_def sign_token_def by simp
  with False show ?thesis by (auto simp: verifyAccess_def verify_token_def)
qed

text \<open>An unlock is never an access token, nor the other way round.\<close>

lemma kinds_apart:
  assumes "jwt_sound C"
  shows "\<exists>e. verifyAccess C later aud (wu_unlockToken (issue_unlock C now u s b h)) = Inl e"
    and "\<not> unlock_opens C later (Some (it_accessToken (issue_tokens C now aud u s r))) u' s' b h"
  using assms
  by (simp_all add: jwt_sound_def verifyAccess_def verify_token_def issue_unlock_def unlock_opens_def issue_tokens_def signAccess_def sign_token_def)

text \<open>An instance the examples use: a token is what was signed, a hash is the text itself.\<close>

definition plain_crypto :: "(jwt_secret \<times> jwt_audience \<times> instant \<times> payload) crypto" where
  "plain_crypto = \<lparr>cy_sign = (\<lambda>s a ttl t p. (s, a, t div 1000 + ttl, p)),
     cy_verify = (\<lambda>s a t (s', a', e, p). if s = s' \<and> a = a' \<and> t div 1000 < e then Some p else None),
     cy_ttl = (\<lambda>a k. 900), cy_hash = (\<lambda>salt txt. txt), cy_compare = (\<lambda>txt h. txt = h),
     cy_digest = (\<lambda>s. s)\<rparr>"

lemma plain_crypto_sound: "jwt_sound plain_crypto" "bcrypt_sound plain_crypto"
  by (auto simp: jwt_sound_def bcrypt_sound_def plain_crypto_def)

end
