(* ===== verification/Workspaces.thy ===== *)
theory Workspaces
  imports Tokens Referrals Billing Shelf
begin

text \<open>
  Workspaces and who may open them: BusinessesService (src/businesses), the guards every route of a
  workspace runs through (src/business-access/guards) and the default workspace a user gets on first
  use (src/user-auth/user-provisioning.service.ts). A fee is the exact quotient; the code prints it
  with two decimals. The welcome mail is left out.
\<close>

section \<open>State and requests\<close>

datatype member_role = OWNER | ACCOUNTANT | STAFF

datatype member_status = ACTIVE | INVITED | REMOVED

record workspace_row =
  wk_id :: id
  wk_ownerId :: id
  wk_name :: string
  wk_type :: workspace_type
  wk_currency :: string
  wk_planId :: "id option"
  wk_isDefault :: bool
  wk_phone :: "string option"
  wk_email :: "string option"
  wk_pinHash :: "string option"
  wk_trialEndsAt :: "instant option"
  wk_deletedAt :: "instant option"
  wk_createdAt :: instant

text \<open>A membership has an id of its own that nothing reads.\<close>

record membership_row =
  mr_businessId :: id
  mr_userId :: id
  mr_role :: member_role
  mr_joinedAt :: instant
  mr_status :: member_status

record wdb =
  wd_rd :: rdb
  wd_businesses :: "workspace_row list"
  wd_members :: "membership_row list"
  wd_plans :: "plan_row list"
  wd_templates :: "account_template list"

record create_business_dto =
  cbd_name :: string
  cbd_type :: workspace_type
  cbd_currency :: "string option"
  cbd_phone :: "string option"
  cbd_email :: "string option"
  cbd_pin :: "string option"

text \<open>Phone, email and PIN may be sent as null.\<close>

record update_business_dto =
  ubd_name :: "string option"
  ubd_currency :: "string option"
  ubd_phone :: "string option option"
  ubd_email :: "string option option"
  ubd_pin :: "string option option"

definition pin_ok :: "string \<Rightarrow> bool" where
  "pin_ok pin \<longleftrightarrow> 4 \<le> length pin \<and> length pin \<le> 6 \<and> (\<forall>c\<in>set pin. char_digit c \<noteq> None)"

definition create_business_dto_ok :: "create_business_dto \<Rightarrow> bool" where
  "create_business_dto_ok dto \<longleftrightarrow> cbd_name dto \<noteq> [] \<and> cbd_currency dto \<noteq> Some [] \<and> (case cbd_pin dto of None \<Rightarrow> True | Some p \<Rightarrow> pin_ok p)"

definition update_business_dto_ok :: "update_business_dto \<Rightarrow> bool" where
  "update_business_dto_ok dto \<longleftrightarrow> ubd_name dto \<noteq> Some [] \<and> ubd_currency dto \<noteq> Some [] \<and>
     (case orelse (ubd_pin dto) None of None \<Rightarrow> True | Some p \<Rightarrow> pin_ok p)"

record request_user =
  ru_id :: id
  ru_email :: string
  ru_sessionId :: id
  ru_impersonatedBy :: "id option"

record business_member =
  bm_businessId :: id
  bm_userId :: id
  bm_role :: member_role

section \<open>The guards\<close>

definition member_key :: "membership_row \<Rightarrow> id \<times> id" where
  "member_key m = (mr_businessId m, mr_userId m)"

text \<open>The route names the workspace (\<open>businessId\<close>) and says whether it works while locked (\<open>allowLocked\<close>).\<close>

definition membership_guard ::
    "'tok crypto \<Rightarrow> instant \<Rightarrow> bool \<Rightarrow> string \<Rightarrow> request_user option \<Rightarrow> 'tok option \<Rightarrow> wdb \<Rightarrow> business_member result" where
  "membership_guard C now allowLocked businessId user header wd =
     (case user of
        None \<Rightarrow> Inl (Forbidden ''You do not have access to this workspace'')
      | Some u \<Rightarrow>
          rbind (check (businessId \<noteq> [] \<and> ru_id u \<noteq> []) (Forbidden ''You do not have access to this workspace'')) (\<lambda>_.
          case (find_row member_key (businessId, ru_id u) (wd_members wd), find_row wk_id businessId (wd_businesses wd)) of
            (Some m, Some b) \<Rightarrow>
              rbind (check (mr_status m = ACTIVE \<and> wk_deletedAt b = None) (Forbidden ''You do not have access to this workspace'')) (\<lambda>_.
              rbind (case wk_pinHash b of None \<Rightarrow> Inr ()
                 | Some pinHash \<Rightarrow> check (pinHash = [] \<or> truthy (ru_impersonatedBy u) \<or> allowLocked \<or>
                       unlock_opens C now header (ru_id u) (ru_sessionId u) businessId pinHash) (Locked businessId)) (\<lambda>_.
              Inr \<lparr>bm_businessId = mr_businessId m, bm_userId = mr_userId m, bm_role = mr_role m\<rparr>))
          | _ \<Rightarrow> Inl (Forbidden ''You do not have access to this workspace'')))"

definition role_guard :: "member_role list option \<Rightarrow> business_member option \<Rightarrow> unit result" where
  "role_guard roles member =
     (case roles of None \<Rightarrow> Inr ()
      | Some [] \<Rightarrow> Inr ()
      | Some rs \<Rightarrow> check (case member of None \<Rightarrow> False | Some m \<Rightarrow> bm_role m \<in> set rs) (Forbidden ''You do not have permission to do this''))"

section \<open>Plans and fees\<close>

definition MAX_WORKSPACES_PER_USER :: nat where
  "MAX_WORKSPACES_PER_USER = 50"

definition workspace_cap_message :: string where
  "workspace_cap_message = ''You can have at most 50 workspaces besides your personal one. Delete one you no longer use first.''"

definition default_business :: "id \<Rightarrow> wdb \<Rightarrow> workspace_row option" where
  "default_business userId wd = find (\<lambda>b. wk_ownerId b = userId \<and> wk_isDefault b) (wd_businesses wd)"

definition default_plan :: "id \<Rightarrow> wdb \<Rightarrow> plan_row option" where
  "default_plan userId wd = Option.bind (default_business userId wd) (\<lambda>b. Option.bind (wk_planId b) (\<lambda>i. find_row pl_id i (wd_plans wd)))"

record plan_limit_info =
  li_maxBusinessWorkspaces :: int
  li_currentCount :: nat
  li_planId :: "id option"

definition getPlanLimitInfo :: "id \<Rightarrow> wdb \<Rightarrow> plan_limit_info" where
  "getPlanLimitInfo userId wd =
     \<lparr>li_maxBusinessWorkspaces = (case default_plan userId wd of Some p \<Rightarrow> fl_maxBusinessWorkspaces (pl_featureLimits p) | None \<Rightarrow> 0),
      li_currentCount = length (filter (\<lambda>b. wk_ownerId b = userId \<and> wk_type b = workspace_type.BUSINESS \<and> wk_deletedAt b = None) (wd_businesses wd)),
      li_planId = Option.bind (default_business userId wd) wk_planId\<rparr>"

definition getLimits :: "id \<Rightarrow> wdb \<Rightarrow> int \<times> nat \<times> bool" where
  "getLimits userId wd = (let i = getPlanLimitInfo userId wd in (li_maxBusinessWorkspaces i, li_currentCount i, False))"

definition getAdditionalWorkspaceMonthlyFee :: "id \<Rightarrow> wdb \<Rightarrow> rat option" where
  "getAdditionalWorkspaceMonthlyFee userId wd =
     map_option (\<lambda>p. (if pl_billingCycle p = YEARLY then dec (pl_price p) / 12 else dec (pl_price p)) * (1 / 2)) (default_plan userId wd)"

section \<open>What a client sees\<close>

record 'tok workspace_view =
  wv_workspace :: workspace_row
  wv_hasPinLock :: bool
  wv_role :: "member_role option"
  wv_monthlyFee :: "rat option"
  wv_unlock :: "'tok workspace_unlock option"

definition workspace_fee :: "id \<Rightarrow> workspace_row \<Rightarrow> wdb \<Rightarrow> rat option" where
  "workspace_fee userId b wd =
     (if wk_type b = workspace_type.BUSINESS \<and> \<not> wk_isDefault b then getAdditionalWorkspaceMonthlyFee userId wd else None)"

definition workspace_view_of :: "member_role option \<Rightarrow> rat option \<Rightarrow> 'tok workspace_unlock option \<Rightarrow> workspace_row \<Rightarrow> 'tok workspace_view" where
  "workspace_view_of r fee u b = \<lparr>wv_workspace = b, wv_hasPinLock = (wk_pinHash b \<noteq> None), wv_role = r, wv_monthlyFee = fee, wv_unlock = u\<rparr>"

definition list_workspaces :: "id \<Rightarrow> wdb \<Rightarrow> 'tok workspace_view list" where
  "list_workspaces userId wd =
     List.map_filter (\<lambda>m. case find_row wk_id (mr_businessId m) (wd_businesses wd) of
         None \<Rightarrow> None
       | Some b \<Rightarrow> if wk_deletedAt b = None then Some (workspace_view_of (Some (mr_role m)) (workspace_fee userId b wd) None b) else None)
       (find_many (\<lambda>m. mr_userId m = userId \<and> mr_status m = ACTIVE) mr_joinedAt (wd_members wd))"

section \<open>Changing workspaces\<close>

definition requireBusiness :: "id \<Rightarrow> wdb \<Rightarrow> workspace_row result" where
  "requireBusiness businessId wd =
     (case find_row wk_id businessId (wd_businesses wd) of
        None \<Rightarrow> Inl (NotFound ''Workspace not found'')
      | Some b \<Rightarrow> if wk_deletedAt b \<noteq> None then Inl (NotFound ''Workspace not found'') else Inr b)"

definition requireOwner :: "business_member \<Rightarrow> unit result" where
  "requireOwner member = check (bm_role member = OWNER) (Forbidden ''Only the workspace owner can do this'')"

definition getOne :: "id \<Rightarrow> wdb \<Rightarrow> 'tok workspace_view result" where
  "getOne businessId wd = rbind (requireBusiness businessId wd) (\<lambda>b. Inr (workspace_view_of None (workspace_fee (wk_ownerId b) b wd) None b))"

text \<open>A workspace and its owner's membership, in one transaction with the accounts it starts with.\<close>

definition insert_workspace :: "workspace_row \<Rightarrow> wdb \<Rightarrow> wdb result" where
  "insert_workspace b wd =
     rbind (insert_row wk_id b (wd_businesses wd)) (\<lambda>bs.
     rbind (insert_row member_key \<lparr>mr_businessId = wk_id b, mr_userId = wk_ownerId b, mr_role = OWNER, mr_joinedAt = wk_createdAt b, mr_status = ACTIVE\<rparr>
       (wd_members wd)) (\<lambda>ms.
     Inr (wd\<lparr>wd_businesses := bs, wd_members := ms\<rparr>)))"

definition seed_workspace :: "id_source \<Rightarrow> instant \<Rightarrow> id \<Rightarrow> workspace_type \<Rightarrow> wdb \<Rightarrow> wdb result" where
  "seed_workspace gen now b ty wd =
     rbind (seedDefaultAccounts gen now b ty (wd_templates wd) (rd_books (wd_rd wd))) (\<lambda>books. Inr (wd\<lparr>wd_rd := (wd_rd wd)\<lparr>rd_books := books\<rparr>\<rparr>))"

definition opened_workspace :: "string option \<Rightarrow> id_source \<Rightarrow> instant \<Rightarrow> id \<Rightarrow> create_business_dto \<Rightarrow> wdb \<Rightarrow> workspace_row" where
  "opened_workspace pinHash gen now userId dto wd =
     (let isGroup = (cbd_type dto = GROUP) in
      \<lparr>wk_id = gen 0, wk_ownerId = userId, wk_name = cbd_name dto, wk_type = cbd_type dto, wk_currency = orelse (cbd_currency dto) ''BDT'',
       wk_planId = (if isGroup then None else li_planId (getPlanLimitInfo userId wd)), wk_isDefault = False,
       wk_phone = cbd_phone dto, wk_email = cbd_email dto, wk_pinHash = pinHash,
       wk_trialEndsAt = (if isGroup then None else Some (now + 14 * day_ms)), wk_deletedAt = None, wk_createdAt = now\<rparr>)"

definition extra_of :: "id \<Rightarrow> workspace_row \<Rightarrow> bool" where
  "extra_of u b \<longleftrightarrow> wk_ownerId b = u \<and> \<not> wk_isDefault b \<and> wk_deletedAt b = None"

definition create_workspace ::
    "'tok crypto \<Rightarrow> string \<Rightarrow> id_source \<Rightarrow> instant \<Rightarrow> request_user \<Rightarrow> create_business_dto \<Rightarrow> wdb \<Rightarrow> (wdb \<times> 'tok workspace_view) result" where
  "create_workspace C salt gen now user dto wd =
     rbind (check (cbd_type dto = workspace_type.BUSINESS \<or> cbd_type dto = GROUP) (BadRequest
       ''Only BUSINESS or GROUP-type workspaces can be created here -- every account already has one PERSONAL workspace created automatically at signup.'')) (\<lambda>_.
     let isGroup = (cbd_type dto = GROUP);
         pinHash = (if truthy (cbd_pin dto) then map_option (cy_hash C salt) (cbd_pin dto) else None);
         b = opened_workspace pinHash gen now (ru_id user) dto wd in
     rbind (createWithinCap MAX_WORKSPACES_PER_USER
         workspace_cap_message
         (\<lambda>d. length (filter (extra_of (ru_id user)) (wd_businesses d)))
         (\<lambda>d. rbind (insert_workspace b d) (\<lambda>d'.
            if isGroup then Inr d' else seed_workspace (\<lambda>n. gen (Suc n)) now (gen 0) workspace_type.BUSINESS d')) wd) (\<lambda>wd'.
     Inr (wd', workspace_view_of (Some OWNER) (if isGroup then None else getAdditionalWorkspaceMonthlyFee (ru_id user) wd')
       (map_option (issue_unlock C now (ru_id user) (ru_sessionId user) (gen 0)) pinHash) b)))"

definition edited_workspace :: "update_business_dto \<Rightarrow> string option option \<Rightarrow> workspace_row \<Rightarrow> workspace_row" where
  "edited_workspace dto pinHash b =
     b\<lparr>wk_name := orelse (ubd_name dto) (wk_name b), wk_currency := orelse (ubd_currency dto) (wk_currency b),
       wk_phone := orelse (ubd_phone dto) (wk_phone b), wk_email := orelse (ubd_email dto) (wk_email b),
       wk_pinHash := orelse pinHash (wk_pinHash b)\<rparr>"

definition update_workspace ::
    "'tok crypto \<Rightarrow> string \<Rightarrow> instant \<Rightarrow> id \<Rightarrow> business_member \<Rightarrow> request_user \<Rightarrow> update_business_dto \<Rightarrow> wdb \<Rightarrow> (wdb \<times> 'tok workspace_view) result" where
  "update_workspace C salt now businessId member user dto wd =
     rbind (requireOwner member) (\<lambda>_.
     rbind (requireBusiness businessId wd) (\<lambda>b.
     let pinHash = map_option (map_option (cy_hash C salt)) (ubd_pin dto); b' = edited_workspace dto pinHash b in
     rbind (update_row wk_id businessId (edited_workspace dto pinHash) (wd_businesses wd)) (\<lambda>bs.
     let wd' = wd\<lparr>wd_businesses := bs\<rparr> in
     Inr (wd', workspace_view_of None (workspace_fee (wk_ownerId b') b' wd')
       (map_option (issue_unlock C now (ru_id user) (ru_sessionId user) businessId) (orelse pinHash None)) b'))))"

text \<open>The transactions are counted in the state the request read; the row is marked in the one it finds.\<close>

definition remove_workspace :: "instant \<Rightarrow> id \<Rightarrow> business_member \<Rightarrow> wdb \<Rightarrow> wdb \<Rightarrow> wdb result" where
  "remove_workspace now businessId member seen there =
     rbind (requireOwner member) (\<lambda>_.
     rbind (requireBusiness businessId seen) (\<lambda>b.
     rbind (check (\<not> wk_isDefault b)
       (BadRequest ''Cannot delete your default Personal workspace -- every account must always have exactly one.'')) (\<lambda>_.
     rbind (check (filter (\<lambda>t. tx_businessId t = businessId) (txns (rd_books (wd_rd seen))) = [])
       (BadRequest ''Cannot delete a workspace that still has transactions.'')) (\<lambda>_.
     rbind (update_row wk_id businessId (\<lambda>b. b\<lparr>wk_deletedAt := Some now\<rparr>) (wd_businesses there)) (\<lambda>bs.
     Inr (there\<lparr>wd_businesses := bs\<rparr>))))))"

definition verifyPin ::
    "'tok crypto \<Rightarrow> instant \<Rightarrow> id \<Rightarrow> request_user \<Rightarrow> string \<Rightarrow> wdb \<Rightarrow> (bool \<times> 'tok workspace_unlock option) result" where
  "verifyPin C now businessId user pin wd =
     rbind (requireBusiness businessId wd) (\<lambda>b.
     case wk_pinHash b of
       None \<Rightarrow> Inr (True, None)
     | Some pinHash \<Rightarrow>
         if pinHash = [] then Inr (True, None)
         else if cy_compare C pin pinHash then Inr (True, Some (issue_unlock C now (ru_id user) (ru_sessionId user) businessId pinHash))
         else Inr (False, None))"

text \<open>What the account knows of its password: none, or its hash.\<close>

definition credentials_verify :: "'tok crypto \<Rightarrow> (id \<rightharpoonup> string) \<Rightarrow> id \<Rightarrow> string \<Rightarrow> bool" where
  "credentials_verify C passwords userId password =
     (case passwords userId of None \<Rightarrow> False | Some h \<Rightarrow> h \<noteq> [] \<and> cy_compare C password h)"

definition credentials_has :: "(id \<rightharpoonup> string) \<Rightarrow> id \<Rightarrow> bool" where
  "credentials_has passwords userId \<longleftrightarrow> truthy (passwords userId)"

definition credentials_set :: "'tok crypto \<Rightarrow> string \<Rightarrow> id \<Rightarrow> string \<Rightarrow> (id \<rightharpoonup> string) \<Rightarrow> id \<rightharpoonup> string" where
  "credentials_set C salt userId password passwords = passwords(userId \<mapsto> cy_hash C salt password)"

definition resetPin :: "'tok crypto \<Rightarrow> (id \<rightharpoonup> string) \<Rightarrow> id \<Rightarrow> business_member \<Rightarrow> string \<Rightarrow> wdb \<Rightarrow> wdb result" where
  "resetPin C passwords businessId member password wd =
     rbind (requireOwner member) (\<lambda>_.
     rbind (requireBusiness businessId wd) (\<lambda>_.
     rbind (check (credentials_verify C passwords (bm_userId member) password)
       (if credentials_has passwords (bm_userId member) then BadRequest ''Your account password is incorrect''
        else BadRequest (''Your account has no password yet because you sign in with Google. Set one with '' @ quoted ''Forgot password?'' @
          '' on the sign-in page, then come back.''))) (\<lambda>_.
     rbind (update_row wk_id businessId (\<lambda>b. b\<lparr>wk_pinHash := None\<rparr>) (wd_businesses wd)) (\<lambda>bs. Inr (wd\<lparr>wd_businesses := bs\<rparr>)))))"

section \<open>The default workspace\<close>

definition assignReferralCode :: "string list \<Rightarrow> id \<Rightarrow> rdb \<Rightarrow> rdb result" where
  "assignReferralCode drawn userId rd =
     (case find_row us_id userId (rd_users rd) of
        None \<Rightarrow> Inl (DbError ''P2025'')
      | Some user \<Rightarrow>
          if truthy (us_referralCode user) then Inr rd
          else (case first_free_code (code_taken rd) (take 5 drawn) of None \<Rightarrow> Inr rd | Some candidate \<Rightarrow> set_code userId candidate rd))"

definition personal_workspace :: "id_source \<Rightarrow> instant \<Rightarrow> id \<Rightarrow> plan_row option \<Rightarrow> workspace_row" where
  "personal_workspace gen now userId freePlan =
     \<lparr>wk_id = gen 0, wk_ownerId = userId, wk_name = ''Personal'', wk_type = PERSONAL, wk_currency = ''BDT'', wk_planId = map_option pl_id freePlan,
      wk_isDefault = True, wk_phone = None, wk_email = None, wk_pinHash = None, wk_trialEndsAt = None, wk_deletedAt = None, wk_createdAt = now\<rparr>"

text \<open>
  The first look is at \<open>seen\<close>; the second, under the user's lock, and all that is written, at \<open>there\<close>.
\<close>

definition ensureDefaultWorkspace ::
    "id_source \<Rightarrow> string list \<Rightarrow> instant \<Rightarrow> id \<Rightarrow> string option \<Rightarrow> wdb \<Rightarrow> wdb \<Rightarrow> (wdb \<times> id) result" where
  "ensureDefaultWorkspace gen drawn now userId referralCode seen there =
     (case default_business userId seen of
        Some b \<Rightarrow> Inr (there, wk_id b)
      | None \<Rightarrow>
          let freePlan = find_row pl_slug ''free'' (wd_plans seen) in
          (case default_business userId there of
             Some b \<Rightarrow> Inr (there, wk_id b)
           | None \<Rightarrow>
               rbind (assignReferralCode drawn userId (wd_rd there)) (\<lambda>rd.
               rbind (case referralCode of
                   Some code \<Rightarrow> if code \<noteq> [] then recordReferral (gen 1) now userId code (rd_reward (wd_rd seen)) rd else Inr rd
                 | None \<Rightarrow> Inr rd) (\<lambda>rd.
               rbind (insert_workspace (personal_workspace gen now userId freePlan) (there\<lparr>wd_rd := rd\<rparr>)) (\<lambda>wd.
               rbind (seed_workspace (\<lambda>n. gen (n + 2)) now (gen 0) PERSONAL wd) (\<lambda>wd.
               Inr (wd, gen 0)))))))"

end
