(* ===== verification/Sessions.thy ===== *)
theory Sessions
  imports Workspaces
begin

text \<open>
  Signing in and out: the sessions the tokens point at (src/auth), the devices of a user and their
  sign-in history (src/user-auth/user-sessions.service.ts), the sign-in of the two sides
  (src/user-auth, src/admin-auth, src/sign-in), the password reset, and the view of a customer's
  account a super admin opens (src/admin-owners/owner-impersonation.service.ts). What better-auth
  does to the sessions is the record \<open>better_auth\<close>; \<open>better_auth_ok\<close> states what the code relies on.
  Every operation gives its answer and the state it leaves, which an error may have changed too.
  Mails are left out.
\<close>

section \<open>State\<close>

text \<open>The columns of a user that signing in and the administrators' screens read.\<close>

record login_user =
  lu_id :: id
  lu_name :: string
  lu_email :: string
  lu_role :: user_role
  lu_status :: user_status
  lu_preferredLanguage :: string
  lu_lastLoginAt :: "instant option"
  lu_phone :: "string option"
  lu_createdAt :: instant

record session_row =
  se_id :: id
  se_token :: string
  se_expiresAt :: instant
  se_ipAddress :: "string option"
  se_userAgent :: "string option"
  se_userId :: id
  se_createdAt :: instant
  se_updatedAt :: instant
  se_impersonatedBy :: "id option"

record device_row =
  dv_id :: id
  dv_userId :: id
  dv_jti :: id
  dv_deviceLabel :: string
  dv_ipAddress :: string
  dv_userAgent :: "string option"
  dv_createdAt :: instant
  dv_lastUsedAt :: instant
  dv_revokedAt :: "instant option"

record attempt_row =
  ap_email :: string
  ap_ipAddress :: string
  ap_userAgent :: "string option"
  ap_success :: bool
  ap_failureReason :: "string option"
  ap_createdAt :: instant

record reset_row =
  rs_id :: id
  rs_userId :: id
  rs_tokenHash :: string
  rs_expiresAt :: instant
  rs_usedAt :: "instant option"

text \<open>An entry of the audit log; of the values it quotes, only the reason an administrator gave.\<close>

record auth_event =
  ae_adminUserId :: id
  ae_action :: string
  ae_entityType :: string
  ae_entityId :: id
  ae_reason :: "string option"
  ae_ipAddress :: "string option"
  ae_createdAt :: instant

record sdb =
  sd_users :: "login_user list"
  sd_passwords :: "id \<rightharpoonup> string"
  sd_sessions :: "session_row list"
  sd_devices :: "device_row list"
  sd_attempts :: "attempt_row list"
  sd_resets :: "reset_row list"
  sd_audit :: "auth_event list"
  sd_wd :: wdb

record client_info =
  cl_ipAddress :: "string option"
  cl_userAgent :: "string option"

record signed_in =
  si_userId :: id
  si_sessionId :: id

record new_account =
  na_name :: string
  na_email :: string
  na_password :: string
  na_phone :: "string option"
  na_preferredLanguage :: "string option"

section \<open>The session library\<close>

text \<open>A call of better-auth answers a session's token and user, its own error with a status and a code, or fails otherwise.\<close>

datatype auth_answer = Opened string id | Api_Error nat string | Failed string

record better_auth =
  ba_signInEmail :: "string \<Rightarrow> string \<Rightarrow> client_info \<Rightarrow> instant \<Rightarrow> sdb \<Rightarrow> auth_answer \<times> session_row list"
  ba_signUpEmail :: "new_account \<Rightarrow> client_info \<Rightarrow> instant \<Rightarrow> sdb \<Rightarrow> auth_answer \<times> sdb"
  ba_getSession :: "string \<Rightarrow> instant \<Rightarrow> sdb \<Rightarrow> signed_in option"
  ba_createSession :: "id \<Rightarrow> client_info \<Rightarrow> instant \<Rightarrow> sdb \<Rightarrow> (session_row list \<times> session_row) option"
  ba_deleteSession :: "string \<Rightarrow> session_row list \<Rightarrow> session_row list"
  ba_deleteUserSessions :: "id \<Rightarrow> session_row list \<Rightarrow> session_row list"

text \<open>
  What is relied on. Deleting deletes by token, or by user. A session is created with a new id and a
  new token, for an account that is active (the hook of src/auth/better-auth.ts), and marked as nobody's
  view. Email and password open one only for the account with that email and that password, and answer
  401 when there is an account with the email and the password is wrong.
\<close>

definition fresh_session :: "id \<Rightarrow> sdb \<Rightarrow> session_row list \<Rightarrow> session_row \<Rightarrow> bool" where
  "fresh_session u d ss s \<longleftrightarrow>
     set ss = insert s (set (sd_sessions d)) \<and> se_id s \<notin> se_id ` set (sd_sessions d) \<and> se_token s \<notin> se_token ` set (sd_sessions d) \<and>
     se_userId s = u \<and> se_impersonatedBy s = None \<and> distinct (map se_id ss) = distinct (map se_id (sd_sessions d)) \<and>
     (\<exists>a\<in>set (sd_users d). lu_id a = u \<and> lu_status a = user_status.ACTIVE)"

definition matches_password :: "'tok crypto \<Rightarrow> string \<Rightarrow> string \<Rightarrow> sdb \<Rightarrow> login_user \<Rightarrow> bool" where
  "matches_password C email password d a \<longleftrightarrow> lu_email a = email \<and>
     (case sd_passwords d (lu_id a) of None \<Rightarrow> False | Some h \<Rightarrow> cy_compare C password h)"

definition password_fits :: "'tok crypto \<Rightarrow> string \<Rightarrow> string \<Rightarrow> sdb \<Rightarrow> login_user \<Rightarrow> bool" where
  "password_fits C email password d a \<longleftrightarrow> a \<in> set (sd_users d) \<and> matches_password C email password d a"

definition better_auth_ok :: "'tok crypto \<Rightarrow> better_auth \<Rightarrow> bool" where
  "better_auth_ok C B \<longleftrightarrow>
     (\<forall>tok ss. ba_deleteSession B tok ss = filter (\<lambda>s. se_token s \<noteq> tok) ss) \<and>
     (\<forall>u ss. ba_deleteUserSessions B u ss = filter (\<lambda>s. se_userId s \<noteq> u) ss) \<and>
     (\<forall>u cl t d ss s. ba_createSession B u cl t d = Some (ss, s) \<longrightarrow> fresh_session u d ss s) \<and>
     (\<forall>email pw cl t d tok u ss. ba_signInEmail B email pw cl t d = (Opened tok u, ss) \<longrightarrow>
        (\<exists>a s. password_fits C email pw d a \<and> lu_id a = u \<and> se_token s = tok \<and> fresh_session u d ss s)) \<and>
     (\<forall>email pw cl t d. email \<in> lu_email ` set (sd_users d) \<and> (\<forall>a. \<not> password_fits C email pw d a) \<longrightarrow>
        (\<exists>m. ba_signInEmail B email pw cl t d = (Api_Error 401 m, sd_sessions d)))"

section \<open>Sessions (auth-sessions.service.ts)\<close>

definition idOfToken :: "string \<Rightarrow> session_row list \<Rightarrow> id result" where
  "idOfToken token ss = (case find_row se_token token ss of None \<Rightarrow> Inl (DbError ''P2025'') | Some s \<Rightarrow> Inr (se_id s))"

definition signInWithPassword ::
    "better_auth \<Rightarrow> instant \<Rightarrow> string \<Rightarrow> string \<Rightarrow> client_info \<Rightarrow> sdb \<Rightarrow> signed_in option result \<times> sdb" where
  "signInWithPassword B now email password client d =
     (case ba_signInEmail B email password client now d of
        (Opened token userId, ss) \<Rightarrow>
          (rbind (idOfToken token ss) (\<lambda>i. Inr (Some \<lparr>si_userId = userId, si_sessionId = i\<rparr>)), d\<lparr>sd_sessions := ss\<rparr>)
      | (Api_Error statusCode m, ss) \<Rightarrow>
          (if statusCode = 401 \<or> statusCode = 403 then Inr None else Inl (Unexpected m), d\<lparr>sd_sessions := ss\<rparr>)
      | (Failed m, ss) \<Rightarrow> (Inl (Unexpected m), d\<lparr>sd_sessions := ss\<rparr>))"

definition createSession :: "better_auth \<Rightarrow> instant \<Rightarrow> id \<Rightarrow> client_info \<Rightarrow> sdb \<Rightarrow> (id \<times> sdb) result" where
  "createSession B now userId client d =
     (case ba_createSession B userId \<lparr>cl_ipAddress = Some (orelse (cl_ipAddress client) []), cl_userAgent = Some (orelse (cl_userAgent client) [])\<rparr> now d of
        None \<Rightarrow> Inl (Unexpected ''This account is not active'')
      | Some (ss, s) \<Rightarrow> Inr (se_id s, d\<lparr>sd_sessions := ss\<rparr>))"

text \<open>An empty token stands for a sign-up that opened no session.\<close>

definition signUpWithPassword ::
    "better_auth \<Rightarrow> instant \<Rightarrow> new_account \<Rightarrow> client_info \<Rightarrow> sdb \<Rightarrow> signed_in option result \<times> sdb" where
  "signUpWithPassword B now account client d =
     (case ba_signUpEmail B account client now d of
        (Opened token userId, d') \<Rightarrow>
          if token \<noteq> [] then (rbind (idOfToken token (sd_sessions d')) (\<lambda>i. Inr (Some \<lparr>si_userId = userId, si_sessionId = i\<rparr>)), d')
          else (case createSession B now userId client d' of
              Inl e \<Rightarrow> (Inl e, d')
            | Inr (i, d'') \<Rightarrow> (Inr (Some \<lparr>si_userId = userId, si_sessionId = i\<rparr>), d''))
      | (Api_Error statusCode code, d') \<Rightarrow>
          (if code = ''USER_ALREADY_EXISTS_USE_ANOTHER_EMAIL'' then Inr None else Inl (Unexpected code), d')
      | (Failed m, d') \<Rightarrow> (Inl (Unexpected m), d'))"

definition fromCookie :: "better_auth \<Rightarrow> instant \<Rightarrow> string option \<Rightarrow> sdb \<Rightarrow> signed_in option" where
  "fromCookie B now cookie d = (if truthy cookie then ba_getSession B (the cookie) now d else None)"

definition findActive :: "instant \<Rightarrow> id \<Rightarrow> sdb \<Rightarrow> (session_row \<times> login_user) option" where
  "findActive now sessionId d =
     Option.bind (find_row se_id sessionId (sd_sessions d)) (\<lambda>s.
     Option.bind (find_row lu_id (se_userId s) (sd_users d)) (\<lambda>a.
     if now < se_expiresAt s then Some (s, a) else None))"

definition touch_session :: "instant \<Rightarrow> id \<Rightarrow> sdb \<Rightarrow> sdb" where
  "touch_session now sessionId d = d\<lparr>sd_sessions := map_row se_id sessionId (\<lambda>s. s\<lparr>se_updatedAt := now\<rparr>) (sd_sessions d)\<rparr>"

definition revoke_session :: "better_auth \<Rightarrow> id \<Rightarrow> sdb \<Rightarrow> sdb" where
  "revoke_session B sessionId d =
     (case find_row se_id sessionId (sd_sessions d) of
        None \<Rightarrow> d
      | Some s \<Rightarrow> d\<lparr>sd_sessions := ba_deleteSession B (se_token s) (sd_sessions d)\<rparr>)"

definition revokeOthersForUser :: "better_auth \<Rightarrow> id \<Rightarrow> id \<Rightarrow> sdb \<Rightarrow> sdb" where
  "revokeOthersForUser B userId keepSessionId d =
     (let others = filter (\<lambda>s. se_userId s = userId \<and> se_id s \<noteq> keepSessionId) (sd_sessions d) in
      d\<lparr>sd_sessions := foldl (\<lambda>ss s. ba_deleteSession B (se_token s) ss) (sd_sessions d) others\<rparr>)"

definition revokeAllForUser :: "better_auth \<Rightarrow> id \<Rightarrow> sdb \<Rightarrow> sdb" where
  "revokeAllForUser B userId d = d\<lparr>sd_sessions := ba_deleteUserSessions B userId (sd_sessions d)\<rparr>"

section \<open>Devices (device-label.ts, user-sessions.service.ts)\<close>

fun occurs_in :: "string \<Rightarrow> string \<Rightarrow> bool" where
  "occurs_in needle [] \<longleftrightarrow> needle = []"
| "occurs_in needle (c # cs) \<longleftrightarrow> take (length needle) (c # cs) = needle \<or> occurs_in needle cs"

definition ascii_lower :: "char \<Rightarrow> char" where
  "ascii_lower c = (if of_char c \<in> {65..90::nat} then char_of (of_char c + 32 :: nat) else c)"

definition is_mobile :: "string \<Rightarrow> bool" where
  "is_mobile agent \<longleftrightarrow> list_ex (\<lambda>w. occurs_in w (map ascii_lower agent)) [''mobile'', ''android'', ''iphone'', ''ipad'']"

definition browser_of :: "string \<Rightarrow> string" where
  "browser_of agent =
     (if occurs_in ''Edg/'' agent then ''Edge''
      else if occurs_in ''OPR/'' agent \<or> occurs_in ''Opera'' agent then ''Opera''
      else if occurs_in ''Chrome/'' agent \<and> \<not> occurs_in ''Chromium'' agent then ''Chrome''
      else if occurs_in ''Firefox/'' agent then ''Firefox''
      else if occurs_in ''Safari/'' agent \<and> \<not> occurs_in ''Chrome'' agent then ''Safari''
      else ''Unknown browser'')"

definition os_of :: "string \<Rightarrow> string" where
  "os_of agent =
     (if occurs_in ''Windows'' agent then ''Windows''
      else if occurs_in ''iPhone'' agent \<or> occurs_in ''iPad'' agent then ''iOS''
      else if occurs_in ''Mac OS X'' agent then ''macOS''
      else if occurs_in ''Android'' agent then ''Android''
      else if occurs_in ''Linux'' agent then ''Linux''
      else ''Unknown OS'')"

definition parseDeviceLabel :: "string option \<Rightarrow> string" where
  "parseDeviceLabel userAgent =
     (if \<not> truthy userAgent then ''Unknown device''
      else let agent = the userAgent; os = os_of agent in
        browser_of agent @ '' on '' @ os @ (if is_mobile agent \<and> os \<noteq> ''iOS'' \<and> os \<noteq> ''Android'' then '' (Mobile)'' else []))"

definition record_device :: "id \<Rightarrow> instant \<Rightarrow> id \<Rightarrow> id \<Rightarrow> client_info \<Rightarrow> sdb \<Rightarrow> sdb" where
  "record_device newId now userId sessionId client d =
     d\<lparr>sd_devices := (if sessionId \<in> dv_jti ` set (sd_devices d) then map_row dv_jti sessionId (\<lambda>v. v\<lparr>dv_lastUsedAt := now\<rparr>) (sd_devices d)
        else sd_devices d @ [\<lparr>dv_id = newId, dv_userId = userId, dv_jti = sessionId, dv_deviceLabel = parseDeviceLabel (cl_userAgent client),
          dv_ipAddress = orelse (cl_ipAddress client) ''unknown'', dv_userAgent = cl_userAgent client, dv_createdAt = now,
          dv_lastUsedAt = now, dv_revokedAt = None\<rparr>])\<rparr>"

definition touch_device :: "instant \<Rightarrow> id \<Rightarrow> sdb \<Rightarrow> sdb" where
  "touch_device now sessionId d =
     (let d = touch_session now sessionId d in
      d\<lparr>sd_devices := map_row dv_jti sessionId (\<lambda>v. v\<lparr>dv_lastUsedAt := now\<rparr>) (sd_devices d)\<rparr>)"

definition mark_revoked :: "(device_row \<Rightarrow> bool) \<Rightarrow> instant \<Rightarrow> sdb \<Rightarrow> sdb" where
  "mark_revoked P now d = d\<lparr>sd_devices := update_many (\<lambda>v. P v \<and> dv_revokedAt v = None) (\<lambda>v. v\<lparr>dv_revokedAt := Some now\<rparr>) (sd_devices d)\<rparr>"

definition end_device :: "better_auth \<Rightarrow> instant \<Rightarrow> id \<Rightarrow> sdb \<Rightarrow> sdb" where
  "end_device B now sessionId d = mark_revoked (\<lambda>v. dv_jti v = sessionId) now (revoke_session B sessionId d)"

definition endAllExcept :: "better_auth \<Rightarrow> instant \<Rightarrow> id \<Rightarrow> id \<Rightarrow> sdb \<Rightarrow> sdb" where
  "endAllExcept B now userId keepSessionId d =
     mark_revoked (\<lambda>v. dv_userId v = userId \<and> dv_jti v \<noteq> keepSessionId) now (revokeOthersForUser B userId keepSessionId d)"

definition endAll :: "better_auth \<Rightarrow> instant \<Rightarrow> id \<Rightarrow> sdb \<Rightarrow> sdb" where
  "endAll B now userId d = mark_revoked (\<lambda>v. dv_userId v = userId) now (revokeAllForUser B userId d)"

text \<open>The devices still signed in, the last used first; the flag marks the one that asks.\<close>

definition list_devices :: "instant \<Rightarrow> id \<Rightarrow> id \<Rightarrow> sdb \<Rightarrow> (device_row \<times> bool) list" where
  "list_devices now userId currentSessionId d =
     (let live = map se_id (filter (\<lambda>s. se_userId s = userId \<and> now < se_expiresAt s) (sd_sessions d)) in
      map (\<lambda>v. (v, dv_jti v = currentSessionId))
        (find_many (\<lambda>v. dv_userId v = userId \<and> dv_revokedAt v = None \<and> dv_jti v \<in> set live) (\<lambda>v. - dv_lastUsedAt v) (sd_devices d)))"

definition revoke_device :: "better_auth \<Rightarrow> instant \<Rightarrow> id \<Rightarrow> id \<Rightarrow> sdb \<Rightarrow> sdb result" where
  "revoke_device B now userId deviceId d =
     (case find_row dv_id deviceId (sd_devices d) of
        None \<Rightarrow> Inl (NotFound ''Session not found'')
      | Some v \<Rightarrow> rbind (check (dv_userId v = userId) (NotFound ''Session not found'')) (\<lambda>_. Inr (end_device B now (dv_jti v) d)))"

definition loginHistory :: "string \<Rightarrow> sdb \<Rightarrow> (attempt_row \<times> string) list" where
  "loginHistory email d =
     map (\<lambda>a. (a, parseDeviceLabel (ap_userAgent a))) (take 50 (find_many (\<lambda>a. ap_email a = email) (\<lambda>a. - ap_createdAt a) (sd_attempts d)))"

section \<open>The guards\<close>

text \<open>
  A token comes in the Authorization header, after \<open>Bearer\<close> (\<open>Some None\<close> when nothing follows), or in a
  cookie.
\<close>

record 'tok http_request =
  hr_method :: string
  hr_bearer :: "'tok option option"
  hr_cookie :: "'tok option"
  hr_unlock :: "'tok option"

definition extractAccessToken :: "'tok http_request \<Rightarrow> 'tok option" where
  "extractAccessToken rq = (case hr_bearer rq of Some t \<Rightarrow> t | None \<Rightarrow> hr_cookie rq)"

record authenticated =
  au_user :: login_user
  au_sessionId :: id
  au_impersonatedBy :: "id option"

definition authenticate :: "'tok crypto \<Rightarrow> token_audience \<Rightarrow> instant \<Rightarrow> 'tok http_request \<Rightarrow> sdb \<Rightarrow> authenticated result" where
  "authenticate C audience now rq d =
     (case extractAccessToken rq of
        None \<Rightarrow> Inl (Unauthorized ''Access token missing'')
      | Some token \<Rightarrow>
          rbind (verifyAccess C now audience token) (\<lambda>c.
          case findActive now (sc_sid c) d of
            None \<Rightarrow> Inl (Unauthorized ''This session has been signed out'')
          | Some (s, a) \<Rightarrow>
              rbind (check (se_userId s = sc_sub c) (Unauthorized ''This session has been signed out'')) (\<lambda>_.
              Inr \<lparr>au_user = a, au_sessionId = se_id s, au_impersonatedBy = se_impersonatedBy s\<rparr>)))"

definition READ_METHODS :: "string list" where
  "READ_METHODS = [''GET'', ''HEAD'', ''OPTIONS'']"

definition user_auth_guard :: "'tok crypto \<Rightarrow> instant \<Rightarrow> 'tok http_request \<Rightarrow> sdb \<Rightarrow> request_user result" where
  "user_auth_guard C now rq d =
     rbind (authenticate C User_Side now rq d) (\<lambda>s.
     rbind (check (lu_role (au_user s) = USER \<and> lu_status (au_user s) = user_status.ACTIVE) (Unauthorized ''This account is not active'')) (\<lambda>_.
     rbind (check (\<not> (truthy (au_impersonatedBy s) \<and> hr_method rq \<notin> set READ_METHODS))
       (Forbidden ''This is a read-only support view of the account. Nothing can be changed from it.'')) (\<lambda>_.
     Inr \<lparr>ru_id = lu_id (au_user s), ru_email = lu_email (au_user s), ru_sessionId = au_sessionId s,
       ru_impersonatedBy = (if truthy (au_impersonatedBy s) then au_impersonatedBy s else None)\<rparr>)))"

definition ADMIN_ROLES :: "user_role list" where
  "ADMIN_ROLES = [SUPER_ADMIN, SUPPORT_ADMIN, FINANCE_ADMIN, CONTENT_ADMIN]"

definition isAdminRole :: "user_role \<Rightarrow> bool" where
  "isAdminRole r \<longleftrightarrow> r \<in> set ADMIN_ROLES"

record request_admin =
  ra_id :: id
  ra_email :: string
  ra_role :: user_role
  ra_sessionId :: id

definition admin_auth_guard :: "'tok crypto \<Rightarrow> instant \<Rightarrow> 'tok http_request \<Rightarrow> sdb \<Rightarrow> request_admin result" where
  "admin_auth_guard C now rq d =
     rbind (authenticate C Admin_Side now rq d) (\<lambda>s.
     rbind (check (isAdminRole (lu_role (au_user s))) (Unauthorized ''Admin no longer exists'')) (\<lambda>_.
     rbind (check (lu_status (au_user s) = user_status.ACTIVE) (Unauthorized ''This admin account has been suspended'')) (\<lambda>_.
     Inr \<lparr>ra_id = lu_id (au_user s), ra_email = lu_email (au_user s), ra_role = lu_role (au_user s), ra_sessionId = au_sessionId s\<rparr>)))"

definition roles_guard :: "user_role list option \<Rightarrow> request_admin option \<Rightarrow> bool" where
  "roles_guard required admin \<longleftrightarrow>
     (case required of None \<Rightarrow> True | Some [] \<Rightarrow> True
      | Some rs \<Rightarrow> (case admin of None \<Rightarrow> False | Some a \<Rightarrow> ra_role a \<in> set rs))"

text \<open>A route of a workspace: the user's guard, then the workspace's, then the role the route asks for.\<close>

definition open_workspace ::
    "'tok crypto \<Rightarrow> instant \<Rightarrow> bool \<Rightarrow> member_role list option \<Rightarrow> string \<Rightarrow> 'tok http_request \<Rightarrow> sdb \<Rightarrow> business_member result" where
  "open_workspace C now allowLocked roles businessId rq d =
     rbind (user_auth_guard C now rq d) (\<lambda>user.
     rbind (membership_guard C now allowLocked businessId (Some user) (hr_unlock rq) (sd_wd d)) (\<lambda>member.
     rbind (role_guard roles (Some member)) (\<lambda>_. Inr member)))"

end
