(* ===== verification/Sign_In.thy ===== *)
theory Sign_In
  imports Sessions
begin

text \<open>
  Signing in, on the user side (src/user-auth/user-auth.service.ts), on the admin side
  (src/admin-auth/admin-auth.service.ts) and on the page both share (src/sign-in), and the view of a
  customer's account (src/admin-owners/owner-impersonation.service.ts). An operation gives its
  answer with the state it leaves: a failed sign-in leaves its attempt behind.
\<close>

section \<open>What all of them write\<close>

definition unknown_ip :: "client_info \<Rightarrow> string" where
  "unknown_ip client = orelse (cl_ipAddress client) ''unknown''"

definition recordLoginAttempt :: "instant \<Rightarrow> string \<Rightarrow> client_info \<Rightarrow> bool \<Rightarrow> string option \<Rightarrow> sdb \<Rightarrow> sdb" where
  "recordLoginAttempt now email client success failureReason d =
     d\<lparr>sd_attempts := sd_attempts d @ [\<lparr>ap_email = email, ap_ipAddress = unknown_ip client, ap_userAgent = cl_userAgent client,
       ap_success = success, ap_failureReason = failureReason, ap_createdAt = now\<rparr>]\<rparr>"

definition stamp_login :: "instant \<Rightarrow> id \<Rightarrow> sdb \<Rightarrow> sdb" where
  "stamp_login now userId d = d\<lparr>sd_users := map_row lu_id userId (\<lambda>a. a\<lparr>lu_lastLoginAt := Some now\<rparr>) (sd_users d)\<rparr>"

definition log_reason :: "instant \<Rightarrow> id \<Rightarrow> string \<Rightarrow> string \<Rightarrow> id \<Rightarrow> string option \<Rightarrow> string option \<Rightarrow> sdb \<Rightarrow> sdb" where
  "log_reason now adminId action entityType entityId reason ip d =
     d\<lparr>sd_audit := sd_audit d @ [\<lparr>ae_adminUserId = adminId, ae_action = action, ae_entityType = entityType, ae_entityId = entityId,
       ae_reason = reason, ae_ipAddress = ip, ae_createdAt = now\<rparr>]\<rparr>"

definition log_event :: "instant \<Rightarrow> id \<Rightarrow> string \<Rightarrow> string \<Rightarrow> id \<Rightarrow> string option \<Rightarrow> sdb \<Rightarrow> sdb" where
  "log_event now adminId action entityType entityId ip d = log_reason now adminId action entityType entityId None ip d"

text \<open>The ids, the referral codes and the salt a request draws, with its time and its client.\<close>

record draws =
  dw_now :: instant
  dw_gen :: id_source
  dw_codes :: "string list"
  dw_salt :: string
  dw_client :: client_info

record 'tok user_answer =
  ua_tokens :: "'tok issued_tokens"
  ua_user :: login_user
  ua_defaultBusinessId :: id

record 'tok admin_answer =
  aa_tokens :: "'tok issued_tokens"
  aa_admin :: login_user

section \<open>The user side\<close>

definition complete_account :: "draws \<Rightarrow> id \<Rightarrow> string option \<Rightarrow> sdb \<Rightarrow> id result \<times> sdb" where
  "complete_account w userId referralCode d =
     (case ensureDefaultWorkspace (\<lambda>n. dw_gen w (Suc n)) (dw_codes w) (dw_now w) userId referralCode (sd_wd d) (sd_wd d) of
        Inl e \<Rightarrow> (Inl e, d)
      | Inr (wd, i) \<Rightarrow> (Inr i, d\<lparr>sd_wd := wd\<rparr>))"

definition signedInResponse :: "'tok crypto \<Rightarrow> draws \<Rightarrow> login_user \<Rightarrow> id \<Rightarrow> id \<Rightarrow> sdb \<Rightarrow> 'tok user_answer \<times> sdb" where
  "signedInResponse C w user sessionId defaultBusinessId d =
     (\<lparr>ua_tokens = issue_tokens C (dw_now w) User_Side (lu_id user) sessionId (lu_role user), ua_user = user,
        ua_defaultBusinessId = defaultBusinessId\<rparr>,
      record_device (dw_gen w 0) (dw_now w) (lu_id user) sessionId (dw_client w) d)"

definition finish_sign_in ::
    "'tok crypto \<Rightarrow> draws \<Rightarrow> login_user \<Rightarrow> id \<Rightarrow> string option \<Rightarrow> sdb \<Rightarrow> 'tok user_answer result \<times> sdb" where
  "finish_sign_in C w user sessionId referralCode d =
     (case complete_account w (lu_id user) referralCode d of
        (Inl e, d) \<Rightarrow> (Inl e, d)
      | (Inr businessId, d) \<Rightarrow> (let (a, d) = signedInResponse C w user sessionId businessId d in (Inr a, d)))"

record register_dto =
  rg_account :: new_account
  rg_referralCode :: "string option"

definition register :: "'tok crypto \<Rightarrow> better_auth \<Rightarrow> draws \<Rightarrow> register_dto \<Rightarrow> sdb \<Rightarrow> 'tok user_answer result \<times> sdb" where
  "register C B w dto d =
     (let taken = Conflict ''An account with this email already exists'' in
      if find_row lu_email (na_email (rg_account dto)) (sd_users d) \<noteq> None then (Inl taken, d)
      else (case signUpWithPassword B (dw_now w) (rg_account dto) (dw_client w) d of
          (Inl e, d) \<Rightarrow> (Inl e, d)
        | (Inr None, d) \<Rightarrow> (Inl taken, d)
        | (Inr (Some s), d) \<Rightarrow>
            (case complete_account w (si_userId s) (rg_referralCode dto) d of
               (Inl e, d) \<Rightarrow> (Inl e, d)
             | (Inr businessId, d) \<Rightarrow>
                 (case find_row lu_id (si_userId s) (sd_users d) of
                    None \<Rightarrow> (Inl (DbError ''P2025''), d)
                  | Some user \<Rightarrow> (let (a, d) = signedInResponse C w user (si_sessionId s) businessId d in (Inr a, d))))))"

definition invalid_login :: http_error where
  "invalid_login = Unauthorized ''Invalid email or password''"

definition suspended_message :: string where
  "suspended_message = ''Your account has been suspended. Contact support for assistance.''"

definition login :: "'tok crypto \<Rightarrow> better_auth \<Rightarrow> draws \<Rightarrow> string \<Rightarrow> string \<Rightarrow> sdb \<Rightarrow> 'tok user_answer result \<times> sdb" where
  "login C B w email password d =
     (let now = dw_now w; client = dw_client w; refused = (\<lambda>reason. recordLoginAttempt now email client False (Some reason)) in
      case find_row lu_email email (sd_users d) of
        None \<Rightarrow> (Inl invalid_login, refused ''account_not_found'' d)
      | Some user \<Rightarrow>
          if lu_status user = user_status.DELETED \<or> lu_role user \<noteq> USER then (Inl invalid_login, refused ''account_not_found'' d)
          else if lu_status user = user_status.SUSPENDED then (Inl (Forbidden suspended_message), refused ''account_suspended'' d)
          else (case signInWithPassword B now email password client d of
              (Inl e, d) \<Rightarrow> (Inl e, d)
            | (Inr None, d) \<Rightarrow> (Inl invalid_login, refused ''invalid_password'' d)
            | (Inr (Some s), d) \<Rightarrow>
                finish_sign_in C w user (si_sessionId s) None (recordLoginAttempt now email client True None (stamp_login now (lu_id user) d))))"

definition exchangeSession ::
    "'tok crypto \<Rightarrow> better_auth \<Rightarrow> draws \<Rightarrow> string option \<Rightarrow> string option \<Rightarrow> sdb \<Rightarrow> 'tok user_answer result \<times> sdb" where
  "exchangeSession C B w cookie referralCode d =
     (case fromCookie B (dw_now w) cookie d of
        None \<Rightarrow> (Inl (Unauthorized ''No signed-in session to exchange''), d)
      | Some s \<Rightarrow> (case find_row lu_id (si_userId s) (sd_users d) of
            None \<Rightarrow> (Inl (DbError ''P2025''), d)
          | Some user \<Rightarrow>
              if lu_role user \<noteq> USER then (Inl (Forbidden ''This account signs in to the admin panel''), d)
              else if lu_status user \<noteq> user_status.ACTIVE then (Inl (Forbidden suspended_message), d)
              else finish_sign_in C w user (si_sessionId s) referralCode
                (recordLoginAttempt (dw_now w) (lu_email user) (dw_client w) True None (stamp_login (dw_now w) (lu_id user) d))))"

definition refresh :: "'tok crypto \<Rightarrow> instant \<Rightarrow> 'tok \<Rightarrow> sdb \<Rightarrow> ('tok \<times> sdb) result" where
  "refresh C now refreshToken d =
     rbind (verifyRefresh C now User_Side refreshToken) (\<lambda>c.
     case findActive now (sc_sid c) d of
       None \<Rightarrow> Inl (Unauthorized ''This session has been signed out'')
     | Some (s, a) \<Rightarrow>
         rbind (check (se_userId s = sc_sub c) (Unauthorized ''This session has been signed out'')) (\<lambda>_.
         rbind (check (lu_status a = user_status.ACTIVE \<and> lu_role a = USER) (Unauthorized ''Account no longer active'')) (\<lambda>_.
         Inr (signAccess C now User_Side (sc_sub c) (sc_sid c) (lu_role a), touch_device now (sc_sid c) d))))"

definition logout :: "'tok crypto \<Rightarrow> better_auth \<Rightarrow> instant \<Rightarrow> 'tok \<Rightarrow> sdb \<Rightarrow> sdb" where
  "logout C B now refreshToken d =
     (case verifyRefresh C now User_Side refreshToken of Inl e \<Rightarrow> d | Inr c \<Rightarrow> end_device B now (sc_sid c) d)"

definition set_password :: "'tok crypto \<Rightarrow> string \<Rightarrow> id \<Rightarrow> string \<Rightarrow> sdb \<Rightarrow> sdb" where
  "set_password C salt userId password d = d\<lparr>sd_passwords := credentials_set C salt userId password (sd_passwords d)\<rparr>"

definition changePassword ::
    "'tok crypto \<Rightarrow> better_auth \<Rightarrow> draws \<Rightarrow> id \<Rightarrow> id \<Rightarrow> string \<Rightarrow> string \<Rightarrow> sdb \<Rightarrow> sdb result" where
  "changePassword C B w userId sessionId currentPassword newPassword d =
     rbind (check (find_row lu_id userId (sd_users d) \<noteq> None) (Unauthorized ''Account no longer exists'')) (\<lambda>_.
     rbind (check (credentials_verify C (sd_passwords d) userId currentPassword) (BadRequest ''Current password is incorrect'')) (\<lambda>_.
     Inr (endAllExcept B (dw_now w) userId sessionId (set_password C (dw_salt w) userId newPassword d))))"

section \<open>Reset links\<close>

definition RESET_MINUTES :: int where
  "RESET_MINUTES = 30"

text \<open>The token of the link is drawn at random; its hash is kept.\<close>

definition forgotPassword :: "'tok crypto \<Rightarrow> draws \<Rightarrow> string \<Rightarrow> string \<Rightarrow> sdb \<Rightarrow> sdb result" where
  "forgotPassword C w rawToken email d =
     (case find_row lu_email email (sd_users d) of
        None \<Rightarrow> Inr d
      | Some user \<Rightarrow>
          if lu_status user = user_status.ACTIVE \<and> lu_role user = USER then
            rbind (insert_row rs_tokenHash \<lparr>rs_id = dw_gen w 0, rs_userId = lu_id user, rs_tokenHash = cy_digest C rawToken,
                rs_expiresAt = dw_now w + RESET_MINUTES * 60 * 1000, rs_usedAt = None\<rparr>
              (update_many (\<lambda>r. rs_userId r = lu_id user \<and> rs_usedAt r = None) (\<lambda>r. r\<lparr>rs_usedAt := Some (dw_now w)\<rparr>) (sd_resets d))) (\<lambda>rs.
            Inr (d\<lparr>sd_resets := rs\<rparr>))
          else Inr d)"

definition invalid_link :: http_error where
  "invalid_link = BadRequest ''This reset link is invalid or has expired. Please request a new one.''"

definition claimable_link :: "instant \<Rightarrow> id \<Rightarrow> reset_row \<Rightarrow> bool" where
  "claimable_link now i r \<longleftrightarrow> rs_id r = i \<and> rs_usedAt r = None \<and> now < rs_expiresAt r"

text \<open>The transaction: it claims the link, then looks at its owner, then sets the password.\<close>

definition claim_link :: "'tok crypto \<Rightarrow> draws \<Rightarrow> reset_row \<Rightarrow> string \<Rightarrow> sdb \<Rightarrow> (login_user \<times> sdb) result" where
  "claim_link C w r newPassword d =
     rbind (check (length (filter (claimable_link (dw_now w) (rs_id r)) (sd_resets d)) = 1) invalid_link) (\<lambda>_.
     case find_row lu_id (rs_userId r) (sd_users d) of
       None \<Rightarrow> Inl invalid_link
     | Some owner \<Rightarrow>
         rbind (check (lu_status owner = user_status.ACTIVE \<and> lu_role owner = USER) invalid_link) (\<lambda>_.
         Inr (owner, set_password C (dw_salt w) (lu_id owner) newPassword
           (d\<lparr>sd_resets := update_many (claimable_link (dw_now w) (rs_id r)) (\<lambda>r. r\<lparr>rs_usedAt := Some (dw_now w)\<rparr>) (sd_resets d)\<rparr>))))"

text \<open>The link is looked up in the state the request read, and claimed in the one it finds.\<close>

definition resetPassword ::
    "'tok crypto \<Rightarrow> better_auth \<Rightarrow> draws \<Rightarrow> string \<Rightarrow> string \<Rightarrow> sdb \<Rightarrow> sdb \<Rightarrow> 'tok user_answer result \<times> sdb" where
  "resetPassword C B w rawToken newPassword seen there =
     (case find_row rs_tokenHash (cy_digest C rawToken) (sd_resets seen) of
        None \<Rightarrow> (Inl invalid_link, there)
      | Some r \<Rightarrow>
          if rs_usedAt r \<noteq> None \<or> rs_expiresAt r < dw_now w then (Inl invalid_link, there)
          else (case claim_link C w r newPassword there of
              Inl e \<Rightarrow> (Inl e, there)
            | Inr (user, d) \<Rightarrow>
                let d = endAll B (dw_now w) (lu_id user) d in
                (case createSession B (dw_now w) (lu_id user) (dw_client w) d of
                   Inl e \<Rightarrow> (Inl e, d)
                 | Inr (sessionId, d) \<Rightarrow> finish_sign_in C w user sessionId None d)))"

section \<open>The admin side\<close>

definition completeSignIn :: "'tok crypto \<Rightarrow> draws \<Rightarrow> login_user \<Rightarrow> id \<Rightarrow> sdb \<Rightarrow> 'tok admin_answer \<times> sdb" where
  "completeSignIn C w admin sessionId d =
     (\<lparr>aa_tokens = issue_tokens C (dw_now w) Admin_Side (lu_id admin) sessionId (lu_role admin), aa_admin = admin\<rparr>,
      recordLoginAttempt (dw_now w) (lu_email admin) (dw_client w) True None
        (log_event (dw_now w) (lu_id admin) ''ADMIN_LOGIN'' ''AdminUser'' (lu_id admin) (cl_ipAddress (dw_client w))
          (stamp_login (dw_now w) (lu_id admin) d)))"

definition admin_login :: "'tok crypto \<Rightarrow> better_auth \<Rightarrow> draws \<Rightarrow> string \<Rightarrow> string \<Rightarrow> sdb \<Rightarrow> 'tok admin_answer result \<times> sdb" where
  "admin_login C B w email password d =
     (let now = dw_now w; client = dw_client w; refused = (\<lambda>reason. recordLoginAttempt now email client False (Some reason)) in
      case find_row lu_email email (sd_users d) of
        None \<Rightarrow> (Inl invalid_login, refused ''account_not_found'' d)
      | Some admin \<Rightarrow>
          if \<not> isAdminRole (lu_role admin) then (Inl invalid_login, refused ''account_not_found'' d)
          else if lu_status admin \<noteq> user_status.ACTIVE then
            (Inl (Unauthorized ''This account has been suspended''), refused ''account_suspended'' d)
          else (case signInWithPassword B now email password client d of
              (Inl e, d) \<Rightarrow> (Inl e, d)
            | (Inr None, d) \<Rightarrow> (Inl invalid_login, refused ''invalid_password'' d)
            | (Inr (Some s), d) \<Rightarrow> (let (a, d) = completeSignIn C w admin (si_sessionId s) d in (Inr a, d))))"

definition admin_exchangeSession :: "'tok crypto \<Rightarrow> better_auth \<Rightarrow> draws \<Rightarrow> string option \<Rightarrow> sdb \<Rightarrow> 'tok admin_answer result \<times> sdb" where
  "admin_exchangeSession C B w cookie d =
     (case fromCookie B (dw_now w) cookie d of
        None \<Rightarrow> (Inl (Unauthorized ''No signed-in session to exchange''), d)
      | Some s \<Rightarrow> (case find_row lu_id (si_userId s) (sd_users d) of
            None \<Rightarrow> (Inl (DbError ''P2025''), d)
          | Some admin \<Rightarrow>
              if \<not> isAdminRole (lu_role admin) then (Inl (Forbidden ''This account does not sign in to the admin panel''), d)
              else if lu_status admin \<noteq> user_status.ACTIVE then (Inl (Unauthorized ''This account has been suspended''), d)
              else (let (a, d) = completeSignIn C w admin (si_sessionId s) d in (Inr a, d))))"

definition admin_refresh :: "'tok crypto \<Rightarrow> instant \<Rightarrow> 'tok \<Rightarrow> sdb \<Rightarrow> ('tok \<times> sdb) result" where
  "admin_refresh C now refreshToken d =
     rbind (verifyRefresh C now Admin_Side refreshToken) (\<lambda>c.
     case findActive now (sc_sid c) d of
       None \<Rightarrow> Inl (Unauthorized ''This session has been signed out'')
     | Some (s, a) \<Rightarrow>
         rbind (check (se_userId s = sc_sub c) (Unauthorized ''This session has been signed out'')) (\<lambda>_.
         rbind (check (isAdminRole (lu_role a) \<and> lu_status a = user_status.ACTIVE) (Unauthorized ''Admin no longer active'')) (\<lambda>_.
         Inr (signAccess C now Admin_Side (sc_sub c) (sc_sid c) (lu_role a), touch_session now (sc_sid c) d))))"

definition admin_logout :: "'tok crypto \<Rightarrow> better_auth \<Rightarrow> instant \<Rightarrow> 'tok \<Rightarrow> sdb \<Rightarrow> sdb" where
  "admin_logout C B now refreshToken d =
     (case verifyRefresh C now Admin_Side refreshToken of Inl e \<Rightarrow> d | Inr c \<Rightarrow> revoke_session B (sc_sid c) d)"

definition requireAdmin :: "id \<Rightarrow> sdb \<Rightarrow> login_user result" where
  "requireAdmin adminId d =
     (case find_row lu_id adminId (sd_users d) of
        None \<Rightarrow> Inl (Unauthorized ''Admin no longer exists'')
      | Some a \<Rightarrow> if isAdminRole (lu_role a) then Inr a else Inl (Unauthorized ''Admin no longer exists''))"

definition admin_changePassword ::
    "'tok crypto \<Rightarrow> better_auth \<Rightarrow> draws \<Rightarrow> id \<Rightarrow> id \<Rightarrow> string \<Rightarrow> string \<Rightarrow> sdb \<Rightarrow> sdb result" where
  "admin_changePassword C B w adminId sessionId currentPassword newPassword d =
     rbind (requireAdmin adminId d) (\<lambda>_.
     rbind (check (credentials_verify C (sd_passwords d) adminId currentPassword) (BadRequest ''Current password is incorrect'')) (\<lambda>_.
     Inr (log_event (dw_now w) adminId ''ADMIN_PASSWORD_CHANGED'' ''AdminUser'' adminId (cl_ipAddress (dw_client w))
       (revokeOthersForUser B adminId sessionId (set_password C (dw_salt w) adminId newPassword d)))))"

definition updateProfile :: "instant \<Rightarrow> id \<Rightarrow> string \<Rightarrow> string option \<Rightarrow> sdb \<Rightarrow> sdb result" where
  "updateProfile now adminId name ip d =
     rbind (requireAdmin adminId d) (\<lambda>admin.
     if lu_name admin \<noteq> name then
       Inr (log_event now adminId ''ADMIN_ACCOUNT_UPDATED'' ''AdminUser'' adminId ip
         (d\<lparr>sd_users := map_row lu_id adminId (\<lambda>a. a\<lparr>lu_name := name\<rparr>) (sd_users d)\<rparr>))
     else Inr d)"

text \<open>An admin's live sessions, the last used first and then the one that asks before the others.\<close>

definition admin_listSessions :: "instant \<Rightarrow> id \<Rightarrow> id \<Rightarrow> sdb \<Rightarrow> (session_row \<times> string \<times> bool) list" where
  "admin_listSessions now adminId currentSessionId d =
     sort_key (\<lambda>(s, l, current). if current then 0 else 1 :: nat)
       (map (\<lambda>s. (s, parseDeviceLabel (se_userAgent s), se_id s = currentSessionId))
         (find_many (\<lambda>s. se_userId s = adminId \<and> now < se_expiresAt s \<and> se_impersonatedBy s = None) (\<lambda>s. - se_updatedAt s) (sd_sessions d)))"

definition signOutOthers :: "better_auth \<Rightarrow> instant \<Rightarrow> id \<Rightarrow> id \<Rightarrow> string option \<Rightarrow> sdb \<Rightarrow> nat \<times> sdb" where
  "signOutOthers B now adminId currentSessionId ip d =
     (let others = length (filter (\<lambda>s. se_userId s = adminId \<and> se_id s \<noteq> currentSessionId \<and> now < se_expiresAt s) (sd_sessions d));
          d = revokeOthersForUser B adminId currentSessionId d in
      (others, if 0 < others then log_event now adminId ''ADMIN_SIGNED_OUT_OTHER_DEVICES'' ''AdminUser'' adminId ip d else d))"

definition recentSignIns :: "id \<Rightarrow> sdb \<Rightarrow> (attempt_row \<times> string) list result" where
  "recentSignIns adminId d =
     rbind (requireAdmin adminId d) (\<lambda>admin.
     Inr (map (\<lambda>a. (a, parseDeviceLabel (ap_userAgent a)))
       (take 5 (find_many (\<lambda>a. map ascii_lower (ap_email a) = map ascii_lower (lu_email admin)) (\<lambda>a. - ap_createdAt a) (sd_attempts d)))))"

section \<open>One page for both sides\<close>

datatype 'tok sign_in_result = As_Admin "'tok admin_answer" | As_User "'tok user_answer"

definition is_admin_account :: "login_user option \<Rightarrow> bool" where
  "is_admin_account a = (case a of None \<Rightarrow> False | Some a \<Rightarrow> isAdminRole (lu_role a))"

definition withPassword :: "'tok crypto \<Rightarrow> better_auth \<Rightarrow> draws \<Rightarrow> string \<Rightarrow> string \<Rightarrow> sdb \<Rightarrow> 'tok sign_in_result result \<times> sdb" where
  "withPassword C B w email password d =
     (if is_admin_account (find_row lu_email email (sd_users d))
      then (let (r, d) = admin_login C B w email password d in (rbind r (\<lambda>a. Inr (As_Admin a)), d))
      else (let (r, d) = login C B w email password d in (rbind r (\<lambda>a. Inr (As_User a)), d)))"

definition withSession ::
    "'tok crypto \<Rightarrow> better_auth \<Rightarrow> draws \<Rightarrow> string option \<Rightarrow> string option \<Rightarrow> sdb \<Rightarrow> 'tok sign_in_result result \<times> sdb" where
  "withSession C B w cookie referralCode d =
     (case fromCookie B (dw_now w) cookie d of
        None \<Rightarrow> (Inl (Unauthorized ''No signed-in session to exchange''), d)
      | Some s \<Rightarrow>
          if is_admin_account (find_row lu_id (si_userId s) (sd_users d))
          then (let (r, d) = admin_exchangeSession C B w cookie d in (rbind r (\<lambda>a. Inr (As_Admin a)), d))
          else (let (r, d) = exchangeSession C B w cookie referralCode d in (rbind r (\<lambda>a. Inr (As_User a)), d)))"

section \<open>A customer's account, seen by support\<close>

definition IMPERSONATION_MINUTES :: int where
  "IMPERSONATION_MINUTES = 60"

definition start_view ::
    "'tok crypto \<Rightarrow> better_auth \<Rightarrow> draws \<Rightarrow> id \<Rightarrow> id \<Rightarrow> sdb \<Rightarrow> (('tok issued_tokens \<times> instant) \<times> sdb) result" where
  "start_view C B w userId adminId d =
     (case find_row lu_id userId (filter (\<lambda>a. lu_role a = USER) (sd_users d)) of
        None \<Rightarrow> Inl (NotFound ''Owner not found'')
      | Some owner \<Rightarrow>
          rbind (check (lu_status owner = user_status.ACTIVE) (BadRequest ''Only an active account can be viewed. Activate it first.'')) (\<lambda>_.
          rbind (createSession B (dw_now w) userId (dw_client w) d) (\<lambda>(sessionId, d).
          let expiresAt = dw_now w + IMPERSONATION_MINUTES * 60 * 1000 in
          rbind (update_row se_id sessionId (\<lambda>s. s\<lparr>se_impersonatedBy := Some adminId, se_expiresAt := expiresAt, se_updatedAt := dw_now w\<rparr>) (sd_sessions d)) (\<lambda>ss.
          Inr ((issue_tokens C (dw_now w) User_Side userId sessionId USER, expiresAt),
            log_event (dw_now w) adminId ''USER_IMPERSONATION_STARTED'' ''User'' userId (cl_ipAddress (dw_client w)) (d\<lparr>sd_sessions := ss\<rparr>))))))"

definition end_view :: "better_auth \<Rightarrow> instant \<Rightarrow> id \<Rightarrow> id \<Rightarrow> string option \<Rightarrow> sdb \<Rightarrow> nat \<times> sdb" where
  "end_view B now userId adminId ip d =
     (let views = map se_id (filter (\<lambda>s. se_userId s = userId \<and> se_impersonatedBy s = Some adminId) (sd_sessions d));
          d = foldl (\<lambda>d i. revoke_session B i d) d views in
      (length views, if views \<noteq> [] then log_event now adminId ''USER_IMPERSONATION_ENDED'' ''User'' userId ip d else d))"

end
