(* ===== verification/Workspace_Facts.thy ===== *)
theory Workspace_Facts
  imports Workspaces
begin

text \<open>
  What the workspaces keep: the invariant of every run of the services, requests that read an older
  state included; what a new PIN does to the unlocks of the old one; two first requests crossing.
\<close>

section \<open>The invariant\<close>

definition workspace_ok :: "membership_row list \<Rightarrow> workspace_row \<Rightarrow> bool" where
  "workspace_ok ms b \<longleftrightarrow>
     (\<exists>m\<in>set ms. member_key m = (wk_id b, wk_ownerId b) \<and> mr_role m = OWNER \<and> mr_status m = ACTIVE) \<and>
     (wk_isDefault b \<longleftrightarrow> wk_type b = PERSONAL) \<and> (wk_isDefault b \<longrightarrow> wk_deletedAt b = None) \<and>
     (wk_type b = GROUP \<longrightarrow> wk_trialEndsAt b = None)"

definition workspaces_ok :: "wdb \<Rightarrow> bool" where
  "workspaces_ok wd \<longleftrightarrow>
     keyed wk_id (wd_businesses wd) \<and> keyed member_key (wd_members wd) \<and>
     (\<forall>b\<in>set (wd_businesses wd). workspace_ok (wd_members wd) b) \<and>
     (\<forall>u. length (filter (\<lambda>b. wk_ownerId b = u \<and> wk_isDefault b) (wd_businesses wd)) \<le> 1) \<and>
     (\<forall>u. length (filter (extra_of u) (wd_businesses wd)) \<le> MAX_WORKSPACES_PER_USER)"

text \<open>A later state keeps every workspace of an earlier one, with its owner, kind and default mark.\<close>

definition kept_as :: "workspace_row \<Rightarrow> workspace_row \<Rightarrow> bool" where
  "kept_as b b' \<longleftrightarrow> wk_id b' = wk_id b \<and> wk_ownerId b' = wk_ownerId b \<and> wk_type b' = wk_type b \<and> wk_isDefault b' = wk_isDefault b"

definition follows :: "wdb \<Rightarrow> wdb \<Rightarrow> bool" where
  "follows earlier later \<longleftrightarrow> (\<forall>b\<in>set (wd_businesses earlier). \<exists>b'\<in>set (wd_businesses later). kept_as b b')"

lemma follows_refl [simp]: "follows wd wd"
  by (auto simp: follows_def kept_as_def)

lemma follows_trans:
  assumes "follows a b" and "follows b c"
  shows "follows a c"
  unfolding follows_def
proof
  fix x assume "x \<in> set (wd_businesses a)"
  with assms(1) obtain y where y: "y \<in> set (wd_businesses b)" "kept_as x y" by (auto simp: follows_def)
  with assms(2) obtain z where z: "z \<in> set (wd_businesses c)" "kept_as y z" by (auto simp: follows_def)
  from y(2) z(2) have "kept_as x z" by (simp add: kept_as_def)
  with z(1) show "\<exists>z\<in>set (wd_businesses c). kept_as x z" by blast
qed

lemma filter_map_row_le:
  assumes "\<And>x. key x = k \<Longrightarrow> P (f x) \<Longrightarrow> P x"
  shows "length (filter P (map_row key k f t)) \<le> length (filter P t)"
  by (induction t) (use assms in auto)

lemma follows_map:
  assumes "wd_businesses wd' = map_row wk_id k f (wd_businesses wd)" and "\<And>b. kept_as b (f b)"
  shows "follows wd wd'"
  using assms by (auto simp: follows_def set_map_row kept_as_def)

lemma follows_append: "wd_businesses wd' = wd_businesses wd @ bs \<Longrightarrow> follows wd wd'"
  by (auto simp: follows_def kept_as_def)

lemma workspaces_ok_map:
  assumes ok: "workspaces_ok wd" and bs: "wd_businesses wd' = map_row wk_id k f (wd_businesses wd)"
    and ms: "wd_members wd' = wd_members wd" and f: "\<And>b. kept_as b (f b)"
    and plain: "\<And>b. wk_trialEndsAt (f b) = wk_trialEndsAt b"
    and gone: "\<And>b. b \<in> set (wd_businesses wd) \<Longrightarrow> wk_id b = k \<Longrightarrow> wk_isDefault b \<Longrightarrow> wk_deletedAt (f b) = wk_deletedAt b"
    and del: "\<And>b. wk_deletedAt (f b) = None \<Longrightarrow> wk_deletedAt b = None"
  shows "workspaces_ok wd'"
proof -
  have key: "map wk_id (wd_businesses wd') = map wk_id (wd_businesses wd)"
    unfolding bs by (rule map_row_proj) (use f in \<open>simp add: kept_as_def\<close>)
  have "workspace_ok (wd_members wd') b'" if b': "b' \<in> set (wd_businesses wd')" for b'
  proof -
    from b' obtain b where b: "b \<in> set (wd_businesses wd)" and "b' = (if wk_id b = k then f b else b)"
      by (auto simp: bs set_map_row)
    with ok ms f [of b] plain [of b] gone [of b] show ?thesis
      by (auto simp: workspaces_ok_def workspace_ok_def kept_as_def)
  qed
  moreover have "length (filter (\<lambda>b. wk_ownerId b = u \<and> wk_isDefault b) (wd_businesses wd')) \<le> 1" for u
  proof -
    have "length (filter (\<lambda>b. wk_ownerId b = u \<and> wk_isDefault b) (wd_businesses wd')) \<le>
        length (filter (\<lambda>b. wk_ownerId b = u \<and> wk_isDefault b) (wd_businesses wd))"
      unfolding bs by (rule filter_map_row_le) (use f in \<open>simp add: kept_as_def\<close>)
    also have "\<dots> \<le> 1" using ok by (simp add: workspaces_ok_def)
    finally show ?thesis .
  qed
  moreover have "length (filter (extra_of u) (wd_businesses wd')) \<le> MAX_WORKSPACES_PER_USER" for u
  proof -
    have "length (filter (extra_of u) (wd_businesses wd')) \<le> length (filter (extra_of u) (wd_businesses wd))"
      unfolding bs by (rule filter_map_row_le) (use f del in \<open>simp add: kept_as_def extra_of_def\<close>)
    also have "\<dots> \<le> MAX_WORKSPACES_PER_USER" using ok by (simp add: workspaces_ok_def)
    finally show ?thesis .
  qed
  ultimately show ?thesis using ok key ms by (simp add: workspaces_ok_def keyed_def)
qed

lemma insert_workspace_eq_Inr:
  "insert_workspace b wd = Inr wd' \<longleftrightarrow> wk_id b \<notin> wk_id ` set (wd_businesses wd) \<and>
     (wk_id b, wk_ownerId b) \<notin> member_key ` set (wd_members wd) \<and>
     wd' = wd\<lparr>wd_businesses := wd_businesses wd @ [b],
       wd_members := wd_members wd @ [\<lparr>mr_businessId = wk_id b, mr_userId = wk_ownerId b, mr_role = OWNER,
         mr_joinedAt = wk_createdAt b, mr_status = ACTIVE\<rparr>]\<rparr>"
  by (auto simp: insert_workspace_def member_key_def result_simps)

lemma workspaces_ok_insert:
  assumes ok: "workspaces_ok wd" and ins: "insert_workspace b wd = Inr wd'"
    and shape: "wk_isDefault b \<longleftrightarrow> wk_type b = PERSONAL" "wk_deletedAt b = None"
      "wk_type b = GROUP \<Longrightarrow> wk_trialEndsAt b = None"
    and first: "wk_isDefault b \<Longrightarrow> default_business (wk_ownerId b) wd = None"
    and room: "\<not> wk_isDefault b \<Longrightarrow> length (filter (extra_of (wk_ownerId b)) (wd_businesses wd)) < MAX_WORKSPACES_PER_USER"
  shows "workspaces_ok wd' \<and> follows wd wd'"
proof -
  from ins have fresh: "wk_id b \<notin> wk_id ` set (wd_businesses wd)" "(wk_id b, wk_ownerId b) \<notin> member_key ` set (wd_members wd)"
    and wd': "wd' = wd\<lparr>wd_businesses := wd_businesses wd @ [b], wd_members := wd_members wd @
      [\<lparr>mr_businessId = wk_id b, mr_userId = wk_ownerId b, mr_role = OWNER, mr_joinedAt = wk_createdAt b, mr_status = ACTIVE\<rparr>]\<rparr>"
    by (auto simp: insert_workspace_eq_Inr)
  have none: "filter (\<lambda>x. wk_ownerId x = wk_ownerId b \<and> wk_isDefault x) (wd_businesses wd) = []" if "wk_isDefault b"
    using first [OF that] by (auto simp: default_business_def find_None_iff filter_empty_conv)
  have defaults: "length (filter (\<lambda>x. wk_ownerId x = u \<and> wk_isDefault x) (wd_businesses wd @ [b])) \<le> 1" for u
    using ok none by (cases "u = wk_ownerId b") (auto simp: workspaces_ok_def)
  have extras: "length (filter (extra_of u) (wd_businesses wd @ [b])) \<le> MAX_WORKSPACES_PER_USER" for u
    using ok room by (cases "extra_of u b") (auto simp: workspaces_ok_def extra_of_def)
  have "workspace_ok (wd_members wd') x" if "x \<in> set (wd_businesses wd @ [b])" for x
    using that ok shape by (auto simp: wd' workspaces_ok_def workspace_ok_def member_key_def)
  moreover have "keyed wk_id (wd_businesses wd @ [b])" and "keyed member_key (wd_members wd')"
    using ok fresh by (auto simp: workspaces_ok_def keyed_def wd' member_key_def)
  moreover have "follows wd wd'" by (rule follows_append [of _ _ "[b]"]) (simp add: wd')
  ultimately show ?thesis using defaults extras unfolding workspaces_ok_def by (simp add: wd')
qed

text \<open>Nothing outside the two tables matters to the invariant, and of theirs not the plan.\<close>

definition with_plans :: "(workspace_row \<Rightarrow> id option) \<Rightarrow> workspace_row list \<Rightarrow> workspace_row list" where
  "with_plans p bs = map (\<lambda>b. b\<lparr>wk_planId := p b\<rparr>) bs"

lemma with_same_plans [simp]: "with_plans wk_planId bs = bs"
  by (simp add: with_plans_def map_idI)

lemma with_plan_of_one: "map_row wk_id k (\<lambda>b. b\<lparr>wk_planId := v\<rparr>) bs = with_plans (\<lambda>b. if wk_id b = k then v else wk_planId b) bs"
  by (auto simp: map_row_def with_plans_def)

lemma workspaces_ok_plans:
  assumes "workspaces_ok wd" and bs: "wd_businesses wd' = with_plans p (wd_businesses wd)" and "wd_members wd' = wd_members wd"
  shows "workspaces_ok wd' \<and> follows wd wd'"
proof -
  let ?f = "\<lambda>b :: workspace_row. b\<lparr>wk_planId := p b\<rparr>"
  have "map wk_id (wd_businesses wd') = map wk_id (wd_businesses wd)" by (simp add: bs with_plans_def)
  moreover have "length (filter (\<lambda>b. wk_ownerId b = u \<and> wk_isDefault b) (wd_businesses wd')) =
      length (filter (\<lambda>b. wk_ownerId b = u \<and> wk_isDefault b) (wd_businesses wd))" for u
    by (simp add: bs with_plans_def filter_map comp_def)
  moreover have "extra_of u (?f b) = extra_of u b" for u b by (simp add: extra_of_def)
  then have "length (filter (extra_of u) (wd_businesses wd')) = length (filter (extra_of u) (wd_businesses wd))" for u
    by (simp add: bs with_plans_def filter_map comp_def)
  moreover have "workspace_ok ms (?f b) = workspace_ok ms b" for ms b by (simp add: workspace_ok_def)
  then have "(\<forall>b\<in>set (wd_businesses wd'). workspace_ok ms b) = (\<forall>b\<in>set (wd_businesses wd). workspace_ok ms b)" for ms
    by (simp add: bs with_plans_def)
  moreover have "follows wd wd'" by (auto simp: follows_def kept_as_def bs with_plans_def)
  ultimately show ?thesis using assms(1,3) by (simp add: workspaces_ok_def keyed_def)
qed

lemma workspaces_ok_same:
  assumes "wd_businesses wd' = wd_businesses wd" and "wd_members wd' = wd_members wd"
  shows "workspaces_ok wd' = workspaces_ok wd" and "follows wd wd'" and "default_business u wd' = default_business u wd"
  using assms by (auto simp: workspaces_ok_def follows_def kept_as_def default_business_def)

lemma seed_workspace_same:
  assumes "seed_workspace gen now b ty wd = Inr wd'"
  shows "wd_businesses wd' = wd_businesses wd" and "wd_members wd' = wd_members wd"
  using assms by (auto simp: seed_workspace_def result_simps)

lemma workspaces_ok_seeded:
  assumes "workspaces_ok wd \<and> follows old wd" and "seed_workspace gen now b ty wd = Inr wd'"
  shows "workspaces_ok wd' \<and> follows old wd'"
  using assms workspaces_ok_same [OF seed_workspace_same [OF assms(2)]] follows_trans by blast

section \<open>Each operation keeps it\<close>

lemma create_workspace_ok:
  assumes ok: "workspaces_ok wd" and run: "create_workspace C salt gen now user dto wd = Inr (wd', v)"
  shows "workspaces_ok wd' \<and> follows wd wd'"
proof -
  define pinHash where "pinHash = (if truthy (cbd_pin dto) then map_option (cy_hash C salt) (cbd_pin dto) else None)"
  define b where "b = opened_workspace pinHash gen now (ru_id user) dto wd"
  define seed where "seed = (\<lambda>d'. if cbd_type dto = GROUP then Inr d' else seed_workspace (\<lambda>n. gen (Suc n)) now (gen 0) workspace_type.BUSINESS d')"
  have type: "cbd_type dto = workspace_type.BUSINESS \<or> cbd_type dto = GROUP"
    using run unfolding create_workspace_def rbind_eq_Inr check_eq_Inr by (elim exE conjE)
  have "createWithinCap MAX_WORKSPACES_PER_USER workspace_cap_message
      (\<lambda>d. length (filter (extra_of (ru_id user)) (wd_businesses d))) (\<lambda>d. rbind (insert_workspace b d) seed) wd = Inr wd'"
    using run unfolding create_workspace_def Let_def rbind_eq_Inr [of "check _ _"] rbind_eq_Inr [of "createWithinCap _ _ _ _ _"]
      pinHash_def [symmetric] b_def [symmetric] seed_def [symmetric] sum.inject prod.inject
    by (elim exE conjE) (hypsubst, assumption)
  then have *: "\<not> MAX_WORKSPACES_PER_USER \<le> length (filter (extra_of (ru_id user)) (wd_businesses wd))"
      "rbind (insert_workspace b wd) seed = Inr wd'"
    unfolding createWithinCap_def rbind_eq_Inr [of "check _ _"] check_eq_Inr by auto
  from *(2) obtain wd1 where ins: "insert_workspace b wd = Inr wd1" and seeded: "seed wd1 = Inr wd'"
    by (cases "insert_workspace b wd") simp_all
  from *(1) have room: "length (filter (extra_of (ru_id user)) (wd_businesses wd)) < MAX_WORKSPACES_PER_USER" by simp
  have b: "wk_type b = cbd_type dto" "\<not> wk_isDefault b" "wk_ownerId b = ru_id user" "wk_deletedAt b = None"
    "cbd_type dto = GROUP \<Longrightarrow> wk_trialEndsAt b = None"
    by (simp_all add: b_def opened_workspace_def Let_def)
  have "workspaces_ok wd1 \<and> follows wd wd1"
  proof (rule workspaces_ok_insert [OF ok ins])
    show "wk_isDefault b \<longleftrightarrow> wk_type b = PERSONAL" using type b(1,2) by (elim disjE) simp_all
    show "wk_deletedAt b = None" by (rule b(4))
    show "wk_trialEndsAt b = None" if "wk_type b = GROUP" using that b(1) by (intro b(5)) simp
    show "default_business (wk_ownerId b) wd = None" if "wk_isDefault b" using that b(2) by simp
    show "length (filter (extra_of (wk_ownerId b)) (wd_businesses wd)) < MAX_WORKSPACES_PER_USER"
      using room b(3) by simp
  qed
  then show ?thesis
  proof (cases "cbd_type dto = GROUP")
    case True
    with seeded \<open>workspaces_ok wd1 \<and> follows wd wd1\<close> show ?thesis by (simp add: seed_def)
  next
    case False
    with seeded show ?thesis
      by (intro workspaces_ok_seeded [OF \<open>workspaces_ok wd1 \<and> follows wd wd1\<close>]) (simp add: seed_def)
  qed
qed

lemma update_workspace_ok:
  assumes ok: "workspaces_ok wd" and run: "update_workspace C salt now i m user dto wd = Inr (wd', v)"
  shows "workspaces_ok wd' \<and> follows wd wd'"
proof -
  define f where "f = edited_workspace dto (map_option (map_option (cy_hash C salt)) (ubd_pin dto))"
  from run have bs: "wd_businesses wd' = map_row wk_id i f (wd_businesses wd)" and ms: "wd_members wd' = wd_members wd"
    by (auto simp: update_workspace_def Let_def result_simps f_def)
  have f: "kept_as b (f b)" "wk_trialEndsAt (f b) = wk_trialEndsAt b" "wk_deletedAt (f b) = wk_deletedAt b" for b
    by (simp_all add: f_def edited_workspace_def kept_as_def)
  show ?thesis
    using workspaces_ok_map [OF ok bs ms f(1) f(2)] follows_map [OF bs f(1)] f(3) by simp
qed

lemma resetPin_ok:
  assumes ok: "workspaces_ok wd" and run: "resetPin C ps i m pw wd = Inr wd'"
  shows "workspaces_ok wd' \<and> follows wd wd'"
proof -
  define f where "f = (\<lambda>b :: workspace_row. b\<lparr>wk_pinHash := None\<rparr>)"
  from run have bs: "wd_businesses wd' = map_row wk_id i f (wd_businesses wd)" and ms: "wd_members wd' = wd_members wd"
    by (auto simp: resetPin_def result_simps f_def)
  have f: "kept_as b (f b)" "wk_trialEndsAt (f b) = wk_trialEndsAt b" "wk_deletedAt (f b) = wk_deletedAt b" for b
    by (simp_all add: f_def kept_as_def)
  show ?thesis
    using workspaces_ok_map [OF ok bs ms f(1) f(2)] follows_map [OF bs f(1)] f(3) by simp
qed

lemma remove_workspace_ok:
  assumes ok: "workspaces_ok wd" "follows seen wd" and run: "remove_workspace now i m seen wd = Inr wd'"
  shows "workspaces_ok wd' \<and> follows wd wd'"
proof -
  define f where "f = (\<lambda>b :: workspace_row. b\<lparr>wk_deletedAt := Some now\<rparr>)"
  from run obtain b where b: "find_row wk_id i (wd_businesses seen) = Some b" "\<not> wk_isDefault b"
    and bs: "wd_businesses wd' = map_row wk_id i f (wd_businesses wd)" and ms: "wd_members wd' = wd_members wd"
    by (auto simp: remove_workspace_def requireBusiness_def result_simps f_def split: option.splits if_splits)
  have f: "kept_as x (f x)" "wk_trialEndsAt (f x) = wk_trialEndsAt x" "wk_deletedAt (f x) \<noteq> None" for x
    by (simp_all add: f_def kept_as_def)
  from find_row_Some [OF b(1)] ok(2) obtain b' where b': "b' \<in> set (wd_businesses wd)" "kept_as b b'" "wk_id b = i"
    by (auto simp: follows_def)
  have "\<not> wk_isDefault x" if "x \<in> set (wd_businesses wd)" and "wk_id x = i" for x
  proof -
    have k: "keyed wk_id (wd_businesses wd)" using ok(1) by (simp add: workspaces_ok_def)
    have "x = b'" using find_row_mem [OF k that(1)] find_row_mem [OF k b'(1)] that(2) b'(2,3) by (simp add: kept_as_def)
    then show ?thesis using b'(2) b(2) by (simp add: kept_as_def)
  qed
  then show ?thesis
    using workspaces_ok_map [OF ok(1) bs ms f(1) f(2)] follows_map [OF bs f(1)] f(3) by blast
qed

lemma ensureDefaultWorkspace_ok:
  assumes ok: "workspaces_ok wd" and run: "ensureDefaultWorkspace gen drawn now u code seen wd = Inr (wd', i)"
  shows "workspaces_ok wd' \<and> follows wd wd'"
proof (cases "default_business u seen = None \<and> default_business u wd = None")
  case False
  with run have "wd' = wd" by (auto simp: ensureDefaultWorkspace_def Let_def split: option.splits)
  with ok show ?thesis by simp
next
  case True
  define b where "b = personal_workspace gen now u (find_row pl_slug ''free'' (wd_plans seen))"
  from True run obtain rd wd1 where ins: "insert_workspace b (wd\<lparr>wd_rd := rd\<rparr>) = Inr wd1"
    and seeded: "seed_workspace (\<lambda>n. gen (n + 2)) now (gen 0) PERSONAL wd1 = Inr wd'"
    unfolding ensureDefaultWorkspace_def Let_def b_def by (auto simp: rbind_eq_Inr)
  have "workspaces_ok (wd\<lparr>wd_rd := rd\<rparr>)" "default_business u (wd\<lparr>wd_rd := rd\<rparr>) = None" "follows wd (wd\<lparr>wd_rd := rd\<rparr>)"
    using ok True workspaces_ok_same [of "wd\<lparr>wd_rd := rd\<rparr>" wd] by auto
  then have "workspaces_ok wd1 \<and> follows (wd\<lparr>wd_rd := rd\<rparr>) wd1"
    by (intro workspaces_ok_insert [OF _ ins]) (auto simp: b_def personal_workspace_def)
  then have "workspaces_ok wd1 \<and> follows wd wd1" by (simp add: follows_def)
  from workspaces_ok_seeded [OF this seeded] show ?thesis .
qed

section \<open>Every run\<close>

text \<open>
  The states a run went through, the last first. A request that reads outside its transaction may
  have read any of them (\<open>seen\<close>). No other service writes the memberships; of a workspace the others write no column
  of the invariant: an administrator gives it another plan (admin-owners.service.ts), and it has none once its plan is
  deleted. The step \<open>elsewhere\<close> lets them choose the plans as they like, and do anything to every other table.
\<close>

inductive workspaces_run :: "'tok crypto \<Rightarrow> wdb list \<Rightarrow> bool" for C :: "'tok crypto" where
  start: "wd_businesses wd = [] \<Longrightarrow> wd_members wd = [] \<Longrightarrow> workspaces_run C [wd]"
| created: "workspaces_run C (wd # past) \<Longrightarrow> create_workspace C salt gen now user dto wd = Inr (wd', v) \<Longrightarrow> workspaces_run C (wd' # wd # past)"
| updated: "workspaces_run C (wd # past) \<Longrightarrow> update_workspace C salt now i m user dto' wd = Inr (wd', v) \<Longrightarrow> workspaces_run C (wd' # wd # past)"
| removed: "workspaces_run C (wd # past) \<Longrightarrow> seen \<in> set (wd # past) \<Longrightarrow> remove_workspace now i m seen wd = Inr wd' \<Longrightarrow>
    workspaces_run C (wd' # wd # past)"
| pin_reset: "workspaces_run C (wd # past) \<Longrightarrow> resetPin C passwords i m password wd = Inr wd' \<Longrightarrow> workspaces_run C (wd' # wd # past)"
| provisioned: "workspaces_run C (wd # past) \<Longrightarrow> seen \<in> set (wd # past) \<Longrightarrow>
    ensureDefaultWorkspace gen drawn now u code seen wd = Inr (wd', i) \<Longrightarrow> workspaces_run C (wd' # wd # past)"
| elsewhere: "workspaces_run C (wd # past) \<Longrightarrow> wd_businesses wd' = with_plans p (wd_businesses wd) \<Longrightarrow> wd_members wd' = wd_members wd \<Longrightarrow>
    workspaces_run C (wd' # wd # past)"

definition run_ok :: "wdb list \<Rightarrow> bool" where
  "run_ok h \<longleftrightarrow> (case h of [] \<Rightarrow> True | wd # past \<Rightarrow> workspaces_ok wd \<and> (\<forall>seen\<in>set h. follows seen wd))"

lemma run_ok_step:
  assumes "run_ok (wd # past)" and "workspaces_ok wd' \<and> follows wd wd'"
  shows "run_ok (wd' # wd # past)"
  using assms follows_trans by (auto simp: run_ok_def)

lemma workspaces_run_ok:
  assumes "workspaces_run C h"
  shows "run_ok h"
  using assms
proof induction
  case (start wd)
  then show ?case by (simp add: run_ok_def workspaces_ok_def)
next
  case (created wd past salt gen now user dto wd' v)
  then show ?case by (intro run_ok_step create_workspace_ok) (auto simp: run_ok_def)
next
  case (updated wd past salt now i m user dto' wd' v)
  then show ?case by (intro run_ok_step update_workspace_ok) (auto simp: run_ok_def)
next
  case (removed wd past seen now i m wd')
  then show ?case by (intro run_ok_step remove_workspace_ok) (auto simp: run_ok_def)
next
  case (pin_reset wd past passwords i m password wd')
  then show ?case by (intro run_ok_step resetPin_ok) (auto simp: run_ok_def)
next
  case (provisioned wd past seen gen drawn now u code wd' i)
  then show ?case by (intro run_ok_step ensureDefaultWorkspace_ok) (auto simp: run_ok_def)
next
  case (elsewhere wd past wd' p)
  then show ?case by (intro run_ok_step workspaces_ok_plans) (auto simp: run_ok_def)
qed

text \<open>
  C22: in every run of the services, with requests that read an older state included, and whatever plans administrators
  give the workspaces in between: every workspace has its owner as an active owner among its members; a user has at most
  one default workspace, which is their personal one and is never deleted; at most 50 others not deleted; a group has no
  trial; and no workspace of an earlier state has gone.
\<close>

theorem workspaces_run_sound:
  assumes "workspaces_run C (wd # past)"
  shows "workspaces_ok wd \<and> (\<forall>seen\<in>set past. follows seen wd)"
  using workspaces_run_ok [OF assms] by (auto simp: run_ok_def)

section \<open>Who may open a workspace\<close>

lemma membership_guard_Inr:
  "membership_guard C now allowLocked i (Some u) header wd = Inr bm \<longleftrightarrow>
     i \<noteq> [] \<and> ru_id u \<noteq> [] \<and>
     (\<exists>m b. find_row member_key (i, ru_id u) (wd_members wd) = Some m \<and> find_row wk_id i (wd_businesses wd) = Some b \<and>
        mr_status m = ACTIVE \<and> wk_deletedAt b = None \<and>
        (truthy (wk_pinHash b) \<longrightarrow> truthy (ru_impersonatedBy u) \<or> allowLocked \<or>
           unlock_opens C now header (ru_id u) (ru_sessionId u) i (the (wk_pinHash b))) \<and>
        bm = \<lparr>bm_businessId = i, bm_userId = ru_id u, bm_role = mr_role m\<rparr>)"
proof -
  have "mr_businessId m = i \<and> mr_userId m = ru_id u" if "find_row member_key (i, ru_id u) (wd_members wd) = Some m" for m
    using find_row_Some [OF that] by (simp add: member_key_def)
  then show ?thesis
    unfolding membership_guard_def
    by (auto simp: rbind_eq_Inr check_eq_Inr truthy_def split: option.splits)
qed

section \<open>Locks\<close>

lemma update_workspace_row:
  assumes "update_workspace C salt now i m user dto wd = Inr (wd', v)" and "ubd_pin dto = Some (Some pin)"
  shows "bm_role m = OWNER" and "wv_unlock v = Some (issue_unlock C now (ru_id user) (ru_sessionId user) i (cy_hash C salt pin))"
    and "wd_members wd' = wd_members wd"
    and "find_row wk_id i (wd_businesses wd') = Some b \<Longrightarrow> wk_pinHash b = Some (cy_hash C salt pin)"
proof -
  let ?f = "edited_workspace dto (Some (Some (cy_hash C salt pin)))"
  have key: "wk_id (?f x) = wk_id x" for x by (simp add: edited_workspace_def)
  from assms have role: "bm_role m = OWNER" and bs: "wd_businesses wd' = map_row wk_id i ?f (wd_businesses wd)"
    and ms: "wd_members wd' = wd_members wd"
    and v: "wv_unlock v = Some (issue_unlock C now (ru_id user) (ru_sessionId user) i (cy_hash C salt pin))"
    by (auto simp: update_workspace_def Let_def requireOwner_def workspace_view_of_def orelse_def result_simps)
  show "bm_role m = OWNER" and "wd_members wd' = wd_members wd" by (fact role, fact ms)
  show "wv_unlock v = Some (issue_unlock C now (ru_id user) (ru_sessionId user) i (cy_hash C salt pin))" by (fact v)
  show "wk_pinHash b = Some (cy_hash C salt pin)" if b: "find_row wk_id i (wd_businesses wd') = Some b"
  proof -
    from b obtain b0 where "b = ?f b0"
      unfolding bs find_row_map_row [where f = ?f and key = wk_id, OF key] by auto
    then show ?thesis by (simp add: edited_workspace_def orelse_def)
  qed
qed

text \<open>
  C23: a new PIN locks the workspace anew: an unlock issued against a PIN of another version opens it no more, for
  anyone but a support view; the one the answer carries opens it for the session that set the PIN, for its lifetime.
\<close>

theorem new_pin_ends_old_unlocks:
  assumes "jwt_sound C" and "update_workspace C salt now i m user dto wd = Inr (wd', v)" and "ubd_pin dto = Some (Some pin)"
    and "cy_hash C salt pin \<noteq> []" and "pinVersion C (cy_hash C salt pin) \<noteq> pinVersion C old"
    and "\<not> truthy (ru_impersonatedBy other)"
  shows "(\<exists>e. membership_guard C later False i (Some other) (Some (wu_unlockToken (issue_unlock C before a s j old))) wd' = Inl e) \<and>
    (\<exists>unlock. wv_unlock v = Some unlock \<and>
      (membership_guard C later False i (Some user) (Some (wu_unlockToken unlock)) wd' =
        (if later div 1000 < now div 1000 + WORKSPACE_UNLOCK_TTL_SECONDS \<or> truthy (ru_impersonatedBy user)
         then membership_guard C later True i (Some user) None wd'
         else if \<exists>bm. membership_guard C later True i (Some user) None wd' = Inr bm then Inl (Locked i)
         else membership_guard C later True i (Some user) None wd')))"
proof
  note row = update_workspace_row [OF assms(2,3)]
  have hash: "truthy (Some (cy_hash C salt pin))" using assms(4) by (simp add: truthy_def)
  show "\<exists>e. membership_guard C later False i (Some other) (Some (wu_unlockToken (issue_unlock C before a s j old))) wd' = Inl e"
  proof (cases "membership_guard C later False i (Some other) (Some (wu_unlockToken (issue_unlock C before a s j old))) wd'")
    case (Inr bm)
    then obtain b where b: "find_row wk_id i (wd_businesses wd') = Some b"
      and opens: "truthy (wk_pinHash b) \<longrightarrow> unlock_opens C later (Some (wu_unlockToken (issue_unlock C before a s j old)))
        (ru_id other) (ru_sessionId other) i (the (wk_pinHash b))"
      using assms(6) unfolding membership_guard_Inr by blast
    from opens hash row(4) [OF b] assms(5) have False
      unfolding issued_unlock_opens [OF assms(1)] by auto
    then show ?thesis ..
  qed simp
next
  note row = update_workspace_row [OF assms(2,3)]
  let ?u = "issue_unlock C now (ru_id user) (ru_sessionId user) i (cy_hash C salt pin)"
  have opens: "unlock_opens C later (Some (wu_unlockToken ?u)) (ru_id user) (ru_sessionId user) i (cy_hash C salt pin) \<longleftrightarrow>
      later div 1000 < now div 1000 + WORKSPACE_UNLOCK_TTL_SECONDS"
    by (simp add: issued_unlock_opens [OF assms(1)])
  have "membership_guard C later False i (Some user) (Some (wu_unlockToken ?u)) wd' =
        (if later div 1000 < now div 1000 + WORKSPACE_UNLOCK_TTL_SECONDS \<or> truthy (ru_impersonatedBy user)
         then membership_guard C later True i (Some user) None wd'
         else if \<exists>bm. membership_guard C later True i (Some user) None wd' = Inr bm then Inl (Locked i)
         else membership_guard C later True i (Some user) None wd')"
  proof (cases "find_row wk_id i (wd_businesses wd')")
    case None
    then show ?thesis by (auto simp: membership_guard_def rbind_def check_def split: option.splits)
  next
    case (Some b)
    with row(4) [OF Some] opens assms(4) show ?thesis
      by (auto simp: membership_guard_def rbind_def check_def split: option.splits)
  qed
  with row(2) show "\<exists>unlock. wv_unlock v = Some unlock \<and>
      (membership_guard C later False i (Some user) (Some (wu_unlockToken unlock)) wd' =
        (if later div 1000 < now div 1000 + WORKSPACE_UNLOCK_TTL_SECONDS \<or> truthy (ru_impersonatedBy user)
         then membership_guard C later True i (Some user) None wd'
         else if \<exists>bm. membership_guard C later True i (Some user) None wd' = Inr bm then Inl (Locked i)
         else membership_guard C later True i (Some user) None wd'))"
    by blast
qed

section \<open>Deleting\<close>

text \<open>
  Once a workspace is deleted no route of it answers anyone, whatever they carry, and its transactions are still there.
\<close>

theorem removed_workspace_is_closed:
  assumes "remove_workspace now i m seen there = Inr wd'"
  shows "(\<exists>e. membership_guard C later allowLocked i user header wd' = Inl e) \<and> wd_rd wd' = wd_rd there \<and> bm_role m = OWNER"
proof -
  let ?f = "\<lambda>b :: workspace_row. b\<lparr>wk_deletedAt := Some now\<rparr>"
  from assms have bs: "wd_businesses wd' = map_row wk_id i ?f (wd_businesses there)" and same: "wd_rd wd' = wd_rd there" "bm_role m = OWNER"
    by (auto simp: remove_workspace_def requireOwner_def result_simps)
  have "wk_deletedAt b \<noteq> None" if "find_row wk_id i (wd_businesses wd') = Some b" for b
  proof -
    from that obtain b0 where "b = ?f b0"
      unfolding bs by (subst (asm) find_row_map_row) auto
    then show ?thesis by simp
  qed
  then have "membership_guard C later allowLocked i user header wd' \<noteq> Inr bm" for bm
    by (cases user) (auto simp: membership_guard_Inr simp: membership_guard_def [of _ _ _ _ None])
  then have "\<exists>e. membership_guard C later allowLocked i user header wd' = Inl e" by (meson sumE)
  with same show ?thesis by blast
qed

section \<open>First requests crossing\<close>

lemma default_unique:
  assumes "workspaces_ok wd" and "b \<in> set (wd_businesses wd)" and "wk_isDefault b" and "wk_ownerId b = u"
  shows "default_business u wd = Some b"
proof -
  let ?P = "\<lambda>b. wk_ownerId b = u \<and> wk_isDefault b"
  have le: "length (filter ?P (wd_businesses wd)) \<le> 1" using assms(1) by (simp add: workspaces_ok_def)
  have b: "b \<in> set (filter ?P (wd_businesses wd))" using assms(2-4) by simp
  from assms(2-4) obtain c where c: "default_business u wd = Some c"
    by (cases "default_business u wd") (auto simp: default_business_def find_None_iff)
  then have "c \<in> set (filter ?P (wd_businesses wd))" by (auto simp: default_business_def find_Some_iff)
  with b le have "c = b" by (cases "filter ?P (wd_businesses wd)") (auto simp del: filter_eq_Cons_iff)
  with c show ?thesis by simp
qed

lemma default_follows:
  assumes "workspaces_ok wd" and "follows seen wd" and "default_business u seen = Some b"
  shows "\<exists>b'. default_business u wd = Some b' \<and> wk_id b' = wk_id b"
proof -
  from assms(3) have "b \<in> set (wd_businesses seen)" "wk_ownerId b = u" "wk_isDefault b"
    by (auto simp: default_business_def find_Some_iff)
  with assms(2) obtain b' where "b' \<in> set (wd_businesses wd)" "kept_as b b'" by (auto simp: follows_def)
  with \<open>wk_ownerId b = u\<close> \<open>wk_isDefault b\<close> default_unique [OF assms(1), of b' u] show ?thesis by (auto simp: kept_as_def)
qed

lemma ensured_default:
  assumes "workspaces_ok wd" and "follows seen wd" and "ensureDefaultWorkspace gen drawn now u code seen wd = Inr (wd', i)"
  shows "\<exists>b. default_business u wd' = Some b \<and> wk_id b = i"
proof (cases "default_business u seen")
  case (Some b)
  with assms(3) have "wd' = wd" "i = wk_id b" by (auto simp: ensureDefaultWorkspace_def)
  with default_follows [OF assms(1,2) Some] show ?thesis by simp
next
  case seen: None
  show ?thesis
  proof (cases "default_business u wd")
    case (Some b)
    with seen assms(3) show ?thesis by (auto simp: ensureDefaultWorkspace_def Let_def)
  next
    case None
    define b where "b = personal_workspace gen now u (find_row pl_slug ''free'' (wd_plans seen))"
    from None seen assms(3) obtain rd wd1 where ins: "insert_workspace b (wd\<lparr>wd_rd := rd\<rparr>) = Inr wd1"
      and seeded: "seed_workspace (\<lambda>n. gen (n + 2)) now (gen 0) PERSONAL wd1 = Inr wd'" and i: "i = gen 0"
      unfolding ensureDefaultWorkspace_def Let_def b_def by (auto simp: rbind_eq_Inr)
    from ins have "b \<in> set (wd_businesses wd1)" by (auto simp: insert_workspace_eq_Inr)
    then have "b \<in> set (wd_businesses wd')" using seed_workspace_same [OF seeded] by simp
    moreover have "workspaces_ok wd'" using ensureDefaultWorkspace_ok [OF assms(1,3)] by simp
    moreover have "wk_isDefault b" "wk_ownerId b = u" "wk_id b = i" by (simp_all add: b_def personal_workspace_def i)
    ultimately show ?thesis using default_unique by blast
  qed
qed

text \<open>
  C24: an account is completed once: after a request that gave a user their default workspace, any other first request of
  that user -- even one that looked before it existed -- answers the same workspace and writes nothing.
\<close>

theorem completed_once:
  assumes "workspaces_run C (wd # past)" and "seen \<in> set (wd # past)"
    and "ensureDefaultWorkspace gen drawn now u code seen wd = Inr (wd', i)"
    and "workspaces_run C' (there # past')" and "wd' \<in> set (there # past')" and "seen' \<in> set (there # past')"
  shows "ensureDefaultWorkspace gen' drawn' now' u code' seen' there = Inr (there, i)"
proof -
  from workspaces_run_ok [OF assms(1)] assms(2) have ok: "workspaces_ok wd" "follows seen wd" by (auto simp: run_ok_def)
  from workspaces_run_ok [OF assms(4)] assms(5,6) have ok': "workspaces_ok there" "follows wd' there" "follows seen' there"
    by (auto simp: run_ok_def)
  from ensured_default [OF ok assms(3)] default_follows [OF ok'(1,2)]
  obtain b where b: "default_business u there = Some b" "wk_id b = i" by fastforce
  show ?thesis
  proof (cases "default_business u seen'")
    case None
    with b show ?thesis by (simp add: ensureDefaultWorkspace_def Let_def)
  next
    case (Some b')
    with default_follows [OF ok'(1,3) Some] b show ?thesis by (auto simp: ensureDefaultWorkspace_def)
  qed
qed

section \<open>A day of one user\<close>

definition sample_gen :: "char \<Rightarrow> nat \<Rightarrow> string" where
  "sample_gen c n = c # replicate n (CHR ''i'')"

definition sample_user :: request_user where
  "sample_user = \<lparr>ru_id = ''u'', ru_email = ''u@x'', ru_sessionId = ''s'', ru_impersonatedBy = None\<rparr>"

definition sample_start :: wdb where
  "sample_start = \<lparr>wd_rd = \<lparr>rd_books = empty_db, rd_users = [\<lparr>us_id = ''u'', us_name = ''U'', us_referralCode = None, us_createdAt = 0\<rparr>],
     rd_referrals = [], rd_reward = 0\<rparr>, wd_businesses = [], wd_members = [], wd_plans = [], wd_templates = []\<rparr>"

definition sample_home :: wdb where
  "sample_home = (case ensureDefaultWorkspace (sample_gen CHR ''w'') [''AB''] 1 ''u'' None sample_start sample_start of
     Inr (wd, i) \<Rightarrow> wd | Inl e \<Rightarrow> sample_start)"

lemma sample_home: "ensureDefaultWorkspace (sample_gen CHR ''w'') [''AB''] 1 ''u'' None sample_start sample_start = Inr (sample_home, ''w'')"
  by code_simp

definition sample_shop_dto :: create_business_dto where
  "sample_shop_dto = \<lparr>cbd_name = ''Shop'', cbd_type = workspace_type.BUSINESS, cbd_currency = None, cbd_phone = None, cbd_email = None,
     cbd_pin = Some ''1234''\<rparr>"

definition sample_pin_dto :: update_business_dto where
  "sample_pin_dto = \<lparr>ubd_name = None, ubd_currency = None, ubd_phone = None, ubd_email = None, ubd_pin = Some (Some ''9999'')\<rparr>"

definition sample_owner :: business_member where
  "sample_owner = \<lparr>bm_businessId = ''s'', bm_userId = ''u'', bm_role = OWNER\<rparr>"

definition sample_shop :: wdb where
  "sample_shop = (case create_workspace plain_crypto [] (sample_gen CHR ''s'') 2 sample_user sample_shop_dto sample_home of
     Inr (wd, v) \<Rightarrow> wd | Inl e \<Rightarrow> sample_home)"

definition relocked :: "wdb \<times> (jwt_secret \<times> jwt_audience \<times> instant \<times> payload) workspace_view" where
  "relocked = (case update_workspace plain_crypto [] 3 ''s'' sample_owner sample_user sample_pin_dto sample_shop of
     Inr x \<Rightarrow> x | Inl e \<Rightarrow> (sample_shop, workspace_view_of None None None (hd (wd_businesses sample_shop))))"

lemma relocked: "update_workspace plain_crypto [] 3 ''s'' sample_owner sample_user sample_pin_dto sample_shop = Inr (fst relocked, snd relocked)"
proof -
  have "case update_workspace plain_crypto [] 3 ''s'' sample_owner sample_user sample_pin_dto sample_shop of Inl e \<Rightarrow> False | Inr x \<Rightarrow> True"
    by code_simp
  then show ?thesis by (auto simp: relocked_def split: sum.splits)
qed

definition old_unlock :: "jwt_secret \<times> jwt_audience \<times> instant \<times> payload" where
  "old_unlock = wu_unlockToken (issue_unlock plain_crypto 2 ''u'' ''s'' ''s'' ''1234'')"

theorem new_pin_ends_old_unlocks_witness:
  "membership_guard plain_crypto 4 False ''s'' (Some sample_user) (Some old_unlock) sample_shop =
     Inr \<lparr>bm_businessId = ''s'', bm_userId = ''u'', bm_role = OWNER\<rparr> \<and>
   (\<exists>e. membership_guard plain_crypto 4 False ''s'' (Some sample_user) (Some old_unlock) (fst relocked) = Inl e)"
proof
  show "membership_guard plain_crypto 4 False ''s'' (Some sample_user) (Some old_unlock) sample_shop =
     Inr \<lparr>bm_businessId = ''s'', bm_userId = ''u'', bm_role = OWNER\<rparr>"
    by code_simp
  have "cy_hash plain_crypto [] ''9999'' \<noteq> []" "pinVersion plain_crypto (cy_hash plain_crypto [] ''9999'') \<noteq> pinVersion plain_crypto ''1234''"
    by (simp_all add: plain_crypto_def pinVersion_def)
  from new_pin_ends_old_unlocks [OF plain_crypto_sound(1) relocked _ this, of sample_user 4 2 "''u''" "''s''" "''s''"]
  show "\<exists>e. membership_guard plain_crypto 4 False ''s'' (Some sample_user) (Some old_unlock) (fst relocked) = Inl e"
    by (simp add: sample_pin_dto_def sample_user_def old_unlock_def truthy_def)
qed

lemma sample_shop: "\<exists>v. create_workspace plain_crypto [] (sample_gen CHR ''s'') 2 sample_user sample_shop_dto sample_home = Inr (sample_shop, v)"
proof -
  have "case create_workspace plain_crypto [] (sample_gen CHR ''s'') 2 sample_user sample_shop_dto sample_home of Inl e \<Rightarrow> False | Inr x \<Rightarrow> True"
    by code_simp
  then show ?thesis by (auto simp: sample_shop_def split: sum.splits)
qed

text \<open>The plans of the two are changed at the end.\<close>

definition sample_upgraded :: wdb where
  "sample_upgraded = sample_shop\<lparr>wd_businesses := with_plans (\<lambda>b. Some ''pro'') (wd_businesses sample_shop)\<rparr>"

lemma sample_run: "workspaces_run plain_crypto [sample_shop, sample_home, sample_start]"
proof -
  have "workspaces_run plain_crypto [sample_start]" by (rule start) (simp_all add: sample_start_def)
  from provisioned [OF this _ sample_home] have home: "workspaces_run plain_crypto [sample_home, sample_start]" by simp
  from sample_shop obtain v where "create_workspace plain_crypto [] (sample_gen CHR ''s'') 2 sample_user sample_shop_dto sample_home = Inr (sample_shop, v)" ..
  from created [OF home this] show ?thesis .
qed

lemma sample_upgraded_run: "workspaces_run plain_crypto [sample_upgraded, sample_shop, sample_home, sample_start]"
  by (rule elsewhere [OF sample_run]) (simp_all add: sample_upgraded_def)

theorem workspaces_run_sound_witness:
  "workspaces_ok sample_upgraded \<and> follows sample_shop sample_upgraded \<and> map wk_planId (wd_businesses sample_upgraded) = [Some ''pro'', Some ''pro'']"
proof -
  have "map wk_planId (wd_businesses sample_upgraded) = [Some ''pro'', Some ''pro'']" by code_simp
  with workspaces_run_sound [OF sample_upgraded_run] show ?thesis by simp
qed

theorem removed_workspace_is_closed_witness:
  "\<exists>wd e. remove_workspace 5 ''s'' sample_owner sample_shop sample_shop = Inr wd \<and>
     membership_guard plain_crypto 6 True ''s'' (Some sample_user) (Some old_unlock) wd = Inl e"
proof -
  have "case remove_workspace 5 ''s'' sample_owner sample_shop sample_shop of Inl e \<Rightarrow> False | Inr x \<Rightarrow> True" by code_simp
  then obtain wd where wd: "remove_workspace 5 ''s'' sample_owner sample_shop sample_shop = Inr wd" by (auto split: sum.splits)
  from removed_workspace_is_closed [OF wd, of plain_crypto 6 True "Some sample_user" "Some old_unlock"] wd show ?thesis by blast
qed

theorem completed_once_witness:
  "ensureDefaultWorkspace (sample_gen CHR ''x'') [''CD''] 7 ''u'' None sample_start sample_shop = Inr (sample_shop, ''w'')"
proof -
  have start: "workspaces_run plain_crypto [sample_start]" by (rule start) (simp_all add: sample_start_def)
  show ?thesis by (rule completed_once [OF start _ sample_home sample_run]) simp_all
qed

text \<open>
  Deleting counts the transactions before it marks the workspace, and outside a transaction: one posted in between is hidden
  with it.
\<close>

lemma crossing_posting_is_hidden:
  assumes "remove_workspace now i m seen seen = Inr wd0" and "wd_businesses there = wd_businesses seen"
    and "t \<in> set (txns (rd_books (wd_rd there)))" and "tx_businessId t = i"
  shows "\<exists>wd'. remove_workspace now i m seen there = Inr wd' \<and> t \<in> set (txns (rd_books (wd_rd wd'))) \<and>
    (\<exists>b. find_row wk_id i (wd_businesses wd') = Some b \<and> wk_deletedAt b = Some now)"
proof -
  let ?f = "\<lambda>b :: workspace_row. b\<lparr>wk_deletedAt := Some now\<rparr>"
  from assms(1,2) have run: "remove_workspace now i m seen there = Inr (there\<lparr>wd_businesses := map_row wk_id i ?f (wd_businesses there)\<rparr>)"
    and mem: "i \<in> wk_id ` set (wd_businesses there)"
    by (auto simp: remove_workspace_def result_simps)
  from mem obtain b where "find_row wk_id i (wd_businesses there) = Some b" using find_row_None [of wk_id i] by fastforce
  then have "find_row wk_id i (map_row wk_id i ?f (wd_businesses there)) = Some (?f b)" by (subst find_row_map_row) simp_all
  with run assms(3) show ?thesis by auto
qed

end
