(* ===== verification/Session_Facts.thy ===== *)
theory Session_Facts
  imports Sign_In Workspace_Facts
begin

text \<open>
  What signing in and out promises: an ended session opens nothing, the two sides never cross, a refused
  sign-in says nothing about the account, a reset link works once, and a support view only reads.
\<close>

section \<open>The laws of the session library\<close>

lemma better_auth_laws:
  assumes "better_auth_ok C B"
  shows "ba_deleteSession B tok ss = filter (\<lambda>s. se_token s \<noteq> tok) ss"
    and "ba_deleteUserSessions B u ss = filter (\<lambda>s. se_userId s \<noteq> u) ss"
    and "ba_createSession B u cl t d = Some (ss', s) \<Longrightarrow> fresh_session u d ss' s"
  using assms by (simp_all add: better_auth_ok_def)

lemma sign_in_opens:
  assumes "better_auth_ok C B" and "ba_signInEmail B email pw cl t d = (Opened tok u, ss)"
  shows "\<exists>a s. password_fits C email pw d a \<and> lu_id a = u \<and> se_token s = tok \<and> fresh_session u d ss s"
proof -
  from assms(1) have "\<forall>email pw cl t d tok u ss. ba_signInEmail B email pw cl t d = (Opened tok u, ss) \<longrightarrow>
        (\<exists>a s. password_fits C email pw d a \<and> lu_id a = u \<and> se_token s = tok \<and> fresh_session u d ss s)"
    unfolding better_auth_ok_def by (elim conjE)
  from this [rule_format, OF assms(2)] show ?thesis .
qed

lemma sign_in_refuses:
  assumes "better_auth_ok C B" and "email \<in> lu_email ` set (sd_users d)" and "\<And>a. \<not> password_fits C email pw d a"
  shows "\<exists>m. ba_signInEmail B email pw cl t d = (Api_Error 401 m, sd_sessions d)"
proof -
  from assms(1) have "\<forall>email pw cl t d. email \<in> lu_email ` set (sd_users d) \<and> (\<forall>a. \<not> password_fits C email pw d a) \<longrightarrow>
        (\<exists>m. ba_signInEmail B email pw cl t d = (Api_Error 401 m, sd_sessions d))"
    unfolding better_auth_ok_def by (elim conjE)
  with assms(2,3) show ?thesis by blast
qed

section \<open>Whom the guards let through\<close>

definition carrying :: "string \<Rightarrow> 'tok \<Rightarrow> 'tok option \<Rightarrow> 'tok http_request" where
  "carrying m token unlock = \<lparr>hr_method = m, hr_bearer = Some (Some token), hr_cookie = None, hr_unlock = unlock\<rparr>"

lemma authenticate_Inr:
  "authenticate C aud now rq d = Inr s \<longleftrightarrow>
     (\<exists>token c r a. extractAccessToken rq = Some token \<and> verifyAccess C now aud token = Inr c \<and>
        findActive now (sc_sid c) d = Some (r, a) \<and> se_userId r = sc_sub c \<and>
        s = \<lparr>au_user = a, au_sessionId = se_id r, au_impersonatedBy = se_impersonatedBy r\<rparr>)"
proof (cases "extractAccessToken rq")
  case None
  then show ?thesis by (simp add: authenticate_def)
next
  case (Some token)
  show ?thesis
  proof (cases "verifyAccess C now aud token")
    case (Inl e)
    with Some show ?thesis by (simp add: authenticate_def)
  next
    case (Inr c)
    with Some show ?thesis
      by (cases "findActive now (sc_sid c) d") (auto simp: authenticate_def rbind_eq_Inr check_eq_Inr)
  qed
qed

lemma user_auth_guard_Inr:
  "user_auth_guard C now rq d = Inr u \<longleftrightarrow>
     (\<exists>s. authenticate C User_Side now rq d = Inr s \<and> lu_role (au_user s) = USER \<and> lu_status (au_user s) = user_status.ACTIVE \<and>
        (truthy (au_impersonatedBy s) \<longrightarrow> hr_method rq \<in> set READ_METHODS) \<and>
        u = \<lparr>ru_id = lu_id (au_user s), ru_email = lu_email (au_user s), ru_sessionId = au_sessionId s,
          ru_impersonatedBy = (if truthy (au_impersonatedBy s) then au_impersonatedBy s else None)\<rparr>)"
  by (cases "authenticate C User_Side now rq d") (auto simp: user_auth_guard_def rbind_eq_Inr check_eq_Inr)

lemma admin_auth_guard_Inr:
  "admin_auth_guard C now rq d = Inr u \<longleftrightarrow>
     (\<exists>s. authenticate C Admin_Side now rq d = Inr s \<and> isAdminRole (lu_role (au_user s)) \<and> lu_status (au_user s) = user_status.ACTIVE \<and>
        u = \<lparr>ra_id = lu_id (au_user s), ra_email = lu_email (au_user s), ra_role = lu_role (au_user s), ra_sessionId = au_sessionId s\<rparr>)"
  by (cases "authenticate C Admin_Side now rq d") (auto simp: admin_auth_guard_def rbind_eq_Inr check_eq_Inr)

lemma findActive_Some:
  "findActive now i d = Some (s, a) \<longleftrightarrow> find_row se_id i (sd_sessions d) = Some s \<and>
     find_row lu_id (se_userId s) (sd_users d) = Some a \<and> now < se_expiresAt s"
  unfolding findActive_def by (auto split: option.splits bind_splits if_splits)

text \<open>A guard that lets a token through found the session the token names, and its user.\<close>

lemma guard_session:
  assumes "user_auth_guard C now rq d = Inr u"
  shows "\<exists>s\<in>set (sd_sessions d). se_id s = ru_sessionId u \<and> se_userId s = ru_id u"
proof -
  from assms obtain s where s: "authenticate C User_Side now rq d = Inr s" and u: "ru_id u = lu_id (au_user s)" "ru_sessionId u = au_sessionId s"
    unfolding user_auth_guard_Inr by auto
  from s obtain c :: session_claims and r a where f: "findActive now (sc_sid c) d = Some (r, a)"
    and s': "s = \<lparr>au_user = a, au_sessionId = se_id r, au_impersonatedBy = se_impersonatedBy r\<rparr>"
    unfolding authenticate_Inr by blast
  then have "au_user s = a" "au_sessionId s = se_id r" by simp_all
  with u f show ?thesis using find_row_Some [of se_id "sc_sid c" "sd_sessions d" r] find_row_Some [of lu_id "se_userId r" "sd_users d" a]
    by (auto simp: findActive_Some)
qed

text \<open>A token of one side names a session; the guard of that side opens for it or nothing.\<close>

lemma guard_of_issued:
  assumes "jwt_sound C"
    and "user_auth_guard C later (carrying m (it_accessToken (issue_tokens C now aud u i r)) x) d = Inr ru"
  shows "aud = User_Side \<and> ru_id ru = u \<and> ru_sessionId ru = i \<and> later div 1000 < now div 1000 + cy_ttl C aud Access_Token \<and>
    (\<exists>s. find_row se_id i (sd_sessions d) = Some s \<and> later < se_expiresAt s \<and>
      (truthy (se_impersonatedBy s) \<longrightarrow> m \<in> set READ_METHODS \<and> ru_impersonatedBy ru = se_impersonatedBy s))"
proof -
  from assms(2) obtain c s a where c: "verifyAccess C later User_Side (it_accessToken (issue_tokens C now aud u i r)) = Inr c"
    and f: "findActive later (sc_sid c) d = Some (s, a)" "se_userId s = sc_sub c"
    and ru: "ru = \<lparr>ru_id = lu_id a, ru_email = lu_email a, ru_sessionId = se_id s,
          ru_impersonatedBy = (if truthy (se_impersonatedBy s) then se_impersonatedBy s else None)\<rparr>"
    and m: "truthy (se_impersonatedBy s) \<longrightarrow> m \<in> set READ_METHODS"
    by (auto simp: user_auth_guard_Inr authenticate_Inr extractAccessToken_def carrying_def)
  from c have "User_Side = aud \<and> later div 1000 < now div 1000 + cy_ttl C aud Access_Token \<and> c = \<lparr>sc_sub = u, sc_sid = i\<rparr>"
    unfolding issued_access_verifies [OF assms(1)] .
  with f ru m show ?thesis by (auto simp: findActive_Some dest: find_row_Some)
qed

lemma admin_guard_of_issued:
  assumes "jwt_sound C"
    and "admin_auth_guard C later (carrying m (it_accessToken (issue_tokens C now aud u i r)) x) d = Inr ra"
  shows "aud = Admin_Side"
  using assms(2) issued_access_verifies [OF assms(1), of later Admin_Side now aud u i r]
  by (auto simp: admin_auth_guard_Inr authenticate_Inr extractAccessToken_def carrying_def)

section \<open>Ending sessions\<close>

lemma revoked_is_gone:
  assumes "better_auth_ok C B" and "keyed se_id (sd_sessions d)"
  shows "i \<notin> se_id ` set (sd_sessions (revoke_session B i d))"
proof (cases "find_row se_id i (sd_sessions d)")
  case None
  then have "i \<notin> se_id ` set (sd_sessions d)" by (rule iffD1 [OF find_row_None])
  moreover from None have "revoke_session B i d = d" by (simp add: revoke_session_def)
  ultimately show ?thesis by simp
next
  case (Some s)
  have "se_token r = se_token s" if "r \<in> set (sd_sessions d)" "se_id r = i" for r
    using find_row_mem [OF assms(2) that(1)] that(2) Some by simp
  with Some show ?thesis by (auto simp: revoke_session_def better_auth_laws(1) [OF assms(1)])
qed

lemma revoke_others:
  assumes "better_auth_ok C B" and "keyed se_token (sd_sessions d)"
  shows "set (sd_sessions (revokeOthersForUser B u keep d)) = {s \<in> set (sd_sessions d). se_userId s = u \<longrightarrow> se_id s = keep}"
proof -
  have fold: "set (foldl (\<lambda>ss s. ba_deleteSession B (se_token s) ss) ss rs) = {s \<in> set ss. se_token s \<notin> se_token ` set rs}" for rs ss
    by (induction rs arbitrary: ss) (auto simp: better_auth_laws(1) [OF assms(1)])
  have same: "r = s" if "r \<in> set (sd_sessions d)" "s \<in> set (sd_sessions d)" "se_token r = se_token s" for r s
    using find_row_mem [OF assms(2) that(1), unfolded that(3)] find_row_mem [OF assms(2) that(2)] by (simp only: option.inject)
  have "se_token s \<notin> se_token ` {r \<in> set (sd_sessions d). se_userId r = u \<and> se_id r \<noteq> keep} \<longleftrightarrow> (se_userId s = u \<longrightarrow> se_id s = keep)"
    if "s \<in> set (sd_sessions d)" for s
    by (auto simp: image_iff) (use same that in metis)+
  then have "{s \<in> set (sd_sessions d). se_token s \<notin> se_token ` {r \<in> set (sd_sessions d). se_userId r = u \<and> se_id r \<noteq> keep}} =
      {s \<in> set (sd_sessions d). se_userId s = u \<longrightarrow> se_id s = keep}"
    by (intro Collect_cong conj_cong refl)
  then show ?thesis by (simp add: revokeOthersForUser_def Let_def fold)
qed

lemma mark_revoked_simps [simp]:
  "sd_sessions (mark_revoked P now d) = sd_sessions d" "sd_users (mark_revoked P now d) = sd_users d"
  "sd_passwords (mark_revoked P now d) = sd_passwords d" "sd_resets (mark_revoked P now d) = sd_resets d"
  "sd_wd (mark_revoked P now d) = sd_wd d"
  by (simp_all add: mark_revoked_def)

lemma end_device_gone:
  assumes "better_auth_ok C B" and "keyed se_id (sd_sessions d)"
  shows "i \<notin> se_id ` set (sd_sessions (end_device B now i d))"
  using revoked_is_gone [OF assms] by (simp add: end_device_def)

text \<open>
  C16: once a device has signed out, the access token of that sign-in opens no workspace, whatever else the request
  carries and however long the token itself would still be valid.
\<close>

theorem logout_closes_the_device:
  assumes "jwt_sound C" and "better_auth_ok C B" and "login C B w email password d = (Inr a, d')"
    and "keyed se_id (sd_sessions d'')" and "now div 1000 < dw_now w div 1000 + cy_ttl C User_Side Refresh_Token"
  shows "\<exists>e. open_workspace C later allowLocked roles i
    (carrying m (it_accessToken (ua_tokens a)) unlock) (logout C B now (it_refreshToken (ua_tokens a)) d'') = Inl e"
proof -
  from assms(3) obtain sub sid r where tokens: "ua_tokens a = issue_tokens C (dw_now w) User_Side sub sid r"
    unfolding login_def finish_sign_in_def signedInResponse_def Let_def
    by (auto split: option.splits prod.splits sum.splits if_splits)
  have "verifyRefresh C now User_Side (it_refreshToken (ua_tokens a)) = Inr \<lparr>sc_sub = sub, sc_sid = sid\<rparr>"
    using assms(1,5) by (simp add: tokens verifyRefresh_def verify_token_def issue_tokens_def sign_token_def jwt_sound_def)
  then have out: "logout C B now (it_refreshToken (ua_tokens a)) d'' = end_device B now sid d''" by (simp add: logout_def)
  have "user_auth_guard C later (carrying m (it_accessToken (ua_tokens a)) unlock) (end_device B now sid d'') \<noteq> Inr u" for u
  proof
    assume "user_auth_guard C later (carrying m (it_accessToken (ua_tokens a)) unlock) (end_device B now sid d'') = Inr u"
    from guard_of_issued [OF assms(1) this [unfolded tokens]]
    have "find_row se_id sid (sd_sessions (end_device B now sid d'')) \<noteq> None" by auto
    then have "sid \<in> se_id ` set (sd_sessions (end_device B now sid d''))" by (simp only: find_row_None not_not)
    with end_device_gone [OF assms(2,4)] show False by blast
  qed
  then obtain e where "user_auth_guard C later (carrying m (it_accessToken (ua_tokens a)) unlock) (end_device B now sid d'') = Inl e"
    by (meson sumE)
  then show ?thesis by (simp add: open_workspace_def out)
qed

text \<open>
  C20: a password change needs the current password. Of the user's sessions exactly one is left, the one that made the
  change; the sessions of everyone else stay, and the guard lets the user in through that one session only, so every
  other device is out on its next request.
\<close>

theorem password_change_signs_others_out:
  assumes "better_auth_ok C B" and "bcrypt_sound C" and "changePassword C B w u i old new d = Inr d'" and "cy_hash C (dw_salt w) new \<noteq> []"
    and "keyed se_id (sd_sessions d)" and "keyed se_token (sd_sessions d)"
    and "find_row se_id i (sd_sessions d) = Some s" and "se_userId s = u"
  shows "credentials_verify C (sd_passwords d) u old \<and> credentials_verify C (sd_passwords d') u new \<and>
    {x \<in> set (sd_sessions d'). se_userId x = u} = {s} \<and>
    {x \<in> set (sd_sessions d'). se_userId x \<noteq> u} = {x \<in> set (sd_sessions d). se_userId x \<noteq> u} \<and>
    (\<forall>ru. user_auth_guard C later rq d' = Inr ru \<longrightarrow> ru_id ru = u \<longrightarrow> ru_sessionId ru = i)"
proof -
  from assms(3) have old: "credentials_verify C (sd_passwords d) u old"
    and d': "d' = endAllExcept B (dw_now w) u i (set_password C (dw_salt w) u new d)"
    by (auto simp: changePassword_def rbind_eq_Inr check_eq_Inr)
  have new: "credentials_verify C (sd_passwords d') u new"
    using assms(2,4) by (simp add: d' endAllExcept_def revokeOthersForUser_def Let_def set_password_def credentials_set_def credentials_verify_def bcrypt_sound_def)
  have left: "set (sd_sessions d') = {x \<in> set (sd_sessions d). se_userId x = u \<longrightarrow> se_id x = i}"
    using revoke_others [OF assms(1), of "set_password C (dw_salt w) u new d"] assms(6)
    by (simp add: d' endAllExcept_def set_password_def)
  have only: "x = s" if "x \<in> set (sd_sessions d)" "se_id x = i" for x
    using find_row_mem [OF assms(5) that(1)] that(2) assms(7) by simp
  have one: "{x \<in> set (sd_sessions d'). se_userId x = u} = {s}"
    using only assms(8) find_row_Some [OF assms(7)] by (auto simp: left)
  have rest: "{x \<in> set (sd_sessions d'). se_userId x \<noteq> u} = {x \<in> set (sd_sessions d). se_userId x \<noteq> u}"
    by (auto simp: left)
  have "ru_sessionId ru = i" if "user_auth_guard C later rq d' = Inr ru" "ru_id ru = u" for ru
    using guard_session [OF that(1)] that(2) by (auto simp: left)
  with old new one rest show ?thesis by blast
qed

section \<open>What a sign-in says\<close>

text \<open>
  C19: an email and password that fit no account are answered alike, whether the email is unknown, deleted, an
  administrator's, or its password is another; only a suspended user is told so. No token is given.
\<close>

theorem login_reveals_nothing:
  assumes "better_auth_ok C B" and "\<And>a. \<not> password_fits C email password d a"
  shows "fst (login C B w email password d) =
    Inl (if \<exists>a. find_row lu_email email (sd_users d) = Some a \<and> lu_role a = USER \<and> lu_status a = user_status.SUSPENDED
         then Forbidden suspended_message else invalid_login)"
proof (cases "find_row lu_email email (sd_users d)")
  case None
  then show ?thesis by (simp add: login_def)
next
  case (Some a)
  then have "email \<in> lu_email ` set (sd_users d)" by (auto dest: find_row_Some)
  from sign_in_refuses [OF assms(1) this assms(2)]
  obtain m where "ba_signInEmail B email password (dw_client w) (dw_now w) d = (Api_Error 401 m, sd_sessions d)" by blast
  then have "signInWithPassword B (dw_now w) email password (dw_client w) d = (Inr None, d)"
    by (simp add: signInWithPassword_def)
  with Some show ?thesis by (auto simp: login_def Let_def)
qed

lemma password_signs_in:
  assumes "better_auth_ok C B" and "signInWithPassword B now email password cl d = (Inr (Some s), d')"
  shows "\<exists>a r. password_fits C email password d a \<and> lu_id a = si_userId s \<and> fresh_session (si_userId s) d (sd_sessions d') r \<and>
    d' = d\<lparr>sd_sessions := sd_sessions d'\<rparr>"
proof -
  from assms(2) obtain tok u ss i where ans: "ba_signInEmail B email password cl now d = (Opened tok u, ss)"
    and d': "d' = d\<lparr>sd_sessions := ss\<rparr>" and u: "si_userId s = u"
    unfolding signInWithPassword_def by (auto simp: rbind_eq_Inr split: prod.splits auth_answer.splits if_splits)
  from sign_in_opens [OF assms(1) ans] d' u show ?thesis by auto
qed

text \<open>
  C17: the two sides never cross: what the common sign-in page hands out is for the side the account belongs to, and the
  guards of the other side refuse it in any state, at any time.
\<close>

theorem sides_never_cross:
  assumes "jwt_sound C" and "withPassword C B w email password d = (Inr r, d')"
  shows "case r of
      As_Admin a \<Rightarrow> isAdminRole (lu_role (aa_admin a)) \<and>
        (\<exists>e. user_auth_guard C later (carrying m (it_accessToken (aa_tokens a)) unlock) there = Inl e)
    | As_User a \<Rightarrow> lu_role (ua_user a) = USER \<and>
        (\<exists>e. admin_auth_guard C later (carrying m (it_accessToken (ua_tokens a)) unlock) there = Inl e)"
proof (cases r)
  case (As_Admin a)
  with assms(2) have "fst (admin_login C B w email password d) = Inr a"
    by (auto simp: withPassword_def Let_def rbind_eq_Inr split: prod.splits if_splits)
  then have admin: "isAdminRole (lu_role (aa_admin a))"
    and t: "\<exists>i. aa_tokens a = issue_tokens C (dw_now w) Admin_Side (lu_id (aa_admin a)) i (lu_role (aa_admin a))"
    unfolding admin_login_def completeSignIn_def Let_def
    by (auto split: option.splits prod.splits sum.splits if_splits)
  from t obtain i where t: "aa_tokens a = issue_tokens C (dw_now w) Admin_Side (lu_id (aa_admin a)) i (lu_role (aa_admin a))" by blast
  have "user_auth_guard C later (carrying m (it_accessToken (aa_tokens a)) unlock) there \<noteq> Inr ru" for ru
    unfolding t using guard_of_issued [OF assms(1)] by fastforce
  then obtain e where "user_auth_guard C later (carrying m (it_accessToken (aa_tokens a)) unlock) there = Inl e" by (meson sumE)
  with As_Admin admin show ?thesis by simp
next
  case (As_User a)
  with assms(2) have "fst (login C B w email password d) = Inr a"
    by (auto simp: withPassword_def Let_def rbind_eq_Inr split: prod.splits if_splits)
  then have user: "lu_role (ua_user a) = USER"
    and t: "\<exists>i. ua_tokens a = issue_tokens C (dw_now w) User_Side (lu_id (ua_user a)) i (lu_role (ua_user a))"
    unfolding login_def finish_sign_in_def signedInResponse_def Let_def
    by (auto split: option.splits prod.splits sum.splits if_splits)
  from t obtain i where t: "ua_tokens a = issue_tokens C (dw_now w) User_Side (lu_id (ua_user a)) i (lu_role (ua_user a))" by blast
  have "admin_auth_guard C later (carrying m (it_accessToken (ua_tokens a)) unlock) there \<noteq> Inr ra" for ra
    unfolding t using admin_guard_of_issued [OF assms(1)] by fastforce
  then obtain e where "admin_auth_guard C later (carrying m (it_accessToken (ua_tokens a)) unlock) there = Inl e" by (meson sumE)
  with As_User user show ?thesis by simp
qed

section \<open>Reset links\<close>

lemma createSession_keeps:
  assumes "createSession B now u cl d = Inr (i, d')"
  shows "sd_resets d' = sd_resets d" "sd_passwords d' = sd_passwords d" "sd_users d' = sd_users d"
  using assms by (auto simp: createSession_def split: option.splits)

lemma finish_tokens:
  assumes "finish_sign_in C w user i code d = (Inr a, d')"
  shows "ua_user a = user" "ua_tokens a = issue_tokens C (dw_now w) User_Side (lu_id user) i (lu_role user)"
  using assms unfolding finish_sign_in_def signedInResponse_def Let_def by (auto split: sum.splits prod.splits)

lemma createSession_fresh:
  assumes "better_auth_ok C B" and "createSession B now u cl d = Inr (i, d')"
  shows "\<exists>s. fresh_session u d (sd_sessions d') s \<and> se_id s = i"
  using assms(2) better_auth_laws(3) [OF assms(1)] by (fastforce simp: createSession_def split: option.splits)

lemma finish_keeps:
  assumes "finish_sign_in C w user i code d = (r, d')"
  shows "sd_resets d' = sd_resets d" "sd_passwords d' = sd_passwords d" "sd_sessions d' = sd_sessions d" "sd_users d' = sd_users d"
  using assms unfolding finish_sign_in_def complete_account_def signedInResponse_def Let_def record_device_def
  by (auto split: sum.splits prod.splits)

lemma endAll_keeps [simp]:
  "sd_resets (endAll B now u d) = sd_resets d" "sd_passwords (endAll B now u d) = sd_passwords d" "sd_users (endAll B now u d) = sd_users d"
  by (simp_all add: endAll_def revokeAllForUser_def)

lemma claim_link_Inr:
  assumes "claim_link C w r pw d = Inr (user, d')"
  shows "lu_status user = user_status.ACTIVE \<and> lu_role user = USER \<and> find_row lu_id (rs_userId r) (sd_users d) = Some user \<and>
    d' = set_password C (dw_salt w) (lu_id user) pw
      (d\<lparr>sd_resets := update_many (claimable_link (dw_now w) (rs_id r)) (\<lambda>r. r\<lparr>rs_usedAt := Some (dw_now w)\<rparr>) (sd_resets d)\<rparr>)"
  using assms unfolding claim_link_def by (auto simp: rbind_eq_Inr check_eq_Inr split: option.splits)

lemma claimed_is_gone:
  "filter (claimable_link t i) (update_many (claimable_link now i) (\<lambda>r. r\<lparr>rs_usedAt := Some now\<rparr>) rs) =
   filter (claimable_link t i) (filter (\<lambda>r. \<not> claimable_link now i r) rs)"
  by (induction rs) (auto simp: update_many_def claimable_link_def)

text \<open>
  C18: a reset link works once. The request that used it sets the password and leaves its user exactly one session: the
  new one, which the tokens of the answer name; the sessions of everyone else stay. A request that looked the link up
  before it was used, or looks after, is refused and changes nothing.
\<close>

theorem reset_link_once:
  assumes "better_auth_ok C B" and "bcrypt_sound C" and "cy_hash C (dw_salt w) pw \<noteq> []" and "keyed rs_id (sd_resets d)"
    and "resetPassword C B w raw pw d d = (Inr a, d')" and "sd_resets there = sd_resets d'"
    and "sd_resets seen = sd_resets d \<or> sd_resets seen = sd_resets d'"
  shows "resetPassword C B w' raw pw' seen there = (Inl invalid_link, there) \<and>
    credentials_verify C (sd_passwords d') (lu_id (ua_user a)) pw \<and>
    (\<exists>s. {x \<in> set (sd_sessions d'). se_userId x = lu_id (ua_user a)} = {s} \<and>
       ua_tokens a = issue_tokens C (dw_now w) User_Side (lu_id (ua_user a)) (se_id s) (lu_role (ua_user a))) \<and>
    {x \<in> set (sd_sessions d'). se_userId x \<noteq> lu_id (ua_user a)} = {x \<in> set (sd_sessions d). se_userId x \<noteq> lu_id (ua_user a)}"
proof -
  let ?h = "cy_digest C raw"
  from assms(5) obtain r user d1 i d2 where r: "find_row rs_tokenHash ?h (sd_resets d) = Some r"
    and claim: "claim_link C w r pw d = Inr (user, d1)"
    and create: "createSession B (dw_now w) (lu_id user) (dw_client w) (endAll B (dw_now w) (lu_id user) d1) = Inr (i, d2)"
    and fin: "finish_sign_in C w user i None d2 = (Inr a, d')"
    unfolding resetPassword_def Let_def by (auto split: option.splits sum.splits if_splits)
  let ?mark = "\<lambda>r :: reset_row. r\<lparr>rs_usedAt := Some (dw_now w)\<rparr>"
  note d1 = claim_link_Inr [OF claim]
  note user = finish_tokens(1) [OF fin]
  have resets: "sd_resets d' = update_many (claimable_link (dw_now w) (rs_id r)) ?mark (sd_resets d)"
    using d1 by (simp add: finish_keeps(1) [OF fin] createSession_keeps(1) [OF create] set_password_def)
  have once: "length (filter (claimable_link (dw_now w) (rs_id r)) (sd_resets d)) = 1"
    using claim by (auto simp: claim_link_def rbind_eq_Inr check_eq_Inr)
  then have "filter (claimable_link (dw_now w) (rs_id r)) (sd_resets d) \<noteq> []" by auto
  then obtain x where x: "x \<in> set (sd_resets d)" "claimable_link (dw_now w) (rs_id r) x" by (auto simp: filter_empty_conv)
  have only: "y = x" if "y \<in> set (sd_resets d)" "rs_id y = rs_id r" for y
  proof -
    have "find_row rs_id (rs_id y) (sd_resets d) = Some y" by (rule find_row_mem [OF assms(4) that(1)])
    moreover have "find_row rs_id (rs_id x) (sd_resets d) = Some x" by (rule find_row_mem [OF assms(4) x(1)])
    ultimately show ?thesis using that(2) x(2) by (simp add: claimable_link_def)
  qed
  have gone: "filter (claimable_link t (rs_id r)) (sd_resets d') = []" for t
    unfolding resets claimed_is_gone filter_filter filter_empty_conv using only x(2) by (auto simp: claimable_link_def)
  have "resetPassword C B w' raw pw' seen there = (Inl invalid_link, there)"
  proof (cases "sd_resets seen = sd_resets d")
    case True
    with r gone show ?thesis by (simp add: resetPassword_def claim_link_def check_def assms(6))
  next
    case False
    then have seen: "sd_resets seen = sd_resets d'" using assms(7) by simp
    have mem: "r \<in> set (sd_resets d)" "rs_tokenHash r = ?h" using find_row_Some [OF r] by simp_all
    with only [OF mem(1)] x(2) have "claimable_link (dw_now w) (rs_id r) r" by simp
    moreover have "find_row rs_tokenHash ?h (sd_resets d') = Some ((if claimable_link (dw_now w) (rs_id r) r then ?mark else id) r)"
      unfolding resets by (subst find_row_update_many) (simp_all add: r)
    ultimately show ?thesis using seen by (simp add: resetPassword_def)
  qed
  moreover have "credentials_verify C (sd_passwords d') (lu_id (ua_user a)) pw"
    using d1 assms(2,3)
    by (simp add: user finish_keeps(2) [OF fin] createSession_keeps(2) [OF create] set_password_def credentials_set_def
        credentials_verify_def bcrypt_sound_def)
  moreover from createSession_fresh [OF assms(1) create] obtain s
    where fresh: "fresh_session (lu_id user) (endAll B (dw_now w) (lu_id user) d1) (sd_sessions d2) s" and i: "se_id s = i" by blast
  have "sd_sessions d1 = sd_sessions d" using d1 by (simp add: set_password_def)
  with fresh have ss: "set (sd_sessions d') = insert s {x \<in> set (sd_sessions d). se_userId x \<noteq> lu_id user}" and su: "se_userId s = lu_id user"
    by (auto simp: finish_keeps(3) [OF fin] fresh_session_def endAll_def revokeAllForUser_def better_auth_laws(2) [OF assms(1)])
  have "{x \<in> set (sd_sessions d'). se_userId x = lu_id (ua_user a)} = {s}"
    and "{x \<in> set (sd_sessions d'). se_userId x \<noteq> lu_id (ua_user a)} = {x \<in> set (sd_sessions d). se_userId x \<noteq> lu_id (ua_user a)}"
    using su by (auto simp: ss user)
  moreover have "ua_tokens a = issue_tokens C (dw_now w) User_Side (lu_id (ua_user a)) (se_id s) (lu_role (ua_user a))"
    by (simp add: user i finish_tokens(2) [OF fin])
  ultimately show ?thesis by blast
qed

section \<open>The support view\<close>

text \<open>
  C21: what an administrator gets to view an account opens the user's guard for reading only, is marked with the
  administrator, and for an hour at most. The request itself added one session, marked with the administrator, and one
  entry of the audit log that names both; every other session and every other table is as it was.
\<close>

theorem support_view_reads_only:
  assumes "jwt_sound C" and "better_auth_ok C B" and "start_view C B w u admin d = Inr ((tokens, expiresAt), d')" and "admin \<noteq> []"
    and "user_auth_guard C later (carrying m (it_accessToken tokens) unlock) d' = Inr ru"
  shows "m \<in> set READ_METHODS \<and> ru_id ru = u \<and> ru_impersonatedBy ru = Some admin \<and> later < dw_now w + IMPERSONATION_MINUTES * 60 * 1000 \<and>
    (\<exists>s. set (sd_sessions d') = insert s (set (sd_sessions d)) \<and> s \<notin> set (sd_sessions d) \<and> se_userId s = u \<and>
       se_id s = ru_sessionId ru \<and> se_impersonatedBy s = Some admin) \<and>
    (\<exists>e. sd_audit d' = sd_audit d @ [e] \<and> ae_adminUserId e = admin \<and> ae_entityId e = u) \<and>
    d' = d\<lparr>sd_sessions := sd_sessions d', sd_audit := sd_audit d'\<rparr>"
proof -
  let ?f = "\<lambda>s :: session_row. s\<lparr>se_impersonatedBy := Some admin, se_expiresAt := dw_now w + IMPERSONATION_MINUTES * 60 * 1000, se_updatedAt := dw_now w\<rparr>"
  from assms(3) obtain i d1 where create: "createSession B (dw_now w) u (dw_client w) d = Inr (i, d1)"
    and tokens: "tokens = issue_tokens C (dw_now w) User_Side u i USER"
    and d': "d' = log_event (dw_now w) admin ''USER_IMPERSONATION_STARTED'' ''User'' u (cl_ipAddress (dw_client w))
        (d1\<lparr>sd_sessions := map_row se_id i ?f (sd_sessions d1)\<rparr>)"
    unfolding start_view_def Let_def
    by (auto simp: rbind_eq_Inr check_eq_Inr update_row_eq_Inr split: option.splits)
  have d1: "d1 = d\<lparr>sd_sessions := sd_sessions d1\<rparr>"
    using create by (auto simp: createSession_def split: option.splits)
  then have tables: "d' = d\<lparr>sd_sessions := sd_sessions d', sd_audit := sd_audit d'\<rparr>"
    unfolding d' log_event_def log_reason_def by (cases d1, cases d) simp
  have "sd_audit d1 = sd_audit d" by (subst d1) simp
  then have audit: "\<exists>e. sd_audit d' = sd_audit d @ [e] \<and> ae_adminUserId e = admin \<and> ae_entityId e = u"
    by (simp add: d' log_event_def log_reason_def)
  have ss: "sd_sessions d' = map_row se_id i ?f (sd_sessions d1)" by (simp add: d' log_event_def log_reason_def)
  from guard_of_issued [OF assms(1) assms(5) [unfolded tokens]]
  obtain s where ru: "ru_id ru = u" "ru_sessionId ru = i" and s: "find_row se_id i (sd_sessions d') = Some s" "later < se_expiresAt s"
    and view: "truthy (se_impersonatedBy s) \<longrightarrow> m \<in> set READ_METHODS \<and> ru_impersonatedBy ru = se_impersonatedBy s"
    by blast
  have "find_row se_id i (sd_sessions d') = map_option ?f (find_row se_id i (sd_sessions d1))"
    unfolding ss by (subst find_row_map_row) simp_all
  with s(1) obtain s1 where f: "s = ?f s1" by auto
  from createSession_fresh [OF assms(2) create] obtain n where n: "fresh_session u d (sd_sessions d1) n" "se_id n = i" by blast
  then have "set (sd_sessions d') = insert (?f n) (set (sd_sessions d))" and "?f n \<notin> set (sd_sessions d)"
    unfolding ss map_row_def fresh_session_def by (auto simp: image_iff)
  moreover have "se_userId (?f n) = u" "se_id (?f n) = i" using n by (simp_all add: fresh_session_def)
  ultimately have one: "\<exists>s. set (sd_sessions d') = insert s (set (sd_sessions d)) \<and> s \<notin> set (sd_sessions d) \<and> se_userId s = u \<and>
      se_id s = ru_sessionId ru \<and> se_impersonatedBy s = Some admin"
    unfolding ru(2) by (intro exI [of _ "?f n"] conjI) simp_all
  from f view assms(4) s(2) ru(1)
  have "m \<in> set READ_METHODS \<and> ru_id ru = u \<and> ru_impersonatedBy ru = Some admin \<and> later < dw_now w + IMPERSONATION_MINUTES * 60 * 1000" by simp
  with one audit tables show ?thesis by (intro conjI) (simp_all only:)
qed

section \<open>An instance\<close>

text \<open>A session library that keeps the laws, and a user with a password, an administrator and one workspace.\<close>

definition unused :: "string list \<Rightarrow> string" where
  "unused xs = replicate (Suc (sum_list (map length xs))) (CHR ''k'')"

lemma unused: "unused xs \<notin> set xs"
proof
  assume "unused xs \<in> set xs"
  then have "length (unused xs) \<le> sum_list (map length xs)" using member_le_sum_list [of "length (unused xs)" "map length xs"] by simp
  then show False by (simp add: unused_def)
qed

definition plain_session :: "id \<Rightarrow> instant \<Rightarrow> sdb \<Rightarrow> session_row" where
  "plain_session u t d = \<lparr>se_id = unused (map se_id (sd_sessions d)), se_token = unused (map se_token (sd_sessions d)),
     se_expiresAt = t + 1000000000, se_ipAddress = None, se_userAgent = None, se_userId = u, se_createdAt = t, se_updatedAt = t,
     se_impersonatedBy = None\<rparr>"

definition is_active :: "id \<Rightarrow> sdb \<Rightarrow> bool" where
  "is_active u d \<longleftrightarrow> list_ex (\<lambda>a. lu_id a = u \<and> lu_status a = user_status.ACTIVE) (sd_users d)"

definition plain_auth :: "'tok crypto \<Rightarrow> better_auth" where
  "plain_auth C = \<lparr>
     ba_signInEmail = (\<lambda>email pw cl t d.
       case find (matches_password C email pw d) (sd_users d) of
         None \<Rightarrow> (Api_Error 401 [], sd_sessions d)
       | Some a \<Rightarrow> if is_active (lu_id a) d
           then (Opened (se_token (plain_session (lu_id a) t d)) (lu_id a), sd_sessions d @ [plain_session (lu_id a) t d])
           else (Api_Error 403 [], sd_sessions d)),
     ba_signUpEmail = (\<lambda>a cl t d. (Failed [], d)),
     ba_getSession = (\<lambda>c t d. None),
     ba_createSession = (\<lambda>u cl t d. if is_active u d then Some (sd_sessions d @ [plain_session u t d], plain_session u t d) else None),
     ba_deleteSession = (\<lambda>tok. filter (\<lambda>s. se_token s \<noteq> tok)),
     ba_deleteUserSessions = (\<lambda>u. filter (\<lambda>s. se_userId s \<noteq> u))\<rparr>"

lemma plain_session_fresh:
  assumes "is_active u d"
  shows "fresh_session u d (sd_sessions d @ [plain_session u t d]) (plain_session u t d)"
  using assms unused [of "map se_id (sd_sessions d)"] unused [of "map se_token (sd_sessions d)"]
  by (auto simp: fresh_session_def plain_session_def is_active_def list_ex_iff)

lemma plain_auth_ok: "better_auth_ok C (plain_auth C)"
  unfolding better_auth_ok_def
proof (intro conjI allI impI)
  fix email pw cl t d tok u ss
  assume "ba_signInEmail (plain_auth C) email pw cl t d = (Opened tok u, ss)"
  then have ans: "(case find (matches_password C email pw d) (sd_users d) of
         None \<Rightarrow> (Api_Error 401 [], sd_sessions d)
       | Some a \<Rightarrow> if is_active (lu_id a) d
           then (Opened (se_token (plain_session (lu_id a) t d)) (lu_id a), sd_sessions d @ [plain_session (lu_id a) t d])
           else (Api_Error 403 [], sd_sessions d)) = (Opened tok u, ss)"
    by (simp add: plain_auth_def)
  then obtain a where a: "find (matches_password C email pw d) (sd_users d) = Some a"
    by (cases "find (matches_password C email pw d) (sd_users d)") simp_all
  with ans have act: "is_active (lu_id a) d" by (simp split: if_splits)
  with ans a have ans: "tok = se_token (plain_session (lu_id a) t d)" "u = lu_id a" "ss = sd_sessions d @ [plain_session (lu_id a) t d]"
    by auto
  from a have "password_fits C email pw d a" by (auto simp: password_fits_def find_Some_iff)
  with plain_session_fresh [OF act] ans
  show "\<exists>a s. password_fits C email pw d a \<and> lu_id a = u \<and> se_token s = tok \<and> fresh_session u d ss s" by blast
next
  fix email pw cl t d
  assume "email \<in> lu_email ` set (sd_users d) \<and> (\<forall>a. \<not> password_fits C email pw d a)"
  then have "find (matches_password C email pw d) (sd_users d) = None" by (auto simp: password_fits_def find_None_iff)
  then show "\<exists>m. ba_signInEmail (plain_auth C) email pw cl t d = (Api_Error 401 m, sd_sessions d)"
    by (simp add: plain_auth_def)
next
  fix u cl t d ss s
  assume "ba_createSession (plain_auth C) u cl t d = Some (ss, s)"
  then show "fresh_session u d ss s" using plain_session_fresh by (auto simp: plain_auth_def split: if_splits)
qed (simp_all add: plain_auth_def)

definition sample_people :: sdb where
  "sample_people = \<lparr>sd_users = [\<lparr>lu_id = ''u'', lu_name = ''U'', lu_email = ''u@x'', lu_role = USER, lu_status = user_status.ACTIVE,
       lu_preferredLanguage = ''EN'', lu_lastLoginAt = None, lu_phone = None, lu_createdAt = 0\<rparr>,
       \<lparr>lu_id = ''a'', lu_name = ''A'', lu_email = ''a@x'', lu_role = SUPER_ADMIN, lu_status = user_status.ACTIVE,
       lu_preferredLanguage = ''EN'', lu_lastLoginAt = None, lu_phone = None, lu_createdAt = 0\<rparr>],
     sd_passwords = [''u'' \<mapsto> ''secret1'', ''a'' \<mapsto> ''secret2''], sd_sessions = [], sd_devices = [], sd_attempts = [],
     sd_resets = [], sd_audit = [], sd_wd = sample_home\<rparr>"

definition sample_draws :: "instant \<Rightarrow> draws" where
  "sample_draws t = \<lparr>dw_now = t, dw_gen = sample_gen CHR ''d'', dw_codes = [], dw_salt = [], dw_client = \<lparr>cl_ipAddress = None, cl_userAgent = None\<rparr>\<rparr>"

definition after_login :: "(jwt_secret \<times> jwt_audience \<times> instant \<times> payload) user_answer result \<times> sdb" where
  "after_login = login plain_crypto (plain_auth plain_crypto) (sample_draws 5000) ''u@x'' ''secret1'' sample_people"

lemma answered: "case fst p of Inl e \<Rightarrow> False | Inr a \<Rightarrow> True \<Longrightarrow> \<exists>a. p = (Inr a, snd p)"
  by (cases "fst p") (simp_all add: prod_eq_iff)

lemma after_login: "\<exists>a. after_login = (Inr a, snd after_login)"
  by (rule answered) code_simp

lemma after_login_keyed: "keyed se_id (sd_sessions (snd after_login))"
  by code_simp

definition second_login :: "(jwt_secret \<times> jwt_audience \<times> instant \<times> payload) user_answer result \<times> sdb" where
  "second_login = login plain_crypto (plain_auth plain_crypto) (sample_draws 5500) ''u@x'' ''secret1'' (snd after_login)"

theorem logout_closes_the_device_witness:
  "\<exists>a e m. after_login = (Inr a, snd after_login) \<and>
     open_workspace plain_crypto 6000 False None ''w'' (carrying ''GET'' (it_accessToken (ua_tokens a)) None) (snd after_login) = Inr m \<and>
     open_workspace plain_crypto 6000 False None ''w'' (carrying ''GET'' (it_accessToken (ua_tokens a)) None)
       (logout plain_crypto (plain_auth plain_crypto) 6000 (it_refreshToken (ua_tokens a)) (snd after_login)) = Inl e"
proof -
  from after_login obtain a where a: "after_login = (Inr a, snd after_login)" ..
  have "case fst after_login of Inl e \<Rightarrow> False | Inr a \<Rightarrow>
      (case open_workspace plain_crypto 6000 False None ''w'' (carrying ''GET'' (it_accessToken (ua_tokens a)) None) (snd after_login) of Inl e \<Rightarrow> False | Inr m \<Rightarrow> True)"
    by code_simp
  moreover have "fst after_login = Inr a" by (subst a) simp
  ultimately obtain m where "open_workspace plain_crypto 6000 False None ''w'' (carrying ''GET'' (it_accessToken (ua_tokens a)) None) (snd after_login) = Inr m"
    by (auto split: sum.splits)
  moreover have "\<exists>e. open_workspace plain_crypto 6000 False None ''w'' (carrying ''GET'' (it_accessToken (ua_tokens a)) None)
       (logout plain_crypto (plain_auth plain_crypto) 6000 (it_refreshToken (ua_tokens a)) (snd after_login)) = Inl e"
  proof (rule logout_closes_the_device [OF plain_crypto_sound(1) plain_auth_ok _ after_login_keyed])
    show "login plain_crypto (plain_auth plain_crypto) (sample_draws 5000) ''u@x'' ''secret1'' sample_people = (Inr a, snd after_login)"
      using a by (simp only: after_login_def [symmetric])
  qed (simp add: sample_draws_def plain_crypto_def)
  ultimately show ?thesis using a by blast
qed

theorem login_reveals_nothing_witness:
  "fst (login plain_crypto (plain_auth plain_crypto) (sample_draws 5000) ''u@x'' ''secret2'' sample_people) = Inl invalid_login"
proof -
  have "\<not> password_fits plain_crypto ''u@x'' ''secret2'' sample_people a" for a
    by (auto simp: password_fits_def matches_password_def sample_people_def plain_crypto_def)
  from login_reveals_nothing [OF plain_auth_ok this] show ?thesis
    by (simp add: sample_people_def invalid_login_def)
qed

theorem sides_never_cross_witness:
  "\<exists>a d e. withPassword plain_crypto (plain_auth plain_crypto) (sample_draws 5000) ''a@x'' ''secret2'' sample_people = (Inr (As_Admin a), d) \<and>
     user_auth_guard plain_crypto 6000 (carrying ''GET'' (it_accessToken (aa_tokens a)) None) d = Inl e"
proof -
  have "case withPassword plain_crypto (plain_auth plain_crypto) (sample_draws 5000) ''a@x'' ''secret2'' sample_people of
      (Inr (As_Admin a), d) \<Rightarrow> True | _ \<Rightarrow> False"
    by code_simp
  then obtain a d where w: "withPassword plain_crypto (plain_auth plain_crypto) (sample_draws 5000) ''a@x'' ''secret2'' sample_people = (Inr (As_Admin a), d)"
    by (auto split: prod.splits sum.splits sign_in_result.splits)
  from sides_never_cross [OF plain_crypto_sound(1) w, of 6000 "''GET''" None d]
  obtain e where "user_auth_guard plain_crypto 6000 (carrying ''GET'' (it_accessToken (aa_tokens a)) None) d = Inl e" by auto
  with w show ?thesis by blast
qed

definition sample_linked :: sdb where
  "sample_linked = (case forgotPassword plain_crypto (sample_draws 1000) ''raw'' ''u@x'' (snd after_login) of Inr d \<Rightarrow> d | Inl e \<Rightarrow> snd after_login)"

definition reset_once :: "(jwt_secret \<times> jwt_audience \<times> instant \<times> payload) user_answer result \<times> sdb" where
  "reset_once = resetPassword plain_crypto (plain_auth plain_crypto) (sample_draws 9000) ''raw'' ''new1'' sample_linked sample_linked"

theorem reset_link_once_witness:
  "resetPassword plain_crypto (plain_auth plain_crypto) (sample_draws 9000) ''raw'' ''other1'' sample_linked (snd reset_once) =
     (Inl invalid_link, snd reset_once)"
proof -
  have "case fst reset_once of Inl e \<Rightarrow> False | Inr a \<Rightarrow> True" by code_simp
  from answered [OF this] obtain a where a: "reset_once = (Inr a, snd reset_once)" ..
  have "keyed rs_id (sd_resets sample_linked)" by code_simp
  from reset_link_once [OF plain_auth_ok plain_crypto_sound(2) _ this a [unfolded reset_once_def], of "snd reset_once" sample_linked "sample_draws 9000" "''other1''"]
  show ?thesis by (simp add: plain_crypto_def reset_once_def)
qed

theorem password_change_signs_others_out_witness:
  "\<exists>d s. changePassword plain_crypto (plain_auth plain_crypto) (sample_draws 6000) ''u'' (se_id s) ''secret1'' ''new1'' (snd second_login) = Inr d \<and>
     length (filter (\<lambda>x. se_userId x = ''u'') (sd_sessions (snd second_login))) = 2 \<and>
     {x \<in> set (sd_sessions d). se_userId x = ''u''} = {s} \<and> credentials_verify plain_crypto (sd_passwords d) ''u'' ''new1''"
proof -
  let ?d = "snd second_login"
  let ?s = "last (sd_sessions ?d)"
  have "case changePassword plain_crypto (plain_auth plain_crypto) (sample_draws 6000) ''u'' (se_id ?s) ''secret1'' ''new1'' ?d of
      Inl e \<Rightarrow> False | Inr d \<Rightarrow> True"
    by code_simp
  then obtain d where d: "changePassword plain_crypto (plain_auth plain_crypto) (sample_draws 6000) ''u'' (se_id ?s) ''secret1'' ''new1'' ?d = Inr d"
    by (auto split: sum.splits)
  have keyed: "keyed se_id (sd_sessions ?d)" "keyed se_token (sd_sessions ?d)" by code_simp+
  have "?s \<in> set (sd_sessions ?d)" by (rule last_in_set) code_simp
  from find_row_mem [OF keyed(1) this] have s: "find_row se_id (se_id ?s) (sd_sessions ?d) = Some ?s" .
  have u: "se_userId ?s = ''u''" by code_simp
  have "length (filter (\<lambda>x. se_userId x = ''u'') (sd_sessions ?d)) = 2" by code_simp
  moreover from password_change_signs_others_out [OF plain_auth_ok plain_crypto_sound(2) d _ keyed s u]
  have "{x \<in> set (sd_sessions d). se_userId x = ''u''} = {?s}" "credentials_verify plain_crypto (sd_passwords d) ''u'' ''new1''"
    by (simp_all add: plain_crypto_def)
  ultimately show ?thesis using d by blast
qed

definition view_started :: "(((jwt_secret \<times> jwt_audience \<times> instant \<times> payload) issued_tokens \<times> instant) \<times> sdb) result" where
  "view_started = start_view plain_crypto (plain_auth plain_crypto) (sample_draws 5000) ''u'' ''a'' sample_people"

theorem support_view_reads_only_witness:
  "\<exists>tokens t d ru. view_started = Inr ((tokens, t), d) \<and>
     user_auth_guard plain_crypto 6000 (carrying ''GET'' (it_accessToken tokens) None) d = Inr ru \<and> ru_impersonatedBy ru = Some ''a''"
proof -
  have "case view_started of Inl e \<Rightarrow> False | Inr ((tokens, t), d) \<Rightarrow>
      (case user_auth_guard plain_crypto 6000 (carrying ''GET'' (it_accessToken tokens) None) d of Inl e \<Rightarrow> False | Inr ru \<Rightarrow> True)"
    by code_simp
  then obtain tokens t d ru where v: "view_started = Inr ((tokens, t), d)"
    and g: "user_auth_guard plain_crypto 6000 (carrying ''GET'' (it_accessToken tokens) None) d = Inr ru"
    by (auto split: sum.splits prod.splits)
  from support_view_reads_only [OF plain_crypto_sound(1) plain_auth_ok v [unfolded view_started_def] _ g] v g show ?thesis by blast
qed

text \<open>
  Reading is not always without effect: the referral page, a GET, gives a user who has none a referral code -- from a
  support view too, whose guard lets every GET through.
\<close>

lemma support_view_page_writes:
  "case getReferralInfo (\<lambda>n. ''AB'') 6000 ''u'' (wd_rd sample_start) of
     Inl e \<Rightarrow> False | Inr (rd, info) \<Rightarrow> map us_referralCode (rd_users rd) = [Some ''AB''] \<and> map us_referralCode (rd_users (wd_rd sample_start)) = [None]"
  by code_simp

end
