(* ===== verification/Admin_Owners.thy ===== *)
theory Admin_Owners
  imports Session_Facts Assets Budgets
begin

text \<open>
  The owners of workspaces, as the administrators see and change them
  (src/admin-owners/admin-owners.service.ts): the list and the detail, suspending and activating,
  another plan, and the reset of an owner's books. Tables the sessions do not need stand beside them.
\<close>

section \<open>State\<close>

record odb =
  od_sd :: sdb
  od_history :: "asset_value list"
  od_categories :: "asset_category list"
  od_targets :: "id \<rightharpoonup> money"

definition od_books :: "odb \<Rightarrow> db" where
  "od_books d = rd_books (wd_rd (sd_wd (od_sd d)))"

definition is_owner :: "login_user \<Rightarrow> bool" where
  "is_owner a \<longleftrightarrow> lu_role a = USER"

definition requireOwnerAccount :: "id \<Rightarrow> sdb \<Rightarrow> login_user result" where
  "requireOwnerAccount userId d =
     (case find_row lu_id userId (filter is_owner (sd_users d)) of None \<Rightarrow> Inl (NotFound ''Owner not found'') | Some a \<Rightarrow> Inr a)"

definition owned :: "id \<Rightarrow> wdb \<Rightarrow> workspace_row list" where
  "owned userId wd = filter (\<lambda>b. wk_ownerId b = userId \<and> wk_deletedAt b = None) (wd_businesses wd)"

definition main_business :: "workspace_row list \<Rightarrow> workspace_row option" where
  "main_business bs = (case find wk_isDefault bs of Some b \<Rightarrow> Some b | None \<Rightarrow> (case bs of [] \<Rightarrow> None | b # _ \<Rightarrow> Some b))"

section \<open>The list and the detail\<close>

record owners_query =
  oq_page :: "nat option"
  oq_limit :: "nat option"
  oq_search :: "string option"
  oq_status :: "user_status option"
  oq_planId :: "string option"

definition owner_where :: "(string \<Rightarrow> string \<Rightarrow> bool) \<Rightarrow> (char \<Rightarrow> bool) \<Rightarrow> owners_query \<Rightarrow> wdb \<Rightarrow> login_user \<Rightarrow> bool" where
  "owner_where has space q wd a \<longleftrightarrow>
     (let bs = owned (lu_id a) wd; search = map_option (trim_text space) (oq_search q) in
      is_owner a \<and>
      (if truthy (oq_planId q) then list_ex (\<lambda>b. wk_isDefault b \<and> wk_planId b = oq_planId q) bs else bs \<noteq> []) \<and>
      (truthy search \<longrightarrow> has (lu_name a) (the search) \<or> has (lu_email a) (the search) \<or>
         (case lu_phone a of None \<Rightarrow> False | Some p \<Rightarrow> has p (the search)) \<or> list_ex (\<lambda>b. has (wk_name b) (the search)) bs))"

record owner_summary =
  os_user :: login_user
  os_businessId :: "id option"
  os_businessName :: "string option"
  os_planId :: "id option"
  os_planName :: "string option"
  os_workspaceCount :: nat
  os_daysUsing :: int

definition owner_plan_name :: "wdb \<Rightarrow> id option \<Rightarrow> string option" where
  "owner_plan_name wd i = Option.bind i (\<lambda>i. map_option pl_name (find_row pl_id i (wd_plans wd)))"

definition summarizeOwner :: "instant \<Rightarrow> wdb \<Rightarrow> login_user \<Rightarrow> owner_summary" where
  "summarizeOwner now wd a =
     (let bs = owned (lu_id a) wd; b = main_business bs in
      \<lparr>os_user = a, os_businessId = map_option wk_id b, os_businessName = map_option wk_name b, os_planId = Option.bind b wk_planId,
       os_planName = owner_plan_name wd (Option.bind b wk_planId), os_workspaceCount = length bs,
       os_daysUsing = max 0 ((now - lu_createdAt a) div day_ms)\<rparr>)"

record owners_page =
  op_items :: "owner_summary list"
  op_page :: nat
  op_limit :: nat
  op_totalCount :: nat
  op_statusCounts :: "(user_status \<times> nat) list"

definition list_owners :: "(string \<Rightarrow> string \<Rightarrow> bool) \<Rightarrow> (char \<Rightarrow> bool) \<Rightarrow> instant \<Rightarrow> owners_query \<Rightarrow> sdb \<Rightarrow> owners_page" where
  "list_owners has space now q d =
     (let page = orelse (oq_page q) 1; limit = orelse (oq_limit q) 20; wd = sd_wd d;
          P = (\<lambda>a. owner_where has space q wd a);
          W = (\<lambda>a. P a \<and> (case oq_status q of None \<Rightarrow> True | Some s \<Rightarrow> lu_status a = s)) in
      \<lparr>op_items = map (summarizeOwner now wd) (take limit (drop ((page - 1) * limit) (find_many W (\<lambda>a. - lu_createdAt a) (sd_users d)))),
       op_page = page, op_limit = limit, op_totalCount = length (filter W (sd_users d)),
       op_statusCounts = map (\<lambda>s. (s, length (filter (\<lambda>a. P a \<and> lu_status a = s) (sd_users d))))
         [user_status.ACTIVE, user_status.SUSPENDED, user_status.DELETED]\<rparr>)"

record owner_detail =
  oi_summary :: owner_summary
  oi_suspendedReason :: "string option"
  oi_suspendedAt :: "instant option"
  oi_activityLog :: "auth_event list"

definition getById_owner :: "instant \<Rightarrow> id \<Rightarrow> sdb \<Rightarrow> owner_detail result" where
  "getById_owner now userId d =
     rbind (requireOwnerAccount userId d) (\<lambda>a.
     let s = summarizeOwner now (sd_wd d) a;
         log = find_many (\<lambda>e. ae_entityId e = userId \<or> (truthy (os_businessId s) \<and> Some (ae_entityId e) = os_businessId s))
           (\<lambda>e. - ae_createdAt e) (sd_audit d);
         last = (if lu_status a = user_status.SUSPENDED then find (\<lambda>e. ae_action e = ''USER_SUSPENDED'') log else None) in
     Inr \<lparr>oi_summary = s, oi_suspendedReason = Option.bind last ae_reason, oi_suspendedAt = map_option ae_createdAt last, oi_activityLog = log\<rparr>)"

section \<open>Suspending, activating, another plan\<close>

definition set_status :: "user_status \<Rightarrow> id \<Rightarrow> sdb \<Rightarrow> sdb result" where
  "set_status s userId d = rbind (update_row lu_id userId (\<lambda>a. a\<lparr>lu_status := s\<rparr>) (sd_users d)) (\<lambda>us. Inr (d\<lparr>sd_users := us\<rparr>))"

definition suspend :: "better_auth \<Rightarrow> instant \<Rightarrow> id \<Rightarrow> string \<Rightarrow> id \<Rightarrow> string option \<Rightarrow> sdb \<Rightarrow> sdb result" where
  "suspend B now userId reason adminId ip d =
     rbind (requireOwnerAccount userId d) (\<lambda>_.
     rbind (set_status user_status.SUSPENDED userId d) (\<lambda>d.
     Inr (revokeAllForUser B userId (log_reason now adminId ''USER_SUSPENDED'' ''User'' userId (Some reason) ip d))))"

definition activate :: "instant \<Rightarrow> id \<Rightarrow> id \<Rightarrow> string option \<Rightarrow> sdb \<Rightarrow> sdb result" where
  "activate now userId adminId ip d =
     rbind (requireOwnerAccount userId d) (\<lambda>_.
     rbind (set_status user_status.ACTIVE userId d) (\<lambda>d. Inr (log_event now adminId ''USER_ACTIVATED'' ''User'' userId ip d)))"

definition changePlan :: "instant \<Rightarrow> id \<Rightarrow> id \<Rightarrow> string \<Rightarrow> id \<Rightarrow> string option \<Rightarrow> sdb \<Rightarrow> sdb result" where
  "changePlan now userId newPlanId reason adminId ip d =
     rbind (requireOwnerAccount userId d) (\<lambda>_.
     case main_business (owned userId (sd_wd d)) of
       None \<Rightarrow> Inl (NotFound ''This owner has no workspace to change the plan for'')
     | Some b \<Rightarrow>
         rbind (check (find_row pl_id newPlanId (wd_plans (sd_wd d)) \<noteq> None) (BadRequest ''Target plan does not exist'')) (\<lambda>_.
         rbind (update_row wk_id (wk_id b) (\<lambda>b. b\<lparr>wk_planId := Some newPlanId\<rparr>) (wd_businesses (sd_wd d))) (\<lambda>bs.
         Inr (log_reason now adminId ''BUSINESS_PLAN_CHANGED'' ''Business'' (wk_id b) (Some reason) ip
           (d\<lparr>sd_wd := (sd_wd d)\<lparr>wd_businesses := bs\<rparr>\<rparr>)))))"

section \<open>Resetting the books\<close>

text \<open>An account that an entry of another workspace's transaction named could not be deleted.\<close>

definition wipe_books :: "id \<Rightarrow> db \<Rightarrow> db result" where
  "wipe_books b x =
     (let mine = tx_id ` {t \<in> set (txns x). tx_businessId t = b};
          es = filter (\<lambda>e. en_transactionId e \<notin> mine) (entries x);
          gone = acc_id ` {a \<in> set (accounts x). acc_businessId a = b};
          cleared = update_many (\<lambda>a. acc_businessId a = b) (\<lambda>a. a\<lparr>acc_parentId := None\<rparr>) (accounts x) in
      rbind (check (\<not> list_ex (\<lambda>e. en_accountId e \<in> gone) es) (DbError ''P2003'')) (\<lambda>_.
      Inr (x\<lparr>entries := es, goal_entries := filter (\<lambda>g. ge_businessId g \<noteq> b) (goal_entries x),
        txns := filter (\<lambda>t. tx_businessId t \<noteq> b) (txns x), goals := filter (\<lambda>g. g_businessId g \<noteq> b) (goals x),
        contacts := filter (\<lambda>c. ct_businessId c \<noteq> b) (contacts x), assets := filter (\<lambda>a. as_businessId a \<noteq> b) (assets x),
        budget_categories := filter (\<lambda>c. bc_businessId c \<noteq> b) (budget_categories x),
        income_goals := filter (\<lambda>g. ig_businessId g \<noteq> b) (income_goals x),
        accounts := filter (\<lambda>a. acc_businessId a \<noteq> b) cleared\<rparr>)))"

definition with_books :: "db \<Rightarrow> sdb \<Rightarrow> sdb" where
  "with_books x d = d\<lparr>sd_wd := (sd_wd d)\<lparr>wd_rd := (wd_rd (sd_wd d))\<lparr>rd_books := x\<rparr>\<rparr>\<rparr>"

definition resetOwnerData :: "id_source \<Rightarrow> instant \<Rightarrow> id \<Rightarrow> id \<Rightarrow> string option \<Rightarrow> odb \<Rightarrow> (odb \<times> id) result" where
  "resetOwnerData gen now userId adminId ip d =
     rbind (requireOwnerAccount userId (od_sd d)) (\<lambda>_.
     case main_business (owned userId (sd_wd (od_sd d))) of
       None \<Rightarrow> Inl (NotFound ''This owner has no workspace to reset'')
     | Some b \<Rightarrow>
         let i = wk_id b; mine = as_id ` {a \<in> set (assets (od_books d)). as_businessId a = i} in
         rbind (wipe_books i (od_books d)) (\<lambda>x.
         rbind (seedDefaultAccounts gen now i (wk_type b) (wd_templates (sd_wd (od_sd d))) x) (\<lambda>x.
         Inr (d\<lparr>od_history := filter (\<lambda>v. av_assetId v \<notin> mine) (od_history d),
             od_categories := filter (\<lambda>k. ak_businessId k \<noteq> i) (od_categories d), od_targets := (od_targets d)(i := None),
             od_sd := log_event now adminId ''OWNER_DATA_RESET'' ''Business'' i ip (with_books x (od_sd d))\<rparr>, i))))"

section \<open>What they promise\<close>

lemma set_status_Inr:
  "set_status s u d = Inr d' \<longleftrightarrow> u \<in> lu_id ` set (sd_users d) \<and> d' = d\<lparr>sd_users := map_row lu_id u (\<lambda>a. a\<lparr>lu_status := s\<rparr>) (sd_users d)\<rparr>"
  by (auto simp: set_status_def rbind_eq_Inr update_row_eq_Inr)

text \<open>Another plan is a step of the workspaces' runs, so their invariant goes through it.\<close>

lemma changePlan_continues:
  assumes "workspaces_run C (sd_wd d # past)" and "changePlan now userId newPlanId reason adminId ip d = Inr d'"
  shows "workspaces_run C (sd_wd d' # sd_wd d # past)"
proof -
  from assms(2) obtain b :: workspace_row where wd: "sd_wd d' = (sd_wd d)\<lparr>wd_businesses := map_row wk_id (wk_id b) (\<lambda>b. b\<lparr>wk_planId := Some newPlanId\<rparr>) (wd_businesses (sd_wd d))\<rparr>"
    unfolding changePlan_def log_reason_def by (auto simp: rbind_eq_Inr check_eq_Inr update_row_eq_Inr split: option.splits)
  show ?thesis by (rule elsewhere [OF assms(1)]) (simp_all add: wd with_plan_of_one)
qed

lemma guard_status:
  assumes "user_auth_guard C now rq d = Inr ru"
  shows "\<exists>a. find_row lu_id (ru_id ru) (sd_users d) = Some a \<and> lu_status a = user_status.ACTIVE \<and> lu_role a = USER"
proof -
  from assms obtain s where s: "authenticate C User_Side now rq d = Inr s"
    and a: "ru_id ru = lu_id (au_user s)" "lu_status (au_user s) = user_status.ACTIVE" "lu_role (au_user s) = USER"
    unfolding user_auth_guard_Inr by auto
  from s obtain c :: session_claims and r a' where f: "findActive now (sc_sid c) d = Some (r, a')"
    and s': "s = \<lparr>au_user = a', au_sessionId = se_id r, au_impersonatedBy = se_impersonatedBy r\<rparr>"
    unfolding authenticate_Inr by blast
  from f have row: "find_row lu_id (se_userId r) (sd_users d) = Some a'" by (simp add: findActive_Some)
  from find_row_Some [OF row] have "lu_id a' = se_userId r" by simp
  with row a s' show ?thesis by simp
qed

text \<open>
  C25: a suspended owner is out at once and stays out: none of their sessions is left, and while the users stay as they
  are no token opens the app for them, whatever sessions come to be, and their own password is answered with the suspension.
\<close>

theorem suspended_owner_is_out:
  assumes "better_auth_ok C B" and "suspend B now u reason admin ip d = Inr d'" and "sd_users there = sd_users d'"
    and "keyed lu_id (sd_users d)" and "find_row lu_email email (sd_users there) = Some a" and "lu_id a = u"
  shows "filter (\<lambda>s. se_userId s = u) (sd_sessions d') = [] \<and>
    (\<forall>ru. user_auth_guard C later rq there = Inr ru \<longrightarrow> ru_id ru \<noteq> u) \<and>
    fst (login C B w email password there) = Inl (Forbidden suspended_message)"
proof -
  let ?f = "\<lambda>a :: login_user. a\<lparr>lu_status := user_status.SUSPENDED\<rparr>"
  from assms(2) obtain a0 where a0: "find_row lu_id u (filter is_owner (sd_users d)) = Some a0"
    and us: "sd_users d' = map_row lu_id u ?f (sd_users d)"
    and ss: "sd_sessions d' = filter (\<lambda>s. se_userId s \<noteq> u) (sd_sessions d)"
    by (auto simp: suspend_def rbind_eq_Inr set_status_Inr revokeAllForUser_def log_reason_def requireOwnerAccount_def
        better_auth_laws(2) [OF assms(1)] split: option.splits)
  from find_row_Some [OF a0] have mem: "a0 \<in> set (sd_users d)" "lu_id a0 = u" "lu_role a0 = USER" by (auto simp: is_owner_def)
  have "find_row lu_id u (sd_users d) = Some a0" using find_row_mem [OF assms(4) mem(1)] mem(2) by simp
  then have row: "find_row lu_id u (sd_users there) = Some (?f a0)"
    unfolding assms(3) us by (subst find_row_map_row) simp_all
  have "ru_id ru \<noteq> u" if "user_auth_guard C later rq there = Inr ru" for ru
    using guard_status [OF that] row by auto
  moreover have "a = ?f a0"
  proof -
    have "map lu_id (sd_users there) = map lu_id (sd_users d)" unfolding assms(3) us by (rule map_row_proj) simp
    then have "keyed lu_id (sd_users there)" using assms(4) by (simp add: keyed_def)
    from find_row_mem [OF this, of a] find_row_Some [OF assms(5)] assms(6) row show ?thesis by simp
  qed
  then have "fst (login C B w email password there) = Inl (Forbidden suspended_message)"
    using assms(5) mem(3) by (simp add: login_def Let_def)
  ultimately show ?thesis using ss by (simp add: filter_empty_conv)
qed

section \<open>A reset and the other books\<close>

lemma seedDefaultAccounts_only_accounts:
  assumes "seedDefaultAccounts gen now b ty tpls x = Inr x'"
  shows "x' = x\<lparr>accounts := accounts x'\<rparr>"
  using assms by (auto simp: seedDefaultAccounts_def Let_def rbind_eq_Inr)

text \<open>
  A reset leaves an owner's main workspace as new: its only rows are the accounts of the templates, none of them
  with a balance, and not one row of another workspace is changed, in any table.
\<close>

theorem reset_starts_over:
  assumes "resetOwnerData gen now u admin ip d = Inr (d', i)"
  shows "(\<exists>new. accounts (od_books d') = filter (\<lambda>a. acc_businessId a \<noteq> i) (accounts (od_books d)) @ new \<and>
      batch_ok i (acc_id ` set new) new) \<and>
    txns (od_books d') = filter (\<lambda>t. tx_businessId t \<noteq> i) (txns (od_books d)) \<and>
    contacts (od_books d') = filter (\<lambda>c. ct_businessId c \<noteq> i) (contacts (od_books d)) \<and>
    goals (od_books d') = filter (\<lambda>g. g_businessId g \<noteq> i) (goals (od_books d)) \<and>
    assets (od_books d') = filter (\<lambda>a. as_businessId a \<noteq> i) (assets (od_books d)) \<and>
    entries (od_books d') = filter (\<lambda>e. en_transactionId e \<notin> tx_id ` {t \<in> set (txns (od_books d)). tx_businessId t = i}) (entries (od_books d)) \<and>
    i \<in> wk_id ` set (owned u (sd_wd (od_sd d)))"
proof -
  from assms obtain b x y where b: "main_business (owned u (sd_wd (od_sd d))) = Some b" and i: "i = wk_id b"
    and x: "wipe_books i (od_books d) = Inr x"
    and y: "seedDefaultAccounts gen now i (wk_type b) (wd_templates (sd_wd (od_sd d))) x = Inr y"
    and d': "od_books d' = y"
    unfolding resetOwnerData_def Let_def
    by (auto simp: rbind_eq_Inr with_books_def od_books_def log_event_def log_reason_def split: option.splits)
  have owned: "b \<in> set (owned u (sd_wd (od_sd d)))"
    using b unfolding main_business_def by (auto simp: find_Some_iff split: option.splits list.splits)
  have acc: "accounts x = filter (\<lambda>a. acc_businessId a \<noteq> i) (accounts (od_books d))"
  proof -
    have "filter (\<lambda>a. acc_businessId a \<noteq> i) (update_many (\<lambda>a. acc_businessId a = i) (\<lambda>a. a\<lparr>acc_parentId := None\<rparr>) as) =
        filter (\<lambda>a. acc_businessId a \<noteq> i) as" for as :: "account list"
      by (induction as) (auto simp: update_many_def)
    with x show ?thesis by (auto simp: wipe_books_def Let_def rbind_eq_Inr check_eq_Inr)
  qed
  from seedDefaultAccounts_shape [OF y] obtain new where "accounts y = accounts x @ new" "batch_ok i (acc_id ` set new) new" by blast
  moreover have "txns x = filter (\<lambda>t. tx_businessId t \<noteq> i) (txns (od_books d)) \<and>
    contacts x = filter (\<lambda>c. ct_businessId c \<noteq> i) (contacts (od_books d)) \<and>
    goals x = filter (\<lambda>g. g_businessId g \<noteq> i) (goals (od_books d)) \<and>
    assets x = filter (\<lambda>a. as_businessId a \<noteq> i) (assets (od_books d)) \<and>
    entries x = filter (\<lambda>e. en_transactionId e \<notin> tx_id ` {t \<in> set (txns (od_books d)). tx_businessId t = i}) (entries (od_books d))"
    using x by (auto simp: wipe_books_def Let_def rbind_eq_Inr check_eq_Inr)
  moreover have "txns y = txns x" "contacts y = contacts x" "goals y = goals x" "assets y = assets x" "entries y = entries x"
    by (subst seedDefaultAccounts_only_accounts [OF y], simp)+
  moreover have "i \<in> wk_id ` set (owned u (sd_wd (od_sd d)))" by (rule image_eqI [where f = wk_id, OF i owned])
  ultimately show ?thesis using acc unfolding d' by metis
qed

text \<open>Examples.\<close>

definition suspended_people :: sdb where
  "suspended_people = (case suspend (plain_auth plain_crypto) 7000 ''u'' ''Spam!'' ''a'' None (snd after_login) of Inr d \<Rightarrow> d | Inl e \<Rightarrow> sample_people)"

theorem suspended_owner_is_out_witness:
  "sd_sessions (snd after_login) \<noteq> [] \<and> filter (\<lambda>s. se_userId s = ''u'') (sd_sessions suspended_people) = [] \<and>
   fst (login plain_crypto (plain_auth plain_crypto) (sample_draws 8000) ''u@x'' ''secret1'' suspended_people) = Inl (Forbidden suspended_message)"
proof -
  have "case suspend (plain_auth plain_crypto) 7000 ''u'' ''Spam!'' ''a'' None (snd after_login) of Inl e \<Rightarrow> False | Inr d \<Rightarrow> True" by code_simp
  then have s: "suspend (plain_auth plain_crypto) 7000 ''u'' ''Spam!'' ''a'' None (snd after_login) = Inr suspended_people"
    by (auto simp: suspended_people_def split: sum.splits)
  have k: "keyed lu_id (sd_users (snd after_login))" by code_simp
  have "case find_row lu_email ''u@x'' (sd_users suspended_people) of None \<Rightarrow> False | Some a \<Rightarrow> lu_id a = ''u''" by code_simp
  then obtain a where a: "find_row lu_email ''u@x'' (sd_users suspended_people) = Some a" "lu_id a = ''u''"
    by (auto split: option.splits)
  have "sd_sessions (snd after_login) \<noteq> []" by code_simp
  with suspended_owner_is_out [OF plain_auth_ok s refl k a] show ?thesis by blast
qed

definition reset_day :: "(odb \<times> id) result" where
  "reset_day = resetOwnerData (sample_gen CHR ''n'') 9000 ''u'' ''a'' None
     \<lparr>od_sd = snd after_login, od_history = [], od_categories = [], od_targets = Map.empty\<rparr>"

theorem reset_starts_over_witness: "\<exists>d. reset_day = Inr (d, ''w'') \<and> txns (od_books d) = []"
proof -
  have "case reset_day of Inl e \<Rightarrow> False | Inr (d, i) \<Rightarrow> i = ''w'' \<and> txns (od_books (\<lparr>od_sd = snd after_login, od_history = [], od_categories = [], od_targets = Map.empty\<rparr> :: odb)) = []"
    by code_simp
  then obtain d where d: "reset_day = Inr (d, ''w'')"
    and none: "txns (od_books (\<lparr>od_sd = snd after_login, od_history = [], od_categories = [], od_targets = Map.empty\<rparr> :: odb)) = []"
    by (auto split: sum.splits prod.splits)
  from reset_starts_over [OF d [unfolded reset_day_def]] none have "txns (od_books d) = []" by simp
  with d show ?thesis by blast
qed

end
