(* ===== verification/Templates.thy ===== *)
theory Templates
  imports Session_Facts
begin

text \<open>
  The templates of the chart of accounts every new workspace starts with
  (src/account-templates/account-templates.service.ts). Two of them are load-bearing: what is owed to
  and by a workspace is posted through the accounts they seed. A null sent for a name, a type, the
  workspace types, the order or the active mark is not modelled.
\<close>

section \<open>Requests\<close>

record create_template_dto =
  cp_name :: string
  cp_nameBn :: string
  cp_accountType :: account_type
  cp_accountSubtype :: "string option"
  cp_parentId :: "id option"
  cp_appliesTo :: "workspace_type list"
  cp_displayOrder :: "int option"
  cp_isActive :: "bool option"

record update_template_dto =
  up_name :: "string option"
  up_nameBn :: "string option"
  up_accountType :: "account_type option"
  up_accountSubtype :: "string option option"
  up_parentId :: "id option option"
  up_appliesTo :: "workspace_type list option"
  up_displayOrder :: "int option"
  up_isActive :: "bool option"

definition isLoadBearing :: "account_template \<Rightarrow> bool" where
  "isLoadBearing t \<longleftrightarrow> subtype_in RESERVED_ACCOUNT_SUBTYPES (tpl_accountSubtype t)"

definition LOAD_BEARING_MESSAGE :: string where
  "LOAD_BEARING_MESSAGE = ''This template seeds the Accounts Receivable/Payable every workspace posts through, so it cannot be deactivated, re-typed or removed from a workspace type. Its name can still change.''"

section \<open>Operations\<close>

text \<open>Top-level templates by type and order, each with its children.\<close>

definition type_rank :: "account_type \<Rightarrow> nat" where
  "type_rank ty = (case ty of ASSET \<Rightarrow> 0 | LIABILITY \<Rightarrow> 1 | EQUITY \<Rightarrow> 2 | account_type.INCOME \<Rightarrow> 3 | account_type.EXPENSE \<Rightarrow> 4)"

definition list_templates :: "account_template list \<Rightarrow> (account_template \<times> account_template list) list" where
  "list_templates ts =
     map (\<lambda>t. (t, find_many (\<lambda>c. tpl_parentId c = Some (tpl_id t)) tpl_displayOrder ts))
       (find_many (\<lambda>t. tpl_parentId t = None) (\<lambda>t. (type_rank (tpl_accountType t), tpl_displayOrder t)) ts)"

definition requireParent :: "id \<Rightarrow> account_type \<Rightarrow> account_template list \<Rightarrow> unit result" where
  "requireParent parentId accountType ts =
     (case find_row tpl_id parentId ts of
        None \<Rightarrow> Inl (BadRequest ''Parent template not found'')
      | Some parent \<Rightarrow>
          rbind (check (\<not> truthy (tpl_parentId parent)) (BadRequest ''Templates nest one level deep -- pick a top-level parent'')) (\<lambda>_.
          check (tpl_accountType parent = accountType) (BadRequest (''The parent must also be of type '' @ account_type_text accountType))))"

definition requireTemplate :: "id \<Rightarrow> account_template list \<Rightarrow> account_template result" where
  "requireTemplate i ts = (case find_row tpl_id i ts of None \<Rightarrow> Inl (NotFound ''Account template not found'') | Some t \<Rightarrow> Inr t)"

definition reserved_message :: "string option \<Rightarrow> http_error" where
  "reserved_message s = BadRequest (quoted (orelse s []) @ '' is reserved for the account the app already seeds.'')"

definition create_template :: "id \<Rightarrow> create_template_dto \<Rightarrow> account_template list \<Rightarrow> account_template list result" where
  "create_template newId dto ts =
     rbind (check (\<not> subtype_in RESERVED_ACCOUNT_SUBTYPES (cp_accountSubtype dto)) (reserved_message (cp_accountSubtype dto))) (\<lambda>_.
     rbind (if truthy (cp_parentId dto) then requireParent (the (cp_parentId dto)) (cp_accountType dto) ts else Inr ()) (\<lambda>_.
     rbind (check (case cp_parentId dto of None \<Rightarrow> True | Some p \<Rightarrow> p \<in> tpl_id ` set ts) (DbError ''P2003'')) (\<lambda>_.
     insert_row tpl_id \<lparr>tpl_id = newId, tpl_name = cp_name dto, tpl_nameBn = cp_nameBn dto, tpl_accountType = cp_accountType dto,
       tpl_accountSubtype = cp_accountSubtype dto, tpl_parentId = cp_parentId dto, tpl_appliesTo = cp_appliesTo dto,
       tpl_displayOrder = orelse (cp_displayOrder dto) 0, tpl_isActive = orelse (cp_isActive dto) True\<rparr> ts)))"

definition changes_shape :: "update_template_dto \<Rightarrow> account_template \<Rightarrow> bool" where
  "changes_shape dto existing \<longleftrightarrow>
     (up_accountType dto \<noteq> None \<and> up_accountType dto \<noteq> Some (tpl_accountType existing)) \<or>
     (up_accountSubtype dto \<noteq> None \<and> up_accountSubtype dto \<noteq> Some (tpl_accountSubtype existing)) \<or>
     up_isActive dto = Some False \<or>
     (case up_appliesTo dto of None \<Rightarrow> False | Some tys \<Rightarrow> list_ex (\<lambda>ty. ty \<notin> set tys) (tpl_appliesTo existing))"

definition edited_template :: "update_template_dto \<Rightarrow> account_template \<Rightarrow> account_template" where
  "edited_template dto t =
     t\<lparr>tpl_name := orelse (up_name dto) (tpl_name t), tpl_nameBn := orelse (up_nameBn dto) (tpl_nameBn t),
       tpl_accountType := orelse (up_accountType dto) (tpl_accountType t),
       tpl_accountSubtype := orelse (up_accountSubtype dto) (tpl_accountSubtype t),
       tpl_parentId := orelse (up_parentId dto) (tpl_parentId t), tpl_appliesTo := orelse (up_appliesTo dto) (tpl_appliesTo t),
       tpl_displayOrder := orelse (up_displayOrder dto) (tpl_displayOrder t), tpl_isActive := orelse (up_isActive dto) (tpl_isActive t)\<rparr>"

definition update_template :: "instant \<Rightarrow> id \<Rightarrow> update_template_dto \<Rightarrow> id \<Rightarrow> string option \<Rightarrow> sdb \<Rightarrow> sdb result" where
  "update_template now i dto adminId ip d =
     (let ts = wd_templates (sd_wd d); parent = orelse (up_parentId dto) None in
      rbind (requireTemplate i ts) (\<lambda>existing.
      rbind (if isLoadBearing existing then check (\<not> changes_shape dto existing) (BadRequest LOAD_BEARING_MESSAGE)
             else check (\<not> subtype_in RESERVED_ACCOUNT_SUBTYPES (orelse (up_accountSubtype dto) None))
               (reserved_message (orelse (up_accountSubtype dto) None))) (\<lambda>_.
      rbind (if truthy parent then
               rbind (check (the parent \<noteq> i) (BadRequest ''A template cannot be its own parent'')) (\<lambda>_.
               rbind (requireParent (the parent) (orelse (up_accountType dto) (tpl_accountType existing)) ts) (\<lambda>_.
               check (filter (\<lambda>t. tpl_parentId t = Some i) ts = [])
                 (BadRequest ''A template with sub-accounts cannot be moved under another one'')))
             else Inr ()) (\<lambda>_.
      rbind (check (case parent of None \<Rightarrow> True | Some p \<Rightarrow> p \<in> tpl_id ` set ts) (DbError ''P2003'')) (\<lambda>_.
      rbind (update_row tpl_id i (edited_template dto) ts) (\<lambda>ts.
      Inr (log_event now adminId ''ACCOUNT_TEMPLATE_UPDATED'' ''DefaultAccountTemplate'' i ip (d\<lparr>sd_wd := (sd_wd d)\<lparr>wd_templates := ts\<rparr>\<rparr>))))))))"

definition deactivate_template :: "instant \<Rightarrow> id \<Rightarrow> id \<Rightarrow> string option \<Rightarrow> sdb \<Rightarrow> sdb result" where
  "deactivate_template now i adminId ip d =
     (let ts = wd_templates (sd_wd d) in
      rbind (requireTemplate i ts) (\<lambda>existing.
      rbind (check (\<not> isLoadBearing existing) (BadRequest LOAD_BEARING_MESSAGE)) (\<lambda>_.
      rbind (update_row tpl_id i (\<lambda>t. t\<lparr>tpl_isActive := False\<rparr>) ts) (\<lambda>ts.
      Inr (log_event now adminId ''ACCOUNT_TEMPLATE_UPDATED'' ''DefaultAccountTemplate'' i ip (d\<lparr>sd_wd := (sd_wd d)\<lparr>wd_templates := ts\<rparr>\<rparr>))))))"

section \<open>What new workspaces can rely on\<close>

text \<open>A template of the subtype, active, for workspaces of the type.\<close>

definition seeds :: "string \<Rightarrow> workspace_type \<Rightarrow> account_template list \<Rightarrow> bool" where
  "seeds s ws ts \<longleftrightarrow> (\<exists>t\<in>set ts. tpl_accountSubtype t = Some s \<and> tpl_isActive t \<and> ws \<in> set (tpl_appliesTo t))"

definition templates_of :: "sdb \<Rightarrow> account_template list" where
  "templates_of d = wd_templates (sd_wd d)"

lemma templates_of_simps [simp]:
  "templates_of (log_event now admin action ty i ip d) = templates_of d"
  "templates_of (d\<lparr>sd_wd := (sd_wd d)\<lparr>wd_templates := ts\<rparr>\<rparr>) = ts"
  by (simp_all add: templates_of_def log_event_def log_reason_def)

inductive templates_step :: "sdb \<Rightarrow> sdb \<Rightarrow> bool" where
  created_template: "create_template newId dto (templates_of d) = Inr ts \<Longrightarrow> templates_step d (d\<lparr>sd_wd := (sd_wd d)\<lparr>wd_templates := ts\<rparr>\<rparr>)"
| updated_template: "update_template now i dto' admin ip d = Inr d' \<Longrightarrow> templates_step d d'"
| deactivated_template: "deactivate_template now i admin ip d = Inr d' \<Longrightarrow> templates_step d d'"

lemma seeds_map:
  assumes "seeds s ws ts" and k: "keyed tpl_id ts" and "\<And>t. tpl_id (f t) = tpl_id t"
    and "\<And>t. t \<in> set ts \<Longrightarrow> tpl_id t = i \<Longrightarrow> tpl_accountSubtype t = Some s \<Longrightarrow> tpl_isActive t \<Longrightarrow> ws \<in> set (tpl_appliesTo t) \<Longrightarrow>
      tpl_accountSubtype (f t) = Some s \<and> tpl_isActive (f t) \<and> ws \<in> set (tpl_appliesTo (f t))"
  shows "seeds s ws (map_row tpl_id i f ts)"
proof -
  from assms(1) obtain t where t: "t \<in> set ts" "tpl_accountSubtype t = Some s" "tpl_isActive t" "ws \<in> set (tpl_appliesTo t)"
    by (auto simp: seeds_def)
  let ?t = "if tpl_id t = i then f t else t"
  have "?t \<in> set (map_row tpl_id i f ts)" using t(1) by (auto simp: set_map_row)
  moreover have "tpl_accountSubtype ?t = Some s \<and> tpl_isActive ?t \<and> ws \<in> set (tpl_appliesTo ?t)" using t assms(4) by simp
  ultimately show ?thesis unfolding seeds_def by blast
qed

lemma template_row:
  assumes "keyed tpl_id ts" and "requireTemplate i ts = Inr e" and "t \<in> set ts" and "tpl_id t = i"
  shows "t = e"
  using find_row_mem [OF assms(1,3)] assms(2,4) by (simp add: requireTemplate_def)

lemma keyed_map_row_id:
  assumes "keyed tpl_id ts" and "\<And>t. tpl_id (f t) = tpl_id t"
  shows "keyed tpl_id (map_row tpl_id i f ts)"
proof -
  have "map tpl_id (map_row tpl_id i f ts) = map tpl_id ts" by (rule map_row_proj) (rule assms(2))
  with assms(1) show ?thesis by (simp add: keyed_def)
qed

lemma templates_step_seeds:
  assumes step: "templates_step d d'" and k: "keyed tpl_id (templates_of d)" and s: "s \<in> set RESERVED_ACCOUNT_SUBTYPES"
  shows "keyed tpl_id (templates_of d') \<and> (seeds s ws (templates_of d) \<longrightarrow> seeds s ws (templates_of d'))"
  using step k
proof cases
  case (created_template newId dto ts)
  from created_template(2) obtain t where "ts = templates_of d @ [t]" "tpl_id t \<notin> tpl_id ` set (templates_of d)"
    unfolding create_template_def rbind_eq_Inr insert_row_eq_Inr by blast
  with k created_template(1) show ?thesis by (auto simp: seeds_def keyed_def)
next
  case (updated_template now i dto admin ip)
  then obtain e where e: "requireTemplate i (templates_of d) = Inr e"
    and shape: "isLoadBearing e \<Longrightarrow> \<not> changes_shape dto e"
    and d': "templates_of d' = map_row tpl_id i (edited_template dto) (templates_of d)"
    unfolding update_template_def Let_def templates_of_def [symmetric]
    by (auto simp: rbind_eq_Inr check_eq_Inr update_row_eq_Inr split: if_splits)
  have same: "tpl_id (edited_template dto t) = tpl_id t" for t by (simp add: edited_template_def)
  have keep: "tpl_accountSubtype (edited_template dto t) = Some s \<and> tpl_isActive (edited_template dto t) \<and> ws \<in> set (tpl_appliesTo (edited_template dto t))"
    if t: "t \<in> set (templates_of d)" "tpl_id t = i" "tpl_accountSubtype t = Some s" "tpl_isActive t" "ws \<in> set (tpl_appliesTo t)" for t
  proof -
    have "t = e" by (rule template_row [OF k e t(1,2)])
    moreover have "isLoadBearing t" using s t(3) by (auto simp: isLoadBearing_def subtype_in_def account_constants)
    ultimately have "\<not> changes_shape dto t" using shape by simp
    with t(3-5) show ?thesis
      by (auto simp: changes_shape_def edited_template_def list_ex_iff orelse_def split: option.splits)
  qed
  show ?thesis unfolding d' using keyed_map_row_id [OF k same] seeds_map [OF _ k same keep] by blast
next
  case (deactivated_template now i admin ip)
  then obtain e where e: "requireTemplate i (templates_of d) = Inr e" and free: "\<not> isLoadBearing e"
    and d': "templates_of d' = map_row tpl_id i (\<lambda>t. t\<lparr>tpl_isActive := False\<rparr>) (templates_of d)"
    unfolding deactivate_template_def Let_def templates_of_def [symmetric]
    by (auto simp: rbind_eq_Inr check_eq_Inr update_row_eq_Inr)
  have no: "\<not> tpl_accountSubtype t = Some s" if t: "t \<in> set (templates_of d)" "tpl_id t = i" for t
  proof
    assume "tpl_accountSubtype t = Some s"
    then have "isLoadBearing t" using s by (auto simp: isLoadBearing_def subtype_in_def account_constants)
    with template_row [OF k e t] free show False by simp
  qed
  have same: "tpl_id (t\<lparr>tpl_isActive := False\<rparr>) = tpl_id t" for t :: account_template by simp
  show ?thesis unfolding d' using keyed_map_row_id [OF k same] seeds_map [OF _ k same] no by blast
qed

lemma wire_subtypes: "rfold (wire_parent ids) ts rows = Inr rows' \<Longrightarrow> map acc_accountSubtype rows' = map acc_accountSubtype rows"
proof (induction ts arbitrary: rows)
  case (Cons t ts)
  from Cons.prems obtain mid where mid: "wire_parent ids t rows = Inr mid" and rest: "rfold (wire_parent ids) ts mid = Inr rows'"
    by (auto simp: result_simps)
  from mid have "map acc_accountSubtype mid = map acc_accountSubtype rows"
    by (auto simp: wire_parent_def update_row_eq_Inr map_row_def set_parent_def comp_def split: if_splits option.splits)
  with Cons.IH [OF rest] show ?case by simp
qed auto

lemma seeded_subtypes:
  assumes "seedDefaultAccounts gen now b ws tpls db = Inr db'"
  shows "map acc_accountSubtype (accounts db') = map acc_accountSubtype (accounts db) @ map tpl_accountSubtype (seed_templates ws tpls)"
proof -
  define f where "f = (\<lambda>x. template_account (gen (fst x)) now b (snd x))"
  from assms obtain created where c: "rfold (\<lambda>x. insert_account (f x)) (seed_numbered ws tpls) (accounts db) = Inr created"
    and w: "rfold (wire_parent (template_account_ids gen (seed_numbered ws tpls))) (map snd (seed_numbered ws tpls)) created = Inr (accounts db')"
    unfolding seedDefaultAccounts_def Let_def f_def by (auto simp: rbind_eq_Inr)
  from rfold_insert_accounts [OF c] have "created = accounts db @ map f (seed_numbered ws tpls)" by simp
  moreover have "map tpl_accountSubtype (map snd (seed_numbered ws tpls)) = map tpl_accountSubtype (seed_templates ws tpls)"
    by (simp add: seed_numbered_def Let_def)
  ultimately show ?thesis
    unfolding wire_subtypes [OF w] by (simp add: f_def template_account_def comp_def)
qed

text \<open>
  C26: whatever administrators do to the templates, a new workspace still gets the accounts it posts through: a reserved
  subtype seeded at the start, for a type of workspace, is seeded in every workspace of the type opened later.
\<close>

theorem load_bearing_accounts_stay:
  assumes "templates_step\<^sup>*\<^sup>* d d'" and "keyed tpl_id (templates_of d)" and "s \<in> set RESERVED_ACCOUNT_SUBTYPES"
    and "seeds s ws (templates_of d)" and "seedDefaultAccounts gen now b ws (templates_of d') x = Inr y"
  shows "Some s \<in> acc_accountSubtype ` set (drop (length (accounts x)) (accounts y))"
proof -
  from assms(1,2) have "keyed tpl_id (templates_of d') \<and> seeds s ws (templates_of d')"
  proof (induction rule: rtranclp_induct)
    case base
    with assms(4) show ?case by simp
  next
    case (step y z)
    with templates_step_seeds [OF step.hyps(2) _ assms(3)] show ?case by blast
  qed
  then obtain t where t: "t \<in> set (templates_of d')" "tpl_accountSubtype t = Some s" "tpl_isActive t" "ws \<in> set (tpl_appliesTo t)"
    by (auto simp: seeds_def)
  have "s \<notin> set MONEY_ACCOUNT_SUBTYPES" using assms(3) by (auto simp: account_constants)
  with t have "t \<in> set (seed_templates ws (templates_of d'))" by (simp add: seed_templates_def find_many_def)
  then have "Some s \<in> set (map tpl_accountSubtype (seed_templates ws (templates_of d')))" using t(2) by force
  moreover have "map acc_accountSubtype (drop (length (accounts x)) (accounts y)) = map tpl_accountSubtype (seed_templates ws (templates_of d'))"
    using seeded_subtypes [OF assms(5)] by (simp add: drop_map [symmetric] append_eq_conv_conj)
  ultimately show ?thesis by (metis set_map)
qed

text \<open>
  The type of a template that has a parent, or children, can be changed alone: parent and child are then of different
  types, which \<open>requireParent\<close> is there to prevent.
\<close>

definition shelf_templates :: sdb where
  "shelf_templates = sample_people\<lparr>sd_wd := (sd_wd sample_people)\<lparr>wd_templates :=
     [\<lparr>tpl_id = ''p'', tpl_name = ''Assets'', tpl_nameBn = [], tpl_accountType = ASSET, tpl_accountSubtype = None, tpl_parentId = None,
       tpl_appliesTo = [PERSONAL], tpl_displayOrder = 0, tpl_isActive = True\<rparr>,
      \<lparr>tpl_id = ''c'', tpl_name = ''Dues'', tpl_nameBn = [], tpl_accountType = ASSET, tpl_accountSubtype = Some ''receivable'',
       tpl_parentId = Some ''p'', tpl_appliesTo = [PERSONAL], tpl_displayOrder = 1, tpl_isActive = True\<rparr>]\<rparr>\<rparr>"

definition type_dto :: "account_type \<Rightarrow> update_template_dto" where
  "type_dto ty = \<lparr>up_name = None, up_nameBn = None, up_accountType = Some ty, up_accountSubtype = None, up_parentId = None,
     up_appliesTo = None, up_displayOrder = None, up_isActive = None\<rparr>"

definition name_dto :: "string \<Rightarrow> update_template_dto" where
  "name_dto n = \<lparr>up_name = Some n, up_nameBn = None, up_accountType = None, up_accountSubtype = None, up_parentId = None,
     up_appliesTo = None, up_displayOrder = None, up_isActive = None\<rparr>"

lemma parent_retyped_alone:
  "case update_template 1 ''p'' (type_dto LIABILITY) ''a'' None shelf_templates of
     Inl e \<Rightarrow> False
   | Inr d \<Rightarrow> map (\<lambda>t. (tpl_id t, tpl_accountType t, tpl_parentId t)) (templates_of d) =
       [(''p'', LIABILITY, None), (''c'', ASSET, Some ''p'')]"
  by code_simp

definition renamed_templates :: sdb where
  "renamed_templates = (case update_template 1 ''c'' (name_dto ''Owed'') ''a'' None shelf_templates of Inr d \<Rightarrow> d | Inl e \<Rightarrow> shelf_templates)"

theorem load_bearing_accounts_stay_witness:
  "\<exists>y. seedDefaultAccounts (Workspace_Facts.sample_gen CHR ''n'') 2 ''w'' PERSONAL (templates_of renamed_templates) empty_db = Inr y \<and>
     Some ''receivable'' \<in> acc_accountSubtype ` set (drop (length (accounts empty_db)) (accounts y))"
proof -
  have "case update_template 1 ''c'' (name_dto ''Owed'') ''a'' None shelf_templates of Inl e \<Rightarrow> False | Inr d \<Rightarrow> True" by code_simp
  then have "update_template 1 ''c'' (name_dto ''Owed'') ''a'' None shelf_templates = Inr renamed_templates"
    by (auto simp: renamed_templates_def split: sum.splits)
  then have run: "templates_step\<^sup>*\<^sup>* shelf_templates renamed_templates"
    by (intro r_into_rtranclp [of templates_step] updated_template)
  have k: "keyed tpl_id (templates_of shelf_templates)" by code_simp
  have s: "''receivable'' \<in> set RESERVED_ACCOUNT_SUBTYPES" by (simp add: account_constants)
  have "seeds ''receivable'' PERSONAL (templates_of shelf_templates)"
    by (simp add: seeds_def shelf_templates_def templates_of_def)
  note law = load_bearing_accounts_stay [OF run k s this]
  have "case seedDefaultAccounts (Workspace_Facts.sample_gen CHR ''n'') 2 ''w'' PERSONAL (templates_of renamed_templates) empty_db of
      Inl e \<Rightarrow> False | Inr y \<Rightarrow> True"
    by code_simp
  then obtain y where y: "seedDefaultAccounts (Workspace_Facts.sample_gen CHR ''n'') 2 ''w'' PERSONAL (templates_of renamed_templates) empty_db = Inr y"
    by (auto split: sum.splits)
  from law [OF y] y show ?thesis by blast
qed

end
