(* ===== verification/Tickets.thy ===== *)
theory Tickets
  imports Sign_In
begin

text \<open>
  Support tickets (src/tickets/tickets.service.ts): the queue, the conversation, who answers, and the
  figures over them. A ticket is from a customer, or from a user of a legacy table. An edit reads the
  ticket and writes it in two statements: the states are separate arguments. The text matching of the
  database and the order it puts ids in are parameters.
\<close>

section \<open>Rows and requests\<close>

datatype ticket_category = BILLING | TECHNICAL | ACCOUNT | FEATURE_REQUEST | BUG_REPORT | OTHER
datatype ticket_priority = LOW | MEDIUM | HIGH | URGENT
datatype ticket_status = OPEN | IN_PROGRESS | WAITING_ON_USER | RESOLVED | CLOSED
datatype sender_type = ADMIN_SENDER | USER_SENDER

record ticket_row =
  kt_id :: id
  kt_platformUserId :: id
  kt_subject :: string
  kt_category :: ticket_category
  kt_priority :: ticket_priority
  kt_status :: ticket_status
  kt_assignedToAdminId :: "id option"
  kt_createdAt :: instant
  kt_updatedAt :: instant
  kt_resolvedAt :: "instant option"

record message_row =
  km_id :: id
  km_ticketId :: id
  km_senderType :: sender_type
  km_senderId :: id
  km_message :: string
  km_attachmentUrl :: "string option"
  km_createdAt :: instant

record legacy_user =
  lg_id :: id
  lg_name :: string
  lg_email :: string
  lg_plan :: "(id \<times> string) option"

record tkdb =
  kd_tickets :: "ticket_row list"
  kd_messages :: "message_row list"
  kd_legacy :: "legacy_user list"
  kd_sd :: sdb

record create_ticket_dto =
  ct_userId :: id
  ct_subject :: string
  ct_category :: ticket_category
  ct_priority :: "ticket_priority option"
  ct_initialMessage :: string

text \<open>The assignee may be sent as null; a null status or priority, which the database refuses, is not modelled.\<close>

record update_ticket_dto =
  ut_status :: "ticket_status option"
  ut_priority :: "ticket_priority option"
  ut_assignedToAdminId :: "id option option"

datatype status_filter = One_Status ticket_status | In_Queue | Done

definition RESOLVED_STATUSES :: "ticket_status list" where
  "RESOLVED_STATUSES = [RESOLVED, CLOSED]"

section \<open>Who a ticket is from\<close>

record requester =
  rq_id :: id
  rq_name :: string
  rq_email :: string
  rq_plan :: "(id \<times> string) option"

definition plan_name_of :: "wdb \<Rightarrow> id option \<Rightarrow> (id \<times> string) option" where
  "plan_name_of wd i = Option.bind i (\<lambda>i. map_option (\<lambda>p. (pl_id p, pl_name p)) (find_row pl_id i (wd_plans wd)))"

definition is_end_user :: "login_user \<Rightarrow> bool" where
  "is_end_user a \<longleftrightarrow> lu_role a = USER"

definition customer_of :: "tkdb \<Rightarrow> login_user \<Rightarrow> requester" where
  "customer_of d a =
     (let wd = sd_wd (kd_sd d);
          own = find (\<lambda>b. wk_ownerId b = lu_id a \<and> wk_isDefault b \<and> wk_deletedAt b = None) (wd_businesses wd) in
      \<lparr>rq_id = lu_id a, rq_name = lu_name a, rq_email = lu_email a, rq_plan = Option.bind own (\<lambda>b. plan_name_of wd (wk_planId b))\<rparr>)"

definition findRequester :: "tkdb \<Rightarrow> id \<Rightarrow> requester option" where
  "findRequester d i =
     (case find_row lu_id i (filter is_end_user (sd_users (kd_sd d))) of
        Some a \<Rightarrow> Some (customer_of d a)
      | None \<Rightarrow> map_option (\<lambda>l. \<lparr>rq_id = lg_id l, rq_name = lg_name l, rq_email = lg_email l, rq_plan = lg_plan l\<rparr>)
          (find_row lg_id i (kd_legacy d)))"

definition assigned_admin :: "tkdb \<Rightarrow> id option \<Rightarrow> login_user option" where
  "assigned_admin d i = (if truthy i then find_row lu_id (the i) (filter (\<lambda>a. isAdminRole (lu_role a)) (sd_users (kd_sd d))) else None)"

section \<open>Reading\<close>

record ticket_query =
  tq_status :: "status_filter option"
  tq_priority :: "ticket_priority option"
  tq_category :: "ticket_category option"
  tq_assignedToAdminId :: "string option"
  tq_search :: "string option"
  tq_page :: "nat option"
  tq_limit :: "nat option"

record ticket_line =
  ln_ticket :: ticket_row
  ln_lastMessageAt :: "instant option"
  ln_lastMessageFrom :: "sender_type option"
  ln_platformUser :: "requester option"
  ln_assignedAdmin :: "login_user option"

definition in_filter :: "status_filter \<Rightarrow> ticket_status \<Rightarrow> bool" where
  "in_filter f s \<longleftrightarrow>
     (case f of One_Status t \<Rightarrow> s = t | In_Queue \<Rightarrow> s \<in> {OPEN, IN_PROGRESS, WAITING_ON_USER} | Done \<Rightarrow> s \<in> {RESOLVED, CLOSED})"

text \<open>\<open>has hay needle\<close>: the case-insensitive contains of the database.\<close>

definition ticket_where :: "(string \<Rightarrow> string \<Rightarrow> bool) \<Rightarrow> tkdb \<Rightarrow> ticket_query \<Rightarrow> ticket_row \<Rightarrow> bool" where
  "ticket_where has d q t \<longleftrightarrow>
     (case tq_status q of None \<Rightarrow> True | Some f \<Rightarrow> in_filter f (kt_status t)) \<and>
     (case tq_priority q of None \<Rightarrow> True | Some p \<Rightarrow> kt_priority t = p) \<and>
     (case tq_category q of None \<Rightarrow> True | Some c \<Rightarrow> kt_category t = c) \<and>
     (truthy (tq_assignedToAdminId q) \<longrightarrow> kt_assignedToAdminId t = tq_assignedToAdminId q) \<and>
     (truthy (tq_search q) \<longrightarrow>
        (let s = the (tq_search q) in
         has (kt_subject t) s \<or>
         list_ex (\<lambda>a. lu_id a = kt_platformUserId t \<and> is_end_user a \<and> (has (lu_name a) s \<or> has (lu_email a) s)) (sd_users (kd_sd d)) \<or>
         list_ex (\<lambda>l. lg_id l = kt_platformUserId t \<and> (has (lg_name l) s \<or> has (lg_email l) s)) (kd_legacy d)))"

definition priority_rank :: "ticket_priority \<Rightarrow> int" where
  "priority_rank p = (case p of LOW \<Rightarrow> 0 | MEDIUM \<Rightarrow> 1 | HIGH \<Rightarrow> 2 | URGENT \<Rightarrow> 3)"

definition queue_order :: "(string \<Rightarrow> nat) \<Rightarrow> ticket_row \<Rightarrow> nat \<times> int \<times> int" where
  "queue_order collate t =
     (case kt_assignedToAdminId t of None \<Rightarrow> 0 | Some a \<Rightarrow> Suc (collate a), - priority_rank (kt_priority t), - kt_createdAt t)"

definition ticket_line_of :: "tkdb \<Rightarrow> ticket_row \<Rightarrow> ticket_line" where
  "ticket_line_of d t =
     (let last = find_first (\<lambda>m. km_ticketId m = kt_id t) (\<lambda>m. - km_createdAt m) (kd_messages d) in
      \<lparr>ln_ticket = t, ln_lastMessageAt = map_option km_createdAt last, ln_lastMessageFrom = map_option km_senderType last,
       ln_platformUser = findRequester d (kt_platformUserId t), ln_assignedAdmin = assigned_admin d (kt_assignedToAdminId t)\<rparr>)"

definition list_tickets :: "(string \<Rightarrow> string \<Rightarrow> bool) \<Rightarrow> (string \<Rightarrow> nat) \<Rightarrow> ticket_query \<Rightarrow> tkdb \<Rightarrow> ticket_line page_of" where
  "list_tickets has collate q d =
     (let page = orelse (tq_page q) 1; limit = orelse (tq_limit q) 10;
          total = length (filter (ticket_where has d q) (kd_tickets d)) in
      \<lparr>pg_data = map (ticket_line_of d) (take limit (drop ((page - 1) * limit) (find_many (ticket_where has d q) (queue_order collate) (kd_tickets d)))),
       pg_page = page, pg_limit = limit, pg_total = total, pg_totalPage = (total + limit - 1) div limit\<rparr>)"

definition requireTicket :: "id \<Rightarrow> tkdb \<Rightarrow> ticket_row result" where
  "requireTicket i d = (case find_row kt_id i (kd_tickets d) of None \<Rightarrow> Inl (NotFound ''Ticket not found'') | Some t \<Rightarrow> Inr t)"

record ticket_view =
  tw_ticket :: ticket_row
  tw_messages :: "message_row list"
  tw_platformUser :: "requester option"
  tw_assignedAdmin :: "login_user option"
  tw_total :: nat
  tw_solved :: nat

definition getById_ticket :: "id \<Rightarrow> tkdb \<Rightarrow> ticket_view result" where
  "getById_ticket i d =
     rbind (requireTicket i d) (\<lambda>t.
     let others = filter (\<lambda>x. kt_platformUserId x = kt_platformUserId t \<and> kt_id x \<noteq> i) (kd_tickets d) in
     Inr \<lparr>tw_ticket = t, tw_messages = find_many (\<lambda>m. km_ticketId m = i) km_createdAt (kd_messages d),
       tw_platformUser = findRequester d (kt_platformUserId t), tw_assignedAdmin = assigned_admin d (kt_assignedToAdminId t),
       tw_total = length others, tw_solved = length (filter (\<lambda>x. kt_status x \<in> set RESOLVED_STATUSES) others)\<rparr>)"

section \<open>Writing\<close>

definition create_ticket :: "id_source \<Rightarrow> instant \<Rightarrow> create_ticket_dto \<Rightarrow> tkdb \<Rightarrow> (tkdb \<times> ticket_row) result" where
  "create_ticket gen now dto d =
     (case find_row lu_id (ct_userId dto) (filter is_end_user (sd_users (kd_sd d))) of
        None \<Rightarrow> Inl (NotFound ''Customer not found'')
      | Some a \<Rightarrow>
          let t = \<lparr>kt_id = gen 0, kt_platformUserId = lu_id a, kt_subject = ct_subject dto, kt_category = ct_category dto,
                kt_priority = orelse (ct_priority dto) MEDIUM, kt_status = OPEN, kt_assignedToAdminId = None,
                kt_createdAt = now, kt_updatedAt = now, kt_resolvedAt = None\<rparr> in
          rbind (insert_row kt_id t (kd_tickets d)) (\<lambda>ts.
          rbind (insert_row km_id \<lparr>km_id = gen 1, km_ticketId = gen 0, km_senderType = USER_SENDER, km_senderId = lu_id a,
              km_message = ct_initialMessage dto, km_attachmentUrl = None, km_createdAt = now\<rparr> (kd_messages d)) (\<lambda>ms.
          Inr (d\<lparr>kd_tickets := ts, kd_messages := ms\<rparr>, t))))"

definition requireAssignableAdmin :: "id option \<Rightarrow> tkdb \<Rightarrow> unit result" where
  "requireAssignableAdmin i d =
     check (\<not> truthy i \<or> list_ex (\<lambda>a. Some (lu_id a) = i \<and> isAdminRole (lu_role a) \<and> lu_status a = user_status.ACTIVE) (sd_users (kd_sd d)))
       (BadRequest ''Tickets can only be assigned to an active admin'')"

definition edited_ticket :: "instant \<Rightarrow> update_ticket_dto \<Rightarrow> instant option option \<Rightarrow> ticket_row \<Rightarrow> ticket_row" where
  "edited_ticket now dto resolvedAt t =
     t\<lparr>kt_status := orelse (ut_status dto) (kt_status t), kt_priority := orelse (ut_priority dto) (kt_priority t),
       kt_assignedToAdminId := orelse (ut_assignedToAdminId dto) (kt_assignedToAdminId t),
       kt_resolvedAt := orelse resolvedAt (kt_resolvedAt t), kt_updatedAt := now\<rparr>"

definition update_ticket :: "instant \<Rightarrow> id \<Rightarrow> update_ticket_dto \<Rightarrow> id \<Rightarrow> string option \<Rightarrow> tkdb \<Rightarrow> tkdb \<Rightarrow> tkdb result" where
  "update_ticket now i dto adminId ip seen there =
     rbind (requireTicket i seen) (\<lambda>existing.
     rbind (requireAssignableAdmin (orelse (ut_assignedToAdminId dto) None) seen) (\<lambda>_.
     let statusChanged = (ut_status dto \<noteq> None \<and> ut_status dto \<noteq> Some (kt_status existing));
         resolvedAt = (if statusChanged then Some (if the (ut_status dto) \<in> set RESOLVED_STATUSES then Some now else None) else None) in
     rbind (update_row kt_id i (edited_ticket now dto resolvedAt) (kd_tickets there)) (\<lambda>ts.
     Inr (there\<lparr>kd_tickets := ts, kd_sd := (if statusChanged then log_event now adminId ''TICKET_UPDATED'' ''SupportTicket'' i ip (kd_sd there)
       else kd_sd there)\<rparr>))))"

text \<open>The reply is written, then the ticket, if it was open when the request looked.\<close>

definition addMessage :: "id \<Rightarrow> instant \<Rightarrow> id \<Rightarrow> string \<Rightarrow> string option \<Rightarrow> id \<Rightarrow> tkdb \<Rightarrow> tkdb \<Rightarrow> tkdb result" where
  "addMessage newId now i message attachmentUrl adminId seen there =
     rbind (requireTicket i seen) (\<lambda>ticket.
     rbind (check (i \<in> kt_id ` set (kd_tickets there)) (DbError ''P2003'')) (\<lambda>_.
     rbind (insert_row km_id \<lparr>km_id = newId, km_ticketId = i, km_senderType = ADMIN_SENDER, km_senderId = adminId, km_message = message,
         km_attachmentUrl = attachmentUrl, km_createdAt = now\<rparr> (kd_messages there)) (\<lambda>ms.
     if kt_status ticket = OPEN then
       rbind (update_row kt_id i (\<lambda>t. t\<lparr>kt_status := IN_PROGRESS, kt_updatedAt := now\<rparr>) (kd_tickets there)) (\<lambda>ts.
       Inr (there\<lparr>kd_messages := ms, kd_tickets := ts\<rparr>))
     else Inr (there\<lparr>kd_messages := ms\<rparr>))))"

definition assign :: "instant \<Rightarrow> id \<Rightarrow> id option \<Rightarrow> tkdb \<Rightarrow> tkdb \<Rightarrow> tkdb result" where
  "assign now i adminId seen there =
     rbind (requireTicket i seen) (\<lambda>_.
     rbind (requireAssignableAdmin adminId seen) (\<lambda>_.
     rbind (update_row kt_id i (\<lambda>t. t\<lparr>kt_assignedToAdminId := adminId, kt_updatedAt := now\<rparr>) (kd_tickets there)) (\<lambda>ts.
     Inr (there\<lparr>kd_tickets := ts\<rparr>))))"

section \<open>Figures\<close>

record ticket_stats =
  kst_openCount :: nat
  kst_unassignedOpenCount :: nat
  kst_inProgressCount :: nat
  kst_inProgressOver24hCount :: nat
  kst_waitingOnUserCount :: nat
  kst_urgentCount :: nat
  kst_solvedThisWeekCount :: nat
  kst_avgResolutionHours :: rat
  kst_avgFirstReplyHours :: rat
  kst_statusCounts :: "(ticket_status \<times> nat) list"
  kst_byCategory :: "(ticket_category \<times> nat) list"
  kst_byPriority :: "(ticket_priority \<times> nat) list"

definition all_statuses :: "ticket_status list" where
  "all_statuses = [OPEN, IN_PROGRESS, WAITING_ON_USER, RESOLVED, CLOSED]"

definition count_tickets :: "(ticket_row \<Rightarrow> bool) \<Rightarrow> tkdb \<Rightarrow> nat" where
  "count_tickets P d = length (filter P (kd_tickets d))"

text \<open>A group that has no ticket is not listed; the database may list the others in another order.\<close>

definition grouped :: "('g \<Rightarrow> nat) \<Rightarrow> 'g list \<Rightarrow> ('g \<times> nat) list" where
  "grouped num groups = filter (\<lambda>(g, n). n \<noteq> 0) (map (\<lambda>g. (g, num g)) groups)"

definition average_hours :: "int list \<Rightarrow> rat" where
  "average_hours spans =
     (let avg = (if spans = [] then 0 else of_int (sum_list spans) / of_nat (length spans) / (1000 * 60 * 60)) in
      of_int (math_round (avg * 10)) / 10)"

definition first_reply :: "tkdb \<Rightarrow> ticket_row \<Rightarrow> message_row option" where
  "first_reply d t = find_first (\<lambda>m. km_ticketId m = kt_id t \<and> km_senderType m = ADMIN_SENDER) km_createdAt (kd_messages d)"

definition stats_tickets :: "instant \<Rightarrow> tkdb \<Rightarrow> ticket_stats" where
  "stats_tickets now d =
     (let dayAgo = now - day_ms; weekAgo = now - 7 * day_ms; monthAgo = now - 30 * day_ms;
          count = (\<lambda>s. count_tickets (\<lambda>t. kt_status t = s) d);
          resolved = List.map_filter (\<lambda>t. map_option (\<lambda>r. r - kt_createdAt t) (kt_resolvedAt t)) (kd_tickets d);
          answered = List.map_filter (\<lambda>t. map_option (\<lambda>m. km_createdAt m - kt_createdAt t) (first_reply d t))
            (filter (\<lambda>t. monthAgo \<le> kt_createdAt t) (kd_tickets d)) in
      \<lparr>kst_openCount = count OPEN,
       kst_unassignedOpenCount = count_tickets (\<lambda>t. kt_status t = OPEN \<and> kt_assignedToAdminId t = None) d,
       kst_inProgressCount = count IN_PROGRESS,
       kst_inProgressOver24hCount = count_tickets (\<lambda>t. kt_status t = IN_PROGRESS \<and> kt_updatedAt t < dayAgo) d,
       kst_waitingOnUserCount = count WAITING_ON_USER,
       kst_urgentCount = count_tickets (\<lambda>t. kt_priority t = URGENT \<and> kt_status t \<notin> {RESOLVED, CLOSED}) d,
       kst_solvedThisWeekCount = count_tickets (\<lambda>t. case kt_resolvedAt t of None \<Rightarrow> False | Some r \<Rightarrow> weekAgo \<le> r) d,
       kst_avgResolutionHours = average_hours resolved,
       kst_avgFirstReplyHours = average_hours answered,
       kst_statusCounts = map (\<lambda>s. (s, count s)) all_statuses,
       kst_byCategory = grouped (\<lambda>c. count_tickets (\<lambda>t. kt_category t = c) d) [BILLING, TECHNICAL, ACCOUNT, FEATURE_REQUEST, BUG_REPORT, OTHER],
       kst_byPriority = grouped (\<lambda>p. count_tickets (\<lambda>t. kt_priority t = p) d) [LOW, MEDIUM, HIGH, URGENT]\<rparr>)"

section \<open>What the desk keeps\<close>

text \<open>A ticket says when it was resolved exactly while it is.\<close>

definition ticket_ok :: "ticket_row \<Rightarrow> bool" where
  "ticket_ok t \<longleftrightarrow> (kt_resolvedAt t \<noteq> None \<longleftrightarrow> kt_status t \<in> set RESOLVED_STATUSES)"

definition tickets_ok :: "tkdb \<Rightarrow> bool" where
  "tickets_ok d \<longleftrightarrow> keyed kt_id (kd_tickets d) \<and> (\<forall>t\<in>set (kd_tickets d). ticket_ok t) \<and>
     (\<forall>m\<in>set (kd_messages d). km_ticketId m \<in> kt_id ` set (kd_tickets d))"

lemma tickets_ok_map:
  assumes "tickets_ok d" and "kd_tickets d' = map_row kt_id i f (kd_tickets d)" and "\<And>t. kt_id (f t) = kt_id t"
    and "\<And>t. t \<in> set (kd_tickets d) \<Longrightarrow> kt_id t = i \<Longrightarrow> ticket_ok (f t)"
    and "\<And>m. m \<in> set (kd_messages d') \<Longrightarrow> m \<in> set (kd_messages d) \<or> km_ticketId m \<in> kt_id ` set (kd_tickets d)"
  shows "tickets_ok d'"
proof -
  have "map kt_id (kd_tickets d') = map kt_id (kd_tickets d)" unfolding assms(2) by (rule map_row_proj) (rule assms(3))
  moreover from this have "kt_id ` set (kd_tickets d') = kt_id ` set (kd_tickets d)" by (metis set_map)
  moreover have "\<forall>t\<in>set (kd_tickets d'). ticket_ok t"
    using assms(1,4) by (auto simp: assms(2) set_map_row tickets_ok_def)
  moreover have "\<forall>m\<in>set (kd_messages d'). km_ticketId m \<in> kt_id ` set (kd_tickets d)"
    using assms(1) unfolding tickets_ok_def by (blast dest: assms(5))
  ultimately show ?thesis using assms(1) by (simp add: tickets_ok_def keyed_def)
qed

lemma row_of_ticket:
  assumes "tickets_ok d" and "requireTicket i d = Inr t" and "x \<in> set (kd_tickets d)" and "kt_id x = i"
  shows "x = t"
proof -
  have "find_row kt_id (kt_id x) (kd_tickets d) = Some x" by (rule find_row_mem) (use assms in \<open>simp_all add: tickets_ok_def\<close>)
  with assms(2,4) show ?thesis by (simp add: requireTicket_def)
qed

lemma update_ticket_keeps:
  assumes ok: "tickets_ok d" and run: "update_ticket now i dto admin ip d d = Inr d'"
  shows "tickets_ok d'"
proof -
  from run obtain t where t: "requireTicket i d = Inr t" by (auto simp: update_ticket_def rbind_eq_Inr)
  define changed where "changed = (ut_status dto \<noteq> None \<and> ut_status dto \<noteq> Some (kt_status t))"
  define f where "f = edited_ticket now dto (if changed then Some (if the (ut_status dto) \<in> set RESOLVED_STATUSES then Some now else None) else None)"
  from run t have d': "kd_tickets d' = map_row kt_id i f (kd_tickets d)" "kd_messages d' = kd_messages d"
    unfolding update_ticket_def Let_def f_def changed_def by (auto simp: rbind_eq_Inr update_row_eq_Inr)
  have same: "kt_id (f x) = kt_id x" for x by (simp add: f_def edited_ticket_def)
  have good: "ticket_ok (f x)" if x: "x \<in> set (kd_tickets d)" "kt_id x = i" for x
  proof -
    have "x = t" by (rule row_of_ticket [OF ok t x])
    moreover have "ticket_ok t" using ok x \<open>x = t\<close> by (simp add: tickets_ok_def)
    ultimately show ?thesis
      by (cases "ut_status dto") (auto simp: f_def changed_def edited_ticket_def ticket_ok_def)
  qed
  show ?thesis by (rule tickets_ok_map [OF ok d'(1) same good]) (simp_all add: d')
qed

lemma addMessage_keeps:
  assumes ok: "tickets_ok d" and run: "addMessage n now i m a admin d d = Inr d'"
  shows "tickets_ok d'"
proof -
  from run obtain t where t: "requireTicket i d = Inr t" by (auto simp: addMessage_def rbind_eq_Inr)
  define f where "f = (if kt_status t = OPEN then (\<lambda>x :: ticket_row. x\<lparr>kt_status := IN_PROGRESS, kt_updatedAt := now\<rparr>) else (\<lambda>x. x))"
  have id: "map_row kt_id i (\<lambda>x. x) (kd_tickets d) = kd_tickets d" by (induction "kd_tickets d") (simp_all add: map_row_def)
  from run t have d': "kd_tickets d' = map_row kt_id i f (kd_tickets d)" and mem: "i \<in> kt_id ` set (kd_tickets d)"
    and ms: "\<exists>x. kd_messages d' = kd_messages d @ [x] \<and> km_ticketId x = i"
    unfolding addMessage_def f_def by (auto simp: rbind_eq_Inr check_eq_Inr update_row_eq_Inr insert_row_eq_Inr id split: if_splits)
  have good: "ticket_ok (f x)" if x: "x \<in> set (kd_tickets d)" "kt_id x = i" for x
  proof -
    have "x = t" by (rule row_of_ticket [OF ok t x])
    moreover have "ticket_ok t" using ok x \<open>x = t\<close> by (simp add: tickets_ok_def)
    ultimately show ?thesis by (auto simp: f_def ticket_ok_def RESOLVED_STATUSES_def)
  qed
  show ?thesis by (rule tickets_ok_map [OF ok d' _ good]) (use ms mem in \<open>auto simp: f_def\<close>)
qed

lemma assign_keeps:
  assumes ok: "tickets_ok d" and run: "assign now i admin d d = Inr d'"
  shows "tickets_ok d'"
proof -
  let ?f = "\<lambda>t :: ticket_row. t\<lparr>kt_assignedToAdminId := admin, kt_updatedAt := now\<rparr>"
  from run have d': "kd_tickets d' = map_row kt_id i ?f (kd_tickets d)" "kd_messages d' = kd_messages d"
    by (auto simp: assign_def rbind_eq_Inr update_row_eq_Inr)
  show ?thesis
    by (rule tickets_ok_map [OF ok d'(1)]) (use ok in \<open>auto simp: d' tickets_ok_def ticket_ok_def\<close>)
qed

lemma create_ticket_keeps:
  assumes ok: "tickets_ok d" and run: "create_ticket gen now dto d = Inr (d', t)"
  shows "tickets_ok d'"
  using run ok
  by (auto simp: create_ticket_def Let_def rbind_eq_Inr insert_row_eq_Inr tickets_ok_def keyed_def ticket_ok_def RESOLVED_STATUSES_def
      split: option.splits)

inductive tickets_run :: "tkdb \<Rightarrow> bool" where
  no_tickets: "kd_tickets d = [] \<Longrightarrow> kd_messages d = [] \<Longrightarrow> tickets_run d"
| opened_one: "tickets_run d \<Longrightarrow> create_ticket gen now dto d = Inr (d', t) \<Longrightarrow> tickets_run d'"
| edited_one: "tickets_run d \<Longrightarrow> update_ticket now i dto' admin ip d d = Inr d' \<Longrightarrow> tickets_run d'"
| replied: "tickets_run d \<Longrightarrow> addMessage n now i m a admin d d = Inr d' \<Longrightarrow> tickets_run d'"
| assigned_one: "tickets_run d \<Longrightarrow> assign now i adminId d d = Inr d' \<Longrightarrow> tickets_run d'"

text \<open>
  C27: when each request is one step, a ticket carries the time it was resolved exactly while it is resolved or closed,
  so the figures of a week count the tickets that are done; and no message is without its ticket.
\<close>

theorem tickets_run_ok:
  assumes "tickets_run d"
  shows "tickets_ok d"
  using assms
proof induction
  case (no_tickets d)
  then show ?case by (simp add: tickets_ok_def)
next
  case (opened_one d gen now dto d' t)
  from opened_one.IH opened_one.hyps(2) show ?case by (rule create_ticket_keeps)
next
  case (edited_one d now i dto' admin ip d')
  from edited_one.IH edited_one.hyps(2) show ?case by (rule update_ticket_keeps)
next
  case (replied d n now i m a admin d')
  from replied.IH replied.hyps(2) show ?case by (rule addMessage_keeps)
next
  case (assigned_one d now i adminId d')
  from assigned_one.IH assigned_one.hyps(2) show ?case by (rule assign_keeps)
qed

section \<open>A reply and a resolution crossing\<close>

definition desk :: tkdb where
  "desk = \<lparr>kd_tickets = [], kd_messages = [], kd_legacy = [], kd_sd = \<lparr>sd_users = [\<lparr>lu_id = ''u'', lu_name = ''U'', lu_email = ''u@x'', lu_role = USER,
     lu_status = user_status.ACTIVE, lu_preferredLanguage = ''EN'', lu_lastLoginAt = None, lu_phone = None, lu_createdAt = 0\<rparr>], sd_passwords = Map.empty, sd_sessions = [],
     sd_devices = [], sd_attempts = [], sd_resets = [], sd_audit = [], sd_wd = \<lparr>wd_rd = \<lparr>rd_books = empty_db, rd_users = [], rd_referrals = [],
       rd_reward = 0\<rparr>, wd_businesses = [], wd_members = [], wd_plans = [], wd_templates = []\<rparr>\<rparr>\<rparr>"

definition ask_dto :: create_ticket_dto where
  "ask_dto = \<lparr>ct_userId = ''u'', ct_subject = ''S'', ct_category = BILLING, ct_priority = None, ct_initialMessage = ''M''\<rparr>"

definition resolve_dto :: update_ticket_dto where
  "resolve_dto = \<lparr>ut_status = Some RESOLVED, ut_priority = None, ut_assignedToAdminId = None\<rparr>"

definition desk_asked :: tkdb where
  "desk_asked = (case create_ticket (\<lambda>n. replicate (Suc n) (CHR ''k'')) 1 ask_dto desk of Inr (d, t) \<Rightarrow> d | Inl e \<Rightarrow> desk)"

definition desk_resolved :: tkdb where
  "desk_resolved = (case update_ticket 2 ''k'' resolve_dto ''a'' None desk_asked desk_asked of Inr d \<Rightarrow> d | Inl e \<Rightarrow> desk)"

text \<open>
  A reply looks while the ticket is open; before it writes, the ticket is resolved. The ticket is in progress again and
  still counts as solved.
\<close>

lemma stale_reply_keeps_resolution:
  "case addMessage ''r'' 3 ''k'' ''R'' None ''a'' desk_asked desk_resolved of
     Inl e \<Rightarrow> False
   | Inr d \<Rightarrow> map kt_status (kd_tickets d) = [IN_PROGRESS] \<and> map kt_resolvedAt (kd_tickets d) = [Some 2] \<and>
       kst_solvedThisWeekCount (stats_tickets 4 d) = 1 \<and> kst_inProgressCount (stats_tickets 4 d) = 1"
  by code_simp

theorem tickets_run_ok_witness: "tickets_ok desk_resolved \<and> map kt_status (kd_tickets desk_resolved) = [RESOLVED]"
proof -
  have start: "tickets_run desk" by (rule no_tickets) (simp_all add: desk_def)
  have "case create_ticket (\<lambda>n. replicate (Suc n) (CHR ''k'')) 1 ask_dto desk of Inl e \<Rightarrow> False | Inr x \<Rightarrow> True" by code_simp
  then obtain t where "create_ticket (\<lambda>n. replicate (Suc n) (CHR ''k'')) 1 ask_dto desk = Inr (desk_asked, t)"
    by (auto simp: desk_asked_def split: sum.splits)
  from opened_one [OF start this] have asked: "tickets_run desk_asked" .
  have "case update_ticket 2 ''k'' resolve_dto ''a'' None desk_asked desk_asked of Inl e \<Rightarrow> False | Inr x \<Rightarrow> True" by code_simp
  then have "update_ticket 2 ''k'' resolve_dto ''a'' None desk_asked desk_asked = Inr desk_resolved"
    by (auto simp: desk_resolved_def split: sum.splits)
  from tickets_run_ok [OF edited_one [OF asked this]] have "tickets_ok desk_resolved" .
  moreover have "map kt_status (kd_tickets desk_resolved) = [RESOLVED]" by code_simp
  ultimately show ?thesis ..
qed

end
