(* ===== verification/Todos.thy ===== *)
theory Todos
  imports Shelf
begin

text \<open>
  To-do lists (src/todos/todos.service.ts): a list per user and day with its tasks, and the task
  pushed to the day after. A day is the instant of its midnight in UTC; a text that is no day of the
  calendar is \<open>None\<close>. Where the code looks before it writes, the state it looked at is an argument.
\<close>

section \<open>Rows and requests\<close>

record todo_list =
  tl_id :: id
  tl_userId :: id
  tl_date :: instant

record todo_item =
  ti_id :: id
  ti_listId :: id
  ti_text :: string
  ti_completed :: bool
  ti_createdAt :: instant

record todo_db =
  td_lists :: "todo_list list"
  td_items :: "todo_item list"

record update_item_dto =
  ui_text :: "string option"
  ui_completed :: "bool option"

definition list_key :: "todo_list \<Rightarrow> id \<times> instant" where
  "list_key l = (tl_userId l, tl_date l)"

definition MAX_ITEMS_PER_LIST :: nat where
  "MAX_ITEMS_PER_LIST = 200"

definition MAX_LISTS_PER_USER :: nat where
  "MAX_LISTS_PER_USER = 1000"

definition cleanTaskText :: "unicode \<Rightarrow> string \<Rightarrow> string result" where
  "cleanTaskText U txt =
     rbind (cleanText U txt ''task'' 200) (\<lambda>t.
     rbind (check (\<not> un_invisible U t) (BadRequest ''A task is required'')) (\<lambda>_. Inr t))"

record list_view =
  tv_list :: todo_list
  tv_items :: "todo_item list"

definition items_of :: "todo_db \<Rightarrow> id \<Rightarrow> todo_item list" where
  "items_of d i = find_many (\<lambda>x. ti_listId x = i) ti_createdAt (td_items d)"

definition toListView :: "todo_db \<Rightarrow> todo_list \<Rightarrow> list_view" where
  "toListView d l = \<lparr>tv_list = l, tv_items = items_of d (tl_id l)\<rparr>"

section \<open>Lists\<close>

definition list_todos :: "id \<Rightarrow> todo_db \<Rightarrow> list_view list" where
  "list_todos userId d = map (toListView d) (find_many (\<lambda>l. tl_userId l = userId) (\<lambda>l. - tl_date l) (td_lists d))"

definition requireList :: "id \<Rightarrow> id \<Rightarrow> todo_db \<Rightarrow> list_view result" where
  "requireList userId i d =
     (case find_row tl_id i (td_lists d) of
        None \<Rightarrow> Inl (NotFound ''To-do list not found'')
      | Some l \<Rightarrow> if tl_userId l = userId then Inr (toListView d l) else Inl (NotFound ''To-do list not found''))"

definition too_many_lists :: string where
  "too_many_lists = ''You can keep at most 1000 to-do lists. Delete some old ones first.''"

definition insert_list :: "todo_list \<Rightarrow> todo_db \<Rightarrow> todo_db result" where
  "insert_list l d =
     rbind (insert_row list_key l (td_lists d)) (\<lambda>_. rbind (insert_row tl_id l (td_lists d)) (\<lambda>ls. Inr (d\<lparr>td_lists := ls\<rparr>)))"

definition create_within_cap :: "id \<Rightarrow> id \<Rightarrow> instant \<Rightarrow> todo_db \<Rightarrow> todo_db result" where
  "create_within_cap newId userId date d =
     createWithinCap MAX_LISTS_PER_USER too_many_lists (\<lambda>d. length (filter (\<lambda>l. tl_userId l = userId) (td_lists d)))
       (insert_list \<lparr>tl_id = newId, tl_userId = userId, tl_date = date\<rparr>) d"

definition create_list :: "id \<Rightarrow> id \<Rightarrow> instant option \<Rightarrow> todo_db \<Rightarrow> todo_db \<Rightarrow> (todo_db \<times> list_view) result" where
  "create_list newId userId date seen there =
     (case date of
        None \<Rightarrow> Inl (BadRequest ''date must be a valid calendar date'')
      | Some day \<Rightarrow>
          rbind (check (find_row list_key (userId, day) (td_lists seen) = None) (Conflict ''A to-do list for this date already exists'')) (\<lambda>_.
          case create_within_cap newId userId day there of
            Inl e \<Rightarrow> Inl (if e = DbError ''P2002'' then Conflict ''A to-do list for this date already exists'' else e)
          | Inr d \<Rightarrow> Inr (d, \<lparr>tv_list = \<lparr>tl_id = newId, tl_userId = userId, tl_date = day\<rparr>, tv_items = []\<rparr>)))"

text \<open>Deleting a list deletes its tasks with it.\<close>

definition remove_list :: "id \<Rightarrow> id \<Rightarrow> todo_db \<Rightarrow> todo_db result" where
  "remove_list userId i d =
     (let gone = filter (\<lambda>l. tl_id l = i \<and> tl_userId l = userId) (td_lists d) in
      if gone = [] then Inl (NotFound ''To-do list not found'')
      else Inr (d\<lparr>td_lists := filter (\<lambda>l. \<not> (tl_id l = i \<and> tl_userId l = userId)) (td_lists d),
        td_items := filter (\<lambda>x. ti_listId x \<notin> tl_id ` set gone) (td_items d)\<rparr>))"

section \<open>Tasks\<close>

definition fk_list :: "id \<Rightarrow> todo_db \<Rightarrow> unit result" where
  "fk_list i d = check (i \<in> tl_id ` set (td_lists d)) (DbError ''P2003'')"

definition add_todo :: "unicode \<Rightarrow> id \<Rightarrow> instant \<Rightarrow> id \<Rightarrow> id \<Rightarrow> string \<Rightarrow> todo_db \<Rightarrow> todo_db \<Rightarrow> (todo_db \<times> list_view) result" where
  "add_todo U newId now userId listId txt seen there =
     rbind (requireList userId listId seen) (\<lambda>l.
     rbind (check (\<not> MAX_ITEMS_PER_LIST \<le> length (tv_items l)) (BadRequest ''A list can have at most 200 tasks'')) (\<lambda>_.
     rbind (cleanTaskText U txt) (\<lambda>t.
     rbind (fk_list listId there) (\<lambda>_.
     rbind (insert_row ti_id \<lparr>ti_id = newId, ti_listId = listId, ti_text = t, ti_completed = False, ti_createdAt = now\<rparr> (td_items there)) (\<lambda>xs.
     let d = there\<lparr>td_items := xs\<rparr> in
     rbind (requireList userId listId d) (\<lambda>v. Inr (d, v)))))))"

definition requireItem :: "id \<Rightarrow> id \<Rightarrow> id \<Rightarrow> todo_db \<Rightarrow> todo_item result" where
  "requireItem userId listId itemId d =
     rbind (requireList userId listId d) (\<lambda>_.
     case find_row ti_id itemId (td_items d) of
       None \<Rightarrow> Inl (NotFound ''Task not found'')
     | Some x \<Rightarrow> if ti_listId x = listId then Inr x else Inl (NotFound ''Task not found''))"

definition update_todo :: "unicode \<Rightarrow> id \<Rightarrow> id \<Rightarrow> id \<Rightarrow> update_item_dto \<Rightarrow> todo_db \<Rightarrow> todo_db \<Rightarrow> (todo_db \<times> list_view) result" where
  "update_todo U userId listId itemId dto seen there =
     rbind (requireItem userId listId itemId seen) (\<lambda>_.
     rbind (case ui_text dto of None \<Rightarrow> Inr None | Some txt \<Rightarrow> rbind (cleanTaskText U txt) (\<lambda>t. Inr (Some t))) (\<lambda>t.
     rbind (update_row ti_id itemId (\<lambda>x. x\<lparr>ti_text := orelse t (ti_text x), ti_completed := orelse (ui_completed dto) (ti_completed x)\<rparr>)
       (td_items there)) (\<lambda>xs.
     let d = there\<lparr>td_items := xs\<rparr> in
     rbind (requireList userId listId d) (\<lambda>v. Inr (d, v)))))"

definition remove_todo :: "id \<Rightarrow> id \<Rightarrow> id \<Rightarrow> todo_db \<Rightarrow> todo_db \<Rightarrow> (todo_db \<times> list_view) result" where
  "remove_todo userId listId itemId seen there =
     rbind (requireItem userId listId itemId seen) (\<lambda>_.
     rbind (delete_row ti_id itemId (td_items there)) (\<lambda>xs.
     let d = there\<lparr>td_items := xs\<rparr> in
     rbind (requireList userId listId d) (\<lambda>v. Inr (d, v))))"

text \<open>
  Losing the race for the same day's list means taking the one that is there: \<open>seen\<close> is the first
  look, \<open>there\<close> the state of the insert.
\<close>

definition findOrCreateList :: "id \<Rightarrow> id \<Rightarrow> instant \<Rightarrow> todo_db \<Rightarrow> todo_db \<Rightarrow> (todo_db \<times> todo_list) result" where
  "findOrCreateList newId userId date seen there =
     (case find_row list_key (userId, date) (td_lists seen) of
        Some l \<Rightarrow> Inr (there, l)
      | None \<Rightarrow>
          (case create_within_cap newId userId date there of
             Inr d \<Rightarrow> Inr (d, \<lparr>tl_id = newId, tl_userId = userId, tl_date = date\<rparr>)
           | Inl e \<Rightarrow>
               if e = DbError ''P2002'' then
                 (case find_row list_key (userId, date) (td_lists there) of Some l \<Rightarrow> Inr (there, l) | None \<Rightarrow> Inl (DbError ''P2025''))
               else Inl e))"

definition moveItemToNextDay :: "id \<Rightarrow> id \<Rightarrow> id \<Rightarrow> id \<Rightarrow> todo_db \<Rightarrow> todo_db \<Rightarrow> (todo_db \<times> list_view) result" where
  "moveItemToNextDay newId userId listId itemId seen there =
     rbind (requireList userId listId seen) (\<lambda>v.
     rbind (check (itemId \<in> ti_id ` set (tv_items v)) (NotFound ''Task not found'')) (\<lambda>_.
     rbind (findOrCreateList newId userId (tl_date (tv_list v) + day_ms) seen there) (\<lambda>(d, target).
     rbind (check (\<not> MAX_ITEMS_PER_LIST \<le> length (items_of d (tl_id target))) (BadRequest ''The next day's list already has 200 tasks'')) (\<lambda>_.
     rbind (fk_list (tl_id target) d) (\<lambda>_.
     rbind (update_row ti_id itemId (\<lambda>x. x\<lparr>ti_listId := tl_id target\<rparr>) (td_items d)) (\<lambda>xs.
     let d = d\<lparr>td_items := xs\<rparr> in
     rbind (requireList userId listId d) (\<lambda>v. Inr (d, v))))))))"

section \<open>What every run keeps\<close>

definition todos_ok :: "todo_db \<Rightarrow> bool" where
  "todos_ok d \<longleftrightarrow> keyed tl_id (td_lists d) \<and> keyed list_key (td_lists d) \<and> keyed ti_id (td_items d) \<and>
     (\<forall>x\<in>set (td_items d). ti_listId x \<in> tl_id ` set (td_lists d)) \<and>
     (\<forall>u. length (filter (\<lambda>l. tl_userId l = u) (td_lists d)) \<le> MAX_LISTS_PER_USER)"

lemma insert_list_Inr:
  "insert_list l d = Inr d' \<longleftrightarrow> list_key l \<notin> list_key ` set (td_lists d) \<and> tl_id l \<notin> tl_id ` set (td_lists d) \<and>
     d' = d\<lparr>td_lists := td_lists d @ [l]\<rparr>"
  by (auto simp: insert_list_def result_simps)

lemma create_within_cap_ok:
  assumes "todos_ok d" and "create_within_cap newId u day d = Inr d'"
  shows "todos_ok d' \<and> td_items d' = td_items d \<and> td_lists d' = td_lists d @ [\<lparr>tl_id = newId, tl_userId = u, tl_date = day\<rparr>]"
proof -
  from assms(2) have room: "length (filter (\<lambda>l. tl_userId l = u) (td_lists d)) < MAX_LISTS_PER_USER"
    and ins: "insert_list \<lparr>tl_id = newId, tl_userId = u, tl_date = day\<rparr> d = Inr d'"
    unfolding create_within_cap_def createWithinCap_def by (auto simp: rbind_eq_Inr check_eq_Inr)
  from ins have d': "d' = d\<lparr>td_lists := td_lists d @ [\<lparr>tl_id = newId, tl_userId = u, tl_date = day\<rparr>]\<rparr>"
    and fresh: "(u, day) \<notin> list_key ` set (td_lists d)" "newId \<notin> tl_id ` set (td_lists d)"
    by (simp_all add: insert_list_Inr list_key_def)
  have "length (filter (\<lambda>l. tl_userId l = v) (td_lists d @ [\<lparr>tl_id = newId, tl_userId = u, tl_date = day\<rparr>])) \<le> MAX_LISTS_PER_USER" for v
    using assms(1) room by (cases "v = u") (auto simp: todos_ok_def)
  with assms(1) fresh show ?thesis by (auto simp: todos_ok_def d' keyed_def list_key_def)
qed

lemma findOrCreateList_ok:
  assumes "todos_ok there" and "findOrCreateList newId u day seen there = Inr (d, l)"
  shows "todos_ok d \<and> td_items d = td_items there \<and> list_key l = (u, day) \<and>
    (d = there \<or> td_lists d = td_lists there @ [l])"
proof (cases "find_row list_key (u, day) (td_lists seen)")
  case (Some x)
  with assms show ?thesis by (auto simp: findOrCreateList_def dest: find_row_Some)
next
  case None
  show ?thesis
  proof (cases "create_within_cap newId u day there")
    case (Inr d1)
    with None assms(2) have "d = d1" "l = \<lparr>tl_id = newId, tl_userId = u, tl_date = day\<rparr>" by (simp_all add: findOrCreateList_def)
    with create_within_cap_ok [OF assms(1) Inr] show ?thesis by (simp add: list_key_def)
  next
    case (Inl e)
    with None assms show ?thesis
      by (auto simp: findOrCreateList_def split: if_splits option.splits dest: find_row_Some)
  qed
qed

text \<open>A task moved keeps its text and its mark, and every other task stays as and where it was.\<close>

theorem moved_to_the_next_day:
  assumes "todos_ok there" and "moveItemToNextDay newId u listId itemId seen there = Inr (d, v)"
    and "find_row tl_id listId (td_lists seen) = Some source"
  shows "\<exists>target\<in>set (td_lists seen) \<union> set (td_lists d). list_key target = (u, tl_date source + day_ms) \<and>
    td_items d = map_row ti_id itemId (\<lambda>x. x\<lparr>ti_listId := tl_id target\<rparr>) (td_items there) \<and>
    itemId \<in> ti_id ` set (td_items there) \<and> todos_ok d"
proof -
  from assms(2,3) obtain d1 target where f: "findOrCreateList newId u (tl_date source + day_ms) seen there = Inr (d1, target)"
    and fk: "tl_id target \<in> tl_id ` set (td_lists d1)"
    and mem: "itemId \<in> ti_id ` set (td_items d1)"
    and d: "d = d1\<lparr>td_items := map_row ti_id itemId (\<lambda>x. x\<lparr>ti_listId := tl_id target\<rparr>) (td_items d1)\<rparr>"
    unfolding moveItemToNextDay_def requireList_def Let_def toListView_def fk_list_def
    by (auto simp: rbind_eq_Inr check_eq_Inr update_row_eq_Inr split: if_splits option.splits)
  note ok = findOrCreateList_ok [OF assms(1) f]
  have target: "target \<in> set (td_lists seen) \<union> set (td_lists d)"
  proof (cases "find_row list_key (u, tl_date source + day_ms) (td_lists seen)")
    case (Some l)
    with f show ?thesis by (auto simp: findOrCreateList_def dest: find_row_Some)
  next
    case None
    with f show ?thesis
      using create_within_cap_ok [OF assms(1)]
      by (auto simp: findOrCreateList_def d split: sum.splits if_splits option.splits dest: find_row_Some)
  qed
  have "map ti_id (map_row ti_id itemId (\<lambda>x. x\<lparr>ti_listId := tl_id target\<rparr>) (td_items d1)) = map ti_id (td_items d1)"
    by (rule map_row_proj) simp
  then have "todos_ok d" using ok fk by (auto simp: todos_ok_def d keyed_def set_map_row)
  with ok target mem d show ?thesis by auto
qed

end
