(* ===== verification/Spec2Isabelle.thy ===== *)
theory Spec2Isabelle
  imports Accounts Balance Dhaka Ledger Ledger_Requests Ledger_Bounds Ledger_Abstract Locks Quick_Entries Asset_Facts Savings_Facts Receivables_Facts Contacts Group_Facts Budget_Facts Report_Facts Referrals Reading_List Skill_Facts Coupons Plan_Facts Revenue_Facts Habit_Facts Tracker_Facts Session_Facts Admin_Owners Templates Tickets Todos
begin

text \<open>
  A model of the money-keeping core of a personal and small-business finance backend (NestJS
  services over a PostgreSQL database, under src/src/), with the theorems that make it correct.

  The program. Every feature that moves money ends in one place: the transaction engine
  (src/src/transactions/transactions.service.ts) posts a transaction with its debit and credit
  entries, refreshes the cached balance of each account the entries touch, and undoes a posting by
  a reversal. The chart of accounts (src/src/accounts/accounts.service.ts) is the tree those entries
  point into; account-balance.service.ts reads ledgers, summaries and overviews from them and
  repairs cached balances. Quick entries, savings goals, assets and receivables-payables are clients: they
  check the request and hand the engine balanced entries, and contacts are the people those
  entries are about. The Group Expense workspace (src/src/group-expenses) keeps a pool of its own,
  with its own tables and no entry in the ledger; so do the reading list, the skills, the habits, and the
  platform's billing of its subscribers. In front of all of it stand the guards: a request carries a
  token that names a session, and a route of a workspace asks for a membership, a role, and the PIN.

  Theories, in the order the code builds on itself:
    \<^item> Prelude -- results as a sum of HTTP errors and values, optional fields, JavaScript arrays,
      sums over rows, money as a whole number of paisa.
    \<^item> Rows -- a table as the list of its rows in insertion order; the Prisma calls on it; the locales
      \<open>row_store\<close> (lookup, insert, update, delete by key) and \<open>workspace_scoped\<close> (the
      \<open>require...\<close> helpers), interpreted on the model's own operations.
    \<^item> Schema -- the rows and enums of prisma/schema.prisma and the database as the record of its tables.
    \<^item> Accounts -- AccountsService: create, update, archive, unarchive, remove, listings, and seeding of
      a new workspace; the step relation over its operations with the tree invariant.
    \<^item> Balance -- AccountBalanceService: recalculation, ledger pages, summaries, overviews, reconciliation.
    \<^item> Dhaka -- the calendar helpers of common/dhaka.ts over the UTC date functions of JavaScript.
    \<^item> Transactions -- TransactionsService: posting, the idempotency key and its race, voiding, listing.
    \<^item> Ledger, Ledger_Requests -- what posting and voiding keep (\<open>books_ok\<close>: entries of a transaction
      balance, voided transactions and their reversals cancel, cached balances are the sums of the
      entries), the accounting equation between the types of accounts, and what a caller sees of them.
    \<^item> Ledger_Abstract -- the ledger as a book of transactions in force: posting writes a line, voiding
      strikes it out; the tables, which only gain rows, refine it, and balances are read off the book.
    \<^item> Ledger_Bounds -- every amount entered or computed stays within its column.
    \<^item> Locks -- \<open>withLocks\<close> and \<open>lockAccounts\<close> as a step relation over concurrent requests: no lock is
      shared, sorted locks never deadlock, every run ends; the locale \<open>ordered_locks\<close>.
    \<^item> Quick_Entries -- QuickEntriesService on top of the engine.
    \<^item> Assets, Asset_Facts -- AssetsService: purchases, sales, revaluations and categories; an asset and
      the ledger always tell the same story, and an asset is sold once.
    \<^item> Savings, Savings_Facts -- SavingsGoalsService: goals, contributions, transfers, withdrawals and the
      summaries; no goal is overdrawn and wallets and goals move together.
    \<^item> Receivables, Receivables_Facts -- ReceivablesPayablesService: credit sales and purchases, payments
      against them oldest first, aging, overdue and loan reports; every payment counts once and no
      payment exceeds what is owed.
    \<^item> Budgets, Budget_Facts -- BudgetsService: categories, limits and income goals; a rename carries the
      spending along and the ledger stays sound.
    \<^item> Reports, Report_Facts -- ReportsService and its month buckets: general ledger, trial balance,
      breakdowns by category and month, income against savings, and how their figures agree.
    \<^item> Referrals -- ReferralsService: codes, the confirmation on a page read, the payout as an income
      posting; a reward is paid once when each operation is one step, and once more whenever a page read
      marks it confirmed after its payout.
    \<^item> Shelf, Reading_List, Skills, Skill_Facts -- common/shelf.ts and its two users, BooksService and
      SkillsService: an item is always on the shelf its progress says; an edit whose read and write are apart
      overwrites no change, provided it read the row in a later millisecond than the row was last
      written (the guard is a time in milliseconds); the log, the week and the streak agree.
    \<^item> Habits, Habit_Facts, Trackers, Tracker_Facts -- HabitsService and HabitTrackersService: check-ins, the
      list of today with its streaks, statistics; month sheets whose requests each read one state and
      write another: one sheet a month, every tick within its days, edits of the columns that lose nothing.
    \<^item> Decimals, Billing, Billing_Facts, Coupons, Plans, Plan_Facts, Revenue, Revenue_Facts -- the
      platform's own billing: PaymentsService, InvoicesService, CouponsService, SubscriptionPlansService
      and RevenueService over tables of their own. A payment has at most one refund, also when two
      cross, an invoice a number of its own, the free plan stays, and the figures add up.
    \<^item> Tokens, Workspaces, Workspace_Facts -- session tokens and workspace unlocks, BusinessesService with
      the guards of a workspace's routes, and the default workspace of a new account: what every run keeps,
      requests that read an older state and plans given by administrators included; a new PIN ends the
      unlocks of the old one.
    \<^item> Sessions, Sign_In, Session_Facts -- sessions, devices and guards, the sign-in of users and of
      administrators, password changes and reset links, the support view: a session that ended opens
      nothing, the sides never cross, a link works once, a view only reads.
    \<^item> Admin_Owners, Templates, Tickets -- AdminOwnersService, AccountTemplatesService, TicketsService: a
      suspended owner is out at once, a reset touches one workspace only, new workspaces keep getting the
      accounts they post through, a ticket says when it was resolved exactly while it is.
    \<^item> Todos -- TodosService: lists by day, tasks pushed to the day after.
    \<^item> Contacts -- ContactsService: contacts stay reachable, and one with history or money owed is not lost.
    \<^item> Group_Expenses, Group_Facts -- GroupExpensesService: a settlement splits its period to the paisa,
      closed periods never overlap (for periods given as calendar days).

  Correspondence. An operation keeps the name of its method (with a suffix where several services use
  the same name); its checks stand in the order of the code, each early return or thrown exception a
  branch with its message. An operation that runs in a database transaction is one step: it returns
  the new state or an error, and then nothing has changed. A read takes the state and returns the
  value the code sends; amounts stay numbers where the code prints them with two decimals.

  Parameters. Code that is not in the repository is an argument: the ids the database draws
  (\<open>gen\<close>; theorems assume only that the ids of one request are distinct and not empty), the current
  time (\<open>now\<close>), case-insensitive text matching, the order of names in a report (\<open>collate\<close>) and of
  the groups of a \<open>groupBy\<close> (\<open>order\<close>), and the decimal library's
  division (record \<open>arith\<close>, \<open>floor_div\<close>), the tables of Unicode (record \<open>unicode\<close>), signing, hashing
  and digests (record \<open>crypto\<close>, with the laws \<open>jwt_sound\<close> and \<open>bcrypt_sound\<close>) and the library that keeps the
  sessions (record \<open>better_auth\<close>, with \<open>better_auth_ok\<close>); instances that keep the laws stand beside
  the theorems. The billing
  pages divide in doubles; there the model is exact, rounded where the code rounds.
  Isolation between requests comes from advisory and row locks in the code, the subject of Locks; in
  the other theories each locked operation is one step, and the races modelled inside an operation are those the code
  handles itself, or fails to: the unique constraint on the idempotency key, the guarded edit of a
  book or skill, the month sheets, the claim of a refund, and the confirmation of referrals.

  Bounds. A stored amount fits DECIMAL(14,2) (\<open>fits_money\<close>), otherwise the write fails like the
  database makes it fail. The walk up the parents of an account visits no account twice, so it needs
  no fuel: the set of accounts not yet seen shrinks.

  Not modelled: the screens of the platform's administration that list and edit rows no rule here
  depends on, the profile of a user, the store of passwords, mail, uploads and scheduled jobs; and the
  controllers, whose checks reappear as the conditions of the operations they call.
\<close>

end
